(* ===== verification/Prelude.thy ===== *)
theory Prelude imports Main begin

text \<open>
  What the component theories share: fallible computation, machine integers, and ordered maps.

  \<^item> A Rust \<open>Result<T, E>\<close> is the sum \<open>'e + 'a\<close>, with \<open>Inl\<close> for the error. The operator
    \<open>?\<close> is \<open>and_then\<close>, a loop whose body may return early is \<open>try_fold\<close> or \<open>try_map\<close>.
  \<^item> A Rust \<open>i64\<close> is an \<open>int\<close>; the operations that can leave the range are checked ones, and
    they name the range (\<open>in_i64\<close>). Where the source uses an unchecked operation, the component
    proves that the range is kept.
  \<^item> A \<open>BTreeMap\<close> is the list of its entries in strictly ascending key order, so that the
    order in which the source iterates over it and its equality are those of the list. The
    locale \<open>ordered_map\<close> is the interface the components rely on.
  \<^item> The locale \<open>event_source\<close> is the interface of an event-sourced component: a transition
    that may refuse an event, and the replay of a history.
\<close>

named_theorems result_simps \<open>inversion of fallible computations\<close>
named_theorems i64_simps \<open>the range of 64 bit signed integers\<close>

section \<open>Fallible computation\<close>

text \<open>
  A call either returns, or returns an error of its own error type, or panics: an index out of
  range, an \<open>expect\<close> or \<open>unwrap\<close> on nothing, a division by zero, or an overflow of an operation
  that the source does not check. (A release build wraps where the last one panics; the
  components prove that neither happens.)
\<close>

datatype 'e failure = Err 'e | Panic

type_synonym ('e, 'a) outcome = "'e failure + 'a"

abbreviation err :: "'e \<Rightarrow> ('e, 'a) outcome" where
  "err e \<equiv> Inl (Err e)"

abbreviation panic :: "('e, 'a) outcome" where
  "panic \<equiv> Inl Panic"

definition and_then :: "'e + 'a \<Rightarrow> ('a \<Rightarrow> 'e + 'b) \<Rightarrow> 'e + 'b" where
  "and_then r f = (case r of Inl e \<Rightarrow> Inl e | Inr a \<Rightarrow> f a)"

lemma and_then_simps [simp]:
  "and_then (Inl e) f = Inl e"
  "and_then (Inr a) f = f a"
  by (simp_all add: and_then_def)

lemma and_then_Inr_iff [result_simps]:
  "and_then r f = Inr b \<longleftrightarrow> (\<exists>a. r = Inr a \<and> f a = Inr b)"
  by (cases r) simp_all

lemma and_then_Inl_iff:
  "and_then r f = Inl e \<longleftrightarrow> r = Inl e \<or> (\<exists>a. r = Inr a \<and> f a = Inl e)"
  by (cases r) simp_all

lemma and_then_cong [fundef_cong]:
  "r = r' \<Longrightarrow> (\<And>a. r' = Inr a \<Longrightarrow> f a = f' a) \<Longrightarrow> and_then r f = and_then r' f'"
  by (cases r') simp_all

definition ok_or :: "'e \<Rightarrow> 'a option \<Rightarrow> 'e + 'a" where
  "ok_or e x = (case x of None \<Rightarrow> Inl e | Some a \<Rightarrow> Inr a)"

lemma ok_or_simps [simp]:
  "ok_or e None = Inl e"
  "ok_or e (Some a) = Inr a"
  by (simp_all add: ok_or_def)

lemma ok_or_Inr_iff [result_simps]: "ok_or e x = Inr a \<longleftrightarrow> x = Some a"
  by (cases x) simp_all

definition map_err :: "('e \<Rightarrow> 'f) \<Rightarrow> 'e + 'a \<Rightarrow> 'f + 'a" where
  "map_err g r = (case r of Inl e \<Rightarrow> Inl (g e) | Inr a \<Rightarrow> Inr a)"

lemma map_err_simps [simp]:
  "map_err g (Inl e) = Inl (g e)"
  "map_err g (Inr a) = Inr a"
  by (simp_all add: map_err_def)

lemma map_err_Inr_iff [result_simps]: "map_err g r = Inr a \<longleftrightarrow> r = Inr a"
  by (cases r) simp_all

definition expect :: "'a option \<Rightarrow> ('e, 'a) outcome" where
  "expect x = ok_or Panic x"

lemma expect_simps [simp]:
  "expect None = panic"
  "expect (Some a) = Inr a"
  by (simp_all add: expect_def)

definition index :: "'a list \<Rightarrow> nat \<Rightarrow> ('e, 'a) outcome" where
  "index xs i = (if i < length xs then Inr (xs ! i) else panic)"

lemma index_in [simp]: "i < length xs \<Longrightarrow> index xs i = Inr (xs ! i)"
  by (simp add: index_def)

lemma index_Inr_iff [result_simps]: "index xs i = Inr a \<longleftrightarrow> i < length xs \<and> a = xs ! i"
  by (auto simp: index_def)

definition set_at :: "'a list \<Rightarrow> nat \<Rightarrow> 'a \<Rightarrow> ('e, 'a list) outcome" where
  "set_at xs i a = (if i < length xs then Inr (xs[i := a]) else panic)"

lemma set_at_in [simp]: "i < length xs \<Longrightarrow> set_at xs i a = Inr (xs[i := a])"
  by (simp add: set_at_def)

lemma set_at_Inr_iff [result_simps]: "set_at xs i a = Inr ys \<longleftrightarrow> i < length xs \<and> ys = xs[i := a]"
  by (auto simp: set_at_def)

text \<open>\<open>Iterator::position\<close>.\<close>

fun position :: "('a \<Rightarrow> bool) \<Rightarrow> 'a list \<Rightarrow> nat option" where
  "position P [] = None"
| "position P (x # xs) = (if P x then Some 0 else map_option Suc (position P xs))"

lemma position_nth:
  "distinct (map f xs) \<Longrightarrow> j < length xs \<Longrightarrow> position (\<lambda>e. f e = f (xs ! j)) xs = Some j"
proof (induction xs arbitrary: j)
  case (Cons x xs)
  then show ?case by (cases j) (auto simp: image_iff)
qed simp

fun try_fold :: "('s \<Rightarrow> 'a \<Rightarrow> 'e + 's) \<Rightarrow> 's \<Rightarrow> 'a list \<Rightarrow> 'e + 's" where
  "try_fold f s [] = Inr s"
| "try_fold f s (x # xs) = and_then (f s x) (\<lambda>s'. try_fold f s' xs)"

lemma try_fold_append:
  "try_fold f s (xs @ ys) = and_then (try_fold f s xs) (\<lambda>s'. try_fold f s' ys)"
proof (induction xs arbitrary: s)
  case (Cons x xs)
  then show ?case by (cases "f s x") simp_all
qed simp

fun try_map :: "('a \<Rightarrow> 'e + 'b) \<Rightarrow> 'a list \<Rightarrow> 'e + 'b list" where
  "try_map f [] = Inr []"
| "try_map f (x # xs) = and_then (f x) (\<lambda>y. and_then (try_map f xs) (\<lambda>ys. Inr (y # ys)))"

lemma try_map_Inr_iff: "try_map f xs = Inr ys \<longleftrightarrow> list_all2 (\<lambda>x y. f x = Inr y) xs ys"
proof (induction xs arbitrary: ys)
  case Nil
  show ?case by auto
next
  case (Cons x xs)
  then show ?case by (cases ys) (auto simp: result_simps)
qed

lemma try_map_total: "(\<And>x. x \<in> set xs \<Longrightarrow> f x = Inr (g x)) \<Longrightarrow> try_map f xs = Inr (map g xs)"
  by (induction xs) simp_all

section \<open>Signed 64 bit integers\<close>

definition i64_min :: int where "i64_min = - 9223372036854775808"
definition i64_max :: int where "i64_max = 9223372036854775807"

definition in_i64 :: "int \<Rightarrow> bool" where
  "in_i64 n \<longleftrightarrow> i64_min \<le> n \<and> n \<le> i64_max"

definition to_i64 :: "int \<Rightarrow> int option" where
  "to_i64 n = (if in_i64 n then Some n else None)"

lemmas i64_defs = in_i64_def i64_min_def i64_max_def

lemma to_i64_Some_iff [result_simps]: "to_i64 n = Some m \<longleftrightarrow> m = n \<and> in_i64 n"
  by (auto simp: to_i64_def)

lemma to_i64_in [simp]: "in_i64 n \<Longrightarrow> to_i64 n = Some n"
  by (simp add: to_i64_def)

lemma in_i64_small [simp]: "in_i64 0" "in_i64 1"
  by (simp_all add: i64_defs)

text \<open>The unchecked operators: an overflow is a panic.\<close>

definition i64_op :: "int \<Rightarrow> ('e, int) outcome" where
  "i64_op n = (if in_i64 n then Inr n else panic)"

lemma i64_op_in [simp]: "in_i64 n \<Longrightarrow> i64_op n = Inr n"
  by (simp add: i64_op_def)

lemma i64_op_Inr_iff [result_simps]: "i64_op n = Inr m \<longleftrightarrow> m = n \<and> in_i64 n"
  by (auto simp: i64_op_def)

definition usize_max :: nat where "usize_max = 18446744073709551615"

text \<open>Subtraction on \<open>usize\<close>: below zero it is a panic.\<close>

definition usize_sub :: "nat \<Rightarrow> nat \<Rightarrow> ('e, nat) outcome" where
  "usize_sub a b = (if b \<le> a then Inr (a - b) else panic)"

lemma usize_sub_in [simp]: "b \<le> a \<Longrightarrow> usize_sub a b = Inr (a - b)"
  by (simp add: usize_sub_def)

lemma usize_sub_Inr_iff [result_simps]: "usize_sub a b = Inr c \<longleftrightarrow> b \<le> a \<and> c = a - b"
  by (auto simp: usize_sub_def)

text \<open>\<open>usize::try_from\<close> on a wide integer (a 64 bit target).\<close>

definition to_usize :: "int \<Rightarrow> nat option" where
  "to_usize n = (if 0 \<le> n \<and> n \<le> int usize_max then Some (nat n) else None)"

lemma in_i64_between: "in_i64 a \<Longrightarrow> in_i64 b \<Longrightarrow> a \<le> c \<Longrightarrow> c \<le> b \<Longrightarrow> in_i64 c"
  by (auto simp: i64_defs)

lemma try_fold_inv:
  assumes "try_fold f s xs = Inr t" "I s"
    and "\<And>s x s'. x \<in> set xs \<Longrightarrow> I s \<Longrightarrow> f s x = Inr s' \<Longrightarrow> I s'"
  shows "I t"
  using assms
proof (induction xs arbitrary: s)
  case (Cons x xs)
  then obtain s' where "f s x = Inr s'" "try_fold f s' xs = Inr t" by (auto simp: and_then_Inr_iff)
  with Cons show ?case by (meson list.set_intros)
qed simp

section \<open>Absence of panics\<close>

definition no_panic :: "('e, 'a) outcome \<Rightarrow> bool" where
  "no_panic r \<longleftrightarrow> r \<noteq> panic"

lemma no_panic_simps [simp]:
  "no_panic (Inr a)"
  "no_panic (err e)"
  "\<not> no_panic panic"
  "no_panic (i64_op n) \<longleftrightarrow> in_i64 n"
  "no_panic (index xs i) \<longleftrightarrow> i < length xs"
  "no_panic (expect x) \<longleftrightarrow> x \<noteq> None"
  "no_panic (ok_or (Err e) x)"
  "no_panic (set_at ys j v) \<longleftrightarrow> j < length ys"
  "no_panic (usize_sub k m) \<longleftrightarrow> m \<le> k"
  by (auto simp: no_panic_def i64_op_def index_def expect_def ok_or_def set_at_def usize_sub_def
      split: option.splits)

lemma no_panic_and_then [simp]:
  "no_panic (and_then r f) \<longleftrightarrow> no_panic r \<and> (\<forall>a. r = Inr a \<longrightarrow> no_panic (f a))"
  by (cases r) (auto simp: no_panic_def)

lemma no_panic_cases: "no_panic r \<Longrightarrow> (\<And>a. r = Inr a \<Longrightarrow> P) \<Longrightarrow> (\<And>e. r = err e \<Longrightarrow> P) \<Longrightarrow> P"
  by (cases r) (auto simp: no_panic_def intro: failure.exhaust)

lemma no_panic_try_fold:
  assumes "I s" "\<And>s x. I s \<Longrightarrow> x \<in> set xs \<Longrightarrow> no_panic (f s x)"
    and "\<And>s x s'. I s \<Longrightarrow> x \<in> set xs \<Longrightarrow> f s x = Inr s' \<Longrightarrow> I s'"
  shows "no_panic (try_fold f s xs)"
  using assms
proof (induction xs arbitrary: s)
  case (Cons x xs)
  have "no_panic (try_fold f s' xs)" if "f s x = Inr s'" for s'
    by (rule Cons.IH) (use that Cons.prems in \<open>auto dest: Cons.prems(3)\<close>)
  with Cons.prems show ?case by simp
qed simp

lemma no_panic_try_map: "(\<And>x. x \<in> set xs \<Longrightarrow> no_panic (f x)) \<Longrightarrow> no_panic (try_map f xs)"
  by (induction xs) simp_all

section \<open>Histories\<close>

locale event_source =
  fixes init :: 's and step :: "'s \<Rightarrow> 'e \<Rightarrow> 'err + 's" and inv :: "'s \<Rightarrow> bool"
  assumes inv_init: "inv init"
    and inv_step: "inv s \<Longrightarrow> step s e = Inr s' \<Longrightarrow> inv s'"
begin

lemma run_inv: "inv s \<Longrightarrow> try_fold step s es = Inr s' \<Longrightarrow> inv s'"
proof (induction es arbitrary: s)
  case (Cons e es)
  then show ?case by (auto simp: result_simps intro: inv_step)
qed simp

lemma replay_inv: "try_fold step init es = Inr s \<Longrightarrow> inv s"
  using run_inv inv_init by blast

text \<open>An induction over accepted histories, the last event first.\<close>

lemma replay_induct:
  assumes replay: "try_fold step init es = Inr s"
    and nil: "P [] init"
    and snoc: "\<And>es s e s'. \<lbrakk>try_fold step init es = Inr s; inv s; P es s; step s e = Inr s'\<rbrakk>
       \<Longrightarrow> P (es @ [e]) s'"
  shows "P es s"
  using replay
proof (induction es arbitrary: s rule: rev_induct)
  case Nil
  with nil show ?case by simp
next
  case (snoc e es)
  then obtain s0 where s0: "try_fold step init es = Inr s0" and "step s0 e = Inr s"
    by (auto simp: try_fold_append result_simps)
  with snoc.IH assms(3) replay_inv show ?case by blast
qed

end

locale measured_source = event_source +
  fixes measure_of :: "'s \<Rightarrow> int" and gain :: "'e \<Rightarrow> int"
  assumes step_measure: "inv s \<Longrightarrow> step s e = Inr s' \<Longrightarrow> measure_of s' = measure_of s + gain e"
begin

lemma run_measure:
  "inv s \<Longrightarrow> try_fold step s es = Inr s' \<Longrightarrow> measure_of s' = measure_of s + sum_list (map gain es)"
proof (induction es arbitrary: s)
  case (Cons e es)
  then obtain s1 where "step s e = Inr s1" and "try_fold step s1 es = Inr s'"
    by (auto simp: result_simps)
  with Cons show ?case using inv_step step_measure by fastforce
qed simp

end

locale stable_source = event_source +
  fixes kept :: "'s \<Rightarrow> 's \<Rightarrow> bool"
  assumes kept_refl: "kept s s"
    and kept_trans: "kept s t \<Longrightarrow> kept t u \<Longrightarrow> kept s u"
    and step_kept: "inv s \<Longrightarrow> step s e = Inr s' \<Longrightarrow> kept s s'"
begin

lemma run_kept: "inv s \<Longrightarrow> try_fold step s es = Inr s' \<Longrightarrow> kept s s'"
proof (induction es arbitrary: s)
  case Nil
  then show ?case by (simp add: kept_refl)
next
  case (Cons e es)
  then obtain s1 where "step s e = Inr s1" and "try_fold step s1 es = Inr s'"
    by (auto simp: result_simps)
  with Cons show ?case using inv_step step_kept kept_trans by blast
qed

end

end
