(* ===== verification/Ordered_Map.thy ===== *)
theory Ordered_Map imports Prelude begin

text \<open>
  \<open>BTreeMap<K, V>\<close> as the list of its entries in ascending key order: \<open>bt_get\<close>, \<open>bt_insert\<close>
  (which replaces the value of a present key, as \<open>insert\<close> and \<open>get_mut\<close> do) and the
  iteration, which is the list itself. \<open>ordered_map\<close> is the interface: what a lookup returns
  after an insertion, and what an iteration visits.
\<close>

named_theorems bt_simps \<open>laws of ordered maps\<close>

locale ordered_map =
  fixes empty :: 'm and get :: "'m \<Rightarrow> 'k::linorder \<Rightarrow> 'v option"
    and insert :: "'k \<Rightarrow> 'v \<Rightarrow> 'm \<Rightarrow> 'm" and entries :: "'m \<Rightarrow> ('k \<times> 'v) list"
    and invar :: "'m \<Rightarrow> bool"
  assumes invar_empty: "invar empty"
    and get_empty: "get empty k = None"
    and invar_insert: "invar m \<Longrightarrow> invar (insert k v m)"
    and get_insert: "invar m \<Longrightarrow> get (insert k v m) = (get m)(k \<mapsto> v)"
    and entries_ascending: "invar m \<Longrightarrow> sorted_wrt (<) (map fst (entries m))"
    and entries_get: "invar m \<Longrightarrow> (k, v) \<in> set (entries m) \<longleftrightarrow> get m k = Some v"
begin

lemma distinct_entries: "invar m \<Longrightarrow> distinct (entries m)"
  using entries_ascending [of m] by (simp add: strict_sorted_iff distinct_map)

lemma entries_empty: "entries empty = []"
proof (rule ccontr)
  assume "entries empty \<noteq> []"
  then obtain k v where "(k, v) \<in> set (entries empty)" by (metis list.set_intros(1) neq_Nil_conv surj_pair)
  then show False using entries_get invar_empty get_empty by fastforce
qed

lemma entries_ext:
  assumes "invar m" "invar m'" "get m = get m'"
  shows "entries m = entries m'"
proof -
  have "set (entries m) = set (entries m')"
    using assms entries_get by (auto simp: set_eq_iff)
  moreover have "sorted (map fst (entries m)) \<and> distinct (map fst (entries m))"
    "sorted (map fst (entries m')) \<and> distinct (map fst (entries m'))"
    using entries_ascending [of m] entries_ascending [of m'] assms by (simp_all add: strict_sorted_iff)
  ultimately show ?thesis
    using map_sorted_distinct_set_unique [of fst "entries m" "entries m'"] by (simp add: distinct_map)
qed

lemma set_entries_insert:
  "invar m \<Longrightarrow> set (entries (insert k v m)) = {(k', v') \<in> set (entries m). k' \<noteq> k} \<union> {(k, v)}"
  by (auto simp: entries_get invar_insert get_insert split: if_splits)

text \<open>Sums over an iteration after an insertion: the new value replaces the old one.\<close>

lemma sum_entries_insert:
  fixes f :: "'v \<Rightarrow> int"
  assumes "invar m"
  shows "sum_list (map (f \<circ> snd) (entries (insert k v m))) =
    sum_list (map (f \<circ> snd) (entries m)) + f v - (case get m k of None \<Rightarrow> 0 | Some w \<Rightarrow> f w)"
proof -
  let ?old = "{(k', v') \<in> set (entries m). k' \<noteq> k}"
  have split: "set (entries m) = ?old \<union> (case get m k of None \<Rightarrow> {} | Some w \<Rightarrow> {(k, w)})"
    using assms by (auto simp: entries_get split: option.splits)
  have fin: "finite ?old" by (rule finite_subset [of _ "set (entries m)"]) auto
  have "sum (f \<circ> snd) (set (entries m)) =
      sum (f \<circ> snd) ?old + (case get m k of None \<Rightarrow> 0 | Some w \<Rightarrow> f w)"
  proof (cases "get m k")
    case None
    with split show ?thesis by simp
  next
    case (Some w)
    then have "sum (f \<circ> snd) (set (entries m)) = sum (f \<circ> snd) (?old \<union> {(k, w)})"
      using split by (simp only: option.case)
    also have "\<dots> = sum (f \<circ> snd) ?old + f w"
      using fin by (subst sum.union_disjoint) auto
    finally show ?thesis using Some by simp
  qed
  moreover have "sum (f \<circ> snd) (set (entries (insert k v m))) = sum (f \<circ> snd) ?old + f v"
    using fin assms by (simp only: set_entries_insert) (subst sum.union_disjoint, auto)
  ultimately show ?thesis
    using assms by (simp add: sum_list_distinct_conv_sum_set distinct_entries invar_insert)
qed

end

section \<open>The model\<close>

type_synonym ('k, 'v) btree_map = "('k \<times> 'v) list"

definition bt_invar :: "('k::linorder, 'v) btree_map \<Rightarrow> bool" where
  "bt_invar m = sorted_wrt (<) (map fst m)"

abbreviation bt_get :: "('k, 'v) btree_map \<Rightarrow> 'k \<Rightarrow> 'v option" where
  "bt_get m k \<equiv> map_of m k"

fun bt_insert :: "'k::linorder \<Rightarrow> 'v \<Rightarrow> ('k, 'v) btree_map \<Rightarrow> ('k, 'v) btree_map" where
  "bt_insert k v [] = [(k, v)]"
| "bt_insert k v ((k', v') # m) =
     (if k < k' then (k, v) # (k', v') # m
      else if k = k' then (k, v) # m
      else (k', v') # bt_insert k v m)"

definition bt_contains :: "('k, 'v) btree_map \<Rightarrow> 'k \<Rightarrow> bool" where
  "bt_contains m k \<longleftrightarrow> bt_get m k \<noteq> None"

lemma set_bt_insert_keys: "fst ` set (bt_insert k v m) = insert k (fst ` set m)"
  by (induction k v m rule: bt_insert.induct) auto

lemma bt_invar_Nil [simp]: "bt_invar []"
  by (simp add: bt_invar_def)

lemma bt_invar_Cons: "bt_invar (x # m) \<longleftrightarrow> (\<forall>k \<in> fst ` set m. fst x < k) \<and> bt_invar m"
  by (auto simp: bt_invar_def)

lemma bt_invar_insert [simp]: "bt_invar m \<Longrightarrow> bt_invar (bt_insert k v m)"
proof (induction k v m rule: bt_insert.induct)
  case (2 k v k' v' m)
  have "bt_invar (bt_insert k v m)" if "k' < k" using 2 that by (auto simp: bt_invar_Cons)
  with 2 show ?case by (auto simp: bt_invar_Cons set_bt_insert_keys dest: not_less_iff_gr_or_eq[THEN iffD1])
qed (simp add: bt_invar_def)

lemma bt_get_insert [simp]: "bt_invar m \<Longrightarrow> bt_get (bt_insert k v m) = (bt_get m)(k \<mapsto> v)"
proof (induction k v m rule: bt_insert.induct)
  case (2 k v k' v' m)
  then show ?case by (auto simp: bt_invar_Cons fun_eq_iff)
qed auto

lemma bt_distinct_keys: "bt_invar m \<Longrightarrow> distinct (map fst m)"
  by (simp add: bt_invar_def strict_sorted_iff)

interpretation bt: ordered_map "[]" "map_of" bt_insert "\<lambda>m. m" bt_invar
proof unfold_locales
  show "(k, v) \<in> set m \<longleftrightarrow> bt_get m k = Some v" if "bt_invar m"
    for m :: "('a::linorder, 'b) btree_map" and k v
    using that by (simp add: bt_distinct_keys)
qed (simp_all, simp add: bt_invar_def)

definition bt_sum :: "('v \<Rightarrow> int) \<Rightarrow> ('k, 'v) btree_map \<Rightarrow> int" where
  "bt_sum f m = sum_list (map (f \<circ> snd) m)"

lemma bt_sum_Nil [simp]: "bt_sum f [] = 0"
  by (simp add: bt_sum_def)

lemma bt_sum_Cons [simp]: "bt_sum f (x # m) = f (snd x) + bt_sum f m"
  by (simp add: bt_sum_def)

lemma bt_sum_insert [bt_simps]:
  "bt_invar m \<Longrightarrow> bt_sum f (bt_insert k v m) =
    bt_sum f m + f v - (case bt_get m k of None \<Rightarrow> 0 | Some w \<Rightarrow> f w)"
  unfolding bt_sum_def by (rule bt.sum_entries_insert)

lemma bt_ext: "bt_invar m \<Longrightarrow> bt_invar m' \<Longrightarrow> bt_get m = bt_get m' \<Longrightarrow> m = m'"
  by (rule bt.entries_ext)

lemma bt_entry_iff: "bt_invar m \<Longrightarrow> (k, v) \<in> set m \<longleftrightarrow> bt_get m k = Some v"
  by (rule bt.entries_get)

lemma bt_contains_insert [simp]:
  "bt_invar m \<Longrightarrow> bt_contains (bt_insert k v m) k' \<longleftrightarrow> k' = k \<or> bt_contains m k'"
  by (simp add: bt_contains_def)

end
