(* ===== verification/Rust_Text.thy ===== *)
theory Rust_Text imports Prelude "HOL-Library.List_Lexorder" begin

text \<open>
  Rust strings and what the components use of them. A \<open>String\<close> is the list of its \<open>char\<close>s,
  that is of Unicode scalar values; \<open>utf8\<close> is its byte representation, which \<open>len\<close>,
  \<open>bytes\<close> and \<open>as_bytes\<close> read. \<open>String\<close> ordering compares bytes, which for UTF-8 is the
  order of the scalar values, the lexicographic order of the library.
\<close>

type_synonym rchar = nat
type_synonym rstring = "rchar list"

text \<open>A string literal of the source.\<close>

definition lit :: "string \<Rightarrow> rstring" where
  "lit s = map of_char s"

lemma lit_simps [simp]:
  "lit [] = []"
  "lit (c # s) = of_char c # lit s"
  by (simp_all add: lit_def)

fun utf8_char :: "rchar \<Rightarrow> nat list" where
  "utf8_char c =
     (if c < 128 then [c]
      else if c < 2048 then [192 + c div 64, 128 + c mod 64]
      else if c < 65536 then [224 + c div 4096, 128 + (c div 64) mod 64, 128 + c mod 64]
      else [240 + c div 262144, 128 + (c div 4096) mod 64, 128 + (c div 64) mod 64, 128 + c mod 64])"

definition utf8 :: "rstring \<Rightarrow> nat list" where
  "utf8 s = concat (map utf8_char s)"

definition is_ascii_lowercase :: "nat \<Rightarrow> bool" where
  "is_ascii_lowercase c \<longleftrightarrow> 97 \<le> c \<and> c \<le> 122"

definition is_ascii_digit :: "nat \<Rightarrow> bool" where
  "is_ascii_digit c \<longleftrightarrow> 48 \<le> c \<and> c \<le> 57"

definition is_ascii_hexdigit :: "nat \<Rightarrow> bool" where
  "is_ascii_hexdigit c \<longleftrightarrow> is_ascii_digit c \<or> (65 \<le> c \<and> c \<le> 70) \<or> (97 \<le> c \<and> c \<le> 102)"

definition to_ascii_lowercase :: "rstring \<Rightarrow> rstring" where
  "to_ascii_lowercase s = map (\<lambda>c. if 65 \<le> c \<and> c \<le> 90 then c + 32 else c) s"

text \<open>\<open>char::is_control\<close>: the general category \<open>Cc\<close>.\<close>

definition is_control :: "rchar \<Rightarrow> bool" where
  "is_control c \<longleftrightarrow> c < 32 \<or> (127 \<le> c \<and> c < 160)"

text \<open>\<open>char::is_whitespace\<close>: the Unicode property \<open>White_Space\<close>.\<close>

definition is_whitespace :: "rchar \<Rightarrow> bool" where
  "is_whitespace c \<longleftrightarrow> (9 \<le> c \<and> c \<le> 13) \<or> c = 32 \<or> c = 133 \<or> c = 160 \<or> c = 5760 \<or>
     (8192 \<le> c \<and> c \<le> 8202) \<or> c = 8232 \<or> c = 8233 \<or> c = 8239 \<or> c = 8287 \<or> c = 12288"

definition trim :: "rstring \<Rightarrow> rstring" where
  "trim s = rev (dropWhile is_whitespace (rev (dropWhile is_whitespace s)))"

lemma trim_empty_iff: "trim s = [] \<longleftrightarrow> list_all is_whitespace s"
proof
  assume "trim s = []"
  then have "\<forall>c \<in> set (dropWhile is_whitespace s). is_whitespace c"
    by (simp add: trim_def dropWhile_eq_Nil_conv)
  then show "list_all is_whitespace s"
    by (metis (no_types, lifting) dropWhile_eq_Nil_conv hd_dropWhile list.set_sel(1) list_all_iff)
next
  assume "list_all is_whitespace s"
  then have "dropWhile is_whitespace s = []" by (simp add: list_all_iff)
  then show "trim s = []" by (simp only: trim_def dropWhile.simps rev.simps)
qed

section \<open>Parts of a text\<close>

text \<open>\<open>str::split\<close> at a character.\<close>

fun split_at_char :: "rchar \<Rightarrow> rstring \<Rightarrow> rstring list" where
  "split_at_char d [] = [[]]"
| "split_at_char d (c # cs) =
     (if c = d then [] # split_at_char d cs
      else case split_at_char d cs of [] \<Rightarrow> [[c]] | seg # segs \<Rightarrow> (c # seg) # segs)"

definition strip_prefix :: "rstring \<Rightarrow> rstring \<Rightarrow> rstring option" where
  "strip_prefix p s = (if take (length p) s = p then Some (drop (length p) s) else None)"

definition strip_suffix_char :: "rchar \<Rightarrow> rstring \<Rightarrow> rstring option" where
  "strip_suffix_char c s = (if s \<noteq> [] \<and> last s = c then Some (butlast s) else None)"

lemma strip_prefix_Some_iff: "strip_prefix p s = Some t \<longleftrightarrow> s = p @ t"
  by (auto simp: strip_prefix_def) (metis append_take_drop_id)

lemma strip_suffix_char_Some_iff: "strip_suffix_char c s = Some t \<longleftrightarrow> s = t @ [c]"
  by (auto simp: strip_suffix_char_def) (metis butlast_snoc)

section \<open>Decimal text\<close>

fun show_nat :: "nat \<Rightarrow> rstring" where
  "show_nat n = (if n < 10 then [48 + n] else show_nat (n div 10) @ [48 + n mod 10])"

declare show_nat.simps [simp del]

definition show_int :: "int \<Rightarrow> rstring" where
  "show_int n = (if n < 0 then 45 # show_nat (nat (- n)) else show_nat (nat n))"

definition decimal_value :: "rstring \<Rightarrow> nat" where
  "decimal_value s = foldl (\<lambda>n c. 10 * n + (c - 48)) 0 s"

definition u64_max :: nat where "u64_max = 18446744073709551615"

text \<open>
  \<open>str::parse::<u64>\<close>: an optional plus sign, then at least one digit, without overflow.
\<close>

definition parse_u64 :: "rstring \<Rightarrow> nat option" where
  "parse_u64 s =
     (let digits = (case s of c # cs \<Rightarrow> if c = 43 then cs else s | [] \<Rightarrow> s)
      in if digits = [] \<or> \<not> list_all is_ascii_digit digits then None
         else if decimal_value digits \<le> u64_max then Some (decimal_value digits) else None)"

lemma show_nat_small: "n < 10 \<Longrightarrow> show_nat n = [48 + n]"
  by (simp add: show_nat.simps)

lemma show_nat_large: "10 \<le> n \<Longrightarrow> show_nat n = show_nat (n div 10) @ [48 + n mod 10]"
  by (simp add: show_nat.simps [of n])

lemma show_nat_nonempty [simp]: "show_nat n \<noteq> []"
  by (simp add: show_nat.simps [of n])

lemma show_nat_digits: "list_all is_ascii_digit (show_nat n)"
proof (induction n rule: show_nat.induct)
  case (1 n)
  then show ?case
    by (cases "n < 10") (auto simp: show_nat_small show_nat_large is_ascii_digit_def)
qed

lemma decimal_value_snoc [simp]: "decimal_value (s @ [c]) = 10 * decimal_value s + (c - 48)"
  by (simp add: decimal_value_def)

lemma decimal_value_Nil [simp]: "decimal_value [] = 0"
  by (simp add: decimal_value_def)

lemma decimal_value_show [simp]: "decimal_value (show_nat n) = n"
proof (induction n rule: show_nat.induct)
  case (1 n)
  then show ?case
    by (cases "n < 10") (simp_all add: show_nat_small show_nat_large decimal_value_def)
qed

lemma show_nat_inj: "show_nat m = show_nat n \<Longrightarrow> m = n"
  by (metis decimal_value_show)

lemma show_nat_no_leading_zero: "0 < n \<Longrightarrow> hd (show_nat n) \<noteq> 48"
proof (induction n rule: show_nat.induct)
  case (1 n)
  show ?case
  proof (cases "n < 10")
    case True
    with 1 show ?thesis by (simp add: show_nat_small)
  next
    case False
    with 1 show ?thesis by (simp add: show_nat_large)
  qed
qed

text \<open>A digit string without a leading zero is the text of its value.\<close>

lemma show_decimal_value:
  "list_all is_ascii_digit s \<Longrightarrow> s \<noteq> [] \<Longrightarrow> hd s \<noteq> 48 \<Longrightarrow>
    0 < decimal_value s \<and> show_nat (decimal_value s) = s"
proof (induction s rule: rev_induct)
  case (snoc c s)
  show ?case
  proof (cases "s = []")
    case True
    with snoc.prems show ?thesis
      by (auto simp: decimal_value_def show_nat_small is_ascii_digit_def)
  next
    case False
    with snoc have IH: "0 < decimal_value s" "show_nat (decimal_value s) = s" by simp_all
    obtain d where c: "c = 48 + d" and d: "d < 10"
      using snoc.prems(1) by (auto simp: is_ascii_digit_def dest: le_Suc_ex)
    have "show_nat (10 * decimal_value s + d) = show_nat (decimal_value s) @ [48 + d]"
      using IH(1) d by (subst show_nat_large) auto
    with IH c show ?thesis by simp
  qed
qed simp

lemma parse_u64_show: "n \<le> u64_max \<Longrightarrow> parse_u64 (show_nat n) = Some n"
proof -
  assume n: "n \<le> u64_max"
  have "hd (show_nat n) \<noteq> 43"
    using show_nat_digits [of n] by (cases "show_nat n") (auto simp: is_ascii_digit_def)
  then have "(case show_nat n of c # cs \<Rightarrow> if c = 43 then cs else show_nat n | [] \<Rightarrow> show_nat n) = show_nat n"
    by (cases "show_nat n") auto
  with n show ?thesis by (simp add: parse_u64_def Let_def show_nat_digits)
qed

lemma utf8_ascii: "list_all (\<lambda>c. c < 128) s \<Longrightarrow> utf8 s = s"
  by (induction s) (auto simp: utf8_def)

text \<open>Every byte of a non-ASCII character is at least 128.\<close>

lemma utf8_high_bytes: "128 \<le> c \<Longrightarrow> \<forall>b \<in> set (utf8_char c). 128 \<le> b"
  by auto

lemma utf8_low_iff: "list_all (\<lambda>b. b < 128) (utf8 s) \<longleftrightarrow> list_all (\<lambda>c. c < 128) s"
proof (induction s)
  case (Cons c s)
  then show ?case
    by (cases "c < 128") (auto simp: utf8_def)
qed (simp add: utf8_def)

lemma digits_are_ascii: "list_all is_ascii_digit (utf8 s) \<longleftrightarrow> list_all is_ascii_digit s"
proof
  assume a: "list_all is_ascii_digit (utf8 s)"
  then have "list_all (\<lambda>b. b < 128) (utf8 s)"
    by (auto simp: list_all_iff is_ascii_digit_def)
  then have "utf8 s = s" by (simp add: utf8_low_iff utf8_ascii)
  with a show "list_all is_ascii_digit s" by simp
next
  assume a: "list_all is_ascii_digit s"
  then have "list_all (\<lambda>b. b < 128) s" by (auto simp: list_all_iff is_ascii_digit_def)
  with a show "list_all is_ascii_digit (utf8 s)" by (simp add: utf8_ascii)
qed

lemma utf8_digits: "list_all is_ascii_digit s \<Longrightarrow> utf8 s = s"
  by (rule utf8_ascii) (auto simp: list_all_iff is_ascii_digit_def)

end
