(* ===== verification/Bet_Types.thy ===== *)
theory Bet_Types imports Ordered_Map Rust_Text begin

text \<open>
  The data of the prediction bot (\<open>prediction_bot/lib/src/domain.rs\<close>, \<open>types.rs\<close>): policy,
  actor, commands, projection state, events, errors, and the canonical text form of Discord
  identifiers. Newtypes around integers are the integers; \<open>u64\<close> and \<open>usize\<close> are \<open>nat\<close>,
  \<open>i64\<close> is \<open>int\<close>.
\<close>

section \<open>Semantic values\<close>

type_synonym user_id = nat
type_synonym channel_id = nat
type_synonym outcome_index = nat
type_synonym points = int
type_synonym event_revision = int
type_synonym market_id = rstring

definition next_revision :: "event_revision \<Rightarrow> event_revision option" where
  "next_revision r = to_i64 (r + 1)"

section \<open>State, commands and events\<close>

record policy =
  pol_amount :: points
  pol_interval :: int

record actor =
  act_user :: user_id
  act_moderator :: bool
  act_bot :: bool

datatype command =
    Join
  | Create market_id rstring "rstring list" int
  | Bet market_id outcome_index points
  | Resolve market_id outcome_index
  | AddResolver market_id user_id
  | RemoveResolver market_id user_id
  | Cancel market_id
  | Grant user_id

record account =
  balance :: points
  next_grant :: int

datatype status = Open | Resolved outcome_index bool | Cancelled

record bet =
  bet_user :: user_id
  bet_outcome :: outcome_index
  bet_amount :: points

record allocation =
  alloc_user :: user_id
  alloc_amount :: points

record market =
  creator :: user_id
  question :: rstring
  options :: "rstring list"
  closes_at :: int
  created_at :: int
  status :: status
  bets :: "bet list"
  total_staked :: points
  market_payouts :: "allocation list"
  resolvers :: "user_id set"

record state =
  policy :: "policy option"
  accounts :: "(user_id, account) btree_map"
  markets :: "(market_id, market) btree_map"

definition default_state :: state where
  "default_state = \<lparr>policy = None, accounts = [], markets = []\<rparr>"

datatype grant_reason = Initial | Periodic

datatype event =
    AnnouncementsEnabled channel_id user_id int
  | GuildEconomyInitialized points int
  | MemberEnrolled user_id int
  | PointsGranted user_id grant_reason points int int int
  | MarketCreated market_id user_id rstring "rstring list" int int
  | BetPlaced market_id user_id outcome_index points int
  | MarketResolved market_id outcome_index user_id int "allocation list" bool
  | MarketResolverAdded market_id user_id user_id int
  | MarketResolverRemoved market_id user_id user_id int
  | MarketCancelled market_id user_id int "allocation list"

text \<open>\<open>Event::name\<close> and \<open>Event::subject\<close>: the type and the subject of the stored event.\<close>

fun event_name :: "event \<Rightarrow> string" where
  "event_name (AnnouncementsEnabled _ _ _) = ''announcements.enabled''"
| "event_name (GuildEconomyInitialized _ _) = ''economy.initialized''"
| "event_name (MemberEnrolled _ _) = ''member.enrolled''"
| "event_name (PointsGranted _ _ _ _ _ _) = ''points.granted''"
| "event_name (MarketCreated _ _ _ _ _ _) = ''market.created''"
| "event_name (BetPlaced _ _ _ _ _) = ''bet.placed''"
| "event_name (MarketResolved _ _ _ _ _ _) = ''market.resolved''"
| "event_name (MarketResolverAdded _ _ _ _) = ''market.resolver.added''"
| "event_name (MarketResolverRemoved _ _ _ _) = ''market.resolver.removed''"
| "event_name (MarketCancelled _ _ _ _) = ''market.cancelled''"

fun subject :: "event \<Rightarrow> rstring" where
  "subject (AnnouncementsEnabled _ _ _) = lit ''announcements''"
| "subject (GuildEconomyInitialized _ _) = lit ''economy''"
| "subject (MemberEnrolled u _) = lit ''members/'' @ show_nat u"
| "subject (PointsGranted u _ _ _ _ _) = lit ''members/'' @ show_nat u"
| "subject (MarketCreated i _ _ _ _ _) = lit ''markets/'' @ i"
| "subject (BetPlaced i _ _ _ _) = lit ''markets/'' @ i"
| "subject (MarketResolved i _ _ _ _ _) = lit ''markets/'' @ i"
| "subject (MarketResolverAdded i _ _ _) = lit ''markets/'' @ i"
| "subject (MarketResolverRemoved i _ _ _) = lit ''markets/'' @ i"
| "subject (MarketCancelled i _ _ _) = lit ''markets/'' @ i"

record decision =
  events :: "event list"
  response :: rstring

datatype domain_error = MembershipRequired | Invalid string | Overflow

datatype membership_evidence =
    Present user_id bool
  | Absent user_id
  | Unavailable

abbreviation invalid :: "string \<Rightarrow> (domain_error, 'a) outcome" where
  "invalid m \<equiv> err (Invalid m)"

section \<open>Discord identifiers as text\<close>

text \<open>
  The module \<open>snowflake\<close>: \<open>parse\<close> reads a canonical decimal string, and zero only where the
  system user is allowed; \<open>serialize_positive\<close> refuses to write a zero, the actor's
  \<open>serialize\<close> writes every identifier.
\<close>

definition snowflake_parse :: "rstring \<Rightarrow> bool \<Rightarrow> (string, user_id) outcome" where
  "snowflake_parse value allow_system =
     (if allow_system \<and> value = lit ''0'' then Inr 0
      else if value = [] \<or> hd (utf8 value) = 48 \<or> \<not> list_all is_ascii_digit (utf8 value)
      then err ''Discord ID must be a canonical decimal string''
      else ok_or (Err ''Discord ID exceeds u64'') (parse_u64 value))"

definition serialize_positive :: "user_id \<Rightarrow> (string, rstring) outcome" where
  "serialize_positive value =
     (if value = 0 then err ''event Discord ID must be positive'' else Inr (show_nat value))"

definition serialize_actor :: "user_id \<Rightarrow> (string, rstring) outcome" where
  "serialize_actor value = Inr (show_nat value)"

lemma snowflake_parse_serialized:
  "0 < n \<Longrightarrow> n \<le> u64_max \<Longrightarrow> snowflake_parse (show_nat n) sys = Inr n"
  using show_nat_digits [of n] show_nat_no_leading_zero [of n] parse_u64_show [of n]
  by (cases "show_nat n") (auto simp: snowflake_parse_def utf8_digits)

lemma snowflake_parse_canonical:
  assumes "snowflake_parse s sys = Inr n"
  shows "show_nat n = s \<and> n \<le> u64_max \<and> (n = 0 \<longrightarrow> sys)"
proof (cases "sys \<and> s = lit ''0''")
  case True
  with assms show ?thesis by (auto simp: snowflake_parse_def show_nat_small u64_max_def)
next
  case False
  with assms have digits: "s \<noteq> []" "hd (utf8 s) \<noteq> 48" "list_all is_ascii_digit s"
    and parsed: "parse_u64 s = Some n"
    by (auto simp: snowflake_parse_def digits_are_ascii result_simps split: if_splits)
  then have "hd s \<noteq> 48" by (simp add: utf8_digits)
  with digits have "0 < decimal_value s \<and> show_nat (decimal_value s) = s"
    by (intro show_decimal_value)
  moreover have "n = decimal_value s \<and> n \<le> u64_max"
    using parsed digits by (cases s) (auto simp: parse_u64_def is_ascii_digit_def Let_def split: if_splits)
  ultimately show ?thesis by auto
qed

end
