(* ===== verification/Bet_Domain.thy ===== *)
theory Bet_Domain imports Bet_Types "HOL-Library.Signed_Division" "HOL-Library.Product_Lexorder" begin

text \<open>
  Validation, stakes, payouts and the transitions of the prediction bot's projection
  (\<open>prediction_bot/lib/src/domain.rs\<close>: \<open>positive_policy\<close> to \<open>payouts\<close>, \<open>apply_inner\<close> and the
  functions it calls, \<open>apply\<close>, \<open>replay\<close>). Unicode lower-casing, which decides when two option
  labels are duplicates, is the argument \<open>lc\<close>. The \<open>i128\<close> intermediate values stay below
  \<open>2 ^ 127\<close> for \<open>i64\<close> amounts, so they are plain integers.
\<close>

section \<open>Checks and checked arithmetic\<close>

definition positive_policy :: "policy \<Rightarrow> (domain_error, unit) outcome" where
  "positive_policy p =
     (if pol_amount p \<le> 0 \<or> pol_interval p \<le> 0 then invalid ''grant policy must be positive''
      else Inr ())"

definition checked_add :: "int \<Rightarrow> int \<Rightarrow> (domain_error, int) outcome" where
  "checked_add a b = ok_or (Err Overflow) (to_i64 (a + b))"

definition checked_points_add :: "points \<Rightarrow> points \<Rightarrow> (domain_error, points) outcome" where
  "checked_points_add a b = checked_add a b"

definition checked_mul :: "int \<Rightarrow> int \<Rightarrow> (domain_error, int) outcome" where
  "checked_mul a b = ok_or (Err Overflow) (to_i64 (a * b))"

definition valid_market_id :: "market_id \<Rightarrow> bool" where
  "valid_market_id i =
     (let bytes = utf8 i
      in length bytes = 36 \<and>
         list_all (\<lambda>(index, byte). if index \<in> {8, 13, 18, 23} then byte = 45 else is_ascii_hexdigit byte)
           (enumerate 0 bytes))"

fun check_options ::
  "(rstring \<Rightarrow> rstring) \<Rightarrow> rstring set \<Rightarrow> rstring list \<Rightarrow> (domain_error, unit) outcome" where
  "check_options lc unique [] = Inr ()"
| "check_options lc unique (opt # opts) =
     (if trim opt = [] \<or> 80 < length opt \<or> lc (trim opt) \<in> unique
      then invalid ''invalid or duplicate outcome''
      else check_options lc (insert (lc (trim opt)) unique) opts)"

definition valid_market ::
  "(rstring \<Rightarrow> rstring) \<Rightarrow> rstring \<Rightarrow> rstring list \<Rightarrow> (domain_error, unit) outcome" where
  "valid_market lc q opts =
     (if trim q = [] \<or> 200 < length q then invalid ''invalid market question''
      else if \<not> (2 \<le> length opts \<and> length opts \<le> 10)
      then invalid ''market needs two to ten outcomes''
      else check_options lc {} opts)"

section \<open>Stakes and payouts\<close>

definition pool :: "market \<Rightarrow> (domain_error, points) outcome" where
  "pool m = (if total_staked m < 0 then invalid ''negative market pool'' else Inr (total_staked m))"

definition add_stake ::
  "outcome_index option \<Rightarrow> (user_id, points) btree_map \<Rightarrow> bet \<Rightarrow>
    (domain_error, (user_id, points) btree_map) outcome" where
  "add_stake selected totals b =
     (if selected = None \<or> selected = Some (bet_outcome b)
      then let old = (case bt_get totals (bet_user b) of None \<Rightarrow> 0 | Some n \<Rightarrow> n)
           in and_then (checked_points_add old (bet_amount b))
                (\<lambda>n. Inr (bt_insert (bet_user b) n totals))
      else Inr totals)"

definition stakes ::
  "market \<Rightarrow> outcome_index option \<Rightarrow> (domain_error, (user_id, points) btree_map) outcome" where
  "stakes m selected = try_fold (add_stake selected) [] (bets m)"

definition allocations :: "(user_id, points) btree_map \<Rightarrow> allocation list" where
  "allocations totals = map (\<lambda>(u, n). \<lparr>alloc_user = u, alloc_amount = n\<rparr>) totals"

text \<open>The quotient and remainder of \<open>i128\<close> truncate towards zero and panic on a zero divisor.\<close>

definition div_rem :: "int \<Rightarrow> int \<Rightarrow> ('e, int \<times> int) outcome" where
  "div_rem a b = (if b = 0 then panic else Inr (a sdiv b, a smod b))"

definition base_payout ::
  "int \<Rightarrow> int \<Rightarrow> user_id \<times> points \<Rightarrow> (domain_error, user_id \<times> int \<times> int) outcome" where
  "base_payout total_pool total_winning_stake entry =
     (case entry of (u, stake) \<Rightarrow>
        and_then (div_rem (total_pool * stake) total_winning_stake) (\<lambda>(quotient, remainder).
        and_then (ok_or (Err Overflow) (to_i64 quotient)) (\<lambda>base.
        Inr (u, base, remainder))))"

definition bump :: "user_id \<times> int \<times> int \<Rightarrow> (domain_error, user_id \<times> int \<times> int) outcome" where
  "bump entry =
     (case entry of (u, base, r) \<Rightarrow> and_then (checked_add base 1) (\<lambda>base'. Inr (u, base', r)))"

definition payouts ::
  "market \<Rightarrow> outcome_index \<Rightarrow> (domain_error, allocation list \<times> bool) outcome" where
  "payouts m oc =
     and_then (stakes m (Some oc)) (\<lambda>winners.
     if winners = []
     then and_then (stakes m None) (\<lambda>totals. Inr (allocations totals, True))
     else and_then (pool m) (\<lambda>total_pool.
       let total_winning_stake = sum_list (map snd winners) in
       and_then (try_map (base_payout total_pool total_winning_stake) winners) (\<lambda>entries.
       let base_sum = sum_list (map (\<lambda>(_, base, _). base) entries) in
       and_then (ok_or (Err Overflow) (to_usize (total_pool - base_sum))) (\<lambda>remainder.
       let ranked = sort_key (\<lambda>(u, _, r). (- r, u)) entries in
       and_then (try_map bump (take remainder ranked)) (\<lambda>bumped.
       let final = sort_key fst (bumped @ drop remainder ranked) in
       Inr (map (\<lambda>(u, n, _). \<lparr>alloc_user = u, alloc_amount = n\<rparr>) final, False))))))"

section \<open>Transitions\<close>

definition record_allocation ::
  "(user_id, account) btree_map \<Rightarrow> (user_id, points) btree_map \<Rightarrow> allocation \<Rightarrow>
    (domain_error, (user_id, points) btree_map) outcome" where
  "record_allocation accs recorded a =
     (if alloc_amount a \<le> 0 \<or> \<not> bt_contains accs (alloc_user a) \<or> bt_contains recorded (alloc_user a)
      then invalid ''invalid allocation''
      else Inr (bt_insert (alloc_user a) (alloc_amount a) recorded))"

definition recorded_allocations ::
  "allocation list \<Rightarrow> (user_id, account) btree_map \<Rightarrow>
    (domain_error, (user_id, points) btree_map) outcome" where
  "recorded_allocations entries accs = try_fold (record_allocation accs) [] entries"

definition credit_allocation ::
  "(user_id, account) btree_map \<Rightarrow> allocation \<Rightarrow> (domain_error, (user_id, account) btree_map) outcome" where
  "credit_allocation accs a =
     and_then (ok_or (Err (Invalid ''unknown allocation member'')) (bt_get accs (alloc_user a))) (\<lambda>acc.
     and_then (checked_points_add (balance acc) (alloc_amount a)) (\<lambda>b.
     Inr (bt_insert (alloc_user a) (acc\<lparr>balance := b\<rparr>) accs)))"

definition credit_allocations ::
  "(user_id, account) btree_map \<Rightarrow> allocation list \<Rightarrow>
    (domain_error, (user_id, account) btree_map) outcome" where
  "credit_allocations accs entries = try_fold credit_allocation accs entries"

definition validate_announcement_activation ::
  "channel_id \<Rightarrow> user_id \<Rightarrow> (domain_error, unit) outcome" where
  "validate_announcement_activation channel moderator =
     (if channel = 0 \<or> moderator = 0 then invalid ''invalid announcement activation'' else Inr ())"

definition apply_initialization :: "state \<Rightarrow> points \<Rightarrow> int \<Rightarrow> (domain_error, state) outcome" where
  "apply_initialization s amount interval =
     (let p = \<lparr>pol_amount = amount, pol_interval = interval\<rparr> in
      and_then (positive_policy p) (\<lambda>_.
      if policy s \<noteq> None \<or> accounts s \<noteq> [] \<or> markets s \<noteq> []
      then invalid ''economy already initialized''
      else Inr (s\<lparr>policy := Some p\<rparr>)))"

definition apply_enrollment :: "state \<Rightarrow> user_id \<Rightarrow> int \<Rightarrow> (domain_error, state) outcome" where
  "apply_enrollment s u enrolled_at =
     (if policy s = None \<or> u = 0 \<or> bt_contains (accounts s) u
      then invalid ''invalid enrollment transition''
      else Inr (s\<lparr>accounts := bt_insert u \<lparr>balance = 0, next_grant = enrolled_at\<rparr> (accounts s)\<rparr>))"

definition apply_grant ::
  "state \<Rightarrow> user_id \<Rightarrow> grant_reason \<Rightarrow> points \<Rightarrow> int \<Rightarrow> int \<Rightarrow> int \<Rightarrow> (domain_error, state) outcome" where
  "apply_grant s u reason amount from_due through_due next =
     and_then (ok_or (Err (Invalid ''economy not initialized'')) (policy s)) (\<lambda>p.
     and_then (positive_policy p) (\<lambda>_.
     and_then (ok_or (Err (Invalid ''grant to unknown member'')) (bt_get (accounts s) u)) (\<lambda>acc.
     if from_due \<noteq> next_grant acc \<or> through_due < from_due \<or> amount \<le> 0
     then invalid ''invalid grant schedule''
     else let distance = through_due - from_due in
     and_then (div_rem distance (pol_interval p)) (\<lambda>(quotient, remainder).
     if remainder \<noteq> 0 then invalid ''grant boundaries are not aligned''
     else and_then (ok_or (Err Overflow) (to_i64 (quotient + 1))) (\<lambda>count.
     if reason = Initial \<and> count \<noteq> 1 then invalid ''grant facts disagree with policy''
     else and_then (checked_mul (pol_amount p) count) (\<lambda>expected.
     if amount \<noteq> expected then invalid ''grant facts disagree with policy''
     else and_then (checked_add through_due (pol_interval p)) (\<lambda>expected_next.
     if next \<noteq> expected_next then invalid ''grant facts disagree with policy''
     else and_then (checked_points_add (balance acc) amount) (\<lambda>b.
     Inr (s\<lparr>accounts := bt_insert u (acc\<lparr>balance := b, next_grant := next\<rparr>) (accounts s)\<rparr>)))))))))"

definition apply_market_creation ::
  "(rstring \<Rightarrow> rstring) \<Rightarrow> state \<Rightarrow> market_id \<Rightarrow> user_id \<Rightarrow> rstring \<Rightarrow> rstring list \<Rightarrow> int \<Rightarrow> int \<Rightarrow>
    (domain_error, state) outcome" where
  "apply_market_creation lc s i cr q opts created closes =
     (if policy s = None \<or> \<not> valid_market_id i \<or> bt_contains (markets s) i \<or>
         \<not> bt_contains (accounts s) cr \<or> closes \<le> created
      then invalid ''invalid market creation transition''
      else and_then (valid_market lc q opts) (\<lambda>_.
        Inr (s\<lparr>markets := bt_insert i
          \<lparr>creator = cr, question = q, options = opts, closes_at = closes, created_at = created,
           status = Open, bets = [], total_staked = 0, market_payouts = [], resolvers = {}\<rparr>
          (markets s)\<rparr>)))"

definition apply_bet ::
  "state \<Rightarrow> market_id \<Rightarrow> user_id \<Rightarrow> outcome_index \<Rightarrow> points \<Rightarrow> int \<Rightarrow> (domain_error, state) outcome" where
  "apply_bet s i u oc amount accepted_at =
     and_then (ok_or (Err (Invalid ''unknown market'')) (bt_get (markets s) i)) (\<lambda>m.
     if status m \<noteq> Open \<or> accepted_at < created_at m \<or> closes_at m \<le> accepted_at \<or>
        length (options m) \<le> oc \<or> amount \<le> 0
     then invalid ''invalid bet transition''
     else and_then (pool m) (\<lambda>staked.
     and_then (checked_points_add staked amount) (\<lambda>next_pool.
     and_then (ok_or (Err (Invalid ''bet by unknown member'')) (bt_get (accounts s) u)) (\<lambda>acc.
     if balance acc < amount then invalid ''insufficient points''
     else and_then (i64_op (balance acc - amount)) (\<lambda>b.
     Inr (s\<lparr>accounts := bt_insert u (acc\<lparr>balance := b\<rparr>) (accounts s),
            markets := bt_insert i
              (m\<lparr>total_staked := next_pool,
                 bets := bets m @ [\<lparr>bet_user = u, bet_outcome = oc, bet_amount = amount\<rparr>]\<rparr>)
              (markets s)\<rparr>))))))"

text \<open>The two checks of a recorded settlement: refunds without a winner, shares with one.\<close>

definition check_refunds ::
  "market \<Rightarrow> (user_id, points) btree_map \<Rightarrow> (user_id, points) btree_map \<Rightarrow> (domain_error, unit) outcome" where
  "check_refunds m recorded winning =
     (if winning \<noteq> [] then invalid ''invalid no-winner refunds''
      else and_then (stakes m None) (\<lambda>totals.
        if recorded \<noteq> totals then invalid ''invalid no-winner refunds'' else Inr ()))"

definition check_shares ::
  "market \<Rightarrow> (user_id, points) btree_map \<Rightarrow> (user_id, points) btree_map \<Rightarrow> (domain_error, unit) outcome" where
  "check_shares m recorded winning =
     (if winning = [] \<or> length recorded \<noteq> length winning \<or>
         list_ex (\<lambda>(u, stake). case bt_get recorded u of None \<Rightarrow> True | Some n \<Rightarrow> n < stake) winning
      then invalid ''invalid winning allocations''
      else and_then (try_fold checked_points_add 0 (map snd recorded)) (\<lambda>allocated.
        and_then (pool m) (\<lambda>staked.
        if allocated \<noteq> staked then invalid ''allocations do not conserve the pool'' else Inr ())))"

definition apply_resolution ::
  "state \<Rightarrow> market_id \<Rightarrow> outcome_index \<Rightarrow> user_id \<Rightarrow> int \<Rightarrow> allocation list \<Rightarrow> bool \<Rightarrow>
    (domain_error, state) outcome" where
  "apply_resolution s i oc resolver settled_at paid refunded =
     and_then (ok_or (Err (Invalid ''unknown market'')) (bt_get (markets s) i)) (\<lambda>m.
     if status m \<noteq> Open \<or> length (options m) \<le> oc \<or> settled_at < closes_at m \<or> resolver = 0
     then invalid ''invalid resolution transition''
     else and_then (recorded_allocations paid (accounts s)) (\<lambda>recorded.
     and_then (stakes m (Some oc)) (\<lambda>winning.
     and_then (if refunded then check_refunds m recorded winning else check_shares m recorded winning) (\<lambda>_.
     and_then (credit_allocations (accounts s) paid) (\<lambda>accs.
     Inr (s\<lparr>accounts := accs,
            markets := bt_insert i (m\<lparr>market_payouts := paid, status := Resolved oc refunded\<rparr>)
              (markets s)\<rparr>))))))"

definition apply_cancellation ::
  "state \<Rightarrow> market_id \<Rightarrow> user_id \<Rightarrow> allocation list \<Rightarrow> (domain_error, state) outcome" where
  "apply_cancellation s i moderator refunds =
     and_then (ok_or (Err (Invalid ''unknown market'')) (bt_get (markets s) i)) (\<lambda>m.
     if status m \<noteq> Open \<or> moderator = 0 then invalid ''invalid cancellation transition''
     else and_then (recorded_allocations refunds (accounts s)) (\<lambda>recorded.
     and_then (stakes m None) (\<lambda>totals.
     if recorded \<noteq> totals then invalid ''invalid cancellation transition''
     else and_then (credit_allocations (accounts s) refunds) (\<lambda>accs.
     Inr (s\<lparr>accounts := accs, markets := bt_insert i (m\<lparr>status := Cancelled\<rparr>) (markets s)\<rparr>)))))"

definition apply_resolver_added ::
  "state \<Rightarrow> market_id \<Rightarrow> user_id \<Rightarrow> user_id \<Rightarrow> int \<Rightarrow> (domain_error, state) outcome" where
  "apply_resolver_added s i u added_by added_at =
     and_then (ok_or (Err (Invalid ''unknown market'')) (bt_get (markets s) i)) (\<lambda>m.
     if u = 0 \<or> added_by = 0 \<or> status m \<noteq> Open \<or> added_at < created_at m \<or> u \<in> resolvers m
     then invalid ''invalid resolver assignment transition''
     else Inr (s\<lparr>markets := bt_insert i (m\<lparr>resolvers := insert u (resolvers m)\<rparr>) (markets s)\<rparr>))"

definition apply_resolver_removed ::
  "state \<Rightarrow> market_id \<Rightarrow> user_id \<Rightarrow> user_id \<Rightarrow> int \<Rightarrow> (domain_error, state) outcome" where
  "apply_resolver_removed s i u removed_by removed_at =
     and_then (ok_or (Err (Invalid ''unknown market'')) (bt_get (markets s) i)) (\<lambda>m.
     if u = 0 \<or> removed_by = 0 \<or> status m \<noteq> Open \<or> removed_at < created_at m \<or> u \<notin> resolvers m
     then invalid ''invalid resolver removal transition''
     else Inr (s\<lparr>markets := bt_insert i (m\<lparr>resolvers := resolvers m - {u}\<rparr>) (markets s)\<rparr>))"

fun apply_inner :: "(rstring \<Rightarrow> rstring) \<Rightarrow> state \<Rightarrow> event \<Rightarrow> (domain_error, state) outcome" where
  "apply_inner lc s (AnnouncementsEnabled channel moderator _) =
     and_then (validate_announcement_activation channel moderator) (\<lambda>_. Inr s)"
| "apply_inner lc s (GuildEconomyInitialized amount interval) = apply_initialization s amount interval"
| "apply_inner lc s (MemberEnrolled u enrolled_at) = apply_enrollment s u enrolled_at"
| "apply_inner lc s (PointsGranted u reason amount from_due through_due next) =
     apply_grant s u reason amount from_due through_due next"
| "apply_inner lc s (MarketCreated i cr q opts created closes) =
     apply_market_creation lc s i cr q opts created closes"
| "apply_inner lc s (BetPlaced i u oc amount accepted_at) = apply_bet s i u oc amount accepted_at"
| "apply_inner lc s (MarketResolved i oc resolver settled_at paid refunded) =
     apply_resolution s i oc resolver settled_at paid refunded"
| "apply_inner lc s (MarketResolverAdded i u added_by added_at) =
     apply_resolver_added s i u added_by added_at"
| "apply_inner lc s (MarketResolverRemoved i u removed_by removed_at) =
     apply_resolver_removed s i u removed_by removed_at"
| "apply_inner lc s (MarketCancelled i moderator _ refunds) = apply_cancellation s i moderator refunds"

text \<open>
  \<open>apply\<close> works on a clone and stores it only on success: the caller's state afterwards, and
  the result.
\<close>

definition apply_event ::
  "(rstring \<Rightarrow> rstring) \<Rightarrow> state \<Rightarrow> event \<Rightarrow> state \<times> (domain_error, unit) outcome" where
  "apply_event lc s e = (case apply_inner lc s e of Inl f \<Rightarrow> (s, Inl f) | Inr s' \<Rightarrow> (s', Inr ()))"

definition replay :: "(rstring \<Rightarrow> rstring) \<Rightarrow> event list \<Rightarrow> (domain_error, state) outcome" where
  "replay lc es = try_fold (apply_inner lc) default_state es"

end
