(* ===== verification/Bet_Decide.thy ===== *)
theory Bet_Decide imports Bet_Domain begin

text \<open>
  Command decisions of the prediction bot (\<open>prediction_bot/lib/src/domain.rs\<close>: \<open>finish\<close>,
  \<open>decide\<close>, \<open>decide_with_membership\<close> and the functions it dispatches to). A decision holds the
  events to record and the text of the reply; the state itself is not changed.
\<close>

text \<open>The events are tried on a clone of the state before the decision is returned.\<close>

definition finish ::
  "(rstring \<Rightarrow> rstring) \<Rightarrow> state \<Rightarrow> event list \<Rightarrow> rstring \<Rightarrow> (domain_error, decision) outcome" where
  "finish lc s evs reply =
     and_then (try_fold (apply_inner lc) s evs) (\<lambda>_. Inr \<lparr>events = evs, response = reply\<rparr>)"

definition decide_join ::
  "(rstring \<Rightarrow> rstring) \<Rightarrow> state \<Rightarrow> actor \<Rightarrow> int \<Rightarrow> policy \<Rightarrow> (domain_error, decision) outcome" where
  "decide_join lc s a now defaults =
     (if act_bot a \<or> act_user a = 0 then invalid ''bots and system users cannot enroll''
      else if bt_contains (accounts s) (act_user a)
      then finish lc s [] (lit ''Already enrolled.'')
      else let p = (case policy s of None \<Rightarrow> defaults | Some p \<Rightarrow> p) in
      and_then (positive_policy p) (\<lambda>_.
      and_then (checked_add now (pol_interval p)) (\<lambda>next.
      finish lc s
        ((if policy s = None then [GuildEconomyInitialized (pol_amount p) (pol_interval p)] else []) @
         [MemberEnrolled (act_user a) now,
          PointsGranted (act_user a) Initial (pol_amount p) now now next])
        (lit ''Enrolled with '' @ show_int (pol_amount p) @ lit '' points.''))))"

definition decide_grant ::
  "(rstring \<Rightarrow> rstring) \<Rightarrow> state \<Rightarrow> actor \<Rightarrow> user_id \<Rightarrow> int \<Rightarrow> (domain_error, decision) outcome" where
  "decide_grant lc s a u now =
     (if act_user a \<noteq> 0 then invalid ''grants require the system actor''
      else
      and_then (ok_or (Err (Invalid ''economy not initialized'')) (policy s)) (\<lambda>p.
      and_then (positive_policy p) (\<lambda>_.
      and_then (ok_or (Err (Invalid ''member not enrolled'')) (bt_get (accounts s) u)) (\<lambda>acc.
      if now < next_grant acc then finish lc s [] (lit ''No grant due.'')
      else
      and_then (div_rem (now - next_grant acc) (pol_interval p)) (\<lambda>(quotient, _).
      and_then (ok_or (Err Overflow) (to_i64 (quotient + 1))) (\<lambda>count.
      and_then (checked_mul (pol_amount p) count) (\<lambda>amount.
      and_then (i64_op (count - 1)) (\<lambda>skipped.
      and_then (checked_mul (pol_interval p) skipped) (\<lambda>offset.
      and_then (checked_add (next_grant acc) offset) (\<lambda>through_due.
      and_then (checked_add through_due (pol_interval p)) (\<lambda>next.
      finish lc s
        [PointsGranted u Periodic amount (next_grant acc) through_due next]
        (lit ''Granted '' @ show_int amount @ lit '' points.''))))))))))))"

definition decide_create ::
  "(rstring \<Rightarrow> rstring) \<Rightarrow> state \<Rightarrow> actor \<Rightarrow> market_id \<Rightarrow> rstring \<Rightarrow> rstring list \<Rightarrow> int \<Rightarrow> int \<Rightarrow>
    (domain_error, decision) outcome" where
  "decide_create lc s a i q opts closes now =
     (if act_bot a \<or> act_user a = 0 then invalid ''bots cannot create markets''
      else if \<not> bt_contains (accounts s) (act_user a) then invalid ''member not enrolled''
      else if \<not> valid_market_id i \<or> bt_contains (markets s) i
      then invalid ''invalid or duplicate market ID''
      else and_then (valid_market lc q opts) (\<lambda>_.
      if closes \<le> now then invalid ''market must close in the future''
      else finish lc s [MarketCreated i (act_user a) q opts now closes]
        (lit ''Market created: '' @ i)))"

definition decide_bet ::
  "(rstring \<Rightarrow> rstring) \<Rightarrow> state \<Rightarrow> actor \<Rightarrow> market_id \<Rightarrow> outcome_index \<Rightarrow> points \<Rightarrow> int \<Rightarrow>
    (domain_error, decision) outcome" where
  "decide_bet lc s a i oc amount now =
     (if act_bot a \<or> act_user a = 0 then invalid ''bots cannot bet''
      else
      and_then (ok_or (Err (Invalid ''member not enrolled'')) (bt_get (accounts s) (act_user a))) (\<lambda>acc.
      and_then (ok_or (Err (Invalid ''unknown market'')) (bt_get (markets s) i)) (\<lambda>m.
      if status m \<noteq> Open \<or> closes_at m \<le> now \<or> now < created_at m
      then invalid ''market is not open for betting''
      else if length (options m) \<le> oc \<or> amount \<le> 0 then invalid ''invalid outcome or stake''
      else if balance acc < amount then invalid ''insufficient points''
      else
      and_then (pool m) (\<lambda>staked.
      and_then (checked_points_add staked amount) (\<lambda>_.
      and_then (index (options m) oc) (\<lambda>label.
      and_then (i64_op (balance acc - amount)) (\<lambda>remaining.
      finish lc s [BetPlaced i (act_user a) oc amount now]
        (lit ''Staked '' @ show_int amount @ lit '' points on '' @ label @
         lit ''. Remaining balance: '' @ show_int remaining @ lit '' points.''))))))))"

text \<open>Who may resolve: a moderator, the creator, or a resolver whose membership is fresh.\<close>

definition check_resolver ::
  "state \<Rightarrow> actor \<Rightarrow> market \<Rightarrow> membership_evidence option \<Rightarrow> (domain_error, unit) outcome" where
  "check_resolver s a m membership =
     (if act_moderator a \<or> act_user a = creator m then Inr ()
      else if act_user a \<notin> resolvers m then invalid ''market creator or moderator required''
      else
      and_then
        (case membership of
           Some (Present u is_bot) \<Rightarrow>
             if u = act_user a then (if is_bot then invalid ''resolver must be human'' else Inr ())
             else err MembershipRequired
         | Some (Absent u) \<Rightarrow>
             if u = act_user a then invalid ''resolver is no longer a server member''
             else err MembershipRequired
         | _ \<Rightarrow> err MembershipRequired) (\<lambda>_.
      if bt_contains (accounts s) (act_user a) then Inr () else invalid ''resolver not enrolled''))"

definition decide_resolve ::
  "(rstring \<Rightarrow> rstring) \<Rightarrow> state \<Rightarrow> actor \<Rightarrow> market_id \<Rightarrow> outcome_index \<Rightarrow> int \<Rightarrow>
    membership_evidence option \<Rightarrow> (domain_error, decision) outcome" where
  "decide_resolve lc s a i oc now membership =
     (if act_bot a \<or> act_user a = 0 then invalid ''market creator or moderator required''
      else
      and_then (ok_or (Err (Invalid ''unknown market'')) (bt_get (markets s) i)) (\<lambda>m.
      and_then (check_resolver s a m membership) (\<lambda>_.
      if status m \<noteq> Open \<or> now < closes_at m then invalid ''market is not ready to resolve''
      else if length (options m) \<le> oc then invalid ''invalid outcome''
      else and_then (payouts m oc) (\<lambda>(paid, refunded).
      finish lc s [MarketResolved i oc (act_user a) now paid refunded]
        (if refunded then lit ''Market resolved; stakes refunded.'' else lit ''Market resolved.'')))))"

definition mention :: "user_id \<Rightarrow> rstring" where
  "mention u = lit ''<@'' @ show_nat u @ lit ''>''"

definition decide_add_resolver ::
  "(rstring \<Rightarrow> rstring) \<Rightarrow> state \<Rightarrow> actor \<Rightarrow> market_id \<Rightarrow> user_id \<Rightarrow> int \<Rightarrow>
    membership_evidence option \<Rightarrow> (domain_error, decision) outcome" where
  "decide_add_resolver lc s a i u now membership =
     and_then (ok_or (Err (Invalid ''unknown market'')) (bt_get (markets s) i)) (\<lambda>m.
     if act_bot a \<or> act_user a = 0 \<or> \<not> act_moderator a \<and> act_user a \<noteq> creator m
     then invalid ''market creator or moderator required''
     else if status m \<noteq> Open then invalid ''market already terminal''
     else
     and_then
       (case membership of
          Some (Present verified is_bot) \<Rightarrow>
            if verified = u
            then (if is_bot \<or> u = 0 then invalid ''resolver must be human'' else Inr ())
            else err MembershipRequired
        | Some (Absent verified) \<Rightarrow>
            if verified = u then invalid ''resolver is no longer a server member''
            else err MembershipRequired
        | _ \<Rightarrow> err MembershipRequired) (\<lambda>_.
     if \<not> bt_contains (accounts s) u then invalid ''resolver not enrolled''
     else if u \<in> resolvers m
     then finish lc s []
       (mention u @ lit '' is already an additional resolver for market '' @ i @ lit ''.'')
     else finish lc s [MarketResolverAdded i u (act_user a) now]
       (lit ''Added '' @ mention u @ lit '' as an additional resolver for market '' @ i @ lit ''.'')))"

definition decide_remove_resolver ::
  "(rstring \<Rightarrow> rstring) \<Rightarrow> state \<Rightarrow> actor \<Rightarrow> market_id \<Rightarrow> user_id \<Rightarrow> int \<Rightarrow>
    (domain_error, decision) outcome" where
  "decide_remove_resolver lc s a i u now =
     and_then (ok_or (Err (Invalid ''unknown market'')) (bt_get (markets s) i)) (\<lambda>m.
     if act_bot a \<or> act_user a = 0 \<or> \<not> act_moderator a \<and> act_user a \<noteq> creator m
     then invalid ''market creator or moderator required''
     else if status m \<noteq> Open then invalid ''market already terminal''
     else if u = 0 then invalid ''invalid resolver''
     else
     let authority = lit '' Separate authority as the market creator or a current moderator remains unchanged.''
     in if u \<notin> resolvers m
     then finish lc s []
       (mention u @ lit '' is not an additional resolver for market '' @ i @ lit ''.'' @ authority)
     else finish lc s [MarketResolverRemoved i u (act_user a) now]
       (lit ''Removed '' @ mention u @ lit '' as an additional resolver for market '' @ i @ lit ''.'' @
        authority))"

definition decide_cancel ::
  "(rstring \<Rightarrow> rstring) \<Rightarrow> state \<Rightarrow> actor \<Rightarrow> market_id \<Rightarrow> int \<Rightarrow> (domain_error, decision) outcome" where
  "decide_cancel lc s a i now =
     (if \<not> act_moderator a \<or> act_bot a \<or> act_user a = 0 then invalid ''moderator required''
      else
      and_then (ok_or (Err (Invalid ''unknown market'')) (bt_get (markets s) i)) (\<lambda>m.
      if status m \<noteq> Open then invalid ''market already terminal''
      else and_then (stakes m None) (\<lambda>totals.
      finish lc s [MarketCancelled i (act_user a) now (allocations totals)]
        (lit ''Market cancelled; stakes refunded.''))))"

fun decide_with_membership ::
  "(rstring \<Rightarrow> rstring) \<Rightarrow> state \<Rightarrow> actor \<Rightarrow> command \<Rightarrow> int \<Rightarrow> policy \<Rightarrow> membership_evidence option \<Rightarrow>
    (domain_error, decision) outcome" where
  "decide_with_membership lc s a Join now defaults membership = decide_join lc s a now defaults"
| "decide_with_membership lc s a (Grant u) now defaults membership = decide_grant lc s a u now"
| "decide_with_membership lc s a (Create i q opts closes) now defaults membership =
     decide_create lc s a i q opts closes now"
| "decide_with_membership lc s a (Bet i oc amount) now defaults membership =
     decide_bet lc s a i oc amount now"
| "decide_with_membership lc s a (Resolve i oc) now defaults membership =
     decide_resolve lc s a i oc now membership"
| "decide_with_membership lc s a (AddResolver i u) now defaults membership =
     decide_add_resolver lc s a i u now membership"
| "decide_with_membership lc s a (RemoveResolver i u) now defaults membership =
     decide_remove_resolver lc s a i u now"
| "decide_with_membership lc s a (Cancel i) now defaults membership = decide_cancel lc s a i now"

definition decide ::
  "(rstring \<Rightarrow> rstring) \<Rightarrow> state \<Rightarrow> actor \<Rightarrow> command \<Rightarrow> int \<Rightarrow> policy \<Rightarrow> (domain_error, decision) outcome" where
  "decide lc s a c now defaults = decide_with_membership lc s a c now defaults None"

text \<open>A decision's events can be recorded: they apply to the state it was taken in.\<close>

lemma finish_Inr_iff [result_simps]:
  "finish lc s evs reply = Inr d \<longleftrightarrow>
     (\<exists>s'. try_fold (apply_inner lc) s evs = Inr s') \<and> d = \<lparr>events = evs, response = reply\<rparr>"
  by (auto simp: finish_def result_simps)

end
