(* ===== verification/Bet_Payouts.thy ===== *)
theory Bet_Payouts imports Bet_Decide "HOL-Library.Multiset" begin

text \<open>
  Stakes and payouts: the accumulated stakes of a market are the sums over its bets, and
  \<open>payouts\<close> is largest-remainder apportionment of the pool among the winners.
\<close>

section \<open>Truncating division on non-negative numbers\<close>

lemma sdiv_nonneg: "0 \<le> a \<Longrightarrow> 0 < b \<Longrightarrow> a sdiv b = a div (b::int)"
  by (cases "a = 0") (simp_all add: signed_divide_int_def)

lemma smod_nonneg: "0 \<le> a \<Longrightarrow> 0 < b \<Longrightarrow> a smod b = a mod (b::int)"
  by (cases "a = 0") (simp_all add: signed_modulo_int_def)

lemma div_rem_nonneg [simp]: "0 \<le> a \<Longrightarrow> 0 < b \<Longrightarrow> div_rem a b = Inr (a div b, a mod b)"
  by (simp add: div_rem_def sdiv_nonneg smod_nonneg)

section \<open>Stakes\<close>

definition selects :: "outcome_index option \<Rightarrow> bet \<Rightarrow> bool" where
  "selects selected b \<longleftrightarrow> selected = None \<or> selected = Some (bet_outcome b)"

definition staked_on :: "bet list \<Rightarrow> outcome_index option \<Rightarrow> points" where
  "staked_on bs selected = sum_list (map bet_amount (filter (selects selected) bs))"

definition staked_by :: "bet list \<Rightarrow> outcome_index option \<Rightarrow> user_id \<Rightarrow> points" where
  "staked_by bs selected u =
     sum_list (map bet_amount (filter (\<lambda>b. selects selected b \<and> bet_user b = u) bs))"

definition value_at :: "(user_id, points) btree_map \<Rightarrow> user_id \<Rightarrow> points" where
  "value_at t u = (case bt_get t u of None \<Rightarrow> 0 | Some n \<Rightarrow> n)"

definition positive_entries :: "(user_id, points) btree_map \<Rightarrow> bool" where
  "positive_entries t \<longleftrightarrow> bt_invar t \<and> (\<forall>n \<in> snd ` set t. 0 < n)"

lemma positive_entries_insert:
  "positive_entries t \<Longrightarrow> 0 < n \<Longrightarrow> positive_entries (bt_insert u n t)"
  by (auto simp: positive_entries_def bt.set_entries_insert)

lemma positive_sum: "positive_entries t \<Longrightarrow> 0 \<le> bt_sum (\<lambda>n. n) t"
  unfolding bt_sum_def by (rule sum_list_nonneg) (force simp: positive_entries_def intro: less_imp_le)

lemma bt_get_le_sum: "positive_entries t \<Longrightarrow> bt_get t u = Some n \<Longrightarrow> n \<le> bt_sum (\<lambda>n. n) t"
proof (induction t)
  case (Cons x t)
  have "positive_entries t" using Cons.prems by (auto simp: positive_entries_def bt_invar_Cons)
  with Cons positive_sum [of t] show ?case by (auto simp: positive_entries_def split: if_splits)
qed simp

lemma value_at_le_sum: "positive_entries t \<Longrightarrow> 0 \<le> value_at t u \<and> value_at t u \<le> bt_sum (\<lambda>n. n) t"
proof (cases "bt_get t u")
  case None
  moreover assume "positive_entries t"
  ultimately show ?thesis using positive_sum by (simp add: value_at_def)
next
  case (Some n)
  moreover assume p: "positive_entries t"
  moreover have "0 < n" using p map_of_SomeD [OF Some] by (force simp: positive_entries_def)
  ultimately show ?thesis by (auto simp: value_at_def intro: bt_get_le_sum)
qed

lemma add_stake_selected:
  assumes "positive_entries t" "selects selected b" "0 < bet_amount b"
    and "bt_sum (\<lambda>n. n) t + bet_amount b \<le> i64_max"
  shows "add_stake selected t b = Inr (bt_insert (bet_user b) (value_at t (bet_user b) + bet_amount b) t)"
proof -
  have "in_i64 (value_at t (bet_user b) + bet_amount b)"
    using value_at_le_sum [OF assms(1), of "bet_user b"] assms(3,4) by (simp add: i64_defs)
  then show ?thesis
    using assms(2) by (auto simp: add_stake_def selects_def value_at_def checked_points_add_def checked_add_def)
qed

text \<open>The loop of \<open>stakes\<close> from any accumulated totals.\<close>

lemma add_stakes:
  assumes "positive_entries t" "\<forall>b \<in> set bs. 0 < bet_amount b"
    and "bt_sum (\<lambda>n. n) t + staked_on bs selected \<le> i64_max"
  shows "\<exists>t'. try_fold (add_stake selected) t bs = Inr t' \<and> positive_entries t' \<and>
    bt_sum (\<lambda>n. n) t' = bt_sum (\<lambda>n. n) t + staked_on bs selected \<and>
    fst ` set t' = fst ` set t \<union> bet_user ` {b \<in> set bs. selects selected b} \<and>
    (\<forall>u. value_at t' u = value_at t u + staked_by bs selected u)"
  using assms
proof (induction bs arbitrary: t)
  case Nil
  then show ?case by (simp add: staked_on_def staked_by_def)
next
  case (Cons b bs)
  show ?case
  proof (cases "selects selected b")
    case False
    then have "add_stake selected t b = Inr t" by (auto simp: add_stake_def selects_def)
    moreover have "\<exists>t'. try_fold (add_stake selected) t bs = Inr t' \<and> positive_entries t' \<and>
      bt_sum (\<lambda>n. n) t' = bt_sum (\<lambda>n. n) t + staked_on bs selected \<and>
      fst ` set t' = fst ` set t \<union> bet_user ` {b \<in> set bs. selects selected b} \<and>
      (\<forall>u. value_at t' u = value_at t u + staked_by bs selected u)"
      using Cons.prems False by (intro Cons.IH) (auto simp: staked_on_def)
    ultimately show ?thesis using False by (auto simp: staked_on_def staked_by_def)
  next
    case True
    let ?t = "bt_insert (bet_user b) (value_at t (bet_user b) + bet_amount b) t"
    have amount: "0 < bet_amount b" using Cons.prems(2) by simp
    have rest: "0 \<le> staked_on bs selected"
      unfolding staked_on_def by (rule sum_list_nonneg) (use Cons.prems(2) in \<open>auto simp: less_imp_le\<close>)
    have step: "add_stake selected t b = Inr ?t"
      using Cons.prems(1,3) True amount rest by (intro add_stake_selected) (auto simp: staked_on_def)
    have pos: "positive_entries ?t"
      using Cons.prems(1) amount value_at_le_sum [OF Cons.prems(1)] by (intro positive_entries_insert) (auto simp: add_nonneg_pos)
    have sum: "bt_sum (\<lambda>n. n) ?t = bt_sum (\<lambda>n. n) t + bet_amount b"
      using Cons.prems(1) by (auto simp: bt_sum_insert positive_entries_def value_at_def split: option.splits)
    have val: "value_at ?t u = value_at t u + (if u = bet_user b then bet_amount b else 0)" for u
      using Cons.prems(1) by (auto simp: positive_entries_def value_at_def)
    have "\<exists>t'. try_fold (add_stake selected) ?t bs = Inr t' \<and> positive_entries t' \<and>
      bt_sum (\<lambda>n. n) t' = bt_sum (\<lambda>n. n) ?t + staked_on bs selected \<and>
      fst ` set t' = fst ` set ?t \<union> bet_user ` {b \<in> set bs. selects selected b} \<and>
      (\<forall>u. value_at t' u = value_at ?t u + staked_by bs selected u)"
      using Cons.prems(2,3) True pos sum by (intro Cons.IH) (auto simp: staked_on_def)
    then show ?thesis
      using True by (auto simp: step sum val set_bt_insert_keys staked_on_def staked_by_def)
  qed
qed

text \<open>What the projection guarantees of a market's stakes.\<close>

definition sound_bets :: "market \<Rightarrow> bool" where
  "sound_bets m \<longleftrightarrow> list_all (\<lambda>b. 0 < bet_amount b) (bets m) \<and>
     total_staked m = sum_list (map bet_amount (bets m)) \<and> total_staked m \<le> i64_max"

lemma staked_on_le: "list_all (\<lambda>b. 0 < bet_amount b) bs \<Longrightarrow>
    0 \<le> staked_on bs selected \<and> staked_on bs selected \<le> sum_list (map bet_amount bs)"
  by (induction bs) (auto simp: staked_on_def)

lemma stakes_sound:
  assumes "sound_bets m"
  obtains t where "stakes m selected = Inr t" "positive_entries t"
    "bt_sum (\<lambda>n. n) t = staked_on (bets m) selected"
    "fst ` set t = bet_user ` {b \<in> set (bets m). selects selected b}"
    "\<forall>u. value_at t u = staked_by (bets m) selected u"
proof -
  have "\<exists>t'. try_fold (add_stake selected) [] (bets m) = Inr t' \<and> positive_entries t' \<and>
    bt_sum (\<lambda>n. n) t' = bt_sum (\<lambda>n. n) ([] :: (user_id, points) btree_map) + staked_on (bets m) selected \<and>
    fst ` set t' = fst ` set ([] :: (user_id, points) btree_map) \<union> bet_user ` {b \<in> set (bets m). selects selected b} \<and>
    (\<forall>u. value_at t' u = value_at [] u + staked_by (bets m) selected u)"
    using assms staked_on_le [of "bets m" selected]
    by (intro add_stakes) (auto simp: sound_bets_def list_all_iff positive_entries_def)
  then show ?thesis using that by (auto simp: stakes_def value_at_def)
qed

lemma stakes_all:
  assumes "sound_bets m" "stakes m None = Inr t"
  shows "positive_entries t" "bt_sum (\<lambda>n. n) t = total_staked m"
  using stakes_sound [OF assms(1), of None] assms
  by (auto simp: staked_on_def selects_def sound_bets_def)

section \<open>Largest-remainder apportionment\<close>

text \<open>
  The reference: each winner gets the floor of the proportional share, and the points that
  are left go one each to the winners with the largest remainders, the lower user first.
\<close>

definition remainder_order :: "points \<Rightarrow> (user_id \<times> points) list \<Rightarrow> (user_id \<times> points) list" where
  "remainder_order P winners =
     (let W = sum_list (map snd winners) in sort_key (\<lambda>(u, s). (- (P * s mod W), u)) winners)"

definition left_over :: "points \<Rightarrow> (user_id \<times> points) list \<Rightarrow> nat" where
  "left_over P winners =
     (let W = sum_list (map snd winners) in nat (P - sum_list (map (\<lambda>(u, s). P * s div W) winners)))"

definition lucky :: "points \<Rightarrow> (user_id \<times> points) list \<Rightarrow> user_id set" where
  "lucky P winners = fst ` set (take (left_over P winners) (remainder_order P winners))"

definition share :: "points \<Rightarrow> (user_id \<times> points) list \<Rightarrow> user_id \<times> points \<Rightarrow> points" where
  "share P winners e =
     P * snd e div sum_list (map snd winners) + (if fst e \<in> lucky P winners then 1 else 0)"

definition shares :: "points \<Rightarrow> (user_id \<times> points) list \<Rightarrow> allocation list" where
  "shares P winners = map (\<lambda>e. \<lparr>alloc_user = fst e, alloc_amount = share P winners e\<rparr>) winners"

definition sound_winners :: "points \<Rightarrow> (user_id \<times> points) list \<Rightarrow> bool" where
  "sound_winners P winners \<longleftrightarrow> positive_entries winners \<and> winners \<noteq> [] \<and>
     sum_list (map snd winners) \<le> P \<and> P \<le> i64_max"

lemma bt_sum_id: "bt_sum (\<lambda>n. n) t = sum_list (map snd t)"
  by (simp add: bt_sum_def comp_def)

lemma stake_bounds:
  assumes "positive_entries winners" "(u, s) \<in> set winners"
  shows "0 < s \<and> s \<le> sum_list (map snd winners)"
proof -
  have "bt_get winners u = Some s" using assms by (simp add: positive_entries_def bt_entry_iff)
  then show ?thesis
    using assms bt_get_le_sum [of winners u s] by (auto simp: bt_sum_id positive_entries_def)
qed

lemma total_winning_positive: "sound_winners P winners \<Longrightarrow> 0 < sum_list (map snd winners)"
  using stake_bounds [of winners] by (cases winners) (fastforce simp: sound_winners_def)+

lemma sum_div_mod:
  fixes W :: int
  shows "sum_list (map f xs) = W * sum_list (map (\<lambda>x. f x div W) xs) + sum_list (map (\<lambda>x. f x mod W) xs)"
  by (induction xs) (simp_all add: algebra_simps)

lemma sum_mod_less:
  fixes W :: int
  shows "0 < W \<Longrightarrow> xs \<noteq> [] \<Longrightarrow> 0 \<le> sum_list (map (\<lambda>x. f x mod W) xs) \<and>
    sum_list (map (\<lambda>x. f x mod W) xs) < W * int (length xs)"
proof (induction xs)
  case (Cons x xs)
  have x: "0 \<le> f x mod W" "f x mod W < W" using Cons.prems by simp_all
  with Cons show ?case by (cases "xs = []") (auto simp: distrib_left)
qed simp

text \<open>The points that are left are fewer than the winners.\<close>

lemma left_over_bounds:
  assumes "sound_winners P winners"
  defines "W \<equiv> sum_list (map snd winners)"
  shows "sum_list (map (\<lambda>e. P * snd e div W) winners) \<le> P"
    and "P - sum_list (map (\<lambda>e. P * snd e div W) winners) < int (length winners)"
proof -
  have W: "0 < W" using total_winning_positive [OF assms(1)] by (simp add: W_def)
  have ne: "winners \<noteq> []" using assms(1) by (simp add: sound_winners_def)
  let ?D = "sum_list (map (\<lambda>e. P * snd e div W) winners)"
  let ?M = "sum_list (map (\<lambda>e. P * snd e mod W) winners)"
  have "P * W = W * ?D + ?M"
    using sum_div_mod [of "\<lambda>e. P * snd e" winners W] by (simp add: W_def sum_list_const_mult)
  then have "W * (P - ?D) = ?M" by (simp add: algebra_simps)
  moreover have "0 \<le> ?M" "?M < W * int (length winners)"
    using sum_mod_less [OF W ne, of "\<lambda>e. P * snd e"] by simp_all
  ultimately have "0 \<le> W * (P - ?D)" "W * (P - ?D) < W * int (length winners)" by simp_all
  then show "?D \<le> P" "P - ?D < int (length winners)"
    using W by (simp_all add: zero_le_mult_iff)
qed

lemma left_over_eq:
  "left_over P winners =
     nat (P - sum_list (map (\<lambda>e. P * snd e div sum_list (map snd winners)) winners))"
  by (simp add: left_over_def case_prod_unfold)

lemma base_bounds:
  assumes "sound_winners P winners" "e \<in> set winners"
  defines "W \<equiv> sum_list (map snd winners)"
  shows "0 \<le> P * snd e div W" "P * snd e div W \<le> P" "snd e \<le> P * snd e div W"
proof -
  have W: "0 < W" "W \<le> P" and s: "0 < snd e" "snd e \<le> W"
    using assms total_winning_positive stake_bounds [of winners "fst e" "snd e"]
    by (auto simp: W_def sound_winners_def)
  have "P * snd e \<le> P * W" using s W by (intro mult_left_mono) auto
  then show "P * snd e div W \<le> P" using W zdiv_mono1 [of "P * snd e" "P * W" W] by simp
  have "W * snd e \<le> P * snd e" using s W by (intro mult_right_mono) auto
  then show "snd e \<le> P * snd e div W" using W zdiv_mono1 [of "W * snd e" "P * snd e" W] by simp
  with s show "0 \<le> P * snd e div W" by simp
qed

lemma base_payouts:
  assumes "sound_winners P winners"
  defines "W \<equiv> sum_list (map snd winners)"
  shows "try_map (base_payout P W) winners =
    Inr (map (\<lambda>e. (fst e, P * snd e div W, P * snd e mod W)) winners)"
proof (rule try_map_total)
  fix e assume e: "e \<in> set winners"
  have W: "0 < W" "0 \<le> P"
    using total_winning_positive [OF assms(1)] assms(1) by (auto simp: W_def sound_winners_def)
  have "0 < snd e" using assms(1) e stake_bounds [of winners "fst e" "snd e"] by (simp add: sound_winners_def)
  moreover have "in_i64 (P * snd e div W)"
    using base_bounds [OF assms(1) e] assms(1) by (simp add: W_def i64_defs sound_winners_def)
  ultimately show "base_payout P W e = Inr (fst e, P * snd e div W, P * snd e mod W)"
    using W by (simp add: base_payout_def case_prod_unfold)
qed

lemma insort_key_map: "insort_key k (h x) (map h xs) = map h (insort_key (\<lambda>x. k (h x)) x xs)"
  by (induction xs) simp_all

lemma sort_key_map: "sort_key k (map h xs) = map h (sort_key (\<lambda>x. k (h x)) xs)"
  by (induction xs) (simp_all add: insort_key_map)

lemma remainder_order_props:
  "mset (remainder_order P winners) = mset winners"
  "set (remainder_order P winners) = set winners"
  by (simp_all add: remainder_order_def Let_def)

lemma bump_bases:
  assumes "sound_winners P winners"
  defines "W \<equiv> sum_list (map snd winners)"
  shows "try_map bump (take (left_over P winners)
      (map (\<lambda>e. (fst e, P * snd e div W, P * snd e mod W)) (remainder_order P winners))) =
    Inr (map (\<lambda>e. (fst e, P * snd e div W + 1, P * snd e mod W))
      (take (left_over P winners) (remainder_order P winners)))"
proof (cases "left_over P winners = 0")
  case False
  let ?D = "sum_list (map (\<lambda>e. P * snd e div W) winners)"
  have bumped: "bump (fst e, P * snd e div W, P * snd e mod W) = Inr (fst e, P * snd e div W + 1, P * snd e mod W)"
    if "e \<in> set (take (left_over P winners) (remainder_order P winners))" for e
  proof -
    have e: "e \<in> set winners" using that remainder_order_props(2) by (metis in_set_takeD)
    have "P * snd e div W \<le> ?D"
      using base_bounds [OF assms(1)] e by (intro member_le_sum_list) (auto simp: W_def)
    moreover have "?D < P"
      using False by (simp add: left_over_eq W_def)
    moreover have "0 \<le> P * snd e div W" using base_bounds [OF assms(1) e] by (simp add: W_def)
    ultimately have "in_i64 (P * snd e div W + 1)"
      using assms(1) by (simp add: i64_defs sound_winners_def)
    then show ?thesis by (simp add: bump_def checked_add_def)
  qed
  then show ?thesis
    unfolding take_map
    by (subst try_map_total [where g = "\<lambda>(u, b, r). (u, b + 1, r)"]) (auto simp: comp_def)
qed simp

text \<open>Sorting the bumped entries by user puts them back in the order of the winners.\<close>

lemma sort_by_user:
  assumes "sound_winners P winners"
  defines "W \<equiv> sum_list (map snd winners)" and "n \<equiv> left_over P winners"
    and "ranked \<equiv> remainder_order P winners"
  shows "sort_key fst
      (map (\<lambda>e. (fst e, P * snd e div W + 1, P * snd e mod W)) (take n ranked) @
       drop n (map (\<lambda>e. (fst e, P * snd e div W, P * snd e mod W)) ranked)) =
    map (\<lambda>e. (fst e, share P winners e, P * snd e mod W)) winners"
proof -
  let ?h = "\<lambda>e. (fst e, share P winners e, P * snd e mod W)"
  have sorted: "sorted (map fst winners)" and dist: "distinct (map fst winners)"
    using assms(1) by (auto simp: sound_winners_def positive_entries_def bt_invar_def strict_sorted_iff)
  have dist': "distinct (map fst ranked)"
    using dist by (metis mset_map ranked_def remainder_order_props(1) mset_eq_imp_distinct_iff)
  have "set (map fst (take n ranked)) \<inter> set (map fst (drop n ranked)) = {}"
    using dist' by (metis append_take_drop_id distinct_append map_append)
  then have outside: "fst e \<notin> lucky P winners" if "e \<in> set (drop n ranked)" for e
    using that by (auto simp: lucky_def n_def ranked_def)
  have first: "map (\<lambda>e. (fst e, P * snd e div W + 1, P * snd e mod W)) (take n ranked) = map ?h (take n ranked)"
    by (auto simp: share_def W_def lucky_def n_def ranked_def)
  have second: "drop n (map (\<lambda>e. (fst e, P * snd e div W, P * snd e mod W)) ranked) = map ?h (drop n ranked)"
    unfolding drop_map using outside by (auto simp: share_def W_def)
  have whole: "map ?h (take n ranked) @ map ?h (drop n ranked) = map ?h ranked"
    by (metis append_take_drop_id map_append)
  have "sort_key fst (map ?h ranked) = map ?h winners"
  proof (rule sort_key_inj_key_eq)
    show "mset (map ?h ranked) = mset (map ?h winners)"
      by (simp only: mset_map ranked_def remainder_order_props(1))
    show "inj_on fst (set (map ?h ranked))"
      using dist' by (auto simp: inj_on_def distinct_map)
    show "sorted (map fst (map ?h winners))" using sorted by (simp add: comp_def)
  qed
  with whole have "sort_key fst (map ?h (take n ranked) @ map ?h (drop n ranked)) = map ?h winners"
    by (simp only:)
  then show ?thesis by (simp only: first second)
qed

lemma winners_sound:
  assumes bets: "sound_bets m" and winners: "stakes m (Some oc) = Inr winners" "winners \<noteq> []"
  shows "sound_winners (total_staked m) winners"
proof -
  obtain t where "stakes m (Some oc) = Inr t" "positive_entries t"
    "bt_sum (\<lambda>n. n) t = staked_on (bets m) (Some oc)"
    using stakes_sound [OF bets] by metis
  with winners have "positive_entries winners"
    and "sum_list (map snd winners) = staked_on (bets m) (Some oc)"
    by (simp_all add: bt_sum_id)
  with winners(2) bets staked_on_le [of "bets m" "Some oc"] show ?thesis
    by (simp add: sound_winners_def sound_bets_def)
qed

lemma payouts_shares:
  assumes bets: "sound_bets m" and winners: "stakes m (Some oc) = Inr winners" "winners \<noteq> []"
  shows "payouts m oc = Inr (shares (total_staked m) winners, False)"
proof -
  let ?P = "total_staked m"
  have sound: "sound_winners ?P winners" by (rule winners_sound) fact+
  have P: "0 \<le> ?P" "?P \<le> i64_max"
    using sound total_winning_positive [OF sound] by (auto simp: sound_winners_def)
  then have pool: "pool m = Inr ?P" by (simp add: pool_def)
  let ?D = "sum_list (map (\<lambda>e. ?P * snd e div sum_list (map snd winners)) winners)"
  have "0 \<le> ?D" using base_bounds [OF sound] by (intro sum_list_nonneg) auto
  then have usize: "to_usize (?P - ?D) = Some (left_over ?P winners)"
    using left_over_bounds [OF sound] P by (auto simp: to_usize_def left_over_eq usize_max_def i64_defs)
  let ?W = "sum_list (map snd winners)"
  let ?entries = "map (\<lambda>e. (fst e, ?P * snd e div ?W, ?P * snd e mod ?W)) winners"
  have base_sum: "sum_list (map (\<lambda>(_, base, _). base) ?entries) = ?D"
    by (simp add: comp_def)
  have ranked: "sort_key (\<lambda>(u, _, r). (- r, u)) ?entries =
      map (\<lambda>e. (fst e, ?P * snd e div ?W, ?P * snd e mod ?W)) (remainder_order ?P winners)"
    by (simp only: sort_key_map remainder_order_def Let_def case_prod_unfold fst_conv snd_conv)
  have final: "map (\<lambda>(u, n, _). \<lparr>alloc_user = u, alloc_amount = n\<rparr>)
      (map (\<lambda>e. (fst e, share ?P winners e, ?P * snd e mod ?W)) winners) = shares ?P winners"
    by (simp add: shares_def)
  show ?thesis
    unfolding payouts_def winners(1) and_then_simps Let_def pool base_payouts [OF sound] base_sum
      usize ranked ok_or_simps bump_bases [OF sound] sort_by_user [OF sound] final
    using winners(2) by simp
qed

section \<open>What the apportionment guarantees\<close>

lemma count_members:
  "distinct (map fst xs) \<Longrightarrow> L \<subseteq> fst ` set xs \<Longrightarrow>
    sum_list (map (\<lambda>e. if fst e \<in> L then 1 else 0) xs) = int (card L)"
proof (induction xs arbitrary: L)
  case (Cons x xs)
  have fin: "finite L" using Cons.prems(2) by (rule finite_subset) simp
  have "map (\<lambda>e. if fst e \<in> L then 1::int else 0) xs = map (\<lambda>e. if fst e \<in> L - {fst x} then 1 else 0) xs"
    using Cons.prems(1) by (auto simp: image_iff)
  moreover have "sum_list (map (\<lambda>e. if fst e \<in> L - {fst x} then 1 else 0) xs) = int (card (L - {fst x}))"
    using Cons.prems by (intro Cons.IH) auto
  ultimately have rest: "sum_list (map (\<lambda>e. if fst e \<in> L then 1 else 0) xs) = int (card (L - {fst x}))"
    by (simp only:)
  show ?case
  proof (cases "fst x \<in> L")
    case True
    then have "card L = Suc (card (L - {fst x}))" using fin by (metis card_Suc_Diff1)
    with True rest show ?thesis by (simp only: list.map sum_list.Cons if_True)
  next
    case False
    with rest show ?thesis by (simp only: list.map sum_list.Cons if_False) simp
  qed
qed simp

lemma lucky_card:
  assumes "sound_winners P winners"
  shows "lucky P winners \<subseteq> fst ` set winners" "card (lucky P winners) = left_over P winners"
proof -
  let ?ranked = "remainder_order P winners"
  have dist: "distinct (map fst winners)"
    using assms by (simp add: sound_winners_def positive_entries_def bt_distinct_keys)
  then have dist': "distinct (map fst (take (left_over P winners) ?ranked))"
    by (metis mset_map remainder_order_props(1) mset_eq_imp_distinct_iff distinct_take take_map)
  have "left_over P winners \<le> length winners"
    using left_over_bounds [OF assms] by (simp add: left_over_eq)
  moreover have "length ?ranked = length winners"
    using remainder_order_props(1) by (metis size_mset)
  ultimately have "length (take (left_over P winners) ?ranked) = left_over P winners" by simp
  then show "card (lucky P winners) = left_over P winners"
    using distinct_card [OF dist'] by (simp add: lucky_def)
  show "lucky P winners \<subseteq> fst ` set winners"
    unfolding lucky_def remainder_order_props(2) [of P winners, symmetric]
    by (intro image_mono set_take_subset)
qed

lemma shares_sum:
  assumes "sound_winners P winners"
  shows "sum_list (map alloc_amount (shares P winners)) = P"
proof -
  have dist: "distinct (map fst winners)"
    using assms by (simp add: sound_winners_def positive_entries_def bt_distinct_keys)
  have "sum_list (map alloc_amount (shares P winners)) =
      sum_list (map (\<lambda>e. P * snd e div sum_list (map snd winners)) winners) +
      sum_list (map (\<lambda>e. if fst e \<in> lucky P winners then 1 else 0) winners)"
    by (simp add: shares_def share_def comp_def sum_list_addf)
  also have "sum_list (map (\<lambda>e. if fst e \<in> lucky P winners then 1 else 0) winners) = int (left_over P winners)"
    using count_members [OF dist lucky_card(1) [OF assms]] lucky_card(2) [OF assms] by simp
  also have "int (left_over P winners) =
      P - sum_list (map (\<lambda>e. P * snd e div sum_list (map snd winners)) winners)"
    using left_over_bounds [OF assms] by (simp add: left_over_eq)
  finally show ?thesis by simp
qed

lemma share_bounds:
  assumes "sound_winners P winners" "e \<in> set winners"
  defines "W \<equiv> sum_list (map snd winners)"
  shows "snd e \<le> share P winners e"
    and "P * snd e - W < W * share P winners e" and "W * share P winners e \<le> P * snd e + W"
proof -
  have W: "0 < W" using total_winning_positive [OF assms(1)] by (simp add: W_def)
  show "snd e \<le> share P winners e"
    using base_bounds(3) [OF assms(1,2)] by (simp add: share_def)
  define q where "q = P * snd e div W"
  define r where "r = P * snd e mod W"
  have split: "P * snd e = W * q + r" and r: "0 \<le> r" "r < W"
    using W by (simp_all add: q_def r_def)
  have share: "share P winners e = q + (if fst e \<in> lucky P winners then 1 else 0)"
    by (simp add: share_def q_def W_def)
  show "P * snd e - W < W * share P winners e" "W * share P winners e \<le> P * snd e + W"
    using r by (simp_all add: share split distrib_left)
qed

end
