(* ===== verification/Bet_Invariant.thy ===== *)
theory Bet_Invariant imports Bet_Payouts begin

text \<open>
  The invariant of the prediction bot's projection, its preservation by every event, and the
  conservation of points: balances plus open pools change by granted points only.
\<close>

section \<open>Well-formed projections\<close>

definition wf_account :: "account \<Rightarrow> bool" where
  "wf_account a \<longleftrightarrow> 0 \<le> balance a \<and> balance a \<le> i64_max"

definition settled :: "market \<Rightarrow> bool" where
  "settled m \<longleftrightarrow>
     (case status m of
        Open \<Rightarrow> market_payouts m = []
      | Resolved oc refunded \<Rightarrow>
          oc < length (options m) \<and> sum_list (map alloc_amount (market_payouts m)) = total_staked m
      | Cancelled \<Rightarrow> market_payouts m = [])"

definition wf_market :: "(rstring \<Rightarrow> rstring) \<Rightarrow> (user_id, account) btree_map \<Rightarrow> market_id \<Rightarrow> market \<Rightarrow> bool" where
  "wf_market lc accs i m \<longleftrightarrow>
     valid_market_id i \<and> valid_market lc (question m) (options m) = Inr () \<and>
     created_at m < closes_at m \<and> bt_contains accs (creator m) \<and> sound_bets m \<and>
     list_all (\<lambda>b. bet_outcome b < length (options m) \<and> bt_contains accs (bet_user b)) (bets m) \<and>
     0 \<notin> resolvers m \<and> settled m"

definition wf_policy :: "state \<Rightarrow> bool" where
  "wf_policy s \<longleftrightarrow>
     (case policy s of None \<Rightarrow> accounts s = [] \<and> markets s = []
      | Some p \<Rightarrow> 0 < pol_amount p \<and> 0 < pol_interval p)"

definition wf_state :: "(rstring \<Rightarrow> rstring) \<Rightarrow> state \<Rightarrow> bool" where
  "wf_state lc s \<longleftrightarrow> bt_invar (accounts s) \<and> bt_invar (markets s) \<and> wf_policy s \<and>
     \<not> bt_contains (accounts s) 0 \<and> list_all (\<lambda>(u, a). wf_account a) (accounts s) \<and>
     list_all (\<lambda>(i, m). wf_market lc (accounts s) i m) (markets s)"

definition open_pool :: "market \<Rightarrow> points" where
  "open_pool m = (if status m = Open then total_staked m else 0)"

definition total_points :: "state \<Rightarrow> points" where
  "total_points s = bt_sum balance (accounts s) + bt_sum open_pool (markets s)"

fun granted :: "event \<Rightarrow> points" where
  "granted (PointsGranted u reason amount from_due through_due next) = amount"
| "granted _ = 0"

section \<open>Lookups\<close>

lemma list_all_insert:
  assumes "bt_invar t" "list_all (\<lambda>(k, v). P k v) t" "P k v"
  shows "list_all (\<lambda>(k, v). P k v) (bt_insert k v t)"
  using assms by (auto simp: list_all_iff bt.set_entries_insert)

lemma list_all_get: "list_all (\<lambda>(k, v). P k v) t \<Longrightarrow> bt_get t k = Some v \<Longrightarrow> P k v"
  by (auto simp: list_all_iff dest!: map_of_SomeD)

lemma wf_account_get: "wf_state lc s \<Longrightarrow> bt_get (accounts s) u = Some a \<Longrightarrow> wf_account a"
  unfolding wf_state_def by (rule list_all_get [where P = "\<lambda>u a. wf_account a"]) auto

lemma wf_market_get:
  "wf_state lc s \<Longrightarrow> bt_get (markets s) i = Some m \<Longrightarrow> wf_market lc (accounts s) i m"
  unfolding wf_state_def by (rule list_all_get [where P = "wf_market lc (accounts s)"]) auto

lemma wf_market_mono:
  "wf_market lc accs i m \<Longrightarrow> (\<And>u. bt_contains accs u \<Longrightarrow> bt_contains accs' u) \<Longrightarrow> wf_market lc accs' i m"
  by (auto simp: wf_market_def list_all_iff)

lemma wf_markets_mono:
  "list_all (\<lambda>(i, m). wf_market lc accs i m) ms \<Longrightarrow> (\<And>u. bt_contains accs u \<Longrightarrow> bt_contains accs' u) \<Longrightarrow>
    list_all (\<lambda>(i, m). wf_market lc accs' i m) ms"
  by (auto simp: list_all_iff intro: wf_market_mono)

lemma wf_no_system_account: "wf_state lc s \<Longrightarrow> bt_get (accounts s) u = Some a \<Longrightarrow> u \<noteq> 0"
  by (cases "u = 0") (auto simp: wf_state_def bt_contains_def)

text \<open>Replacing one account, or adding one, and replacing one market, or adding one.\<close>

lemma wf_put_account:
  assumes "wf_state lc s" "u \<noteq> 0" "wf_account a" "policy s \<noteq> None"
  shows "wf_state lc (s\<lparr>accounts := bt_insert u a (accounts s)\<rparr>)"
proof -
  have "list_all (\<lambda>(i, m). wf_market lc (bt_insert u a (accounts s)) i m) (markets s)"
    by (rule wf_markets_mono [of lc "accounts s"]) (use assms(1) in \<open>simp_all add: wf_state_def\<close>)
  moreover have "list_all (\<lambda>(u, a). wf_account a) (bt_insert u a (accounts s))"
    using assms by (intro list_all_insert [where P = "\<lambda>u a. wf_account a"]) (simp_all add: wf_state_def)
  ultimately show ?thesis
    using assms by (auto simp: wf_state_def wf_policy_def)
qed

lemma wf_put_market:
  assumes "wf_state lc s" "wf_market lc (accounts s) i m" "policy s \<noteq> None"
  shows "wf_state lc (s\<lparr>markets := bt_insert i m (markets s)\<rparr>)"
proof -
  have "list_all (\<lambda>(i, m). wf_market lc (accounts s) i m) (bt_insert i m (markets s))"
    using assms by (intro list_all_insert [where P = "wf_market lc (accounts s)"]) (simp_all add: wf_state_def)
  then show ?thesis
    using assms by (auto simp: wf_state_def wf_policy_def)
qed

lemma wf_policy_present: "wf_state lc s \<Longrightarrow> bt_get (markets s) i = Some m \<Longrightarrow> policy s \<noteq> None"
  by (cases "policy s") (auto simp: wf_state_def wf_policy_def)

lemma wf_policy_account: "wf_state lc s \<Longrightarrow> bt_get (accounts s) u = Some a \<Longrightarrow> policy s \<noteq> None"
  by (cases "policy s") (auto simp: wf_state_def wf_policy_def)

lemma total_points_put_account:
  "wf_state lc s \<Longrightarrow> total_points (s\<lparr>accounts := bt_insert u a (accounts s)\<rparr>) =
    total_points s + balance a - (case bt_get (accounts s) u of None \<Rightarrow> 0 | Some b \<Rightarrow> balance b)"
  by (simp add: total_points_def wf_state_def bt_sum_insert)

lemma total_points_put_market:
  "wf_state lc s \<Longrightarrow> total_points (s\<lparr>markets := bt_insert i m (markets s)\<rparr>) =
    total_points s + open_pool m - (case bt_get (markets s) i of None \<Rightarrow> 0 | Some n \<Rightarrow> open_pool n)"
  by (simp add: total_points_def wf_state_def bt_sum_insert)

section \<open>Checked arithmetic\<close>

lemma checked_add_Inr_iff [result_simps]: "checked_add a b = Inr c \<longleftrightarrow> c = a + b \<and> in_i64 (a + b)"
  by (auto simp: checked_add_def result_simps)

lemma checked_points_add_Inr_iff [result_simps]:
  "checked_points_add a b = Inr c \<longleftrightarrow> c = a + b \<and> in_i64 (a + b)"
  by (simp add: checked_points_add_def result_simps)

lemma checked_mul_Inr_iff [result_simps]: "checked_mul a b = Inr c \<longleftrightarrow> c = a * b \<and> in_i64 (a * b)"
  by (auto simp: checked_mul_def result_simps)

lemma positive_policy_Inr_iff [result_simps]:
  "positive_policy p = Inr x \<longleftrightarrow> 0 < pol_amount p \<and> 0 < pol_interval p"
  by (auto simp: positive_policy_def)

lemma pool_Inr_iff [result_simps]: "pool m = Inr n \<longleftrightarrow> n = total_staked m \<and> 0 \<le> total_staked m"
  by (auto simp: pool_def)

lemma checked_sum: "try_fold checked_points_add a xs = Inr n \<Longrightarrow> n = a + sum_list xs"
proof (induction xs arbitrary: a)
  case (Cons x xs)
  then have "n = (a + x) + sum_list xs" by (auto simp: result_simps)
  then show ?case by simp
qed simp

section \<open>Recorded allocations and credits\<close>

lemma record_allocation_Inr_iff [result_simps]:
  "record_allocation accs t a = Inr t' \<longleftrightarrow>
     0 < alloc_amount a \<and> bt_contains accs (alloc_user a) \<and> \<not> bt_contains t (alloc_user a) \<and>
     t' = bt_insert (alloc_user a) (alloc_amount a) t"
  by (auto simp: record_allocation_def)

lemma credit_allocation_Inr_iff [result_simps]:
  "credit_allocation accs a = Inr accs' \<longleftrightarrow>
     (\<exists>acc. bt_get accs (alloc_user a) = Some acc \<and> in_i64 (balance acc + alloc_amount a) \<and>
       accs' = bt_insert (alloc_user a) (acc\<lparr>balance := balance acc + alloc_amount a\<rparr>) accs)"
  by (auto simp: credit_allocation_def result_simps)

lemma record_allocations_run:
  assumes "try_fold (record_allocation accs) t as = Inr t'" "positive_entries t"
    and "\<forall>u. bt_contains t u \<longrightarrow> bt_contains accs u"
  shows "positive_entries t' \<and> bt_sum (\<lambda>n. n) t' = bt_sum (\<lambda>n. n) t + sum_list (map alloc_amount as) \<and>
    (\<forall>u. bt_contains t' u \<longrightarrow> bt_contains accs u) \<and> list_all (\<lambda>a. 0 < alloc_amount a) as"
  using assms
proof (induction as arbitrary: t)
  case (Cons a as)
  let ?t = "bt_insert (alloc_user a) (alloc_amount a) t"
  from Cons.prems have ok: "0 < alloc_amount a" "bt_contains accs (alloc_user a)" "\<not> bt_contains t (alloc_user a)"
    and rest: "try_fold (record_allocation accs) ?t as = Inr t'"
    by (auto simp: result_simps)
  have inv: "bt_invar t" using Cons.prems(2) by (simp add: positive_entries_def)
  have "bt_sum (\<lambda>n. n) ?t = bt_sum (\<lambda>n. n) t + alloc_amount a"
    using inv ok(3) by (simp add: bt_sum_insert bt_contains_def)
  moreover have "positive_entries ?t" using Cons.prems(2) ok(1) by (rule positive_entries_insert)
  moreover have "\<forall>u. bt_contains ?t u \<longrightarrow> bt_contains accs u" using Cons.prems(3) ok(2) inv by auto
  ultimately show ?case using Cons.IH [OF rest] ok(1) by auto
qed simp

lemma recorded_allocations_sound:
  assumes "recorded_allocations as accs = Inr t"
  shows "positive_entries t" "bt_sum (\<lambda>n. n) t = sum_list (map alloc_amount as)"
    "list_all (\<lambda>a. 0 < alloc_amount a) as"
  using record_allocations_run [of accs "[]" as t] assms
  by (auto simp: recorded_allocations_def positive_entries_def bt_contains_def)

lemma credit_run:
  assumes "try_fold credit_allocation accs as = Inr accs'" "bt_invar accs"
    and "list_all (\<lambda>(u, a). wf_account a) accs" "list_all (\<lambda>a. 0 < alloc_amount a) as"
  shows "bt_invar accs' \<and> list_all (\<lambda>(u, a). wf_account a) accs' \<and>
    (\<forall>u. bt_contains accs' u \<longleftrightarrow> bt_contains accs u) \<and>
    bt_sum balance accs' = bt_sum balance accs + sum_list (map alloc_amount as)"
  using assms
proof (induction as arbitrary: accs)
  case (Cons a as)
  from Cons.prems obtain acc where acc: "bt_get accs (alloc_user a) = Some acc"
    and i64: "in_i64 (balance acc + alloc_amount a)"
    and rest: "try_fold credit_allocation
       (bt_insert (alloc_user a) (acc\<lparr>balance := balance acc + alloc_amount a\<rparr>) accs) as = Inr accs'"
    by (auto simp: result_simps)
  let ?accs = "bt_insert (alloc_user a) (acc\<lparr>balance := balance acc + alloc_amount a\<rparr>) accs"
  have "wf_account acc" using list_all_get [OF Cons.prems(3) acc] by simp
  then have "wf_account (acc\<lparr>balance := balance acc + alloc_amount a\<rparr>)"
    using i64 Cons.prems(4) by (simp add: wf_account_def i64_defs)
  then have "list_all (\<lambda>(u, a). wf_account a) ?accs"
    using Cons.prems(2,3) by (intro list_all_insert) auto
  moreover have "bt_sum balance ?accs = bt_sum balance accs + alloc_amount a"
    using Cons.prems(2) acc by (simp add: bt_sum_insert)
  moreover have "bt_contains ?accs u \<longleftrightarrow> bt_contains accs u" for u
    using Cons.prems(2) acc by (auto simp: bt_contains_def)
  ultimately show ?case using Cons.IH [OF rest] Cons.prems(2,4) by auto
qed simp

section \<open>Every event keeps the invariant and accounts for the points\<close>

text \<open>One lemma per transition: the new projection is well-formed, and its points are known.\<close>

definition transition_ok :: "(rstring \<Rightarrow> rstring) \<Rightarrow> state \<Rightarrow> state \<Rightarrow> points \<Rightarrow> bool" where
  "transition_ok lc s s' n \<longleftrightarrow> wf_state lc s' \<and> total_points s' = total_points s + n"

lemma initialization_ok:
  assumes "wf_state lc s" "apply_initialization s amount interval = Inr s'"
  shows "transition_ok lc s s' 0"
proof -
  from assms(2) have "0 < amount" "0 < interval" "accounts s = []" "markets s = []"
    and s': "s' = s\<lparr>policy := Some \<lparr>pol_amount = amount, pol_interval = interval\<rparr>\<rparr>"
    by (auto simp: apply_initialization_def Let_def result_simps split: if_splits)
  then show ?thesis
    by (simp add: transition_ok_def wf_state_def wf_policy_def total_points_def bt_contains_def)
qed

lemma enrollment_ok:
  assumes "wf_state lc s" "apply_enrollment s u enrolled_at = Inr s'"
  shows "transition_ok lc s s' 0"
proof -
  from assms(2) have "policy s \<noteq> None" "u \<noteq> 0" "\<not> bt_contains (accounts s) u"
    and s': "s' = s\<lparr>accounts := bt_insert u \<lparr>balance = 0, next_grant = enrolled_at\<rparr> (accounts s)\<rparr>"
    by (auto simp: apply_enrollment_def split: if_splits)
  then show ?thesis
    using assms(1) by (auto simp: transition_ok_def wf_account_def i64_max_def bt_contains_def
        total_points_put_account intro: wf_put_account)
qed

lemma grant_facts:
  assumes "wf_state lc s" "apply_grant s u reason amount from_due through_due next = Inr s'"
  obtains p acc where "policy s = Some p" "bt_get (accounts s) u = Some acc"
    "from_due = next_grant acc" "0 < amount" "from_due \<le> through_due"
    "pol_interval p * amount = pol_amount p * (next - from_due)"
    "next = through_due + pol_interval p"
    "in_i64 (balance acc + amount)"
    "s' = s\<lparr>accounts := bt_insert u (acc\<lparr>balance := balance acc + amount, next_grant := next\<rparr>) (accounts s)\<rparr>"
proof -
  from assms(2) obtain p acc and q r :: int where p: "policy s = Some p" "0 < pol_amount p" "0 < pol_interval p"
    and acc: "bt_get (accounts s) u = Some acc"
    and due: "from_due = next_grant acc" "from_due \<le> through_due" "0 < amount"
    and qr: "(div_rem (through_due - from_due) (pol_interval p) :: (domain_error, int \<times> int) outcome) =
      Inr (q, r)" "r = 0"
    and facts: "amount = pol_amount p * (q + 1)" "next = through_due + pol_interval p"
    and s': "in_i64 (balance acc + amount)"
      "s' = s\<lparr>accounts := bt_insert u (acc\<lparr>balance := balance acc + amount, next_grant := next\<rparr>) (accounts s)\<rparr>"
    by (auto simp: apply_grant_def Let_def result_simps split: if_splits)
  have "q = (through_due - from_due) div pol_interval p" "(through_due - from_due) mod pol_interval p = 0"
    using qr p due by auto
  then have "through_due - from_due = pol_interval p * q" by auto
  with facts(2) have "next - from_due = pol_interval p * (q + 1)" by (simp add: algebra_simps)
  with facts(1) have "pol_interval p * amount = pol_amount p * (next - from_due)"
    by (simp only: mult.left_commute)
  with p acc due facts s' show ?thesis by (intro that)
qed

lemma grant_ok:
  assumes "wf_state lc s" "apply_grant s u reason amount from_due through_due next = Inr s'"
  shows "transition_ok lc s s' amount"
proof -
  from grant_facts [OF assms] obtain p acc where acc: "bt_get (accounts s) u = Some acc"
    and amount: "0 < amount" "in_i64 (balance acc + amount)"
    and s': "s' = s\<lparr>accounts := bt_insert u (acc\<lparr>balance := balance acc + amount, next_grant := next\<rparr>) (accounts s)\<rparr>"
    by metis
  have "wf_account (acc\<lparr>balance := balance acc + amount, next_grant := next\<rparr>)"
    using wf_account_get [OF assms(1) acc] amount by (simp add: wf_account_def i64_defs)
  moreover have "u \<noteq> 0" "policy s \<noteq> None"
    using wf_no_system_account wf_policy_account assms(1) acc by blast+
  ultimately show ?thesis
    using assms(1) acc by (simp add: transition_ok_def s' total_points_put_account wf_put_account)
qed

lemma creation_ok:
  assumes "wf_state lc s" "apply_market_creation lc s i cr q opts created closes = Inr s'"
  shows "transition_ok lc s s' 0"
proof -
  let ?m = "\<lparr>creator = cr, question = q, options = opts, closes_at = closes, created_at = created,
    status = Open, bets = [], total_staked = 0, market_payouts = [], resolvers = {}\<rparr>"
  from assms(2) have ok: "policy s \<noteq> None" "valid_market_id i" "\<not> bt_contains (markets s) i"
      "bt_contains (accounts s) cr" "created < closes" "valid_market lc q opts = Inr ()"
    and s': "s' = s\<lparr>markets := bt_insert i ?m (markets s)\<rparr>"
    by (auto simp: apply_market_creation_def result_simps split: if_splits)
  have "wf_market lc (accounts s) i ?m"
    using ok by (simp add: wf_market_def sound_bets_def settled_def i64_max_def)
  with ok assms(1) show ?thesis
    by (auto simp: transition_ok_def s' total_points_put_market bt_contains_def open_pool_def
        intro!: wf_put_market)
qed

lemma bet_facts:
  assumes "apply_bet s i u oc amount accepted_at = Inr s'"
  obtains m acc where "bt_get (markets s) i = Some m" "bt_get (accounts s) u = Some acc"
    "status m = Open" "created_at m \<le> accepted_at" "accepted_at < closes_at m"
    "oc < length (options m)" "0 < amount" "amount \<le> balance acc" "in_i64 (total_staked m + amount)"
    "s' = s\<lparr>accounts := bt_insert u (acc\<lparr>balance := balance acc - amount\<rparr>) (accounts s),
            markets := bt_insert i
              (m\<lparr>total_staked := total_staked m + amount,
                 bets := bets m @ [\<lparr>bet_user = u, bet_outcome = oc, bet_amount = amount\<rparr>]\<rparr>)
              (markets s)\<rparr>"
  using assms by (auto simp: apply_bet_def result_simps split: if_splits)

lemma bet_ok:
  assumes "wf_state lc s" "apply_bet s i u oc amount accepted_at = Inr s'"
  shows "transition_ok lc s s' 0"
  using assms(2)
proof (rule bet_facts)
  fix m acc
  assume m: "bt_get (markets s) i = Some m" and acc: "bt_get (accounts s) u = Some acc"
    and ok: "status m = Open" "oc < length (options m)" "0 < amount" "amount \<le> balance acc"
      "in_i64 (total_staked m + amount)"
    and s': "s' = s\<lparr>accounts := bt_insert u (acc\<lparr>balance := balance acc - amount\<rparr>) (accounts s),
            markets := bt_insert i
              (m\<lparr>total_staked := total_staked m + amount,
                 bets := bets m @ [\<lparr>bet_user = u, bet_outcome = oc, bet_amount = amount\<rparr>]\<rparr>)
              (markets s)\<rparr>"
  let ?acc = "acc\<lparr>balance := balance acc - amount\<rparr>"
  let ?m = "m\<lparr>total_staked := total_staked m + amount,
                 bets := bets m @ [\<lparr>bet_user = u, bet_outcome = oc, bet_amount = amount\<rparr>]\<rparr>"
  let ?s = "s\<lparr>accounts := bt_insert u ?acc (accounts s)\<rparr>"
  have "wf_account ?acc" using wf_account_get [OF assms(1) acc] ok by (simp add: wf_account_def)
  moreover have "u \<noteq> 0" "policy s \<noteq> None"
    using wf_no_system_account wf_policy_account assms(1) acc by blast+
  ultimately have wf: "wf_state lc ?s" using assms(1) by (simp add: wf_put_account)
  have points: "total_points ?s = total_points s - amount"
    using assms(1) acc by (simp add: total_points_put_account)
  have "bt_contains (accounts s) u" using acc by (simp add: bt_contains_def)
  moreover have "wf_market lc (accounts ?s) i m" using wf m by (intro wf_market_get) simp_all
  ultimately have "wf_market lc (accounts ?s) i ?m"
    using ok assms(1) by (auto simp: wf_market_def sound_bets_def settled_def i64_defs wf_state_def)
  moreover have "s' = ?s\<lparr>markets := bt_insert i ?m (markets ?s)\<rparr>" by (simp add: s')
  ultimately show ?thesis
    using points ok m \<open>policy s \<noteq> None\<close> total_points_put_market [OF wf, of i ?m]
      wf_put_market [OF wf, of i ?m]
    by (simp add: transition_ok_def open_pool_def)
qed

text \<open>Crediting the allocations of a settlement moves the pool to the accounts.\<close>

lemma settlement_ok:
  assumes wf: "wf_state lc s" and m: "bt_get (markets s) i = Some m" "status m = Open"
    and accs: "credit_allocations (accounts s) paid = Inr accs" "list_all (\<lambda>a. 0 < alloc_amount a) paid"
    and paid: "sum_list (map alloc_amount paid) = total_staked m"
    and m': "\<And>accs. wf_market lc accs i m \<Longrightarrow> wf_market lc accs i m'" "open_pool m' = 0"
  shows "transition_ok lc s (s\<lparr>accounts := accs, markets := bt_insert i m' (markets s)\<rparr>) 0"
proof -
  have run: "bt_invar accs" "list_all (\<lambda>(u, a). wf_account a) accs"
      "\<And>u. bt_contains accs u \<longleftrightarrow> bt_contains (accounts s) u"
      "bt_sum balance accs = bt_sum balance (accounts s) + total_staked m"
    using credit_run [of "accounts s" paid accs] accs wf paid
    by (simp_all add: credit_allocations_def wf_state_def)
  have pol: "policy s \<noteq> None" using wf_policy_present [OF wf m(1)] .
  have ms: "list_all (\<lambda>(i, m). wf_market lc accs i m) (markets s)"
    by (rule wf_markets_mono [of lc "accounts s"]) (use wf run(3) in \<open>simp_all add: wf_state_def\<close>)
  have wf': "wf_state lc (s\<lparr>accounts := accs\<rparr>)"
    using wf run(1,2,3) ms pol by (auto simp: wf_state_def wf_policy_def)
  have "wf_market lc accs i m" using wf' m(1) wf_market_get [of lc "s\<lparr>accounts := accs\<rparr>" i m] by simp
  then have "wf_state lc (s\<lparr>accounts := accs, markets := bt_insert i m' (markets s)\<rparr>)"
    using wf_put_market [OF wf', of i m'] m'(1) pol by simp
  moreover have "total_points (s\<lparr>accounts := accs, markets := bt_insert i m' (markets s)\<rparr>) = total_points s"
    using total_points_put_market [OF wf', of i m'] m m'(2) run(4)
    by (simp add: total_points_def open_pool_def)
  ultimately show ?thesis by (simp add: transition_ok_def)
qed

lemma resolution_facts:
  assumes "wf_state lc s" "apply_resolution s i oc resolver settled_at paid refunded = Inr s'"
  obtains m accs where "bt_get (markets s) i = Some m" "status m = Open" "oc < length (options m)"
    "closes_at m \<le> settled_at" "resolver \<noteq> 0"
    "credit_allocations (accounts s) paid = Inr accs" "list_all (\<lambda>a. 0 < alloc_amount a) paid"
    "sum_list (map alloc_amount paid) = total_staked m"
    "s' = s\<lparr>accounts := accs,
            markets := bt_insert i (m\<lparr>market_payouts := paid, status := Resolved oc refunded\<rparr>) (markets s)\<rparr>"
proof -
  from assms(2) obtain m recorded winning accs where m: "bt_get (markets s) i = Some m" "status m = Open"
      "oc < length (options m)" "closes_at m \<le> settled_at" "resolver \<noteq> 0"
    and rec: "recorded_allocations paid (accounts s) = Inr recorded"
    and win: "stakes m (Some oc) = Inr winning"
    and check: "(if refunded then check_refunds m recorded winning else check_shares m recorded winning) = Inr ()"
    and accs: "credit_allocations (accounts s) paid = Inr accs"
    and s': "s' = s\<lparr>accounts := accs,
            markets := bt_insert i (m\<lparr>market_payouts := paid, status := Resolved oc refunded\<rparr>) (markets s)\<rparr>"
    by (auto simp: apply_resolution_def result_simps split: if_splits)
  have sound: "sound_bets m" using wf_market_get [OF assms(1) m(1)] by (simp add: wf_market_def)
  have "bt_sum (\<lambda>n. n) recorded = total_staked m"
  proof (cases refunded)
    case True
    with check obtain t where "stakes m None = Inr t" "recorded = t"
      by (auto simp: check_refunds_def result_simps split: if_splits)
    then show ?thesis using stakes_all(2) [OF sound] by simp
  next
    case False
    with check have "try_fold checked_points_add 0 (map snd recorded) = Inr (total_staked m)"
      by (auto simp: check_shares_def result_simps split: if_splits)
    then show ?thesis using checked_sum by (fastforce simp: bt_sum_id)
  qed
  with recorded_allocations_sound [OF rec] m accs s' show ?thesis by (intro that) simp_all
qed

lemma resolution_ok:
  assumes "wf_state lc s" "apply_resolution s i oc resolver settled_at paid refunded = Inr s'"
  shows "transition_ok lc s s' 0"
  using assms
proof (rule resolution_facts)
  fix m accs
  assume "bt_get (markets s) i = Some m" "status m = Open" "oc < length (options m)"
    "credit_allocations (accounts s) paid = Inr accs" "list_all (\<lambda>a. 0 < alloc_amount a) paid"
    "sum_list (map alloc_amount paid) = total_staked m"
    "s' = s\<lparr>accounts := accs,
            markets := bt_insert i (m\<lparr>market_payouts := paid, status := Resolved oc refunded\<rparr>) (markets s)\<rparr>"
  with settlement_ok [OF assms(1), of i m paid accs "m\<lparr>market_payouts := paid, status := Resolved oc refunded\<rparr>"]
  show ?thesis by (simp add: wf_market_def settled_def sound_bets_def open_pool_def)
qed

lemma cancellation_facts:
  assumes "wf_state lc s" "apply_cancellation s i moderator refunds = Inr s'"
  obtains m accs where "bt_get (markets s) i = Some m" "status m = Open" "moderator \<noteq> 0"
    "credit_allocations (accounts s) refunds = Inr accs" "list_all (\<lambda>a. 0 < alloc_amount a) refunds"
    "sum_list (map alloc_amount refunds) = total_staked m"
    "s' = s\<lparr>accounts := accs, markets := bt_insert i (m\<lparr>status := Cancelled\<rparr>) (markets s)\<rparr>"
proof -
  from assms(2) obtain m totals accs where m: "bt_get (markets s) i = Some m" "status m = Open" "moderator \<noteq> 0"
    and rec: "recorded_allocations refunds (accounts s) = Inr totals"
    and tot: "stakes m None = Inr totals"
    and accs: "credit_allocations (accounts s) refunds = Inr accs"
    and s': "s' = s\<lparr>accounts := accs, markets := bt_insert i (m\<lparr>status := Cancelled\<rparr>) (markets s)\<rparr>"
    by (auto simp: apply_cancellation_def result_simps split: if_splits)
  have "sound_bets m" using wf_market_get [OF assms(1) m(1)] by (simp add: wf_market_def)
  then have "bt_sum (\<lambda>n. n) totals = total_staked m" using tot by (rule stakes_all(2))
  with recorded_allocations_sound [OF rec] m accs s' show ?thesis by (intro that) simp_all
qed

lemma cancellation_ok:
  assumes "wf_state lc s" "apply_cancellation s i moderator refunds = Inr s'"
  shows "transition_ok lc s s' 0"
  using assms
proof (rule cancellation_facts)
  fix m accs
  assume "bt_get (markets s) i = Some m" "status m = Open"
    "credit_allocations (accounts s) refunds = Inr accs" "list_all (\<lambda>a. 0 < alloc_amount a) refunds"
    "sum_list (map alloc_amount refunds) = total_staked m"
    "s' = s\<lparr>accounts := accs, markets := bt_insert i (m\<lparr>status := Cancelled\<rparr>) (markets s)\<rparr>"
  with settlement_ok [OF assms(1), of i m refunds accs "m\<lparr>status := Cancelled\<rparr>"]
  show ?thesis by (simp add: wf_market_def settled_def sound_bets_def open_pool_def)
qed

lemma resolver_added_ok:
  assumes "wf_state lc s" "apply_resolver_added s i u added_by added_at = Inr s'"
  shows "transition_ok lc s s' 0"
proof -
  from assms(2) obtain m where m: "bt_get (markets s) i = Some m" "u \<noteq> 0" "status m = Open"
    and s': "s' = s\<lparr>markets := bt_insert i (m\<lparr>resolvers := insert u (resolvers m)\<rparr>) (markets s)\<rparr>"
    by (auto simp: apply_resolver_added_def result_simps split: if_splits)
  have "wf_market lc (accounts s) i (m\<lparr>resolvers := insert u (resolvers m)\<rparr>)"
    using wf_market_get [OF assms(1) m(1)] m(2,3) by (simp add: wf_market_def sound_bets_def settled_def)
  with wf_put_market [OF assms(1)] wf_policy_present [OF assms(1) m(1)] show ?thesis
    using m(1) total_points_put_market [OF assms(1)] by (simp add: transition_ok_def s' open_pool_def)
qed

lemma resolver_removed_ok:
  assumes "wf_state lc s" "apply_resolver_removed s i u removed_by removed_at = Inr s'"
  shows "transition_ok lc s s' 0"
proof -
  from assms(2) obtain m where m: "bt_get (markets s) i = Some m" "status m = Open"
    and s': "s' = s\<lparr>markets := bt_insert i (m\<lparr>resolvers := resolvers m - {u}\<rparr>) (markets s)\<rparr>"
    by (auto simp: apply_resolver_removed_def result_simps split: if_splits)
  have "wf_market lc (accounts s) i (m\<lparr>resolvers := resolvers m - {u}\<rparr>)"
    using wf_market_get [OF assms(1) m(1)] m(2) by (simp add: wf_market_def sound_bets_def settled_def)
  with wf_put_market [OF assms(1)] wf_policy_present [OF assms(1) m(1)] show ?thesis
    using m(1) total_points_put_market [OF assms(1)] by (simp add: transition_ok_def s' open_pool_def)
qed

lemmas transitions_ok = initialization_ok enrollment_ok grant_ok creation_ok bet_ok resolution_ok
  cancellation_ok resolver_added_ok resolver_removed_ok

lemma apply_inner_ok:
  assumes "wf_state lc s" "apply_inner lc s e = Inr s'"
  shows "transition_ok lc s s' (granted e)"
proof (cases e)
  case (AnnouncementsEnabled c m t)
  with assms show ?thesis by (auto simp: transition_ok_def result_simps)
qed (use assms in \<open>auto intro: transitions_ok\<close>)

lemma wf_default: "wf_state lc default_state"
  by (simp add: wf_state_def wf_policy_def default_state_def bt_contains_def)

text \<open>The projection is an event-sourced component, and its points are a measure of its history.\<close>

interpretation bet_source: event_source default_state "apply_inner lc" "wf_state lc" for lc
  by unfold_locales (auto simp: wf_default transition_ok_def dest: apply_inner_ok)

interpretation bet_points: measured_source default_state "apply_inner lc" "wf_state lc" total_points granted
  for lc
  by unfold_locales (auto simp: transition_ok_def dest: apply_inner_ok)

section \<open>What never changes\<close>

text \<open>
  Members stay members, the policy stays, a market keeps its terms and its bets, and a
  terminal market is frozen.
\<close>

definition same_terms :: "market \<Rightarrow> market \<Rightarrow> bool" where
  "same_terms m m' \<longleftrightarrow> creator m' = creator m \<and> question m' = question m \<and> options m' = options m \<and>
     closes_at m' = closes_at m \<and> created_at m' = created_at m \<and> take (length (bets m)) (bets m') = bets m \<and>
     (status m \<noteq> Open \<longrightarrow> m' = m)"

definition history_kept :: "state \<Rightarrow> state \<Rightarrow> bool" where
  "history_kept s s' \<longleftrightarrow>
     (\<forall>u. bt_contains (accounts s) u \<longrightarrow> bt_contains (accounts s') u) \<and>
     (\<forall>p. policy s = Some p \<longrightarrow> policy s' = Some p) \<and>
     (\<forall>i m. bt_get (markets s) i = Some m \<longrightarrow> (\<exists>m'. bt_get (markets s') i = Some m' \<and> same_terms m m'))"

lemma same_terms_refl: "same_terms m m"
  by (simp add: same_terms_def)

lemma same_terms_trans: "same_terms a b \<Longrightarrow> same_terms b c \<Longrightarrow> same_terms a c"
proof -
  assume ab: "same_terms a b" and bc: "same_terms b c"
  have "length (bets a) \<le> length (bets b)"
    using ab by (metis length_take min.absorb_iff2 same_terms_def)
  then have "take (length (bets a)) (bets c) = take (length (bets a)) (take (length (bets b)) (bets c))"
    by (simp add: min_absorb1)
  with ab bc have "take (length (bets a)) (bets c) = bets a" by (simp add: same_terms_def)
  with ab bc show ?thesis by (auto simp: same_terms_def)
qed

lemma history_kept_market:
  assumes "wf_state lc s" "bt_get (markets s) i = Some m" "same_terms m m'"
    and "\<And>u. bt_contains (accounts s) u \<Longrightarrow> bt_contains accs u"
  shows "history_kept s (s\<lparr>accounts := accs, markets := bt_insert i m' (markets s)\<rparr>)"
  using assms by (auto simp: history_kept_def wf_state_def same_terms_refl)

lemma history_kept_accounts:
  assumes "\<And>u. bt_contains (accounts s) u \<Longrightarrow> bt_contains accs u"
  shows "history_kept s (s\<lparr>accounts := accs\<rparr>)"
  using assms by (auto simp: history_kept_def same_terms_refl)

lemma history_kept_trans: "history_kept a b \<Longrightarrow> history_kept b c \<Longrightarrow> history_kept a c"
  unfolding history_kept_def by (meson same_terms_trans)

lemma credit_keys:
  assumes "wf_state lc s" "credit_allocations (accounts s) paid = Inr accs"
    "list_all (\<lambda>a. 0 < alloc_amount a) paid" "bt_contains (accounts s) u"
  shows "bt_contains accs u"
  using credit_run [of "accounts s" paid accs] assms by (simp add: credit_allocations_def wf_state_def)

lemma apply_inner_kept:
  assumes wf: "wf_state lc s" and step: "apply_inner lc s e = Inr s'"
  shows "history_kept s s'"
proof (cases e)
  case (AnnouncementsEnabled c m t)
  with step show ?thesis by (auto simp: history_kept_def same_terms_refl result_simps)
next
  case (GuildEconomyInitialized a n)
  with step show ?thesis
    by (auto simp: apply_initialization_def history_kept_def same_terms_refl result_simps Let_def split: if_splits)
next
  case (MemberEnrolled u t)
  with step wf show ?thesis
    by (auto simp: apply_enrollment_def wf_state_def intro: history_kept_accounts split: if_splits)
next
  case (PointsGranted u r a f t n)
  with step have "apply_grant s u r a f t n = Inr s'" by simp
  from grant_facts [OF wf this] obtain acc where
    "s' = s\<lparr>accounts := bt_insert u (acc\<lparr>balance := balance acc + a, next_grant := n\<rparr>) (accounts s)\<rparr>"
    by metis
  with wf show ?thesis by (auto simp: wf_state_def intro: history_kept_accounts)
next
  case (MarketCreated i cr q opts cd cl)
  with step wf show ?thesis
    by (auto simp: apply_market_creation_def history_kept_def wf_state_def bt_contains_def same_terms_refl
        result_simps split: if_splits)
next
  case (BetPlaced i u oc a t)
  with step have "apply_bet s i u oc a t = Inr s'" by simp
  then show ?thesis
  proof (rule bet_facts)
    fix m acc
    assume m: "bt_get (markets s) i = Some m" "status m = Open"
      and s': "s' = s\<lparr>accounts := bt_insert u (acc\<lparr>balance := balance acc - a\<rparr>) (accounts s),
            markets := bt_insert i
              (m\<lparr>total_staked := total_staked m + a,
                 bets := bets m @ [\<lparr>bet_user = u, bet_outcome = oc, bet_amount = a\<rparr>]\<rparr>) (markets s)\<rparr>"
    show ?thesis
      unfolding s' by (rule history_kept_market [OF wf m(1)]) (use m(2) wf in \<open>auto simp: same_terms_def wf_state_def\<close>)
  qed
next
  case (MarketResolved i oc r t p rf)
  with step have "apply_resolution s i oc r t p rf = Inr s'" by simp
  from resolution_facts [OF wf this] obtain m accs where m: "bt_get (markets s) i = Some m" "status m = Open"
    and accs: "credit_allocations (accounts s) p = Inr accs" "list_all (\<lambda>a. 0 < alloc_amount a) p"
    and s': "s' = s\<lparr>accounts := accs,
      markets := bt_insert i (m\<lparr>market_payouts := p, status := Resolved oc rf\<rparr>) (markets s)\<rparr>"
    by metis
  show ?thesis
    unfolding s' by (rule history_kept_market [OF wf m(1)])
      (use m(2) credit_keys [OF wf accs] in \<open>auto simp: same_terms_def\<close>)
next
  case (MarketResolverAdded i u b t)
  with step obtain m where m: "bt_get (markets s) i = Some m" "status m = Open"
    and s': "s' = s\<lparr>markets := bt_insert i (m\<lparr>resolvers := insert u (resolvers m)\<rparr>) (markets s)\<rparr>"
    by (auto simp: apply_resolver_added_def result_simps split: if_splits)
  then show ?thesis
    using history_kept_market [OF wf m(1), of "m\<lparr>resolvers := insert u (resolvers m)\<rparr>" "accounts s"]
    by (simp add: same_terms_def)
next
  case (MarketResolverRemoved i u b t)
  with step obtain m where m: "bt_get (markets s) i = Some m" "status m = Open"
    and s': "s' = s\<lparr>markets := bt_insert i (m\<lparr>resolvers := resolvers m - {u}\<rparr>) (markets s)\<rparr>"
    by (auto simp: apply_resolver_removed_def result_simps split: if_splits)
  then show ?thesis
    using history_kept_market [OF wf m(1), of "m\<lparr>resolvers := resolvers m - {u}\<rparr>" "accounts s"]
    by (simp add: same_terms_def)
next
  case (MarketCancelled i b t r)
  with step have "apply_cancellation s i b r = Inr s'" by simp
  from cancellation_facts [OF wf this] obtain m accs where m: "bt_get (markets s) i = Some m" "status m = Open"
    and accs: "credit_allocations (accounts s) r = Inr accs" "list_all (\<lambda>a. 0 < alloc_amount a) r"
    and s': "s' = s\<lparr>accounts := accs, markets := bt_insert i (m\<lparr>status := Cancelled\<rparr>) (markets s)\<rparr>"
    by metis
  show ?thesis
    unfolding s' by (rule history_kept_market [OF wf m(1)])
      (use m(2) credit_keys [OF wf accs] in \<open>auto simp: same_terms_def\<close>)
qed

interpretation bet_history: stable_source default_state "apply_inner lc" "wf_state lc" history_kept for lc
proof unfold_locales
  show "history_kept s s" for s
    by (simp add: history_kept_def same_terms_refl)
  show "history_kept s u" if "history_kept s t" "history_kept t u" for s t u
    using that by (rule history_kept_trans)
  show "history_kept s t" if "wf_state lc s" "apply_inner lc s e = Inr t" for s t e
    using that by (rule apply_inner_kept)
qed

end
