(* ===== verification/Bet_Safety.thy ===== *)
theory Bet_Safety imports Bet_Invariant begin

text \<open>
  The odds shown on a market card (\<open>prediction_bot/lib/src/odds.rs\<close>): stake-weighted tenths of a
  percent, the movement against the odds before the last bet, and their text.
\<close>

datatype movement = Up | Down

record outcome_odds =
  label :: rstring
  tenths_percent :: "nat option"
  movement :: "movement option"
  unchanged :: bool

definition to_u16 :: "int \<Rightarrow> nat option" where
  "to_u16 n = (if 0 \<le> n \<and> n \<le> 65535 then Some (nat n) else None)"

definition outcome_tenths :: "int \<Rightarrow> int \<Rightarrow> (domain_error, nat option) outcome" where
  "outcome_tenths pooled staked =
     (if 0 < pooled
      then and_then (div_rem pooled 2) (\<lambda>(half, _).
           and_then (div_rem (staked * 1000 + half) pooled) (\<lambda>(q, _).
           and_then (expect (to_u16 q)) (\<lambda>tenths. Inr (Some tenths))))
      else Inr None)"

definition for_market :: "market \<Rightarrow> (domain_error, outcome_odds list) outcome" where
  "for_market m =
     try_map (\<lambda>(i, l).
       let staked = sum_list (map bet_amount (filter (\<lambda>b. bet_outcome b = i) (bets m))) in
       and_then (outcome_tenths (total_staked m) staked) (\<lambda>tenths.
       Inr \<lparr>label = l, tenths_percent = tenths, movement = None, unchanged = False\<rparr>))
     (enumerate 0 (options m))"

definition with_previous :: "outcome_odds \<Rightarrow> outcome_odds \<Rightarrow> outcome_odds" where
  "with_previous self previous = self
     \<lparr>unchanged := (case (tenths_percent previous, tenths_percent self) of
        (Some before, Some after) \<Rightarrow> before = after | _ \<Rightarrow> False),
      movement := (case (tenths_percent previous, tenths_percent self) of
        (Some before, Some after) \<Rightarrow>
          if before < after then Some Up else if after < before then Some Down else None
      | _ \<Rightarrow> None)\<rparr>"

definition movement_indicator :: "outcome_odds \<Rightarrow> rstring" where
  "movement_indicator self =
     (case movement self of
        Some Up \<Rightarrow> [32, 0x1F7E2, 32, 0x2B06, 0xFE0F]
      | Some Down \<Rightarrow> [32, 0x1F534, 32, 0x2B07, 0xFE0F]
      | None \<Rightarrow> if unchanged self then [32, 0x2796] @ lit '' unchanged'' else [])"

definition chance :: "outcome_odds \<Rightarrow> rstring" where
  "chance self =
     (case tenths_percent self of None \<Rightarrow> lit ''N/A (no bets)''
      | Some v \<Rightarrow> show_nat (v div 10) @ lit ''.'' @ show_nat (v mod 10) @ lit ''%'')"

section \<open>Odds of a well-formed market\<close>

text \<open>A share of the pool in tenths of a percent, rounded half up.\<close>

definition rounded_tenths :: "int \<Rightarrow> int \<Rightarrow> nat" where
  "rounded_tenths pooled staked = nat ((staked * 1000 + pooled div 2) div pooled)"

lemma rounded_tenths_bounds:
  assumes "0 < pooled" "0 \<le> staked" "staked \<le> pooled"
  shows "rounded_tenths pooled staked \<le> 1000"
    "2 * \<bar>int (rounded_tenths pooled staked) * pooled - 1000 * staked\<bar> \<le> pooled"
proof -
  let ?n = "staked * 1000 + pooled div 2"
  have n: "0 \<le> ?n" using assms by simp
  then have q: "int (rounded_tenths pooled staked) = ?n div pooled"
    using assms(1) by (simp add: rounded_tenths_def pos_imp_zdiv_nonneg_iff)
  have split: "?n = pooled * (?n div pooled) + ?n mod pooled" by simp
  have r: "0 \<le> ?n mod pooled" "?n mod pooled < pooled" using assms(1) by simp_all
  have "?n < pooled * 1001" using assms by linarith
  then have "pooled * (?n div pooled) < pooled * 1001" using split r by linarith
  then have "?n div pooled < 1001" using assms(1) by simp
  with q show "rounded_tenths pooled staked \<le> 1000" by linarith
  show "2 * \<bar>int (rounded_tenths pooled staked) * pooled - 1000 * staked\<bar> \<le> pooled"
  proof -
    let ?x = "pooled * (?n div pooled)"
    have "?x - 1000 * staked = pooled div 2 - ?n mod pooled" using split by linarith
    moreover have "2 * (pooled div 2) \<le> pooled" "pooled \<le> 2 * (pooled div 2) + 1" by simp_all
    ultimately show ?thesis
      unfolding q mult.commute [of "?n div pooled"] using r by (cases "?n mod pooled \<le> pooled div 2") auto
  qed
qed

lemma outcome_tenths_eq:
  assumes "0 \<le> staked" "staked \<le> pooled"
  shows "outcome_tenths pooled staked = Inr (if 0 < pooled then Some (rounded_tenths pooled staked) else None)"
proof (cases "0 < pooled")
  case True
  have "int (rounded_tenths pooled staked) \<le> 1000" using rounded_tenths_bounds(1) [OF True assms] by linarith
  then have "to_u16 ((staked * 1000 + pooled div 2) div pooled) = Some (rounded_tenths pooled staked)"
    using True assms(1) by (simp add: to_u16_def rounded_tenths_def pos_imp_zdiv_nonneg_iff)
  then show ?thesis using True assms by (simp add: outcome_tenths_def)
qed (simp add: outcome_tenths_def)

lemma staked_on_outcome:
  "sum_list (map bet_amount (filter (\<lambda>b. bet_outcome b = i) bs)) = staked_on bs (Some i)"
  by (induction bs) (auto simp: staked_on_def selects_def)

definition odds_of :: "market \<Rightarrow> nat \<Rightarrow> rstring \<Rightarrow> outcome_odds" where
  "odds_of m i l = \<lparr>label = l,
     tenths_percent = (if 0 < total_staked m
       then Some (rounded_tenths (total_staked m) (staked_on (bets m) (Some i))) else None),
     movement = None, unchanged = False\<rparr>"

lemma for_market_eq:
  assumes "sound_bets m"
  shows "for_market m = Inr (map (\<lambda>(i, l). odds_of m i l) (enumerate 0 (options m)))"
  unfolding for_market_def
proof (rule try_map_total)
  fix e assume "e \<in> set (enumerate 0 (options m))"
  show "(case e of (i, l) \<Rightarrow>
       let staked = sum_list (map bet_amount (filter (\<lambda>b. bet_outcome b = i) (bets m))) in
       and_then (outcome_tenths (total_staked m) staked) (\<lambda>tenths.
       Inr \<lparr>label = l, tenths_percent = tenths, movement = None, unchanged = False\<rparr>)) =
     Inr (case e of (i, l) \<Rightarrow> odds_of m i l)"
    using assms staked_on_le [of "bets m" "Some (fst e)"]
    by (cases e) (simp add: sound_bets_def staked_on_outcome outcome_tenths_eq odds_of_def)
qed

text \<open>
  A concrete history of the prediction bot, evaluated step by step: two members, one market, a
  bet on each side, a periodic grant and the settlement. The theorems about histories and
  decisions are applied to it.
\<close>

named_theorems bet_exec \<open>the operations, for the evaluation of closed terms\<close>

lemmas [bet_exec] = apply_initialization_def apply_enrollment_def apply_grant_def
  apply_market_creation_def apply_bet_def apply_resolution_def apply_cancellation_def
  apply_resolver_added_def apply_resolver_removed_def positive_policy_def checked_add_def
  checked_points_add_def checked_mul_def to_i64_def i64_defs i64_op_def div_rem_def pool_def
  stakes_def add_stake_def recorded_allocations_def record_allocation_def credit_allocations_def
  credit_allocation_def check_refunds_def check_shares_def bt_contains_def
  signed_divide_int_def signed_modulo_int_def finish_def index_def

definition sample_id :: market_id where "sample_id = lit ''00000000-0000-4000-8000-00000000000a''"

lemma sample_id_valid [bet_exec]: "valid_market_id sample_id"
  by (simp add: valid_market_id_def sample_id_def lit_def utf8_def is_ascii_hexdigit_def is_ascii_digit_def)

definition sample_question :: rstring where "sample_question = lit ''Rain?''"

definition sample_options :: "rstring list" where "sample_options = [lit ''Yes'', lit ''No'']"

lemma sample_terms_valid [bet_exec]:
  "valid_market to_ascii_lowercase sample_question sample_options = Inr ()"
  by (simp add: valid_market_def sample_question_def sample_options_def trim_def is_whitespace_def
      to_ascii_lowercase_def)

lemma sample_options_length [bet_exec]: "length sample_options = 2" "sample_options \<noteq> []"
  by (simp_all add: sample_options_def)

definition sample_policy :: policy where
  "sample_policy = \<lparr>pol_amount = 100, pol_interval = 10\<rparr>"

definition sample_opening :: "event list" where
  "sample_opening =
     [GuildEconomyInitialized 100 10, MemberEnrolled 1 0, PointsGranted 1 Initial 100 0 0 10,
      MemberEnrolled 2 5, PointsGranted 2 Initial 100 5 5 15,
      MarketCreated sample_id 1 sample_question sample_options 6 50]"

definition sample_market :: "bet list \<Rightarrow> points \<Rightarrow> market" where
  "sample_market bs n =
     \<lparr>creator = 1, question = sample_question, options = sample_options, closes_at = 50,
      created_at = 6, status = Open, bets = bs, total_staked = n, market_payouts = [], resolvers = {}\<rparr>"

definition opening_state :: state where
  "opening_state = \<lparr>policy = Some sample_policy,
     accounts = [(1, \<lparr>balance = 100, next_grant = 10\<rparr>), (2, \<lparr>balance = 100, next_grant = 15\<rparr>)],
     markets = [(sample_id, sample_market [] 0)]\<rparr>"

lemma opening_replay: "replay to_ascii_lowercase sample_opening = Inr opening_state"
  by (simp add: replay_def sample_opening_def default_state_def bet_exec)
    (simp add: opening_state_def sample_policy_def sample_market_def)

definition sample_betting :: "event list" where
  "sample_betting =
     [BetPlaced sample_id 1 0 30 7, BetPlaced sample_id 2 1 20 8, BetPlaced sample_id 2 0 5 9,
      PointsGranted 1 Periodic 300 10 30 40]"

definition betting_state :: state where
  "betting_state = \<lparr>policy = Some sample_policy,
     accounts = [(1, \<lparr>balance = 370, next_grant = 40\<rparr>), (2, \<lparr>balance = 75, next_grant = 15\<rparr>)],
     markets = [(sample_id, sample_market
       [\<lparr>bet_user = 1, bet_outcome = 0, bet_amount = 30\<rparr>, \<lparr>bet_user = 2, bet_outcome = 1, bet_amount = 20\<rparr>,
        \<lparr>bet_user = 2, bet_outcome = 0, bet_amount = 5\<rparr>] 55)]\<rparr>"

lemma betting_run: "try_fold (apply_inner to_ascii_lowercase) opening_state sample_betting = Inr betting_state"
  by (simp add: sample_betting_def opening_state_def sample_policy_def sample_market_def bet_exec)
    (simp add: betting_state_def sample_policy_def sample_market_def)

definition sample_settling :: "event list" where
  "sample_settling =
     [MarketResolved sample_id 0 1 60
        [\<lparr>alloc_user = 1, alloc_amount = 47\<rparr>, \<lparr>alloc_user = 2, alloc_amount = 8\<rparr>] False]"

definition settled_state :: state where
  "settled_state = \<lparr>policy = Some sample_policy,
     accounts = [(1, \<lparr>balance = 417, next_grant = 40\<rparr>), (2, \<lparr>balance = 83, next_grant = 15\<rparr>)],
     markets = [(sample_id, (sample_market
       [\<lparr>bet_user = 1, bet_outcome = 0, bet_amount = 30\<rparr>, \<lparr>bet_user = 2, bet_outcome = 1, bet_amount = 20\<rparr>,
        \<lparr>bet_user = 2, bet_outcome = 0, bet_amount = 5\<rparr>] 55)
       \<lparr>market_payouts :=
          [\<lparr>alloc_user = 1, alloc_amount = 47\<rparr>, \<lparr>alloc_user = 2, alloc_amount = 8\<rparr>],
        status := Resolved 0 False\<rparr>)]\<rparr>"

lemma settling_run: "try_fold (apply_inner to_ascii_lowercase) betting_state sample_settling = Inr settled_state"
  by (simp add: sample_settling_def betting_state_def sample_policy_def sample_market_def bet_exec)
    (simp add: settled_state_def sample_policy_def sample_market_def)

lemma betting_replay: "replay to_ascii_lowercase (sample_opening @ sample_betting) = Inr betting_state"
  using opening_replay betting_run by (simp add: replay_def try_fold_append)

lemma settled_replay:
  "replay to_ascii_lowercase (sample_opening @ sample_betting @ sample_settling) = Inr settled_state"
  using opening_replay betting_run settling_run by (simp add: replay_def try_fold_append)

lemma betting_wf: "wf_state to_ascii_lowercase betting_state"
  using bet_source.replay_inv betting_replay unfolding replay_def by blast

text \<open>
  Decisions of the prediction bot on a well-formed projection: no event and no command panics,
  and a settlement that a creator or moderator asks for goes through.
\<close>

section \<open>No panic\<close>

lemma no_panic_arith [simp]:
  "no_panic (checked_add a b)" "no_panic (checked_points_add a b)" "no_panic (checked_mul a b)"
  "no_panic (pool m)" "no_panic (positive_policy p)" "no_panic (div_rem a b) \<longleftrightarrow> b \<noteq> 0"
  by (simp_all add: checked_add_def checked_points_add_def checked_mul_def pool_def positive_policy_def
      div_rem_def)

lemma no_panic_stakes [simp]: "no_panic (stakes m selected)"
  unfolding stakes_def by (rule no_panic_try_fold [where I = "\<lambda>_. True"]) (auto simp: add_stake_def Let_def)

lemma no_panic_check_options [simp]: "no_panic (check_options lc unique opts)"
  by (induction opts arbitrary: unique) simp_all

lemma no_panic_valid_market [simp]: "no_panic (valid_market lc q opts)"
  by (simp add: valid_market_def)

lemma no_panic_recorded [simp]: "no_panic (recorded_allocations as accs)"
  unfolding recorded_allocations_def
  by (rule no_panic_try_fold [where I = "\<lambda>_. True"]) (auto simp: record_allocation_def)

lemma no_panic_credit [simp]: "no_panic (credit_allocations accs as)"
  unfolding credit_allocations_def
  by (rule no_panic_try_fold [where I = "\<lambda>_. True"]) (auto simp: credit_allocation_def)

lemma no_panic_checks [simp]:
  "no_panic (check_refunds m recorded winning)" "no_panic (check_shares m recorded winning)"
  "no_panic (try_fold checked_points_add n ns)"
proof -
  show "no_panic (try_fold checked_points_add n ns)" for n ns
    by (rule no_panic_try_fold [where I = "\<lambda>_. True"]) simp_all
  then show "no_panic (check_refunds m recorded winning)" "no_panic (check_shares m recorded winning)"
    by (simp_all add: check_refunds_def check_shares_def)
qed

lemma no_panic_apply_grant: "no_panic (apply_grant s u reason amount from_due through_due next)"
  by (auto simp: apply_grant_def Let_def positive_policy_Inr_iff split: prod.splits)

lemma remaining_in_i64: "wf_account a \<Longrightarrow> 0 < n \<Longrightarrow> n \<le> balance a \<Longrightarrow> in_i64 (balance a - n)"
  by (simp add: wf_account_def i64_defs)

lemma no_panic_apply_bet:
  assumes "wf_state lc s"
  shows "no_panic (apply_bet s i u oc amount accepted_at)"
  using wf_account_get [OF assms, of u]
  by (auto simp: apply_bet_def result_simps remaining_in_i64)

lemma no_panic_transitions:
  "no_panic (validate_announcement_activation c v)" "no_panic (apply_initialization s n interval)"
  "no_panic (apply_enrollment s u t)" "no_panic (apply_market_creation lc s i u q opts t0 t1)"
  "no_panic (apply_resolver_added s i u v t)" "no_panic (apply_resolver_removed s i u v t)"
  by (simp_all add: validate_announcement_activation_def apply_initialization_def Let_def
      apply_enrollment_def apply_market_creation_def apply_resolver_added_def apply_resolver_removed_def)

lemma no_panic_settlements:
  "no_panic (apply_resolution s i oc v t paid refunded)" "no_panic (apply_cancellation s i v paid)"
  unfolding apply_resolution_def apply_cancellation_def by (simp_all (no_asm))

lemma no_panic_apply:
  assumes "wf_state lc s"
  shows "no_panic (apply_inner lc s e)"
  using no_panic_apply_bet [OF assms]
  by (cases e) (simp_all add: no_panic_apply_grant no_panic_transitions no_panic_settlements)

lemma no_panic_finish: "wf_state lc s \<Longrightarrow> no_panic (finish lc s evs reply)"
proof -
  assume "wf_state lc s"
  then have "no_panic (try_fold (apply_inner lc) s evs)"
    by (rule no_panic_try_fold) (auto intro: no_panic_apply bet_source.inv_step)
  then show ?thesis by (simp add: finish_def)
qed

lemma payouts_sound:
  assumes "sound_bets m"
  obtains paid refunded where "payouts m oc = Inr (paid, refunded)"
proof -
  obtain t where t: "stakes m (Some oc) = Inr t" using stakes_sound [OF assms] by metis
  show thesis
  proof (cases "t = []")
    case True
    obtain t' where "stakes m None = Inr t'" using stakes_sound [OF assms] by metis
    with t True that show thesis by (simp add: payouts_def)
  next
    case False
    then show thesis using that payouts_shares [OF assms t] by simp
  qed
qed

lemma wf_sound_bets: "wf_state lc s \<Longrightarrow> bt_get (markets s) i = Some m \<Longrightarrow> sound_bets m"
  using wf_market_get [of lc s i m] by (simp add: wf_market_def)

lemma no_panic_check_resolver [simp]: "no_panic (check_resolver s a m membership)"
  by (auto simp: check_resolver_def split: option.splits membership_evidence.splits)

lemma no_panic_resolve:
  assumes "wf_state lc s"
  shows "no_panic (decide_resolve lc s a i oc now membership)"
proof -
  have "no_panic (payouts m oc)" if "bt_get (markets s) i = Some m" for m
    using payouts_sound [OF wf_sound_bets [OF assms that], of oc] by (metis no_panic_simps(1))
  then show ?thesis
    by (cases "bt_get (markets s) i")
      (simp_all add: decide_resolve_def no_panic_finish [OF assms] split: prod.split)
qed

lemma no_panic_grant:
  assumes "wf_state lc s"
  shows "no_panic (decide_grant lc s a u now)"
proof -
  have "in_i64 q" if "in_i64 (q + 1)" "0 \<le> q" for q using that by (simp add: i64_defs)
  then show ?thesis
    using no_panic_finish [OF assms]
    by (auto simp: decide_grant_def result_simps pos_imp_zdiv_nonneg_iff)
qed

lemma no_panic_bet:
  assumes "wf_state lc s"
  shows "no_panic (decide_bet lc s a i oc amount now)"
  using no_panic_finish [OF assms] wf_account_get [OF assms]
  by (auto simp: decide_bet_def result_simps remaining_in_i64)

lemma no_panic_resolvers:
  assumes "wf_state lc s"
  shows "no_panic (decide_add_resolver lc s a i u now membership)"
    "no_panic (decide_remove_resolver lc s a i u now)"
  using no_panic_finish [OF assms]
  by (auto simp: decide_add_resolver_def decide_remove_resolver_def Let_def
      split: option.split membership_evidence.split)

lemma no_panic_other:
  assumes "wf_state lc s"
  shows "no_panic (decide_join lc s a now defaults)" "no_panic (decide_create lc s a i q opts closes now)"
    "no_panic (decide_cancel lc s a i now)"
  using no_panic_finish [OF assms]
  by (simp_all add: decide_join_def decide_create_def decide_cancel_def Let_def)

lemma no_panic_decide:
  assumes "wf_state lc s"
  shows "no_panic (decide_with_membership lc s a c now defaults membership)"
  by (cases c) (simp_all add: assms no_panic_resolve no_panic_grant no_panic_bet no_panic_resolvers
      no_panic_other)

end
