(* ===== verification/Bet_Liveness.thy ===== *)
theory Bet_Liveness imports Bet_Safety begin

text \<open>
  A settlement that is asked for by someone entitled to it goes through: the allocations that a
  decision computes pass every check of the transition that records them, as long as the points
  in circulation fit in an \<open>i64\<close>.
\<close>

section \<open>Recording a computed settlement\<close>

lemma record_run:
  assumes "bt_invar acc" "distinct (map fst t)" "\<forall>(u, n) \<in> set t. 0 < n \<and> bt_contains accs u"
    and "\<forall>u \<in> fst ` set t. bt_get acc u = None"
  shows "\<exists>r. try_fold (record_allocation accs) acc (allocations t) = Inr r \<and> bt_invar r \<and>
    bt_get r = bt_get acc ++ bt_get t"
  using assms
proof (induction t arbitrary: acc)
  case (Cons e t)
  obtain u n where e: "e = (u, n)" by (cases e)
  let ?acc = "bt_insert u n acc"
  have step: "record_allocation accs acc \<lparr>alloc_user = u, alloc_amount = n\<rparr> = Inr ?acc"
    using Cons.prems by (simp add: e record_allocation_def bt_contains_def)
  have "\<exists>r. try_fold (record_allocation accs) ?acc (allocations t) = Inr r \<and>
      bt_invar r \<and> bt_get r = bt_get ?acc ++ bt_get t"
    by (rule Cons.IH) (use Cons.prems e in auto)
  then obtain r where r: "try_fold (record_allocation accs) ?acc (allocations t) = Inr r" "bt_invar r"
    "bt_get r = bt_get ?acc ++ bt_get t" by blast
  have "bt_get t u = None" using Cons.prems(2) by (simp add: e map_of_eq_None_iff)
  then have "bt_get r = bt_get acc ++ bt_get (e # t)"
    using r(3) Cons.prems(1) by (auto simp: e fun_eq_iff map_add_def split: option.splits)
  moreover have "try_fold (record_allocation accs) acc (allocations (e # t)) = Inr r"
    using step r(1) by (simp add: e allocations_def)
  ultimately show ?case using r(2) by blast
qed (simp add: allocations_def)

lemma recorded_computed:
  assumes "positive_entries t" "\<forall>u \<in> fst ` set t. bt_contains accs u"
  shows "recorded_allocations (allocations t) accs = Inr t"
proof -
  have "\<exists>r. try_fold (record_allocation accs) [] (allocations t) = Inr r \<and> bt_invar r \<and>
      bt_get r = bt_get [] ++ bt_get t"
    by (rule record_run) (use assms in \<open>force simp: positive_entries_def bt_distinct_keys\<close>)+
  then show ?thesis
    using assms(1) by (auto simp: recorded_allocations_def positive_entries_def intro: bt_ext)
qed

lemma credit_total:
  assumes "bt_invar accs" "distinct (map alloc_user as)"
    and "\<forall>a \<in> set as. \<exists>acc. bt_get accs (alloc_user a) = Some acc \<and> in_i64 (balance acc + alloc_amount a)"
  shows "\<exists>accs'. credit_allocations accs as = Inr accs'"
  using assms
proof (induction as arbitrary: accs)
  case (Cons a as)
  from Cons.prems(3) obtain acc where acc: "bt_get accs (alloc_user a) = Some acc"
    "in_i64 (balance acc + alloc_amount a)" by auto
  let ?accs = "bt_insert (alloc_user a) (acc\<lparr>balance := balance acc + alloc_amount a\<rparr>) accs"
  have "\<exists>accs'. credit_allocations ?accs as = Inr accs'"
  proof (rule Cons.IH)
    show "\<forall>b \<in> set as. \<exists>acc. bt_get ?accs (alloc_user b) = Some acc \<and> in_i64 (balance acc + alloc_amount b)"
    proof
      fix b assume b: "b \<in> set as"
      then have "alloc_user b \<noteq> alloc_user a" using Cons.prems(2) by (metis distinct.simps(2) image_eqI list.set_map list.simps(9))
      then show "\<exists>acc. bt_get ?accs (alloc_user b) = Some acc \<and> in_i64 (balance acc + alloc_amount b)"
        using Cons.prems(1,3) b by simp
    qed
  qed (use Cons.prems in auto)
  moreover have "credit_allocation accs a = Inr ?accs" using acc by (simp add: credit_allocation_Inr_iff)
  ultimately show ?case by (simp add: credit_allocations_def)
qed (simp add: credit_allocations_def)

lemma checked_sum_total:
  assumes "\<forall>x \<in> set xs. 0 \<le> x" "0 \<le> a" "a + sum_list xs \<le> i64_max"
  shows "try_fold checked_points_add a xs = Inr (a + sum_list xs)"
  using assms
proof (induction xs arbitrary: a)
  case (Cons x xs)
  have "0 \<le> sum_list xs" by (rule sum_list_nonneg) (use Cons.prems in simp)
  then have "in_i64 (a + x)" using Cons.prems by (simp add: i64_defs)
  then have "checked_points_add a x = Inr (a + x)" by (simp add: checked_points_add_Inr_iff)
  with Cons.IH [of "a + x"] Cons.prems show ?case by (simp add: add.assoc)
qed simp

section \<open>Room for every credit\<close>

lemma bt_sum_get_le:
  assumes "\<forall>v \<in> snd ` set t. 0 \<le> f v" "bt_get t k = Some v"
  shows "f v \<le> bt_sum f t"
  using assms
proof (induction t)
  case (Cons x t)
  have "0 \<le> bt_sum f t" unfolding bt_sum_def by (rule sum_list_nonneg) (use Cons.prems in auto)
  with Cons show ?case by (auto split: if_splits)
qed simp

lemma wf_room:
  assumes "wf_state lc s" "bt_get (accounts s) u = Some acc" "bt_get (markets s) i = Some m" "status m = Open"
  shows "balance acc + total_staked m \<le> total_points s"
proof -
  have "balance acc \<le> bt_sum balance (accounts s)"
    by (rule bt_sum_get_le [OF _ assms(2)])
      (use assms(1) in \<open>auto simp: wf_state_def list_all_iff wf_account_def\<close>)
  moreover have "\<forall>n \<in> snd ` set (markets s). 0 \<le> open_pool n"
    using assms(1) staked_on_le [of _ None]
    by (fastforce simp: wf_state_def list_all_iff wf_market_def open_pool_def sound_bets_def staked_on_def selects_def)
  then have "open_pool m \<le> bt_sum open_pool (markets s)"
    by (rule bt_sum_get_le [OF _ assms(3)])
  ultimately show ?thesis using assms(4) by (simp add: total_points_def open_pool_def)
qed

text \<open>A settlement of a market: what it pays, to whom, and that the payments fit.\<close>

definition settles :: "state \<Rightarrow> market \<Rightarrow> (user_id, points) btree_map \<Rightarrow> bool" where
  "settles s m t \<longleftrightarrow> positive_entries t \<and> (\<forall>u \<in> fst ` set t. bt_contains (accounts s) u) \<and>
     bt_sum (\<lambda>n. n) t \<le> total_staked m"

lemma settles_credit:
  assumes "wf_state lc s" "total_points s \<le> i64_max" "bt_get (markets s) i = Some m" "status m = Open"
    and "settles s m t"
  shows "recorded_allocations (allocations t) (accounts s) = Inr t"
    "\<exists>accs. credit_allocations (accounts s) (allocations t) = Inr accs"
proof -
  show "recorded_allocations (allocations t) (accounts s) = Inr t"
    using assms(5) by (simp add: settles_def recorded_computed)
  show "\<exists>accs. credit_allocations (accounts s) (allocations t) = Inr accs"
  proof (rule credit_total)
    show "bt_invar (accounts s)" using assms(1) by (simp add: wf_state_def)
    show "distinct (map alloc_user (allocations t))"
      using assms(5) by (simp add: settles_def positive_entries_def bt_distinct_keys allocations_def
          comp_def case_prod_unfold)
    show "\<forall>a \<in> set (allocations t). \<exists>acc. bt_get (accounts s) (alloc_user a) = Some acc \<and>
        in_i64 (balance acc + alloc_amount a)"
    proof
      fix a assume a: "a \<in> set (allocations t)"
      then obtain u n where un: "(u, n) \<in> set t" "a = \<lparr>alloc_user = u, alloc_amount = n\<rparr>"
        by (auto simp: allocations_def)
      then obtain acc where acc: "bt_get (accounts s) u = Some acc"
        using assms(5) by (force simp: settles_def bt_contains_def)
      have n: "bt_get t u = Some n" "0 < n"
        using un(1) assms(5) bspec [of "set t" "\<lambda>x. 0 < snd x" "(u, n)"]
        by (auto simp: settles_def positive_entries_def bt_entry_iff)
      then have "n \<le> total_staked m" using bt_get_le_sum [of t u n] assms(5) by (auto simp: settles_def)
      then have "balance acc + n \<le> i64_max" using wf_room [OF assms(1) acc assms(3,4)] assms(2) by simp
      with n wf_account_get [OF assms(1) acc] have "in_i64 (balance acc + n)"
        by (simp add: wf_account_def i64_defs)
      with acc un(2) show "\<exists>acc. bt_get (accounts s) (alloc_user a) = Some acc \<and>
        in_i64 (balance acc + alloc_amount a)" by auto
    qed
  qed
qed

lemma stakes_settle:
  assumes "wf_state lc s" "bt_get (markets s) i = Some m" "stakes m selected = Inr t"
  shows "settles s m t"
proof -
  have wf: "wf_market lc (accounts s) i m" by (rule wf_market_get) fact+
  then have "sound_bets m" by (simp add: wf_market_def)
  then obtain t' where t': "stakes m selected = Inr t'" "positive_entries t'"
    "bt_sum (\<lambda>n. n) t' = staked_on (bets m) selected"
    "fst ` set t' = bet_user ` {b \<in> set (bets m). selects selected b}"
    by (rule stakes_sound [of m selected])
  have "bt_sum (\<lambda>n. n) t' \<le> total_staked m"
    using \<open>sound_bets m\<close> staked_on_le [of "bets m" selected] t'(3) by (simp add: sound_bets_def)
  moreover have "bt_contains (accounts s) u" if "u \<in> fst ` set t'" for u
    using that wf unfolding t'(4) by (auto simp: wf_market_def list_all_iff)
  ultimately show ?thesis using assms(3) t'(1,2) by (simp add: settles_def)
qed

lemma shares_settle:
  assumes "wf_state lc s" "bt_get (markets s) i = Some m" "stakes m (Some oc) = Inr t" "t \<noteq> []"
  defines "r \<equiv> map (\<lambda>e. (fst e, share (total_staked m) t e)) t"
  shows "settles s m r" "shares (total_staked m) t = allocations r" "bt_sum (\<lambda>n. n) r = total_staked m"
proof -
  have sound: "sound_winners (total_staked m) t"
    using winners_sound [OF wf_sound_bets [OF assms(1,2)] assms(3,4)] .
  show eq: "shares (total_staked m) t = allocations r"
    by (simp add: shares_def allocations_def r_def comp_def)
  have "positive_entries t" using sound by (simp add: sound_winners_def)
  moreover have "0 < share (total_staked m) t e" if "e \<in> set t" for e
    using share_bounds(1) [OF sound that] stake_bounds [OF \<open>positive_entries t\<close>, of "fst e" "snd e"] that by simp
  ultimately have "positive_entries r"
    by (auto simp: r_def positive_entries_def bt_invar_def comp_def)
  moreover show sum: "bt_sum (\<lambda>n. n) r = total_staked m"
    using shares_sum [OF sound] by (simp add: eq allocations_def bt_sum_def comp_def case_prod_unfold)
  moreover have "fst ` set r = fst ` set t" by (force simp: r_def)
  ultimately show "settles s m r"
    using stakes_settle [OF assms(1-3)] by (simp add: settles_def)
qed

section \<open>The decisions that settle a market\<close>

lemma list_all2_get:
  "bt_invar t \<Longrightarrow> (u, n) \<in> set t \<Longrightarrow> bt_get (map (\<lambda>e. (fst e, f e)) t) u = Some (f (u, n))"
  using bt_entry_iff [of "map (\<lambda>e. (fst e, f e)) t" u "f (u, n)"]
  by (force simp: bt_invar_def comp_def)

lemma shares_pass:
  assumes "wf_state lc s" "bt_get (markets s) i = Some m" "stakes m (Some oc) = Inr t" "t \<noteq> []"
  shows "check_shares m (map (\<lambda>e. (fst e, share (total_staked m) t e)) t) t = Inr ()"
proof -
  let ?r = "map (\<lambda>e. (fst e, share (total_staked m) t e)) t"
  have sound: "sound_winners (total_staked m) t"
    using winners_sound [OF wf_sound_bets [OF assms(1,2)] assms(3,4)] .
  then have inv: "bt_invar t" by (simp add: sound_winners_def positive_entries_def)
  have "bt_get ?r u = Some (share (total_staked m) t (u, n)) \<and> n \<le> share (total_staked m) t (u, n)"
    if "(u, n) \<in> set t" for u n
    using list_all2_get [OF inv that] share_bounds(1) [OF sound that] by simp
  then have none_short: "\<not> list_ex (\<lambda>(u, stake). case bt_get ?r u of None \<Rightarrow> True | Some n \<Rightarrow> n < stake) t"
    by (fastforce simp: list_ex_iff)
  have settle: "positive_entries ?r" "bt_sum (\<lambda>n. n) ?r = total_staked m"
    using shares_settle [OF assms] by (simp_all add: settles_def)
  have bound: "0 \<le> total_staked m" "total_staked m \<le> i64_max"
    using wf_sound_bets [OF assms(1,2)] staked_on_le [of "bets m" None]
    by (auto simp: sound_bets_def staked_on_def selects_def)
  have "try_fold checked_points_add 0 (map snd ?r) = Inr (0 + sum_list (map snd ?r))"
    by (rule checked_sum_total) (use settle bound in
        \<open>auto simp: positive_entries_def bt_sum_id intro: less_imp_le simp del: map_map\<close>)
  then have "try_fold checked_points_add 0 (map snd ?r) = Inr (total_staked m)"
    using settle(2) by (simp add: bt_sum_id)
  then show ?thesis
    unfolding check_shares_def using assms(4) none_short bound
    by (simp add: pool_def del: map_map)
qed

lemma settlement_applies:
  assumes "wf_state lc s" "total_points s \<le> i64_max" "bt_get (markets s) i = Some m" "status m = Open"
    and "oc < length (options m)" "closes_at m \<le> now" "u \<noteq> 0"
  shows "\<exists>paid refunded s'. payouts m oc = Inr (paid, refunded) \<and>
    apply_resolution s i oc u now paid refunded = Inr s'"
proof -
  have sound: "sound_bets m" by (rule wf_sound_bets) fact+
  obtain t where t: "stakes m (Some oc) = Inr t" by (rule stakes_sound [OF sound])
  show ?thesis
  proof (cases "t = []")
    case True
    obtain t' where t': "stakes m None = Inr t'" by (rule stakes_sound [OF sound])
    have "payouts m oc = Inr (allocations t', True)" using t t' True by (simp add: payouts_def)
    moreover have "\<exists>s'. apply_resolution s i oc u now (allocations t') True = Inr s'"
      using settles_credit [OF assms(1-4) stakes_settle [OF assms(1,3) t']] assms t t' True
      by (auto simp: apply_resolution_def check_refunds_def)
    ultimately show ?thesis by blast
  next
    case False
    note r = shares_settle [OF assms(1,3) t False]
    have "payouts m oc = Inr (shares (total_staked m) t, False)" by (rule payouts_shares) fact+
    moreover have "\<exists>s'. apply_resolution s i oc u now (shares (total_staked m) t) False = Inr s'"
      using settles_credit [OF assms(1-4) r(1)] shares_pass [OF assms(1,3) t False] assms t
      by (auto simp: apply_resolution_def r(2))
    ultimately show ?thesis by blast
  qed
qed

lemma cancellation_applies:
  assumes "wf_state lc s" "total_points s \<le> i64_max" "bt_get (markets s) i = Some m" "status m = Open"
    and "u \<noteq> 0"
  shows "\<exists>t s'. stakes m None = Inr t \<and> apply_cancellation s i u (allocations t) = Inr s'"
proof -
  obtain t where t: "stakes m None = Inr t"
    by (rule stakes_sound [OF wf_sound_bets [OF assms(1,3)]])
  with settles_credit [OF assms(1-4) stakes_settle [OF assms(1,3) t]] assms show ?thesis
    by (auto simp: apply_cancellation_def)
qed

text \<open>
  The grant schedule of the prediction bot: what a member has been granted over a history, and
  that settling a backlog of due grants at once or in pieces comes to the same.
\<close>

section \<open>Grants over a history\<close>

fun granted_to :: "user_id \<Rightarrow> event \<Rightarrow> points" where
  "granted_to u (PointsGranted v reason amount from_due through_due next) = (if v = u then amount else 0)"
| "granted_to u _ = 0"

definition granted_total :: "user_id \<Rightarrow> event list \<Rightarrow> points" where
  "granted_total u es = sum_list (map (granted_to u) es)"

lemma granted_total_snoc [simp]: "granted_total u (es @ [e]) = granted_total u es + granted_to u e"
  by (simp add: granted_total_def)

lemma granted_total_Nil [simp]: "granted_total u [] = 0"
  by (simp add: granted_total_def)

text \<open>The due date of a member's next grant.\<close>

definition due :: "state \<Rightarrow> user_id \<Rightarrow> int option" where
  "due s u = map_option next_grant (bt_get (accounts s) u)"

definition on_schedule :: "event list \<Rightarrow> state \<Rightarrow> user_id \<Rightarrow> bool" where
  "on_schedule es s u \<longleftrightarrow>
     (case due s u of
        None \<Rightarrow> granted_total u es = 0
      | Some next \<Rightarrow> \<exists>p t. policy s = Some p \<and> MemberEnrolled u t \<in> set es \<and>
          pol_interval p * granted_total u es = pol_amount p * (next - t))"

lemma credit_due:
  "try_fold credit_allocation accs as = Inr accs' \<Longrightarrow> bt_invar accs \<Longrightarrow>
    map_option next_grant (bt_get accs' u) = map_option next_grant (bt_get accs u)"
proof (induction as arbitrary: accs)
  case (Cons a as)
  then obtain acc where acc: "bt_get accs (alloc_user a) = Some acc"
    and rest: "try_fold credit_allocation
      (bt_insert (alloc_user a) (acc\<lparr>balance := balance acc + alloc_amount a\<rparr>) accs) as = Inr accs'"
    by (auto simp: result_simps)
  from Cons.IH [OF rest] Cons.prems(2) acc show ?case by auto
qed simp

lemma due_put: "bt_invar (accounts s) \<Longrightarrow>
    due (s\<lparr>accounts := bt_insert v acc (accounts s)\<rparr>) u = (if u = v then Some (next_grant acc) else due s u)"
  by (simp add: due_def)

text \<open>Only enrolments and grants move a due date.\<close>

lemma due_kept:
  assumes wf: "wf_state lc s" and step: "apply_inner lc s e = Inr s'"
    and other: "event_name e \<noteq> ''member.enrolled''" "event_name e \<noteq> ''points.granted''"
  shows "due s' u = due s u"
proof (cases e)
  case (BetPlaced i v oc a t)
  with step have "apply_bet s i v oc a t = Inr s'" by simp
  then show ?thesis using wf by (auto simp: apply_bet_def result_simps due_def wf_state_def split: if_splits)
next
  case (MarketResolved i oc r t p rf)
  with step have "apply_resolution s i oc r t p rf = Inr s'" by simp
  then show ?thesis
    using wf credit_due [of "accounts s" p]
    by (auto simp: apply_resolution_def result_simps due_def wf_state_def credit_allocations_def split: if_splits)
next
  case (MarketCancelled i b t r)
  with step have "apply_cancellation s i b r = Inr s'" by simp
  then show ?thesis
    using wf credit_due [of "accounts s" r]
    by (auto simp: apply_cancellation_def result_simps due_def wf_state_def credit_allocations_def split: if_splits)
qed (use step other in \<open>auto simp: apply_initialization_def apply_market_creation_def Let_def
    apply_resolver_added_def apply_resolver_removed_def due_def result_simps split: if_splits\<close>)

lemma due_enrolled:
  assumes "wf_state lc s" "apply_enrollment s v t = Inr s'"
  shows "due s v = None" "policy s \<noteq> None" "due s' u = (if u = v then Some t else due s u)" "policy s' = policy s"
  using assms by (auto simp: apply_enrollment_def due_def bt_contains_def wf_state_def split: if_splits)

lemma due_granted:
  assumes "wf_state lc s" "apply_grant s v reason amount from_due through_due next = Inr s'"
  obtains p where "policy s = Some p" "due s v = Some from_due" "policy s' = policy s"
    "pol_interval p * amount = pol_amount p * (next - from_due)"
    "due s' u = (if u = v then Some next else due s u)"
proof (rule grant_facts [OF assms])
  fix p acc assume "policy s = Some p" "bt_get (accounts s) v = Some acc" "from_due = next_grant acc"
    "pol_interval p * amount = pol_amount p * (next - from_due)"
    "s' = s\<lparr>accounts := bt_insert v (acc\<lparr>balance := balance acc + amount, next_grant := next\<rparr>) (accounts s)\<rparr>"
  then show thesis
    using assms(1) by (intro that [of p]) (auto simp: due_def wf_state_def)
qed

lemma policy_kept: "wf_state lc s \<Longrightarrow> apply_inner lc s e = Inr s' \<Longrightarrow> policy s = Some p \<Longrightarrow> policy s' = Some p"
  using apply_inner_kept [of lc s e s'] by (simp add: history_kept_def)

lemma on_schedule_step:
  assumes wf: "wf_state lc s" and step: "apply_inner lc s e = Inr s'" and sched: "on_schedule es s u"
  shows "on_schedule (es @ [e]) s' u"
proof (cases "event_name e = ''member.enrolled'' \<or> event_name e = ''points.granted''")
  case False
  then have "due s' u = due s u" using due_kept [OF wf step] by simp
  moreover have "granted_to u e = 0" using False by (cases e) auto
  ultimately show ?thesis
    using sched policy_kept [OF wf step] by (fastforce simp: on_schedule_def split: option.splits)
next
  case True
  then show ?thesis
  proof (cases e)
    case (MemberEnrolled v t)
    with step have "apply_enrollment s v t = Inr s'" by simp
    from due_enrolled(1,2,4) [OF wf this] due_enrolled(3) [OF wf this, of u] sched MemberEnrolled show ?thesis
      by (auto simp: on_schedule_def split: option.splits)
  next
    case (PointsGranted v reason amount from_due through_due nxt)
    with step have "apply_grant s v reason amount from_due through_due nxt = Inr s'" by simp
    from due_granted [OF wf this, of u] obtain p where p: "policy s = Some p" "due s v = Some from_due"
      "policy s' = policy s" "pol_interval p * amount = pol_amount p * (nxt - from_due)"
      "due s' u = (if u = v then Some nxt else due s u)" by metis
    show ?thesis
    proof (cases "u = v")
      case True
      with sched p obtain t where "MemberEnrolled u t \<in> set es"
        "pol_interval p * granted_total u es = pol_amount p * (from_due - t)"
        by (auto simp: on_schedule_def)
      with True p PointsGranted show ?thesis by (auto simp: on_schedule_def algebra_simps)
    next
      case False
      with sched p PointsGranted show ?thesis by (auto simp: on_schedule_def split: option.splits)
    qed
  qed auto
qed

lemma replay_on_schedule:
  assumes "replay lc es = Inr s"
  shows "on_schedule es s u"
proof (rule bet_source.replay_induct [where lc = lc and P = "\<lambda>es s. on_schedule es s u"])
  show "try_fold (apply_inner lc) default_state es = Inr s" using assms by (simp add: replay_def)
  show "on_schedule [] default_state u" by (simp add: on_schedule_def due_def default_state_def)
  show "on_schedule (es @ [e]) s' u"
    if "wf_state lc s" "apply_inner lc s e = Inr s'" "on_schedule es s u" for es s e s'
    using that by (rule on_schedule_step)
qed

section \<open>Settling a backlog\<close>

text \<open>The number of grants due at an instant, and the projection once they are settled.\<close>

definition due_count :: "policy \<Rightarrow> int \<Rightarrow> int \<Rightarrow> int" where
  "due_count p next now = (if now < next then 0 else (now - next) div pol_interval p + 1)"

definition caught_up :: "policy \<Rightarrow> account \<Rightarrow> int \<Rightarrow> account" where
  "caught_up p acc now =
     (let k = due_count p (next_grant acc) now in
      acc\<lparr>balance := balance acc + pol_amount p * k, next_grant := next_grant acc + pol_interval p * k\<rparr>)"

lemma due_count_next:
  assumes "0 < pol_interval p"
  shows "now < next + pol_interval p * due_count p next now" "0 \<le> due_count p next now"
    "\<not> now < next \<Longrightarrow> next + pol_interval p * due_count p next now \<le> now + pol_interval p"
proof -
  define q where "q = (now - next) div pol_interval p"
  define r where "r = (now - next) mod pol_interval p"
  have split: "now - next = pol_interval p * q + r" by (simp add: q_def r_def)
  have r: "0 \<le> r" "r < pol_interval p" using assms by (simp_all add: r_def)
  have k: "due_count p next now = (if now < next then 0 else q + 1)" by (simp add: due_count_def q_def)
  show "now < next + pol_interval p * due_count p next now"
  proof (cases "now < next")
    case False
    then have "next + pol_interval p * due_count p next now = next + pol_interval p * q + pol_interval p"
      by (simp add: k distrib_left)
    then show ?thesis using split r by linarith
  qed (simp add: k)
  show "next + pol_interval p * due_count p next now \<le> now + pol_interval p" if "\<not> now < next"
  proof -
    have "next + pol_interval p * due_count p next now = next + pol_interval p * q + pol_interval p"
      using that by (simp add: k distrib_left)
    then show ?thesis using split r by linarith
  qed
  have "0 \<le> q" if "\<not> now < next"
    unfolding q_def using that assms by (subst pos_imp_zdiv_nonneg_iff) simp_all
  then show "0 \<le> due_count p next now" by (simp add: k)
qed

lemma due_count_add:
  assumes I: "0 < pol_interval p" and le: "t1 \<le> t2"
  shows "due_count p next t1 + due_count p (next + pol_interval p * due_count p next t1) t2 =
    due_count p next t2"
proof -
  let ?k = "due_count p next t1" and ?I = "pol_interval p"
  note k = due_count_next [OF I, of t1 "next"]
  show ?thesis
  proof (cases "t1 < next")
    case False
    have shift: "(t2 - (next + ?I * ?k)) div ?I = (t2 - next) div ?I - ?k"
    proof -
      have "(t2 - (next + ?I * ?k)) div ?I = ((t2 - next) + ?I * (- ?k)) div ?I" by (simp add: algebra_simps)
      also have "\<dots> = - ?k + (t2 - next) div ?I" using I by (intro div_mult_self2) simp
      finally show ?thesis by simp
    qed
    show ?thesis
    proof (cases "t2 < next + ?I * ?k")
      case True
      have "(t2 - (next + ?I * ?k)) div ?I < 0" using True I by (intro div_neg_pos_less0) simp_all
      moreover have "(t1 - next) div ?I \<le> (t2 - next) div ?I" using le I by (simp add: zdiv_mono1)
      ultimately show ?thesis using shift True False le by (simp add: due_count_def)
    next
      case False': False
      then show ?thesis using shift False le by (simp add: due_count_def)
    qed
  qed (simp add: due_count_def)
qed

lemma caught_up_twice:
  assumes "0 < pol_interval p" "t1 \<le> t2"
  shows "caught_up p (caught_up p acc t1) t2 = caught_up p acc t2"
  using due_count_add [OF assms, of "next_grant acc"]
  by (simp add: caught_up_def Let_def distrib_left [symmetric] add.assoc)

lemma caught_up_now: "now < next_grant acc \<Longrightarrow> caught_up p acc now = acc"
  by (simp add: caught_up_def due_count_def)

text \<open>A decision about a member's grants records at most one grant, and settles everything due.\<close>

lemma decide_grant_settles:
  assumes wf: "wf_state lc s" and p: "policy s = Some p" and acc: "bt_get (accounts s) u = Some acc"
    and d: "decide_grant lc s a u now = Inr d" and s': "try_fold (apply_inner lc) s (events d) = Inr s'"
  shows "if now < next_grant acc then events d = [] \<and> s' = s
    else length (events d) = 1 \<and> s' = s\<lparr>accounts := bt_insert u (caught_up p acc now) (accounts s)\<rparr>"
proof (cases "now < next_grant acc")
  case True
  with d p acc have "events d = []" by (auto simp: decide_grant_def result_simps split: if_splits)
  with True s' show ?thesis by simp
next
  case False
  have I: "0 < pol_interval p" using wf p by (simp add: wf_state_def wf_policy_def)
  let ?k = "due_count p (next_grant acc) now"
  have k: "?k = (now - next_grant acc) div pol_interval p + 1" using False by (simp add: due_count_def)
  have "events d = [PointsGranted u Periodic (pol_amount p * ?k) (next_grant acc)
      (next_grant acc + pol_interval p * (?k - 1)) (next_grant acc + pol_interval p * (?k - 1) + pol_interval p)]"
    using d p acc False I k by (auto simp: decide_grant_def result_simps split: if_splits)
  moreover from this s' have "apply_grant s u Periodic (pol_amount p * ?k) (next_grant acc)
      (next_grant acc + pol_interval p * (?k - 1))
      (next_grant acc + pol_interval p * (?k - 1) + pol_interval p) = Inr s'"
    by (simp add: result_simps)
  then have "s' = s\<lparr>accounts := bt_insert u (caught_up p acc now) (accounts s)\<rparr>"
  proof (rule grant_facts [OF wf])
    fix p' acc' assume "bt_get (accounts s) u = Some acc'"
      "s' = s\<lparr>accounts := bt_insert u (acc'\<lparr>balance := balance acc' + pol_amount p * ?k,
         next_grant := next_grant acc + pol_interval p * (?k - 1) + pol_interval p\<rparr>) (accounts s)\<rparr>"
    then show ?thesis using acc by (simp add: caught_up_def Let_def algebra_simps)
  qed
  ultimately show ?thesis using False by simp
qed

lemma bt_insert_twice: "bt_invar m \<Longrightarrow> bt_insert k v (bt_insert k w m) = bt_insert k v m"
  by (rule bt_ext) (auto simp: fun_eq_iff)

end
