(* ===== verification/Bet_Theorems.thy ===== *)
theory Bet_Theorems imports Bet_Liveness begin

text \<open>
  The properties of the prediction bot, each with its application to the sample history.
\<close>

section \<open>Reference settlement\<close>

text \<open>
  What a settlement should pay, without the loops of the code: every member's stakes on the
  winning outcome, shared in proportion with the largest remainders rounded up, or everything
  refunded when nobody backed the winner.
\<close>

definition stake_table :: "bet list \<Rightarrow> outcome_index option \<Rightarrow> (user_id \<times> points) list" where
  "stake_table bs selected =
     map (\<lambda>u. (u, staked_by bs selected u)) (sorted_list_of_set (bet_user ` {b \<in> set bs. selects selected b}))"

definition settlement :: "market \<Rightarrow> outcome_index \<Rightarrow> allocation list \<times> bool" where
  "settlement m oc =
     (let winners = stake_table (bets m) (Some oc) in
      if winners = [] then (allocations (stake_table (bets m) None), True)
      else (shares (total_staked m) winners, False))"

lemma stakes_eq_table:
  assumes "sound_bets m"
  shows "stakes m selected = Inr (stake_table (bets m) selected)"
proof (rule stakes_sound [OF assms])
  fix t assume t: "stakes m selected = Inr t" "positive_entries t"
    "fst ` set t = bet_user ` {b \<in> set (bets m). selects selected b}"
    "\<forall>u. value_at t u = staked_by (bets m) selected u"
  have inv: "bt_invar t" using t(2) by (simp add: positive_entries_def)
  have "map fst t = sorted_list_of_set (fst ` set t)"
    using inv by (metis bt_invar_def list.set_map sorted_list_of_set.idem_if_sorted_distinct strict_sorted_iff)
  moreover have "snd e = staked_by (bets m) selected (fst e)" if "e \<in> set t" for e
  proof -
    have "bt_get t (fst e) = Some (snd e)" using bt_entry_iff [OF inv, of "fst e" "snd e"] that by simp
    then have "value_at t (fst e) = snd e" by (simp add: value_at_def)
    with t(4) show ?thesis by simp
  qed
  then have "map (\<lambda>e. (fst e, staked_by (bets m) selected (fst e))) t = t"
    by (intro map_idI) (simp add: prod_eq_iff)
  then have "t = map (\<lambda>u. (u, staked_by (bets m) selected u)) (map fst t)" by (simp add: comp_def)
  ultimately show ?thesis using t(1,3) by (simp add: stake_table_def)
qed

lemma payouts_eq_settlement: "sound_bets m \<Longrightarrow> payouts m oc = Inr (settlement m oc)"
  using payouts_shares [of m oc] stakes_eq_table [of m]
  by (simp add: settlement_def Let_def payouts_def)

section \<open>What a decision records\<close>

lemma check_resolver_Inr_iff:
  "check_resolver s a m membership = Inr x \<longleftrightarrow>
     act_moderator a \<or> act_user a = creator m \<or>
     act_user a \<in> resolvers m \<and> bt_contains (accounts s) (act_user a) \<and>
       membership = Some (Present (act_user a) False)"
  by (auto simp: check_resolver_def and_then_Inr_iff split: option.splits membership_evidence.splits if_splits)

lemmas resolution_simps = result_simps check_resolver_Inr_iff

lemma decision_applies:
  assumes "decide_with_membership lc s a c now defaults membership = Inr d"
  shows "\<exists>s'. try_fold (apply_inner lc) s (events d) = Inr s'"
proof (cases c)
  case (AddResolver i u)
  with assms show ?thesis
    by (simp add: decide_add_resolver_def result_simps split: if_splits) (auto simp: result_simps)
qed (use assms in \<open>auto simp: decide_join_def decide_grant_def decide_create_def decide_bet_def
  decide_resolve_def decide_remove_resolver_def decide_cancel_def Let_def result_simps split: if_splits\<close>)

lemma decided_other:
  assumes "decide_with_membership lc s a c now defaults membership = Inr d" "e \<in> set (events d)"
    and "event_name e = ''market.resolved''"
  shows "\<exists>i oc. c = Resolve i oc"
  using assms
  by (cases c) (auto simp: decide_join_def decide_grant_def decide_create_def decide_bet_def
    decide_add_resolver_def decide_remove_resolver_def decide_cancel_def Let_def result_simps split: if_splits)

section \<open>Histories\<close>

text \<open>C6: Every history that the bot can replay leads to a well-formed projection: the markets'
  pools are the sums of their positive bets and fit in an \<open>i64\<close>, bets and creators are enrolled
  members, balances are not negative, the payouts of a resolved market add up to its pool, the
  policy is positive and the system user has no account.\<close>

theorem bot_replay_well_formed:
  assumes "replay lc es = Inr s"
  shows "wf_state lc s"
  using assms bet_source.replay_inv unfolding replay_def by blast

theorem bot_replay_well_formed_witness:
  "wf_state to_ascii_lowercase settled_state \<and> length (markets settled_state) = 1"
  using bot_replay_well_formed [OF settled_replay] by (simp add: settled_state_def)

text \<open>C2: Points are conserved: after any replayable history the members' balances and the pools
  of the open markets add up to exactly the points that the history granted.\<close>

theorem bot_points_conserved:
  assumes "replay lc es = Inr s"
  shows "bt_sum balance (accounts s) + bt_sum open_pool (markets s) = sum_list (map granted es)"
  using bet_points.run_measure [OF wf_default, of lc es s] assms
  by (simp add: replay_def total_points_def default_state_def)

theorem bot_points_conserved_witness:
  "bt_sum balance (accounts settled_state) + bt_sum open_pool (markets settled_state) = 500"
  using bot_points_conserved [OF settled_replay]
  by (simp add: sample_opening_def sample_betting_def sample_settling_def)

text \<open>History is append-only: whatever a longer history adds, accounts stay enrolled, the
  policy stays the same, a market keeps its terms and its earlier bets, and a resolved or
  cancelled market does not change any more.\<close>

theorem bot_history_is_append_only:
  assumes "replay lc (es @ fs) = Inr t"
  shows "\<exists>s. replay lc es = Inr s \<and> history_kept s t"
proof -
  from assms obtain s where s: "replay lc es = Inr s" "try_fold (apply_inner lc) s fs = Inr t"
    by (auto simp: replay_def try_fold_append result_simps)
  moreover have "wf_state lc s" using s(1) bet_source.replay_inv unfolding replay_def by blast
  ultimately show ?thesis using bet_history.run_kept by blast
qed

theorem bot_history_is_append_only_witness:
  "history_kept betting_state settled_state"
proof -
  have "replay to_ascii_lowercase ((sample_opening @ sample_betting) @ sample_settling) = Inr settled_state"
    using settled_replay by simp
  from bot_history_is_append_only [OF this] betting_replay show ?thesis by simp
qed

section \<open>Settlements\<close>

text \<open>C7: On a market with positive bets whose sum is its pool, the payouts that the code computes
  are exactly the reference settlement: the largest-remainder shares of the pool among the
  backers of the winning outcome, ties broken by the smaller user ID, or a refund of every stake
  when nobody backed it. No check fails and nothing panics or overflows.\<close>

theorem bot_payouts_are_largest_remainder_shares:
  assumes "sound_bets m"
  shows "payouts m oc = Inr (settlement m oc)"
  using assms by (rule payouts_eq_settlement)

definition sample_betting_market :: market where
  "sample_betting_market = the (bt_get (markets betting_state) sample_id)"

lemma sample_betting_market_eq: "sample_betting_market = sample_market
   [\<lparr>bet_user = 1, bet_outcome = 0, bet_amount = 30\<rparr>, \<lparr>bet_user = 2, bet_outcome = 1, bet_amount = 20\<rparr>,
    \<lparr>bet_user = 2, bet_outcome = 0, bet_amount = 5\<rparr>] 55"
  by (simp add: sample_betting_market_def betting_state_def)

lemma sample_betting_market_sound: "sound_bets sample_betting_market"
  by (simp add: sample_betting_market_eq sound_bets_def sample_market_def i64_max_def)

lemma sample_payouts:
  "payouts sample_betting_market 0 =
     Inr ([\<lparr>alloc_user = 1, alloc_amount = 47\<rparr>, \<lparr>alloc_user = 2, alloc_amount = 8\<rparr>], False)"
  by (simp add: sample_betting_market_eq sample_market_def payouts_def bet_exec base_payout_def bump_def
      to_usize_def usize_max_def)

theorem bot_payouts_are_largest_remainder_shares_witness:
  "payouts sample_betting_market 0 = Inr (settlement sample_betting_market 0) \<and>
   fst (settlement sample_betting_market 0) =
     [\<lparr>alloc_user = 1, alloc_amount = 47\<rparr>, \<lparr>alloc_user = 2, alloc_amount = 8\<rparr>]"
  using bot_payouts_are_largest_remainder_shares [OF sample_betting_market_sound, of 0] sample_payouts
  by (metis fst_conv sum.inject(2))

text \<open>C8: A settlement with winners pays out exactly the pool, pays no winner less than the stake,
  and pays every winner within one point of the exact proportional share.\<close>

theorem bot_payouts_are_fair:
  assumes "sound_bets m" "payouts m oc = Inr (paid, False)"
  shows "sum_list (map alloc_amount paid) = total_staked m \<and>
    alloc_user ` set paid = bet_user ` {b \<in> set (bets m). bet_outcome b = oc} \<and>
    (\<forall>a \<in> set paid. let stake = staked_by (bets m) (Some oc) (alloc_user a);
        winning = staked_on (bets m) (Some oc) in
      stake \<le> alloc_amount a \<and> \<bar>winning * alloc_amount a - total_staked m * stake\<bar> \<le> winning)"
proof -
  let ?w = "stake_table (bets m) (Some oc)"
  have w: "?w \<noteq> []" "paid = shares (total_staked m) ?w"
    using assms payouts_eq_settlement [OF assms(1), of oc] by (auto simp: settlement_def Let_def split: if_splits)
  note table = stakes_eq_table [OF assms(1), of "Some oc"]
  have sound: "sound_winners (total_staked m) ?w" by (rule winners_sound) fact+
  have keys: "fst ` set ?w = bet_user ` {b \<in> set (bets m). bet_outcome b = oc}"
    by (auto simp: stake_table_def selects_def image_iff)
  have W: "sum_list (map snd ?w) = staked_on (bets m) (Some oc)"
    by (rule stakes_sound [OF assms(1), of "Some oc"]) (use table in \<open>auto simp: bt_sum_id\<close>)
  have "let stake = staked_by (bets m) (Some oc) (alloc_user a); winning = staked_on (bets m) (Some oc) in
      stake \<le> alloc_amount a \<and> \<bar>winning * alloc_amount a - total_staked m * stake\<bar> \<le> winning"
    if "a \<in> set paid" for a
  proof -
    from that w obtain e where e: "e \<in> set ?w" "alloc_user a = fst e" "alloc_amount a = share (total_staked m) ?w e"
      by (auto simp: shares_def)
    moreover have "snd e = staked_by (bets m) (Some oc) (fst e)" using e(1) by (auto simp: stake_table_def)
    ultimately show ?thesis using share_bounds [OF sound e(1)] W by (simp add: Let_def abs_le_iff)
  qed
  moreover have "alloc_user ` set paid = fst ` set ?w" by (force simp: w(2) shares_def)
  ultimately show ?thesis using shares_sum [OF sound] w keys by simp
qed

theorem bot_payouts_are_fair_witness:
  "alloc_user ` {\<lparr>alloc_user = 1, alloc_amount = 47\<rparr>, \<lparr>alloc_user = 2, alloc_amount = 8\<rparr>} =
     bet_user ` {b \<in> set (bets sample_betting_market). bet_outcome b = 0}"
  using bot_payouts_are_fair [OF sample_betting_market_sound sample_payouts] by simp

section \<open>Decisions\<close>

definition sample_creator :: actor where
  "sample_creator = \<lparr>act_user = 1, act_moderator = False, act_bot = False\<rparr>"

text \<open>C27: On a well-formed projection no command panics and no event panics, whatever the actor,
  the time, the membership evidence or the event: every failure is an error value.\<close>

theorem bot_never_panics:
  assumes "wf_state lc s"
  shows "no_panic (decide_with_membership lc s a c now defaults membership) \<and> no_panic (apply_inner lc s e)"
  using no_panic_decide [OF assms] no_panic_apply [OF assms] by blast

theorem bot_never_panics_witness:
  "no_panic (decide_with_membership to_ascii_lowercase betting_state sample_creator
     (Resolve sample_id 0) 60 sample_policy None)"
  using bot_never_panics [OF betting_wf] by blast

text \<open>C28: A decision that is taken can be recorded: its events apply, in order, to the projection it
  was taken on, the result is well-formed again, and the points in circulation change by the
  granted points only.\<close>

theorem bot_decisions_apply:
  assumes "wf_state lc s" "decide_with_membership lc s a c now defaults membership = Inr d"
  shows "\<exists>s'. try_fold (apply_inner lc) s (events d) = Inr s' \<and> wf_state lc s' \<and>
    total_points s' = total_points s + sum_list (map granted (events d))"
proof -
  have "\<exists>s'. try_fold (apply_inner lc) s (events d) = Inr s'"
    using assms(2) by (rule decision_applies)
  then show ?thesis
    using bet_points.run_measure [OF assms(1)] bet_source.run_inv [OF assms(1)] by blast
qed

lemma sample_decision:
  "decide_with_membership to_ascii_lowercase betting_state sample_creator (Resolve sample_id 0) 60
     sample_policy None = Inr \<lparr>events = sample_settling, response = lit ''Market resolved.''\<rparr>"
proof -
  have m: "bt_get (markets betting_state) sample_id = Some sample_betting_market"
    by (simp add: sample_betting_market_def betting_state_def)
  have "finish to_ascii_lowercase betting_state sample_settling reply =
      Inr \<lparr>events = sample_settling, response = reply\<rparr>" for reply
    using settling_run by (simp add: finish_def)
  then show ?thesis
    using sample_payouts
    by (simp add: decide_resolve_def m sample_creator_def check_resolver_def sample_settling_def)
      (simp add: sample_betting_market_eq sample_market_def sample_options_length)
qed

theorem bot_decisions_apply_witness:
  "\<exists>s'. try_fold (apply_inner to_ascii_lowercase) betting_state sample_settling = Inr s' \<and>
     total_points s' = total_points betting_state"
  using bot_decisions_apply [OF betting_wf sample_decision] by (auto simp: sample_settling_def)

text \<open>C26: Only those entitled to it resolve a market: a decision that records a resolution answers a
  resolve command of a human actor, for a market that is open and past its closing time, with an
  outcome that exists and the computed payouts, and the actor is a moderator, the creator, or an
  added resolver who is enrolled and whose own membership has just been verified as human.\<close>

theorem bot_resolution_is_authorised:
  assumes "decide_with_membership lc s a c now defaults membership = Inr d"
    and "MarketResolved i oc r t paid refunded \<in> set (events d)"
  shows "c = Resolve i oc \<and> r = act_user a \<and> r \<noteq> 0 \<and> t = now \<and> \<not> act_bot a \<and>
    (\<exists>m. bt_get (markets s) i = Some m \<and> status m = Open \<and> closes_at m \<le> now \<and>
       oc < length (options m) \<and> payouts m oc = Inr (paid, refunded) \<and>
       (act_moderator a \<or> r = creator m \<or>
        r \<in> resolvers m \<and> bt_contains (accounts s) r \<and> membership = Some (Present r False)))"
proof -
  from decided_other [OF assms] obtain i' oc' where "c = Resolve i' oc'" by auto
  with assms show ?thesis by (auto simp: decide_resolve_def resolution_simps split: if_splits)
qed

theorem bot_resolution_is_authorised_witness:
  "\<exists>m. bt_get (markets betting_state) sample_id = Some m \<and> status m = Open \<and> closes_at m \<le> 60"
proof -
  have "MarketResolved sample_id 0 1 60
      [\<lparr>alloc_user = 1, alloc_amount = 47\<rparr>, \<lparr>alloc_user = 2, alloc_amount = 8\<rparr>] False
    \<in> set (events \<lparr>events = sample_settling, response = lit ''Market resolved.''\<rparr>)"
    by (simp add: sample_settling_def)
  from bot_resolution_is_authorised [OF sample_decision this] show ?thesis by auto
qed

text \<open>C23: A resolution does go through: in every projection replayed from a history that granted at
  most \<open>i64::MAX\<close> points in total, a human creator or moderator who resolves an open market at or
  after its closing time gets a decision, for every outcome of the market, and recording it leaves
  the market resolved with that outcome.\<close>

theorem bot_resolution_succeeds:
  assumes "replay lc es = Inr s" "sum_list (map granted es) \<le> i64_max"
    and "bt_get (markets s) i = Some m" "status m = Open" "closes_at m \<le> now" "oc < length (options m)"
    and "act_user a \<noteq> 0" "\<not> act_bot a" "act_moderator a \<or> act_user a = creator m"
  shows "\<exists>d s' m' refunded. decide lc s a (Resolve i oc) now defaults = Inr d \<and>
    try_fold (apply_inner lc) s (events d) = Inr s' \<and> bt_get (markets s') i = Some m' \<and>
    status m' = Resolved oc refunded"
proof -
  have wf: "wf_state lc s" using assms(1) bet_source.replay_inv unfolding replay_def by blast
  have "total_points s \<le> i64_max"
    using assms(1,2) bet_points.run_measure [OF wf_default, of lc es s]
    by (simp add: replay_def total_points_def default_state_def)
  from settlement_applies [OF wf this assms(3,4,6,5,7)] obtain paid refunded s'
    where pay: "payouts m oc = Inr (paid, refunded)"
      and s': "apply_resolution s i oc (act_user a) now paid refunded = Inr s'" by blast
  have "decide lc s a (Resolve i oc) now defaults = Inr \<lparr>events = [MarketResolved i oc (act_user a) now paid refunded],
      response = (if refunded then lit ''Market resolved; stakes refunded.'' else lit ''Market resolved.'')\<rparr>"
    using assms pay s' by (auto simp: decide_def decide_resolve_def check_resolver_def finish_def)
  moreover have "\<exists>accs. s' = s\<lparr>accounts := accs,
      markets := bt_insert i (m\<lparr>market_payouts := paid, status := Resolved oc refunded\<rparr>) (markets s)\<rparr>"
    using s' assms(3) by (auto simp: apply_resolution_def result_simps split: if_splits)
  ultimately show ?thesis using s' wf by (auto simp: wf_state_def)
qed

theorem bot_resolution_succeeds_witness:
  "\<exists>d. decide to_ascii_lowercase betting_state sample_creator (Resolve sample_id 1) 50 sample_policy = Inr d"
  using bot_resolution_succeeds [OF betting_replay, of sample_id sample_betting_market 50 1 sample_creator]
  by (auto simp: sample_opening_def sample_betting_def i64_max_def sample_creator_def sample_betting_market_eq
      sample_market_def sample_options_length betting_state_def)




section \<open>Grants\<close>

text \<open>The grant schedule: in every replayed history an enrolled member has been granted the
  policy's amount once per policy interval from the enrolment up to the due date of the next
  grant, no matter in how many pieces the grants were recorded; and nobody who is not enrolled has
  been granted anything.\<close>

theorem bot_grants_follow_schedule:
  assumes "replay lc es = Inr s"
  shows "case bt_get (accounts s) u of
      None \<Rightarrow> granted_total u es = 0
    | Some acc \<Rightarrow> \<exists>p t. policy s = Some p \<and> MemberEnrolled u t \<in> set es \<and>
        pol_interval p * granted_total u es = pol_amount p * (next_grant acc - t)"
  using replay_on_schedule [OF assms, of u] by (auto simp: on_schedule_def due_def split: option.splits)

theorem bot_grants_follow_schedule_witness:
  "10 * granted_total 1 (sample_opening @ sample_betting @ sample_settling) = 100 * (40 - 0)"
  using bot_grants_follow_schedule [OF settled_replay, of 1]
  by (simp add: settled_state_def sample_policy_def)
    (auto simp: sample_opening_def sample_betting_def sample_settling_def)

text \<open>Catching up on grants does not depend on when it is asked for: settling a member's due
  grants at one time and again later leaves the same projection as settling them once at the later
  time, and a settled member is owed nothing until after that time.\<close>

theorem bot_grant_catch_up:
  assumes "wf_state lc s" "t1 \<le> t2"
    and "decide_grant lc s a u t1 = Inr d1" "try_fold (apply_inner lc) s (events d1) = Inr s1"
    and "decide_grant lc s1 a u t2 = Inr d2" "try_fold (apply_inner lc) s1 (events d2) = Inr s2"
    and "decide_grant lc s a u t2 = Inr d" "try_fold (apply_inner lc) s (events d) = Inr s'"
  shows "s2 = s' \<and> (\<exists>acc. bt_get (accounts s') u = Some acc \<and> t2 < next_grant acc)"
proof -
  from assms(3) obtain p acc where p: "policy s = Some p" and acc: "bt_get (accounts s) u = Some acc"
    by (auto simp: decide_grant_def result_simps split: if_splits)
  have I: "0 < pol_interval p" using assms(1) p by (simp add: wf_state_def wf_policy_def)
  have inv: "bt_invar (accounts s)" using assms(1) by (simp add: wf_state_def)
  have wf1: "wf_state lc s1" using bet_source.run_inv [OF assms(1,4)] .
  define acc1 where "acc1 = caught_up p acc t1"
  note now = due_count_next(1) [OF I]
  have s1: "if t1 < next_grant acc then s1 = s else s1 = s\<lparr>accounts := bt_insert u acc1 (accounts s)\<rparr>"
    using decide_grant_settles [OF assms(1) p acc assms(3,4)] by (auto simp: acc1_def split: if_splits)
  then have "policy s1 = Some p" "bt_get (accounts s1) u = Some acc1"
    using p acc inv caught_up_now [of t1 acc p] by (auto simp: acc1_def split: if_splits)
  from decide_grant_settles [OF wf1 this assms(5,6)]
  have s2: "if t2 < next_grant acc1 then s2 = s1
      else s2 = s1\<lparr>accounts := bt_insert u (caught_up p acc1 t2) (accounts s1)\<rparr>" by (auto split: if_splits)
  have s': "if t2 < next_grant acc then s' = s else s' = s\<lparr>accounts := bt_insert u (caught_up p acc t2) (accounts s)\<rparr>"
    using decide_grant_settles [OF assms(1) p acc assms(7,8)] by (auto split: if_splits)
  have twice: "caught_up p acc1 t2 = caught_up p acc t2"
    unfolding acc1_def by (rule caught_up_twice [OF I assms(2)])
  have "s2 = s'"
  proof (cases "t1 < next_grant acc")
    case True
    then have "acc1 = acc" by (simp add: acc1_def caught_up_now)
    with True s1 s2 s' show ?thesis by (auto split: if_splits)
  next
    case False
    then have "\<not> t2 < next_grant acc" using assms(2) by simp
    with False s1 s2 s' twice caught_up_now [of t2 acc1 p] show ?thesis
      by (auto simp: bt_insert_twice [OF inv] split: if_splits)
  qed
  moreover have "\<exists>acc'. bt_get (accounts s') u = Some acc' \<and> t2 < next_grant acc'"
    using s' acc inv now [of t2 "next_grant acc"] by (auto simp: caught_up_def Let_def split: if_splits)
  ultimately show ?thesis by simp
qed

definition sample_system :: actor where
  "sample_system = \<lparr>act_user = 0, act_moderator = False, act_bot = False\<rparr>"

definition sample_grant :: "int \<Rightarrow> int \<Rightarrow> int \<Rightarrow> int \<Rightarrow> decision" where
  "sample_grant amount from_due through_due nxt =
     \<lparr>events = [PointsGranted 2 Periodic amount from_due through_due nxt],
      response = lit ''Granted '' @ show_int amount @ lit '' points.''\<rparr>"

definition granted_state :: "int \<Rightarrow> int \<Rightarrow> state" where
  "granted_state b nxt = betting_state
     \<lparr>accounts := [(1, \<lparr>balance = 370, next_grant = 40\<rparr>), (2, \<lparr>balance = b, next_grant = nxt\<rparr>)]\<rparr>"

lemma sample_grants:
  "decide_grant to_ascii_lowercase betting_state sample_system 2 20 = Inr (sample_grant 100 15 15 25)"
  "try_fold (apply_inner to_ascii_lowercase) betting_state (events (sample_grant 100 15 15 25)) =
     Inr (granted_state 175 25)"
  "decide_grant to_ascii_lowercase (granted_state 175 25) sample_system 2 37 = Inr (sample_grant 200 25 35 45)"
  "try_fold (apply_inner to_ascii_lowercase) (granted_state 175 25) (events (sample_grant 200 25 35 45)) =
     Inr (granted_state 375 45)"
  "decide_grant to_ascii_lowercase betting_state sample_system 2 37 = Inr (sample_grant 300 15 35 45)"
  "try_fold (apply_inner to_ascii_lowercase) betting_state (events (sample_grant 300 15 35 45)) =
     Inr (granted_state 375 45)"
  by (simp_all add: decide_grant_def sample_grant_def granted_state_def sample_system_def betting_state_def
      sample_policy_def bet_exec)

theorem bot_grant_catch_up_witness:
  "\<exists>acc. bt_get (accounts (granted_state 375 45)) 2 = Some acc \<and> 37 < next_grant acc"
  using bot_grant_catch_up [OF betting_wf _ sample_grants] by simp

section \<open>Joining and betting\<close>

text \<open>Joining is idempotent and opens exactly one account: a human who joins is credited the
  policy's amount once, with the next grant one interval away, under the policy in force or, for
  the first member, the configured one; a member who joins again changes nothing.\<close>

theorem bot_join_opens_one_account:
  assumes "wf_state lc s" "decide_with_membership lc s a Join now defaults membership = Inr d"
    and "try_fold (apply_inner lc) s (events d) = Inr s'"
  shows "if bt_contains (accounts s) (act_user a) then events d = [] \<and> s' = s
    else \<exists>p. (policy s = Some p \<or> policy s = None \<and> p = defaults) \<and> policy s' = Some p \<and>
      markets s' = markets s \<and> accounts s' = bt_insert (act_user a)
        \<lparr>balance = pol_amount p, next_grant = now + pol_interval p\<rparr> (accounts s)"
proof (cases "bt_contains (accounts s) (act_user a)")
  case True
  with assms show ?thesis by (auto simp: decide_join_def result_simps split: if_splits)
next
  case False
  have inv: "bt_invar (accounts s)" using assms(1) by (simp add: wf_state_def)
  let ?p = "case policy s of None \<Rightarrow> defaults | Some p \<Rightarrow> p"
  have evs: "events d = (if policy s = None then [GuildEconomyInitialized (pol_amount ?p) (pol_interval ?p)] else []) @
      [MemberEnrolled (act_user a) now,
       PointsGranted (act_user a) Initial (pol_amount ?p) now now (now + pol_interval ?p)]"
    using assms(2) False by (auto simp: decide_join_def Let_def result_simps split: if_splits)
  obtain s1 where s1: "policy s1 = Some ?p" "accounts s1 = accounts s" "markets s1 = markets s"
    and rest: "try_fold (apply_inner lc) s1 [MemberEnrolled (act_user a) now,
       PointsGranted (act_user a) Initial (pol_amount ?p) now now (now + pol_interval ?p)] = Inr s'"
  proof (cases "policy s")
    case None
    have eta: "\<lparr>pol_amount = pol_amount defaults, pol_interval = pol_interval defaults\<rparr> = defaults" by simp
    with None show thesis
      using assms(3) evs that [of "s\<lparr>policy := Some defaults\<rparr>"]
      by (auto simp: apply_initialization_def Let_def result_simps eta split: if_splits)
  next
    case (Some p)
    with assms(3) evs that [of s] show thesis by simp
  qed
  then show ?thesis
    using inv False
    by (cases "policy s")
      (auto simp: apply_enrollment_def apply_grant_def Let_def result_simps bt_insert_twice split: if_splits)
qed

definition sample_join :: decision where
  "sample_join = \<lparr>events = [GuildEconomyInitialized 100 10, MemberEnrolled 1 0, PointsGranted 1 Initial 100 0 0 10],
     response = lit ''Enrolled with '' @ show_int 100 @ lit '' points.''\<rparr>"

definition joined_state :: state where
  "joined_state = \<lparr>policy = Some sample_policy,
     accounts = [(1, \<lparr>balance = 100, next_grant = 10\<rparr>)], markets = []\<rparr>"

lemma sample_join_decided:
  "decide_with_membership to_ascii_lowercase default_state sample_creator Join 0 sample_policy None = Inr sample_join"
  "try_fold (apply_inner to_ascii_lowercase) default_state (events sample_join) = Inr joined_state"
  by (simp_all add: decide_join_def sample_creator_def default_state_def sample_join_def joined_state_def
      sample_policy_def bet_exec)

theorem bot_join_opens_one_account_witness:
  "accounts joined_state = bt_insert 1 \<lparr>balance = 100, next_grant = 10\<rparr> []"
  using bot_join_opens_one_account [OF wf_default sample_join_decided]
  by (auto simp: default_state_def bt_contains_def sample_creator_def sample_policy_def)

text \<open>A bet is taken in exactly the documented situations: the actor is an enrolled human whose
  balance covers the positive stake, the market is open at that time, the outcome exists and the
  pool stays in range; and then the stake moves from the balance into the pool.\<close>

theorem bot_bet_taken_iff:
  assumes "wf_state lc s" "bt_get (accounts s) (act_user a) = Some acc" "bt_get (markets s) i = Some m"
  shows "(\<exists>d. decide_with_membership lc s a (Bet i oc amount) now defaults membership = Inr d) \<longleftrightarrow>
    \<not> act_bot a \<and> status m = Open \<and> created_at m \<le> now \<and> now < closes_at m \<and> oc < length (options m) \<and>
    0 < amount \<and> amount \<le> balance acc \<and> total_staked m + amount \<le> i64_max"
proof -
  have u: "act_user a \<noteq> 0" using wf_no_system_account [OF assms(1,2)] .
  have pool: "0 \<le> total_staked m"
    using wf_sound_bets [OF assms(1,3)] staked_on_le [of "bets m" None]
    by (auto simp: sound_bets_def staked_on_def selects_def)
  have room: "in_i64 (total_staked m + amount) \<longleftrightarrow> total_staked m + amount \<le> i64_max" if "0 < amount"
    using pool that by (simp add: i64_defs)
  have rem: "in_i64 (balance acc - amount)" if "0 < amount" "amount \<le> balance acc"
    using remaining_in_i64 [OF wf_account_get [OF assms(1,2)]] that by blast
  show ?thesis
    using assms(2,3) u pool room rem
    by (auto simp: decide_bet_def apply_bet_def result_simps not_le not_less split: if_splits)
qed

theorem bot_bet_taken_iff_witness:
  "\<exists>d. decide_with_membership to_ascii_lowercase betting_state sample_creator
     (Bet sample_id 1 370) 49 sample_policy None = Inr d"
  using bot_bet_taken_iff [OF betting_wf, of sample_creator "\<lparr>balance = 370, next_grant = 40\<rparr>" sample_id
      sample_betting_market 1 370 49 sample_policy None]
  by (simp add: sample_creator_def betting_state_def sample_betting_market_eq sample_market_def
      sample_options_length i64_max_def del: decide_with_membership.simps)

section \<open>Odds and identifiers\<close>

text \<open>The odds of a well-formed market never fail: there is one entry per outcome in order, and
  with a positive pool it is the outcome's share of the pool in tenths of a percent rounded to the
  nearest, between 0 and 1000; with an empty pool no percentage is shown.\<close>

theorem bot_odds_are_rounded_shares:
  assumes "sound_bets m"
  shows "\<exists>odds. for_market m = Inr odds \<and> map label odds = options m \<and>
    (\<forall>i < length odds. case tenths_percent (odds ! i) of
       None \<Rightarrow> total_staked m = 0
     | Some n \<Rightarrow> 0 < total_staked m \<and> n \<le> 1000 \<and>
         2 * \<bar>int n * total_staked m - 1000 * staked_on (bets m) (Some i)\<bar> \<le> total_staked m)"
proof -
  have bound: "0 \<le> staked_on (bets m) sel \<and> staked_on (bets m) sel \<le> total_staked m" for sel
    using assms staked_on_le [of "bets m" sel] by (simp add: sound_bets_def)
  have "0 \<le> total_staked m" using bound [of None] by simp
  then have "case tenths_percent (odds_of m i l) of None \<Rightarrow> total_staked m = 0
     | Some n \<Rightarrow> 0 < total_staked m \<and> n \<le> 1000 \<and>
         2 * \<bar>int n * total_staked m - 1000 * staked_on (bets m) (Some i)\<bar> \<le> total_staked m" for i l
    using bound [of "Some i"] rounded_tenths_bounds [of "total_staked m" "staked_on (bets m) (Some i)"]
    by (auto simp: odds_of_def)
  then show ?thesis
    using for_market_eq [OF assms]
    by (auto simp: nth_enumerate_eq comp_def case_prod_unfold odds_of_def intro!: nth_equalityI)
qed

theorem bot_odds_are_rounded_shares_witness:
  "\<exists>odds. for_market sample_betting_market = Inr odds \<and> length odds = 2"
proof -
  from bot_odds_are_rounded_shares [OF sample_betting_market_sound] obtain odds where
    "for_market sample_betting_market = Inr odds" "map label odds = options sample_betting_market" by blast
  moreover from this(2) have "length odds = 2"
    by (metis length_map sample_betting_market_eq sample_market_def market.select_convs(3) sample_options_length(1))
  ultimately show ?thesis by blast
qed

text \<open>Discord identifiers survive the round trip through their text: every positive identifier
  is written and read back as itself, and whatever the parser accepts is the canonical text of the
  identifier it returns, so no two texts denote the same identifier.\<close>

theorem bot_snowflake_round_trip:
  "(\<forall>n. 0 < n \<and> n \<le> u64_max \<longrightarrow>
     (\<exists>text. serialize_positive n = Inr text \<and> snowflake_parse text sys = Inr n)) \<and>
   (\<forall>text n. snowflake_parse text sys = Inr n \<longrightarrow>
     serialize_actor n = Inr text \<and> n \<le> u64_max \<and> (n = 0 \<longrightarrow> sys))"
  using snowflake_parse_serialized snowflake_parse_canonical
  by (fastforce simp: serialize_positive_def serialize_actor_def)

theorem bot_snowflake_round_trip_witness:
  "snowflake_parse (show_nat 80351110224678912) False = Inr 80351110224678912"
proof -
  have "(0::nat) < 80351110224678912 \<and> (80351110224678912::nat) \<le> u64_max" by (simp add: u64_max_def)
  with bot_snowflake_round_trip [of False] obtain str where
    "serialize_positive 80351110224678912 = Inr str" "snowflake_parse str False = Inr 80351110224678912"
    by blast
  then show ?thesis by (simp add: serialize_positive_def)
qed

end
