(* ===== verification/Json.thy ===== *)
theory Json imports Rust_Text Ordered_Map begin

text \<open>
  JSON values as the programs see them through \<open>serde_json\<close>: \<open>Value\<close>, whose objects are ordered
  maps, and the tree of a text, whose objects may list a key again. Both are the same type; a
  \<open>Map\<close> is \<open>bt_invar\<close>. A number is an integer of 64 bits, signed or not, or the bits of a double.
\<close>

datatype json_number = JInt int | JDouble nat

datatype json =
    JNull
  | JBool bool
  | JNumber json_number
  | JString rstring
  | JArray "json list"
  | JObject "(rstring \<times> json) list"

type_synonym json_map = "(rstring, json) btree_map"

fun as_str :: "json \<Rightarrow> rstring option" where
  "as_str (JString s) = Some s"
| "as_str _ = None"

fun as_i64 :: "json_number \<Rightarrow> int option" where
  "as_i64 (JInt n) = (if in_i64 n then Some n else None)"
| "as_i64 (JDouble _) = None"

lemma as_str_Some_iff: "as_str v = Some s \<longleftrightarrow> v = JString s"
  by (cases v) simp_all

text \<open>Values that a \<open>Value\<close> can be: all objects are maps, doubles are finite.\<close>

definition finite_double :: "nat \<Rightarrow> bool" where
  "finite_double bits \<longleftrightarrow> bits div 2 ^ 52 mod 2 ^ 11 \<noteq> 2047"

fun is_value :: "json \<Rightarrow> bool" where
  "is_value (JNumber (JDouble bits)) = finite_double bits"
| "is_value (JArray vs) = list_all is_value vs"
| "is_value (JObject fields) = (bt_invar fields \<and> list_all (\<lambda>(k, v). is_value v) fields)"
| "is_value _ = True"

end
