(* ===== verification/Book_Ranking.thy ===== *)
theory Book_Ranking imports Rust_Text "HOL-Library.Product_Lexorder" begin

text \<open>
  Identities, events and errors of the book rankings (\<open>book_smartz/domain\<close>: \<open>identity.rs\<close>,
  \<open>event.rs\<close>, \<open>error.rs\<close>). The UUIDs of readers, books and events are their 128 bit numbers; an
  instant is opaque and only stored, here as a number; \<open>HashMap\<close> and \<open>HashSet\<close> are maps and
  sets, because the source never iterates over them. The error reason \<open>PlacementPaused\<close> is \<open>IsPaused\<close>
  here, to keep it apart from the event kind of that name.
\<close>

type_synonym book_id = nat
type_synonym reader_id = nat
type_synonym event_id = nat
type_synonym instant = int
type_synonym sequence = nat

section \<open>Errors\<close>

datatype identity_error = InvalidWorkId | BookIdConflict | WorkIdConflict

datatype replay_error_reason =
    SequenceMismatch nat
  | SequenceOverflow
  | DuplicateEventId
  | WrongReader
  | DuplicateBook
  | PendingPlacement
  | NoActivePlacement
  | WrongCandidate
  | WrongOpponent
  | IsPaused
  | NotPaused

record replay_error =
  attempted_sequence :: nat
  reason :: replay_error_reason

datatype ranking_error =
    InvalidSequence
  | RankingSequenceOverflow
  | UnknownBook
  | StaleRevision nat nat
  | InvalidTransition replay_error_reason

section \<open>Events\<close>

definition sequence_new :: "nat \<Rightarrow> (ranking_error, sequence) outcome" where
  "sequence_new value = (if value = 0 then err InvalidSequence else Inr value)"

definition checked_succ :: "nat \<Rightarrow> nat option" where
  "checked_succ n = (if n < u64_max then Some (n + 1) else None)"

definition successor :: "sequence \<Rightarrow> (ranking_error, sequence) outcome" where
  "successor s = ok_or (Err RankingSequenceOverflow) (checked_succ s)"

record event_metadata =
  meta_id :: event_id
  meta_reader :: reader_id
  meta_sequence :: sequence
  meta_time :: instant

datatype comparison_choice = PreferCandidate | PreferOpponent | Skip

datatype event_kind =
    PlacementStarted
  | ComparisonAnswered book_id comparison_choice
  | PlacementPaused
  | PlacementResumed

record ranking_event =
  metadata :: event_metadata
  candidate :: book_id
  kind :: event_kind

section \<open>Work identifiers and the registry\<close>

definition work_id_try_from :: "rstring \<Rightarrow> (identity_error, rstring) outcome" where
  "work_id_try_from value =
     and_then
       (ok_or (Err InvalidWorkId)
         (case strip_prefix (lit ''OL'') value of None \<Rightarrow> None
          | Some rest \<Rightarrow> strip_suffix_char 87 rest)) (\<lambda>digits.
     if digits = [] \<or> hd (utf8 digits) = 48 \<or> \<not> list_all is_ascii_digit (utf8 digits)
     then err InvalidWorkId else Inr value)"

record book =
  book_id :: book_id
  work_id :: rstring

record book_registry =
  by_id :: "book_id \<Rightarrow> book option"
  by_work_id :: "rstring \<Rightarrow> book_id option"

definition empty_registry :: book_registry where
  "empty_registry = \<lparr>by_id = (\<lambda>_. None), by_work_id = (\<lambda>_. None)\<rparr>"

definition registry_get :: "book_registry \<Rightarrow> book_id \<Rightarrow> book option" where
  "registry_get r i = by_id r i"

text \<open>\<open>register\<close> mutates the registry; the result is the registry afterwards and the return value.\<close>

definition register :: "book_registry \<Rightarrow> book \<Rightarrow> book_registry \<times> (identity_error, unit) outcome" where
  "register r b =
     (case by_id r (book_id b) of
        Some existing \<Rightarrow> (r, if existing = b then Inr () else err BookIdConflict)
      | None \<Rightarrow>
          if by_work_id r (work_id b) \<noteq> None then (r, err WorkIdConflict)
          else (r\<lparr>by_work_id := (by_work_id r)(work_id b \<mapsto> book_id b),
                   by_id := (by_id r)(book_id b \<mapsto> b)\<rparr>, Inr ()))"

section \<open>Facts\<close>

text \<open>A canonical number: digits without a leading zero.\<close>

lemma canonical_digits:
  "digits \<noteq> [] \<and> hd (utf8 digits) \<noteq> 48 \<and> list_all is_ascii_digit (utf8 digits) \<longleftrightarrow>
    (\<exists>n > 0. digits = show_nat n)"
proof
  assume "digits \<noteq> [] \<and> hd (utf8 digits) \<noteq> 48 \<and> list_all is_ascii_digit (utf8 digits)"
  then have "digits \<noteq> []" "list_all is_ascii_digit digits" "hd digits \<noteq> 48"
    by (auto simp: digits_are_ascii utf8_digits)
  from show_decimal_value [OF this(2,1,3)] show "\<exists>n > 0. digits = show_nat n" by metis
next
  assume "\<exists>n > 0. digits = show_nat n"
  then obtain n where "0 < n" "digits = show_nat n" by blast
  then show "digits \<noteq> [] \<and> hd (utf8 digits) \<noteq> 48 \<and> list_all is_ascii_digit (utf8 digits)"
    using show_nat_digits [of n] show_nat_no_leading_zero [of n] by (simp add: utf8_digits)
qed

lemma work_id_try_from_Inr_iff:
  "work_id_try_from value = Inr w \<longleftrightarrow>
     w = value \<and> (\<exists>n > 0. value = lit ''OL'' @ show_nat n @ lit ''W'')"
proof -
  let ?canonical = "\<lambda>digits. digits \<noteq> [] \<and> hd (utf8 digits) \<noteq> 48 \<and> list_all is_ascii_digit (utf8 digits)"
  have "work_id_try_from value = Inr w \<longleftrightarrow>
      w = value \<and> (\<exists>digits. value = lit ''OL'' @ digits @ [87] \<and> ?canonical digits)"
  proof (cases "\<exists>digits. value = lit ''OL'' @ digits @ [87]")
    case True
    then obtain digits where d: "value = lit ''OL'' @ digits @ [87]" by blast
    then have "work_id_try_from value = (if ?canonical digits then Inr value else err InvalidWorkId)"
      by (auto simp: work_id_try_from_def strip_prefix_def strip_suffix_char_def)
    then show ?thesis using d by auto
  next
    case False
    have none: "(case strip_prefix (lit ''OL'') value of None \<Rightarrow> None | Some rest \<Rightarrow> strip_suffix_char 87 rest) = None"
    proof (cases "strip_prefix (lit ''OL'') value")
      case (Some rest)
      then have "value = lit ''OL'' @ rest" by (simp only: strip_prefix_Some_iff)
      with False have "rest \<noteq> t @ [87]" for t by blast
      then have "strip_suffix_char 87 rest = None"
        by (cases "strip_suffix_char 87 rest") (simp_all only: strip_suffix_char_Some_iff)
      with Some show ?thesis by simp
    qed simp
    have "work_id_try_from value \<noteq> Inr w" unfolding work_id_try_from_def none by simp
    with False show ?thesis by blast
  qed
  then show ?thesis unfolding canonical_digits by auto
qed

text \<open>
  The ranking projection of one reader (\<open>book_smartz/domain/projection.rs\<close>): a binary search for
  the place of a new book, driven by recorded answers. Indices are \<open>usize\<close>, so a subtraction
  below zero is a panic, as is an index or an insertion out of range.
\<close>

record ranking_entry =
  entry_book :: book_id
  added_at :: instant

record placement_session =
  session_candidate :: book_id
  lo :: nat
  hi :: nat
  skipped :: "book_id set"
  paused :: bool
  started_at :: instant
  last_activity_at :: instant

record ranking_projection =
  reader_id :: reader_id
  revision :: nat
  entries :: "ranking_entry list"
  pending :: "placement_session option"
  seen_event_ids :: "event_id set"

definition abs_diff :: "nat \<Rightarrow> nat \<Rightarrow> nat" where
  "abs_diff a b = (if a < b then b - a else a - b)"

fun min_by_key :: "('a \<Rightarrow> 'k::linorder) \<Rightarrow> 'a list \<Rightarrow> 'a option" where
  "min_by_key k [] = None"
| "min_by_key k (x # xs) = Some (fold (\<lambda>y best. if k y < k best then y else best) xs x)"

text \<open>The filter reads \<open>entries[j]\<close> for every index of the range.\<close>

primrec eligible :: "ranking_entry list \<Rightarrow> book_id set \<Rightarrow> nat list \<Rightarrow> ('e, nat list) outcome" where
  "eligible es skip [] = Inr []"
| "eligible es skip (j # js) =
     and_then (index es j) (\<lambda>e.
     and_then (eligible es skip js) (\<lambda>rest.
     Inr (if entry_book e \<in> skip then rest else j # rest)))"

definition next_opponent :: "ranking_projection \<Rightarrow> ('e, book_id option) outcome" where
  "next_opponent s =
     (case pending s of None \<Rightarrow> Inr None
      | Some p \<Rightarrow>
          if paused p then Inr None
          else
          and_then (usize_sub (hi p) (lo p)) (\<lambda>d.
          and_then (usize_sub d 1) (\<lambda>d.
          let midpoint = lo p + d div 2 in
          and_then (eligible (entries s) (skipped p) [lo p..<hi p]) (\<lambda>js.
          case min_by_key (\<lambda>j. (abs_diff j midpoint, j)) js of
            None \<Rightarrow> Inr None
          | Some j \<Rightarrow> and_then (index (entries s) j) (\<lambda>e. Inr (Some (entry_book e)))))))"

definition vec_insert :: "nat \<Rightarrow> 'a \<Rightarrow> 'a list \<Rightarrow> ('e, 'a list) outcome" where
  "vec_insert i x xs = (if i \<le> length xs then Inr (take i xs @ x # drop i xs) else panic)"

section \<open>Events\<close>

definition apply_started ::
  "ranking_projection \<Rightarrow> book_id \<Rightarrow> instant \<Rightarrow> (replay_error_reason, ranking_projection) outcome" where
  "apply_started s cand now =
     (if list_ex (\<lambda>e. entry_book e = cand) (entries s) then err DuplicateBook
      else if pending s \<noteq> None then err PendingPlacement
      else if entries s = []
      then Inr (s\<lparr>entries := [\<lparr>entry_book = cand, added_at = now\<rparr>]\<rparr>)
      else Inr (s\<lparr>pending := Some
        \<lparr>session_candidate = cand, lo = 0, hi = length (entries s), skipped = {}, paused = False,
         started_at = now, last_activity_at = now\<rparr>\<rparr>))"

text \<open>The search interval after an answer about the entry at index \<open>j\<close>.\<close>

fun narrow :: "placement_session \<Rightarrow> nat \<Rightarrow> book_id \<Rightarrow> comparison_choice \<Rightarrow> placement_session" where
  "narrow p j opponent PreferCandidate = p\<lparr>hi := j\<rparr>"
| "narrow p j opponent PreferOpponent = p\<lparr>lo := j + 1\<rparr>"
| "narrow p j opponent Skip = p\<lparr>skipped := insert opponent (skipped p)\<rparr>"

text \<open>The end of an answer: the book is placed, or the session pauses when nothing is left to ask.\<close>

definition settle_answer ::
  "ranking_projection \<Rightarrow> placement_session \<Rightarrow> book_id \<Rightarrow> instant \<Rightarrow>
    (replay_error_reason, ranking_projection) outcome" where
  "settle_answer s p cand now =
     (if lo p = hi p
      then and_then (vec_insert (lo p) \<lparr>entry_book = cand, added_at = now\<rparr> (entries s)) (\<lambda>es.
           Inr (s\<lparr>entries := es, pending := None\<rparr>))
      else
      let s = s\<lparr>pending := Some p\<rparr> in
      and_then (next_opponent s) (\<lambda>left.
      Inr (if left = None then s\<lparr>pending := Some (p\<lparr>paused := True\<rparr>)\<rparr> else s)))"

definition apply_answer ::
  "ranking_projection \<Rightarrow> book_id \<Rightarrow> instant \<Rightarrow> book_id \<Rightarrow> comparison_choice \<Rightarrow>
    (replay_error_reason, ranking_projection) outcome" where
  "apply_answer s cand now opponent choice =
     and_then (next_opponent s) (\<lambda>selected.
     and_then (ok_or (Err NoActivePlacement) (pending s)) (\<lambda>p.
     if session_candidate p \<noteq> cand then err WrongCandidate
     else if paused p then err IsPaused
     else if selected \<noteq> Some opponent then err WrongOpponent
     else
     and_then (expect (position (\<lambda>e. entry_book e = opponent) (entries s))) (\<lambda>j.
     settle_answer s ((narrow p j opponent choice)\<lparr>last_activity_at := now\<rparr>) cand now)))"

definition apply_pause ::
  "ranking_projection \<Rightarrow> book_id \<Rightarrow> instant \<Rightarrow> (replay_error_reason, ranking_projection) outcome" where
  "apply_pause s cand now =
     and_then (ok_or (Err NoActivePlacement) (pending s)) (\<lambda>p.
     if session_candidate p \<noteq> cand then err WrongCandidate
     else if paused p then err IsPaused
     else Inr (s\<lparr>pending := Some (p\<lparr>paused := True, last_activity_at := now\<rparr>)\<rparr>))"

definition apply_resume ::
  "ranking_projection \<Rightarrow> book_id \<Rightarrow> instant \<Rightarrow> (replay_error_reason, ranking_projection) outcome" where
  "apply_resume s cand now =
     and_then (ok_or (Err NoActivePlacement) (pending s)) (\<lambda>p.
     if session_candidate p \<noteq> cand then err WrongCandidate
     else if \<not> paused p then err NotPaused
     else Inr (s\<lparr>pending := Some (p\<lparr>paused := False, skipped := {}, last_activity_at := now\<rparr>)\<rparr>))"

definition apply_kind ::
  "ranking_projection \<Rightarrow> ranking_event \<Rightarrow> (replay_error_reason, ranking_projection) outcome" where
  "apply_kind s e =
     (case kind e of
        PlacementStarted \<Rightarrow> apply_started s (candidate e) (meta_time (metadata e))
      | ComparisonAnswered opponent choice \<Rightarrow>
          apply_answer s (candidate e) (meta_time (metadata e)) opponent choice
      | PlacementPaused \<Rightarrow> apply_pause s (candidate e) (meta_time (metadata e))
      | PlacementResumed \<Rightarrow> apply_resume s (candidate e) (meta_time (metadata e)))"

definition at_sequence :: "nat \<Rightarrow> replay_error_reason failure \<Rightarrow> replay_error failure" where
  "at_sequence n f = (case f of Err r \<Rightarrow> Err \<lparr>attempted_sequence = n, reason = r\<rparr> | Panic \<Rightarrow> Panic)"

definition ranking_apply ::
  "ranking_projection \<Rightarrow> ranking_event \<Rightarrow> (replay_error, ranking_projection) outcome" where
  "ranking_apply s e =
     (let sequence = meta_sequence (metadata e) in
      map_err (at_sequence sequence)
        (if meta_reader (metadata e) \<noteq> reader_id s then err WrongReader
         else
         and_then (ok_or (Err SequenceOverflow) (checked_succ (revision s))) (\<lambda>expected.
         if sequence \<noteq> expected then err (SequenceMismatch expected)
         else if meta_id (metadata e) \<in> seen_event_ids s then err DuplicateEventId
         else
         and_then (apply_kind s e) (\<lambda>s'.
         Inr (s'\<lparr>revision := sequence, seen_event_ids := insert (meta_id (metadata e)) (seen_event_ids s')\<rparr>)))))"

definition empty_projection :: "reader_id \<Rightarrow> ranking_projection" where
  "empty_projection r =
     \<lparr>reader_id = r, revision = 0, entries = [], pending = None, seen_event_ids = {}\<rparr>"

definition ranking_replay ::
  "reader_id \<Rightarrow> ranking_event list \<Rightarrow> (replay_error, ranking_projection) outcome" where
  "ranking_replay r events = try_fold ranking_apply (empty_projection r) events"

section \<open>The choice of the next opponent\<close>

lemma min_by_key_fold:
  fixes k :: "'a \<Rightarrow> 'k::linorder"
  shows "fold (\<lambda>y best. if k y < k best then y else best) xs x \<in> insert x (set xs) \<and>
    (\<forall>y \<in> insert x (set xs). k (fold (\<lambda>y best. if k y < k best then y else best) xs x) \<le> k y)"
proof (induction xs arbitrary: x)
  case (Cons a xs)
  let ?x = "if k a < k x then a else x"
  have "k ?x \<le> k a" "k ?x \<le> k x" "?x \<in> {a, x}" by (auto simp: not_less)
  with Cons.IH [of ?x] show ?case by auto
qed simp

lemma min_by_key_Some: "min_by_key k xs = Some m \<Longrightarrow> m \<in> set xs \<and> (\<forall>y \<in> set xs. k m \<le> k y)"
  using min_by_key_fold [of k "tl xs" "hd xs"] by (cases xs) auto

lemma min_by_key_None: "min_by_key k xs = None \<longleftrightarrow> xs = []"
  by (cases xs) auto

definition books :: "ranking_projection \<Rightarrow> book_id list" where
  "books s = map entry_book (entries s)"

lemma length_books [simp]: "length (books s) = length (entries s)"
  by (simp add: books_def)

lemma nth_books: "j < length (entries s) \<Longrightarrow> books s ! j = entry_book (entries s ! j)"
  by (simp add: books_def)

lemma eligible_eq:
  "\<forall>j \<in> set js. j < length es \<Longrightarrow>
    eligible es skip js = Inr (filter (\<lambda>j. entry_book (es ! j) \<notin> skip) js)"
  by (induction js) auto

definition open_indices :: "ranking_projection \<Rightarrow> placement_session \<Rightarrow> nat list" where
  "open_indices s p = filter (\<lambda>j. books s ! j \<notin> skipped p) [lo p..<hi p]"

definition probe :: "placement_session \<Rightarrow> nat" where
  "probe p = lo p + (hi p - lo p - 1) div 2"

definition distance :: "placement_session \<Rightarrow> nat \<Rightarrow> nat \<times> nat" where
  "distance p j = (abs_diff j (probe p), j)"

lemma eligible_open:
  "hi p \<le> length (entries s) \<Longrightarrow>
    eligible (entries s) (skipped p) [lo p..<hi p] = Inr (open_indices s p)"
  by (subst eligible_eq) (auto simp: open_indices_def nth_books intro!: filter_cong)

text \<open>What \<open>next_opponent\<close> computes on a session whose interval is inside the ranking.\<close>

lemma next_opponent_eq:
  assumes "pending s = Some p" "\<not> paused p" "lo p < hi p" "hi p \<le> length (entries s)"
  shows "next_opponent s =
    Inr (map_option (\<lambda>j. books s ! j) (min_by_key (distance p) (open_indices s p)))"
proof -
  have key: "(\<lambda>j. (abs_diff j (lo p + (hi p - Suc (lo p)) div 2), j)) = distance p"
    by (simp add: fun_eq_iff distance_def probe_def)
  show ?thesis
  proof (cases "min_by_key (distance p) (open_indices s p)")
    case None
    then show ?thesis using assms by (simp add: next_opponent_def usize_sub_def Let_def key eligible_open Suc_le_eq)
  next
    case (Some j)
    then have "j < length (entries s)"
      using min_by_key_Some [OF Some] assms(4) by (auto simp: open_indices_def)
    with Some show ?thesis
      using assms by (simp add: next_opponent_def usize_sub_def Let_def key nth_books eligible_open Suc_le_eq)
  qed
qed

lemma next_opponent_idle: "pending s = None \<or> (\<exists>p. pending s = Some p \<and> paused p) \<Longrightarrow> next_opponent s = Inr None"
  by (auto simp: next_opponent_def)

section \<open>The invariant\<close>

definition wf_session :: "ranking_projection \<Rightarrow> placement_session \<Rightarrow> bool" where
  "wf_session s p \<longleftrightarrow> session_candidate p \<notin> set (books s) \<and> lo p < hi p \<and> hi p \<le> length (entries s) \<and>
     skipped p \<subseteq> set (books s) \<and> (\<not> paused p \<longrightarrow> open_indices s p \<noteq> [])"

definition wf_ranking :: "ranking_projection \<Rightarrow> bool" where
  "wf_ranking s \<longleftrightarrow> distinct (books s) \<and> (\<forall>p. pending s = Some p \<longrightarrow> wf_session s p)"

text \<open>On a well-formed projection a session that is not paused always has a next opponent.\<close>

lemma next_opponent_active:
  assumes "wf_ranking s" "pending s = Some p" "\<not> paused p"
  obtains j where "next_opponent s = Inr (Some (books s ! j))" "j \<in> set (open_indices s p)"
    "\<forall>i \<in> set (open_indices s p). distance p j \<le> distance p i" "lo p \<le> j" "j < hi p" "j < length (entries s)"
proof -
  have p: "wf_session s p" using assms by (simp add: wf_ranking_def)
  then obtain j where j: "min_by_key (distance p) (open_indices s p) = Some j"
    using assms(3) by (cases "min_by_key (distance p) (open_indices s p)") (auto simp: wf_session_def min_by_key_None)
  then have "next_opponent s = Inr (Some (books s ! j))"
    using next_opponent_eq [OF assms(2,3)] p by (simp add: wf_session_def)
  moreover note min_by_key_Some [OF j]
  moreover from this have "lo p \<le> j" "j < hi p" by (auto simp: open_indices_def)
  ultimately show thesis using p by (intro that) (auto simp: wf_session_def)
qed

lemma position_book:
  "wf_ranking s \<Longrightarrow> j < length (entries s) \<Longrightarrow>
    position (\<lambda>e. entry_book e = books s ! j) (entries s) = Some j"
  using position_nth [of entry_book "entries s" j] by (simp add: wf_ranking_def books_def)

section \<open>Every event keeps the invariant\<close>

lemma wf_empty: "wf_ranking (empty_projection r)"
  by (simp add: wf_ranking_def empty_projection_def books_def)

lemma list_ex_book: "list_ex (\<lambda>e. entry_book e = b) (entries s) \<longleftrightarrow> b \<in> set (books s)"
  by (auto simp: books_def list_ex_iff)

lemma started_wf:
  assumes "wf_ranking s" "apply_started s cand now = Inr s'"
  shows "wf_ranking s'"
proof (cases "entries s = []")
  case True
  with assms show ?thesis
    by (auto simp: apply_started_def wf_ranking_def books_def split: if_splits)
next
  case False
  let ?p = "\<lparr>session_candidate = cand, lo = 0, hi = length (entries s), skipped = {}, paused = False,
    started_at = now, last_activity_at = now\<rparr>"
  from assms False have s': "s' = s\<lparr>pending := Some ?p\<rparr>" and "cand \<notin> set (books s)"
    by (auto simp: apply_started_def list_ex_book split: if_splits)
  moreover have "books s' = books s" "entries s' = entries s" by (simp_all add: s' books_def)
  ultimately show ?thesis
    using assms(1) False by (simp add: wf_ranking_def wf_session_def open_indices_def)
qed

lemma pause_wf:
  assumes "wf_ranking s" "apply_pause s cand now = Inr s'"
  shows "wf_ranking s'"
proof -
  from assms(2) obtain p where p: "pending s = Some p"
    and s': "s' = s\<lparr>pending := Some (p\<lparr>paused := True, last_activity_at := now\<rparr>)\<rparr>"
    by (auto simp: apply_pause_def result_simps split: if_splits)
  have "books s' = books s" "entries s' = entries s" by (simp_all add: s' books_def)
  with assms(1) p show ?thesis by (simp add: wf_ranking_def wf_session_def) (simp add: s')
qed

lemma resume_wf:
  assumes "wf_ranking s" "apply_resume s cand now = Inr s'"
  shows "wf_ranking s'"
  using assms
  by (auto simp: apply_resume_def wf_ranking_def wf_session_def books_def open_indices_def result_simps
      split: if_splits)

text \<open>An accepted answer is about the entry that the search probes.\<close>

lemma answer_cases:
  assumes wf: "wf_ranking s" and step: "apply_answer s cand now opponent choice = Inr s'"
  obtains p j where "pending s = Some p" "wf_session s p" "session_candidate p = cand" "\<not> paused p"
    "opponent = books s ! j" "j \<in> set (open_indices s p)" "lo p \<le> j" "j < hi p" "j < length (entries s)"
    "settle_answer s ((narrow p j opponent choice)\<lparr>last_activity_at := now\<rparr>) cand now = Inr s'"
    "\<forall>i \<in> set (open_indices s p). distance p j \<le> distance p i"
proof -
  from step obtain p where p: "pending s = Some p" "session_candidate p = cand" "\<not> paused p"
    by (auto simp: apply_answer_def result_simps split: if_splits)
  from next_opponent_active [OF wf p(1,3)] obtain j where
    j: "next_opponent s = (Inr (Some (books s ! j)) :: (replay_error_reason, book_id option) outcome)"
      "j \<in> set (open_indices s p)" "\<forall>i \<in> set (open_indices s p). distance p j \<le> distance p i"
      "lo p \<le> j" "j < hi p" "j < length (entries s)" by metis
  with step p have "opponent = books s ! j" by (auto simp: apply_answer_def result_simps split: if_splits)
  with step p j show thesis
    using wf by (intro that [of p j]) (auto simp: apply_answer_def position_book wf_ranking_def)
qed

text \<open>The interval of a session that is not over yet, and the end of an answer on it.\<close>

definition interval_ok :: "ranking_projection \<Rightarrow> placement_session \<Rightarrow> bool" where
  "interval_ok s p \<longleftrightarrow> session_candidate p \<notin> set (books s) \<and> lo p \<le> hi p \<and> hi p \<le> length (entries s) \<and>
     skipped p \<subseteq> set (books s) \<and> \<not> paused p"

lemma settle_answer_eq:
  assumes "interval_ok s p"
  shows "settle_answer s p cand now = Inr
    (if lo p = hi p
     then s\<lparr>entries := take (lo p) (entries s) @ \<lparr>entry_book = cand, added_at = now\<rparr> # drop (lo p) (entries s),
            pending := None\<rparr>
     else s\<lparr>pending := Some (p\<lparr>paused := (open_indices s p = [])\<rparr>)\<rparr>)"
proof (cases "lo p = hi p")
  case True
  then show ?thesis using assms by (simp add: settle_answer_def vec_insert_def interval_ok_def)
next
  case False
  let ?s = "s\<lparr>pending := Some p\<rparr>"
  have "open_indices ?s p = open_indices s p" by (simp add: open_indices_def books_def)
  then have "next_opponent ?s = (Inr (map_option (\<lambda>j. books ?s ! j) (min_by_key (distance p) (open_indices s p)))
      :: (replay_error_reason, book_id option) outcome)"
    using next_opponent_eq [of ?s p] assms False by (simp add: interval_ok_def)
  moreover have "p\<lparr>paused := False\<rparr> = p" using assms by (simp add: interval_ok_def)
  ultimately show ?thesis
    using False by (auto simp: settle_answer_def min_by_key_None Let_def)
qed

lemma narrow_interval_ok:
  assumes "wf_session s p" "\<not> paused p" "lo p \<le> j" "j < hi p" "opponent = books s ! j"
  shows "interval_ok s ((narrow p j opponent choice)\<lparr>last_activity_at := now\<rparr>)"
  using assms by (cases choice) (auto simp: interval_ok_def wf_session_def)

lemma answer_wf:
  assumes wf: "wf_ranking s" and step: "apply_answer s cand now opponent choice = Inr s'"
  shows "wf_ranking s'"
proof (rule answer_cases [OF wf step])
  fix p j assume p: "pending s = Some p" "wf_session s p" "session_candidate p = cand" "\<not> paused p"
    and j: "opponent = books s ! j" "lo p \<le> j" "j < hi p"
    and settle: "settle_answer s ((narrow p j opponent choice)\<lparr>last_activity_at := now\<rparr>) cand now = Inr s'"
  let ?q = "(narrow p j opponent choice)\<lparr>last_activity_at := now\<rparr>"
  have q: "interval_ok s ?q" using narrow_interval_ok p(2,4) j by blast
  have cand: "session_candidate ?q = cand" using p(3) by (cases choice) simp_all
  show ?thesis
  proof (cases "lo ?q = hi ?q")
    case True
    then have "books s' = take (lo ?q) (books s) @ cand # drop (lo ?q) (books s)" "pending s' = None"
      using settle settle_answer_eq [OF q, of cand now] by (auto simp: books_def take_map drop_map)
    moreover have "distinct (take (lo ?q) (books s) @ cand # drop (lo ?q) (books s))"
      using wf q cand by (auto simp: wf_ranking_def interval_ok_def set_take_disj_set_drop_if_distinct
          dest: in_set_takeD in_set_dropD)
    ultimately show ?thesis by (simp add: wf_ranking_def)
  next
    case False
    then have s': "s' = s\<lparr>pending := Some (?q\<lparr>paused := (open_indices s ?q = [])\<rparr>)\<rparr>"
      using settle settle_answer_eq [OF q, of cand now] by simp
    have same: "books s' = books s" "entries s' = entries s" by (simp_all add: s' books_def)
    have "wf_session s' (?q\<lparr>paused := (open_indices s ?q = [])\<rparr>)"
      using q False by (simp add: wf_session_def interval_ok_def open_indices_def same)
    then show ?thesis using wf by (simp add: wf_ranking_def same) (simp add: s')
  qed
qed

lemma kind_wf: "wf_ranking s \<Longrightarrow> apply_kind s e = Inr s' \<Longrightarrow> wf_ranking s'"
  by (cases "kind e") (auto simp: apply_kind_def intro: started_wf answer_wf pause_wf resume_wf)

text \<open>
  What a history fixes: the number of its events is the revision, their identifiers are the ones
  seen, and the reader never changes.
\<close>

lemma kind_frame:
  assumes "apply_kind s e = Inr s'"
  shows "revision s' = revision s" "seen_event_ids s' = seen_event_ids s" "reader_id s' = reader_id s"
proof -
  have settle: "revision t = revision s \<and> seen_event_ids t = seen_event_ids s \<and> reader_id t = reader_id s"
    if "settle_answer s p cand now = Inr t" for p cand now t
    using that by (auto simp: settle_answer_def Let_def result_simps split: if_splits)
  have "revision s' = revision s \<and> seen_event_ids s' = seen_event_ids s \<and> reader_id s' = reader_id s"
  proof (cases "kind e")
    case PlacementStarted
    with assms show ?thesis by (auto simp: apply_kind_def apply_started_def split: if_splits)
  next
    case (ComparisonAnswered opponent choice)
    with assms show ?thesis
      using settle by (fastforce simp: apply_kind_def apply_answer_def result_simps split: if_splits)
  qed (use assms in \<open>auto simp: apply_kind_def apply_pause_def apply_resume_def result_simps split: if_splits\<close>)
  then show "revision s' = revision s" "seen_event_ids s' = seen_event_ids s" "reader_id s' = reader_id s"
    by simp_all
qed

lemma checked_succ_Some_iff [result_simps]: "checked_succ n = Some k \<longleftrightarrow> n < u64_max \<and> k = n + 1"
  by (auto simp: checked_succ_def)

lemma ranking_apply_Inr_iff:
  "ranking_apply s e = Inr s' \<longleftrightarrow>
     meta_reader (metadata e) = reader_id s \<and> revision s < u64_max \<and>
     meta_sequence (metadata e) = revision s + 1 \<and> meta_id (metadata e) \<notin> seen_event_ids s \<and>
     (\<exists>t. apply_kind s e = Inr t \<and> s' = t\<lparr>revision := revision s + 1,
        seen_event_ids := insert (meta_id (metadata e)) (seen_event_ids s)\<rparr>)"
  by (auto simp: ranking_apply_def Let_def result_simps kind_frame split: if_splits)

lemma wf_ranking_frame [simp]:
  "wf_ranking (s\<lparr>revision := n, seen_event_ids := ids\<rparr>) \<longleftrightarrow> wf_ranking s"
  by (simp add: wf_ranking_def wf_session_def open_indices_def books_def)

lemma ranking_apply_wf: "wf_ranking s \<Longrightarrow> ranking_apply s e = Inr s' \<Longrightarrow> wf_ranking s'"
  by (auto simp: ranking_apply_Inr_iff dest: kind_wf)

interpretation ranking_source: event_source "empty_projection r" ranking_apply wf_ranking for r
  by unfold_locales (auto simp: wf_empty dest: ranking_apply_wf)

interpretation ranking_count:
  measured_source "empty_projection r" ranking_apply wf_ranking "\<lambda>s. int (revision s)" "\<lambda>_. 1" for r
  by unfold_locales (auto simp: ranking_apply_Inr_iff)

section \<open>No panic\<close>

lemma no_panic_next_opponent: "wf_ranking s \<Longrightarrow> no_panic (next_opponent s)"
proof (cases "\<exists>p. pending s = Some p \<and> \<not> paused p")
  case True
  assume "wf_ranking s"
  with True show ?thesis by (metis next_opponent_active no_panic_simps(1))
next
  case False
  then show ?thesis by (cases "pending s") (auto simp: next_opponent_idle)
qed

lemma no_panic_answer:
  assumes wf: "wf_ranking s"
  shows "no_panic (apply_answer s cand now opponent choice)"
proof (cases "\<exists>p. pending s = Some p \<and> \<not> paused p")
  case False
  then have "next_opponent s = (Inr None :: (replay_error_reason, book_id option) outcome)"
    by (cases "pending s") (auto simp: next_opponent_idle)
  with False show ?thesis by (auto simp: apply_answer_def)
next
  case True
  then obtain p where p: "pending s = Some p" "\<not> paused p" by blast
  from next_opponent_active [OF wf this] obtain j where
    j: "next_opponent s = (Inr (Some (books s ! j)) :: (replay_error_reason, book_id option) outcome)"
      "lo p \<le> j" "j < hi p" "j < length (entries s)" by metis
  have "no_panic (settle_answer s ((narrow p j opponent choice)\<lparr>last_activity_at := now\<rparr>) cand now)"
    if "opponent = books s ! j"
  proof -
    have "wf_session s p" using wf p(1) by (simp add: wf_ranking_def)
    from narrow_interval_ok [OF this p(2) j(2,3) that] show ?thesis by (simp add: settle_answer_eq)
  qed
  then show ?thesis
    using p j position_book [OF wf j(4)] by (cases "opponent = books s ! j") (simp_all add: apply_answer_def)
qed

lemma no_panic_map_err: "no_panic r \<Longrightarrow> (\<And>e. g (Err e) \<noteq> Panic) \<Longrightarrow> no_panic (map_err g r)"
  by (cases r) (auto simp: no_panic_def map_err_def, metis failure.exhaust)

lemma no_panic_ranking_apply:
  assumes "wf_ranking s"
  shows "no_panic (ranking_apply s e)"
proof -
  have "no_panic (apply_kind s e)"
    using no_panic_answer [OF assms]
    by (cases "kind e") (simp_all add: apply_kind_def apply_started_def apply_pause_def apply_resume_def)
  then show ?thesis
    unfolding ranking_apply_def Let_def
    by (intro no_panic_map_err) (auto simp: at_sequence_def)
qed

end
