(* ===== verification/Book_Command.thy ===== *)
theory Book_Command imports Book_Ranking begin

text \<open>
  Commands, the ranking aggregate and the notices of the book rankings
  (\<open>book_smartz/domain/command.rs\<close>, \<open>notice.rs\<close>), with the lemmas about answers that the
  correctness of the binary search rests on.
\<close>

section \<open>Commands\<close>

datatype ranking_command =
    Start book_id
  | Answer book_id comparison_choice
  | Pause
  | Resume

record command_context =
  expected_revision :: nat
  ctx_event_id :: event_id
  ctx_time :: instant

definition transition_error :: "replay_error failure \<Rightarrow> ranking_error failure" where
  "transition_error f = (case f of Err e \<Rightarrow> Err (InvalidTransition (reason e)) | Panic \<Rightarrow> Panic)"

definition next_sequence :: "nat \<Rightarrow> (ranking_error, sequence) outcome" where
  "next_sequence actual =
     (if actual = 0 then sequence_new 1 else and_then (sequence_new actual) successor)"

definition pending_candidate :: "ranking_projection \<Rightarrow> (ranking_error, book_id) outcome" where
  "pending_candidate s =
     and_then (ok_or (Err (InvalidTransition NoActivePlacement)) (pending s)) (\<lambda>p. Inr (session_candidate p))"

fun command_kind ::
  "ranking_projection \<Rightarrow> book_registry \<Rightarrow> ranking_command \<Rightarrow> (ranking_error, book_id \<times> event_kind) outcome" where
  "command_kind s registry (Start b) =
     (if registry_get registry b = None then err UnknownBook else Inr (b, PlacementStarted))"
| "command_kind s registry (Answer opponent choice) =
     (if registry_get registry opponent = None then err UnknownBook
      else and_then (pending_candidate s) (\<lambda>cand. Inr (cand, ComparisonAnswered opponent choice)))"
| "command_kind s registry Pause = and_then (pending_candidate s) (\<lambda>cand. Inr (cand, PlacementPaused))"
| "command_kind s registry Resume = and_then (pending_candidate s) (\<lambda>cand. Inr (cand, PlacementResumed))"

definition ranking_decide ::
  "ranking_projection \<Rightarrow> book_registry \<Rightarrow> command_context \<Rightarrow> ranking_command \<Rightarrow>
    (ranking_error, ranking_event) outcome" where
  "ranking_decide s registry ctx c =
     (let actual = revision s in
      if expected_revision ctx \<noteq> actual then err (StaleRevision (expected_revision ctx) actual)
      else
      and_then (next_sequence actual) (\<lambda>sequence.
      and_then (command_kind s registry c) (\<lambda>(cand, k).
      let e = \<lparr>metadata = \<lparr>meta_id = ctx_event_id ctx, meta_reader = reader_id s, meta_sequence = sequence,
                 meta_time = ctx_time ctx\<rparr>, candidate = cand, kind = k\<rparr> in
      and_then (map_err transition_error (ranking_apply s e)) (\<lambda>_. Inr e))))"

record ranking =
  history :: "ranking_event list"
  projection :: ranking_projection

definition ranking_from_history :: "reader_id \<Rightarrow> ranking_event list \<Rightarrow> (replay_error, ranking) outcome" where
  "ranking_from_history r es = and_then (ranking_replay r es) (\<lambda>s. Inr \<lparr>history = es, projection = s\<rparr>)"

definition ranking_new :: "reader_id \<Rightarrow> ('e, ranking) outcome" where
  "ranking_new r =
     (case ranking_replay r [] of Inl _ \<Rightarrow> panic | Inr s \<Rightarrow> Inr \<lparr>history = [], projection = s\<rparr>)"

text \<open>\<open>execute\<close> mutates the ranking: the ranking afterwards and the return value.\<close>

definition execute ::
  "ranking \<Rightarrow> book_registry \<Rightarrow> command_context \<Rightarrow> ranking_command \<Rightarrow>
    ranking \<times> (ranking_error, ranking_event) outcome" where
  "execute r registry ctx c =
     (case ranking_decide (projection r) registry ctx c of
        Inl f \<Rightarrow> (r, Inl f)
      | Inr e \<Rightarrow>
          (case map_err transition_error (ranking_apply (projection r) e) of
             Inl f \<Rightarrow> (r, Inl f)
           | Inr s \<Rightarrow> (r\<lparr>history := history r @ [e], projection := s\<rparr>, Inr e)))"

section \<open>Notices\<close>

datatype automatic_pause_reason = NoEligibleOpponents

datatype domain_notice =
    BookRanked event_metadata book_id nat nat
  | PlacementAutomaticallyPaused event_metadata book_id automatic_pause_reason

fun notice_metadata :: "domain_notice \<Rightarrow> event_metadata" where
  "notice_metadata (BookRanked m _ _ _) = m"
| "notice_metadata (PlacementAutomaticallyPaused m _ _) = m"

fun notice_candidate :: "domain_notice \<Rightarrow> book_id" where
  "notice_candidate (BookRanked _ c _ _) = c"
| "notice_candidate (PlacementAutomaticallyPaused _ c _) = c"

definition derive_notices ::
  "ranking_projection \<Rightarrow> ranking_event \<Rightarrow> ranking_projection \<Rightarrow> ('e, domain_notice list) outcome" where
  "derive_notices before e after =
     (if length (entries before) < length (entries after)
      then and_then (expect (position (\<lambda>x. entry_book x = candidate e) (entries after))) (\<lambda>i.
        Inr [BookRanked (metadata e) (candidate e) i (length (entries after))])
      else if (case kind e of ComparisonAnswered _ _ \<Rightarrow> True | _ \<Rightarrow> False) \<and>
        (case pending before of None \<Rightarrow> False | Some p \<Rightarrow> \<not> paused p) \<and>
        (case pending after of None \<Rightarrow> False | Some p \<Rightarrow> paused p)
      then Inr [PlacementAutomaticallyPaused (metadata e) (candidate e) NoEligibleOpponents]
      else Inr [])"

section \<open>Answers that agree with a preference\<close>

definition truthful :: "(book_id \<Rightarrow> book_id \<Rightarrow> bool) \<Rightarrow> ranking_event \<Rightarrow> bool" where
  "truthful better e \<longleftrightarrow>
     (case kind e of
        ComparisonAnswered opponent PreferCandidate \<Rightarrow> better (candidate e) opponent
      | ComparisonAnswered opponent PreferOpponent \<Rightarrow> better opponent (candidate e)
      | _ \<Rightarrow> True)"

definition searched :: "(book_id \<Rightarrow> book_id \<Rightarrow> bool) \<Rightarrow> ranking_projection \<Rightarrow> placement_session \<Rightarrow> bool" where
  "searched better s p \<longleftrightarrow>
     (\<forall>b \<in> set (take (lo p) (books s)). better b (session_candidate p)) \<and>
     (\<forall>b \<in> set (drop (hi p) (books s)). better (session_candidate p) b)"

definition in_order :: "(book_id \<Rightarrow> book_id \<Rightarrow> bool) \<Rightarrow> ranking_projection \<Rightarrow> bool" where
  "in_order better s \<longleftrightarrow> sorted_wrt better (books s) \<and> (\<forall>p. pending s = Some p \<longrightarrow> searched better s p)"

lemma sorted_wrt_insert_mid:
  assumes "sorted_wrt P xs" "transp P" "\<forall>x \<in> set (take i xs). P x c" "\<forall>x \<in> set (drop i xs). P c x"
  shows "sorted_wrt P (take i xs @ c # drop i xs)"
proof -
  have "sorted_wrt P (take i xs @ drop i xs)" using assms(1) by simp
  then show ?thesis using assms(3,4) unfolding sorted_wrt_append by simp
qed

lemma sorted_before:
  assumes "sorted_wrt P xs" "transp P" "j < length xs" "P (xs ! j) c"
  shows "\<forall>x \<in> set (take (Suc j) xs). P x c"
proof
  fix x assume "x \<in> set (take (Suc j) xs)"
  then obtain i where i: "x = xs ! i" "i \<le> j" using assms(3) by (auto simp: in_set_conv_nth)
  show "P x c"
  proof (cases "i = j")
    case False
    then have "P (xs ! i) (xs ! j)" using i assms(1,3) by (simp add: sorted_wrt_iff_nth_less)
    with assms(2,4) i show ?thesis by (auto dest: transpD)
  qed (use i assms in simp)
qed

lemma sorted_after:
  assumes "sorted_wrt P xs" "transp P" "j < length xs" "P c (xs ! j)"
  shows "\<forall>x \<in> set (drop j xs). P c x"
proof
  fix x assume "x \<in> set (drop j xs)"
  then obtain i where i: "x = xs ! (j + i)" "j + i < length xs" using assms(3) by (auto simp: in_set_conv_nth)
  show "P c x"
  proof (cases "i = 0")
    case False
    then have "P (xs ! j) (xs ! (j + i))" using i assms(1) by (simp add: sorted_wrt_iff_nth_less)
    with assms(2,4) i show ?thesis by (auto dest: transpD)
  qed (use i assms in simp)
qed

lemma answer_in_order:
  assumes wf: "wf_ranking s" and order: "in_order better s" and trans: "transp better"
    and step: "apply_answer s cand now opponent choice = Inr s'"
    and truth: "choice = PreferCandidate \<Longrightarrow> better cand opponent" "choice = PreferOpponent \<Longrightarrow> better opponent cand"
  shows "in_order better s'"
proof (rule answer_cases [OF wf step])
  fix p j assume p: "pending s = Some p" "wf_session s p" "session_candidate p = cand" "\<not> paused p"
    and j: "opponent = books s ! j" "lo p \<le> j" "j < hi p" "j < length (entries s)"
    and settle: "settle_answer s ((narrow p j opponent choice)\<lparr>last_activity_at := now\<rparr>) cand now = Inr s'"
  let ?q = "(narrow p j opponent choice)\<lparr>last_activity_at := now\<rparr>"
  have q: "interval_ok s ?q" using narrow_interval_ok p(2,4) j by blast
  have sorted: "sorted_wrt better (books s)" using order by (simp add: in_order_def)
  have old: "searched better s p" using order p(1) by (simp add: in_order_def)
  have "searched better s ?q"
  proof (cases choice)
    case PreferCandidate
    then have "better cand (books s ! j)" using truth(1) j(1) by simp
    with sorted_after [OF sorted trans, of j cand] j(4) old p(3) PreferCandidate show ?thesis
      by (simp add: searched_def)
  next
    case PreferOpponent
    then have "better (books s ! j) cand" using truth(2) j(1) by simp
    with sorted_before [OF sorted trans, of j cand] j(4) old p(3) PreferOpponent show ?thesis
      by (simp add: searched_def)
  next
    case Skip
    with old show ?thesis by (simp add: searched_def)
  qed
  moreover have "session_candidate ?q = cand" using p(3) by (cases choice) simp_all
  ultimately have q': "\<forall>b \<in> set (take (lo ?q) (books s)). better b cand"
    "\<forall>b \<in> set (drop (hi ?q) (books s)). better cand b" by (simp_all add: searched_def)
  show ?thesis
  proof (cases "lo ?q = hi ?q")
    case True
    then have "books s' = take (lo ?q) (books s) @ cand # drop (lo ?q) (books s)" "pending s' = None"
      using settle settle_answer_eq [OF q, of cand now] by (auto simp: books_def take_map drop_map)
    then show ?thesis
      using sorted_wrt_insert_mid [OF sorted trans q'(1)] q'(2) True by (simp add: in_order_def)
  next
    case False
    then have s': "s' = s\<lparr>pending := Some (?q\<lparr>paused := (open_indices s ?q = [])\<rparr>)\<rparr>"
      using settle settle_answer_eq [OF q, of cand now] by simp
    have "books s' = books s" by (simp add: s' books_def)
    then show ?thesis
      using sorted \<open>searched better s ?q\<close> by (simp add: in_order_def searched_def) (simp add: s')
  qed
qed

lemma kind_in_order:
  assumes "wf_ranking s" "in_order better s" "transp better" "apply_kind s e = Inr s'" "truthful better e"
  shows "in_order better s'"
proof (cases "kind e")
  case (ComparisonAnswered opponent choice)
  then show ?thesis
    using assms by (intro answer_in_order [OF assms(1-3)]) (auto simp: apply_kind_def truthful_def)
qed (use assms in \<open>auto simp: apply_kind_def apply_started_def apply_pause_def apply_resume_def in_order_def
    searched_def books_def result_simps split: if_splits\<close>)

lemma in_order_frame [simp]:
  "in_order better (s\<lparr>revision := n, seen_event_ids := ids\<rparr>) \<longleftrightarrow> in_order better s"
  by (simp add: in_order_def searched_def books_def)

section \<open>The length of a search\<close>

definition is_answer :: "ranking_event \<Rightarrow> bool" where
  "is_answer e \<longleftrightarrow> (\<exists>opponent. kind e = ComparisonAnswered opponent PreferCandidate \<or>
     kind e = ComparisonAnswered opponent PreferOpponent)"

definition fresh_session :: "ranking_projection \<Rightarrow> nat \<Rightarrow> bool" where
  "fresh_session s d \<longleftrightarrow>
     (\<exists>p. pending s = Some p \<and> \<not> paused p \<and> skipped p = {} \<and> hi p - lo p = d)"

lemma probe_closest:
  assumes "lo p < hi p" "skipped p = {}" "j \<in> set (open_indices s p)"
    "\<forall>i \<in> set (open_indices s p). distance p j \<le> distance p i"
  shows "j = probe p"
proof -
  have "probe p \<in> set (open_indices s p)"
    using assms(1,2) by (auto simp: open_indices_def probe_def)
  then have "distance p j \<le> distance p (probe p)" using assms(4) by blast
  then have "abs_diff j (probe p) = 0" by (auto simp: distance_def abs_diff_def split: if_splits)
  then show ?thesis by (auto simp: abs_diff_def split: if_splits)
qed

text \<open>Without skips an answer at least halves the interval, or ends the search.\<close>

lemma answer_halves:
  assumes wf: "wf_ranking s" and d: "fresh_session s d" and step: "ranking_apply s e = Inr s'"
    and answer: "is_answer e"
  shows "(\<exists>d'. fresh_session s' d' \<and> 2 * d' \<le> d) \<or>
    pending s' = None \<and> length (entries s') = length (entries s) + 1"
proof -
  from answer obtain opponent choice where k: "kind e = ComparisonAnswered opponent choice" "choice \<noteq> Skip"
    by (auto simp: is_answer_def)
  let ?now = "meta_time (metadata e)" and ?cand = "candidate e"
  from step k obtain t where t: "apply_answer s ?cand ?now opponent choice = Inr t"
    and s': "pending s' = pending t" "entries s' = entries t"
    by (auto simp: ranking_apply_Inr_iff apply_kind_def)
  show ?thesis
  proof (rule answer_cases [OF wf t])
    fix p j assume p: "pending s = Some p" "wf_session s p" "\<not> paused p"
      and j: "opponent = books s ! j" "j \<in> set (open_indices s p)" "lo p \<le> j" "j < hi p"
      and least: "\<forall>i \<in> set (open_indices s p). distance p j \<le> distance p i"
      and settle: "settle_answer s ((narrow p j opponent choice)\<lparr>last_activity_at := ?now\<rparr>) ?cand ?now = Inr t"
    let ?q = "(narrow p j opponent choice)\<lparr>last_activity_at := ?now\<rparr>"
    have q: "interval_ok s ?q" using narrow_interval_ok p(2,3) j by blast
    have fresh: "skipped p = {}" "d = hi p - lo p" using d p(1) by (auto simp: fresh_session_def)
    have "j = probe p" using probe_closest [OF _ fresh(1) j(2) least] p(2) by (simp add: wf_session_def)
    then have half: "2 * (hi ?q - lo ?q) \<le> d"
      using fresh(2) j(3,4) k(2) by (cases choice) (auto simp: probe_def)
    have skipped: "skipped ?q = {}" using fresh(1) k(2) by (cases choice) auto
    show ?thesis
    proof (cases "lo ?q = hi ?q")
      case True
      then show ?thesis
        using settle settle_answer_eq [OF q, of ?cand ?now] s' q by (auto simp: interval_ok_def)
    next
      case False
      then have "open_indices s ?q \<noteq> []" using q skipped by (auto simp: open_indices_def interval_ok_def)
      with False have "fresh_session s' (hi ?q - lo ?q)"
        using settle settle_answer_eq [OF q, of ?cand ?now] s' skipped by (auto simp: fresh_session_def)
      with half show ?thesis by blast
    qed
  qed
qed

lemma idle_answer: "pending s = None \<Longrightarrow> is_answer e \<Longrightarrow> ranking_apply s e \<noteq> Inr s'"
  by (auto simp: ranking_apply_Inr_iff apply_kind_def apply_answer_def is_answer_def result_simps)

end
