(* ===== verification/Book_Codec.thy ===== *)
theory Book_Codec imports Json Book_Command begin

text \<open>
  The CloudEvents form of ranking events (\<open>book_smartz/domain/cloudevents.rs\<close>). The crates
  \<open>serde_json\<close>, \<open>cloudevents\<close>, \<open>uuid\<close>, \<open>chrono\<close> and \<open>url\<close> are the record \<open>library\<close>; \<open>faithful\<close> says
  what their documentation promises of the values that this codec hands to them; \<open>url_parse\<close> gives the
  text that the parsed URL has. A text is what \<open>serde_json\<close> makes of it: its type is arbitrary,
  because the codec only passes it on.
\<close>

section \<open>Errors and documents\<close>

datatype codec_error =
    MalformedJson
  | MissingField string
  | InvalidField string
  | UnsupportedSpecVersion
  | UnsupportedEventType rstring
  | InvalidExtension rstring

text \<open>The event of the SDK: its attributes, its extensions and its data.\<close>

datatype extension = ExtString rstring | ExtBool bool | ExtInteger int

datatype event_data = JsonData json | OtherData

record envelope =
  env_id :: rstring
  env_source :: rstring
  env_type :: rstring
  env_subject :: "rstring option"
  env_time :: "instant option"
  env_content_type :: "rstring option"
  env_schema :: "rstring option"
  env_data :: "event_data option"
  env_extensions :: "(rstring, extension) btree_map"

record 't library =
  read_json :: "'t \<Rightarrow> json option"
  write_event :: "envelope \<Rightarrow> 't option"
  read_event :: "json_map \<Rightarrow> envelope option"
  build_event :: "envelope \<Rightarrow> envelope option"
  uuid_text :: "nat \<Rightarrow> rstring"
  uuid_parse :: "rstring \<Rightarrow> nat option"
  time_text :: "instant \<Rightarrow> rstring"
  year :: "instant \<Rightarrow> int"
  url_parse :: "rstring \<Rightarrow> rstring option"

record document =
  doc_event :: ranking_event
  doc_envelope :: envelope

section \<open>Fields\<close>

definition required :: "rstring option \<Rightarrow> string \<Rightarrow> (codec_error, rstring) outcome" where
  "required value name = ok_or (Err (MissingField name)) (if value = Some [] then None else value)"

definition parse_uuid :: "'t library \<Rightarrow> rstring \<Rightarrow> string \<Rightarrow> (codec_error, nat) outcome" where
  "parse_uuid L value field =
     and_then (ok_or (Err (InvalidField field)) (uuid_parse L value)) (\<lambda>uuid.
     if uuid_text L uuid \<noteq> value then err (InvalidField field) else Inr uuid)"

definition parse_sequence :: "rstring \<Rightarrow> (codec_error, sequence) outcome" where
  "parse_sequence value =
     (if value = [] \<or> hd value = 48 \<or> \<not> list_all is_ascii_digit (utf8 value) then err (InvalidField ''sequence'')
      else
      and_then (ok_or (Err (InvalidField ''sequence'')) (parse_u64 value)) (\<lambda>parsed.
      map_err (\<lambda>_. Err (InvalidField ''sequence'')) (sequence_new parsed)))"

definition valid_extension_name :: "rstring \<Rightarrow> bool" where
  "valid_extension_name name \<longleftrightarrow>
     name \<noteq> [] \<and> list_all (\<lambda>b. is_ascii_lowercase b \<or> is_ascii_digit b) (utf8 name)"

text \<open>The bytes of a URI, with their percent escapes.\<close>

definition uri_byte :: "nat \<Rightarrow> bool" where
  "uri_byte b \<longleftrightarrow> is_ascii_digit b \<or> is_ascii_lowercase b \<or> 65 \<le> b \<and> b \<le> 90 \<or>
     b \<in> set (lit ''-._~:/?[]@!$&'') \<or> b = 39 \<or> b \<in> set (lit ''()*+,;='')"

fun uri_bytes :: "nat list \<Rightarrow> bool" where
  "uri_bytes [] = True"
| "uri_bytes (b # bs) =
     (if b = 37 then (case bs of
          h # l # rest \<Rightarrow> is_ascii_hexdigit h \<and> is_ascii_hexdigit l \<and> uri_bytes rest
        | _ \<Rightarrow> False)
      else uri_byte b \<and> uri_bytes bs)"

definition after_colon :: "rstring \<Rightarrow> rstring option" where
  "after_colon value = (case dropWhile (\<lambda>c. c \<noteq> 58) value of [] \<Rightarrow> None | _ # rest \<Rightarrow> Some rest)"

text \<open>The authority, if there is one, and what follows it.\<close>

definition split_authority :: "rstring \<Rightarrow> rstring \<times> rstring" where
  "split_authority remainder = (case strip_prefix (lit ''//'') remainder of
       Some r \<Rightarrow> (takeWhile (\<lambda>c. c \<notin> {47, 63}) r, dropWhile (\<lambda>c. c \<notin> {47, 63}) r)
     | None \<Rightarrow> ([], remainder))"

definition valid_absolute_uri :: "'t library \<Rightarrow> rstring \<Rightarrow> bool" where
  "valid_absolute_uri L value \<longleftrightarrow>
     value \<noteq> [] \<and> 35 \<notin> set value \<and> uri_bytes (utf8 value) \<and>
     (case after_colon value of None \<Rightarrow> False
      | Some remainder \<Rightarrow> (case split_authority remainder of (authority, rest) \<Rightarrow>
          length (filter (\<lambda>b. b = 64) (utf8 authority)) \<le> 1 \<and>
          91 \<notin> set rest \<and> 93 \<notin> set rest \<and> url_parse L value \<noteq> None))"

definition invalid_context_string :: "rstring \<Rightarrow> bool" where
  "invalid_context_string value \<longleftrightarrow> list_ex (\<lambda>c.
     c \<le> 31 \<or> 127 \<le> c \<and> c \<le> 159 \<or> 64976 \<le> c \<and> c \<le> 65007 \<or> 65534 \<le> c mod 65536) value"

definition validate_extension :: "rstring \<times> json \<Rightarrow> (codec_error, unit) outcome" where
  "validate_extension field = (case field of (name, value) \<Rightarrow>
     let ok = (name \<noteq> lit ''data_base64'' \<and> valid_extension_name name \<and> (case value of
         JBool _ \<Rightarrow> True
       | JNumber n \<Rightarrow> (case as_i64 n of Some i \<Rightarrow> - (2 ^ 31) \<le> i \<and> i < 2 ^ 31 | None \<Rightarrow> False)
       | JString s \<Rightarrow> \<not> invalid_context_string s
       | _ \<Rightarrow> False))
     in if ok then Inr () else err (InvalidExtension name))"

definition validate_extensions :: "json_map \<Rightarrow> (codec_error, unit) outcome" where
  "validate_extensions extensions = try_fold (\<lambda>_ field. validate_extension field) () extensions"

definition validate_trace_context :: "json_map \<Rightarrow> (codec_error, unit) outcome" where
  "validate_trace_context extensions =
     and_then (try_fold (\<lambda>_ name. case bt_get extensions name of
         Some (JString (_ # _)) \<Rightarrow> Inr ()
       | Some _ \<Rightarrow> err (InvalidExtension name)
       | None \<Rightarrow> Inr ()) () [lit ''traceparent'', lit ''tracestate'']) (\<lambda>_.
     if bt_contains extensions (lit ''tracestate'') \<and> \<not> bt_contains extensions (lit ''traceparent'')
     then err (InvalidExtension (lit ''traceparent'')) else Inr ())"

fun event_type :: "event_kind \<Rightarrow> rstring" where
  "event_type PlacementStarted = lit ''bookranking.placement.started.v1''"
| "event_type (ComparisonAnswered _ _) = lit ''bookranking.comparison.answered.v1''"
| "event_type PlacementPaused = lit ''bookranking.placement.paused.v1''"
| "event_type PlacementResumed = lit ''bookranking.placement.resumed.v1''"

definition valid_utc_time :: "'t library \<Rightarrow> instant \<Rightarrow> bool" where
  "valid_utc_time L t \<longleftrightarrow> 0 \<le> year L t \<and> year L t \<le> 9999"

section \<open>Encoding\<close>

definition source_of :: "'t library \<Rightarrow> reader_id \<Rightarrow> rstring" where
  "source_of L r = lit ''urn:uuid:'' @ uuid_text L r"

definition subject_of :: "'t library \<Rightarrow> book_id \<Rightarrow> rstring" where
  "subject_of L b = lit ''books/'' @ uuid_text L b"

definition base_envelope ::
  "'t library \<Rightarrow> rstring \<Rightarrow> event_metadata \<Rightarrow> book_id \<Rightarrow> rstring \<Rightarrow> json \<Rightarrow> (codec_error, envelope) outcome" where
  "base_envelope L i m b ty d =
     (if \<not> valid_utc_time L (meta_time m) then err (InvalidField ''time'')
      else ok_or (Err (InvalidField ''envelope'')) (build_event L
        \<lparr>env_id = i, env_source = source_of L (meta_reader m), env_type = ty,
         env_subject = Some (subject_of L b), env_time = Some (meta_time m),
         env_content_type = Some (lit ''application/json''), env_schema = None,
         env_data = Some (JsonData d), env_extensions = []\<rparr>))"

definition common_data :: "'t library \<Rightarrow> event_metadata \<Rightarrow> book_id \<Rightarrow> json_map" where
  "common_data L m b =
     bt_insert (lit ''sequence'') (JString (show_nat (meta_sequence m)))
     (bt_insert (lit ''candidateBookId'') (JString (uuid_text L b))
     (bt_insert (lit ''readerId'') (JString (uuid_text L (meta_reader m))) []))"

definition encode_wire :: "'t library \<Rightarrow> envelope \<Rightarrow> (codec_error, 't) outcome" where
  "encode_wire L e = ok_or (Err MalformedJson) (write_event L e)"

fun choice_text :: "comparison_choice \<Rightarrow> rstring" where
  "choice_text PreferCandidate = lit ''prefer_candidate''"
| "choice_text PreferOpponent = lit ''prefer_opponent''"
| "choice_text Skip = lit ''skip''"

text \<open>A number, filled with zeros to twenty digits.\<close>

definition padded :: "nat \<Rightarrow> rstring" where
  "padded n = replicate (20 - length (show_nat n)) 48 @ show_nat n"

definition set_extension :: "rstring \<Rightarrow> extension \<Rightarrow> envelope \<Rightarrow> envelope" where
  "set_extension name v e = e\<lparr>env_extensions := bt_insert name v (env_extensions e)\<rparr>"

definition set_sequence :: "ranking_event \<Rightarrow> envelope \<Rightarrow> envelope" where
  "set_sequence e = set_extension (lit ''sequence'') (ExtString (padded (meta_sequence (metadata e))))"

definition event_payload :: "'t library \<Rightarrow> ranking_event \<Rightarrow> json_map" where
  "event_payload L e =
     (let d = common_data L (metadata e) (candidate e) in
      case kind e of
        ComparisonAnswered opponent choice \<Rightarrow>
          bt_insert (lit ''choice'') (JString (choice_text choice))
          (bt_insert (lit ''opponentBookId'') (JString (uuid_text L opponent)) d)
      | _ \<Rightarrow> d)"

definition to_cloud_event :: "'t library \<Rightarrow> ranking_event \<Rightarrow> (codec_error, envelope) outcome" where
  "to_cloud_event L e =
     and_then (base_envelope L (uuid_text L (meta_id (metadata e))) (metadata e) (candidate e)
       (event_type (kind e)) (JObject (event_payload L e))) (\<lambda>v.
     Inr (set_sequence e v))"

definition encode_event :: "'t library \<Rightarrow> ranking_event \<Rightarrow> (codec_error, 't) outcome" where
  "encode_event L e = and_then (to_cloud_event L e) (encode_wire L)"

definition encode_document :: "'t library \<Rightarrow> document \<Rightarrow> (codec_error, 't) outcome" where
  "encode_document L d = encode_wire L (set_sequence (doc_event d) (doc_envelope d))"

text \<open>The suffix of the identifier, the type and the further members of a notice.\<close>

fun notice_parts :: "domain_notice \<Rightarrow> json_map \<Rightarrow> rstring \<times> rstring \<times> json_map" where
  "notice_parts (BookRanked _ _ place entry_count) d =
     (lit ''bookranked'', lit ''bookranking.book.ranked.v1'',
      bt_insert (lit ''entryCount'') (JNumber (JInt (int entry_count)))
      (bt_insert (lit ''position'') (JNumber (JInt (int place))) d))"
| "notice_parts (PlacementAutomaticallyPaused _ _ NoEligibleOpponents) d =
     (lit ''automaticallypaused'', lit ''bookranking.placement.automaticallypaused.v1'',
      bt_insert (lit ''reason'') (JString (lit ''no_eligible_opponents'')) d)"

definition encode_notice :: "'t library \<Rightarrow> domain_notice \<Rightarrow> (codec_error, 't) outcome" where
  "encode_notice L n =
     (let m = notice_metadata n; b = notice_candidate n;
          d = bt_insert (lit ''causationId'') (JString (uuid_text L (meta_id m))) (common_data L m b) in
      case notice_parts n d of (suffix, ty, d) \<Rightarrow>
      and_then (base_envelope L (uuid_text L (meta_id m) @ lit '':'' @ suffix) m b ty (JObject d)) (encode_wire L))"

section \<open>Decoding\<close>

text \<open>
  A text may list a key of an object again; a \<open>StrictValue\<close> is a value without duplicate keys.
\<close>

fun strict :: "json \<Rightarrow> json option"
  and strict_seq :: "json list \<Rightarrow> json list option"
  and strict_map :: "json_map \<Rightarrow> (rstring \<times> json) list \<Rightarrow> json_map option" where
  "strict (JNumber (JDouble bits)) = (if finite_double bits then Some (JNumber (JDouble bits)) else None)"
| "strict (JArray vs) = map_option JArray (strict_seq vs)"
| "strict (JObject members) = map_option JObject (strict_map [] members)"
| "strict v = Some v"
| "strict_seq [] = Some []"
| "strict_seq (v # vs) = (case strict v of None \<Rightarrow> None
     | Some w \<Rightarrow> (case strict_seq vs of None \<Rightarrow> None | Some ws \<Rightarrow> Some (w # ws)))"
| "strict_map m [] = Some m"
| "strict_map m ((k, v) # members) = (case strict v of None \<Rightarrow> None
     | Some w \<Rightarrow> if bt_contains m k then None else strict_map (bt_insert k w m) members)"

definition required_attributes :: "string list" where
  "required_attributes =
     [''specversion'', ''id'', ''source'', ''type'', ''subject'', ''time'', ''datacontenttype'']"

definition known_attributes :: "rstring list" where
  "known_attributes = map lit (required_attributes @ [''dataschema'', ''data''])"

definition check_required :: "json_map \<Rightarrow> string \<Rightarrow> (codec_error, unit) outcome" where
  "check_required members name = (case bt_get members (lit name) of
       None \<Rightarrow> err (MissingField name)
     | Some (JString (_ # _)) \<Rightarrow> Inr ()
     | Some _ \<Rightarrow> err (InvalidField name))"

definition parse_envelope :: "'t library \<Rightarrow> json \<Rightarrow> (codec_error, envelope) outcome" where
  "parse_envelope L value = (case value of
       JObject members \<Rightarrow>
         if bt_contains members (lit ''data_base64'') then err (InvalidField ''data_base64'')
         else let members = filter (\<lambda>(_, v). v \<noteq> JNull) members in
         and_then (try_fold (\<lambda>_. check_required members) () required_attributes) (\<lambda>_.
         if bt_get members (lit ''specversion'') \<noteq> Some (JString (lit ''1.0'')) then err UnsupportedSpecVersion
         else if bt_get members (lit ''datacontenttype'') \<noteq> Some (JString (lit ''application/json''))
         then err (InvalidField ''datacontenttype'')
         else if (case bt_get members (lit ''dataschema'') of
             Some (JString s) \<Rightarrow> \<not> valid_absolute_uri L s | Some _ \<Rightarrow> True | None \<Rightarrow> False)
         then err (InvalidField ''dataschema'')
         else let extensions = filter (\<lambda>(name, _). name \<notin> set known_attributes) members in
         and_then (validate_extensions extensions) (\<lambda>_.
         and_then (validate_trace_context extensions) (\<lambda>_.
         ok_or (Err MalformedJson) (read_event L members))))
     | _ \<Rightarrow> err (InvalidField ''envelope''))"

text \<open>A field of \<open>WireData\<close>: absent and null are the same, another value than a string is refused.\<close>

definition wire_field :: "json_map \<Rightarrow> string \<Rightarrow> (codec_error, rstring option) outcome" where
  "wire_field data name = (case bt_get data (lit name) of
       None \<Rightarrow> Inr None
     | Some JNull \<Rightarrow> Inr None
     | Some (JString s) \<Rightarrow> Inr (Some s)
     | Some _ \<Rightarrow> err (InvalidField ''data''))"

record wire_data =
  wire_reader :: "rstring option"
  wire_candidate :: "rstring option"
  wire_sequence :: "rstring option"
  wire_opponent :: "rstring option"
  wire_choice :: "rstring option"

definition wire_data_of :: "json_map \<Rightarrow> (codec_error, wire_data) outcome" where
  "wire_data_of data =
     and_then (wire_field data ''readerId'') (\<lambda>r.
     and_then (wire_field data ''candidateBookId'') (\<lambda>b.
     and_then (wire_field data ''sequence'') (\<lambda>n.
     and_then (wire_field data ''opponentBookId'') (\<lambda>opponent.
     and_then (wire_field data ''choice'') (\<lambda>choice.
     Inr \<lparr>wire_reader = r, wire_candidate = b, wire_sequence = n, wire_opponent = opponent, wire_choice = choice\<rparr>)))))"

definition parse_choice :: "rstring \<Rightarrow> (codec_error, comparison_choice) outcome" where
  "parse_choice s =
     (if s = lit ''prefer_candidate'' then Inr PreferCandidate
      else if s = lit ''prefer_opponent'' then Inr PreferOpponent
      else if s = lit ''skip'' then Inr Skip
      else err (InvalidField ''choice''))"

definition parse_kind :: "'t library \<Rightarrow> rstring \<Rightarrow> wire_data \<Rightarrow> (codec_error, event_kind) outcome" where
  "parse_kind L ty payload =
     (if ty = lit ''bookranking.placement.started.v1'' then Inr PlacementStarted
      else if ty = lit ''bookranking.comparison.answered.v1'' then
        and_then (required (wire_opponent payload) ''opponentBookId'') (\<lambda>text.
        and_then (parse_uuid L text ''opponentBookId'') (\<lambda>opponent.
        and_then (required (wire_choice payload) ''choice'') (\<lambda>text.
        and_then (parse_choice text) (\<lambda>choice.
        Inr (ComparisonAnswered opponent choice)))))
      else if ty = lit ''bookranking.placement.paused.v1'' then Inr PlacementPaused
      else if ty = lit ''bookranking.placement.resumed.v1'' then Inr PlacementResumed
      else err (UnsupportedEventType ty))"

definition object_data :: "event_data option \<Rightarrow> (codec_error, json_map) outcome" where
  "object_data d = (case d of
       Some (JsonData (JObject data)) \<Rightarrow> Inr data
     | None \<Rightarrow> err (MissingField ''data'')
     | _ \<Rightarrow> err (InvalidField ''data''))"

definition decode_payload :: "'t library \<Rightarrow> envelope \<Rightarrow> event_id \<Rightarrow> instant \<Rightarrow> wire_data \<Rightarrow> (codec_error, document) outcome" where
  "decode_payload L v i t payload =
     and_then (required (wire_reader payload) ''readerId'') (\<lambda>text.
     and_then (parse_uuid L text ''readerId'') (\<lambda>r.
     and_then (required (wire_candidate payload) ''candidateBookId'') (\<lambda>text.
     and_then (parse_uuid L text ''candidateBookId'') (\<lambda>b.
     and_then (required (wire_sequence payload) ''sequence'') (\<lambda>text.
     and_then (parse_sequence text) (\<lambda>n.
     if env_source v \<noteq> source_of L r then err (InvalidField ''source'')
     else if env_subject v \<noteq> Some (subject_of L b) then err (InvalidField ''subject'')
     else if (case bt_get (env_extensions v) (lit ''sequence'') of
         Some x \<Rightarrow> x \<noteq> ExtString (padded n) | None \<Rightarrow> False) then err (InvalidExtension (lit ''sequence''))
     else
     and_then (parse_kind L (env_type v) payload) (\<lambda>k.
     Inr \<lparr>doc_event = \<lparr>metadata = \<lparr>meta_id = i, meta_reader = r, meta_sequence = n, meta_time = t\<rparr>,
         candidate = b, kind = k\<rparr>, doc_envelope = v\<rparr>)))))))"

definition decode_envelope :: "'t library \<Rightarrow> envelope \<Rightarrow> (codec_error, document) outcome" where
  "decode_envelope L v =
     and_then (parse_uuid L (env_id v) ''id'') (\<lambda>i.
     and_then (ok_or (Err (MissingField ''time'')) (env_time v)) (\<lambda>t.
     if \<not> valid_utc_time L t then err (InvalidField ''time'')
     else
     and_then (object_data (env_data v)) (\<lambda>data.
     and_then (wire_data_of data) (\<lambda>payload.
     decode_payload L v i t payload))))"

definition decode_event :: "'t library \<Rightarrow> 't \<Rightarrow> (codec_error, document) outcome" where
  "decode_event L text =
     and_then (ok_or (Err MalformedJson) (Option.bind (read_json L text) strict)) (\<lambda>value.
     and_then (parse_envelope L value) (decode_envelope L))"

definition try_from_envelope :: "'t library \<Rightarrow> envelope \<Rightarrow> (codec_error, document) outcome" where
  "try_from_envelope L v = and_then (encode_wire L v) (decode_event L)"

end
