(* ===== verification/Book_Theorems.thy ===== *)
theory Book_Theorems imports Book_Command begin

text \<open>
  The properties of the book rankings, each with its application to a sample history: three books
  of one reader, placed by comparisons.
\<close>

section \<open>A sample history\<close>

definition sample_event :: "nat \<Rightarrow> book_id \<Rightarrow> event_kind \<Rightarrow> ranking_event" where
  "sample_event n cand k =
     \<lparr>metadata = \<lparr>meta_id = 1000 + n, meta_reader = 100, meta_sequence = n, meta_time = int n\<rparr>,
      candidate = cand, kind = k\<rparr>"

definition sample_placed :: "ranking_event list" where
  "sample_placed =
     [sample_event 1 1 PlacementStarted, sample_event 2 2 PlacementStarted,
      sample_event 3 2 (ComparisonAnswered 1 PreferCandidate)]"

definition entry :: "book_id \<Rightarrow> instant \<Rightarrow> ranking_entry" where
  "entry b t = \<lparr>entry_book = b, added_at = t\<rparr>"

definition placed_state :: ranking_projection where
  "placed_state = \<lparr>reader_id = 100, revision = 3, entries = [entry 2 3, entry 1 1], pending = None,
     seen_event_ids = {1001, 1002, 1003}\<rparr>"

named_theorems rank_exec \<open>the operations, for the evaluation of closed terms\<close>

lemmas [rank_exec] = ranking_apply_def apply_kind_def apply_started_def apply_answer_def apply_pause_def
  apply_resume_def settle_answer_def next_opponent_def usize_sub_def abs_diff_def vec_insert_def
  checked_succ_def u64_max_def index_def sample_event_def entry_def Let_def upt_rec

lemma placed_replay: "ranking_replay 100 sample_placed = Inr placed_state"
  by (simp add: ranking_replay_def sample_placed_def empty_projection_def rank_exec)
    (simp add: placed_state_def entry_def insert_commute)

definition started_state :: ranking_projection where
  "started_state = placed_state
     \<lparr>revision := 4, seen_event_ids := {1001, 1002, 1003, 1004}, pending := Some
       \<lparr>session_candidate = 3, lo = 0, hi = 2, skipped = {}, paused = False, started_at = 4, last_activity_at = 4\<rparr>\<rparr>"

lemma started_run: "ranking_apply placed_state (sample_event 4 3 PlacementStarted) = Inr started_state"
  by (simp add: placed_state_def rank_exec) (simp add: started_state_def placed_state_def entry_def insert_commute)

definition sample_answers :: "ranking_event list" where
  "sample_answers =
     [sample_event 5 3 (ComparisonAnswered 2 PreferOpponent), sample_event 6 3 (ComparisonAnswered 1 PreferCandidate)]"

definition ranked_state :: ranking_projection where
  "ranked_state = \<lparr>reader_id = 100, revision = 6, entries = [entry 2 3, entry 3 6, entry 1 1], pending = None,
     seen_event_ids = {1001, 1002, 1003, 1004, 1005, 1006}\<rparr>"

lemma answers_run: "try_fold ranking_apply started_state sample_answers = Inr ranked_state"
  by (simp add: sample_answers_def started_state_def placed_state_def rank_exec)
    (simp add: ranked_state_def entry_def insert_commute)

definition sample_ranked :: "ranking_event list" where
  "sample_ranked = sample_placed @ sample_event 4 3 PlacementStarted # sample_answers"

lemma ranked_replay: "ranking_replay 100 sample_ranked = Inr ranked_state"
  using placed_replay started_run answers_run
  by (simp add: ranking_replay_def sample_ranked_def try_fold_append)

section \<open>The projection\<close>

lemma ranking_replay_wf: "ranking_replay r es = Inr s \<Longrightarrow> wf_ranking s"
  using ranking_source.replay_inv unfolding ranking_replay_def by blast

definition history_of :: "reader_id \<Rightarrow> ranking_event list \<Rightarrow> ranking_projection \<Rightarrow> bool" where
  "history_of r es s \<longleftrightarrow> reader_id s = r \<and> revision s = length es \<and>
     map (meta_sequence \<circ> metadata) es = [1..<length es + 1] \<and>
     distinct (map (meta_id \<circ> metadata) es) \<and> seen_event_ids s = set (map (meta_id \<circ> metadata) es) \<and>
     (\<forall>e \<in> set es. meta_reader (metadata e) = r)"

lemma history_of_step: "history_of r es s \<Longrightarrow> ranking_apply s e = Inr s' \<Longrightarrow> history_of r (es @ [e]) s'"
  by (auto simp: history_of_def ranking_apply_Inr_iff kind_frame)

lemma replay_history_of:
  assumes "ranking_replay r es = Inr s"
  shows "history_of r es s"
proof (rule ranking_source.replay_induct [where r = r and P = "history_of r"])
  show "try_fold ranking_apply (empty_projection r) es = Inr s" using assms by (simp add: ranking_replay_def)
  show "history_of r [] (empty_projection r)" by (simp add: history_of_def empty_projection_def)
  show "history_of r (es @ [e]) s'" if "ranking_apply s e = Inr s'" "history_of r es s" for es s e s'
    using that(2,1) by (rule history_of_step)
qed

text \<open>Every history that replays gives a well-formed ranking: no book is ranked twice, a pending
  book is not ranked yet, its search interval is not empty and lies inside the ranking, and unless
  the session is paused there is an opponent left to ask about. The events are numbered from one
  without gaps, have distinct identifiers and belong to the reader, and the revision counts them.\<close>

theorem books_replay_well_formed:
  assumes "ranking_replay r es = Inr s"
  shows "wf_ranking s \<and> history_of r es s"
  using assms ranking_replay_wf replay_history_of by blast

theorem books_replay_well_formed_witness:
  "wf_ranking ranked_state \<and> revision ranked_state = length sample_ranked"
  using books_replay_well_formed [OF ranked_replay] by (simp add: history_of_def)

text \<open>C31: The ranking is correct: if every recorded answer agrees with a transitive preference, then
  after any history the ranked books are sorted by that preference, the books before the search
  interval of a pending book are preferred to it, and it is preferred to the books after.\<close>

theorem books_ranking_is_sorted:
  assumes "transp better" "list_all (truthful better) es" "ranking_replay r es = Inr s"
  shows "sorted_wrt better (books s) \<and>
    (\<forall>p. pending s = Some p \<longrightarrow>
      (\<forall>b \<in> set (take (lo p) (books s)). better b (session_candidate p)) \<and>
      (\<forall>b \<in> set (drop (hi p) (books s)). better (session_candidate p) b))"
proof -
  have "wf_ranking s \<and> in_order better s"
  proof (rule try_fold_inv [where I = "\<lambda>s. wf_ranking s \<and> in_order better s"])
    show "try_fold ranking_apply (empty_projection r) es = Inr s" using assms(3) by (simp add: ranking_replay_def)
    show "wf_ranking (empty_projection r) \<and> in_order better (empty_projection r)"
      by (simp add: wf_empty) (simp add: in_order_def empty_projection_def books_def)
    show "wf_ranking s' \<and> in_order better s'"
      if e: "e \<in> set es" "wf_ranking s \<and> in_order better s" "ranking_apply s e = Inr s'" for s e s'
    proof
      show "wf_ranking s'" using e(2,3) ranking_apply_wf by blast
      from e(3) obtain t where t: "apply_kind s e = Inr t"
        "s' = t\<lparr>revision := revision s + 1, seen_event_ids := insert (meta_id (metadata e)) (seen_event_ids s)\<rparr>"
        by (auto simp: ranking_apply_Inr_iff)
      have "truthful better e" using e(1) assms(2) by (simp add: list_all_iff)
      then show "in_order better s'" using kind_in_order [OF _ _ assms(1) t(1)] e(2) t(2) by simp
    qed
  qed
  then show ?thesis by (simp add: in_order_def searched_def)
qed

theorem books_ranking_is_sorted_witness:
  "sorted_wrt (\<lambda>a b. a \<in> {2, 3} \<and> b = 1 \<or> a = 2 \<and> b = (3::nat)) (books ranked_state) \<and> books ranked_state = [2, 3, 1]"
proof -
  let ?better = "\<lambda>a b. a \<in> {2, 3} \<and> b = 1 \<or> a = 2 \<and> b = (3::nat)"
  have "transp ?better" by (rule transpI) auto
  moreover have "list_all (truthful ?better) sample_ranked"
    by (simp add: sample_ranked_def sample_placed_def sample_answers_def sample_event_def truthful_def)
  ultimately show ?thesis
    using books_ranking_is_sorted [OF _ _ ranked_replay] by (simp add: ranked_state_def books_def entry_def)
qed

lemma settles_by_insertion:
  assumes "wf_ranking s" "ranking_apply s e = Inr s'" "is_answer e" "length (entries s') \<noteq> length (entries s)"
  shows "pending s' = None"
  using assms
  by (auto simp: ranking_apply_Inr_iff apply_kind_def apply_answer_def is_answer_def settle_answer_def Let_def
      result_simps split: if_splits)

lemma run_halves:
  assumes "wf_ranking s" "fresh_session s d" "list_all is_answer es" "try_fold ranking_apply s es = Inr t"
  shows "(\<exists>d'. fresh_session t d' \<and> 2 ^ length es * d' \<le> d) \<or>
    pending t = None \<and> length (entries t) = length (entries s) + 1 \<and> 2 ^ (length es - 1) \<le> d \<and> es \<noteq> []"
  using assms
proof (induction es arbitrary: s d)
  case Nil
  then show ?case by auto
next
  case (Cons e es)
  then obtain s1 where s1: "ranking_apply s e = Inr s1" "try_fold ranking_apply s1 es = Inr t"
    by (auto simp: result_simps)
  have wf1: "wf_ranking s1" using ranking_apply_wf [OF Cons.prems(1) s1(1)] .
  have answer: "is_answer e" "list_all is_answer es" using Cons.prems(3) by simp_all
  have d: "0 < d" using Cons.prems(1,2) by (auto simp: fresh_session_def wf_ranking_def wf_session_def)
  from answer_halves [OF Cons.prems(1,2) s1(1) answer(1)] show ?case
  proof (elim disjE exE conjE)
    fix d1 assume d1: "fresh_session s1 d1" "2 * d1 \<le> d"
    have same: "length (entries s1) = length (entries s)"
    proof (rule ccontr)
      assume "length (entries s1) \<noteq> length (entries s)"
      then have "pending s1 = None"
        using s1(1) answer(1) settles_by_insertion [OF Cons.prems(1)] by blast
      with d1(1) show False by (simp add: fresh_session_def)
    qed
    from Cons.IH [OF wf1 d1(1) answer(2) s1(2)] show ?case
    proof (elim disjE exE conjE)
      fix d' assume "fresh_session t d'" "2 ^ length es * d' \<le> d1"
      then have "2 ^ length (e # es) * d' \<le> d" using d1(2) by simp
      with \<open>fresh_session t d'\<close> show ?case by blast
    next
      assume "pending t = None" "length (entries t) = length (entries s1) + 1" "2 ^ (length es - 1) \<le> d1" "es \<noteq> []"
      moreover from this have "(2::nat) ^ length es = 2 * 2 ^ (length es - 1)"
        by (cases es) simp_all
      ultimately show ?case using same d1(2) by simp
    qed
  next
    assume "pending s1 = None" "length (entries s1) = length (entries s) + 1"
    moreover have "es = []"
    proof (cases es)
      case (Cons e' es')
      then show ?thesis using s1(2) idle_answer \<open>pending s1 = None\<close> answer(2) by (auto simp: result_simps)
    qed simp
    ultimately show ?case using s1(2) d by auto
  qed
qed

text \<open>C32: The search is a binary search: from the start of a placement into a ranking of \<open>n\<close> books,
  any run of accepted answers without a skip has at most \<open>log2 n + 1\<close> answers, and as soon as
  \<open>2 ^ k > n\<close> for the number \<open>k\<close> of answers the book is placed.\<close>

theorem books_search_is_logarithmic:
  assumes "wf_ranking s" "kind e = PlacementStarted" "entries s \<noteq> []" "ranking_apply s e = Inr s1"
    and "list_all is_answer es" "try_fold ranking_apply s1 es = Inr t"
  shows "2 ^ (length es - 1) \<le> length (entries s) \<and>
    (length (entries s) < 2 ^ length es \<longrightarrow> pending t = None \<and> length (entries t) = length (entries s) + 1)"
proof -
  have s1: "fresh_session s1 (length (entries s))" "entries s1 = entries s"
    using assms(2,3,4) by (auto simp: ranking_apply_Inr_iff apply_kind_def apply_started_def fresh_session_def
        split: if_splits)
  from run_halves [OF ranking_apply_wf [OF assms(1,4)] s1(1) assms(5,6)] show ?thesis
  proof (elim disjE exE conjE)
    fix d' assume d': "fresh_session t d'" "2 ^ length es * d' \<le> length (entries s)"
    have "wf_ranking t" using ranking_source.run_inv [OF ranking_apply_wf [OF assms(1,4)] assms(6)] .
    with d'(1) have "0 < d'" by (auto simp: fresh_session_def wf_ranking_def wf_session_def)
    then have "2 ^ length es \<le> 2 ^ length es * d'" by simp
    then have "2 ^ length es \<le> length (entries s)" using d'(2) by linarith
    moreover have "(2::nat) ^ (length es - 1) \<le> 2 ^ length es" by (rule power_increasing) simp_all
    ultimately show ?thesis by (auto simp del: power_increasing_iff)
  qed (simp add: s1(2))
qed

theorem books_search_is_logarithmic_witness:
  "2 ^ (length sample_answers - 1) \<le> length (entries placed_state)"
proof -
  have "wf_ranking placed_state" using ranking_replay_wf placed_replay by blast
  moreover have "kind (sample_event 4 3 PlacementStarted) = PlacementStarted" by (simp add: sample_event_def)
  moreover have "entries placed_state \<noteq> []" by (simp add: placed_state_def)
  moreover have "list_all is_answer sample_answers"
    by (simp add: sample_answers_def sample_event_def is_answer_def)
  ultimately show ?thesis using books_search_is_logarithmic started_run answers_run by blast
qed

text \<open>C33: The next opponent is the one the documentation describes: while a placement is active it is
  the book in the search interval, not skipped, whose index is closest to the midpoint, the lower
  index on a tie; without an active placement there is none. The call never panics.\<close>

theorem books_next_opponent_is_closest:
  assumes "wf_ranking s"
  shows "\<exists>chosen. (next_opponent s :: (replay_error_reason, book_id option) outcome) = Inr chosen \<and>
    (case pending s of
       None \<Rightarrow> chosen = None
     | Some p \<Rightarrow>
        if paused p then chosen = None
        else \<exists>j. chosen = Some (books s ! j) \<and> lo p \<le> j \<and> j < hi p \<and> books s ! j \<notin> skipped p \<and>
          (\<forall>i. lo p \<le> i \<and> i < hi p \<and> books s ! i \<notin> skipped p \<longrightarrow>
             abs_diff j (probe p) < abs_diff i (probe p) \<or>
             abs_diff j (probe p) = abs_diff i (probe p) \<and> j \<le> i))"
proof (cases "\<exists>p. pending s = Some p \<and> \<not> paused p")
  case True
  then obtain p where p: "pending s = Some p" "\<not> paused p" by blast
  from next_opponent_active [OF assms this] obtain j where
    "(next_opponent s :: (replay_error_reason, book_id option) outcome) = Inr (Some (books s ! j))"
    "j \<in> set (open_indices s p)" "\<forall>i \<in> set (open_indices s p). distance p j \<le> distance p i" by metis
  then show ?thesis
    using p by (fastforce simp: open_indices_def distance_def less_eq_prod_def intro!: exI [of _ j])
next
  case False
  then show ?thesis by (cases "pending s") (auto simp: next_opponent_idle)
qed

theorem books_next_opponent_is_closest_witness:
  "\<exists>j. (next_opponent started_state :: (replay_error_reason, book_id option) outcome) =
     Inr (Some (books started_state ! j)) \<and> j < 2"
proof -
  have "wf_ranking started_state"
    using ranking_apply_wf [OF ranking_replay_wf [OF placed_replay] started_run] .
  from books_next_opponent_is_closest [OF this] show ?thesis by (auto simp: started_state_def)
qed

section \<open>Commands\<close>

lemma next_sequence_Inr_iff: "next_sequence n = Inr k \<longleftrightarrow> k = n + 1 \<and> n < u64_max"
  by (auto simp: next_sequence_def sequence_new_def successor_def result_simps u64_max_def split: if_splits)

lemma no_panic_map_reason: "no_panic r \<Longrightarrow> no_panic (map_err transition_error r)"
  by (rule no_panic_map_err) (simp_all add: transition_error_def)

lemma no_panic_decided:
  assumes "wf_ranking s"
  shows "no_panic (ranking_decide s registry ctx c)"
proof -
  have "no_panic (next_sequence n)" for n
    by (simp add: next_sequence_def sequence_new_def successor_def)
  moreover have "no_panic (command_kind s registry c)"
    by (cases c) (simp_all add: pending_candidate_def)
  moreover have "no_panic (map_err transition_error (ranking_apply s e))" for e
    by (rule no_panic_map_reason) (rule no_panic_ranking_apply [OF assms])
  ultimately show ?thesis by (simp add: ranking_decide_def Let_def split: prod.split)
qed

lemma ranking_decide_applies:
  "ranking_decide s registry ctx c = Inr e \<Longrightarrow>
    expected_revision ctx = revision s \<and> (\<exists>s'. ranking_apply s e = Inr s')"
  by (auto simp: ranking_decide_def Let_def result_simps split: if_splits)

text \<open>On a well-formed ranking no event and no command panics: every subtraction, index and
  insertion is in range, the selected opponent is found, and every rejection is an error value.\<close>

theorem books_never_panic:
  assumes "wf_ranking s"
  shows "no_panic (ranking_apply s e) \<and> no_panic (ranking_decide s registry ctx c)"
  using no_panic_ranking_apply [OF assms] no_panic_decided [OF assms] by blast

theorem books_never_panic_witness:
  "no_panic (ranking_apply started_state (sample_event 5 3 (ComparisonAnswered 7 Skip)))"
  using books_never_panic [OF ranking_apply_wf [OF ranking_replay_wf [OF placed_replay] started_run]] by blast

definition consistent :: "ranking \<Rightarrow> bool" where
  "consistent r \<longleftrightarrow> ranking_replay (reader_id (projection r)) (history r) = Inr (projection r)"

text \<open>The aggregate refines replay: a ranking is created consistent, its projection being what its
  history replays to, and every command keeps it consistent. An accepted command appends exactly
  the event it returns, numbered with the next revision; a rejected one changes nothing. Rebuilding
  the ranking from the history gives the same ranking.\<close>

theorem books_execute_refines_replay:
  assumes "consistent r"
  shows "let (r', result) = execute r registry ctx c in
    consistent r' \<and> reader_id (projection r') = reader_id (projection r) \<and>
    ranking_from_history (reader_id (projection r')) (history r') = Inr r' \<and>
    (case result of
       Inr e \<Rightarrow> history r' = history r @ [e] \<and> meta_id (metadata e) = ctx_event_id ctx \<and>
         meta_sequence (metadata e) = expected_revision ctx + 1 \<and>
         revision (projection r') = revision (projection r) + 1
     | Inl f \<Rightarrow> r' = r \<and> f \<noteq> Panic)"
proof (cases "ranking_decide (projection r) registry ctx c")
  case (Inl f)
  have "wf_ranking (projection r)" using assms ranking_replay_wf by (simp add: consistent_def)
  then have "f \<noteq> Panic" using no_panic_decided [of "projection r" registry ctx c] Inl by (simp add: no_panic_def)
  then show ?thesis
    using Inl assms by (simp add: execute_def consistent_def ranking_from_history_def)
next
  case (Inr e)
  from ranking_decide_applies [OF this] obtain s' where s': "ranking_apply (projection r) e = Inr s'"
    and ctx: "expected_revision ctx = revision (projection r)" by blast
  have "meta_id (metadata e) = ctx_event_id ctx"
    using Inr by (auto simp: ranking_decide_def Let_def result_simps split: if_splits)
  moreover have "reader_id s' = reader_id (projection r)" "revision s' = revision (projection r) + 1"
    "meta_sequence (metadata e) = revision (projection r) + 1"
    using s' by (auto simp: ranking_apply_Inr_iff kind_frame)
  moreover have "ranking_replay (reader_id (projection r)) (history r @ [e]) = Inr s'"
    using assms s' by (simp add: consistent_def ranking_replay_def try_fold_append)
  ultimately show ?thesis
    using Inr s' ctx by (simp add: execute_def consistent_def ranking_from_history_def)
qed

definition sample_registry :: book_registry where
  "sample_registry = fst (register (fst (register empty_registry \<lparr>book_id = 1, work_id = lit ''OL1W''\<rparr>))
     \<lparr>book_id = 3, work_id = lit ''OL3W''\<rparr>)"

theorem books_execute_refines_replay_witness:
  "ranking_from_history 100 sample_placed = Inr \<lparr>history = sample_placed, projection = placed_state\<rparr> \<and>
   consistent (fst (execute \<lparr>history = sample_placed, projection = placed_state\<rparr> sample_registry
     \<lparr>expected_revision = 3, ctx_event_id = 1004, ctx_time = 4\<rparr> (Start 3)))"
proof -
  have c: "consistent \<lparr>history = sample_placed, projection = placed_state\<rparr>"
    using placed_replay by (simp add: consistent_def placed_state_def)
  show ?thesis
    using books_execute_refines_replay [OF c, of sample_registry
        "\<lparr>expected_revision = 3, ctx_event_id = 1004, ctx_time = 4\<rparr>" "Start 3"] placed_replay
    by (auto simp: ranking_from_history_def Let_def split: prod.splits)
qed

text \<open>Concurrent writers cannot both win: two decisions taken on the same projection cannot both be
  recorded, because after the first is applied the second one, and every decision that still
  expects the old revision, is refused.\<close>

theorem books_concurrent_decisions_conflict:
  assumes "ranking_decide s registry1 ctx1 c1 = Inr e1" "ranking_decide s registry2 ctx2 c2 = Inr e2"
    and "ranking_apply s e1 = Inr s'" "revision s' < u64_max"
  shows "ranking_apply s' e2 =
      err \<lparr>attempted_sequence = meta_sequence (metadata e2), reason = SequenceMismatch (revision s' + 1)\<rparr> \<and>
    ranking_decide s' registry2 ctx2 c2 = err (StaleRevision (revision s) (revision s'))"
proof -
  have s': "revision s' = revision s + 1" "reader_id s' = reader_id s"
    using assms(3) by (auto simp: ranking_apply_Inr_iff kind_frame)
  obtain s2 where s2: "ranking_apply s e2 = Inr s2" and ctx2: "expected_revision ctx2 = revision s"
    using ranking_decide_applies [OF assms(2)] by blast
  then have "meta_sequence (metadata e2) = revision s + 1" "meta_reader (metadata e2) = reader_id s"
    by (auto simp: ranking_apply_Inr_iff)
  then show ?thesis
    using s' assms(4) ctx2
    by (simp add: ranking_apply_def Let_def checked_succ_def at_sequence_def ranking_decide_def)
qed

lemma sample_decisions:
  "ranking_decide placed_state sample_registry \<lparr>expected_revision = 3, ctx_event_id = 1004, ctx_time = 4\<rparr> (Start 3) =
     Inr (sample_event 4 3 PlacementStarted)"
proof -
  have "registry_get sample_registry 3 \<noteq> None"
    by (simp add: sample_registry_def register_def empty_registry_def registry_get_def)
  moreover have "next_sequence 3 = Inr 4" by (simp add: next_sequence_Inr_iff u64_max_def)
  moreover have "revision placed_state = 3" "reader_id placed_state = 100" by (simp_all add: placed_state_def)
  ultimately show ?thesis
    using started_run by (simp add: ranking_decide_def Let_def sample_event_def)
qed

theorem books_concurrent_decisions_conflict_witness:
  "ranking_decide started_state sample_registry \<lparr>expected_revision = 3, ctx_event_id = 1004, ctx_time = 4\<rparr> (Start 3) =
     err (StaleRevision 3 4)"
  using books_concurrent_decisions_conflict [OF sample_decisions sample_decisions started_run]
  by (simp add: started_state_def placed_state_def u64_max_def)

section \<open>Notices\<close>

lemma position_Some:
  "distinct (map f xs) \<Longrightarrow> b \<in> set (map f xs) \<Longrightarrow>
    \<exists>i < length xs. position (\<lambda>e. f e = b) xs = Some i \<and> map f xs ! i = b"
proof -
  assume "distinct (map f xs)" "b \<in> set (map f xs)"
  moreover from this obtain i where "i < length xs" "b = f (xs ! i)" by (auto simp: in_set_conv_nth)
  ultimately show ?thesis using position_nth [of f xs i] by auto
qed

lemma kind_books:
  assumes wf: "wf_ranking s" and step: "apply_kind s e = Inr s'"
  shows "entries s' = entries s \<or>
    length (entries s') = length (entries s) + 1 \<and> candidate e \<in> set (books s') \<and> candidate e \<notin> set (books s)"
proof (cases "kind e")
  case PlacementStarted
  with step show ?thesis
    by (auto simp: apply_kind_def apply_started_def list_ex_book books_def split: if_splits)
next
  case (ComparisonAnswered opponent choice)
  with step have "apply_answer s (candidate e) (meta_time (metadata e)) opponent choice = Inr s'"
    by (simp add: apply_kind_def)
  then show ?thesis
  proof (rule answer_cases [OF wf])
    fix p j assume p: "wf_session s p" "session_candidate p = candidate e" "\<not> paused p"
      and j: "opponent = books s ! j" "lo p \<le> j" "j < hi p"
      and settle: "settle_answer s ((narrow p j opponent choice)\<lparr>last_activity_at := meta_time (metadata e)\<rparr>)
        (candidate e) (meta_time (metadata e)) = Inr s'"
    note ok = narrow_interval_ok [OF p(1,3) j(2,3,1), where choice = choice and now = "meta_time (metadata e)"]
    show ?thesis
      using settle settle_answer_eq [OF ok] ok p(1,2) by (auto simp: books_def wf_session_def interval_ok_def split: if_splits)
  qed
qed (use step in \<open>auto simp: apply_kind_def apply_pause_def apply_resume_def result_simps split: if_splits\<close>)

text \<open>The notices of an accepted event are right and never panic: one ranked notice with the place
  of the book in the new ranking exactly when the event added it, one automatic-pause notice
  exactly when an answer left nothing to ask, and none otherwise.\<close>

theorem books_notices_are_right:
  assumes "wf_ranking s" "ranking_apply s e = Inr s'"
  shows "\<exists>notices. (derive_notices s e s' :: (replay_error_reason, domain_notice list) outcome) = Inr notices \<and>
    (if entries s' \<noteq> entries s
     then \<exists>i < length (entries s'). books s' ! i = candidate e \<and> candidate e \<notin> set (books s) \<and>
       notices = [BookRanked (metadata e) (candidate e) i (length (entries s'))]
     else if (\<exists>opponent choice. kind e = ComparisonAnswered opponent choice) \<and> (\<exists>p. pending s' = Some p \<and> paused p)
     then notices = [PlacementAutomaticallyPaused (metadata e) (candidate e) NoEligibleOpponents]
     else notices = [])"
proof -
  from assms(2) obtain t where t: "apply_kind s e = Inr t" and s': "entries s' = entries t" "pending s' = pending t"
    by (auto simp: ranking_apply_Inr_iff)
  have same: "books s' = books t" by (simp add: books_def s')
  show ?thesis
  proof (cases "entries t = entries s")
    case True
    have "\<exists>p. pending s = Some p \<and> \<not> paused p" if "kind e = ComparisonAnswered opponent choice" for opponent choice
      using t that by (auto simp: apply_kind_def apply_answer_def result_simps split: if_splits)
    with True show ?thesis
      by (auto simp: derive_notices_def s' split: event_kind.splits option.splits)
  next
    case False
    then have new: "length (entries t) = length (entries s) + 1" "candidate e \<in> set (books t)"
      "candidate e \<notin> set (books s)" using kind_books [OF assms(1) t] by auto
    have "distinct (books t)" using kind_wf [OF assms(1) t] by (simp add: wf_ranking_def)
    with new(2) obtain i where "i < length (entries t)" "books t ! i = candidate e"
      "position (\<lambda>x. entry_book x = candidate e) (entries t) = Some i"
      using position_Some [of entry_book "entries t" "candidate e"] by (auto simp: books_def)
    with False new show ?thesis by (simp add: derive_notices_def s' same)
  qed
qed

theorem books_notices_are_right_witness:
  "(derive_notices placed_state (sample_event 4 3 PlacementStarted) started_state
     :: (replay_error_reason, domain_notice list) outcome) = Inr []"
  using books_notices_are_right [OF ranking_replay_wf [OF placed_replay] started_run]
  by (simp add: sample_event_def started_state_def)

section \<open>Identities\<close>

definition registry_ok :: "book_registry \<Rightarrow> bool" where
  "registry_ok r \<longleftrightarrow>
     (\<forall>i b. by_id r i = Some b \<longrightarrow> book_id b = i \<and> by_work_id r (work_id b) = Some i) \<and>
     (\<forall>w i. by_work_id r w = Some i \<longrightarrow> (\<exists>b. by_id r i = Some b \<and> work_id b = w))"

text \<open>The registry stays a one-to-one correspondence between book IDs and work IDs. A registration
  succeeds exactly when it repeats a known mapping or both its IDs are new; then the book is found
  under its ID, repeating it changes nothing, and every other book is found as before; a refused
  registration changes nothing.\<close>

theorem books_registry_is_one_to_one:
  assumes "registry_ok r"
  shows "let (r', result) = register r b in
    registry_ok r' \<and>
    (result = Inr () \<longleftrightarrow> registry_get r (book_id b) = Some b \<or>
       registry_get r (book_id b) = None \<and> by_work_id r (work_id b) = None) \<and>
    (if result = Inr ()
     then registry_get r' (book_id b) = Some b \<and> register r' b = (r', Inr ()) \<and>
       (\<forall>i. i \<noteq> book_id b \<longrightarrow> registry_get r' i = registry_get r i)
     else r' = r)"
proof (cases "by_id r (book_id b)")
  case None
  then show ?thesis
    using assms by (auto simp: register_def registry_get_def registry_ok_def) (metis option.distinct(1))+
next
  case (Some b')
  then show ?thesis
    using assms by (auto simp: register_def registry_get_def)
qed

theorem books_registry_is_one_to_one_witness:
  "registry_ok sample_registry"
proof -
  let ?a = "\<lparr>book_id = 1, work_id = lit ''OL1W''\<rparr>" and ?b = "\<lparr>book_id = 3, work_id = lit ''OL3W''\<rparr>"
  have "registry_ok empty_registry" by (simp add: registry_ok_def empty_registry_def)
  from books_registry_is_one_to_one [OF this, of ?a] have "registry_ok (fst (register empty_registry ?a))"
    by (auto simp: Let_def split: prod.splits)
  from books_registry_is_one_to_one [OF this, of ?b] show ?thesis
    by (auto simp: Let_def sample_registry_def split: prod.splits)
qed

text \<open>A text is an Open Library work ID exactly when it is \<open>OL\<close>, the canonical decimal of a
  positive number, and \<open>W\<close>; parsing keeps the text, and distinct numbers have distinct work IDs.\<close>

theorem books_work_id_grammar:
  "(work_id_try_from value = Inr w \<longleftrightarrow>
     w = value \<and> (\<exists>n > 0. value = lit ''OL'' @ show_nat n @ lit ''W'')) \<and>
   (lit ''OL'' @ show_nat m @ lit ''W'' = lit ''OL'' @ show_nat n @ lit ''W'' \<longleftrightarrow> m = n)"
  using work_id_try_from_Inr_iff show_nat_inj by auto

end
