(* ===== verification/Book_Wire.thy ===== *)
theory Book_Wire imports Book_Codec Book_Theorems begin

text \<open>
  Ranking events survive their CloudEvents form: a decoded event is the one that was encoded, a
  decoded document keeps the context that its sender attached, and a decoder accepts nothing but
  what agrees with the event it returns.
\<close>

section \<open>Values\<close>

lemma strict_map_lists:
  "bt_invar m \<Longrightarrow> distinct (map fst ms) \<Longrightarrow> fst ` set m \<inter> fst ` set ms = {} \<Longrightarrow>
   (\<And>k v. (k, v) \<in> set ms \<Longrightarrow> strict v = Some v) \<Longrightarrow>
   \<exists>m'. strict_map m ms = Some m' \<and> bt_invar m' \<and> bt_get m' = bt_get m ++ map_of ms"
proof (induction ms arbitrary: m)
  case (Cons kv ms)
  obtain k v where kv: "kv = (k, v)" by (cases kv)
  have k: "k \<notin> fst ` set m" "k \<notin> fst ` set ms" using Cons.prems(2,3) kv by auto
  then have new: "\<not> bt_contains m k" by (simp add: bt_contains_def map_of_eq_None_iff)
  obtain m' where m': "strict_map (bt_insert k v m) ms = Some m'" "bt_invar m'"
      "bt_get m' = bt_get (bt_insert k v m) ++ map_of ms"
  proof -
    have "distinct (map fst ms)" "fst ` set (bt_insert k v m) \<inter> fst ` set ms = {}"
      using Cons.prems(2,3) kv k by (auto simp: set_bt_insert_keys)
    moreover have "strict v' = Some v'" if "(k', v') \<in> set ms" for k' v'
      using Cons.prems(4) [of k' v'] that by simp
    ultimately show thesis using Cons.IH [OF bt_invar_insert [OF Cons.prems(1)]] that by blast
  qed
  have "bt_get m' = bt_get m ++ map_of (kv # ms)"
    unfolding m'(3) bt_get_insert [OF Cons.prems(1)]
    using k(2) by (simp add: kv map_add_upd_left dom_map_of_conv_image_fst) (simp add: fun_upd_def)
  moreover have "strict_map m (kv # ms) = Some m'" using new m'(1) Cons.prems(4) [of k v] by (simp add: kv)
  ultimately show ?case using m'(2) by blast
qed simp

text \<open>A value is read as itself.\<close>

lemma strict_is_value: "is_value v \<Longrightarrow> strict v = Some v"
proof (induction v)
  case (JNumber n)
  then show ?case by (cases n) simp_all
next
  case (JArray vs)
  have "list_all is_value ws \<Longrightarrow> set ws \<subseteq> set vs \<Longrightarrow> strict_seq ws = Some ws" for ws
    using JArray.IH by (induction ws) auto
  with JArray.prems show ?case by simp
next
  case (JObject ms)
  have "strict v = Some v" if "(k, v) \<in> set ms" for k v
    using JObject.IH [of "(k, v)" v] JObject.prems that by (auto simp: list_all_iff)
  moreover have inv: "bt_invar ms" "distinct (map fst ms)" using JObject.prems by (simp_all add: bt_distinct_keys)
  ultimately obtain m' where m': "strict_map [] ms = Some m'" "bt_invar m'" "bt_get m' = map_of ms"
    using strict_map_lists [of "[]" ms] by auto
  from bt_ext [OF m'(2) inv(1) m'(3)] m'(1) show ?case by simp
qed simp_all

lemma is_value_insert:
  "is_value x \<Longrightarrow> bt_invar m \<Longrightarrow> list_all (\<lambda>(k, v). is_value v) m \<Longrightarrow>
    list_all (\<lambda>(k, v). is_value v) (bt_insert k x m)"
  by (auto simp: list_all_iff bt.set_entries_insert)

lemma strict_values:
  "strict v = Some w \<Longrightarrow> is_value w"
  "strict_seq vs = Some ws \<Longrightarrow> list_all is_value ws"
  "strict_map m ms = Some m' \<Longrightarrow> is_value (JObject m) \<Longrightarrow> is_value (JObject m')"
proof (induction v and vs and m ms arbitrary: w and ws and m' rule: strict_strict_seq_strict_map.induct)
qed (auto split: if_splits option.splits simp: is_value_insert)

section \<open>The decoder is strict\<close>

lemma required_Inr [result_simps]: "required x n = Inr s \<longleftrightarrow> x = Some s \<and> s \<noteq> []"
  by (auto simp: required_def result_simps)

lemma parse_uuid_Inr [result_simps]: "parse_uuid L s f = Inr u \<longleftrightarrow> uuid_parse L s = Some u \<and> s = uuid_text L u"
  by (auto simp: parse_uuid_def result_simps)

lemma parse_sequence_Inr [result_simps]:
  "parse_sequence s = Inr n \<longleftrightarrow> s = show_nat n \<and> 0 < n \<and> n \<le> u64_max"
proof
  assume a: "parse_sequence s = Inr n"
  then have "s \<noteq> []" "hd s \<noteq> 48" "list_all is_ascii_digit s" "parse_u64 s = Some n" "n \<noteq> 0"
    by (auto simp: parse_sequence_def result_simps digits_are_ascii sequence_new_def split: if_splits)
  moreover from this have "n = decimal_value s" "n \<le> u64_max"
    by (auto simp: parse_u64_def Let_def is_ascii_digit_def split: if_splits list.splits)
  ultimately show "s = show_nat n \<and> 0 < n \<and> n \<le> u64_max" using show_decimal_value by metis
next
  assume "s = show_nat n \<and> 0 < n \<and> n \<le> u64_max"
  then show "parse_sequence s = Inr n"
    by (simp add: parse_sequence_def show_nat_no_leading_zero digits_are_ascii show_nat_digits parse_u64_show sequence_new_def)
qed

lemma parse_choice_Inr [result_simps]: "parse_choice s = Inr c \<longleftrightarrow> s = choice_text c"
  by (cases c) (auto simp: parse_choice_def)

lemma wire_field_Inr [result_simps]:
  "wire_field data n = Inr x \<longleftrightarrow> (case bt_get data (lit n) of
      None \<Rightarrow> x = None | Some JNull \<Rightarrow> x = None | Some (JString s) \<Rightarrow> x = Some s | Some _ \<Rightarrow> False)"
  by (auto simp: wire_field_def split: option.splits json.splits)

lemma wire_field_Some: "wire_field data n = Inr (Some s) \<longleftrightarrow> bt_get data (lit n) = Some (JString s)"
  by (auto simp: result_simps split: option.splits json.splits)

lemma wire_data_of_Inr [result_simps]:
  "wire_data_of data = Inr w \<longleftrightarrow>
    wire_field data ''readerId'' = Inr (wire_reader w) \<and> wire_field data ''candidateBookId'' = Inr (wire_candidate w) \<and>
    wire_field data ''sequence'' = Inr (wire_sequence w) \<and> wire_field data ''opponentBookId'' = Inr (wire_opponent w) \<and>
    wire_field data ''choice'' = Inr (wire_choice w)"
  by (cases w) (auto simp: wire_data_of_def and_then_Inr_iff)

lemma object_data_Inr [result_simps]: "object_data d = Inr m \<longleftrightarrow> d = Some (JsonData (JObject m))"
  by (auto simp: object_data_def split: option.splits event_data.splits json.splits)

text \<open>What an accepted payload says of the kind of the event.\<close>

definition kind_payload :: "'t library \<Rightarrow> event_kind \<Rightarrow> wire_data \<Rightarrow> bool" where
  "kind_payload L k w = (case k of
       ComparisonAnswered opponent choice \<Rightarrow>
         wire_opponent w = Some (uuid_text L opponent) \<and> uuid_text L opponent \<noteq> [] \<and>
         uuid_parse L (uuid_text L opponent) = Some opponent \<and> wire_choice w = Some (choice_text choice)
     | _ \<Rightarrow> True)"

lemma choice_text_nonempty: "choice_text c \<noteq> []"
  by (cases c) simp_all

lemma parse_kind_Inr [result_simps]:
  "parse_kind L ty w = Inr k \<longleftrightarrow> ty = event_type k \<and> kind_payload L k w"
  by (cases k) (auto simp: parse_kind_def kind_payload_def result_simps choice_text_nonempty)

definition accepted :: "'t library \<Rightarrow> envelope \<Rightarrow> ranking_event \<Rightarrow> bool" where
  "accepted L v e \<longleftrightarrow>
     env_id v = uuid_text L (meta_id (metadata e)) \<and> env_source v = source_of L (meta_reader (metadata e)) \<and>
     env_type v = event_type (kind e) \<and> env_subject v = Some (subject_of L (candidate e)) \<and>
     env_time v = Some (meta_time (metadata e)) \<and> valid_utc_time L (meta_time (metadata e)) \<and>
     0 < meta_sequence (metadata e) \<and> meta_sequence (metadata e) \<le> u64_max \<and>
     bt_get (env_extensions v) (lit ''sequence'') \<in> {None, Some (ExtString (padded (meta_sequence (metadata e))))} \<and>
     (\<exists>data. env_data v = Some (JsonData (JObject data)) \<and> bt_get (event_payload L e) \<subseteq>\<^sub>m bt_get data)"

lemma common_data_invar [simp]: "bt_invar (common_data L m b)"
  by (simp add: common_data_def del: bt_insert.simps)

lemma common_data_get:
  "bt_get (common_data L m b) = [lit ''readerId'' \<mapsto> JString (uuid_text L (meta_reader m)),
     lit ''candidateBookId'' \<mapsto> JString (uuid_text L b), lit ''sequence'' \<mapsto> JString (show_nat (meta_sequence m))]"
  by (simp add: common_data_def fun_eq_iff del: bt_insert.simps lit_simps)

lemma event_payload_invar [simp]: "bt_invar (event_payload L e)"
  by (simp add: event_payload_def Let_def del: bt_insert.simps split: event_kind.splits)

lemma event_payload_get:
  "bt_get (event_payload L e) = (case kind e of
     ComparisonAnswered opponent choice \<Rightarrow> (bt_get (common_data L (metadata e) (candidate e)))
       (lit ''opponentBookId'' \<mapsto> JString (uuid_text L opponent), lit ''choice'' \<mapsto> JString (choice_text choice))
   | _ \<Rightarrow> bt_get (common_data L (metadata e) (candidate e)))"
  by (simp add: event_payload_def Let_def fun_eq_iff del: bt_insert.simps lit_simps split: event_kind.splits)

lemma map_le_upd: "f k = None \<Longrightarrow> f(k \<mapsto> v) \<subseteq>\<^sub>m g \<longleftrightarrow> f \<subseteq>\<^sub>m g \<and> g k = Some v"
  by (auto simp: map_le_def dom_def split: if_splits)

lemma event_payload_le:
  "bt_get (event_payload L e) \<subseteq>\<^sub>m bt_get data \<longleftrightarrow>
    bt_get data (lit ''readerId'') = Some (JString (uuid_text L (meta_reader (metadata e)))) \<and>
    bt_get data (lit ''candidateBookId'') = Some (JString (uuid_text L (candidate e))) \<and>
    bt_get data (lit ''sequence'') = Some (JString (show_nat (meta_sequence (metadata e)))) \<and>
    (case kind e of
       ComparisonAnswered opponent choice \<Rightarrow>
         bt_get data (lit ''opponentBookId'') = Some (JString (uuid_text L opponent)) \<and>
         bt_get data (lit ''choice'') = Some (JString (choice_text choice))
     | _ \<Rightarrow> True)"
proof -
  have 1: "bt_get (common_data L (metadata e) (candidate e)) \<subseteq>\<^sub>m bt_get data \<longleftrightarrow>
    bt_get data (lit ''readerId'') = Some (JString (uuid_text L (meta_reader (metadata e)))) \<and>
    bt_get data (lit ''candidateBookId'') = Some (JString (uuid_text L (candidate e))) \<and>
    bt_get data (lit ''sequence'') = Some (JString (show_nat (meta_sequence (metadata e))))"
    unfolding common_data_get by (subst map_le_upd, simp)+ simp
  show ?thesis
  proof (cases "kind e")
    case (ComparisonAnswered opponent choice)
    have 2: "bt_get (event_payload L e) \<subseteq>\<^sub>m bt_get data \<longleftrightarrow>
      bt_get (common_data L (metadata e) (candidate e)) \<subseteq>\<^sub>m bt_get data \<and>
      bt_get data (lit ''opponentBookId'') = Some (JString (uuid_text L opponent)) \<and>
      bt_get data (lit ''choice'') = Some (JString (choice_text choice))"
      unfolding event_payload_get ComparisonAnswered event_kind.case
      by (subst map_le_upd, simp add: common_data_get)+ blast
    show ?thesis unfolding 2 1 ComparisonAnswered by simp
  qed (simp_all only: event_payload_get event_kind.case 1 simp_thms)
qed

lemma decode_payload_Inr:
  "decode_payload L v i t w = Inr d \<longleftrightarrow> doc_envelope d = v \<and>
    (\<exists>r b n k. doc_event d = \<lparr>metadata = \<lparr>meta_id = i, meta_reader = r, meta_sequence = n, meta_time = t\<rparr>, candidate = b, kind = k\<rparr> \<and>
      wire_reader w = Some (uuid_text L r) \<and> uuid_text L r \<noteq> [] \<and> uuid_parse L (uuid_text L r) = Some r \<and>
      wire_candidate w = Some (uuid_text L b) \<and> uuid_text L b \<noteq> [] \<and> uuid_parse L (uuid_text L b) = Some b \<and>
      wire_sequence w = Some (show_nat n) \<and> 0 < n \<and> n \<le> u64_max \<and>
      env_source v = source_of L r \<and> env_subject v = Some (subject_of L b) \<and>
      bt_get (env_extensions v) (lit ''sequence'') \<in> {None, Some (ExtString (padded n))} \<and>
      env_type v = event_type k \<and> kind_payload L k w)"
  by (cases d; cases "bt_get (env_extensions v) (lit ''sequence'')")
    (auto simp: decode_payload_def result_simps simp del: lit_simps split: if_splits)

text \<open>The UUIDs of an event have to be read as themselves.\<close>

definition uuid_ok :: "'t library \<Rightarrow> nat \<Rightarrow> bool" where
  "uuid_ok L u \<longleftrightarrow> uuid_parse L (uuid_text L u) = Some u \<and> uuid_text L u \<noteq> []"

definition uuids_ok :: "'t library \<Rightarrow> ranking_event \<Rightarrow> bool" where
  "uuids_ok L e \<longleftrightarrow> uuid_parse L (uuid_text L (meta_id (metadata e))) = Some (meta_id (metadata e)) \<and>
     uuid_ok L (meta_reader (metadata e)) \<and> uuid_ok L (candidate e) \<and>
     (\<forall>opponent choice. kind e = ComparisonAnswered opponent choice \<longrightarrow> uuid_ok L opponent)"

definition plain_data :: "json_map \<Rightarrow> bool" where
  "plain_data data \<longleftrightarrow> (\<forall>name \<in> {''opponentBookId'', ''choice''}. \<exists>x. wire_field data name = (Inr x :: (codec_error, rstring option) outcome))"

lemma decode_envelope_accepted:
  assumes "decode_envelope L v = Inr d"
  shows "doc_envelope d = v" "accepted L v (doc_event d)" "uuids_ok L (doc_event d)"
proof -
  from assms obtain i t data w where d: "uuid_parse L (env_id v) = Some i" "env_id v = uuid_text L i"
      "env_time v = Some t" "valid_utc_time L t" "env_data v = Some (JsonData (JObject data))" "wire_data_of data = Inr w"
      "decode_payload L v i t w = Inr d"
    by (auto simp: decode_envelope_def result_simps split: if_splits)
  from d(7) obtain r b n k where e: "doc_envelope d = v"
      "doc_event d = \<lparr>metadata = \<lparr>meta_id = i, meta_reader = r, meta_sequence = n, meta_time = t\<rparr>, candidate = b, kind = k\<rparr>"
      "wire_reader w = Some (uuid_text L r)" "uuid_ok L r" "wire_candidate w = Some (uuid_text L b)" "uuid_ok L b"
      "wire_sequence w = Some (show_nat n)" "0 < n" "n \<le> u64_max"
      "env_source v = source_of L r" "env_subject v = Some (subject_of L b)"
      "bt_get (env_extensions v) (lit ''sequence'') \<in> {None, Some (ExtString (padded n))}"
      "env_type v = event_type k" "kind_payload L k w"
    unfolding decode_payload_Inr uuid_ok_def by blast
  have payload: "bt_get (event_payload L (doc_event d)) \<subseteq>\<^sub>m bt_get data"
    using d(6) e(3,5,7,14) unfolding event_payload_le e(2) wire_data_of_Inr
    by (auto simp: wire_field_Some kind_payload_def simp del: lit_simps split: event_kind.splits)
  show "doc_envelope d = v" by (rule e(1))
  show "accepted L v (doc_event d)" using d e payload by (simp add: accepted_def del: lit_simps)
  show "uuids_ok L (doc_event d)" using d(1,2) e(4,6,14) by (auto simp: e(2) uuids_ok_def kind_payload_def uuid_ok_def)
qed

lemma decode_envelope_Inr:
  assumes "accepted L v e" "uuids_ok L e"
    and data: "env_data v = Some (JsonData (JObject data))" "plain_data data"
  shows "decode_envelope L v = Inr \<lparr>doc_event = e, doc_envelope = v\<rparr>"
proof -
  from data(2) obtain opponent choice where w: "wire_field data ''opponentBookId'' = (Inr opponent :: (codec_error, rstring option) outcome)"
      "wire_field data ''choice'' = (Inr choice :: (codec_error, rstring option) outcome)" by (auto simp: plain_data_def)
  have payload: "bt_get (event_payload L e) \<subseteq>\<^sub>m bt_get data" using assms(1) data(1) by (auto simp: accepted_def)
  define W where "W = \<lparr>wire_reader = Some (uuid_text L (meta_reader (metadata e))), wire_candidate = Some (uuid_text L (candidate e)),
    wire_sequence = Some (show_nat (meta_sequence (metadata e))), wire_opponent = opponent, wire_choice = choice\<rparr>"
  have W: "wire_data_of data = Inr W"
    using payload w unfolding event_payload_le by (simp add: wire_data_of_Inr W_def wire_field_Some del: lit_simps)
  have kind: "kind_payload L (kind e) W"
  proof (cases "kind e")
    case (ComparisonAnswered opponent' choice')
    with payload have "wire_field data ''opponentBookId'' = (Inr (Some (uuid_text L opponent')) :: (codec_error, rstring option) outcome)"
      "wire_field data ''choice'' = (Inr (Some (choice_text choice')) :: (codec_error, rstring option) outcome)"
      unfolding event_payload_le by (simp_all add: wire_field_Some del: lit_simps)
    with w assms(2) ComparisonAnswered show ?thesis by (simp add: kind_payload_def W_def uuids_ok_def uuid_ok_def)
  qed (simp_all add: kind_payload_def)
  have "decode_payload L v (meta_id (metadata e)) (meta_time (metadata e)) W = Inr \<lparr>doc_event = e, doc_envelope = v\<rparr>"
    using assms(1,2) kind unfolding decode_payload_Inr
    by (intro conjI exI [of _ "meta_reader (metadata e)"] exI [of _ "candidate e"] exI [of _ "meta_sequence (metadata e)"] exI [of _ "kind e"])
      (simp_all add: accepted_def uuids_ok_def uuid_ok_def W_def del: lit_simps)
  then show ?thesis
    using assms(1,2) data(1) W by (simp add: decode_envelope_def accepted_def uuids_ok_def parse_uuid_def object_data_def)
qed

section \<open>The libraries\<close>

fun extension_json :: "extension \<Rightarrow> json" where
  "extension_json (ExtString s) = JString s"
| "extension_json (ExtBool b) = JBool b"
| "extension_json (ExtInteger n) = JNumber (JInt n)"

text \<open>The members of the JSON form that the CloudEvents specification gives an event.\<close>

definition optional_member :: "string \<Rightarrow> rstring option \<Rightarrow> (rstring \<times> json) list" where
  "optional_member name s = (case s of None \<Rightarrow> [] | Some s \<Rightarrow> [(lit name, JString s)])"

definition members_of :: "'t library \<Rightarrow> envelope \<Rightarrow> (rstring \<times> json) list" where
  "members_of L v =
     [(lit ''specversion'', JString (lit ''1.0'')), (lit ''id'', JString (env_id v)),
      (lit ''type'', JString (env_type v)), (lit ''source'', JString (env_source v))] @
     optional_member ''datacontenttype'' (env_content_type v) @ optional_member ''dataschema'' (env_schema v) @
     optional_member ''subject'' (env_subject v) @ optional_member ''time'' (map_option (time_text L) (env_time v)) @
     (case env_data v of Some (JsonData d) \<Rightarrow> [(lit ''data'', d)] | _ \<Rightarrow> []) @
     map (\<lambda>(name, x). (name, extension_json x)) (env_extensions v)"

definition extension_lookup :: "envelope \<Rightarrow> rstring \<Rightarrow> json option" where
  "extension_lookup v name = map_option extension_json (bt_get (env_extensions v) name)"

text \<open>
  JSON that comes back from a text as it was: \<open>serde_json\<close> reads 128 levels at most, integers of 64 bits
  exactly, and fractional numbers not necessarily (without its feature \<open>float_roundtrip\<close>).
\<close>

fun plain_json :: "nat \<Rightarrow> json \<Rightarrow> bool" where
  "plain_json n (JNumber (JDouble bits)) = False"
| "plain_json n (JNumber (JInt i)) = (- (2 ^ 63) \<le> i \<and> i < 2 ^ 64)"
| "plain_json 0 (JArray vs) = False"
| "plain_json (Suc n) (JArray vs) = list_all (plain_json n) vs"
| "plain_json 0 (JObject ms) = False"
| "plain_json (Suc n) (JObject ms) = list_all (\<lambda>(k, v). plain_json n v) ms"
| "plain_json n v = True"

text \<open>An event with a JSON form: its names are distinct, its data is JSON.\<close>

definition portable :: "'t library \<Rightarrow> envelope \<Rightarrow> bool" where
  "portable L v \<longleftrightarrow> bt_invar (env_extensions v) \<and> (\<forall>name \<in> fst ` set (env_extensions v). name \<notin> set known_attributes) \<and>
     env_content_type v = Some (lit ''application/json'') \<and>
     (\<exists>data. env_data v = Some (JsonData (JObject data)) \<and> is_value (JObject data) \<and> plain_json 100 (JObject data)) \<and>
     (\<forall>t. env_time v = Some t \<longrightarrow> valid_utc_time L t)"

text \<open>What the SDK has read: the attributes as they are, the schema as a URL, the other members as extensions.\<close>

definition reads :: "'t library \<Rightarrow> json_map \<Rightarrow> envelope \<Rightarrow> bool" where
  "reads L m v \<longleftrightarrow> bt_get m (lit ''id'') = Some (JString (env_id v)) \<and> bt_get m (lit ''type'') = Some (JString (env_type v)) \<and>
     bt_get m (lit ''source'') = Some (JString (env_source v)) \<and>
     bt_get m (lit ''subject'') = map_option JString (env_subject v) \<and>
     bt_get m (lit ''datacontenttype'') = map_option JString (env_content_type v) \<and>
     env_schema v = Option.bind (Option.bind (bt_get m (lit ''dataschema'')) as_str) (url_parse L) \<and>
     env_data v = map_option JsonData (bt_get m (lit ''data'')) \<and>
     bt_invar (env_extensions v) \<and>
     (\<forall>name. extension_lookup v name = (if name \<in> set known_attributes then None else bt_get m name))"

section \<open>Envelopes\<close>

lemma known_names: "set known_attributes = {lit ''specversion'', lit ''id'', lit ''source'', lit ''type'', lit ''subject'',
    lit ''time'', lit ''datacontenttype'', lit ''dataschema'', lit ''data''}"
  unfolding known_attributes_def required_attributes_def by (simp del: lit_simps)

text \<open>The context: every extension is acceptable, and a trace has a parent.\<close>

definition context_ok :: "(rstring \<Rightarrow> json option) \<Rightarrow> bool" where
  "context_ok m \<longleftrightarrow> (\<forall>name x. m name = Some x \<longrightarrow> validate_extension (name, x) = Inr ()) \<and>
     (\<forall>name \<in> {lit ''traceparent'', lit ''tracestate''}. m name \<noteq> None \<longrightarrow> (\<exists>c s. m name = Some (JString (c # s)))) \<and>
     (m (lit ''tracestate'') \<noteq> None \<longrightarrow> m (lit ''traceparent'') \<noteq> None)"

lemma try_fold_units: "try_fold (\<lambda>_. f) () xs = Inr u \<longleftrightarrow> (\<forall>x \<in> set xs. f x = Inr ())"
  by (induction xs) (auto simp: and_then_Inr_iff)

lemma context_checked:
  assumes "bt_invar m"
  shows "validate_extensions m = Inr u \<and> validate_trace_context m = Inr u' \<longleftrightarrow> context_ok (bt_get m)"
proof -
  have "validate_extensions m = Inr u \<longleftrightarrow> (\<forall>name x. bt_get m name = Some x \<longrightarrow> validate_extension (name, x) = Inr ())"
    unfolding validate_extensions_def try_fold_units using bt.entries_get [OF assms] by auto
  moreover have "validate_trace_context m = Inr u' \<longleftrightarrow>
     (\<forall>name \<in> {lit ''traceparent'', lit ''tracestate''}. bt_get m name \<noteq> None \<longrightarrow> (\<exists>c s. bt_get m name = Some (JString (c # s)))) \<and>
     (bt_get m (lit ''tracestate'') \<noteq> None \<longrightarrow> bt_get m (lit ''traceparent'') \<noteq> None)"
    unfolding validate_trace_context_def and_then_Inr_iff try_fold_units bt_contains_def
    by (auto simp del: lit_simps split: option.splits json.splits list.splits)
  ultimately show ?thesis by (simp add: context_ok_def del: lit_simps)
qed

lemma bt_invar_filter: "bt_invar m \<Longrightarrow> bt_invar (filter P m)"
  by (induction m) (auto simp: bt_invar_Cons)

lemma bt_get_filter:
  "bt_invar m \<Longrightarrow> bt_get (filter P m) k = (case bt_get m k of Some x \<Rightarrow> if P (k, x) then Some x else None | None \<Rightarrow> None)"
proof (induction m)
  case (Cons x m)
  have "bt_get (filter P m) (fst x) = None"
    using Cons.prems by (auto simp: bt_invar_Cons map_of_eq_None_iff)
  with Cons show ?case by (cases x) (auto simp: bt_invar_Cons split: option.splits)
qed simp

definition without_nulls :: "json_map \<Rightarrow> json_map" where
  "without_nulls m = filter (\<lambda>(_, v). v \<noteq> JNull) m"

text \<open>The members that an acceptable envelope must have.\<close>

definition envelope_ok :: "'t library \<Rightarrow> (rstring \<Rightarrow> json option) \<Rightarrow> bool" where
  "envelope_ok L m \<longleftrightarrow> m (lit ''data_base64'') = None \<and>
     (\<forall>name \<in> set required_attributes. \<exists>c s. m (lit name) = Some (JString (c # s))) \<and>
     m (lit ''specversion'') = Some (JString (lit ''1.0'')) \<and>
     m (lit ''datacontenttype'') = Some (JString (lit ''application/json'')) \<and>
     (\<forall>x. m (lit ''dataschema'') = Some x \<longrightarrow> (\<exists>s. x = JString s \<and> valid_absolute_uri L s)) \<and>
     context_ok (m |` (- set known_attributes))"

lemma check_required_Inr:
  "check_required m name = Inr u \<longleftrightarrow> (\<exists>c s. bt_get m (lit name) = Some (JString (c # s)))"
  by (auto simp: check_required_def split: option.splits json.splits list.splits)

lemma parse_envelope_Inr:
  assumes "bt_invar m"
  shows "parse_envelope L (JObject m) = Inr v \<longleftrightarrow>
    bt_get m (lit ''data_base64'') = None \<and> envelope_ok L (bt_get (without_nulls m)) \<and> read_event L (without_nulls m) = Some v"
proof -
  let ?f = "without_nulls m"
  have inv: "bt_invar ?f" using assms by (simp add: without_nulls_def bt_invar_filter)
  let ?x = "filter (\<lambda>(name, _). name \<notin> set known_attributes) ?f"
  have "bt_get ?x = bt_get ?f |` (- set known_attributes)"
    by (auto simp: fun_eq_iff bt_get_filter [OF inv] restrict_map_def split: option.splits)
  then have ctx: "validate_extensions ?x = Inr u \<and> validate_trace_context ?x = Inr u' \<longleftrightarrow>
      context_ok (bt_get ?f |` (- set known_attributes))" for u u'
    using context_checked [OF bt_invar_filter [OF inv]] by simp
  have base64: "bt_get m (lit ''data_base64'') = None \<Longrightarrow> bt_get ?f (lit ''data_base64'') = None"
    by (simp add: without_nulls_def bt_get_filter [OF assms])
  show ?thesis
    unfolding parse_envelope_def json.case Let_def without_nulls_def [symmetric] envelope_ok_def and_then_Inr_iff
      try_fold_units check_required_Inr bt_contains_def ok_or_Inr_iff
    using ctx base64
    by (auto simp: and_then_Inr_iff try_fold_units check_required_Inr ok_or_Inr_iff simp del: lit_simps split: if_splits option.splits json.splits)
qed

lemma lit_eq_iff: "lit a = lit b \<longleftrightarrow> a = b"
  by (simp add: lit_def inj_def)

lemma portable_extensions:
  assumes "portable L v" "name \<in> set known_attributes"
  shows "bt_get (env_extensions v) name = None"
  using assms by (auto simp: portable_def map_of_eq_None_iff simp del: lit_simps)

lemma members_lookup:
  assumes "portable L v"
  shows "map_of (members_of L v) name =
    (if name = lit ''specversion'' then Some (JString (lit ''1.0''))
     else if name = lit ''id'' then Some (JString (env_id v))
     else if name = lit ''source'' then Some (JString (env_source v))
     else if name = lit ''type'' then Some (JString (env_type v))
     else if name = lit ''subject'' then map_option JString (env_subject v)
     else if name = lit ''time'' then map_option (JString \<circ> time_text L) (env_time v)
     else if name = lit ''datacontenttype'' then map_option JString (env_content_type v)
     else if name = lit ''dataschema'' then map_option JString (env_schema v)
     else if name = lit ''data'' then (case env_data v of Some (JsonData d) \<Rightarrow> Some d | _ \<Rightarrow> None)
     else extension_lookup v name)"
proof -
  have ext: "map_of (map (\<lambda>(name, x). (name, extension_json x)) (env_extensions v)) = extension_lookup v"
    by (simp add: extension_lookup_def fun_eq_iff map_of_map comp_def)
  have opt: "map_of (optional_member a s) = (\<lambda>name. if name = lit a then map_option JString s else None)" for a s
    by (cases s) (auto simp: optional_member_def simp del: lit_simps)
  have data: "map_of (case env_data v of Some (JsonData d) \<Rightarrow> [(lit ''data'', d)] | _ \<Rightarrow> []) =
      (\<lambda>name. if name = lit ''data'' then (case env_data v of Some (JsonData d) \<Rightarrow> Some d | _ \<Rightarrow> None) else None)"
    by (auto simp del: lit_simps split: option.splits event_data.splits)
  have "extension_lookup v name = None" if "name \<in> set known_attributes"
    using portable_extensions [OF assms that] by (simp add: extension_lookup_def)
  then show ?thesis
    unfolding members_of_def map_of_append ext opt data known_names
    by (auto simp: map_add_def lit_eq_iff option.map_comp simp del: lit_simps split: option.splits)
qed

lemma members_are_values:
  assumes "portable L v" "map_of (members_of L v) name = Some x"
  shows "is_value x" "x \<noteq> JNull"
proof -
  have "is_value (extension_json y) \<and> extension_json y \<noteq> JNull" for y by (cases y) simp_all
  with assms show "is_value x" "x \<noteq> JNull"
    by (auto simp: members_lookup extension_lookup_def portable_def simp del: lit_simps split: if_splits option.splits)
qed

text \<open>The required attributes are there, and the schema is a URL in its normal form.\<close>

definition attributes_ok :: "'t library \<Rightarrow> envelope \<Rightarrow> bool" where
  "attributes_ok L v \<longleftrightarrow> env_id v \<noteq> [] \<and> env_source v \<noteq> [] \<and> env_type v \<noteq> [] \<and>
     (\<exists>s. env_subject v = Some s \<and> s \<noteq> []) \<and> (\<exists>t. env_time v = Some t) \<and>
     (\<forall>s. env_schema v = Some s \<longrightarrow> valid_absolute_uri L s \<and> url_parse L s = Some s)"

section \<open>What the libraries promise\<close>

text \<open>
  The promises are about what this codec hands over and accepts: an envelope in the profile has valid
  extensions, among them no attribute and no \<open>data_base64\<close>, a subject, a time and plain data; the SDK
  builds an event from the attributes that \<open>base_envelope\<close> sets; it reads what the checks let through.
\<close>

definition in_profile :: "'t library \<Rightarrow> envelope \<Rightarrow> bool" where
  "in_profile L v \<longleftrightarrow> portable L v \<and> attributes_ok L v \<and> context_ok (extension_lookup v)"

definition buildable :: "'t library \<Rightarrow> envelope \<Rightarrow> bool" where
  "buildable L v \<longleftrightarrow> env_id v \<noteq> [] \<and> env_type v \<noteq> [] \<and> (\<exists>r. env_source v = source_of L r) \<and>
     (\<exists>b. env_subject v = Some (subject_of L b)) \<and> (\<exists>t. env_time v = Some t \<and> valid_utc_time L t) \<and>
     env_content_type v = Some (lit ''application/json'') \<and> env_schema v = None \<and>
     (\<exists>data. env_data v = Some (JsonData (JObject data))) \<and> env_extensions v = []"

definition faithful :: "'t library \<Rightarrow> bool" where
  "faithful L \<longleftrightarrow>
     (\<forall>u < 2 ^ 128. uuid_parse L (uuid_text L u) = Some u) \<and>
     (\<forall>u. uuid_text L u \<noteq> [] \<and> list_all (\<lambda>c. is_ascii_hexdigit c \<or> c = 45) (uuid_text L u)) \<and>
     (\<forall>t. valid_utc_time L t \<longrightarrow> time_text L t \<noteq> []) \<and>
     (\<forall>s s'. url_parse L s = Some s' \<longrightarrow> url_parse L s' = Some s') \<and>
     (\<forall>v. buildable L v \<longrightarrow> build_event L v = Some v) \<and>
     (\<forall>v. in_profile L v \<longrightarrow> (\<exists>text ms. write_event L v = Some text \<and> read_json L text = Some (JObject ms) \<and>
        distinct (map fst ms) \<and> map_of ms = map_of (members_of L v))) \<and>
     (\<forall>v m. in_profile L v \<longrightarrow> bt_invar m \<longrightarrow> bt_get m = map_of (members_of L v) \<longrightarrow> read_event L m = Some v) \<and>
     (\<forall>v m. is_value (JObject m) \<longrightarrow> JNull \<notin> snd ` set m \<longrightarrow> envelope_ok L (bt_get m) \<longrightarrow>
        read_event L m = Some v \<longrightarrow> reads L m v)"

lemma faithfulD:
  assumes "faithful L"
  shows "uuid_text L u \<noteq> []" "valid_utc_time L t \<Longrightarrow> time_text L t \<noteq> []" "buildable L v \<Longrightarrow> build_event L v = Some v"
    "url_parse L s = Some s' \<Longrightarrow> url_parse L s' = Some s'"
  using assms unfolding faithful_def by blast+

text \<open>What is written is read again, as the same envelope.\<close>

lemma decode_written:
  assumes faithful: "faithful L" and profile: "in_profile L v" and ok: "envelope_ok L (map_of (members_of L v))"
  shows "\<exists>text. encode_wire L v = Inr text \<and> decode_event L text = decode_envelope L v"
proof -
  have v: "portable L v" using profile by (simp add: in_profile_def)
  from faithful profile obtain t ms where wire: "write_event L v = Some t" "read_json L t = Some (JObject ms)"
      "distinct (map fst ms)" "map_of ms = map_of (members_of L v)"
    unfolding faithful_def by meson
  have "strict x = Some x" if "(k, x) \<in> set ms" for k x
    using map_of_is_SomeI [OF wire(3) that] wire(4) members_are_values(1) [OF v] strict_is_value by simp
  then obtain m where m: "strict_map [] ms = Some m" "bt_invar m" "bt_get m = map_of (members_of L v)"
    using strict_map_lists [of "[]" ms] wire(3,4) by auto
  have nulls: "without_nulls m = m"
    unfolding without_nulls_def filter_id_conv using members_are_values(2) [OF v] bt.entries_get [OF m(2)] m(3) by auto
  have "read_event L m = Some v"
    using faithful profile m(2,3) unfolding faithful_def by meson
  then have "parse_envelope L (JObject m) = Inr v"
    using ok m(3) nulls by (simp add: parse_envelope_Inr [OF m(2)] envelope_ok_def del: lit_simps)
  then show ?thesis using wire m(1) by (simp add: encode_wire_def decode_event_def)
qed

text \<open>The sequence extension.\<close>

lemma padded_digits: "list_all is_ascii_digit (padded n)"
  using show_nat_digits [of n] by (auto simp: padded_def list_all_iff is_ascii_digit_def)

lemma sequence_extension_valid: "validate_extension (lit ''sequence'', JString (padded n)) = Inr ()"
proof -
  have "\<not> invalid_context_string (padded n)"
    using padded_digits [of n] by (auto simp: invalid_context_string_def list_all_iff list_ex_iff is_ascii_digit_def)
  then show ?thesis
    by (simp add: validate_extension_def valid_extension_name_def utf8_ascii is_ascii_lowercase_def)
qed

lemma set_sequence_simps [simp]:
  "env_id (set_sequence e v) = env_id v" "env_source (set_sequence e v) = env_source v" "env_type (set_sequence e v) = env_type v"
  "env_subject (set_sequence e v) = env_subject v" "env_time (set_sequence e v) = env_time v"
  "env_content_type (set_sequence e v) = env_content_type v" "env_schema (set_sequence e v) = env_schema v"
  "env_data (set_sequence e v) = env_data v"
  "env_extensions (set_sequence e v) =
    bt_insert (lit ''sequence'') (ExtString (padded (meta_sequence (metadata e)))) (env_extensions v)"
  by (simp_all add: set_sequence_def set_extension_def)

lemma portable_set_sequence: "portable L v \<Longrightarrow> portable L (set_sequence e v)"
  by (auto simp: portable_def known_names set_bt_insert_keys lit_eq_iff simp del: lit_simps bt_insert.simps)

lemma extension_lookup_set_sequence:
  "portable L v \<Longrightarrow> extension_lookup (set_sequence e v) =
    (extension_lookup v)(lit ''sequence'' \<mapsto> JString (padded (meta_sequence (metadata e))))"
  by (auto simp: extension_lookup_def portable_def fun_eq_iff simp del: lit_simps bt_insert.simps)

lemma members_context: "portable L v \<Longrightarrow> map_of (members_of L v) |` (- set known_attributes) = extension_lookup v"
  using portable_extensions
  by (fastforce simp: fun_eq_iff restrict_map_def members_lookup known_names extension_lookup_def simp del: lit_simps)

lemma context_ok_upd: "context_ok m \<Longrightarrow> context_ok (m(lit ''sequence'' \<mapsto> JString (padded n)))"
  using sequence_extension_valid by (auto simp: context_ok_def lit_eq_iff simp del: lit_simps)

lemma context_ok_base64:
  assumes "context_ok m"
  shows "m (lit ''data_base64'') = None"
proof (rule ccontr)
  assume "m (lit ''data_base64'') \<noteq> None"
  then obtain x where "m (lit ''data_base64'') = Some x" by blast
  with assms have "validate_extension (lit ''data_base64'', x) = Inr ()" unfolding context_ok_def by blast
  then show False by (simp add: validate_extension_def Let_def del: lit_simps)
qed

lemma members_envelope_ok:
  assumes "faithful L" "in_profile L v"
  shows "envelope_ok L (map_of (members_of L v))"
proof -
  have v: "portable L v" "attributes_ok L v" "context_ok (extension_lookup v)" using assms(2) by (simp_all add: in_profile_def)
  have "time_text L t \<noteq> []" if "env_time v = Some t" for t
    using assms(1) v(1) that by (simp add: faithful_def portable_def)
  moreover have "extension_lookup v (lit ''data_base64'') = None"
    using v(3) by (rule context_ok_base64)
  ultimately show ?thesis
    using v unfolding envelope_ok_def members_context [OF v(1)] required_attributes_def
    by (auto simp: members_lookup lit_eq_iff portable_def attributes_ok_def neq_Nil_conv simp del: lit_simps) simp_all
qed

lemma in_profile_set_sequence:
  assumes "in_profile L v"
  shows "in_profile L (set_sequence e v)"
proof -
  have v: "portable L v" "attributes_ok L v" "context_ok (extension_lookup v)" using assms by (simp_all add: in_profile_def)
  then have "portable L (set_sequence e v)" "attributes_ok L (set_sequence e v)" by (simp_all add: portable_set_sequence attributes_ok_def)
  moreover have "context_ok (extension_lookup (set_sequence e v))"
    using v(3) by (simp add: extension_lookup_set_sequence [OF v(1)] context_ok_upd del: lit_simps)
  ultimately show ?thesis by (simp add: in_profile_def)
qed

lemma envelope_survives:
  assumes "faithful L" "in_profile L v"
  shows "\<exists>text. encode_wire L (set_sequence e v) = Inr text \<and> decode_event L text = decode_envelope L (set_sequence e v)"
  using assms in_profile_set_sequence by (intro decode_written members_envelope_ok)

section \<open>Events\<close>

text \<open>An event whose identifiers and whose number are in the range of their types.\<close>

definition in_range :: "ranking_event \<Rightarrow> bool" where
  "in_range e \<longleftrightarrow> meta_id (metadata e) < 2 ^ 128 \<and> meta_reader (metadata e) < 2 ^ 128 \<and> candidate e < 2 ^ 128 \<and>
     (\<forall>opponent choice. kind e = ComparisonAnswered opponent choice \<longrightarrow> opponent < 2 ^ 128) \<and>
     0 < meta_sequence (metadata e) \<and> meta_sequence (metadata e) \<le> u64_max"

definition plain_envelope :: "'t library \<Rightarrow> ranking_event \<Rightarrow> envelope" where
  "plain_envelope L e =
     \<lparr>env_id = uuid_text L (meta_id (metadata e)), env_source = source_of L (meta_reader (metadata e)),
      env_type = event_type (kind e), env_subject = Some (subject_of L (candidate e)),
      env_time = Some (meta_time (metadata e)), env_content_type = Some (lit ''application/json''), env_schema = None,
      env_data = Some (JsonData (JObject (event_payload L e))), env_extensions = []\<rparr>"

lemma event_type_nonempty: "event_type k \<noteq> []"
  by (cases k) simp_all

lemma to_cloud_event_eq:
  assumes "faithful L" "valid_utc_time L (meta_time (metadata e))"
  shows "to_cloud_event L e = Inr (set_sequence e (plain_envelope L e))"
proof -
  have "buildable L (plain_envelope L e)"
    using assms(2) event_type_nonempty faithfulD(1) [OF assms(1)] by (simp add: buildable_def plain_envelope_def del: lit_simps) blast
  then have "build_event L (plain_envelope L e) = Some (plain_envelope L e)" by (rule faithfulD(3) [OF assms(1)])
  then show ?thesis using assms(2) by (simp add: to_cloud_event_def base_envelope_def plain_envelope_def)
qed

lemma event_payload_value: "is_value (JObject (event_payload L e))"
  by (cases "kind e") (simp_all add: event_payload_def common_data_def Let_def is_value_insert del: bt_insert.simps)

lemma plain_json_insert:
  "plain_json n x \<Longrightarrow> bt_invar m \<Longrightarrow> list_all (\<lambda>(k, v). plain_json n v) m \<Longrightarrow>
    list_all (\<lambda>(k, v). plain_json n v) (bt_insert k x m)"
  by (auto simp: list_all_iff bt.set_entries_insert)

lemma event_payload_plain: "plain_json 100 (JObject (event_payload L e))"
proof -
  have "list_all (\<lambda>(k, v). plain_json 99 v) (event_payload L e)"
    by (cases "kind e") (simp_all add: event_payload_def common_data_def Let_def plain_json_insert del: bt_insert.simps)
  then show ?thesis using plain_json.simps(6) [of 99] by simp
qed

lemma plain_envelope_ok:
  assumes "faithful L" "valid_utc_time L (meta_time (metadata e))"
  shows "in_profile L (plain_envelope L e)"
proof -
  have "portable L (plain_envelope L e)"
    using assms(2) event_payload_value event_payload_plain by (auto simp: portable_def plain_envelope_def simp del: lit_simps plain_json.simps)
  moreover have "context_ok (extension_lookup (plain_envelope L e))"
    by (simp add: context_ok_def extension_lookup_def plain_envelope_def)
  moreover have "attributes_ok L (plain_envelope L e)"
    using assms(1) event_type_nonempty by (simp add: attributes_ok_def plain_envelope_def faithful_def source_of_def subject_of_def)
  ultimately show ?thesis by (simp add: in_profile_def)
qed

lemma in_range_uuids: "faithful L \<Longrightarrow> in_range e \<Longrightarrow> uuids_ok L e"
  by (auto simp: faithful_def in_range_def uuids_ok_def uuid_ok_def)

lemma plain_payload: "plain_data (event_payload L e)"
proof -
  have "\<exists>x. wire_field (event_payload L e) name = Inr x" if "name \<in> {''opponentBookId'', ''choice''}" for name
  proof (cases "bt_get (event_payload L e) (lit name)")
    case (Some v)
    then have "\<exists>s. v = JString s"
      by (auto simp: event_payload_get common_data_get simp del: lit_simps split: event_kind.splits if_splits)
    with Some show ?thesis by (auto simp: wire_field_def)
  qed (simp add: wire_field_def)
  then show ?thesis by (simp add: plain_data_def)
qed

lemma accepted_plain:
  assumes "in_range e" "valid_utc_time L (meta_time (metadata e))"
  shows "accepted L (set_sequence e (plain_envelope L e)) e"
  using assms by (simp add: accepted_def plain_envelope_def in_range_def del: lit_simps)

lemma event_survives:
  assumes "faithful L" "in_range e" "valid_utc_time L (meta_time (metadata e))"
  shows "\<exists>text. encode_event L e = Inr text \<and>
    decode_event L text = Inr \<lparr>doc_event = e, doc_envelope = set_sequence e (plain_envelope L e)\<rparr>"
proof -
  from envelope_survives [OF assms(1) plain_envelope_ok [OF assms(1,3)]]
  obtain t where t: "encode_wire L (set_sequence e (plain_envelope L e)) = Inr t"
    "decode_event L t = decode_envelope L (set_sequence e (plain_envelope L e))" by blast
  have "decode_envelope L (set_sequence e (plain_envelope L e)) = Inr \<lparr>doc_event = e, doc_envelope = set_sequence e (plain_envelope L e)\<rparr>"
    by (rule decode_envelope_Inr [OF accepted_plain [OF assms(2,3)] in_range_uuids [OF assms(1,2)] _ plain_payload])
      (simp add: plain_envelope_def)
  with t show ?thesis using to_cloud_event_eq [OF assms(1,3)] by (simp add: encode_event_def)
qed

text \<open>Another time is refused.\<close>

lemma bad_time_refused:
  "\<not> valid_utc_time L (meta_time (metadata e)) \<Longrightarrow> encode_event L e = err (InvalidField ''time'')"
  by (simp add: encode_event_def to_cloud_event_def base_envelope_def)

section \<open>Documents\<close>

lemma decode_event_Inr:
  assumes "decode_event L text = Inr d"
  obtains m where "is_value (JObject m)" "envelope_ok L (bt_get (without_nulls m))" "bt_get m (lit ''data_base64'') = None"
    "read_event L (without_nulls m) = Some (doc_envelope d)" "decode_envelope L (doc_envelope d) = Inr d"
proof -
  from assms obtain j w v where v: "read_json L text = Some j" "strict j = Some w" "parse_envelope L w = Inr v"
    "decode_envelope L v = Inr d" by (auto simp: decode_event_def result_simps bind_eq_Some_conv)
  from v(3) obtain m where m: "w = JObject m" by (cases w) (auto simp: parse_envelope_def)
  with strict_values(1) [OF v(2)] have inv: "is_value (JObject m)" "bt_invar m" by simp_all
  with v(3) m parse_envelope_Inr [OF inv(2), of L v] v(4) decode_envelope_accepted(1) [OF v(4)] that show thesis by auto
qed

text \<open>
  Documents that can be sent on: the schema, in the normal form that the URL has, is still one that the
  codec accepts, and the data comes back from a text.
\<close>

definition resendable :: "'t library \<Rightarrow> envelope \<Rightarrow> bool" where
  "resendable L v \<longleftrightarrow> (\<forall>s. env_schema v = Some s \<longrightarrow> valid_absolute_uri L s) \<and>
     (\<forall>data. env_data v = Some (JsonData data) \<longrightarrow> plain_json 100 data)"

lemma document_readable:
  assumes faithful: "faithful L" and d: "decode_event L text = Inr d"
    and again: "resendable L (doc_envelope d)"
  shows "in_profile L (doc_envelope d)"
proof -
  let ?v = "doc_envelope d"
  from decode_event_Inr [OF d] obtain m where m: "is_value (JObject m)" "envelope_ok L (bt_get (without_nulls m))"
    "bt_get m (lit ''data_base64'') = None" "read_event L (without_nulls m) = Some ?v" "decode_envelope L ?v = Inr d" .
  define f where "f = without_nulls m"
  have f: "is_value (JObject f)" "JNull \<notin> snd ` set f"
    using m(1) by (auto simp: f_def without_nulls_def bt_invar_filter list_all_iff)
  have ok: "envelope_ok L (bt_get f)" using m(2) by (simp add: f_def)
  then have "reads L f ?v"
    using faithful f m(4) unfolding faithful_def f_def [symmetric] by blast
  note r = this [unfolded reads_def]
  have inv: "bt_invar (env_extensions ?v)" using r by blast
  have lookup: "extension_lookup ?v = bt_get f |` (- set known_attributes)"
    using r by (auto simp: fun_eq_iff restrict_map_def)
  have ctx: "context_ok (extension_lookup ?v)" using ok by (simp add: envelope_ok_def lookup del: lit_simps)
  have acc: "accepted L ?v (doc_event d)" using decode_envelope_accepted(2) [OF m(5)] .
  have names: "name \<notin> set known_attributes" if "name \<in> fst ` set (env_extensions ?v)" for name
  proof -
    have "extension_lookup ?v name \<noteq> None"
      using that by (auto simp: extension_lookup_def map_of_eq_None_iff)
    then show ?thesis by (auto simp: lookup restrict_map_def split: if_splits)
  qed
  from acc obtain data where data: "env_data ?v = Some (JsonData (JObject data))" by (auto simp: accepted_def)
  then have "bt_get f (lit ''data'') = Some (JObject data)" using r by auto
  then have "is_value (JObject data)" using f(1) map_of_SomeD by (fastforce simp: list_all_iff simp del: lit_simps)
  moreover have "env_content_type ?v = Some (lit ''application/json'')"
    using r ok by (auto simp: envelope_ok_def simp del: lit_simps)
  moreover have "plain_json 100 (JObject data)" using again data by (auto simp: resendable_def)
  ultimately have portable: "portable L ?v"
    using inv names data acc by (auto simp: portable_def accepted_def simp del: lit_simps plain_json.simps)
  have schema: "url_parse L s = Some s \<and> valid_absolute_uri L s" if s: "env_schema ?v = Some s" for s
  proof -
    obtain x where "env_schema ?v = Option.bind x (url_parse L)" using r by blast
    with s obtain s0 where "url_parse L s0 = Some s" by (cases x) simp_all
    then have "url_parse L s = Some s" by (rule faithfulD(4) [OF faithful])
    moreover have "valid_absolute_uri L s" using again s unfolding resendable_def by blast
    ultimately show ?thesis ..
  qed
  have "env_id ?v \<noteq> [] \<and> env_source ?v \<noteq> [] \<and> env_type ?v \<noteq> [] \<and> (\<exists>s. env_subject ?v = Some s \<and> s \<noteq> []) \<and> (\<exists>t. env_time ?v = Some t)"
    using acc event_type_nonempty faithfulD(1) [OF faithful] by (simp add: accepted_def source_of_def subject_of_def)
  with schema have "attributes_ok L ?v" unfolding attributes_ok_def by blast
  with portable ctx show ?thesis by (simp add: in_profile_def)
qed

lemma set_sequence_accepted: "accepted L v e \<Longrightarrow> portable L v \<Longrightarrow> accepted L (set_sequence e v) e"
  by (simp add: accepted_def portable_def del: lit_simps bt_insert.simps)

lemma decoded_plain: "decode_envelope L v = Inr d \<Longrightarrow> \<exists>data. env_data v = Some (JsonData (JObject data)) \<and> plain_data data"
  by (auto simp: decode_envelope_def plain_data_def result_simps split: if_splits)

lemma document_survives:
  assumes "faithful L" "decode_event L text = Inr d" "resendable L (doc_envelope d)"
  shows "\<exists>text'. encode_document L d = Inr text' \<and>
    decode_event L text' = Inr (d\<lparr>doc_envelope := set_sequence (doc_event d) (doc_envelope d)\<rparr>)"
proof -
  let ?v = "set_sequence (doc_event d) (doc_envelope d)"
  note readable = document_readable [OF assms]
  from envelope_survives [OF assms(1) readable] obtain t where t: "encode_wire L ?v = Inr t"
    "decode_event L t = decode_envelope L ?v" by blast
  from decode_event_Inr [OF assms(2)] have d: "decode_envelope L (doc_envelope d) = Inr d" by blast
  from decoded_plain [OF d] obtain data where "env_data ?v = Some (JsonData (JObject data))" "plain_data data" by auto
  from decode_envelope_Inr [OF set_sequence_accepted [OF decode_envelope_accepted(2) [OF d] readable [unfolded in_profile_def, THEN conjunct1]]
      decode_envelope_accepted(3) [OF d] this] t show ?thesis by (auto simp: encode_document_def)
qed

section \<open>Notices\<close>

lemma uuid_characters: "faithful L \<Longrightarrow> c \<in> set (uuid_text L u) \<Longrightarrow> is_ascii_hexdigit c \<or> c = 45"
  unfolding faithful_def list_all_iff by blast

text \<open>The numbers of a notice are a \<open>usize\<close>.\<close>

fun notice_in_range :: "domain_notice \<Rightarrow> bool" where
  "notice_in_range (BookRanked _ _ place entry_count) \<longleftrightarrow> place < 2 ^ 64 \<and> entry_count < 2 ^ 64"
| "notice_in_range (PlacementAutomaticallyPaused _ _ _) \<longleftrightarrow> True"

lemma notice_parts_value:
  "notice_parts n d = (suffix, ty, d') \<Longrightarrow> is_value (JObject d) \<Longrightarrow> is_value (JObject d') \<and> ty \<noteq> []"
  by (induction n d rule: notice_parts.induct) (auto simp: is_value_insert simp del: bt_insert.simps)

lemma notice_parts_plain:
  "notice_parts n d = (suffix, ty, d') \<Longrightarrow> notice_in_range n \<Longrightarrow> bt_invar d \<Longrightarrow> list_all (\<lambda>(k, v). plain_json l v) d \<Longrightarrow>
     list_all (\<lambda>(k, v). plain_json l v) d'"
  by (induction n d rule: notice_parts.induct) (auto simp: plain_json_insert simp del: bt_insert.simps)

text \<open>A notice is never read as an event: its identifier is not a UUID.\<close>

lemma notice_refused:
  assumes faithful: "faithful L" and n: "encode_notice L n = Inr text" and range: "notice_in_range n"
  shows "\<exists>text. encode_notice L n = Inr text \<and> decode_event L text = err (InvalidField ''id'')"
proof -
  let ?m = "notice_metadata n" let ?b = "notice_candidate n"
  let ?d = "bt_insert (lit ''causationId'') (JString (uuid_text L (meta_id ?m))) (common_data L ?m ?b)"
  obtain suffix ty d where parts: "notice_parts n ?d = (suffix, ty, d)" by (metis prod.collapse)
  have d: "is_value (JObject d)" "ty \<noteq> []"
    using notice_parts_value [OF parts] by (simp_all add: common_data_def is_value_insert del: bt_insert.simps)
  define v where "v = \<lparr>env_id = uuid_text L (meta_id ?m) @ lit '':'' @ suffix, env_source = source_of L (meta_reader ?m),
    env_type = ty, env_subject = Some (subject_of L ?b), env_time = Some (meta_time ?m),
    env_content_type = Some (lit ''application/json''), env_schema = None, env_data = Some (JsonData (JObject d)), env_extensions = []\<rparr>"
  have time: "valid_utc_time L (meta_time ?m)"
    using n by (auto simp: encode_notice_def Let_def parts base_envelope_def simp del: bt_insert.simps lit_simps split: if_splits)
  have "buildable L v"
    using d(2) time by (auto simp: buildable_def v_def simp del: lit_simps) simp
  then have "build_event L v = Some v" by (rule faithfulD(3) [OF faithful])
  then have enc: "encode_notice L n = encode_wire L v"
    using time by (simp add: encode_notice_def Let_def parts base_envelope_def v_def del: bt_insert.simps lit_simps)
  have "list_all (\<lambda>(k, v). plain_json 99 v) d"
    by (rule notice_parts_plain [OF parts range]) (simp_all add: common_data_def plain_json_insert del: bt_insert.simps)
  then have "plain_json 100 (JObject d)" using plain_json.simps(6) [of 99] by simp
  then have "portable L v" using d(1) time by (auto simp: portable_def v_def simp del: lit_simps plain_json.simps)
  moreover have "attributes_ok L v" using faithful d(2) by (simp add: attributes_ok_def v_def source_of_def subject_of_def)
  moreover have "context_ok (extension_lookup v)" by (simp add: context_ok_def extension_lookup_def v_def)
  ultimately have v: "in_profile L v" by (simp add: in_profile_def)
  obtain t where t: "encode_wire L v = Inr t" "decode_event L t = decode_envelope L v"
    using decode_written [OF faithful v members_envelope_ok [OF faithful v]] by blast
  have "uuid_text L u \<noteq> env_id v" for u
  proof
    assume "uuid_text L u = env_id v"
    moreover have "58 \<notin> set (uuid_text L u)"
      using uuid_characters [OF faithful, of 58 u] by (auto simp: is_ascii_hexdigit_def is_ascii_digit_def)
    ultimately show False by (simp add: v_def)
  qed
  then have "parse_uuid L (env_id v) ''id'' = err (InvalidField ''id'')"
    by (cases "uuid_parse L (env_id v)") (simp_all add: parse_uuid_def)
  then show ?thesis using t enc by (simp add: decode_envelope_def)
qed

section \<open>The order of the sequence extension\<close>

lemma decimal_value_Cons: "decimal_value (c # s) = (c - 48) * 10 ^ length s + decimal_value s"
proof -
  have *: "foldl (\<lambda>n c. 10 * n + (c - 48)) a s = a * 10 ^ length s + foldl (\<lambda>n c. 10 * n + (c - 48)) 0 s" for a
  proof (induction s arbitrary: a)
    case (Cons d s)
    show ?case
      using Cons.IH [of "10 * a + (d - 48)"] Cons.IH [of "d - 48"] by (simp add: add_mult_distrib)
  qed simp
  show ?thesis unfolding decimal_value_def using * [of "c - 48"] by simp
qed

lemma decimal_value_less: "list_all is_ascii_digit s \<Longrightarrow> decimal_value s < 10 ^ length s"
proof (induction s)
  case (Cons c s)
  then have "c - 48 \<le> 9" "decimal_value s < 10 ^ length s" by (auto simp: is_ascii_digit_def)
  then have "(c - 48) * 10 ^ length s + decimal_value s < 9 * 10 ^ length s + 10 ^ length s"
    by (intro add_le_less_mono mult_le_mono1)
  then show ?case by (simp add: decimal_value_Cons)
qed simp

lemma digits_order:
  "list_all is_ascii_digit a \<Longrightarrow> list_all is_ascii_digit b \<Longrightarrow> length a = length b \<Longrightarrow>
    a < b \<longleftrightarrow> decimal_value a < decimal_value b"
proof (induction a arbitrary: b)
  case (Cons c a)
  then obtain d b' where b: "b = d # b'" by (cases b) auto
  have less: "decimal_value (x # u) < decimal_value (y # w)"
    if "x < y" "48 \<le> x" "length u = length w" "list_all is_ascii_digit u" for x y u w
  proof -
    have "decimal_value (x # u) < (x - 48 + 1) * 10 ^ length u"
      using decimal_value_less [OF that(4)] by (simp add: decimal_value_Cons)
    also have "\<dots> \<le> (y - 48) * 10 ^ length w" using that(1,2,3) by (intro mult_le_mono) auto
    finally show ?thesis by (simp add: decimal_value_Cons)
  qed
  have digits: "48 \<le> c" "48 \<le> d" "list_all is_ascii_digit a" "list_all is_ascii_digit b'" "length a = length b'"
    using Cons.prems b by (auto simp: is_ascii_digit_def [of c] is_ascii_digit_def [of d])
  consider "c < d" | "d < c" | "c = d" by linarith
  then show ?case
  proof cases
    case 1
    with less [OF 1 digits(1,5,3)] show ?thesis by (simp add: b)
  next
    case 2
    with less [OF 2 digits(2) digits(5) [symmetric] digits(4)] show ?thesis by (simp add: b)
  next
    case 3
    with Cons.IH [OF digits(3,4,5)] digits(5) show ?thesis by (simp add: b decimal_value_Cons)
  qed
qed simp

lemma show_nat_length: "n < 10 ^ k \<Longrightarrow> 0 < k \<Longrightarrow> length (show_nat n) \<le> k"
proof (induction n arbitrary: k rule: show_nat.induct)
  case (1 n)
  show ?case
  proof (cases "n < 10")
    case True
    then show ?thesis using 1(3) by (simp add: show_nat_small)
  next
    case False
    then obtain k' where k: "k = Suc k'" "0 < k'" using 1(2,3) by (cases k; cases "k - 1") auto
    with False 1(2) have "n div 10 < 10 ^ k'" by (simp add: less_mult_imp_div_less mult.commute)
    from 1(1) [OF False this k(2)] False show ?thesis by (simp add: show_nat_large k)
  qed
qed

lemma padded_value: "decimal_value (padded n) = n"
proof -
  have "decimal_value (replicate k 48 @ s) = decimal_value s" for k s
    by (induction k) (simp_all add: decimal_value_Cons)
  then show ?thesis by (simp add: padded_def)
qed

text \<open>The texts of the sequence extension sort as the numbers do.\<close>

lemma padded_order:
  assumes "a \<le> u64_max" "b \<le> u64_max"
  shows "padded a < padded b \<longleftrightarrow> a < b"
proof -
  have "length (padded n) = 20" if "n \<le> u64_max" for n
    using show_nat_length [of n 20] that by (simp add: padded_def u64_max_def)
  with assms digits_order [OF padded_digits padded_digits] show ?thesis by (simp add: padded_value)
qed

section \<open>Libraries to run with\<close>

text \<open>A text is the tree itself; the SDK writes the members in order and reads them by name.\<close>

fun extension_of :: "json \<Rightarrow> extension" where
  "extension_of (JString s) = ExtString s"
| "extension_of (JBool b) = ExtBool b"
| "extension_of (JNumber (JInt n)) = ExtInteger n"
| "extension_of _ = ExtBool False"

definition demo_time :: "rstring \<Rightarrow> instant" where
  "demo_time s = (if hd s = 45 then - int (decimal_value (tl s)) else int (decimal_value s))"

definition text_at :: "json_map \<Rightarrow> string \<Rightarrow> rstring option" where
  "text_at m name = Option.bind (bt_get m (lit name)) as_str"

definition demo_envelope :: "json_map \<Rightarrow> envelope" where
  "demo_envelope m =
     \<lparr>env_id = the (text_at m ''id''), env_source = the (text_at m ''source''), env_type = the (text_at m ''type''),
      env_subject = text_at m ''subject'', env_time = map_option demo_time (text_at m ''time''),
      env_content_type = text_at m ''datacontenttype'', env_schema = text_at m ''dataschema'',
      env_data = map_option JsonData (bt_get m (lit ''data'')),
      env_extensions = map (\<lambda>(name, x). (name, extension_of x)) (filter (\<lambda>(name, _). name \<notin> set known_attributes) m)\<rparr>"

definition demo_base :: "json library" where
  "demo_base = \<lparr>read_json = Some, write_event = \<lambda>_. None, read_event = \<lambda>_. None, build_event = Some,
     uuid_text = show_nat, uuid_parse = \<lambda>s. Some (decimal_value s), time_text = show_int,
     year = \<lambda>t. 1970 + t div 31556952, url_parse = Some\<rparr>"

definition demo_library :: "json library" where
  "demo_library = demo_base
     \<lparr>write_event := \<lambda>v. Some (JObject (members_of demo_base v)),
      read_event := \<lambda>m. let v = demo_envelope m in if reads demo_base m v then Some v else None\<rparr>"

lemma demo_members: "members_of demo_library v = members_of demo_base v"
  by (simp add: members_of_def demo_library_def)

lemma demo_portable: "portable demo_library v = portable demo_base v"
  by (simp add: portable_def demo_library_def valid_utc_time_def)

lemma demo_time_text: "demo_time (show_int t) = t"
proof -
  have "hd (show_nat n) \<noteq> 45" for n
    using show_nat_digits [of n] by (cases "show_nat n") (auto simp: is_ascii_digit_def)
  then show ?thesis by (simp add: demo_time_def show_int_def)
qed

lemma members_distinct:
  assumes "portable L v"
  shows "distinct (map fst (members_of L v))"
proof -
  have ext: "distinct (map fst (env_extensions v))" "fst ` set (env_extensions v) \<inter> set known_attributes = {}"
    using assms by (auto simp: portable_def bt_distinct_keys)
  define heads where "heads = map fst (optional_member ''dataschema'' (env_schema v) @ optional_member ''subject'' (env_subject v) @
     optional_member ''time'' (map_option (time_text L) (env_time v)))"
  have heads: "heads \<in> {xs. distinct xs \<and> set xs \<subseteq> {lit ''dataschema'', lit ''subject'', lit ''time''}}"
    by (cases "env_schema v"; cases "env_subject v"; cases "env_time v")
      (simp_all add: heads_def optional_member_def lit_eq_iff del: lit_simps)
  have "map fst (members_of L v) = [lit ''specversion'', lit ''id'', lit ''type'', lit ''source'', lit ''datacontenttype''] @ heads @
      lit ''data'' # map fst (env_extensions v)"
    using assms by (auto simp: members_of_def heads_def optional_member_def portable_def comp_def case_prod_unfold simp del: lit_simps)
  moreover have "set known_attributes \<supseteq> {lit ''specversion'', lit ''id'', lit ''type'', lit ''source'', lit ''datacontenttype'', lit ''data''} \<union> set heads"
    using heads by (auto simp: known_names simp del: lit_simps)
  ultimately show ?thesis
    using ext heads by (auto simp: lit_eq_iff simp del: lit_simps)
qed

lemma demo_reads:
  assumes v: "portable demo_base v" and m: "bt_invar m" "bt_get m = map_of (members_of demo_base v)"
  shows "demo_envelope m = v" "reads demo_base m v"
proof -
  note lookup = members_lookup [OF v]
  have lookup_text: "text_at m name = Option.bind (map_of (members_of demo_base v) (lit name)) as_str" for name
    by (simp add: text_at_def m(2))
  have inverse: "extension_of (extension_json x) = x" for x by (cases x) simp_all
  have time: "time_text demo_base = show_int" by (simp add: demo_base_def)
  have instants: "map_option demo_time (Option.bind t (\<lambda>x. Some (show_int x))) = t" for t
    by (cases t) (simp_all add: demo_time_text)
  have option: "Option.bind (map_option JString s) as_str = s" for s by (cases s) simp_all
  let ?ext = "map (\<lambda>(name, x). (name, extension_of x)) (filter (\<lambda>(name, _). name \<notin> set known_attributes) m)"
  have known: "extension_lookup v name = None" if "name \<in> set known_attributes" for name
    using portable_extensions [OF v that] by (simp add: extension_lookup_def)
  have rest: "bt_get m name = extension_lookup v name" if "name \<notin> set known_attributes" for name
    using that by (simp add: m(2) lookup known_names del: lit_simps)
  have "bt_get ?ext = bt_get (env_extensions v)"
  proof
    fix name
    have "bt_get ?ext name = map_option extension_of (bt_get (filter (\<lambda>(name, _). name \<notin> set known_attributes) m) name)"
      by (simp add: map_of_map)
    also have "\<dots> = map_option extension_of (extension_lookup v name)"
      using rest [of name] known [of name]
      by (cases "name \<in> set known_attributes") (simp_all add: bt_get_filter [OF m(1)] split: option.splits)
    finally show "bt_get ?ext name = bt_get (env_extensions v) name"
      by (simp add: extension_lookup_def option.map_comp comp_def inverse option.map_ident)
  qed
  moreover have "bt_invar ?ext"
    using bt_invar_filter [OF m(1), of "\<lambda>(name, _). name \<notin> set known_attributes"]
    by (simp add: bt_invar_def comp_def case_prod_unfold)
  ultimately have ext: "?ext = env_extensions v" using v bt_ext by (blast dest: portable_def [THEN iffD1])
  show "demo_envelope m = v"
    unfolding demo_envelope_def lookup_text ext using v
    by (auto simp: m(2) lookup lit_eq_iff option option.map_comp comp_def time instants option.map_ident portable_def
        bind_map_option simp del: lit_simps intro!: envelope.equality)
  have "Option.bind (Option.bind (map_option JString s) as_str) Some = s" for s by (cases s) simp_all
  moreover have "url_parse demo_base = Some" by (simp add: demo_base_def)
  ultimately show "reads demo_base m v"
    using v rest known by (auto simp: reads_def m(2) lookup lit_eq_iff portable_def simp del: lit_simps plain_json.simps)
qed

lemma demo_reads_library: "reads demo_library m v = reads demo_base m v"
  by (simp add: reads_def demo_library_def)

lemma demo_faithful: "faithful demo_library"
proof -
  have "uuid_parse demo_library (uuid_text demo_library u) = Some u" for u
    by (simp add: demo_library_def demo_base_def)
  moreover have "uuid_text demo_library u \<noteq> [] \<and> list_all (\<lambda>c. is_ascii_hexdigit c \<or> c = 45) (uuid_text demo_library u)" for u
    using show_nat_digits [of u] by (auto simp: demo_library_def demo_base_def list_all_iff is_ascii_hexdigit_def)
  moreover have "time_text demo_library t \<noteq> []" for t
    by (simp add: demo_library_def demo_base_def show_int_def)
  moreover have "url_parse demo_library s' = Some s'" for s'
    by (simp add: demo_library_def demo_base_def)
  moreover have "build_event demo_library v = Some v" for v
    by (simp add: demo_library_def demo_base_def)
  moreover have "\<exists>text ms. write_event demo_library v = Some text \<and> read_json demo_library text = Some (JObject ms) \<and>
      distinct (map fst ms) \<and> map_of ms = map_of (members_of demo_library v)" if "in_profile demo_library v" for v
  proof -
    have "portable demo_library v" using that by (simp add: in_profile_def)
    from members_distinct [OF this] show ?thesis unfolding demo_members by (simp add: demo_library_def demo_base_def)
  qed
  moreover have "read_event demo_library m = Some v"
    if "in_profile demo_library v" "bt_invar m" "bt_get m = map_of (members_of demo_library v)" for v m
  proof -
    have "portable demo_base v" using that(1) by (simp add: in_profile_def demo_portable)
    from demo_reads [OF this that(2)] that(3) show ?thesis unfolding demo_members by (simp add: demo_library_def Let_def)
  qed
  moreover have "reads demo_library m v" if "read_event demo_library m = Some v" for m v
    using that unfolding demo_reads_library by (auto simp: demo_library_def Let_def split: if_splits)
  ultimately show ?thesis unfolding faithful_def by blast
qed

section \<open>The properties\<close>

text \<open>C17: A history survives its CloudEvents form: each of its events is encoded, each text is decoded, and
  the ranking that is rebuilt from the decoded events is the one that was encoded.\<close>

theorem books_history_survives_the_wire:
  assumes "faithful L" "consistent r"
    and "\<forall>e \<in> set (history r). in_range e \<and> valid_utc_time L (meta_time (metadata e))"
  shows "\<exists>texts documents. try_map (encode_event L) (history r) = Inr texts \<and>
    try_map (decode_event L) texts = Inr documents \<and>
    ranking_from_history (reader_id (projection r)) (map doc_event documents) = Inr r"
proof -
  have "\<exists>t. encode_event L e = Inr t \<and> decode_event L t = Inr \<lparr>doc_event = e, doc_envelope = set_sequence e (plain_envelope L e)\<rparr>"
    if "e \<in> set (history r)" for e using event_survives [OF assms(1)] assms(3) that by blast
  then obtain g where g: "\<And>e. e \<in> set (history r) \<Longrightarrow> encode_event L e = Inr (g e) \<and>
      decode_event L (g e) = Inr \<lparr>doc_event = e, doc_envelope = set_sequence e (plain_envelope L e)\<rparr>" by metis
  let ?document = "\<lambda>e. \<lparr>doc_event = e, doc_envelope = set_sequence e (plain_envelope L e)\<rparr>"
  have "try_map (encode_event L) (history r) = Inr (map g (history r))"
    using g by (intro try_map_total) blast
  moreover have "try_map (decode_event L) (map g es) = Inr (map ?document es)" if "set es \<subseteq> set (history r)" for es
    using that g by (induction es) auto
  moreover have "ranking_from_history (reader_id (projection r)) (map doc_event (map ?document (history r))) = Inr r"
    using assms(2) by (simp add: comp_def ranking_from_history_def consistent_def)
  ultimately show ?thesis by blast
qed

theorem books_history_survives_the_wire_witness:
  "\<exists>texts documents. try_map (encode_event demo_library) sample_placed = Inr texts \<and>
    try_map (decode_event demo_library) texts = Inr documents \<and>
    ranking_from_history 100 (map doc_event documents) = Inr \<lparr>history = sample_placed, projection = placed_state\<rparr>"
proof -
  let ?r = "\<lparr>history = sample_placed, projection = placed_state\<rparr>"
  have "consistent ?r" using placed_replay by (simp add: consistent_def placed_state_def)
  moreover have "\<forall>e \<in> set (history ?r). in_range e \<and> valid_utc_time demo_library (meta_time (metadata e))"
    by (simp add: sample_placed_def sample_event_def in_range_def valid_utc_time_def demo_library_def demo_base_def u64_max_def)
  ultimately show ?thesis
    using books_history_survives_the_wire [OF demo_faithful, of ?r] by (simp add: placed_state_def)
qed

text \<open>C25: A decoded document can be sent on, if its schema, in the normal form of the URL library, is still an
  absolute URI that the codec accepts, and its payload nests at most 100 levels with no fractional numbers (which
  \<open>serde_json\<close> need not read exactly): it is encoded and decoded to the same event, in an envelope
  that differs only in its sequence extension. The context that a sender attached, its trace and its
  other extensions, is kept, and so are the members of the payload that the decoder does not know.\<close>

theorem books_documents_keep_their_context:
  assumes "faithful L" "decode_event L text = Inr d"
    and "\<forall>s. env_schema (doc_envelope d) = Some s \<longrightarrow> valid_absolute_uri L s"
    and "\<forall>data. env_data (doc_envelope d) = Some (JsonData data) \<longrightarrow> plain_json 100 data"
  shows "\<exists>text'. encode_document L d = Inr text' \<and>
    decode_event L text' = Inr (d\<lparr>doc_envelope := set_sequence (doc_event d) (doc_envelope d)\<rparr>)"
  by (rule document_survives [OF assms(1,2)]) (simp add: resendable_def assms(3,4))

theorem books_documents_keep_their_context_witness:
  "\<exists>text d text'. encode_event demo_library (sample_event 1 1 PlacementStarted) = Inr text \<and>
     decode_event demo_library text = Inr d \<and> doc_event d = sample_event 1 1 PlacementStarted \<and>
     encode_document demo_library d = Inr text' \<and>
     decode_event demo_library text' = Inr (d\<lparr>doc_envelope := set_sequence (doc_event d) (doc_envelope d)\<rparr>)"
proof -
  let ?e = "sample_event 1 1 PlacementStarted"
  have "in_range ?e" "valid_utc_time demo_library (meta_time (metadata ?e))"
    by (simp_all add: sample_event_def in_range_def valid_utc_time_def demo_library_def demo_base_def u64_max_def)
  from event_survives [OF demo_faithful this] obtain t where t: "encode_event demo_library ?e = Inr t"
    "decode_event demo_library t = Inr \<lparr>doc_event = ?e, doc_envelope = set_sequence ?e (plain_envelope demo_library ?e)\<rparr>" by blast
  from books_documents_keep_their_context [OF demo_faithful t(2)] t show ?thesis
    using event_payload_plain by (auto simp: plain_envelope_def simp del: plain_json.simps)
qed

text \<open>C18: The decoder accepts nothing but what says the event that it returns: the identifier, source,
  type, subject and time of the envelope are those of the event, its sequence extension, if it has
  one, is the number of the event in twenty digits, and the payload contains every member that the
  encoder would write.\<close>

theorem books_decoding_is_strict:
  assumes "decode_event L text = Inr d"
  shows "accepted L (doc_envelope d) (doc_event d)"
proof -
  from decode_event_Inr [OF assms] have "decode_envelope L (doc_envelope d) = Inr d" by blast
  then show ?thesis by (rule decode_envelope_accepted(2))
qed

theorem books_decoding_is_strict_witness:
  "\<exists>text d. encode_event demo_library (sample_event 1 1 PlacementStarted) = Inr text \<and>
     decode_event demo_library text = Inr d \<and> accepted demo_library (doc_envelope d) (sample_event 1 1 PlacementStarted)"
proof -
  let ?e = "sample_event 1 1 PlacementStarted"
  have "in_range ?e" "valid_utc_time demo_library (meta_time (metadata ?e))"
    by (simp_all add: sample_event_def in_range_def valid_utc_time_def demo_library_def demo_base_def u64_max_def)
  from event_survives [OF demo_faithful this] obtain t where t: "encode_event demo_library ?e = Inr t"
    "decode_event demo_library t = Inr \<lparr>doc_event = ?e, doc_envelope = set_sequence ?e (plain_envelope demo_library ?e)\<rparr>" by blast
  from books_decoding_is_strict [OF t(2)] t show ?thesis by auto
qed

end
