(* ===== verification/Calc_Node.thy ===== *)
theory Calc_Node imports Rust_Text begin

text \<open>
  Values and expressions of the calculation graph (\<open>kafka_calculator/core\<close>: \<open>value.rs\<close>,
  \<open>expression.rs\<close>). The decimal type of the crate \<open>rust_decimal\<close> is the type parameter
  \<open>'d\<close>, its sign test and its exact parser are arguments where the code uses them; a node ID is
  its text.
\<close>

type_synonym node_id = rstring

section \<open>Values\<close>

datatype 'd value_error = InvalidDecimal rstring | NegativeDecimal 'd

text \<open>\<open>ExactDecimal::new\<close> and its \<open>FromStr\<close>; the wrapper is the decimal itself.\<close>

definition exact_decimal_new :: "('d \<Rightarrow> bool) \<Rightarrow> 'd \<Rightarrow> ('d value_error, 'd) outcome" where
  "exact_decimal_new is_sign_negative value =
     (if is_sign_negative value then err (NegativeDecimal value) else Inr value)"

definition exact_decimal_from_str ::
  "(rstring \<Rightarrow> 'd option) \<Rightarrow> ('d \<Rightarrow> bool) \<Rightarrow> rstring \<Rightarrow> ('d value_error, 'd) outcome" where
  "exact_decimal_from_str from_str_exact is_sign_negative value =
     and_then (ok_or (Err (InvalidDecimal value)) (from_str_exact value))
       (exact_decimal_new is_sign_negative)"

datatype data_unit = Bytes | Kilobytes | Kibibytes | Megabytes | Mebibytes

record 'd data_size =
  size_amount :: 'd
  size_unit :: data_unit

datatype value_type = TScalar | TRatio | TMessageCount | TDataSize

datatype 'd calc_value =
    Scalar 'd
  | Ratio 'd
  | MessageCount nat
  | DataSize "'d data_size"

fun type_of_value :: "'d calc_value \<Rightarrow> value_type" where
  "type_of_value (Scalar _) = TScalar"
| "type_of_value (Ratio _) = TRatio"
| "type_of_value (MessageCount _) = TMessageCount"
| "type_of_value (DataSize _) = TDataSize"

section \<open>Expressions\<close>

record operand =
  operand_node :: node_id
  role :: rstring

datatype expression_error =
    ResolvedTypeCountMismatch string nat nat
  | IncompatibleOperandType string nat value_type value_type
  | UnsupportedOperandTypes string "value_type list"

datatype reference = Reference
datatype add = Add
datatype multiply = Multiply
datatype ceiling = Ceiling
datatype ceiling_divide = CeilingDivide
datatype minimum = Minimum
datatype maximum = Maximum

record convert_data_size =
  target_unit :: data_unit

record 'k expression =
  expr_operands :: "operand list"
  operation :: 'k

datatype any_expression =
    EReference "reference expression"
  | EAdd "add expression"
  | EMultiply "multiply expression"
  | ECeiling "ceiling expression"
  | ECeilingDivide "ceiling_divide expression"
  | EMinimum "minimum expression"
  | EMaximum "maximum expression"
  | EConvertDataSize "convert_data_size expression"

fun any_operands :: "any_expression \<Rightarrow> operand list" where
  "any_operands (EReference e) = expr_operands e"
| "any_operands (EAdd e) = expr_operands e"
| "any_operands (EMultiply e) = expr_operands e"
| "any_operands (ECeiling e) = expr_operands e"
| "any_operands (ECeilingDivide e) = expr_operands e"
| "any_operands (EMinimum e) = expr_operands e"
| "any_operands (EMaximum e) = expr_operands e"
| "any_operands (EConvertDataSize e) = expr_operands e"

subsection \<open>Construction\<close>

definition from_operation :: "operand list \<Rightarrow> 'k \<Rightarrow> 'k expression" where
  "from_operation os k = \<lparr>expr_operands = os, operation = k\<rparr>"

definition reference_new :: "operand \<Rightarrow> reference expression" where
  "reference_new source = from_operation [source] Reference"

definition add_new :: "operand \<Rightarrow> operand \<Rightarrow> add expression" where
  "add_new left right = from_operation [left, right] Add"

definition multiply_new :: "operand \<Rightarrow> operand \<Rightarrow> multiply expression" where
  "multiply_new left right = from_operation [left, right] Multiply"

definition ceiling_new :: "operand \<Rightarrow> ceiling expression" where
  "ceiling_new v = from_operation [v] Ceiling"

definition ceiling_divide_new :: "operand \<Rightarrow> operand \<Rightarrow> ceiling_divide expression" where
  "ceiling_divide_new dividend divisor = from_operation [dividend, divisor] CeilingDivide"

definition minimum_new :: "operand \<Rightarrow> operand \<Rightarrow> minimum expression" where
  "minimum_new left right = from_operation [left, right] Minimum"

definition maximum_new :: "operand \<Rightarrow> operand \<Rightarrow> maximum expression" where
  "maximum_new left right = from_operation [left, right] Maximum"

definition convert_data_size_new :: "operand \<Rightarrow> data_unit \<Rightarrow> convert_data_size expression" where
  "convert_data_size_new source unit = from_operation [source] \<lparr>target_unit = unit\<rparr>"

text \<open>The builder method \<open>and\<close> of additions, products, minima and maxima.\<close>

definition and_operand :: "'k expression \<Rightarrow> operand \<Rightarrow> 'k expression" where
  "and_operand e operand = e\<lparr>expr_operands := expr_operands e @ [operand]\<rparr>"

subsection \<open>Type contracts\<close>

definition ensure_resolved_type_count :: "string \<Rightarrow> nat \<Rightarrow> nat \<Rightarrow> (expression_error, unit) outcome" where
  "ensure_resolved_type_count operation_name expected actual =
     (if actual = expected then Inr () else err (ResolvedTypeCountMismatch operation_name expected actual))"

fun first_mismatch :: "value_type \<Rightarrow> (nat \<times> value_type) list \<Rightarrow> (nat \<times> value_type) option" where
  "first_mismatch expected [] = None"
| "first_mismatch expected ((operand, actual) # rest) =
     (if actual \<noteq> expected then Some (operand, actual) else first_mismatch expected rest)"

definition homogeneous_result_type ::
  "string \<Rightarrow> nat \<Rightarrow> value_type list \<Rightarrow> (expression_error, value_type) outcome" where
  "homogeneous_result_type operation_name operand_count types =
     and_then (ensure_resolved_type_count operation_name operand_count (length types)) (\<lambda>_.
     and_then (index types 0) (\<lambda>expected.
     case first_mismatch expected (drop 1 (enumerate 0 types)) of
       None \<Rightarrow> Inr expected
     | Some (operand, actual) \<Rightarrow> err (IncompatibleOperandType operation_name operand expected actual)))"

definition reference_result_type :: "value_type \<Rightarrow> value_type" where
  "reference_result_type source_type = source_type"

definition add_result_type :: "add expression \<Rightarrow> value_type list \<Rightarrow> (expression_error, value_type) outcome" where
  "add_result_type e types = homogeneous_result_type ''add'' (length (expr_operands e)) types"

definition multiply_result_type ::
  "multiply expression \<Rightarrow> value_type list \<Rightarrow> (expression_error, value_type) outcome" where
  "multiply_result_type e types =
     and_then (ensure_resolved_type_count ''multiply'' (length (expr_operands e)) (length types)) (\<lambda>_.
     if list_all (\<lambda>t. t = TScalar) types then Inr TScalar
     else if list_all (\<lambda>t. t = TRatio) types then Inr TRatio
     else if length (filter (\<lambda>t. t = TDataSize) types) = 1 then Inr TDataSize
     else err (UnsupportedOperandTypes ''multiply'' types))"

definition ceiling_result_type :: "value_type \<Rightarrow> (expression_error, value_type) outcome" where
  "ceiling_result_type t =
     (case t of
        TMessageCount \<Rightarrow> err (UnsupportedOperandTypes ''ceiling'' [t])
      | _ \<Rightarrow> Inr t)"

definition ceiling_divide_result_type ::
  "value_type \<Rightarrow> value_type \<Rightarrow> (expression_error, value_type) outcome" where
  "ceiling_divide_result_type dividend divisor =
     (if dividend = divisor then Inr TScalar
      else err (IncompatibleOperandType ''ceiling divide'' 1 dividend divisor))"

definition minimum_result_type ::
  "minimum expression \<Rightarrow> value_type list \<Rightarrow> (expression_error, value_type) outcome" where
  "minimum_result_type e types = homogeneous_result_type ''minimum'' (length (expr_operands e)) types"

definition maximum_result_type ::
  "maximum expression \<Rightarrow> value_type list \<Rightarrow> (expression_error, value_type) outcome" where
  "maximum_result_type e types = homogeneous_result_type ''maximum'' (length (expr_operands e)) types"

definition convert_result_type :: "value_type \<Rightarrow> (expression_error, value_type) outcome" where
  "convert_result_type t =
     (case t of
        TDataSize \<Rightarrow> Inr TDataSize
      | _ \<Rightarrow> err (UnsupportedOperandTypes ''convert data size'' [t]))"

fun any_result_type :: "any_expression \<Rightarrow> value_type list \<Rightarrow> (expression_error, value_type) outcome" where
  "any_result_type (EReference e) types =
     and_then (ensure_resolved_type_count ''reference'' 1 (length types)) (\<lambda>_.
     and_then (index types 0) (\<lambda>t. Inr (reference_result_type t)))"
| "any_result_type (EAdd e) types = add_result_type e types"
| "any_result_type (EMultiply e) types = multiply_result_type e types"
| "any_result_type (ECeiling e) types =
     and_then (ensure_resolved_type_count ''ceiling'' 1 (length types)) (\<lambda>_.
     and_then (index types 0) ceiling_result_type)"
| "any_result_type (ECeilingDivide e) types =
     and_then (ensure_resolved_type_count ''ceiling divide'' 2 (length types)) (\<lambda>_.
     and_then (index types 0) (\<lambda>dividend.
     and_then (index types 1) (\<lambda>divisor. ceiling_divide_result_type dividend divisor)))"
| "any_result_type (EMinimum e) types = minimum_result_type e types"
| "any_result_type (EMaximum e) types = maximum_result_type e types"
| "any_result_type (EConvertDataSize e) types =
     and_then (ensure_resolved_type_count ''convert data size'' 1 (length types)) (\<lambda>_.
     and_then (index types 0) convert_result_type)"

section \<open>What the contracts say\<close>

text \<open>
  The expressions that the public constructors can build: an operation of fixed arity has its
  operands, an operation with \<open>and\<close> has two or more.
\<close>

fun built :: "any_expression \<Rightarrow> bool" where
  "built (EReference e) \<longleftrightarrow> length (expr_operands e) = 1"
| "built (EAdd e) \<longleftrightarrow> 2 \<le> length (expr_operands e)"
| "built (EMultiply e) \<longleftrightarrow> 2 \<le> length (expr_operands e)"
| "built (ECeiling e) \<longleftrightarrow> length (expr_operands e) = 1"
| "built (ECeilingDivide e) \<longleftrightarrow> length (expr_operands e) = 2"
| "built (EMinimum e) \<longleftrightarrow> 2 \<le> length (expr_operands e)"
| "built (EMaximum e) \<longleftrightarrow> 2 \<le> length (expr_operands e)"
| "built (EConvertDataSize e) \<longleftrightarrow> length (expr_operands e) = 1"

lemma constructors_build:
  "built (EReference (reference_new a))" "built (EAdd (add_new a b))" "built (EMultiply (multiply_new a b))"
  "built (ECeiling (ceiling_new a))" "built (ECeilingDivide (ceiling_divide_new a b))"
  "built (EMinimum (minimum_new a b))" "built (EMaximum (maximum_new a b))"
  "built (EConvertDataSize (convert_data_size_new a u))"
  by (simp_all add: reference_new_def add_new_def multiply_new_def ceiling_new_def ceiling_divide_new_def
      minimum_new_def maximum_new_def convert_data_size_new_def from_operation_def)

lemma and_operand_builds:
  "built (EAdd e) \<Longrightarrow> built (EAdd (and_operand e x))"
  "built (EMultiply f) \<Longrightarrow> built (EMultiply (and_operand f x))"
  "built (EMinimum g) \<Longrightarrow> built (EMinimum (and_operand g x))"
  "built (EMaximum h) \<Longrightarrow> built (EMaximum (and_operand h x))"
  by (simp_all add: and_operand_def)

text \<open>The typing rules, as a relation.\<close>

inductive typed :: "any_expression \<Rightarrow> value_type list \<Rightarrow> value_type \<Rightarrow> bool" where
  reference: "typed (EReference e) [t] t"
| add: "types \<noteq> [] \<Longrightarrow> set types = {t} \<Longrightarrow> typed (EAdd e) types t"
| minimum: "types \<noteq> [] \<Longrightarrow> set types = {t} \<Longrightarrow> typed (EMinimum e) types t"
| maximum: "types \<noteq> [] \<Longrightarrow> set types = {t} \<Longrightarrow> typed (EMaximum e) types t"
| multiply_scalars: "types \<noteq> [] \<Longrightarrow> set types = {TScalar} \<Longrightarrow> typed (EMultiply e) types TScalar"
| multiply_ratios: "types \<noteq> [] \<Longrightarrow> set types = {TRatio} \<Longrightarrow> typed (EMultiply e) types TRatio"
| multiply_size: "count_list types TDataSize = 1 \<Longrightarrow> typed (EMultiply e) types TDataSize"
| ceiling: "t \<noteq> TMessageCount \<Longrightarrow> typed (ECeiling e) [t] t"
| ceiling_divide: "typed (ECeilingDivide e) [t, t] TScalar"
| convert: "typed (EConvertDataSize e) [TDataSize] TDataSize"

inductive_simps typed_simps:
  "typed (EReference e) types t" "typed (EAdd e) types t" "typed (EMultiply e) types t"
  "typed (ECeiling e) types t" "typed (ECeilingDivide e) types t" "typed (EMinimum e) types t"
  "typed (EMaximum e) types t" "typed (EConvertDataSize e) types t"

lemma first_mismatch_None: "first_mismatch t (enumerate n types) = None \<longleftrightarrow> set types \<subseteq> {t}"
  by (induction types arbitrary: n) auto

lemma homogeneous_Inr_iff:
  assumes "0 < n"
  shows "homogeneous_result_type name n types = Inr t \<longleftrightarrow> length types = n \<and> set types = {t}"
proof (cases types)
  case (Cons x xs)
  then have "first_mismatch x (drop 1 (enumerate 0 types)) = None \<longleftrightarrow> set xs \<subseteq> {x}"
    by (simp add: first_mismatch_None)
  then show ?thesis
    using Cons by (auto simp: homogeneous_result_type_def ensure_resolved_type_count_def split: option.splits)
qed (use assms in \<open>auto simp: homogeneous_result_type_def ensure_resolved_type_count_def\<close>)

lemma multiply_Inr_iff:
  assumes "2 \<le> length (expr_operands e)"
  shows "multiply_result_type e types = Inr t \<longleftrightarrow>
    length types = length (expr_operands e) \<and> typed (EMultiply e) types t"
proof (cases "length types = length (expr_operands e)")
  case True
  then have ne: "types \<noteq> []" using assms by auto
  have all: "list_all (\<lambda>x. x = t) types \<longleftrightarrow> set types = {t}" for t
    using ne by (cases types) (auto simp: list_all_iff)
  have one: "count_list types TDataSize = 1 \<Longrightarrow> TDataSize \<in> set types"
    by (metis count_list_0_iff one_neq_zero)
  have count: "length (filter (\<lambda>x. x = TDataSize) types) = count_list types TDataSize"
    by (induction types) auto
  show ?thesis
    using True ne one
    by (auto simp: multiply_result_type_def ensure_resolved_type_count_def typed_simps all count)
qed (simp add: multiply_result_type_def ensure_resolved_type_count_def)

lemma length_Suc_0: "length xs = Suc 0 \<longleftrightarrow> (\<exists>x. xs = [x])"
  by (cases xs) auto

text \<open>The code accepts exactly what the rules type, and never panics.\<close>

lemma any_result_type_Inr_iff:
  assumes "built e"
  shows "any_result_type e types = Inr t \<longleftrightarrow> length types = length (any_operands e) \<and> typed e types t"
proof (cases e)
  case (EAdd x)
  with assms have "expr_operands x \<noteq> []" by auto
  then show ?thesis by (auto simp: EAdd add_result_type_def typed_simps homogeneous_Inr_iff)
next
  case (EMinimum x)
  with assms have "expr_operands x \<noteq> []" by auto
  then show ?thesis by (auto simp: EMinimum minimum_result_type_def typed_simps homogeneous_Inr_iff)
next
  case (EMaximum x)
  with assms have "expr_operands x \<noteq> []" by auto
  then show ?thesis by (auto simp: EMaximum maximum_result_type_def typed_simps homogeneous_Inr_iff)
next
  case (EMultiply x)
  with assms show ?thesis using multiply_Inr_iff [of x types t] by simp
qed (use assms in \<open>auto simp: ensure_resolved_type_count_def result_simps typed_simps reference_result_type_def
    ceiling_result_type_def ceiling_divide_result_type_def convert_result_type_def length_Suc_conv
    numeral_2_eq_2 split: value_type.splits if_splits\<close>)

lemma no_panic_result_type:
  assumes "built e"
  shows "no_panic (any_result_type e types)"
  using assms
  by (cases e) (auto simp: ensure_resolved_type_count_def add_result_type_def minimum_result_type_def
      maximum_result_type_def multiply_result_type_def homogeneous_result_type_def ceiling_result_type_def
      ceiling_divide_result_type_def convert_result_type_def split: value_type.split option.split if_splits)

text \<open>
  Identifiers and nodes of the calculation graph (\<open>kafka_calculator/core/node.rs\<close>). The newtypes
  around validated identifiers are their texts; the sealed trait that gives every node type its
  ID prefix is one constructor function per node type.
\<close>

section \<open>Identifiers\<close>

datatype identifier_error =
    Empty
  | EmptySegment nat
  | InvalidSegmentStart nat rchar
  | InvalidCharacter nat nat rchar

definition identifier_char :: "rchar \<Rightarrow> bool" where
  "identifier_char c \<longleftrightarrow> is_ascii_lowercase c \<or> is_ascii_digit c \<or> c = 95 \<or> c = 45"

fun check_characters :: "nat \<Rightarrow> nat \<Rightarrow> rstring \<Rightarrow> (identifier_error, unit) outcome" where
  "check_characters segment i [] = Inr ()"
| "check_characters segment i (c # cs) =
     (if \<not> identifier_char c then err (InvalidCharacter segment (i + 1) c)
      else check_characters segment (i + 1) cs)"

fun check_segment :: "nat \<Rightarrow> rstring \<Rightarrow> (identifier_error, unit) outcome" where
  "check_segment segment [] = err (EmptySegment segment)"
| "check_segment segment (first # characters) =
     (if \<not> is_ascii_lowercase first then err (InvalidSegmentStart segment first)
      else check_characters segment 0 characters)"

fun check_segments :: "nat \<Rightarrow> rstring list \<Rightarrow> (identifier_error, unit) outcome" where
  "check_segments i [] = Inr ()"
| "check_segments i (seg # segs) = and_then (check_segment i seg) (\<lambda>_. check_segments (i + 1) segs)"

definition validate_identifier :: "rstring \<Rightarrow> (identifier_error, unit) outcome" where
  "validate_identifier value =
     (if value = [] then err Empty else check_segments 0 (split_at_char 46 value))"

type_synonym node_id_suffix = rstring
type_synonym citation_id = rstring

definition node_id_new :: "rstring \<Rightarrow> (identifier_error, node_id) outcome" where
  "node_id_new value = and_then (validate_identifier value) (\<lambda>_. Inr value)"

definition node_id_suffix_new :: "rstring \<Rightarrow> (identifier_error, node_id_suffix) outcome" where
  "node_id_suffix_new value = and_then (validate_identifier value) (\<lambda>_. Inr value)"

definition citation_id_new :: "rstring \<Rightarrow> (identifier_error, citation_id) outcome" where
  "citation_id_new value = and_then (validate_identifier value) (\<lambda>_. Inr value)"

definition from_parts :: "rstring \<Rightarrow> node_id_suffix \<Rightarrow> node_id" where
  "from_parts prefix suffix = prefix @ lit ''.'' @ suffix"

section \<open>Node data\<close>

record citation =
  citation_id :: citation_id
  title :: rstring
  url :: rstring
  summary :: rstring

record citation_claim =
  claim_citation :: citation_id
  claim :: rstring

record node_metadata =
  node_label :: rstring
  description :: rstring
  citation_claims :: "citation_claim list"

datatype constant_origin = UnitDefinition | ClientDefault | ClientConstraint | CalculatorPolicy

record 'd constant_data =
  const_value :: "'d calc_value"
  origin :: constant_origin
  rationale :: rstring

record derived =
  derived_expression :: any_expression

datatype 'd input_constraint =
    MinimumInclusive "'d calc_value"
  | MinimumExclusive "'d calc_value"
  | MaximumInclusive "'d calc_value"
  | MaximumExclusive "'d calc_value"

fun constraint_value :: "'d input_constraint \<Rightarrow> 'd calc_value" where
  "constraint_value (MinimumInclusive v) = v"
| "constraint_value (MinimumExclusive v) = v"
| "constraint_value (MaximumInclusive v) = v"
| "constraint_value (MaximumExclusive v) = v"

datatype input_definition_error =
    DefaultTypeMismatch value_type value_type
  | ConstraintTypeMismatch nat value_type value_type

record 'd input =
  input_type :: value_type
  default_value :: "'d calc_value option"
  hard_constraints :: "'d input_constraint list"

fun check_constraints ::
  "value_type \<Rightarrow> nat \<Rightarrow> 'd input_constraint list \<Rightarrow> (input_definition_error, unit) outcome" where
  "check_constraints expected i [] = Inr ()"
| "check_constraints expected i (c # cs) =
     (if type_of_value (constraint_value c) \<noteq> expected
      then err (ConstraintTypeMismatch i expected (type_of_value (constraint_value c)))
      else check_constraints expected (i + 1) cs)"

definition input_new ::
  "value_type \<Rightarrow> 'd calc_value option \<Rightarrow> 'd input_constraint list \<Rightarrow>
    (input_definition_error, 'd input) outcome" where
  "input_new t d cs =
     and_then
       (case d of None \<Rightarrow> Inr ()
        | Some v \<Rightarrow> if type_of_value v \<noteq> t then err (DefaultTypeMismatch t (type_of_value v)) else Inr ()) (\<lambda>_.
     and_then (check_constraints t 0 cs) (\<lambda>_.
     Inr \<lparr>input_type = t, default_value = d, hard_constraints = cs\<rparr>))"

datatype setting_scope = Producer | Consumer | Common
datatype setting_unit = UBytes | UKBytes | UMessages

record setting =
  key :: rstring
  scope :: setting_scope
  setting_unit :: setting_unit
  setting_expression :: any_expression

datatype finding_severity = Informational | Warning | Error

datatype comparison_operator =
  Equal | NotEqual | LessThan | LessThanOrEqual | GreaterThan | GreaterThanOrEqual

record comparison =
  left :: operand
  operator :: comparison_operator
  right :: operand

datatype finding_condition = Always | Compares comparison

record finding =
  severity :: finding_severity
  condition :: finding_condition

text \<open>The derived order of severities: the order of declaration.\<close>

instantiation finding_severity :: linorder
begin

primrec severity_rank :: "finding_severity \<Rightarrow> nat" where
  "severity_rank Informational = 0"
| "severity_rank Warning = 1"
| "severity_rank Error = 2"

definition less_eq_finding_severity :: "finding_severity \<Rightarrow> finding_severity \<Rightarrow> bool" where
  "a \<le> b \<longleftrightarrow> severity_rank a \<le> severity_rank b"

definition less_finding_severity :: "finding_severity \<Rightarrow> finding_severity \<Rightarrow> bool" where
  "a < b \<longleftrightarrow> severity_rank a < severity_rank b"

instance
proof
  fix a b c :: finding_severity
  show "a < b \<longleftrightarrow> a \<le> b \<and> \<not> b \<le> a" "a \<le> a" "a \<le> b \<Longrightarrow> b \<le> c \<Longrightarrow> a \<le> c" "a \<le> b \<or> b \<le> a"
    by (auto simp: less_eq_finding_severity_def less_finding_severity_def)
  show "a \<le> b \<Longrightarrow> b \<le> a \<Longrightarrow> a = b"
    by (cases a; cases b) (simp_all add: less_eq_finding_severity_def)
qed

end

section \<open>Nodes\<close>

record 't node =
  id_of :: node_id
  meta_of :: node_metadata
  type_data :: 't

definition node_new :: "rstring \<Rightarrow> node_id_suffix \<Rightarrow> node_metadata \<Rightarrow> 't \<Rightarrow> 't node" where
  "node_new prefix suffix md t = \<lparr>id_of = from_parts prefix suffix, meta_of = md, type_data = t\<rparr>"

datatype 'd any_node =
    NInput "'d input node"
  | NConstant "'d constant_data node"
  | NDerived "derived node"
  | NSetting "setting node"
  | NFinding "finding node"

definition input_node :: "node_id_suffix \<Rightarrow> node_metadata \<Rightarrow> 'd input \<Rightarrow> 'd any_node" where
  "input_node suffix md t = NInput (node_new (lit ''input'') suffix md t)"

definition constant_node :: "node_id_suffix \<Rightarrow> node_metadata \<Rightarrow> 'd constant_data \<Rightarrow> 'd any_node" where
  "constant_node suffix md t = NConstant (node_new (lit ''constant'') suffix md t)"

definition derived_node :: "node_id_suffix \<Rightarrow> node_metadata \<Rightarrow> derived \<Rightarrow> 'd any_node" where
  "derived_node suffix md t = NDerived (node_new (lit ''derived'') suffix md t)"

definition setting_node :: "node_id_suffix \<Rightarrow> node_metadata \<Rightarrow> setting \<Rightarrow> 'd any_node" where
  "setting_node suffix md t = NSetting (node_new (lit ''setting'') suffix md t)"

definition finding_node :: "node_id_suffix \<Rightarrow> node_metadata \<Rightarrow> finding \<Rightarrow> 'd any_node" where
  "finding_node suffix md t = NFinding (node_new (lit ''finding'') suffix md t)"

fun any_id :: "'d any_node \<Rightarrow> node_id" where
  "any_id (NInput n) = id_of n"
| "any_id (NConstant n) = id_of n"
| "any_id (NDerived n) = id_of n"
| "any_id (NSetting n) = id_of n"
| "any_id (NFinding n) = id_of n"

fun any_metadata :: "'d any_node \<Rightarrow> node_metadata" where
  "any_metadata (NInput n) = meta_of n"
| "any_metadata (NConstant n) = meta_of n"
| "any_metadata (NDerived n) = meta_of n"
| "any_metadata (NSetting n) = meta_of n"
| "any_metadata (NFinding n) = meta_of n"

section \<open>The grammar of identifiers\<close>

definition valid_segment :: "rstring \<Rightarrow> bool" where
  "valid_segment s \<longleftrightarrow> s \<noteq> [] \<and> is_ascii_lowercase (hd s) \<and> list_all identifier_char (tl s)"

fun join_with :: "rchar \<Rightarrow> rstring list \<Rightarrow> rstring" where
  "join_with d [] = []"
| "join_with d [s] = s"
| "join_with d (s # t # ss) = s @ d # join_with d (t # ss)"

lemma split_nonempty [simp]: "split_at_char d s \<noteq> []"
  by (induction s) (auto split: list.splits)

lemma join_with_Cons: "join_with d ((c # s) # segs) = c # join_with d (s # segs)"
  by (cases segs) simp_all

lemma join_split: "join_with d (split_at_char d s) = s"
proof (induction s)
  case (Cons c s)
  show ?case
  proof (cases "c = d")
    case True
    then show ?thesis using Cons by (cases "split_at_char d s") simp_all
  next
    case False
    then show ?thesis using Cons by (cases "split_at_char d s") (simp_all add: join_with_Cons)
  qed
qed simp

lemma split_join:
  "segs \<noteq> [] \<Longrightarrow> \<forall>s \<in> set segs. d \<notin> set s \<Longrightarrow> split_at_char d (join_with d segs) = segs"
proof (induction d segs rule: join_with.induct)
  case (2 d s)
  then show ?case by (induction s) auto
next
  case (3 d s t ss)
  have "split_at_char d (s @ d # r) = s # split_at_char d r" if "d \<notin> set s" for r
    using that by (induction s) auto
  with 3 show ?case by auto
qed simp

lemma check_characters_Inr: "check_characters seg i s = Inr x \<longleftrightarrow> list_all identifier_char s"
  by (induction s arbitrary: i) auto

lemma check_segment_Inr: "check_segment i s = Inr x \<longleftrightarrow> valid_segment s"
  by (cases s) (auto simp: valid_segment_def check_characters_Inr)

lemma check_segments_Inr: "check_segments i segs = Inr x \<longleftrightarrow> list_all valid_segment segs"
  by (induction segs arbitrary: i) (auto simp: result_simps check_segment_Inr)

lemma valid_segment_no_dot: "valid_segment s \<Longrightarrow> 46 \<notin> set s"
  by (cases s) (auto simp: valid_segment_def list_all_iff identifier_char_def is_ascii_lowercase_def
      is_ascii_digit_def)

lemma validate_identifier_Inr:
  "validate_identifier value = Inr x \<longleftrightarrow>
     (\<exists>segs. segs \<noteq> [] \<and> list_all valid_segment segs \<and> value = join_with 46 segs)"
proof
  assume "validate_identifier value = Inr x"
  then have "list_all valid_segment (split_at_char 46 value)"
    by (simp add: validate_identifier_def check_segments_Inr split: if_splits)
  then show "\<exists>segs. segs \<noteq> [] \<and> list_all valid_segment segs \<and> value = join_with 46 segs"
    by (metis join_split split_nonempty)
next
  assume "\<exists>segs. segs \<noteq> [] \<and> list_all valid_segment segs \<and> value = join_with 46 segs"
  then obtain segs where segs: "segs \<noteq> []" "list_all valid_segment segs" "value = join_with 46 segs" by blast
  then have "split_at_char 46 value = segs"
    by (auto intro!: split_join dest: valid_segment_no_dot simp: list_all_iff)
  moreover have "value \<noteq> []"
    using segs by (cases segs; cases "tl segs") (auto simp: valid_segment_def)
  ultimately show "validate_identifier value = Inr x"
    using segs(2) by (simp add: validate_identifier_def check_segments_Inr)
qed

end
