(* ===== verification/Calc_Graph.thy ===== *)
theory Calc_Graph imports Calc_Node Ordered_Map begin

text \<open>
  Validation of the calculation graph (\<open>kafka_calculator/core/graph.rs\<close>), phase by phase as
  \<open>GraphDefinition::validate\<close> runs it. Vectors are lists and every index, map lookup, unchecked
  subtraction and \<open>expect\<close> that could fail is a panic of the model.

  The recursive depth-first search takes fuel, one unit per recursion level; running out is a
  panic too, and the number of nodes is always enough because a level is entered on an unvisited
  node. The two work-list loops terminate as they are.
\<close>

section \<open>Definitions and errors\<close>

record edge =
  source :: node_id
  target :: node_id
  edge_role :: rstring

record 'd graph_definition =
  nodes :: "'d any_node list"
  citations :: "citation list"
  outputs :: "node_id list"

record 'd validated_graph =
  vg_nodes :: "'d any_node list"
  vg_citations :: "citation list"
  vg_outputs :: "node_id list"
  node_index :: "(node_id, nat) btree_map"
  citation_index :: "(citation_id, nat) btree_map"
  edges :: "edge list"
  dependencies :: "(node_id, edge list) btree_map"
  dependents :: "(node_id, edge list) btree_map"
  topological_order :: "node_id list"
  resolved_types :: "(node_id, value_type) btree_map"

datatype graph_error =
    NoOutputs
  | EmptySettingKey node_id
  | EmptyOperandRole node_id nat
  | DuplicateNodeId node_id nat nat
  | DuplicateCitationId citation_id nat nat
  | DuplicateOutput node_id
  | UnknownOutput node_id
  | InvalidOutputNodeType node_id string
  | UnknownCitation node_id nat citation_id
  | UnknownOperand node_id nat node_id
  | FindingOperand node_id nat node_id
  | Cycle "node_id list"
  | ExpressionType node_id expression_error
  | FindingComparisonTypeMismatch node_id value_type value_type
  | DuplicateSettingKey rstring node_id node_id
  | UnreachableNode node_id

fun node_operands :: "'d any_node \<Rightarrow> operand list" where
  "node_operands (NInput n) = []"
| "node_operands (NConstant n) = []"
| "node_operands (NDerived n) = any_operands (derived_expression (type_data n))"
| "node_operands (NSetting n) = any_operands (setting_expression (type_data n))"
| "node_operands (NFinding n) =
     (case condition (type_data n) of Always \<Rightarrow> [] | Compares c \<Rightarrow> [left c, right c])"

section \<open>Local validity, indexes and references\<close>

text \<open>A loop that checks every element in order and stops at the first error.\<close>

definition for_each :: "('a \<Rightarrow> (graph_error, unit) outcome) \<Rightarrow> 'a list \<Rightarrow> (graph_error, unit) outcome" where
  "for_each f xs = try_fold (\<lambda>_ x. f x) () xs"

definition validate_local_validity :: "'d graph_definition \<Rightarrow> (graph_error, unit) outcome" where
  "validate_local_validity g =
     (if outputs g = [] then err NoOutputs
      else for_each (\<lambda>n.
        and_then
          (case n of NSetting s \<Rightarrow> if trim (key (type_data s)) = [] then err (EmptySettingKey (any_id n)) else Inr ()
           | _ \<Rightarrow> Inr ()) (\<lambda>_.
        for_each (\<lambda>(i, v). if trim (role v) = [] then err (EmptyOperandRole (any_id n) i) else Inr ())
          (enumerate 0 (node_operands n)))) (nodes g))"

definition build_node_index :: "'d any_node list \<Rightarrow> (graph_error, (node_id, nat) btree_map) outcome" where
  "build_node_index ns = try_fold
     (\<lambda>ix (i, n). case bt_get ix (any_id n) of
        Some first \<Rightarrow> err (DuplicateNodeId (any_id n) first i)
      | None \<Rightarrow> Inr (bt_insert (any_id n) i ix)) [] (enumerate 0 ns)"

definition build_citation_index :: "citation list \<Rightarrow> (graph_error, (citation_id, nat) btree_map) outcome" where
  "build_citation_index cs = try_fold
     (\<lambda>ix (i, c). case bt_get ix (citation_id c) of
        Some first \<Rightarrow> err (DuplicateCitationId (citation_id c) first i)
      | None \<Rightarrow> Inr (bt_insert (citation_id c) i ix)) [] (enumerate 0 cs)"

definition output_node_type :: "'d any_node \<Rightarrow> string option" where
  "output_node_type n = (case n of NInput _ \<Rightarrow> Some ''input'' | NConstant _ \<Rightarrow> Some ''constant'' | _ \<Rightarrow> None)"

definition check_output ::
  "'d any_node list \<Rightarrow> (node_id, nat) btree_map \<Rightarrow> (node_id, unit) btree_map \<Rightarrow> node_id \<Rightarrow>
    (graph_error, (node_id, unit) btree_map) outcome" where
  "check_output ns ix seen o_id =
     (if bt_contains seen o_id then err (DuplicateOutput o_id)
      else
      and_then (ok_or (Err (UnknownOutput o_id)) (bt_get ix o_id)) (\<lambda>i.
      and_then (index ns i) (\<lambda>n.
      case output_node_type n of
        Some t \<Rightarrow> err (InvalidOutputNodeType o_id t)
      | None \<Rightarrow> Inr (bt_insert o_id () seen))))"

definition validate_outputs_and_citations ::
  "'d graph_definition \<Rightarrow> (node_id, nat) btree_map \<Rightarrow> (citation_id, nat) btree_map \<Rightarrow>
    (graph_error, unit) outcome" where
  "validate_outputs_and_citations g ix cix =
     and_then (try_fold (check_output (nodes g) ix) [] (outputs g)) (\<lambda>_.
     for_each (\<lambda>n. for_each (\<lambda>(i, c).
         if \<not> bt_contains cix (claim_citation c) then err (UnknownCitation (any_id n) i (claim_citation c))
         else Inr ()) (enumerate 0 (citation_claims (any_metadata n)))) (nodes g))"

definition is_finding :: "'d any_node \<Rightarrow> bool" where
  "is_finding n \<longleftrightarrow> (case n of NFinding _ \<Rightarrow> True | _ \<Rightarrow> False)"

definition validate_operand_references ::
  "'d any_node list \<Rightarrow> (node_id, nat) btree_map \<Rightarrow> (graph_error, unit) outcome" where
  "validate_operand_references ns ix =
     for_each (\<lambda>n. for_each (\<lambda>(i, v).
       and_then (ok_or (Err (UnknownOperand (any_id n) i (operand_node v))) (bt_get ix (operand_node v))) (\<lambda>j.
       and_then (index ns j) (\<lambda>m.
       if is_finding m then err (FindingOperand (any_id n) i (operand_node v)) else Inr ())))
     (enumerate 0 (node_operands n))) ns"

definition edge_from_operand :: "node_id \<Rightarrow> operand \<Rightarrow> edge" where
  "edge_from_operand t v = \<lparr>source = operand_node v, target = t, edge_role = role v\<rparr>"

definition generate_edges :: "'d any_node list \<Rightarrow> edge list" where
  "generate_edges ns = concat (map (\<lambda>n. map (edge_from_operand (any_id n)) (node_operands n)) ns)"

definition build_dependency_indices ::
  "'d any_node list \<Rightarrow> (node_id, nat) btree_map \<Rightarrow> (graph_error, nat list list) outcome" where
  "build_dependency_indices ns ix =
     try_map (\<lambda>n. try_map (\<lambda>v. expect (bt_get ix (operand_node v))) (node_operands n)) ns"

section \<open>The depth-first search for cycles\<close>

datatype visit_state = Unvisited | Visiting | Visited

type_synonym dfs = "visit_state list \<times> nat list"

definition cycle_found :: "'d any_node list \<Rightarrow> nat list \<Rightarrow> nat \<Rightarrow> (graph_error, 'a) outcome" where
  "cycle_found ns stack d =
     and_then (expect (position (\<lambda>c. c = d) stack)) (\<lambda>start.
     and_then (try_map (\<lambda>i. and_then (index ns i) (\<lambda>n. Inr (any_id n))) (drop start stack)) (\<lambda>path.
     and_then (index ns d) (\<lambda>n.
     err (Cycle (path @ [any_id n])))))"

text \<open>The loop over the dependencies calls \<open>visit\<close> on the unvisited ones.\<close>

fun visit ::
  "nat \<Rightarrow> 'd any_node list \<Rightarrow> nat list list \<Rightarrow> nat \<Rightarrow> dfs \<Rightarrow> (graph_error, dfs) outcome" where
  "visit 0 ns deps i (states, stack) = panic"
| "visit (Suc fuel) ns deps i (states, stack) =
     and_then (set_at states i Visiting) (\<lambda>states.
     and_then (index deps i) (\<lambda>ds.
     and_then (try_fold (\<lambda>(states, stack) d.
         and_then (index states d) (\<lambda>st.
         case st of
           Unvisited \<Rightarrow> visit fuel ns deps d (states, stack)
         | Visiting \<Rightarrow> cycle_found ns stack d
         | Visited \<Rightarrow> Inr (states, stack))) (states, stack @ [i]) ds) (\<lambda>(states, stack).
     and_then (set_at states i Visited) (\<lambda>states.
     Inr (states, butlast stack)))))"

definition validate_acyclic :: "'d any_node list \<Rightarrow> nat list list \<Rightarrow> (graph_error, unit) outcome" where
  "validate_acyclic ns deps =
     and_then (try_fold (\<lambda>(states, stack) i.
         and_then (index states i) (\<lambda>st.
         if st = Unvisited then visit (length ns) ns deps i (states, stack) else Inr (states, stack)))
       (replicate (length ns) Unvisited, []) [0..<length ns]) (\<lambda>_. Inr ())"

section \<open>The topological order\<close>

text \<open>
  The heap of ready indices, smallest first, is the sorted list of its contents: \<open>pop\<close> takes the
  head, \<open>push\<close> is \<open>insort\<close>.
\<close>

definition relax :: "nat list \<times> nat list \<Rightarrow> nat \<Rightarrow> (graph_error, nat list \<times> nat list) outcome" where
  "relax st d =
     (case st of (degrees, ready) \<Rightarrow>
        and_then (index degrees d) (\<lambda>n.
        and_then (usize_sub n 1) (\<lambda>n.
        Inr (degrees[d := n], if n = 0 then insort d ready else ready))))"

lemma sum_list_decrement:
  "i < length xs \<Longrightarrow> 1 \<le> xs ! i \<Longrightarrow> sum_list (xs[i := xs ! i - 1]) + 1 = sum_list (xs :: nat list)"
proof (induction xs arbitrary: i)
  case (Cons x xs)
  then show ?case by (cases i) fastforce+
qed simp

lemma relax_measure:
  "relax (degrees, ready) d = Inr (degrees', ready') \<Longrightarrow>
    sum_list degrees' + length ready' \<le> sum_list degrees + length ready"
proof -
  assume "relax (degrees, ready) d = Inr (degrees', ready')"
  then have d: "d < length degrees" "1 \<le> degrees ! d" and degrees': "degrees' = degrees[d := degrees ! d - 1]"
    and ready': "length ready' \<le> length ready + 1"
    by (auto simp: relax_def result_simps)
  have "sum_list degrees' + 1 = sum_list degrees"
    unfolding degrees' using d by (rule sum_list_decrement)
  with ready' show ?thesis by simp
qed

lemma relax_all_measure:
  "try_fold relax (degrees, ready) ds = Inr (degrees', ready') \<Longrightarrow>
    sum_list degrees' + length ready' \<le> sum_list degrees + length ready"
proof (induction ds arbitrary: degrees ready)
  case (Cons d ds)
  then obtain deg1 ready1 where one: "relax (degrees, ready) d = Inr (deg1, ready1)"
    and rest: "try_fold relax (deg1, ready1) ds = Inr (degrees', ready')" by (auto simp: result_simps)
  from relax_measure [OF one] Cons.IH [OF rest] show ?case by simp
qed simp

function sort_loop ::
  "nat list list \<Rightarrow> nat list \<Rightarrow> nat list \<Rightarrow> nat list \<Rightarrow> (graph_error, nat list) outcome" where
  "sort_loop succs degrees [] order = Inr order"
| "sort_loop succs degrees (i # ready) order =
     and_then (index succs i) (\<lambda>ds.
     and_then (try_fold relax (degrees, ready) ds) (\<lambda>(degrees', ready').
     sort_loop succs degrees' ready' (order @ [i])))"
  by pat_completeness auto
termination
  by (relation "measure (\<lambda>(_, degrees, ready, _). sum_list degrees + length ready)")
    (auto simp: less_Suc_eq_le dest: relax_all_measure)

definition count_edge ::
  "(node_id, nat) btree_map \<Rightarrow> nat list \<times> nat list list \<Rightarrow> edge \<Rightarrow>
    (graph_error, nat list \<times> nat list list) outcome" where
  "count_edge ix st e =
     (case st of (degrees, succs) \<Rightarrow>
        and_then (expect (bt_get ix (source e))) (\<lambda>s.
        and_then (expect (bt_get ix (target e))) (\<lambda>t.
        and_then (index degrees t) (\<lambda>n.
        and_then (index succs s) (\<lambda>ds.
        Inr (degrees[t := n + 1], succs[s := ds @ [t]]))))))"

definition topological_sort ::
  "'d any_node list \<Rightarrow> (node_id, nat) btree_map \<Rightarrow> edge list \<Rightarrow> (graph_error, nat list) outcome" where
  "topological_sort ns ix es =
     and_then (try_fold (count_edge ix) (replicate (length ns) 0, replicate (length ns) []) es)
       (\<lambda>(degrees, succs).
     let ready = filter (\<lambda>i. degrees ! i = 0) [0..<length degrees] in
     and_then (sort_loop succs degrees ready []) (\<lambda>order.
     if length order = length ns then Inr order else panic))"

section \<open>Types, keys and reachability\<close>

definition resolve_expression_type ::
  "node_id \<Rightarrow> any_expression \<Rightarrow> (node_id, value_type) btree_map \<Rightarrow> (graph_error, value_type) outcome" where
  "resolve_expression_type i e resolved =
     and_then (try_map (\<lambda>v. expect (bt_get resolved (operand_node v))) (any_operands e)) (\<lambda>types.
     map_err (\<lambda>f. case f of Err x \<Rightarrow> Err (ExpressionType i x) | Panic \<Rightarrow> Panic) (any_result_type e types))"

definition node_result_type ::
  "'d any_node \<Rightarrow> (node_id, value_type) btree_map \<Rightarrow> (graph_error, value_type option) outcome" where
  "node_result_type n resolved =
     (case n of
        NInput x \<Rightarrow> Inr (Some (input_type (type_data x)))
      | NConstant x \<Rightarrow> Inr (Some (type_of_value (const_value (type_data x))))
      | NDerived x \<Rightarrow>
          and_then (resolve_expression_type (any_id n) (derived_expression (type_data x)) resolved) (\<lambda>t. Inr (Some t))
      | NSetting x \<Rightarrow>
          and_then (resolve_expression_type (any_id n) (setting_expression (type_data x)) resolved) (\<lambda>t. Inr (Some t))
      | NFinding x \<Rightarrow>
          and_then
            (case condition (type_data x) of
               Always \<Rightarrow> Inr ()
             | Compares c \<Rightarrow>
                 and_then (expect (bt_get resolved (operand_node (left c)))) (\<lambda>l.
                 and_then (expect (bt_get resolved (operand_node (right c)))) (\<lambda>r.
                 if l \<noteq> r then err (FindingComparisonTypeMismatch (any_id n) l r) else Inr ())))
            (\<lambda>_. Inr None))"

definition resolve_step ::
  "'d any_node list \<Rightarrow> (node_id, value_type) btree_map \<Rightarrow> nat \<Rightarrow>
    (graph_error, (node_id, value_type) btree_map) outcome" where
  "resolve_step ns resolved i =
     and_then (index ns i) (\<lambda>n.
     and_then (node_result_type n resolved) (\<lambda>t.
     Inr (case t of None \<Rightarrow> resolved | Some t \<Rightarrow> bt_insert (any_id n) t resolved)))"

definition resolve_types ::
  "'d any_node list \<Rightarrow> nat list \<Rightarrow> (graph_error, (node_id, value_type) btree_map) outcome" where
  "resolve_types ns order = try_fold (resolve_step ns) [] order"

definition add_setting_key ::
  "(rstring, node_id) btree_map \<Rightarrow> 'd any_node \<Rightarrow> (graph_error, (rstring, node_id) btree_map) outcome" where
  "add_setting_key seen n =
     (case n of
        NSetting s \<Rightarrow>
          (case bt_get seen (key (type_data s)) of
             Some first \<Rightarrow> err (DuplicateSettingKey (key (type_data s)) first (any_id n))
           | None \<Rightarrow> Inr (bt_insert (key (type_data s)) (any_id n) seen))
      | _ \<Rightarrow> Inr seen)"

definition validate_unique_setting_keys :: "'d any_node list \<Rightarrow> (graph_error, unit) outcome" where
  "validate_unique_setting_keys ns = and_then (try_fold add_setting_key [] ns) (\<lambda>_. Inr ())"

definition unreached :: "bool list \<Rightarrow> nat" where
  "unreached reachable = length (filter Not reachable)"

lemma unreached_update: "i < length r \<Longrightarrow> \<not> r ! i \<Longrightarrow> unreached (r[i := True]) < unreached r"
proof (induction r arbitrary: i)
  case (Cons x r)
  then show ?case by (cases i) (auto simp: unreached_def)
qed simp

function mark :: "nat list list \<Rightarrow> bool list \<Rightarrow> nat list \<Rightarrow> (graph_error, bool list) outcome" where
  "mark deps reachable pending =
     (if pending = [] then Inr reachable
      else let i = last pending; pending' = butlast pending in
      and_then (index reachable i) (\<lambda>seen.
      if seen then mark deps reachable pending'
      else
      and_then (index deps i) (\<lambda>ds. mark deps (reachable[i := True]) (pending' @ ds))))"
  by pat_completeness auto
termination
  by (relation "measures [\<lambda>(_, reachable, _). unreached reachable, \<lambda>(_, _, pending). length pending]")
    (auto simp: result_simps intro: unreached_update)

declare mark.simps [simp del]

fun first_unreachable :: "('d any_node \<times> bool) list \<Rightarrow> 'd any_node option" where
  "first_unreachable [] = None"
| "first_unreachable ((n, r) # rest) = (if \<not> r then Some n else first_unreachable rest)"

definition validate_reachability ::
  "'d any_node list \<Rightarrow> node_id list \<Rightarrow> (node_id, nat) btree_map \<Rightarrow> nat list list \<Rightarrow>
    (graph_error, unit) outcome" where
  "validate_reachability ns outs ix deps =
     and_then (try_map (\<lambda>o_id. expect (bt_get ix o_id)) outs) (\<lambda>pending.
     and_then (mark deps (replicate (length ns) False) pending) (\<lambda>reachable.
     case first_unreachable (zip ns reachable) of
       Some n \<Rightarrow> err (UnreachableNode (any_id n))
     | None \<Rightarrow> Inr ()))"

section \<open>The validated graph\<close>

definition push_edge :: "node_id \<Rightarrow> edge \<Rightarrow> (node_id, edge list) btree_map \<Rightarrow>
    (graph_error, (node_id, edge list) btree_map) outcome" where
  "push_edge i e m = and_then (expect (bt_get m i)) (\<lambda>es. Inr (bt_insert i (es @ [e]) m))"

definition validated_graph_new ::
  "'d graph_definition \<Rightarrow> (node_id, nat) btree_map \<Rightarrow> (citation_id, nat) btree_map \<Rightarrow> edge list \<Rightarrow>
    nat list \<Rightarrow> (node_id, value_type) btree_map \<Rightarrow> (graph_error, 'd validated_graph) outcome" where
  "validated_graph_new g ix cix es order types =
     (let none = foldl (\<lambda>m n. bt_insert (any_id n) [] m) [] (nodes g) in
      and_then (try_fold (\<lambda>(deps, depts) e.
          and_then (push_edge (target e) e deps) (\<lambda>deps.
          and_then (push_edge (source e) e depts) (\<lambda>depts.
          Inr (deps, depts)))) (none, none) es) (\<lambda>(deps, depts).
      and_then (try_map (\<lambda>i. and_then (index (nodes g) i) (\<lambda>n. Inr (any_id n))) order) (\<lambda>ids.
      Inr \<lparr>vg_nodes = nodes g, vg_citations = citations g, vg_outputs = outputs g, node_index = ix,
           citation_index = cix, edges = es, dependencies = deps, dependents = depts,
           topological_order = ids, resolved_types = types\<rparr>)))"

definition validate :: "'d graph_definition \<Rightarrow> (graph_error, 'd validated_graph) outcome" where
  "validate g =
     and_then (validate_local_validity g) (\<lambda>_.
     and_then (build_node_index (nodes g)) (\<lambda>ix.
     and_then (build_citation_index (citations g)) (\<lambda>cix.
     and_then (validate_outputs_and_citations g ix cix) (\<lambda>_.
     and_then (validate_operand_references (nodes g) ix) (\<lambda>_.
     let es = generate_edges (nodes g) in
     and_then (build_dependency_indices (nodes g) ix) (\<lambda>deps.
     and_then (validate_acyclic (nodes g) deps) (\<lambda>_.
     and_then (topological_sort (nodes g) ix es) (\<lambda>order.
     and_then (resolve_types (nodes g) order) (\<lambda>types.
     and_then (validate_unique_setting_keys (nodes g)) (\<lambda>_.
     and_then (validate_reachability (nodes g) (outputs g) ix deps) (\<lambda>_.
     validated_graph_new g ix cix es order types)))))))))))"

text \<open>Lookups on a validated graph.\<close>

definition vg_node :: "'d validated_graph \<Rightarrow> node_id \<Rightarrow> (graph_error, 'd any_node option) outcome" where
  "vg_node g i =
     (case bt_get (node_index g) i of None \<Rightarrow> Inr None
      | Some j \<Rightarrow> and_then (index (vg_nodes g) j) (\<lambda>n. Inr (Some n)))"

definition vg_citation :: "'d validated_graph \<Rightarrow> citation_id \<Rightarrow> (graph_error, citation option) outcome" where
  "vg_citation g i =
     (case bt_get (citation_index g) i of None \<Rightarrow> Inr None
      | Some j \<Rightarrow> and_then (index (vg_citations g) j) (\<lambda>c. Inr (Some c)))"

definition vg_dependencies :: "'d validated_graph \<Rightarrow> node_id \<Rightarrow> edge list option" where
  "vg_dependencies g i = bt_get (dependencies g) i"

definition vg_dependents :: "'d validated_graph \<Rightarrow> node_id \<Rightarrow> edge list option" where
  "vg_dependents g i = bt_get (dependents g) i"

definition resolved_type :: "'d validated_graph \<Rightarrow> node_id \<Rightarrow> value_type option" where
  "resolved_type g i = bt_get (resolved_types g) i"

end
