(* ===== verification/Calc_Cycles.thy ===== *)
theory Calc_Cycles imports Calc_Graph begin

text \<open>
  The depth-first search of the calculation graph: it accepts exactly the tables of dependencies
  without a cycle, reports a real cycle otherwise, and its fuel is enough.
\<close>

definition table_ok :: "nat list list \<Rightarrow> bool" where
  "table_ok deps \<longleftrightarrow> (\<forall>ds \<in> set deps. \<forall>d \<in> set ds. d < length deps)"

lemma table_ok_nth: "table_ok deps \<Longrightarrow> i < length deps \<Longrightarrow> d \<in> set (deps ! i) \<Longrightarrow> d < length deps"
  by (auto simp: table_ok_def)

text \<open>A dependency comes before the node that needs it.\<close>

definition before :: "nat list list \<Rightarrow> (nat \<times> nat) set" where
  "before deps = {(d, i). i < length deps \<and> d \<in> set (deps ! i)}"

definition needs :: "nat list list \<Rightarrow> nat \<Rightarrow> nat \<Rightarrow> bool" where
  "needs deps i d \<longleftrightarrow> d \<in> set (deps ! i)"

definition cycle_in :: "nat list list \<Rightarrow> nat list \<Rightarrow> bool" where
  "cycle_in deps c \<longleftrightarrow> c \<noteq> [] \<and> set c \<subseteq> {..<length deps} \<and> successively (needs deps) (c @ [hd c])"

lemma chain_rtrancl:
  "successively (needs deps) (xs @ [y]) \<Longrightarrow> set xs \<subseteq> {..<length deps} \<Longrightarrow> xs \<noteq> [] \<Longrightarrow>
    (y, hd xs) \<in> (before deps)\<^sup>+"
proof (induction xs)
  case (Cons x xs)
  show ?case
  proof (cases xs)
    case Nil
    with Cons.prems show ?thesis by (auto simp: before_def needs_def)
  next
    case (Cons x' xs')
    with Cons.prems have "(x', x) \<in> before deps" by (auto simp: before_def needs_def)
    moreover have "(y, x') \<in> (before deps)\<^sup>+" using Cons.IH Cons.prems Cons by auto
    ultimately show ?thesis by simp
  qed
qed simp

lemma cycle_not_wf: "cycle_in deps c \<Longrightarrow> \<not> wf (before deps)"
  using chain_rtrancl [of deps c "hd c"] wf_acyclic [of "before deps"]
  by (auto simp: cycle_in_def acyclic_def)

section \<open>The invariant of the search\<close>

definition dfs_ok :: "nat list list \<Rightarrow> dfs \<Rightarrow> bool" where
  "dfs_ok deps s \<longleftrightarrow> (case s of (st, stk) \<Rightarrow>
     length st = length deps \<and> set stk = {i. i < length st \<and> st ! i = Visiting} \<and> distinct stk \<and>
     successively (needs deps) stk \<and>
     (\<forall>i < length st. st ! i = Visited \<longrightarrow> i \<in> Wellfounded.acc (before deps)))"

definition fresh :: "visit_state list \<Rightarrow> nat" where
  "fresh st = length (filter (\<lambda>x. x = Unvisited) st)"

definition keeps_visited :: "visit_state list \<Rightarrow> visit_state list \<Rightarrow> bool" where
  "keeps_visited st st' \<longleftrightarrow> length st' = length st \<and> (\<forall>j < length st. st ! j = Visited \<longrightarrow> st' ! j = Visited)"

lemma keeps_visited_refl [simp]: "keeps_visited st st"
  by (simp add: keeps_visited_def)

lemma keeps_visited_trans: "keeps_visited a b \<Longrightarrow> keeps_visited b c \<Longrightarrow> keeps_visited a c"
  by (simp add: keeps_visited_def)

lemma fresh_update:
  "i < length st \<Longrightarrow> st ! i = Unvisited \<Longrightarrow> x \<noteq> Unvisited \<Longrightarrow> fresh (st[i := x]) + 1 = fresh st"
proof (induction st arbitrary: i)
  case (Cons a st)
  then show ?case by (cases i) (auto simp: fresh_def)
qed simp

lemma fresh_same:
  "i < length st \<Longrightarrow> st ! i \<noteq> Unvisited \<Longrightarrow> x \<noteq> Unvisited \<Longrightarrow> fresh (st[i := x]) = fresh st"
proof (induction st arbitrary: i)
  case (Cons a st)
  then show ?case by (cases i) (auto simp: fresh_def)
qed simp

definition found_cycle :: "'d any_node list \<Rightarrow> nat list list \<Rightarrow> graph_error failure \<Rightarrow> bool" where
  "found_cycle ns deps f \<longleftrightarrow>
     (\<exists>c. cycle_in deps c \<and> f = Err (Cycle (map (\<lambda>i. any_id (ns ! i)) (c @ [hd c]))))"

text \<open>What a search that starts from a state gives: a state that goes on, or a cycle.\<close>

definition dfs_goes ::
  "'d any_node list \<Rightarrow> nat list list \<Rightarrow> dfs \<Rightarrow> nat set \<Rightarrow> (graph_error, dfs) outcome \<Rightarrow> bool" where
  "dfs_goes ns deps s goal r \<longleftrightarrow>
     (case r of
        Inl f \<Rightarrow> found_cycle ns deps f
      | Inr s' \<Rightarrow> dfs_ok deps s' \<and> snd s' = snd s \<and> keeps_visited (fst s) (fst s') \<and>
          fresh (fst s') \<le> fresh (fst s) \<and> (\<forall>d \<in> goal. fst s' ! d = Visited))"

lemma position_drop:
  "position (\<lambda>c. c = d) xs = Some k \<Longrightarrow> k < length xs \<and> xs ! k = d"
proof (induction xs arbitrary: k)
  case (Cons x xs)
  then show ?case by (cases k) (auto split: if_splits)
qed simp

lemma position_exists: "d \<in> set xs \<Longrightarrow> \<exists>k. position (\<lambda>c. c = d) xs = Some k"
  by (induction xs) auto

lemma successively_drop: "successively P xs \<Longrightarrow> successively P (drop n xs)"
  by (metis append_take_drop_id successively_append_iff)

lemma cycle_found_correct:
  assumes ok: "dfs_ok deps (st, stk)" and ns: "length ns = length deps"
    and d: "d \<in> set stk" "stk \<noteq> []" "d \<in> set (deps ! last stk)"
  shows "\<exists>f. cycle_found ns stk d = Inl f \<and> found_cycle ns deps f"
proof -
  obtain k where k: "position (\<lambda>c. c = d) stk = Some k" using position_exists [OF d(1)] by blast
  then have kd: "k < length stk" "stk ! k = d" using position_drop [OF k] by simp_all
  let ?c = "drop k stk"
  have c: "?c \<noteq> []" "hd ?c = d" using kd by (simp_all add: hd_drop_conv_nth)
  have bounds: "set stk \<subseteq> {..<length deps}" using ok by (auto simp: dfs_ok_def)
  then have sub: "set ?c \<subseteq> {..<length deps}" by (meson order_trans set_drop_subset)
  have "successively (needs deps) ?c" using ok successively_drop by (auto simp: dfs_ok_def)
  moreover have "needs deps (last ?c) d" using d(2,3) kd(1) by (simp add: needs_def)
  ultimately have "successively (needs deps) (?c @ [d])" using c(1) by (simp add: successively_append_iff)
  with c sub have cyc: "cycle_in deps ?c" by (simp add: cycle_in_def)
  have names: "try_map (\<lambda>i. and_then (index ns i) (\<lambda>n. Inr (any_id n))) ?c =
      (Inr (map (\<lambda>i. any_id (ns ! i)) ?c) :: (graph_error, node_id list) outcome)"
    by (rule try_map_total) (use sub ns in auto)
  have "d < length ns" using d(1) bounds ns by auto
  then have "cycle_found ns stk d = Inl (Err (Cycle (map (\<lambda>i. any_id (ns ! i)) (?c @ [hd ?c]))))"
    using k names by (simp add: cycle_found_def c(2))
  with cyc show ?thesis unfolding found_cycle_def by blast
qed

section \<open>The loop over the dependencies\<close>

definition dfs_step :: "(nat \<Rightarrow> dfs \<Rightarrow> (graph_error, dfs) outcome) \<Rightarrow> 'd any_node list \<Rightarrow>
    dfs \<Rightarrow> nat \<Rightarrow> (graph_error, dfs) outcome" where
  "dfs_step go ns s d = (case s of (states, stack) \<Rightarrow>
     and_then (index states d) (\<lambda>st.
     case st of
       Unvisited \<Rightarrow> go d (states, stack)
     | Visiting \<Rightarrow> cycle_found ns stack d
     | Visited \<Rightarrow> Inr (states, stack)))"

lemma dfs_goes_step:
  assumes "dfs_goes ns deps (st', stk) goal r" "keeps_visited st st'" "fresh st' \<le> fresh st" "st' ! d = Visited"
    "d < length st'"
  shows "dfs_goes ns deps (st, stk) (insert d goal) r"
  using assms by (cases r) (auto simp: dfs_goes_def keeps_visited_def)

lemma dfs_loop_correct:
  assumes go: "\<And>d st. \<lbrakk>dfs_ok deps (st, stk); d < length deps; st ! d = Unvisited; fresh st \<le> m;
      d \<in> set (deps ! last stk)\<rbrakk> \<Longrightarrow> dfs_goes ns deps (st, stk) {d} (go d (st, stk))"
    and ns: "length ns = length deps" and table: "table_ok deps" and stk: "stk \<noteq> []" "last stk < length deps"
    and ok: "dfs_ok deps (st, stk)" "fresh st \<le> m" "set ds \<subseteq> set (deps ! last stk)"
  shows "dfs_goes ns deps (st, stk) (set ds) (try_fold (dfs_step go ns) (st, stk) ds)"
  using ok
proof (induction ds arbitrary: st)
  case Nil
  then show ?case by (simp add: dfs_goes_def)
next
  case (Cons d ds)
  have d: "d < length deps" "d \<in> set (deps ! last stk)" "length st = length deps"
    using Cons.prems table_ok_nth [OF table stk(2), of d] by (auto simp: dfs_ok_def)
  show ?case
  proof (cases "st ! d")
    case Unvisited
    then have step: "dfs_step go ns (st, stk) d = go d (st, stk)" using d by (simp add: dfs_step_def)
    from go [OF Cons.prems(1) d(1) Unvisited Cons.prems(2) d(2)]
    have one: "dfs_goes ns deps (st, stk) {d} (go d (st, stk))" .
    show ?thesis
    proof (cases "go d (st, stk)")
      case (Inl f)
      with one step show ?thesis by (simp add: dfs_goes_def)
    next
      case (Inr s')
      then obtain st' where s': "s' = (st', stk)" and st': "dfs_ok deps (st', stk)" "keeps_visited st st'"
        "fresh st' \<le> fresh st" "st' ! d = Visited"
        using one by (cases s') (auto simp: dfs_goes_def)
      have "dfs_goes ns deps (st', stk) (set ds) (try_fold (dfs_step go ns) (st', stk) ds)"
        by (rule Cons.IH) (use st' Cons.prems in auto)
      moreover have "d < length st'" using st'(2) d by (simp add: keeps_visited_def)
      ultimately show ?thesis using dfs_goes_step [OF _ st'(2,3,4)] step Inr s' by simp
    qed
  next
    case Visiting
    then have "d \<in> set stk" using Cons.prems(1) d by (simp add: dfs_ok_def)
    then obtain f where "(cycle_found ns stk d :: (graph_error, dfs) outcome) = Inl f" "found_cycle ns deps f"
      using cycle_found_correct [OF Cons.prems(1) ns _ stk(1) d(2)] by blast
    then show ?thesis using Visiting d by (simp add: dfs_goes_def dfs_step_def)
  next
    case Visited
    then have step: "dfs_step go ns (st, stk) d = Inr (st, stk)" using d by (simp add: dfs_step_def)
    have "dfs_goes ns deps (st, stk) (set ds) (try_fold (dfs_step go ns) (st, stk) ds)"
      by (rule Cons.IH) (use Cons.prems in auto)
    from dfs_goes_step [OF this keeps_visited_refl order_refl Visited] show ?thesis using step d by simp
  qed
qed

lemma visit_unfold:
  "visit (Suc fuel) ns deps i (states, stack) =
     and_then (set_at states i Visiting) (\<lambda>states.
     and_then (index deps i) (\<lambda>ds.
     and_then (try_fold (dfs_step (visit fuel ns deps) ns) (states, stack @ [i]) ds) (\<lambda>(states, stack).
     and_then (set_at states i Visited) (\<lambda>states. Inr (states, butlast stack)))))"
proof -
  have "(\<lambda>(states, stack) d. and_then (index states d) (\<lambda>st.
         case st of Unvisited \<Rightarrow> visit fuel ns deps d (states, stack)
         | Visiting \<Rightarrow> cycle_found ns stack d | Visited \<Rightarrow> Inr (states, stack))) =
      dfs_step (visit fuel ns deps) ns"
    by (simp add: fun_eq_iff dfs_step_def)
  then show ?thesis by simp
qed

section \<open>The search\<close>

lemma visit_correct:
  assumes "dfs_ok deps (st, stk)" "i < length deps" "st ! i = Unvisited" "fresh st \<le> fuel"
    and "stk = [] \<or> i \<in> set (deps ! last stk)" "length ns = length deps" "table_ok deps"
  shows "dfs_goes ns deps (st, stk) {i} (visit fuel ns deps i (st, stk))"
  using assms
proof (induction fuel arbitrary: st stk i)
  case 0
  then have "i < length st" by (simp add: dfs_ok_def)
  then have "fresh st \<noteq> 0" using 0(3) by (auto simp: fresh_def filter_empty_conv) (metis nth_mem)
  with 0 show ?case by simp
next
  case (Suc fuel)
  let ?st = "st[i := Visiting]" and ?stk = "stk @ [i]"
  have len: "length st = length deps" using Suc.prems(1) by (simp add: dfs_ok_def)
  have fresh: "fresh ?st + 1 = fresh st" using Suc.prems(2,3) len by (intro fresh_update) simp_all
  have "i \<notin> set stk" using Suc.prems(1,3) by (auto simp: dfs_ok_def)
  then have ok: "dfs_ok deps (?st, ?stk)"
    using Suc.prems(1,2,5) len
    by (auto simp: dfs_ok_def successively_append_iff needs_def nth_list_update)
  have go: "dfs_goes ns deps (sta, ?stk) {d} (visit fuel ns deps d (sta, ?stk))"
    if "dfs_ok deps (sta, ?stk)" "d < length deps" "sta ! d = Unvisited" "fresh sta \<le> fuel"
      "d \<in> set (deps ! last ?stk)" for d sta
    by (rule Suc.IH) (use that Suc.prems in auto)
  have loop: "dfs_goes ns deps (?st, ?stk) (set (deps ! i))
      (try_fold (dfs_step (visit fuel ns deps) ns) (?st, ?stk) (deps ! i))"
    by (rule dfs_loop_correct [where m = fuel]) (use go ok fresh Suc.prems in auto)
  show ?case
  proof (cases "try_fold (dfs_step (visit fuel ns deps) ns) (?st, ?stk) (deps ! i)")
    case (Inl f)
    with loop show ?thesis
      using Suc.prems(2) len by (simp add: visit_unfold dfs_goes_def del: visit.simps)
  next
    case (Inr s')
    then obtain stb where s': "s' = (stb, ?stk)" and b: "dfs_ok deps (stb, ?stk)" "keeps_visited ?st stb"
      "fresh stb \<le> fresh ?st" "\<forall>d \<in> set (deps ! i). stb ! d = Visited"
      using loop by (cases s') (auto simp: dfs_goes_def)
    have lenb: "length stb = length deps" using b(1) by (simp add: dfs_ok_def)
    have result: "visit (Suc fuel) ns deps i (st, stk) = Inr (stb[i := Visited], stk)"
      using Inr s' Suc.prems(2) len lenb by (simp add: visit_unfold del: visit.simps)
    have visiting: "stb ! i = Visiting" using b(1) by (auto simp: dfs_ok_def)
    have "i \<in> Wellfounded.acc (before deps)"
    proof (rule accI)
      fix d assume "(d, i) \<in> before deps"
      then have "d \<in> set (deps ! i)" by (simp add: before_def)
      then show "d \<in> Wellfounded.acc (before deps)"
        using b(1,4) table_ok_nth [OF Suc.prems(7,2)] lenb by (auto simp: dfs_ok_def)
    qed
    then have "dfs_ok deps (stb[i := Visited], stk)"
      using b(1) lenb \<open>i \<notin> set stk\<close> Suc.prems(2)
      by (auto simp: dfs_ok_def successively_append_iff nth_list_update)
    moreover have "keeps_visited st (stb[i := Visited])"
      using b(2) lenb len Suc.prems(2,3) by (auto simp: keeps_visited_def nth_list_update)
    moreover have "fresh (stb[i := Visited]) \<le> fresh st"
      using fresh_same [of i stb Visited] visiting lenb Suc.prems(2) b(3) fresh by simp
    ultimately show ?thesis
      using result lenb Suc.prems(2) by (simp add: dfs_goes_def)
  qed
qed

definition outer_step :: "'d any_node list \<Rightarrow> nat list list \<Rightarrow> dfs \<Rightarrow> nat \<Rightarrow> (graph_error, dfs) outcome" where
  "outer_step ns deps s i = (case s of (states, stack) \<Rightarrow>
     and_then (index states i) (\<lambda>st.
     if st = Unvisited then visit (length ns) ns deps i (states, stack) else Inr (states, stack)))"

lemma validate_acyclic_unfold:
  "validate_acyclic ns deps = and_then
     (try_fold (outer_step ns deps) (replicate (length ns) Unvisited, []) [0..<length ns]) (\<lambda>_. Inr ())"
proof -
  have "(\<lambda>(states, stack) i. and_then (index states i) (\<lambda>st.
      if st = Unvisited then visit (length ns) ns deps i (states, stack) else Inr (states, stack))) =
    outer_step ns deps"
    by (simp add: fun_eq_iff outer_step_def)
  then show ?thesis by (simp add: validate_acyclic_def)
qed

lemma outer_loop_correct:
  assumes "length ns = length deps" "table_ok deps" "dfs_ok deps (st, [])" "\<forall>i \<in> set is. i < length deps"
  shows "dfs_goes ns deps (st, []) (set is) (try_fold (outer_step ns deps) (st, []) is)"
  using assms(3,4)
proof (induction "is" arbitrary: st)
  case Nil
  then show ?case by (simp add: dfs_goes_def)
next
  case (Cons i js)
  have i: "i < length deps" "length st = length deps" using Cons.prems by (simp_all add: dfs_ok_def)
  have "fresh st \<le> length st" by (simp add: fresh_def)
  then have go: "dfs_goes ns deps (st, []) {i} (outer_step ns deps (st, []) i)" if "st ! i = Unvisited"
    using visit_correct [OF Cons.prems(1) i(1) that, of "length ns" ns] assms(1,2) i that
    by (simp add: outer_step_def)
  have skip: "outer_step ns deps (st, []) i = Inr (st, [])" "st ! i = Visited" if "st ! i \<noteq> Unvisited"
    using that Cons.prems(1) i by (cases "st ! i"; auto simp: outer_step_def dfs_ok_def)+
  show ?case
  proof (cases "outer_step ns deps (st, []) i")
    case (Inl f)
    with go skip show ?thesis by (cases "st ! i = Unvisited") (simp_all add: dfs_goes_def)
  next
    case (Inr s')
    have one: "dfs_goes ns deps (st, []) {i} (outer_step ns deps (st, []) i)"
      using go skip Cons.prems(1) by (cases "st ! i = Unvisited") (simp_all add: dfs_goes_def)
    with Inr obtain st' where s': "s' = (st', [])" and st': "dfs_ok deps (st', [])" "keeps_visited st st'"
      "fresh st' \<le> fresh st" "st' ! i = Visited"
      by (cases s') (auto simp: dfs_goes_def)
    have "dfs_goes ns deps (st', []) (set js) (try_fold (outer_step ns deps) (st', []) js)"
      by (rule Cons.IH) (use st' Cons.prems in auto)
    from dfs_goes_step [OF this st'(2,3,4)] show ?thesis
      using Inr s' i st'(1) by (simp add: dfs_ok_def)
  qed
qed

lemma validate_acyclic_correct:
  assumes "length ns = length deps" "table_ok deps"
  shows "validate_acyclic ns deps = Inr () \<and> wf (before deps) \<or>
    (\<exists>f. validate_acyclic ns deps = Inl f \<and> found_cycle ns deps f)"
proof -
  let ?st = "replicate (length ns) Unvisited"
  let ?r = "try_fold (outer_step ns deps) (?st, []) [0..<length ns]"
  have ok: "dfs_ok deps (?st, [])" using assms(1) by (simp add: dfs_ok_def)
  have goes: "dfs_goes ns deps (?st, []) (set [0..<length ns]) ?r"
    by (rule outer_loop_correct [OF assms ok]) (simp add: assms(1))
  show ?thesis
  proof (cases ?r)
    case (Inl f)
    with goes show ?thesis by (simp add: dfs_goes_def validate_acyclic_unfold)
  next
    case (Inr s')
    with goes have s': "dfs_ok deps s'" "\<forall>d < length ns. fst s' ! d = Visited" by (simp_all add: dfs_goes_def)
    have "i \<in> Wellfounded.acc (before deps)" for i
    proof (cases "i < length deps")
      case True
      then show ?thesis using s' assms(1) by (cases s') (simp add: dfs_ok_def)
    next
      case False
      then show ?thesis by (auto simp: before_def intro: accI [of i])
    qed
    then have "wf (before deps)" by (intro acc_wfI) simp
    with Inr show ?thesis by (simp add: validate_acyclic_unfold)
  qed
qed

end
