(* ===== verification/Calc_Order.thy ===== *)
theory Calc_Order imports Calc_Graph begin

text \<open>
  The topological order of the calculation graph: Kahn's algorithm with the smallest ready index
  first visits every node of an acyclic graph exactly once, after all the nodes it depends on.
\<close>

section \<open>Counting edges\<close>

definition pairs :: "(node_id, nat) btree_map \<Rightarrow> edge list \<Rightarrow> (nat \<times> nat) list" where
  "pairs ix es = map (\<lambda>e. (the (bt_get ix (source e)), the (bt_get ix (target e)))) es"

definition into :: "(nat \<times> nat) list \<Rightarrow> nat \<Rightarrow> nat" where
  "into E t = length (filter (\<lambda>e. snd e = t) E)"

definition out_of :: "(nat \<times> nat) list \<Rightarrow> nat \<Rightarrow> nat list" where
  "out_of E s = map snd (filter (\<lambda>e. fst e = s) E)"

lemma count_edges:
  assumes "\<forall>e \<in> set es. \<exists>s t. bt_get ix (source e) = Some s \<and> bt_get ix (target e) = Some t \<and>
      s < n \<and> t < n"
    and "length degrees = n" "length succs = n"
  shows "try_fold (count_edge ix) (degrees, succs) es =
    Inr (map (\<lambda>t. degrees ! t + into (pairs ix es) t) [0..<n],
         map (\<lambda>s. succs ! s @ out_of (pairs ix es) s) [0..<n])"
  using assms
proof (induction es arbitrary: degrees succs)
  case Nil
  then show ?case by (auto simp: pairs_def into_def out_of_def map_nth intro: nth_equalityI)
next
  case (Cons e es)
  then obtain s t where e: "bt_get ix (source e) = Some s" "bt_get ix (target e) = Some t" "s < n" "t < n"
    by auto
  have step: "count_edge ix (degrees, succs) e = Inr (degrees[t := degrees ! t + 1], succs[s := succs ! s @ [t]])"
    using e Cons.prems(2,3) by (simp add: count_edge_def)
  have "try_fold (count_edge ix) (degrees[t := degrees ! t + 1], succs[s := succs ! s @ [t]]) es =
    Inr (map (\<lambda>u. degrees[t := degrees ! t + 1] ! u + into (pairs ix es) u) [0..<n],
         map (\<lambda>u. succs[s := succs ! s @ [t]] ! u @ out_of (pairs ix es) u) [0..<n])"
    by (rule Cons.IH) (use Cons.prems in auto)
  with step e Cons.prems(2,3) show ?case
    by (auto simp: pairs_def into_def out_of_def nth_list_update)
qed

section \<open>Relaxing the edges of one node\<close>

lemma relax_all:
  assumes "\<forall>d \<in> set ds. d < length degrees" "\<forall>d < length degrees. count_list ds d \<le> degrees ! d"
    and "sorted ready" "distinct ready" "\<forall>r \<in> set ready. r < length degrees \<and> degrees ! r = 0"
  shows "\<exists>degrees' ready'. try_fold relax (degrees, ready) ds = Inr (degrees', ready') \<and>
    length degrees' = length degrees \<and> (\<forall>t < length degrees. degrees' ! t = degrees ! t - count_list ds t) \<and>
    sorted ready' \<and> distinct ready' \<and> set ready' = set ready \<union> {t \<in> set ds. degrees' ! t = 0}"
  using assms
proof (induction ds arbitrary: degrees ready)
  case (Cons d ds)
  have d: "d < length degrees" "1 \<le> degrees ! d" "d \<notin> set ready"
    using Cons.prems(1,2,5) by (force split: if_splits)+
  let ?deg = "degrees[d := degrees ! d - 1]"
  let ?ready = "if degrees ! d - 1 = 0 then insort d ready else ready"
  have step: "relax (degrees, ready) d = Inr (?deg, ?ready)"
    using d by (simp add: relax_def)
  have counts: "count_list ds t \<le> ?deg ! t" if "t < length degrees" for t
    using Cons.prems(2) that by (cases "t = d") (force split: if_splits)+
  obtain degrees' ready' where ih: "try_fold relax (?deg, ?ready) ds = Inr (degrees', ready')"
    "length degrees' = length ?deg" "\<forall>t < length ?deg. degrees' ! t = ?deg ! t - count_list ds t"
    "sorted ready'" "distinct ready'" "set ready' = set ?ready \<union> {t \<in> set ds. degrees' ! t = 0}"
  proof -
    have "\<exists>degrees' ready'. try_fold relax (?deg, ?ready) ds = Inr (degrees', ready') \<and>
      length degrees' = length ?deg \<and> (\<forall>t < length ?deg. degrees' ! t = ?deg ! t - count_list ds t) \<and>
      sorted ready' \<and> distinct ready' \<and> set ready' = set ?ready \<union> {t \<in> set ds. degrees' ! t = 0}"
    proof (rule Cons.IH)
      show "\<forall>r \<in> set ?ready. r < length ?deg \<and> ?deg ! r = 0"
        using Cons.prems(5) d by (auto simp: set_insort_key nth_list_update)
    qed (use Cons.prems d counts in \<open>auto simp: sorted_insort distinct_insort\<close>)
    then show thesis using that by blast
  qed
  have deg': "degrees' ! t = degrees ! t - count_list (d # ds) t" if "t < length degrees" for t
    using ih(3) that d by (cases "t = d") auto
  have "degrees' ! d = 0 \<longleftrightarrow> degrees ! d - 1 = 0 \<or> d \<in> set ds \<and> degrees' ! d = 0"
  proof
    assume zero: "degrees' ! d = 0"
    show "degrees ! d - 1 = 0 \<or> d \<in> set ds \<and> degrees' ! d = 0"
    proof (cases "d \<in> set ds")
      case False
      then have "count_list ds d = 0" by (simp add: count_list_0_iff)
      then show ?thesis using zero deg' [OF d(1)] by simp
    qed (use zero in simp)
  next
    assume "degrees ! d - 1 = 0 \<or> d \<in> set ds \<and> degrees' ! d = 0"
    then show "degrees' ! d = 0" using deg' [OF d(1)] by auto
  qed
  then have "set ready' = set ready \<union> {t \<in> set (d # ds). degrees' ! t = 0}"
    unfolding ih(6) by (auto simp: set_insort_key)
  with ih step deg' show ?case by auto
qed simp

section \<open>The loop\<close>

definition open_edges :: "(nat \<times> nat) list \<Rightarrow> nat list \<Rightarrow> nat \<Rightarrow> (nat \<times> nat) list" where
  "open_edges E order t = filter (\<lambda>e. snd e = t \<and> fst e \<notin> set order) E"

definition sources_first :: "(nat \<times> nat) list \<Rightarrow> nat list \<Rightarrow> bool" where
  "sources_first E order \<longleftrightarrow>
     (\<forall>k < length order. \<forall>s. (s, order ! k) \<in> set E \<longrightarrow> s \<in> set (take k order))"

definition kahn_ok :: "nat \<Rightarrow> (nat \<times> nat) list \<Rightarrow> nat list \<Rightarrow> nat list \<Rightarrow> nat list \<Rightarrow> bool" where
  "kahn_ok n E degrees ready order \<longleftrightarrow>
     length degrees = n \<and> sorted ready \<and> distinct (order @ ready) \<and> set (order @ ready) \<subseteq> {..<n} \<and>
     (\<forall>t < n. degrees ! t = length (open_edges E order t)) \<and>
     (\<forall>t < n. t \<notin> set order \<longrightarrow> (t \<in> set ready \<longleftrightarrow> degrees ! t = 0)) \<and> sources_first E order"

lemma sources_first_snoc:
  "sources_first E order \<Longrightarrow> (\<forall>s. (s, i) \<in> set E \<longrightarrow> s \<in> set order) \<Longrightarrow> sources_first E (order @ [i])"
  by (auto simp: sources_first_def nth_append less_Suc_eq)

lemma sources_first_open: "sources_first E order \<Longrightarrow> t \<in> set order \<Longrightarrow> open_edges E order t = []"
proof -
  assume first: "sources_first E order" and "t \<in> set order"
  then obtain k where k: "k < length order" "order ! k = t" by (auto simp: in_set_conv_nth)
  have "fst e \<in> set order" if "e \<in> set E" "snd e = t" for e
  proof -
    have "(fst e, order ! k) \<in> set E" using that k by (metis prod.collapse)
    then have "fst e \<in> set (take k order)" using first k unfolding sources_first_def by blast
    then show ?thesis by (rule in_set_takeD)
  qed
  then show ?thesis by (auto simp: open_edges_def filter_empty_conv)
qed

lemma open_edges_Cons:
  "open_edges (e # E) order t = (if snd e = t \<and> fst e \<notin> set order then [e] else []) @ open_edges E order t"
  by (simp add: open_edges_def)

lemma out_of_Cons: "out_of (e # E) s = (if fst e = s then [snd e] else []) @ out_of E s"
  by (simp add: out_of_def)

lemma open_edges_snoc:
  assumes "i \<notin> set order"
  shows "length (open_edges E order t) = length (open_edges E (order @ [i]) t) + count_list (out_of E i) t"
proof (induction E)
  case Nil
  show ?case by (simp add: open_edges_def out_of_def)
next
  case (Cons e E)
  then show ?case using assms
    by (cases "fst e = i"; cases "fst e \<in> set order"; cases "snd e = t") (simp_all add: open_edges_Cons out_of_Cons)
qed

lemma kahn_step:
  assumes ok: "kahn_ok n E degrees (i # ready) order" and E: "set E \<subseteq> {..<n} \<times> {..<n}"
  shows "\<exists>degrees' ready'. try_fold relax (degrees, ready) (out_of E i) = Inr (degrees', ready') \<and>
    kahn_ok n E degrees' ready' (order @ [i])"
proof -
  have i: "i < n" "i \<notin> set order" "i \<notin> set ready" "degrees ! i = 0"
    using ok by (auto simp: kahn_ok_def)
  have deg: "degrees ! t = length (open_edges E (order @ [i]) t) + count_list (out_of E i) t" if "t < n" for t
    using ok that open_edges_snoc [OF i(2)] by (simp add: kahn_ok_def)
  have zero: "degrees ! t = 0" if "t \<in> set order" for t
    using ok that sources_first_open [of E order t] by (auto simp: kahn_ok_def)
  have ready0: "\<forall>r \<in> set ready. r < length degrees \<and> degrees ! r = 0"
    using ok by (auto simp: kahn_ok_def)
  have "\<exists>degrees' ready'. try_fold relax (degrees, ready) (out_of E i) = Inr (degrees', ready') \<and>
    length degrees' = length degrees \<and>
    (\<forall>t < length degrees. degrees' ! t = degrees ! t - count_list (out_of E i) t) \<and>
    sorted ready' \<and> distinct ready' \<and> set ready' = set ready \<union> {t \<in> set (out_of E i). degrees' ! t = 0}"
  proof (rule relax_all)
    show "\<forall>d \<in> set (out_of E i). d < length degrees" using E ok by (auto simp: out_of_def kahn_ok_def)
    have "length degrees = n" using ok by (simp add: kahn_ok_def)
    then show "\<forall>d < length degrees. count_list (out_of E i) d \<le> degrees ! d" using deg by simp
  qed (use ok ready0 in \<open>auto simp: kahn_ok_def\<close>)
  then obtain degrees' ready' where r: "try_fold relax (degrees, ready) (out_of E i) = Inr (degrees', ready')"
    "length degrees' = n" "\<forall>t < n. degrees' ! t = degrees ! t - count_list (out_of E i) t"
    "sorted ready'" "distinct ready'" "set ready' = set ready \<union> {t \<in> set (out_of E i). degrees' ! t = 0}"
    using ok by (auto simp: kahn_ok_def)
  have deg': "degrees' ! t = length (open_edges E (order @ [i]) t)" if "t < n" for t
    using r(3) deg that by simp
  have new: "degrees ! t \<noteq> 0 \<and> t < n" if "t \<in> set (out_of E i)" for t
  proof -
    have "t < n" using that E by (auto simp: out_of_def)
    moreover have "count_list (out_of E i) t \<noteq> 0" using that by (simp add: count_list_0_iff)
    ultimately show ?thesis using deg by simp
  qed
  have out: "t \<notin> set (order @ [i])" if "t \<in> set (out_of E i)" for t
    using new [OF that] zero [of t] i(4) by auto
  have "distinct (order @ [i] @ ready')"
    using ok r(5,6) out by (auto simp: kahn_ok_def)
  moreover have "set (order @ [i] @ ready') \<subseteq> {..<n}"
    using ok r(6) new by (auto simp: kahn_ok_def)
  moreover have "t \<in> set ready' \<longleftrightarrow> degrees' ! t = 0" if "t < n" "t \<notin> set (order @ [i])" for t
  proof
    assume "t \<in> set ready'"
    then show "degrees' ! t = 0" using r(3,6) ready0 that by auto
  next
    assume z: "degrees' ! t = 0"
    show "t \<in> set ready'"
    proof (cases "degrees ! t = 0")
      case True
      then show ?thesis using ok that r(6) by (auto simp: kahn_ok_def)
    next
      case False
      then have "count_list (out_of E i) t \<noteq> 0" using z r(3) that by auto
      then show ?thesis using z r(6) by (simp add: count_list_0_iff)
    qed
  qed
  moreover have "\<forall>s. (s, i) \<in> set E \<longrightarrow> s \<in> set order"
  proof -
    have "open_edges E order i = []" using ok i by (simp add: kahn_ok_def)
    then show ?thesis by (auto simp: open_edges_def filter_empty_conv)
  qed
  then have "sources_first E (order @ [i])"
    using ok by (intro sources_first_snoc) (auto simp: kahn_ok_def)
  ultimately have "kahn_ok n E degrees' ready' (order @ [i])"
    using r(2,4) deg' by (simp add: kahn_ok_def)
  with r(1) show ?thesis by blast
qed

lemma sort_loop_correct:
  assumes "kahn_ok n E degrees ready order" "set E \<subseteq> {..<n} \<times> {..<n}" "succs = map (out_of E) [0..<n]"
  shows "\<exists>order' degrees'. sort_loop succs degrees ready order = Inr order' \<and> kahn_ok n E degrees' [] order'"
  using assms
proof (induction succs degrees ready order rule: sort_loop.induct)
  case (1 succs degrees order)
  then show ?case by auto
next
  case (2 succs degrees i ready order)
  have i: "i < n" using 2(2) by (auto simp: kahn_ok_def)
  from kahn_step [OF 2(2,3)] obtain degrees' ready' where
    step: "try_fold relax (degrees, ready) (out_of E i) = Inr (degrees', ready')"
      "kahn_ok n E degrees' ready' (order @ [i])" by blast
  have "index succs i = (Inr (out_of E i) :: (graph_error, nat list) outcome)" using i 2(4) by simp
  with 2 step show ?case by simp
qed

lemma kahn_complete:
  assumes ok: "kahn_ok n E degrees [] order" and E: "set E \<subseteq> {..<n} \<times> {..<n}" and wf: "wf (set E)"
  shows "set order = {..<n}"
proof (rule ccontr)
  assume "set order \<noteq> {..<n}"
  then obtain x where x: "x \<in> {..<n} - set order" using ok by (auto simp: kahn_ok_def)
  from wfE_min [OF wf x] obtain m where m: "m < n" "m \<notin> set order"
    "\<And>s. (s, m) \<in> set E \<Longrightarrow> s \<notin> {..<n} - set order" by (metis DiffD1 DiffD2 lessThan_iff)
  have "open_edges E order m = []" using m(3) E by (auto simp: open_edges_def filter_empty_conv)
  then show False using ok m by (auto simp: kahn_ok_def)
qed

lemma topological_sort_correct:
  assumes ix: "\<forall>e \<in> set es. \<exists>s t. bt_get ix (source e) = Some s \<and> bt_get ix (target e) = Some t \<and>
      s < length ns \<and> t < length ns"
    and wf: "wf (set (pairs ix es))"
  shows "\<exists>order. topological_sort ns ix es = Inr order \<and> distinct order \<and> set order = {..<length ns} \<and>
    sources_first (pairs ix es) order"
proof -
  let ?n = "length ns" and ?E = "pairs ix es"
  let ?deg = "map (into ?E) [0..<?n]" and ?succs = "map (out_of ?E) [0..<?n]"
  let ?ready = "filter (\<lambda>i. ?deg ! i = 0) [0..<?n]"
  have E: "set ?E \<subseteq> {..<?n} \<times> {..<?n}"
    using ix by (fastforce simp: pairs_def)
  have "try_fold (count_edge ix) (replicate ?n 0, replicate ?n []) es =
    Inr (map (\<lambda>t. replicate ?n 0 ! t + into ?E t) [0..<?n], map (\<lambda>s. replicate ?n [] ! s @ out_of ?E s) [0..<?n])"
    by (rule count_edges) (use ix in auto)
  moreover have "map (\<lambda>t. replicate ?n 0 ! t + into ?E t) [0..<?n] = ?deg"
    "map (\<lambda>s. replicate ?n [] ! s @ out_of ?E s) [0..<?n] = ?succs" by auto
  ultimately have counted: "try_fold (count_edge ix) (replicate ?n 0, replicate ?n []) es = Inr (?deg, ?succs)"
    by simp
  have "sorted ?ready" by (simp add: sorted_wrt_filter)
  then have "kahn_ok ?n ?E ?deg ?ready []"
    by (auto simp: kahn_ok_def sources_first_def into_def open_edges_def)
  from sort_loop_correct [OF this E refl] obtain order degrees' where
    order: "sort_loop ?succs ?deg ?ready [] = Inr order" "kahn_ok ?n ?E degrees' [] order" by blast
  have set: "set order = {..<?n}" using kahn_complete [OF order(2) E wf] .
  have distinct: "distinct order" "sources_first ?E order" using order(2) by (auto simp: kahn_ok_def)
  then have "length order = ?n" using set by (metis card_lessThan distinct_card)
  then have "topological_sort ns ix es = Inr order"
    using counted order(1) by (simp add: topological_sort_def Let_def)
  with set distinct show ?thesis by blast
qed

end
