(* ===== verification/Calc_Valid.thy ===== *)
theory Calc_Valid imports Calc_Cycles Calc_Order begin

text \<open>
  What a valid calculation graph is, stated without algorithms, and the phases of the validation
  that check names and references against it.
\<close>

section \<open>The specification\<close>

definition setting_keys :: "'d any_node list \<Rightarrow> rstring list" where
  "setting_keys ns = concat (map (\<lambda>n. case n of NSetting s \<Rightarrow> [key (type_data s)] | _ \<Rightarrow> []) ns)"

definition no_blanks :: "'d graph_definition \<Rightarrow> bool" where
  "no_blanks g \<longleftrightarrow> outputs g \<noteq> [] \<and> (\<forall>k \<in> set (setting_keys (nodes g)). trim k \<noteq> []) \<and>
     (\<forall>n \<in> set (nodes g). \<forall>v \<in> set (node_operands n). trim (role v) \<noteq> [])"

definition outputs_ok :: "'d graph_definition \<Rightarrow> bool" where
  "outputs_ok g \<longleftrightarrow> distinct (outputs g) \<and>
     (\<forall>out \<in> set (outputs g). \<exists>n \<in> set (nodes g). any_id n = out \<and> output_node_type n = None)"

definition claims_ok :: "'d graph_definition \<Rightarrow> bool" where
  "claims_ok g \<longleftrightarrow> (\<forall>n \<in> set (nodes g). \<forall>c \<in> set (citation_claims (any_metadata n)).
     claim_citation c \<in> citation_id ` set (citations g))"

definition operands_ok :: "'d any_node list \<Rightarrow> bool" where
  "operands_ok ns \<longleftrightarrow> (\<forall>n \<in> set ns. \<forall>v \<in> set (node_operands n).
     \<exists>m \<in> set ns. any_id m = operand_node v \<and> \<not> is_finding m)"

text \<open>The edges as a relation between node IDs: a source feeds its target.\<close>

definition feeds :: "'d any_node list \<Rightarrow> (node_id \<times> node_id) set" where
  "feeds ns = {(operand_node v, any_id n) | n v. n \<in> set ns \<and> v \<in> set (node_operands n)}"

text \<open>The type, if any, that the rules give a node when \<open>ty\<close> types its operands.\<close>

definition expression_rule :: "(node_id \<Rightarrow> value_type option) \<Rightarrow> any_expression \<Rightarrow> value_type option \<Rightarrow> bool" where
  "expression_rule ty e r \<longleftrightarrow>
     (\<exists>ts t. map (\<lambda>v. ty (operand_node v)) (any_operands e) = map Some ts \<and> typed e ts t \<and> r = Some t)"

fun type_rule :: "(node_id \<Rightarrow> value_type option) \<Rightarrow> 'd any_node \<Rightarrow> value_type option \<Rightarrow> bool" where
  "type_rule ty (NInput n) r \<longleftrightarrow> r = Some (input_type (type_data n))"
| "type_rule ty (NConstant n) r \<longleftrightarrow> r = Some (type_of_value (const_value (type_data n)))"
| "type_rule ty (NDerived n) r \<longleftrightarrow> expression_rule ty (derived_expression (type_data n)) r"
| "type_rule ty (NSetting n) r \<longleftrightarrow> expression_rule ty (setting_expression (type_data n)) r"
| "type_rule ty (NFinding n) r \<longleftrightarrow> r = None \<and>
     (case condition (type_data n) of
        Always \<Rightarrow> True
      | Compares c \<Rightarrow> \<exists>t. ty (operand_node (left c)) = Some t \<and> ty (operand_node (right c)) = Some t)"

definition node_typed :: "(node_id \<Rightarrow> value_type option) \<Rightarrow> 'd any_node \<Rightarrow> bool" where
  "node_typed ty n \<longleftrightarrow> type_rule ty n (ty (any_id n))"

definition typing :: "'d any_node list \<Rightarrow> (node_id \<Rightarrow> value_type option) \<Rightarrow> bool" where
  "typing ns ty \<longleftrightarrow> dom ty \<subseteq> any_id ` set ns \<and> (\<forall>n \<in> set ns. node_typed ty n)"

definition all_needed :: "'d graph_definition \<Rightarrow> bool" where
  "all_needed g \<longleftrightarrow> (\<forall>n \<in> set (nodes g). \<exists>out \<in> set (outputs g). (any_id n, out) \<in> (feeds (nodes g))\<^sup>*)"

definition valid_graph :: "'d graph_definition \<Rightarrow> bool" where
  "valid_graph g \<longleftrightarrow> no_blanks g \<and> distinct (map any_id (nodes g)) \<and>
     distinct (map citation_id (citations g)) \<and> outputs_ok g \<and> claims_ok g \<and> operands_ok (nodes g) \<and>
     acyclic (feeds (nodes g)) \<and> (\<exists>ty. typing (nodes g) ty) \<and> distinct (setting_keys (nodes g)) \<and> all_needed g"

text \<open>The expressions of the nodes come from the public constructors.\<close>

fun node_built :: "'d any_node \<Rightarrow> bool" where
  "node_built (NDerived n) \<longleftrightarrow> built (derived_expression (type_data n))"
| "node_built (NSetting n) \<longleftrightarrow> built (setting_expression (type_data n))"
| "node_built _ \<longleftrightarrow> True"

section \<open>Loops that check\<close>

lemma for_each_simps:
  "for_each f [] = Inr ()"
  "for_each f (x # xs) = and_then (f x) (\<lambda>_. for_each f xs)"
  by (simp_all add: for_each_def)

lemma for_each_Inr: "for_each f xs = Inr u \<longleftrightarrow> (\<forall>x \<in> set xs. f x = Inr ())"
  by (induction xs) (auto simp: for_each_simps result_simps)

lemma no_panic_for_each: "(\<And>x. x \<in> set xs \<Longrightarrow> no_panic (f x)) \<Longrightarrow> no_panic (for_each f xs)"
  by (induction xs) (simp_all add: for_each_simps)

lemma ball_enumerate: "(\<forall>x \<in> set (enumerate k xs). P (snd x)) \<longleftrightarrow> (\<forall>x \<in> set xs. P x)"
proof -
  have "snd ` set (enumerate k xs) = set xs" by (metis list.set_map map_snd_enumerate)
  then show ?thesis by (metis (mono_tags, lifting) imageE image_eqI)
qed

lemma local_validity_Inr: "validate_local_validity g = Inr u \<longleftrightarrow> no_blanks g"
proof -
  have roles: "for_each (\<lambda>(i, v). if trim (role v) = [] then err (EmptyOperandRole (any_id n) i) else Inr ())
      (enumerate 0 (node_operands n)) = Inr () \<longleftrightarrow> (\<forall>v \<in> set (node_operands n). trim (role v) \<noteq> [])" for n :: "'a any_node"
    using ball_enumerate [of 0 "node_operands n" "\<lambda>v. trim (role v) \<noteq> []"]
    by (simp add: for_each_Inr case_prod_beta split: if_splits)
  have keys: "(\<forall>k \<in> set (setting_keys ns). trim k \<noteq> []) \<longleftrightarrow>
      (\<forall>n \<in> set ns. case n of NSetting s \<Rightarrow> trim (key (type_data s)) \<noteq> [] | _ \<Rightarrow> True)" for ns :: "'a any_node list"
    unfolding setting_keys_def by (auto split: any_node.splits)
  have node: "and_then
          (case n of NSetting s \<Rightarrow> if trim (key (type_data s)) = [] then err (EmptySettingKey (any_id n)) else Inr ()
           | _ \<Rightarrow> Inr ()) (\<lambda>_.
        for_each (\<lambda>(i, v). if trim (role v) = [] then err (EmptyOperandRole (any_id n) i) else Inr ())
          (enumerate 0 (node_operands n))) = Inr () \<longleftrightarrow>
      (case n of NSetting s \<Rightarrow> trim (key (type_data s)) \<noteq> [] | _ \<Rightarrow> True) \<and>
      (\<forall>v \<in> set (node_operands n). trim (role v) \<noteq> [])" for n :: "'a any_node"
    unfolding and_then_Inr_iff roles by (simp split: any_node.split)
  show ?thesis
    unfolding validate_local_validity_def no_blanks_def keys
    by (simp add: for_each_Inr [where xs = "nodes g"] node ball_conj_distrib)
qed

lemma local_validity_no_panic: "no_panic (validate_local_validity g)"
  unfolding validate_local_validity_def
  by (auto intro!: no_panic_for_each split: any_node.split)

section \<open>Indexes\<close>

definition index_ok :: "('a \<Rightarrow> 'k::linorder) \<Rightarrow> 'a list \<Rightarrow> ('k, nat) btree_map \<Rightarrow> bool" where
  "index_ok f xs ix \<longleftrightarrow> bt_invar ix \<and> distinct (map f xs) \<and>
     (\<forall>k i. bt_get ix k = Some i \<longleftrightarrow> i < length xs \<and> f (xs ! i) = k)"

lemma index_ok_get: "index_ok f xs ix \<Longrightarrow> i < length xs \<Longrightarrow> bt_get ix (f (xs ! i)) = Some i"
  by (simp add: index_ok_def)

lemma index_ok_Some: "index_ok f xs ix \<Longrightarrow> bt_get ix k = Some i \<Longrightarrow> i < length xs \<and> f (xs ! i) = k"
  by (simp add: index_ok_def)

lemma index_ok_None: "index_ok f xs ix \<Longrightarrow> bt_get ix k = None \<longleftrightarrow> k \<notin> f ` set xs"
  unfolding index_ok_def by (metis (no_types, lifting) image_iff in_set_conv_nth not_None_eq)

definition index_step :: "('a \<Rightarrow> 'k::linorder) \<Rightarrow> ('k \<Rightarrow> nat \<Rightarrow> nat \<Rightarrow> 'e) \<Rightarrow> ('k, nat) btree_map \<Rightarrow> nat \<times> 'a \<Rightarrow>
    ('e, ('k, nat) btree_map) outcome" where
  "index_step f dup ix x = (case bt_get ix (f (snd x)) of
     Some first \<Rightarrow> err (dup (f (snd x)) first (fst x)) | None \<Rightarrow> Inr (bt_insert (f (snd x)) (fst x) ix))"

lemma index_step_unfold:
  "index_step f dup = (\<lambda>ix (i, x). case bt_get ix (f x) of
     Some first \<Rightarrow> err (dup (f x) first i) | None \<Rightarrow> Inr (bt_insert (f x) i ix))"
  by (auto simp: index_step_def fun_eq_iff split: option.split)

lemma index_ok_snoc:
  assumes "index_ok f xs ix" "bt_get ix (f x) = None"
  shows "index_ok f (xs @ [x]) (bt_insert (f x) (length xs) ix)"
proof -
  have inv: "bt_invar ix" and new: "f x \<notin> f ` set xs" and dist: "distinct (map f xs)"
    using assms index_ok_None [OF assms(1), of "f x"] by (auto simp: index_ok_def)
  have "bt_get (bt_insert (f x) (length xs) ix) k = Some i \<longleftrightarrow> i < length (xs @ [x]) \<and> f ((xs @ [x]) ! i) = k" for k i
  proof (cases "k = f x")
    case True
    have "f (xs ! i) \<noteq> f x" if "i < length xs" using new that by (metis image_eqI nth_mem)
    then show ?thesis using inv True by (auto simp: nth_append less_Suc_eq)
  next
    case False
    then show ?thesis using inv assms(1) by (auto simp: nth_append less_Suc_eq index_ok_def)
  qed
  with inv new dist show ?thesis by (simp add: index_ok_def)
qed

lemma build_index_from:
  assumes "index_ok f ys ix"
  shows "(\<exists>ix'. try_fold (index_step f dup) ix (enumerate (length ys) xs) = Inr ix' \<and> index_ok f (ys @ xs) ix') \<or>
    (\<exists>e. try_fold (index_step f dup) ix (enumerate (length ys) xs) = err e \<and> \<not> distinct (map f (ys @ xs)))"
  using assms
proof (induction xs arbitrary: ys ix)
  case (Cons x xs)
  show ?case
  proof (cases "bt_get ix (f x)")
    case None
    from Cons.IH [OF index_ok_snoc [OF Cons.prems None]] None show ?thesis
      by (simp add: index_step_def)
  next
    case (Some i)
    then have "f x \<in> f ` set ys" using index_ok_None [OF Cons.prems, of "f x"] by auto
    then show ?thesis using Some by (auto simp: index_step_def)
  qed
qed simp

lemma build_index:
  "(\<exists>ix. try_fold (index_step f dup) [] (enumerate 0 xs) = Inr ix \<and> index_ok f xs ix) \<or>
    (\<exists>e. try_fold (index_step f dup) [] (enumerate 0 xs) = err e \<and> \<not> distinct (map f xs))"
  using build_index_from [of f "[]" "[]" dup xs] by (simp add: index_ok_def)

lemma node_index_cases:
  obtains ix where "build_node_index ns = Inr ix" "index_ok any_id ns ix"
  | e where "build_node_index ns = err e" "\<not> distinct (map any_id ns)"
proof -
  have "build_node_index ns = try_fold (index_step any_id DuplicateNodeId) [] (enumerate 0 ns)"
    by (simp add: build_node_index_def index_step_unfold)
  then show thesis using build_index [of any_id DuplicateNodeId ns] that by auto
qed

lemma citation_index_cases:
  obtains ix where "build_citation_index cs = Inr ix" "index_ok citation_id cs ix"
  | e where "build_citation_index cs = err e" "\<not> distinct (map citation_id cs)"
proof -
  have "build_citation_index cs = try_fold (index_step citation_id DuplicateCitationId) [] (enumerate 0 cs)"
    by (simp add: build_citation_index_def index_step_unfold)
  then show thesis using build_index [of citation_id DuplicateCitationId cs] that by auto
qed

section \<open>Outputs, citations and operands\<close>

lemma index_ok_bex:
  assumes "index_ok f xs ix"
  shows "(\<exists>x \<in> set xs. f x = k \<and> P x) \<longleftrightarrow> (\<exists>i. bt_get ix k = Some i \<and> P (xs ! i))"
  using assms unfolding index_ok_def by (metis in_set_conv_nth)

lemma check_output_Inr:
  assumes "index_ok any_id ns ix" "bt_invar seen"
  shows "check_output ns ix seen out = Inr seen' \<longleftrightarrow> \<not> bt_contains seen out \<and>
    (\<exists>n \<in> set ns. any_id n = out \<and> output_node_type n = None) \<and> seen' = bt_insert out () seen"
  unfolding index_ok_bex [OF assms(1)]
  using index_ok_Some [OF assms(1)] by (auto simp: check_output_def result_simps split: option.splits)

lemma check_outputs_Inr:
  assumes "index_ok any_id ns ix" "bt_invar seen"
  shows "(\<exists>seen'. try_fold (check_output ns ix) seen outs = Inr seen') \<longleftrightarrow>
    distinct outs \<and> (\<forall>out \<in> set outs. \<not> bt_contains seen out \<and>
      (\<exists>n \<in> set ns. any_id n = out \<and> output_node_type n = None))"
  using assms(2)
proof (induction outs arbitrary: seen)
  case (Cons out outs)
  have "(\<exists>seen'. try_fold (check_output ns ix) seen (out # outs) = Inr seen') \<longleftrightarrow>
      (\<not> bt_contains seen out \<and> (\<exists>n \<in> set ns. any_id n = out \<and> output_node_type n = None)) \<and>
      (\<exists>seen'. try_fold (check_output ns ix) (bt_insert out () seen) outs = Inr seen')"
    using Cons.prems by (auto simp: result_simps check_output_Inr [OF assms(1)])
  also have "\<dots> \<longleftrightarrow> distinct (out # outs) \<and> (\<forall>x \<in> set (out # outs). \<not> bt_contains seen x \<and>
      (\<exists>n \<in> set ns. any_id n = x \<and> output_node_type n = None))"
    using Cons.prems by (subst Cons.IH) auto
  finally show ?case .
qed simp

lemma check_outputs_no_panic:
  assumes "index_ok any_id ns ix"
  shows "no_panic (try_fold (check_output ns ix) seen outs)"
  by (rule no_panic_try_fold [where I = "\<lambda>_. True"])
    (auto simp: check_output_def result_simps split: option.split dest: index_ok_Some [OF assms])

lemma outputs_and_citations:
  assumes ix: "index_ok any_id (nodes g) ix" and cix: "index_ok citation_id (citations g) cix"
  shows "validate_outputs_and_citations g ix cix = Inr () \<longleftrightarrow> outputs_ok g \<and> claims_ok g"
    and "no_panic (validate_outputs_and_citations g ix cix)"
proof -
  have known: "bt_contains cix k \<longleftrightarrow> k \<in> citation_id ` set (citations g)" for k
    using index_ok_None [OF cix, of k] by (auto simp: bt_contains_def)
  have claims: "for_each (\<lambda>(i, c). if \<not> bt_contains cix (claim_citation c)
        then err (UnknownCitation (any_id n) i (claim_citation c)) else Inr ())
      (enumerate 0 (citation_claims (any_metadata n))) = Inr () \<longleftrightarrow>
      (\<forall>c \<in> set (citation_claims (any_metadata n)). claim_citation c \<in> citation_id ` set (citations g))"
    for n :: "'a any_node"
    using ball_enumerate [of 0 "citation_claims (any_metadata n)" "\<lambda>c. bt_contains cix (claim_citation c)"]
    by (simp add: for_each_Inr case_prod_beta known split: if_splits)
  show "validate_outputs_and_citations g ix cix = Inr () \<longleftrightarrow> outputs_ok g \<and> claims_ok g"
    unfolding validate_outputs_and_citations_def and_then_Inr_iff for_each_Inr [where xs = "nodes g"]
      claims claims_ok_def outputs_ok_def
    using check_outputs_Inr [OF ix, of "[]" "outputs g"] by (simp add: bt_contains_def)
  show "no_panic (validate_outputs_and_citations g ix cix)"
    unfolding validate_outputs_and_citations_def
    by (auto simp: check_outputs_no_panic [OF ix] intro!: no_panic_for_each)
qed

lemma operand_references:
  assumes ix: "index_ok any_id ns ix"
  shows "validate_operand_references ns ix = Inr () \<longleftrightarrow> operands_ok ns"
    and "no_panic (validate_operand_references ns ix)"
proof -
  have one: "and_then (ok_or (Err (UnknownOperand (any_id n) i (operand_node v))) (bt_get ix (operand_node v))) (\<lambda>j.
      and_then (index ns j) (\<lambda>m. if is_finding m then err (FindingOperand (any_id n) i (operand_node v)) else Inr ())) = Inr ()
      \<longleftrightarrow> (\<exists>m \<in> set ns. any_id m = operand_node v \<and> \<not> is_finding m)" for n :: "'a any_node" and i and v :: operand
    unfolding index_ok_bex [OF ix] using index_ok_Some [OF ix] by (auto simp: result_simps split: if_splits)
  have "for_each (\<lambda>(i, v).
       and_then (ok_or (Err (UnknownOperand (any_id n) i (operand_node v))) (bt_get ix (operand_node v))) (\<lambda>j.
       and_then (index ns j) (\<lambda>m.
       if is_finding m then err (FindingOperand (any_id n) i (operand_node v)) else Inr ())))
     (enumerate 0 (node_operands n)) = Inr () \<longleftrightarrow>
     (\<forall>v \<in> set (node_operands n). \<exists>m \<in> set ns. any_id m = operand_node v \<and> \<not> is_finding m)" for n :: "'a any_node"
    using ball_enumerate [of 0 "node_operands n" "\<lambda>v. \<exists>m \<in> set ns. any_id m = operand_node v \<and> \<not> is_finding m"]
    by (simp add: for_each_Inr case_prod_beta one)
  then show "validate_operand_references ns ix = Inr () \<longleftrightarrow> operands_ok ns"
    by (simp add: validate_operand_references_def for_each_Inr operands_ok_def)
  show "no_panic (validate_operand_references ns ix)"
    unfolding validate_operand_references_def
    by (auto simp: result_simps intro!: no_panic_for_each dest: index_ok_Some [OF ix])
qed

end
