(* ===== verification/Calc_Typing.thy ===== *)
theory Calc_Typing imports Calc_Valid begin

text \<open>
  The later phases of the validation: the dependency table and its relation to the edges, the
  resolution of types along the topological order, setting keys, reachability, and the indexes of
  the validated graph.
\<close>

section \<open>The dependency table\<close>

definition position_of :: "(node_id, nat) btree_map \<Rightarrow> node_id \<Rightarrow> nat" where
  "position_of ix k = the (bt_get ix k)"

definition dependency_table :: "'d any_node list \<Rightarrow> (node_id, nat) btree_map \<Rightarrow> nat list list" where
  "dependency_table ns ix = map (\<lambda>n. map (\<lambda>v. position_of ix (operand_node v)) (node_operands n)) ns"

lemma operands_ok_position:
  assumes "index_ok any_id ns ix" "operands_ok ns" "n \<in> set ns" "v \<in> set (node_operands n)"
  shows "bt_get ix (operand_node v) = Some (position_of ix (operand_node v))"
    "position_of ix (operand_node v) < length ns"
    "any_id (ns ! position_of ix (operand_node v)) = operand_node v"
    "\<not> is_finding (ns ! position_of ix (operand_node v))"
proof -
  have "\<exists>m \<in> set ns. any_id m = operand_node v \<and> \<not> is_finding m"
    using assms(2-4) by (simp add: operands_ok_def)
  then obtain i where i: "bt_get ix (operand_node v) = Some i" "\<not> is_finding (ns ! i)"
    unfolding index_ok_bex [OF assms(1)] by blast
  then show "bt_get ix (operand_node v) = Some (position_of ix (operand_node v))"
    "position_of ix (operand_node v) < length ns"
    "any_id (ns ! position_of ix (operand_node v)) = operand_node v"
    "\<not> is_finding (ns ! position_of ix (operand_node v))"
    using index_ok_Some [OF assms(1) i(1)] by (simp_all add: position_of_def)
qed

lemma dependency_indices:
  assumes "index_ok any_id ns ix" "operands_ok ns"
  shows "build_dependency_indices ns ix = Inr (dependency_table ns ix)"
  unfolding build_dependency_indices_def dependency_table_def
proof (rule try_map_total)
  fix n assume n: "n \<in> set ns"
  show "try_map (\<lambda>v. expect (bt_get ix (operand_node v))) (node_operands n) =
    Inr (map (\<lambda>v. position_of ix (operand_node v)) (node_operands n))"
    by (rule try_map_total) (simp add: operands_ok_position(1) [OF assms n])
qed

lemma table_length [simp]: "length (dependency_table ns ix) = length ns"
  by (simp add: dependency_table_def)

lemma table_nth:
  "i < length ns \<Longrightarrow> dependency_table ns ix ! i = map (\<lambda>v. position_of ix (operand_node v)) (node_operands (ns ! i))"
  by (simp add: dependency_table_def)

lemma dependency_table_ok: "index_ok any_id ns ix \<Longrightarrow> operands_ok ns \<Longrightarrow> table_ok (dependency_table ns ix)"
  by (auto simp: table_ok_def dependency_table_def operands_ok_position(2))

text \<open>The table is the relation \<open>feeds\<close> on indices.\<close>

lemma before_feeds:
  assumes ix: "index_ok any_id ns ix" and ok: "operands_ok ns" and i: "i < length ns" and d: "d < length ns"
  shows "(d, i) \<in> before (dependency_table ns ix) \<longleftrightarrow> (any_id (ns ! d), any_id (ns ! i)) \<in> feeds ns"
proof
  assume "(d, i) \<in> before (dependency_table ns ix)"
  then obtain v where v: "v \<in> set (node_operands (ns ! i))" "d = position_of ix (operand_node v)"
    using i by (auto simp: before_def table_nth)
  then have "any_id (ns ! d) = operand_node v"
    using operands_ok_position(3) [OF ix ok nth_mem [OF i]] by simp
  then show "(any_id (ns ! d), any_id (ns ! i)) \<in> feeds ns"
    using v(1) i unfolding feeds_def by force
next
  assume "(any_id (ns ! d), any_id (ns ! i)) \<in> feeds ns"
  then obtain n v where n: "n \<in> set ns" "any_id n = any_id (ns ! i)" and
    v: "v \<in> set (node_operands n)" "operand_node v = any_id (ns ! d)" by (auto simp: feeds_def)
  have "distinct (map any_id ns)" using ix by (simp add: index_ok_def)
  then have "n = ns ! i" using n i by (auto simp: distinct_map dest!: inj_onD [where f = any_id])
  moreover have "position_of ix (operand_node v) = d"
    using index_ok_get [OF ix d] v(2) by (simp add: position_of_def)
  ultimately show "(d, i) \<in> before (dependency_table ns ix)"
    using v(1) i by (auto simp: before_def table_nth)
qed

lemma before_bounds:
  "table_ok deps \<Longrightarrow> (d, i) \<in> before deps \<Longrightarrow> d < length deps \<and> i < length deps"
  by (auto simp: before_def dest: table_ok_nth)

lemma feeds_indices:
  assumes ix: "index_ok any_id ns ix" and ok: "operands_ok ns" and "(a, b) \<in> feeds ns"
  obtains d i where "d < length ns" "i < length ns" "a = any_id (ns ! d)" "b = any_id (ns ! i)"
    "(d, i) \<in> before (dependency_table ns ix)"
proof -
  obtain n v where n: "n \<in> set ns" "b = any_id n" "v \<in> set (node_operands n)" "a = operand_node v"
    using assms(3) by (auto simp: feeds_def)
  obtain i where i: "i < length ns" "n = ns ! i" using n(1) by (auto simp: in_set_conv_nth)
  let ?d = "position_of ix (operand_node v)"
  have d: "?d < length ns" "any_id (ns ! ?d) = a"
    using operands_ok_position [OF ix ok n(1,3)] n(4) by simp_all
  have "(?d, i) \<in> before (dependency_table ns ix)"
    using before_feeds [OF ix ok i(1) d(1)] assms(3) d(2) n(2) i(2) by simp
  with d i n show thesis using that by blast
qed

lemma finite_feeds: "finite (feeds ns)"
proof -
  have "feeds ns = (\<Union>n \<in> set ns. \<Union>v \<in> set (node_operands n). {(operand_node v, any_id n)})"
    by (auto simp: feeds_def)
  then show ?thesis by simp
qed

lemma wf_before:
  assumes ix: "index_ok any_id ns ix" and ok: "operands_ok ns"
  shows "wf (before (dependency_table ns ix)) \<longleftrightarrow> acyclic (feeds ns)"
proof
  assume wf: "wf (before (dependency_table ns ix))"
  have "feeds ns \<subseteq> inv_image (before (dependency_table ns ix)) (position_of ix)"
  proof
    fix e assume "e \<in> feeds ns"
    then obtain a b where e: "e = (a, b)" "(a, b) \<in> feeds ns" by (cases e) auto
    obtain d i where "d < length ns" "i < length ns" "a = any_id (ns ! d)" "b = any_id (ns ! i)"
      "(d, i) \<in> before (dependency_table ns ix)" using feeds_indices [OF ix ok e(2)] .
    then show "e \<in> inv_image (before (dependency_table ns ix)) (position_of ix)"
      using e(1) index_ok_get [OF ix] by (simp add: position_of_def)
  qed
  then have "wf (feeds ns)" using wf wf_inv_image wf_subset by blast
  then show "acyclic (feeds ns)" by (rule wf_acyclic)
next
  assume "acyclic (feeds ns)"
  then have wf: "wf (feeds ns)" using finite_feeds finite_acyclic_wf by blast
  have "before (dependency_table ns ix) \<subseteq> inv_image (feeds ns) (\<lambda>i. any_id (ns ! i))"
  proof
    fix p assume "p \<in> before (dependency_table ns ix)"
    then obtain d i where p: "p = (d, i)" "(d, i) \<in> before (dependency_table ns ix)" by (cases p) auto
    then have "d < length ns" "i < length ns" using before_bounds [OF dependency_table_ok [OF ix ok]] by auto
    then show "p \<in> inv_image (feeds ns) (\<lambda>i. any_id (ns ! i))" using p before_feeds [OF ix ok] by simp
  qed
  then show "wf (before (dependency_table ns ix))" using wf wf_inv_image wf_subset by blast
qed

lemma reach_feeds:
  assumes ix: "index_ok any_id ns ix" and ok: "operands_ok ns" and i: "i < length ns"
  shows "(d, i) \<in> (before (dependency_table ns ix))\<^sup>* \<and> d < length ns \<longleftrightarrow>
    d < length ns \<and> (any_id (ns ! d), any_id (ns ! i)) \<in> (feeds ns)\<^sup>*"
proof -
  have "(any_id (ns ! d), any_id (ns ! i)) \<in> (feeds ns)\<^sup>*" if "(d, i) \<in> (before (dependency_table ns ix))\<^sup>*"
    using that
  proof (induction rule: converse_rtrancl_induct)
    case (step d e)
    then have "d < length ns" "e < length ns"
      using before_bounds [OF dependency_table_ok [OF ix ok]] by auto
    then show ?case using step before_feeds [OF ix ok] by (meson converse_rtrancl_into_rtrancl)
  qed simp
  moreover have "(d, i) \<in> (before (dependency_table ns ix))\<^sup>*"
    if "(a, any_id (ns ! i)) \<in> (feeds ns)\<^sup>*" "a = any_id (ns ! d)" "d < length ns" for a
    using that
  proof (induction arbitrary: d rule: converse_rtrancl_induct)
    case base
    then have "d = i" using index_ok_get [OF ix] i by (metis option.inject)
    then show ?case by simp
  next
    case (step a b)
    obtain e j where e: "e < length ns" "j < length ns" "a = any_id (ns ! e)" "b = any_id (ns ! j)"
      "(e, j) \<in> before (dependency_table ns ix)" using feeds_indices [OF ix ok step(1)] .
    have "e = d" using e step.prems index_ok_get [OF ix] by (metis option.inject)
    then show ?case using step.IH [OF e(4,2)] e(5) by (meson converse_rtrancl_into_rtrancl)
  qed
  ultimately show ?thesis by auto
qed

section \<open>Edges\<close>

lemma set_generate_edges:
  "set (generate_edges ns) = {edge_from_operand (any_id n) v | n v. n \<in> set ns \<and> v \<in> set (node_operands n)}"
  by (auto simp: generate_edges_def)

lemma edges_bounds:
  assumes ix: "index_ok any_id ns ix" and ok: "operands_ok ns" and e: "e \<in> set (generate_edges ns)"
  shows "\<exists>s t. bt_get ix (source e) = Some s \<and> bt_get ix (target e) = Some t \<and> s < length ns \<and> t < length ns"
proof -
  obtain n v where n: "n \<in> set ns" "v \<in> set (node_operands n)" "e = edge_from_operand (any_id n) v"
    using e by (auto simp: set_generate_edges)
  obtain i where "i < length ns" "n = ns ! i" using n(1) by (auto simp: in_set_conv_nth)
  then show ?thesis
    using operands_ok_position(1,2) [OF ix ok n(1,2)] index_ok_get [OF ix] n(3) by (simp add: edge_from_operand_def)
qed

lemma set_pairs:
  assumes ix: "index_ok any_id ns ix" and ok: "operands_ok ns"
  shows "set (pairs ix (generate_edges ns)) = before (dependency_table ns ix)"
proof -
  have target: "position_of ix (any_id (ns ! i)) = i" if "i < length ns" for i
    using index_ok_get [OF ix that] by (simp add: position_of_def)
  have "generate_edges ns = concat (map (\<lambda>n. map (edge_from_operand (any_id n)) (node_operands n)) ns)"
    by (rule generate_edges_def)
  then have "set (pairs ix (generate_edges ns)) =
      (\<Union>n \<in> set ns. (\<lambda>v. (position_of ix (operand_node v), position_of ix (any_id n))) ` set (node_operands n))"
    by (simp add: pairs_def edge_from_operand_def position_of_def image_image image_UN)
  also have "\<dots> = (\<Union>i \<in> {..<length ns}. (\<lambda>v. (position_of ix (operand_node v), i)) ` set (node_operands (ns ! i)))"
    by (simp add: set_conv_nth [of ns] target lessThan_def [symmetric] image_Collect [symmetric])
  also have "\<dots> = before (dependency_table ns ix)"
    by (force simp: before_def table_nth image_iff)
  finally show ?thesis .
qed

definition ordered :: "nat list list \<Rightarrow> nat list \<Rightarrow> bool" where
  "ordered deps xs \<longleftrightarrow> (\<forall>k < length xs. set (deps ! (xs ! k)) \<subseteq> set (take k xs))"

lemma ordered_snoc: "ordered deps (xs @ [i]) \<longleftrightarrow> ordered deps xs \<and> set (deps ! i) \<subseteq> set xs"
  by (auto simp: ordered_def nth_append less_Suc_eq)

lemma ordered_closed: "ordered deps xs \<Longrightarrow> j \<in> set xs \<Longrightarrow> set (deps ! j) \<subseteq> set xs"
  unfolding ordered_def by (metis in_set_conv_nth in_set_takeD subset_iff)

lemma topological_order_exists:
  assumes ix: "index_ok any_id ns ix" and ok: "operands_ok ns" and acyclic: "acyclic (feeds ns)"
  obtains order where "topological_sort ns ix (generate_edges ns) = Inr order" "distinct order"
    "set order = {..<length ns}"
    "ordered (dependency_table ns ix) order"
proof -
  have "wf (set (pairs ix (generate_edges ns)))"
    using wf_before [OF ix ok] acyclic by (simp add: set_pairs [OF ix ok])
  then have "\<exists>order. topological_sort ns ix (generate_edges ns) = Inr order \<and> distinct order \<and>
      set order = {..<length ns} \<and> sources_first (pairs ix (generate_edges ns)) order"
    by (intro topological_sort_correct) (use edges_bounds [OF ix ok] in auto)
  then obtain order where order: "topological_sort ns ix (generate_edges ns) = Inr order" "distinct order"
    "set order = {..<length ns}" "sources_first (pairs ix (generate_edges ns)) order" by blast
  have "order ! k < length ns" if "k < length order" for k using that order(3) nth_mem by blast
  then have "ordered (dependency_table ns ix) order"
    using order(4) by (auto simp: ordered_def sources_first_def set_pairs [OF ix ok] before_def)
  with order show thesis using that by blast
qed

text \<open>
  The resolution of types along the topological order computes the only typing of the graph, and
  fails exactly when there is none.
\<close>

section \<open>The rules\<close>

lemma expression_rule_cong:
  "(\<And>v. v \<in> set (any_operands e) \<Longrightarrow> ty (operand_node v) = ty' (operand_node v)) \<Longrightarrow>
    expression_rule ty e r \<longleftrightarrow> expression_rule ty' e r"
  by (simp add: expression_rule_def cong: map_cong)

lemma type_rule_cong:
  "(\<And>v. v \<in> set (node_operands n) \<Longrightarrow> ty (operand_node v) = ty' (operand_node v)) \<Longrightarrow>
    type_rule ty n r \<longleftrightarrow> type_rule ty' n r"
proof -
  assume same: "\<And>v. v \<in> set (node_operands n) \<Longrightarrow> ty (operand_node v) = ty' (operand_node v)"
  show ?thesis
  proof (cases n)
    case (NDerived x)
    then show ?thesis using expression_rule_cong [of "derived_expression (type_data x)" ty ty' r] same by simp
  next
    case (NSetting x)
    then show ?thesis using expression_rule_cong [of "setting_expression (type_data x)" ty ty' r] same by simp
  qed (use same in \<open>auto split: finding_condition.splits\<close>)
qed

lemma type_rule_finding: "type_rule ty n r \<Longrightarrow> is_finding n \<longleftrightarrow> r = None"
  by (cases n) (auto simp: expression_rule_def is_finding_def)

section \<open>The type of one node\<close>

lemma resolve_expression:
  assumes built: "built e" and known: "\<And>v. v \<in> set (any_operands e) \<Longrightarrow> bt_get res (operand_node v) \<noteq> None"
  shows "resolve_expression_type i e res = Inr t \<longleftrightarrow> expression_rule (bt_get res) e (Some t)"
    and "no_panic (resolve_expression_type i e res)"
proof -
  let ?ts = "map (\<lambda>v. the (bt_get res (operand_node v))) (any_operands e)"
  have types: "try_map (\<lambda>v. expect (bt_get res (operand_node v))) (any_operands e) =
      (Inr ?ts :: (graph_error, value_type list) outcome)"
  proof (rule try_map_total)
    fix v assume "v \<in> set (any_operands e)"
    then show "expect (bt_get res (operand_node v)) = Inr (the (bt_get res (operand_node v)))"
      using known [of v] by auto
  qed
  have some: "map (\<lambda>v. bt_get res (operand_node v)) (any_operands e) = map Some ?ts"
    using known by auto
  have eq: "map (\<lambda>v. bt_get res (operand_node v)) (any_operands e) = map Some us \<longleftrightarrow> us = ?ts" for us
    unfolding some by (metis list.inj_map_strong option.inject)
  show "resolve_expression_type i e res = Inr t \<longleftrightarrow> expression_rule (bt_get res) e (Some t)"
    unfolding resolve_expression_type_def expression_rule_def types eq
    by (simp add: result_simps any_result_type_Inr_iff [OF built])
  have "no_panic (any_result_type e ?ts)" using no_panic_result_type [OF built] .
  then show "no_panic (resolve_expression_type i e res)"
    unfolding resolve_expression_type_def types by (elim no_panic_cases) simp_all
qed

lemma node_result:
  assumes built: "node_built n" and known: "\<And>v. v \<in> set (node_operands n) \<Longrightarrow> bt_get res (operand_node v) \<noteq> None"
  shows "node_result_type n res = Inr t \<longleftrightarrow> type_rule (bt_get res) n t"
    and "no_panic (node_result_type n res)"
proof -
  note expression = resolve_expression [where res = res]
  show "node_result_type n res = Inr t \<longleftrightarrow> type_rule (bt_get res) n t"
  proof (cases n)
    case (NDerived x)
    with assms show ?thesis
      by (cases t) (auto simp: node_result_type_def result_simps expression(1), auto simp: expression_rule_def)
  next
    case (NSetting x)
    with assms show ?thesis
      by (cases t) (auto simp: node_result_type_def result_simps expression(1), auto simp: expression_rule_def)
  next
    case (NFinding x)
    with assms show ?thesis
      by (auto simp: node_result_type_def result_simps expect_def split: finding_condition.splits if_splits)
  qed (auto simp: node_result_type_def)
  show "no_panic (node_result_type n res)"
    using assms by (cases n) (auto simp: node_result_type_def expression(2) split: finding_condition.splits)
qed

lemma type_rule_functional:
  assumes "node_built n" "type_rule ty n r" "type_rule ty n r'"
  shows "r = r'"
proof -
  have rule: "r = r'" if "expression_rule ty e r" "expression_rule ty e r'" "built e" for e
  proof -
    obtain ts t ts' t' where *: "map (\<lambda>v. ty (operand_node v)) (any_operands e) = map Some ts" "typed e ts t" "r = Some t"
      "map (\<lambda>v. ty (operand_node v)) (any_operands e) = map Some ts'" "typed e ts' t'" "r' = Some t'"
      using \<open>expression_rule ty e r\<close> \<open>expression_rule ty e r'\<close> by (auto simp: expression_rule_def)
    then have "ts' = ts" by (metis list.inj_map_strong option.inject)
    moreover have "length ts = length (any_operands e)" using *(1) by (metis length_map)
    ultimately have "any_result_type e ts = Inr t" "any_result_type e ts = Inr t'"
      using * any_result_type_Inr_iff [OF \<open>built e\<close>] by auto
    with * show ?thesis by simp
  qed
  show ?thesis using assms by (cases n) (auto intro: rule)
qed

section \<open>Along the order\<close>

definition resolved_so_far :: "'d any_node list \<Rightarrow> nat list \<Rightarrow> (node_id, value_type) btree_map \<Rightarrow> bool" where
  "resolved_so_far ns xs res \<longleftrightarrow> bt_invar res \<and> dom (bt_get res) \<subseteq> (\<lambda>i. any_id (ns ! i)) ` set xs \<and>
     (\<forall>i \<in> set xs. node_typed (bt_get res) (ns ! i)) \<and>
     (\<forall>ty. (\<forall>i \<in> set xs. node_typed ty (ns ! i)) \<longrightarrow>
        (\<forall>i \<in> set xs. ty (any_id (ns ! i)) = bt_get res (any_id (ns ! i))))"

definition typable :: "'d any_node list \<Rightarrow> nat list \<Rightarrow> bool" where
  "typable ns xs \<longleftrightarrow> (\<exists>ty. \<forall>i \<in> set xs. node_typed ty (ns ! i))"

lemma operand_position:
  assumes ix: "index_ok any_id ns ix" and ok: "operands_ok ns" and v: "i < length ns" "v \<in> set (node_operands (ns ! i))"
  obtains d where "d \<in> set (dependency_table ns ix ! i)" "operand_node v = any_id (ns ! d)" "\<not> is_finding (ns ! d)"
  using that [of "position_of ix (operand_node v)"] operands_ok_position [OF ix ok nth_mem [OF v(1)] v(2)]
    v by (simp add: table_nth)

lemma resolve_one:
  assumes ix: "index_ok any_id ns ix" and ok: "operands_ok ns" and built: "\<forall>n \<in> set ns. node_built n"
    and so_far: "resolved_so_far ns xs res" and xs: "set xs \<subseteq> {..<length ns}"
    and i: "i < length ns" "i \<notin> set xs" "set (dependency_table ns ix ! i) \<subseteq> set xs"
    and closed: "ordered (dependency_table ns ix) xs"
  shows "(\<exists>res'. resolve_step ns res i = Inr res' \<and> resolved_so_far ns (xs @ [i]) res') \<or>
    (\<exists>e. resolve_step ns res i = err e \<and> \<not> typable ns (xs @ [i]))"
proof -
  let ?n = "ns ! i" and ?id = "\<lambda>i. any_id (ns ! i)"
  have built_n: "node_built ?n" using built i(1) by simp
  have inv: "bt_invar res" and dom: "dom (bt_get res) \<subseteq> ?id ` set xs"
    and so_typed: "\<forall>j \<in> set xs. node_typed (bt_get res) (ns ! j)"
    using so_far by (simp_all add: resolved_so_far_def)
  have agree: "\<forall>j \<in> set xs. ty (?id j) = bt_get res (?id j)" if "\<forall>j \<in> set xs. node_typed ty (ns ! j)" for ty
    using so_far that by (simp add: resolved_so_far_def)
  have inj: "?id j \<noteq> ?id i" if "j \<in> set xs" for j
  proof
    assume "?id j = ?id i"
    moreover have "j < length ns" using that xs by auto
    ultimately have "j = i" using index_ok_get [OF ix] i(1) by (metis option.inject)
    with that i(2) show False by simp
  qed
  have operands: "\<exists>d \<in> set xs. operand_node v = ?id d \<and> \<not> is_finding (ns ! d)"
    if "v \<in> set (node_operands (ns ! j))" "j = i \<or> j \<in> set xs" for v j
  proof -
    have "j < length ns" "set (dependency_table ns ix ! j) \<subseteq> set xs"
      using that(2) i xs ordered_closed [OF closed, of j] by auto
    then show ?thesis using operand_position [OF ix ok _ that(1)] by blast
  qed
  have known: "bt_get res (operand_node v) \<noteq> None" if "v \<in> set (node_operands ?n)" for v
    using operands [OF that] so_typed type_rule_finding by (fastforce simp: node_typed_def)
  show ?thesis
  proof (cases "node_result_type ?n res")
    case (Inl f)
    then obtain e where e: "node_result_type ?n res = err e"
      using node_result(2) [OF built_n known] by (cases f) (auto simp: no_panic_def)
    have "\<not> node_typed ty ?n" if ty: "\<forall>j \<in> set xs. node_typed ty (ns ! j)" for ty
    proof
      assume "node_typed ty ?n"
      then have "type_rule (bt_get res) ?n (ty (?id i))"
        unfolding node_typed_def using agree [OF ty] operands type_rule_cong [of ?n ty "bt_get res"] by metis
      then show False using node_result(1) [OF built_n known] e by (metis sum.distinct(1))
    qed
    then have "\<not> typable ns (xs @ [i])" by (auto simp: typable_def)
    with e i(1) show ?thesis by (simp add: resolve_step_def)
  next
    case (Inr t)
    let ?res = "case t of None \<Rightarrow> res | Some t \<Rightarrow> bt_insert (?id i) t res"
    have none: "bt_get res (?id i) = None"
    proof (rule ccontr)
      assume "bt_get res (?id i) \<noteq> None"
      then have "?id i \<in> ?id ` set xs" using dom by auto
      then obtain j where "j \<in> set xs" "?id i = ?id j" by blast
      then show False using inj [of j] by simp
    qed
    have get: "bt_get ?res = (bt_get res)(?id i := t)"
      using inv none by (cases t) (auto simp: fun_eq_iff)
    have same: "bt_get ?res (operand_node v) = bt_get res (operand_node v)"
      if v: "v \<in> set (node_operands (ns ! j))" "j = i \<or> j \<in> set xs" for v j
    proof -
      obtain d where "d \<in> set xs" "operand_node v = ?id d" using operands [OF v] by blast
      then show ?thesis using inj [of d] by (simp add: get)
    qed
    have rule_i: "type_rule (bt_get res) ?n t" using node_result(1) [OF built_n known] Inr by blast
    have "resolved_so_far ns (xs @ [i]) ?res"
      unfolding resolved_so_far_def
    proof (intro conjI allI impI)
      show "bt_invar ?res" using inv by (cases t) simp_all
      have "dom (bt_get ?res) \<subseteq> insert (?id i) (dom (bt_get res))" unfolding get by auto
      also have "\<dots> \<subseteq> ?id ` set (xs @ [i])" using dom by simp blast
      finally show "dom (bt_get ?res) \<subseteq> ?id ` set (xs @ [i])" .
      have "node_typed (bt_get ?res) ?n"
        using rule_i same [of _ i] type_rule_cong [of ?n "bt_get ?res" "bt_get res"] by (simp add: node_typed_def get)
      moreover have "node_typed (bt_get ?res) (ns ! j)" if "j \<in> set xs" for j
        using so_typed that same [of _ j] inj [OF that] type_rule_cong [of "ns ! j" "bt_get ?res" "bt_get res"]
        by (simp add: node_typed_def get)
      ultimately show "\<forall>j \<in> set (xs @ [i]). node_typed (bt_get ?res) (ns ! j)" by simp
    next
      fix ty assume "\<forall>j \<in> set (xs @ [i]). node_typed ty (ns ! j)"
      then have ty: "\<forall>j \<in> set xs. node_typed ty (ns ! j)" "type_rule ty ?n (ty (?id i))"
        by (simp_all add: node_typed_def)
      have "type_rule (bt_get res) ?n (ty (?id i))"
        using ty agree [OF ty(1)] operands type_rule_cong [of ?n ty "bt_get res"] by metis
      then have "ty (?id i) = t" using type_rule_functional [OF built_n] rule_i by blast
      then show "\<forall>j \<in> set (xs @ [i]). ty (?id j) = bt_get ?res (?id j)"
        using agree [OF ty(1)] inj by (simp add: get)
    qed
    with Inr i(1) show ?thesis by (simp add: resolve_step_def)
  qed
qed

lemma resolve_prefix:
  assumes ix: "index_ok any_id ns ix" and ok: "operands_ok ns" and built: "\<forall>n \<in> set ns. node_built n"
    and "distinct xs" "set xs \<subseteq> {..<length ns}" "ordered (dependency_table ns ix) xs"
  shows "(\<exists>res. try_fold (resolve_step ns) [] xs = Inr res \<and> resolved_so_far ns xs res) \<or>
    (\<exists>e. try_fold (resolve_step ns) [] xs = err e \<and> \<not> typable ns xs)"
  using assms(4-)
proof (induction xs rule: rev_induct)
  case Nil
  then show ?case by (simp add: resolved_so_far_def)
next
  case (snoc i xs)
  then have ih: "(\<exists>res. try_fold (resolve_step ns) [] xs = Inr res \<and> resolved_so_far ns xs res) \<or>
    (\<exists>e. try_fold (resolve_step ns) [] xs = err e \<and> \<not> typable ns xs)" by (simp add: ordered_snoc)
  then show ?case
  proof (elim disjE exE conjE)
    fix res assume res: "try_fold (resolve_step ns) [] xs = Inr res" "resolved_so_far ns xs res"
    from resolve_one [OF ix ok built res(2), of i] snoc.prems
    have "(\<exists>res'. resolve_step ns res i = Inr res' \<and> resolved_so_far ns (xs @ [i]) res') \<or>
      (\<exists>e. resolve_step ns res i = err e \<and> \<not> typable ns (xs @ [i]))" by (simp add: ordered_snoc)
    with res(1) show ?case by (auto simp: try_fold_append)
  next
    fix e assume "try_fold (resolve_step ns) [] xs = err e" "\<not> typable ns xs"
    then show ?case by (auto simp: try_fold_append typable_def)
  qed
qed

lemma resolve_types_correct:
  assumes ix: "index_ok any_id ns ix" and ok: "operands_ok ns" and built: "\<forall>n \<in> set ns. node_built n"
    and order: "distinct order" "set order = {..<length ns}"
      "ordered (dependency_table ns ix) order"
  shows "(\<exists>res. resolve_types ns order = Inr res \<and> bt_invar res \<and> typing ns (bt_get res) \<and>
      (\<forall>ty. typing ns ty \<longrightarrow> ty = bt_get res)) \<or>
    (\<exists>e. resolve_types ns order = err e \<and> (\<nexists>ty. typing ns ty))"
proof -
  have all: "(\<forall>i \<in> set order. P (ns ! i)) \<longleftrightarrow> (\<forall>n \<in> set ns. P n)" for P
    unfolding order(2) by (auto simp: all_set_conv_all_nth)
  have ids: "(\<lambda>i. any_id (ns ! i)) ` set order = any_id ` set ns"
    unfolding order(2) by (auto simp: set_conv_nth)
  from resolve_prefix [OF ix ok built order(1) equalityD1 [OF order(2)] order(3)]
  show ?thesis
  proof (elim disjE exE conjE)
    fix res assume res: "try_fold (resolve_step ns) [] order = Inr res" "resolved_so_far ns order res"
    have "typing ns (bt_get res)" using res(2) by (simp add: resolved_so_far_def typing_def all ids)
    moreover have "ty = bt_get res" if ty: "typing ns ty" for ty
    proof
      fix k show "ty k = bt_get res k"
      proof (cases "k \<in> any_id ` set ns")
        case True
        then obtain i where "i \<in> set order" "k = any_id (ns ! i)" unfolding ids [symmetric] by blast
        then show ?thesis using res(2) ty by (simp add: resolved_so_far_def typing_def all)
      next
        case False
        then show ?thesis using ty \<open>typing ns (bt_get res)\<close> unfolding typing_def by (metis domIff subsetD)
      qed
    qed
    moreover have "bt_invar res" using res(2) by (simp add: resolved_so_far_def)
    ultimately show ?thesis using res(1) unfolding resolve_types_def by blast
  next
    fix e assume e: "try_fold (resolve_step ns) [] order = err e" "\<not> typable ns order"
    have "\<not> typing ns ty" for ty
      using e(2) all [of "node_typed ty"] unfolding typable_def typing_def by blast
    with e(1) show ?thesis by (simp add: resolve_types_def)
  qed
qed

end
