(* ===== verification/Calc_Validation.thy ===== *)
theory Calc_Validation imports Calc_Typing begin

text \<open>
  The last phases of the validation: unique setting keys, the work list that marks every node an
  output needs, and the edge indexes of the validated graph.
\<close>

section \<open>Setting keys\<close>

definition key_of :: "'d any_node \<Rightarrow> rstring option" where
  "key_of n = (case n of NSetting s \<Rightarrow> Some (key (type_data s)) | _ \<Rightarrow> None)"

lemma setting_keys_simps:
  "setting_keys [] = []"
  "setting_keys (n # ns) = (case key_of n of Some k \<Rightarrow> k # setting_keys ns | None \<Rightarrow> setting_keys ns)"
  by (auto simp: setting_keys_def key_of_def split: any_node.split)

lemma add_setting_key_unfold:
  "add_setting_key seen n = (case key_of n of
     Some k \<Rightarrow> (case bt_get seen k of
        Some first \<Rightarrow> err (DuplicateSettingKey k first (any_id n)) | None \<Rightarrow> Inr (bt_insert k (any_id n) seen))
   | None \<Rightarrow> Inr seen)"
  by (simp add: add_setting_key_def key_of_def split: any_node.split)

lemma setting_keys_fold:
  assumes "bt_invar seen"
  shows "(\<exists>seen'. try_fold add_setting_key seen ns = Inr seen') \<longleftrightarrow>
      distinct (setting_keys ns) \<and> (\<forall>k \<in> set (setting_keys ns). bt_get seen k = None)"
    and "no_panic (try_fold add_setting_key seen ns)"
proof -
  show "(\<exists>seen'. try_fold add_setting_key seen ns = Inr seen') \<longleftrightarrow>
      distinct (setting_keys ns) \<and> (\<forall>k \<in> set (setting_keys ns). bt_get seen k = None)"
    using assms
  proof (induction ns arbitrary: seen)
    case (Cons n ns)
    show ?case
    proof (cases "key_of n")
      case None
      then have "add_setting_key seen n = Inr seen" by (simp add: add_setting_key_unfold)
      with None Cons show ?thesis by (simp add: setting_keys_simps)
    next
      case (Some k)
      show ?thesis
      proof (cases "bt_get seen k")
        case None
        then have step: "add_setting_key seen n = Inr (bt_insert k (any_id n) seen)"
          using Some by (simp add: add_setting_key_unfold)
        have "(\<exists>seen'. try_fold add_setting_key (bt_insert k (any_id n) seen) ns = Inr seen') \<longleftrightarrow>
          distinct (setting_keys ns) \<and> (\<forall>x \<in> set (setting_keys ns). bt_get (bt_insert k (any_id n) seen) x = None)"
          by (rule Cons.IH) (use Cons.prems in simp)
        also have "\<dots> \<longleftrightarrow> distinct (k # setting_keys ns) \<and> (\<forall>x \<in> set (setting_keys ns). bt_get seen x = None)"
          using Cons.prems by (auto split: if_splits)
        finally show ?thesis using step None Some by (simp add: setting_keys_simps)
      next
        case present: (Some first)
        then have "add_setting_key seen n = err (DuplicateSettingKey k first (any_id n))"
          using Some by (simp add: add_setting_key_unfold)
        with present Some show ?thesis by (simp add: setting_keys_simps)
      qed
    qed
  qed (simp add: setting_keys_simps)
  show "no_panic (try_fold add_setting_key seen ns)"
    by (rule no_panic_try_fold [where I = "\<lambda>_. True"]) (auto simp: add_setting_key_unfold split: option.split)
qed

lemma unique_setting_keys:
  "validate_unique_setting_keys ns = Inr () \<longleftrightarrow> distinct (setting_keys ns)"
  "no_panic (validate_unique_setting_keys ns)"
  using setting_keys_fold [of "[]" ns] by (auto simp: validate_unique_setting_keys_def and_then_Inr_iff)

section \<open>Marking\<close>

definition needed :: "nat list list \<Rightarrow> nat set \<Rightarrow> nat set" where
  "needed deps roots = {d. \<exists>i \<in> roots. (d, i) \<in> (before deps)\<^sup>*}"

definition mark_ok :: "nat list list \<Rightarrow> nat set \<Rightarrow> bool list \<Rightarrow> nat list \<Rightarrow> bool" where
  "mark_ok deps roots r pending \<longleftrightarrow> length r = length deps \<and>
     (\<forall>i < length r. r ! i \<longrightarrow> i \<in> needed deps roots) \<and> set pending \<subseteq> needed deps roots \<inter> {..<length deps} \<and>
     (\<forall>i < length r. r ! i \<longrightarrow> (\<forall>d \<in> set (deps ! i). r ! d \<or> d \<in> set pending)) \<and>
     (\<forall>i \<in> roots. r ! i \<or> i \<in> set pending)"

lemma needed_step: "i \<in> needed deps roots \<Longrightarrow> d \<in> set (deps ! i) \<Longrightarrow> i < length deps \<Longrightarrow> d \<in> needed deps roots"
  unfolding needed_def by (auto simp: before_def intro: converse_rtrancl_into_rtrancl)

lemma mark_done:
  assumes ok: "mark_ok deps roots r []" and table: "table_ok deps"
  shows "\<forall>i < length deps. r ! i \<longleftrightarrow> i \<in> needed deps roots"
proof -
  have "r ! d" if "(d, i) \<in> (before deps)\<^sup>*" "i \<in> roots" for d i
    using that
  proof (induction rule: converse_rtrancl_induct)
    case base
    then show ?case using ok by (simp add: mark_ok_def)
  next
    case (step d e)
    then have "e < length r" "d \<in> set (deps ! e)" using ok by (auto simp: before_def mark_ok_def)
    with step ok show ?case by (auto simp: mark_ok_def)
  qed
  then have "r ! i" if "i \<in> needed deps roots" for i using that unfolding needed_def by blast
  moreover have "i \<in> needed deps roots" if "i < length deps" "r ! i" for i
    using ok that by (simp add: mark_ok_def)
  ultimately show ?thesis by blast
qed

lemma mark_correct:
  assumes "mark_ok deps roots r pending" "table_ok deps"
  shows "\<exists>r'. mark deps r pending = Inr r' \<and> length r' = length deps \<and>
    (\<forall>i < length deps. r' ! i \<longleftrightarrow> i \<in> needed deps roots)"
  using assms
proof (induction deps r pending rule: mark.induct)
  case (1 deps r pending)
  show ?case
  proof (cases "pending = []")
    case True
    then have "mark deps r pending = Inr r" by (simp add: mark.simps)
    moreover have "length r = length deps" using 1(3) by (simp add: mark_ok_def)
    moreover have "\<forall>i < length deps. r ! i \<longleftrightarrow> i \<in> needed deps roots"
      using mark_done [of deps roots r] 1(3,4) True by simp
    ultimately show ?thesis by blast
  next
    case False
    let ?i = "last pending" and ?rest = "butlast pending"
    have pending: "pending = ?rest @ [?i]" using False by simp
    then have set_pending: "set pending = insert ?i (set ?rest)" by (metis Un_insert_right list.set(1,2) set_append sup_bot_right)
    have len: "length r = length deps" and i: "?i < length deps" "?i \<in> needed deps roots"
      using 1(3) set_pending by (auto simp: mark_ok_def)
    have index: "index r ?i = (Inr (r ! ?i) :: (graph_error, bool) outcome)"
      "index deps ?i = (Inr (deps ! ?i) :: (graph_error, nat list) outcome)" using i len by simp_all
    show ?thesis
    proof (cases "r ! ?i")
      case True
      have "mark_ok deps roots r ?rest"
        using 1(3) True unfolding mark_ok_def set_pending by auto
      from 1(1) [OF False refl refl index(1) True this 1(4)]
      show ?thesis using False True index by (subst mark.simps) (simp add: Let_def)
    next
      case notyet: False
      have deps_i: "\<forall>d \<in> set (deps ! ?i). d < length deps \<and> d \<in> needed deps roots"
        using table_ok_nth [OF 1(4) i(1)] needed_step [OF i(2) _ i(1)] by blast
      have "mark_ok deps roots (r[?i := True]) (?rest @ deps ! ?i)"
        using 1(3) deps_i i len unfolding mark_ok_def set_pending by (auto simp: nth_list_update)
      from 1(2) [OF False refl refl index(1) notyet index(2) this 1(4)]
      show ?thesis using False notyet index by (subst mark.simps) (simp add: Let_def)
    qed
  qed
qed

lemma first_unreachable_None:
  "length ns = length r \<Longrightarrow> first_unreachable (zip ns r) = None \<longleftrightarrow> (\<forall>i < length r. r ! i)"
proof (induction ns r rule: list_induct2)
  case (Cons n ns x r)
  then show ?case by (auto simp: nth_Cons' less_Suc_eq_0_disj)
qed simp

lemma reachability:
  assumes ix: "index_ok any_id (nodes g) ix" and ok: "operands_ok (nodes g)" and outs: "outputs_ok g"
  shows "validate_reachability (nodes g) (outputs g) ix (dependency_table (nodes g) ix) = Inr () \<longleftrightarrow> all_needed g"
    and "no_panic (validate_reachability (nodes g) (outputs g) ix (dependency_table (nodes g) ix))"
proof -
  let ?ns = "nodes g" and ?deps = "dependency_table (nodes g) ix"
  let ?pending = "map (position_of ix) (outputs g)"
  have out: "bt_get ix out = Some (position_of ix out) \<and> position_of ix out < length ?ns \<and>
      any_id (?ns ! position_of ix out) = out" if "out \<in> set (outputs g)" for out
  proof -
    have "\<exists>n \<in> set ?ns. any_id n = out \<and> True" using outs that by (auto simp: outputs_ok_def)
    then obtain i where "bt_get ix out = Some i" unfolding index_ok_bex [OF ix] by blast
    then show ?thesis using index_ok_Some [OF ix] by (simp add: position_of_def)
  qed
  have pending: "try_map (\<lambda>o_id. expect (bt_get ix o_id)) (outputs g) = (Inr ?pending :: (graph_error, nat list) outcome)"
    by (rule try_map_total) (simp add: out)
  have "mark_ok ?deps (set ?pending) (replicate (length ?ns) False) ?pending"
    using out by (auto simp: mark_ok_def needed_def)
  from mark_correct [OF this dependency_table_ok [OF ix ok]]
  obtain r where r: "mark ?deps (replicate (length ?ns) False) ?pending = Inr r" "length r = length ?ns"
    "\<forall>i < length ?ns. r ! i \<longleftrightarrow> i \<in> needed ?deps (set ?pending)" by auto
  have "(\<forall>i < length r. r ! i) \<longleftrightarrow>
      (\<forall>i < length ?ns. \<exists>out \<in> set (outputs g). (i, position_of ix out) \<in> (before ?deps)\<^sup>*)"
    using r(2,3) by (simp add: needed_def)
  also have "\<dots> \<longleftrightarrow> (\<forall>i < length ?ns. \<exists>out \<in> set (outputs g). (any_id (?ns ! i), out) \<in> (feeds ?ns)\<^sup>*)"
    using reach_feeds [OF ix ok] out by (metis (no_types, lifting))
  also have "\<dots> \<longleftrightarrow> all_needed g" by (simp add: all_needed_def all_set_conv_all_nth)
  finally have all: "first_unreachable (zip ?ns r) = None \<longleftrightarrow> all_needed g"
    using first_unreachable_None [of ?ns r] r(2) by simp
  show "validate_reachability ?ns (outputs g) ix ?deps = Inr () \<longleftrightarrow> all_needed g"
    unfolding all [symmetric] validate_reachability_def pending by (simp add: r(1) split: option.split)
  show "no_panic (validate_reachability ?ns (outputs g) ix ?deps)"
    unfolding validate_reachability_def pending by (simp add: r(1) split: option.split)
qed

section \<open>The edge indexes\<close>

definition edges_by :: "(edge \<Rightarrow> node_id) \<Rightarrow> edge list \<Rightarrow> node_id \<Rightarrow> edge list" where
  "edges_by f es i = filter (\<lambda>e. f e = i) es"

definition edge_map :: "(edge \<Rightarrow> node_id) \<Rightarrow> node_id set \<Rightarrow> edge list \<Rightarrow> (node_id, edge list) btree_map \<Rightarrow> bool" where
  "edge_map f ids es m \<longleftrightarrow> bt_invar m \<and> (\<forall>i. bt_get m i = (if i \<in> ids then Some (edges_by f es i) else None))"

lemma edge_map_empty:
  assumes "edge_map f ids [] m"
  shows "edge_map f (ids \<union> any_id ` set ns) [] (foldl (\<lambda>m n. bt_insert (any_id n) [] m) m ns)"
  using assms
proof (induction ns arbitrary: ids m)
  case (Cons n ns)
  then have "edge_map f (insert (any_id n) ids) [] (bt_insert (any_id n) [] m)"
    by (auto simp: edge_map_def edges_by_def)
  from Cons.IH [OF this] show ?case by simp
qed simp

lemma push_edge_map:
  assumes "edge_map f ids es m" "f e \<in> ids"
  shows "\<exists>m'. push_edge (f e) e m = Inr m' \<and> edge_map f ids (es @ [e]) m'"
  using assms by (auto simp: push_edge_def edge_map_def edges_by_def)

definition index_edge :: "(node_id, edge list) btree_map \<times> (node_id, edge list) btree_map \<Rightarrow> edge \<Rightarrow>
    (graph_error, (node_id, edge list) btree_map \<times> (node_id, edge list) btree_map) outcome" where
  "index_edge s e = (case s of (deps, depts) \<Rightarrow>
     and_then (push_edge (target e) e deps) (\<lambda>deps.
     and_then (push_edge (source e) e depts) (\<lambda>depts. Inr (deps, depts))))"

lemma edge_indexes:
  assumes "edge_map target ids es deps" "edge_map source ids es depts" "\<forall>e \<in> set xs. target e \<in> ids \<and> source e \<in> ids"
  shows "\<exists>deps' depts'. try_fold index_edge (deps, depts) xs = Inr (deps', depts') \<and>
    edge_map target ids (es @ xs) deps' \<and> edge_map source ids (es @ xs) depts'"
  using assms
proof (induction xs arbitrary: es deps depts)
  case (Cons e xs)
  obtain deps1 where 1: "push_edge (target e) e deps = Inr deps1" "edge_map target ids (es @ [e]) deps1"
    using push_edge_map [OF Cons.prems(1)] Cons.prems(3) by auto
  obtain depts1 where 2: "push_edge (source e) e depts = Inr depts1" "edge_map source ids (es @ [e]) depts1"
    using push_edge_map [OF Cons.prems(2)] Cons.prems(3) by auto
  from Cons.IH [OF 1(2) 2(2)] Cons.prems(3) 1(1) 2(1) show ?case by (simp add: index_edge_def)
qed simp

lemma new_graph:
  assumes ix: "index_ok any_id (nodes g) ix" and ok: "operands_ok (nodes g)"
    and order: "set order \<subseteq> {..<length (nodes g)}"
  shows "\<exists>deps depts. validated_graph_new g ix cix (generate_edges (nodes g)) order types =
      Inr \<lparr>vg_nodes = nodes g, vg_citations = citations g, vg_outputs = outputs g, node_index = ix,
           citation_index = cix, edges = generate_edges (nodes g), dependencies = deps, dependents = depts,
           topological_order = map (\<lambda>i. any_id (nodes g ! i)) order, resolved_types = types\<rparr> \<and>
    edge_map target (any_id ` set (nodes g)) (generate_edges (nodes g)) deps \<and>
    edge_map source (any_id ` set (nodes g)) (generate_edges (nodes g)) depts"
proof -
  let ?none = "foldl (\<lambda>m n. bt_insert (any_id n) ([] :: edge list) m) [] (nodes g)"
  have none: "edge_map f (any_id ` set (nodes g)) [] ?none" for f
    using edge_map_empty [of f "{}" "[]" "nodes g"] by (simp add: edge_map_def)
  have "\<forall>e \<in> set (generate_edges (nodes g)). target e \<in> any_id ` set (nodes g) \<and> source e \<in> any_id ` set (nodes g)"
  proof
    fix e assume "e \<in> set (generate_edges (nodes g))"
    then obtain n v where e: "n \<in> set (nodes g)" "v \<in> set (node_operands n)" "e = edge_from_operand (any_id n) v"
      by (auto simp: set_generate_edges)
    then obtain m where "m \<in> set (nodes g)" "operand_node v = any_id m" using ok unfolding operands_ok_def by metis
    with e show "target e \<in> any_id ` set (nodes g) \<and> source e \<in> any_id ` set (nodes g)"
      by (simp add: edge_from_operand_def)
  qed
  from edge_indexes [OF none none this]
  obtain deps depts where folded: "try_fold index_edge (?none, ?none) (generate_edges (nodes g)) = Inr (deps, depts)"
    "edge_map target (any_id ` set (nodes g)) (generate_edges (nodes g)) deps"
    "edge_map source (any_id ` set (nodes g)) (generate_edges (nodes g)) depts" by auto
  have loop: "(\<lambda>(deps, depts) e. and_then (push_edge (target e) e deps) (\<lambda>deps.
      and_then (push_edge (source e) e depts) (\<lambda>depts. Inr (deps, depts)))) = index_edge"
    by (simp add: fun_eq_iff index_edge_def)
  have ids: "try_map (\<lambda>i. and_then (index (nodes g) i) (\<lambda>n. Inr (any_id n))) order =
      (Inr (map (\<lambda>i. any_id (nodes g ! i)) order) :: (graph_error, node_id list) outcome)"
    by (rule try_map_total) (use order in auto)
  show ?thesis
    unfolding validated_graph_new_def loop Let_def ids using folded by simp
qed

text \<open>
  The result of the whole validation: a validated graph that describes the definition when the
  definition is valid, an error otherwise.
\<close>

section \<open>The result of the validation\<close>

definition well_referenced :: "'d graph_definition \<Rightarrow> bool" where
  "well_referenced g \<longleftrightarrow> no_blanks g \<and> distinct (map any_id (nodes g)) \<and>
     distinct (map citation_id (citations g)) \<and> outputs_ok g \<and> claims_ok g \<and> operands_ok (nodes g)"

definition all_built :: "'d graph_definition \<Rightarrow> bool" where
  "all_built g \<longleftrightarrow> list_all node_built (nodes g)"

text \<open>Sources stand before the nodes they feed.\<close>

definition sorted_by_edges :: "'d any_node list \<Rightarrow> node_id list \<Rightarrow> bool" where
  "sorted_by_edges ns ids \<longleftrightarrow>
     (\<forall>k < length ids. \<forall>a. (a, ids ! k) \<in> feeds ns \<longrightarrow> a \<in> set (take k ids))"

definition only_typing :: "'d any_node list \<Rightarrow> (node_id \<Rightarrow> value_type option) \<Rightarrow> bool" where
  "only_typing ns ty \<longleftrightarrow> typing ns ty \<and> (\<forall>ty'. typing ns ty' \<longrightarrow> ty' = ty)"

definition describes :: "'d graph_definition \<Rightarrow> 'd validated_graph \<Rightarrow> bool" where
  "describes g vg \<longleftrightarrow> vg_nodes vg = nodes g \<and> vg_citations vg = citations g \<and> vg_outputs vg = outputs g \<and>
     index_ok any_id (nodes g) (node_index vg) \<and> index_ok citation_id (citations g) (citation_index vg) \<and>
     edges vg = generate_edges (nodes g) \<and>
     edge_map target (any_id ` set (nodes g)) (edges vg) (dependencies vg) \<and>
     edge_map source (any_id ` set (nodes g)) (edges vg) (dependents vg) \<and>
     distinct (topological_order vg) \<and> set (topological_order vg) = any_id ` set (nodes g) \<and>
     sorted_by_edges (nodes g) (topological_order vg) \<and>
     only_typing (nodes g) (resolved_type vg)"

lemma order_of_ids:
  assumes ix: "index_ok any_id ns ix" and ok: "operands_ok ns"
    and order: "distinct order" "set order = {..<length ns}"
      "ordered (dependency_table ns ix) order"
  shows "distinct (map (\<lambda>i. any_id (ns ! i)) order)" "set (map (\<lambda>i. any_id (ns ! i)) order) = any_id ` set ns"
    "sorted_by_edges ns (map (\<lambda>i. any_id (ns ! i)) order)"
proof -
  have inj: "i = j" if "i < length ns" "j < length ns" "any_id (ns ! i) = any_id (ns ! j)" for i j
    using that index_ok_get [OF ix] by (metis option.inject)
  then show "distinct (map (\<lambda>i. any_id (ns ! i)) order)"
    using order(1,2) by (auto simp: distinct_map inj_on_def)
  show "set (map (\<lambda>i. any_id (ns ! i)) order) = any_id ` set ns"
    using order(2) by (auto simp: set_conv_nth [of ns])
  show "sorted_by_edges ns (map (\<lambda>i. any_id (ns ! i)) order)"
    unfolding sorted_by_edges_def
  proof (intro allI impI)
    fix k a assume k: "k < length (map (\<lambda>i. any_id (ns ! i)) order)"
      and a: "(a, map (\<lambda>i. any_id (ns ! i)) order ! k) \<in> feeds ns"
    then have k': "k < length order" by simp
    then have bound: "order ! k < length ns" using order(2) nth_mem by blast
    obtain d i where d: "d < length ns" "i < length ns" "a = any_id (ns ! d)" "any_id (ns ! (order ! k)) = any_id (ns ! i)"
      "(d, i) \<in> before (dependency_table ns ix)" using feeds_indices [OF ix ok a] k' by auto
    then have "d \<in> set (dependency_table ns ix ! (order ! k))"
      using inj [OF bound d(2)] by (simp add: before_def)
    then have "d \<in> set (take k order)" using order(3) k' unfolding ordered_def by blast
    then show "a \<in> set (take k (map (\<lambda>i. any_id (ns ! i)) order))" using d(3) by (auto simp: take_map)
  qed
qed

text \<open>The phases up to the operands either fail with an error or leave the indexes.\<close>

definition validate_rest :: "'d graph_definition \<Rightarrow> (node_id, nat) btree_map \<Rightarrow> (citation_id, nat) btree_map \<Rightarrow>
    (graph_error, 'd validated_graph) outcome" where
  "validate_rest g ix cix =
     (let es = generate_edges (nodes g) in
     and_then (build_dependency_indices (nodes g) ix) (\<lambda>deps.
     and_then (validate_acyclic (nodes g) deps) (\<lambda>_.
     and_then (topological_sort (nodes g) ix es) (\<lambda>order.
     and_then (resolve_types (nodes g) order) (\<lambda>types.
     and_then (validate_unique_setting_keys (nodes g)) (\<lambda>_.
     and_then (validate_reachability (nodes g) (outputs g) ix deps) (\<lambda>_.
     validated_graph_new g ix cix es order types)))))))"

lemma validate_phases:
  "validate g =
     and_then (validate_local_validity g) (\<lambda>_.
     and_then (build_node_index (nodes g)) (\<lambda>ix.
     and_then (build_citation_index (citations g)) (\<lambda>cix.
     and_then (validate_outputs_and_citations g ix cix) (\<lambda>_.
     and_then (validate_operand_references (nodes g) ix) (\<lambda>_. validate_rest g ix cix)))))"
  by (simp add: validate_def validate_rest_def Let_def)

lemma unit_outcome_cases:
  fixes r :: "('e, unit) outcome"
  assumes "no_panic r"
  obtains "r = Inr ()" | e where "r = err e"
  using assms by (elim no_panic_cases) auto

lemma validate_front:
  obtains ix cix where "well_referenced g" "index_ok any_id (nodes g) ix" "index_ok citation_id (citations g) cix"
    "validate g = validate_rest g ix cix"
  | e where "\<not> well_referenced g" "validate g = err e"
proof (cases rule: unit_outcome_cases [OF local_validity_no_panic [of g]])
  case 2
  then show thesis using that(2) local_validity_Inr [of g "()"] by (auto simp: validate_phases well_referenced_def)
next
  case 1
  then have blanks: "no_blanks g" by (simp add: local_validity_Inr)
  show thesis
  proof (cases rule: node_index_cases [of "nodes g"])
    case (2 e)
    then show thesis using that(2) \<open>validate_local_validity g = Inr ()\<close> by (simp add: validate_phases well_referenced_def)
  next
    case ix: (1 ix)
    show thesis
    proof (cases rule: citation_index_cases [of "citations g"])
      case (2 e)
      then show thesis using that(2) 1 ix by (simp add: validate_phases well_referenced_def)
    next
      case cix: (1 cix)
      note outs = outputs_and_citations [OF ix(2) cix(2)] and refs = operand_references [OF ix(2)]
      have dist: "distinct (map any_id (nodes g))" "distinct (map citation_id (citations g))"
        using ix(2) cix(2) by (simp_all add: index_ok_def)
      show thesis
      proof (cases rule: unit_outcome_cases [OF outs(2)])
        case (2 e)
        then show thesis using that(2) 1 ix(1) cix(1) outs(1) by (auto simp: validate_phases well_referenced_def)
      next
        case outs1: 1
        show thesis
        proof (cases rule: unit_outcome_cases [OF refs(2)])
          case (2 e)
          then show thesis using that(2) 1 ix(1) cix(1) outs1 refs(1) by (simp add: validate_phases well_referenced_def)
        next
          case refs1: 1
          have "well_referenced g" using blanks dist outs(1) outs1 refs(1) refs1 by (simp add: well_referenced_def)
          with refs1 show thesis using that(1) [OF _ ix(2) cix(2)] 1 ix(1) cix(1) outs1 by (simp add: validate_phases)
        qed
      qed
    qed
  qed
qed

lemma rest_cyclic:
  assumes ix: "index_ok any_id (nodes g) ix" and ok: "operands_ok (nodes g)" and cyclic: "\<not> acyclic (feeds (nodes g))"
  shows "\<exists>c. cycle_in (dependency_table (nodes g) ix) c \<and>
    validate_rest g ix cix = err (Cycle (map (\<lambda>i. any_id (nodes g ! i)) (c @ [hd c])))"
proof -
  have "\<not> wf (before (dependency_table (nodes g) ix))" using wf_before [OF ix ok] cyclic by simp
  then obtain f where "validate_acyclic (nodes g) (dependency_table (nodes g) ix) = Inl f"
    "found_cycle (nodes g) (dependency_table (nodes g) ix) f"
    using validate_acyclic_correct [OF table_length [symmetric] dependency_table_ok [OF ix ok]] by blast
  then show ?thesis
    by (auto simp: found_cycle_def validate_rest_def dependency_indices [OF ix ok] Let_def)
qed

lemma rest_acyclic:
  assumes ix: "index_ok any_id (nodes g) ix" and cix: "index_ok citation_id (citations g) cix"
    and well: "well_referenced g" and built: "all_built g" and acyclic: "acyclic (feeds (nodes g))"
  shows "valid_graph g \<and> (\<exists>vg. validate_rest g ix cix = Inr vg \<and> describes g vg) \<or>
    \<not> valid_graph g \<and> (\<exists>e. validate_rest g ix cix = err e)"
proof -
  have ok: "operands_ok (nodes g)" and outs: "outputs_ok g" using well by (simp_all add: well_referenced_def)
  have built': "\<forall>n \<in> set (nodes g). node_built n" using built by (simp add: all_built_def list_all_iff)
  have valid: "valid_graph g \<longleftrightarrow> (\<exists>ty. typing (nodes g) ty) \<and> distinct (setting_keys (nodes g)) \<and> all_needed g"
    using well acyclic by (auto simp: valid_graph_def well_referenced_def)
  let ?deps = "dependency_table (nodes g) ix"
  have "wf (before ?deps)" using wf_before [OF ix ok] acyclic by simp
  then have no_cycle: "validate_acyclic (nodes g) ?deps = Inr ()"
    using validate_acyclic_correct [OF table_length [symmetric] dependency_table_ok [OF ix ok]] cycle_not_wf
    by (auto simp: found_cycle_def)
  obtain order where order: "topological_sort (nodes g) ix (generate_edges (nodes g)) = Inr order"
    "distinct order" "set order = {..<length (nodes g)}"
    "ordered ?deps order"
    by (rule topological_order_exists [OF ix ok acyclic])
  note front = validate_rest_def [of g ix cix] dependency_indices [OF ix ok] no_cycle order(1) Let_def
  from resolve_types_correct [OF ix ok built' order(2-4)]
  show ?thesis
  proof (elim disjE exE conjE)
    fix e assume "resolve_types (nodes g) order = err e" "\<nexists>ty. typing (nodes g) ty"
    then show ?thesis by (simp add: front valid)
  next
    fix res assume res: "resolve_types (nodes g) order = Inr res" "bt_invar res" "typing (nodes g) (bt_get res)"
      "\<forall>ty. typing (nodes g) ty \<longrightarrow> ty = bt_get res"
    note reach = reachability [OF ix ok outs] and keys = unique_setting_keys [of "nodes g"]
    obtain deps depts where new: "validated_graph_new g ix cix (generate_edges (nodes g)) order res =
      Inr \<lparr>vg_nodes = nodes g, vg_citations = citations g, vg_outputs = outputs g, node_index = ix,
           citation_index = cix, edges = generate_edges (nodes g), dependencies = deps, dependents = depts,
           topological_order = map (\<lambda>i. any_id (nodes g ! i)) order, resolved_types = res\<rparr>"
      "edge_map target (any_id ` set (nodes g)) (generate_edges (nodes g)) deps"
      "edge_map source (any_id ` set (nodes g)) (generate_edges (nodes g)) depts"
      using new_graph [OF ix ok equalityD1 [OF order(3)]] by blast
    show ?thesis
    proof (cases rule: unit_outcome_cases [OF keys(2)])
      case (2 e)
      then show ?thesis using res(1) keys(1) by (simp add: front valid)
    next
      case keys1: 1
      show ?thesis
      proof (cases rule: unit_outcome_cases [OF reach(2)])
        case (2 e)
        then show ?thesis using res(1) keys1 reach(1) by (simp add: front valid)
      next
        case 1
        have "valid_graph g" using res(3) keys(1) keys1 reach(1) 1 by (auto simp: valid)
        moreover have "validate_rest g ix cix = validated_graph_new g ix cix (generate_edges (nodes g)) order res"
          using res(1) keys1 1 by (simp add: front)
        moreover have "resolved_type vg = bt_get (resolved_types vg)" for vg :: "'a validated_graph"
          by (simp add: fun_eq_iff resolved_type_def)
        moreover have "only_typing (nodes g) (bt_get res)" using res(3,4) unfolding only_typing_def by blast
        ultimately show ?thesis
          using new ix cix order_of_ids [OF ix ok order(2-4)] by (simp add: describes_def)
      qed
    qed
  qed
qed

lemma validate_result:
  assumes "all_built g"
  shows "valid_graph g \<and> (\<exists>vg. validate g = Inr vg \<and> describes g vg) \<or> \<not> valid_graph g \<and> (\<exists>e. validate g = err e)"
proof (cases rule: validate_front [of g])
  case (1 ix cix)
  show ?thesis
  proof (cases "acyclic (feeds (nodes g))")
    case True
    from rest_acyclic [OF 1(2,3,1) assms True] 1(4) show ?thesis by simp
  next
    case False
    then have "\<not> valid_graph g" by (simp add: valid_graph_def)
    moreover have "operands_ok (nodes g)" using 1(1) by (simp add: well_referenced_def)
    ultimately show ?thesis using rest_cyclic [OF 1(2) _ False] 1(4) by metis
  qed
next
  case (2 e)
  then show ?thesis by (auto simp: valid_graph_def well_referenced_def)
qed

lemma validated_describes: "all_built g \<Longrightarrow> validate g = Inr vg \<Longrightarrow> describes g vg"
  using validate_result [of g] by auto

end
