(* ===== verification/Calc_Theorems.thy ===== *)
theory Calc_Theorems imports Calc_Validation begin

text \<open>
  What the validation of a calculation graph promises, with small graphs as the examples that the
  witnesses evaluate.
\<close>

section \<open>Examples\<close>

definition sample_operand :: "string \<Rightarrow> operand" where
  "sample_operand i = \<lparr>operand_node = lit i, role = lit ''value''\<rparr>"

definition sample_metadata :: node_metadata where
  "sample_metadata = \<lparr>node_label = lit ''Label'', description = lit ''Text'',
     citation_claims = [\<lparr>claim_citation = lit ''kafka.docs'', claim = lit ''Says so''\<rparr>]\<rparr>"

definition sample_definition :: "int any_node list \<Rightarrow> string list \<Rightarrow> int graph_definition" where
  "sample_definition ns outs = \<lparr>nodes = ns,
     citations = [\<lparr>citation_id = lit ''kafka.docs'', title = lit ''Docs'', url = lit ''http'', summary = lit ''All''\<rparr>],
     outputs = map lit outs\<rparr>"

definition sample_setting :: "string \<Rightarrow> int any_node" where
  "sample_setting i = setting_node (lit ''max'') sample_metadata
     \<lparr>key = lit ''max.bytes'', scope = Common, setting_unit = UBytes,
      setting_expression = ECeiling (ceiling_new (sample_operand i))\<rparr>"

text \<open>A size times a count, rounded up, with a finding that compares the product to the size.\<close>

definition sample_graph :: "int graph_definition" where
  "sample_graph = sample_definition
    [sample_setting ''derived.total'',
     derived_node (lit ''total'') sample_metadata
       \<lparr>derived_expression = EMultiply (multiply_new (sample_operand ''input.size'') (sample_operand ''constant.count''))\<rparr>,
     input_node (lit ''size'') sample_metadata \<lparr>input_type = TDataSize, default_value = None, hard_constraints = []\<rparr>,
     constant_node (lit ''count'') sample_metadata \<lparr>const_value = Scalar 3, origin = CalculatorPolicy, rationale = lit ''r''\<rparr>,
     finding_node (lit ''big'') sample_metadata
       \<lparr>severity = Warning, condition = Compares \<lparr>left = sample_operand ''derived.total'', operator = GreaterThan,
          right = sample_operand ''input.size''\<rparr>\<rparr>]
    [''setting.max'', ''finding.big'']"

text \<open>Two derived values that need each other.\<close>

definition cyclic_graph :: "int graph_definition" where
  "cyclic_graph = sample_definition
    [sample_setting ''derived.a'',
     derived_node (lit ''a'') sample_metadata \<lparr>derived_expression = EReference (reference_new (sample_operand ''derived.b''))\<rparr>,
     derived_node (lit ''b'') sample_metadata \<lparr>derived_expression = EReference (reference_new (sample_operand ''derived.a''))\<rparr>]
    [''setting.max'']"

lemmas sample_defs = sample_graph_def cyclic_graph_def sample_definition_def sample_setting_def sample_operand_def
  sample_metadata_def input_node_def constant_node_def derived_node_def setting_node_def finding_node_def node_new_def
  from_parts_def reference_new_def add_new_def multiply_new_def ceiling_new_def from_operation_def

lemmas validation_defs = validate_def validate_local_validity_def for_each_def trim_def is_whitespace_def
  build_node_index_def build_citation_index_def validate_outputs_and_citations_def check_output_def
  output_node_type_def validate_operand_references_def is_finding_def generate_edges_def edge_from_operand_def
  build_dependency_indices_def validate_acyclic_def cycle_found_def bt_contains_def

lemmas later_phase_defs = topological_sort_def count_edge_def relax_def resolve_types_def resolve_step_def
  node_result_type_def resolve_expression_type_def validate_unique_setting_keys_def add_setting_key_def
  validate_reachability_def validated_graph_new_def push_edge_def multiply_result_type_def
  ensure_resolved_type_count_def ceiling_result_type_def

lemma sample_built: "all_built sample_graph" "all_built cyclic_graph"
  by code_simp+

lemma cyclic_fails:
  "validate cyclic_graph = err (Cycle (map lit [''derived.a'', ''derived.b'', ''derived.a'']))"
  by (simp add: sample_defs validation_defs)

lemma sample_validates:
  "map_sum id (\<lambda>vg. (topological_order vg, resolved_types vg)) (validate sample_graph) =
     Inr (map lit [''input.size'', ''constant.count'', ''derived.total'', ''setting.max'', ''finding.big''],
       [(lit ''constant.count'', TScalar), (lit ''derived.total'', TDataSize), (lit ''input.size'', TDataSize),
        (lit ''setting.max'', TDataSize)])"
  by (simp add: sample_defs validation_defs later_phase_defs mark.simps)

lemma sample_result:
  obtains vg where "validate sample_graph = Inr vg"
    "topological_order vg = map lit [''input.size'', ''constant.count'', ''derived.total'', ''setting.max'', ''finding.big'']"
    "resolved_type vg (lit ''derived.total'') = Some TDataSize"
proof -
  obtain vg where vg: "validate sample_graph = Inr vg"
    using sample_validates by (cases "validate sample_graph") simp_all
  from sample_validates have "resolved_types vg = [(lit ''constant.count'', TScalar), (lit ''derived.total'', TDataSize),
      (lit ''input.size'', TDataSize), (lit ''setting.max'', TDataSize)]" unfolding vg by simp
  then have "resolved_type vg (lit ''derived.total'') = Some TDataSize" by (simp add: resolved_type_def)
  with vg sample_validates show thesis using that by simp
qed

section \<open>Lookups\<close>

lemma find_index:
  assumes "index_ok f xs ix"
  shows "List.find (\<lambda>x. f x = k) xs = map_option (\<lambda>i. xs ! i) (bt_get ix k)"
proof (cases "bt_get ix k")
  case None
  then have "k \<notin> f ` set xs" using index_ok_None [OF assms] by simp
  then show ?thesis using None by (auto simp: find_None_iff)
next
  case (Some i)
  then have i: "i < length xs" "f (xs ! i) = k" using index_ok_Some [OF assms] by auto
  moreover have "f (xs ! j) \<noteq> k" if "j < i" for j
    using index_ok_get [OF assms, of j] index_ok_get [OF assms, of i] that i by auto
  ultimately have "List.find (\<lambda>x. f x = k) xs = Some (xs ! i)" by (auto simp: find_Some_iff)
  with Some show ?thesis by simp
qed

lemma cycle_names:
  assumes "index_ok any_id ns ix" "operands_ok ns" "cycle_in (dependency_table ns ix) c"
  shows "successively (\<lambda>n d. (d, n) \<in> feeds ns) (map (\<lambda>i. any_id (ns ! i)) (c @ [hd c]))"
proof -
  have bounds: "set (c @ [hd c]) \<subseteq> {..<length ns}" and steps: "successively (needs (dependency_table ns ix)) (c @ [hd c])"
    using assms(3) by (auto simp: cycle_in_def dest: subsetD [OF _ hd_in_set])
  have "(any_id (ns ! d), any_id (ns ! i)) \<in> feeds ns"
    if "needs (dependency_table ns ix) i d" "i < length ns" "d < length ns" for i d
    using before_feeds [OF assms(1,2) that(2,3)] that by (simp add: needs_def before_def)
  then have "successively (\<lambda>i d. (any_id (ns ! d), any_id (ns ! i)) \<in> feeds ns) (c @ [hd c])"
    by (rule successively_mono [OF steps]) (use bounds in auto)
  then show ?thesis by (simp only: successively_map)
qed

section \<open>Properties\<close>

text \<open>C34: The validation of a graph never panics, and it accepts a definition exactly when the
  definition is a valid graph: no blank keys, roles or missing outputs, distinct names, known
  references, no cycle, a typing, distinct setting keys, and every node needed by an output.\<close>
theorem calc_validate_decides:
  assumes "all_built g"
  shows "no_panic (validate g) \<and> ((\<exists>vg. validate g = Inr vg) \<longleftrightarrow> valid_graph g)"
  using validate_result [OF assms] by auto

theorem calc_validate_decides_witness: "valid_graph sample_graph \<and> \<not> valid_graph cyclic_graph"
proof -
  have "valid_graph sample_graph"
    using calc_validate_decides [OF sample_built(1)] sample_result by metis
  moreover have "\<not> valid_graph cyclic_graph"
    using calc_validate_decides [OF sample_built(2)] cyclic_fails by auto
  ultimately show ?thesis by simp
qed

text \<open>C35: When the references of a definition are right but the nodes depend on each other in a
  cycle, the validation reports a cycle that exists: each listed node depends on the next one, and
  the last is the first.\<close>
theorem calc_reported_cycle_is_real:
  assumes "well_referenced g" "\<not> acyclic (feeds (nodes g))"
  shows "\<exists>path. validate g = err (Cycle path) \<and> 2 \<le> length path \<and> hd path = last path \<and>
    successively (\<lambda>n d. (d, n) \<in> feeds (nodes g)) path"
proof (cases rule: validate_front [of g])
  case (1 ix cix)
  then have ok: "operands_ok (nodes g)" by (simp add: well_referenced_def)
  obtain c where c: "cycle_in (dependency_table (nodes g) ix) c"
    "validate g = err (Cycle (map (\<lambda>i. any_id (nodes g ! i)) (c @ [hd c])))"
    using rest_cyclic [OF 1(2) ok assms(2)] 1(4) by metis
  have "c \<noteq> []" using c(1) by (simp add: cycle_in_def)
  then show ?thesis using c cycle_names [OF 1(2) ok c(1)]
    by (intro exI [of _ "map (\<lambda>i. any_id (nodes g ! i)) (c @ [hd c])"]) (auto simp: hd_map neq_Nil_conv)
next
  case 2
  with assms show ?thesis by simp
qed

lemma feeds_edges: "feeds ns = (\<lambda>e. (source e, target e)) ` set (generate_edges ns)"
  by (auto simp: feeds_def generate_edges_def image_UN image_image edge_from_operand_def)

lemma cyclic_graph_cyclic: "\<not> acyclic (feeds (nodes cyclic_graph))"
proof -
  have "(lit ''derived.b'', lit ''derived.a'') \<in> feeds (nodes cyclic_graph)"
    "(lit ''derived.a'', lit ''derived.b'') \<in> feeds (nodes cyclic_graph)"
    by (simp_all add: feeds_edges sample_defs generate_edges_def edge_from_operand_def)
  then have "(lit ''derived.a'', lit ''derived.a'') \<in> (feeds (nodes cyclic_graph))\<^sup>+" by (meson trancl.intros)
  then show ?thesis by (auto simp: acyclic_def)
qed

lemma cyclic_graph_well_referenced: "well_referenced cyclic_graph"
  by (simp add: well_referenced_def no_blanks_def setting_keys_def outputs_ok_def claims_ok_def operands_ok_def
      sample_defs trim_def is_whitespace_def output_node_type_def is_finding_def)

theorem calc_reported_cycle_is_real_witness:
  "successively (\<lambda>n d. (d, n) \<in> feeds (nodes cyclic_graph)) (map lit [''derived.a'', ''derived.b'', ''derived.a''])"
  using calc_reported_cycle_is_real [OF cyclic_graph_well_referenced cyclic_graph_cyclic] cyclic_fails by auto

text \<open>C36: The topological order of a validated graph lists every node exactly once, each one after
  all the nodes that feed it.\<close>
theorem calc_order_is_topological:
  assumes "all_built g" "validate g = Inr vg"
  shows "distinct (topological_order vg) \<and> set (topological_order vg) = any_id ` set (nodes g) \<and>
    (\<forall>k < length (topological_order vg). \<forall>a. (a, topological_order vg ! k) \<in> feeds (nodes g) \<longrightarrow>
       a \<in> set (take k (topological_order vg)))"
  using validated_describes [OF assms] by (simp add: describes_def sorted_by_edges_def)

theorem calc_order_is_topological_witness:
  "any_id ` set (nodes sample_graph) =
     lit ` {''input.size'', ''constant.count'', ''derived.total'', ''setting.max'', ''finding.big''}"
proof -
  obtain vg where vg: "validate sample_graph = Inr vg" "topological_order vg =
     map lit [''input.size'', ''constant.count'', ''derived.total'', ''setting.max'', ''finding.big'']"
    by (rule sample_result)
  from calc_order_is_topological [OF sample_built(1) vg(1)]
  have "any_id ` set (nodes sample_graph) = set (topological_order vg)" by simp
  then show ?thesis unfolding vg(2) by simp
qed

text \<open>C37: The resolved types of a validated graph obey the typing rules at every node, findings have
  none, and no other assignment of types to its nodes does.\<close>
theorem calc_types_are_the_only_typing:
  assumes "all_built g" "validate g = Inr vg"
  shows "typing (nodes g) (resolved_type vg) \<and> (\<forall>ty. typing (nodes g) ty \<longrightarrow> ty = resolved_type vg)"
  using validated_describes [OF assms] unfolding describes_def only_typing_def by blast

theorem calc_types_are_the_only_typing_witness:
  "\<exists>ty. typing (nodes sample_graph) ty \<and> ty (lit ''derived.total'') = Some TDataSize"
proof -
  obtain vg where vg: "validate sample_graph = Inr vg" "resolved_type vg (lit ''derived.total'') = Some TDataSize"
    using sample_result by metis
  with calc_types_are_the_only_typing [OF sample_built(1) vg(1)] show ?thesis by blast
qed

text \<open>Lookups on a validated graph: a node or citation is found under its ID and under no other,
  and a node's dependencies and dependents are the edges into it and out of it, in the order of
  the definition.\<close>
theorem calc_lookups_are_right:
  assumes "all_built g" "validate g = Inr vg"
  shows "vg_node vg i = Inr (List.find (\<lambda>n. any_id n = i) (nodes g)) \<and>
    vg_citation vg c = Inr (List.find (\<lambda>x. citation_id x = c) (citations g)) \<and>
    vg_dependencies vg i = (if i \<in> any_id ` set (nodes g)
      then Some (filter (\<lambda>e. target e = i) (generate_edges (nodes g))) else None) \<and>
    vg_dependents vg i = (if i \<in> any_id ` set (nodes g)
      then Some (filter (\<lambda>e. source e = i) (generate_edges (nodes g))) else None)"
proof -
  have d: "describes g vg" using validated_describes [OF assms] .
  then have ix: "index_ok any_id (nodes g) (node_index vg)" "index_ok citation_id (citations g) (citation_index vg)"
    by (simp_all add: describes_def)
  have "vg_node vg i = Inr (List.find (\<lambda>n. any_id n = i) (nodes g))"
    using d index_ok_Some [OF ix(1)]
    by (auto simp: vg_node_def find_index [OF ix(1)] describes_def split: option.split)
  moreover have "vg_citation vg c = Inr (List.find (\<lambda>x. citation_id x = c) (citations g))"
    using d index_ok_Some [OF ix(2)]
    by (auto simp: vg_citation_def find_index [OF ix(2)] describes_def split: option.split)
  ultimately show ?thesis
    using d by (simp add: describes_def edge_map_def edges_by_def vg_dependencies_def vg_dependents_def)
qed

theorem calc_lookups_are_right_witness:
  "\<exists>vg. validate sample_graph = Inr vg \<and> vg_dependencies vg (lit ''setting.max'') =
     Some [\<lparr>source = lit ''derived.total'', target = lit ''setting.max'', edge_role = lit ''value''\<rparr>]"
proof -
  obtain vg where vg: "validate sample_graph = Inr vg" using sample_result by metis
  from calc_lookups_are_right [OF sample_built(1) vg, of "lit ''setting.max''"] vg
  show ?thesis by (auto simp: sample_defs generate_edges_def edge_from_operand_def)
qed

text \<open>The type contract of an expression from the public constructors accepts exactly the
  operand types that the typing rules allow, gives the result type of the rules, and never
  panics.\<close>
theorem calc_contracts_are_the_rules:
  assumes "built e"
  shows "no_panic (any_result_type e types) \<and>
    (any_result_type e types = Inr t \<longleftrightarrow> length types = length (any_operands e) \<and> typed e types t)"
  using any_result_type_Inr_iff [OF assms] no_panic_result_type [OF assms] by blast

theorem calc_contracts_are_the_rules_witness:
  "typed (EMultiply (multiply_new (sample_operand ''a'') (sample_operand ''b''))) [TScalar, TDataSize] TDataSize"
  using calc_contracts_are_the_rules [OF constructors_build(3), of _ _ "[TScalar, TDataSize]" TDataSize]
  by (simp add: multiply_result_type_def ensure_resolved_type_count_def multiply_new_def from_operation_def)

text \<open>An identifier is accepted exactly when it is segments joined by dots, each a lower-case
  letter followed by lower-case letters, digits, underscores and hyphens; it is kept as it is.
  Every node ID made from a node type and a valid suffix is a valid identifier.\<close>
theorem calc_identifier_grammar:
  "(node_id_new value = Inr i \<longleftrightarrow> i = value \<and> (\<exists>segs. segs \<noteq> [] \<and> list_all valid_segment segs \<and> value = join_with 46 segs)) \<and>
   (\<forall>p \<in> {lit ''input'', lit ''constant'', lit ''derived'', lit ''setting'', lit ''finding''}.
      node_id_suffix_new suffix = Inr s \<longrightarrow> node_id_new (from_parts p s) = Inr (from_parts p s))"
proof -
  have "node_id_new (from_parts p s) = Inr (from_parts p s)"
    if p: "valid_segment p" and "node_id_suffix_new suffix = Inr s" for p
  proof -
    have "validate_identifier s = Inr ()" using that(2) by (auto simp: node_id_suffix_new_def result_simps)
    then obtain segs where segs: "segs \<noteq> []" "list_all valid_segment segs" "s = join_with 46 segs"
      using validate_identifier_Inr by blast
    then have "from_parts p s = join_with 46 (p # segs)"
      by (cases segs) (simp_all add: from_parts_def)
    then have "validate_identifier (from_parts p s) = Inr ()"
      using p segs(2) unfolding validate_identifier_Inr by (intro exI [of _ "p # segs"]) simp
    then show ?thesis by (simp add: node_id_new_def)
  qed
  moreover have "valid_segment p" if "p \<in> {lit ''input'', lit ''constant'', lit ''derived'', lit ''setting'', lit ''finding''}" for p
    using that by (auto simp: valid_segment_def is_ascii_lowercase_def identifier_char_def)
  ultimately show ?thesis by (auto simp: node_id_new_def result_simps validate_identifier_Inr)
qed

theorem calc_identifier_grammar_witness:
  "node_id_new (from_parts (lit ''input'') (lit ''a.b'')) = Inr (lit ''input.a.b'')"
proof -
  have "node_id_suffix_new (lit ''a.b'') = Inr (lit ''a.b'')"
    by (simp add: node_id_suffix_new_def validate_identifier_def is_ascii_lowercase_def)
  with calc_identifier_grammar [of "[]" "[]" "lit ''a.b''" "lit ''a.b''"] show ?thesis
    by (simp add: from_parts_def)
qed

end
