(* ===== verification/Ticket_Plan.thy ===== *)
theory Ticket_Plan imports Rust_Text begin

text \<open>
  Ticket publication plans and saved batches (\<open>tools/ticket_publication/plan.rs\<close>). The parsers of
  the crate \<open>uuid\<close> and the SHA-256 fingerprint of the serialised plan are arguments; issue
  numbers and IDs are their positive numbers. \<open>anyhow\<close> errors are their messages.
\<close>

section \<open>Plans\<close>

datatype plan_error = Message string | External

definition max_sub_issues :: nat where "max_sub_issues = 100"
definition max_dependencies :: nat where "max_dependencies = 50"

text \<open>\<open>ensure!\<close>.\<close>

definition ensure :: "bool \<Rightarrow> string \<Rightarrow> (plan_error, unit) outcome" where
  "ensure b message = (if b then Inr () else err (Message message))"

lemma ensure_simps [simp]:
  "ensure True s = Inr ()"
  "ensure False s = err (Message s)"
  by (simp_all add: ensure_def)

lemma ensure_Inr_iff [result_simps]: "ensure b s = Inr u \<longleftrightarrow> b"
  by (simp add: ensure_def)

lemma no_panic_ensure [simp]: "no_panic (ensure b s)"
  by (simp add: ensure_def)

type_synonym ticket_key = rstring
type_synonym issue_number = nat

definition ticket_key_try_from :: "rstring \<Rightarrow> (plan_error, ticket_key) outcome" where
  "ticket_key_try_from value =
     and_then (ensure (utf8 value \<noteq> [] \<and> length (utf8 value) \<le> 64 \<and>
         list_all (\<lambda>c. is_ascii_lowercase c \<or> is_ascii_digit c \<or> c = 45) (utf8 value) \<and>
         is_ascii_lowercase (utf8 value ! 0)) ''invalid ticket key'') (\<lambda>_.
     Inr value)"

text \<open>A batch identity is the text of a UUID; \<open>parse_str\<close> and \<open>to_string\<close> are those of the crate.\<close>

type_synonym batch_id = rstring

definition batch_id_try_from ::
  "(rstring \<Rightarrow> 'u option) \<Rightarrow> ('u \<Rightarrow> rstring) \<Rightarrow> ('u \<Rightarrow> bool) \<Rightarrow> rstring \<Rightarrow> (plan_error, batch_id) outcome" where
  "batch_id_try_from parse_str to_string is_nil value =
     and_then (ok_or (Err External) (parse_str value)) (\<lambda>parsed.
     and_then (ensure (to_string parsed = value \<and> \<not> is_nil parsed) ''invalid batch identity'') (\<lambda>_.
     Inr value))"

datatype blocker = BTicket ticket_key | BIssue issue_number

record ticket =
  ticket_key :: ticket_key
  ticket_title :: rstring
  ticket_body :: rstring
  ticket_labels :: "rstring list"
  blockers :: "blocker list"

record plan =
  plan_version :: nat
  repository :: rstring
  parent :: issue_number
  plan_tickets :: "ticket list"

definition is_triage_label :: "rstring \<Rightarrow> bool" where
  "is_triage_label label \<longleftrightarrow> list_ex (\<lambda>name. to_ascii_lowercase (lit name) = to_ascii_lowercase label)
     [''needs-triage'', ''needs-info'', ''ready-for-agent'', ''ready-for-human'', ''wontfix'']"

text \<open>\<open>str::contains\<close> of a text.\<close>

fun contains_text :: "rstring \<Rightarrow> rstring \<Rightarrow> bool" where
  "contains_text p [] \<longleftrightarrow> p = []"
| "contains_text p (c # cs) \<longleftrightarrow> take (length p) (c # cs) = p \<or> contains_text p cs"

definition reserved_marker :: rstring where
  "reserved_marker = lit ''<!-- ticket-publication:''"

definition check_label :: "rstring set \<times> nat \<Rightarrow> rstring \<Rightarrow> (plan_error, rstring set \<times> nat) outcome" where
  "check_label s label = (case s of (labels, triage) \<Rightarrow>
     and_then (ensure (trim label \<noteq> [] \<and> \<not> list_ex is_control label \<and> to_ascii_lowercase label \<notin> labels)
         ''invalid or duplicate label'') (\<lambda>_.
     Inr (insert (to_ascii_lowercase label) labels, triage + (if is_triage_label label then 1 else 0))))"

definition check_ticket :: "ticket_key set \<Rightarrow> ticket \<Rightarrow> (plan_error, ticket_key set) outcome" where
  "check_ticket keys t =
     and_then (ensure (ticket_key t \<notin> keys) ''duplicate ticket key'') (\<lambda>_.
     and_then (ensure (trim (ticket_title t) \<noteq> [] \<and> \<not> list_ex (\<lambda>c. c \<in> {10, 13, 0}) (ticket_title t))
         ''invalid title'') (\<lambda>_.
     and_then (ensure (trim (ticket_body t) \<noteq> [] \<and> \<not> list_ex (\<lambda>c. c = 0) (ticket_body t)) ''invalid body'') (\<lambda>_.
     and_then (ensure (\<not> contains_text reserved_marker (ticket_body t))
         ''body contains a reserved identity marker'') (\<lambda>_.
     and_then (try_fold check_label ({}, 0) (ticket_labels t)) (\<lambda>(labels, triage).
     and_then (ensure (triage \<le> 1) ''plan contains conflicting triage labels'') (\<lambda>_.
     Inr (insert (ticket_key t) keys)))))))"

definition check_each :: "('a \<Rightarrow> (plan_error, unit) outcome) \<Rightarrow> 'a list \<Rightarrow> (plan_error, unit) outcome" where
  "check_each f xs = try_fold (\<lambda>_ x. f x) () xs"

definition check_blockers :: "ticket_key set \<Rightarrow> ticket \<Rightarrow> (plan_error, unit) outcome" where
  "check_blockers keys t = check_each (\<lambda>b. case b of
       BTicket k \<Rightarrow> ensure (k \<in> keys) ''missing blocker ticket''
     | BIssue _ \<Rightarrow> Inr ()) (blockers t)"

text \<open>The values of a list in the order of their first occurrence.\<close>

definition uniques :: "'a list \<Rightarrow> 'a list" where
  "uniques xs = foldl (\<lambda>us x. if x \<in> set us then us else us @ [x]) [] xs"

definition check_dependency_limits :: "ticket list \<Rightarrow> (plan_error, unit) outcome" where
  "check_dependency_limits ts = check_each (\<lambda>t.
     and_then (ensure (length (uniques (blockers t)) \<le> max_dependencies)
         ''ticket exceeds the native blocker capacity'') (\<lambda>_.
     check_each (\<lambda>b. ensure (length (filter (\<lambda>u. b \<in> set (blockers u)) ts) \<le> max_dependencies)
         ''blocker exceeds the native blocking capacity'') (uniques (blockers t)))) ts"

section \<open>The order of the tickets\<close>

definition unblocked :: "ticket_key set \<Rightarrow> ticket \<Rightarrow> bool" where
  "unblocked resolved t \<longleftrightarrow> list_all (\<lambda>b. case b of BTicket k \<Rightarrow> k \<in> resolved | BIssue _ \<Rightarrow> True) (blockers t)"

text \<open>One pass over the tickets; a ticket may use what the pass has resolved before it.\<close>

definition resolve_pass :: "ticket list \<Rightarrow> ticket_key set \<Rightarrow> ticket_key set" where
  "resolve_pass ts resolved = foldl (\<lambda>r t. if unblocked r t then insert (ticket_key t) r else r) resolved ts"

lemma resolve_pass_mono: "resolved \<subseteq> resolve_pass ts resolved"
  unfolding resolve_pass_def
proof (induction ts arbitrary: resolved)
  case (Cons t ts)
  have "resolved \<subseteq> (if unblocked resolved t then insert (ticket_key t) resolved else resolved)" by auto
  also have "\<dots> \<subseteq> foldl (\<lambda>r t. if unblocked r t then insert (ticket_key t) r else r)
      (if unblocked resolved t then insert (ticket_key t) resolved else resolved) ts" by (rule Cons.IH)
  finally show ?case by simp
qed simp

lemma resolve_pass_bound: "resolve_pass ts resolved \<subseteq> resolved \<union> ticket_key ` set ts"
  unfolding resolve_pass_def
proof (induction ts arbitrary: resolved)
  case (Cons t ts)
  from Cons.IH [of "if unblocked resolved t then insert (ticket_key t) resolved else resolved"]
  show ?case by (auto split: if_splits)
qed simp

lemma resolve_pass_finite [simp]: "finite (resolve_pass ts resolved) \<longleftrightarrow> finite resolved"
proof
  show "finite (resolve_pass ts resolved)" if "finite resolved"
    using finite_subset [OF resolve_pass_bound] that by blast
qed (use finite_subset [OF resolve_pass_mono] in blast)

function check_order :: "ticket list \<Rightarrow> ticket_key set \<Rightarrow> (plan_error, unit) outcome" where
  "check_order ts resolved =
     (if card resolved < length ts then
        let after = resolve_pass ts resolved in
        if card after = card resolved then err (Message ''dependency cycle'')
        else check_order ts after
      else Inr ())"
  by pat_completeness auto
termination
proof (relation "measure (\<lambda>(ts, resolved). length ts - card resolved)")
  fix ts :: "ticket list" and resolved after
  assume loop: "card resolved < length ts" and after: "after = resolve_pass ts resolved" "card after \<noteq> card resolved"
  have "finite resolved"
    using after by (metis card.infinite resolve_pass_finite)
  then have "card resolved \<le> card after"
    using card_mono [OF _ resolve_pass_mono [of resolved ts]] after(1) by simp
  with after(2) loop show "((ts, after), ts, resolved) \<in> measure (\<lambda>(ts, resolved). length ts - card resolved)"
    by simp
qed simp

declare check_order.simps [simp del]

definition plan_check :: "plan \<Rightarrow> (plan_error, unit) outcome" where
  "plan_check p =
     and_then (ensure (plan_version p = 1) ''unsupported plan version'') (\<lambda>_.
     and_then (ensure (repository p = lit ''LowkeyLab/bazel-repo'') ''unsupported repository'') (\<lambda>_.
     and_then (ensure (plan_tickets p \<noteq> []) ''plan contains no tickets'') (\<lambda>_.
     and_then (ensure (length (plan_tickets p) \<le> max_sub_issues) ''plan exceeds the native parent capacity'') (\<lambda>_.
     and_then (try_fold check_ticket {} (plan_tickets p)) (\<lambda>keys.
     and_then (check_each (check_blockers keys) (plan_tickets p)) (\<lambda>_.
     and_then (check_dependency_limits (plan_tickets p)) (\<lambda>_.
     check_order (plan_tickets p) {})))))))"

section \<open>Batches\<close>

record issue_mapping =
  mapping_number :: issue_number
  mapping_id :: nat
  mapping_node :: rstring

definition issue_node_try_from :: "rstring \<Rightarrow> (plan_error, rstring) outcome" where
  "issue_node_try_from value =
     and_then (ensure (value \<noteq> [] \<and> \<not> list_ex (\<lambda>c. is_whitespace c \<or> is_control c) value) ''invalid issue node ID'') (\<lambda>_.
     Inr value)"

datatype ticket_status = Pending | Creating | RetryAuthorized | Created issue_mapping

record progress =
  progress_key :: ticket_key
  marker :: rstring
  progress_status :: ticket_status

record graph_progress =
  parent_links :: nat
  dependency_links :: nat
  graph_verified :: bool

record label_progress =
  label_key :: ticket_key
  applied :: "rstring list"
  remaining :: "rstring list"

record labels_progress =
  labels_checked :: bool
  labels_tickets :: "label_progress list"
  labels_verified :: bool

record batch =
  batch_version :: nat
  saved_id :: batch_id
  plan_fingerprint :: rstring
  saved_plan :: plan
  saved_tickets :: "progress list"
  saved_graph :: graph_progress
  saved_labels :: labels_progress

definition ticket_marker :: "batch_id \<Rightarrow> ticket_key \<Rightarrow> rstring" where
  "ticket_marker b k = reserved_marker @ b @ lit '':'' @ k @ lit '' -->''"

definition batch_prepare ::
  "(plan \<Rightarrow> rstring option) \<Rightarrow> batch_id \<Rightarrow> plan \<Rightarrow> (plan_error, batch) outcome" where
  "batch_prepare fingerprint b p =
     and_then (plan_check p) (\<lambda>_.
     let ts = map (\<lambda>t. \<lparr>progress_key = ticket_key t, marker = ticket_marker b (ticket_key t),
        progress_status = Pending\<rparr>) (plan_tickets p) in
     and_then (ok_or (Err External) (fingerprint p)) (\<lambda>f.
     Inr \<lparr>batch_version = 1, saved_id = b, plan_fingerprint = f, saved_plan = p, saved_tickets = ts,
          saved_graph = \<lparr>parent_links = 0, dependency_links = 0, graph_verified = False\<rparr>,
          saved_labels = \<lparr>labels_checked = False, labels_tickets = [], labels_verified = False\<rparr>\<rparr>))"

definition check_mapping ::
  "issue_number \<Rightarrow> issue_mapping list \<Rightarrow> progress \<Rightarrow> (plan_error, issue_mapping list) outcome" where
  "check_mapping parent_number mappings progress =
     (case progress_status progress of
        Created mapping \<Rightarrow>
          and_then (ensure (mapping_number mapping \<noteq> parent_number) ''child mapping identifies the parent'') (\<lambda>_.
          and_then (ensure (\<not> list_ex (\<lambda>m. mapping_number m = mapping_number mapping \<or> mapping_id m = mapping_id mapping \<or>
              mapping_node m = mapping_node mapping) mappings) ''duplicate saved issue mapping'') (\<lambda>_.
          Inr (mappings @ [mapping])))
      | _ \<Rightarrow> Inr mappings)"

definition batch_check :: "(plan \<Rightarrow> rstring option) \<Rightarrow> batch \<Rightarrow> batch_id \<Rightarrow> (plan_error, unit) outcome" where
  "batch_check fingerprint saved expected =
     and_then (ensure (batch_version saved = 1 \<and> saved_id saved = expected)
         ''invalid saved batch identity or version'') (\<lambda>_.
     and_then (batch_prepare fingerprint (saved_id saved) (saved_plan saved)) (\<lambda>checked.
     and_then (ensure (plan_fingerprint checked = plan_fingerprint saved) ''saved plan fingerprint mismatch'') (\<lambda>_.
     and_then (ensure (length (saved_tickets checked) = length (saved_tickets saved) \<and>
         list_all (\<lambda>(e, s). progress_key e = progress_key s \<and> marker e = marker s)
           (zip (saved_tickets checked) (saved_tickets saved)))
         ''invalid saved ticket identities or progress'') (\<lambda>_.
     and_then (try_fold (check_mapping (parent (saved_plan saved))) [] (saved_tickets saved)) (\<lambda>_.
     Inr ())))))"

end
