(* ===== verification/Effects.thy ===== *)
theory Effects imports Prelude begin

text \<open>
  Programs with a state: a step takes the state and returns it with a value, an error or a panic.
  A step that fails returns the state as far as it came, as the source does. \<open>after\<close> is the operator
  \<open>?\<close> followed by the rest of the function, \<open>each\<close> and \<open>walk\<close> are loops, \<open>attempt\<close> catches an error as
  a value.
\<close>

type_synonym ('s, 'e, 'a) prog = "'s \<Rightarrow> ('e, 'a) outcome \<times> 's"

definition give :: "'a \<Rightarrow> ('s, 'e, 'a) prog" where
  "give x s = (Inr x, s)"

definition stop :: "'e \<Rightarrow> ('s, 'e, 'a) prog" where
  "stop e s = (err e, s)"

definition from_outcome :: "('e, 'a) outcome \<Rightarrow> ('s, 'e, 'a) prog" where
  "from_outcome r s = (r, s)"

definition get :: "('s \<Rightarrow> 'a) \<Rightarrow> ('s, 'e, 'a) prog" where
  "get f s = (Inr (f s), s)"

definition put :: "('s \<Rightarrow> 's) \<Rightarrow> ('s, 'e, unit) prog" where
  "put f s = (Inr (), f s)"

definition after :: "('s, 'e, 'a) prog \<Rightarrow> ('a \<Rightarrow> ('s, 'e, 'b) prog) \<Rightarrow> ('s, 'e, 'b) prog" where
  "after m k s = (case m s of (Inl e, s') \<Rightarrow> (Inl e, s') | (Inr x, s') \<Rightarrow> k x s')"

definition require :: "bool \<Rightarrow> 'e \<Rightarrow> ('s, 'e, unit) prog" where
  "require b e = (if b then give () else stop e)"

definition some_or :: "'e \<Rightarrow> 'a option \<Rightarrow> ('s, 'e, 'a) prog" where
  "some_or e x = (case x of None \<Rightarrow> stop e | Some a \<Rightarrow> give a)"

primrec each :: "('a \<Rightarrow> ('s, 'e, unit) prog) \<Rightarrow> 'a list \<Rightarrow> ('s, 'e, unit) prog" where
  "each f [] = give ()"
| "each f (x # xs) = after (f x) (\<lambda>_. each f xs)"

primrec walk :: "('b \<Rightarrow> 'a \<Rightarrow> ('s, 'e, 'b) prog) \<Rightarrow> 'b \<Rightarrow> 'a list \<Rightarrow> ('s, 'e, 'b) prog" where
  "walk f b [] = give b"
| "walk f b (x # xs) = after (f b x) (\<lambda>b'. walk f b' xs)"

text \<open>The result of an attempt is a value; a panic is not caught.\<close>

definition attempt :: "('s, 'e, 'a) prog \<Rightarrow> ('s, 'e, 'e + 'a) prog" where
  "attempt m s = (case m s of
       (Inr x, s') \<Rightarrow> (Inr (Inr x), s')
     | (Inl (Err e), s') \<Rightarrow> (Inr (Inl e), s')
     | (Inl Panic, s') \<Rightarrow> (panic, s'))"

text \<open>
  The outcome of replacing a file by a rename: nothing replaced, or replaced but its directory not
  synchronized, or both done.
\<close>

datatype commit_result = NotCommitted | CommittedUnsynced | CommittedDurably

lemma effect_simps [simp]:
  "give x s = (Inr x, s)" "stop e s = (err e, s)" "from_outcome r s = (r, s)"
  "get f s = (Inr (f s), s)" "put h s = (Inr (), h s)"
  by (simp_all add: give_def stop_def from_outcome_def get_def put_def)

lemma after_simps [simp]:
  "m s = (Inr x, s') \<Longrightarrow> after m k s = k x s'"
  "m s = (Inl e, s') \<Longrightarrow> after m k s = (Inl e, s')"
  by (simp_all add: after_def)

lemma require_simps [simp]: "require True e = give ()" "require False e = stop e"
  by (simp_all add: require_def)

lemma some_or_simps [simp]: "some_or e None = stop e" "some_or e (Some a) = give a"
  by (simp_all add: some_or_def)

lemma after_Inr_iff [result_simps]:
  "after m k s = (Inr y, s2) \<longleftrightarrow> (\<exists>x s1. m s = (Inr x, s1) \<and> k x s1 = (Inr y, s2))"
  by (auto simp: after_def split: prod.splits sum.splits)

lemma require_Inr_iff [result_simps]: "require b e s = (Inr u, s') \<longleftrightarrow> b \<and> s' = s"
  by (auto simp: require_def)

lemma some_or_Inr_iff [result_simps]: "some_or e x s = (Inr a, s') \<longleftrightarrow> x = Some a \<and> s' = s"
  by (cases x) auto

end
