(* ===== verification/Ticket_Session.thy ===== *)
theory Ticket_Session imports Ticket_Plan Effects begin

text \<open>
  One invocation of the publication command: its events (\<open>tools/ticket_publication/progress.rs\<close>),
  its durable file (\<open>store.rs\<close>) and the calculus of its steps.

  GitHub, the \<open>gh\<close> process, the file system and SHA-256 are not part of the program. The record
  \<open>service\<close> is their interface: every call may fail, may take effect although it fails, and may
  find the remote state changed by others, which is of an arbitrary type. What is known of them is
  what the program checks.
\<close>

section \<open>Progress\<close>

datatype phase = RemoteChecks | Creation | ParentLinks | BlockerLinks | Labels | FinalVerification

datatype remote_kind =
    ReadIssue | EnumerateIssues | CreateIssue | ReadRelationships | ReadParent | AddParent | AddBlocker | AddLabels

datatype verified_step = RemoteChecksStep | IssueStep | ParentLinkStep | BlockerLinkStep | GraphStep | LabelsStep

datatype outcome_status = Complete | Partial | Uncertain | ConflictStatus

fun outcome_text :: "outcome_status \<Rightarrow> string" where
  "outcome_text Complete = ''complete''"
| "outcome_text Partial = ''partial''"
| "outcome_text Uncertain = ''uncertain''"
| "outcome_text ConflictStatus = ''conflict''"

datatype subject = TicketSubject ticket_key | IssueSubject issue_number

record progress_context =
  ctx_phase :: phase
  ctx_subjects :: "subject list"

definition context_new :: "phase \<Rightarrow> progress_context" where
  "context_new ph = \<lparr>ctx_phase = ph, ctx_subjects = []\<rparr>"

definition context_issue :: "phase \<Rightarrow> issue_number \<Rightarrow> progress_context" where
  "context_issue ph n = \<lparr>ctx_phase = ph, ctx_subjects = [IssueSubject n]\<rparr>"

definition context_ticket :: "phase \<Rightarrow> batch \<Rightarrow> nat \<Rightarrow> ('e, progress_context) outcome" where
  "context_ticket ph b i = and_then (index (saved_tickets b) i) (\<lambda>p.
     Inr \<lparr>ctx_phase = ph, ctx_subjects = TicketSubject (progress_key p) #
       (case progress_status p of Created mapping \<Rightarrow> [IssueSubject (mapping_number mapping)] | _ \<Rightarrow> [])\<rparr>)"

definition related :: "subject \<Rightarrow> progress_context \<Rightarrow> progress_context" where
  "related s c = (if s \<in> set (ctx_subjects c) then c else c\<lparr>ctx_subjects := ctx_subjects c @ [s]\<rparr>)"

definition is_mapped_to :: "issue_number \<Rightarrow> ticket_status \<Rightarrow> bool" where
  "is_mapped_to n st \<longleftrightarrow> (case st of Created mapping \<Rightarrow> mapping_number mapping = n | _ \<Rightarrow> False)"

definition related_issue :: "batch \<Rightarrow> issue_number \<Rightarrow> progress_context \<Rightarrow> progress_context" where
  "related_issue b n c = fold (\<lambda>p c. if is_mapped_to n (progress_status p) then related (TicketSubject (progress_key p)) c else c)
     (saved_tickets b) (related (IssueSubject n) c)"

record remote_operation =
  op_context :: progress_context
  op_kind :: remote_kind
  op_sequence :: nat

datatype progress_event =
    RemoteOperationStarted remote_operation
  | StepVerified progress_context verified_step
  | PublicationCompleted outcome_status
  | PublicationStopped "remote_operation option" outcome_status

datatype level = Info | Warning

definition record_level :: "progress_event \<Rightarrow> level" where
  "record_level e = (case e of PublicationStopped _ _ \<Rightarrow> Warning | _ \<Rightarrow> Info)"

section \<open>The service\<close>

record remote_issue =
  remote_number :: issue_number
  remote_id :: nat
  remote_node :: rstring
  remote_title :: rstring
  remote_body :: "rstring option"
  remote_repository :: rstring
  remote_labels :: "rstring list option"
  is_pull_request :: bool

text \<open>
  An element of a page: whether it has the key \<open>pull_request\<close>, and the issue it decodes to. A page
  or an answer that is no array is \<open>None\<close>.
\<close>

type_synonym page_entry = "bool \<times> remote_issue option"
type_synonym pages = "page_entry list option list option"

text \<open>The answer to the query for a parent: errors, a node, its parent key, its identity, its parent.\<close>

record parent_answer =
  has_errors :: bool
  has_node :: bool
  has_parent_key :: bool
  answered_node :: "(rstring \<times> rstring option) option"

text \<open>\<open>None\<close> is a request that fails or returns no valid JSON, or whose answer does not have the shape that the caller decodes.\<close>

record 'g service =
  get_issue :: "issue_number \<Rightarrow> 'g \<Rightarrow> remote_issue option \<times> 'g"
  get_issues :: "'g \<Rightarrow> pages option \<times> 'g"
  post_issue :: "rstring \<Rightarrow> rstring \<Rightarrow> 'g \<Rightarrow> remote_issue option \<times> 'g"
  get_related :: "issue_number \<Rightarrow> string \<Rightarrow> 'g \<Rightarrow> pages option \<times> 'g"
  query_parent :: "rstring \<Rightarrow> 'g \<Rightarrow> parent_answer option \<times> 'g"
  post_child :: "issue_number \<Rightarrow> nat \<Rightarrow> 'g \<Rightarrow> unit option \<times> 'g"
  post_blocker :: "issue_number \<Rightarrow> nat \<Rightarrow> 'g \<Rightarrow> unit option \<times> 'g"
  post_labels :: "issue_number \<Rightarrow> rstring list \<Rightarrow> 'g \<Rightarrow> unit option \<times> 'g"
  commit :: "batch \<Rightarrow> 'g \<Rightarrow> commit_result \<times> 'g"
  fingerprint :: "plan \<Rightarrow> rstring option"

section \<open>The session\<close>

text \<open>
  What a session does, in order: the events it emits (also those a silent listener ignores) and the
  replacements of the file. The batch in memory is the one the functions change in place.
\<close>

datatype deed = Emitted progress_event | Committed batch

record 'g session =
  remote :: 'g
  saved_file :: "batch option"
  memory :: batch
  deeds :: "deed list"
  sequence :: nat
  last_operation :: "remote_operation option"

datatype pub_error = Conflict | Trouble string

type_synonym ('g, 'a) pub = "('g session, pub_error, 'a) prog"

text \<open>\<open>context(Conflict)\<close>: the error is found as a conflict, whatever it was.\<close>

definition as_conflict :: "('g, 'a) pub \<Rightarrow> ('g, 'a) pub" where
  "as_conflict m s = (case m s of (Inl (Err _), s') \<Rightarrow> (err Conflict, s') | r \<Rightarrow> r)"

section \<open>Events and requests\<close>

definition emit :: "progress_event \<Rightarrow> ('g, unit) pub" where
  "emit e = put (\<lambda>s. s\<lparr>deeds := deeds s @ [Emitted e]\<rparr>)"

text \<open>The sequence number is a \<open>u64\<close>.\<close>

definition started :: "progress_context \<Rightarrow> remote_kind \<Rightarrow> ('g, unit) pub" where
  "started c k = after (get sequence) (\<lambda>n.
     if u64_max \<le> n then from_outcome panic
     else let op = \<lparr>op_context = c, op_kind = k, op_sequence = n + 1\<rparr> in
       after (put (\<lambda>s. s\<lparr>sequence := n + 1, last_operation := Some op\<rparr>)) (\<lambda>_.
       emit (RemoteOperationStarted op)))"

definition verified :: "progress_context \<Rightarrow> verified_step \<Rightarrow> ('g, unit) pub" where
  "verified c st = emit (StepVerified c st)"

definition finish :: "outcome_status \<Rightarrow> ('g, unit) pub" where
  "finish o' = after (get last_operation) (\<lambda>op.
     emit (if o' = Complete then PublicationCompleted o' else PublicationStopped op o'))"

definition contact :: "('g \<Rightarrow> 'a \<times> 'g) \<Rightarrow> ('g, 'a) pub" where
  "contact f s = (let (x, g) = f (remote s) in (Inr x, s\<lparr>remote := g\<rparr>))"

definition request :: "progress_context \<Rightarrow> remote_kind \<Rightarrow> ('g \<Rightarrow> 'a option \<times> 'g) \<Rightarrow> ('g, 'a) pub" where
  "request c k f = after (started c k) (\<lambda>_. after (contact f) (some_or (Trouble ''gh api request failed'')))"

section \<open>The durable file\<close>

definition plan_failure :: "plan_error \<Rightarrow> pub_error" where
  "plan_failure e = (case e of Message m \<Rightarrow> Trouble m | External \<Rightarrow> Trouble ''serialization failed'')"

definition check_batch :: "'g service \<Rightarrow> batch \<Rightarrow> batch_id \<Rightarrow> ('g, unit) pub" where
  "check_batch S b i = from_outcome (map_err (map_failure plan_failure) (batch_check (fingerprint S) b i))"

definition write_file :: "'g service \<Rightarrow> batch \<Rightarrow> ('g, unit) pub" where
  "write_file S b = after (contact (commit S b)) (\<lambda>r.
     case r of
       NotCommitted \<Rightarrow> stop (Trouble ''cannot commit batch progress'')
     | CommittedUnsynced \<Rightarrow>
         after (put (\<lambda>s. s\<lparr>saved_file := Some b, deeds := deeds s @ [Committed b]\<rparr>)) (\<lambda>_.
         stop (Trouble ''cannot synchronize the directory''))
     | CommittedDurably \<Rightarrow> put (\<lambda>s. s\<lparr>saved_file := Some b, deeds := deeds s @ [Committed b]\<rparr>))"

text \<open>\<open>Store::save\<close>: the batch in memory is checked and replaces the file.\<close>

definition save :: "'g service \<Rightarrow> ('g, unit) pub" where
  "save S = after (get memory) (\<lambda>b. after (check_batch S b (saved_id b)) (\<lambda>_. write_file S b))"

text \<open>\<open>Store::save_new\<close>: an existing file is not replaced.\<close>

definition save_new :: "'g service \<Rightarrow> ('g, unit) pub" where
  "save_new S = after (get memory) (\<lambda>b. after (get saved_file) (\<lambda>f.
     if f \<noteq> None then stop (Trouble ''cannot commit the prepared batch'') else write_file S b))"

text \<open>\<open>Store::read\<close>.\<close>

definition read_file :: "'g service \<Rightarrow> batch_id \<Rightarrow> ('g, batch) pub" where
  "read_file S i = after (get saved_file) (\<lambda>f.
     after (some_or (Trouble ''batch is missing or preparation is incomplete'') f) (\<lambda>b.
     after (check_batch S b i) (\<lambda>_. give b)))"

definition change_memory :: "(batch \<Rightarrow> batch) \<Rightarrow> ('g, unit) pub" where
  "change_memory f = put (\<lambda>s. s\<lparr>memory := f (memory s)\<rparr>)"

section \<open>The calculus\<close>

lemma contact_simp [simp]:
  "contact q s = (Inr (fst (q (remote s))), s\<lparr>remote := snd (q (remote s))\<rparr>)"
  by (simp add: contact_def split_beta Let_def)

lemmas pub_simps = effect_simps contact_simp

lemma as_conflict_Inr_iff [result_simps]: "as_conflict m s = (Inr a, s') \<longleftrightarrow> m s = (Inr a, s')"
  by (auto simp: as_conflict_def split: prod.splits sum.splits failure.splits)

text \<open>The file after some deeds.\<close>

definition file_after :: "batch option \<Rightarrow> deed list \<Rightarrow> batch option" where
  "file_after f ds = foldl (\<lambda>f d. case d of Committed b \<Rightarrow> Some b | Emitted _ \<Rightarrow> f) f ds"

lemma file_after_simps [simp]:
  "file_after f [] = f"
  "file_after f (Committed b # ds) = file_after (Some b) ds"
  "file_after f (Emitted e # ds) = file_after f ds"
  "file_after f (ds @ ds') = file_after (file_after f ds) ds'"
  by (simp_all add: file_after_def)

text \<open>
  \<open>does I A m\<close>: if the batch in memory satisfies \<open>I\<close> then it does so after the step, and every deed
  of the step is in \<open>A\<close>, whether the step returns, fails or panics; the file is what the deeds make
  of it. The rules of the collection \<open>does\<close> follow the structure of a step.
\<close>

definition acts :: "deed set \<Rightarrow> 'g session \<Rightarrow> 'g session \<Rightarrow> bool" where
  "acts A s s' \<longleftrightarrow> (\<exists>ds. deeds s' = deeds s @ ds \<and> saved_file s' = file_after (saved_file s) ds \<and> set ds \<subseteq> A)"

definition does :: "(batch \<Rightarrow> bool) \<Rightarrow> deed set \<Rightarrow> ('g, 'a) pub \<Rightarrow> bool" where
  "does I A m \<longleftrightarrow> (\<forall>s. I (memory s) \<longrightarrow> I (memory (snd (m s))) \<and> acts A s (snd (m s)))"

lemma acts_refl [simp]: "acts A s s"
  by (auto simp: acts_def)

lemma acts_quiet: "deeds s' = deeds s \<Longrightarrow> saved_file s' = saved_file s \<Longrightarrow> acts A s s'"
  by (auto simp: acts_def)

lemma acts_trans: "acts A s s1 \<Longrightarrow> acts A s1 s2 \<Longrightarrow> acts A s s2"
  unfolding acts_def by (metis Un_least append.assoc file_after_simps(4) set_append)

named_theorems does \<open>the deeds of a step\<close>

lemma does_basic [does]:
  "does I A (give x)" "does I A (stop e)" "does I A (from_outcome r)" "does I A (get f)" "does I A (contact q)"
  "does I A (some_or e y)" "does I A (require b e)"
  by (simp_all add: does_def some_or_def require_def acts_quiet split: option.split)

lemma does_put: "(\<And>s. deeds (f s) = deeds s) \<Longrightarrow> (\<And>s. saved_file (f s) = saved_file s) \<Longrightarrow>
    (\<And>s. I (memory s) \<Longrightarrow> I (memory (f s))) \<Longrightarrow> does I A (put f)"
  by (simp add: does_def acts_quiet)

lemma does_after [does]:
  assumes m: "does I A m" and k: "\<And>x. does I A (k x)"
  shows "does I A (after m k)"
  unfolding does_def
proof (intro allI impI)
  fix s :: "'a session"
  assume I: "I (memory s)"
  obtain r s1 where r: "m s = (r, s1)" by fastforce
  with m I have I1: "I (memory s1)" and a: "acts A s s1" by (metis does_def snd_conv)+
  show "I (memory (snd (after m k s))) \<and> acts A s (snd (after m k s))"
  proof (cases r)
    case (Inl e)
    with r a I1 show ?thesis by (simp add: after_def)
  next
    case (Inr x)
    from k [of x] I1 have "I (memory (snd (k x s1)))" "acts A s1 (snd (k x s1))" by (simp_all add: does_def)
    with acts_trans [OF a] r Inr show ?thesis by (simp add: after_def)
  qed
qed

text \<open>What \<open>get\<close> returns satisfies what the memory does.\<close>

lemma does_get_memory [does]:
  assumes k: "\<And>b. I b \<Longrightarrow> does I A (k b)"
  shows "does I A (after (get memory) k)"
  using k by (simp add: does_def after_def)

lemma as_conflict_session [simp]: "snd (as_conflict m s) = snd (m s)"
  by (auto simp: as_conflict_def split: prod.splits sum.splits failure.splits)

lemma does_as_conflict [does]: "does I A m \<Longrightarrow> does I A (as_conflict m)"
  by (simp add: does_def)

lemma does_each [does]: "(\<And>x. x \<in> set xs \<Longrightarrow> does I A (f x)) \<Longrightarrow> does I A (each f xs)"
  by (induction xs) (simp_all add: does)

lemma does_walk [does]: "(\<And>b x. does I A (f b x)) \<Longrightarrow> does I A (walk f b xs)"
  by (induction xs arbitrary: b) (simp_all add: does)

lemma does_if [does]: "(b \<Longrightarrow> does I A m) \<Longrightarrow> (\<not> b \<Longrightarrow> does I A n) \<Longrightarrow> does I A (if b then m else n)"
  by simp

lemma does_let [does]: "(\<And>x. does I A (f x)) \<Longrightarrow> does I A (Let a f)"
  by simp

lemma does_option [does]:
  "does I A m \<Longrightarrow> (\<And>x. a = Some x \<Longrightarrow> does I A (f x)) \<Longrightarrow> does I A (case a of None \<Rightarrow> m | Some x \<Rightarrow> f x)"
  by (cases a) simp_all

lemma does_prod [does]: "(\<And>x y. a = (x, y) \<Longrightarrow> does I A (f x y)) \<Longrightarrow> does I A (case a of (x, y) \<Rightarrow> f x y)"
  by (cases a) simp_all

lemma does_mono: "does I A m \<Longrightarrow> A \<subseteq> B \<Longrightarrow> does I B m"
  unfolding does_def acts_def by blast

lemma does_emit: "Emitted e \<in> A \<Longrightarrow> does I A (emit e)"
  by (simp add: does_def emit_def acts_def)

lemma does_change_memory: "(\<And>b. I b \<Longrightarrow> I (f b)) \<Longrightarrow> does I A (change_memory f)"
  unfolding change_memory_def by (rule does_put) simp_all

lemma does_write_file:
  assumes "Committed b \<in> A"
  shows "does I A (write_file (S :: 'a service) b)"
proof -
  have "does I A (put (\<lambda>s::'a session. s\<lparr>saved_file := Some b, deeds := deeds s @ [Committed b]\<rparr>))"
    using assms by (simp add: does_def acts_def)
  then show ?thesis
    unfolding write_file_def
    by (intro does allI) (auto split: commit_result.split intro!: does)
qed

lemma does_save: "(\<And>b. I b \<Longrightarrow> Committed b \<in> A) \<Longrightarrow> does I A (save S)"
  unfolding save_def check_batch_def by (intro does does_write_file) simp

lemma does_save_new: "(\<And>b. I b \<Longrightarrow> Committed b \<in> A) \<Longrightarrow> does I A (save_new S)"
  unfolding save_new_def by (intro does does_write_file) simp

text \<open>The events of a request carry a context and a kind that the caller chooses.\<close>

definition request_deeds :: "remote_kind set \<Rightarrow> deed set" where
  "request_deeds K = {Emitted (RemoteOperationStarted op) | op. op_kind op \<in> K}"

lemma does_started:
  assumes "\<And>n. Emitted (RemoteOperationStarted \<lparr>op_context = c, op_kind = k, op_sequence = n\<rparr>) \<in> A"
  shows "does I A (started c k)"
  unfolding started_def Let_def by (intro does does_put does_emit) (simp_all add: assms)

lemma does_request:
  assumes "\<And>n. Emitted (RemoteOperationStarted \<lparr>op_context = c, op_kind = k, op_sequence = n\<rparr>) \<in> A"
  shows "does I A (request c k f)"
  unfolding request_def by (intro does does_started assms)

lemma does_request_kind: "request_deeds K \<subseteq> A \<Longrightarrow> k \<in> K \<Longrightarrow> does I A (request c k f)"
  by (rule does_request) (auto simp: request_deeds_def)

lemma does_read_file: "does I A (read_file S i)"
  unfolding read_file_def check_batch_def by (intro does)

end
