(* ===== verification/Ticket_Remote.thy ===== *)
theory Ticket_Remote imports Ticket_Session begin

text \<open>
  The client of GitHub (\<open>tools/ticket_publication/github.rs\<close>): the requests of the publication
  command and the checks of their answers. A client is its context; what it sends is the service's.
\<close>

section \<open>Issues and relationships\<close>

definition repository_url :: rstring where
  "repository_url = lit ''https://api.github.com/repos/LowkeyLab/bazel-repo''"

text \<open>The identities that the decoder accepts: positive \<open>u64\<close> numbers and a valid node.\<close>

definition valid_identity :: "remote_issue \<Rightarrow> bool" where
  "valid_identity i \<longleftrightarrow> 0 < remote_number i \<and> remote_number i \<le> u64_max \<and> 0 < remote_id i \<and> remote_id i \<le> u64_max \<and>
     issue_node_try_from (remote_node i) = Inr (remote_node i)"

definition decode_issue :: "string \<Rightarrow> remote_issue option \<Rightarrow> ('g, remote_issue) pub" where
  "decode_issue message x = after (some_or (Trouble message) x) (\<lambda>i.
     after (require (valid_identity i) (Trouble message)) (\<lambda>_. give i))"

definition issue_labels :: "remote_issue \<Rightarrow> ('g, rstring list) pub" where
  "issue_labels i = some_or (Trouble ''incomplete issue labels'') (remote_labels i)"

definition has_marker :: "rstring \<Rightarrow> remote_issue \<Rightarrow> bool" where
  "has_marker m i \<longleftrightarrow> (case remote_body i of None \<Rightarrow> False | Some body \<Rightarrow> contains_text m body)"

definition issue_mapping_of :: "remote_issue \<Rightarrow> issue_mapping" where
  "issue_mapping_of i = \<lparr>mapping_number = remote_number i, mapping_id = remote_id i, mapping_node = remote_node i\<rparr>"

definition check_repository :: "remote_issue \<Rightarrow> ('g, unit) pub" where
  "check_repository i = require (remote_repository i = repository_url \<and> \<not> is_pull_request i) Conflict"

definition check_content :: "rstring \<Rightarrow> rstring \<Rightarrow> remote_issue \<Rightarrow> ('g, unit) pub" where
  "check_content title body i = after (check_repository i) (\<lambda>_.
     require (remote_title i = title \<and> remote_body i = Some body) Conflict)"

record relationship =
  rel_repository :: rstring
  rel_mapping :: issue_mapping

definition rel_matches :: "issue_mapping \<Rightarrow> relationship \<Rightarrow> ('g, bool) pub" where
  "rel_matches expected r =
     (let m = rel_mapping r in
      if mapping_id m = mapping_id expected \<or> mapping_node m = mapping_node expected \<or>
         (rel_repository r = repository_url \<and> mapping_number m = mapping_number expected)
      then after (require (rel_repository r = repository_url \<and> m = expected) Conflict) (\<lambda>_. give True)
      else give False)"

section \<open>The client\<close>

text \<open>Once a client verifies the final state, so do the clients scoped from it.\<close>

definition scope :: "progress_context \<Rightarrow> progress_context \<Rightarrow> progress_context" where
  "scope c c' = (if ctx_phase c = FinalVerification then c'\<lparr>ctx_phase := FinalVerification\<rparr> else c')"

definition about_issue :: "progress_context \<Rightarrow> issue_number \<Rightarrow> progress_context" where
  "about_issue c n = scope c (related (IssueSubject n) c)"

definition read_issue :: "'g service \<Rightarrow> progress_context \<Rightarrow> issue_number \<Rightarrow> ('g, remote_issue) pub" where
  "read_issue S c n =
     after (request (about_issue c n) ReadIssue (get_issue S n)) (\<lambda>answer.
     after (decode_issue ''invalid issue'' (Some answer)) (\<lambda>i.
     after (check_repository i) (\<lambda>_.
     after (require (remote_number i = n) Conflict) (\<lambda>_.
     give i))))"

definition create_issue :: "'g service \<Rightarrow> progress_context \<Rightarrow> rstring \<Rightarrow> rstring \<Rightarrow> ('g, remote_issue) pub" where
  "create_issue S c title body =
     after (request c CreateIssue (post_issue S title body)) (\<lambda>answer.
     after (decode_issue ''invalid issue'' (Some answer)) (\<lambda>i.
     after (check_content title body i) (\<lambda>_.
     give i)))"

text \<open>Pull requests are enumerated with the issues.\<close>

definition enumerate_entry :: "remote_issue list \<Rightarrow> page_entry \<Rightarrow> ('g, remote_issue list) pub" where
  "enumerate_entry found v = (case v of (has_key, decoded) \<Rightarrow>
     if has_key then give found
     else after (decode_issue ''incomplete enumerated issue'' decoded) (\<lambda>i.
       after (check_repository i) (\<lambda>_. give (found @ [i]))))"

definition enumerate_page :: "remote_issue list \<Rightarrow> page_entry list option \<Rightarrow> ('g, remote_issue list) pub" where
  "enumerate_page found page =
     after (some_or (Trouble ''incomplete issue enumeration page'') page) (walk enumerate_entry found)"

definition enumerate_issues :: "'g service \<Rightarrow> progress_context \<Rightarrow> ('g, remote_issue list) pub" where
  "enumerate_issues S c =
     after (request c EnumerateIssues (get_issues S)) (\<lambda>answer.
     after (some_or (Trouble ''issue enumeration did not return pages'') answer) (\<lambda>pages.
     after (require (pages \<noteq> []) (Trouble ''issue enumeration returned no pages'')) (\<lambda>_.
     walk enumerate_page [] pages)))"

definition find_marked :: "'g service \<Rightarrow> progress_context \<Rightarrow> rstring \<Rightarrow> ('g, remote_issue list) pub" where
  "find_marked S c m = after (enumerate_issues S c) (\<lambda>is. give (filter (has_marker m) is))"

definition repository_path_ok :: "rstring \<Rightarrow> bool" where
  "repository_path_ok path \<longleftrightarrow> (let parts = split_at_char 47 path in length parts = 2 \<and> list_all (\<lambda>p. p \<noteq> []) parts)"

definition duplicate_identity :: "relationship list \<Rightarrow> remote_issue \<Rightarrow> bool" where
  "duplicate_identity rs i \<longleftrightarrow> list_ex (\<lambda>r.
     (rel_repository r = remote_repository i \<and> mapping_number (rel_mapping r) = remote_number i) \<or>
     mapping_id (rel_mapping r) = remote_id i \<or> mapping_node (rel_mapping r) = remote_node i) rs"

definition relationship_entry :: "relationship list \<Rightarrow> page_entry \<Rightarrow> ('g, relationship list) pub" where
  "relationship_entry rs v =
     after (decode_issue ''incomplete related issue'' (snd v)) (\<lambda>i.
     after (require (\<not> is_pull_request i) Conflict) (\<lambda>_.
     after (some_or (Trouble ''invalid related repository URL'')
       (strip_prefix (lit ''https://api.github.com/repos/'') (remote_repository i))) (\<lambda>path.
     after (require (repository_path_ok path) (Trouble ''invalid related repository URL'')) (\<lambda>_.
     after (require (\<not> duplicate_identity rs i) (Trouble ''duplicate relationship identity'')) (\<lambda>_.
     give (rs @ [\<lparr>rel_repository = remote_repository i, rel_mapping = issue_mapping_of i\<rparr>]))))))"

definition relationship_page :: "relationship list \<Rightarrow> page_entry list option \<Rightarrow> ('g, relationship list) pub" where
  "relationship_page rs page =
     after (some_or (Trouble ''incomplete relationship page'') page) (walk relationship_entry rs)"

definition relationships ::
  "'g service \<Rightarrow> progress_context \<Rightarrow> issue_number \<Rightarrow> string \<Rightarrow> ('g, relationship list) pub" where
  "relationships S c n relation =
     after (request (about_issue c n) ReadRelationships (get_related S n relation)) (\<lambda>answer.
     after (some_or (Trouble ''relationship read did not return pages'') answer) (\<lambda>pages.
     after (require (pages \<noteq> []) (Trouble ''relationship read returned no pages'')) (\<lambda>_.
     walk relationship_page [] pages)))"

definition decode_node :: "rstring \<Rightarrow> ('g, unit) pub" where
  "decode_node n = require (issue_node_try_from n = Inr n) (Trouble ''invalid issue node ID'')"

text \<open>An explicit absent parent is the only evidence of its absence.\<close>

definition read_parent :: "'g service \<Rightarrow> progress_context \<Rightarrow> issue_mapping \<Rightarrow> ('g, rstring option) pub" where
  "read_parent S c m =
     after (request (about_issue c (mapping_number m)) ReadParent (query_parent S (mapping_node m))) (\<lambda>response.
     after (require (\<not> has_errors response) (Trouble ''parent query returned errors'')) (\<lambda>_.
     after (require (has_node response) (Trouble ''parent query has no node'')) (\<lambda>_.
     after (require (has_parent_key response) (Trouble ''incomplete parent query'')) (\<lambda>_.
     after (some_or (Trouble ''invalid parent answer'') (answered_node response)) (\<lambda>(node, parent_node).
     after (decode_node node) (\<lambda>_.
     after (case parent_node of None \<Rightarrow> give () | Some p \<Rightarrow> decode_node p) (\<lambda>_.
     after (require (node = mapping_node m) Conflict) (\<lambda>_.
     give parent_node))))))))"

definition add_child :: "'g service \<Rightarrow> progress_context \<Rightarrow> issue_number \<Rightarrow> issue_mapping \<Rightarrow> ('g, unit) pub" where
  "add_child S c p child = request (about_issue c p) AddParent (post_child S p (mapping_id child))"

definition add_blocker :: "'g service \<Rightarrow> progress_context \<Rightarrow> issue_number \<Rightarrow> issue_mapping \<Rightarrow> ('g, unit) pub" where
  "add_blocker S c n b = request (about_issue c n) AddBlocker (post_blocker S n (mapping_id b))"

definition add_labels :: "'g service \<Rightarrow> progress_context \<Rightarrow> issue_number \<Rightarrow> rstring list \<Rightarrow> ('g, unit) pub" where
  "add_labels S c n labels = request (about_issue c n) AddLabels (post_labels S n labels)"

section \<open>What an answer proves\<close>

lemma decode_issue_Inr [result_simps]: "decode_issue e x s = (Inr i, s') \<longleftrightarrow> x = Some i \<and> valid_identity i \<and> s' = s"
  by (auto simp: decode_issue_def result_simps)

lemma check_repository_Inr [result_simps]:
  "check_repository i s = (Inr u, s') \<longleftrightarrow> remote_repository i = repository_url \<and> \<not> is_pull_request i \<and> s' = s"
  by (auto simp: check_repository_def result_simps)

lemma check_content_Inr [result_simps]:
  "check_content title body i s = (Inr u, s') \<longleftrightarrow>
     remote_repository i = repository_url \<and> \<not> is_pull_request i \<and> remote_title i = title \<and> remote_body i = Some body \<and> s' = s"
  by (auto simp: check_content_def result_simps)

lemma read_issue_Inr:
  "read_issue S c n s = (Inr i, s') \<Longrightarrow> remote_number i = n \<and> remote_repository i = repository_url \<and> \<not> is_pull_request i"
  by (auto simp: read_issue_def result_simps)

lemma create_issue_Inr:
  "create_issue S c title body s = (Inr i, s') \<Longrightarrow> remote_title i = title \<and> remote_body i = Some body"
  by (auto simp: create_issue_def result_simps)

lemma rel_matches_Inr:
  "rel_matches e r s = (Inr b, s') \<Longrightarrow> s' = s \<and> (b \<longrightarrow> rel_repository r = repository_url \<and> rel_mapping r = e)"
  by (auto simp: rel_matches_def Let_def result_simps split: if_splits)

section \<open>The deeds of a request\<close>

lemma does_decode_issue [does]: "does I A (decode_issue e x)"
  unfolding decode_issue_def by (intro does)

lemma does_issue_checks [does]: "does I A (check_repository i)" "does I A (check_content t b i)" "does I A (issue_labels i)"
  "does I A (decode_node nd)"
  unfolding check_content_def check_repository_def issue_labels_def decode_node_def by (intro does)+

lemma does_rel_matches [does]: "does I A (rel_matches e r)"
  unfolding rel_matches_def by (intro does)

text \<open>The kinds of the requests that change nothing.\<close>

definition reads :: "remote_kind set" where
  "reads = {ReadIssue, EnumerateIssues, ReadRelationships, ReadParent}"

lemma reads_simps [simp]: "ReadIssue \<in> reads" "EnumerateIssues \<in> reads" "ReadRelationships \<in> reads" "ReadParent \<in> reads"
  "CreateIssue \<notin> reads" "AddParent \<notin> reads" "AddBlocker \<notin> reads" "AddLabels \<notin> reads"
  by (simp_all add: reads_def)

lemma does_request_reads [does]: "request_deeds reads \<subseteq> A \<Longrightarrow> k \<in> reads \<Longrightarrow> does I A (request c k f)"
  by (rule does_request_kind)

lemma does_read_issue [does]: "request_deeds reads \<subseteq> A \<Longrightarrow> does I A (read_issue S c n)"
  unfolding read_issue_def by (intro does) simp_all

lemma does_enumerate [does]: "request_deeds reads \<subseteq> A \<Longrightarrow> does I A (enumerate_issues S c)"
  unfolding enumerate_issues_def enumerate_page_def enumerate_entry_def by (intro does) simp_all

lemma does_find_marked [does]: "request_deeds reads \<subseteq> A \<Longrightarrow> does I A (find_marked S c m)"
  unfolding find_marked_def by (intro does)

lemma does_relationships [does]: "request_deeds reads \<subseteq> A \<Longrightarrow> does I A (relationships S c n r)"
  unfolding relationships_def relationship_page_def relationship_entry_def by (intro does) simp_all

lemma does_read_parent [does]: "request_deeds reads \<subseteq> A \<Longrightarrow> does I A (read_parent S c m)"
  unfolding read_parent_def by (intro does) simp_all

text \<open>
  The native relationships of the issues (\<open>tools/ticket_publication/graph.rs\<close>): the capacity that
  is checked before anything is created, the reading of the graph, and the links that are added.
\<close>

section \<open>The issues of a batch\<close>

record ticket_graph =
  graph_issue :: issue_mapping
  parent_present :: bool
  missing_blockers :: "issue_mapping list"

record issue_graph =
  graph_parent :: issue_mapping
  graph_tickets :: "ticket_graph list"
  observed_graph :: graph_progress

definition no_graph :: graph_progress where
  "no_graph = \<lparr>parent_links = 0, dependency_links = 0, graph_verified = False\<rparr>"

definition saved_mapping :: "batch \<Rightarrow> nat \<Rightarrow> ('g, issue_mapping) pub" where
  "saved_mapping b i = after (from_outcome (index (saved_tickets b) i)) (\<lambda>p.
     case progress_status p of Created m \<Rightarrow> give m | _ \<Rightarrow> stop (Trouble ''graph requires checked issue mappings''))"

primrec rel_contains :: "relationship list \<Rightarrow> issue_mapping \<Rightarrow> ('g, bool) pub" where
  "rel_contains [] e = give False"
| "rel_contains (r # rs) e = after (rel_matches e r) (\<lambda>found. if found then give True else rel_contains rs e)"

text \<open>The body that is published for a ticket.\<close>

definition published_text :: "ticket \<Rightarrow> progress \<Rightarrow> rstring" where
  "published_text t p = ticket_body t @ [10, 10] @ marker p"

section \<open>Capacity\<close>

datatype planned_issue = Unmapped nat | Existing issue_mapping

definition planned_observed :: "nat \<Rightarrow> issue_mapping option list \<Rightarrow> ('g, planned_issue) pub" where
  "planned_observed i issues = after (from_outcome (index issues i)) (\<lambda>m.
     give (case m of None \<Rightarrow> Unmapped i | Some m \<Rightarrow> Existing m))"

definition external_mapping ::
  "'g service \<Rightarrow> progress_context \<Rightarrow> issue_mapping list \<Rightarrow> issue_number \<Rightarrow> ('g, issue_mapping \<times> issue_mapping list) pub" where
  "external_mapping S c cache n = (case find (\<lambda>m. mapping_number m = n) cache of
       Some m \<Rightarrow> give (m, cache)
     | None \<Rightarrow> after (read_issue S c n) (\<lambda>i. give (issue_mapping_of i, cache @ [issue_mapping_of i])))"

definition ticket_position :: "batch \<Rightarrow> ticket_key \<Rightarrow> ('g, nat) pub" where
  "ticket_position b k = some_or (Trouble ''missing blocker mapping'') (position (\<lambda>p. progress_key p = k) (saved_tickets b))"

type_synonym planned_edge = "planned_issue \<times> planned_issue"

definition planned_edge_of :: "'g service \<Rightarrow> progress_context \<Rightarrow> batch \<Rightarrow> issue_mapping option list \<Rightarrow> planned_issue \<Rightarrow>
    planned_edge list \<times> issue_mapping list \<Rightarrow> blocker \<Rightarrow> ('g, planned_edge list \<times> issue_mapping list) pub" where
  "planned_edge_of S c b issues subj s bl = (case s of (edges, external) \<Rightarrow>
     after (case bl of
         BIssue n \<Rightarrow> after (external_mapping S c external n) (\<lambda>(m, external). give (Existing m, external))
       | BTicket k \<Rightarrow> after (ticket_position b k) (\<lambda>j. after (planned_observed j issues) (\<lambda>p. give (p, external)))) (\<lambda>(p, external).
     after (require (subj \<noteq> p) Conflict) (\<lambda>_.
     give (if (subj, p) \<in> set edges then edges else edges @ [(subj, p)], external))))"

definition planned_edges ::
  "'g service \<Rightarrow> progress_context \<Rightarrow> batch \<Rightarrow> issue_mapping option list \<Rightarrow> ('g, planned_edge list) pub" where
  "planned_edges S c b issues =
     after (walk (\<lambda>s (i, t). after (planned_observed i issues) (\<lambda>subj. walk (planned_edge_of S c b issues subj) s (blockers t)))
       ([], []) (List.enumerate 0 (plan_tickets (saved_plan b)))) (\<lambda>(edges, _). give edges)"

definition capacity_context :: "batch \<Rightarrow> progress_context \<Rightarrow> planned_issue \<Rightarrow> ('g, progress_context) pub" where
  "capacity_context b c target = (case target of
       Existing m \<Rightarrow> give (related_issue b (mapping_number m) c)
     | Unmapped i \<Rightarrow> after (from_outcome (index (saved_tickets b) i)) (\<lambda>p. give (related (TicketSubject (progress_key p)) c)))"

definition check_dependency_capacity :: "'g service \<Rightarrow> progress_context \<Rightarrow> batch \<Rightarrow> planned_issue \<Rightarrow> planned_issue list \<Rightarrow>
    string \<Rightarrow> ('g, unit) pub" where
  "check_dependency_capacity S c b source required relation =
     after (case source of
         Existing m \<Rightarrow>
           after (walk (capacity_context b) (related_issue b (mapping_number m) (context_new RemoteChecks)) required) (\<lambda>context.
           relationships S (scope c context) (mapping_number m) relation)
       | Unmapped _ \<Rightarrow> give []) (\<lambda>existing.
     after (walk (\<lambda>missing target.
         after (case target of Existing m \<Rightarrow> rel_contains existing m | Unmapped _ \<Rightarrow> give False) (\<lambda>present.
         give (missing + (if present then 0 else 1)))) (0::nat) required) (\<lambda>missing.
     require (length existing + missing \<le> usize_max \<and> length existing + missing \<le> max_dependencies)
       (Trouble ''publication batch exceeds the capacity of a relation'')))"

definition check_direction :: "'g service \<Rightarrow> progress_context \<Rightarrow> batch \<Rightarrow> string \<times> planned_edge list \<Rightarrow> ('g, unit) pub" where
  "check_direction S c b d = (case d of (relation, direction) \<Rightarrow>
     after (walk (\<lambda>checked (source, _).
         if source \<in> set checked then give checked
         else after (check_dependency_capacity S c b source (map snd (filter (\<lambda>e. fst e = source) direction)) relation) (\<lambda>_.
           give (checked @ [source]))) [] direction) (\<lambda>_. give ()))"

definition preflight_dependencies :: "'g service \<Rightarrow> progress_context \<Rightarrow> batch \<Rightarrow> planned_edge list \<Rightarrow> ('g, unit) pub" where
  "preflight_dependencies S c b edges =
     each (check_direction S c b) [(''dependencies/blocked_by'', edges), (''dependencies/blocking'', map prod.swap edges)]"

definition preflight_capacity ::
  "'g service \<Rightarrow> progress_context \<Rightarrow> batch \<Rightarrow> issue_mapping option list \<Rightarrow> ('g, unit) pub" where
  "preflight_capacity S c b issues =
     after (require (length issues = length (plan_tickets (saved_plan b))) (Trouble ''incomplete observed mappings'')) (\<lambda>_.
     let p = parent (saved_plan b) in
     after (relationships S (scope c (context_issue RemoteChecks p)) p ''sub_issues'') (\<lambda>children.
     after (walk (\<lambda>missing m. case m of
         None \<Rightarrow> give missing
       | Some issue \<Rightarrow> after (rel_contains children issue) (\<lambda>present.
           if present then from_outcome (usize_sub missing 1) else give missing)) (length issues) issues) (\<lambda>missing.
     after (require (length children + missing \<le> usize_max \<and> length children + missing \<le> max_sub_issues)
       (Trouble ''publication batch exceeds the remaining native parent capacity'')) (\<lambda>_.
     after (planned_edges S c b issues) (preflight_dependencies S c b)))))"

section \<open>Reading the graph\<close>

text \<open>\<open>graph::check_ticket\<close>.\<close>

definition check_remote_ticket :: "'g service \<Rightarrow> progress_context \<Rightarrow> batch \<Rightarrow> nat \<Rightarrow> ('g, remote_issue) pub" where
  "check_remote_ticket S c b i =
     after (saved_mapping b i) (\<lambda>issue.
     after (read_issue S c (mapping_number issue)) (\<lambda>r.
     after (require (issue_mapping_of r = issue) Conflict) (\<lambda>_.
     after (from_outcome (index (plan_tickets (saved_plan b)) i)) (\<lambda>t.
     after (from_outcome (index (saved_tickets b) i)) (\<lambda>p.
     after (check_content (ticket_title t) (published_text t p) r) (\<lambda>_.
     give r))))))"

definition check_parent ::
  "'g service \<Rightarrow> progress_context \<Rightarrow> issue_mapping \<Rightarrow> issue_mapping \<Rightarrow> relationship list \<Rightarrow> ('g, bool) pub" where
  "check_parent S c issue p children =
     after (read_parent S c issue) (\<lambda>actual.
     after (require (case actual of None \<Rightarrow> True | Some n \<Rightarrow> n = mapping_node p) Conflict) (\<lambda>_.
     after (rel_contains children issue) (\<lambda>present.
     after (require (present \<longleftrightarrow> actual \<noteq> None) (Trouble ''inconsistent parent relationship reads'')) (\<lambda>_.
     give present))))"

definition blockers_context :: "batch \<Rightarrow> ticket \<Rightarrow> progress_context \<Rightarrow> progress_context" where
  "blockers_context b t c = fold (\<lambda>bl c. case bl of
       BIssue n \<Rightarrow> related_issue b n c | BTicket k \<Rightarrow> related (TicketSubject k) c) (blockers t) c"

definition required_blocker :: "'g service \<Rightarrow> progress_context \<Rightarrow> batch \<Rightarrow> issue_mapping \<Rightarrow>
    issue_mapping list \<times> issue_mapping list \<Rightarrow> blocker \<Rightarrow> ('g, issue_mapping list \<times> issue_mapping list) pub" where
  "required_blocker S c b issue s bl = (case s of (required, external) \<Rightarrow>
     after (case bl of
         BIssue n \<Rightarrow> external_mapping S c external n
       | BTicket k \<Rightarrow> after (ticket_position b k) (\<lambda>j. after (saved_mapping b j) (\<lambda>m. give (m, external)))) (\<lambda>(m, external).
     after (require (m \<noteq> issue) Conflict) (\<lambda>_.
     give (if m \<in> set required then required else required @ [m], external))))"

definition sort_blocker :: "relationship list \<Rightarrow> nat \<times> issue_mapping list \<Rightarrow> issue_mapping \<Rightarrow>
    ('g, nat \<times> issue_mapping list) pub" where
  "sort_blocker existing s m = (case s of (linked, missing) \<Rightarrow>
     after (rel_contains existing m) (\<lambda>found. give (if found then (linked + 1, missing) else (linked, missing @ [m]))))"

text \<open>What is known of one ticket, the number of its present links, and the external issues read.\<close>

definition read_ticket :: "'g service \<Rightarrow> progress_context \<Rightarrow> batch \<Rightarrow> issue_mapping \<Rightarrow> relationship list \<Rightarrow>
    issue_mapping list \<Rightarrow> nat \<times> ticket \<Rightarrow> ('g, ticket_graph \<times> nat \<times> issue_mapping list) pub" where
  "read_ticket S c b p children external it = (case it of (i, t) \<Rightarrow>
     after (saved_mapping b i) (\<lambda>issue.
     after (from_outcome (context_ticket ParentLinks b i)) (\<lambda>c1.
     let c1 = scope c (related_issue b (mapping_number p) c1) in
     after (check_remote_ticket S c1 b i) (\<lambda>_.
     after (check_parent S c1 issue p children) (\<lambda>present.
     after (from_outcome (context_ticket BlockerLinks b i)) (\<lambda>c2.
     let c2 = scope c1 (blockers_context b t c2) in
     after (relationships S c2 (mapping_number issue) ''dependencies/blocked_by'') (\<lambda>existing.
     after (walk (required_blocker S c2 b issue) ([], external) (blockers t)) (\<lambda>(required, external).
     after (walk (sort_blocker existing) (0, []) required) (\<lambda>(linked, missing).
     give (\<lparr>graph_issue = issue, parent_present = present, missing_blockers = missing\<rparr>, linked, external))))))))))"

definition read_step :: "'g service \<Rightarrow> progress_context \<Rightarrow> batch \<Rightarrow> issue_mapping \<Rightarrow> relationship list \<Rightarrow>
    ticket_graph list \<times> graph_progress \<times> issue_mapping list \<Rightarrow> nat \<times> ticket \<Rightarrow>
    ('g, ticket_graph list \<times> graph_progress \<times> issue_mapping list) pub" where
  "read_step S c b p children s it = (case s of (tickets, g, external) \<Rightarrow>
     after (read_ticket S c b p children external it) (\<lambda>(tg, linked, external).
     give (tickets @ [tg],
       g\<lparr>parent_links := parent_links g + (if parent_present tg then 1 else 0),
         dependency_links := dependency_links g + linked\<rparr>, external)))"

definition read_graph :: "'g service \<Rightarrow> progress_context \<Rightarrow> batch \<Rightarrow> ('g, issue_graph) pub" where
  "read_graph S c b =
     after (read_issue S c (parent (saved_plan b))) (\<lambda>r.
     let p = issue_mapping_of r in
     after (relationships S c (mapping_number p) ''sub_issues'') (\<lambda>children.
     after (walk (read_step S c b p children) ([], no_graph, []) (List.enumerate 0 (plan_tickets (saved_plan b)))) (\<lambda>(tickets, g, _).
     give \<lparr>graph_parent = p, graph_tickets = tickets,
       observed_graph = g\<lparr>graph_verified := list_all (\<lambda>tg. parent_present tg \<and> missing_blockers tg = []) tickets\<rparr>\<rparr>)))"

definition observe_graph :: "'g service \<Rightarrow> progress_context \<Rightarrow> batch \<Rightarrow> ('g, graph_progress) pub" where
  "observe_graph S c b = after (read_graph S c b) (\<lambda>g. give (observed_graph g))"

section \<open>Adding links\<close>

definition set_graph :: "graph_progress \<Rightarrow> ('g, unit) pub" where
  "set_graph g = change_memory (\<lambda>b. b\<lparr>saved_graph := g\<rparr>)"

definition count_parent_link :: "('g, unit) pub" where
  "count_parent_link = change_memory (\<lambda>b. b\<lparr>saved_graph := (saved_graph b)\<lparr>parent_links := parent_links (saved_graph b) + 1\<rparr>\<rparr>)"

definition count_dependency_link :: "('g, unit) pub" where
  "count_dependency_link =
     change_memory (\<lambda>b. b\<lparr>saved_graph := (saved_graph b)\<lparr>dependency_links := dependency_links (saved_graph b) + 1\<rparr>\<rparr>)"

text \<open>
  The intent is saved before a link is requested, and a fresh reading must show the link. (The
  counters are at most the numbers of tickets and of blockers of the plan, so they stay in their
  range.)
\<close>

definition ensure_parent ::
  "'g service \<Rightarrow> progress_context \<Rightarrow> nat \<Rightarrow> issue_mapping \<Rightarrow> issue_mapping \<Rightarrow> ('g, unit) pub" where
  "ensure_parent S c i issue p =
     after (get memory) (\<lambda>b.
     after (from_outcome (context_ticket ParentLinks b i)) (\<lambda>context.
     let c1 = scope c (related_issue b (mapping_number p) context) in
     after (check_remote_ticket S c1 b i) (\<lambda>_.
     after (relationships S c1 (mapping_number p) ''sub_issues'') (\<lambda>children.
     after (check_parent S c1 issue p children) (\<lambda>present.
     after (if present then give ()
       else after (save S) (\<lambda>_.
         after (add_child S c1 (mapping_number p) issue) (\<lambda>_.
         after (relationships S c1 (mapping_number p) ''sub_issues'') (\<lambda>children.
         after (check_parent S c1 issue p children) (\<lambda>present.
         require present (Trouble ''accepted parent link lacks fresh evidence'')))))) (\<lambda>_.
     after (check_remote_ticket S c1 b i) (\<lambda>_.
     after count_parent_link (\<lambda>_.
     after (save S) (\<lambda>_.
     verified c1 ParentLinkStep)))))))))"

definition ensure_dependency ::
  "'g service \<Rightarrow> progress_context \<Rightarrow> nat \<Rightarrow> issue_mapping \<Rightarrow> issue_mapping \<Rightarrow> ('g, unit) pub" where
  "ensure_dependency S c i issue bl =
     after (get memory) (\<lambda>b.
     after (from_outcome (context_ticket BlockerLinks b i)) (\<lambda>context.
     let c1 = scope c (related_issue b (mapping_number bl) context) in
     after (check_remote_ticket S c1 b i) (\<lambda>_.
     after (relationships S c1 (mapping_number issue) ''dependencies/blocked_by'') (\<lambda>existing.
     after (rel_contains existing bl) (\<lambda>found.
     after (if found then give ()
       else after (save S) (\<lambda>_.
         after (add_blocker S c1 (mapping_number issue) bl) (\<lambda>_.
         after (relationships S c1 (mapping_number issue) ''dependencies/blocked_by'') (\<lambda>existing.
         after (rel_contains existing bl) (\<lambda>found.
         require found (Trouble ''accepted dependency lacks fresh evidence'')))))) (\<lambda>_.
     after (check_remote_ticket S c1 b i) (\<lambda>_.
     after count_dependency_link (\<lambda>_.
     after (save S) (\<lambda>_.
     verified c1 BlockerLinkStep)))))))))"

definition link_ticket :: "'g service \<Rightarrow> progress_context \<Rightarrow> issue_mapping \<Rightarrow> nat \<times> ticket_graph \<Rightarrow> ('g, unit) pub" where
  "link_ticket S c p it = (case it of (i, tg) \<Rightarrow>
     after (if parent_present tg then give () else ensure_parent S c i (graph_issue tg) p) (\<lambda>_.
     each (ensure_dependency S c i (graph_issue tg)) (missing_blockers tg)))"

definition run_graph :: "'g service \<Rightarrow> progress_context \<Rightarrow> ('g, unit) pub" where
  "run_graph S c =
     (let c = scope c (context_new ParentLinks) in
     after (set_graph no_graph) (\<lambda>_.
     after (save S) (\<lambda>_.
     after (get memory) (\<lambda>b.
     after (read_graph S c b) (\<lambda>g.
     after (set_graph (observed_graph g)) (\<lambda>_.
     after (save S) (\<lambda>_.
     if graph_verified (observed_graph g) then verified c GraphStep
     else
       after (each (link_ticket S c (graph_parent g)) (List.enumerate 0 (graph_tickets g))) (\<lambda>_.
       after (get memory) (\<lambda>b.
       after (observe_graph S c b) (\<lambda>g.
       after (set_graph g) (\<lambda>_.
       after (save S) (\<lambda>_.
       after (require (graph_verified g) (Trouble ''graph changed during publication; inspect and resume'')) (\<lambda>_.
       verified c GraphStep)))))))))))))"

end
