(* ===== verification/Ticket_Publish.thy ===== *)
theory Ticket_Publish imports Ticket_Remote begin

text \<open>
  The labels of the issues (\<open>tools/ticket_publication/labels.rs\<close>), the creation of the issues and
  the attempt to publish a batch (\<open>publish.rs\<close>), and the local decisions about a batch that was
  interrupted (\<open>recovery.rs\<close>).
\<close>

section \<open>Labels\<close>

definition eq_ignore_case :: "rstring \<Rightarrow> rstring \<Rightarrow> bool" where
  "eq_ignore_case a b \<longleftrightarrow> to_ascii_lowercase a = to_ascii_lowercase b"

text \<open>The triage labels of a list, each once whatever its case.\<close>

definition triage_labels :: "rstring list \<Rightarrow> rstring list" where
  "triage_labels labels = foldl (\<lambda>triage label.
     if is_triage_label label \<and> \<not> list_ex (\<lambda>name. eq_ignore_case name label) triage then triage @ [label] else triage) [] labels"

definition label_applied :: "rstring list \<Rightarrow> rstring \<Rightarrow> bool" where
  "label_applied actual label \<longleftrightarrow> list_ex (\<lambda>name. eq_ignore_case name label) actual"

text \<open>\<open>labels::ticket\<close>.\<close>

definition label_ticket :: "'g service \<Rightarrow> progress_context \<Rightarrow> batch \<Rightarrow> nat \<Rightarrow> ('g, label_progress) pub" where
  "label_ticket S c b i =
     after (from_outcome (context_ticket Labels b i)) (\<lambda>context.
     after (check_remote_ticket S (scope c context) b i) (\<lambda>r.
     after (issue_labels r) (\<lambda>actual.
     after (from_outcome (index (plan_tickets (saved_plan b)) i)) (\<lambda>planned.
     after (require (length (triage_labels (actual @ ticket_labels planned)) \<le> 1) Conflict) (\<lambda>_.
     give \<lparr>label_key = ticket_key planned,
       applied = filter (label_applied actual) (ticket_labels planned),
       remaining = filter (\<lambda>l. \<not> label_applied actual l) (ticket_labels planned)\<rparr>)))))"

definition observe_labels :: "'g service \<Rightarrow> progress_context \<Rightarrow> batch \<Rightarrow> ('g, labels_progress) pub" where
  "observe_labels S c b =
     after (walk (\<lambda>found i. after (label_ticket S c b i) (\<lambda>l. give (found @ [l]))) [] [0 ..< length (saved_tickets b)]) (\<lambda>tickets.
     give \<lparr>labels_checked = True, labels_tickets = tickets,
       labels_verified = list_all (\<lambda>l. remaining l = []) tickets\<rparr>)"

definition set_labels :: "labels_progress \<Rightarrow> ('g, unit) pub" where
  "set_labels l = change_memory (\<lambda>b. b\<lparr>saved_labels := l\<rparr>)"

definition unverify_labels :: "('g, unit) pub" where
  "unverify_labels = change_memory (\<lambda>b. b\<lparr>saved_labels := (saved_labels b)\<lparr>labels_verified := False\<rparr>\<rparr>)"

text \<open>One ticket is checked again, and its entry replaced in the batch in memory.\<close>

definition refresh_label :: "'g service \<Rightarrow> progress_context \<Rightarrow> nat \<Rightarrow> ('g, label_progress) pub" where
  "refresh_label S c i =
     after (get memory) (\<lambda>b.
     after (label_ticket S c b i) (\<lambda>l.
     after (from_outcome (set_at (labels_tickets (saved_labels b)) i l)) (\<lambda>ls.
     after (set_labels ((saved_labels b)\<lparr>labels_tickets := ls\<rparr>)) (\<lambda>_.
     give l))))"

definition publish_label :: "'g service \<Rightarrow> progress_context \<Rightarrow> nat \<Rightarrow> ('g, unit) pub" where
  "publish_label S c i =
     after (get memory) (\<lambda>b.
     after (from_outcome (context_ticket Labels b i)) (\<lambda>context.
     let c1 = scope c context in
     after (refresh_label S c1 i) (\<lambda>l.
     if remaining l = [] then give ()
     else
       after unverify_labels (\<lambda>_.
       after (save S) (\<lambda>_.
       after (from_outcome (index (saved_tickets b) i)) (\<lambda>p.
       after (case progress_status p of Created m \<Rightarrow> give m | _ \<Rightarrow> stop (Trouble ''labels require checked issue mappings'')) (\<lambda>m.
       after (add_labels S c1 (mapping_number m) (remaining l)) (\<lambda>_.
       after (refresh_label S c1 i) (\<lambda>l'.
       after (require (remaining l' = []) (Trouble ''accepted labels lack fresh evidence'')) (\<lambda>_.
       after (save S) (\<lambda>_.
       verified c1 LabelsStep)))))))))))"

text \<open>Neither a successful write nor a saved observation establishes completion.\<close>

definition final_verification :: "'g service \<Rightarrow> progress_context \<Rightarrow> ('g, unit) pub" where
  "final_verification S c =
     (let c = scope c (context_new FinalVerification) in
     after (get memory) (\<lambda>b.
     after (observe_graph S c b) (\<lambda>g.
     after (set_graph g) (\<lambda>_.
     after (require (graph_verified g) (Trouble ''graph changed during label publication'')) (\<lambda>_.
     after (get memory) (\<lambda>b.
     after (observe_labels S c b) (\<lambda>l.
     after (set_labels l) (\<lambda>_.
     after (require (labels_verified l) (Trouble ''labels changed during publication'')) (\<lambda>_.
     save S)))))))))"

definition run_labels :: "'g service \<Rightarrow> progress_context \<Rightarrow> ('g, unit) pub" where
  "run_labels S c =
     after (get memory) (\<lambda>b.
     after (require (graph_verified (saved_graph b)) (Trouble ''labels require a checked complete graph'')) (\<lambda>_.
     after (observe_labels S c b) (\<lambda>l.
     after (set_labels l) (\<lambda>_.
     after (save S) (\<lambda>_.
     after (each (publish_label S c) [0 ..< length (saved_tickets b)]) (\<lambda>_.
     final_verification S c))))))"

section \<open>Creation\<close>

definition is_created :: "progress \<Rightarrow> bool" where
  "is_created p \<longleftrightarrow> (case progress_status p of Created _ \<Rightarrow> True | _ \<Rightarrow> False)"

text \<open>Read remote evidence without changing saved progress or GitHub state.\<close>

definition observe_ticket :: "'g service \<Rightarrow> progress_context \<Rightarrow> remote_issue list \<Rightarrow>
    issue_mapping option list \<Rightarrow> progress \<times> ticket \<Rightarrow> ('g, issue_mapping option list) pub" where
  "observe_ticket S c issues found pt = (case pt of (p, t) \<Rightarrow>
     let c1 = scope c (related (TicketSubject (ticket_key t)) (context_new RemoteChecks)) in
     after (case progress_status p of
         Created m \<Rightarrow>
           after (read_issue S c1 (mapping_number m)) (\<lambda>r.
           after (require (issue_mapping_of r = m) Conflict) (\<lambda>_.
           give (Some r)))
       | _ \<Rightarrow>
           let matches = filter (has_marker (marker p)) issues in
           after (require (length matches \<le> 1) Conflict) (\<lambda>_.
           give (if matches = [] then None else Some (last matches)))) (\<lambda>r.
     case r of
       Some r \<Rightarrow>
         after (as_conflict (check_content (ticket_title t) (published_text t p) r)) (\<lambda>_.
         give (found @ [Some (issue_mapping_of r)]))
     | None \<Rightarrow> give (found @ [None])))"

definition observe_batch :: "'g service \<Rightarrow> progress_context \<Rightarrow> batch \<Rightarrow> ('g, issue_mapping option list) pub" where
  "observe_batch S c b =
     after (read_issue S c (parent (saved_plan b))) (\<lambda>_.
     after (if list_ex (\<lambda>p. \<not> is_created p) (saved_tickets b) then enumerate_issues S c else give []) (\<lambda>issues.
     walk (observe_ticket S c issues) [] (zip (saved_tickets b) (plan_tickets (saved_plan b)))))"

text \<open>The first ticket that is not created while all its blockers among the tickets are.\<close>

definition ready :: "batch \<Rightarrow> nat \<times> ticket \<Rightarrow> (pub_error, bool) outcome" where
  "ready b it = (case it of (i, t) \<Rightarrow>
     and_then (index (saved_tickets b) i) (\<lambda>p.
     Inr (\<not> is_created p \<and> list_all (\<lambda>bl. case bl of
         BIssue _ \<Rightarrow> True
       | BTicket k \<Rightarrow> list_ex (\<lambda>p. progress_key p = k \<and> is_created p) (saved_tickets b)) (blockers t))))"

primrec first_ready :: "batch \<Rightarrow> (nat \<times> ticket) list \<Rightarrow> (pub_error, (nat \<times> ticket) option) outcome" where
  "first_ready b [] = Inr None"
| "first_ready b (it # its) = and_then (ready b it) (\<lambda>r. if r then Inr (Some it) else first_ready b its)"

definition next_ticket :: "batch \<Rightarrow> (pub_error, (nat \<times> ticket) option) outcome" where
  "next_ticket b = first_ready b (List.enumerate 0 (plan_tickets (saved_plan b)))"

definition set_status :: "nat \<Rightarrow> ticket_status \<Rightarrow> batch \<Rightarrow> batch" where
  "set_status i st b = b\<lparr>saved_tickets := (saved_tickets b)[i := (saved_tickets b ! i)\<lparr>progress_status := st\<rparr>]\<rparr>"

text \<open>The intent is durable before the issue is requested.\<close>

definition intend_and_create ::
  "'g service \<Rightarrow> progress_context \<Rightarrow> nat \<Rightarrow> rstring \<Rightarrow> rstring \<Rightarrow> ('g, remote_issue) pub" where
  "intend_and_create S c i title body =
     after (change_memory (set_status i Creating)) (\<lambda>_.
     after (save S) (\<lambda>_.
     create_issue S c title body))"

text \<open>
  An uncertain creation: the single issue that carries the marker is taken; that there is none
  authorizes another request only if the operator has said so.
\<close>

definition resume_creation :: "'g service \<Rightarrow> progress_context \<Rightarrow> nat \<Rightarrow> progress \<Rightarrow> rstring \<Rightarrow> rstring \<Rightarrow>
    remote_issue list \<Rightarrow> ('g, remote_issue) pub" where
  "resume_creation S c i p title body found = (case found of
       [] \<Rightarrow>
         if progress_status p = RetryAuthorized then intend_and_create S c i title body
         else stop (Trouble ''Creation remains uncertain. An absent match does not authorize another request.'')
     | r # others \<Rightarrow> if others = [] then give r else stop Conflict)"

text \<open>The issue of a ticket: one that was observed, one that an earlier request has created, or a new one.\<close>

definition created_issue :: "'g service \<Rightarrow> progress_context \<Rightarrow> issue_mapping option list \<Rightarrow> nat \<Rightarrow> progress \<Rightarrow>
    rstring \<Rightarrow> rstring \<Rightarrow> ('g, remote_issue) pub" where
  "created_issue S c observed i p title body =
     after (from_outcome (index observed i)) (\<lambda>known.
     case known of
       Some m \<Rightarrow>
         after (read_issue S c (mapping_number m)) (\<lambda>r.
         after (require (issue_mapping_of r = m) Conflict) (\<lambda>_.
         give r))
     | None \<Rightarrow>
         if progress_status p \<in> {Creating, RetryAuthorized} then
           after (find_marked S c (marker p)) (resume_creation S c i p title body)
         else intend_and_create S c i title body)"

text \<open>
  When the save of a created issue fails, the batch in memory keeps the ticket uncertain: the
  rename can succeed before the directory is synchronized.
\<close>

definition save_created :: "'g service \<Rightarrow> nat \<Rightarrow> ('g, unit) pub" where
  "save_created S i s = (case save S s of
       (Inl (Err e), s') \<Rightarrow> (err e, s'\<lparr>memory := set_status i Creating (memory s')\<rparr>)
     | r \<Rightarrow> r)"

text \<open>The created issue is read again before it is recorded.\<close>

definition record_ticket ::
  "'g service \<Rightarrow> progress_context \<Rightarrow> nat \<Rightarrow> rstring \<Rightarrow> rstring \<Rightarrow> remote_issue \<Rightarrow> ('g, unit) pub" where
  "record_ticket S c i title body created =
     after (read_issue S c (remote_number created)) (\<lambda>checked.
     after (as_conflict (check_content title body checked)) (\<lambda>_.
     after (require (issue_mapping_of created = issue_mapping_of checked) Conflict) (\<lambda>_.
     after (change_memory (set_status i (Created (issue_mapping_of checked)))) (\<lambda>_.
     after (save_created S i) (\<lambda>_.
     after (get memory) (\<lambda>b.
     after (from_outcome (context_ticket Creation b i)) (\<lambda>context.
     verified (scope c context) IssueStep)))))))"

definition create_ticket :: "'g service \<Rightarrow> progress_context \<Rightarrow> issue_mapping option list \<Rightarrow> nat \<times> ticket \<Rightarrow> ('g, unit) pub" where
  "create_ticket S c observed it = (case it of (i, t) \<Rightarrow>
     after (get memory) (\<lambda>b.
     after (from_outcome (context_ticket Creation b i)) (\<lambda>context.
     after (from_outcome (index (saved_tickets b) i)) (\<lambda>p.
     after (created_issue S (scope c context) observed i p (ticket_title t) (published_text t p))
       (record_ticket S (scope c context) i (ticket_title t) (published_text t p))))))"

text \<open>
  The loop that creates the issues (\<open>run\<close> of \<open>publish.rs\<close>). It is a recursion on the session; it
  ends because every pass records one more created ticket, whatever the service answers.
\<close>

section \<open>What a step leaves in memory\<close>

lemma does_memory: "does (\<lambda>b. b = memory s) UNIV m \<Longrightarrow> memory (snd (m s)) = memory s"
  by (simp add: does_def)

lemma reads_memory:
  "read_issue S c n s = (r1, s1) \<Longrightarrow> memory s1 = memory s"
  "find_marked S c mk s = (r2, s1) \<Longrightarrow> memory s1 = memory s"
  "check_content t b i s = (r3, s1) \<Longrightarrow> memory s1 = memory s"
  "as_conflict (check_content t b i) s = (r3, s1) \<Longrightarrow> memory s1 = memory s"
  using does_memory [of s "read_issue S c n"] does_memory [of s "find_marked S c mk"]
    does_memory [of s "check_content t b i"]
  by (auto simp: does as_conflict_def split: prod.splits sum.splits failure.splits)

lemma does_create_issue: "does (\<lambda>b. b = b0) UNIV (create_issue S c t body)"
  unfolding create_issue_def by (intro does does_request) simp_all

lemma save_memory: "save S s = (r, s1) \<Longrightarrow> memory s1 = memory s"
  using does_memory [of s "save S"] by (simp add: does_save)

lemma create_memory: "create_issue S c t body s = (r, s1) \<Longrightarrow> memory s1 = memory s"
  using does_memory [of s "create_issue S c t body"] by (simp add: does_create_issue)

lemma intend_memory:
  "intend_and_create S c i t body s = (Inr r, s1) \<Longrightarrow> memory s1 = set_status i Creating (memory s)"
  by (auto simp: intend_and_create_def change_memory_def result_simps dest!: save_memory create_memory)

lemma resume_memory:
  "resume_creation S c i p t body found s = (Inr r, s1) \<Longrightarrow> memory s1 = memory s \<or> memory s1 = set_status i Creating (memory s)"
  by (cases found) (auto simp: resume_creation_def dest: intend_memory split: if_splits)

lemma created_issue_memory:
  assumes "created_issue S c observed i p t body s = (Inr r, s1)"
  shows "memory s1 = memory s \<or> memory s1 = set_status i Creating (memory s)"
  using assms
  by (auto simp: created_issue_def result_simps split: option.splits if_splits)
    (metis reads_memory(1,2) resume_memory intend_memory)+

lemma save_created_Inr: "save_created S i s = (Inr u, s1) \<longleftrightarrow> save S s = (Inr u, s1)"
  by (auto simp: save_created_def split: prod.splits sum.splits failure.splits)

text \<open>A pass that succeeds has recorded its ticket.\<close>

lemma create_ticket_memory:
  assumes "create_ticket S c observed (i, t) s = (Inr u, s1)"
  shows "i < length (saved_tickets (memory s)) \<and>
    (\<exists>b m. (b = memory s \<or> b = set_status i Creating (memory s)) \<and> memory s1 = set_status i (Created m) b)"
proof -
  from assms obtain ctx p created sa checked sb sc sd where
    "index (saved_tickets (memory s)) i = (Inr p :: (pub_error, progress) outcome)"
    and step: "created_issue S (scope c ctx) observed i p (ticket_title t) (published_text t p) s = (Inr created, sa)"
    "read_issue S (scope c ctx) (remote_number created) sa = (Inr checked, sb)"
    "as_conflict (check_content (ticket_title t) (published_text t p) checked) sb = (Inr (), sc)"
    "save S (sc\<lparr>memory := set_status i (Created (issue_mapping_of checked)) (memory sc)\<rparr>) = (Inr (), sd)"
    and last: "memory s1 = memory sd"
    by (auto simp: create_ticket_def record_ticket_def change_memory_def save_created_Inr Let_def verified_def emit_def result_simps
        simp del: as_conflict_Inr_iff)
  then have "i < length (saved_tickets (memory s))" by (auto simp: result_simps)
  moreover have "memory sc = memory sa" using reads_memory(1,4) step(2,3) by metis
  ultimately show ?thesis using created_issue_memory [OF step(1)] save_memory [OF step(4)] last by auto
qed

section \<open>Termination\<close>

definition uncreated :: "batch \<Rightarrow> nat" where
  "uncreated b = length (filter (\<lambda>p. \<not> is_created p) (saved_tickets b))"

lemma filter_update:
  assumes "i < length xs" "P (xs ! i)" "\<not> P x"
  shows "length (filter P (xs[i := x])) < length (filter P xs)"
proof -
  from assms(1) have split: "xs = take i xs @ xs ! i # drop (Suc i) xs" by (simp add: id_take_nth_drop)
  have "xs[i := x] = take i xs @ x # drop (Suc i) xs" using assms(1) by (simp add: upd_conv_take_nth_drop)
  then have "filter P (xs[i := x]) = filter P (take i xs) @ filter P (drop (Suc i) xs)" using assms(3) by simp
  moreover have "filter P xs = filter P (take i xs) @ xs ! i # filter P (drop (Suc i) xs)"
    using assms(2) by (subst split) simp
  ultimately show ?thesis by simp
qed

lemma is_created_update [simp]:
  "is_created (p\<lparr>progress_status := Created m\<rparr>)" "\<not> is_created (p\<lparr>progress_status := Creating\<rparr>)"
  by (simp_all add: is_created_def)

lemma set_status_tickets [simp]:
  "saved_tickets (set_status i st b) = (saved_tickets b)[i := (saved_tickets b ! i)\<lparr>progress_status := st\<rparr>]"
  by (simp add: set_status_def)

lemma set_status_twice [simp]:
  "i < length (saved_tickets b) \<Longrightarrow> set_status i st (set_status i st' b) = set_status i st b"
  by (simp add: set_status_def)

lemma ready_Inr: "ready b (i, t) = Inr r \<Longrightarrow> i < length (saved_tickets b) \<and> (r \<longrightarrow> \<not> is_created (saved_tickets b ! i))"
  by (auto simp: ready_def result_simps)

lemma first_ready_Some: "first_ready b its = Inr (Some it) \<Longrightarrow> it \<in> set its \<and> ready b it = Inr True"
  by (induction its) (auto simp: result_simps split: if_splits)

lemma next_ticket_Some:
  assumes "next_ticket b = Inr (Some (i, t))"
  shows "i < length (plan_tickets (saved_plan b)) \<and> t = plan_tickets (saved_plan b) ! i \<and>
    i < length (saved_tickets b) \<and> \<not> is_created (saved_tickets b ! i)"
  using first_ready_Some [OF assms [unfolded next_ticket_def]] ready_Inr [of b i t True]
  by (auto simp: in_set_enumerate_eq)

lemma create_ticket_progress:
  assumes "next_ticket (memory s) = Inr (Some it)" "create_ticket S c observed it s = (Inr u, s1)"
  shows "uncreated (memory s1) < uncreated (memory s)"
proof -
  obtain i t where it: "it = (i, t)" by fastforce
  from next_ticket_Some assms(1) it have i: "i < length (saved_tickets (memory s))" "\<not> is_created (saved_tickets (memory s) ! i)"
    by auto
  from create_ticket_memory assms(2) it obtain m where "memory s1 = set_status i (Created m) (memory s)"
    using i by fastforce
  with i show ?thesis by (simp add: uncreated_def filter_update)
qed

function creation_loop :: "'g service \<Rightarrow> progress_context \<Rightarrow> issue_mapping option list \<Rightarrow> ('g, unit) pub" where
  "creation_loop S c observed s = (case next_ticket (memory s) of
       Inl e \<Rightarrow> (Inl e, s)
     | Inr None \<Rightarrow> (Inr (), s)
     | Inr (Some it) \<Rightarrow> (case create_ticket S c observed it s of
           (Inl e, s') \<Rightarrow> (Inl e, s')
         | (Inr _, s') \<Rightarrow> creation_loop S c observed s'))"
  by pat_completeness auto
termination
  by (relation "measure (\<lambda>(S, c, observed, s). uncreated (memory s))")
    (auto intro: create_ticket_progress)

declare creation_loop.simps [simp del]

section \<open>The attempt to publish\<close>

definition run_publish :: "'g service \<Rightarrow> progress_context \<Rightarrow> ('g, unit) pub" where
  "run_publish S c =
     after (get memory) (\<lambda>b.
     after (observe_batch S c b) (\<lambda>observed.
     after (preflight_capacity S c b observed) (\<lambda>_.
     after (verified c RemoteChecksStep) (\<lambda>_.
     after (creation_loop S c observed) (\<lambda>_.
     after (get memory) (\<lambda>b.
     after (require (list_all is_created (saved_tickets b)) (Trouble ''creation remains incomplete'')) (\<lambda>_.
     after (run_graph S c) (\<lambda>_.
     run_labels S c))))))))"

definition is_uncertain :: "progress \<Rightarrow> bool" where
  "is_uncertain p \<longleftrightarrow> progress_status p \<in> {Creating, RetryAuthorized}"

definition clear_observations :: "batch \<Rightarrow> batch" where
  "clear_observations b = b\<lparr>saved_graph := no_graph,
     saved_labels := (saved_labels b)\<lparr>labels_checked := False, labels_verified := False\<rparr>\<rparr>"

definition withdraw_verification :: "batch \<Rightarrow> batch" where
  "withdraw_verification b = b\<lparr>saved_graph := (saved_graph b)\<lparr>graph_verified := False\<rparr>,
     saved_labels := (saved_labels b)\<lparr>labels_verified := False\<rparr>\<rparr>"

definition publication_status :: "pub_error + unit \<Rightarrow> batch \<Rightarrow> outcome_status" where
  "publication_status r b = (case r of
       Inr _ \<Rightarrow> Complete
     | Inl Conflict \<Rightarrow> ConflictStatus
     | Inl (Trouble _) \<Rightarrow> if list_ex is_uncertain (saved_tickets b) then Uncertain else Partial)"

definition publication :: "'g service \<Rightarrow> progress_context \<Rightarrow> ('g, outcome_status \<times> (pub_error + unit)) pub" where
  "publication S c =
     after (change_memory clear_observations) (\<lambda>_.
     after (attempt (run_publish S c)) (\<lambda>r.
     after (case r of Inl _ \<Rightarrow> change_memory withdraw_verification | Inr _ \<Rightarrow> give ()) (\<lambda>_.
     after (get memory) (\<lambda>b.
     let status = publication_status r b in
     after (finish status) (\<lambda>_.
     give (status, r))))))"

end
