(* ===== verification/Ticket_Command.thy ===== *)
theory Ticket_Command imports Ticket_Publish begin

text \<open>
  The explicit local decisions (\<open>tools/ticket_publication/recovery.rs\<close>) and the commands of the
  program (\<open>execute\<close> of \<open>main.rs\<close>). A command starts from arguments that are already parsed,
  with the store of its batch open; the batch in memory is the one it works on.
\<close>

section \<open>Recovery\<close>

definition same_or :: "pub_error \<Rightarrow> ticket_status \<Rightarrow> remote_issue \<Rightarrow> ('g, unit) pub" where
  "same_or e st r = (case st of Created m \<Rightarrow> require (m = issue_mapping_of r) e | _ \<Rightarrow> give ())"

definition adopt :: "'g service \<Rightarrow> progress_context \<Rightarrow> ticket_key \<Rightarrow> issue_number \<Rightarrow> ('g, unit) pub" where
  "adopt S c k n =
     after (get memory) (\<lambda>b.
     after (some_or (Trouble ''unknown ticket key'') (position (\<lambda>p. progress_key p = k) (saved_tickets b))) (\<lambda>i.
     after (read_issue S c n) (\<lambda>r.
     after (from_outcome (index (plan_tickets (saved_plan b)) i)) (\<lambda>t.
     after (from_outcome (index (saved_tickets b) i)) (\<lambda>p.
     after (check_content (ticket_title t) (published_text t p) r) (\<lambda>_.
     after (same_or (Trouble ''adoption conflicts with the saved mapping'') (progress_status p) r) (\<lambda>_.
     after (change_memory (set_status i (Created (issue_mapping_of r)))) (\<lambda>_.
     save S))))))))"

definition authorize_retry :: "'g service \<Rightarrow> ticket_key \<Rightarrow> ('g, unit) pub" where
  "authorize_retry S k =
     after (get memory) (\<lambda>b.
     after (some_or (Trouble ''unknown ticket key'') (position (\<lambda>p. progress_key p = k) (saved_tickets b))) (\<lambda>i.
     after (from_outcome (index (saved_tickets b) i)) (\<lambda>p.
     after (require (is_uncertain p) (Trouble ''ticket has no uncertain creation to retry'')) (\<lambda>_.
     after (change_memory (set_status i RetryAuthorized)) (\<lambda>_.
     save S)))))"

text \<open>The evidence for one ticket, and whether it is ambiguous.\<close>

definition select_evidence :: "ticket_status \<Rightarrow> remote_issue list \<Rightarrow> ('g, remote_issue option \<times> bool) pub" where
  "select_evidence st found = (case st of
       Created m \<Rightarrow>
         after (some_or (Trouble ''exported issue mapping is absent or conflicting'')
           (find (\<lambda>r. issue_mapping_of r = m) found)) (\<lambda>r. give (Some r, False))
     | _ \<Rightarrow> give (if 1 < length found then (None, True) else (case found of [] \<Rightarrow> None | r # _ \<Rightarrow> Some r, False)))"

definition evidence_status :: "batch \<Rightarrow> nat \<Rightarrow> progress \<Rightarrow> remote_issue option \<Rightarrow> ('g, ticket_status) pub" where
  "evidence_status b i p selected = (case selected of
       Some r \<Rightarrow>
         after (from_outcome (index (plan_tickets (saved_plan b)) i)) (\<lambda>t.
         after (check_content (ticket_title t) (published_text t p) r) (\<lambda>_.
         after (same_or (Trouble ''remote evidence conflicts with the exported mapping'') (progress_status p) r) (\<lambda>_.
         give (Created (issue_mapping_of r)))))
     | None \<Rightarrow>
         after (require (\<not> is_created p) (Trouble ''exported issue mapping is absent from remote evidence'')) (\<lambda>_.
         give Creating))"

definition reconstruct_ticket :: "remote_issue list \<Rightarrow> bool \<Rightarrow> nat \<Rightarrow> ('g, bool) pub" where
  "reconstruct_ticket issues conflicts i =
     after (get memory) (\<lambda>b.
     after (from_outcome (index (saved_tickets b) i)) (\<lambda>p.
     after (select_evidence (progress_status p) (filter (has_marker (marker p)) issues)) (\<lambda>(selected, ambiguous).
     after (evidence_status b i p selected) (\<lambda>st.
     after (change_memory (set_status i st)) (\<lambda>_.
     give (conflicts \<or> ambiguous))))))"

definition reconstruct :: "'g service \<Rightarrow> progress_context \<Rightarrow> ('g, bool) pub" where
  "reconstruct S c =
     after (get memory) (\<lambda>b.
     after (read_issue S c (parent (saved_plan b))) (\<lambda>_.
     after (enumerate_issues S c) (\<lambda>issues.
     after (walk (reconstruct_ticket issues) False [0 ..< length (saved_tickets b)]) (\<lambda>conflicts.
     after (get memory) (\<lambda>b'.
     after (check_batch S b' (saved_id b')) (\<lambda>_.
     after (save_new S) (\<lambda>_.
     give conflicts)))))))"

section \<open>The commands\<close>

definition local_status :: "batch \<Rightarrow> string" where
  "local_status b =
     (if list_ex is_uncertain (saved_tickets b) then ''uncertain''
      else if list_all (\<lambda>p. progress_status p = Pending) (saved_tickets b) then ''prepared''
      else ''partial'')"

definition client :: progress_context where
  "client = context_new RemoteChecks"

definition set_memory :: "batch \<Rightarrow> ('g, unit) pub" where
  "set_memory b = change_memory (\<lambda>_. b)"

definition prepared_batch :: "'g service \<Rightarrow> batch_id \<Rightarrow> plan \<Rightarrow> ('g, batch) pub" where
  "prepared_batch S i p = from_outcome (map_err (map_failure plan_failure) (batch_prepare (fingerprint S) i p))"

definition prepare_command :: "'g service \<Rightarrow> batch_id \<Rightarrow> plan \<Rightarrow> ('g, string) pub" where
  "prepare_command S i p =
     after (prepared_batch S i p) (\<lambda>prepared.
     after (get saved_file) (\<lambda>f.
     after (if f \<noteq> None then
         after (read_file S i) (\<lambda>saved.
         after (require (plan_fingerprint saved = plan_fingerprint prepared) (Trouble ''batch already contains a different plan'')) (\<lambda>_.
         set_memory saved))
       else after (set_memory prepared) (\<lambda>_. save_new S)) (\<lambda>_.
     get (\<lambda>s. local_status (memory s)))))"

definition export_command :: "'g service \<Rightarrow> batch_id \<Rightarrow> ('g, batch) pub" where
  "export_command S i = read_file S i"

record publish_report =
  published_status :: string
  published_complete :: bool
  previous_labels :: labels_progress
  published_batch :: batch
  published_error :: "pub_error option"

definition publish_command :: "'g service \<Rightarrow> batch_id \<Rightarrow> ('g, publish_report) pub" where
  "publish_command S i =
     after (read_file S i) (\<lambda>saved.
     after (set_memory saved) (\<lambda>_.
     after (publication S client) (\<lambda>(status, result).
     after (get memory) (\<lambda>b.
     give \<lparr>published_status = outcome_text status,
       published_complete = (case result of Inr _ \<Rightarrow> True | Inl _ \<Rightarrow> False),
       previous_labels = saved_labels saved, published_batch = b,
       published_error = (case result of Inr _ \<Rightarrow> None | Inl e \<Rightarrow> Some e)\<rparr>))))"

definition reconstruct_command ::
  "'g service \<Rightarrow> bool \<Rightarrow> batch_id \<Rightarrow> plan + batch \<Rightarrow> ('g, string \<times> bool) pub" where
  "reconstruct_command S publisher_stopped i source =
     after (require publisher_stopped (Trouble ''stop the previous publisher before reconstruction'')) (\<lambda>_.
     after (case source of
         Inr exported \<Rightarrow> after (check_batch S exported i) (\<lambda>_. give exported)
       | Inl p \<Rightarrow> prepared_batch S i p) (\<lambda>saved.
     after (get saved_file) (\<lambda>f.
     after (require (f = None) (Trouble ''reconstruction cannot replace existing state'')) (\<lambda>_.
     after (set_memory saved) (\<lambda>_.
     after (reconstruct S client) (\<lambda>conflicts.
     get (\<lambda>s. (if conflicts then ''conflict'' else local_status (memory s), conflicts))))))))"

definition authorize_command :: "'g service \<Rightarrow> bool \<Rightarrow> batch_id \<Rightarrow> ticket_key \<Rightarrow> ('g, string) pub" where
  "authorize_command S acknowledge_duplicate_risk i k =
     after (require acknowledge_duplicate_risk (Trouble ''acknowledge duplicate risk before retry authorization'')) (\<lambda>_.
     after (read_file S i) (\<lambda>saved.
     after (set_memory saved) (\<lambda>_.
     after (authorize_retry S k) (\<lambda>_.
     get (\<lambda>s. local_status (memory s))))))"

definition adopt_command :: "'g service \<Rightarrow> batch_id \<Rightarrow> ticket_key \<Rightarrow> issue_number \<Rightarrow> ('g, string) pub" where
  "adopt_command S i k n =
     after (read_file S i) (\<lambda>saved.
     after (set_memory saved) (\<lambda>_.
     after (adopt S client k n) (\<lambda>_.
     get (\<lambda>s. local_status (memory s)))))"

record status_report =
  report_status :: string
  report_graph :: "graph_progress option"
  report_labels :: "labels_progress option"
  report_complete :: bool
  report_mappings :: "issue_mapping option list option"
  report_error :: "pub_error option"

definition failed_status :: "pub_error \<Rightarrow> string" where
  "failed_status e = (case e of Conflict \<Rightarrow> ''conflict'' | Trouble _ \<Rightarrow> ''unverified'')"

definition observed_status :: "batch \<Rightarrow> pub_error + issue_mapping option list \<Rightarrow> string" where
  "observed_status saved observed = (case observed of
       Inl e \<Rightarrow> failed_status e
     | Inr mappings \<Rightarrow>
         if list_ex (\<lambda>(p, m). progress_status p \<noteq> Pending \<and> m = None) (zip (saved_tickets saved) mappings) then ''uncertain''
         else if list_ex (\<lambda>m. m \<noteq> None) mappings then ''partial''
         else local_status saved)"

definition observed_links :: "'g service \<Rightarrow> batch \<Rightarrow> issue_mapping option list \<Rightarrow> ('g, graph_progress) pub" where
  "observed_links S saved mappings =
     after (preflight_capacity S client saved mappings) (\<lambda>_.
     if list_all is_created (saved_tickets saved) then observe_graph S client saved else give no_graph)"

text \<open>A later failure replaces the status and the error.\<close>

definition fold_result :: "(string \<times> pub_error option) \<Rightarrow> (pub_error + 'a) option \<Rightarrow> 'a option \<times> string \<times> pub_error option" where
  "fold_result st r = (case r of
       Some (Inr x) \<Rightarrow> (Some x, st)
     | Some (Inl e) \<Rightarrow> (None, failed_status e, Some e)
     | None \<Rightarrow> (None, st))"

definition status_command :: "'g service \<Rightarrow> batch_id \<Rightarrow> ('g, status_report) pub" where
  "status_command S i =
     after (read_file S i) (\<lambda>saved.
     after (attempt (observe_batch S client saved)) (\<lambda>observed.
     after (case observed of
         Inl _ \<Rightarrow> give None
       | Inr mappings \<Rightarrow> after (attempt (observed_links S saved mappings)) (\<lambda>r. give (Some r))) (\<lambda>graph.
     let (mappings, st) = (case observed of Inr ms \<Rightarrow> (Some ms, observed_status saved observed, None)
           | Inl e \<Rightarrow> (None, observed_status saved observed, Some e));
         (g, st) = fold_result st graph in
     after (if (case g of Some g \<Rightarrow> graph_verified g | None \<Rightarrow> False)
       then after (attempt (observe_labels S client saved)) (\<lambda>r. give (Some r))
       else give None) (\<lambda>found.
     let (l, status, error) = fold_result st found;
         complete = (error = None \<and> (case l of Some l \<Rightarrow> labels_verified l | None \<Rightarrow> False)) in
     give \<lparr>report_status = (if complete then ''complete'' else status), report_graph = g, report_labels = l,
       report_complete = complete, report_mappings = mappings, report_error = error\<rparr>))))"

text \<open>\<open>execute\<close>: the parsed commands and their replies, and whether the process reports success.\<close>

datatype command =
    Prepare plan
  | Export
  | Publish
  | Reconstruct bool "plan + batch"
  | AuthorizeRetry bool ticket_key
  | Adopt ticket_key issue_number
  | Status

datatype reply =
    Summary string
  | Exported batch
  | Published publish_report
  | Reconstructed string bool
  | Reported status_report

definition execute :: "'g service \<Rightarrow> batch_id \<Rightarrow> command \<Rightarrow> ('g, reply) pub" where
  "execute S i c = (case c of
       Prepare p \<Rightarrow> after (prepare_command S i p) (\<lambda>st. give (Summary st))
     | Export \<Rightarrow> after (export_command S i) (\<lambda>b. give (Exported b))
     | Publish \<Rightarrow> after (publish_command S i) (\<lambda>r. give (Published r))
     | Reconstruct stopped source \<Rightarrow>
         after (reconstruct_command S stopped i source) (\<lambda>(st, conflicts). give (Reconstructed st conflicts))
     | AuthorizeRetry acknowledged k \<Rightarrow> after (authorize_command S acknowledged i k) (\<lambda>st. give (Summary st))
     | Adopt k n \<Rightarrow> after (adopt_command S i k n) (\<lambda>st. give (Summary st))
     | Status \<Rightarrow> after (status_command S i) (\<lambda>r. give (Reported r)))"

definition exit_success :: "reply \<Rightarrow> bool" where
  "exit_success r = (case r of
       Published p \<Rightarrow> published_error p = None
     | Reconstructed _ conflicts \<Rightarrow> \<not> conflicts
     | Reported q \<Rightarrow> report_error q = None
     | _ \<Rightarrow> True)"

end
