(* ===== verification/Ticket_Watch.thy ===== *)
theory Ticket_Watch imports Ticket_Command begin

text \<open>
  What a publisher promises about the order of its deeds, as an observer that reads them one after
  the other and refuses the first that breaks the promise: no request that changes GitHub precedes
  the durable record that allows it. The observer accepts every beginning of what it accepts, so
  the promise holds however the process dies.
\<close>

section \<open>The observer\<close>

fun permits_creation :: "ticket_status \<Rightarrow> bool" where
  "permits_creation Pending \<longleftrightarrow> True"
| "permits_creation RetryAuthorized \<longleftrightarrow> True"
| "permits_creation _ \<longleftrightarrow> False"

text \<open>The steps of a status that publication may record. A created issue is never forgotten.\<close>

fun status_step :: "ticket_status \<Rightarrow> ticket_status \<Rightarrow> bool" where
  "status_step (Created m) st \<longleftrightarrow> st = Created m"
| "status_step old st \<longleftrightarrow> st = old \<or> st = Creating \<or> (case st of Created _ \<Rightarrow> True | _ \<Rightarrow> False)"

definition ticket_step :: "progress \<Rightarrow> progress \<Rightarrow> bool" where
  "ticket_step p q \<longleftrightarrow> progress_key q = progress_key p \<and> marker q = marker p \<and> status_step (progress_status p) (progress_status q)"

definition same_batch :: "batch \<Rightarrow> batch \<Rightarrow> bool" where
  "same_batch f b \<longleftrightarrow> saved_id b = saved_id f \<and> saved_plan b = saved_plan f \<and> plan_fingerprint b = plan_fingerprint f"

definition advances :: "batch \<Rightarrow> batch \<Rightarrow> bool" where
  "advances f b \<longleftrightarrow> same_batch f b \<and> list_all2 ticket_step (saved_tickets f) (saved_tickets b)"

text \<open>The tickets whose creation a new file announces.\<close>

definition announced :: "batch \<Rightarrow> batch \<Rightarrow> ticket_key set" where
  "announced f b = set (map (\<lambda>(p, q). progress_key p) (filter (\<lambda>(p, q).
     permits_creation (progress_status p) \<and> progress_status q = Creating) (zip (saved_tickets f) (saved_tickets b))))"

definition blockers_created :: "batch \<Rightarrow> ticket \<Rightarrow> bool" where
  "blockers_created b t \<longleftrightarrow> list_all (\<lambda>bl. case bl of
       BIssue _ \<Rightarrow> True
     | BTicket k \<Rightarrow> list_ex (\<lambda>p. progress_key p = k \<and> is_created p) (saved_tickets b)) (blockers t)"

definition all_created :: "batch \<Rightarrow> bool" where
  "all_created b \<longleftrightarrow> list_all is_created (saved_tickets b)"

text \<open>The file, and the tickets announced by it whose issue is not yet requested.\<close>

type_synonym watch_state = "batch \<times> ticket_key set"

text \<open>The ticket that a creation is for: the first subject of its request.\<close>

definition creation_of :: "remote_operation \<Rightarrow> ticket_key option" where
  "creation_of op = (case ctx_subjects (op_context op) of
       [] \<Rightarrow> None
     | sub # _ \<Rightarrow> (case sub of TicketSubject k \<Rightarrow> Some k | IssueSubject _ \<Rightarrow> None))"

definition watch_creation :: "watch_state \<Rightarrow> ticket_key \<Rightarrow> unit + watch_state" where
  "watch_creation w k = (case w of (f, fresh) \<Rightarrow>
     if k \<in> fresh \<and> list_all (\<lambda>t. ticket_key t = k \<longrightarrow> blockers_created f t) (plan_tickets (saved_plan f))
     then Inr (f, fresh - {k}) else Inl ())"

definition allow :: "bool \<Rightarrow> watch_state \<Rightarrow> unit + watch_state" where
  "allow b w = (if b then Inr w else Inl ())"

definition watch_request :: "watch_state \<Rightarrow> remote_operation \<Rightarrow> unit + watch_state" where
  "watch_request w op = (case op_kind op of
       CreateIssue \<Rightarrow> (case creation_of op of Some k \<Rightarrow> watch_creation w k | None \<Rightarrow> Inl ())
     | AddParent \<Rightarrow> allow (all_created (fst w)) w
     | AddBlocker \<Rightarrow> allow (all_created (fst w)) w
     | AddLabels \<Rightarrow> allow (all_created (fst w) \<and> graph_verified (saved_graph (fst w)) \<and> labels_checked (saved_labels (fst w))) w
     | _ \<Rightarrow> Inr w)"

definition watch_event :: "watch_state \<Rightarrow> progress_event \<Rightarrow> unit + watch_state" where
  "watch_event w e = (case e of
       RemoteOperationStarted op \<Rightarrow> watch_request w op
     | PublicationCompleted _ \<Rightarrow>
         allow (all_created (fst w) \<and> graph_verified (saved_graph (fst w)) \<and> labels_verified (saved_labels (fst w))) w
     | _ \<Rightarrow> Inr w)"

definition watch :: "watch_state \<Rightarrow> deed \<Rightarrow> unit + watch_state" where
  "watch w d = (case d of
       Committed b \<Rightarrow> if advances (fst w) b then Inr (b, announced (fst w) b) else Inl ()
     | Emitted e \<Rightarrow> watch_event w e)"

section \<open>What the observer's acceptance means\<close>

definition requests_for :: "ticket_key \<Rightarrow> deed \<Rightarrow> bool" where
  "requests_for k d \<longleftrightarrow> (case d of
       Emitted e \<Rightarrow> (case e of RemoteOperationStarted op \<Rightarrow> op_kind op = CreateIssue \<and> creation_of op = Some k | _ \<Rightarrow> False)
     | Committed _ \<Rightarrow> False)"

definition creations :: "ticket_key \<Rightarrow> deed list \<Rightarrow> nat" where
  "creations k ds = length (filter (requests_for k) ds)"

definition permits :: "ticket_key \<Rightarrow> batch \<Rightarrow> nat" where
  "permits k b = length (filter (\<lambda>p. progress_key p = k \<and> permits_creation (progress_status p)) (saved_tickets b))"

lemma creations_simps [simp]:
  "creations k [] = 0"
  "creations k (d # ds) = (if requests_for k d then 1 else 0) + creations k ds"
  "creations k (ds @ ds') = creations k ds + creations k ds'"
  by (simp_all add: creations_def)

lemma status_step_refl [simp]: "status_step st st"
  by (cases st) simp_all

lemma status_step_trans: "status_step a b \<Longrightarrow> status_step b c \<Longrightarrow> status_step a c"
  by (cases a; cases b; cases c) auto

lemma status_step_permits: "status_step a b \<Longrightarrow> permits_creation b \<Longrightarrow> permits_creation a"
  by (cases a; cases b) auto

lemma ticket_step_refl [simp]: "ticket_step p p"
  by (simp add: ticket_step_def)

lemma ticket_step_trans: "ticket_step p q \<Longrightarrow> ticket_step q r \<Longrightarrow> ticket_step p r"
  unfolding ticket_step_def using status_step_trans by auto

lemma same_batch_refl [simp]: "same_batch b b"
  by (simp add: same_batch_def)

lemma advances_refl [simp]: "advances b b"
  by (simp add: advances_def list_all2_refl)

lemma advances_trans: "advances a b \<Longrightarrow> advances b c \<Longrightarrow> advances a c"
  unfolding advances_def same_batch_def using list_all2_trans [OF ticket_step_trans] by auto

lemma advances_length: "advances f b \<Longrightarrow> length (saved_tickets b) = length (saved_tickets f)"
  unfolding advances_def by (metis list_all2_lengthD)

text \<open>A file announces a creation only by giving up the permission for it.\<close>

lemma announced_permits:
  assumes "advances f b"
  shows "permits k b + (if k \<in> announced f b then 1 else 0) \<le> permits k f"
proof -
  have "length (filter (\<lambda>p. progress_key p = k \<and> permits_creation (progress_status p)) ys) +
      (if k \<in> set (map (\<lambda>(p, q). progress_key p) (filter (\<lambda>(p, q).
         permits_creation (progress_status p) \<and> progress_status q = Creating) (zip xs ys))) then 1 else 0)
      \<le> length (filter (\<lambda>p. progress_key p = k \<and> permits_creation (progress_status p)) xs)"
    if "list_all2 ticket_step xs ys" for xs ys
    using that
  proof induction
    case (Cons x xs y ys)
    then show ?case
      using status_step_permits [of "progress_status x" "progress_status y"]
      by (auto simp: ticket_step_def split: if_splits)
  qed simp
  with assms show ?thesis unfolding permits_def announced_def advances_def by blast
qed

lemma allow_Inr [result_simps]: "allow b w = Inr w' \<longleftrightarrow> b \<and> w' = w"
  by (auto simp: allow_def)

lemma watch_creation_Inr:
  "watch_creation (f, fresh) k = Inr (f', fresh') \<Longrightarrow> f' = f \<and> k \<in> fresh \<and> fresh' = fresh - {k}"
  by (auto simp: watch_creation_def split: if_splits)

lemma watch_request_Inr:
  assumes "watch_request (f, fresh) op = Inr (f', fresh')"
  shows "f' = f \<and> fresh' \<subseteq> fresh \<and> (op_kind op = CreateIssue \<and> creation_of op = Some k \<longrightarrow> k \<in> fresh \<and> k \<notin> fresh')"
  using assms
  by (cases "op_kind op") (auto simp: watch_request_def result_simps dest!: watch_creation_Inr split: option.splits)

lemma watch_Emitted:
  assumes "watch (f, fresh) (Emitted e) = Inr (f', fresh')"
  shows "f' = f \<and> fresh' \<subseteq> fresh \<and> (requests_for k (Emitted e) \<longrightarrow> k \<in> fresh \<and> k \<notin> fresh')"
proof (cases e)
  case (RemoteOperationStarted op)
  with assms show ?thesis
    using watch_request_Inr [of f fresh op f' fresh' k] by (simp add: watch_def watch_event_def requests_for_def)
qed (use assms in \<open>auto simp: watch_def watch_event_def requests_for_def result_simps\<close>)

lemma watch_Committed:
  "watch (f, fresh) (Committed b) = Inr w \<longleftrightarrow> advances f b \<and> w = (b, announced f b)"
  by (auto simp: watch_def)

lemma requests_for_Committed [simp]: "\<not> requests_for k (Committed b)"
  by (simp add: requests_for_def)

text \<open>The potential of a ticket, what its file permits and what is announced, pays for every request.\<close>

lemma watch_potential:
  assumes "watch (f, fresh) d = Inr (f', fresh')"
  shows "(if requests_for k d then 1 else 0) + permits k f' + (if k \<in> fresh' then 1 else 0)
      \<le> permits k f + (if k \<in> fresh then 1 else 0)"
proof (cases d)
  case (Emitted e)
  with watch_Emitted [of f fresh e f' fresh' k] assms show ?thesis by auto
next
  case (Committed b)
  with assms announced_permits [of f b k] show ?thesis by (simp add: watch_Committed)
qed

lemma watched_potential:
  "try_fold watch (f, fresh) ds = Inr (f', fresh') \<Longrightarrow>
     creations k ds + permits k f' + (if k \<in> fresh' then 1 else 0) \<le> permits k f + (if k \<in> fresh then 1 else 0)"
proof (induction ds arbitrary: f fresh)
  case (Cons d ds)
  then obtain f1 fresh1 where "watch (f, fresh) d = Inr (f1, fresh1)" "try_fold watch (f1, fresh1) ds = Inr (f', fresh')"
    by (auto simp: result_simps)
  with watch_potential [of f fresh d f1 fresh1 k] Cons.IH [of f1 fresh1] show ?case by simp
qed simp

lemma trace_file: "try_fold watch (f, fresh) ds = Inr (f', fresh') \<Longrightarrow> file_after (Some f) ds = Some f'"
proof (induction ds arbitrary: f fresh)
  case (Cons d ds)
  then obtain f1 fresh1 where step: "watch (f, fresh) d = Inr (f1, fresh1)" "try_fold watch (f1, fresh1) ds = Inr (f', fresh')"
    by (auto simp: result_simps)
  show ?case
  proof (cases d)
    case (Emitted e)
    with step watch_Emitted have "f1 = f" by blast
    with Emitted Cons.IH [OF step(2)] show ?thesis by simp
  next
    case (Committed b)
    with step Cons.IH [OF step(2)] show ?thesis by (simp add: watch_Committed)
  qed
qed simp

lemma watched_prefix:
  assumes "try_fold watch w (ds @ rest) = Inr w'"
  shows "\<exists>w1. try_fold watch w ds = Inr w1"
  using assms by (auto simp: try_fold_append result_simps)

text \<open>The observer as an event source: its file only advances.\<close>

interpretation publisher: stable_source "(f0, {}) :: watch_state" watch "\<lambda>_. True" "\<lambda>w w'. advances (fst w) (fst w')"
proof unfold_locales
  fix w w' :: watch_state and d
  assume "watch w d = Inr w'"
  moreover obtain f fresh f' fresh' where "w = (f, fresh)" "w' = (f', fresh')" by fastforce
  ultimately show "advances (fst w) (fst w')"
    by (cases d) (auto simp: watch_Committed dest: watch_Emitted)
qed (auto intro: advances_trans)

text \<open>
  Which operations only read: their deeds are reading requests, and they leave the batch in memory
  and the file alone. The rules extend the collection \<open>does\<close>.
\<close>

section \<open>Cases\<close>

lemma does_blocker [does]:
  "(\<And>k. bl = BTicket k \<Longrightarrow> does I A (f k)) \<Longrightarrow> (\<And>n. bl = BIssue n \<Longrightarrow> does I A (g n)) \<Longrightarrow>
     does I A (case bl of BTicket k \<Rightarrow> f k | BIssue n \<Rightarrow> g n)"
  by (cases bl) simp_all

lemma does_planned [does]:
  "(\<And>i. p = Unmapped i \<Longrightarrow> does I A (f i)) \<Longrightarrow> (\<And>m. p = Existing m \<Longrightarrow> does I A (g m)) \<Longrightarrow>
     does I A (case p of Unmapped i \<Rightarrow> f i | Existing m \<Rightarrow> g m)"
  by (cases p) simp_all

lemma does_status [does]:
  "(\<And>m. st = Created m \<Longrightarrow> does I A (f m)) \<Longrightarrow> does I A n1 \<Longrightarrow> does I A n2 \<Longrightarrow> does I A n3 \<Longrightarrow>
     does I A (case st of Pending \<Rightarrow> n1 | Creating \<Rightarrow> n2 | RetryAuthorized \<Rightarrow> n3 | Created m \<Rightarrow> f m)"
  by (cases st) simp_all

lemma does_result [does]:
  "(\<And>e. r = Inl e \<Longrightarrow> does I A (f e)) \<Longrightarrow> (\<And>x. r = Inr x \<Longrightarrow> does I A (g x)) \<Longrightarrow>
     does I A (case r of Inl e \<Rightarrow> f e | Inr x \<Rightarrow> g x)"
  by (cases r) simp_all

lemma attempt_session [simp]: "snd (attempt m s) = snd (m s)"
  by (auto simp: attempt_def split: prod.splits sum.splits failure.splits)

lemma does_attempt [does]: "does I A m \<Longrightarrow> does I A (attempt m)"
  by (simp add: does_def)

section \<open>Relationships\<close>

lemma does_rel_contains [does]: "does I A (rel_contains rs e)"
proof (induction rs)
  case Nil
  show ?case unfolding rel_contains.simps by (intro does)
next
  case (Cons r rs)
  then show ?case unfolding rel_contains.simps by (intro does)
qed

lemma does_lookups [does]:
  "does I A (saved_mapping b i)" "does I A (ticket_position b k)" "does I A (planned_observed i issues)"
  "does I A (capacity_context b c target)" "does I A (sort_blocker existing s m)"
  unfolding saved_mapping_def ticket_position_def planned_observed_def capacity_context_def sort_blocker_def
  by (intro does)+

lemma does_external_mapping [does]: "request_deeds reads \<subseteq> A \<Longrightarrow> does I A (external_mapping S c cache n)"
  unfolding external_mapping_def by (intro does)

lemma does_planned_edges [does]: "request_deeds reads \<subseteq> A \<Longrightarrow> does I A (planned_edges S c b issues)"
  unfolding planned_edges_def planned_edge_of_def by (intro does)

lemma does_dependency_capacity [does]:
  "request_deeds reads \<subseteq> A \<Longrightarrow> does I A (check_dependency_capacity S c b source required relation)"
  unfolding check_dependency_capacity_def by (intro does)

lemma does_preflight_dependencies [does]: "request_deeds reads \<subseteq> A \<Longrightarrow> does I A (preflight_dependencies S c b edges)"
  unfolding preflight_dependencies_def check_direction_def by (intro does)

lemma does_preflight_capacity [does]: "request_deeds reads \<subseteq> A \<Longrightarrow> does I A (preflight_capacity S c b issues)"
  unfolding preflight_capacity_def by (intro does)

lemma does_check_remote_ticket [does]: "request_deeds reads \<subseteq> A \<Longrightarrow> does I A (check_remote_ticket S c b i)"
  unfolding check_remote_ticket_def by (intro does)

lemma does_check_parent [does]: "request_deeds reads \<subseteq> A \<Longrightarrow> does I A (check_parent S c issue p children)"
  unfolding check_parent_def by (intro does)

lemma does_required_blocker [does]: "request_deeds reads \<subseteq> A \<Longrightarrow> does I A (required_blocker S c b issue s bl)"
  unfolding required_blocker_def by (intro does)

lemma does_read_ticket [does]: "request_deeds reads \<subseteq> A \<Longrightarrow> does I A (read_ticket S c b p children external it)"
  unfolding read_ticket_def Let_def by (intro does)

lemma does_read_graph [does]: "request_deeds reads \<subseteq> A \<Longrightarrow> does I A (read_graph S c b)"
  unfolding read_graph_def read_step_def Let_def by (intro does)

lemma does_observe_graph [does]: "request_deeds reads \<subseteq> A \<Longrightarrow> does I A (observe_graph S c b)"
  unfolding observe_graph_def by (intro does)

section \<open>Labels and issues\<close>

lemma does_label_ticket [does]: "request_deeds reads \<subseteq> A \<Longrightarrow> does I A (label_ticket S c b i)"
  unfolding label_ticket_def by (intro does)

lemma does_observe_labels [does]: "request_deeds reads \<subseteq> A \<Longrightarrow> does I A (observe_labels S c b)"
  unfolding observe_labels_def by (intro does)

lemma does_observe_batch [does]: "request_deeds reads \<subseteq> A \<Longrightarrow> does I A (observe_batch S c b)"
  unfolding observe_batch_def observe_ticket_def Let_def by (intro does)

lemma does_verified: "Emitted (StepVerified c st) \<in> A \<Longrightarrow> does I A (verified c st)"
  unfolding verified_def by (rule does_emit)

section \<open>Commands that only read\<close>

lemma does_observed_links [does]: "request_deeds reads \<subseteq> A \<Longrightarrow> does I A (observed_links S saved ms)"
  unfolding observed_links_def by (intro does)

lemma does_status_command: "does I (request_deeds reads) (status_command S i)"
  unfolding status_command_def Let_def by (intro does does_read_file order.refl)

lemma does_export_command: "does I {} (export_command S i)"
  unfolding export_command_def by (rule does_read_file)

section \<open>Recovery\<close>

definition commits :: "deed set" where
  "commits = range Committed"

lemma does_save_commits [does]: "does I (K \<union> commits) (save S)" "does I (K \<union> commits) (save_new S)"
  by (rule does_save does_save_new; simp add: commits_def)+

lemma does_same_or [does]: "does I A (same_or e st r)"
  unfolding same_or_def by (intro does)

lemma does_set_status: "(\<And>b. I b \<Longrightarrow> I (set_status i st b)) \<Longrightarrow> does I A (change_memory (set_status i st))"
  by (rule does_change_memory)

lemma does_adopt: "does (\<lambda>_. True) (request_deeds reads \<union> commits) (adopt S c k n)"
  unfolding adopt_def by (intro does does_change_memory) simp_all

lemma does_authorize_retry: "does (\<lambda>_. True) (request_deeds reads \<union> commits) (authorize_retry S k)"
  unfolding authorize_retry_def by (intro does does_change_memory) simp_all

lemma does_select_evidence [does]: "does I A (select_evidence st found)"
  unfolding select_evidence_def by (intro does)

lemma does_reconstruct: "does (\<lambda>_. True) (request_deeds reads \<union> commits) (reconstruct S c)"
  unfolding reconstruct_def reconstruct_ticket_def evidence_status_def check_batch_def by (intro does does_change_memory) simp_all

text \<open>
  The publisher keeps the promise that the observer of \<open>Ticket_Watch\<close> checks. The judgement
  \<open>upholds P m Q\<close> relates a step to the observer: from a state of the observer and a batch in
  memory that satisfy \<open>P\<close>, the observer accepts every deed of the step, and when the step returns
  a value, \<open>Q\<close> holds of it and of the new states.
\<close>

section \<open>The judgement\<close>

definition watched :: "'g session \<Rightarrow> watch_state \<Rightarrow> 'g session \<Rightarrow> watch_state \<Rightarrow> bool" where
  "watched s w s' w' \<longleftrightarrow> saved_file s' = Some (fst w') \<and> (\<exists>ds. deeds s' = deeds s @ ds \<and> try_fold watch w ds = Inr w')"

definition upholds :: "(watch_state \<Rightarrow> batch \<Rightarrow> bool) \<Rightarrow> ('g, 'a) pub \<Rightarrow> ('a \<Rightarrow> watch_state \<Rightarrow> batch \<Rightarrow> bool) \<Rightarrow> bool" where
  "upholds P m Q \<longleftrightarrow> (\<forall>s w. saved_file s = Some (fst w) \<longrightarrow> P w (memory s) \<longrightarrow>
     (\<exists>w'. watched s w (snd (m s)) w' \<and> (\<forall>x. fst (m s) = Inr x \<longrightarrow> Q x w' (memory (snd (m s))))))"

lemma watched_refl: "saved_file s' = Some (fst w) \<Longrightarrow> deeds s' = deeds s \<Longrightarrow> watched s w s' w"
  by (simp add: watched_def)

lemma watched_trans: "watched s w s1 w1 \<Longrightarrow> watched s1 w1 s2 w2 \<Longrightarrow> watched s w s2 w2"
  by (auto simp: watched_def try_fold_append)

lemma watched_file: "watched s w s' w' \<Longrightarrow> saved_file s' = Some (fst w')"
  by (simp add: watched_def)

lemma watched_deed:
  "saved_file s' = Some (fst w') \<Longrightarrow> deeds s' = deeds s @ [d] \<Longrightarrow> watch w d = Inr w' \<Longrightarrow> watched s w s' w'"
  by (auto simp: watched_def intro!: exI [of _ "[d]"])

lemma upholdsI:
  assumes "\<And>s w r s'. saved_file s = Some (fst w) \<Longrightarrow> P w (memory s) \<Longrightarrow> m s = (r, s') \<Longrightarrow>
     \<exists>w'. watched s w s' w' \<and> (\<forall>x. r = Inr x \<longrightarrow> Q x w' (memory s'))"
  shows "upholds P m Q"
  unfolding upholds_def by (metis assms prod.collapse)

lemma upholdsE:
  assumes "upholds P m Q" "saved_file s = Some (fst w)" "P w (memory s)" "m s = (r, s')"
  obtains w' where "watched s w s' w'" "\<And>x. r = Inr x \<Longrightarrow> Q x w' (memory s')"
  using assms unfolding upholds_def by (metis fst_conv snd_conv)

lemma upholds_return:
  assumes "upholds P m Q" "saved_file s = Some (fst w)" "P w (memory s)" "m s = (Inr x, s')"
  shows "\<exists>w'. watched s w s' w' \<and> Q x w' (memory s')"
  using upholdsE [OF assms] by metis

text \<open>A step that does nothing but return.\<close>

lemma upholds_quiet:
  assumes "\<And>s r s'. m s = (r, s') \<Longrightarrow> saved_file s' = saved_file s \<and> deeds s' = deeds s"
    and "\<And>s w x s'. P w (memory s) \<Longrightarrow> m s = (Inr x, s') \<Longrightarrow> Q x w (memory s')"
  shows "upholds P m Q"
proof (rule upholdsI)
  fix s :: "'a session" and w r s'
  assume "saved_file s = Some (fst w)" "P w (memory s)" "m s = (r, s')"
  with assms show "\<exists>w'. watched s w s' w' \<and> (\<forall>x. r = Inr x \<longrightarrow> Q x w' (memory s'))"
    by (intro exI [of _ w]) (auto intro: watched_refl)
qed

lemma upholds_conseq:
  "upholds P m Q \<Longrightarrow> (\<And>w b. P' w b \<Longrightarrow> P w b) \<Longrightarrow> (\<And>x w b. Q x w b \<Longrightarrow> Q' x w b) \<Longrightarrow> upholds P' m Q'"
  unfolding upholds_def by meson

lemma upholds_after:
  assumes m: "upholds P m R" and k: "\<And>x. upholds (R x) (k x) Q"
  shows "upholds P (after m k) Q"
proof (rule upholdsI)
  fix s :: "'a session" and w r s'
  assume P: "saved_file s = Some (fst w)" "P w (memory s)" and run: "after m k s = (r, s')"
  obtain r1 s1 where m1: "m s = (r1, s1)" by fastforce
  from upholdsE [OF m P m1] obtain w1 where 1: "watched s w s1 w1" "\<And>x. r1 = Inr x \<Longrightarrow> R x w1 (memory s1)" by blast
  show "\<exists>w'. watched s w s' w' \<and> (\<forall>x. r = Inr x \<longrightarrow> Q x w' (memory s'))"
  proof (cases r1)
    case (Inl e)
    with m1 run have "r = Inl e" "s' = s1" by (simp_all add: after_def)
    with 1 show ?thesis by (intro exI [of _ w1]) simp
  next
    case (Inr x)
    with m1 run have "k x s1 = (r, s')" by (simp add: after_def)
    from upholdsE [OF k watched_file [OF 1(1)] 1(2) [OF Inr] this]
    obtain w2 where "watched s1 w1 s' w2" "\<And>y. r = Inr y \<Longrightarrow> Q y w2 (memory s')" by blast
    with watched_trans [OF 1(1)] show ?thesis by (intro exI [of _ w2]) simp
  qed
qed

lemma upholds_give: "(\<And>w b. P w b \<Longrightarrow> Q x w b) \<Longrightarrow> upholds P (give x) Q"
  and upholds_stop: "upholds P (stop e) Q"
  and upholds_outcome: "(\<And>x w b. P w b \<Longrightarrow> r = Inr x \<Longrightarrow> Q x w b) \<Longrightarrow> upholds P (from_outcome r) Q"
  by (rule upholds_quiet; simp)+

lemma upholds_require: "(\<And>w b. P w b \<Longrightarrow> c \<Longrightarrow> Q () w b) \<Longrightarrow> upholds P (require c e) Q"
  by (cases c) (auto intro: upholds_give upholds_stop simp del: pub_simps)

lemma upholds_some: "(\<And>x w b. P w b \<Longrightarrow> y = Some x \<Longrightarrow> Q x w b) \<Longrightarrow> upholds P (some_or e y) Q"
  by (cases y) (auto intro: upholds_give upholds_stop simp del: pub_simps)

lemma upholds_memory:
  assumes "\<And>b0. upholds (\<lambda>w b. P w b \<and> b = b0) (k b0) Q"
  shows "upholds P (after (get memory) k) Q"
proof (rule upholdsI)
  fix s :: "'a session" and w r s'
  assume P: "saved_file s = Some (fst w)" "P w (memory s)" and "after (get memory) k s = (r, s')"
  then have run: "k (memory s) s = (r, s')" by simp
  from P(2) have "P w (memory s) \<and> memory s = memory s" by simp
  from upholdsE [OF assms P(1) this run]
  show "\<exists>w'. watched s w s' w' \<and> (\<forall>x. r = Inr x \<longrightarrow> Q x w' (memory s'))" by blast
qed

lemma upholds_change: "(\<And>w b. P w b \<Longrightarrow> Q () w (f b)) \<Longrightarrow> upholds P (change_memory f) Q"
  by (rule upholds_quiet) (auto simp: change_memory_def)

lemma upholds_emit:
  assumes "\<And>w b. P w b \<Longrightarrow> \<exists>w'. watch_event w e = Inr w' \<and> fst w' = fst w \<and> Q () w' b"
  shows "upholds P (emit e) Q"
proof (rule upholdsI)
  fix s :: "'a session" and w r s'
  assume old: "saved_file s = Some (fst w)" and "P w (memory s)" and run: "emit e s = (r, s')"
  with assms obtain w' where "watch_event w e = Inr w'" "fst w' = fst w" "Q () w' (memory s)" by blast
  with old run show "\<exists>w'. watched s w s' w' \<and> (\<forall>x. r = Inr x \<longrightarrow> Q x w' (memory s'))"
    by (intro exI [of _ w']) (auto simp: emit_def watch_def intro: watched_deed [where d = "Emitted e"])
qed

lemma upholds_each:
  assumes "\<And>x. x \<in> set xs \<Longrightarrow> upholds P (f x) (\<lambda>_. P)"
  shows "upholds P (each f xs) (\<lambda>_. P)"
  using assms
proof (induction xs)
  case Nil
  show ?case unfolding each.simps by (rule upholds_give)
next
  case (Cons x xs)
  show ?case unfolding each.simps by (rule upholds_after [OF Cons.prems Cons.IH]) (simp_all add: Cons.prems)
qed

lemma upholds_assuming: "(F \<Longrightarrow> upholds P m Q) \<Longrightarrow> upholds (\<lambda>w b. P w b \<and> F) m Q"
  by (auto simp: upholds_def)

lemma upholds_if: "(c \<Longrightarrow> upholds P m Q) \<Longrightarrow> (\<not> c \<Longrightarrow> upholds P n Q) \<Longrightarrow> upholds P (if c then m else n) Q"
  by simp

lemma attempt_Inr: "attempt m s = (Inr (Inr x), s') \<Longrightarrow> m s = (Inr x, s')"
  by (auto simp: attempt_def split: prod.splits sum.splits failure.splits)

lemma upholds_attempt:
  assumes "upholds P m Q"
  shows "upholds P (attempt m) (\<lambda>r w b. \<forall>x. r = Inr x \<longrightarrow> Q x w b)"
proof (rule upholdsI)
  fix s :: "'a session" and w r s'
  assume P: "saved_file s = Some (fst w)" "P w (memory s)" and run: "attempt m s = (r, s')"
  obtain r1 where m: "m s = (r1, s')" using run attempt_session by (metis prod.collapse snd_conv)
  from upholdsE [OF assms P m] obtain w' where w': "watched s w s' w'" "\<And>x. r1 = Inr x \<Longrightarrow> Q x w' (memory s')" by blast
  moreover have "r1 = Inr x" if "r = Inr (Inr x)" for x
    using run that attempt_Inr m by fastforce
  ultimately show "\<exists>w'. watched s w s' w' \<and> (\<forall>y. r = Inr y \<longrightarrow> (\<forall>x. y = Inr x \<longrightarrow> Q x w' (memory s')))" by blast
qed

section \<open>Calm steps\<close>

text \<open>Deeds that the observer accepts in every state, without changing it.\<close>

definition calm :: "deed set" where
  "calm = {Emitted e | e. \<forall>w. watch_event w e = Inr w}"

lemma reads_calm [simp]: "request_deeds reads \<subseteq> calm"
  by (auto simp: calm_def request_deeds_def watch_event_def watch_request_def reads_def)

lemma verified_calm [simp]: "Emitted (StepVerified c st) \<in> calm" "Emitted (PublicationStopped op st') \<in> calm"
  by (simp_all add: calm_def watch_event_def)

lemma calm_watched: "set ds \<subseteq> calm \<Longrightarrow> try_fold watch w ds = Inr w \<and> file_after f ds = f"
proof (induction ds)
  case (Cons d ds)
  then obtain e where "d = Emitted e" "watch_event w e = Inr w" by (auto simp: calm_def simp del: split_paired_All)
  with Cons show ?case by (simp add: watch_def)
qed simp

lemma upholds_calm:
  assumes "\<And>b. does (\<lambda>b'. b' = b) calm m"
    and "\<And>s x s'. m s = (Inr x, s') \<Longrightarrow> F x"
    and "\<And>x w b. P w b \<Longrightarrow> F x \<Longrightarrow> Q x w b"
  shows "upholds P m Q"
proof (rule upholdsI)
  fix s :: "'a session" and w r s'
  assume old: "saved_file s = Some (fst w)" and P: "P w (memory s)" and run: "m s = (r, s')"
  from assms(1) [of "memory s"] run have kept: "memory s' = memory s" and "acts calm s s'"
    by (auto simp: does_def)
  then obtain ds where "deeds s' = deeds s @ ds" "saved_file s' = file_after (saved_file s) ds" "set ds \<subseteq> calm"
    by (auto simp: acts_def)
  with old calm_watched [of ds] have "watched s w s' w" by (auto simp: watched_def)
  moreover have "Q x w (memory s')" if "r = Inr x" for x
    using that P kept run assms(2) [of s x s'] assms(3) [of w "memory s" x] by simp
  ultimately show "\<exists>w'. watched s w s' w' \<and> (\<forall>x. r = Inr x \<longrightarrow> Q x w' (memory s'))" by blast
qed

lemma upholds_reading: "(\<And>b. does (\<lambda>b'. b' = b) calm m) \<Longrightarrow> (\<And>x w b. P w b \<Longrightarrow> Q x w b) \<Longrightarrow> upholds P m Q"
  by (rule upholds_calm [where F = "\<lambda>_. True"]) auto

lemma upholds_verified: "(\<And>w b. P w b \<Longrightarrow> Q () w b) \<Longrightarrow> upholds P (verified c st) Q"
  by (rule upholds_reading) (auto intro: does_verified)

section \<open>Requests and saves\<close>

lemma upholds_request:
  assumes "\<And>w b n. P w b \<Longrightarrow>
     \<exists>w'. watch_request w \<lparr>op_context = c, op_kind = k, op_sequence = n\<rparr> = Inr w' \<and> fst w' = fst w \<and> Q w' b"
  shows "upholds P (request c k f) (\<lambda>_. Q)"
proof -
  have "upholds P (started c k) (\<lambda>_. Q)"
    unfolding started_def Let_def
  proof (rule upholds_after [where R = "\<lambda>_. P"], rule upholds_reading)
    fix n
    let ?op = "\<lparr>op_context = c, op_kind = k, op_sequence = n + 1\<rparr>"
    have "upholds P (put (\<lambda>s. s\<lparr>sequence := n + 1, last_operation := Some ?op\<rparr>)) (\<lambda>_. P)"
      by (rule upholds_quiet) auto
    moreover have "upholds P (emit (RemoteOperationStarted ?op)) (\<lambda>_. Q)"
      using assms by (intro upholds_emit) (simp add: watch_event_def)
    ultimately show "upholds P (if u64_max \<le> n then from_outcome panic
      else after (put (\<lambda>s. s\<lparr>sequence := n + 1, last_operation := Some ?op\<rparr>)) (\<lambda>_. emit (RemoteOperationStarted ?op))) (\<lambda>_. Q)"
      by (intro upholds_if upholds_after) (auto intro: upholds_outcome simp del: pub_simps)
  qed (auto intro: does simp del: pub_simps)
  moreover have "upholds Q (after (contact f) (some_or (Trouble ''gh api request failed''))) (\<lambda>_. Q)"
    by (rule upholds_reading) (intro does)
  ultimately show ?thesis unfolding request_def by (rule upholds_after)
qed

text \<open>The batches that a save accepts.\<close>

definition accepted :: "'g service \<Rightarrow> batch \<Rightarrow> bool" where
  "accepted S b \<longleftrightarrow> batch_check (fingerprint S) b (saved_id b) = Inr ()"

lemma save_cases:
  assumes "save S s = (r, s')"
  shows "saved_file s' = saved_file s \<and> deeds s' = deeds s \<and> (\<exists>e. r = Inl e) \<or>
      accepted S (memory s) \<and> saved_file s' = Some (memory s) \<and> memory s' = memory s \<and>
      deeds s' = deeds s @ [Committed (memory s)]"
proof -
  define c where "c = map_err (map_failure plan_failure) (batch_check (fingerprint S) (memory s) (saved_id (memory s)))"
  have c: "accepted S (memory s)" if "c = Inr u" for u
    using that by (simp add: accepted_def c_def map_err_Inr_iff)
  from assms have "after (from_outcome c) (\<lambda>_. write_file S (memory s)) s = (r, s')"
    by (simp add: save_def check_batch_def c_def)
  then show ?thesis
    using c by (cases c) (auto simp: write_file_def after_def split: prod.splits sum.splits commit_result.splits)
qed

lemma upholds_save:
  assumes "\<And>w b. P w b \<Longrightarrow> advances (fst w) b"
    and "\<And>w b. P w b \<Longrightarrow> accepted S b \<Longrightarrow> Q () (b, announced (fst w) b) b"
  shows "upholds P (save S) Q"
proof (rule upholdsI)
  fix s :: "'a session" and w r s'
  assume old: "saved_file s = Some (fst w)" and P: "P w (memory s)" and run: "save S s = (r, s')"
  let ?w = "(memory s, announced (fst w) (memory s))"
  from assms P have ok: "advances (fst w) (memory s)" "accepted S (memory s) \<Longrightarrow> Q () ?w (memory s)" by blast+
  from save_cases [OF run] show "\<exists>w'. watched s w s' w' \<and> (\<forall>x. r = Inr x \<longrightarrow> Q x w' (memory s'))"
  proof
    assume "saved_file s' = saved_file s \<and> deeds s' = deeds s \<and> (\<exists>e. r = Inl e)"
    with old show ?thesis by (intro exI [of _ w]) (auto intro: watched_refl)
  next
    assume "accepted S (memory s) \<and> saved_file s' = Some (memory s) \<and> memory s' = memory s \<and>
        deeds s' = deeds s @ [Committed (memory s)]"
    with ok show ?thesis
      by (intro exI [of _ ?w]) (auto simp: watch_def intro: watched_deed [where d = "Committed (memory s)"])
  qed
qed

end
