(* ===== verification/Ticket_Theorems.thy ===== *)
theory Ticket_Theorems imports Ticket_Plan begin

text \<open>
  What a checked publication plan is, and what a saved batch promises about the identity of its
  tickets.
\<close>

section \<open>Valid plans\<close>

definition label_ok :: "rstring \<Rightarrow> bool" where
  "label_ok l \<longleftrightarrow> trim l \<noteq> [] \<and> \<not> list_ex is_control l"

definition ticket_ok :: "ticket \<Rightarrow> bool" where
  "ticket_ok t \<longleftrightarrow> trim (ticket_title t) \<noteq> [] \<and> set (ticket_title t) \<inter> {10, 13, 0} = {} \<and>
     trim (ticket_body t) \<noteq> [] \<and> 0 \<notin> set (ticket_body t) \<and> \<not> contains_text reserved_marker (ticket_body t) \<and>
     (\<forall>l \<in> set (ticket_labels t). label_ok l) \<and> distinct (map to_ascii_lowercase (ticket_labels t)) \<and>
     length (filter is_triage_label (ticket_labels t)) \<le> 1"

definition blocks :: "ticket list \<Rightarrow> (ticket_key \<times> ticket_key) set" where
  "blocks ts = {(k, ticket_key t) | k t. t \<in> set ts \<and> BTicket k \<in> set (blockers t)}"

definition plan_ok :: "plan \<Rightarrow> bool" where
  "plan_ok p \<longleftrightarrow> plan_version p = 1 \<and> repository p = lit ''LowkeyLab/bazel-repo'' \<and>
     plan_tickets p \<noteq> [] \<and> length (plan_tickets p) \<le> 100 \<and>
     distinct (map ticket_key (plan_tickets p)) \<and> (\<forall>t \<in> set (plan_tickets p). ticket_ok t) \<and>
     (\<forall>t \<in> set (plan_tickets p). \<forall>k. BTicket k \<in> set (blockers t) \<longrightarrow> k \<in> ticket_key ` set (plan_tickets p)) \<and>
     (\<forall>t \<in> set (plan_tickets p). card (set (blockers t)) \<le> 50) \<and>
     (\<forall>b. length (filter (\<lambda>t. b \<in> set (blockers t)) (plan_tickets p)) \<le> 50) \<and>
     acyclic (blocks (plan_tickets p))"

section \<open>The loops over the tickets\<close>

lemma check_each_Inr: "check_each f xs = Inr u \<longleftrightarrow> (\<forall>x \<in> set xs. f x = Inr ())"
  by (induction xs) (auto simp: check_each_def result_simps)

lemma check_each_no_panic: "(\<And>x. x \<in> set xs \<Longrightarrow> no_panic (f x)) \<Longrightarrow> no_panic (check_each f xs)"
  by (induction xs) (simp_all add: check_each_def)

lemma check_label_Inr:
  "check_label (labels, triage) l = Inr s \<longleftrightarrow> label_ok l \<and> to_ascii_lowercase l \<notin> labels \<and>
     s = (insert (to_ascii_lowercase l) labels, triage + (if is_triage_label l then 1 else 0))"
  by (auto simp: check_label_def label_ok_def result_simps)

lemma check_labels_Inr:
  "try_fold check_label (labels, triage) ls = Inr s \<longleftrightarrow>
     (\<forall>l \<in> set ls. label_ok l) \<and> distinct (map to_ascii_lowercase ls) \<and>
     to_ascii_lowercase ` set ls \<inter> labels = {} \<and>
     s = (to_ascii_lowercase ` set ls \<union> labels, triage + length (filter is_triage_label ls))"
proof (induction ls arbitrary: labels triage)
  case (Cons l ls)
  then show ?case
    by (auto simp: and_then_Inr_iff check_label_Inr simp del: map_eq_conv)
qed auto

lemma check_labels_no_panic: "no_panic (try_fold check_label s ls)"
  by (rule no_panic_try_fold [where I = "\<lambda>_. True"]) (auto simp: check_label_def split: prod.split)

lemma check_ticket_Inr:
  "check_ticket keys t = Inr keys' \<longleftrightarrow> ticket_ok t \<and> ticket_key t \<notin> keys \<and> keys' = insert (ticket_key t) keys"
proof -
  have title: "\<not> list_ex (\<lambda>c. c \<in> {10, 13, 0}) s \<longleftrightarrow> set s \<inter> {10, 13, 0} = {}" for s :: rstring
    unfolding list_ex_iff by blast
  have body: "\<not> list_ex (\<lambda>c. c = 0) s \<longleftrightarrow> 0 \<notin> set s" for s :: rstring
    unfolding list_ex_iff by blast
  show ?thesis
    unfolding check_ticket_def ticket_ok_def title body by (auto simp: result_simps check_labels_Inr)
qed

lemma check_ticket_no_panic: "no_panic (check_ticket keys t)"
  by (auto simp: check_ticket_def check_labels_no_panic split: prod.split)

lemma check_tickets_Inr:
  "try_fold check_ticket keys ts = Inr keys' \<longleftrightarrow> (\<forall>t \<in> set ts. ticket_ok t) \<and> distinct (map ticket_key ts) \<and>
     ticket_key ` set ts \<inter> keys = {} \<and> keys' = ticket_key ` set ts \<union> keys"
proof (induction ts arbitrary: keys)
  case (Cons t ts)
  then show ?case by (auto simp: and_then_Inr_iff check_ticket_Inr)
qed auto

lemma uniques_from:
  "distinct us \<Longrightarrow> distinct (foldl (\<lambda>us x. if x \<in> set us then us else us @ [x]) us xs) \<and>
    set (foldl (\<lambda>us x. if x \<in> set us then us else us @ [x]) us xs) = set us \<union> set xs"
proof (induction xs arbitrary: us)
  case (Cons x xs)
  then show ?case using Cons.IH [of us] Cons.IH [of "us @ [x]"] by auto
qed simp

lemma set_uniques [simp]: "set (uniques xs) = set xs"
  and distinct_uniques: "distinct (uniques xs)"
  using uniques_from [of "[]" xs] by (simp_all add: uniques_def)

lemma length_uniques [simp]: "length (uniques xs) = card (set xs)"
  using distinct_card [OF distinct_uniques, of xs] by simp

lemma check_limits_Inr:
  "check_dependency_limits ts = Inr () \<longleftrightarrow> (\<forall>t \<in> set ts. card (set (blockers t)) \<le> 50) \<and>
     (\<forall>b. length (filter (\<lambda>t. b \<in> set (blockers t)) ts) \<le> 50)"
proof -
  have "check_dependency_limits ts = Inr () \<longleftrightarrow> (\<forall>t \<in> set ts. card (set (blockers t)) \<le> 50 \<and>
      (\<forall>b \<in> set (blockers t). length (filter (\<lambda>t. b \<in> set (blockers t)) ts) \<le> 50))"
    by (simp add: check_dependency_limits_def check_each_Inr result_simps max_dependencies_def)
  moreover have "length (filter (\<lambda>t. b \<in> set (blockers t)) ts) = 0" if "\<forall>t \<in> set ts. b \<notin> set (blockers t)" for b
    using that by simp
  ultimately show ?thesis by (metis le0)
qed

lemma check_limits_no_panic: "no_panic (check_dependency_limits ts)"
  by (simp add: check_dependency_limits_def check_each_no_panic)

section \<open>The order of the tickets\<close>

lemma resolve_pass_sound:
  assumes distinct: "distinct (map ticket_key ts)" and "set us \<subseteq> set ts"
    and "resolved \<subseteq> Wellfounded.acc (blocks ts)"
  shows "resolve_pass us resolved \<subseteq> Wellfounded.acc (blocks ts)"
  using assms(2,3)
proof (induction us arbitrary: resolved)
  case (Cons t us)
  have t: "ticket_key t \<in> Wellfounded.acc (blocks ts)" if "unblocked resolved t"
  proof (rule accI)
    fix k assume "(k, ticket_key t) \<in> blocks ts"
    then obtain u where "u \<in> set ts" "ticket_key u = ticket_key t" "BTicket k \<in> set (blockers u)"
      by (auto simp: blocks_def)
    moreover from this have "u = t" using distinct Cons.prems(1) by (auto simp: distinct_map dest: inj_onD)
    ultimately have "k \<in> resolved" using that by (auto simp: unblocked_def list_all_iff)
    then show "k \<in> Wellfounded.acc (blocks ts)" using Cons.prems(2) by blast
  qed
  have "resolve_pass us (if unblocked resolved t then insert (ticket_key t) resolved else resolved)
    \<subseteq> Wellfounded.acc (blocks ts)"
    by (rule Cons.IH) (use Cons.prems t in auto)
  then show ?case by (simp add: resolve_pass_def)
qed (simp add: resolve_pass_def)

text \<open>A pass that resolves nothing new has seen every unblocked ticket resolved.\<close>

lemma resolve_pass_stable:
  assumes "resolve_pass ts resolved = resolved" "t \<in> set ts" "unblocked resolved t"
  shows "ticket_key t \<in> resolved"
  using assms
proof (induction ts)
  case (Cons u ts)
  let ?r = "if unblocked resolved u then insert (ticket_key u) resolved else resolved"
  have step: "resolve_pass (u # ts) resolved = resolve_pass ts ?r" by (simp add: resolve_pass_def)
  have "?r = resolved" using resolve_pass_mono [of ?r ts] Cons.prems(1) unfolding step by auto
  with Cons step show ?case by (auto split: if_splits)
qed simp

lemma check_order_correct:
  assumes distinct: "distinct (map ticket_key ts)"
    and known: "\<forall>t \<in> set ts. \<forall>k. BTicket k \<in> set (blockers t) \<longrightarrow> k \<in> ticket_key ` set ts"
    and "resolved \<subseteq> ticket_key ` set ts" "resolved \<subseteq> Wellfounded.acc (blocks ts)"
  shows "check_order ts resolved = Inr () \<and> acyclic (blocks ts) \<or>
    check_order ts resolved = err (Message ''dependency cycle'') \<and> \<not> acyclic (blocks ts)"
  using assms
proof (induction ts resolved rule: check_order.induct)
  case (1 ts resolved)
  let ?keys = "ticket_key ` set ts"
  have card: "card ?keys = length ts" using 1(2) by (metis distinct_card length_map list.set_map)
  have fin: "finite resolved" using 1(4) finite_subset by blast
  have finite_blocks: "finite (blocks ts)"
  proof -
    have "blocks ts \<subseteq> ?keys \<times> ?keys" using 1(3) by (auto simp: blocks_def)
    then show ?thesis using finite_subset by blast
  qed
  show ?case
  proof (cases "card resolved < length ts")
    case False
    then have "resolved = ?keys" using card_seteq [OF _ 1(4)] card by simp
    moreover have "k \<in> Wellfounded.acc (blocks ts)" if "k \<notin> ?keys" for k
      by (rule accI) (use that in \<open>auto simp: blocks_def\<close>)
    ultimately have "wf (blocks ts)" using 1(5) by (intro acc_wfI) auto
    then show ?thesis using False wf_acyclic by (simp add: check_order.simps)
  next
    case loop: True
    let ?after = "resolve_pass ts resolved"
    show ?thesis
    proof (cases "card ?after = card resolved")
      case True
      then have stable: "?after = resolved"
        using card_seteq [OF _ resolve_pass_mono [of resolved ts]] fin by simp
      have "\<not> wf (blocks ts)"
      proof
        assume wf: "wf (blocks ts)"
        have "resolved \<noteq> ?keys" using loop card by auto
        then obtain x where "x \<in> ?keys - resolved" using 1(4) by blast
        from wfE_min [OF wf this] obtain m where m: "m \<in> ?keys - resolved"
          "\<And>k. (k, m) \<in> blocks ts \<Longrightarrow> k \<notin> ?keys - resolved" by blast
        then obtain t where t: "t \<in> set ts" "m = ticket_key t" by blast
        have "unblocked resolved t"
          unfolding unblocked_def list_all_iff
        proof
          fix b assume b: "b \<in> set (blockers t)"
          show "case b of BTicket k \<Rightarrow> k \<in> resolved | BIssue _ \<Rightarrow> True"
          proof (cases b)
            case (BTicket k)
            then have "(k, m) \<in> blocks ts" "k \<in> ?keys" using b t 1(3) by (auto simp: blocks_def)
            then show ?thesis using m(2) BTicket by auto
          qed simp
        qed
        then show False using resolve_pass_stable [OF stable t(1)] m(1) t(2) by simp
      qed
      then have "\<not> acyclic (blocks ts)" using finite_acyclic_wf [OF finite_blocks] by blast
      then show ?thesis using loop True by (simp add: check_order.simps)
    next
      case False
      have "check_order ts resolved = check_order ts ?after"
        using loop False by (subst check_order.simps) (simp add: Let_def)
      moreover have "?after \<subseteq> ?keys" using resolve_pass_bound [of ts resolved] 1(4) by blast
      ultimately show ?thesis
        using 1(1) [OF loop refl False 1(2,3)] resolve_pass_sound [OF 1(2) order_refl 1(5)] by simp
    qed
  qed
qed

section \<open>Texts\<close>

lemma contains_text_iff: "contains_text p s \<longleftrightarrow> (\<exists>u v. s = u @ p @ v)"
proof (induction s)
  case (Cons c s)
  have "take (length p) (c # s) = p \<longleftrightarrow> (\<exists>v. c # s = p @ v)"
    by (metis append_eq_conv_conj)
  with Cons show ?case by (auto simp: Cons_eq_append_conv)
qed auto

lemma reserved_marker_text: "reserved_marker \<noteq> []" "hd reserved_marker = 60" "10 \<notin> set reserved_marker" "60 \<notin> set (tl reserved_marker)"
  by (simp_all add: reserved_marker_def)

lemma split_first:
  assumes "x \<notin> set a" "x \<notin> set b"
  shows "a @ x # c = b @ x # d \<longleftrightarrow> a = b \<and> c = d"
  using assms
proof (induction a arbitrary: b)
  case Nil
  then show ?case by (cases b) auto
next
  case (Cons y a)
  then show ?case by (cases b) auto
qed

text \<open>What the marker texts of the crate \<open>uuid\<close> and of valid keys do not contain.\<close>

definition plain_id :: "rstring \<Rightarrow> bool" where
  "plain_id b \<longleftrightarrow> list_all (\<lambda>c. is_ascii_hexdigit c \<or> c = 45) b"

lemma plain_id_chars: "plain_id b \<Longrightarrow> 58 \<notin> set b \<and> 60 \<notin> set b"
  by (auto simp: plain_id_def list_all_iff is_ascii_hexdigit_def is_ascii_digit_def)

lemma ascii_utf8_is_itself: "list_all (\<lambda>c. c < 128) (utf8 k) \<Longrightarrow> utf8 k = k"
proof (induction k)
  case (Cons c k)
  have "c < 128"
  proof (rule ccontr)
    assume "\<not> c < 128"
    then have "utf8_char c \<noteq> []" "128 \<le> hd (utf8_char c)" by simp_all
    moreover have "hd (utf8_char c) \<in> set (utf8 (c # k))"
      using \<open>utf8_char c \<noteq> []\<close> by (simp add: utf8_def del: utf8_char.simps)
    ultimately show False using Cons.prems by (auto simp: list_all_iff simp del: utf8_char.simps)
  qed
  with Cons show ?case by (simp add: utf8_def)
qed (simp add: utf8_def)

lemma key_text:
  assumes "ticket_key_try_from k = Inr k'"
  shows "k' = k" "k \<noteq> []" "length k \<le> 64" "list_all (\<lambda>c. is_ascii_lowercase c \<or> is_ascii_digit c \<or> c = 45) k"
proof -
  from assms have k: "k' = k" "utf8 k \<noteq> []" "length (utf8 k) \<le> 64"
    "list_all (\<lambda>c. is_ascii_lowercase c \<or> is_ascii_digit c \<or> c = 45) (utf8 k)"
    by (auto simp: ticket_key_try_from_def result_simps)
  then have "list_all (\<lambda>c. c < 128) (utf8 k)"
    by (auto simp: list_all_iff is_ascii_lowercase_def is_ascii_digit_def)
  from ascii_utf8_is_itself [OF this] k show "k' = k" "k \<noteq> []" "length k \<le> 64"
    "list_all (\<lambda>c. is_ascii_lowercase c \<or> is_ascii_digit c \<or> c = 45) k" by auto
qed

lemma key_chars:
  assumes "ticket_key_try_from k = Inr k'"
  shows "32 \<notin> set k \<and> 60 \<notin> set k"
  using key_text(4) [OF assms] by (auto simp: list_all_iff is_ascii_lowercase_def is_ascii_digit_def)

text \<open>A text without newlines cannot lie across a break of two of them.\<close>

lemma contains_across:
  assumes "u @ r @ w = body @ [10, 10] @ rest" "10 \<notin> set r" "r \<noteq> []" "\<not> contains_text r body"
  shows "\<exists>u'. u' @ r @ w = rest"
proof -
  from assms(1) have "(\<exists>us. u = body @ us \<and> us @ r @ w = [10, 10] @ rest) \<or>
      (\<exists>us. u @ us = body \<and> r @ w = us @ [10, 10] @ rest)"
    by (subst (asm) append_eq_append_conv2) auto
  then show ?thesis
  proof (elim disjE exE conjE)
    fix us assume us: "us @ r @ w = [10, 10] @ rest"
    obtain x r' where r: "r = x # r'" "x \<noteq> 10" using assms(2,3) by (cases r) auto
    show ?thesis
    proof (cases us)
      case Nil
      then show ?thesis using us r by simp
    next
      case first: (Cons a us1)
      show ?thesis
      proof (cases us1)
        case Nil
        then show ?thesis using us r first by simp
      next
        case (Cons b us2)
        then show ?thesis using us first by auto
      qed
    qed
  next
    fix us assume us: "u @ us = body" "r @ w = us @ [10, 10] @ rest"
    from us(2) have "(\<exists>vs. r = us @ vs \<and> vs @ w = [10, 10] @ rest) \<or> (\<exists>vs. r @ vs = us \<and> w = vs @ [10, 10] @ rest)"
      by (subst (asm) append_eq_append_conv2) auto
    then show ?thesis
    proof (elim disjE exE conjE)
      fix vs assume vs: "r = us @ vs" "vs @ w = [10, 10] @ rest"
      show ?thesis
      proof (cases vs)
        case Nil
        then have "contains_text r body" using us(1) vs(1) unfolding contains_text_iff by (metis append_Nil2)
        then show ?thesis using assms(4) by simp
      next
        case (Cons x vs')
        then show ?thesis using vs assms(2) by simp
      qed
    next
      fix vs assume "r @ vs = us"
      then have "contains_text r body" using us(1) unfolding contains_text_iff by blast
      then show ?thesis using assms(4) by simp
    qed
  qed
qed

text \<open>The body of the issue that publication creates for a ticket.\<close>

definition published_body :: "batch_id \<Rightarrow> ticket \<Rightarrow> rstring" where
  "published_body b t = ticket_body t @ [10, 10] @ ticket_marker b (ticket_key t)"

lemma published_marker:
  assumes body: "\<not> contains_text reserved_marker (ticket_body t)"
    and b: "plain_id b" "plain_id b'"
    and k: "ticket_key_try_from (ticket_key t) = Inr k1" "ticket_key_try_from k' = Inr k2"
  shows "contains_text (ticket_marker b' k') (published_body b t) \<longleftrightarrow> b' = b \<and> k' = ticket_key t"
proof
  let ?k = "ticket_key t" and ?tail = "\<lambda>b k. b @ lit '':'' @ k @ lit '' -->''"
  assume "contains_text (ticket_marker b' k') (published_body b t)"
  then obtain u v where "u @ reserved_marker @ (?tail b' k' @ v) = ticket_body t @ [10, 10] @ ticket_marker b ?k"
    unfolding contains_text_iff published_body_def ticket_marker_def by auto
  from contains_across [OF this reserved_marker_text(3,1) body]
  obtain u' where u': "u' @ reserved_marker @ ?tail b' k' @ v = reserved_marker @ ?tail b ?k"
    unfolding ticket_marker_def by blast
  have chars: "60 \<notin> set (?tail b ?k)" "58 \<notin> set b" "58 \<notin> set b'" "32 \<notin> set ?k" "32 \<notin> set k'"
    using plain_id_chars [OF b(1)] plain_id_chars [OF b(2)] key_chars [OF k(1)] key_chars [OF k(2)] by auto
  obtain r where r: "reserved_marker = 60 # r" "60 \<notin> set r"
    using that [of "tl reserved_marker"] reserved_marker_text by (metis list.collapse)
  have "u' = []"
  proof (rule ccontr)
    assume "u' \<noteq> []"
    then obtain x u2 where x: "u' = x # u2" by (cases u') auto
    from u' have "u2 @ (60 # r) @ ?tail b' k' @ v = r @ ?tail b ?k" unfolding x r(1) by simp
    then have "60 \<in> set (r @ ?tail b ?k)" by (metis append_Cons Un_iff list.set_intros(1) set_append)
    then show False using r(2) chars(1) by simp
  qed
  then have "b' @ 58 # (k' @ lit '' -->'' @ v) = b @ 58 # (?k @ lit '' -->'')" using u' by simp
  then have "b' = b" "k' @ lit '' -->'' @ v = ?k @ lit '' -->''" using split_first chars(2,3) by metis+
  then have "k' @ 32 # (lit ''-->'' @ v) = ?k @ 32 # lit ''-->''" by simp
  then have "k' = ?k" using split_first chars(4,5) by metis
  with \<open>b' = b\<close> show "b' = b \<and> k' = ?k" by simp
next
  assume "b' = b \<and> k' = ticket_key t"
  then show "contains_text (ticket_marker b' k') (published_body b t)"
    unfolding contains_text_iff published_body_def by (metis append_Nil2 append_assoc)
qed

section \<open>Batches\<close>

lemma plan_check_result:
  "plan_check p = Inr () \<and> plan_ok p \<or> (\<exists>e. plan_check p = err e) \<and> \<not> plan_ok p"
proof -
  let ?ts = "plan_tickets p" and ?keys = "ticket_key ` set (plan_tickets p)"
  define blockers_ok where "blockers_ok \<longleftrightarrow>
    (\<forall>t \<in> set ?ts. \<forall>k. BTicket k \<in> set (blockers t) \<longrightarrow> k \<in> ?keys)"
  have blockers: "check_each (check_blockers ?keys) ?ts = Inr () \<longleftrightarrow> blockers_ok"
    by (force simp: blockers_ok_def check_each_Inr check_blockers_def result_simps split: blocker.splits)
  have "no_panic (check_blockers keys t)" for keys t
    by (auto simp: check_blockers_def intro!: check_each_no_panic split: blocker.split)
  then have quiet: "no_panic (check_each (check_blockers keys) ?ts)" for keys
    by (simp add: check_each_no_panic)
  have tickets_quiet: "no_panic (try_fold check_ticket {} ?ts)"
    by (rule no_panic_try_fold [where I = "\<lambda>_. True"]) (simp_all add: check_ticket_no_panic)
  note tickets = check_tickets_Inr [of "{}" ?ts]
  define front where "front \<longleftrightarrow> plan_version p = 1 \<and> repository p = lit ''LowkeyLab/bazel-repo'' \<and> ?ts \<noteq> [] \<and>
    length ?ts \<le> 100 \<and> (\<forall>t \<in> set ?ts. ticket_ok t) \<and> distinct (map ticket_key ?ts) \<and> blockers_ok \<and>
    check_dependency_limits ?ts = Inr ()"
  have ok: "plan_ok p \<longleftrightarrow> front \<and> acyclic (blocks ?ts)"
    unfolding plan_ok_def front_def check_limits_Inr blockers_ok_def by blast
  show ?thesis
  proof (cases front)
    case True
    then have "try_fold check_ticket {} ?ts = Inr ?keys" using tickets [of ?keys] by (simp add: front_def)
    then have "plan_check p = check_order ?ts {}"
      using True blockers by (simp add: plan_check_def front_def max_sub_issues_def)
    moreover have "check_order ?ts {} = Inr () \<and> acyclic (blocks ?ts) \<or>
      check_order ?ts {} = err (Message ''dependency cycle'') \<and> \<not> acyclic (blocks ?ts)"
      by (rule check_order_correct) (use True in \<open>auto simp: front_def blockers_ok_def\<close>)
    ultimately show ?thesis using True ok by auto
  next
    case False
    have "plan_check p \<noteq> Inr ()"
      using False tickets blockers by (auto simp: plan_check_def front_def result_simps max_sub_issues_def)
    moreover have "no_panic (check_order ?ts {})" if "distinct (map ticket_key ?ts)" "blockers_ok"
      using check_order_correct [OF that(1), of "{}"] that(2) by (auto simp: blockers_ok_def)
    then have "no_panic (plan_check p)"
      using tickets_quiet quiet check_limits_no_panic tickets blockers by (auto simp: plan_check_def)
    ultimately show ?thesis using False ok by (auto elim: no_panic_cases)
  qed
qed

lemma plan_check_Inr: "plan_check p = Inr () \<longleftrightarrow> plan_ok p"
  using plan_check_result [of p] by auto

definition progress_for :: "batch_id \<Rightarrow> ticket \<Rightarrow> progress" where
  "progress_for b t = \<lparr>progress_key = ticket_key t, marker = ticket_marker b (ticket_key t), progress_status = Pending\<rparr>"

lemma batch_prepare_Inr:
  "batch_prepare fp b p = Inr s \<longleftrightarrow> plan_ok p \<and> (\<exists>f. fp p = Some f \<and>
     s = \<lparr>batch_version = 1, saved_id = b, plan_fingerprint = f, saved_plan = p,
       saved_tickets = map (progress_for b) (plan_tickets p),
       saved_graph = \<lparr>parent_links = 0, dependency_links = 0, graph_verified = False\<rparr>,
       saved_labels = \<lparr>labels_checked = False, labels_tickets = [], labels_verified = False\<rparr>\<rparr>)"
  by (auto simp: batch_prepare_def plan_check_Inr result_simps progress_for_def Let_def)

definition created :: "progress list \<Rightarrow> issue_mapping list" where
  "created ps = concat (map (\<lambda>p. case progress_status p of Created m \<Rightarrow> [m] | _ \<Rightarrow> []) ps)"

lemma created_simps:
  "created [] = []"
  "created (p # ps) = (case progress_status p of Created m \<Rightarrow> m # created ps | _ \<Rightarrow> created ps)"
  by (auto simp: created_def split: ticket_status.split)

text \<open>Mappings that share no number, no ID and no node ID.\<close>

definition distinct_mappings :: "issue_mapping list \<Rightarrow> bool" where
  "distinct_mappings ms \<longleftrightarrow> distinct (map mapping_number ms) \<and> distinct (map mapping_id ms) \<and> distinct (map mapping_node ms)"

lemma check_mappings_Inr:
  "distinct_mappings ms \<Longrightarrow> (\<exists>ms'. try_fold (check_mapping parent_number) ms ps = Inr ms') \<longleftrightarrow>
     distinct_mappings (ms @ created ps) \<and> parent_number \<notin> mapping_number ` set (created ps)"
proof (induction ps arbitrary: ms)
  case (Cons p ps)
  show ?case
  proof (cases "progress_status p")
    case (Created m)
    show ?thesis
    proof (cases "mapping_number m \<noteq> parent_number \<and> distinct_mappings (ms @ [m])")
      case True
      then have "\<not> list_ex (\<lambda>x. mapping_number x = mapping_number m \<or> mapping_id x = mapping_id m \<or>
          mapping_node x = mapping_node m) ms"
        by (auto simp: distinct_mappings_def list_ex_iff image_iff)
      then have "check_mapping parent_number ms p = Inr (ms @ [m])"
        using Created True by (simp add: check_mapping_def)
      then show ?thesis using Cons.IH [of "ms @ [m]"] True Created by (auto simp: created_simps)
    next
      case False
      then have "\<not> (\<exists>ms'. check_mapping parent_number ms p = Inr ms')"
        using Created Cons.prems by (auto simp: check_mapping_def distinct_mappings_def list_ex_iff result_simps)
      moreover have "\<not> (distinct_mappings (ms @ m # created ps) \<and> parent_number \<noteq> mapping_number m)"
        using False by (auto simp: distinct_mappings_def)
      ultimately show ?thesis using Created by (auto simp: created_simps result_simps)
    qed
  qed (use Cons in \<open>simp_all add: check_mapping_def created_simps\<close>)
qed (simp add: created_simps)

lemma saved_identities:
  "length (map (progress_for b) ts) = length ps \<and>
     list_all (\<lambda>(e, s). progress_key e = progress_key s \<and> marker e = marker s) (zip (map (progress_for b) ts) ps) \<longleftrightarrow>
   map progress_key ps = map ticket_key ts \<and> map marker ps = map (\<lambda>t. ticket_marker b (ticket_key t)) ts"
proof (induction ts arbitrary: ps)
  case (Cons t ts)
  then show ?case by (cases ps) (auto simp: progress_for_def)
qed auto

lemma batch_check_Inr:
  "batch_check fp s expected = Inr () \<longleftrightarrow> batch_version s = 1 \<and> saved_id s = expected \<and> plan_ok (saved_plan s) \<and>
     fp (saved_plan s) = Some (plan_fingerprint s) \<and>
     map progress_key (saved_tickets s) = map ticket_key (plan_tickets (saved_plan s)) \<and>
     map marker (saved_tickets s) = map (\<lambda>t. ticket_marker expected (ticket_key t)) (plan_tickets (saved_plan s)) \<and>
     distinct_mappings (created (saved_tickets s)) \<and>
     parent (saved_plan s) \<notin> mapping_number ` set (created (saved_tickets s))"
proof -
  have mappings: "(\<exists>ms. try_fold (check_mapping (parent (saved_plan s))) [] (saved_tickets s) = Inr ms) \<longleftrightarrow>
      distinct_mappings (created (saved_tickets s)) \<and> parent (saved_plan s) \<notin> mapping_number ` set (created (saved_tickets s))"
    using check_mappings_Inr [of "[]"] by (simp add: distinct_mappings_def)
  show ?thesis
    unfolding batch_check_def and_then_Inr_iff ensure_Inr_iff batch_prepare_Inr
    using saved_identities [of expected "plan_tickets (saved_plan s)" "saved_tickets s"] mappings by auto
qed

section \<open>Properties\<close>

definition sample_ticket :: "string \<Rightarrow> blocker list \<Rightarrow> ticket" where
  "sample_ticket k bs = \<lparr>ticket_key = lit k, ticket_title = lit ''Title'', ticket_body = lit ''Body'',
     ticket_labels = [lit ''needs-info''], blockers = bs\<rparr>"

definition sample_plan :: plan where
  "sample_plan = \<lparr>plan_version = 1, repository = lit ''LowkeyLab/bazel-repo'', parent = 7,
     plan_tickets = [sample_ticket ''second'' [BTicket (lit ''first''), BIssue 3], sample_ticket ''first'' []]\<rparr>"

text \<open>C38: The check of a publication plan never panics, always ends, and accepts exactly the valid plans:
  known and distinct keys, printable titles and bodies without a marker, labels without repetition
  or conflict, at most fifty blockers of a ticket and fifty tickets behind a blocker, and no cycle
  among the tickets.\<close>
theorem tickets_plan_check_decides:
  "no_panic (plan_check p) \<and> (plan_check p = Inr () \<longleftrightarrow> plan_ok p)"
  using plan_check_result [of p] by auto

text \<open>The markers of a checked plan identify its tickets: the text published for a ticket contains
  the marker of that ticket in its batch, and of no other ticket and no other batch.\<close>
theorem tickets_markers_identify:
  assumes "plan_check p = Inr ()" "t \<in> set (plan_tickets p)"
    and "plain_id b" "plain_id b'"
    and "ticket_key_try_from (ticket_key t) = Inr k" "ticket_key_try_from k' = Inr k''"
  shows "contains_text (ticket_marker b' k') (published_body b t) \<longleftrightarrow> b' = b \<and> k' = ticket_key t"
proof (rule published_marker [OF _ assms(3-6)])
  show "\<not> contains_text reserved_marker (ticket_body t)"
    using assms(1,2) by (simp add: plan_check_Inr plan_ok_def ticket_ok_def)
qed

lemma sample_plan_checks: "plan_check sample_plan = Inr ()"
  by (simp add: plan_check_def sample_plan_def sample_ticket_def max_sub_issues_def check_ticket_def trim_def
      is_whitespace_def reserved_marker_def check_label_def is_control_def to_ascii_lowercase_def is_triage_label_def
      check_each_def check_blockers_def check_dependency_limits_def uniques_def max_dependencies_def
      check_order.simps resolve_pass_def unblocked_def Let_def card_insert_if)

theorem tickets_markers_identify_witness:
  "\<not> contains_text (ticket_marker (lit ''1f-0'') (lit ''second'')) (published_body (lit ''1f-0'') (sample_ticket ''first'' []))"
proof -
  have key: "ticket_key_try_from (ticket_key (sample_ticket ''first'' [])) = Inr (lit ''first'')"
    "ticket_key_try_from (lit ''second'') = Inr (lit ''second'')"
    by (simp_all add: sample_ticket_def ticket_key_try_from_def utf8_def is_ascii_lowercase_def is_ascii_digit_def)
  have "plain_id (lit ''1f-0'')" by (simp add: plain_id_def is_ascii_hexdigit_def is_ascii_digit_def)
  moreover have "sample_ticket ''first'' [] \<in> set (plan_tickets sample_plan)" by (simp add: sample_plan_def)
  ultimately show ?thesis
    using tickets_markers_identify [OF sample_plan_checks _ _ _ key] by (simp add: sample_ticket_def)
qed

text \<open>A saved batch is accepted exactly when its plan is valid and has the saved fingerprint, its
  tickets are those of the plan, in order and with their markers, and the recorded issues are
  pairwise different and not the parent; in particular a prepared batch is accepted under its own
  identity.\<close>
theorem tickets_batch_check_decides:
  "(batch_check fp s expected = Inr () \<longleftrightarrow> batch_version s = 1 \<and> saved_id s = expected \<and> plan_ok (saved_plan s) \<and>
     fp (saved_plan s) = Some (plan_fingerprint s) \<and>
     map progress_key (saved_tickets s) = map ticket_key (plan_tickets (saved_plan s)) \<and>
     map marker (saved_tickets s) = map (\<lambda>t. ticket_marker expected (ticket_key t)) (plan_tickets (saved_plan s)) \<and>
     distinct_mappings (created (saved_tickets s)) \<and>
     parent (saved_plan s) \<notin> mapping_number ` set (created (saved_tickets s))) \<and>
   (batch_prepare fp b p = Inr r \<longrightarrow> batch_check fp r b = Inr ())"
proof -
  have "batch_check fp r b = Inr ()" if "batch_prepare fp b p = Inr r"
  proof -
    have none: "created (map (progress_for b) ts) = []" for ts
      by (induction ts) (simp_all add: created_simps progress_for_def)
    have "map progress_key (map (progress_for b) ts) = map ticket_key ts"
      "map marker (map (progress_for b) ts) = map (\<lambda>t. ticket_marker b (ticket_key t)) ts" for ts
      by (simp_all add: progress_for_def)
    with that none show ?thesis unfolding batch_prepare_Inr batch_check_Inr by (auto simp: distinct_mappings_def)
  qed
  then show ?thesis using batch_check_Inr by blast
qed

theorem tickets_batch_check_decides_witness:
  "\<exists>r. batch_prepare (\<lambda>_. Some []) (lit ''1f-0'') sample_plan = Inr r \<and> batch_check (\<lambda>_. Some []) r (lit ''1f-0'') = Inr ()"
proof -
  obtain r where r: "batch_prepare (\<lambda>_. Some []) (lit ''1f-0'') sample_plan = Inr r"
    using sample_plan_checks by (simp add: batch_prepare_def)
  with tickets_batch_check_decides [where fp = "\<lambda>_. Some []" and b = "lit ''1f-0''" and p = sample_plan and r = r]
  show ?thesis by blast
qed

end
