(* ===== verification/Ticket_Promise.thy ===== *)
theory Ticket_Promise imports Ticket_Watch Ticket_Theorems begin

text \<open>
  Publication keeps the promise: the creation loop, the links, the labels and the whole attempt,
  each with the state of the file that it starts from and the one that it leaves.
\<close>

section \<open>The file and the batch in memory\<close>

text \<open>They differ at most in what was observed of links and labels.\<close>

definition agrees :: "batch \<Rightarrow> batch \<Rightarrow> bool" where
  "agrees f b \<longleftrightarrow> same_batch f b \<and> saved_tickets f = saved_tickets b"

definition keyed :: "batch \<Rightarrow> bool" where
  "keyed b \<longleftrightarrow> map progress_key (saved_tickets b) = map ticket_key (plan_tickets (saved_plan b)) \<and>
     distinct (map progress_key (saved_tickets b))"

lemma agrees_advances: "agrees f b \<Longrightarrow> advances f b"
  by (simp add: agrees_def advances_def list_all2_refl)

lemma agrees_refl [simp]: "agrees b b"
  by (simp add: agrees_def)

lemma agrees_update [simp]:
  "agrees f (b\<lparr>saved_graph := g\<rparr>) \<longleftrightarrow> agrees f b" "agrees f (b\<lparr>saved_labels := l\<rparr>) \<longleftrightarrow> agrees f b"
  by (simp_all add: agrees_def same_batch_def)

lemma keyed_update [simp]:
  "keyed (b\<lparr>saved_graph := g\<rparr>) \<longleftrightarrow> keyed b" "keyed (b\<lparr>saved_labels := l\<rparr>) \<longleftrightarrow> keyed b"
  by (simp_all add: keyed_def)

lemma all_created_update [simp]:
  "all_created (b\<lparr>saved_graph := g\<rparr>) \<longleftrightarrow> all_created b" "all_created (b\<lparr>saved_labels := l\<rparr>) \<longleftrightarrow> all_created b"
  by (simp_all add: all_created_def)

lemma agrees_all_created: "agrees f b \<Longrightarrow> all_created f \<longleftrightarrow> all_created b"
  by (simp add: agrees_def all_created_def)

lemma set_status_same [simp]: "same_batch f (set_status i st b) \<longleftrightarrow> same_batch f b"
  by (simp add: set_status_def same_batch_def)

lemma set_status_plan [simp]: "saved_plan (set_status i st b) = saved_plan b"
  by (simp add: set_status_def)

lemma keys_set_status: "map progress_key (saved_tickets (set_status i st b)) = map progress_key (saved_tickets b)"
proof (cases "i < length (saved_tickets b)")
  case True
  then show ?thesis by (simp add: map_update list_update_same_conv)
qed (simp add: list_update_beyond)

lemma keyed_set_status [simp]: "keyed (set_status i st b) \<longleftrightarrow> keyed b"
  by (simp add: keyed_def keys_set_status del: set_status_tickets)

lemma advances_set_status:
  assumes "agrees f b" "i < length (saved_tickets b)" "status_step (progress_status (saved_tickets b ! i)) st"
  shows "advances f (set_status i st b)"
  using assms
  by (auto simp: agrees_def advances_def list_all2_conv_all_nth nth_list_update ticket_step_def)

lemma announced_set_status:
  assumes "agrees f b" "i < length (saved_tickets b)" "permits_creation (progress_status (saved_tickets b ! i))"
  shows "progress_key (saved_tickets b ! i) \<in> announced f (set_status i Creating b)"
proof -
  let ?q = "(saved_tickets b ! i)\<lparr>progress_status := Creating\<rparr>"
  have "(saved_tickets b ! i, ?q) \<in> set (zip (saved_tickets f) (saved_tickets (set_status i Creating b)))"
    using assms(1,2) by (auto simp: agrees_def in_set_zip intro!: exI [of _ i])
  with assms(3) show ?thesis by (force simp: announced_def)
qed

text \<open>Announcing a ticket does not change which tickets are created.\<close>

lemma created_list_ex:
  assumes "i < length xs" "\<not> is_created (xs ! i)"
  shows "list_ex (\<lambda>p. progress_key p = k \<and> is_created p) (xs[i := (xs ! i)\<lparr>progress_status := Creating\<rparr>]) \<longleftrightarrow>
    list_ex (\<lambda>p. progress_key p = k \<and> is_created p) xs"
proof -
  have "xs[i := (xs ! i)\<lparr>progress_status := Creating\<rparr>] ! j = xs ! j \<or>
      \<not> is_created (xs[i := (xs ! i)\<lparr>progress_status := Creating\<rparr>] ! j) \<and> \<not> is_created (xs ! j)" if "j < length xs" for j
    using that assms by (cases "j = i") simp_all
  then show ?thesis unfolding list_ex_length by (metis length_list_update)
qed

lemma blockers_created_set_status:
  assumes "i < length (saved_tickets b)" "\<not> is_created (saved_tickets b ! i)"
  shows "blockers_created (set_status i Creating b) t \<longleftrightarrow> blockers_created b t"
  unfolding blockers_created_def by (simp add: created_list_ex [OF assms])

section \<open>Creation\<close>

text \<open>What the loop has established of the ticket it works on.\<close>

definition chosen :: "batch \<Rightarrow> nat \<Rightarrow> ticket \<Rightarrow> bool" where
  "chosen b i t \<longleftrightarrow> keyed b \<and> i < length (saved_tickets b) \<and> \<not> is_created (saved_tickets b ! i) \<and>
     i < length (plan_tickets (saved_plan b)) \<and> t = plan_tickets (saved_plan b) ! i \<and> blockers_created b t"

lemma next_ticket_chosen:
  assumes "next_ticket b = Inr (Some (i, t))" "keyed b"
  shows "chosen b i t"
proof -
  have "ready b (i, t) = Inr True" using first_ready_Some assms(1) unfolding next_ticket_def by blast
  then have "blockers_created b t" by (auto simp: ready_def blockers_created_def result_simps)
  with next_ticket_Some [OF assms(1)] assms(2) show ?thesis by (simp add: chosen_def)
qed

lemma chosen_keys:
  assumes "chosen b i t"
  shows "ticket_key t = progress_key (saved_tickets b ! i)"
    and "u \<in> set (plan_tickets (saved_plan b)) \<Longrightarrow> ticket_key u = ticket_key t \<Longrightarrow> u = t"
proof -
  from assms have keys: "map progress_key (saved_tickets b) = map ticket_key (plan_tickets (saved_plan b))"
    "distinct (map ticket_key (plan_tickets (saved_plan b)))" "i < length (plan_tickets (saved_plan b))"
    and t: "t = plan_tickets (saved_plan b) ! i" "i < length (saved_tickets b)"
    by (auto simp: chosen_def keyed_def)
  then show "ticket_key t = progress_key (saved_tickets b ! i)" by (metis nth_map)
  show "u \<in> set (plan_tickets (saved_plan b)) \<Longrightarrow> ticket_key u = ticket_key t \<Longrightarrow> u = t"
    using keys t by (metis distinct_map inj_onD nth_mem)
qed

text \<open>The announcement and the request of a ticket that may be created.\<close>

lemma upholds_intend:
  assumes b0: "chosen b0 i t" "permits_creation (progress_status (saved_tickets b0 ! i))"
    and c: "ctx_subjects c = [TicketSubject (progress_key (saved_tickets b0 ! i))]"
  shows "upholds (\<lambda>w b. agrees (fst w) b \<and> b = b0) (intend_and_create S c i title body)
    (\<lambda>_ w b. agrees (fst w) b \<and> b = set_status i Creating b0)"
proof -
  let ?k = "progress_key (saved_tickets b0 ! i)" and ?b = "set_status i Creating b0"
  from b0 have i: "i < length (saved_tickets b0)" "\<not> is_created (saved_tickets b0 ! i)" by (simp_all add: chosen_def)
  have step: "status_step (progress_status (saved_tickets b0 ! i)) Creating"
    using b0(2) by (cases "progress_status (saved_tickets b0 ! i)") auto
  have allowed: "list_all (\<lambda>u. ticket_key u = ?k \<longrightarrow> blockers_created ?b u) (plan_tickets (saved_plan ?b))"
    using chosen_keys [OF b0(1)] b0(1) blockers_created_set_status [OF i]
    by (auto simp: list_all_iff chosen_def)
  show ?thesis
    unfolding intend_and_create_def
  proof (rule upholds_after [where R = "\<lambda>_ w b. agrees (fst w) b0 \<and> b = ?b"],
      rule upholds_change, simp, rule upholds_after)
    show "upholds (\<lambda>w b. agrees (fst w) b0 \<and> b = ?b) (save S)
        (\<lambda>_ w b. fst w = b \<and> ?k \<in> snd w \<and> b = ?b)"
      by (rule upholds_save) (auto intro: advances_set_status announced_set_status i step b0(2))
    have "upholds (\<lambda>w b. fst w = b \<and> ?k \<in> snd w \<and> b = ?b) (request c CreateIssue (post_issue S title body))
        (\<lambda>_ w b. agrees (fst w) b \<and> b = ?b)"
      by (rule upholds_request) (use allowed c in \<open>auto simp: watch_request_def creation_of_def watch_creation_def\<close>)
    moreover have "upholds (\<lambda>w b. agrees (fst w) b \<and> b = ?b)
        (after (decode_issue ''invalid issue'' (Some answer)) (\<lambda>i. after (check_content title body i) (\<lambda>_. give i)))
        (\<lambda>_ w b. agrees (fst w) b \<and> b = ?b)" for answer
      by (rule upholds_reading) (intro does, simp)
    ultimately show "upholds (\<lambda>w b. fst w = b \<and> ?k \<in> snd w \<and> b = ?b) (create_issue S c title body)
        (\<lambda>_ w b. agrees (fst w) b \<and> b = ?b)"
      unfolding create_issue_def by (rule upholds_after)
  qed
qed

lemma upholds_created_issue:
  assumes b0: "chosen b0 i t"
    and c: "ctx_subjects c = [TicketSubject (progress_key (saved_tickets b0 ! i))]"
  shows "upholds (\<lambda>w b. agrees (fst w) b \<and> b = b0) (created_issue S c observed i (saved_tickets b0 ! i) title body)
    (\<lambda>_ w b. agrees (fst w) b \<and> (b = b0 \<or> b = set_status i Creating b0))"
    (is "upholds ?P _ ?Q")
proof -
  let ?p = "saved_tickets b0 ! i"
  have intend: "upholds ?P (intend_and_create S c i title body) ?Q" if "permits_creation (progress_status ?p)"
    by (rule upholds_conseq [OF upholds_intend [OF b0 that c]]) auto
  have resume: "upholds ?P (resume_creation S c i ?p title body found) ?Q" for found
  proof (cases found)
    case Nil
    then show ?thesis
      using intend by (auto simp: resume_creation_def intro!: upholds_if upholds_stop simp del: pub_simps)
  next
    case (Cons r rs)
    then show ?thesis
      by (auto simp: resume_creation_def intro!: upholds_if upholds_stop upholds_give simp del: pub_simps)
  qed
  have pending: "permits_creation (progress_status ?p)" if "progress_status ?p \<notin> {Creating, RetryAuthorized}"
    using that b0 by (cases "progress_status ?p") (auto simp: chosen_def is_created_def)
  have taken: "upholds ?P (case known of
       Some m \<Rightarrow> after (read_issue S c (mapping_number m)) (\<lambda>r.
         after (require (issue_mapping_of r = m) Conflict) (\<lambda>_. give r))
     | None \<Rightarrow> if progress_status ?p \<in> {Creating, RetryAuthorized} then
           after (find_marked S c (marker ?p)) (resume_creation S c i ?p title body)
         else intend_and_create S c i title body) ?Q" for known
  proof (cases known)
    case None
    have "upholds ?P (find_marked S c (marker ?p)) (\<lambda>_. ?P)"
      by (rule upholds_reading) (intro does, simp_all)
    from upholds_after [OF this resume]
    have "upholds ?P (after (find_marked S c (marker ?p)) (resume_creation S c i ?p title body)) ?Q" .
    with None pending intend show ?thesis by (auto simp del: pub_simps)
  next
    case (Some m)
    then show ?thesis by (simp only: option.case, intro upholds_reading) (intro does, simp_all)
  qed
  show ?thesis
    unfolding created_issue_def
    by (rule upholds_after [where R = "\<lambda>_. ?P"], rule upholds_outcome, assumption, rule taken)
qed

definition settled :: "watch_state \<Rightarrow> batch \<Rightarrow> bool" where
  "settled w b \<longleftrightarrow> agrees (fst w) b \<and> keyed b"

lemma context_ticket_subjects:
  "context_ticket ph b i = Inr c \<Longrightarrow> \<not> is_created (saved_tickets b ! i) \<Longrightarrow>
     ctx_subjects c = [TicketSubject (progress_key (saved_tickets b ! i))]"
  by (auto simp: context_ticket_def is_created_def result_simps split: ticket_status.splits)

lemma scope_subjects [simp]: "ctx_subjects (scope c c') = ctx_subjects c'"
  by (simp add: scope_def)

lemma save_created_cases:
  assumes "save_created S i s = (r, s')"
  obtains r1 s1 where "save S s = (r1, s1)" "saved_file s' = saved_file s1" "deeds s' = deeds s1"
    "\<And>x. r = Inr x \<Longrightarrow> r1 = Inr x \<and> s' = s1"
proof -
  obtain r1 s1 where save: "save S s = (r1, s1)" by fastforce
  have "saved_file s' = saved_file s1 \<and> deeds s' = deeds s1 \<and> (\<forall>x. r = Inr x \<longrightarrow> r1 = Inr x \<and> s' = s1)"
    using assms save unfolding save_created_def by (cases r1) (auto split: failure.splits)
  with save that show thesis by blast
qed

lemma upholds_save_created:
  assumes "upholds P (save S) Q"
  shows "upholds P (save_created S i) Q"
proof (rule upholdsI)
  fix s :: "'a session" and w r s'
  assume P: "saved_file s = Some (fst w)" "P w (memory s)" and "save_created S i s = (r, s')"
  then obtain r1 s1 where 1: "save S s = (r1, s1)" "saved_file s' = saved_file s1" "deeds s' = deeds s1"
    "\<And>x. r = Inr x \<Longrightarrow> r1 = Inr x \<and> s' = s1" by (auto elim: save_created_cases)
  from upholdsE [OF assms P 1(1)] obtain w' where "watched s w s1 w'" "\<And>x. r1 = Inr x \<Longrightarrow> Q x w' (memory s1)" by blast
  with 1 show "\<exists>w'. watched s w s' w' \<and> (\<forall>x. r = Inr x \<longrightarrow> Q x w' (memory s'))"
    by (intro exI [of _ w']) (auto simp: watched_def)
qed

text \<open>The tail of a pass: the issue is read again, and recorded.\<close>

lemma upholds_record:
  assumes b0: "chosen b0 i t"
  shows "upholds (\<lambda>w b. agrees (fst w) b \<and> (b = b0 \<or> b = set_status i Creating b0))
     (record_ticket S c i title body new_issue) (\<lambda>_. settled)"
    (is "upholds ?P _ _")
proof -
  have i: "i < length (saved_tickets b0)" "\<not> is_created (saved_tickets b0 ! i)" "keyed b0"
    using b0 by (simp_all add: chosen_def)
  have step: "status_step (progress_status (saved_tickets b0 ! i)) (Created m)" "status_step Creating (Created m)" for m
    using i(2) by (cases "progress_status (saved_tickets b0 ! i)"; simp add: is_created_def)+
  define made where "made w b \<longleftrightarrow> keyed b \<and> advances (fst w) b" for w :: watch_state and b
  show ?thesis
    unfolding record_ticket_def
  proof (rule upholds_after [where R = "\<lambda>_. ?P"], rule upholds_reading)
    fix checked
    show "upholds ?P (after (as_conflict (check_content title body checked)) (\<lambda>_.
      after (require (issue_mapping_of new_issue = issue_mapping_of checked) Conflict) (\<lambda>_.
      after (change_memory (set_status i (Created (issue_mapping_of checked)))) (\<lambda>_.
      after (save_created S i) (\<lambda>_.
      after (get memory) (\<lambda>b.
      after (from_outcome (context_ticket Creation b i)) (\<lambda>context.
      verified (scope c context) IssueStep))))))) (\<lambda>_. settled)"
    proof (rule upholds_after [where R = "\<lambda>_. ?P"], rule upholds_reading)
      have same: "upholds ?P (require (issue_mapping_of new_issue = issue_mapping_of checked) Conflict) (\<lambda>_. ?P)"
        by (rule upholds_require)
      have change: "upholds ?P (change_memory (set_status i (Created (issue_mapping_of checked)))) (\<lambda>_. made)"
        by (rule upholds_change) (use i step in \<open>auto simp: made_def intro: advances_set_status
            intro!: advances_set_status [where b = "set_status i Creating b0", simplified i(1) set_status_twice]\<close>)
      have save: "upholds made (save_created S i) (\<lambda>_. settled)"
        by (rule upholds_save_created, rule upholds_save) (auto simp: made_def settled_def)
      have report: "upholds settled (after (get memory) (\<lambda>b. after (from_outcome (context_ticket Creation b i))
          (\<lambda>context. verified (scope c context) IssueStep))) (\<lambda>_. settled)"
        by (rule upholds_reading) (intro does does_verified, simp_all)
      show "upholds ?P (after (require (issue_mapping_of new_issue = issue_mapping_of checked) Conflict) (\<lambda>_.
          after (change_memory (set_status i (Created (issue_mapping_of checked)))) (\<lambda>_.
          after (save_created S i) (\<lambda>_.
          after (get memory) (\<lambda>b.
          after (from_outcome (context_ticket Creation b i)) (\<lambda>context.
          verified (scope c context) IssueStep)))))) (\<lambda>_. settled)"
        by (rule upholds_after [OF same upholds_after [OF change upholds_after [OF save report]]])
    qed (intro does, simp_all)
  qed (intro does, simp_all)
qed

lemma upholds_create_ticket:
  "upholds (\<lambda>w b. settled w b \<and> next_ticket b = Inr (Some it)) (create_ticket S c observed it) (\<lambda>_. settled)"
proof -
  obtain i t where it: "it = (i, t)" by fastforce
  show ?thesis
    unfolding it create_ticket_def prod.case
  proof (rule upholds_memory)
    fix b0
    let ?A = "\<lambda>w b. agrees (fst w) b \<and> b = b0"
    let ?c = "\<lambda>ctx. context_ticket Creation b0 i = (Inr ctx :: (pub_error, progress_context) outcome)"
    let ?m = "\<lambda>ctx p. after (created_issue S (scope c ctx) observed i p (ticket_title t) (published_text t p))
         (record_ticket S (scope c ctx) i (ticket_title t) (published_text t p))"
    show "upholds (\<lambda>w b. (settled w b \<and> next_ticket b = Inr (Some (i, t))) \<and> b = b0)
       (after (from_outcome (context_ticket Creation b0 i)) (\<lambda>ctx.
        after (from_outcome (index (saved_tickets b0) i)) (?m ctx))) (\<lambda>_. settled)"
    proof (rule upholds_after [where R = "\<lambda>ctx w b. ?A w b \<and> chosen b0 i t \<and> ?c ctx"])
      fix ctx
      show "upholds (\<lambda>w b. ?A w b \<and> chosen b0 i t \<and> ?c ctx)
        (after (from_outcome (index (saved_tickets b0) i)) (?m ctx)) (\<lambda>_. settled)"
      proof (rule upholds_after [where R = "\<lambda>p w b. ?A w b \<and> chosen b0 i t \<and> ?c ctx \<and>
            p = saved_tickets b0 ! i"])
        fix p
        show "upholds (\<lambda>w b. ?A w b \<and> chosen b0 i t \<and> ?c ctx \<and>
            p = saved_tickets b0 ! i) (?m ctx p) (\<lambda>_. settled)"
        proof (rule upholds_assuming)
          assume "chosen b0 i t \<and> ?c ctx \<and> p = saved_tickets b0 ! i"
          then have b0: "chosen b0 i t" and p: "p = saved_tickets b0 ! i" and ctx: "?c ctx"
            by blast+
          from b0 have "\<not> is_created (saved_tickets b0 ! i)" by (simp add: chosen_def)
          with ctx have subjects: "ctx_subjects (scope c ctx) = [TicketSubject (progress_key (saved_tickets b0 ! i))]"
            by (simp add: context_ticket_subjects)
          show "upholds ?A (?m ctx p) (\<lambda>_. settled)"
            unfolding p by (rule upholds_after [OF upholds_created_issue [OF b0 subjects] upholds_record [OF b0]])
        qed
      qed (rule upholds_outcome, auto simp: result_simps)
    qed (rule upholds_outcome, auto simp: settled_def next_ticket_chosen)
  qed
qed

lemma upholds_creation_loop:
  "upholds settled (creation_loop S c observed) (\<lambda>_. settled)"
proof (rule upholdsI)
  fix s :: "'a session" and w r s'
  assume "saved_file s = Some (fst w)" "settled w (memory s)" "creation_loop S c observed s = (r, s')"
  then show "\<exists>w'. watched s w s' w' \<and> (\<forall>x. r = Inr x \<longrightarrow> settled w' (memory s'))"
  proof (induction S c observed s arbitrary: w rule: creation_loop.induct)
    case (1 S c observed s)
    consider (stopped) "s' = s" | (created) it r1 s1 where "next_ticket (memory s) = Inr (Some it)"
      "create_ticket S c observed it s = (r1, s1)" "\<And>e. r1 = Inl e \<Longrightarrow> r = Inl e \<and> s' = s1"
      "\<And>u. r1 = Inr u \<Longrightarrow> creation_loop S c observed s1 = (r, s')"
      using 1(4) by (subst (asm) creation_loop.simps) (auto split: sum.splits option.splits prod.splits)
    then show ?case
    proof cases
      case stopped
      with 1(2,3) show ?thesis by (intro exI [of _ w]) (auto intro: watched_refl)
    next
      case created
      from 1(3) created(1) have "settled w (memory s) \<and> next_ticket (memory s) = Inr (Some it)" by simp
      from upholdsE [OF upholds_create_ticket 1(2) this created(2)] obtain w1 where w1: "watched s w s1 w1"
        "\<And>x. r1 = Inr x \<Longrightarrow> settled w1 (memory s1)" by blast
      show ?thesis
      proof (cases r1)
        case (Inl e)
        with created(3) w1 show ?thesis by (intro exI [of _ w1]) auto
      next
        case (Inr u)
        from 1(1) [OF created(1) refl, of r1 s1 u w1]
        have "\<exists>w'. watched s1 w1 s' w' \<and> (\<forall>x. r = Inr x \<longrightarrow> settled w' (memory s'))"
          using created Inr w1 watched_file by metis
        with watched_trans [OF w1(1)] show ?thesis by blast
      qed
    qed
  qed
qed

text \<open>
  The rest of the attempt under the observer: the links between the created issues, their labels,
  the final verification and the reported outcome.
\<close>

section \<open>Links\<close>

text \<open>All issues are created, and the file says so.\<close>

definition linking :: "watch_state \<Rightarrow> batch \<Rightarrow> bool" where
  "linking w b \<longleftrightarrow> settled w b \<and> all_created b"

lemma linking_update [simp]:
  "linking w (b\<lparr>saved_graph := g\<rparr>) \<longleftrightarrow> linking w b" "linking w (b\<lparr>saved_labels := l\<rparr>) \<longleftrightarrow> linking w b"
  by (simp_all add: linking_def settled_def)

lemma linking_file: "linking w b \<Longrightarrow> all_created (fst w)"
  by (auto simp: linking_def settled_def agrees_all_created)

lemma linking_advances: "linking w b \<Longrightarrow> advances (fst w) b"
  by (simp add: linking_def settled_def agrees_advances)

lemma linking_saved: "linking w b \<Longrightarrow> linking (b, fresh) b"
  by (simp add: linking_def settled_def)

lemma upholds_save_linking: "(\<And>w b. P w b \<Longrightarrow> linking w b) \<Longrightarrow>
    (\<And>w b fresh. P w b \<Longrightarrow> accepted S b \<Longrightarrow> Q () (b, fresh) b) \<Longrightarrow> upholds P (save S) Q"
  by (rule upholds_save) (auto intro: linking_advances)

lemma upholds_links:
  "upholds linking (add_child S c p m) (\<lambda>_. linking)"
  "upholds linking (add_blocker S c n m) (\<lambda>_. linking)"
  unfolding add_child_def add_blocker_def
  by (rule upholds_request; simp add: watch_request_def allow_def linking_file)+

lemma upholds_linking_steps:
  "upholds linking (save S) (\<lambda>_. linking)"
  "upholds linking (set_graph g) (\<lambda>_. linking)"
  "upholds linking count_parent_link (\<lambda>_. linking)"
  "upholds linking count_dependency_link (\<lambda>_. linking)"
  "upholds linking (verified c st) (\<lambda>_. linking)"
  by (auto intro: upholds_save_linking linking_saved upholds_verified
      simp: set_graph_def count_parent_link_def count_dependency_link_def intro!: upholds_change)

lemma upholds_linking_reads:
  "upholds linking (check_remote_ticket S c b i) (\<lambda>_. linking)"
  "upholds linking (relationships S c n r) (\<lambda>_. linking)"
  "upholds linking (check_parent S c m p rs) (\<lambda>_. linking)"
  "upholds linking (rel_contains rs m) (\<lambda>_. linking)"
  "upholds linking (read_graph S c b) (\<lambda>_. linking)"
  "upholds linking (observe_graph S c b) (\<lambda>_. linking)"
  "upholds linking (require cond e) (\<lambda>_. linking)"
  "upholds linking (from_outcome o') (\<lambda>_. linking)"
  "upholds linking (get f) (\<lambda>_. linking)"
  "upholds linking (give x) (\<lambda>_. linking)"
  by (rule upholds_reading, intro does, simp_all)+

lemmas linking_rules = upholds_links upholds_linking_steps upholds_linking_reads

text \<open>Every step of the linking phase is one of these; the phase keeps \<open>linking\<close>.\<close>

lemma upholds_stay:
  "upholds P m (\<lambda>_. P) \<Longrightarrow> (\<And>x. upholds P (k x) (\<lambda>_. P)) \<Longrightarrow> upholds P (after m k) (\<lambda>_. P)"
  by (rule upholds_after)

lemma upholds_ensure_parent: "upholds linking (ensure_parent S c i issue p) (\<lambda>_. linking)"
  unfolding ensure_parent_def Let_def by (intro upholds_stay upholds_if linking_rules)

lemma upholds_ensure_dependency: "upholds linking (ensure_dependency S c i issue bl) (\<lambda>_. linking)"
  unfolding ensure_dependency_def Let_def by (intro upholds_stay upholds_if linking_rules)

lemma upholds_link_ticket: "upholds linking (link_ticket S c p it) (\<lambda>_. linking)"
proof -
  obtain i tg where "it = (i, tg)" by fastforce
  then show ?thesis
    unfolding link_ticket_def prod.case
    by (simp only: prod.case)
      (intro upholds_stay upholds_if upholds_each upholds_ensure_parent upholds_ensure_dependency linking_rules)
qed

lemma upholds_run_graph: "upholds linking (run_graph S c) (\<lambda>_. linking)"
  unfolding run_graph_def Let_def
  by (intro upholds_stay upholds_if upholds_each upholds_link_ticket linking_rules)

section \<open>Labels\<close>

text \<open>The batch records a verified graph, and the file also that the labels were checked.\<close>

definition labelled :: "watch_state \<Rightarrow> batch \<Rightarrow> bool" where
  "labelled w b \<longleftrightarrow> linking w b \<and> graph_verified (saved_graph b) \<and> labels_checked (saved_labels b)"

definition labelling :: "watch_state \<Rightarrow> batch \<Rightarrow> bool" where
  "labelling w b \<longleftrightarrow> labelled w b \<and> graph_verified (saved_graph (fst w)) \<and> labels_checked (saved_labels (fst w))"

lemma labelling_linking: "labelling w b \<Longrightarrow> linking w b"
  by (simp add: labelling_def labelled_def)

lemma labelled_saved: "labelled w b \<Longrightarrow> labelling (b, fresh) b"
  by (auto simp: labelling_def labelled_def linking_saved)

lemma labelled_update [simp]:
  "labelled w (b\<lparr>saved_labels := l\<rparr>) \<longleftrightarrow> linking w b \<and> graph_verified (saved_graph b) \<and> labels_checked l"
  "labelling w (b\<lparr>saved_labels := (saved_labels b)\<lparr>labels_tickets := ls\<rparr>\<rparr>) \<longleftrightarrow> labelling w b"
  "labelling w (b\<lparr>saved_labels := (saved_labels b)\<lparr>labels_verified := v\<rparr>\<rparr>) \<longleftrightarrow> labelling w b"
  by (simp_all add: labelled_def labelling_def)

lemma observe_labels_checked:
  "observe_labels S c b s = (Inr l, s') \<Longrightarrow> labels_checked l"
  by (auto simp: observe_labels_def result_simps)

lemma upholds_observe_labels:
  assumes "\<And>l w b. P w b \<Longrightarrow> labels_checked l \<Longrightarrow> Q l w b"
  shows "upholds P (observe_labels S c b) Q"
  by (rule upholds_calm [where F = labels_checked]) (intro does, simp, auto intro: observe_labels_checked assms)

lemma upholds_labelling_steps:
  "upholds labelling (save S) (\<lambda>_. labelling)"
  "upholds labelling unverify_labels (\<lambda>_. labelling)"
  "upholds labelling (verified c st) (\<lambda>_. labelling)"
  "upholds labelling (add_labels S c n ls) (\<lambda>_. labelling)"
  "upholds labelling (require cond e) (\<lambda>_. labelling)"
  "upholds labelling (from_outcome o') (\<lambda>_. labelling)"
  "upholds labelling (get f) (\<lambda>_. labelling)"
  "upholds labelling (give x) (\<lambda>_. labelling)"
  "upholds labelling (stop e) (\<lambda>_. labelling)"
proof -
  show "upholds labelling (save S) (\<lambda>_. labelling)"
    by (rule upholds_save_linking) (metis labelling_linking, metis labelled_saved labelling_def)
  show "upholds labelling unverify_labels (\<lambda>_. labelling)"
    unfolding unverify_labels_def by (rule upholds_change) simp
  show "upholds labelling (verified c st) (\<lambda>_. labelling)"
    by (rule upholds_verified)
  show "upholds labelling (add_labels S c n ls) (\<lambda>_. labelling)"
    unfolding add_labels_def
    by (rule upholds_request) (auto simp: watch_request_def allow_def labelling_def labelled_def dest: linking_file)
qed (rule upholds_reading, intro does, simp_all)+

lemma upholds_refresh_label: "upholds labelling (refresh_label S c i) (\<lambda>_. labelling)"
  unfolding refresh_label_def
proof (rule upholds_memory)
  fix b0
  let ?P = "\<lambda>w b. labelling w b \<and> b = b0"
  have label: "upholds ?P (label_ticket S c b0 i) (\<lambda>_. ?P)"
    by (rule upholds_reading) (intro does, simp_all)
  have entry: "upholds ?P (from_outcome (set_at (labels_tickets (saved_labels b0)) i l)) (\<lambda>_. ?P)" for l
    by (rule upholds_reading) (intro does, simp_all)
  have change: "upholds ?P (set_labels ((saved_labels b0)\<lparr>labels_tickets := ls\<rparr>)) (\<lambda>_. labelling)" for ls
    unfolding set_labels_def by (rule upholds_change) auto
  show "upholds ?P (after (label_ticket S c b0 i) (\<lambda>l.
      after (from_outcome (set_at (labels_tickets (saved_labels b0)) i l)) (\<lambda>ls.
      after (set_labels ((saved_labels b0)\<lparr>labels_tickets := ls\<rparr>)) (\<lambda>_. give l)))) (\<lambda>_. labelling)"
    by (rule upholds_after [OF label upholds_after [OF entry upholds_after [OF change upholds_labelling_steps(8)]]])
qed

lemma upholds_case_status [intro]:
  "(\<And>m. upholds P (f m) Q) \<Longrightarrow> upholds P n Q \<Longrightarrow> upholds P (case st of Created m \<Rightarrow> f m | _ \<Rightarrow> n) Q"
  by (cases st) simp_all

lemma upholds_publish_label: "upholds labelling (publish_label S c i) (\<lambda>_. labelling)"
  unfolding publish_label_def Let_def
  by (intro upholds_stay upholds_if upholds_refresh_label upholds_case_status upholds_labelling_steps)

section \<open>Completion\<close>

text \<open>The file records that everything is created, linked and labelled.\<close>

definition completed :: "'g service \<Rightarrow> batch \<Rightarrow> bool" where
  "completed S b \<longleftrightarrow> accepted S b \<and> all_created b \<and> graph_verified (saved_graph b) \<and> labels_verified (saved_labels b)"

lemma upholds_final_verification:
  "upholds linking (final_verification S c) (\<lambda>_ w b. fst w = b \<and> completed S b)"
proof -
  let ?L = "\<lambda>w b. linking w b \<and> graph_verified (saved_graph b)"
  have save: "upholds (\<lambda>w b. ?L w b \<and> labels_verified (saved_labels b)) (save S) (\<lambda>_ w b. fst w = b \<and> completed S b)"
    by (rule upholds_save_linking) (auto simp: completed_def linking_def settled_def)
  have labels: "upholds ?L (after (get memory) (\<lambda>b. after (observe_labels S c b) (\<lambda>l.
      after (set_labels l) (\<lambda>_. after (require (labels_verified l) e) (\<lambda>_. save S))))) (\<lambda>_ w b. fst w = b \<and> completed S b)" for c e
  proof (rule upholds_memory)
    fix b0
    have "upholds (\<lambda>w b. ?L w b \<and> b = b0) (observe_labels S c b0) (\<lambda>_. ?L)"
      by (rule upholds_reading) (intro does, simp_all)
    moreover have "upholds ?L (set_labels l) (\<lambda>_ w b. ?L w b \<and> saved_labels b = l)" for l
      unfolding set_labels_def by (rule upholds_change) simp
    moreover have "upholds (\<lambda>w b. ?L w b \<and> saved_labels b = l) (require (labels_verified l) e)
        (\<lambda>_ w b. ?L w b \<and> labels_verified (saved_labels b))" for l
      by (rule upholds_require) auto
    ultimately show "upholds (\<lambda>w b. ?L w b \<and> b = b0) (after (observe_labels S c b0) (\<lambda>l.
        after (set_labels l) (\<lambda>_. after (require (labels_verified l) e) (\<lambda>_. save S)))) (\<lambda>_ w b. fst w = b \<and> completed S b)"
      by (rule upholds_after [OF _ upholds_after [OF _ upholds_after [OF _ save]]])
  qed
  have graph: "upholds linking (after (get memory) (\<lambda>b. after (observe_graph S c b) (\<lambda>g.
      after (set_graph g) (\<lambda>_. after (require (graph_verified g) e) (\<lambda>_. k))))) (\<lambda>_ w b. fst w = b \<and> completed S b)"
    if k: "upholds ?L k (\<lambda>_ w b. fst w = b \<and> completed S b)" for c e and k :: "('a, unit) pub"
  proof (rule upholds_memory)
    fix b0
    have "upholds (\<lambda>w b. linking w b \<and> b = b0) (observe_graph S c b0) (\<lambda>_. linking)"
      by (rule upholds_reading) (intro does, simp_all)
    moreover have "upholds linking (set_graph g) (\<lambda>_ w b. linking w b \<and> saved_graph b = g)" for g
      unfolding set_graph_def by (rule upholds_change) simp
    moreover have "upholds (\<lambda>w b. linking w b \<and> saved_graph b = g) (require (graph_verified g) e) (\<lambda>_. ?L)" for g
      by (rule upholds_require) auto
    ultimately show "upholds (\<lambda>w b. linking w b \<and> b = b0) (after (observe_graph S c b0) (\<lambda>g.
        after (set_graph g) (\<lambda>_. after (require (graph_verified g) e) (\<lambda>_. k)))) (\<lambda>_ w b. fst w = b \<and> completed S b)"
      by (rule upholds_after [OF _ upholds_after [OF _ upholds_after [OF _ k]]])
  qed
  show ?thesis
    unfolding final_verification_def Let_def by (rule graph [OF labels])
qed

lemma upholds_run_labels: "upholds linking (run_labels S c) (\<lambda>_ w b. fst w = b \<and> completed S b)"
  unfolding run_labels_def
proof (rule upholds_memory)
  fix b0
  let ?P = "\<lambda>w b. linking w b \<and> b = b0" and ?R = "\<lambda>w b. linking w b \<and> b = b0 \<and> graph_verified (saved_graph b0)"
  have "upholds ?P (require (graph_verified (saved_graph b0)) e) (\<lambda>_. ?R)" for e
    by (rule upholds_require) simp
  moreover have "upholds ?R (observe_labels S c b0) (\<lambda>l w b. ?R w b \<and> labels_checked l)"
    by (rule upholds_observe_labels) simp
  moreover have "upholds (\<lambda>w b. ?R w b \<and> labels_checked l) (set_labels l) (\<lambda>_. labelled)" for l
    unfolding set_labels_def by (rule upholds_change) auto
  moreover have "upholds labelled (save S) (\<lambda>_. labelling)"
    by (rule upholds_save_linking) (auto simp: labelled_def intro: labelled_saved [unfolded labelled_def])
  moreover have "upholds labelling (each (publish_label S c) is) (\<lambda>_. linking)" for "is"
    by (rule upholds_conseq [OF upholds_each [OF upholds_publish_label]]) (auto intro: labelling_linking)
  ultimately show "upholds ?P (after (require (graph_verified (saved_graph b0)) (Trouble ''labels require a checked complete graph'')) (\<lambda>_.
      after (observe_labels S c b0) (\<lambda>l. after (set_labels l) (\<lambda>_. after (save S) (\<lambda>_.
      after (each (publish_label S c) [0 ..< length (saved_tickets b0)]) (\<lambda>_. final_verification S c))))))
      (\<lambda>_ w b. fst w = b \<and> completed S b)"
    by (rule upholds_after [OF _ upholds_after [OF _ upholds_after [OF _ upholds_after [OF _
        upholds_after [OF _ upholds_final_verification]]]]])
qed

section \<open>The attempt\<close>

lemma upholds_run_publish: "upholds settled (run_publish S c) (\<lambda>_ w b. fst w = b \<and> completed S b)"
  unfolding run_publish_def
proof (rule upholds_memory)
  fix b0
  let ?P = "\<lambda>w b. settled w b \<and> b = b0"
  have "upholds ?P (observe_batch S c b0) (\<lambda>_. settled)"
    "upholds settled (preflight_capacity S c b0 observed) (\<lambda>_. settled)"
    "upholds settled (verified c RemoteChecksStep) (\<lambda>_. settled)" for observed
    by (rule upholds_reading, intro does does_verified, simp_all)+
  moreover have "upholds settled (after (get memory) (\<lambda>b. after (require (list_all is_created (saved_tickets b)) e) (\<lambda>_.
      after (run_graph S c) (\<lambda>_. run_labels S c)))) (\<lambda>_ w b. fst w = b \<and> completed S b)" for e
  proof (rule upholds_memory)
    fix b1
    have "upholds (\<lambda>w b. settled w b \<and> b = b1) (require (list_all is_created (saved_tickets b1)) e) (\<lambda>_. linking)"
      by (rule upholds_require) (auto simp: linking_def all_created_def)
    then show "upholds (\<lambda>w b. settled w b \<and> b = b1) (after (require (list_all is_created (saved_tickets b1)) e) (\<lambda>_.
        after (run_graph S c) (\<lambda>_. run_labels S c))) (\<lambda>_ w b. fst w = b \<and> completed S b)"
      by (rule upholds_after [OF _ upholds_after [OF upholds_run_graph upholds_run_labels]])
  qed
  ultimately show "upholds ?P (after (observe_batch S c b0) (\<lambda>observed.
      after (preflight_capacity S c b0 observed) (\<lambda>_. after (verified c RemoteChecksStep) (\<lambda>_.
      after (creation_loop S c observed) (\<lambda>_. after (get memory) (\<lambda>b.
      after (require (list_all is_created (saved_tickets b)) (Trouble ''creation remains incomplete'')) (\<lambda>_.
      after (run_graph S c) (\<lambda>_. run_labels S c)))))))) (\<lambda>_ w b. fst w = b \<and> completed S b)"
    by (rule upholds_after [OF _ upholds_after [OF _ upholds_after [OF _ upholds_after [OF upholds_creation_loop]]]])
qed

text \<open>The observations of earlier attempts are cleared in memory only.\<close>

lemma settled_forget [simp]:
  "settled w (clear_observations b) \<longleftrightarrow> settled w b" "settled w (withdraw_verification b) \<longleftrightarrow> settled w b"
  by (simp_all add: settled_def clear_observations_def withdraw_verification_def agrees_def same_batch_def keyed_def)

lemma upholds_publication:
  "upholds settled (publication S c) (\<lambda>sr w b. snd sr = Inr () \<longrightarrow> fst sr = Complete \<and> fst w = b \<and> completed S b)"
proof -
  let ?Q = "\<lambda>r w b. r = Inr () \<longrightarrow> fst w = b \<and> completed S b"
  have "upholds settled (change_memory clear_observations) (\<lambda>_. settled)"
    by (rule upholds_change) simp
  moreover have "upholds settled (attempt (run_publish S c)) ?Q"
    by (rule upholds_conseq [OF upholds_attempt [OF upholds_run_publish]]) auto
  moreover have "upholds (?Q r) (case r of Inl _ \<Rightarrow> change_memory withdraw_verification | Inr _ \<Rightarrow> give ()) (\<lambda>_. ?Q r)"
    for r :: "pub_error + unit"
    by (cases r) (auto intro: upholds_change upholds_give simp del: pub_simps)
  moreover have "upholds (?Q r) (after (get memory) (\<lambda>b. let status = publication_status r b in
      after (finish status) (\<lambda>_. give (status, r)))) (\<lambda>sr w b. snd sr = Inr () \<longrightarrow> fst sr = Complete \<and> fst w = b \<and> completed S b)"
    for r :: "pub_error + unit"
  proof (rule upholds_memory)
    fix b0
    let ?P = "\<lambda>w b. ?Q r w b \<and> b = b0" and ?st = "publication_status r b0"
    have status: "?st = Complete \<longleftrightarrow> r = Inr ()"
      by (auto simp: publication_status_def split: sum.splits pub_error.splits)
    have "upholds ?P (finish ?st) (\<lambda>_. ?Q r)"
      unfolding finish_def
    proof (rule upholds_after [where R = "\<lambda>_. ?P"], rule upholds_reading)
      show "upholds ?P (emit (if ?st = Complete then PublicationCompleted ?st else PublicationStopped op ?st)) (\<lambda>_. ?Q r)" for op
        by (rule upholds_emit) (use status in \<open>auto simp: watch_event_def allow_def completed_def\<close>)
    qed (intro does, simp_all)
    moreover have "upholds (?Q r) (give (?st, r)) (\<lambda>sr w b. snd sr = Inr () \<longrightarrow> fst sr = Complete \<and> fst w = b \<and> completed S b)"
      by (rule upholds_give) (use status in auto)
    ultimately show "upholds ?P (let status = ?st in after (finish status) (\<lambda>_. give (status, r)))
        (\<lambda>sr w b. snd sr = Inr () \<longrightarrow> fst sr = Complete \<and> fst w = b \<and> completed S b)"
      unfolding Let_def by (rule upholds_after)
  qed
  ultimately show ?thesis
    unfolding publication_def by (rule upholds_after [OF _ upholds_after [OF _ upholds_after]])
qed

text \<open>A saved batch that is accepted has the keys of its plan, each once.\<close>

lemma batch_check_keyed: "batch_check fp f i = Inr u \<Longrightarrow> keyed f"
  by (auto simp: batch_check_Inr keyed_def plan_ok_def)

lemma read_file_Inr:
  "read_file S i s = (Inr b, s') \<longleftrightarrow>
     s' = s \<and> saved_file s = Some b \<and> batch_check (fingerprint S) b i = (Inr () :: (plan_error, unit) outcome)"
  by (auto simp: read_file_def check_batch_def result_simps)

lemma read_file_session: "snd (read_file S i s) = s"
  by (cases "saved_file s") (auto simp: read_file_def check_batch_def after_def split: sum.splits)

lemma upholds_read_file: "upholds P (read_file S i) (\<lambda>b w _. b = fst w \<and> keyed b)"
proof (rule upholdsI)
  fix s :: "'a session" and w :: watch_state and r s'
  assume "saved_file s = Some (fst w)" "read_file S i s = (r, s')"
  moreover from this have "s' = s" using read_file_session by (metis snd_conv)
  ultimately show "\<exists>w'. watched s w s' w' \<and> (\<forall>b. r = Inr b \<longrightarrow> b = fst w' \<and> keyed b)"
    by (intro exI [of _ w]) (auto simp: read_file_Inr intro: watched_refl batch_check_keyed)
qed

lemma upholds_publish_command:
  "upholds P (publish_command S i) (\<lambda>report w b. published_batch report = b \<and>
     (published_complete report \<longleftrightarrow> published_error report = None) \<and>
     (published_complete report \<longrightarrow> published_status report = ''complete'' \<and> fst w = b \<and> completed S b))"
    (is "upholds _ _ ?Q")
proof -
  have memory: "upholds (\<lambda>w _. saved = fst w \<and> keyed saved) (set_memory saved) (\<lambda>_. settled)" for saved
    unfolding set_memory_def by (rule upholds_change) (auto simp: settled_def)
  have report: "upholds (\<lambda>w b. snd sr = Inr () \<longrightarrow> fst sr = Complete \<and> fst w = b \<and> completed S b)
      (case sr of (status, result) \<Rightarrow> after (get memory) (\<lambda>b. give \<lparr>published_status = outcome_text status,
         published_complete = (case result of Inr _ \<Rightarrow> True | Inl _ \<Rightarrow> False),
         previous_labels = saved_labels saved, published_batch = b,
         published_error = (case result of Inr _ \<Rightarrow> None | Inl e \<Rightarrow> Some e)\<rparr>)) ?Q" for sr :: "outcome_status \<times> (pub_error + unit)" and saved :: batch
    by (cases sr, simp only: prod.case, intro upholds_memory upholds_give) (auto split: sum.splits)
  show ?thesis
    unfolding publish_command_def
    by (rule upholds_after [OF upholds_read_file upholds_after [OF memory upholds_after [OF upholds_publication report]]])
qed

end
