(* ===== verification/Ticket_Campaign.thy ===== *)
theory Ticket_Campaign imports Ticket_Promise begin

text \<open>
  Whole campaigns: any number of commands on the same batch, each of which may be killed after any of
  its deeds, with a service that answers anything. The potential of a ticket, what its file permits,
  bounds the creations that are requested for it. At the end, the judgement \<open>prompt\<close>: the deed before
  every request that changes GitHub is a replacement of the file.
\<close>

section \<open>The commands that do not publish\<close>

definition file_permits :: "ticket_key \<Rightarrow> batch option \<Rightarrow> nat" where
  "file_permits k f = (case f of None \<Rightarrow> 0 | Some b \<Rightarrow> permits k b)"

text \<open>Reading, and saving batches that permit at most \<open>n\<close> creations of a ticket.\<close>

definition modest :: "ticket_key \<Rightarrow> nat \<Rightarrow> deed set" where
  "modest k n = request_deeds reads \<union> {Committed b | b. permits k b \<le> n}"

lemma reads_modest [simp]: "request_deeds reads \<subseteq> modest k n"
  by (simp add: modest_def)

lemma Committed_modest [simp]: "Committed b \<in> modest k n \<longleftrightarrow> permits k b \<le> n"
  by (auto simp: modest_def request_deeds_def)

lemma modest_deeds:
  assumes "set ds \<subseteq> modest k n" "file_permits k f \<le> n"
  shows "creations k ds = 0 \<and> file_permits k (file_after f ds) \<le> n"
  using assms
proof (induction ds arbitrary: f)
  case (Cons d ds)
  show ?case
  proof (cases d)
    case (Emitted e)
    with Cons.prems have "\<not> requests_for k d"
      by (auto simp: modest_def request_deeds_def requests_for_def)
    with Emitted Cons show ?thesis by simp
  next
    case (Committed b)
    with Cons show ?thesis by (simp add: file_permits_def)
  qed
qed simp

lemma acts_modest:
  assumes "acts (modest k n) s s'" "deeds s = []" "deeds s' = ds @ rest" "file_permits k (saved_file s) \<le> n"
  shows "creations k ds = 0 \<and> file_permits k (file_after (saved_file s) ds) \<le> n"
  using assms modest_deeds [of ds k n "saved_file s"] by (auto simp: acts_def)

lemma acts_after:
  assumes "acts A s (snd (m s))" "\<And>x s'. m s = (Inr x, s') \<Longrightarrow> acts A s' (snd (k x s'))"
  shows "acts A s (snd (after m k s))"
proof -
  obtain r s' where m: "m s = (r, s')" by fastforce
  with assms(1) have "acts A s s'" by simp
  with m assms(2) show ?thesis by (cases r) (auto simp: after_def intro: acts_trans)
qed

lemma acts_does: "does (\<lambda>_. True) A m \<Longrightarrow> acts A s (snd (m s))"
  by (simp add: does_def)

lemma after_give_session: "snd (after m (\<lambda>x. give (g x)) s) = snd (m s)"
  by (auto simp: after_def split: prod.splits sum.splits)

lemma after_give_pair_session: "snd (after m (\<lambda>(x, y). give (h x y)) s) = snd (m s)"
  by (auto simp: after_def split: prod.splits sum.splits)

lemma permits_set_status:
  "permits k (set_status i st b) \<le> permits k b + (if permits_creation st \<and> progress_key (saved_tickets b ! i) = k then 1 else 0)"
proof -
  have "length (filter P (xs[i := x])) \<le> length (filter P xs) + (if P x then 1 else 0)" for P x and xs :: "progress list"
  proof (cases "i < length xs")
    case True
    then have "xs = take i xs @ xs ! i # drop (Suc i) xs" by (simp add: id_take_nth_drop)
    then have "length (filter P xs) = length (filter P (take i xs @ xs ! i # drop (Suc i) xs))" by simp
    with True show ?thesis by (simp add: upd_conv_take_nth_drop)
  qed (simp add: list_update_beyond)
  from this [of "\<lambda>p. progress_key p = k \<and> permits_creation (progress_status p)" "saved_tickets b"
      "(saved_tickets b ! i)\<lparr>progress_status := st\<rparr>"]
  show ?thesis unfolding permits_def by (simp add: conj_commute)
qed

lemma acts_save: "permits k (memory s) \<le> n \<Longrightarrow> acts (modest k n) s (snd (save S s))"
proof -
  assume n: "permits k (memory s) \<le> n"
  obtain r s' where save: "save S s = (r, s')" by fastforce
  from save_cases [OF this] have "acts (modest k n) s s'"
  proof
    assume "accepted S (memory s) \<and> saved_file s' = Some (memory s) \<and> memory s' = memory s \<and> deeds s' = deeds s @ [Committed (memory s)]"
    with n show ?thesis by (auto simp: acts_def intro!: exI [of _ "[Committed (memory s)]"])
  qed (auto intro: acts_quiet)
  with save show ?thesis by simp
qed

lemma set_memory_run [simp]: "set_memory b s = (Inr (), s\<lparr>memory := b\<rparr>)" "change_memory f s = (Inr (), s\<lparr>memory := f (memory s)\<rparr>)"
  by (simp_all add: set_memory_def change_memory_def)

lemma select_memory: "memory (s\<lparr>memory := b\<rparr>) = b"
  by simp

lemma quiet_sessions [simp]: "snd (require c e s) = s" "snd (some_or e x s) = s"
  by (simp_all add: require_def some_or_def split: option.split)

lemma acts_memory [simp]: "acts A (s\<lparr>memory := b\<rparr>) s' \<longleftrightarrow> acts A s s'" "acts A s (s'\<lparr>memory := b\<rparr>) \<longleftrightarrow> acts A s s'"
  by (simp_all add: acts_def)

text \<open>A command that starts by reading its batch.\<close>

lemma acts_reading_command:
  assumes "\<And>b s'. saved_file s = Some b \<Longrightarrow> s' = s\<lparr>memory := b\<rparr> \<Longrightarrow> acts A s' (snd (m s'))"
  shows "acts A s (snd (after (read_file S i) (\<lambda>b. after (set_memory b) (\<lambda>_. m)) s))"
  using assms by (intro acts_after) (auto simp: read_file_session read_file_Inr)

lemma does_adopt_modest: "does (\<lambda>b. permits j b \<le> n) (modest j n) (adopt S c k m)"
proof -
  have "permits j (set_status i (Created x) b) \<le> n" if "permits j b \<le> n" for i x b
    using permits_set_status [of j i "Created x" b] that by simp
  then show ?thesis unfolding adopt_def by (intro does does_change_memory does_save) simp_all
qed

lemma acts_adopt_command: "acts (modest j (file_permits j (saved_file s))) s (snd (adopt_command S i k n s))"
proof -
  have "acts (modest j (file_permits j (saved_file s))) s' (snd (after (adopt S client k n) (\<lambda>_. get (\<lambda>s. local_status (memory s))) s'))"
    if "saved_file s = Some b" "s' = s\<lparr>memory := b\<rparr>" for b s'
  proof -
    from that(2) have "acts (modest j (permits j b)) s' (snd (adopt S client k n s'))"
      using does_adopt_modest [of j "permits j b" S client k n] unfolding does_def by (metis order.refl select_memory)
    with that(1) show ?thesis by (intro acts_after) (simp_all add: file_permits_def)
  qed
  then show ?thesis unfolding adopt_command_def by (rule acts_reading_command)
qed

lemma acts_authorize:
  "acts (modest j (permits j (memory s) + (if j = k then 1 else 0))) s (snd (authorize_retry S k s))"
proof -
  let ?n = "permits j (memory s) + (if j = k then 1 else 0)"
  have position: "progress_key (xs ! i) = k" if "position (\<lambda>p. progress_key p = k) xs = Some i" for xs :: "progress list" and i
    using that by (induction xs arbitrary: i) (auto split: if_splits)
  have "acts (modest j ?n) s (snd (save S (s\<lparr>memory := set_status i RetryAuthorized (memory s)\<rparr>)))"
    if "position (\<lambda>p. progress_key p = k) (saved_tickets (memory s)) = Some i" for i
  proof -
    have "permits j (set_status i RetryAuthorized (memory s)) \<le> ?n"
      using permits_set_status [of j i RetryAuthorized "memory s"] position [OF that] by (auto split: if_splits)
    with acts_save [of j "s\<lparr>memory := set_status i RetryAuthorized (memory s)\<rparr>" ?n S] show ?thesis by simp
  qed
  then show ?thesis
    unfolding authorize_retry_def by (intro acts_after) (auto simp: result_simps)
qed

lemma acts_authorize_command:
  "acts (modest j (file_permits j (saved_file s) + (if j = k then 1 else 0))) s (snd (authorize_command S ack i k s))"
proof -
  let ?A = "modest j (file_permits j (saved_file s) + (if j = k then 1 else 0))"
  have "acts ?A s' (snd (after (authorize_retry S k) (\<lambda>_. get (\<lambda>s. local_status (memory s))) s'))"
    if "saved_file s = Some b" "s' = s\<lparr>memory := b\<rparr>" for b s'
    using acts_authorize [of j s' k S] that by (intro acts_after) (auto simp: file_permits_def)
  then have "acts ?A s (snd (after (read_file S i) (\<lambda>b. after (set_memory b) (\<lambda>_. after (authorize_retry S k)
      (\<lambda>_. get (\<lambda>s. local_status (memory s))))) s))" by (rule acts_reading_command)
  then show ?thesis unfolding authorize_command_def by (cases ack) (simp_all add: after_def)
qed

section \<open>Reconstruction permits nothing\<close>

definition permits_none :: "nat set \<Rightarrow> batch \<Rightarrow> bool" where
  "permits_none I b \<longleftrightarrow> (\<forall>i \<in> I. i < length (saved_tickets b) \<longrightarrow> \<not> permits_creation (progress_status (saved_tickets b ! i)))"

lemma permits_none_all: "permits_none {0 ..< length (saved_tickets b)} b \<Longrightarrow> permits k b = 0"
  by (auto simp: permits_none_def permits_def filter_empty_conv in_set_conv_nth)

lemma reconstruct_ticket_memory:
  assumes "reconstruct_ticket issues c i s = (Inr c', s')" "permits_none I (memory s)"
  shows "permits_none (insert i I) (memory s') \<and> length (saved_tickets (memory s')) = length (saved_tickets (memory s))"
proof -
  let ?rest = "\<lambda>p (selected, ambiguous). after (evidence_status (memory s) i p selected) (\<lambda>st.
     after (change_memory (set_status i st)) (\<lambda>_. give (c \<or> ambiguous)))"
  from assms(1) obtain p where
    "after (select_evidence (progress_status p) (filter (has_marker (marker p)) issues)) (?rest p) s = (Inr c', s')"
    unfolding reconstruct_ticket_def by (cases "index (saved_tickets (memory s)) i :: (pub_error, progress) outcome") (auto simp: after_def)
  then obtain sel s1 where sel: "select_evidence (progress_status p) (filter (has_marker (marker p)) issues) s = (Inr sel, s1)"
    and "?rest p sel s1 = (Inr c', s')" by (subst (asm) after_Inr_iff) blast
  then have "after (evidence_status (memory s) i p (fst sel)) (\<lambda>st. after (change_memory (set_status i st)) (\<lambda>_. give (c \<or> snd sel))) s1
      = (Inr c', s')" by (simp add: case_prod_beta)
  then obtain st s2 where st: "evidence_status (memory s) i p (fst sel) s1 = (Inr st, s2)"
    and last: "memory s' = set_status i st (memory s2)" by (subst (asm) after_Inr_iff) (auto simp: after_def)
  from sel have "memory s1 = memory s"
    using does_memory [of s "select_evidence (progress_status p) (filter (has_marker (marker p)) issues)"] by (simp add: does)
  moreover from st have "\<not> permits_creation st \<and> memory s2 = memory s1"
    by (auto simp: evidence_status_def result_simps same_or_def split: option.splits ticket_status.splits)
      (metis permits_creation.simps(4))
  ultimately show ?thesis
    using last assms(2) by (cases "i < length (saved_tickets (memory s))")
      (auto simp: permits_none_def nth_list_update list_update_beyond)
qed

lemma reconstruct_walk_memory:
  assumes "walk (reconstruct_ticket issues) c js s = (Inr c', s')" "permits_none I (memory s)"
  shows "permits_none (I \<union> set js) (memory s') \<and> length (saved_tickets (memory s')) = length (saved_tickets (memory s))"
  using assms
proof (induction js arbitrary: c I s)
  case (Cons j js)
  then obtain c1 s1 where "reconstruct_ticket issues c j s = (Inr c1, s1)" "walk (reconstruct_ticket issues) c1 js s1 = (Inr c', s')"
    by (auto simp: after_Inr_iff)
  with Cons.IH [of c1 s1 "insert j I"] Cons.prems(2) reconstruct_ticket_memory show ?case by fastforce
qed simp

lemma does_reconstruct_walk: "does (\<lambda>_. True) (request_deeds reads) (walk (reconstruct_ticket issues) c js)"
  unfolding reconstruct_ticket_def evidence_status_def by (intro does does_change_memory) simp_all

lemma acts_save_new: "permits k (memory s) \<le> n \<Longrightarrow> acts (modest k n) s (snd (save_new S s))"
  using does_save_new [of "\<lambda>b. b = memory s" "modest k n" S] by (simp add: does_def)

lemma acts_reading: "does (\<lambda>_. True) (request_deeds reads) m \<Longrightarrow> acts (modest k n) s (snd (m s))"
  using does_mono reads_modest acts_does by metis

lemma acts_reconstruct: "acts (modest k 0) s (snd (reconstruct S c s))"
proof -
  have save: "acts (modest k 0) s2 (snd (after (check_batch S (memory s2) j) (\<lambda>_. after (save_new S) (\<lambda>_. give conflicts)) s2))"
    if "walk (reconstruct_ticket issues) False [0 ..< length (saved_tickets b)] s1 = (Inr conflicts, s2)" "memory s1 = b"
    for issues b s1 s2 conflicts j
  proof -
    from reconstruct_walk_memory [OF that(1), of "{}"] that(2) have "permits k (memory s2) = 0"
      by (auto simp: permits_none_def intro: permits_none_all)
    moreover have "snd (check_batch S (memory s2) j s2) = s2" by (simp add: check_batch_def)
    ultimately show ?thesis
      using acts_save_new [of k s2 0 S] by (intro acts_after) (auto simp: check_batch_def after_give_session)
  qed
  show ?thesis
    unfolding reconstruct_def
  proof (rule acts_after)
    fix b s0
    assume "get memory s = (Inr b, s0)"
    then have b: "memory s0 = b" and s0: "s0 = s" by auto
    show "acts (modest k 0) s0 (snd (after (read_issue S c (parent (saved_plan b))) (\<lambda>_.
        after (enumerate_issues S c) (\<lambda>issues.
        after (walk (reconstruct_ticket issues) False [0 ..< length (saved_tickets b)]) (\<lambda>conflicts.
        after (get memory) (\<lambda>b'. after (check_batch S b' (saved_id b')) (\<lambda>_.
        after (save_new S) (\<lambda>_. give conflicts)))))) s0))"
    proof (rule acts_after, rule acts_reading)
      fix r s1
      assume "read_issue S c (parent (saved_plan b)) s0 = (Inr r, s1)"
      then have s1: "memory s1 = b" using reads_memory(1) b by metis
      show "acts (modest k 0) s1 (snd (after (enumerate_issues S c) (\<lambda>issues.
          after (walk (reconstruct_ticket issues) False [0 ..< length (saved_tickets b)]) (\<lambda>conflicts.
          after (get memory) (\<lambda>b'. after (check_batch S b' (saved_id b')) (\<lambda>_.
          after (save_new S) (\<lambda>_. give conflicts))))) s1))"
      proof (rule acts_after, rule acts_reading)
        fix issues s2
        assume "enumerate_issues S c s1 = (Inr issues, s2)"
        then have s2: "memory s2 = b" using does_memory [of s1 "enumerate_issues S c"] s1 by (simp add: does)
        show "acts (modest k 0) s2 (snd (after (walk (reconstruct_ticket issues) False [0 ..< length (saved_tickets b)]) (\<lambda>conflicts.
            after (get memory) (\<lambda>b'. after (check_batch S b' (saved_id b')) (\<lambda>_.
            after (save_new S) (\<lambda>_. give conflicts)))) s2))"
          by (rule acts_after, rule acts_reading, rule does_reconstruct_walk) (use save s2 in simp)
      qed (intro does, simp)
    qed (intro does, simp)
  qed simp
qed

lemma acts_reconstruct_command:
  "acts (modest k (file_permits k (saved_file s))) s (snd (reconstruct_command S stopped i source s))"
proof (cases "saved_file s")
  case None
  have "acts (modest k 0) s (snd (after (case source of
         Inr exported \<Rightarrow> after (check_batch S exported i) (\<lambda>_. give exported)
       | Inl p \<Rightarrow> prepared_batch S i p) (\<lambda>saved.
     after (get saved_file) (\<lambda>f.
     after (require (f = None) (Trouble ''reconstruction cannot replace existing state'')) (\<lambda>_.
     after (set_memory saved) (\<lambda>_.
     after (reconstruct S client) (\<lambda>conflicts.
     get (\<lambda>s. (if conflicts then ''conflict'' else local_status (memory s), conflicts))))))) s))"
    (is "acts _ _ (snd (after ?src ?rest _))")
  proof (rule acts_after, rule acts_reading)
    show "does (\<lambda>_. True) (request_deeds reads) ?src"
      unfolding check_batch_def prepared_batch_def by (intro does)
    fix b s1
    assume "?src s = (Inr b, s1)"
    then have "s1 = s" by (auto simp: check_batch_def prepared_batch_def after_def split: sum.splits prod.splits)
    have "acts (modest k 0) s' (snd (after (reconstruct S client) (\<lambda>conflicts.
        get (\<lambda>s. (if conflicts then ''conflict'' else local_status (memory s), conflicts))) s'))" for s'
      by (rule acts_after, rule acts_reconstruct) simp
    from this [of "s\<lparr>memory := b\<rparr>"] \<open>s1 = s\<close> None show "acts (modest k 0) s1 (snd (?rest b s1))" by simp
  qed
  with None show ?thesis
    unfolding reconstruct_command_def by (cases stopped) (simp_all add: after_def file_permits_def)
next
  case (Some f)
  have "acts (modest k n) s (snd (reconstruct_command S stopped i source s))" for n
    unfolding reconstruct_command_def
  proof (rule acts_after, simp, rule acts_after, rule acts_reading)
    show "does (\<lambda>_. True) (request_deeds reads) (case source of
         Inr exported \<Rightarrow> after (check_batch S exported i) (\<lambda>_. give exported)
       | Inl p \<Rightarrow> prepared_batch S i p)"
      unfolding check_batch_def prepared_batch_def by (intro does)
    fix b and u :: unit and s0 s1
    assume "require stopped (Trouble ''stop the previous publisher before reconstruction'') s = (Inr u, s0)"
      "(case source of
         Inr exported \<Rightarrow> after (check_batch S exported i) (\<lambda>_. give exported)
       | Inl p \<Rightarrow> prepared_batch S i p) s0 = (Inr b, s1)"
    then have "s1 = s" by (auto simp: check_batch_def prepared_batch_def result_simps after_def split: sum.splits prod.splits)
    with Some show "acts (modest k n) s1 (snd (after (get saved_file) (\<lambda>f.
       after (require (f = None) (Trouble ''reconstruction cannot replace existing state'')) (\<lambda>_.
       after (set_memory b) (\<lambda>_.
       after (reconstruct S client) (\<lambda>conflicts.
       get (\<lambda>s. (if conflicts then ''conflict'' else local_status (memory s), conflicts)))))) s1))"
      by (simp add: after_def)
  qed
  then show ?thesis .
qed

lemma permits_distinct:
  assumes "distinct (map progress_key (saved_tickets b))"
  shows "permits k b \<le> 1"
proof -
  have one: "length (filter (\<lambda>p. progress_key p = k \<and> P p) xs) \<le> 1" if "distinct (map progress_key xs)"
    for P and xs :: "progress list"
    using that
  proof (induction xs)
    case (Cons x xs)
    then have "filter (\<lambda>p. progress_key p = k \<and> P p) xs = []" if "progress_key x = k"
      using that by (auto simp: filter_empty_conv image_iff)
    with Cons show ?case by auto
  qed simp
  from one [OF assms, of "\<lambda>p. permits_creation (progress_status p)"] show ?thesis unfolding permits_def .
qed

lemma acts_prepare_command:
  assumes "saved_file s = None \<longrightarrow> 1 \<le> n"
  shows "acts (modest k n) s (snd (prepare_command S i p s))"
proof (cases "prepared_batch S i p s")
  case (Pair r s0)
  then have s0: "s0 = s" by (simp add: prepared_batch_def)
  show ?thesis
  proof (cases "saved_file s")
    case (Some f)
    have "acts (modest k n) s (snd (after (after (read_file S i) (\<lambda>saved.
        after (require (plan_fingerprint saved = g) (Trouble ''batch already contains a different plan'')) (\<lambda>_.
        set_memory saved))) (\<lambda>_. get (\<lambda>s. local_status (memory s))) s))" for g
      by (intro acts_after) (auto simp: read_file_session read_file_Inr result_simps)
    with Pair s0 Some show ?thesis unfolding prepare_command_def by (cases r) (auto simp: after_give_session)
  next
    case None
    show ?thesis
    proof (cases r)
      case (Inr b)
      with Pair have "batch_prepare (fingerprint S) i p = Inr b" by (simp add: prepared_batch_def map_err_Inr_iff)
      then have "map progress_key (saved_tickets b) = map ticket_key (plan_tickets p)" "distinct (map ticket_key (plan_tickets p))"
        by (auto simp: batch_prepare_Inr progress_for_def plan_ok_def)
      with None assms have "permits k b \<le> n" using permits_distinct [of b k] by simp
      with acts_save_new [of k "s\<lparr>memory := b\<rparr>" n S]
      have "acts (modest k n) s (snd (after (after (set_memory b) (\<lambda>_. save_new S)) (\<lambda>_. get (\<lambda>s. local_status (memory s))) s))"
        by (intro acts_after) auto
      with Inr Pair s0 None show ?thesis unfolding prepare_command_def by simp
    qed (use Pair s0 in \<open>simp add: prepare_command_def\<close>)
  qed
qed

lemma execute_session:
  "snd (execute S i (Prepare p) s) = snd (prepare_command S i p s)"
  "snd (execute S i Export s) = snd (export_command S i s)"
  "snd (execute S i Publish s) = snd (publish_command S i s)"
  "snd (execute S i (Reconstruct stopped source) s) = snd (reconstruct_command S stopped i source s)"
  "snd (execute S i (AuthorizeRetry ack k) s) = snd (authorize_command S ack i k s)"
  "snd (execute S i (Adopt k n) s) = snd (adopt_command S i k n s)"
  "snd (execute S i Status s) = snd (status_command S i s)"
  by (simp_all only: execute_def command.case after_give_session after_give_pair_session)

text \<open>What a command other than the publication may leave permitted.\<close>

definition allowance :: "command \<Rightarrow> batch option \<Rightarrow> ticket_key \<Rightarrow> nat" where
  "allowance c f k = file_permits k f + (case c of
       AuthorizeRetry _ j \<Rightarrow> if k = j then 1 else 0
     | Prepare _ \<Rightarrow> if f = None then 1 else 0
     | _ \<Rightarrow> 0)"

lemma acts_execute:
  assumes "c \<noteq> Publish"
  shows "acts (modest k (allowance c (saved_file s) k)) s (snd (execute S i c s))"
proof (cases c)
  case (Prepare p)
  then show ?thesis
    using acts_prepare_command [of s "allowance c (saved_file s) k" k S i p]
    by (simp add: execute_session allowance_def)
next
  case Export
  have "does (\<lambda>_. True) (request_deeds reads) (export_command S i)" using does_mono [OF does_export_command] by blast
  with Export show ?thesis by (simp add: execute_session acts_reading)
next
  case Status
  then show ?thesis by (simp add: execute_session acts_reading does_status_command)
next
  case (Reconstruct stopped source)
  then show ?thesis
    using acts_reconstruct_command by (simp add: execute_session allowance_def)
next
  case (AuthorizeRetry ack j)
  then show ?thesis
    using acts_authorize_command [of k s j S ack i] by (simp add: execute_session allowance_def)
next
  case (Adopt j n)
  then show ?thesis
    using acts_adopt_command [of k s S i j n] by (simp add: execute_session allowance_def)
qed (use assms in simp)

section \<open>Campaigns\<close>

definition authorizations :: "ticket_key \<Rightarrow> command \<Rightarrow> nat" where
  "authorizations k c = (case c of AuthorizeRetry _ j \<Rightarrow> if j = k then 1 else 0 | _ \<Rightarrow> 0)"

definition is_prepare :: "command \<Rightarrow> bool" where
  "is_prepare c \<longleftrightarrow> (case c of Prepare _ \<Rightarrow> True | _ \<Rightarrow> False)"

text \<open>
  The file of the batch, the creations requested for each ticket and the retries authorized. A
  command runs on the file as it is, with whatever the service and GitHub do, and may be killed
  after any of its deeds \<open>ds\<close>. The file may be lost; a batch is not prepared anew after it was
  published.
\<close>

inductive campaign ::
  "'g service \<Rightarrow> batch_id \<Rightarrow> batch option \<Rightarrow> (ticket_key \<Rightarrow> nat) \<Rightarrow> (ticket_key \<Rightarrow> nat) \<Rightarrow> bool"
  for S :: "'g service" and i :: batch_id where
  begun: "campaign S i None (\<lambda>_. 0) (\<lambda>_. 0)"
| command: "campaign S i f r a \<Longrightarrow> saved_file s = f \<Longrightarrow> deeds s = [] \<Longrightarrow> (is_prepare c \<and> f = None \<longrightarrow> r = (\<lambda>_. 0)) \<Longrightarrow>
     deeds (snd (execute S i c s)) = ds @ rest \<Longrightarrow>
     campaign S i (file_after f ds) (\<lambda>k. r k + creations k ds) (\<lambda>k. a k + authorizations k c)"
| lost: "campaign S i f r a \<Longrightarrow> campaign S i None r a"

lemma publish_deeds:
  assumes "deeds s = []" "saved_file s = Some f" "deeds (snd (publish_command S i s)) = ds @ rest"
  shows "\<exists>w. try_fold watch (f, {}) ds = Inr w"
proof -
  obtain r s' where run: "publish_command S i s = (r, s')" by fastforce
  from assms(2) have "saved_file s = Some (fst (f, {}))" by simp
  from upholdsE [OF upholds_publish_command [where P = "\<lambda>_ _. True"] this TrueI run]
  obtain w' where "watched s (f, {}) s' w'" by blast
  with assms run show ?thesis using watched_prefix by (fastforce simp: watched_def)
qed

lemma publish_no_file:
  assumes "saved_file s = None"
  shows "snd (publish_command S i s) = s"
  using assms by (simp add: publish_command_def read_file_def after_def)

text \<open>The permits of the file and the requests made so far are paid for by the authorizations.\<close>

lemma campaign_permits: "campaign S i f r a \<Longrightarrow> r k + file_permits k f \<le> 1 + a k"
proof (induction rule: campaign.induct)
  case (command f r a s c ds rest)
  show ?case
  proof (cases "c = Publish")
    case True
    then have run: "deeds (snd (publish_command S i s)) = ds @ rest"
      using command.hyps by (simp add: execute_session)
    show ?thesis
    proof (cases f)
      case None
      with run command.hyps have "ds = []" using publish_no_file [of s S i] by simp
      with command.IH True show ?thesis by (simp add: authorizations_def)
    next
      case (Some b)
      with command.hyps have "saved_file s = Some b" by simp
      from publish_deeds [OF command.hyps(3) this run] obtain f' fresh' where w: "try_fold watch (b, {}) ds = Inr (f', fresh')"
        by (metis prod.collapse)
      have "creations k ds + permits k f' \<le> permits k b" using watched_potential [OF w, of k] by (simp split: if_splits)
      moreover have "file_after f ds = Some f'" using trace_file [OF w] Some by simp
      moreover have "r k + permits k b \<le> 1 + a k" using command.IH Some by (simp add: file_permits_def)
      ultimately show ?thesis using True by (simp add: authorizations_def file_permits_def)
    qed
  next
    case False
    have n: "file_permits k (saved_file s) \<le> allowance c (saved_file s) k" by (simp add: allowance_def)
    from acts_modest [OF acts_execute [OF False, of k s S i] command.hyps(3) command.hyps(5) n] command.hyps(2)
    have "creations k ds = 0" "file_permits k (file_after f ds) \<le> allowance c f k" by simp_all
    moreover have "r k + allowance c f k \<le> 1 + (a k + authorizations k c)"
      using command.IH command.hyps(4)
      by (auto simp: allowance_def authorizations_def is_prepare_def file_permits_def split: command.splits option.splits)
    ultimately show ?thesis by simp
  qed
qed (simp_all add: file_permits_def)


section \<open>The loop never stalls\<close>

text \<open>
  The tickets of a valid plan have no cycle, so that among those not created there is one whose
  blockers are.
\<close>

lemma created_key:
  assumes "keyed b" "i < length (saved_tickets b)"
  shows "list_ex (\<lambda>p. progress_key p = ticket_key (plan_tickets (saved_plan b) ! i) \<and> is_created p) (saved_tickets b) \<longleftrightarrow>
    is_created (saved_tickets b ! i)"
proof -
  from assms have keys: "map progress_key (saved_tickets b) = map ticket_key (plan_tickets (saved_plan b))"
    and d: "distinct (map progress_key (saved_tickets b))" unfolding keyed_def by blast+
  have len: "length (saved_tickets b) = length (plan_tickets (saved_plan b))" using keys by (metis length_map)
  have key: "ticket_key (plan_tickets (saved_plan b) ! i) = progress_key (saved_tickets b ! i)"
    using keys assms(2) len by (metis nth_map)
  have "j = i" if "j < length (saved_tickets b)" "progress_key (saved_tickets b ! j) = progress_key (saved_tickets b ! i)" for j
    using d that assms(2) by (metis (no_types, lifting) distinct_conv_nth length_map nth_map)
  with assms(2) show ?thesis unfolding list_ex_length key by blast
qed

lemma ready_exists:
  assumes "keyed b" "plan_ok (saved_plan b)" "\<not> all_created b"
  shows "\<exists>i < length (saved_tickets b). \<not> is_created (saved_tickets b ! i) \<and> blockers_created b (plan_tickets (saved_plan b) ! i)"
proof -
  let ?ts = "plan_tickets (saved_plan b)"
  from assms(1) have len: "length (saved_tickets b) = length ?ts" unfolding keyed_def by (metis length_map)
  have "blocks ?ts = (\<Union>t \<in> set ?ts. \<Union>bl \<in> set (blockers t). case bl of BTicket k \<Rightarrow> {(k, ticket_key t)} | BIssue _ \<Rightarrow> {})"
    by (force simp: blocks_def split: blocker.splits)
  then have "finite (blocks ?ts)" by (auto split: blocker.split)
  then have wf: "wf (blocks ?ts)" using assms(2) by (simp add: finite_acyclic_wf plan_ok_def)
  let ?Q = "{ticket_key (?ts ! i) | i. i < length ?ts \<and> \<not> is_created (saved_tickets b ! i)}"
  obtain j where "j < length ?ts" "\<not> is_created (saved_tickets b ! j)"
    using assms(3) len by (auto simp: all_created_def list_all_length)
  then have "ticket_key (?ts ! j) \<in> ?Q" by blast
  from wfE_min [OF wf this] obtain q where q: "q \<in> ?Q" and least: "\<And>y. (y, q) \<in> blocks ?ts \<Longrightarrow> y \<notin> ?Q" by blast
  then obtain i where i: "i < length ?ts" "\<not> is_created (saved_tickets b ! i)" "q = ticket_key (?ts ! i)" by blast
  have "list_ex (\<lambda>p. progress_key p = k \<and> is_created p) (saved_tickets b)" if k: "BTicket k \<in> set (blockers (?ts ! i))" for k
  proof -
    have "k \<in> ticket_key ` set ?ts" using assms(2) nth_mem [OF i(1)] k unfolding plan_ok_def by blast
    then obtain n where n: "n < length ?ts" "k = ticket_key (?ts ! n)" by (auto simp: in_set_conv_nth)
    have "(k, q) \<in> blocks ?ts" using i k unfolding blocks_def by (auto intro!: exI [of _ "?ts ! i"])
    with least n have "is_created (saved_tickets b ! n)" by blast
    with created_key [OF assms(1)] n len show ?thesis by simp
  qed
  with i len show ?thesis by (auto simp: blockers_created_def list_all_iff split: blocker.split intro!: exI [of _ i])
qed

lemma first_ready_finds:
  assumes "\<And>i t. (i, t) \<in> set its \<Longrightarrow> i < length (saved_tickets b)"
    and "(j, u) \<in> set its" "\<not> is_created (saved_tickets b ! j)" "blockers_created b u"
  shows "\<exists>it. first_ready b its = Inr (Some it)"
  using assms
proof (induction its)
  case (Cons it its)
  obtain i t where it: "it = (i, t)" by fastforce
  with Cons.prems(1) [of i t] have "i < length (saved_tickets b)" by simp
  then have "ready b it = Inr (\<not> is_created (saved_tickets b ! i) \<and> blockers_created b t)"
    by (simp add: it ready_def blockers_created_def)
  with Cons it show ?case by (cases "\<not> is_created (saved_tickets b ! i) \<and> blockers_created b t") auto
qed simp

lemma next_ticket_finds:
  assumes "keyed b" "plan_ok (saved_plan b)" "\<not> all_created b"
  shows "\<exists>i t. next_ticket b = Inr (Some (i, t)) \<and> chosen b i t"
proof -
  from assms(1) have len: "length (saved_tickets b) = length (plan_tickets (saved_plan b))" unfolding keyed_def by (metis length_map)
  from ready_exists [OF assms] obtain i where i: "i < length (saved_tickets b)" "\<not> is_created (saved_tickets b ! i)"
    "blockers_created b (plan_tickets (saved_plan b) ! i)" by blast
  then have "(i, plan_tickets (saved_plan b) ! i) \<in> set (List.enumerate 0 (plan_tickets (saved_plan b)))"
    using len by (simp add: in_set_enumerate_eq)
  from first_ready_finds [OF _ this i(2,3)] len
  have "\<exists>it. first_ready b (List.enumerate 0 (plan_tickets (saved_plan b))) = Inr (Some it)"
    by (auto simp: in_set_enumerate_eq)
  then obtain i t where next': "next_ticket b = Inr (Some (i, t))" unfolding next_ticket_def by fastforce
  with next_ticket_chosen [OF this assms(1)] show ?thesis by blast
qed

section \<open>A save directly before every change\<close>

text \<open>
  \<open>ahead j ds\<close>: a request that changes GitHub comes directly after a replacement of the file; \<open>j\<close> says
  that the deed before \<open>ds\<close> is one. \<open>prompt j m j'\<close>: so do the deeds of the step \<open>m\<close> after such a
  beginning, and if the step returns and \<open>j'\<close> holds then its last deed is a replacement.
\<close>

definition mutates :: "deed \<Rightarrow> bool" where
  "mutates d \<longleftrightarrow> d \<in> request_deeds (- reads)"

definition is_commit :: "deed \<Rightarrow> bool" where
  "is_commit d \<longleftrightarrow> d \<in> commits"

primrec ahead :: "bool \<Rightarrow> deed list \<Rightarrow> bool" where
  "ahead j [] \<longleftrightarrow> True"
| "ahead j (d # ds) \<longleftrightarrow> (mutates d \<longrightarrow> j) \<and> ahead (is_commit d) ds"

definition flag :: "bool \<Rightarrow> deed list \<Rightarrow> bool" where
  "flag j ds = foldl (\<lambda>_. is_commit) j ds"

definition prompt :: "bool \<Rightarrow> ('g, 'a) pub \<Rightarrow> bool \<Rightarrow> bool" where
  "prompt j m j' \<longleftrightarrow> (\<forall>s. \<exists>ds. deeds (snd (m s)) = deeds s @ ds \<and> ahead j ds \<and>
     ((\<exists>x. fst (m s) = Inr x) \<longrightarrow> j' \<longrightarrow> flag j ds))"

lemma flag_simps [simp]: "flag j [] = j" "flag j (d # ds) = flag (is_commit d) ds" "flag j (ds @ ds') = flag (flag j ds) ds'"
  by (simp_all add: flag_def)

lemma ahead_append: "ahead j (ds @ ds') \<longleftrightarrow> ahead j ds \<and> ahead (flag j ds) ds'"
  by (induction ds arbitrary: j) auto

lemma ahead_mono: "ahead j ds \<Longrightarrow> (j \<longrightarrow> j') \<Longrightarrow> ahead j' ds"
  by (cases ds) auto

lemma flag_mono: "flag j ds \<Longrightarrow> (j \<longrightarrow> j') \<Longrightarrow> flag j' ds"
  by (cases ds) auto

lemma ahead_before:
  assumes "ahead False (pre @ d # post)" "mutates d"
  shows "\<exists>b pre'. pre = pre' @ [Committed b]"
  using assms
  by (cases pre rule: rev_cases) (auto simp: ahead_append is_commit_def commits_def)

text \<open>The rules.\<close>

lemma prompt_conseq: "prompt j m k \<Longrightarrow> (j \<longrightarrow> j') \<Longrightarrow> (k' \<longrightarrow> k) \<Longrightarrow> prompt j' m k'"
  unfolding prompt_def by (fast elim: ahead_mono flag_mono)

lemma prompt_after:
  assumes m: "prompt j m j1" and k: "\<And>x. prompt j1 (k x) j2"
  shows "prompt j (after m k) j2"
  unfolding prompt_def
proof
  fix s :: "'a session"
  obtain r s1 where r: "m s = (r, s1)" by fastforce
  from m r obtain ds where ds: "deeds s1 = deeds s @ ds" "ahead j ds" "(\<exists>x. r = Inr x) \<longrightarrow> j1 \<longrightarrow> flag j ds"
    unfolding prompt_def by (metis fst_conv snd_conv)
  show "\<exists>ds. deeds (snd (after m k s)) = deeds s @ ds \<and> ahead j ds \<and>
      ((\<exists>x. fst (after m k s) = Inr x) \<longrightarrow> j2 \<longrightarrow> flag j ds)"
  proof (cases r)
    case (Inl e)
    with r ds show ?thesis by (auto simp: after_def)
  next
    case (Inr x)
    from k [of x] obtain ds' where ds': "deeds (snd (k x s1)) = deeds s1 @ ds'" "ahead j1 ds'"
      "(\<exists>y. fst (k x s1) = Inr y) \<longrightarrow> j2 \<longrightarrow> flag j1 ds'" unfolding prompt_def by blast
    from Inr ds(3) have j1: "j1 \<longrightarrow> flag j ds" by blast
    then have "ahead j (ds @ ds')" using ds(2) ahead_mono [OF ds'(2)] by (simp add: ahead_append)
    moreover have "(\<exists>y. fst (k x s1) = Inr y) \<longrightarrow> j2 \<longrightarrow> flag j (ds @ ds')" using ds'(3) flag_mono j1 by auto
    ultimately show ?thesis using r Inr ds(1) ds'(1) by (intro exI [of _ "ds @ ds'"]) (simp add: after_def)
  qed
qed

lemma prompt_does:
  assumes "does (\<lambda>_. True) (- request_deeds (- reads)) m"
  shows "prompt j m False"
  unfolding prompt_def
proof
  fix s :: "'a session"
  from assms obtain ds where ds: "deeds (snd (m s)) = deeds s @ ds" "set ds \<subseteq> - request_deeds (- reads)"
    by (auto simp: does_def acts_def)
  have "ahead j ds" using ds(2) by (induction ds arbitrary: j) (auto simp: mutates_def)
  with ds(1) show "\<exists>ds. deeds (snd (m s)) = deeds s @ ds \<and> ahead j ds \<and> ((\<exists>x. fst (m s) = Inr x) \<longrightarrow> False \<longrightarrow> flag j ds)" by blast
qed

lemma prompt_quiet: "does (\<lambda>_. True) {} m \<Longrightarrow> prompt j m j"
  by (auto simp: does_def acts_def prompt_def intro!: exI [of _ "[]"])

lemma prompt_deeds: "prompt j m j' \<Longrightarrow> set (deeds s) \<subseteq> set (deeds (snd (m s)))"
  unfolding prompt_def by (metis Un_upper1 set_append)

text \<open>What does not change GitHub.\<close>

lemma harmless [simp]:
  "request_deeds reads \<subseteq> - request_deeds (- reads)" "Emitted (StepVerified c st) \<notin> request_deeds (- reads)"
  "Emitted (PublicationCompleted st') \<notin> request_deeds (- reads)" "Emitted (PublicationStopped op st') \<notin> request_deeds (- reads)"
  "Committed b \<notin> request_deeds (- reads)"
  by (auto simp: request_deeds_def)

lemma prompt_save: "prompt j (save S) True"
proof -
  have d: "deeds (snd (save S s)) = deeds s \<and> (\<forall>x. fst (save S s) \<noteq> Inr x) \<or>
      (\<exists>b. deeds (snd (save S s)) = deeds s @ [Committed b])" for s
    by (auto simp: save_def write_file_def check_batch_def after_def split: sum.splits commit_result.splits)
  show ?thesis
    unfolding prompt_def
  proof
    fix s :: "'a session"
    from d [of s] show "\<exists>ds. deeds (snd (save S s)) = deeds s @ ds \<and> ahead j ds \<and> ((\<exists>x. fst (save S s) = Inr x) \<longrightarrow> True \<longrightarrow> flag j ds)"
      by (elim disjE exE conjE) (auto simp: mutates_def is_commit_def commits_def request_deeds_def intro!: exI [of _ "[]"] exI [of _ "[Committed _]"])
  qed
qed

lemma prompt_request: "prompt True (request c k f) False"
proof -
  have "deeds (snd (request c k f s)) = deeds s \<or> (\<exists>d. deeds (snd (request c k f s)) = deeds s @ [d])" for s
    by (auto simp: request_def started_def emit_def some_or_def Let_def after_def split: option.splits)
  then show ?thesis unfolding prompt_def by (metis ahead.simps append.right_neutral)
qed

lemma prompt_if: "(b \<Longrightarrow> prompt j m j') \<Longrightarrow> (\<not> b \<Longrightarrow> prompt j n j') \<Longrightarrow> prompt j (if b then m else n) j'"
  by simp

lemma prompt_each: "(\<And>x. prompt False (f x) False) \<Longrightarrow> prompt False (each f xs) False"
  by (induction xs) (auto intro: prompt_after prompt_quiet does)

lemma prompt_attempt: "prompt j m False \<Longrightarrow> prompt j (attempt m) False"
  unfolding prompt_def by (metis attempt_session)


lemma prompt_option:
  "prompt j m j' \<Longrightarrow> (\<And>x. prompt j (f x) j') \<Longrightarrow> prompt j (case a of None \<Rightarrow> m | Some x \<Rightarrow> f x) j'"
  by (cases a) simp_all

text \<open>A save and the request that follows it.\<close>

lemma prompt_change: "(\<And>x. prompt False (k x) False) \<Longrightarrow> prompt False (after (save S) (\<lambda>_. after (request c kind f) k)) False"
  by (intro prompt_after [OF prompt_save] prompt_after [OF prompt_request])

text \<open>The steps that do not change GitHub, and the ways to compose steps.\<close>

lemma prompt_harmless:
  "prompt j (give x) False" "prompt j (stop e) False" "prompt j (from_outcome r) False" "prompt j (get f) False"
  "prompt j (require c e) False" "prompt j (change_memory g) False" "prompt j (save S) False" "prompt j (verified ctx st) False"
  "prompt j (check_content title body i) False" "prompt j (decode_issue e' a) False"
  by (intro prompt_does does does_change_memory does_save does_verified; simp)+

lemma prompt_reads:
  "prompt j (find_marked S c mk) False" "prompt j (read_issue S c n) False" "prompt j (check_remote_ticket S c b i) False"
  "prompt j (relationships S c n r) False" "prompt j (check_parent S c issue p children) False" "prompt j (rel_contains rs issue) False"
  "prompt j (read_graph S c b) False" "prompt j (observe_graph S c b) False" "prompt j (observe_labels S c b) False"
  "prompt j (label_ticket S c b i) False" "prompt j (observe_batch S c b) False" "prompt j (preflight_capacity S c b observed) False"
  "prompt j (read_file S batch) False"
  by (intro prompt_does does does_read_file; simp)+

lemmas prompt_steps = prompt_after [where j = False and ?j1.0 = False and ?j2.0 = False] prompt_if prompt_option prompt_each prompt_harmless prompt_reads

section \<open>Publication\<close>

lemma prompt_intend: "prompt False (intend_and_create S c i title body) False"
  unfolding intend_and_create_def create_issue_def
  by (rule prompt_after [OF prompt_harmless(6)], rule prompt_after [OF prompt_save], rule prompt_after [OF prompt_request])
    (rule prompt_steps)+

lemma prompt_created_issue: "prompt False (created_issue S c observed i p title body) False"
proof -
  have "prompt False (resume_creation S c i p title body found) False" for found
    unfolding resume_creation_def
    by (cases found) (simp_all add: prompt_intend prompt_harmless)
  then show ?thesis
    unfolding created_issue_def by (intro prompt_steps prompt_intend) simp_all
qed

lemma does_save_created: "does (\<lambda>_. True) (- request_deeds (- reads)) (save_created S i)"
proof -
  have "acts A s (snd (save S s)) \<Longrightarrow> acts A s (snd (save_created S i s))" for A and s :: "'a session"
    by (auto simp: save_created_def split: prod.splits sum.splits failure.splits)
  moreover have "does (\<lambda>_. True) (- request_deeds (- reads)) (save S)" by (rule does_save) simp
  ultimately show ?thesis by (simp add: does_def)
qed

lemma prompt_create_ticket: "prompt False (create_ticket S c observed it) False"
proof -
  have "does (\<lambda>_. True) (- request_deeds (- reads)) (record_ticket S c i title body r)" for c i title body r
    unfolding record_ticket_def by (intro does does_change_memory does_save_created does_verified) simp_all
  then show ?thesis
    unfolding create_ticket_def
    by (cases it) (simp only: prod.case, intro prompt_steps prompt_created_issue prompt_does)
qed

lemma prompt_creation_loop: "prompt False (creation_loop S c observed) False"
proof -
  have "\<exists>ds. deeds (snd (creation_loop S c observed s)) = deeds s @ ds \<and> ahead False ds" for s
  proof (induction S c observed s rule: creation_loop.induct)
    case (1 S c observed s)
    show ?case
    proof (cases "next_ticket (memory s)")
      case (Inr o')
      show ?thesis
      proof (cases o')
        case (Some it)
        obtain r s1 where run: "create_ticket S c observed it s = (r, s1)" by fastforce
        from prompt_create_ticket [of S c observed it] run obtain ds where ds: "deeds s1 = deeds s @ ds" "ahead False ds"
          unfolding prompt_def by (metis snd_conv)
        show ?thesis
        proof (cases r)
          case (Inr u)
          from 1 [OF \<open>next_ticket (memory s) = Inr o'\<close> Some run [symmetric] Inr] obtain ds' where
            "deeds (snd (creation_loop S c observed s1)) = deeds s1 @ ds'" "ahead False ds'" by blast
          with ds run Inr Some \<open>next_ticket (memory s) = Inr o'\<close> show ?thesis
            by (subst creation_loop.simps) (auto simp: ahead_append intro: ahead_mono)
        qed (use ds run Some Inr in \<open>subst creation_loop.simps, simp\<close>)
      qed (use Inr in \<open>subst creation_loop.simps, simp\<close>)
    qed (subst creation_loop.simps, simp)
  qed
  then show ?thesis unfolding prompt_def by blast
qed

lemma prompt_links:
  "prompt False (ensure_parent S c i issue p) False" "prompt False (ensure_dependency S c i issue bl) False"
  unfolding ensure_parent_def ensure_dependency_def add_child_def add_blocker_def count_parent_link_def count_dependency_link_def Let_def
  by (rule prompt_change | rule prompt_steps)+

lemma prompt_run_graph: "prompt False (run_graph S c) False"
proof -
  have "prompt False (link_ticket S c p it) False" for c p it
    by (cases it) (simp only: link_ticket_def prod.case, intro prompt_steps prompt_links)
  then show ?thesis
    unfolding run_graph_def set_graph_def Let_def by (intro prompt_steps)
qed

lemma prompt_publish_label: "prompt False (publish_label S c i) False"
proof -
  have refresh: "prompt False (refresh_label S c i) False" for c
    unfolding refresh_label_def set_labels_def by (intro prompt_steps)
  have add: "prompt False (after (save S) (\<lambda>_.
       after (from_outcome r) (\<lambda>p.
       after (case progress_status p of Created m \<Rightarrow> give m | _ \<Rightarrow> stop e) (\<lambda>m.
       after (add_labels S c (mapping_number m) l) k)))) False" if "\<And>x. prompt False (k x) False" for c r e l k
    unfolding add_labels_def using that
    by (intro prompt_after [OF prompt_save] prompt_after [OF prompt_quiet] prompt_after [OF prompt_request] does)
  show ?thesis
    unfolding publish_label_def unverify_labels_def Let_def
    by (rule add | rule refresh | rule prompt_steps)+
qed

lemma prompt_run_labels: "prompt False (run_labels S c) False"
  unfolding run_labels_def final_verification_def set_labels_def set_graph_def Let_def
  by (intro prompt_steps prompt_publish_label)

lemma prompt_publish_command: "prompt False (publish_command S i) False"
proof -
  have finish: "prompt False (finish st) False" for st
    unfolding finish_def by (intro prompt_does does does_emit) simp
  have "prompt False (run_publish S c) False" for c
    unfolding run_publish_def by (intro prompt_steps prompt_creation_loop prompt_run_graph prompt_run_labels)
  then have attempt: "prompt False (attempt (run_publish S c)) False" for c by (rule prompt_attempt)
  have "prompt False (case r of Inl _ \<Rightarrow> change_memory withdraw_verification | Inr _ \<Rightarrow> give ()) False" for r :: "pub_error + unit"
    by (cases r) (simp_all only: sum.case prompt_harmless)
  then have "prompt False (publication S c) False" for c
    unfolding publication_def Let_def by (intro prompt_steps attempt finish)
  then show ?thesis
    unfolding publish_command_def set_memory_def case_prod_beta by (intro prompt_steps)
qed

text \<open>So a publisher saves directly before every change.\<close>

lemma publish_saves_before:
  assumes "deeds s = []" "deeds (snd (publish_command S i s)) = pre @ Emitted (RemoteOperationStarted op) # post" "op_kind op \<notin> reads"
  shows "\<exists>pre' b. pre = pre' @ [Committed b]"
proof -
  from prompt_publish_command [of S i] have "ahead False (deeds (snd (publish_command S i s)))"
    using assms(1) unfolding prompt_def by (metis append_Nil)
  with assms(2,3) ahead_before show ?thesis by (force simp: mutates_def request_deeds_def)
qed

end
