(* ===== verification/Ticket_Publication_Theorems.thy ===== *)
theory Ticket_Publication_Theorems imports Ticket_Campaign begin

section \<open>A small repository\<close>

text \<open>
  The witnesses use a plan with one ticket and a service that keeps two bits: whether the issue of
  the ticket exists, and whether it has its parent.
\<close>

definition demo_plan :: plan where
  "demo_plan = \<lparr>plan_version = 1, repository = lit ''LowkeyLab/bazel-repo'', parent = 7,
     plan_tickets = [\<lparr>ticket_key = lit ''a'', ticket_title = lit ''T'', ticket_body = lit ''B'', ticket_labels = [], blockers = []\<rparr>]\<rparr>"

definition demo_body :: rstring where
  "demo_body = lit ''B'' @ [10, 10] @ ticket_marker (lit ''1f'') (lit ''a'')"

definition demo_parent :: remote_issue where
  "demo_parent = \<lparr>remote_number = 7, remote_id = 70, remote_node = lit ''P'', remote_title = lit ''Parent'', remote_body = None,
     remote_repository = repository_url, remote_labels = Some [], is_pull_request = False\<rparr>"

definition demo_child :: remote_issue where
  "demo_child = \<lparr>remote_number = 8, remote_id = 80, remote_node = lit ''C'', remote_title = lit ''T'', remote_body = Some demo_body,
     remote_repository = repository_url, remote_labels = Some [], is_pull_request = False\<rparr>"

definition demo_service :: "(bool \<times> bool) service" where
  "demo_service = \<lparr>
     get_issue = \<lambda>n (made, linked). (if n = 7 then Some demo_parent else if made \<and> n = 8 then Some demo_child else None, made, linked),
     get_issues = \<lambda>(made, linked). (Some (Some [Some (if made then [(False, Some demo_child)] else [])]), made, linked),
     post_issue = \<lambda>title body (made, linked). (Some demo_child, True, linked),
     get_related = \<lambda>n r (made, linked). (Some (Some [Some (if n = 7 \<and> linked then [(False, Some demo_child)] else [])]), made, linked),
     query_parent = \<lambda>node (made, linked). (Some \<lparr>has_errors = False, has_node = True, has_parent_key = True,
       answered_node = Some (node, if linked then Some (lit ''P'') else None)\<rparr>, made, linked),
     post_child = \<lambda>p c (made, linked). (Some (), made, True),
     post_blocker = \<lambda>p c (made, linked). (None, made, linked),
     post_labels = \<lambda>n ls (made, linked). (None, made, linked),
     commit = \<lambda>b (made, linked). (CommittedDurably, made, linked),
     fingerprint = \<lambda>p. Some []\<rparr>"

definition demo_batch :: "ticket_status \<Rightarrow> batch" where
  "demo_batch st = \<lparr>batch_version = 1, saved_id = lit ''1f'', plan_fingerprint = [], saved_plan = demo_plan,
     saved_tickets = [\<lparr>progress_key = lit ''a'', marker = ticket_marker (lit ''1f'') (lit ''a''), progress_status = st\<rparr>],
     saved_graph = no_graph, saved_labels = \<lparr>labels_checked = False, labels_tickets = [], labels_verified = False\<rparr>\<rparr>"

definition demo_session :: "batch option \<Rightarrow> (bool \<times> bool) session" where
  "demo_session f = \<lparr>remote = (False, False), saved_file = f, memory = demo_batch Pending, deeds = [], sequence = 0,
     last_operation = None\<rparr>"

lemma demo_plan_checks: "plan_check demo_plan = Inr ()"
  by (simp add: plan_check_def demo_plan_def max_sub_issues_def check_ticket_def trim_def
      is_whitespace_def reserved_marker_def check_label_def is_control_def to_ascii_lowercase_def is_triage_label_def
      check_each_def check_blockers_def check_dependency_limits_def uniques_def max_dependencies_def
      check_order.simps resolve_pass_def unblocked_def Let_def card_insert_if)

text \<open>Saves accept every batch that differs from it in the status of the ticket and the observations.\<close>

lemma demo_accepted:
  assumes "i = lit ''1f''" "saved_plan b = demo_plan" "saved_id b = i" "batch_version b = 1" "plan_fingerprint b = []"
    "saved_tickets b = [\<lparr>progress_key = lit ''a'', marker = ticket_marker (lit ''1f'') (lit ''a''), progress_status = st\<rparr>]"
    "\<And>m. st = Created m \<Longrightarrow> mapping_number m \<noteq> 7"
  shows "batch_check (fingerprint demo_service) b i = Inr ()"
  unfolding batch_check_Inr
  using assms demo_plan_checks
  by (auto simp: plan_check_Inr demo_service_def demo_plan_def distinct_mappings_def created_simps split: ticket_status.splits)


lemma demo_identities [simp]: "valid_identity demo_parent" "valid_identity demo_child"
  by (simp_all add: valid_identity_def demo_parent_def demo_child_def u64_max_def issue_node_try_from_def is_whitespace_def is_control_def)

lemma demo_issues [simp]: "remote_number demo_parent = 7" "remote_number demo_child = 8" "\<not> is_pull_request demo_parent"
  "\<not> is_pull_request demo_child" "remote_repository demo_parent = repository_url" "remote_repository demo_child = repository_url"
  "remote_title demo_child = lit ''T''" "remote_body demo_child = Some demo_body" "remote_labels demo_child = Some []"
  "remote_node demo_child = lit ''C''" "remote_id demo_child = 80" "remote_id demo_parent = 70" "remote_node demo_parent = lit ''P''"
  by (simp_all add: demo_parent_def demo_child_def)

lemma request_run:
  "sequence s < 1000 \<Longrightarrow> f (remote s) = (Some x, g) \<Longrightarrow>
     request c k f s = (Inr x, s\<lparr>remote := g, deeds := deeds s @ [Emitted (RemoteOperationStarted \<lparr>op_context = c, op_kind = k, op_sequence = sequence s + 1\<rparr>)],
       sequence := sequence s + 1, last_operation := Some \<lparr>op_context = c, op_kind = k, op_sequence = sequence s + 1\<rparr>\<rparr>)"
  by (simp add: request_def started_def u64_max_def Let_def emit_def)

lemma demo_fields [simp]:
  "get_issue demo_service n g = (if n = 7 then Some demo_parent else if fst g \<and> n = 8 then Some demo_child else None, g)"
  "get_issues demo_service g = (Some (Some [Some (if fst g then [(False, Some demo_child)] else [])]), g)"
  "post_issue demo_service t body g = (Some demo_child, True, snd g)"
  "get_related demo_service n r g = (Some (Some [Some (if n = 7 \<and> snd g then [(False, Some demo_child)] else [])]), g)"
  "query_parent demo_service nd g = (Some \<lparr>has_errors = False, has_node = True, has_parent_key = True,
       answered_node = Some (nd, if snd g then Some (lit ''P'') else None)\<rparr>, g)"
  "post_child demo_service p c g = (Some (), fst g, True)"
  "commit demo_service b g = (CommittedDurably, g)"
  by (simp_all add: demo_service_def split_beta)

lemma demo_plan_fields [simp]: "plan_tickets demo_plan = [\<lparr>ticket_key = lit ''a'', ticket_title = lit ''T'', ticket_body = lit ''B'', ticket_labels = [], blockers = []\<rparr>]"
  "parent demo_plan = 7"
  by (simp_all add: demo_plan_def)

lemmas demo_reading = read_issue_def decode_issue_def check_repository_def check_content_def enumerate_issues_def enumerate_page_def
  enumerate_entry_def relationships_def relationship_page_def relationship_entry_def read_parent_def Let_def

lemma split_url: "strip_prefix (lit ''https://api.github.com/repos/'') repository_url = Some (lit ''LowkeyLab/bazel-repo'')"
  "repository_path_ok (lit ''LowkeyLab/bazel-repo'')"
  by (simp_all add: strip_prefix_def repository_url_def repository_path_ok_def)

lemma demo_nodes: "issue_node_try_from (lit ''P'') = Inr (lit ''P'')" "issue_node_try_from (lit ''C'') = Inr (lit ''C'')"
  by (simp_all add: issue_node_try_from_def is_whitespace_def is_control_def)

lemma demo_saves:
  "saved_plan (memory s) = demo_plan \<Longrightarrow> saved_id (memory s) = lit ''1f'' \<Longrightarrow> batch_version (memory s) = 1 \<Longrightarrow> plan_fingerprint (memory s) = [] \<Longrightarrow>
    saved_tickets (memory s) = [\<lparr>progress_key = lit ''a'', marker = ticket_marker (lit ''1f'') (lit ''a''), progress_status = st\<rparr>] \<Longrightarrow>
    st \<in> {Pending, Creating, Created (issue_mapping_of demo_child)} \<Longrightarrow>
    save demo_service s = (Inr (), s\<lparr>saved_file := Some (memory s), deeds := deeds s @ [Committed (memory s)]\<rparr>)"
  using demo_accepted [of "lit ''1f''" "memory s" st]
  by (auto simp: save_def check_batch_def write_file_def issue_mapping_of_def)

lemma demo_run_create:
  "remote s = (False, False) \<Longrightarrow> memory s = demo_batch Pending \<Longrightarrow> sequence s < 100 \<Longrightarrow>
   \<exists>s'. creation_loop demo_service client [None] s = (Inr (), s') \<and> remote s' = (True, False) \<and>
      memory s' = demo_batch (Created (issue_mapping_of demo_child)) \<and> sequence s' < 200 \<and>
      (\<exists>op. op_kind op = CreateIssue \<and> Emitted (RemoteOperationStarted op) \<in> set (deeds s'))"
  by (simp add: demo_batch_def creation_loop.simps next_ticket_def ready_def is_created_def create_ticket_def context_ticket_def created_issue_def
     intend_and_create_def set_status_def demo_saves create_issue_def request_run demo_reading record_ticket_def
     published_text_def demo_body_def save_created_def verified_def emit_def as_conflict_def)
    (rule exI, rule conjI [rotated], rule disjI1, rule refl, simp)

lemma demo_run_checks:
  "remote s = (False, False) \<Longrightarrow> sequence s < 50 \<Longrightarrow>
   \<exists>s'. observe_batch demo_service client (demo_batch Pending) s = (Inr [None], s') \<and> remote s' = (False, False) \<and>
     memory s' = memory s \<and> sequence s' < 60"
  by (simp add: demo_batch_def observe_batch_def observe_ticket_def is_created_def request_run demo_reading)

lemma demo_run_capacity:
  "remote s = (False, False) \<Longrightarrow> sequence s < 60 \<Longrightarrow>
   \<exists>s'. preflight_capacity demo_service client (demo_batch Pending) [None] s = (Inr (), s') \<and> remote s' = (False, False) \<and>
     memory s' = memory s \<and> sequence s' < 70"
  by (simp add: demo_batch_def preflight_capacity_def request_run demo_reading planned_edges_def planned_observed_def
     preflight_dependencies_def check_direction_def usize_max_def max_sub_issues_def)

abbreviation "demo_made \<equiv> demo_batch (Created (issue_mapping_of demo_child))"

lemma demo_run_read_graph:
  "remote s = (True, linked) \<Longrightarrow> sequence s < 900 \<Longrightarrow> saved_tickets b = saved_tickets demo_made \<Longrightarrow> saved_plan b = demo_plan \<Longrightarrow>
   \<exists>s'. read_graph demo_service c b s = (Inr \<lparr>graph_parent = issue_mapping_of demo_parent,
        graph_tickets = [\<lparr>graph_issue = issue_mapping_of demo_child, parent_present = linked, missing_blockers = []\<rparr>],
        observed_graph = \<lparr>parent_links = (if linked then 1 else 0), dependency_links = 0, graph_verified = linked\<rparr>\<rparr>, s') \<and>
     remote s' = (True, linked) \<and> memory s' = memory s \<and> saved_file s' = saved_file s \<and> sequence s' < sequence s + 10"
  by (cases linked) (simp_all del: lit_simps add: demo_batch_def demo_nodes read_graph_def request_run demo_reading split_url issue_mapping_of_def
     duplicate_identity_def read_step_def read_ticket_def saved_mapping_def context_ticket_def check_remote_ticket_def published_text_def
     demo_body_def check_parent_def decode_node_def rel_matches_def no_graph_def)


lemma demo_run_label:
  "remote s = (True, linked) \<Longrightarrow> sequence s < 900 \<Longrightarrow> saved_tickets b = saved_tickets demo_made \<Longrightarrow> saved_plan b = demo_plan \<Longrightarrow>
   \<exists>s'. label_ticket demo_service c b 0 s = (Inr \<lparr>label_key = lit ''a'', applied = [], remaining = []\<rparr>, s') \<and>
     remote s' = (True, linked) \<and> memory s' = memory s \<and> saved_file s' = saved_file s \<and> sequence s' < sequence s + 3"
  by (simp add: demo_batch_def label_ticket_def request_run demo_reading issue_mapping_of_def context_ticket_def
     check_remote_ticket_def saved_mapping_def published_text_def demo_body_def issue_labels_def triage_labels_def)

lemma demo_run_children:
  "remote s = (True, linked) \<Longrightarrow> sequence s < 900 \<Longrightarrow>
   \<exists>s'. relationships demo_service c 7 ''sub_issues'' s = (Inr (if linked then [\<lparr>rel_repository = repository_url, rel_mapping = issue_mapping_of demo_child\<rparr>] else []), s') \<and>
     remote s' = (True, linked) \<and> memory s' = memory s \<and> saved_file s' = saved_file s \<and> sequence s' = sequence s + 1"
  by (cases linked) (simp_all del: lit_simps add: demo_nodes request_run demo_reading split_url issue_mapping_of_def duplicate_identity_def)

lemma demo_run_check_parent:
  "remote s = (True, linked) \<Longrightarrow> sequence s < 900 \<Longrightarrow>
   \<exists>s'. check_parent demo_service c (issue_mapping_of demo_child) (issue_mapping_of demo_parent)
      (if linked then [\<lparr>rel_repository = repository_url, rel_mapping = issue_mapping_of demo_child\<rparr>] else []) s = (Inr linked, s') \<and>
     remote s' = (True, linked) \<and> memory s' = memory s \<and> saved_file s' = saved_file s \<and> sequence s' = sequence s + 1"
  by (cases linked) (simp_all del: lit_simps add: demo_nodes request_run demo_reading split_url issue_mapping_of_def check_parent_def
      decode_node_def rel_matches_def)

lemma demo_run_save:
  "memory s = demo_made\<lparr>saved_graph := g\<rparr> \<Longrightarrow> \<exists>s'. save demo_service s = (Inr (), s') \<and> memory s' = memory s \<and> remote s' = remote s \<and> sequence s' = sequence s"
  by (simp del: lit_simps add: demo_batch_def demo_saves issue_mapping_of_def)


lemma demo_run_remote_ticket:
  "remote s = (True, linked) \<Longrightarrow> sequence s < 900 \<Longrightarrow> saved_tickets b = saved_tickets demo_made \<Longrightarrow> saved_plan b = demo_plan \<Longrightarrow>
   \<exists>s'. check_remote_ticket demo_service c b 0 s = (Inr demo_child, s') \<and>
     remote s' = (True, linked) \<and> memory s' = memory s \<and> saved_file s' = saved_file s \<and> sequence s' = sequence s + 1"
  by (simp add: demo_batch_def request_run demo_reading issue_mapping_of_def
     check_remote_ticket_def saved_mapping_def published_text_def demo_body_def)

lemma demo_run_parent:
  assumes "remote s = (True, False)" "sequence s < 500" "memory s = demo_made\<lparr>saved_graph := g\<rparr>"
  shows "\<exists>s'. ensure_parent demo_service c 0 (issue_mapping_of demo_child) (issue_mapping_of demo_parent) s = (Inr (), s') \<and>
     remote s' = (True, True) \<and> memory s' = demo_made\<lparr>saved_graph := g\<lparr>parent_links := parent_links g + 1\<rparr>\<rparr> \<and> sequence s' < sequence s + 20"
proof -
  let ?b = "demo_made\<lparr>saved_graph := g\<rparr>" and ?b' = "demo_made\<lparr>saved_graph := g\<lparr>parent_links := parent_links g + 1\<rparr>\<rparr>"
  have b: "saved_tickets ?b = saved_tickets demo_made" "saved_plan ?b = demo_plan" by (simp_all add: demo_batch_def)
  obtain ctx :: progress_context where ctx: "context_ticket ParentLinks ?b 0 = (Inr ctx :: (pub_error, progress_context) outcome)"
    by (simp add: demo_batch_def context_ticket_def)
  define c1 where "c1 = scope c (related_issue ?b (mapping_number (issue_mapping_of demo_parent)) ctx)"
  have p: "mapping_number (issue_mapping_of demo_parent) = 7" by (simp add: issue_mapping_of_def)
  obtain s1 where 1: "check_remote_ticket demo_service c1 ?b 0 s = (Inr demo_child, s1)" "remote s1 = (True, False)"
    "memory s1 = ?b" "sequence s1 = sequence s + 1" using demo_run_remote_ticket [OF assms(1) _ b, of c1] assms by auto
  obtain s2 where 2: "relationships demo_service c1 7 ''sub_issues'' s1 = (Inr [], s2)" "remote s2 = (True, False)"
    "memory s2 = ?b" "sequence s2 = sequence s + 2" using demo_run_children [OF 1(2), of c1] assms 1 by auto
  obtain s3 where 3: "check_parent demo_service c1 (issue_mapping_of demo_child) (issue_mapping_of demo_parent) [] s2 = (Inr False, s3)"
    "remote s3 = (True, False)" "memory s3 = ?b" "sequence s3 = sequence s + 3" using demo_run_check_parent [OF 2(2), of c1] assms 2 by auto
  obtain s4 where 4: "save demo_service s3 = (Inr (), s4)" "remote s4 = (True, False)" "memory s4 = ?b" "sequence s4 = sequence s + 3"
    using demo_run_save [OF 3(3)] 3 by auto
  obtain s5 where 5: "add_child demo_service c1 7 (issue_mapping_of demo_child) s4 = (Inr (), s5)" "remote s5 = (True, True)"
    "memory s5 = ?b" "sequence s5 = sequence s + 4" using assms 4 by (simp add: add_child_def request_run)
  obtain s6 where 6: "relationships demo_service c1 7 ''sub_issues'' s5 =
      (Inr [\<lparr>rel_repository = repository_url, rel_mapping = issue_mapping_of demo_child\<rparr>], s6)" "remote s6 = (True, True)"
    "memory s6 = ?b" "sequence s6 = sequence s + 5" using demo_run_children [OF 5(2), of c1] assms 5 by auto
  obtain s7 where 7: "check_parent demo_service c1 (issue_mapping_of demo_child) (issue_mapping_of demo_parent)
      [\<lparr>rel_repository = repository_url, rel_mapping = issue_mapping_of demo_child\<rparr>] s6 = (Inr True, s7)"
    "remote s7 = (True, True)" "memory s7 = ?b" "sequence s7 = sequence s + 6" using demo_run_check_parent [OF 6(2), of c1] assms 6 by auto
  obtain s8 where 8: "check_remote_ticket demo_service c1 ?b 0 s7 = (Inr demo_child, s8)" "remote s8 = (True, True)"
    "memory s8 = ?b" "sequence s8 = sequence s + 7" using demo_run_remote_ticket [OF 7(2) _ b, of c1] assms 7 by auto
  have "memory (s8\<lparr>memory := ?b'\<rparr>) = ?b'" by simp
  from demo_run_save [OF this] obtain s9 where 9: "save demo_service (s8\<lparr>memory := ?b'\<rparr>) = (Inr (), s9)" "remote s9 = (True, True)"
    "memory s9 = ?b'" "sequence s9 = sequence s + 7" using 8 by auto
  have count: "count_parent_link s8 = (Inr (), s8\<lparr>memory := ?b'\<rparr>)"
    using 8 by (simp add: count_parent_link_def)
  have r3: "after (check_parent demo_service c1 (issue_mapping_of demo_child) (issue_mapping_of demo_parent) []) k s2 = k False s3"
    for k :: "bool \<Rightarrow> (bool \<times> bool, unit) pub" by (rule after_simps(1)) (rule 3(1))
  have r7: "after (check_parent demo_service c1 (issue_mapping_of demo_child) (issue_mapping_of demo_parent)
      [\<lparr>rel_repository = repository_url, rel_mapping = issue_mapping_of demo_child\<rparr>]) k s6 = k True s7"
    for k :: "bool \<Rightarrow> (bool \<times> bool, unit) pub" by (rule after_simps(1)) (rule 7(1))
  note run = 1(1) 2(1) r3 4(1) 5(1) 6(1) r7 8(1) 9 [simplified] count
  show ?thesis
    unfolding ensure_parent_def Let_def
    by (simp add: assms(3) ctx p flip: c1_def [unfolded p]) (simp add: run verified_def emit_def p flip: c1_def [unfolded p])
qed


lemma demo_run_run_graph:
  assumes "remote s = (True, False)" "sequence s < 200" "memory s = demo_made"
  shows "\<exists>s' g. run_graph demo_service c s = (Inr (), s') \<and> remote s' = (True, True) \<and> graph_verified g \<and>
     memory s' = demo_made\<lparr>saved_graph := g\<rparr> \<and> sequence s' < sequence s + 50"
proof -
  define c1 where "c1 = scope c (context_new ParentLinks)"
  define g1 where "g1 = \<lparr>parent_links = 0::nat, dependency_links = 0::nat, graph_verified = False\<rparr>"
  define g2 where "g2 = \<lparr>parent_links = 1::nat, dependency_links = 0::nat, graph_verified = True\<rparr>"
  let ?b = "\<lambda>g. demo_made\<lparr>saved_graph := g\<rparr>"
  let ?tg = "\<lambda>p. \<lparr>graph_issue = issue_mapping_of demo_child, parent_present = p, missing_blockers = []\<rparr>"
  have b: "saved_tickets (?b g) = saved_tickets demo_made" "saved_plan (?b g) = demo_plan" for g
    by (simp_all add: demo_batch_def)
  obtain s1 where 1: "save demo_service (s\<lparr>memory := ?b no_graph\<rparr>) = (Inr (), s1)" "remote s1 = (True, False)"
    "memory s1 = ?b no_graph" "sequence s1 = sequence s" using demo_run_save [of "s\<lparr>memory := ?b no_graph\<rparr>"] assms by auto
  obtain s2 where 2: "read_graph demo_service c1 (?b no_graph) s1 = (Inr \<lparr>graph_parent = issue_mapping_of demo_parent,
      graph_tickets = [?tg False], observed_graph = g1\<rparr>, s2)" "remote s2 = (True, False)" "memory s2 = ?b no_graph"
    "sequence s2 < sequence s + 10" using demo_run_read_graph [OF 1(2) _ b [of no_graph], of c1] assms 1 by (auto simp: g1_def)
  obtain s3 where 3: "save demo_service (s2\<lparr>memory := ?b g1\<rparr>) = (Inr (), s3)" "remote s3 = (True, False)"
    "memory s3 = ?b g1" "sequence s3 = sequence s2" using demo_run_save [of "s2\<lparr>memory := ?b g1\<rparr>"] 2 by auto
  obtain s4 g3 where 4: "ensure_parent demo_service c1 0 (issue_mapping_of demo_child) (issue_mapping_of demo_parent) s3 = (Inr (), s4)"
    "remote s4 = (True, True)" "memory s4 = ?b g3" "sequence s4 < sequence s + 30"
    using demo_run_parent [OF 3(2) _ 3(3), of c1] assms 2(4) 3(4) by auto
  obtain s5 where 5: "read_graph demo_service c1 (?b g3) s4 = (Inr \<lparr>graph_parent = issue_mapping_of demo_parent,
      graph_tickets = [?tg True], observed_graph = g2\<rparr>, s5)" "remote s5 = (True, True)" "memory s5 = ?b g3"
    "sequence s5 < sequence s + 40" using demo_run_read_graph [OF 4(2) _ b [of g3], of c1] assms 4 by (auto simp: g2_def)
  obtain s6 where 6: "save demo_service (s5\<lparr>memory := ?b g2\<rparr>) = (Inr (), s6)" "remote s6 = (True, True)"
    "memory s6 = ?b g2" "sequence s6 = sequence s5" using demo_run_save [of "s5\<lparr>memory := ?b g2\<rparr>"] 5 by auto
  have "link_ticket demo_service c1 (issue_mapping_of demo_parent) (0, ?tg False) s3 = (Inr (), s4)"
    using 4(1) by (simp add: link_ticket_def)
  then have link: "each (link_ticket demo_service c1 (issue_mapping_of demo_parent)) (List.enumerate 0 [?tg False]) s3 = (Inr (), s4)"
    by simp
  have set: "set_graph g s0 = (Inr (), s0\<lparr>memory := (memory s0)\<lparr>saved_graph := g\<rparr>\<rparr>)" for g and s0 :: "(bool \<times> bool) session"
    by (simp add: set_graph_def)
  have g: "\<not> graph_verified g1" "graph_verified g2" by (simp_all add: g1_def g2_def)
  have "run_graph demo_service c s = (Inr (), s6\<lparr>deeds := deeds s6 @ [Emitted (StepVerified c1 GraphStep)]\<rparr>)"
    unfolding run_graph_def Let_def c1_def [symmetric]
    by (simp add: set assms(3) 1 2(1,3) 3 g link 4(3) observe_graph_def 5(1,3) 6 verified_def emit_def del: each.simps enumerate_simps)
  with 5(4) 6 g show ?thesis by (intro exI [of _ "s6\<lparr>deeds := deeds s6 @ [Emitted (StepVerified c1 GraphStep)]\<rparr>"] exI [of _ g2]) simp
qed

lemma demo_run_observe_labels:
  assumes "remote s = (True, True)" "sequence s < 900" "saved_tickets b = saved_tickets demo_made" "saved_plan b = demo_plan"
  shows "\<exists>s'. observe_labels demo_service c b s = (Inr \<lparr>labels_checked = True,
       labels_tickets = [\<lparr>label_key = lit ''a'', applied = [], remaining = []\<rparr>], labels_verified = True\<rparr>, s') \<and>
     remote s' = (True, True) \<and> memory s' = memory s \<and> saved_file s' = saved_file s \<and> sequence s' < sequence s + 3"
proof -
  have one: "length (saved_tickets b) = 1" using assms(3) by (simp add: demo_batch_def)
  from demo_run_label [OF assms(1-4)] obtain s' where
    "label_ticket demo_service c b 0 s = (Inr \<lparr>label_key = lit ''a'', applied = [], remaining = []\<rparr>, s')"
    "remote s' = (True, True)" "memory s' = memory s" "saved_file s' = saved_file s" "sequence s' < sequence s + 3" by blast
  then show ?thesis unfolding observe_labels_def one by simp
qed


lemma demo_run_save_labels:
  "memory s = demo_made\<lparr>saved_graph := g, saved_labels := l\<rparr> \<Longrightarrow>
    \<exists>s'. save demo_service s = (Inr (), s') \<and> memory s' = memory s \<and> remote s' = remote s \<and> sequence s' = sequence s"
  by (simp del: lit_simps add: demo_batch_def demo_saves issue_mapping_of_def)

lemma demo_run_run_labels:
  assumes "remote s = (True, True)" "sequence s < 300" "memory s = demo_made\<lparr>saved_graph := g\<rparr>" "graph_verified g"
  shows "\<exists>s'. run_labels demo_service c s = (Inr (), s')"
proof -
  let ?b = "\<lambda>g l. demo_made\<lparr>saved_graph := g, saved_labels := l\<rparr>"
  define l where "l = \<lparr>labels_checked = True, labels_tickets = [\<lparr>label_key = lit ''a'', applied = [], remaining = []\<rparr>], labels_verified = True\<rparr>"
  define g2 where "g2 = \<lparr>parent_links = 1::nat, dependency_links = 0::nat, graph_verified = True\<rparr>"
  define c1 where "c1 = scope c (context_new FinalVerification)"
  have b: "saved_tickets (?b g l) = saved_tickets demo_made" "saved_plan (?b g l) = demo_plan" for g l
    by (simp_all add: demo_batch_def)
  have b0: "saved_tickets (demo_made\<lparr>saved_graph := g\<rparr>) = saved_tickets demo_made" "saved_plan (demo_made\<lparr>saved_graph := g\<rparr>) = demo_plan"
    by (simp_all add: demo_batch_def)
  have one: "length (saved_tickets demo_made) = Suc 0" by (simp add: demo_batch_def)
  obtain s1 where 1: "observe_labels demo_service c (demo_made\<lparr>saved_graph := g\<rparr>) s = (Inr l, s1)" "remote s1 = (True, True)"
    "memory s1 = demo_made\<lparr>saved_graph := g\<rparr>" "sequence s1 < 310" using demo_run_observe_labels [OF assms(1) _ b0, of c] assms by (auto simp: l_def)
  obtain s2 where 2: "save demo_service (s1\<lparr>memory := ?b g l\<rparr>) = (Inr (), s2)" "remote s2 = (True, True)"
    "memory s2 = ?b g l" "sequence s2 < 310" using demo_run_save_labels [of "s1\<lparr>memory := ?b g l\<rparr>" l g] 1 by auto
  obtain ctx :: progress_context where ctx: "context_ticket Labels (?b g l) 0 = (Inr ctx :: (pub_error, progress_context) outcome)"
    by (simp add: demo_batch_def context_ticket_def)
  obtain s3 where 3: "label_ticket demo_service (scope c ctx) (?b g l) 0 s2 = (Inr \<lparr>label_key = lit ''a'', applied = [], remaining = []\<rparr>, s3)"
    "remote s3 = (True, True)" "memory s3 = ?b g l" "sequence s3 < 320" using demo_run_label [OF 2(2) _ b [of l g], of "scope c ctx"] 2 by auto
  define r where "r = \<lparr>label_key = lit ''a'', applied = [], remaining = []\<rparr>"
  have r: "remaining r = []" "labels_tickets l = [r]" "l\<lparr>labels_tickets := [r]\<rparr> = l" "s3\<lparr>memory := ?b g l\<rparr> = s3"
    using 3(3) by (simp_all add: r_def l_def)
  have refresh: "refresh_label demo_service (scope c ctx) 0 s2 = (Inr r, s3)"
    by (simp add: refresh_label_def 2(3) 3(1) [folded r_def] 3(3) r set_labels_def)
  have publish: "publish_label demo_service c 0 s2 = (Inr (), s3)"
    by (simp add: publish_label_def Let_def 2(3) ctx refresh r)
  obtain s4 where 4: "read_graph demo_service c1 (?b g l) s3 = (Inr \<lparr>graph_parent = issue_mapping_of demo_parent,
      graph_tickets = [\<lparr>graph_issue = issue_mapping_of demo_child, parent_present = True, missing_blockers = []\<rparr>], observed_graph = g2\<rparr>, s4)"
    "remote s4 = (True, True)" "memory s4 = ?b g l" "sequence s4 < 400"
    using demo_run_read_graph [OF 3(2) _ b [of l g], of c1] 3 by (auto simp: g2_def)
  obtain s5 where 5: "observe_labels demo_service c1 (?b g2 l) (s4\<lparr>memory := ?b g2 l\<rparr>) = (Inr l, s5)" "memory s5 = ?b g2 l"
    using demo_run_observe_labels [of "s4\<lparr>memory := ?b g2 l\<rparr>", OF _ _ b [of l g2], of c1] 4 by (auto simp: l_def)
  obtain s6 where 6: "save demo_service (s5\<lparr>memory := ?b g2 l\<rparr>) = (Inr (), s6)"
    using demo_run_save_labels [of "s5\<lparr>memory := ?b g2 l\<rparr>" l g2] by auto
  have set: "set_graph h s0 = (Inr (), s0\<lparr>memory := (memory s0)\<lparr>saved_graph := h\<rparr>\<rparr>)"
    "set_labels m s0 = (Inr (), s0\<lparr>memory := (memory s0)\<lparr>saved_labels := m\<rparr>\<rparr>)" for h m and s0 :: "(bool \<times> bool) session"
    by (simp_all add: set_graph_def set_labels_def)
  have v: "graph_verified g2" "labels_verified l" by (simp_all add: g2_def l_def)
  have upd: "(?b g l)\<lparr>saved_graph := g2\<rparr> = ?b g2 l" "(?b g2 l)\<lparr>saved_labels := l\<rparr> = ?b g2 l" by simp_all
  have final: "final_verification demo_service c s3 = (Inr (), s6)"
    unfolding final_verification_def Let_def c1_def [symmetric]
    by (simp only: after_simps pub_simps observe_graph_def) (simp add: set 3(3) 4(1,3) v upd 5 6)
  show ?thesis
    unfolding run_labels_def
    by (simp add: assms(3,4) 1(1,3) set 2(1) one publish final)
qed


text \<open>The whole run: the batch of the sample is published.\<close>

lemma demo_published:
  "\<exists>report s'. publish_command demo_service (lit ''1f'') (demo_session (Some (demo_batch Pending))) = (Inr report, s') \<and>
     published_complete report \<and> (\<exists>op. op_kind op = CreateIssue \<and> Emitted (RemoteOperationStarted op) \<in> set (deeds s'))"
proof -
  let ?s = "demo_session (Some (demo_batch Pending))" and ?b = "demo_batch Pending"
  have start: "remote ?s = (False, False)" "memory ?s = ?b" "sequence ?s = 0" "saved_file ?s = Some ?b"
    by (simp_all add: demo_session_def)
  have "batch_check (fingerprint demo_service) ?b (lit ''1f'') = (Inr () :: (plan_error, unit) outcome)"
    by (rule demo_accepted [where st = Pending]) (simp_all add: demo_batch_def)
  then have read: "read_file demo_service (lit ''1f'') ?s = (Inr ?b, ?s)" by (simp add: read_file_Inr start)
  have clear: "clear_observations ?b = ?b" by (simp add: clear_observations_def demo_batch_def no_graph_def)
  have same: "?s\<lparr>memory := ?b\<rparr> = ?s" by (simp add: demo_session_def)
  obtain s1 where 1: "observe_batch demo_service client ?b ?s = (Inr [None], s1)" "remote s1 = (False, False)"
    "memory s1 = ?b" "sequence s1 < 60" using demo_run_checks [of ?s] start by auto
  obtain s2 where 2: "preflight_capacity demo_service client ?b [None] s1 = (Inr (), s2)" "remote s2 = (False, False)"
    "memory s2 = ?b" "sequence s2 < 70" using demo_run_capacity [of s1] 1 by auto
  let ?s3 = "s2\<lparr>deeds := deeds s2 @ [Emitted (StepVerified client RemoteChecksStep)]\<rparr>"
  obtain s4 where 4: "creation_loop demo_service client [None] ?s3 = (Inr (), s4)" "remote s4 = (True, False)"
    "memory s4 = demo_made" "sequence s4 < 200"
    and asked: "\<exists>op. op_kind op = CreateIssue \<and> Emitted (RemoteOperationStarted op) \<in> set (deeds s4)"
    using demo_run_create [of ?s3] 2 by auto
  obtain s5 g where 5: "run_graph demo_service client s4 = (Inr (), s5)" "remote s5 = (True, True)" "graph_verified g"
    "memory s5 = demo_made\<lparr>saved_graph := g\<rparr>" "sequence s5 < 300" using demo_run_run_graph [OF 4(2,4,3), of client] 4(4) by auto
  obtain s6 where 6: "run_labels demo_service client s5 = (Inr (), s6)" using demo_run_run_labels [OF 5(2,5,4,3)] by blast
  have "list_all is_created (saved_tickets demo_made)" by (simp add: demo_batch_def is_created_def)
  then have "run_publish demo_service client ?s = (Inr (), s6)"
    unfolding run_publish_def by (simp add: start 1(1) 2(1) verified_def emit_def 4(1,3) 5(1) 6)
  moreover have "set (deeds s4) \<subseteq> set (deeds s6)"
    using prompt_deeds [OF prompt_run_graph, of s4 demo_service client] prompt_deeds [OF prompt_run_labels, of s5 demo_service client] 5(1) 6
    by auto
  ultimately have "\<exists>s'. publication demo_service client ?s = (Inr (Complete, Inr ()), s') \<and>
      (\<exists>op. op_kind op = CreateIssue \<and> Emitted (RemoteOperationStarted op) \<in> set (deeds s'))"
    unfolding publication_def using asked
    by (auto simp: start clear same attempt_def publication_status_def finish_def emit_def Let_def)
  then show ?thesis unfolding publish_command_def by (auto simp del: lit_simps simp: read same)
qed

lemma demo_accepted_pending: "batch_check (fingerprint demo_service) (demo_batch Pending) (lit ''1f'') = Inr ()"
  by (rule demo_accepted [where st = Pending]) (simp_all add: demo_batch_def)

text \<open>A campaign: the batch is prepared and then published.\<close>

lemma demo_prepared:
  "deeds (snd (execute demo_service (lit ''1f'') (Prepare demo_plan) (demo_session None))) = [Committed (demo_batch Pending)]"
proof -
  have "batch_prepare (fingerprint demo_service) (lit ''1f'') demo_plan = Inr (demo_batch Pending)"
    using demo_plan_checks
    by (simp add: batch_prepare_def demo_batch_def no_graph_def demo_service_def)
  then have "prepared_batch demo_service (lit ''1f'') demo_plan s = (Inr (demo_batch Pending), s)" for s :: "(bool \<times> bool) session"
    by (simp add: prepared_batch_def del: lit_simps)
  then show ?thesis
    by (simp add: execute_session prepare_command_def demo_session_def save_new_def write_file_def del: lit_simps)
qed

lemma demo_campaign: "\<exists>b r. campaign demo_service (lit ''1f'') (Some b) r (\<lambda>_. 0) \<and> all_created b"
proof -
  let ?S = "demo_service" and ?i = "lit ''1f''" and ?b = "demo_batch Pending"
  let ?s = "demo_session (Some ?b)"
  have "campaign ?S ?i (file_after None [Committed ?b]) (\<lambda>k. 0 + creations k [Committed ?b])
      (\<lambda>k. 0 + authorizations k (Prepare demo_plan))"
    by (rule campaign.command [where s = "demo_session None" and rest = "[]", OF campaign.begun])
      (simp_all add: demo_prepared del: lit_simps, simp_all add: demo_session_def)
  then have prepared: "campaign ?S ?i (Some ?b) (\<lambda>_. 0) (\<lambda>_. 0)" by (simp add: authorizations_def)
  obtain report s' where run: "publish_command ?S ?i ?s = (Inr report, s')" and complete: "published_complete report"
    using demo_published by blast
  have start: "saved_file ?s = Some (fst (?b, {} :: ticket_key set))" "deeds ?s = []" by (simp_all add: demo_session_def)
  from upholds_return [OF upholds_publish_command [where P = "\<lambda>_ _. True"] start(1) TrueI run] complete
  obtain w where w: "watched ?s (?b, {}) s' w" and "completed ?S (memory s')" "fst w = memory s'" by blast
  then have "all_created (fst w)" by (simp add: completed_def)
  from w start(2) have ds: "try_fold watch (?b, {}) (deeds s') = Inr (fst w, snd w)" by (auto simp: watched_def)
  have "campaign ?S ?i (file_after (Some ?b) (deeds s')) (\<lambda>k. 0 + creations k (deeds s')) (\<lambda>k. 0 + authorizations k Publish)"
    by (rule campaign.command [where s = ?s and rest = "[]", OF prepared])
      (use run in \<open>simp_all add: demo_session_def execute_session is_prepare_def del: lit_simps\<close>)
  with trace_file [OF ds] \<open>all_created (fst w)\<close> show ?thesis by (auto simp: authorizations_def)
qed

section \<open>Properties\<close>

text \<open>C4: However the commands on a batch follow each other, fail and are killed, and whatever GitHub and
  the file system do, the issue of a ticket is requested at most once, and once more for each retry
  that the operator has authorized for it.\<close>
theorem tickets_created_at_most_once:
  assumes "campaign S i f r a"
  shows "r k \<le> 1 + a k"
  using campaign_permits [OF assms, of k] by simp

theorem tickets_created_at_most_once_witness:
  "\<exists>b r. campaign demo_service (lit ''1f'') (Some b) r (\<lambda>_. 0) \<and> all_created b \<and> r (lit ''a'') \<le> 1"
proof -
  from demo_campaign obtain b r where c: "campaign demo_service (lit ''1f'') (Some b) r (\<lambda>_. 0)" "all_created b" by blast
  with tickets_created_at_most_once [OF c(1), of "lit ''a''"] show ?thesis by auto
qed

text \<open>C5: A publisher writes ahead. Along every beginning of its deeds, each request that changes GitHub
  (that creates an issue, links it to its parent or to a blocker, or labels it) comes directly after a
  replacement of the file; an issue is requested only when the file has given up the permission for it
  and says that its blockers are created; links are requested only when the file has all issues, labels
  only when it has a verified graph, and completion is announced only when it has verified labels. The
  file only advances: a created issue is never forgotten.\<close>
theorem tickets_publish_writes_ahead:
  assumes "deeds s = []" "saved_file s = Some f" "deeds (snd (publish_command S i s)) = ds @ rest"
  shows "(\<exists>f' fresh. try_fold watch (f, {}) ds = Inr (f', fresh) \<and> file_after (Some f) ds = Some f' \<and> advances f f') \<and>
    (\<forall>pre op post. ds = pre @ Emitted (RemoteOperationStarted op) # post \<and>
       op_kind op \<in> {CreateIssue, AddParent, AddBlocker, AddLabels} \<longrightarrow> (\<exists>pre' b. pre = pre' @ [Committed b]))"
proof
  from publish_deeds [OF assms] obtain f' fresh where w: "try_fold watch (f, {}) ds = Inr (f', fresh)"
    by (metis prod.collapse)
  moreover have "advances f f'" using publisher.run_kept [OF TrueI w] by simp
  ultimately show "\<exists>f' fresh. try_fold watch (f, {}) ds = Inr (f', fresh) \<and> file_after (Some f) ds = Some f' \<and> advances f f'"
    using trace_file by blast
  have "\<exists>pre' b. pre = pre' @ [Committed b]"
    if "ds = pre @ Emitted (RemoteOperationStarted op) # post" "op_kind op \<in> {CreateIssue, AddParent, AddBlocker, AddLabels}" for pre op post
    by (rule publish_saves_before [OF assms(1), of S i pre op "post @ rest"]) (use assms(3) that in \<open>auto simp: reads_def\<close>)
  then show "\<forall>pre op post. ds = pre @ Emitted (RemoteOperationStarted op) # post \<and>
      op_kind op \<in> {CreateIssue, AddParent, AddBlocker, AddLabels} \<longrightarrow> (\<exists>pre' b. pre = pre' @ [Committed b])" by blast
qed

theorem tickets_publish_writes_ahead_witness:
  "\<exists>f' fresh pre b op post. deeds (snd (publish_command demo_service (lit ''1f'') (demo_session (Some (demo_batch Pending))))) =
       pre @ Committed b # Emitted (RemoteOperationStarted op) # post \<and> op_kind op = CreateIssue \<and>
     try_fold watch (demo_batch Pending, {})
       (deeds (snd (publish_command demo_service (lit ''1f'') (demo_session (Some (demo_batch Pending)))))) = Inr (f', fresh) \<and>
     advances (demo_batch Pending) f'"
proof -
  let ?s = "demo_session (Some (demo_batch Pending))"
  let ?ds = "deeds (snd (publish_command demo_service (lit ''1f'') ?s))"
  from demo_published obtain op where op: "op_kind op = CreateIssue" "Emitted (RemoteOperationStarted op) \<in> set ?ds" by fastforce
  then obtain pre post where split: "?ds = pre @ Emitted (RemoteOperationStarted op) # post" by (metis split_list)
  have start: "deeds ?s = []" "saved_file ?s = Some (demo_batch Pending)" by (simp_all add: demo_session_def)
  note ahead = tickets_publish_writes_ahead [where S = demo_service and i = "lit ''1f''", OF start append_Nil2 [symmetric]]
  from ahead [THEN conjunct2] op(1) split obtain pre' b where "pre = pre' @ [Committed b]" by blast
  with ahead [THEN conjunct1] op(1) split show ?thesis by fastforce
qed

text \<open>C14: A publication that reports completion has left a valid file, the batch it reports, in which
  every issue is created and the graph and the labels were verified last; a publication that
  reports anything else names an error.\<close>
theorem tickets_complete_is_durable:
  assumes "publish_command S i s = (Inr report, s')"
  shows "(published_complete report \<longleftrightarrow> published_error report = None) \<and>
    (published_complete report \<longrightarrow> published_status report = ''complete'' \<and>
       saved_file s' = Some (published_batch report) \<and> completed S (published_batch report))"
proof (cases "saved_file s")
  case None
  with assms show ?thesis by (simp add: publish_command_def read_file_def after_def)
next
  case (Some f)
  then have "saved_file s = Some (fst (f, {}))" by simp
  from upholds_return [OF upholds_publish_command [where P = "\<lambda>_ _. True"] this TrueI assms]
  obtain w where w: "watched s (f, {}) s' w" and report: "published_batch report = memory s'"
    "published_complete report \<longleftrightarrow> published_error report = None"
    "published_complete report \<longrightarrow> published_status report = ''complete'' \<and> fst w = memory s' \<and> completed S (memory s')"
    by (elim exE conjE)
  from watched_file [OF w] report show ?thesis by (intro conjI impI) simp_all
qed

theorem tickets_complete_is_durable_witness:
  "\<exists>report s'. publish_command demo_service (lit ''1f'') (demo_session (Some (demo_batch Pending))) = (Inr report, s') \<and>
     saved_file s' = Some (published_batch report) \<and> completed demo_service (published_batch report)"
proof -
  obtain report s' where run: "publish_command demo_service (lit ''1f'') (demo_session (Some (demo_batch Pending))) = (Inr report, s')"
    "published_complete report" using demo_published by blast
  with tickets_complete_is_durable [OF run(1)] show ?thesis by blast
qed

text \<open>C15: Only publication changes GitHub: every request of another command reads. Reporting the status
  and exporting leave the file alone.\<close>
theorem tickets_only_publish_mutates:
  assumes "c \<noteq> Publish"
  shows "(\<forall>op. Emitted (RemoteOperationStarted op) \<in> set (drop (length (deeds s)) (deeds (snd (execute S i c s)))) \<longrightarrow> op_kind op \<in> reads) \<and>
    (c \<in> {Status, Export} \<longrightarrow> saved_file (snd (execute S i c s)) = saved_file s)"
proof
  have "acts (modest [] (allowance c (saved_file s) [])) s (snd (execute S i c s))" by (rule acts_execute [OF assms])
  then show "\<forall>op. Emitted (RemoteOperationStarted op) \<in> set (drop (length (deeds s)) (deeds (snd (execute S i c s)))) \<longrightarrow> op_kind op \<in> reads"
    by (auto simp: acts_def modest_def request_deeds_def)
  have kept: "saved_file s' = saved_file s" if "acts (request_deeds reads) s s'" for s'
  proof -
    have "set ds \<subseteq> request_deeds reads \<Longrightarrow> file_after f ds = f" for f ds
      by (induction ds) (auto simp: request_deeds_def)
    with that show ?thesis by (auto simp: acts_def)
  qed
  have quiet: "acts (request_deeds reads) s (snd (status_command S i s))" "acts (request_deeds reads) s (snd (export_command S i s))"
    by (rule acts_does, rule does_status_command) (rule acts_does, rule does_mono [OF does_export_command], simp)
  show "c \<in> {Status, Export} \<longrightarrow> saved_file (snd (execute S i c s)) = saved_file s"
    using kept [OF quiet(1)] kept [OF quiet(2)] by (auto simp: execute_session)
qed

theorem tickets_only_publish_mutates_witness:
  "saved_file (snd (execute demo_service (lit ''1f'') Status (demo_session (Some (demo_batch Pending))))) = Some (demo_batch Pending)"
  using tickets_only_publish_mutates [of Status "demo_session (Some (demo_batch Pending))" demo_service "lit ''1f''"]
  by (simp add: demo_session_def del: lit_simps)

text \<open>C16: Creation never stalls: while an issue of a valid batch is missing, the loop finds a ticket
  whose blockers are created, and every pass that succeeds leaves fewer.\<close>
theorem tickets_creation_never_stalls:
  assumes "batch_check fp (memory s) i = Inr ()" "\<not> all_created (memory s)"
  shows "\<exists>j t. next_ticket (memory s) = Inr (Some (j, t)) \<and> blockers_created (memory s) t \<and>
    (\<forall>s'. create_ticket S c observed (j, t) s = (Inr (), s') \<longrightarrow> uncreated (memory s') < uncreated (memory s))"
proof -
  have "keyed (memory s)" "plan_ok (saved_plan (memory s))"
    using batch_check_keyed [OF assms(1)] assms(1) by (simp_all add: batch_check_Inr)
  from next_ticket_finds [OF this assms(2)] obtain j t where "next_ticket (memory s) = Inr (Some (j, t))" "chosen (memory s) j t" by blast
  moreover from this create_ticket_progress have "\<forall>s'. create_ticket S c observed (j, t) s = (Inr (), s') \<longrightarrow>
    uncreated (memory s') < uncreated (memory s)" by blast
  ultimately show ?thesis by (auto simp: chosen_def)
qed

theorem tickets_creation_never_stalls_witness:
  "\<exists>j t. next_ticket (demo_batch Pending) = Inr (Some (j, t)) \<and> blockers_created (demo_batch Pending) t"
proof -
  have m: "memory (demo_session None) = demo_batch Pending" by (simp add: demo_session_def)
  have "\<not> all_created (memory (demo_session None))" by (simp add: m all_created_def demo_batch_def is_created_def)
  with tickets_creation_never_stalls [of "fingerprint demo_service" "demo_session None" "lit ''1f''" demo_service client "[None]"]
    demo_accepted_pending show ?thesis by (auto simp: m)
qed

end
