(* ===== verification/Review_Request.thy ===== *)
theory Review_Request imports Json Effects begin

text \<open>
  Requests for a hosted review (\<open>tools/hosted_review\<close>: \<open>policy.rs\<close>, \<open>store.rs\<close>, \<open>github.rs\<close>,
  \<open>main.rs\<close>). The record \<open>host\<close> stands for \<open>gh\<close>, the file system, and the crates that parse times,
  UUIDs and JSON: its functions are arbitrary, a call that is not answered or not decoded is \<open>None\<close>,
  and a comment can have been posted although the call failed. The lock of the store is taken for
  granted: one command at a time works on a review.
\<close>

section \<open>JSON values\<close>

text \<open>\<open>Value::get\<close>, and the index that gives \<open>Null\<close> for what is absent.\<close>

definition member_of :: "json \<Rightarrow> string \<Rightarrow> json option" where
  "member_of v key = (case v of JObject m \<Rightarrow> bt_get m (lit key) | _ \<Rightarrow> None)"

definition at_key :: "json \<Rightarrow> string \<Rightarrow> json" where
  "at_key v key = (case member_of v key of Some x \<Rightarrow> x | None \<Rightarrow> JNull)"

definition object :: "(string \<times> json) list \<Rightarrow> json" where
  "object kvs = JObject (foldl (\<lambda>m (k, v). bt_insert (lit k) v m) [] kvs)"

definition text_value :: "string \<Rightarrow> json" where
  "text_value s = JString (lit s)"

definition number :: "nat \<Rightarrow> json" where
  "number n = JNumber (JInt (int n))"

fun as_u64 :: "json \<Rightarrow> nat option" where
  "as_u64 (JNumber (JInt n)) = (if 0 \<le> n then Some (nat n) else None)"
| "as_u64 _ = None"

fun as_bool :: "json \<Rightarrow> bool option" where
  "as_bool (JBool b) = Some b"
| "as_bool _ = None"

fun as_array :: "json \<Rightarrow> json list option" where
  "as_array (JArray vs) = Some vs"
| "as_array _ = None"

section \<open>Texts\<close>

fun split_once :: "rstring \<Rightarrow> rstring \<Rightarrow> (rstring \<times> rstring) option" where
  "split_once p s = (case strip_prefix p s of
       Some rest \<Rightarrow> Some ([], rest)
     | None \<Rightarrow> (case s of [] \<Rightarrow> None | c # cs \<Rightarrow> map_option (\<lambda>(a, b). (c # a, b)) (split_once p cs)))"

declare split_once.simps [simp del]

definition contains :: "rstring \<Rightarrow> rstring \<Rightarrow> bool" where
  "contains s p \<longleftrightarrow> split_once p s \<noteq> None"

definition is_ascii_alphanumeric :: "nat \<Rightarrow> bool" where
  "is_ascii_alphanumeric b \<longleftrightarrow> is_ascii_digit b \<or> is_ascii_lowercase b \<or> 65 \<le> b \<and> b \<le> 90"

section \<open>The policy\<close>

datatype review = Missing | Incomplete | Complete

datatype decision = Closed | CompleteDecision | Untracked | Uncertain | Waiting | RequestDecision

text \<open>Only an authenticated, incomplete review can establish timeout eligibility.\<close>

definition decide :: "bool \<Rightarrow> review \<Rightarrow> (nat \<times> bool) option \<Rightarrow> nat \<Rightarrow> decision" where
  "decide open_pull r previous now =
     (if \<not> open_pull then Closed
      else if r = Complete then CompleteDecision
      else case previous of
        None \<Rightarrow> Untracked
      | Some (at, confirmed) \<Rightarrow>
          if \<not> confirmed then Uncertain
          else if r = Incomplete \<and> at \<le> now \<and> now - at > 3600 then RequestDecision
          else Waiting)"

section \<open>Data\<close>

record user =
  user_id :: nat
  login :: rstring
  user_kind :: rstring

record comment =
  comment_id :: nat
  comment_user :: user
  comment_body :: rstring
  created_at :: rstring

record pull =
  pull_state :: rstring
  pull_head :: rstring

record review_request =
  request_id :: rstring
  request_head :: rstring
  requested_at :: nat
  request_actor :: nat
  request_comment :: "nat option"

record review_state =
  state_version :: nat
  state_repository :: rstring
  state_pr :: nat
  requests :: "review_request list"

definition commit_try_from :: "rstring \<Rightarrow> rstring option" where
  "commit_try_from s =
     (if length (utf8 s) = 40 \<and> list_all is_ascii_hexdigit (utf8 s) then Some (to_ascii_lowercase s) else None)"

definition request_body :: "review_request \<Rightarrow> rstring" where
  "request_body r = lit ''@codex review'' @ [10, 10] @ lit ''Review commit `'' @ request_head r @ lit ''`.'' @ [10, 10] @
     lit ''<!-- hosted-review-request:v1 '' @ request_id r @ lit '' '' @ request_head r @ lit '' -->''"

section \<open>The session\<close>

record 'g host =
  get_pull :: "'g \<Rightarrow> pull option \<times> 'g"
  get_comments :: "'g \<Rightarrow> comment list list option \<times> 'g"
  get_actor :: "'g \<Rightarrow> user option \<times> 'g"
  get_evidence :: "rstring \<Rightarrow> string \<Rightarrow> 'g \<Rightarrow> json option \<times> 'g"
  post_comment :: "rstring \<Rightarrow> 'g \<Rightarrow> comment option \<times> 'g"
  replace_state :: "review_state \<Rightarrow> 'g \<Rightarrow> commit_result \<times> 'g"
  replace_wake :: "json \<Rightarrow> 'g \<Rightarrow> commit_result \<times> 'g"
  new_uuid :: "'g \<Rightarrow> nat \<times> 'g"
  rfc3339 :: "rstring \<Rightarrow> int option"
  parse_json :: "rstring \<Rightarrow> json option"
  show_json :: "json \<Rightarrow> rstring"
  uuid_number :: "rstring \<Rightarrow> nat option"
  uuid_text :: "nat \<Rightarrow> rstring"
  selected_assignment :: "rstring \<Rightarrow> json option"
  is_absolute :: "rstring \<Rightarrow> bool"

text \<open>What a command does, in order: it replaces a file or posts a comment.\<close>

datatype deed = SavedState review_state | SavedWake json | Posted rstring

record 'g desk =
  outside :: 'g
  state_file :: "review_state option"
  wake_file :: "json option"
  memory :: review_state
  deeds :: "deed list"

type_synonym ('g, 'a) work = "('g desk, string, 'a) prog"

definition ask :: "('g \<Rightarrow> 'a \<times> 'g) \<Rightarrow> ('g, 'a) work" where
  "ask f s = (Inr (fst (f (outside s))), s\<lparr>outside := snd (f (outside s))\<rparr>)"

definition ask_or :: "string \<Rightarrow> ('g \<Rightarrow> 'a option \<times> 'g) \<Rightarrow> ('g, 'a) work" where
  "ask_or e f = after (ask f) (some_or e)"

definition change :: "(review_state \<Rightarrow> review_state) \<Rightarrow> ('g, unit) work" where
  "change f = put (\<lambda>s. s\<lparr>memory := f (memory s)\<rparr>)"

section \<open>The store\<close>

definition request_id_new :: "'g host \<Rightarrow> ('g, rstring) work" where
  "request_id_new H = after (ask (new_uuid H)) (\<lambda>n. give (uuid_text H n))"

definition request_id_try_from :: "'g host \<Rightarrow> rstring \<Rightarrow> rstring option" where
  "request_id_try_from H s = (case uuid_number H s of
       None \<Rightarrow> None
     | Some n \<Rightarrow> if n \<noteq> 0 \<and> uuid_text H n = s then Some s else None)"

text \<open>The identities and commits of a file are converted when it is decoded.\<close>

definition decode_request :: "'g host \<Rightarrow> review_request \<Rightarrow> review_request option" where
  "decode_request H r =
     Option.bind (request_id_try_from H (request_id r)) (\<lambda>i.
     map_option (\<lambda>h. r\<lparr>request_id := i, request_head := h\<rparr>) (commit_try_from (request_head r)))"

definition decode_state :: "'g host \<Rightarrow> review_state \<Rightarrow> review_state option" where
  "decode_state H f = map_option (\<lambda>rs. f\<lparr>requests := rs\<rparr>) (those (map (decode_request H) (requests f)))"

definition request_ok :: "review_request \<Rightarrow> bool" where
  "request_ok r \<longleftrightarrow> 0 < request_actor r \<and> request_comment r \<noteq> Some 0"

definition read_state :: "'g host \<Rightarrow> rstring \<Rightarrow> nat \<Rightarrow> ('g, review_state) work" where
  "read_state H repository n = after (get state_file) (\<lambda>f.
     case f of
       None \<Rightarrow> give \<lparr>state_version = 1, state_repository = repository, state_pr = n, requests = []\<rparr>
     | Some file \<Rightarrow>
         after (some_or ''invalid saved review state'' (decode_state H file)) (\<lambda>st.
         after (require (state_version st = 1 \<and> state_repository st = repository \<and> state_pr st = n)
           ''saved review identity does not match'') (\<lambda>_.
         after (require (distinct (map request_id (requests st)) \<and> list_all request_ok (requests st))
           ''invalid saved request identity'') (\<lambda>_.
         give st))))"

text \<open>\<open>save_json\<close>: the new file is renamed over the old one before its directory is synchronized.\<close>

definition save_json :: "('g \<Rightarrow> commit_result \<times> 'g) \<Rightarrow> ('g desk \<Rightarrow> 'g desk) \<Rightarrow> ('g, unit) work" where
  "save_json commit record_it = after (ask commit) (\<lambda>r. case r of
       NotCommitted \<Rightarrow> stop ''cannot persist review state''
     | CommittedUnsynced \<Rightarrow> after (put record_it) (\<lambda>_. stop ''cannot synchronize the directory'')
     | CommittedDurably \<Rightarrow> put record_it)"

definition save_state :: "'g host \<Rightarrow> ('g, unit) work" where
  "save_state H = after (get memory) (\<lambda>st.
     save_json (replace_state H st) (\<lambda>s. s\<lparr>state_file := Some st, deeds := deeds s @ [SavedState st]\<rparr>))"

definition save_wake :: "'g host \<Rightarrow> json \<Rightarrow> ('g, unit) work" where
  "save_wake H v = save_json (replace_wake H v) (\<lambda>s. s\<lparr>wake_file := Some v, deeds := deeds s @ [SavedWake v]\<rparr>)"

section \<open>Evidence\<close>

definition timestamp :: "'g host \<Rightarrow> rstring \<Rightarrow> (string, nat) outcome" where
  "timestamp H s = (case rfc3339 H s of
       None \<Rightarrow> err ''invalid GitHub timestamp''
     | Some at \<Rightarrow> if at < 0 then err ''GitHub timestamp is before the Unix epoch'' else Inr (nat at))"

definition check_comment :: "'g host \<Rightarrow> comment \<Rightarrow> (string, unit) outcome" where
  "check_comment H c =
     (if 0 < comment_id c \<and> 0 < user_id (comment_user c)
      then and_then (timestamp H (created_at c)) (\<lambda>_. Inr ())
      else err ''invalid GitHub comment identity'')"

definition read_comments :: "'g host \<Rightarrow> ('g, comment list) work" where
  "read_comments H =
     after (ask_or ''GitHub read failed'' (get_comments H)) (\<lambda>pages.
     let cs = concat pages in
     after (from_outcome (try_fold (\<lambda>_. check_comment H) () cs)) (\<lambda>_.
     give cs))"

definition send_comment :: "'g host \<Rightarrow> rstring \<Rightarrow> ('g, comment) work" where
  "send_comment H body =
     after (put (\<lambda>s. s\<lparr>deeds := deeds s @ [Posted body]\<rparr>)) (\<lambda>_.
     ask_or ''review request outcome is uncertain'' (post_comment H body))"

text \<open>The bot identity comes from authenticated GitHub response fields, not body text.\<close>

definition by_reviewer :: "comment \<Rightarrow> bool" where
  "by_reviewer c \<longleftrightarrow> user_id (comment_user c) = 199175422 \<and>
     login (comment_user c) = lit ''chatgpt-codex-connector[bot]'' \<and> user_kind (comment_user c) = lit ''Bot''"

type_synonym latest_state = "(json \<times> nat \<times> nat) option"

definition keep_latest :: "latest_state \<Rightarrow> json \<Rightarrow> nat \<Rightarrow> nat \<Rightarrow> latest_state" where
  "keep_latest latest st at i = (case latest of
       None \<Rightarrow> Some (st, at, i)
     | Some (_, at', i') \<Rightarrow> if at < at' \<or> at = at' \<and> i < i' then latest else Some (st, at, i))"

definition state_step :: "'g host \<Rightarrow> rstring \<Rightarrow> latest_state \<Rightarrow> comment \<Rightarrow> (string, latest_state) outcome" where
  "state_step H head latest c =
     (if \<not> by_reviewer c then Inr latest
      else case split_once (lit ''<!-- codex-review-state:v1 '') (comment_body c) of
        None \<Rightarrow> Inr latest
      | Some (_, rest) \<Rightarrow>
          and_then (ok_or (Err ''invalid hosted review marker'') (split_once (lit '' -->'') rest)) (\<lambda>(text, _).
          and_then (ok_or (Err ''invalid hosted review state'') (parse_json H text)) (\<lambda>v.
          and_then (ok_or (Err ''missing code review state'') (member_of v ''code_review'')) (\<lambda>st.
          if Option.bind (member_of st ''commit_sha'') as_str \<noteq> Some head then Inr latest
          else
          and_then (timestamp H (created_at c)) (\<lambda>at.
          Inr (keep_latest latest st at (comment_id c)))))))"

definition review_state_of :: "'g host \<Rightarrow> comment list \<Rightarrow> rstring \<Rightarrow> (string, json option) outcome" where
  "review_state_of H cs head = and_then (try_fold (state_step H head) None cs) (\<lambda>latest. Inr (map_option fst latest))"

definition review_of :: "'g host \<Rightarrow> comment list \<Rightarrow> rstring \<Rightarrow> (string, review) outcome" where
  "review_of H cs head = and_then (review_state_of H cs head) (\<lambda>st. case st of
       None \<Rightarrow> Inr Missing
     | Some st \<Rightarrow> (case as_str (at_key st ''status'') of
         None \<Rightarrow> err ''unknown hosted review status''
       | Some status \<Rightarrow>
           if status = lit ''completed'' then Inr Complete
           else if status \<in> set (map lit [''running'', ''queued'', ''pending'', ''in_progress'']) then Inr Incomplete
           else err ''unknown hosted review status''))"

section \<open>Actions\<close>

datatype action = Request | Poll | Track | Wake

record args =
  arg_action :: action
  arg_repo :: rstring
  arg_pr :: nat
  arg_head :: rstring
  arg_now :: nat
  arg_request_comment :: "nat option"
  arg_assignment_receipt :: "rstring option"
  arg_automation_id :: "rstring option"

definition reply :: "string \<Rightarrow> (string \<times> json) list \<Rightarrow> json" where
  "reply status kvs = object ((''status'', text_value status) # kvs)"

text \<open>A request that was made by hand: a comment of a person that the store does not know.\<close>

definition mentions_review :: "comment \<Rightarrow> bool" where
  "mentions_review c \<longleftrightarrow> user_kind (comment_user c) \<noteq> lit ''Bot'' \<and> contains (comment_body c) (lit ''@codex review'')"

fun rposition :: "('a \<Rightarrow> bool) \<Rightarrow> 'a list \<Rightarrow> nat option" where
  "rposition P [] = None"
| "rposition P (x # xs) = (case rposition P xs of Some i \<Rightarrow> Some (Suc i) | None \<Rightarrow> if P x then Some 0 else None)"

definition set_request :: "nat \<Rightarrow> (review_request \<Rightarrow> review_request) \<Rightarrow> review_state \<Rightarrow> review_state" where
  "set_request i f st = st\<lparr>requests := (requests st)[i := f (requests st ! i)]\<rparr>"

text \<open>The comment confirms the request; the server time can only delay it.\<close>

definition confirm_request :: "'g host \<Rightarrow> nat \<Rightarrow> comment \<Rightarrow> ('g, unit) work" where
  "confirm_request H i c =
     after (change (set_request i (\<lambda>r. r\<lparr>request_comment := Some (comment_id c)\<rparr>))) (\<lambda>_.
     after (from_outcome (timestamp H (created_at c))) (\<lambda>at.
     change (set_request i (\<lambda>r. r\<lparr>requested_at := max (requested_at r) at\<rparr>))))"

definition external_request :: "'g host \<Rightarrow> review_request \<Rightarrow> nat list \<Rightarrow> comment \<Rightarrow> bool" where
  "external_request H r known c \<longleftrightarrow> mentions_review c \<and> comment_id c \<notin> set known \<and>
     (case timestamp H (created_at c) of Inr at \<Rightarrow> requested_at r \<le> at | Inl _ \<Rightarrow> False) \<and>
     request_comment r \<noteq> Some (comment_id c) \<and> comment_body c \<noteq> request_body r"

definition inspect_saved_request ::
  "'g host \<Rightarrow> nat \<Rightarrow> nat \<Rightarrow> comment list \<Rightarrow> nat list \<Rightarrow> ('g, json option) work" where
  "inspect_saved_request H i actor cs known =
     after (get memory) (\<lambda>st.
     after (from_outcome (index (requests st) i)) (\<lambda>r.
     after (require (request_actor r = actor) ''authenticated caller differs from saved request owner'') (\<lambda>_.
     let found = filter (\<lambda>c. user_id (comment_user c) = request_actor r \<and> comment_body c = request_body r) cs in
     after (require (request_comment r = None \<longrightarrow> length found \<le> 1)
       ''multiple comments match one request; inspect remote state'') (\<lambda>_.
     case (request_comment r, found) of
       (None, c # _) \<Rightarrow>
         after (confirm_request H i c) (\<lambda>_.
         after (save_state H) (\<lambda>_.
         give (Some (reply ''reconciled'' [(''request_id'', JString (request_id r)), (''comment_id'', number (comment_id c))]))))
     | _ \<Rightarrow>
         give (if list_ex (external_request H r known) cs
           then Some (reply ''external_request'' [(''head'', JString (request_head r))]) else None)))))"

definition track_existing ::
  "'g host \<Rightarrow> nat \<Rightarrow> nat \<Rightarrow> rstring \<Rightarrow> comment list \<Rightarrow> nat \<Rightarrow> ('g, json) work" where
  "track_existing H i now head cs actor =
     after (some_or ''request comment is missing'' (find (\<lambda>c. comment_id c = i) cs)) (\<lambda>c.
     after (require (user_id (comment_user c) = actor \<and> contains (comment_body c) (lit ''@codex review'') \<and>
         contains (comment_body c) (lit ''Review commit `'' @ head @ lit ''`.''))
       ''request comment must belong to this caller and explicitly identify this commit'') (\<lambda>_.
     after (from_outcome (timestamp H (created_at c))) (\<lambda>at.
     after (require (at \<le> now) ''request comment is later than the observation time'') (\<lambda>_.
     after (request_id_new H) (\<lambda>u.
     after (change (\<lambda>st. st\<lparr>requests := requests st @ [\<lparr>request_id = u, request_head = head, requested_at = at,
         request_actor = actor, request_comment = Some i\<rparr>]\<rparr>)) (\<lambda>_.
     after (save_state H) (\<lambda>_.
     give (reply ''tracked'' [(''comment_id'', number i), (''requested_at'', number at)]))))))))"

text \<open>The end of a request: the response is checked and the request is confirmed.\<close>

definition post_request :: "'g host \<Rightarrow> review_request \<Rightarrow> rstring \<Rightarrow> ('g, json) work" where
  "post_request H r current_head =
     after (send_comment H (request_body r)) (\<lambda>c.
     after (require (0 < comment_id c \<and> user_id (comment_user c) = request_actor r \<and> comment_body c = request_body r)
       ''review request response is uncertain'') (\<lambda>_.
     after (get memory) (\<lambda>st.
     after (require (requests st \<noteq> []) ''saved request is missing'') (\<lambda>_.
     let i = length (requests st) - 1 in
     after (confirm_request H i c) (\<lambda>_.
     after (get memory) (\<lambda>st.
     after (save_state H) (\<lambda>_.
     give (reply ''requested'' [(''head'', JString current_head), (''request_id'', JString (request_id r)),
       (''comment_id'', number (comment_id c)), (''requested_at'', number (requested_at (requests st ! i)))]))))))))"

text \<open>The intent is durable before the outgoing effect, and the evidence is read again.\<close>

definition send_request ::
  "'g host \<Rightarrow> review_request \<Rightarrow> bool \<Rightarrow> comment list \<Rightarrow> ('g, json) work" where
  "send_request H r initial cs =
     after (change (\<lambda>st. st\<lparr>requests := requests st @ [r]\<rparr>)) (\<lambda>_.
     after (save_state H) (\<lambda>_.
     after (ask_or ''GitHub read failed'' (get_pull H)) (\<lambda>current.
     if pull_state current \<noteq> lit ''open'' \<or> pull_head current \<noteq> request_head r
     then give (reply ''changed_before_send'' [])
     else
     after (read_comments H) (\<lambda>fresh.
     after (from_outcome (review_of H fresh (pull_head current))) (\<lambda>status.
     if status = Complete then give (reply ''complete'' [(''head'', JString (pull_head current))])
     else if (initial \<and> status \<noteq> Missing) \<or> (\<not> initial \<and> status \<noteq> Incomplete)
     then give (reply ''provider_unavailable_before_send'' [])
     else if list_ex (\<lambda>c. mentions_review c \<and> comment_id c \<notin> comment_id ` set cs) fresh
     then give (reply ''external_request'' [])
     else post_request H r (pull_head current))))))"

definition decision_text :: "decision \<Rightarrow> string" where
  "decision_text d = (case d of CompleteDecision \<Rightarrow> ''complete'' | Closed \<Rightarrow> ''closed''
     | Untracked \<Rightarrow> ''untracked_head'' | Uncertain \<Rightarrow> ''uncertain'' | _ \<Rightarrow> ''waiting'')"

text \<open>What is known of the last request for the head.\<close>

definition last_request :: "review_state \<Rightarrow> nat option \<Rightarrow> (nat \<times> bool) option" where
  "last_request st i = map_option (\<lambda>i. (requested_at (requests st ! i), request_comment (requests st ! i) \<noteq> None)) i"

definition next_request ::
  "'g host \<Rightarrow> args \<Rightarrow> rstring \<Rightarrow> nat \<Rightarrow> comment list \<Rightarrow> review \<Rightarrow> nat option \<Rightarrow> nat list \<Rightarrow> ('g, json) work" where
  "next_request H a head actor cs status i known =
     after (get memory) (\<lambda>st.
     let d = decide True status (last_request st i) (arg_now a);
         initial = (arg_action a = Request \<and> i = None) in
     if initial \<and> status \<noteq> Missing then give (reply ''untracked_head'' [])
     else if initial \<and> list_ex (\<lambda>c. mentions_review c \<and> comment_id c \<notin> set known) cs
     then give (reply ''external_request'' [])
     else if \<not> initial \<and> d \<noteq> RequestDecision
     then give (reply (decision_text d) [(''head'', JString head)])
     else
     after (request_id_new H) (\<lambda>u.
     send_request H \<lparr>request_id = u, request_head = head, requested_at = arg_now a, request_actor = actor,
       request_comment = None\<rparr> initial cs))"

definition review_action ::
  "'g host \<Rightarrow> args \<Rightarrow> rstring \<Rightarrow> pull \<Rightarrow> comment list \<Rightarrow> ('g, json) work" where
  "review_action H a head p cs =
     (if pull_state p \<noteq> lit ''open'' then give (reply ''closed'' [])
      else if pull_head p \<noteq> head then give (reply ''head_changed'' [(''head'', JString (pull_head p))])
      else
      after (from_outcome (review_of H cs head)) (\<lambda>status.
      if status = Complete then give (reply ''complete'' [(''head'', JString head)])
      else
      after (ask_or ''GitHub read failed'' (get_actor H)) (\<lambda>u.
      after (require (0 < user_id u) ''invalid authenticated caller identity'') (\<lambda>_.
      after (get memory) (\<lambda>st.
      let i = rposition (\<lambda>r. request_head r = head) (requests st) in
      if arg_action a = Track then
        if i \<noteq> None then give (reply ''already_tracked'' [])
        else
        after (require (status = Incomplete) ''tracking requires an authenticated incomplete review for this head'') (\<lambda>_.
        after (some_or ''request comment is required'' (arg_request_comment a)) (\<lambda>n.
        track_existing H n (arg_now a) head cs (user_id u)))
      else
      after (require (arg_request_comment a = None) ''request-comment is only valid with track'') (\<lambda>_.
      let known = List.map_filter request_comment (requests st) in
      after (case i of None \<Rightarrow> give None | Some i \<Rightarrow> inspect_saved_request H i (user_id u) cs known) (\<lambda>result.
      case result of
        Some v \<Rightarrow> give v
      | None \<Rightarrow> next_request H a head (user_id u) cs status i known)))))))"

definition valid_segment :: "rstring \<Rightarrow> bool" where
  "valid_segment s \<longleftrightarrow> s \<noteq> [] \<and> s \<noteq> lit ''.'' \<and> s \<noteq> lit ''..'' \<and>
     list_all (\<lambda>b. is_ascii_alphanumeric b \<or> b \<in> set (lit ''-_.'')) (utf8 s)"

end
