(* ===== verification/Review_Wake.thy ===== *)
theory Review_Wake imports Review_Request begin

text \<open>
  One scheduled wake (\<open>tools/hosted_review/wake.rs\<close>) and the commands (\<open>execute\<close> of \<open>main.rs\<close>). The
  record of a wake is a JSON value; a path is its UTF-8 text. Of the text of an error the constant
  part is kept.
\<close>

section \<open>Complete evidence\<close>

definition json_or :: "string \<Rightarrow> 'a option \<Rightarrow> (string, 'a) outcome" where
  "json_or e x = ok_or (Err e) x"

definition page_records :: "nat \<Rightarrow> string \<Rightarrow> json list \<Rightarrow> json \<Rightarrow> (string, json list) outcome" where
  "page_records count field records page =
     (if as_u64 (at_key page ''total_count'') \<noteq> Some count then err ''response count changed between pages''
      else and_then (json_or ''missing response inventory'' (as_array (at_key page field))) (\<lambda>rs.
      Inr (records @ rs)))"

definition complete_pages :: "json \<Rightarrow> string \<Rightarrow> (string, json list) outcome" where
  "complete_pages pages field =
     and_then (json_or ''missing response pages'' (as_array pages)) (\<lambda>ps.
     if ps = [] then err ''empty response pages''
     else
     and_then (json_or ''missing total count'' (as_u64 (at_key (hd ps) ''total_count''))) (\<lambda>count.
     and_then (try_fold (page_records count field) [] ps) (\<lambda>records.
     if length records = count then Inr records else err ''incomplete response pages'')))"

datatype conclusion = Passed | Pending | Failed

definition conclusion_of :: "rstring \<Rightarrow> conclusion option" where
  "conclusion_of s =
     (if s \<in> set (map lit [''success'', ''skipped'', ''neutral'']) then Some Passed
      else if s \<in> set (map lit [''queued'', ''pending'', ''in_progress'', ''requested'', ''waiting'']) then Some Pending
      else if s \<in> set (map lit [''failure'', ''error'', ''cancelled'', ''timed_out'', ''action_required'',
        ''startup_failure'', ''stale'']) then Some Failed
      else None)"

definition record_identity :: "bool \<Rightarrow> json \<Rightarrow> (string, rstring) outcome" where
  "record_identity is_status r =
     (if is_status then json_or ''missing status context'' (as_str (at_key r ''context''))
      else and_then (json_or ''missing check identity'' (as_u64 (at_key r ''id''))) (\<lambda>i.
        if 0 < i then Inr (show_nat i) else err ''missing check identity''))"

definition record_conclusion :: "bool \<Rightarrow> json \<Rightarrow> (string, rstring) outcome" where
  "record_conclusion is_status r =
     and_then (json_or ''missing check status'' (as_str (at_key r (if is_status then ''state'' else ''status'')))) (\<lambda>st.
     if is_status then Inr st
     else if st = lit ''completed'' then json_or ''missing check conclusion'' (as_str (at_key r ''conclusion''))
     else Inr st)"

record ci =
  ci_pending :: bool
  ci_failures :: "json list"

text \<open>One record of a category; the identities of the category are collected.\<close>

definition ci_record :: "string \<Rightarrow> rstring set \<times> ci \<Rightarrow> json \<Rightarrow> (string, rstring set \<times> ci) outcome" where
  "ci_record category acc r = (case acc of (seen, c) \<Rightarrow>
     let is_status = (category = ''statuses'') in
     and_then (record_identity is_status r) (\<lambda>identity.
     if identity \<in> seen then err ''duplicate response identity''
     else
     and_then (json_or ''missing check name'' (as_str (at_key r (if is_status then ''context'' else ''name'')))) (\<lambda>name.
     and_then (record_conclusion is_status r) (\<lambda>text.
     and_then (json_or ''unknown check state'' (conclusion_of text)) (\<lambda>k.
     Inr (insert identity seen, case k of
         Passed \<Rightarrow> c
       | Pending \<Rightarrow> c\<lparr>ci_pending := True\<rparr>
       | Failed \<Rightarrow> c\<lparr>ci_failures := ci_failures c @
           [object [(''category'', text_value category), (''name'', JString name), (''conclusion'', JString text)]]\<rparr>))))))"

definition ci_category :: "ci \<Rightarrow> json \<times> string \<times> string \<Rightarrow> (string, ci) outcome" where
  "ci_category c source = (case source of (pages, field, category) \<Rightarrow>
     and_then (complete_pages pages field) (\<lambda>records.
     let c = (if category \<noteq> ''statuses'' \<and> records = [] then c\<lparr>ci_pending := True\<rparr> else c) in
     and_then (try_fold (ci_record category) ({}, c) records) (\<lambda>(_, c).
     Inr c)))"

definition ci_status :: "'g host \<Rightarrow> json \<Rightarrow> json \<Rightarrow> json \<Rightarrow> (string, ci) outcome" where
  "ci_status H checks statuses workflows =
     and_then (try_fold ci_category \<lparr>ci_pending = False, ci_failures = []\<rparr>
       [(checks, ''check_runs'', ''checks''), (statuses, ''statuses'', ''statuses''),
        (workflows, ''workflow_runs'', ''workflows'')]) (\<lambda>c.
     Inr (c\<lparr>ci_failures := sort_key (show_json H) (ci_failures c)\<rparr>))"

section \<open>The observation\<close>

definition has_findings :: "json option \<Rightarrow> (string, bool) outcome" where
  "has_findings provider =
     and_then (json_or ''missing completed provider state'' provider) (\<lambda>p.
     and_then (json_or ''missing findings status'' (as_bool (at_key p ''has_any_findings''))) (\<lambda>any_finding.
     and_then (json_or ''missing unresolved findings status'' (as_bool (at_key p ''has_unresolved_findings''))) (\<lambda>unresolved.
     Inr (any_finding \<or> unresolved))))"

definition condition :: "string \<Rightarrow> (string \<times> json) list \<Rightarrow> (string \<times> json) list" where
  "condition k kvs = (''kind'', text_value k) # kvs"

definition classify :: "ci \<Rightarrow> bool \<Rightarrow> rstring \<Rightarrow> json \<Rightarrow> review \<Rightarrow> (string \<times> json) list" where
  "classify c findings status result kind =
     (if ci_failures c \<noteq> [] then condition ''failure'' [(''failures'', JArray (ci_failures c))]
      else if findings then condition ''review_findings'' []
      else if status = lit ''requested'' then condition ''review_requested'' [(''request_id'', at_key result ''request_id'')]
      else if status \<notin> set (map lit [''waiting'', ''complete'', ''reconciled''])
      then condition ''action_required'' [(''review_status'', JString status)]
      else if kind = Missing then condition ''review_unavailable'' []
      else if \<not> ci_pending c \<and> kind = Complete then condition ''external_work_complete'' []
      else condition ''waiting'' [])"

definition json_option :: "json option \<Rightarrow> json" where
  "json_option x = (case x of None \<Rightarrow> JNull | Some v \<Rightarrow> v)"

text \<open>The snapshot and the members of the condition, of a pull request that is open at the expected commit.\<close>

definition observe_open :: "'g host \<Rightarrow> args \<Rightarrow> rstring \<Rightarrow> pull \<Rightarrow> ('g, json \<times> (string \<times> json) list) work" where
  "observe_open H a head p =
     after (read_comments H) (\<lambda>cs.
     after (from_outcome (review_state_of H cs head)) (\<lambda>provider.
     after (from_outcome (review_of H cs head)) (\<lambda>kind.
     after (ask_or ''GitHub read failed'' (get_evidence H head ''checks'')) (\<lambda>checks.
     after (ask_or ''GitHub read failed'' (get_evidence H head ''statuses'')) (\<lambda>statuses.
     after (ask_or ''GitHub read failed'' (get_evidence H head ''workflows'')) (\<lambda>workflows.
     after (from_outcome (ci_status H checks statuses workflows)) (\<lambda>c.
     after (review_action H a head p cs) (\<lambda>result.
     after (some_or ''missing review action status'' (as_str (at_key result ''status''))) (\<lambda>status.
     after (from_outcome (if kind = Complete then has_findings provider else Inr False)) (\<lambda>findings.
     give (reply ''observed'' [(''head'', JString (pull_head p)), (''review'', json_option provider), (''review_action'', result),
         (''checks'', checks), (''statuses'', statuses), (''workflows'', workflows)],
       classify c findings status result kind)))))))))))"

definition observe :: "'g host \<Rightarrow> args \<Rightarrow> rstring \<Rightarrow> ('g, json \<times> (string \<times> json) list) work" where
  "observe H a head =
     after (ask_or ''GitHub read failed'' (get_pull H)) (\<lambda>p.
     after (require (pull_state p \<in> {lit ''open'', lit ''closed''}) ''unknown PR state'') (\<lambda>_.
     if pull_state p = lit ''closed'' then
       give (reply ''closed'' [(''head'', JString (pull_head p))], condition ''closed'' [(''head'', JString (pull_head p))])
     else if pull_head p \<noteq> head then
       give (reply ''head_changed'' [(''head'', JString (pull_head p))],
         condition ''head_changed'' [(''head'', JString (pull_head p))])
     else observe_open H a head p))"

section \<open>The wake\<close>

definition message :: "rstring \<Rightarrow> bool \<Rightarrow> string" where
  "message kind cleared =
     (if cleared then ''The previous blocking condition cleared. External work remains pending.''
      else case map_of (map (\<lambda>(k, m). (lit k, m))
        [(''waiting'', ''External work remains pending. No user action is required.''),
         (''uncertain'', ''An observation failed or returned incomplete evidence. Inspect the retained state before further effects.''),
         (''closed'', ''The PR is closed. Check delivery evidence before ending the task.''),
         (''head_changed'', ''The PR commit changed. Review the new commit before further effects.''),
         (''failure'', ''An external check failed. Inspect the retained observation.''),
         (''review_findings'', ''Hosted review reported findings. Inspect the review before further effects.''),
         (''review_requested'', ''The shared timeout rule requested another hosted review.''),
         (''review_unavailable'', ''Current hosted review evidence is unavailable. Inspect the provider state.''),
         (''external_work_complete'', ''External work completed. Run the exact-head merge verifier before merge.'')]) kind of
        Some m \<Rightarrow> m
      | None \<Rightarrow> ''The review requires inspection. Pending work and assignment receipts remain preserved.'')"

definition check_identity :: "'g host \<Rightarrow> json \<Rightarrow> string \<Rightarrow> (string, unit) outcome" where
  "check_identity H selected key =
     and_then (json_or ''missing assignment identity'' (as_str (at_key selected key))) (\<lambda>s.
     and_then (json_or ''invalid UUID'' (uuid_number H s)) (\<lambda>n.
     if n = 0 then err ''invalid assignment identity'' else Inr ()))"

definition path_bytes :: "json \<Rightarrow> bool" where
  "path_bytes v = (case as_array v of None \<Rightarrow> False
     | Some bs \<Rightarrow> bs \<noteq> [] \<and> list_all (\<lambda>b. case as_u64 b of Some n \<Rightarrow> n \<le> 255 | None \<Rightarrow> False) bs)"

definition retained_assignment :: "'g host \<Rightarrow> rstring \<Rightarrow> (string, json) outcome" where
  "retained_assignment H receipt =
     (if \<not> is_absolute H receipt then err ''assignment receipt must be absolute''
      else
      and_then (json_or ''cannot read the assignment'' (selected_assignment H receipt)) (\<lambda>selected.
      and_then (try_fold (\<lambda>_. check_identity H selected) ()
        [''assignment_handle'', ''operation_id'', ''repository_id'', ''worktree_id'']) (\<lambda>_.
      if path_bytes (at_key (at_key selected ''path'') ''bytes'') then Inr selected
      else err ''missing lossless assignment path'')))"

definition is_object :: "json \<Rightarrow> bool" where
  "is_object v = (case v of JObject _ \<Rightarrow> True | _ \<Rightarrow> False)"

text \<open>The record of the previous wake has to be of the same assignment and of an earlier time.\<close>

definition check_previous :: "rstring \<Rightarrow> rstring \<Rightarrow> json \<Rightarrow> nat \<Rightarrow> json \<Rightarrow> (string, unit) outcome" where
  "check_previous automation receipt assignment now old =
     (if \<not> (at_key old ''version'' = JNumber (JInt 1) \<and> at_key old ''automation_id'' = JString automation \<and>
         at_key old ''assignment_receipt'' = JString receipt \<and> at_key old ''assignment'' = assignment)
      then err ''wake identity changed. Retain the original assignment receipt and automation identity''
      else if \<not> (case as_u64 (at_key old ''observed_at'') of Some at \<Rightarrow> at \<le> now | None \<Rightarrow> False)
      then err ''observation time moved backwards''
      else if \<not> is_object (at_key old ''condition'') then err ''invalid saved wake condition''
      else Inr ())"

definition blocking :: "rstring list" where
  "blocking = map lit [''uncertain'', ''failure'', ''review_findings'', ''head_changed'', ''action_required'',
     ''review_unavailable'']"

definition was_blocking :: "json \<Rightarrow> bool" where
  "was_blocking old = (case as_str (at_key (at_key old ''condition'') ''kind'') of
     Some k \<Rightarrow> k \<in> set blocking | None \<Rightarrow> False)"

definition restored :: "json option \<Rightarrow> json \<Rightarrow> bool" where
  "restored previous c \<longleftrightarrow> at_key c ''kind'' = text_value ''waiting'' \<and>
     (case previous of None \<Rightarrow> False | Some old \<Rightarrow> was_blocking old)"

definition notifies :: "json option \<Rightarrow> json \<Rightarrow> bool" where
  "notifies previous c =
     (let changed = (case previous of None \<Rightarrow> True | Some old \<Rightarrow> at_key old ''condition'' \<noteq> c)
      in (changed \<and> at_key c ''kind'' \<noteq> text_value ''waiting'') \<or> restored previous c)"

definition valid_automation :: "rstring \<Rightarrow> bool" where
  "valid_automation s \<longleftrightarrow> s \<noteq> [] \<and> list_all (\<lambda>b. is_ascii_alphanumeric b \<or> b \<in> set (lit ''-_:'')) (utf8 s)"

definition heartbeat :: "rstring \<Rightarrow> string \<Rightarrow> string \<Rightarrow> rstring" where
  "heartbeat automation choice text =
     lit ''<heartbeat>'' @ [10] @ lit ''  <automation_id>'' @ automation @ lit ''</automation_id>'' @ [10] @
     lit ''  <decision>'' @ lit choice @ lit ''</decision>'' @ [10] @ lit ''  <message>'' @ lit text @ lit ''</message>'' @ [10] @
     lit ''</heartbeat>''"

text \<open>A failed observation is reported as uncertain.\<close>

definition wake_observation :: "string + json \<times> (string \<times> json) list \<Rightarrow> json \<times> (string \<times> json) list" where
  "wake_observation r = (case r of
       Inr x \<Rightarrow> x
     | Inl e \<Rightarrow> (reply ''uncertain'' [(''detail'', text_value e)], condition ''uncertain'' []))"

definition wake_record :: "rstring \<Rightarrow> rstring \<Rightarrow> json \<Rightarrow> nat \<Rightarrow> json \<Rightarrow> json \<Rightarrow> json option \<Rightarrow> json" where
  "wake_record automation receipt assignment now c snapshot previous =
     object [(''version'', JNumber (JInt 1)), (''automation_id'', JString automation),
       (''assignment_receipt'', JString receipt), (''assignment'', assignment), (''observed_at'', number now),
       (''condition'', c), (''observation'', snapshot),
       (''last_successful_observation'', if at_key snapshot ''status'' = text_value ''uncertain''
         then (case previous of None \<Rightarrow> JNull | Some old \<Rightarrow> at_key old ''last_successful_observation'') else snapshot),
       (''decision'', text_value (if notifies previous c then ''NOTIFY'' else ''DONT_NOTIFY''))]"

definition wake_reply :: "rstring \<Rightarrow> rstring \<Rightarrow> string \<Rightarrow> string \<Rightarrow> json \<Rightarrow> json" where
  "wake_reply automation receipt choice text r =
     object [(''status'', at_key (at_key r ''condition'') ''kind''), (''decision'', text_value choice),
       (''message'', text_value text), (''observation'', at_key r ''observation''), (''assignment_receipt'', JString receipt),
       (''heartbeat'', JString (heartbeat automation choice text))]"

text \<open>The decision is persisted before it is returned: a restart cannot repeat this transition.\<close>

definition run_wake :: "'g host \<Rightarrow> args \<Rightarrow> rstring \<Rightarrow> ('g, json) work" where
  "run_wake H a head =
     after (some_or ''automation-id is required'' (arg_automation_id a)) (\<lambda>automation.
     after (require (valid_automation automation) ''invalid automation identity'') (\<lambda>_.
     after (some_or ''assignment receipt is required'' (arg_assignment_receipt a)) (\<lambda>receipt.
     after (from_outcome (retained_assignment H receipt)) (\<lambda>assignment.
     after (get wake_file) (\<lambda>previous.
     after (from_outcome (case previous of None \<Rightarrow> Inr ()
       | Some old \<Rightarrow> check_previous automation receipt assignment (arg_now a) old)) (\<lambda>_.
     after (attempt (observe H a head)) (\<lambda>observation.
     let (snapshot, kvs) = wake_observation observation;
         c = object (kvs @ [(''expected_head'', JString head)]);
         choice = (if notifies previous c then ''NOTIFY'' else ''DONT_NOTIFY'') in
     after (some_or ''missing condition'' (as_str (at_key c ''kind''))) (\<lambda>kind.
     let text = message kind (restored previous c);
         r = wake_record automation receipt assignment (arg_now a) c snapshot previous in
     after (save_wake H r) (\<lambda>_.
     give (wake_reply automation receipt choice text r))))))))))"

section \<open>The commands\<close>

definition valid_repository :: "rstring \<Rightarrow> bool" where
  "valid_repository s \<longleftrightarrow> (let pieces = split_at_char 47 s in length pieces = 2 \<and> list_all valid_segment pieces)"

definition execute :: "'g host \<Rightarrow> args \<Rightarrow> ('g, json) work" where
  "execute H a =
     (let repo = to_ascii_lowercase (arg_repo a) in
     after (require (valid_repository repo) ''repository must be owner/name'') (\<lambda>_.
     after (require (0 < arg_pr a) ''PR number must be positive'') (\<lambda>_.
     after (some_or ''commit must be a full SHA-1'' (commit_try_from (arg_head a))) (\<lambda>head.
     after (read_state H repo (arg_pr a)) (\<lambda>st.
     after (change (\<lambda>_. st)) (\<lambda>_.
     if arg_action a = Wake then run_wake H a head
     else
     after (ask_or ''GitHub read failed'' (get_pull H)) (\<lambda>p.
     after (if pull_state p = lit ''open'' \<and> pull_head p = head then read_comments H else give []) (\<lambda>cs.
     review_action H a head p cs))))))))"

end
