(* ===== verification/Review_Safety.thy ===== *)
theory Review_Safety imports Review_Wake "HOL-Library.Sublist" begin

text \<open>
  What a command promises about its deeds, as an observer that reads them one after the other: a
  review is requested at most once, after the intent is in the file, and only when the file permits
  it. The observer accepts every beginning of what it accepts, so the promise holds however the
  process dies. Over any number of commands the requests for one commit are spaced.
\<close>

section \<open>The observer\<close>

text \<open>The last request for the commit decides: none, or confirmed and more than an hour old.\<close>

definition permitted :: "args \<Rightarrow> rstring \<Rightarrow> review_state \<Rightarrow> bool" where
  "permitted a h f = (case rposition (\<lambda>r. request_head r = h) (requests f) of
       None \<Rightarrow> arg_action a = Request
     | Some i \<Rightarrow> request_comment (requests f ! i) \<noteq> None \<and> requested_at (requests f ! i) + 3600 < arg_now a)"

definition appends :: "args \<Rightarrow> review_state \<Rightarrow> review_request \<Rightarrow> review_state \<Rightarrow> bool" where
  "appends a f r st \<longleftrightarrow> st = f\<lparr>requests := requests f @ [r]\<rparr> \<and> commit_try_from (arg_head a) = Some (request_head r)"

definition announces :: "args \<Rightarrow> review_state \<Rightarrow> review_state \<Rightarrow> bool" where
  "announces a f st \<longleftrightarrow> (let r = last (requests st) in
     appends a f r st \<and> request_comment r = None \<and> requested_at r = arg_now a \<and> permitted a (request_head r) f)"

definition tracks :: "args \<Rightarrow> review_state \<Rightarrow> review_state \<Rightarrow> bool" where
  "tracks a f st \<longleftrightarrow> (let r = last (requests st) in
     appends a f r st \<and> request_comment r \<noteq> None \<and> request_head r \<notin> request_head ` set (requests f))"

text \<open>The last request for a commit gets its comment; the time can only be delayed.\<close>

definition confirms_at :: "nat \<Rightarrow> review_state \<Rightarrow> review_state \<Rightarrow> bool" where
  "confirms_at i f st \<longleftrightarrow> (let r = requests f ! i; q = requests st ! i in
     st = f\<lparr>requests := (requests f)[i := q]\<rparr> \<and> request_body q = request_body r \<and> request_head q = request_head r \<and>
     request_comment r = None \<and> request_comment q \<noteq> None \<and> requested_at r \<le> requested_at q \<and>
     rposition (\<lambda>x. request_head x = request_head r) (requests f) = Some i)"

definition confirms :: "review_state \<Rightarrow> review_state \<Rightarrow> bool" where
  "confirms f st \<longleftrightarrow> list_ex (\<lambda>i. confirms_at i f st) [0..<length (requests f)]"

datatype phase = Opened | Announced rstring | Sent | Settled

definition watch_save :: "args \<Rightarrow> review_state \<times> phase \<Rightarrow> review_state \<Rightarrow> unit + review_state \<times> phase" where
  "watch_save a w st = (case snd w of
       Opened \<Rightarrow>
         if announces a (fst w) st then Inr (st, Announced (request_body (last (requests st))))
         else if tracks a (fst w) st \<or> confirms (fst w) st then Inr (st, Settled) else Inl ()
     | Sent \<Rightarrow> if confirms (fst w) st then Inr (st, Settled) else Inl ()
     | _ \<Rightarrow> Inl ())"

definition watch_review :: "args \<Rightarrow> review_state \<times> phase \<Rightarrow> deed \<Rightarrow> unit + review_state \<times> phase" where
  "watch_review a w d = (case d of
       SavedState st \<Rightarrow> watch_save a w st
     | SavedWake _ \<Rightarrow> Inr (fst w, Settled)
     | Posted b \<Rightarrow> if snd w = Announced b then Inr (fst w, Sent) else Inl ())"

lemma rposition_None: "rposition P xs = None \<longleftrightarrow> (\<forall>x \<in> set xs. \<not> P x)"
  by (induction xs) (auto split: option.splits)

lemma rposition_Some:
  "rposition P xs = Some i \<Longrightarrow> i < length xs \<and> P (xs ! i) \<and> (\<forall>j. i < j \<longrightarrow> j < length xs \<longrightarrow> \<not> P (xs ! j))"
proof (induction xs arbitrary: i)
  case (Cons x xs)
  show ?case
  proof (cases "rposition P xs")
    case None
    with Cons.prems have "i = 0" "P x" by (auto split: if_splits)
    with None show ?thesis by (auto simp: rposition_None nth_Cons split: nat.splits)
  next
    case (Some k)
    with Cons show ?thesis by (auto simp: nth_Cons split: nat.splits)
  qed
qed simp

lemma rposition_snoc: "P x \<Longrightarrow> rposition P (xs @ [x]) = Some (length xs)"
  by (induction xs) simp_all

section \<open>The judgement\<close>

definition promises ::
  "args \<Rightarrow> (review_state \<times> phase \<Rightarrow> review_state \<Rightarrow> bool) \<Rightarrow> ('g, 'a) work \<Rightarrow>
    ('a \<Rightarrow> review_state \<times> phase \<Rightarrow> review_state \<Rightarrow> bool) \<Rightarrow> bool" where
  "promises a P m Q \<longleftrightarrow> (\<forall>s w. P w (memory s) \<longrightarrow> (\<exists>ds w'. deeds (snd (m s)) = deeds s @ ds \<and>
     try_fold (watch_review a) w ds = Inr w' \<and> (\<forall>x. fst (m s) = Inr x \<longrightarrow> Q x w' (memory (snd (m s))))))"

definition calm :: "('g, 'a) work \<Rightarrow> bool" where
  "calm m \<longleftrightarrow> (\<forall>s. deeds (snd (m s)) = deeds s \<and> memory (snd (m s)) = memory s)"

named_theorems calm

lemma calm_basic [calm]: "calm (give x)" "calm (stop e)" "calm (from_outcome r)" "calm (get f)" "calm (ask q)"
  by (simp_all add: calm_def ask_def)

lemma calm_require [calm]: "calm (require b e)"
  by (simp add: calm_def require_def)

lemma calm_some_or [calm]: "calm (some_or e x)"
  by (cases x) (simp_all add: calm_def)

lemma calm_after [calm]: "calm m \<Longrightarrow> (\<And>x. calm (k x)) \<Longrightarrow> calm (after m k)"
  by (auto simp: calm_def after_def split: prod.splits sum.splits) (metis snd_conv)+

lemma calm_ask_or [calm]: "calm (ask_or e q)"
  unfolding ask_or_def by (intro calm)

lemma calm_read_comments [calm]: "calm (read_comments H)"
  unfolding read_comments_def Let_def by (intro calm)

lemma calm_request_id_new [calm]: "calm (request_id_new H)"
  unfolding request_id_new_def by (intro calm)

lemma promises_calm: "calm m \<Longrightarrow> (\<And>x w st. P w st \<Longrightarrow> Q x w st) \<Longrightarrow> promises a P m Q"
  unfolding promises_def calm_def by fastforce

lemma promises_after:
  fixes m :: "('g, 'a) work"
  assumes "promises a P m R" "\<And>x. promises a (R x) (k x) Q"
  shows "promises a P (after m k) Q"
  unfolding promises_def
proof (intro allI impI)
  fix s :: "'g desk" and w
  assume P: "P w (memory s)"
  obtain ds w' where 1: "deeds (snd (m s)) = deeds s @ ds" "try_fold (watch_review a) w ds = Inr w'"
    "\<And>x. fst (m s) = Inr x \<Longrightarrow> R x w' (memory (snd (m s)))"
    using assms(1) P unfolding promises_def by blast
  show "\<exists>ds w'. deeds (snd (after m k s)) = deeds s @ ds \<and> try_fold (watch_review a) w ds = Inr w' \<and>
      (\<forall>x. fst (after m k s) = Inr x \<longrightarrow> Q x w' (memory (snd (after m k s))))"
  proof (cases "m s")
    case (Pair r s1)
    show ?thesis
    proof (cases r)
      case (Inl e)
      with Pair 1 show ?thesis by auto
    next
      case (Inr x)
      with Pair 1 have R: "R x w' (memory s1)" by simp
      obtain ds2 w2 where "deeds (snd (k x s1)) = deeds s1 @ ds2" "try_fold (watch_review a) w' ds2 = Inr w2"
        "\<And>y. fst (k x s1) = Inr y \<Longrightarrow> Q y w2 (memory (snd (k x s1)))"
        using assms(2) R unfolding promises_def by blast
      with Pair Inr 1 show ?thesis by (auto simp: try_fold_append simp del: split_paired_Ex intro!: exI [of _ "ds @ ds2"] exI [of _ w2])
    qed
  qed
qed

text \<open>A step that does nothing of note, then the rest.\<close>

lemma promises_then:
  "calm m \<Longrightarrow> (\<And>x. promises a P (k x) Q) \<Longrightarrow> promises a P (after m k) Q"
  by (rule promises_after [where R = "\<lambda>_. P"]) (auto intro: promises_calm)

lemma promises_weaken:
  "promises a P m Q \<Longrightarrow> (\<And>w st. P' w st \<Longrightarrow> P w st) \<Longrightarrow> (\<And>x w st. Q x w st \<Longrightarrow> Q' x w st) \<Longrightarrow> promises a P' m Q'"
  unfolding promises_def by meson

lemma promises_give [simp]: "promises a P (give x) (\<lambda>_ _ _. True)"
  by (rule promises_calm) (auto intro: calm)

lemma promises_require: "(b \<Longrightarrow> promises a P (k ()) Q) \<Longrightarrow> promises a P (after (require b e) k) Q"
  by (cases b) (auto simp: promises_def)

lemma promises_some_or: "(\<And>x. v = Some x \<Longrightarrow> promises a P (k x) Q) \<Longrightarrow> promises a P (after (some_or e v) k) Q"
  by (cases v) (auto simp: promises_def)

lemma promises_from_outcome: "(\<And>x. r = Inr x \<Longrightarrow> promises a P (k x) Q) \<Longrightarrow> promises a P (after (from_outcome r) k) Q"
  by (cases r) (auto simp: promises_def)

text \<open>What is read of the memory is known to be it.\<close>

lemma promises_memory:
  "(\<And>st. promises a (\<lambda>w st'. P w st' \<and> st' = st) (k st) Q) \<Longrightarrow> promises a P (after (get memory) k) Q"
  by (auto simp: promises_def)

lemma promises_change:
  "promises a (\<lambda>w st. \<exists>st0. P w st0 \<and> st = f st0) (k ()) Q \<Longrightarrow> promises a P (after (change f) k) Q"
  by (rule promises_after [where R = "\<lambda>_ w st. \<exists>st0. P w st0 \<and> st = f st0"]) (auto simp: promises_def change_def)

lemma promises_save:
  fixes H :: "'g host"
  assumes "\<And>w st. P w st \<Longrightarrow> \<exists>w'. watch_review a w (SavedState st) = Inr w' \<and> R w' st"
    and "promises a R (k ()) Q"
  shows "promises a P (after (save_state H) k) Q"
proof (rule promises_after)
  show "promises a P (save_state H) (\<lambda>_. R)"
    unfolding promises_def
  proof (intro allI impI)
    fix s :: "'g desk" and w
    assume "P w (memory s)"
    with assms(1) obtain w' where "watch_review a w (SavedState (memory s)) = Inr w'" "R w' (memory s)" by blast
    then show "\<exists>ds w'. deeds (snd (save_state H s)) = deeds s @ ds \<and> try_fold (watch_review a) w ds = Inr w' \<and>
        (\<forall>x. fst (save_state H s) = Inr x \<longrightarrow> R w' (memory (snd (save_state H s))))"
      by (cases "fst (replace_state H (memory s) (outside s))")
        (auto simp: save_state_def save_json_def after_def ask_def simp del: split_paired_Ex intro: exI [of _ "[]"] exI [of _ "[SavedState (memory s)]"])
  qed
qed (use assms(2) in simp)

lemma promises_send:
  fixes H :: "'g host"
  assumes "\<And>w st. P w st \<Longrightarrow> snd w = Announced b"
    and "\<And>x. promises a (\<lambda>w st. \<exists>w0. P w0 st \<and> w = (fst w0, Sent)) (k x) Q"
  shows "promises a P (after (send_comment H b) k) Q"
proof (rule promises_after)
  let ?R = "\<lambda>w st. \<exists>w0. P w0 st \<and> w = (fst w0, Sent)"
  have 1: "promises a P (put (\<lambda>s. s\<lparr>deeds := deeds s @ [Posted b]\<rparr>)) (\<lambda>_. ?R)"
    using assms(1) by (fastforce simp: promises_def watch_review_def)
  have 2: "promises a ?R (ask_or e q) (\<lambda>_. ?R)" for e and q :: "'g \<Rightarrow> comment option \<times> 'g"
    by (rule promises_calm) (auto intro: calm)
  show "promises a P (send_comment H b) (\<lambda>_. ?R)"
    unfolding send_comment_def by (rule promises_after [where R = "\<lambda>_. ?R", OF 1 2])
qed (use assms(2) in simp)

lemma promises_save_wake:
  fixes H :: "'g host"
  shows "promises a P (save_wake H v) (\<lambda>_ _ _. True)"
  unfolding promises_def
proof (intro allI impI)
  fix s :: "'g desk" and w
  show "\<exists>ds w'. deeds (snd (save_wake H v s)) = deeds s @ ds \<and> try_fold (watch_review a) w ds = Inr w' \<and>
        (\<forall>x. fst (save_wake H v s) = Inr x \<longrightarrow> True)"
    by (cases "fst (replace_wake H v (outside s))")
      (auto simp: save_wake_def save_json_def after_def ask_def watch_review_def intro: exI [of _ "[]"] exI [of _ "[SavedWake v]"])
qed

lemma promises_attempt: "promises a P m (\<lambda>_ _ _. True) \<Longrightarrow> promises a P (attempt m) (\<lambda>_ _ _. True)"
proof -
  have "deeds (snd (attempt m s)) = deeds (snd (m s))" for s
    by (auto simp: attempt_def split: prod.splits sum.splits failure.splits)
  then show "promises a P m (\<lambda>_ _ _. True) \<Longrightarrow> promises a P (attempt m) (\<lambda>_ _ _. True)"
    by (simp add: promises_def)
qed

section \<open>Confirmations\<close>

definition confirmed_by :: "nat \<Rightarrow> nat \<Rightarrow> review_request \<Rightarrow> review_request" where
  "confirmed_by c at r = r\<lparr>request_comment := Some c, requested_at := max (requested_at r) at\<rparr>"

lemma set_request_set_request: "set_request i f (set_request i g st) = set_request i (\<lambda>r. f (g r)) st"
  by (cases "i < length (requests st)") (simp_all add: set_request_def list_update_beyond)

lemma confirms_set_request:
  assumes "rposition (\<lambda>r. request_head r = h) (requests st) = Some i" "request_comment (requests st ! i) = None"
  shows "confirms st (set_request i (confirmed_by c at) st)"
proof -
  have i: "i < length (requests st)" "request_head (requests st ! i) = h" using rposition_Some [OF assms(1)] by auto
  with assms have "confirms_at i st (set_request i (confirmed_by c at) st)"
    by (simp add: confirms_at_def set_request_def confirmed_by_def request_body_def Let_def)
  with i show ?thesis by (auto simp: confirms_def list_ex_iff)
qed

lemma not_appended: "length (requests st) = length (requests f) \<Longrightarrow> \<not> announces a f st \<and> \<not> tracks a f st"
  by (auto simp: announces_def tracks_def appends_def Let_def dest: arg_cong [of st _ "\<lambda>x. length (requests x)"])

lemma set_request_length [simp]: "length (requests (set_request i f st)) = length (requests st)"
  by (simp add: set_request_def)

lemma watch_confirmation:
  assumes "rposition (\<lambda>r. request_head r = h) (requests st) = Some i" "request_comment (requests st ! i) = None"
    and "ph = Opened \<or> ph = Sent"
  shows "watch_review a (st, ph) (SavedState (set_request i (confirmed_by c at) st)) =
    Inr (set_request i (confirmed_by c at) st, Settled)"
  using assms confirms_set_request [OF assms(1,2)] not_appended [of "set_request i (confirmed_by c at) st" st a]
  by (auto simp: watch_review_def watch_save_def)

lemma promises_confirm:
  assumes "promises a (\<lambda>w st. \<exists>st0 at. P w st0 \<and> st = set_request i (confirmed_by (comment_id c) at) st0) (k ()) Q"
  shows "promises a P (after (confirm_request H i c) k) Q"
proof (rule promises_after)
  show "promises a P (confirm_request H i c)
      (\<lambda>_ w st. \<exists>st0 at. P w st0 \<and> st = set_request i (confirmed_by (comment_id c) at) st0)"
    by (auto simp: promises_def confirm_request_def change_def set_request_set_request confirmed_by_def [abs_def]
      after_def simp del: split_paired_Ex split: sum.splits)
qed (use assms in simp)

section \<open>The commands keep the promise\<close>

definition opened :: "review_state \<Rightarrow> review_state \<times> phase \<Rightarrow> review_state \<Rightarrow> bool" where
  "opened f w st \<longleftrightarrow> w = (f, Opened) \<and> st = f"

lemma promises_inspect:
  assumes "rposition (\<lambda>r. request_head r = h) (requests f) = Some i"
  shows "promises a (opened f) (inspect_saved_request H i actor cs known) (\<lambda>x w st. x = None \<longrightarrow> opened f w st)"
  unfolding inspect_saved_request_def
proof (rule promises_memory, rule promises_from_outcome, rule promises_require)
  fix st :: review_state and r
  assume "index (requests st) i = Inr r"
  let ?P = "\<lambda>w st'. opened f w st' \<and> st' = st"
  let ?found = "filter (\<lambda>c. user_id (comment_user c) = request_actor r \<and> comment_body c = request_body r) cs"
  have quiet: "promises a ?P (give x) (\<lambda>x w st. x = None \<longrightarrow> opened f w st)" for x :: "json option"
    by (rule promises_calm) (auto intro: calm)
  have confirm: "promises a ?P (after (confirm_request H i c) (\<lambda>_. after (save_state H) (\<lambda>_. give (Some v))))
      (\<lambda>x w st. x = None \<longrightarrow> opened f w st)" if "request_comment r = None" for c and v :: json
  proof (rule promises_confirm, rule promises_save [where R = "\<lambda>_ _. True"])
    fix w st'
    assume "\<exists>st0 at. (opened f w st0 \<and> st0 = st) \<and> st' = set_request i (confirmed_by (comment_id c) at) st0"
    then obtain at where 1: "w = (f, Opened)" "st = f" "st' = set_request i (confirmed_by (comment_id c) at) f"
      unfolding opened_def by blast
    with that \<open>index (requests st) i = Inr r\<close> have "request_comment (requests f ! i) = None"
      by (simp add: index_Inr_iff)
    from watch_confirmation [OF assms this, of Opened a "comment_id c" at] 1
    show "\<exists>w'. watch_review a w (SavedState st') = Inr w' \<and> True" by simp
  next
    show "promises a (\<lambda>_ _. True) (give (Some v)) (\<lambda>x w st. x = None \<longrightarrow> opened f w st)"
      by (simp add: promises_def)
  qed
  show "promises a ?P (let found = ?found in after (require (request_comment r = None \<longrightarrow> length found \<le> 1)
       ''multiple comments match one request; inspect remote state'') (\<lambda>_.
     case (request_comment r, found) of
       (None, c # _) \<Rightarrow>
         after (confirm_request H i c) (\<lambda>_.
         after (save_state H) (\<lambda>_.
         give (Some (reply ''reconciled'' [(''request_id'', JString (request_id r)), (''comment_id'', number (comment_id c))]))))
     | _ \<Rightarrow>
         give (if list_ex (external_request H r known) cs
           then Some (reply ''external_request'' [(''head'', JString (request_head r))]) else None)))
      (\<lambda>x w st. x = None \<longrightarrow> opened f w st)"
    unfolding Let_def
    by (rule promises_require) (auto split: option.splits list.splits intro: quiet confirm)
qed

lemma promises_post:
  assumes h: "request_comment r = None"
  shows "promises a (\<lambda>w st. w = (st, Announced (request_body r)) \<and> st = f\<lparr>requests := requests f @ [r]\<rparr>)
    (post_request H r current) (\<lambda>_ _ _. True)"
proof -
  let ?st = "f\<lparr>requests := requests f @ [r]\<rparr>" and ?i = "length (requests f)"
  have last: "rposition (\<lambda>x. request_head x = request_head r) (requests ?st) = Some ?i"
    by (simp add: rposition_snoc)
  show ?thesis
    unfolding post_request_def Let_def
  proof (rule promises_send, simp, rule promises_require, rule promises_memory, rule promises_require, rule promises_confirm)
    fix c :: comment and st :: review_state
    show "promises a (\<lambda>w st'. \<exists>st0 at. ((\<exists>w0. (w0 = (st0, Announced (request_body r)) \<and> st0 = ?st) \<and> w = (fst w0, Sent)) \<and> st0 = st) \<and>
          st' = set_request (length (requests st) - 1) (confirmed_by (comment_id c) at) st0)
        (after (get memory) (\<lambda>st'. after (save_state H) (\<lambda>_. give (reply ''requested'' [(''head'', JString current),
          (''request_id'', JString (request_id r)), (''comment_id'', number (comment_id c)),
          (''requested_at'', number (requested_at (requests st' ! (length (requests st) - 1))))])))) (\<lambda>_ _ _. True)"
    proof (rule promises_memory, rule promises_save [where R = "\<lambda>_ _. True"])
      fix st' w st2
      assume "(\<exists>st0 at. ((\<exists>w0. (w0 = (st0, Announced (request_body r)) \<and> st0 = ?st) \<and> w = (fst w0, Sent)) \<and> st0 = st) \<and>
          st2 = set_request (length (requests st) - 1) (confirmed_by (comment_id c) at) st0) \<and> st2 = st'"
      then obtain at where "w = (?st, Sent)" "st2 = set_request ?i (confirmed_by (comment_id c) at) ?st" by auto
      with watch_confirmation [OF last] h show "\<exists>w'. watch_review a w (SavedState st2) = Inr w' \<and> True" by simp
    qed simp
  qed
qed

named_theorems promises \<open>rules for the steps of a command\<close>

lemma promises_opened_memory [promises]: "promises a (opened f) (k f) Q \<Longrightarrow> promises a (opened f) (after (get memory) k) Q"
  by (auto simp: promises_def opened_def)

lemma promises_if [promises]:
  "(b \<Longrightarrow> promises a P m Q) \<Longrightarrow> (\<not> b \<Longrightarrow> promises a P n Q) \<Longrightarrow> promises a P (if b then m else n) Q"
  by simp

lemma promises_give_True [promises]: "promises a P (give x) (\<lambda>_ _ _. True)"
  by simp

declare promises_require [promises] promises_some_or [promises] promises_from_outcome [promises]

lemmas promises_quiet_steps [promises] =
  promises_then [OF calm_ask_or] promises_then [OF calm_read_comments] promises_then [OF calm_request_id_new]

lemma permitted_decision:
  assumes "i = rposition (\<lambda>r. request_head r = h) (requests f)"
    and "arg_action a = Request \<and> i = None \<or> decide True status (last_request f i) (arg_now a) = RequestDecision"
  shows "permitted a h f"
  using assms(2) unfolding permitted_def assms(1) [symmetric]
  by (auto simp: last_request_def decide_def split: if_splits option.splits)

lemma watch_announcement:
  assumes "commit_try_from (arg_head a) = Some (request_head r)" "permitted a (request_head r) f"
    and "request_comment r = None" "requested_at r = arg_now a"
  shows "watch_review a (f, Opened) (SavedState (f\<lparr>requests := requests f @ [r]\<rparr>)) =
    Inr (f\<lparr>requests := requests f @ [r]\<rparr>, Announced (request_body r))"
  using assms by (simp add: watch_review_def watch_save_def announces_def appends_def Let_def)

lemma promises_send_request:
  assumes "commit_try_from (arg_head a) = Some (request_head r)" "permitted a (request_head r) f"
    and "request_comment r = None" "requested_at r = arg_now a"
  shows "promises a (opened f) (send_request H r initial cs) (\<lambda>_ _ _. True)"
  unfolding send_request_def
proof (rule promises_change, rule promises_save)
  let ?P = "\<lambda>w st. w = (st, Announced (request_body r)) \<and> st = f\<lparr>requests := requests f @ [r]\<rparr>"
  fix w st
  assume "\<exists>st0. opened f w st0 \<and> st = st0\<lparr>requests := requests st0 @ [r]\<rparr>"
  then have "w = (f, Opened)" "st = f\<lparr>requests := requests f @ [r]\<rparr>" by (auto simp: opened_def)
  with watch_announcement [OF assms] show "\<exists>w'. watch_review a w (SavedState st) = Inr w' \<and> ?P w' st" by simp
qed (intro promises promises_post [OF assms(3)])

lemma promises_next_request:
  assumes "commit_try_from (arg_head a) = Some h" "i = rposition (\<lambda>r. request_head r = h) (requests f)"
  shows "promises a (opened f) (next_request H a h actor cs status i known) (\<lambda>_ _ _. True)"
  unfolding next_request_def Let_def
  by (intro promises; rule promises_send_request) (use assms permitted_decision [OF assms(2)] in auto)

lemma promises_track:
  assumes "commit_try_from (arg_head a) = Some h" "h \<notin> request_head ` set (requests f)"
  shows "promises a (opened f) (track_existing H i now h cs actor) (\<lambda>_ _ _. True)"
  unfolding track_existing_def
proof (intro promises, rule promises_change, rule promises_save [where R = "\<lambda>_ _. True"])
  fix at u w st
  assume "\<exists>st0. opened f w st0 \<and> st = st0\<lparr>requests := requests st0 @ [\<lparr>request_id = u, request_head = h, requested_at = at,
         request_actor = actor, request_comment = Some i\<rparr>]\<rparr>"
  then obtain r where "w = (f, Opened)" "st = f\<lparr>requests := requests f @ [r]\<rparr>" "request_comment r = Some i" "request_head r = h"
    by (auto simp: opened_def)
  with assms show "\<exists>w'. watch_review a w (SavedState st) = Inr w' \<and> True"
    by (simp add: watch_review_def watch_save_def announces_def tracks_def appends_def Let_def)
qed simp

lemma promises_inspected:
  assumes "commit_try_from (arg_head a) = Some h" "i = rposition (\<lambda>r. request_head r = h) (requests f)"
  shows "promises a (opened f) (after (case i of None \<Rightarrow> give None | Some j \<Rightarrow> inspect_saved_request H j actor cs known)
      (\<lambda>result. case result of Some v \<Rightarrow> give v | None \<Rightarrow> next_request H a h actor cs status i known)) (\<lambda>_ _ _. True)"
proof (rule promises_after)
  show "promises a (opened f) (case i of None \<Rightarrow> give None | Some j \<Rightarrow> inspect_saved_request H j actor cs known)
      (\<lambda>x w st. x = None \<longrightarrow> opened f w st)"
  proof (cases i)
    case None
    then show ?thesis by (auto intro: promises_calm calm)
  next
    case (Some j)
    then show ?thesis using promises_inspect [of h f j] assms(2) by simp
  qed
  show "promises a (\<lambda>w st. result = None \<longrightarrow> opened f w st)
      (case result of Some v \<Rightarrow> give v | None \<Rightarrow> next_request H a h actor cs status i known) (\<lambda>_ _ _. True)" for result
    by (cases result) (simp_all add: promises_next_request [OF assms])
qed

lemma promises_review_action:
  assumes "commit_try_from (arg_head a) = Some h"
  shows "promises a (opened f) (review_action H a h p cs) (\<lambda>_ _ _. True)"
  unfolding review_action_def Let_def
  by (intro promises promises_inspected [OF assms refl] promises_track [OF assms]) (auto simp: rposition_None)

lemma promises_opened_wake [promises]: "(\<And>v. promises a P (k v) Q) \<Longrightarrow> promises a P (after (get wake_file) k) Q"
  by (auto simp: promises_def)

lemma promises_observe:
  assumes "commit_try_from (arg_head a) = Some h"
  shows "promises a (opened f) (observe H a h) (\<lambda>_ _ _. True)"
proof -
  have rest: "promises a (\<lambda>_ _. True) (after (some_or e1 v1) (\<lambda>s. after (from_outcome r) (\<lambda>b. give (k s b)))) (\<lambda>_ _ _. True)"
    for e1 :: string and v1 :: "'b option" and r :: "(string, 'c) outcome" and k :: "'b \<Rightarrow> 'c \<Rightarrow> 'd"
    by (intro promises)
  show ?thesis
    unfolding observe_def observe_open_def
    by (intro promises promises_after [OF promises_review_action [OF assms]] rest)
qed

lemma promises_wake:
  assumes "commit_try_from (arg_head a) = Some h"
  shows "promises a (opened f) (run_wake H a h) (\<lambda>_ _ _. True)"
  unfolding run_wake_def Let_def case_prod_beta
  by (intro promises promises_after [OF promises_attempt [OF promises_observe [OF assms]]]
    promises_after [OF promises_save_wake])


lemma promisesD:
  "promises a P m Q \<Longrightarrow> P w (memory s) \<Longrightarrow>
     \<exists>ds w'. deeds (snd (m s)) = deeds s @ ds \<and> try_fold (watch_review a) w ds = Inr w'"
  unfolding promises_def by blast

text \<open>The deeds of a command, from the state that it read.\<close>

lemma calm_read_state [calm]: "calm (read_state H repo n)"
  unfolding read_state_def by (intro calm calm_after) (auto intro!: calm split: option.split)

lemma read_state_same [simp]: "snd (read_state H repo n s) = s"
  by (auto simp: read_state_def after_def some_or_def require_def split: option.splits)

lemma execute_watched:
  assumes "deeds s = []" and new: "deeds (snd (execute H a s)) = ds"
  shows "\<exists>f w'. try_fold (watch_review a) (f, Opened) ds = Inr w' \<and>
    (ds \<noteq> [] \<longrightarrow> fst (read_state H (to_ascii_lowercase (arg_repo a)) (arg_pr a) s) = Inr f)"
proof (cases "ds = []")
  case True
  then show ?thesis by auto
next
  case False
  let ?repo = "to_ascii_lowercase (arg_repo a)"
  from False new assms(1) obtain h f where
    ok: "valid_repository ?repo" "0 < arg_pr a" "commit_try_from (arg_head a) = Some h" "read_state H ?repo (arg_pr a) s = (Inr f, s)"
    by (auto simp: execute_def Let_def require_def some_or_def after_def split: if_splits option.splits sum.splits prod.splits)
      (metis snd_conv read_state_same)+
  let ?s = "s\<lparr>memory := f\<rparr>"
  let ?rest = "if arg_action a = Wake then run_wake H a h
     else
     after (ask_or ''GitHub read failed'' (get_pull H)) (\<lambda>p::pull.
     after (if pull_state p = lit ''open'' \<and> pull_head p = h then read_comments H else give []) (\<lambda>cs.
     review_action H a h p cs))"
  have "execute H a s = ?rest ?s"
    using ok by (simp add: execute_def Let_def change_def del: lit_simps)
  moreover have upheld: "promises a (opened f) ?rest (\<lambda>_ _ _. True)"
  proof (intro promises promises_wake [OF ok(3)] promises_then)
    show "calm (if pull_state p = lit ''open'' \<and> pull_head p = h then read_comments H else give [])" for p :: pull
      by (auto intro: calm)
  qed (rule promises_review_action [OF ok(3)])
  from upheld have "\<exists>ds' w'. deeds (snd (?rest ?s)) = deeds ?s @ ds' \<and> try_fold (watch_review a) (f, Opened) ds' = Inr w'"
    by (rule promisesD) (simp add: opened_def)
  ultimately show ?thesis
    using new assms(1) ok(4) by (auto simp del: split_paired_Ex)
qed

end
