(* ===== verification/Review_Theorems.thy ===== *)
theory Review_Theorems imports Review_Safety "HOL-Library.Code_Target_Nat" begin

text \<open>
  Any number of commands, each of which can die after any of its deeds: the requests for one commit
  are spaced, and every comment that was posted belongs to a request of the file. What a wake
  persists and reports, and what the report of completed work means.
\<close>

section \<open>Files and deeds\<close>

definition file_step :: "review_state option \<Rightarrow> deed \<Rightarrow> review_state option" where
  "file_step f d = (case d of SavedState st \<Rightarrow> Some st | _ \<Rightarrow> f)"

definition file_after :: "review_state option \<Rightarrow> deed list \<Rightarrow> review_state option" where
  "file_after f ds = foldl file_step f ds"

fun posted :: "deed list \<Rightarrow> rstring list" where
  "posted [] = []"
| "posted (Posted b # ds) = b # posted ds"
| "posted (_ # ds) = posted ds"

lemma posted_append [simp]: "posted (ds @ es) = posted ds @ posted es"
  by (induction ds rule: posted.induct) simp_all

lemma posted_iff: "b \<in> set (posted ds) \<longleftrightarrow> Posted b \<in> set ds"
  by (induction ds rule: posted.induct) auto

lemma review_file_simps [simp]:
  "file_after f [] = f" "file_after f (d # ds) = file_after (file_step f d) ds"
  "file_after f (ds @ es) = file_after (file_after f ds) es"
  by (simp_all add: file_after_def)

text \<open>The deeds account for the file.\<close>

definition accounts :: "('g, 'a) work \<Rightarrow> bool" where
  "accounts m \<longleftrightarrow> (\<forall>s. \<exists>ds. deeds (snd (m s)) = deeds s @ ds \<and> state_file (snd (m s)) = file_after (state_file s) ds)"

named_theorems accounts

lemma accounts_basic [accounts]:
  "accounts (give x)" "accounts (stop e)" "accounts (from_outcome r)" "accounts (get f)" "accounts (ask q)" "accounts (change g)"
  by (simp_all add: accounts_def ask_def change_def)

lemma accounts_require [accounts]: "accounts (require b e)"
  by (simp add: accounts_def require_def)

lemma accounts_some_or [accounts]: "accounts (some_or e x)"
  by (cases x) (simp_all add: accounts_def)

lemma accounts_after [accounts]:
  fixes m :: "('g, 'a) work"
  assumes "accounts m" "\<And>x. accounts (k x)"
  shows "accounts (after m k)"
  unfolding accounts_def
proof
  fix s :: "'g desk"
  obtain r s1 where m: "m s = (r, s1)" by (cases "m s")
  with assms(1) obtain ds where 1: "deeds s1 = deeds s @ ds" "state_file s1 = file_after (state_file s) ds"
    unfolding accounts_def by (metis snd_conv)
  show "\<exists>ds. deeds (snd (after m k s)) = deeds s @ ds \<and> state_file (snd (after m k s)) = file_after (state_file s) ds"
  proof (cases r)
    case (Inr x)
    from assms(2) obtain ds2 where "deeds (snd (k x s1)) = deeds s1 @ ds2"
      "state_file (snd (k x s1)) = file_after (state_file s1) ds2" unfolding accounts_def by metis
    with m Inr 1 show ?thesis by (intro exI [of _ "ds @ ds2"]) simp
  qed (use m 1 in auto)
qed

lemma accounts_if [accounts]: "accounts m \<Longrightarrow> accounts n \<Longrightarrow> accounts (if b then m else n)"
  by simp

lemma accounts_option [accounts]: "accounts m \<Longrightarrow> (\<And>x. accounts (n x)) \<Longrightarrow> accounts (case v of None \<Rightarrow> m | Some x \<Rightarrow> n x)"
  by (cases v) simp_all

lemma accounts_attempt [accounts]: "accounts m \<Longrightarrow> accounts (attempt m)"
proof -
  have "snd (attempt m s) = snd (m s)" for s
    by (auto simp: attempt_def split: prod.splits sum.splits failure.splits)
  then show "accounts m \<Longrightarrow> accounts (attempt m)" by (simp add: accounts_def)
qed

lemma accounts_save [accounts]: "accounts (save_state H)" "accounts (save_wake H v)"
proof -
  show "accounts (save_state H)"
    unfolding accounts_def
  proof
    fix s
    show "\<exists>ds. deeds (snd (save_state H s)) = deeds s @ ds \<and> state_file (snd (save_state H s)) = file_after (state_file s) ds"
      by (cases "fst (replace_state H (memory s) (outside s))")
        (auto simp: save_state_def save_json_def after_def ask_def file_step_def)
  qed
  show "accounts (save_wake H v)"
    unfolding accounts_def
  proof
    fix s
    show "\<exists>ds. deeds (snd (save_wake H v s)) = deeds s @ ds \<and> state_file (snd (save_wake H v s)) = file_after (state_file s) ds"
      by (cases "fst (replace_wake H v (outside s))")
        (auto simp: save_wake_def save_json_def after_def ask_def file_step_def)
  qed
qed

lemma accounts_post [accounts]: "accounts (send_comment H b)"
proof -
  have "accounts (put (\<lambda>s. s\<lparr>deeds := deeds s @ [Posted b]\<rparr>))" by (simp add: accounts_def file_step_def)
  then show ?thesis unfolding send_comment_def ask_or_def by (intro accounts)
qed

lemma accounts_execute: "accounts (execute H a)"
proof -
  have reads [accounts]: "accounts (ask_or e q)" "accounts (read_comments H)" "accounts (request_id_new H)" "accounts (read_state H rp n)"
    for e rp n and q :: "'a \<Rightarrow> 'b option \<times> 'a"
    unfolding ask_or_def read_comments_def request_id_new_def read_state_def Let_def by (intro accounts)+
  have [accounts]: "accounts (confirm_request H i c)" for i c unfolding confirm_request_def by (intro accounts)
  have [accounts]: "accounts (inspect_saved_request H i actor cs known)" for i actor cs known
    unfolding inspect_saved_request_def Let_def by (intro accounts) (auto split: list.split intro: accounts)
  have [accounts]: "accounts (post_request H r p)" for r p unfolding post_request_def Let_def by (intro accounts)
  have [accounts]: "accounts (send_request H r i cs)" for r i cs unfolding send_request_def by (intro accounts reads)
  have [accounts]: "accounts (next_request H a h actor cs st i known)" for h actor cs st i known
    unfolding next_request_def Let_def by (intro accounts)
  have [accounts]: "accounts (track_existing H i now h cs actor)" for i now h cs actor
    unfolding track_existing_def by (intro accounts)
  have action [accounts]: "accounts (review_action H a h p cs)" for h p cs
    unfolding review_action_def Let_def by (intro accounts reads)
  have [accounts]: "accounts (observe H a h)" for h
    unfolding observe_def observe_open_def by (intro accounts reads)
  have [accounts]: "accounts (run_wake H a h)" for h
    unfolding run_wake_def Let_def case_prod_beta by (intro accounts)
  show ?thesis unfolding execute_def Let_def by (intro accounts reads)
qed

section \<open>Spaced requests\<close>

definition spaced :: "review_request list \<Rightarrow> bool" where
  "spaced rs \<longleftrightarrow> (\<forall>i j. i < j \<longrightarrow> j < length rs \<longrightarrow> request_head (rs ! i) = request_head (rs ! j) \<longrightarrow>
     request_comment (rs ! i) \<noteq> None \<and> requested_at (rs ! i) + 3600 < requested_at (rs ! j))"

definition canonical :: "review_request list \<Rightarrow> bool" where
  "canonical rs \<longleftrightarrow> (\<forall>r \<in> set rs. to_ascii_lowercase (request_head r) = request_head r)"

definition tidy :: "review_request list \<Rightarrow> deed list \<Rightarrow> bool" where
  "tidy rs ds \<longleftrightarrow> spaced rs \<and> canonical rs \<and> subseq (posted ds) (map request_body rs)"

lemma spaced_append:
  assumes "spaced rs" "\<And>i. i < length rs \<Longrightarrow> request_head (rs ! i) = request_head r \<Longrightarrow>
     request_comment (rs ! i) \<noteq> None \<and> requested_at (rs ! i) + 3600 < requested_at r"
  shows "spaced (rs @ [r])"
  using assms unfolding spaced_def by (simp add: nth_append less_Suc_eq)

lemma spaced_permitted:
  assumes "spaced (requests f)" "permitted a (request_head r) f" "requested_at r = arg_now a"
  shows "spaced (requests f @ [r])"
proof (rule spaced_append [OF assms(1)])
  fix i
  assume i: "i < length (requests f)" "request_head (requests f ! i) = request_head r"
  then obtain k where k: "rposition (\<lambda>x. request_head x = request_head r) (requests f) = Some k"
    by (metis (mono_tags, lifting) nth_mem option.exhaust rposition_None)
  note * = rposition_Some [OF k]
  from assms(2,3) k have K: "request_comment (requests f ! k) \<noteq> None" "requested_at (requests f ! k) + 3600 < requested_at r"
    by (simp_all add: permitted_def)
  show "request_comment (requests f ! i) \<noteq> None \<and> requested_at (requests f ! i) + 3600 < requested_at r"
  proof (cases "i < k")
    case True
    with * i assms(1) have "request_comment (requests f ! i) \<noteq> None \<and> requested_at (requests f ! i) + 3600 < requested_at (requests f ! k)"
      unfolding spaced_def by metis
    with K show ?thesis by simp
  next
    case False
    with * i have "i = k" by (metis nat_neq_iff)
    with K show ?thesis by simp
  qed
qed

lemma requests_update: "st = f\<lparr>requests := rs\<rparr> \<Longrightarrow> requests st = rs"
  by simp

lemma spaced_confirmed:
  assumes "confirms f st" "spaced (requests f)"
  shows "spaced (requests st)"
proof -
  obtain i q where i: "i < length (requests f)" "requests st = (requests f)[i := q]"
    and q: "request_head q = request_head (requests f ! i)" "request_comment q \<noteq> None" "requested_at (requests f ! i) \<le> requested_at q"
    and last: "rposition (\<lambda>x. request_head x = request_head (requests f ! i)) (requests f) = Some i"
  proof -
    from assms(1) obtain i where i: "i < length (requests f)" "confirms_at i f st" by (auto simp: confirms_def list_ex_iff)
    then have "st = f\<lparr>requests := (requests f)[i := requests st ! i]\<rparr>" by (simp add: confirms_at_def Let_def)
    then have "requests st = (requests f)[i := requests st ! i]" by (rule requests_update)
    with i that [of i "requests st ! i"] show thesis by (auto simp: confirms_at_def Let_def)
  qed
  note later = rposition_Some [OF last]
  show ?thesis
    unfolding spaced_def i(2)
  proof (intro allI impI)
    fix j k
    assume jk: "j < k" "k < length ((requests f)[i := q])"
      "request_head ((requests f)[i := q] ! j) = request_head ((requests f)[i := q] ! k)"
    then have heads: "request_head (requests f ! j) = request_head (requests f ! k)" "k < length (requests f)"
      using q(1) by (cases "i = j"; cases "i = k"; simp)+
    with later jk(1) have "j \<noteq> i" by metis
    moreover from assms(2) heads jk(1) have "request_comment (requests f ! j) \<noteq> None"
      "requested_at (requests f ! j) + 3600 < requested_at (requests f ! k)" unfolding spaced_def by blast+
    ultimately show "request_comment ((requests f)[i := q] ! j) \<noteq> None \<and>
        requested_at ((requests f)[i := q] ! j) + 3600 < requested_at ((requests f)[i := q] ! k)"
      using q(3) heads(2) by (cases "i = k") auto
  qed
qed

lemma confirms_map:
  assumes "confirms f st"
  shows "map request_body (requests st) = map request_body (requests f)" "map request_head (requests st) = map request_head (requests f)"
proof -
  from assms obtain i where i: "confirms_at i f st" by (auto simp: confirms_def list_ex_iff)
  let ?q = "requests st ! i"
  from i have "st = f\<lparr>requests := (requests f)[i := ?q]\<rparr>" by (simp add: confirms_at_def Let_def)
  then have "requests st = (requests f)[i := ?q]" by (rule requests_update)
  moreover from i have "request_body ?q = request_body (requests f ! i)" "request_head ?q = request_head (requests f ! i)"
    by (simp_all add: confirms_at_def Let_def)
  ultimately show "map request_body (requests st) = map request_body (requests f)" "map request_head (requests st) = map request_head (requests f)"
    by (metis list_update_id map_update)+
qed

lemma lowercase_idem [simp]: "to_ascii_lowercase (to_ascii_lowercase s) = to_ascii_lowercase s"
  by (simp add: to_ascii_lowercase_def)

lemma commit_lowercase: "commit_try_from s = Some h \<Longrightarrow> to_ascii_lowercase h = h"
  by (auto simp: commit_try_from_def split: if_splits)

lemma canonical_heads: "canonical rs \<longleftrightarrow> (\<forall>h \<in> set (map request_head rs). to_ascii_lowercase h = h)"
  by (simp add: canonical_def)

section \<open>The observer keeps the file tidy\<close>

definition tidy_phase :: "review_state \<times> phase \<Rightarrow> deed list \<Rightarrow> bool" where
  "tidy_phase w ds \<longleftrightarrow> tidy (requests (fst w)) ds \<and> (case snd w of
       Announced b \<Rightarrow> \<exists>rs r. requests (fst w) = rs @ [r] \<and> request_body r = b \<and> subseq (posted ds) (map request_body rs)
     | _ \<Rightarrow> True)"

lemma tidy_append:
  "tidy rs ds \<Longrightarrow> spaced (rs @ [r]) \<Longrightarrow> to_ascii_lowercase (request_head r) = request_head r \<Longrightarrow> tidy (rs @ [r]) ds"
  by (auto simp: tidy_def canonical_def)

lemma appends_requests:
  "appends a f r st \<Longrightarrow> requests st = requests f @ [r] \<and> to_ascii_lowercase (request_head r) = request_head r"
  by (auto simp: appends_def dest: commit_lowercase)

lemma tidy_step:
  assumes "tidy_phase w ds" "watch_review a w d = Inr w'"
  shows "tidy_phase w' (ds @ [d])"
proof (cases d)
  case (SavedWake v)
  with assms show ?thesis by (auto simp: watch_review_def tidy_phase_def tidy_def)
next
  case (Posted b)
  with assms have w: "snd w = Announced b" "w' = (fst w, Sent)" by (auto simp: watch_review_def split: if_splits)
  with assms(1) obtain rs r where r: "requests (fst w) = rs @ [r]" "request_body r = b" "subseq (posted ds) (map request_body rs)"
    by (auto simp: tidy_phase_def)
  with assms(1) w Posted show ?thesis by (auto simp: tidy_phase_def tidy_def intro: list_emb_append_mono)
next
  case (SavedState st)
  obtain f ph where w: "w = (f, ph)" by fastforce
  from assms(1) w have t: "tidy (requests f) ds" by (simp add: tidy_phase_def)
  consider (announced) "announces a f st" "w' = (st, Announced (request_body (last (requests st))))"
    | (tracked) "tracks a f st" "w' = (st, Settled)" | (confirmed) "confirms f st" "w' = (st, Settled)"
    using assms(2) SavedState w by (auto simp: watch_review_def watch_save_def split: phase.splits if_splits)
  then show ?thesis
  proof cases
    case announced
    then obtain r where r: "appends a f r st" "permitted a (request_head r) f" "requested_at r = arg_now a" "r = last (requests st)"
      by (auto simp: announces_def Let_def)
    from appends_requests [OF r(1)] have st: "requests st = requests f @ [r]" "to_ascii_lowercase (request_head r) = request_head r" by simp_all
    have "spaced (requests f @ [r])" using t r(2,3) spaced_permitted by (simp add: tidy_def)
    with t st have "tidy (requests st) ds" by (simp add: tidy_append)
    with announced(2) SavedState t st show ?thesis by (simp add: tidy_phase_def tidy_def)
  next
    case tracked
    then obtain r where r: "appends a f r st" "request_head r \<notin> request_head ` set (requests f)"
      by (auto simp: tracks_def Let_def)
    from appends_requests [OF r(1)] have st: "requests st = requests f @ [r]" "to_ascii_lowercase (request_head r) = request_head r" by simp_all
    have "request_head (requests f ! i) \<noteq> request_head r" if "i < length (requests f)" for i
      using r(2) that by (metis image_eqI nth_mem)
    then have "spaced (requests f @ [r])" using t by (intro spaced_append) (auto simp: tidy_def dest: nth_mem)
    with t st have "tidy (requests st) ds" by (simp add: tidy_append)
    with tracked(2) SavedState show ?thesis by (simp add: tidy_phase_def tidy_def)
  next
    case confirmed
    with t spaced_confirmed confirms_map SavedState show ?thesis
      by (auto simp: tidy_phase_def tidy_def canonical_heads)
  qed
qed

lemma tidy_steps: "tidy_phase w ds \<Longrightarrow> try_fold (watch_review a) w es = Inr w' \<Longrightarrow> tidy_phase w' (ds @ es)"
proof (induction es arbitrary: w ds)
  case (Cons e es)
  then obtain w1 where "watch_review a w e = Inr w1" "try_fold (watch_review a) w1 es = Inr w'" by (auto simp: result_simps)
  with Cons.IH [of w1 "ds @ [e]"] tidy_step [OF Cons.prems(1)] show ?case by simp
qed simp

lemma watch_file_step: "watch_review a w d = Inr w' \<Longrightarrow> file_step (Some (fst w)) d = Some (fst w')"
  by (cases d) (auto simp: watch_review_def watch_save_def file_step_def split: if_splits phase.splits)

lemma watch_file_after: "try_fold (watch_review a) w ds = Inr w' \<Longrightarrow> file_after (Some (fst w)) ds = Some (fst w')"
proof (induction ds arbitrary: w)
  case (Cons d ds)
  then obtain w1 where "watch_review a w d = Inr w1" "try_fold (watch_review a) w1 ds = Inr w'" by (auto simp: result_simps)
  with Cons.IH watch_file_step show ?case by simp
qed simp

text \<open>Without a saved state the file is what it was.\<close>

lemma file_after_cases: "file_after f ds = f \<and> file_after g ds = g \<or> file_after f ds = file_after g ds"
proof (induction ds arbitrary: f g)
  case (Cons d ds)
  then show ?case by (cases d) (auto simp: file_step_def)
qed simp

section \<open>A history of commands\<close>

definition saved_requests :: "review_state option \<Rightarrow> review_request list" where
  "saved_requests f = (case f of None \<Rightarrow> [] | Some st \<Rightarrow> requests st)"

text \<open>A command starts on the file that is there and stops after its end or after any of its deeds.\<close>

inductive review_history :: "'g host \<Rightarrow> review_state option \<Rightarrow> deed list \<Rightarrow> bool" for H where
  fresh: "review_history H None []"
| command: "review_history H f ds \<Longrightarrow> state_file s = f \<Longrightarrow> deeds s = [] \<Longrightarrow>
    deeds (snd (execute H a s)) = es @ rest \<Longrightarrow> review_history H (file_after f es) (ds @ es)"

lemma decode_canonical:
  assumes "decode_state H f = Some f'" "canonical (requests f)"
  shows "f' = f"
proof -
  have "rs' = rs" if "those (map (decode_request H) rs) = Some rs'" "canonical rs" for rs rs'
    using that
  proof (induction rs arbitrary: rs')
    case (Cons r rs)
    then obtain r' rs1 where r: "decode_request H r = Some r'" "those (map (decode_request H) rs) = Some rs1" "rs' = r' # rs1"
      by (auto split: option.splits)
    have "r' = r" using r(1) Cons.prems(2)
      by (auto simp: decode_request_def request_id_try_from_def commit_try_from_def canonical_def bind_eq_Some_conv
        split: option.splits if_splits)
    with r Cons show ?case by (simp add: canonical_def)
  qed simp
  with assms show ?thesis by (auto simp: decode_state_def)
qed

lemma read_state_requests:
  assumes "fst (read_state H repo n s) = Inr f" "canonical (saved_requests (state_file s))"
  shows "requests f = saved_requests (state_file s)"
proof (cases "state_file s")
  case None
  with assms(1) show ?thesis by (simp add: read_state_def after_def saved_requests_def) auto
next
  case (Some g)
  with assms(1) have "decode_state H g = Some f"
    by (auto simp: read_state_def after_def some_or_def require_def split: option.splits if_splits)
  with decode_canonical [of H g f] assms(2) Some show ?thesis by (simp add: saved_requests_def)
qed

lemma try_fold_prefix: "try_fold step w (ds @ es) = Inr w' \<Longrightarrow> \<exists>w1. try_fold step w ds = Inr w1"
  by (auto simp: try_fold_append result_simps)

lemma command_tidy:
  assumes "tidy (saved_requests (state_file s)) ds" "deeds s = []" "deeds (snd (execute H a s)) = es @ rest"
  shows "tidy (saved_requests (file_after (state_file s) es)) (ds @ es)"
proof (cases "es = []")
  case True
  with assms(1) show ?thesis by simp
next
  case False
  from execute_watched [OF assms(2,3)] False obtain f w where
    f: "try_fold (watch_review a) (f, Opened) (es @ rest) = Inr w"
       "fst (read_state H (to_ascii_lowercase (arg_repo a)) (arg_pr a) s) = Inr f" by fastforce
  from try_fold_prefix [OF f(1)] obtain w1 where w1: "try_fold (watch_review a) (f, Opened) es = Inr w1" by blast
  have same: "requests f = saved_requests (state_file s)"
    using read_state_requests [OF f(2)] assms(1) by (simp add: tidy_def)
  with assms(1) have "tidy_phase (f, Opened) ds" by (simp add: tidy_phase_def)
  with tidy_steps w1 have tidy: "tidy (requests (fst w1)) (ds @ es)" by (fastforce simp: tidy_phase_def)
  from watch_file_after [OF w1] have "file_after (Some f) es = Some (fst w1)" by simp
  with file_after_cases [of "state_file s" es "Some f"] same have "saved_requests (file_after (state_file s) es) = requests (fst w1)"
    by (auto simp: saved_requests_def)
  with tidy show ?thesis by simp
qed

lemma history_tidy: "review_history H f ds \<Longrightarrow> tidy (saved_requests f) ds"
proof (induction rule: review_history.induct)
  case fresh
  show ?case by (simp add: tidy_def saved_requests_def spaced_def canonical_def)
next
  case (command f ds s a es rest)
  with command_tidy [of s ds H a es rest] show ?case by simp
qed

section \<open>One command\<close>

lemma settled_posts_nothing:
  "try_fold (watch_review a) (f, ph) ds = Inr w \<Longrightarrow> ph = Sent \<or> ph = Settled \<Longrightarrow> posted ds = []"
proof (induction ds arbitrary: f ph)
  case (Cons d ds)
  then obtain w1 where "watch_review a (f, ph) d = Inr w1" "try_fold (watch_review a) w1 ds = Inr w" by (auto simp: result_simps)
  with Cons show ?case
    by (cases d) (auto simp: watch_review_def watch_save_def split: if_splits)
qed simp

lemma announced_posts:
  assumes "try_fold (watch_review a) (f, Announced b) ds = Inr w" "posted ds \<noteq> []"
  obtains rest where "ds = Posted b # rest" "posted rest = []"
proof (cases ds)
  case (Cons d rest)
  with assms(1) obtain w1 where w1: "watch_review a (f, Announced b) d = Inr w1" "try_fold (watch_review a) w1 rest = Inr w"
    by (auto simp: result_simps)
  show thesis
  proof (cases d)
    case (Posted c)
    with w1 Cons that settled_posts_nothing [of a f Sent rest w] show thesis by (auto simp: watch_review_def split: if_splits)
  next
    case (SavedWake v)
    with w1 Cons assms(2) settled_posts_nothing [of a f Settled rest w] show thesis by (auto simp: watch_review_def)
  qed (use w1 in \<open>auto simp: watch_review_def watch_save_def\<close>)
qed (use assms in simp)

lemma opened_posts:
  assumes "try_fold (watch_review a) (f, Opened) ds = Inr w" "posted ds \<noteq> []"
  obtains r rest where "ds = SavedState (f\<lparr>requests := requests f @ [r]\<rparr>) # Posted (request_body r) # rest" "posted rest = []"
    "announces a f (f\<lparr>requests := requests f @ [r]\<rparr>)"
proof (cases ds)
  case (Cons d ds')
  with assms(1) obtain w1 where w1: "watch_review a (f, Opened) d = Inr w1" "try_fold (watch_review a) w1 ds' = Inr w"
    by (auto simp: result_simps)
  show thesis
  proof (cases d)
    case (SavedState st)
    with w1 Cons assms(2) settled_posts_nothing have "announces a f st" "w1 = (st, Announced (request_body (last (requests st))))"
      by (fastforce simp: watch_review_def watch_save_def split: if_splits)+
    moreover then obtain r where "st = f\<lparr>requests := requests f @ [r]\<rparr>" by (auto simp: announces_def appends_def Let_def)
    ultimately show thesis
      using announced_posts [of a st "request_body r" ds' w] w1 assms(2) Cons SavedState that [of r] by fastforce
  next
    case (SavedWake v)
    with w1 Cons assms(2) settled_posts_nothing [of a f Settled ds' w] show thesis by (auto simp: watch_review_def)
  qed (use w1 in \<open>auto simp: watch_review_def\<close>)
qed (use assms in simp)

section \<open>An example\<close>

definition demo_commit :: rstring where
  "demo_commit = replicate 40 97"

definition demo_host :: "nat host" where
  "demo_host = \<lparr>
     get_pull = (\<lambda>g. (Some \<lparr>pull_state = lit ''open'', pull_head = demo_commit\<rparr>, g)),
     get_comments = (\<lambda>g. (Some [[]], g)),
     get_actor = (\<lambda>g. (Some \<lparr>user_id = 5, login = lit ''jo'', user_kind = lit ''User''\<rparr>, g)),
     get_evidence = (\<lambda>h k g. (None, g)),
     post_comment = (\<lambda>b g. (Some \<lparr>comment_id = 7, comment_user = \<lparr>user_id = 5, login = lit ''jo'', user_kind = lit ''User''\<rparr>,
       comment_body = b, created_at = lit ''t''\<rparr>, g)),
     replace_state = (\<lambda>st g. (CommittedDurably, g)), replace_wake = (\<lambda>v g. (CommittedDurably, g)),
     new_uuid = (\<lambda>g. (g, Suc g)), rfc3339 = (\<lambda>s. Some 100), parse_json = (\<lambda>s. None), show_json = (\<lambda>v. []),
     uuid_number = (\<lambda>s. Some (length s)), uuid_text = (\<lambda>n. replicate n 49), selected_assignment = (\<lambda>s. None), is_absolute = (\<lambda>s. False)\<rparr>"

definition demo_args :: args where
  "demo_args = \<lparr>arg_action = Request, arg_repo = lit ''a/b'', arg_pr = 3, arg_head = demo_commit, arg_now = 90,
     arg_request_comment = None, arg_assignment_receipt = None, arg_automation_id = None\<rparr>"

definition demo_desk :: "nat desk" where
  "demo_desk = \<lparr>outside = 1, state_file = None, wake_file = None,
     memory = \<lparr>state_version = 0, state_repository = [], state_pr = 0, requests = []\<rparr>, deeds = []\<rparr>"

definition demo_request :: review_request where
  "demo_request = \<lparr>request_id = [49], request_head = demo_commit, requested_at = 90, request_actor = 5, request_comment = None\<rparr>"

definition demo_state :: "review_request \<Rightarrow> review_state" where
  "demo_state r = \<lparr>state_version = 1, state_repository = lit ''a/b'', state_pr = 3, requests = [r]\<rparr>"

lemma demo_deeds: "deeds (snd (execute demo_host demo_args demo_desk)) =
    [SavedState (demo_state demo_request), Posted (request_body demo_request),
     SavedState (demo_state (demo_request\<lparr>request_comment := Some 7, requested_at := 100\<rparr>))]"
  by code_simp

section \<open>Objects\<close>

lemma lit_inj [simp]: "lit s = lit t \<longleftrightarrow> s = t"
  by (simp add: lit_def inj_map_eq_map [OF injI] inj_on_def)

lemma object_fold: "bt_invar m \<Longrightarrow> bt_invar (foldl (\<lambda>m (k, v). bt_insert (lit k) v m) m kvs) \<and>
    bt_get (foldl (\<lambda>m (k, v). bt_insert (lit k) v m) m kvs) (lit k) =
      (case map_of (rev kvs) k of Some v \<Rightarrow> Some v | None \<Rightarrow> bt_get m (lit k))"
proof (induction kvs arbitrary: m)
  case (Cons kv kvs)
  obtain k' v where kv: "kv = (k', v)" by fastforce
  from Cons.prems have "bt_invar (bt_insert (lit k') v m)" by simp
  from Cons.IH [OF this] Cons.prems show ?case
    by (simp add: kv del: lit_simps) (auto simp: map_add_def split: option.splits)
qed simp

lemma at_key_object: "at_key (object kvs) k = (case map_of (rev kvs) k of Some v \<Rightarrow> v | None \<Rightarrow> JNull)"
  using object_fold [of "[]" kvs k] by (simp add: at_key_def member_of_def object_def split: option.splits)

lemma as_u64_number: "as_u64 v = Some n \<Longrightarrow> v = number n"
  by (cases v rule: as_u64.cases) (auto simp: number_def split: if_splits)

lemma as_array_Some: "as_array v = Some vs \<longleftrightarrow> v = JArray vs"
  by (cases v) simp_all

lemma as_bool_Some: "as_bool v = Some b \<longleftrightarrow> v = JBool b"
  by (cases v) simp_all

section \<open>Complete evidence\<close>

definition inventory :: "string \<Rightarrow> json \<Rightarrow> json list" where
  "inventory field p = (case at_key p field of JArray rs \<Rightarrow> rs | _ \<Rightarrow> [])"

text \<open>Every page is there, every record is identified and passed, and some check and some workflow ran.\<close>

definition evidence_passed :: "string \<Rightarrow> string \<Rightarrow> json \<Rightarrow> bool" where
  "evidence_passed field category pages \<longleftrightarrow> (case pages of
     JArray ps \<Rightarrow>
       let rs = concat (map (inventory field) ps) in
         ps \<noteq> [] \<and> (\<forall>p \<in> set ps. at_key p ''total_count'' = number (length rs)) \<and>
         (category \<noteq> ''statuses'' \<longrightarrow> rs \<noteq> []) \<and>
         (\<forall>r \<in> set rs. record_conclusion (category = ''statuses'') r \<in> Inr ` lit ` {''success'', ''skipped'', ''neutral''}) \<and>
         distinct (map (record_identity (category = ''statuses'')) rs)
   | _ \<Rightarrow> False)"

lemma page_records_fold:
  "try_fold (page_records n field) rs ps = Inr rs' \<Longrightarrow>
     rs' = rs @ concat (map (inventory field) ps) \<and> (\<forall>p \<in> set ps. at_key p ''total_count'' = number n)"
proof (induction ps arbitrary: rs)
  case (Cons p ps)
  then obtain rs1 where 1: "page_records n field rs p = Inr rs1" "try_fold (page_records n field) rs1 ps = Inr rs'"
    by (auto simp: result_simps)
  from 1(1) have "rs1 = rs @ inventory field p" "at_key p ''total_count'' = number n"
    by (auto simp: page_records_def json_or_def result_simps inventory_def as_array_Some split: if_splits dest: as_u64_number)
  with Cons.IH [OF 1(2)] show ?case by simp
qed simp

lemma complete_pages_Inr:
  assumes "complete_pages pages field = Inr rs"
  obtains ps where "pages = JArray ps" "ps \<noteq> []" "rs = concat (map (inventory field) ps)"
    "\<forall>p \<in> set ps. at_key p ''total_count'' = number (length rs)"
proof -
  from assms obtain ps n where "pages = JArray ps" "ps \<noteq> []" "try_fold (page_records n field) [] ps = Inr rs" "length rs = n"
    by (auto simp: complete_pages_def json_or_def result_simps as_array_Some split: if_splits)
  with page_records_fold [of n field "[]" ps rs] that show thesis by simp
qed

text \<open>What is pending or failed is never forgotten; otherwise everything passed.\<close>

definition clean :: "ci \<Rightarrow> bool" where
  "clean c \<longleftrightarrow> \<not> ci_pending c \<and> ci_failures c = []"

lemma conclusion_passed: "conclusion_of t = Some Passed \<Longrightarrow> t \<in> lit ` {''success'', ''skipped'', ''neutral''}"
  by (auto simp: conclusion_of_def simp del: lit_simps split: if_splits)

lemma ci_record_step:
  assumes "ci_record category (seen, c) r = Inr (seen', c')"
  shows "\<exists>i. record_identity (category = ''statuses'') r = Inr i \<and> i \<notin> seen \<and> seen' = insert i seen \<and>
    (clean c' \<longrightarrow> clean c \<and> record_conclusion (category = ''statuses'') r \<in> Inr ` lit ` {''success'', ''skipped'', ''neutral''})"
  using assms unfolding ci_record_def Let_def
  by (auto simp: result_simps json_or_def clean_def simp del: lit_simps split: if_splits conclusion.splits dest!: conclusion_passed)
    (metis conclusion.exhaust)+

lemma ci_record_fold:
  "try_fold (ci_record category) (seen, c) rs = Inr (seen', c') \<Longrightarrow> clean c' \<Longrightarrow>
     clean c \<and> (\<forall>r \<in> set rs. record_conclusion (category = ''statuses'') r \<in> Inr ` lit ` {''success'', ''skipped'', ''neutral''}) \<and>
     distinct (map (record_identity (category = ''statuses'')) rs) \<and>
     (\<forall>r \<in> set rs. record_identity (category = ''statuses'') r \<notin> Inr ` seen)"
proof (induction rs arbitrary: seen c)
  case (Cons r rs)
  then obtain seen1 c1 where 1: "ci_record category (seen, c) r = Inr (seen1, c1)"
    "try_fold (ci_record category) (seen1, c1) rs = Inr (seen', c')" by (auto simp: result_simps)
  from ci_record_step [OF 1(1)] obtain i where i: "record_identity (category = ''statuses'') r = Inr i" "i \<notin> seen"
    "seen1 = insert i seen" "clean c1 \<Longrightarrow> clean c \<and> record_conclusion (category = ''statuses'') r \<in> Inr ` lit ` {''success'', ''skipped'', ''neutral''}"
    by blast
  with Cons.IH [OF 1(2) Cons.prems(2)] show ?case by (auto simp del: lit_simps)
qed simp

lemma ci_category_Inr:
  assumes "ci_category c (pages, field, category) = Inr c'" "clean c'"
  shows "clean c \<and> evidence_passed field category pages"
proof -
  from assms(1) obtain rs seen c1 where rs: "complete_pages pages field = Inr rs"
    "c1 = (if category \<noteq> ''statuses'' \<and> rs = [] then c\<lparr>ci_pending := True\<rparr> else c)"
    "try_fold (ci_record category) ({}, c1) rs = Inr (seen, c')"
    by (auto simp: ci_category_def Let_def result_simps)
  note * = ci_record_fold [OF rs(3) assms(2)]
  then have "clean c1" by simp
  with rs(2) have c: "clean c" "category \<noteq> ''statuses'' \<Longrightarrow> rs \<noteq> []" by (auto simp: clean_def split: if_splits)
  from rs(1) obtain ps where "pages = JArray ps" "ps \<noteq> []" "rs = concat (map (inventory field) ps)"
    "\<forall>p \<in> set ps. at_key p ''total_count'' = number (length rs)" by (rule complete_pages_Inr)
  with * c show ?thesis by (simp add: evidence_passed_def Let_def del: lit_simps)
qed

lemma ci_status_clean:
  assumes "ci_status H checks statuses workflows = Inr c" "clean c"
  shows "evidence_passed ''check_runs'' ''checks'' checks \<and> evidence_passed ''statuses'' ''statuses'' statuses \<and>
    evidence_passed ''workflow_runs'' ''workflows'' workflows"
proof -
  from assms(1) obtain c1 c2 c3 where cs:
    "ci_category \<lparr>ci_pending = False, ci_failures = []\<rparr> (checks, ''check_runs'', ''checks'') = Inr c1"
    "ci_category c1 (statuses, ''statuses'', ''statuses'') = Inr c2"
    "ci_category c2 (workflows, ''workflow_runs'', ''workflows'') = Inr c3"
    "c = c3\<lparr>ci_failures := sort_key (show_json H) (ci_failures c3)\<rparr>"
    by (auto simp: ci_status_def result_simps)
  from assms(2) cs(4) have "clean c3" by (auto simp: clean_def dest: arg_cong [of _ "[]" length])
  with ci_category_Inr cs(1-3) show ?thesis by metis
qed

section \<open>The provider's state\<close>

lemma state_step_cases:
  assumes "state_step H h latest c = Inr latest'"
  shows "latest' = latest \<or> (\<exists>v at. Option.bind (member_of v ''commit_sha'') as_str = Some h \<and> latest' = Some (v, at, comment_id c))"
proof -
  have keep: "keep_latest latest v at k = latest \<or> keep_latest latest v at k = Some (v, at, k)" for v at k
    by (auto simp: keep_latest_def split: option.splits)
  from assms consider "latest' = latest"
    | v at where "Option.bind (member_of v ''commit_sha'') as_str = Some h" "latest' = keep_latest latest v at (comment_id c)"
    by (auto simp: state_step_def result_simps simp del: lit_simps split: if_splits option.splits)
  then show ?thesis using keep by cases metis+
qed

lemma state_step_head:
  assumes "state_step H h latest c = Inr latest'"
    and "\<And>st at i. latest = Some (st, at, i) \<Longrightarrow> at_key st ''commit_sha'' = JString h"
    and "latest' = Some (st, at, i)"
  shows "at_key st ''commit_sha'' = JString h"
proof -
  have "at_key v ''commit_sha'' = JString h" if "Option.bind (member_of v ''commit_sha'') as_str = Some h" for v
    using that by (cases "member_of v ''commit_sha''") (auto simp: at_key_def as_str_Some_iff)
  with state_step_cases [OF assms(1)] assms(2,3) show ?thesis by blast
qed

lemma review_state_head:
  assumes "review_state_of H cs h = Inr (Some st)"
  shows "at_key st ''commit_sha'' = JString h"
proof -
  have step: "\<forall>st at i. latest' = Some (st, at, i) \<longrightarrow> at_key st ''commit_sha'' = JString h"
    if "\<forall>st at i. latest = Some (st, at, i) \<longrightarrow> at_key st ''commit_sha'' = JString h" "state_step H h latest c = Inr latest'"
    for latest latest' c
    using state_step_head that by blast
  let ?I = "\<lambda>latest. \<forall>st at i. latest = Some (st, at, i) \<longrightarrow> at_key st ''commit_sha'' = JString h"
  from assms obtain at i where fold: "try_fold (state_step H h) None cs = Inr (Some (st, at, i))"
    by (auto simp: review_state_of_def result_simps)
  have "?I (Some (st, at, i))"
    by (rule try_fold_inv [OF fold, of ?I]) (simp, rule step)
  then show ?thesis by simp
qed

lemma review_complete:
  assumes "review_of H cs h = Inr Complete"
  obtains st where "review_state_of H cs h = Inr (Some st)" "at_key st ''status'' = text_value ''completed''"
  using assms
  by (auto simp: review_of_def result_simps text_value_def as_str_Some_iff simp del: lit_simps split: option.splits if_splits)

section \<open>What a wake saves and says\<close>

lemma save_wake_Inr: "save_wake H r s = (Inr u, s') \<Longrightarrow> wake_file s' = Some r \<and> deeds s' = deeds s @ [SavedWake r]"
  by (auto simp: save_wake_def save_json_def after_def ask_def split: commit_result.splits prod.splits)

lemma run_wake_Inr:
  assumes "run_wake H a h s = (Inr v, s')"
  obtains automation receipt assignment obs s1 c r choice words where
    "attempt (observe H a h) s = (Inr obs, s1)"
    "c = object (snd (wake_observation obs) @ [(''expected_head'', JString h)])"
    "choice = (if notifies (wake_file s) c then ''NOTIFY'' else ''DONT_NOTIFY'')"
    "r = wake_record automation receipt assignment (arg_now a) c (fst (wake_observation obs)) (wake_file s)"
    "v = wake_reply automation receipt choice words r" "wake_file s' = Some r" "deeds s' = deeds s1 @ [SavedWake r]"
proof -
  let ?c = "\<lambda>obs. object (snd (wake_observation obs) @ [(''expected_head'', JString h)])"
  let ?r = "\<lambda>automation receipt assignment obs. wake_record automation receipt assignment (arg_now a) (?c obs)
    (fst (wake_observation obs)) (wake_file s)"
  let ?choice = "\<lambda>obs. if notifies (wake_file s) (?c obs) then ''NOTIFY'' else ''DONT_NOTIFY''"
  from assms obtain automation receipt assignment obs s1 words where
    "attempt (observe H a h) s = (Inr obs, s1)"
    "v = wake_reply automation receipt (?choice obs) words (?r automation receipt assignment obs)"
    "save_wake H (?r automation receipt assignment obs) s1 = (Inr (), s')"
    unfolding run_wake_def Let_def case_prod_beta
    by (auto simp: result_simps simp del: lit_simps)
  with save_wake_Inr [of H "?r automation receipt assignment obs" s1 "()" s'] that [of obs s1 "?c obs" "?choice obs"]
  show thesis by blast
qed

lemma execute_wake_Inr:
  assumes "execute H a s = (Inr v, s')" "arg_action a = Wake"
  obtains h f where "commit_try_from (arg_head a) = Some h" "run_wake H a h (s\<lparr>memory := f\<rparr>) = (Inr v, s')"
proof -
  from assms obtain h f s1 where "commit_try_from (arg_head a) = Some h"
    "read_state H (to_ascii_lowercase (arg_repo a)) (arg_pr a) s = (Inr f, s1)" "run_wake H a h (s1\<lparr>memory := f\<rparr>) = (Inr v, s')"
    by (auto simp: execute_def Let_def result_simps change_def simp del: lit_simps)
  with read_state_same that show thesis by (metis snd_conv)
qed

lemma wake_record_keys:
  "at_key (wake_record automation receipt assignment now c snapshot previous) ''condition'' = c"
  "at_key (wake_record automation receipt assignment now c snapshot previous) ''observation'' = snapshot"
  "at_key (wake_record automation receipt assignment now c snapshot previous) ''decision'' =
     text_value (if notifies previous c then ''NOTIFY'' else ''DONT_NOTIFY'')"
  by (simp_all add: wake_record_def at_key_object)

lemma wake_reply_keys:
  "at_key (wake_reply automation receipt choice words r) ''status'' = at_key (at_key r ''condition'') ''kind''"
  "at_key (wake_reply automation receipt choice words r) ''decision'' = text_value choice"
  "at_key (wake_reply automation receipt choice words r) ''observation'' = at_key r ''observation''"
  by (simp_all add: wake_reply_def at_key_object)

lemma notifies_same: "at_key old ''condition'' = c \<Longrightarrow> \<not> notifies (Some old) c"
  by (auto simp: notifies_def restored_def was_blocking_def blocking_def text_value_def simp del: lit_simps)

lemma classify_complete:
  "at_key (object (classify c findings status result kind @ [(''expected_head'', x)])) ''kind'' =
     text_value ''external_work_complete'' \<Longrightarrow> clean c \<and> \<not> findings \<and> kind = Complete"
  by (auto simp: classify_def condition_def at_key_object clean_def text_value_def simp del: lit_simps split: if_splits)

lemma observe_open_Inr:
  assumes "observe_open H a h p s = (Inr (snapshot, kvs), s')"
  obtains cs provider kind checks statuses workflows c result status findings where
    "snapshot = reply ''observed'' [(''head'', JString (pull_head p)), (''review'', json_option provider), (''review_action'', result),
         (''checks'', checks), (''statuses'', statuses), (''workflows'', workflows)]"
    "kvs = classify c findings status result kind" "ci_status H checks statuses workflows = Inr c"
    "review_state_of H cs h = Inr provider" "review_of H cs h = Inr kind"
    "(if kind = Complete then has_findings provider else Inr False) = Inr findings"
  using assms unfolding observe_open_def by (auto simp: result_simps simp del: lit_simps)

lemma observe_complete:
  assumes "observe H a h s = (Inr (snapshot, kvs), s')"
    and work: "at_key (object (kvs @ [(''expected_head'', JString h)])) ''kind'' = text_value ''external_work_complete''"
  obtains cs provider c checks statuses workflows result where
    "snapshot = reply ''observed'' [(''head'', JString h), (''review'', json_option provider), (''review_action'', result),
         (''checks'', checks), (''statuses'', statuses), (''workflows'', workflows)]"
    "ci_status H checks statuses workflows = Inr c" "clean c"
    "review_state_of H cs h = Inr provider" "review_of H cs h = Inr Complete" "has_findings provider = Inr False"
proof -
  have early: "kvs \<noteq> condition ''closed'' [(''head'', x)]" "kvs \<noteq> condition ''head_changed'' [(''head'', x)]" for x
    using work by (auto simp: condition_def at_key_object text_value_def simp del: lit_simps)
  from assms(1) obtain p s1 where "pull_head p = h" "observe_open H a h p s1 = (Inr (snapshot, kvs), s')"
    unfolding observe_def by (auto simp: result_simps early simp del: lit_simps split: if_splits)
  from this(2) show thesis
  proof (rule observe_open_Inr, goal_cases)
    case (1 cs provider kind checks statuses workflows c result status findings)
    with classify_complete work have "clean c" "\<not> findings" "kind = Complete" by blast+
    with 1 that \<open>pull_head p = h\<close> show thesis by simp
  qed
qed

section \<open>A wake that finds completed work\<close>

definition demo_pages :: "string \<Rightarrow> json list \<Rightarrow> json" where
  "demo_pages field rs = JArray [object [(''total_count'', number (length rs)), (field, JArray rs)]]"

definition demo_run :: json where
  "demo_run = object [(''id'', number 1), (''name'', text_value ''unit''), (''status'', text_value ''completed''),
     (''conclusion'', text_value ''success'')]"

definition demo_review :: json where
  "demo_review = object [(''code_review'', object [(''commit_sha'', JString demo_commit), (''status'', text_value ''completed''),
     (''has_any_findings'', JBool False), (''has_unresolved_findings'', JBool False)])]"

definition demo_assignment :: json where
  "demo_assignment = object (map (\<lambda>k. (k, JString [49])) [''assignment_handle'', ''operation_id'', ''repository_id'', ''worktree_id''] @
     [(''path'', object [(''bytes'', JArray [number 47])])])"

definition demo_done :: "nat host" where
  "demo_done = demo_host\<lparr>
     get_comments := (\<lambda>g. (Some [[\<lparr>comment_id = 9,
       comment_user = \<lparr>user_id = 199175422, login = lit ''chatgpt-codex-connector[bot]'', user_kind = lit ''Bot''\<rparr>,
       comment_body = lit ''<!-- codex-review-state:v1 {} -->'', created_at = lit ''t''\<rparr>]], g)),
     get_evidence := (\<lambda>h k g. (Some (if k = ''checks'' then demo_pages ''check_runs'' [demo_run]
       else if k = ''statuses'' then demo_pages ''statuses'' [] else demo_pages ''workflow_runs'' [demo_run]), g)),
     parse_json := (\<lambda>s. Some demo_review), selected_assignment := (\<lambda>s. Some demo_assignment), is_absolute := (\<lambda>s. True)\<rparr>"

definition demo_wake :: args where
  "demo_wake = demo_args\<lparr>arg_action := Wake, arg_assignment_receipt := Some (lit ''/r''), arg_automation_id := Some (lit ''job'')\<rparr>"

definition demo_reply :: json where
  "demo_reply = (case fst (execute demo_done demo_wake demo_desk) of Inr v \<Rightarrow> v | Inl _ \<Rightarrow> JNull)"

lemma demo_done_reply:
  "\<not> isl (fst (execute demo_done demo_wake demo_desk)) \<and> at_key demo_reply ''status'' = text_value ''external_work_complete''"
  by code_simp

lemma demo_execute: "execute demo_done demo_wake demo_desk = (Inr demo_reply, snd (execute demo_done demo_wake demo_desk))"
  using demo_done_reply unfolding demo_reply_def
  by (cases "execute demo_done demo_wake demo_desk") (auto split: sum.splits)

lemma demo_wake_action: "arg_action demo_wake = Wake"
  by (simp add: demo_wake_def)

section \<open>Properties\<close>

text \<open>C13: A command that posts a review request has first replaced the file by one with the new, unconfirmed request;
  it posts that request and nothing else, and the file allowed it: no request for the commit was saved, or the last
  one was confirmed and is more than an hour old.\<close>

theorem reviews_follow_their_intent:
  assumes "deeds s = []" "Posted b \<in> set (deeds (snd (execute H a s)))"
  shows "\<exists>f r rest. fst (read_state H (to_ascii_lowercase (arg_repo a)) (arg_pr a) s) = Inr f \<and>
    deeds (snd (execute H a s)) = SavedState (f\<lparr>requests := requests f @ [r]\<rparr>) # Posted b # rest \<and> posted rest = [] \<and>
    b = request_body r \<and> request_comment r = None \<and> requested_at r = arg_now a \<and>
    commit_try_from (arg_head a) = Some (request_head r) \<and> permitted a (request_head r) f"
proof -
  from assms(2) have posts: "deeds (snd (execute H a s)) \<noteq> []" "posted (deeds (snd (execute H a s))) \<noteq> []"
    by (auto simp flip: posted_iff)
  with execute_watched [OF assms(1) refl] obtain f w where
    f: "try_fold (watch_review a) (f, Opened) (deeds (snd (execute H a s))) = Inr w"
       "fst (read_state H (to_ascii_lowercase (arg_repo a)) (arg_pr a) s) = Inr f" by blast
  from opened_posts [OF f(1) posts(2)] obtain r rest where
    r: "deeds (snd (execute H a s)) = SavedState (f\<lparr>requests := requests f @ [r]\<rparr>) # Posted (request_body r) # rest"
       "posted rest = []" "announces a f (f\<lparr>requests := requests f @ [r]\<rparr>)" by blast
  from assms(2) r(1,2) have "b = request_body r" by (auto simp flip: posted_iff)
  with f r show ?thesis by (auto simp: announces_def appends_def Let_def)
qed

theorem reviews_follow_their_intent_witness:
  "\<exists>f r rest. fst (read_state demo_host (to_ascii_lowercase (arg_repo demo_args)) (arg_pr demo_args) demo_desk) = Inr f \<and>
    deeds (snd (execute demo_host demo_args demo_desk)) =
      SavedState (f\<lparr>requests := requests f @ [r]\<rparr>) # Posted (request_body demo_request) # rest \<and> posted rest = [] \<and>
    request_body demo_request = request_body r \<and> request_comment r = None \<and> requested_at r = arg_now demo_args \<and>
    commit_try_from (arg_head demo_args) = Some (request_head r) \<and> permitted demo_args (request_head r) f"
  by (rule reviews_follow_their_intent) (simp add: demo_desk_def, simp add: demo_deeds)

text \<open>C12: After any number of commands, each stopped at its end or after any of its deeds, every posted comment belongs
  to a request of the file, in order and once each, and of two requests for one commit the earlier is confirmed and more
  than an hour older.\<close>

theorem reviews_are_spaced:
  assumes "review_history H f ds"
  shows "subseq (posted ds) (map request_body (saved_requests f)) \<and> spaced (saved_requests f)"
  using history_tidy [OF assms] by (simp add: tidy_def)

lemma demo_history:
  "review_history demo_host (Some (demo_state demo_request)) [SavedState (demo_state demo_request), Posted (request_body demo_request)]"
proof -
  have "review_history demo_host (file_after None [SavedState (demo_state demo_request), Posted (request_body demo_request)])
      ([] @ [SavedState (demo_state demo_request), Posted (request_body demo_request)])"
  proof (rule review_history.command)
    show "review_history demo_host None []" by (rule fresh)
    show "deeds (snd (execute demo_host demo_args demo_desk)) = [SavedState (demo_state demo_request), Posted (request_body demo_request)] @
        [SavedState (demo_state (demo_request\<lparr>request_comment := Some 7, requested_at := 100\<rparr>))]"
      by (simp add: demo_deeds)
  qed (simp_all add: demo_desk_def)
  then show ?thesis by (simp add: file_step_def)
qed

theorem reviews_are_spaced_witness:
  "subseq (posted [SavedState (demo_state demo_request), Posted (request_body demo_request)])
     (map request_body (saved_requests (Some (demo_state demo_request)))) \<and> spaced (saved_requests (Some (demo_state demo_request)))"
  by (rule reviews_are_spaced [OF demo_history])

text \<open>When a wake notifies.\<close>

lemma was_blocking_iff:
  "was_blocking old \<longleftrightarrow> (\<exists>k \<in> {''uncertain'', ''failure'', ''review_findings'', ''head_changed'', ''action_required'', ''review_unavailable''}.
     at_key (at_key old ''condition'') ''kind'' = text_value k)"
proof -
  have "was_blocking old \<longleftrightarrow> (\<exists>s \<in> set blocking. at_key (at_key old ''condition'') ''kind'' = JString s)"
    by (cases "at_key (at_key old ''condition'') ''kind''") (auto simp: was_blocking_def simp del: lit_simps)
  then show ?thesis by (simp add: blocking_def text_value_def del: lit_simps)
qed

lemma notifies_iff:
  "notifies previous c \<longleftrightarrow>
     at_key c ''kind'' \<noteq> text_value ''waiting'' \<and> (\<forall>old. previous = Some old \<longrightarrow> at_key old ''condition'' \<noteq> c) \<or>
     at_key c ''kind'' = text_value ''waiting'' \<and> (\<exists>old. previous = Some old \<and> was_blocking old)"
  by (cases previous) (auto simp: notifies_def restored_def Let_def simp del: lit_simps)

lemma decision_texts: "text_value ''NOTIFY'' \<noteq> text_value ''DONT_NOTIFY''"
  by (simp add: text_value_def)

text \<open>C20: A wake that answers has saved its record as its last deed, and says what the record says. It notifies exactly
  when its condition is not a wait and is not that of the previous wake, or when it waits and the condition of the
  previous wake was an uncertainty, a failure, a finding, another head, an action required or a review that was not
  available; for the condition of the previous wake it never notifies again.\<close>

theorem wakes_report_transitions:
  assumes "arg_action a = Wake" "execute H a s = (Inr v, s')"
  shows "\<exists>ds r. deeds s' = ds @ [SavedWake r] \<and> wake_file s' = Some r \<and>
    at_key v ''status'' = at_key (at_key r ''condition'') ''kind'' \<and> at_key v ''observation'' = at_key r ''observation'' \<and>
    at_key v ''decision'' = at_key r ''decision'' \<and> at_key r ''decision'' \<in> {text_value ''NOTIFY'', text_value ''DONT_NOTIFY''} \<and>
    (at_key r ''decision'' = text_value ''NOTIFY'' \<longleftrightarrow>
       at_key v ''status'' \<noteq> text_value ''waiting'' \<and>
         (\<forall>old. wake_file s = Some old \<longrightarrow> at_key old ''condition'' \<noteq> at_key r ''condition'') \<or>
       at_key v ''status'' = text_value ''waiting'' \<and>
         (\<exists>old. wake_file s = Some old \<and>
           (\<exists>k \<in> {''uncertain'', ''failure'', ''review_findings'', ''head_changed'', ''action_required'', ''review_unavailable''}.
             at_key (at_key old ''condition'') ''kind'' = text_value k))) \<and>
    (\<forall>old. wake_file s = Some old \<and> at_key old ''condition'' = at_key r ''condition'' \<longrightarrow> at_key v ''decision'' = text_value ''DONT_NOTIFY'')"
proof -
  from assms obtain h f where run: "run_wake H a h (s\<lparr>memory := f\<rparr>) = (Inr v, s')" by (metis execute_wake_Inr)
  show ?thesis
  proof (rule run_wake_Inr [OF run], goal_cases)
    case (1 automation receipt assignment obs s1 c r choice words)
    have keys: "at_key r ''condition'' = c" "at_key r ''decision'' = text_value choice"
      unfolding 1(4,3) by (simp_all only: wake_record_keys)
    moreover have "at_key v ''status'' = at_key (at_key r ''condition'') ''kind''" "at_key v ''observation'' = at_key r ''observation''"
      "at_key v ''decision'' = text_value choice"
      unfolding 1(5) by (simp_all only: wake_reply_keys)
    moreover have "choice = ''DONT_NOTIFY''" if "wake_file s = Some old" "at_key old ''condition'' = c" for old
      using 1(3) that notifies_same by simp
    moreover have "choice = (if notifies (wake_file s) c then ''NOTIFY'' else ''DONT_NOTIFY'')" using 1(3) by simp
    then have "text_value choice = text_value ''NOTIFY'' \<longleftrightarrow> notifies (wake_file s) c"
      "text_value choice \<in> {text_value ''NOTIFY'', text_value ''DONT_NOTIFY''}"
      using decision_texts by (auto simp del: lit_simps)
    ultimately show ?case using 1(6,7) unfolding notifies_iff was_blocking_iff by (intro exI [of _ "deeds s1"] exI [of _ r]) (simp del: lit_simps)
  qed
qed

theorem wakes_report_transitions_witness:
  "\<exists>ds r. deeds (snd (execute demo_done demo_wake demo_desk)) = ds @ [SavedWake r] \<and>
    wake_file (snd (execute demo_done demo_wake demo_desk)) = Some r \<and>
    at_key demo_reply ''decision'' = at_key r ''decision'' \<and> at_key demo_reply ''decision'' = text_value ''NOTIFY''"
proof -
  have new: "wake_file demo_desk = None" by (simp add: demo_desk_def)
  have "at_key demo_reply ''status'' \<noteq> text_value ''waiting''"
    using conjunct2 [OF demo_done_reply] by (simp add: text_value_def)
  with wakes_report_transitions [OF demo_wake_action demo_execute] new show ?thesis by (auto simp del: lit_simps)
qed

text \<open>C19: When a wake reports that the external work is complete, the observation it reports holds the evidence: the
  review of exactly the expected commit is completed without findings, every page of the checks, statuses and workflows
  is there, every record of them passed, and some check and some workflow ran.\<close>

theorem complete_work_is_evidenced:
  assumes "arg_action a = Wake" "execute H a s = (Inr v, s')"
    and "at_key v ''status'' = text_value ''external_work_complete''"
  shows "let ob = at_key v ''observation''; rv = at_key ob ''review'' in
    (\<exists>h. commit_try_from (arg_head a) = Some h \<and> at_key ob ''head'' = JString h \<and> at_key rv ''commit_sha'' = JString h) \<and>
    at_key rv ''status'' = text_value ''completed'' \<and>
    at_key rv ''has_any_findings'' = JBool False \<and> at_key rv ''has_unresolved_findings'' = JBool False \<and>
    evidence_passed ''check_runs'' ''checks'' (at_key ob ''checks'') \<and>
    evidence_passed ''statuses'' ''statuses'' (at_key ob ''statuses'') \<and>
    evidence_passed ''workflow_runs'' ''workflows'' (at_key ob ''workflows'')"
proof -
  from assms obtain h f where h: "commit_try_from (arg_head a) = Some h" "run_wake H a h (s\<lparr>memory := f\<rparr>) = (Inr v, s')"
    by (metis execute_wake_Inr)
  from run_wake_Inr [OF h(2)] obtain automation receipt assignment obs s1 r choice words where
    obs: "attempt (observe H a h) (s\<lparr>memory := f\<rparr>) = (Inr obs, s1)"
    and r: "r = wake_record automation receipt assignment (arg_now a) (object (snd (wake_observation obs) @ [(''expected_head'', JString h)]))
         (fst (wake_observation obs)) (wake_file (s\<lparr>memory := f\<rparr>))"
    and v: "v = wake_reply automation receipt choice words r" by metis
  from v r have work: "at_key (object (snd (wake_observation obs) @ [(''expected_head'', JString h)])) ''kind'' = text_value ''external_work_complete''"
    and ob: "at_key v ''observation'' = fst (wake_observation obs)"
    using assms(3) by (simp_all only: wake_record_keys wake_reply_keys)
  obtain snapshot kvs where seen: "obs = Inr (snapshot, kvs)"
  proof (cases obs)
    case (Inl e)
    with work show thesis
      by (simp add: wake_observation_def at_key_object condition_def text_value_def del: lit_simps)
  qed (use that in auto)
  with obs have "observe H a h (s\<lparr>memory := f\<rparr>) = (Inr (snapshot, kvs), s1)"
    by (auto simp: attempt_def split: prod.splits sum.splits failure.splits)
  moreover from work seen have "at_key (object (kvs @ [(''expected_head'', JString h)])) ''kind'' = text_value ''external_work_complete''"
    by (simp only: wake_observation_def sum.case snd_conv)
  ultimately show ?thesis
  proof (rule observe_complete, goal_cases)
    case (1 cs provider c checks statuses workflows result)
    from review_complete [OF 1(5)] 1(4) obtain st where st: "provider = Some st" "at_key st ''status'' = text_value ''completed''" by auto
    from 1(6) have "at_key st ''has_any_findings'' = JBool False" "at_key st ''has_unresolved_findings'' = JBool False"
      unfolding has_findings_def json_or_def st(1) by (auto simp: result_simps as_bool_Some)
    moreover have "at_key st ''commit_sha'' = JString h" using review_state_head 1(4) st(1) by blast
    moreover note ci_status_clean [OF 1(2,3)]
    moreover have "at_key snapshot ''review'' = st" "at_key snapshot ''head'' = JString h" "at_key snapshot ''checks'' = checks"
      "at_key snapshot ''statuses'' = statuses" "at_key snapshot ''workflows'' = workflows"
      unfolding 1(1) reply_def st(1) by (simp_all add: at_key_object json_option_def del: lit_simps)
    moreover have "at_key v ''observation'' = snapshot" by (simp only: ob seen wake_observation_def sum.case fst_conv)
    ultimately show ?case using h(1) st(2) by (simp add: Let_def del: lit_simps)
  qed
qed

theorem complete_work_is_evidenced_witness:
  "at_key (at_key demo_reply ''observation'') ''head'' = JString demo_commit \<and>
   evidence_passed ''check_runs'' ''checks'' (at_key (at_key demo_reply ''observation'') ''checks'')"
proof -
  have "commit_try_from (arg_head demo_wake) = Some demo_commit" by code_simp
  with complete_work_is_evidenced [OF demo_wake_action demo_execute conjunct2 [OF demo_done_reply]] show ?thesis
    unfolding Let_def by auto
qed

end
