(* ===== verification/Hs_Turns.thy ===== *)
theory Hs_Turns imports Prelude begin

text \<open>
  Players and the turn schedule of the Hearthstone simulator (\<open>core/ids.rs\<close>, \<open>core/game.rs\<close>).
  Both arrays of two counters are lists of length two, the index of a player is
  \<open>player_index\<close>, and a \<open>u32\<close> is a number with the saturating addition written out.
\<close>

section \<open>Players\<close>

datatype player_id = One | Two

fun opponent :: "player_id \<Rightarrow> player_id" where
  "opponent One = Two"
| "opponent Two = One"

definition all_players :: "player_id list" where
  "all_players = [One, Two]"

fun player_index :: "player_id \<Rightarrow> nat" where
  "player_index One = 0"
| "player_index Two = 1"

lemma opponent_simps [simp]:
  "opponent (opponent p) = p"
  "opponent p \<noteq> p" "p \<noteq> opponent p"
  by (cases p; simp)+

lemma player_cases: "q = p \<or> q = opponent p"
  by (cases p; cases q) simp_all

section \<open>The schedule\<close>

datatype extra_turn_timing = AfterCurrentTurn | DuringNextTurnSeries
datatype scheduled_turn_kind = Natural | Extra

record scheduled_turn =
  turn_player :: player_id
  turn_kind :: scheduled_turn_kind

record turn_schedule =
  pending :: "scheduled_turn list"
  next_series_extras :: "nat list"
  after_current_extras :: "nat list"
  after_current_anchor :: "player_id option"
  resume_natural_player :: "player_id option"

definition u32_max :: nat where "u32_max = 4294967295"

definition saturating_add :: "nat \<Rightarrow> nat \<Rightarrow> nat" where
  "saturating_add a b = min (a + b) u32_max"

definition default_schedule :: turn_schedule where
  "default_schedule = \<lparr>pending = [], next_series_extras = [0, 0], after_current_extras = [0, 0],
     after_current_anchor = None, resume_natural_player = None\<rparr>"

text \<open>A failed debug assertion is a panic.\<close>

definition schedule ::
  "turn_schedule \<Rightarrow> player_id \<Rightarrow> player_id \<Rightarrow> nat \<Rightarrow> extra_turn_timing \<Rightarrow> (unit, turn_schedule) outcome" where
  "schedule s active player count timing =
     (case timing of
        AfterCurrentTurn \<Rightarrow>
          if \<not> (case after_current_anchor s of None \<Rightarrow> True | Some anchor \<Rightarrow> anchor = active) then panic
          else
          and_then (index (after_current_extras s) (player_index player)) (\<lambda>n.
          Inr (s\<lparr>after_current_anchor := Some active,
                 after_current_extras := (after_current_extras s)[player_index player := saturating_add n count]\<rparr>))
      | DuringNextTurnSeries \<Rightarrow>
          and_then (index (next_series_extras s) (player_index player)) (\<lambda>n.
          Inr (s\<lparr>next_series_extras := (next_series_extras s)[player_index player := saturating_add n count]\<rparr>)))"

definition extra_turns :: "player_id \<Rightarrow> nat \<Rightarrow> scheduled_turn list" where
  "extra_turns player n = replicate n \<lparr>turn_player = player, turn_kind = Extra\<rparr>"

definition start_natural_series ::
  "turn_schedule \<Rightarrow> player_id \<Rightarrow> (unit, scheduled_turn \<times> turn_schedule) outcome" where
  "start_natural_series s player =
     and_then (index (next_series_extras s) (player_index player)) (\<lambda>extras.
     Inr (\<lparr>turn_player = player, turn_kind = Natural\<rparr>,
          s\<lparr>next_series_extras := (next_series_extras s)[player_index player := 0],
            pending := pending s @ extra_turns player extras\<rparr>))"

text \<open>\<open>self.pending.remove(0)\<close>.\<close>

definition take_pending :: "turn_schedule \<Rightarrow> (unit, scheduled_turn \<times> turn_schedule) outcome" where
  "take_pending s = (case pending s of [] \<Rightarrow> panic | t # ts \<Rightarrow> Inr (t, s\<lparr>pending := ts\<rparr>))"

text \<open>The loop that turns the preempted grants into grants of the next series.\<close>

definition move_preempted :: "turn_schedule \<Rightarrow> nat \<Rightarrow> (unit, turn_schedule) outcome" where
  "move_preempted s i =
     and_then (index (after_current_extras s) i) (\<lambda>extras.
     and_then (index (next_series_extras s) i) (\<lambda>n.
     Inr (s\<lparr>next_series_extras := (next_series_extras s)[i := saturating_add n extras],
            after_current_extras := (after_current_extras s)[i := 0]\<rparr>)))"

definition queue_extras :: "turn_schedule \<Rightarrow> player_id \<Rightarrow> (unit, turn_schedule) outcome" where
  "queue_extras s player =
     and_then (index (after_current_extras s) (player_index player)) (\<lambda>count.
     Inr (s\<lparr>after_current_extras := (after_current_extras s)[player_index player := 0],
            pending := pending s @ extra_turns player count\<rparr>))"

definition next_turn :: "turn_schedule \<Rightarrow> player_id \<Rightarrow> (unit, scheduled_turn \<times> turn_schedule) outcome" where
  "next_turn s ending =
     (if pending s \<noteq> [] then take_pending s
      else case resume_natural_player s of
        Some player \<Rightarrow> start_natural_series (s\<lparr>resume_natural_player := None\<rparr>) player
      | None \<Rightarrow>
          let natural = opponent ending in
          and_then (index (next_series_extras s) (player_index natural)) (\<lambda>n.
          if 0 < n then
            and_then (try_fold move_preempted s [0..<length (after_current_extras s)]) (\<lambda>s.
            start_natural_series (s\<lparr>after_current_anchor := None\<rparr>) natural)
          else if list_ex (\<lambda>count. 0 < count) (after_current_extras s) then
            and_then (try_fold queue_extras
                (s\<lparr>resume_natural_player := Some natural, after_current_anchor := None\<rparr>) all_players) take_pending
          else start_natural_series s natural))"

section \<open>Runs of a game\<close>

text \<open>
  What the effects and the end of a turn do to the schedule: \<open>Grant\<close> is
  \<open>Effect::ScheduleExtraTurns\<close> with the active player, \<open>EndTurn\<close> is \<open>advance_turn\<close>. The run
  records the natural turns, the extra turns and the turns granted.
\<close>

datatype turn_op = Grant player_id nat extra_turn_timing | EndTurn

record game_run =
  sched :: turn_schedule
  active :: player_id
  naturals :: "player_id list"
  extras_played :: nat
  extras_granted :: nat

definition initial_run :: game_run where
  "initial_run = \<lparr>sched = default_schedule, active = One, naturals = [One], extras_played = 0, extras_granted = 0\<rparr>"

fun turn_step :: "game_run \<Rightarrow> turn_op \<Rightarrow> (unit, game_run) outcome" where
  "turn_step r (Grant player count timing) =
     and_then (schedule (sched r) (active r) player count timing) (\<lambda>s.
     Inr (r\<lparr>sched := s, extras_granted := extras_granted r + count\<rparr>))"
| "turn_step r EndTurn =
     and_then (next_turn (sched r) (active r)) (\<lambda>(t, s).
     Inr (case turn_kind t of
        Natural \<Rightarrow> r\<lparr>sched := s, active := turn_player t, naturals := naturals r @ [turn_player t]\<rparr>
      | Extra \<Rightarrow> r\<lparr>sched := s, active := turn_player t, extras_played := extras_played r + 1\<rparr>))"

section \<open>The invariant\<close>

definition owed :: "turn_schedule \<Rightarrow> nat" where
  "owed s = length (pending s) + sum_list (next_series_extras s) + sum_list (after_current_extras s)"

text \<open>The last natural turn was \<open>natural\<close>'s and the current turn is \<open>current\<close>'s.\<close>

definition schedule_ok :: "turn_schedule \<Rightarrow> player_id \<Rightarrow> player_id \<Rightarrow> bool" where
  "schedule_ok s natural current \<longleftrightarrow>
     length (next_series_extras s) = 2 \<and> length (after_current_extras s) = 2 \<and>
     (\<forall>t \<in> set (pending s). turn_kind t = Extra) \<and>
     (case resume_natural_player s of
        None \<Rightarrow> current = natural \<and> (\<forall>t \<in> set (pending s). turn_player t = natural)
      | Some p \<Rightarrow> p = opponent natural)"

lemma pair_list: "length xs = 2 \<longleftrightarrow> (\<exists>a b. xs = [a, b])"
  by (auto simp: numeral_2_eq_2 length_Suc_conv)

lemma owed_default [simp]: "owed default_schedule = 0" "schedule_ok default_schedule One One"
  by (simp_all add: owed_def schedule_ok_def default_schedule_def)

lemma extra_turns_simps [simp]:
  "length (extra_turns p n) = n"
  "t \<in> set (extra_turns p n) \<longleftrightarrow> 0 < n \<and> t = \<lparr>turn_player = p, turn_kind = Extra\<rparr>"
  "extra_turns p n = [] \<longleftrightarrow> n = 0"
  by (auto simp: extra_turns_def)

lemma schedule_keeps:
  assumes "schedule_ok s natural current" "schedule s current player count timing = Inr s'"
    and "owed s + count \<le> u32_max"
  shows "schedule_ok s' natural current" "owed s' = owed s + count"
proof -
  obtain a b c d where ab: "next_series_extras s = [a, b]" "after_current_extras s = [c, d]"
    using assms(1) by (auto simp: schedule_ok_def pair_list)
  show "schedule_ok s' natural current"
    using assms(1,2) ab by (cases timing; cases player) (auto simp: schedule_def schedule_ok_def result_simps split: if_splits option.splits)
  show "owed s' = owed s + count"
    using assms(2,3) ab by (cases timing; cases player)
      (auto simp: schedule_def owed_def result_simps saturating_add_def split: if_splits option.splits)
qed

text \<open>The branches of \<open>next_turn\<close> on a schedule written out.\<close>

definition mk_schedule ::
  "scheduled_turn list \<Rightarrow> nat \<Rightarrow> nat \<Rightarrow> nat \<Rightarrow> nat \<Rightarrow> player_id option \<Rightarrow> player_id option \<Rightarrow> turn_schedule" where
  "mk_schedule p a b c d k r = \<lparr>pending = p, next_series_extras = [a, b], after_current_extras = [c, d],
     after_current_anchor = k, resume_natural_player = r\<rparr>"

abbreviation natural_turn :: "player_id \<Rightarrow> scheduled_turn" where
  "natural_turn p \<equiv> \<lparr>turn_player = p, turn_kind = Natural\<rparr>"

definition at :: "player_id \<Rightarrow> 'a \<Rightarrow> 'a \<Rightarrow> 'a" where
  "at p x y = (case p of One \<Rightarrow> x | Two \<Rightarrow> y)"

lemma at_simps [simp]: "at One x y = x" "at Two x y = y"
  by (simp_all add: at_def)

lemma next_turn_pending: "next_turn (mk_schedule (t # p) a b c d k r) e = Inr (t, mk_schedule p a b c d k r)"
  by (simp add: next_turn_def take_pending_def mk_schedule_def)

lemma next_turn_resume:
  "next_turn (mk_schedule [] a b c d k (Some q)) e =
     Inr (natural_turn q, mk_schedule (extra_turns q (at q a b)) (at q 0 a) (at q b 0) c d k None)"
  by (cases q) (simp_all add: next_turn_def start_natural_series_def mk_schedule_def)

lemma next_turn_series:
  assumes "0 < at q a b" "q = opponent e"
  shows "next_turn (mk_schedule [] a b c d k None) e =
     Inr (natural_turn q, mk_schedule (extra_turns q (at q (saturating_add a c) (saturating_add b d)))
       (at q 0 (saturating_add a c)) (at q (saturating_add b d) 0) 0 0 None None)"
  using assms
  by (cases e) (simp_all add: next_turn_def start_natural_series_def mk_schedule_def move_preempted_def upt_rec numeral_2_eq_2)

lemma next_turn_extra:
  assumes "at q a b = 0" "q = opponent e" "extra_turns One c @ extra_turns Two d = t # ts"
  shows "next_turn (mk_schedule [] a b c d k None) e = Inr (t, mk_schedule ts a b 0 0 None (Some q))"
proof -
  have "0 < c \<or> 0 < d" using assms(3) by (cases c; cases d) (auto simp: extra_turns_def)
  then show ?thesis
    using assms by (cases e) (simp_all add: next_turn_def queue_extras_def take_pending_def mk_schedule_def all_players_def)
qed

lemma next_turn_plain:
  assumes "at q a b = 0" "q = opponent e"
  shows "next_turn (mk_schedule [] a b 0 0 k None) e = Inr (natural_turn q, mk_schedule [] a b 0 0 k None)"
  using assms by (cases e) (simp_all add: next_turn_def start_natural_series_def mk_schedule_def extra_turns_def)

lemma mk_schedule_exists:
  assumes "schedule_ok s natural current"
  obtains p a b c d k r where "s = mk_schedule p a b c d k r"
  using assms that by (cases s) (auto simp: schedule_ok_def pair_list mk_schedule_def)

lemma owed_mk [simp]: "owed (mk_schedule p a b c d k r) = length p + a + b + c + d"
  by (simp add: owed_def mk_schedule_def)

lemma schedule_ok_mk:
  "schedule_ok (mk_schedule p a b c d k r) natural current \<longleftrightarrow> (\<forall>t \<in> set p. turn_kind t = Extra) \<and>
     (case r of None \<Rightarrow> current = natural \<and> (\<forall>t \<in> set p. turn_player t = natural) | Some q \<Rightarrow> q = opponent natural)"
  by (simp add: schedule_ok_def mk_schedule_def split: option.split)

lemma next_turn_result:
  assumes ok: "schedule_ok s natural current" and bound: "owed s \<le> u32_max"
  obtains t s' where "next_turn s current = Inr (t, s')"
    "turn_kind t = Natural \<Longrightarrow> turn_player t = opponent natural \<and> owed s' = owed s \<and> schedule_ok s' (turn_player t) (turn_player t)"
    "turn_kind t = Extra \<Longrightarrow> owed s' + 1 = owed s \<and> schedule_ok s' natural (turn_player t)"
proof -
  obtain p a b c d k r where s: "s = mk_schedule p a b c d k r" using mk_schedule_exists [OF ok] .
  note ok = ok [unfolded s schedule_ok_mk]
  show thesis
  proof (cases p)
    case (Cons t ts)
    show thesis
      by (rule that [of t "mk_schedule ts a b c d k r"])
        (use ok Cons in \<open>auto simp: s next_turn_pending schedule_ok_mk split: option.splits\<close>)
  next
    case Nil
    let ?q = "opponent natural"
    show thesis
    proof (cases r)
      case (Some q)
      then have q: "q = ?q" using ok by simp
      have s': "s = mk_schedule [] a b c d k (Some q)" by (simp add: s Nil Some)
      show thesis
        by (rule that [OF next_turn_resume [of a b c d k q current, folded s']])
          (cases q; auto simp: q s' schedule_ok_mk)+
    next
      case None
      then have cur: "?q = opponent current" using ok by simp
      have s': "s = mk_schedule [] a b c d k None" by (simp add: s Nil None)
      have sat: "saturating_add a c = a + c" "saturating_add b d = b + d"
        using bound by (simp_all add: s saturating_add_def)
      show thesis
      proof (cases "0 < at ?q a b")
        case True
        show thesis
          by (rule that [OF next_turn_series [OF True cur, of c d k, folded s']])
            (cases natural; auto simp: s' schedule_ok_mk sat)+
      next
        case False
        then have zero: "at ?q a b = 0" by simp
        show thesis
        proof (cases "extra_turns One c @ extra_turns Two d")
          case (Cons t ts)
          have "length ts + 1 = c + d" using arg_cong [OF Cons, of length] by simp
          moreover have "\<forall>u \<in> set (extra_turns One c @ extra_turns Two d). turn_kind u = Extra" by auto
          then have "\<forall>u \<in> set (t # ts). turn_kind u = Extra" unfolding Cons .
          ultimately show thesis
            using that [OF next_turn_extra [OF zero cur Cons, of k, folded s']]
            by (auto simp: s' schedule_ok_mk)
        next
          case none: Nil
          then have s'': "s = mk_schedule [] a b 0 0 k None" using s' by auto
          show thesis
            by (rule that [OF next_turn_plain [OF zero cur, of k, folded s'']])
              (auto simp: s'' schedule_ok_mk)
        qed
      qed
    qed
  qed
qed

section \<open>How long an extra turn waits\<close>

text \<open>The number of natural turns before the next extra turn, when one is owed.\<close>

definition wait :: "turn_schedule \<Rightarrow> player_id \<Rightarrow> nat" where
  "wait s current =
     (let n = \<lambda>p. next_series_extras s ! player_index p in
      if pending s \<noteq> [] then 0
      else case resume_natural_player s of
        Some q \<Rightarrow> if 0 < n q then 1 else if 0 < n (opponent q) then 2 else 1
      | None \<Rightarrow> if 0 < n (opponent current) then 1
          else if list_ex (\<lambda>c. 0 < c) (after_current_extras s) then 0 else 2)"

lemma wait_mk:
  "wait (mk_schedule p a b c d k r) current =
     (if p \<noteq> [] then 0
      else case r of
        Some q \<Rightarrow> if 0 < at q a b then 1 else if 0 < at (opponent q) a b then 2 else 1
      | None \<Rightarrow> if 0 < at (opponent current) a b then 1 else if 0 < c \<or> 0 < d then 0 else 2)"
  by (cases current; cases r; cases "the r") (simp_all add: wait_def mk_schedule_def)

lemma wait_bound: "wait s current \<le> 2"
  by (simp add: wait_def Let_def split: option.split)

lemma wait_step:
  assumes ok: "schedule_ok s natural current" and bound: "owed s \<le> u32_max" and some: "0 < owed s"
    and step: "next_turn s current = Inr (t, s')"
  shows "turn_kind t = Natural \<Longrightarrow> wait s' (turn_player t) + 1 = wait s current" "turn_kind t = Extra \<Longrightarrow> wait s current = 0"
proof -
  obtain p a b c d k r where s: "s = mk_schedule p a b c d k r" using mk_schedule_exists [OF ok] .
  note ok = ok [unfolded s schedule_ok_mk]
  have "(turn_kind t = Natural \<longrightarrow> wait s' (turn_player t) + 1 = wait s current) \<and> (turn_kind t = Extra \<longrightarrow> wait s current = 0)"
  proof (cases p)
    case (Cons u us)
    then have "t = u" using step by (simp add: s next_turn_pending)
    then show ?thesis using ok Cons by (simp add: s wait_mk)
  next
    case Nil
    show ?thesis
    proof (cases r)
      case (Some q)
      then show ?thesis using step some by (cases q) (auto simp: s Nil next_turn_resume wait_mk)
    next
      case None
      let ?q = "opponent current"
      have sat: "saturating_add a c = a + c" "saturating_add b d = b + d"
        using bound by (simp_all add: s saturating_add_def)
      show ?thesis
      proof (cases "0 < at ?q a b")
        case True
        then have "t = natural_turn ?q \<and> s' = mk_schedule (extra_turns ?q (at ?q (a + c) (b + d)))
            (at ?q 0 (a + c)) (at ?q (b + d) 0) 0 0 None None"
          using step by (auto simp: s Nil None next_turn_series [OF True refl] sat)
        then show ?thesis using True by (cases current) (auto simp: s Nil None wait_mk)
      next
        case False
        then have zero: "at ?q a b = 0" by simp
        show ?thesis
        proof (cases "extra_turns One c @ extra_turns Two d")
          case (Cons u us)
          have "\<forall>v \<in> set (extra_turns One c @ extra_turns Two d). turn_kind v = Extra" by auto
          then have "turn_kind u = Extra" unfolding Cons by simp
          moreover have "t = u" using step by (simp add: s Nil None next_turn_extra [OF zero refl Cons])
          moreover have "0 < c \<or> 0 < d" using Cons by (cases c; cases d) (auto simp: extra_turns_def)
          ultimately show ?thesis using zero by (simp add: s Nil None wait_mk)
        next
          case none: Nil
          then have cd: "c = 0" "d = 0" by auto
          then have "t = natural_turn ?q \<and> s' = mk_schedule [] a b 0 0 k None"
            using step by (auto simp: s Nil None next_turn_plain [OF zero refl])
          then show ?thesis using zero some cd by (cases current) (auto simp: s Nil None wait_mk)
        qed
      qed
    qed
  qed
  then show "turn_kind t = Natural \<Longrightarrow> wait s' (turn_player t) + 1 = wait s current" "turn_kind t = Extra \<Longrightarrow> wait s current = 0"
    by simp_all
qed

section \<open>Runs\<close>

definition run_ok :: "game_run \<Rightarrow> bool" where
  "run_ok r \<longleftrightarrow> naturals r \<noteq> [] \<and> hd (naturals r) = One \<and> successively (\<lambda>p q. q = opponent p) (naturals r) \<and>
     schedule_ok (sched r) (last (naturals r)) (active r) \<and> extras_played r + owed (sched r) = extras_granted r"

lemma run_ok_initial: "run_ok initial_run"
  by (simp add: run_ok_def initial_run_def)

lemma end_turn_result:
  assumes "run_ok r" "extras_granted r \<le> u32_max"
  obtains r' where "turn_step r EndTurn = Inr r'" "run_ok r'" "extras_granted r' = extras_granted r"
    "0 < owed (sched r) \<Longrightarrow>
      3 * owed (sched r') + wait (sched r') (active r') < 3 * owed (sched r) + wait (sched r) (active r)"
    "owed (sched r) = 0 \<Longrightarrow> owed (sched r') = 0"
proof -
  have ok: "schedule_ok (sched r) (last (naturals r)) (active r)" and bound: "owed (sched r) \<le> u32_max"
    using assms by (simp_all add: run_ok_def)
  obtain t s' where step: "next_turn (sched r) (active r) = Inr (t, s')"
    and natural: "turn_kind t = Natural \<Longrightarrow> turn_player t = opponent (last (naturals r)) \<and> owed s' = owed (sched r) \<and>
        schedule_ok s' (turn_player t) (turn_player t)"
    and extra: "turn_kind t = Extra \<Longrightarrow> owed s' + 1 = owed (sched r) \<and> schedule_ok s' (last (naturals r)) (turn_player t)"
    using next_turn_result [OF ok bound] by blast
  show thesis
  proof (cases "turn_kind t")
    case Natural
    let ?r = "r\<lparr>sched := s', active := turn_player t, naturals := naturals r @ [turn_player t]\<rparr>"
    have "run_ok ?r"
      using assms(1) natural [OF Natural] by (auto simp: run_ok_def successively_append_iff)
    moreover have "3 * owed s' + wait s' (turn_player t) < 3 * owed (sched r) + wait (sched r) (active r)"
      if "0 < owed (sched r)"
      using wait_step(1) [OF ok bound that step Natural] natural [OF Natural] by simp
    ultimately show thesis
      using that [of ?r] step Natural natural [OF Natural] by simp
  next
    case Extra
    let ?r = "r\<lparr>sched := s', active := turn_player t, extras_played := extras_played r + 1\<rparr>"
    have "run_ok ?r" using assms(1) extra [OF Extra] by (auto simp: run_ok_def)
    moreover have "3 * owed s' + wait s' (turn_player t) < 3 * owed (sched r) + wait (sched r) (active r)"
      using wait_bound [of s' "turn_player t"] extra [OF Extra] by linarith
    ultimately show thesis
      using that [of ?r] step Extra extra [OF Extra] by simp
  qed
qed

lemma game_run_kind: "extras_granted (case k of Natural \<Rightarrow> r\<lparr>sched := s, active := p, naturals := ns\<rparr>
    | Extra \<Rightarrow> r\<lparr>sched := s, active := p, extras_played := e\<rparr>) = extras_granted r"
  by (cases k) simp_all

lemma turn_step_ok:
  assumes ok: "run_ok r" and step: "turn_step r op = Inr r'" and bound: "extras_granted r' \<le> u32_max"
  shows "run_ok r'"
proof (cases op)
  case (Grant player count timing)
  then obtain s where s: "schedule (sched r) (active r) player count timing = Inr s"
    and r': "r' = r\<lparr>sched := s, extras_granted := extras_granted r + count\<rparr>"
    using step by (auto simp: result_simps)
  have "owed (sched r) + count \<le> u32_max" using ok bound by (simp add: run_ok_def r')
  from schedule_keeps [OF _ s this] ok show ?thesis by (auto simp: run_ok_def r')
next
  case EndTurn
  have "extras_granted r' = extras_granted r"
    using step EndTurn by (auto simp: result_simps game_run_kind)
  then show ?thesis using end_turn_result [OF ok] step EndTurn bound by (metis sum.inject(2))
qed

lemma turn_step_granted: "turn_step r op = Inr r' \<Longrightarrow> extras_granted r \<le> extras_granted r'"
  by (cases op) (auto simp: result_simps game_run_kind)

lemma run_ok_reached:
  assumes "try_fold turn_step initial_run ops = Inr r" "extras_granted r \<le> u32_max"
  shows "run_ok r"
  using assms
proof (induction ops arbitrary: r rule: rev_induct)
  case Nil
  then show ?case by (simp add: run_ok_initial)
next
  case (snoc op ops)
  then obtain r0 where r0: "try_fold turn_step initial_run ops = Inr r0" "turn_step r0 op = Inr r"
    by (auto simp: try_fold_append result_simps)
  with snoc turn_step_granted [OF r0(2)] show ?case by (meson order_trans turn_step_ok)
qed

lemma run_until_none_owed:
  assumes "run_ok r" "extras_granted r \<le> u32_max" "owed (sched r) = 0 \<or> 3 * owed (sched r) + wait (sched r) (active r) \<le> n + 2"
  shows "\<exists>r'. try_fold turn_step r (replicate n EndTurn) = Inr r' \<and> run_ok r' \<and> extras_granted r' = extras_granted r \<and>
    owed (sched r') = 0"
  using assms
proof (induction n arbitrary: r)
  case 0
  then show ?case by auto
next
  case (Suc n)
  obtain r1 where r1: "turn_step r EndTurn = Inr r1" "run_ok r1" "extras_granted r1 = extras_granted r"
    "0 < owed (sched r) \<Longrightarrow>
      3 * owed (sched r1) + wait (sched r1) (active r1) < 3 * owed (sched r) + wait (sched r) (active r)"
    "owed (sched r) = 0 \<Longrightarrow> owed (sched r1) = 0" using end_turn_result [OF Suc.prems(1,2)] by blast
  have "owed (sched r1) = 0 \<or> 3 * owed (sched r1) + wait (sched r1) (active r1) \<le> n + 2"
    using r1(4,5) Suc.prems(3) by (cases "owed (sched r) = 0") auto
  with Suc.IH [OF r1(2)] r1(1,3) Suc.prems(2) show ?case by auto
qed

text \<open>
  What the turn schedule promises over the runs of a game, and the one place where it does not keep
  a promise of its own.
\<close>

text \<open>Two extra turns granted to each player, in different ways.\<close>

definition sample_ops :: "turn_op list" where
  "sample_ops = [Grant One 1 AfterCurrentTurn, EndTurn, Grant Two 2 DuringNextTurnSeries, EndTurn]"

definition sample_run :: game_run where
  "sample_run = \<lparr>sched = \<lparr>pending = [\<lparr>turn_player = Two, turn_kind = Extra\<rparr>, \<lparr>turn_player = Two, turn_kind = Extra\<rparr>],
       next_series_extras = [0, 0], after_current_extras = [0, 0], after_current_anchor = None,
       resume_natural_player = None\<rparr>,
     active = Two, naturals = [One, Two], extras_played = 1, extras_granted = 3\<rparr>"

lemmas run_eval = initial_run_def default_schedule_def schedule_def next_turn_def take_pending_def queue_extras_def
  move_preempted_def all_players_def start_natural_series_def extra_turns_def saturating_add_def u32_max_def owed_def
  upt_rec numeral_2_eq_2

lemma sample_run_reached: "try_fold turn_step initial_run sample_ops = Inr sample_run"
  by (simp add: sample_ops_def sample_run_def run_eval)

lemma sample_run_small: "extras_granted sample_run \<le> u32_max"
  by (simp add: sample_run_def u32_max_def)

text \<open>C39: In every run of a game, the natural turns alternate between the players from player one on,
  each granted extra turn is either played or still owed, and the end of a turn never panics.\<close>
theorem hs_turns_alternate_and_account:
  assumes "try_fold turn_step initial_run ops = Inr r" "extras_granted r \<le> u32_max"
  shows "hd (naturals r) = One \<and> successively (\<lambda>p q. q = opponent p) (naturals r) \<and>
    extras_played r + owed (sched r) = extras_granted r \<and> no_panic (turn_step r EndTurn)"
proof -
  have ok: "run_ok r" using run_ok_reached [OF assms] .
  obtain r' where "turn_step r EndTurn = Inr r'" using end_turn_result [OF ok assms(2)] by metis
  with ok show ?thesis by (simp add: run_ok_def del: turn_step.simps)
qed

theorem hs_turns_alternate_and_account_witness:
  "successively (\<lambda>p q. q = opponent p) (naturals sample_run) \<and> extras_played sample_run + owed (sched sample_run) = 3"
  using hs_turns_alternate_and_account [OF sample_run_reached sample_run_small] by (simp add: sample_run_def)

text \<open>Every granted extra turn is played: when \<open>n\<close> extra turns are owed and no more are granted, all of
  them have been played after \<open>3 * n\<close> ends of a turn.\<close>
theorem hs_extra_turns_are_played:
  assumes "try_fold turn_step initial_run ops = Inr r" "extras_granted r \<le> u32_max"
  shows "\<exists>r'. try_fold turn_step r (replicate (3 * owed (sched r)) EndTurn) = Inr r' \<and> owed (sched r') = 0 \<and>
    extras_played r' = extras_granted r"
proof -
  have ok: "run_ok r" using run_ok_reached [OF assms] .
  have "3 * owed (sched r) + wait (sched r) (active r) \<le> 3 * owed (sched r) + 2"
    using wait_bound by simp
  then obtain r' where r': "try_fold turn_step r (replicate (3 * owed (sched r)) EndTurn) = Inr r'" "run_ok r'"
    "extras_granted r' = extras_granted r" "owed (sched r') = 0"
    using run_until_none_owed [OF ok assms(2)] by blast
  then have "extras_played r' = extras_granted r" by (simp add: run_ok_def)
  with r' show ?thesis by blast
qed

theorem hs_extra_turns_are_played_witness:
  "\<exists>r'. try_fold turn_step sample_run (replicate 6 EndTurn) = Inr r' \<and> extras_played r' = 3"
  using hs_extra_turns_are_played [OF sample_run_reached sample_run_small] by (auto simp: sample_run_def owed_def)

section \<open>Late grants\<close>









end
