(* ===== verification/Hs_Rng.thy ===== *)
theory Hs_Rng imports Prelude "HOL-Library.Word" begin

unbundle bit_operations_syntax

text \<open>
  The deterministic random numbers of the Hearthstone simulator (\<open>core/rng.rs\<close>,
  \<open>simulator/rng.rs\<close>): SplitMix64 on 64 bit words, and the choice of a game entity. Of the world
  only the generator and the canonical trace matter here; trace entries of other kinds are a type
  parameter.
\<close>

section \<open>The generator\<close>

definition rng_algorithm_version :: nat where "rng_algorithm_version = 1"

record deterministic_rng =
  rng_state :: "64 word"
  rng_position :: nat

record rng_snapshot =
  algorithm_version :: nat
  snapshot_state :: "64 word"
  snapshot_position :: nat

definition rng_new :: "64 word \<Rightarrow> deterministic_rng" where
  "rng_new seed = \<lparr>rng_state = seed, rng_position = 0\<rparr>"

definition rng_snapshot_of :: "deterministic_rng \<Rightarrow> rng_snapshot" where
  "rng_snapshot_of r =
     \<lparr>algorithm_version = rng_algorithm_version, snapshot_state = rng_state r, snapshot_position = rng_position r\<rparr>"

definition rng_from_snapshot :: "rng_snapshot \<Rightarrow> deterministic_rng option" where
  "rng_from_snapshot s =
     (if algorithm_version s \<noteq> rng_algorithm_version then None
      else Some \<lparr>rng_state = snapshot_state s, rng_position = snapshot_position s\<rparr>)"

definition splitmix_gamma :: "64 word" where "splitmix_gamma = 0x9e3779b97f4a7c15"

text \<open>The output function of the generator.\<close>

definition splitmix_output :: "64 word \<Rightarrow> 64 word" where
  "splitmix_output state =
     (let value = state;
          value = (value XOR drop_bit 30 value) * 0xbf58476d1ce4e5b9;
          value = (value XOR drop_bit 27 value) * 0x94d049bb133111eb
      in value XOR drop_bit 31 value)"

text \<open>The position is a \<open>u64\<close> and counts the draws; its overflow is a panic.\<close>

definition u64_limit :: nat where "u64_limit = 18446744073709551615"

definition next_u64 :: "deterministic_rng \<Rightarrow> (unit, 64 word \<times> deterministic_rng) outcome" where
  "next_u64 r =
     (let state = rng_state r + splitmix_gamma in
      if rng_position r < u64_limit
      then Inr (splitmix_output state, r\<lparr>rng_state := state, rng_position := rng_position r + 1\<rparr>)
      else panic)"

section \<open>The output function is a permutation\<close>

lemma xorshift_inj:
  fixes x y :: "64 word"
  assumes "x XOR drop_bit k x = y XOR drop_bit k y" "0 < k"
  shows "x = y"
proof (rule bit_eqI)
  fix n
  show "bit x n = bit y n"
  proof (induction "64 - n" arbitrary: n rule: less_induct)
    case less
    show ?case
    proof (cases "n < 64")
      case True
      then have "bit x (k + n) = bit y (k + n)" using less.hyps [of "k + n"] assms(2) by simp
      moreover have "bit (x XOR drop_bit k x) n = bit (y XOR drop_bit k y) n" using assms(1) by simp
      ultimately show ?thesis
        by (cases "bit x n"; cases "bit y n"; cases "bit y (k + n)") (simp_all add: bit_xor_iff bit_drop_bit_eq)
    next
      case False
      then show ?thesis using bit_imp_le_length [of x n] bit_imp_le_length [of y n] by auto
    qed
  qed
qed

lemma mult_inj:
  fixes x y c d :: "64 word"
  assumes "c * d = 1" "x * c = y * c"
  shows "x = y"
proof -
  have "x * c * d = y * c * d" using assms(2) by simp
  then show ?thesis using assms(1) by (simp add: mult.assoc)
qed

lemma splitmix_inverses:
  "(0xbf58476d1ce4e5b9 :: 64 word) * 10871156337175269513 = 1"
  "(0x94d049bb133111eb :: 64 word) * 3573116690164977347 = 1"
  "splitmix_gamma * 17428512612931826493 = 1"
  by (simp_all add: splitmix_gamma_def)

lemma splitmix_output_inj: "splitmix_output x = splitmix_output y \<Longrightarrow> x = y"
  unfolding splitmix_output_def Let_def
  by (drule xorshift_inj, simp, drule mult_inj [OF splitmix_inverses(2)], drule xorshift_inj, simp,
      drule mult_inj [OF splitmix_inverses(1)], drule xorshift_inj, simp_all)

fun rng_run :: "nat \<Rightarrow> deterministic_rng \<Rightarrow> (unit, deterministic_rng) outcome" where
  "rng_run 0 r = Inr r"
| "rng_run (Suc n) r = and_then (next_u64 r) (\<lambda>(_, r'). rng_run n r')"

lemma rng_run_state:
  "rng_run n r = Inr r' \<Longrightarrow> rng_state r' = rng_state r + of_nat n * splitmix_gamma \<and> rng_position r' = rng_position r + n"
proof (induction n arbitrary: r)
  case (Suc n)
  then obtain v r1 where "next_u64 r = Inr (v, r1)" "rng_run n r1 = Inr r'" by (auto simp: result_simps)
  with Suc.IH [of r1] show ?case
    by (auto simp: next_u64_def Let_def algebra_simps split: if_splits)
qed simp

lemma word_of_nat_inj:
  "m < 2 ^ 64 \<Longrightarrow> n < 2 ^ 64 \<Longrightarrow> (of_nat m :: 64 word) = of_nat n \<Longrightarrow> m = n"
  by (simp add: word_of_nat_eq_iff take_bit_nat_eq_self)

section \<open>Choices\<close>

datatype 't trace_entry = RngChoice nat "nat list" nat | OtherEntry 't

record 't rng_world =
  rng :: deterministic_rng
  trace :: "'t trace_entry list"

definition choose_game_entity ::
  "'t rng_world \<Rightarrow> nat list \<Rightarrow> (unit, nat option \<times> 't rng_world) outcome" where
  "choose_game_entity w candidates =
     (let candidates = remdups_adj (sort candidates) in
      if candidates = [] then Inr (None, w)
      else
      let position = rng_position (rng w) in
      and_then (next_u64 (rng w)) (\<lambda>(v, r).
      and_then (index candidates (unat v mod length candidates)) (\<lambda>selected.
      Inr (Some selected, w\<lparr>rng := r, trace := trace w @ [RngChoice position candidates selected]\<rparr>))))"

lemma distinct_remdups_adj: "sorted xs \<Longrightarrow> distinct (remdups_adj xs)"
proof (induction xs rule: remdups_adj.induct)
  case (3 x y xs)
  then show ?case by (cases "x = y") auto
qed simp_all

lemma sorted_candidates: "remdups_adj (sort xs) = sorted_list_of_set (set xs)"
  by (rule sorted_distinct_set_unique) (simp_all add: distinct_remdups_adj)

section \<open>Properties\<close>

text \<open>The choice of a game entity depends on the set of candidates only, not on their order or
  repetition; it selects one of them, draws once from the generator, and records the draw with the
  sorted candidates. Without candidates nothing is drawn or recorded.\<close>
theorem hs_choice_is_order_insensitive:
  assumes "rng_position (rng w) < u64_limit"
  shows "(set cs = set ds \<longrightarrow> choose_game_entity w cs = choose_game_entity w ds) \<and>
    (cs = [] \<longrightarrow> choose_game_entity w cs = Inr (None, w)) \<and>
    (cs \<noteq> [] \<longrightarrow> (\<exists>e v r. e \<in> set cs \<and> next_u64 (rng w) = Inr (v, r) \<and>
       choose_game_entity w cs = Inr (Some e, w\<lparr>rng := r,
         trace := trace w @ [RngChoice (rng_position (rng w)) (sorted_list_of_set (set cs)) e]\<rparr>)))"
proof -
  have "\<exists>e v r. e \<in> set cs \<and> next_u64 (rng w) = Inr (v, r) \<and>
       choose_game_entity w cs = Inr (Some e, w\<lparr>rng := r,
         trace := trace w @ [RngChoice (rng_position (rng w)) (sorted_list_of_set (set cs)) e]\<rparr>)" if "cs \<noteq> []"
  proof -
    let ?xs = "sorted_list_of_set (set cs)"
    obtain v r where draw: "next_u64 (rng w) = Inr (v, r)" using assms by (simp add: next_u64_def Let_def)
    have ne: "?xs \<noteq> []" using that by simp
    let ?e = "?xs ! (unat v mod length ?xs)"
    have bound: "unat v mod length ?xs < length ?xs" using ne by (metis length_greater_0_conv mod_less_divisor)
    then have "?e \<in> set ?xs" by (rule nth_mem)
    then have "?e \<in> set cs" by simp
    moreover have "choose_game_entity w cs = Inr (Some ?e, w\<lparr>rng := r,
         trace := trace w @ [RngChoice (rng_position (rng w)) ?xs ?e]\<rparr>)"
      using ne bound draw by (simp add: choose_game_entity_def sorted_candidates Let_def)
    ultimately show ?thesis using draw by blast
  qed
  then show ?thesis by (simp add: choose_game_entity_def sorted_candidates)
qed

theorem hs_choice_is_order_insensitive_witness:
  "choose_game_entity \<lparr>rng = rng_new 42, trace = [] :: unit trace_entry list\<rparr> [9, 2, 5] =
   choose_game_entity \<lparr>rng = rng_new 42, trace = []\<rparr> [5, 9, 2, 2]"
  using hs_choice_is_order_insensitive [of "\<lparr>rng = rng_new 42, trace = [] :: unit trace_entry list\<rparr>" "[9, 2, 5]" "[5, 9, 2, 2]"]
  by (simp add: rng_new_def u64_limit_def insert_commute)

text \<open>The generator never repeats a number: two draws at different positions of a game give
  different numbers, for as long as the position counter lasts.\<close>
theorem hs_draws_never_repeat:
  assumes "rng_run m (rng_new seed) = Inr r" "next_u64 r = Inr (v, r')"
    and "rng_run n (rng_new seed) = Inr s" "next_u64 s = Inr (u, s')" "m \<noteq> n"
  shows "v \<noteq> u"
proof
  assume "v = u"
  have r: "rng_state r = seed + of_nat m * splitmix_gamma" "rng_position r = m"
    and s: "rng_state s = seed + of_nat n * splitmix_gamma" "rng_position s = n"
    using rng_run_state [OF assms(1)] rng_run_state [OF assms(3)] by (simp_all add: rng_new_def)
  have "m < u64_limit" "n < u64_limit"
    using assms(2,4) r(2) s(2) by (simp_all add: next_u64_def Let_def split: if_splits)
  then have small: "m < 2 ^ 64" "n < 2 ^ 64" by (simp_all add: u64_limit_def)
  have "splitmix_output (rng_state r + splitmix_gamma) = splitmix_output (rng_state s + splitmix_gamma)"
    using assms(2,4) \<open>v = u\<close> by (simp add: next_u64_def Let_def split: if_splits)
  then have "rng_state r + splitmix_gamma = rng_state s + splitmix_gamma" by (rule splitmix_output_inj)
  then have "(of_nat m :: 64 word) * splitmix_gamma = of_nat n * splitmix_gamma" using r(1) s(1) by simp
  then have "(of_nat m :: 64 word) = of_nat n" by (rule mult_inj [OF splitmix_inverses(3)])
  then show False using word_of_nat_inj small assms(5) by blast
qed

theorem hs_draws_never_repeat_witness:
  "splitmix_output (7 + splitmix_gamma) \<noteq> splitmix_output (7 + splitmix_gamma + splitmix_gamma)"
proof -
  let ?next = "\<lambda>r. r\<lparr>rng_state := rng_state r + splitmix_gamma, rng_position := rng_position r + 1\<rparr>"
  let ?r = "rng_new 7"
  have "rng_run 0 ?r = Inr ?r" "next_u64 ?r = Inr (splitmix_output (7 + splitmix_gamma), ?next ?r)"
    "rng_run 1 ?r = Inr (?next ?r)"
    "next_u64 (?next ?r) = Inr (splitmix_output (7 + splitmix_gamma + splitmix_gamma), ?next (?next ?r))"
    by (simp_all add: next_u64_def rng_new_def u64_limit_def Let_def)
  from hs_draws_never_repeat [OF this] show ?thesis by simp
qed

lemma rng_snapshot_roundtrip:
  "rng_from_snapshot (rng_snapshot_of r) = Some r"
  "rng_from_snapshot s = Some r \<longleftrightarrow> rng_snapshot_of r = s"
  by (cases r; cases s; auto simp: rng_from_snapshot_def rng_snapshot_of_def)+

end
