(* ===== verification/Hs_Types.thy ===== *)
theory Hs_Types imports Hs_Turns Hs_Rng Rust_Text Ordered_Map begin

text \<open>
  The data of the Hearthstone simulator (\<open>hearthstone_simulator/core\<close>): zones, the components of
  a game entity, cards and effects, triggers, events, resolution operations, the canonical trace
  and the errors. The players and the turn schedule are in \<open>Hs_Turns\<close>, the generator in \<open>Hs_Rng\<close>.

  Identities (\<open>GameEntityId\<close>, \<open>ResolutionId\<close>, \<open>EventId\<close>, slots, choices) are numbers; an \<open>i32\<close> is
  an \<open>int\<close> with its range written out where the source can leave it. A constructor is renamed
  only where two enumerations of the source use the same name, or where HOL has it.
\<close>

type_synonym game_entity_id = nat
type_synonym resolution_id = nat
type_synonym event_id = nat
type_synonym event_slot_id = nat
type_synonym draw_result_slot_id = nat
type_synonym choice_id = nat

section \<open>Zones\<close>

datatype zone = Deck | Hand | Play | SecretZone | Graveyard | SetAside | RemovedFromGame

definition all_zones :: "zone list" where
  "all_zones = [Deck, Hand, Play, SecretZone, Graveyard, SetAside, RemovedFromGame]"

datatype zone_movement_kind =
    NormalMove | DrawMove | BurnMove | ForcePlay | DeathMove | DiscardMove | DetachEnchantment

record zone_move_request =
  move_entity :: game_entity_id
  destination_controller :: player_id
  destination :: zone
  move_position :: "nat option"
  move_kind :: zone_movement_kind

datatype zone_move_outcome =
    Moved zone player_id nat
  | PreventedByFullZone
  | FullZoneRemoval zone player_id nat

datatype zone_error =
    ZoneEntityNotFound game_entity_id
  | MissingIndexEntry game_entity_id zone
  | Full player_id zone
  | InvalidPosition zone nat nat

section \<open>Components of a game entity\<close>

datatype entity_kind =
    PlayerKind | Hero | Minion | Spell | Weapon | HeroCard | HeroPower | Location | Permanent
  | Dormant | Enchantment | SecretKind | Quest | Sidequest

datatype hero_class =
    DeathKnight | DemonHunter | Druid | Hunter | Mage | Paladin | Priest | Rogue | Shaman
  | Warlock | Warrior | Neutral

datatype keyword =
    Charge | DivineShield | Frozen | Immune | Lifesteal | Poisonous | Rush | Stealth | Taunt | Windfury

record base_stats =
  base_attack :: int
  base_health :: int

record current_stats =
  attack :: int
  maximum_health :: int

record attack_state =
  attacks_this_turn :: nat
  readiness_blocked :: bool

record hero_power_state =
  uses_this_turn :: nat
  exhausted :: bool

record weapon_state =
  base_durability :: int
  durability :: int

record player =
  player_identity :: player_id
  player_name :: rstring
  maximum_resources :: int
  used_resources :: int
  temporary_resources :: int
  pending_overload :: int
  locked_overload :: int
  resources_spent :: int
  fatigue :: nat

section \<open>Enchantments and auras\<close>

datatype cost_operation = SetCost | AddCost | MultiplyCost

record cost_modifier =
  cost_operation :: cost_operation
  cost_value :: int
  cost_silence_removable :: bool

datatype enchantment_duration = PermanentDuration | EndOfTurn player_id | EndOfTurnSeries player_id

record keyword_modifier =
  modified_keyword :: keyword
  granted :: bool
  keyword_silence_removable :: bool

record stat_modifier =
  attack_change :: int
  health_change :: int
  stat_silence_removable :: bool

datatype aura_target =
    FriendlyMinionsAura | OtherFriendlyMinionsAura | EnemyMinionsAura | AllMinionsAura
  | FriendlyCharactersAura | OtherFriendlyCharactersAura | EnemyCharactersAura | AllCharactersAura
  | ControllerPlayerAura | OpponentPlayerAura | BothPlayersAura

datatype other_aura_modifier = OtherImmune | OtherHeroPowerDamage int

record aura_definition =
  aura_targets :: aura_target
  aura_attack :: int
  aura_health :: int
  aura_other :: "other_aura_modifier list"

datatype player_audience = ToController | ToOpponent | ToBoth

datatype continuous_modifier = SpellDamage int

record continuous_effect_definition =
  recipients :: player_audience
  continuous_modifier :: continuous_modifier

datatype aura_modifier =
    AttackModifier int | MaximumHealthModifier int | ImmuneModifier | HeroPowerDamageModifier int

record aura_application =
  provider :: game_entity_id
  aura_index :: nat
  aura_modifier :: aura_modifier

datatype aura_category = HealthCategory | AttackCategory | OtherCategory

datatype aura_refresh_plan = PlayedProvider game_entity_id | SummonRefresh

section \<open>Targets, players and values\<close>

datatype target_audience = Friendly | Enemy | Either
datatype target_kind = MinionTarget | HeroTarget | CharacterTarget

record target_filter =
  audience :: target_audience
  filter_kind :: target_kind

datatype target_requirement =
    NoTarget | RequiredTarget target_filter | OptionalTarget target_filter | RequiredIfAvailable target_filter

datatype player_selector = ControllerPlayer | OpponentPlayer | ThePlayer player_id

datatype selector =
    SourceEntity | DrawnCard | AttachedEntity | DeclaredTarget | TheEntity game_entity_id
  | FriendlyMinions | EnemyMinions | AllMinions
  | FriendlyCharacters | EnemyCharacters | AllCharacters
  | InZone player_selector zone
  | Random selector

datatype value_expression = Constant int | SourceAttack | TargetCount | DrawnCardCost
datatype event_value_operation = ReplaceValue | AddValue | MultiplyValue
datatype effect_origin = OtherOrigin | SpellOrigin | HeroPowerOrigin

record effect_context =
  source :: "game_entity_id option"
  controller :: player_id
  declared_target :: "game_entity_id option"
  drawn_card :: "game_entity_id option"
  origin :: effect_origin

section \<open>Events and triggers\<close>

datatype event_kind =
    SequenceStarted | CardPlayed | CardDrawn | Summoned | AfterPlayAndSummon | AfterPlay
  | ProposedDamage | DamageEvent | ProposedHealing | HealingEvent | AttackEvent | AfterAttack
  | AfterHeroPower | WeaponEquipped | DeathEvent | TurnStarted | TurnEnded

record event_context =
  event_kind :: event_kind
  event_source :: "game_entity_id option"
  event_targets :: "game_entity_id list"
  event_controller :: player_id
  proposed_value :: "int option"
  actual_value :: "int option"
  simultaneous_ordinal :: nat

datatype condition_timing = PreCheck | QueueTime | ResolutionTime

datatype trigger_condition =
    Always
  | SourceInPlay
  | SourceInZone zone
  | EventValueAtLeast int
  | EventSourceIsSelf
  | EventTargetsSelf
  | EventTargetsAttachedEntity
  | EventControllerIs player_selector
  | ControllerIs player_id
  | MinimumEntityCount selector nat

record timed_condition =
  timing :: condition_timing
  condition :: trigger_condition

datatype source_eligibility_policy = MustExist | MustRemainInEligibleZone | RememberedSource

datatype wounded_target_policy =
    ExcludeMortallyWounded | IncludeMortallyWounded | IncludePendingDestroy

section \<open>Cards and effects\<close>

datatype hero_class_policy = KeepClass | ReplaceClass hero_class
datatype hero_health_policy = PreserveHealth | SetHealth int int
datatype draw_continuation_policy = RequireCard | RunWithoutCard
datatype transform_kind = SpellTransform | NonSpellTransform | PlayedSelf
datatype copy_state_policy = CurrentForm | InPlayState

datatype effect =
    Choose choice_id player_selector "effect_choice_option list"
  | DealDamage selector value_expression
  | Heal selector value_expression
  | ModifyEventValue event_value_operation value_expression
  | Destroy selector
  | Draw player_selector nat
  | DrawThen player_selector "effect list" draw_continuation_policy
  | Move selector player_selector zone zone_movement_kind
  | GainResource player_selector int bool
  | ScheduleExtraTurns player_selector nat extra_turn_timing
  | ReplaceHero player_selector hero_replacement
  | Summon player_selector card "nat option"
  | AttachStatModifier selector stat_modifier enchantment_duration
  | AttachKeywordModifier selector keyword_modifier enchantment_duration
  | AttachCostModifier selector cost_modifier enchantment_duration
  | AttachContinuousEffect selector continuous_effect_definition bool enchantment_duration
  | AttachTriggerEnchantment selector "trigger_definition list" enchantment_duration bool
  | Silence selector
  | Transform selector card transform_kind
  | Copy selector player_selector zone "nat option"
  | Native rstring
  | Sequence "effect list"
and effect_choice_option = EffectChoiceOption (effect_option_id: choice_id) (option_effects: "effect list")
and trigger_definition =
  TriggerDefinition (trigger_event: event_kind) (eligible_zones: "zone list")
    (trigger_conditions: "timed_condition list") (source_eligibility: source_eligibility_policy)
    (trigger_priority: int) (wounded_target_policy: wounded_target_policy) (effect_program: "effect list")
and card =
  Card (definition_id: rstring) (card_name: rstring) (card_kind: entity_kind) (mana_cost: int)
    (card_attack: int) (card_health: int) (card_durability: int) (card_keywords: "keyword set")
    (card_effects: "effect list") (card_triggers: "trigger_definition list")
    (card_auras: "aura_definition list") (card_continuous_effects: "continuous_effect_definition list")
    (card_targeting: target_requirement)
and hero_replacement =
  HeroReplacement (new_hero: card) (new_hero_power: card) (armor_gain: int)
    (health_policy: hero_health_policy) (class_policy: hero_class_policy) (new_weapon: "card option")

record card_runtime =
  base_cost :: int
  cost :: int
  program :: "effect list"
  targeting :: target_requirement

record trigger_order_key =
  player_bucket :: nat
  zone_bucket :: nat
  order_priority :: int
  order_play_order :: nat
  order_source :: game_entity_id
  tie_breaker :: nat

record trigger_seed =
  seed_source :: game_entity_id
  seed_index :: nat
  seed_definition :: trigger_definition
  seed_controller :: player_id
  seed_zone :: zone
  seed_play_order :: nat

record trigger_candidate =
  candidate_source :: game_entity_id
  candidate_event :: event_id
  candidate_index :: nat
  candidate_definition :: trigger_definition
  candidate_controller :: player_id
  candidate_order :: trigger_order_key

end
