(* ===== verification/Hs_Work.thy ===== *)
theory Hs_Work imports Hs_Types begin

text \<open>
  The work of the Hearthstone resolver (\<open>core/resolver.rs\<close>), the canonical trace
  (\<open>core/trace.rs\<close>), deaths, the rule set, the state of the game, actions, errors, and the
  constructors of synthetic cards (\<open>core/model.rs\<close>).

  Error texts and trace texts keep their constant part; the rejection of an action is traced with
  the error itself.
\<close>

section \<open>Operations\<close>

datatype phase_boundary_plan = OrdinaryBoundary | ForcedDeath

datatype sequence_step =
    PlayCard player_id game_entity_id "game_entity_id option" "nat option"
  | UseHeroPower player_id game_entity_id "game_entity_id option"
  | FinishHeroPower game_entity_id
  | Attack player_id game_entity_id game_entity_id
  | PrepareCombatDamage player_id game_entity_id game_entity_id
  | FinishEquip game_entity_id
  | ConsumeDurability player_id game_entity_id
  | BreakAttackStealth game_entity_id
  | FinishAttack player_id game_entity_id game_entity_id
  | EndTurnStep player_id
  | ThawCharacters player_id
  | AdvanceTurn player_id
  | StartTurn player_id scheduled_turn_kind
  | Concede player_id

record subject_guard =
  guard_subject :: game_entity_id
  guard_zone :: zone

text \<open>\<open>DamageRequest\<close> and \<open>HealingRequest\<close> have the same fields.\<close>

record health_request =
  request_source :: "game_entity_id option"
  request_target :: game_entity_id
  proposed :: int

record draw_request =
  draw_player :: player_id
  draw_source :: "game_entity_id option"
  draw_slot :: draw_result_slot_id

datatype draw_outcome = Drawn game_entity_id | Burned game_entity_id | Fatigue int

record copy_request =
  copy_source :: game_entity_id
  originating_source :: "game_entity_id option"
  copy_controller :: player_id
  copy_destination :: zone
  copy_board_index :: "nat option"
  copy_policy :: copy_state_policy

datatype resolution_op =
    RunSequenceStep sequence_step
  | RunGuardedSequenceStep "subject_guard list" sequence_step
  | RunPhaseBoundary phase_boundary_plan
  | RefreshAuras aura_refresh_plan
  | CheckOutcome
  | PrepareEvent event_context
  | ResolveEvent event_id
  | FinishEvent event_id
  | ResolveEventSlot event_slot_id
  | AttemptTrigger trigger_candidate
  | FinishTrigger resolution_id game_entity_id
  | RunPlayEffect resolution_id effect_context effect
  | RunEffect effect_context effect "event_id option"
  | ProcessDamageBatch "health_request list"
  | ProcessDamage health_request event_slot_id nat
  | ApplyDamage health_request event_id event_slot_id nat
  | ProcessHealingBatch "health_request list"
  | ProcessHealing health_request event_slot_id nat
  | ApplyHealing health_request event_id event_slot_id nat
  | ProcessDraw draw_request
  | FinishDraw draw_result_slot_id
  | ContinueDraw draw_result_slot_id effect_context "effect list" draw_continuation_policy
  | TransformEntity "resolution_id option" game_entity_id "game_entity_id option" card transform_kind
  | FinishPlayedSelfTransform game_entity_id "trigger_seed list"
  | CopyEntity copy_request
  | RequestChoice choice_request
and choice_option = ChoiceOption (option_id: choice_id) (option_operations: "resolution_op list")
and choice_request =
  ChoiceRequest (choice_request_id: choice_id) (choice_player: player_id) (choice_options: "choice_option list")

fun op_kind :: "resolution_op \<Rightarrow> string" where
  "op_kind (RunSequenceStep _) = ''RunSequenceStep''"
| "op_kind (RunGuardedSequenceStep _ _) = ''RunGuardedSequenceStep''"
| "op_kind (RunPhaseBoundary _) = ''RunPhaseBoundary''"
| "op_kind (RefreshAuras _) = ''RefreshAuras''"
| "op_kind CheckOutcome = ''CheckOutcome''"
| "op_kind (PrepareEvent _) = ''PrepareEvent''"
| "op_kind (ResolveEvent _) = ''ResolveEvent''"
| "op_kind (FinishEvent _) = ''FinishEvent''"
| "op_kind (ResolveEventSlot _) = ''ResolveEventSlot''"
| "op_kind (AttemptTrigger _) = ''AttemptTrigger''"
| "op_kind (FinishTrigger _ _) = ''FinishTrigger''"
| "op_kind (RunPlayEffect _ _ _) = ''RunPlayEffect''"
| "op_kind (RunEffect _ _ _) = ''RunEffect''"
| "op_kind (ProcessDamageBatch _) = ''ProcessDamageBatch''"
| "op_kind (ProcessDamage _ _ _) = ''ProcessDamage''"
| "op_kind (ApplyDamage _ _ _ _) = ''ApplyDamage''"
| "op_kind (ProcessHealingBatch _) = ''ProcessHealingBatch''"
| "op_kind (ProcessHealing _ _ _) = ''ProcessHealing''"
| "op_kind (ApplyHealing _ _ _ _) = ''ApplyHealing''"
| "op_kind (ProcessDraw _) = ''ProcessDraw''"
| "op_kind (FinishDraw _) = ''FinishDraw''"
| "op_kind (ContinueDraw _ _ _ _) = ''ContinueDraw''"
| "op_kind (TransformEntity _ _ _ _ _) = ''TransformEntity''"
| "op_kind (FinishPlayedSelfTransform _ _) = ''FinishPlayedSelfTransform''"
| "op_kind (CopyEntity _) = ''CopyEntity''"
| "op_kind (RequestChoice _) = ''RequestChoice''"

record stacked_resolution_op =
  op_id :: resolution_id
  operation :: resolution_op

record prepared_event =
  event_context :: event_context
  prechecked_triggers :: "trigger_seed list option"
  candidates :: "trigger_candidate list option"

text \<open>
  The stack is the list of the source: the top is its last element. A prepared event slot and a
  draw result slot hold at most one event or outcome.
\<close>

record resolution_work =
  stack :: "stacked_resolution_op list"
  remaining_budget :: nat
  next_resolution_id :: nat
  next_event_id :: nat
  next_event_slot_id :: nat
  next_draw_result_slot_id :: nat
  events :: "(event_id, prepared_event) btree_map"
  event_slots :: "(event_slot_id, event_id option) btree_map"
  draw_result_slots :: "(draw_result_slot_id, draw_outcome option) btree_map"
  play_scopes :: "(resolution_id, game_entity_id) btree_map"
  durability_payers :: "(resolution_id, player_id \<times> game_entity_id) btree_map"
  pending_played_self_transforms :: "game_entity_id set"
  pending_choice :: "choice_request option"
  sequence_active :: bool

definition empty_work :: resolution_work where
  "empty_work = \<lparr>stack = [], remaining_budget = 0, next_resolution_id = 0, next_event_id = 0,
     next_event_slot_id = 0, next_draw_result_slot_id = 0, events = [], event_slots = [],
     draw_result_slots = [], play_scopes = [], durability_payers = [],
     pending_played_self_transforms = {}, pending_choice = None, sequence_active = False\<rparr>"

section \<open>The game\<close>

record death_record =
  dead_entity :: game_entity_id
  death_controller :: player_id
  death_kind :: entity_kind
  death_play_order :: nat
  remembered_zone_position :: nat
  death_ordinal :: nat
  turn_of_death :: nat

datatype simulation_status = SettingUp | AwaitingAction | Resolving | AwaitingChoice | Complete
datatype game_outcome = Winner player_id | DrawnGame

record game_state =
  active_player :: player_id
  turn_number :: nat
  game_outcome :: "game_outcome option"
  status :: simulation_status

definition default_game_state :: game_state where
  "default_game_state = \<lparr>active_player = One, turn_number = 1, game_outcome = None, status = SettingUp\<rparr>"

record weapon_equipment =
  active_weapon :: "player_id \<rightharpoonup> game_entity_id"
  pending_weapons :: "(game_entity_id, game_entity_id option) btree_map"

datatype ruleset_id = AdvancedRulebook2026_06_26

definition supported_revision :: nat where "supported_revision = 913067"

record ruleset =
  ruleset_identity :: ruleset_id
  rulebook_revision :: nat
  board_limit :: nat
  hand_limit :: nat
  deck_limit :: nat
  secret_limit :: nat
  hero_limit :: nat
  weapon_limit :: nat
  hero_power_limit :: nat
  quest_limit :: nat
  maximum_mana :: int
  resolution_budget :: nat

definition default_ruleset :: ruleset where
  "default_ruleset = \<lparr>ruleset_identity = AdvancedRulebook2026_06_26, rulebook_revision = supported_revision,
     board_limit = 7, hand_limit = 10, deck_limit = 99, secret_limit = 5, hero_limit = 1,
     weapon_limit = 1, hero_power_limit = 1, quest_limit = 1, maximum_mana = 10, resolution_budget = 100000\<rparr>"

definition starting_health :: int where "starting_health = 30"

fun zone_rank :: "zone \<Rightarrow> nat option" where
  "zone_rank Deck = Some 0"
| "zone_rank Hand = Some 1"
| "zone_rank Play = Some 2"
| "zone_rank Graveyard = Some 3"
| "zone_rank _ = None"

definition resets_runtime_state :: "zone_movement_kind \<Rightarrow> zone \<Rightarrow> zone \<Rightarrow> bool" where
  "resets_runtime_state kind from to =
     (if kind = DeathMove then True
      else case (zone_rank from, zone_rank to) of
        (Some f, Some t) \<Rightarrow> t < f
      | _ \<Rightarrow> False)"

datatype game_action =
    PlayCardAction player_id game_entity_id "game_entity_id option" "nat option" "choice_id option"
  | UseHeroPowerAction player_id game_entity_id "game_entity_id option"
  | AttackAction player_id game_entity_id game_entity_id
  | EndTurnAction player_id
  | ConcedeAction player_id

fun action_player :: "game_action \<Rightarrow> player_id" where
  "action_player (PlayCardAction p _ _ _ _) = p"
| "action_player (UseHeroPowerAction p _ _) = p"
| "action_player (AttackAction p _ _) = p"
| "action_player (EndTurnAction p) = p"
| "action_player (ConcedeAction p) = p"

fun action_label :: "game_action \<Rightarrow> string" where
  "action_label (PlayCardAction _ _ _ _ _) = ''PlayCard''"
| "action_label (UseHeroPowerAction _ _ _) = ''UseHeroPower''"
| "action_label (AttackAction _ _ _) = ''Attack''"
| "action_label (EndTurnAction _) = ''EndTurn''"
| "action_label (ConcedeAction _) = ''Concede''"

section \<open>Errors\<close>

datatype resolution_error =
    BudgetExhausted "resolution_id option"
  | AlreadyResolving
  | MissingEvent event_id
  | MissingEventSlot event_slot_id
  | MissingDrawResultSlot draw_result_slot_id
  | DrawResultSlotAlreadyFilled draw_result_slot_id
  | EmptyDrawResultSlot draw_result_slot_id
  | NoPendingChoice
  | InvalidChoice choice_id

datatype simulation_error =
    GameOver
  | NotAwaitingAction
  | NotPlayersTurn player_id
  | PlayerNotFound player_id
  | EntityNotFound game_entity_id
  | NotControlled game_entity_id
  | WrongZone game_entity_id zone
  | NotPlayable game_entity_id
  | NotActiveHeroPower game_entity_id
  | HeroPowerExhausted game_entity_id
  | MissingTarget game_entity_id
  | UnexpectedTarget game_entity_id
  | InvalidTarget game_entity_id game_entity_id
  | UnsupportedActionChoice choice_id
  | UnexpectedBoardPosition game_entity_id
  | InvalidHeroReplacement string
  | InvalidTriggerEnchantment string
  | InvalidTransformation string
  | NotEnoughMana player_id int int
  | BoardFull player_id
  | CannotAttack game_entity_id
  | InvalidDefender game_entity_id
  | MissingActionResult
  | ResolutionFailed resolution_error
  | ZoneFailed zone_error
  | NativeEffectAlreadyRegistered rstring
  | NativeEffectNotRegistered rstring
  | NativeEffectFailed rstring
  | NoModifiableEventValue
  | CheckpointFailed string
  | Invariant string

section \<open>The canonical trace\<close>

datatype trace_entry =
    ActionAccepted player_id string
  | ActionRejected player_id simulation_error
  | OperationPopped resolution_id string
  | SequenceStepSkipped sequence_step game_entity_id zone "zone option"
  | EventCreated event_id event_kind "game_entity_id option" "game_entity_id list" "int option" "int option"
  | TriggerSnapshot event_id "trigger_candidate list"
  | EventValueChanged event_id event_value_operation int int
  | TriggerAborted resolution_id game_entity_id
  | TriggerResolved resolution_id game_entity_id
  | ZoneMoved game_entity_id zone zone
  | DrawResolved player_id "game_entity_id option" draw_outcome
  | EntityTransformed game_entity_id rstring rstring transform_kind
  | EntityCopied game_entity_id game_entity_id copy_state_policy
  | AuraUpdated game_entity_id aura_category "aura_application list"
  | ResourceSpent player_id int
  | DamageTraced "game_entity_id option" game_entity_id int int
  | HealingTraced "game_entity_id option" game_entity_id int int
  | WeaponDurability game_entity_id int int
  | EntityDied game_entity_id
  | HeroDefeated game_entity_id player_id
  | HeroReplaced player_id game_entity_id game_entity_id
  | HeroPowerReplaced player_id "game_entity_id option" game_entity_id
  | DeathPhaseQueued "game_entity_id list"
  | ChoiceRequested choice_id player_id
  | ChoiceAnswered choice_id choice_id
  | ExtraTurnsScheduled player_id nat extra_turn_timing
  | TemporaryEffectExpired game_entity_id
  | TurnChanged player_id nat scheduled_turn_kind
  | OutcomeTraced "player_id option"
  | RngChoiceTraced nat "game_entity_id list" game_entity_id

section \<open>Synthetic cards\<close>

definition synthetic_definition_id :: "rstring \<Rightarrow> rstring" where
  "synthetic_definition_id name =
     lit ''synthetic:'' @
     map (\<lambda>c. if is_ascii_lowercase c \<or> is_ascii_digit c then c
              else if 65 \<le> c \<and> c \<le> 90 then c + 32 else 95) name"

definition non_minion :: "rstring \<Rightarrow> entity_kind \<Rightarrow> int \<Rightarrow> card" where
  "non_minion name kind mana = Card (synthetic_definition_id name) name kind mana 0 0 0 {} [] [] [] [] NoTarget"

definition card_minion :: "rstring \<Rightarrow> int \<Rightarrow> int \<Rightarrow> int \<Rightarrow> card" where
  "card_minion name mana a h = Card (synthetic_definition_id name) name Minion mana a h 0 {} [] [] [] [] NoTarget"

definition card_spell :: "rstring \<Rightarrow> int \<Rightarrow> card" where
  "card_spell name mana = non_minion name Spell mana"

definition card_hero :: "rstring \<Rightarrow> int \<Rightarrow> card" where
  "card_hero name h = Card (synthetic_definition_id name) name Hero 0 0 h 0 {} [] [] [] [] NoTarget"

definition card_hero_power :: "rstring \<Rightarrow> int \<Rightarrow> card" where
  "card_hero_power name mana = non_minion name HeroPower mana"

definition card_weapon :: "rstring \<Rightarrow> int \<Rightarrow> int \<Rightarrow> int \<Rightarrow> card" where
  "card_weapon name mana a d = Card (synthetic_definition_id name) name Weapon mana a 0 d {} [] [] [] [] NoTarget"

fun with_effects :: "card \<Rightarrow> effect list \<Rightarrow> card" where
  "with_effects (Card d n k m a h u ks _ ts as cs tg) es = Card d n k m a h u ks es ts as cs tg"

fun with_triggers :: "card \<Rightarrow> trigger_definition list \<Rightarrow> card" where
  "with_triggers (Card d n k m a h u ks es _ as cs tg) ts = Card d n k m a h u ks es ts as cs tg"

fun with_targeting :: "card \<Rightarrow> target_requirement \<Rightarrow> card" where
  "with_targeting (Card d n k m a h u ks es ts as cs _) tg = Card d n k m a h u ks es ts as cs tg"

fun with_keyword :: "card \<Rightarrow> keyword \<Rightarrow> card" where
  "with_keyword (Card d n k m a h u ks es ts as cs tg) x = Card d n k m a h u (insert x ks) es ts as cs tg"

fun with_aura :: "card \<Rightarrow> aura_definition \<Rightarrow> card" where
  "with_aura (Card d n k m a h u ks es ts as cs tg) x = Card d n k m a h u ks es ts (as @ [x]) cs tg"

fun with_continuous_effect :: "card \<Rightarrow> continuous_effect_definition \<Rightarrow> card" where
  "with_continuous_effect (Card d n k m a h u ks es ts as cs tg) x = Card d n k m a h u ks es ts as (cs @ [x]) tg"

definition with_spell_damage :: "card \<Rightarrow> int \<Rightarrow> card" where
  "with_spell_damage c n = with_continuous_effect c \<lparr>recipients = ToController, continuous_modifier = SpellDamage n\<rparr>"

definition with_opponent_spell_damage :: "card \<Rightarrow> int \<Rightarrow> card" where
  "with_opponent_spell_damage c n = with_continuous_effect c \<lparr>recipients = ToOpponent, continuous_modifier = SpellDamage n\<rparr>"

fun with_deathrattle :: "card \<Rightarrow> effect list \<Rightarrow> card" where
  "with_deathrattle (Card d n k m a h u ks es ts as cs tg) p =
     Card d n k m a h u ks es
       (ts @ [TriggerDefinition DeathEvent [Graveyard] [\<lparr>timing = QueueTime, condition = EventSourceIsSelf\<rparr>]
                RememberedSource 0 IncludePendingDestroy p]) as cs tg"

fun with_card_health :: "card \<Rightarrow> int \<Rightarrow> card" where
  "with_card_health (Card d n k m a _ u ks es ts as cs tg) h = Card d n k m a h u ks es ts as cs tg"

record player_config =
  config_name :: rstring
  config_deck :: "card list"
  config_hand :: "card list"

end
