(* ===== verification/Hs_World.thy ===== *)
theory Hs_World imports Hs_Work begin

text \<open>
  The world of the Hearthstone simulator and the calculus of its steps.

  The source keeps its state in the ECS library's \<open>World\<close>: components of entities and resources.
  The model is that state: a game entity is a record with an optional field per component
  (\<open>core/entity.rs\<close>, \<open>core/enchantment.rs\<close>, \<open>core/aura.rs\<close>), the world a record of the resources and the
  table of game entities by their logical identity. The table stands for the entities and for
  \<open>GameEntityIndex\<close>, whose hooks keep the two in step; a step of a bundle insertion is one record
  update. The relation \<open>AttachedTo\<close> and its inverse \<open>AttachedEnchantments\<close> are both kept, the
  inverse in the order of attachment.

  The order in which \<open>iter_entities\<close> enumerates the entities belongs to the library and is not
  specified: it is the field \<open>ecs_order\<close>, an arbitrary function of the table that no step
  changes. \<open>enumerates\<close> says that it lists each entity once.
\<close>

section \<open>The state\<close>

record game_entity =
  e_definition :: "rstring option"
  e_kind :: "entity_kind option"
  e_controller :: "player_id option"
  e_name :: "rstring option"
  e_play_order :: "nat option"
  e_zone :: "zone option"
  e_position :: "nat option"
  e_base :: "base_stats option"
  e_stats :: "current_stats option"
  e_damage :: "int option"
  e_armor :: "int option"
  e_pending_destroy :: bool
  e_silenced :: bool
  e_keep_enchantments :: bool
  e_base_keywords :: "keyword set option"
  e_keywords :: "keyword set option"
  e_attack_state :: "attack_state option"
  e_player :: "player option"
  e_weapon :: "weapon_state option"
  e_hero_class :: "hero_class option"
  e_hero_power :: "hero_power_state option"
  e_runtime :: "card_runtime option"
  e_triggers :: "trigger_definition list option"
  e_auras :: "aura_definition list option"
  e_continuous :: "continuous_effect_definition list option"
  e_attached_to :: "game_entity_id option"
  e_attachments :: "game_entity_id list option"
  e_duration :: "enchantment_duration option"
  e_stat_modifier :: "stat_modifier option"
  e_keyword_modifier :: "keyword_modifier option"
  e_cost_modifier :: "cost_modifier option"
  e_silence_removable :: bool
  e_health_auras :: "aura_application list option"
  e_attack_auras :: "aura_application list option"
  e_other_auras :: "aura_application list option"
  e_abilities :: "rstring list option"
  e_enchantments :: "game_entity_id list option"
  e_death_record :: "death_record option"

definition no_components :: game_entity where
  "no_components = \<lparr>e_definition = None, e_kind = None, e_controller = None, e_name = None,
     e_play_order = None, e_zone = None, e_position = None, e_base = None, e_stats = None,
     e_damage = None, e_armor = None, e_pending_destroy = False, e_silenced = False,
     e_keep_enchantments = False, e_base_keywords = None, e_keywords = None, e_attack_state = None,
     e_player = None, e_weapon = None, e_hero_class = None, e_hero_power = None, e_runtime = None,
     e_triggers = None, e_auras = None, e_continuous = None, e_attached_to = None,
     e_attachments = None, e_duration = None, e_stat_modifier = None, e_keyword_modifier = None,
     e_cost_modifier = None, e_silence_removable = False, e_health_auras = None,
     e_attack_auras = None, e_other_auras = None, e_abilities = None, e_enchantments = None,
     e_death_record = None\<rparr>"

type_synonym entity_table = "game_entity_id \<rightharpoonup> game_entity"

record world =
  ents :: entity_table
  ecs_order :: "entity_table \<Rightarrow> game_entity_id list"
  zone_index :: "player_id \<times> zone \<Rightarrow> game_entity_id list"
  rules :: ruleset
  next_game_id :: nat
  next_play_order :: nat
  game :: game_state
  turns :: turn_schedule
  dominant_player :: player_id
  equipment :: weapon_equipment
  game_trace :: "trace_entry list"
  death_cache :: "death_record list"
  pending_deaths :: "death_record list"
  defeated_heroes :: "player_id set"
  generator :: deterministic_rng
  work :: resolution_work

definition enumerates :: "(entity_table \<Rightarrow> game_entity_id list) \<Rightarrow> bool" where
  "enumerates order \<longleftrightarrow> (\<forall>t. finite (dom t) \<longrightarrow> distinct (order t) \<and> set (order t) = dom t)"

text \<open>\<open>World::iter_entities\<close>, with the components of each entity.\<close>

definition iter_entities :: "world \<Rightarrow> (game_entity_id \<times> game_entity) list" where
  "iter_entities w = List.map_filter (\<lambda>i. map_option (Pair i) (ents w i)) (ecs_order w (ents w))"

text \<open>
  \<open>ZoneIndex::entities\<close>. It reads an absent entry of the index as an empty one, and nothing else reads
  the index, so the index of the model is a total function.
\<close>

definition zone_entities :: "world \<Rightarrow> player_id \<Rightarrow> zone \<Rightarrow> game_entity_id list" where
  "zone_entities w p z = zone_index w (p, z)"

text \<open>A component of an entity that may not exist.\<close>

definition component :: "world \<Rightarrow> (game_entity \<Rightarrow> 'a option) \<Rightarrow> game_entity_id \<Rightarrow> 'a option" where
  "component w f i = Option.bind (ents w i) f"

definition has_kind :: "world \<Rightarrow> game_entity_id \<Rightarrow> entity_kind \<Rightarrow> bool" where
  "has_kind w i k \<longleftrightarrow> component w e_kind i = Some k"

definition play_order_of :: "world \<Rightarrow> game_entity_id \<Rightarrow> nat" where
  "play_order_of w i = (case component w e_play_order i of None \<Rightarrow> 0 | Some n \<Rightarrow> n)"

section \<open>Steps\<close>

text \<open>
  A step of the engine takes the world and returns it with a result: as in the source, the
  mutations made before an error remain.
\<close>

type_synonym ('e, 'a) step = "world \<Rightarrow> ('e, 'a) outcome \<times> world"
type_synonym 'a sim = "(simulation_error, 'a) step"

definition ret :: "'a \<Rightarrow> ('e, 'a) step" where
  "ret x w = (Inr x, w)"

definition fail :: "'e \<Rightarrow> ('e, 'a) step" where
  "fail e w = (err e, w)"

definition die :: "('e, 'a) step" where
  "die w = (panic, w)"

definition lift :: "('e, 'a) outcome \<Rightarrow> ('e, 'a) step" where
  "lift r w = (r, w)"

definition bnd :: "('e, 'a) step \<Rightarrow> ('a \<Rightarrow> ('e, 'b) step) \<Rightarrow> ('e, 'b) step" where
  "bnd m k w = (case m w of (Inl e, w') \<Rightarrow> (Inl e, w') | (Inr x, w') \<Rightarrow> k x w')"

definition seq :: "('e, 'a) step \<Rightarrow> ('e, 'b) step \<Rightarrow> ('e, 'b) step" where
  "seq m n = bnd m (\<lambda>_. n)"

definition ask :: "(world \<Rightarrow> ('e, 'a) step) \<Rightarrow> ('e, 'a) step" where
  "ask f w = f w w"

definition change :: "(world \<Rightarrow> world) \<Rightarrow> ('e, unit) step" where
  "change f w = (Inr (), f w)"

text \<open>\<open>let _ = m\<close>: the result is dropped, a panic is not.\<close>

definition ignore :: "('e, 'a) step \<Rightarrow> ('f, unit) step" where
  "ignore m w = (case m w of (Inl Panic, w') \<Rightarrow> (panic, w') | (_, w') \<Rightarrow> (Inr (), w'))"

text \<open>The conversion of an error type by \<open>?\<close>.\<close>

definition convert :: "('e \<Rightarrow> 'f) \<Rightarrow> ('e, 'a) step \<Rightarrow> ('f, 'a) step" where
  "convert g m w = (case m w of
     (Inl (Err e), w') \<Rightarrow> (err (g e), w') | (Inl Panic, w') \<Rightarrow> (panic, w') | (Inr x, w') \<Rightarrow> (Inr x, w'))"

text \<open>\<open>match m { Err(e) => h(e), Ok(x) => k(x) }\<close>, with a panic passed on.\<close>

definition handle ::
  "('e, 'a) step \<Rightarrow> ('e \<Rightarrow> ('f, 'b) step) \<Rightarrow> ('a \<Rightarrow> ('f, 'b) step) \<Rightarrow> ('f, 'b) step" where
  "handle m h k w = (case m w of
     (Inl (Err e), w') \<Rightarrow> h e w' | (Inl Panic, w') \<Rightarrow> (panic, w') | (Inr x, w') \<Rightarrow> k x w')"

text \<open>\<open>expect\<close>.\<close>

definition expecting :: "('e, 'a) step \<Rightarrow> ('f, 'a) step" where
  "expecting m = handle m (\<lambda>_. die) ret"

primrec for_all :: "('a \<Rightarrow> ('e, unit) step) \<Rightarrow> 'a list \<Rightarrow> ('e, unit) step" where
  "for_all f [] = ret ()"
| "for_all f (x # xs) = seq (f x) (for_all f xs)"

primrec map_steps :: "('a \<Rightarrow> ('e, 'b) step) \<Rightarrow> 'a list \<Rightarrow> ('e, 'b list) step" where
  "map_steps f [] = ret []"
| "map_steps f (x # xs) = bnd (f x) (\<lambda>y. bnd (map_steps f xs) (\<lambda>ys. ret (y # ys)))"

definition unless_none :: "'a option \<Rightarrow> ('a \<Rightarrow> ('e, unit) step) \<Rightarrow> ('e, unit) step" where
  "unless_none x f = (case x of None \<Rightarrow> ret () | Some a \<Rightarrow> f a)"

text \<open>\<open>ok_or(e)?\<close>.\<close>

definition need :: "'e \<Rightarrow> 'a option \<Rightarrow> ('a \<Rightarrow> ('e, 'b) step) \<Rightarrow> ('e, 'b) step" where
  "need e x f = (case x of None \<Rightarrow> fail e | Some a \<Rightarrow> f a)"

definition or_default :: "'a \<Rightarrow> 'a option \<Rightarrow> 'a" where
  "or_default d x = (case x of None \<Rightarrow> d | Some a \<Rightarrow> a)"

section \<open>Primitive steps\<close>

definition set_entity :: "game_entity_id \<Rightarrow> (game_entity \<Rightarrow> game_entity) \<Rightarrow> world \<Rightarrow> world" where
  "set_entity i f w = w\<lparr>ents := (ents w)(i := map_option f (ents w i))\<rparr>"

text \<open>
  \<open>world.entity_mut(entity).insert(..)\<close>: the entity exists where the source has it in hand, and the
  step panics as the library does otherwise.
\<close>

definition update :: "game_entity_id \<Rightarrow> (game_entity \<Rightarrow> game_entity) \<Rightarrow> ('e, unit) step" where
  "update i f = ask (\<lambda>w. if ents w i = None then die else change (set_entity i f))"

text \<open>\<open>if let Some(entity) = game_entity(..)\<close>: nothing happens without the entity.\<close>

definition update_if :: "game_entity_id \<Rightarrow> (game_entity \<Rightarrow> game_entity) \<Rightarrow> ('e, unit) step" where
  "update_if i f = change (set_entity i f)"

definition push_trace :: "trace_entry \<Rightarrow> ('e, unit) step" where
  "push_trace t = change (\<lambda>w. w\<lparr>game_trace := game_trace w @ [t]\<rparr>)"

definition change_work :: "(resolution_work \<Rightarrow> resolution_work) \<Rightarrow> ('e, unit) step" where
  "change_work f = change (\<lambda>w. w\<lparr>work := f (work w)\<rparr>)"

text \<open>\<open>sort_unstable\<close> and \<open>dedup\<close> of identities, and the elements of a \<open>BTreeSet\<close> of them.\<close>

definition sorted_ids :: "nat list \<Rightarrow> nat list" where
  "sorted_ids xs = remdups_adj (sort xs)"

text \<open>The machine integers: a \<open>u64\<close> counter and the \<open>i32\<close> arithmetic of the source.\<close>

definition u64_max' :: nat where "u64_max' = 18446744073709551615"

definition in_i32 :: "int \<Rightarrow> bool" where
  "in_i32 n \<longleftrightarrow> - 2147483648 \<le> n \<and> n \<le> 2147483647"

definition i32_op :: "int \<Rightarrow> ('e, int) step" where
  "i32_op n = (if in_i32 n then ret n else die)"

definition saturate_i32 :: "int \<Rightarrow> int" where
  "saturate_i32 n = max (- 2147483648) (min 2147483647 n)"

definition to_u32 :: "nat \<Rightarrow> ('e, nat) step" where
  "to_u32 n = (if n \<le> u32_max then ret n else die)"

definition allocate_game_id :: "('e, game_entity_id) step" where
  "allocate_game_id = ask (\<lambda>w.
     let n = next_game_id w in
     if n < u64_max' then seq (change (\<lambda>w. w\<lparr>next_game_id := n + 1\<rparr>)) (ret n) else die)"

definition allocate_play_order :: "('e, nat) step" where
  "allocate_play_order = ask (\<lambda>w.
     let n = next_play_order w in
     if n < u64_max' then seq (change (\<lambda>w. w\<lparr>next_play_order := n + 1\<rparr>)) (ret n) else die)"

text \<open>
  \<open>world.spawn\<close> of a bundle with a logical identity: the index hook asserts that it is new.
\<close>

definition spawn :: "game_entity_id \<Rightarrow> game_entity \<Rightarrow> ('e, unit) step" where
  "spawn i e = ask (\<lambda>w.
     if ents w i = None then change (\<lambda>w. w\<lparr>ents := (ents w)(i \<mapsto> e)\<rparr>) else die)"

definition despawn :: "game_entity_id \<Rightarrow> ('e, unit) step" where
  "despawn i = change (\<lambda>w. w\<lparr>ents := (ents w)(i := None)\<rparr>)"

text \<open>
  The relation \<open>AttachedTo\<close>: inserting it appends the source to the target's
  \<open>AttachedEnchantments\<close>, removing it takes it out again, and an empty inverse is removed.
\<close>

definition attach :: "game_entity_id \<Rightarrow> game_entity_id \<Rightarrow> ('e, unit) step" where
  "attach i target = seq (update i (\<lambda>e. e\<lparr>e_attached_to := Some target\<rparr>))
     (update target (\<lambda>e. e\<lparr>e_attachments :=
        Some ((case e_attachments e of None \<Rightarrow> [] | Some xs \<Rightarrow> xs) @ [i])\<rparr>))"

definition detach :: "game_entity_id \<Rightarrow> ('e, unit) step" where
  "detach i = ask (\<lambda>w.
     case component w e_attached_to i of
       None \<Rightarrow> ret ()
     | Some target \<Rightarrow>
         seq (update_if i (\<lambda>e. e\<lparr>e_attached_to := None\<rparr>))
           (update_if target (\<lambda>e. e\<lparr>e_attachments :=
              (case e_attachments e of None \<Rightarrow> None
               | Some xs \<Rightarrow> if remove1 i xs = [] then None else Some (remove1 i xs))\<rparr>)))"

text \<open>\<open>BTreeMap::remove\<close> and the entry \<open>get_mut\<close>.\<close>

definition bt_remove :: "'k \<Rightarrow> ('k, 'v) btree_map \<Rightarrow> ('k, 'v) btree_map" where
  "bt_remove k m = filter (\<lambda>e. fst e \<noteq> k) m"

definition bt_adjust :: "'k \<Rightarrow> ('v \<Rightarrow> 'v) \<Rightarrow> ('k, 'v) btree_map \<Rightarrow> ('k, 'v) btree_map" where
  "bt_adjust k f m = map (\<lambda>(k', v). (k', if k' = k then f v else v)) m"

lemma bt_invar_remove [simp]: "bt_invar m \<Longrightarrow> bt_invar (bt_remove k m)"
  unfolding bt_invar_def bt_remove_def by (induction m) auto

lemma bt_get_remove [simp]: "bt_get (bt_remove k m) = (bt_get m)(k := None)"
  unfolding bt_remove_def by (induction m) (auto simp: fun_eq_iff)

lemma bt_keys_adjust [simp]: "map fst (bt_adjust k f m) = map fst m"
  unfolding bt_adjust_def by (induction m) auto

lemma bt_invar_adjust [simp]: "bt_invar (bt_adjust k f m) = bt_invar m"
  by (simp add: bt_invar_def)

lemma bt_get_adjust [simp]: "bt_get (bt_adjust k f m) = (bt_get m)(k := map_option f (bt_get m k))"
  unfolding bt_adjust_def by (induction m) (auto simp: fun_eq_iff)

section \<open>The calculus\<close>

lemma step_simps [simp]:
  "ret x w = (Inr x, w)"
  "fail e w = (err e, w)"
  "die w = (panic, w)"
  "lift r w = (r, w)"
  "ask f w = f w w"
  "change g w = (Inr (), g w)"
  by (simp_all add: ret_def fail_def die_def lift_def ask_def change_def)

lemma option_simps [simp]:
  "unless_none None f = ret ()" "unless_none (Some a) f = f a"
  "need e None g = fail e" "need e (Some a) g = g a"
  "or_default d None = d" "or_default d (Some x) = x"
  by (simp_all add: unless_none_def need_def or_default_def)

lemma bnd_simps [simp]:
  "m w = (Inr x, w') \<Longrightarrow> bnd m k w = k x w'"
  "m w = (Inl e, w') \<Longrightarrow> bnd m k w = (Inl e, w')"
  by (simp_all add: bnd_def)

lemma bnd_Inr_iff [result_simps]:
  "bnd m k w = (Inr y, w2) \<longleftrightarrow> (\<exists>x w1. m w = (Inr x, w1) \<and> k x w1 = (Inr y, w2))"
  by (auto simp: bnd_def split: prod.splits sum.splits)

lemma seq_Inr_iff [result_simps]:
  "seq m n w = (Inr y, w2) \<longleftrightarrow> (\<exists>x w1. m w = (Inr x, w1) \<and> n w1 = (Inr y, w2))"
  by (simp add: seq_def bnd_Inr_iff)

lemma seq_simps [simp]:
  "m w = (Inr x, w') \<Longrightarrow> seq m n w = n w'"
  "m w = (Inl e, w') \<Longrightarrow> seq m n w = (Inl e, w')"
  by (simp_all add: seq_def)

text \<open>
  \<open>keeps I m\<close>: the step leaves the invariant in place, whether it returns, fails or panics. Rules of
  the collection \<open>keeps\<close> follow the structure of a step.
\<close>

definition keeps :: "(world \<Rightarrow> bool) \<Rightarrow> ('e, 'a) step \<Rightarrow> bool" where
  "keeps I m \<longleftrightarrow> (\<forall>w. I w \<longrightarrow> I (snd (m w)))"

named_theorems keeps \<open>steps that keep an invariant\<close>

lemma keepsD: "keeps I m \<Longrightarrow> I w \<Longrightarrow> m w = (r, w') \<Longrightarrow> I w'"
  by (metis keeps_def snd_conv)

lemma keeps_basic [keeps]:
  "keeps I (ret x)" "keeps I (fail e)" "keeps I die" "keeps I (lift r)"
  by (simp_all add: keeps_def)

lemma keeps_bnd [keeps]: "keeps I m \<Longrightarrow> (\<And>x. keeps I (k x)) \<Longrightarrow> keeps I (bnd m k)"
  by (auto simp: keeps_def bnd_def split: prod.splits sum.splits)

lemma keeps_seq [keeps]: "keeps I m \<Longrightarrow> keeps I n \<Longrightarrow> keeps I (seq m n)"
  by (simp add: seq_def keeps_bnd)

lemma keeps_ask [keeps]: "(\<And>w. keeps I (f w)) \<Longrightarrow> keeps I (ask f)"
  by (simp add: keeps_def)

lemma keeps_ignore [keeps]: "keeps I m \<Longrightarrow> keeps I (ignore m)"
  by (auto simp: keeps_def ignore_def split: prod.splits sum.splits failure.splits)

lemma keeps_convert [keeps]: "keeps I m \<Longrightarrow> keeps I (convert g m)"
  by (auto simp: keeps_def convert_def split: prod.splits sum.splits failure.splits)

lemma keeps_handle [keeps]:
  "keeps I m \<Longrightarrow> (\<And>e. keeps I (h e)) \<Longrightarrow> (\<And>x. keeps I (k x)) \<Longrightarrow> keeps I (handle m h k)"
  by (auto simp: keeps_def handle_def split: prod.splits sum.splits failure.splits)

lemma keeps_expecting [keeps]: "keeps I m \<Longrightarrow> keeps I (expecting m)"
  by (simp add: expecting_def keeps)

lemma keeps_if [keeps]: "(b \<Longrightarrow> keeps I m) \<Longrightarrow> (\<not> b \<Longrightarrow> keeps I n) \<Longrightarrow> keeps I (if b then m else n)"
  by simp

lemma keeps_let [keeps]: "(\<And>x. keeps I (f x)) \<Longrightarrow> keeps I (Let a f)"
  by simp

lemma keeps_option [keeps]:
  "keeps I m \<Longrightarrow> (\<And>x. a = Some x \<Longrightarrow> keeps I (f x)) \<Longrightarrow> keeps I (case a of None \<Rightarrow> m | Some x \<Rightarrow> f x)"
  by (cases a) simp_all

lemma keeps_prod [keeps]: "(\<And>x y. a = (x, y) \<Longrightarrow> keeps I (f x y)) \<Longrightarrow> keeps I (case a of (x, y) \<Rightarrow> f x y)"
  by (cases a) simp_all

lemma keeps_for_all [keeps]: "(\<And>x. keeps I (f x)) \<Longrightarrow> keeps I (for_all f xs)"
  by (induction xs) (simp_all add: keeps)

lemma keeps_map_steps [keeps]: "(\<And>x. keeps I (f x)) \<Longrightarrow> keeps I (map_steps f xs)"
  by (induction xs) (simp_all add: keeps)

lemma keeps_unless_none [keeps]: "(\<And>x. keeps I (f x)) \<Longrightarrow> keeps I (unless_none a f)"
  by (cases a) (simp_all add: unless_none_def keeps)

lemma keeps_need [keeps]: "(\<And>x. keeps I (f x)) \<Longrightarrow> keeps I (need e a f)"
  by (cases a) (simp_all add: keeps)

end
