(* ===== verification/Hs_Enchantment.thy ===== *)
theory Hs_Enchantment imports Hs_World "HOL-Library.Product_Lexorder" begin

text \<open>
  The values that enchantments and auras give to an entity (\<open>simulator/enchantment.rs\<close>,
  \<open>core/enchantment.rs\<close>): keywords, cost, and attack and health with the two rules for damage when
  the maximum health changes.
\<close>

section \<open>Modifiers\<close>

definition attachment_list :: "world \<Rightarrow> game_entity_id \<Rightarrow> game_entity_id list" where
  "attachment_list w i = or_default [] (component w e_attachments i)"

definition apply_keyword :: "bool \<Rightarrow> keyword_modifier \<Rightarrow> keyword set \<Rightarrow> keyword set" where
  "apply_keyword silenced m ks =
     (if silenced \<and> keyword_silence_removable m then ks
      else if granted m then insert (modified_keyword m) ks else ks - {modified_keyword m})"

definition recalculate_keywords :: "game_entity_id \<Rightarrow> ('e, unit) step" where
  "recalculate_keywords target = ask (\<lambda>w.
     unless_none (ents w target) (\<lambda>e.
       let keywords = (if e_silenced e then {} else or_default {} (e_base_keywords e));
           modifiers = sort_key fst (List.map_filter
             (\<lambda>i. map_option (Pair (play_order_of w i)) (component w e_keyword_modifier i))
             (attachment_list w target))
       in update target (\<lambda>e'. e'\<lparr>e_keywords :=
            Some (fold (\<lambda>(_, m). apply_keyword (e_silenced e) m) modifiers keywords)\<rparr>)))"

definition apply_cost :: "cost_modifier \<Rightarrow> int \<Rightarrow> int" where
  "apply_cost m n =
     (case cost_operation m of
        SetCost \<Rightarrow> cost_value m
      | AddCost \<Rightarrow> saturate_i32 (n + cost_value m)
      | MultiplyCost \<Rightarrow> saturate_i32 (n * cost_value m))"

definition recalculate_cost :: "game_entity_id \<Rightarrow> ('e, unit) step" where
  "recalculate_cost target = ask (\<lambda>w.
     unless_none (ents w target) (\<lambda>e.
     unless_none (e_runtime e) (\<lambda>rt.
       let modifiers = sort_key (\<lambda>(order, i, _). (order, i)) (List.map_filter
             (\<lambda>i. map_option (\<lambda>m. (play_order_of w i, i, m)) (component w e_cost_modifier i))
             (attachment_list w target))
       in update target (\<lambda>e'. e'\<lparr>e_runtime := Some (rt\<lparr>cost :=
            fold (\<lambda>(_, _, m) n. if e_silenced e \<and> cost_silence_removable m then n else apply_cost m n)
              modifiers (base_cost rt)\<rparr>)\<rparr>))))"

section \<open>Attack and health\<close>

text \<open>A sum of \<open>i32\<close> values, in the order of the source.\<close>

definition sum_i32 :: "int \<Rightarrow> int list \<Rightarrow> ('e, int) outcome" where
  "sum_i32 n ns = try_fold (\<lambda>a d. if in_i32 (a + d) then Inr (a + d) else panic) n ns"

fun attack_amount :: "aura_modifier \<Rightarrow> int option" where
  "attack_amount (AttackModifier n) = Some n"
| "attack_amount _ = None"

fun health_amount :: "aura_modifier \<Rightarrow> int option" where
  "health_amount (MaximumHealthModifier n) = Some n"
| "health_amount _ = None"

definition aura_amounts :: "(aura_modifier \<Rightarrow> int option) \<Rightarrow> aura_application list option \<Rightarrow> int list" where
  "aura_amounts f cache = List.map_filter (f \<circ> aura_modifier) (or_default [] cache)"

text \<open>
  The damage kept under a new maximum: a lower maximum takes health away only when the current
  health exceeds it.
\<close>

definition kept_damage :: "int \<Rightarrow> current_stats option \<Rightarrow> int option \<Rightarrow> int option" where
  "kept_damage maximum previous damage =
     (case (previous, damage) of
        (Some st, Some d) \<Rightarrow>
          if maximum < maximum_health st
          then Some (max 0 (saturate_i32 (maximum - saturate_i32 (maximum_health st - d))))
          else Some d
      | _ \<Rightarrow> damage)"

definition stat_changes :: "world \<Rightarrow> game_entity_id \<Rightarrow> stat_modifier list" where
  "stat_changes w target = map snd (sort_key fst (List.map_filter
     (\<lambda>i. map_option (Pair (play_order_of w i)) (component w e_stat_modifier i)) (attachment_list w target)))"

definition recalculate_stats :: "game_entity_id \<Rightarrow> ('e, unit) step" where
  "recalculate_stats target = ask (\<lambda>w.
     unless_none (ents w target) (\<lambda>e.
     unless_none (e_base e) (\<lambda>base.
       let modifiers = stat_changes w target in
       bnd (lift (sum_i32 (base_attack base)
              (map attack_change modifiers @ aura_amounts attack_amount (e_attack_auras e)))) (\<lambda>a.
       bnd (lift (sum_i32 (base_health base)
              (map health_change modifiers @ aura_amounts health_amount (e_health_auras e)))) (\<lambda>h.
       let maximum = max 0 h in
       update target (\<lambda>e'. e'\<lparr>
         e_damage := kept_damage maximum (e_stats e) (e_damage e),
         e_stats := Some \<lparr>attack = a, maximum_health = maximum\<rparr>\<rparr>))))))"

definition assert_enchantment_invariants :: "world \<Rightarrow> (string, unit) outcome" where
  "assert_enchantment_invariants w =
     try_fold (\<lambda>_ (i, e).
       if e_kind e \<noteq> Some Enchantment then Inr ()
       else if e_duration e = None then err ''enchantment lacks enchantment duration''
       else if e_attached_to e \<noteq> None \<and> e_zone e \<noteq> Some Play then err ''attached enchantment is not in Play''
       else Inr ()) () (iter_entities w)"

definition recalculate :: "game_entity_id \<Rightarrow> ('e, unit) step" where
  "recalculate target =
     seq (recalculate_stats target) (seq (recalculate_keywords target) (recalculate_cost target))"

end
