(* ===== verification/Hs_Aura.thy ===== *)
theory Hs_Aura imports Hs_Enchantment begin

text \<open>
  Auras (\<open>simulator/aura.rs\<close>): the discovery of the applications of every provider in play, the
  caches of the three categories on their targets, the refreshes of the engine, and the values
  that are read from the caches and from continuous effects.

  The position of a definition among those of its provider is a \<open>u32\<close> in the source, which
  panics beyond the 2^32-th definition; such lists are not modelled.
\<close>

instantiation aura_category :: linorder
begin

definition category_rank :: "aura_category \<Rightarrow> nat" where
  "category_rank c = (case c of HealthCategory \<Rightarrow> 0 | AttackCategory \<Rightarrow> 1 | OtherCategory \<Rightarrow> 2)"

definition less_eq_aura_category :: "aura_category \<Rightarrow> aura_category \<Rightarrow> bool" where
  "c \<le> d \<longleftrightarrow> category_rank c \<le> category_rank d"

definition less_aura_category :: "aura_category \<Rightarrow> aura_category \<Rightarrow> bool" where
  "c < d \<longleftrightarrow> category_rank c < category_rank d"

instance
  by standard
    (auto simp: less_eq_aura_category_def less_aura_category_def category_rank_def split: aura_category.splits)

end

type_synonym aura_applications = "(aura_category \<times> game_entity_id, aura_application list) btree_map"

definition aura_matches ::
  "aura_target \<Rightarrow> game_entity_id \<Rightarrow> player_id \<Rightarrow> game_entity_id \<Rightarrow> player_id \<Rightarrow> entity_kind \<Rightarrow> bool" where
  "aura_matches s source_id owner target target_owner kind =
     (let friendly = (owner = target_owner);
          minion = (kind = Minion);
          character = (kind = Hero \<or> kind = Minion);
          is_player = (kind = PlayerKind);
          other = (source_id \<noteq> target)
      in case s of
        FriendlyMinionsAura \<Rightarrow> friendly \<and> minion
      | OtherFriendlyMinionsAura \<Rightarrow> friendly \<and> minion \<and> other
      | EnemyMinionsAura \<Rightarrow> \<not> friendly \<and> minion
      | AllMinionsAura \<Rightarrow> minion
      | FriendlyCharactersAura \<Rightarrow> friendly \<and> character
      | OtherFriendlyCharactersAura \<Rightarrow> friendly \<and> character \<and> other
      | EnemyCharactersAura \<Rightarrow> \<not> friendly \<and> character
      | AllCharactersAura \<Rightarrow> character
      | ControllerPlayerAura \<Rightarrow> friendly \<and> is_player
      | OpponentPlayerAura \<Rightarrow> \<not> friendly \<and> is_player
      | BothPlayersAura \<Rightarrow> is_player)"

definition push_application ::
  "aura_category \<times> game_entity_id \<Rightarrow> aura_application \<Rightarrow> aura_applications \<Rightarrow> aura_applications" where
  "push_application key a m = bt_insert key (or_default [] (bt_get m key) @ [a]) m"

fun other_modifier :: "other_aura_modifier \<Rightarrow> aura_modifier" where
  "other_modifier OtherImmune = ImmuneModifier"
| "other_modifier (OtherHeroPowerDamage n) = HeroPowerDamageModifier n"

text \<open>What one definition gives each of its targets.\<close>

definition aura_parts :: "aura_definition \<Rightarrow> (aura_category \<times> aura_modifier) list" where
  "aura_parts d =
     (if aura_health d \<noteq> 0 then [(HealthCategory, MaximumHealthModifier (aura_health d))] else []) @
     (if aura_attack d \<noteq> 0 then [(AttackCategory, AttackModifier (aura_attack d))] else []) @
     map (\<lambda>m. (OtherCategory, other_modifier m)) (aura_other d)"

definition aura_providers ::
  "world \<Rightarrow> game_entity_id option \<Rightarrow> (nat \<times> game_entity_id \<times> player_id \<times> aura_definition list) list" where
  "aura_providers w only = sort_key (\<lambda>(order, i, _). (order, i)) (List.map_filter
     (\<lambda>(i, e). case (e_controller e, e_auras e) of
        (Some p, Some ds) \<Rightarrow>
          if (only = None \<or> only = Some i) \<and> e_zone e = Some Play \<and> \<not> e_silenced e
          then Some (or_default 0 (e_play_order e), i, p, ds) else None
      | _ \<Rightarrow> None)
     (iter_entities w))"

definition aura_recipients :: "world \<Rightarrow> (game_entity_id \<times> player_id \<times> entity_kind) list" where
  "aura_recipients w = sort_key fst (List.map_filter
     (\<lambda>(i, e). case (e_kind e, e_controller e) of
        (Some k, Some p) \<Rightarrow>
          if k = PlayerKind \<or> e_zone e = Some Play \<and> e_base e \<noteq> None then Some (i, p, k) else None
      | _ \<Rightarrow> None)
     (iter_entities w))"

definition discover_aura_applications :: "world \<Rightarrow> game_entity_id option \<Rightarrow> aura_applications" where
  "discover_aura_applications w only =
     fold (\<lambda>(_, i, p, ds).
       fold (\<lambda>(n, d).
         fold (\<lambda>(t, tp, tk).
           if aura_matches (aura_targets d) i p t tp tk
           then fold (\<lambda>(c, md). push_application (c, t) \<lparr>provider = i, aura_index = n, aura_modifier = md\<rparr>)
                  (aura_parts d)
           else id)
         (aura_recipients w))
       (enumerate 0 ds))
     (aura_providers w only) []"

section \<open>Caches\<close>

definition aura_cache :: "aura_category \<Rightarrow> game_entity \<Rightarrow> aura_application list option" where
  "aura_cache c e = (case c of
     HealthCategory \<Rightarrow> e_health_auras e | AttackCategory \<Rightarrow> e_attack_auras e | OtherCategory \<Rightarrow> e_other_auras e)"

definition put_cache :: "aura_category \<Rightarrow> aura_application list \<Rightarrow> game_entity \<Rightarrow> game_entity" where
  "put_cache c as e = (case c of
     HealthCategory \<Rightarrow> e\<lparr>e_health_auras := Some as\<rparr>
   | AttackCategory \<Rightarrow> e\<lparr>e_attack_auras := Some as\<rparr>
   | OtherCategory \<Rightarrow> e\<lparr>e_other_auras := Some as\<rparr>)"

definition set_cache :: "aura_category \<Rightarrow> game_entity_id \<Rightarrow> aura_application list \<Rightarrow> ('e, unit) step" where
  "set_cache c target applications = ask (\<lambda>w.
     unless_none (ents w target) (\<lambda>e.
       let previous = aura_cache c e in
       if or_default [] previous = applications then ret ()
       else seq (update target (put_cache c applications))
         (seq (if c = OtherCategory then ret () else recalculate_stats target)
         (if previous \<noteq> None \<or> applications \<noteq> [] then push_trace (AuraUpdated target c applications)
          else ret ()))))"

definition category_targets :: "aura_category \<Rightarrow> aura_applications \<Rightarrow> game_entity_id list" where
  "category_targets c discovered = map snd (filter (\<lambda>(c', _). c' = c) (map fst discovered))"

definition replace_category :: "aura_category \<Rightarrow> aura_applications \<Rightarrow> ('e, unit) step" where
  "replace_category c discovered = ask (\<lambda>w.
     let cached = map fst (filter (\<lambda>(_, e). aura_cache c e \<noteq> None) (iter_entities w)) in
     for_all (\<lambda>target. set_cache c target (or_default [] (bt_get discovered (c, target))))
       (sorted_ids (category_targets c discovered @ cached)))"

definition merge_provider_category ::
  "game_entity_id \<Rightarrow> aura_applications \<Rightarrow> aura_category \<Rightarrow> ('e, unit) step" where
  "merge_provider_category i discovered c = ask (\<lambda>w.
     let cached = map fst (filter
           (\<lambda>(_, e). list_ex (\<lambda>a. provider a = i) (or_default [] (aura_cache c e))) (iter_entities w)) in
     for_all (\<lambda>target. ask (\<lambda>w.
         unless_none (ents w target) (\<lambda>e.
           set_cache c target
             (filter (\<lambda>a. provider a \<noteq> i) (or_default [] (aura_cache c e)) @
              or_default [] (bt_get discovered (c, target))))))
       (sorted_ids (category_targets c discovered @ cached)))"

definition refresh_health_attack_auras :: "('e, unit) step" where
  "refresh_health_attack_auras = ask (\<lambda>w.
     let discovered = discover_aura_applications w None in
     seq (replace_category HealthCategory discovered) (replace_category AttackCategory discovered))"

definition refresh_post_death_auras :: "('e, unit) step" where
  "refresh_post_death_auras = ask (\<lambda>w.
     let discovered = discover_aura_applications w None in
     seq (replace_category AttackCategory discovered) (replace_category OtherCategory discovered))"

definition refresh_all_auras :: "('e, unit) step" where
  "refresh_all_auras = ask (\<lambda>w.
     let discovered = discover_aura_applications w None in
     seq (replace_category HealthCategory discovered)
       (seq (replace_category AttackCategory discovered) (replace_category OtherCategory discovered)))"

definition refresh_played_provider :: "game_entity_id \<Rightarrow> ('e, unit) step" where
  "refresh_played_provider i = ask (\<lambda>w.
     let discovered = discover_aura_applications w (Some i) in
     for_all (merge_provider_category i discovered) [HealthCategory, AttackCategory, OtherCategory])"

section \<open>Values read from auras and continuous effects\<close>

definition continuous_source_is_active :: "world \<Rightarrow> game_entity \<Rightarrow> bool" where
  "continuous_source_is_active w e \<longleftrightarrow>
     e_zone e = Some Play \<and>
     (case e_attached_to e of None \<Rightarrow> True | Some target \<Rightarrow> component w e_zone target = Some Play)"

fun reaches :: "player_audience \<Rightarrow> player_id \<Rightarrow> player_id \<Rightarrow> bool" where
  "reaches ToController owner p \<longleftrightarrow> p = owner"
| "reaches ToOpponent owner p \<longleftrightarrow> p = opponent owner"
| "reaches ToBoth owner p \<longleftrightarrow> True"

definition current_spell_damage :: "world \<Rightarrow> player_id \<Rightarrow> int" where
  "current_spell_damage w p =
     (let providers = sort_key (\<lambda>(order, i, _). (order, i)) (List.map_filter
        (\<lambda>(i, e). case (e_controller e, e_continuous e) of
           (Some owner, Some ds) \<Rightarrow>
             if \<not> e_silenced e \<and> continuous_source_is_active w e
             then Some (or_default 0 (e_play_order e), i, owner, ds) else None
         | _ \<Rightarrow> None)
        (iter_entities w))
      in fold (\<lambda>(_, _, owner, ds).
           fold (\<lambda>d total. if reaches (recipients d) owner p
               then (case continuous_modifier d of SpellDamage n \<Rightarrow> saturate_i32 (total + n)) else total) ds)
         providers 0)"

definition has_keyword :: "world \<Rightarrow> game_entity_id \<Rightarrow> keyword \<Rightarrow> bool" where
  "has_keyword w i k \<longleftrightarrow>
     (case ents w i of
        None \<Rightarrow> False
      | Some e \<Rightarrow> k \<in> or_default {} (e_keywords e) \<or>
          k = Immune \<and> list_ex (\<lambda>a. aura_modifier a = ImmuneModifier) (or_default [] (e_other_auras e)))"

fun hero_power_amount :: "aura_modifier \<Rightarrow> int option" where
  "hero_power_amount (HeroPowerDamageModifier n) = Some n"
| "hero_power_amount _ = None"

definition hero_power_damage_bonus :: "world \<Rightarrow> player_id \<Rightarrow> int" where
  "hero_power_damage_bonus w p =
     (case List.find (\<lambda>(_, e). e_kind e = Some PlayerKind \<and> e_controller e = Some p) (iter_entities w) of
        None \<Rightarrow> 0
      | Some (_, e) \<Rightarrow>
          fold (\<lambda>n total. saturate_i32 (total + n)) (aura_amounts hero_power_amount (e_other_auras e)) 0)"

end
