(* ===== verification/Hs_Zone.thy ===== *)
theory Hs_Zone imports Hs_Enchantment begin

text \<open>
  Zones (\<open>simulator/zone.rs\<close>): the ordered index of the entities of each player's zones, its
  capacities and positions, and the movement of an entity with the reset of its state. With it are
  the two functions of other modules that a movement calls: \<open>weapon::track_entry\<close> and
  \<open>death::record_full_zone_death\<close>.
\<close>

section \<open>Capacity and positions\<close>

fun zone_limit :: "ruleset \<Rightarrow> zone \<Rightarrow> nat option" where
  "zone_limit r Deck = Some (deck_limit r)"
| "zone_limit r Hand = Some (hand_limit r)"
| "zone_limit r SecretZone = Some (secret_limit r)"
| "zone_limit r _ = None"

definition is_board_entity :: "entity_kind \<Rightarrow> bool" where
  "is_board_entity k \<longleftrightarrow> k \<in> {Minion, Location, Permanent, Dormant}"

definition on_board :: "world \<Rightarrow> game_entity_id \<Rightarrow> bool" where
  "on_board w i \<longleftrightarrow> (case component w e_kind i of None \<Rightarrow> False | Some k \<Rightarrow> is_board_entity k)"

definition board_entities :: "world \<Rightarrow> player_id \<Rightarrow> game_entity_id list" where
  "board_entities w p = filter (on_board w) (zone_entities w p Play)"

definition board_is_full :: "world \<Rightarrow> player_id \<Rightarrow> bool" where
  "board_is_full w p \<longleftrightarrow> board_limit (rules w) \<le> length (board_entities w p)"

definition count_kind :: "world \<Rightarrow> game_entity_id list \<Rightarrow> entity_kind \<Rightarrow> nat" where
  "count_kind w entries k = length (filter (\<lambda>i. has_kind w i k) entries)"

definition over_limit :: "nat option \<Rightarrow> nat \<Rightarrow> bool" where
  "over_limit limit n \<longleftrightarrow> (case limit of None \<Rightarrow> False | Some l \<Rightarrow> l \<le> n)"

definition kind_limit :: "ruleset \<Rightarrow> entity_kind \<Rightarrow> nat option" where
  "kind_limit r k =
     (case k of Hero \<Rightarrow> Some (hero_limit r) | Weapon \<Rightarrow> Some (weapon_limit r)
      | HeroPower \<Rightarrow> Some (hero_power_limit r) | _ \<Rightarrow> None)"

definition generated_destination_is_full ::
  "world \<Rightarrow> player_id \<Rightarrow> zone \<Rightarrow> entity_kind \<Rightarrow> rstring \<Rightarrow> bool" where
  "generated_destination_is_full w p z k def \<longleftrightarrow>
     (let entries = zone_entities w p z in
      over_limit (zone_limit (rules w) z) (length entries) \<or>
      z = Play \<and> (is_board_entity k \<and> board_is_full w p \<or>
                  over_limit (kind_limit (rules w) k) (count_kind w entries k)) \<or>
      z = SecretZone \<and> (k = Quest \<and> quest_limit (rules w) \<le> count_kind w entries Quest \<or>
                        k \<in> {SecretKind, Sidequest} \<and>
                        list_ex (\<lambda>i. component w e_definition i = Some def) entries))"

definition validate_generation_capacity ::
  "world \<Rightarrow> player_id \<Rightarrow> zone \<Rightarrow> entity_kind \<Rightarrow> rstring \<Rightarrow> (zone_error, unit) outcome" where
  "validate_generation_capacity w p z k def =
     (if generated_destination_is_full w p z k def then err (Full p z) else Inr ())"

definition validate_position :: "zone \<Rightarrow> nat \<Rightarrow> nat option \<Rightarrow> (zone_error, unit) outcome" where
  "validate_position z len requested =
     (case requested of None \<Rightarrow> Inr ()
      | Some n \<Rightarrow> if len < n then err (InvalidPosition z n len) else Inr ())"

definition validate_board_position :: "world \<Rightarrow> player_id \<Rightarrow> nat option \<Rightarrow> (zone_error, unit) outcome" where
  "validate_board_position w p requested = validate_position Play (length (board_entities w p)) requested"

definition validate_zone_position ::
  "world \<Rightarrow> player_id \<Rightarrow> zone \<Rightarrow> nat option \<Rightarrow> (zone_error, unit) outcome" where
  "validate_zone_position w p z requested = validate_position z (length (zone_entities w p z)) requested"

definition board_position_to_zone_position :: "world \<Rightarrow> player_id \<Rightarrow> nat \<Rightarrow> nat" where
  "board_position_to_zone_position w p n =
     (let entries = zone_entities w p Play;
          places = map fst (filter (\<lambda>(_, i). on_board w i) (enumerate 0 entries))
      in if n < length places then places ! n
         else if places = [] then length entries else last places + 1)"

definition resolve_generation_position ::
  "world \<Rightarrow> player_id \<Rightarrow> zone \<Rightarrow> entity_kind \<Rightarrow> nat option \<Rightarrow> (zone_error, nat option) outcome" where
  "resolve_generation_position w p z k requested =
     (if z \<noteq> Play \<or> \<not> is_board_entity k then Inr None
      else and_then (validate_board_position w p requested) (\<lambda>_.
        Inr (map_option (board_position_to_zone_position w p) requested)))"

text \<open>The weapons of a replacement are not counted against the weapon limit.\<close>

definition equipping :: "world \<Rightarrow> player_id \<Rightarrow> game_entity_id \<Rightarrow> bool" where
  "equipping w p i \<longleftrightarrow>
     bt_contains (pending_weapons (equipment w)) i \<or>
     list_ex (\<lambda>(_, old). old = Some i) (pending_weapons (equipment w)) \<or>
     active_weapon (equipment w) p = Some i"

definition destination_is_full :: "world \<Rightarrow> game_entity_id \<Rightarrow> player_id \<Rightarrow> zone \<Rightarrow> bool" where
  "destination_is_full w i p z \<longleftrightarrow>
     (if z = Play \<and> component w e_controller i = Some p \<and> has_kind w i Weapon \<and> equipping w p i then False
      else over_limit (zone_limit (rules w) z) (length (zone_entities w p z)) \<or>
        (case component w e_kind i of None \<Rightarrow> False
         | Some k \<Rightarrow> generated_destination_is_full w p z k
             (or_default [] (component w e_definition i))))"

definition semantic_zone_position :: "world \<Rightarrow> game_entity_id \<Rightarrow> player_id \<Rightarrow> zone \<Rightarrow> nat option" where
  "semantic_zone_position w i p z =
     (if z = Play \<and> on_board w i then position (\<lambda>c. c = i) (board_entities w p)
      else position (\<lambda>c. c = i) (zone_entities w p z))"

definition resolve_destination_position ::
  "world \<Rightarrow> game_entity_id \<Rightarrow> player_id \<Rightarrow> zone \<Rightarrow> nat option \<Rightarrow> nat option \<Rightarrow> (zone_error, nat option) outcome" where
  "resolve_destination_position w i p z requested preserved =
     (if z = Play \<and> on_board w i \<and> requested \<noteq> None then
        and_then (validate_board_position w p requested) (\<lambda>_.
        Inr (map_option (board_position_to_zone_position w p) requested))
      else
        let place = (if requested = None then preserved else requested) in
        and_then (validate_zone_position w p z place) (\<lambda>_. Inr place))"

section \<open>The index\<close>

definition put_index :: "player_id \<Rightarrow> zone \<Rightarrow> game_entity_id list \<Rightarrow> world \<Rightarrow> world" where
  "put_index p z xs w = w\<lparr>zone_index := (zone_index w)((p, z) := xs)\<rparr>"

definition refresh_positions :: "player_id \<Rightarrow> zone \<Rightarrow> ('e, unit) step" where
  "refresh_positions p z = ask (\<lambda>w.
     for_all (\<lambda>(n, i). update_if i (\<lambda>e. e\<lparr>e_position := Some n\<rparr>)) (enumerate 0 (zone_entities w p z)))"

definition insert_into_zone_unchecked ::
  "game_entity_id \<Rightarrow> player_id \<Rightarrow> zone \<Rightarrow> nat option \<Rightarrow> ('e, unit) step" where
  "insert_into_zone_unchecked i p z requested = ask (\<lambda>w.
     let entries = zone_entities w p z;
         n = or_default (length entries) requested
     in if ents w i = None \<or> length entries < n then die
        else seq (change (put_index p z (take n entries @ i # drop n entries)))
          (seq (update i (\<lambda>e. e\<lparr>e_controller := Some p, e_zone := Some z\<rparr>))
            (refresh_positions p z)))"

definition insert_into_zone ::
  "game_entity_id \<Rightarrow> player_id \<Rightarrow> zone \<Rightarrow> nat option \<Rightarrow> (zone_error, unit) step" where
  "insert_into_zone i p z requested = ask (\<lambda>w.
     if ents w i = None then fail (ZoneEntityNotFound i)
     else if destination_is_full w i p z then fail (Full p z)
     else seq (lift (validate_zone_position w p z requested))
       (insert_into_zone_unchecked i p z requested))"

definition remove_from_index :: "game_entity_id \<Rightarrow> player_id \<Rightarrow> zone \<Rightarrow> (zone_error, nat) step" where
  "remove_from_index i p z = ask (\<lambda>w.
     let entries = zone_entities w p z in
     seq (change (put_index p z entries))
       (case position (\<lambda>c. c = i) entries of
          None \<Rightarrow> fail (MissingIndexEntry i z)
        | Some n \<Rightarrow> seq (change (put_index p z (take n entries @ drop (Suc n) entries)))
            (seq (refresh_positions p z) (ret n))))"

section \<open>Weapons and deaths of a movement\<close>

definition track_entry :: "game_entity_id \<Rightarrow> ('e, unit) step" where
  "track_entry i = ask (\<lambda>w.
     unless_none (ents w i) (\<lambda>e.
     let owner = e_controller e;
         in_play = (e_zone e = Some Play \<and> e_kind e = Some Weapon);
         kept = (\<lambda>p. case active_weapon (equipment w) p of None \<Rightarrow> None
                   | Some x \<Rightarrow> if x \<noteq> i \<or> in_play \<and> Some p = owner then Some x else None)
     in seq (change (\<lambda>w. w\<lparr>equipment := (equipment w)\<lparr>active_weapon := kept\<rparr>\<rparr>))
       (if in_play \<and> \<not> list_ex (\<lambda>(_, old). old = Some i) (pending_weapons (equipment w))
        then unless_none owner (\<lambda>p.
          if kept p = None
          then change (\<lambda>w. w\<lparr>equipment := (equipment w)\<lparr>active_weapon := kept(p \<mapsto> i)\<rparr>\<rparr>)
          else ret ())
        else ret ())))"

definition can_die :: "entity_kind \<Rightarrow> bool" where
  "can_die k \<longleftrightarrow> k \<in> {Minion, Location, Weapon}"

definition record_full_zone_death :: "game_entity_id \<Rightarrow> nat \<Rightarrow> ('e, unit) step" where
  "record_full_zone_death i remembered = ask (\<lambda>w.
     unless_none (ents w i) (\<lambda>e.
     unless_none (e_controller e) (\<lambda>p.
     unless_none (e_kind e) (\<lambda>k.
       if \<not> can_die k then ret ()
       else bnd (to_u32 (length (pending_deaths w))) (\<lambda>ordinal.
         let record = \<lparr>dead_entity = i, death_controller = p, death_kind = k,
               death_play_order = play_order_of w i, remembered_zone_position = remembered,
               death_ordinal = ordinal, turn_of_death = turn_number (game w)\<rparr> in
         seq (push_trace (EntityDied i))
           (change (\<lambda>w. w\<lparr>death_cache := death_cache w @ [record],
                          pending_deaths := pending_deaths w @ [record]\<rparr>)))))))"

section \<open>Movement\<close>

definition clear_post_death_auras :: "game_entity_id \<Rightarrow> ('e, unit) step" where
  "clear_post_death_auras i = ask (\<lambda>w.
     if ents w i = None then ret ()
     else seq (update i (\<lambda>e. e\<lparr>e_attack_auras := None, e_other_auras := None\<rparr>)) (recalculate_stats i))"

text \<open>
  \<open>reset_runtime_state\<close> calls back \<open>move_entity_with_request\<close>, which is the parameter \<open>mv\<close> here.
  Attached enchantments are taken in the order of \<open>iter_entities\<close>.
\<close>

definition detach_request :: "game_entity_id \<Rightarrow> player_id \<Rightarrow> zone_move_request" where
  "detach_request i p = \<lparr>move_entity = i, destination_controller = p, destination = RemovedFromGame,
     move_position = None, move_kind = DetachEnchantment\<rparr>"

definition attached_to :: "world \<Rightarrow> game_entity_id \<Rightarrow> game_entity_id list" where
  "attached_to w i = map fst (filter (\<lambda>(_, e). e_attached_to e = Some i) (iter_entities w))"

definition reset_runtime_state ::
  "(zone_move_request \<Rightarrow> (zone_error, zone_move_outcome) step) \<Rightarrow> game_entity_id \<Rightarrow> ('e, unit) step" where
  "reset_runtime_state mv i =
     seq (update_if i (\<lambda>e. e\<lparr>e_weapon := map_option (\<lambda>s. s\<lparr>durability := base_durability s\<rparr>) (e_weapon e)\<rparr>))
     (ask (\<lambda>w. unless_none (ents w i) (\<lambda>e.
       let keywords = or_default {} (e_base_keywords e);
           attachments = (if e_keep_enchantments e then [] else attached_to w i)
       in seq (for_all (\<lambda>a. seq (detach a)
            (ask (\<lambda>w. ignore (mv (detach_request a (or_default One (component w e_controller a))))))) attachments)
         (seq (update i (\<lambda>e'. e'\<lparr>
            e_pending_destroy := False, e_silenced := False,
            e_damage := Some 0, e_keywords := Some keywords,
            e_health_auras := None, e_attack_auras := None, e_other_auras := None,
            e_stats := (case e_base e of None \<Rightarrow> e_stats e'
              | Some b \<Rightarrow> Some \<lparr>attack = base_attack b, maximum_health = base_health b\<rparr>),
            e_attack_state := (if e_attack_state e \<noteq> None
              then Some \<lparr>attacks_this_turn = 0, readiness_blocked = True\<rparr> else e_attack_state e'),
            e_armor := (if e_armor e \<noteq> None then Some 0 else e_armor e')\<rparr>))
         (recalculate i)))))"

definition apply_movement_state_policy ::
  "(zone_move_request \<Rightarrow> (zone_error, zone_move_outcome) step) \<Rightarrow> zone_move_request \<Rightarrow> zone \<Rightarrow> ('e, unit) step" where
  "apply_movement_state_policy mv rq from =
     (let i = move_entity rq; to = destination rq in
      seq (if to = Play \<and> from \<noteq> Play
           then bnd allocate_play_order (\<lambda>n. update_if i (\<lambda>e. e\<lparr>e_play_order := Some n\<rparr>)) else ret ())
      (seq (track_entry i)
      (seq (if from = Play \<and> to \<noteq> Play then clear_post_death_auras i else ret ())
      (seq (if resets_runtime_state (move_kind rq) from to then reset_runtime_state mv i
            else if from = Hand \<and> to = Play then update_if i (\<lambda>e. e\<lparr>e_pending_destroy := False\<rparr>)
            else ret ())
      (if from = to \<and> to = Play
       then update_if i (\<lambda>e. e\<lparr>e_attack_state :=
              map_option (\<lambda>a. a\<lparr>readiness_blocked := True\<rparr>) (e_attack_state e)\<rparr>)
       else ret ())))))"

definition move_to_graveyard_after_failed_move ::
  "(zone_move_request \<Rightarrow> (zone_error, zone_move_outcome) step) \<Rightarrow>
    game_entity_id \<Rightarrow> zone \<Rightarrow> player_id \<Rightarrow> zone_movement_kind \<Rightarrow> (zone_error, zone_move_outcome) step" where
  "move_to_graveyard_after_failed_move mv i from p kind = ask (\<lambda>w.
     need (MissingIndexEntry i from) (semantic_zone_position w i p from) (\<lambda>remembered.
         seq (remove_from_index i p from)
         (seq (insert_into_zone i p Graveyard None)
         (seq (apply_movement_state_policy mv \<lparr>move_entity = i, destination_controller = p,
                 destination = Graveyard, move_position = None, move_kind = kind\<rparr> from)
         (seq (if kind = DeathMove then record_full_zone_death i remembered else ret ())
         (ret (FullZoneRemoval from p remembered)))))))"

definition move_with ::
  "(zone_move_request \<Rightarrow> (zone_error, zone_move_outcome) step) \<Rightarrow>
    zone_move_request \<Rightarrow> (zone_error, zone_move_outcome) step" where
  "move_with mv rq = ask (\<lambda>w.
     let i = move_entity rq; p = destination_controller rq; to = destination rq in
     need (ZoneEntityNotFound i) (component w e_zone i) (\<lambda>from.
     need (ZoneEntityNotFound i) (component w e_controller i) (\<lambda>owner.
     let same_zone = (from = to \<and> owner = p) in
     if \<not> same_zone \<and> destination_is_full w i p to then
       (case move_kind rq of
          ForcePlay \<Rightarrow> ret PreventedByFullZone
        | DrawMove \<Rightarrow> move_to_graveyard_after_failed_move mv i from owner BurnMove
        | _ \<Rightarrow> move_to_graveyard_after_failed_move mv i from owner
            (if from = Play then DeathMove else DiscardMove))
     else
     need (MissingIndexEntry i from) (semantic_zone_position w i owner from) (\<lambda>remembered.
     bnd (remove_from_index i owner from) (\<lambda>n.
     ask (\<lambda>w1.
     case resolve_destination_position w1 i p to (move_position rq) (if same_zone then Some n else None) of
       Inl e \<Rightarrow> seq (insert_into_zone_unchecked i owner from (Some n)) (lift (Inl e))
     | Inr place \<Rightarrow>
         seq (insert_into_zone_unchecked i p to place)
         (seq (apply_movement_state_policy mv rq from)
         (ret (Moved from owner remembered)))))))))"

text \<open>
  The recursion of the source is at most one call deep: a detached enchantment goes to
  \<open>RemovedFromGame\<close>, which is never full and resets nothing.
\<close>

primrec move_fuel :: "nat \<Rightarrow> zone_move_request \<Rightarrow> (zone_error, zone_move_outcome) step" where
  "move_fuel 0 = (\<lambda>_. die)"
| "move_fuel (Suc n) = move_with (move_fuel n)"

definition move_entity_with_request :: "zone_move_request \<Rightarrow> (zone_error, zone_move_outcome) step" where
  "move_entity_with_request = move_fuel 2"

definition move_to :: "game_entity_id \<Rightarrow> zone \<Rightarrow> nat option \<Rightarrow> (zone_error, zone_move_outcome) step" where
  "move_to i to requested = ask (\<lambda>w.
     need (ZoneEntityNotFound i) (component w e_controller i) (\<lambda>p.
       move_entity_with_request \<lparr>move_entity = i, destination_controller = p,
         destination = to, move_position = requested, move_kind = NormalMove\<rparr>))"

definition assert_zone_invariants :: "world \<Rightarrow> (string, unit) outcome" where
  "assert_zone_invariants w =
     try_fold (\<lambda>_ (p, z).
       try_fold (\<lambda>_ (n, i).
         case ents w i of None \<Rightarrow> err ''zone index references missing''
         | Some e \<Rightarrow>
             if e_zone e = None then err ''indexed entity has no Zone''
             else if e_controller e = None then err ''indexed entity has no Controller''
             else if e_position e = None then err ''indexed entity has no ZonePosition''
             else if e_zone e \<noteq> Some z \<or> e_controller e \<noteq> Some p \<or> e_position e \<noteq> Some n
             then err ''zone index disagrees'' else Inr ())
         () (enumerate 0 (zone_entities w p z)))
       () (List.product all_players all_zones)"

end
