(* ===== verification/Hs_Resolver.thy ===== *)
theory Hs_Resolver imports Hs_World begin

text \<open>
  The resolution stack (\<open>simulator/resolver.rs\<close>): a sequence with its budget, one-shot operations
  pushed and popped in LIFO order with fresh identities, event and draw result slots, the scopes of
  a played minion, and the idle invariant.
\<close>

definition sequence_clear :: "resolution_work \<Rightarrow> bool" where
  "sequence_clear r \<longleftrightarrow> stack r = [] \<and> events r = [] \<and> event_slots r = [] \<and> draw_result_slots r = [] \<and>
     play_scopes r = [] \<and> durability_payers r = [] \<and> pending_played_self_transforms r = {} \<and>
     pending_choice r = None"

definition begin_sequence :: "(resolution_error, unit) step" where
  "begin_sequence = ask (\<lambda>w.
     let budget = resolution_budget (rules w) in
     if sequence_active (work w) \<or> \<not> sequence_clear (work w) then fail AlreadyResolving
     else change_work (\<lambda>r. r\<lparr>remaining_budget := budget, sequence_active := True\<rparr>))"

definition finish_sequence :: "('e, unit) step" where
  "finish_sequence = change_work (\<lambda>r. r\<lparr>sequence_active := False\<rparr>)"

definition abandon_sequence :: "('e, unit) step" where
  "abandon_sequence = change_work (\<lambda>r. r\<lparr>stack := [], events := [], event_slots := [],
     draw_result_slots := [], play_scopes := [], durability_payers := [],
     pending_played_self_transforms := {}, pending_choice := None, sequence_active := False,
     remaining_budget := 0\<rparr>)"

definition push_resolution_op :: "resolution_op \<Rightarrow> ('e, resolution_id) step" where
  "push_resolution_op op = ask (\<lambda>w.
     let i = next_resolution_id (work w) in
     if i < u64_max' then
       seq (change_work (\<lambda>r. r\<lparr>next_resolution_id := i + 1,
              stack := stack r @ [\<lparr>op_id = i, operation = op\<rparr>]\<rparr>))
         (ret i)
     else die)"

definition push_op :: "resolution_op \<Rightarrow> ('e, unit) step" where
  "push_op op = seq (push_resolution_op op) (ret ())"

definition push_resolution_ops :: "resolution_op list \<Rightarrow> ('e, unit) step" where
  "push_resolution_ops ops = for_all push_op (rev ops)"

definition open_play_scope :: "game_entity_id \<Rightarrow> trigger_seed list \<Rightarrow> ('e, resolution_id) step" where
  "open_play_scope subject seeds =
     bnd (push_resolution_op (FinishPlayedSelfTransform subject seeds)) (\<lambda>scope.
     seq (change_work (\<lambda>r. r\<lparr>play_scopes := bt_insert scope subject (play_scopes r)\<rparr>)) (ret scope))"

definition validate_play_scope ::
  "world \<Rightarrow> resolution_id \<Rightarrow> game_entity_id \<Rightarrow> (simulation_error, unit) outcome" where
  "validate_play_scope w scope subject =
     (if bt_get (play_scopes (work w)) scope \<noteq> Some subject \<or> \<not> has_kind w subject Minion
      then err (InvalidTransformation ''invalid play scope'') else Inr ())"

definition pop_resolution_op :: "('e, stacked_resolution_op option) step" where
  "pop_resolution_op = ask (\<lambda>w.
     if stack (work w) = [] then ret None
     else seq (change_work (\<lambda>r. r\<lparr>stack := butlast (stack r)\<rparr>)) (ret (Some (last (stack (work w))))))"

definition consume_budget :: "resolution_id \<Rightarrow> (resolution_error, unit) step" where
  "consume_budget i = ask (\<lambda>w.
     if remaining_budget (work w) = 0 then fail (BudgetExhausted (Some i))
     else change_work (\<lambda>r. r\<lparr>remaining_budget := remaining_budget r - 1\<rparr>))"

definition allocate_event_id :: "('e, event_id) step" where
  "allocate_event_id = ask (\<lambda>w.
     let i = next_event_id (work w) in
     if i < u64_max' then seq (change_work (\<lambda>r. r\<lparr>next_event_id := i + 1\<rparr>)) (ret i) else die)"

text \<open>A failed debug assertion (the slot is new) is a panic.\<close>

definition allocate_event_slot :: "('e, event_slot_id) step" where
  "allocate_event_slot = ask (\<lambda>w.
     let i = next_event_slot_id (work w) in
     if i < u64_max' \<and> bt_get (event_slots (work w)) i = None then
       seq (change_work (\<lambda>r. r\<lparr>next_event_slot_id := i + 1,
              event_slots := bt_insert i None (event_slots r)\<rparr>))
         (ret i)
     else die)"

definition allocate_draw_result_slot :: "('e, draw_result_slot_id) step" where
  "allocate_draw_result_slot = ask (\<lambda>w.
     let i = next_draw_result_slot_id (work w) in
     if i < u64_max' \<and> bt_get (draw_result_slots (work w)) i = None then
       seq (change_work (\<lambda>r. r\<lparr>next_draw_result_slot_id := i + 1,
              draw_result_slots := bt_insert i None (draw_result_slots r)\<rparr>))
         (ret i)
     else die)"

definition fill_draw_result_slot :: "draw_result_slot_id \<Rightarrow> draw_outcome \<Rightarrow> (resolution_error, unit) step" where
  "fill_draw_result_slot slot outcome = ask (\<lambda>w.
     case bt_get (draw_result_slots (work w)) slot of
       None \<Rightarrow> fail (MissingDrawResultSlot slot)
     | Some (Some _) \<Rightarrow> fail (DrawResultSlotAlreadyFilled slot)
     | Some None \<Rightarrow> change_work (\<lambda>r. r\<lparr>draw_result_slots :=
         bt_adjust slot (\<lambda>_. Some outcome) (draw_result_slots r)\<rparr>))"

definition take_draw_result :: "draw_result_slot_id \<Rightarrow> (resolution_error, draw_outcome) step" where
  "take_draw_result slot = ask (\<lambda>w.
     case bt_get (draw_result_slots (work w)) slot of
       None \<Rightarrow> fail (MissingDrawResultSlot slot)
     | Some outcome \<Rightarrow>
         seq (change_work (\<lambda>r. r\<lparr>draw_result_slots := bt_remove slot (draw_result_slots r)\<rparr>))
           (case outcome of None \<Rightarrow> fail (EmptyDrawResultSlot slot) | Some x \<Rightarrow> ret x))"

definition resolution_is_active :: "world \<Rightarrow> bool" where
  "resolution_is_active w = sequence_active (work w)"

section \<open>Invariants checked by the source\<close>

fun check_payer :: "(resolution_id, player_id \<times> game_entity_id) btree_map \<Rightarrow> stacked_resolution_op \<Rightarrow>
    (string, (resolution_id, player_id \<times> game_entity_id) btree_map) outcome" where
  "check_payer payers s =
     (case operation s of
        RunSequenceStep (ConsumeDurability player weapon) \<Rightarrow>
          if bt_get payers (op_id s) \<noteq> Some (player, weapon)
          then err ''durability payer differs from combat preparation capture''
          else Inr (bt_remove (op_id s) payers)
      | RunGuardedSequenceStep guards (ConsumeDurability player weapon) \<Rightarrow>
          err ''durability payer cannot have a conditional completion''
      | _ \<Rightarrow> Inr payers)"

definition validate_durability_payers :: "resolution_work \<Rightarrow> (string, unit) outcome" where
  "validate_durability_payers r =
     and_then (try_fold check_payer (durability_payers r) (stack r)) (\<lambda>payers.
     if payers \<noteq> [] then err ''durability payer has no one-shot completion'' else Inr ())"

definition assert_resolution_invariants :: "world \<Rightarrow> (string, unit) outcome" where
  "assert_resolution_invariants w =
     and_then (validate_durability_payers (work w)) (\<lambda>_.
     if \<not> sequence_active (work w) then
       (if \<not> sequence_clear (work w) then err ''idle resolution work retains work'' else Inr ())
     else if status (game w) = AwaitingChoice \<and> pending_choice (work w) = None
     then err ''AwaitingChoice has no pending choice''
     else Inr ())"

end
