(* ===== verification/Hs_Weapon.thy ===== *)
theory Hs_Weapon imports Hs_Aura Hs_Zone Hs_Resolver begin

text \<open>
  Weapons (\<open>simulator/weapon.rs\<close>): the active weapon, its attack and windfury, and its
  replacement in two steps. The newly equipped weapon is active at once; the superseded one stays
  in play as an observer until \<open>finish_equip\<close>. \<open>track_entry\<close> is with the movements that call it.
\<close>

definition validate_card :: "card \<Rightarrow> (simulation_error, unit) outcome" where
  "validate_card c =
     (if card_kind c = Weapon \<and> card_durability c \<le> 0
      then err (Invariant ''weapon base durability must be positive'') else Inr ())"

definition weapon_in_play :: "world \<Rightarrow> game_entity_id \<Rightarrow> bool" where
  "weapon_in_play w i \<longleftrightarrow> component w e_zone i = Some Play \<and> component w e_kind i = Some Weapon"

text \<open>\<open>weapon::active\<close>.\<close>

definition weapon_active :: "world \<Rightarrow> player_id \<Rightarrow> game_entity_id option" where
  "weapon_active w p =
     (case active_weapon (equipment w) p of
        None \<Rightarrow> None
      | Some i \<Rightarrow> if weapon_in_play w i \<and> component w e_controller i = Some p then Some i else None)"

definition attack_weapon :: "world \<Rightarrow> game_entity_id \<Rightarrow> (player_id \<times> game_entity_id) option" where
  "attack_weapon w i =
     (if \<not> has_kind w i Hero then None
      else case component w e_controller i of
        None \<Rightarrow> None
      | Some p \<Rightarrow> if active_player (game w) \<noteq> p then None else map_option (Pair p) (weapon_active w p))"

definition attack_of :: "world \<Rightarrow> game_entity_id \<Rightarrow> int" where
  "attack_of w i = (case component w e_stats i of None \<Rightarrow> 0 | Some st \<Rightarrow> attack st)"

definition effective_attack :: "world \<Rightarrow> game_entity_id \<Rightarrow> int" where
  "effective_attack w i = saturate_i32 (attack_of w i +
     (case attack_weapon w i of None \<Rightarrow> 0 | Some (_, weapon) \<Rightarrow> attack_of w weapon))"

definition grants_windfury :: "world \<Rightarrow> game_entity_id \<Rightarrow> bool" where
  "grants_windfury w i =
     (case attack_weapon w i of None \<Rightarrow> False | Some (_, weapon) \<Rightarrow> has_keyword w weapon Windfury)"

definition put_active :: "player_id \<Rightarrow> game_entity_id \<Rightarrow> world \<Rightarrow> world" where
  "put_active p i w = w\<lparr>equipment := (equipment w)\<lparr>active_weapon := (active_weapon (equipment w))(p \<mapsto> i)\<rparr>\<rparr>"

definition change_pending ::
  "((game_entity_id, game_entity_id option) btree_map \<Rightarrow> (game_entity_id, game_entity_id option) btree_map) \<Rightarrow>
    world \<Rightarrow> world" where
  "change_pending f w = w\<lparr>equipment := (equipment w)\<lparr>pending_weapons := f (pending_weapons (equipment w))\<rparr>\<rparr>"

definition begin_equip :: "player_id \<Rightarrow> game_entity_id \<Rightarrow> unit sim" where
  "begin_equip p i = ask (\<lambda>w.
     let previous = weapon_active w p;
         failed = seq (change (change_pending (bt_remove i))) (fail (Invariant ''equip move failed''))
     in if previous = Some i \<or> bt_contains (pending_weapons (equipment w)) i
        then fail (Invariant ''weapon already being equipped'')
        else seq (change (change_pending (bt_insert i previous)))
          (handle (move_to i Play None) (\<lambda>_. failed) (\<lambda>outcome.
           case outcome of
             Moved from _ _ \<Rightarrow>
               seq (push_trace (ZoneMoved i from Play))
               (seq (change (put_active p i))
               (bnd allocate_play_order (\<lambda>n. update i (\<lambda>e. e\<lparr>e_play_order := Some n\<rparr>))))
           | _ \<Rightarrow> failed)))"

definition retire_weapon :: "game_entity_id \<Rightarrow> nat sim" where
  "retire_weapon i = ask (\<lambda>w.
     need (EntityNotFound i) (component w e_controller i) (\<lambda>p.
       let place = or_default 0 (semantic_zone_position w i p Play) in
       bnd (convert ZoneFailed (move_entity_with_request \<lparr>move_entity = i, destination_controller = p,
              destination = Graveyard, move_position = None, move_kind = DeathMove\<rparr>)) (\<lambda>outcome.
       case outcome of
         Moved from _ _ \<Rightarrow> seq (push_trace (ZoneMoved i from Graveyard)) (ret place)
       | _ \<Rightarrow> fail (Invariant ''weapon retirement failed''))))"

definition finish_equip :: "game_entity_id \<Rightarrow> unit sim" where
  "finish_equip i = ask (\<lambda>w.
     need (Invariant ''missing weapon replacement scope'') (bt_get (pending_weapons (equipment w)) i) (\<lambda>previous.
       seq (change (change_pending (bt_remove i)))
       (unless_none previous (\<lambda>old. ask (\<lambda>w.
         if weapon_in_play w old
         then bnd (retire_weapon old) (\<lambda>place. record_full_zone_death old place)
         else ret ())))))"

definition consume_durability :: "player_id \<Rightarrow> game_entity_id \<Rightarrow> ('e, unit) step" where
  "consume_durability p i = ask (\<lambda>w.
     if weapon_active w p \<noteq> Some i then ret ()
     else unless_none (component w e_weapon i) (\<lambda>s.
       let current = max 0 (saturate_i32 (durability s - 1)) in
       seq (update i (\<lambda>e. e\<lparr>e_weapon := Some (s\<lparr>durability := current\<rparr>)\<rparr>))
         (push_trace (WeaponDurability i (durability s) current))))"

definition abandon_equips :: "('e, unit) step" where
  "abandon_equips = ask (\<lambda>w.
     seq (change (change_pending (\<lambda>_. [])))
     (for_all (\<lambda>old. ask (\<lambda>w.
        if weapon_in_play w old \<and> \<not> list_ex (\<lambda>p. active_weapon (equipment w) p = Some old) all_players
        then ignore (retire_weapon old) else ret ()))
       (List.map_filter snd (pending_weapons (equipment w)))))"

section \<open>The invariant the source checks\<close>

definition finishes_equip :: "game_entity_id \<Rightarrow> stacked_resolution_op \<Rightarrow> bool" where
  "finishes_equip i s \<longleftrightarrow> operation s = RunSequenceStep (FinishEquip i)"

definition check_equip_scope :: "world \<Rightarrow> stacked_resolution_op \<Rightarrow> (string, unit) outcome" where
  "check_equip_scope w s =
     (case operation s of
        RunSequenceStep (FinishEquip i) \<Rightarrow>
          if bt_contains (pending_weapons (equipment w)) i then Inr ()
          else err ''equip completion lacks a scope''
      | _ \<Rightarrow> Inr ())"

definition check_replacement :: "world \<Rightarrow> game_entity_id \<times> game_entity_id option \<Rightarrow> (string, unit) outcome" where
  "check_replacement w = (\<lambda>(new, old).
     case ents w new of
       None \<Rightarrow> err ''missing equip source''
     | Some e \<Rightarrow>
         if old = Some new \<or> e_kind e \<noteq> Some Weapon \<or> e_weapon e = None \<or>
            (case old of None \<Rightarrow> False | Some i \<Rightarrow> \<not> has_kind w i Weapon) \<or> e_controller e = None
         then err ''invalid replacement scope''
         else if (case old of None \<Rightarrow> False | Some i \<Rightarrow> component w e_controller i \<noteq> e_controller e)
         then err ''replacement weapons must share the same controller''
         else if length (filter (finishes_equip new) (stack (work w))) \<noteq> 1
         then err ''replacement scope must own one completion''
         else Inr ())"

definition check_weapon_in_zone :: "world \<Rightarrow> player_id \<Rightarrow> game_entity_id \<Rightarrow> (string, unit) outcome" where
  "check_weapon_in_zone w p i =
     (if \<not> has_kind w i Weapon then Inr ()
      else if component w e_weapon i = None then err ''weapon lacks durability''
      else if weapon_active w p \<noteq> Some i \<and> \<not> list_ex (\<lambda>(_, old). old = Some i) (pending_weapons (equipment w))
      then err ''extra weapon lacks a replacement scope''
      else Inr ())"

definition assert_weapon_invariants :: "world \<Rightarrow> (string, unit) outcome" where
  "assert_weapon_invariants w =
     and_then (try_fold (\<lambda>_ p.
       case active_weapon (equipment w) p of
         None \<Rightarrow> Inr ()
       | Some i \<Rightarrow> if weapon_active w p \<noteq> Some i then err ''invalid active weapon reference'' else Inr ())
       () all_players) (\<lambda>_.
     and_then (try_fold (\<lambda>_. check_equip_scope w) () (stack (work w))) (\<lambda>_.
     and_then (try_fold (\<lambda>_. check_replacement w) () (pending_weapons (equipment w))) (\<lambda>_.
     try_fold (\<lambda>_ p. try_fold (\<lambda>_. check_weapon_in_zone w p) () (zone_entities w p Play)) () all_players)))"

end
