(* ===== verification/Hs_Cards.thy ===== *)
theory Hs_Cards imports Hs_Weapon begin

text \<open>
  The creation of entities: cards and players (\<open>simulator/simulation_card_runtime.rs\<close>), and attached
  enchantments (\<open>simulator/enchantment.rs\<close>). A new entity gets all its components at once and then
  its place; a card that does not fit is despawned again.
\<close>

definition card_entity :: "player_id \<Rightarrow> card \<Rightarrow> game_entity" where
  "card_entity p c = no_components\<lparr>
     e_definition := Some (definition_id c), e_kind := Some (card_kind c), e_controller := Some p,
     e_name := Some (card_name c), e_play_order := Some 0,
     e_base := Some \<lparr>base_attack = card_attack c, base_health = card_health c\<rparr>,
     e_stats := Some \<lparr>attack = card_attack c, maximum_health = card_health c\<rparr>,
     e_damage := Some 0,
     e_attack_state := Some \<lparr>attacks_this_turn = 0, readiness_blocked = True\<rparr>,
     e_base_keywords := Some (card_keywords c), e_keywords := Some (card_keywords c),
     e_runtime := Some \<lparr>base_cost = mana_cost c, cost = mana_cost c, program = card_effects c,
       targeting = card_targeting c\<rparr>,
     e_triggers := Some (card_triggers c), e_auras := Some (card_auras c),
     e_continuous := Some (card_continuous_effects c),
     e_weapon := (if card_kind c = Weapon
       then Some \<lparr>base_durability = card_durability c, durability = card_durability c\<rparr> else None),
     e_hero_power := (if card_kind c = HeroPower
       then Some \<lparr>uses_this_turn = 0, exhausted = False\<rparr> else None),
     e_armor := (if card_kind c = Hero then Some 0 else None),
     e_hero_class := (if card_kind c = Hero then Some Neutral else None)\<rparr>"

definition validate_card_spawn ::
  "world \<Rightarrow> player_id \<Rightarrow> card \<Rightarrow> zone \<Rightarrow> nat option \<Rightarrow> (simulation_error, nat option) outcome" where
  "validate_card_spawn w p c z requested =
     and_then (validate_card c) (\<lambda>_.
     and_then (map_err (map_failure ZoneFailed) (validate_generation_capacity w p z (card_kind c) (definition_id c))) (\<lambda>_.
     map_err (map_failure ZoneFailed) (resolve_generation_position w p z (card_kind c) requested)))"

definition spawn_validated_card ::
  "player_id \<Rightarrow> card \<Rightarrow> zone \<Rightarrow> nat option \<Rightarrow> game_entity_id sim" where
  "spawn_validated_card p c z place =
     bnd allocate_game_id (\<lambda>i.
     seq (spawn i (card_entity p c))
     (handle (insert_into_zone i p z place)
       (\<lambda>e. seq (despawn i) (fail (ZoneFailed e)))
       (\<lambda>_. seq (track_entry i) (ret i))))"

definition spawn_card_at :: "player_id \<Rightarrow> card \<Rightarrow> zone \<Rightarrow> nat option \<Rightarrow> game_entity_id sim" where
  "spawn_card_at p c z requested = ask (\<lambda>w.
     bnd (lift (validate_card_spawn w p c z requested)) (spawn_validated_card p c z))"

definition spawn_card :: "player_id \<Rightarrow> card \<Rightarrow> zone \<Rightarrow> game_entity_id sim" where
  "spawn_card p c z = spawn_card_at p c z None"

section \<open>Enchantments\<close>

text \<open>The modifier that the caller inserts into the new enchantment is \<open>f\<close>.\<close>

definition enchantment_entity ::
  "player_id \<Rightarrow> rstring \<Rightarrow> rstring \<Rightarrow> nat \<Rightarrow> enchantment_duration \<Rightarrow> bool \<Rightarrow> game_entity" where
  "enchantment_entity p def name order time removable = no_components\<lparr>
     e_definition := Some def, e_kind := Some Enchantment, e_controller := Some p, e_name := Some name,
     e_play_order := Some order, e_duration := Some time, e_silence_removable := removable\<rparr>"

definition spawn_attached_enchantment ::
  "player_id \<Rightarrow> game_entity_id \<Rightarrow> rstring \<Rightarrow> rstring \<Rightarrow> enchantment_duration \<Rightarrow> bool \<Rightarrow> game_entity_id sim" where
  "spawn_attached_enchantment p target def name time removable = ask (\<lambda>w.
     if ents w target = None then fail (EntityNotFound target)
     else bnd allocate_game_id (\<lambda>i.
       bnd allocate_play_order (\<lambda>order.
       seq (spawn i (enchantment_entity p def name order time removable))
       (seq (attach i target)
       (seq (expecting (insert_into_zone i p Play None))
       (ret i))))))"

section \<open>The set-up of a game\<close>

definition player_object :: "player_id \<Rightarrow> rstring \<Rightarrow> bool \<Rightarrow> game_entity" where
  "player_object p name starts = no_components\<lparr>
     e_definition := Some (lit ''system:player''), e_kind := Some PlayerKind, e_controller := Some p,
     e_name := Some name, e_play_order := Some 0,
     e_player := Some \<lparr>player_identity = p, player_name = name, maximum_resources = of_bool starts,
       used_resources = 0, temporary_resources = 0, pending_overload = 0, locked_overload = 0,
       resources_spent = 0, fatigue = 0\<rparr>\<rparr>"

definition hero_object :: "player_id \<Rightarrow> rstring \<Rightarrow> game_entity" where
  "hero_object p name = no_components\<lparr>
     e_definition := Some (lit ''system:hero''), e_kind := Some Hero, e_controller := Some p,
     e_name := Some (name @ lit [CHR 0x27] @ lit ''s Hero''), e_play_order := Some 0,
     e_base := Some \<lparr>base_attack = 0, base_health = starting_health\<rparr>,
     e_stats := Some \<lparr>attack = 0, maximum_health = starting_health\<rparr>,
     e_damage := Some 0, e_armor := Some 0,
     e_attack_state := Some \<lparr>attacks_this_turn = 0, readiness_blocked = False\<rparr>,
     e_base_keywords := Some {}, e_keywords := Some {}, e_hero_class := Some Neutral\<rparr>"

definition spawn_object :: "player_id \<Rightarrow> game_entity \<Rightarrow> zone \<Rightarrow> unit sim" where
  "spawn_object p e z =
     bnd allocate_game_id (\<lambda>i. seq (spawn i e) (convert ZoneFailed (insert_into_zone i p z None)))"

definition spawn_player :: "player_id \<Rightarrow> rstring \<Rightarrow> bool \<Rightarrow> unit sim" where
  "spawn_player p name starts =
     seq (spawn_object p (player_object p name starts) SetAside)
     (seq (spawn_object p (hero_object p name) Play)
     (seq (spawn_card p (card_hero_power (name @ lit [CHR 0x27] @ lit ''s Hero Power'') 2) Play)
     (ret ())))"

definition setup_player :: "player_id \<times> player_config \<Rightarrow> unit sim" where
  "setup_player = (\<lambda>(p, config).
     seq (spawn_player p (config_name config) (p = One))
     (seq (for_all (\<lambda>c. seq (spawn_card p c Deck) (ret ())) (config_deck config))
     (for_all (\<lambda>c. seq (spawn_card p c Hand) (ret ())) (config_hand config))))"

definition setup_game :: "player_config \<Rightarrow> player_config \<Rightarrow> unit sim" where
  "setup_game first second = for_all setup_player (zip all_players [first, second])"

text \<open>
  The world of a new simulation, with the seed and the dominant player. The enumeration order of
  the library is the parameter \<open>order\<close>.
\<close>

definition initial_world :: "(entity_table \<Rightarrow> game_entity_id list) \<Rightarrow> 64 word \<Rightarrow> player_id \<Rightarrow> world" where
  "initial_world order seed dominant = \<lparr>ents = Map.empty, ecs_order = order, zone_index = (\<lambda>_. []),
     rules = default_ruleset, next_game_id = 0, next_play_order = 1, game = default_game_state,
     turns = default_schedule, dominant_player = dominant,
     equipment = \<lparr>active_weapon = Map.empty, pending_weapons = []\<rparr>, game_trace = [],
     death_cache = [], pending_deaths = [], defeated_heroes = {}, generator = rng_new seed, work = empty_work\<rparr>"

definition with_seed_and_dominant_player ::
  "(entity_table \<Rightarrow> game_entity_id list) \<Rightarrow> player_config \<Rightarrow> player_config \<Rightarrow> 64 word \<Rightarrow> player_id \<Rightarrow> world option" where
  "with_seed_and_dominant_player order first second seed dominant =
     (case setup_game first second (initial_world order seed dominant) of
        (Inl _, _) \<Rightarrow> None
      | (Inr _, w) \<Rightarrow> Some (w\<lparr>game := (game w)\<lparr>status := AwaitingAction\<rparr>\<rparr>))"

end
