(* ===== verification/Hs_Places.thy ===== *)
theory Hs_Places imports Hs_Zone begin

text \<open>
  The zone index and the components \<open>Zone\<close>, \<open>Controller\<close> and \<open>ZonePosition\<close> agree, and every
  movement keeps them so.
\<close>

section \<open>The invariant\<close>

text \<open>
  Entity \<open>i\<close> is at place \<open>n\<close> of zone \<open>z\<close> of player \<open>p\<close>. The entities of \<open>X\<close> are out of the index.
\<close>

definition at_place :: "world \<Rightarrow> game_entity_id \<Rightarrow> player_id \<Rightarrow> zone \<Rightarrow> nat \<Rightarrow> bool" where
  "at_place w i p z n \<longleftrightarrow>
     (\<exists>e. ents w i = Some e \<and> e_zone e = Some z \<and> e_controller e = Some p \<and> e_position e = Some n)"

definition index_ok :: "game_entity_id set \<Rightarrow> world \<Rightarrow> bool" where
  "index_ok X w \<longleftrightarrow>
     (\<forall>i p z n. n < length (zone_entities w p z) \<and> zone_entities w p z ! n = i \<longleftrightarrow>
        i \<notin> X \<and> at_place w i p z n) \<and>
     (\<forall>i e. i \<notin> X \<longrightarrow> ents w i = Some e \<longrightarrow> e_zone e \<noteq> None \<longrightarrow> e_controller e \<noteq> None \<and> e_position e \<noteq> None)"

abbreviation zone_ok :: "world \<Rightarrow> bool" where
  "zone_ok \<equiv> index_ok {}"

lemma index_ok_nth: "index_ok X w \<Longrightarrow> n < length (zone_entities w p z) \<Longrightarrow>
    zone_entities w p z ! n \<notin> X \<and> at_place w (zone_entities w p z ! n) p z n"
  unfolding index_ok_def by blast

lemma at_place_unique:
  "at_place w i p z n \<Longrightarrow> at_place w i p' z' n' \<Longrightarrow> p' = p \<and> z' = z \<and> n' = n"
  by (auto simp: at_place_def)

lemma index_ok_distinct: "index_ok X w \<Longrightarrow> distinct (zone_entities w p z)"
  by (metis distinct_conv_nth index_ok_nth at_place_unique)

lemma index_ok_member:
  assumes "index_ok X w"
  shows "i \<in> set (zone_entities w p z) \<longleftrightarrow>
    i \<notin> X \<and> (\<exists>e. ents w i = Some e \<and> e_zone e = Some z \<and> e_controller e = Some p)"
proof
  assume "i \<in> set (zone_entities w p z)"
  then obtain n where "n < length (zone_entities w p z)" "zone_entities w p z ! n = i"
    by (auto simp: in_set_conv_nth)
  with index_ok_nth [OF assms] have "i \<notin> X" "at_place w i p z n" by blast+
  then show "i \<notin> X \<and> (\<exists>e. ents w i = Some e \<and> e_zone e = Some z \<and> e_controller e = Some p)"
    unfolding at_place_def by blast
next
  assume R: "i \<notin> X \<and> (\<exists>e. ents w i = Some e \<and> e_zone e = Some z \<and> e_controller e = Some p)"
  then obtain e where e: "ents w i = Some e" "e_zone e = Some z" "e_controller e = Some p" by blast
  with R assms obtain n where "e_position e = Some n" unfolding index_ok_def by blast
  with e have "at_place w i p z n" by (simp add: at_place_def)
  with R assms have "n < length (zone_entities w p z) \<and> zone_entities w p z ! n = i"
    unfolding index_ok_def by blast
  then show "i \<in> set (zone_entities w p z)" by (auto simp: in_set_conv_nth)
qed

text \<open>What the index depends on.\<close>

definition place_of :: "world \<Rightarrow> game_entity_id \<Rightarrow> (zone option \<times> player_id option \<times> nat option) option" where
  "place_of w i = map_option (\<lambda>e. (e_zone e, e_controller e, e_position e)) (ents w i)"

definition same_places :: "world \<Rightarrow> world \<Rightarrow> bool" where
  "same_places w w' \<longleftrightarrow> zone_index w' = zone_index w \<and> place_of w' = place_of w"

lemma same_places_refl [simp]: "same_places w w"
  by (simp add: same_places_def)

lemma same_places_trans: "same_places w w' \<Longrightarrow> same_places w' w'' \<Longrightarrow> same_places w w''"
  by (simp add: same_places_def)

lemma at_place_place_of: "at_place w i p z n \<longleftrightarrow> place_of w i = Some (Some z, Some p, Some n)"
  by (auto simp: at_place_def place_of_def)

lemma index_ok_place_of:
  "index_ok X w \<longleftrightarrow>
     (\<forall>i p z n. n < length (zone_entities w p z) \<and> zone_entities w p z ! n = i \<longleftrightarrow>
        i \<notin> X \<and> place_of w i = Some (Some z, Some p, Some n)) \<and>
     (\<forall>i z p n. i \<notin> X \<longrightarrow> place_of w i = Some (z, p, n) \<longrightarrow> z \<noteq> None \<longrightarrow> p \<noteq> None \<and> n \<noteq> None)"
  unfolding index_ok_def at_place_place_of by (auto simp: place_of_def)

lemma index_ok_same: "same_places w w' \<Longrightarrow> index_ok X w' = index_ok X w"
  by (simp add: index_ok_place_of same_places_def zone_entities_def)

section \<open>Steps that move nothing\<close>

definition keeps_place :: "(game_entity \<Rightarrow> game_entity) \<Rightarrow> bool" where
  "keeps_place f \<longleftrightarrow> (\<forall>e. e_zone (f e) = e_zone e \<and> e_controller (f e) = e_controller e \<and> e_position (f e) = e_position e)"

lemma same_places_set_entity [simp]:
  "keeps_place f \<Longrightarrow> same_places w (set_entity i f w)"
  by (auto simp: same_places_def set_entity_def place_of_def keeps_place_def fun_eq_iff option.map_comp o_def
      intro!: option.map_cong)

abbreviation stays :: "('e, 'a) step \<Rightarrow> bool" where
  "stays m \<equiv> \<forall>w0. keeps (same_places w0) m"

named_theorems stays \<open>steps that move nothing\<close>

lemma keeps_same_change: "(\<And>w. same_places w (f w)) \<Longrightarrow> keeps (same_places w0) (change f)"
  by (auto simp: keeps_def intro: same_places_trans)

lemma stays_primitive [stays]:
  "keeps_place f \<Longrightarrow> keeps (same_places w0) (update i f)"
  "keeps_place f \<Longrightarrow> keeps (same_places w0) (update_if i f)"
  "keeps (same_places w0) (push_trace t)"
  "keeps (same_places w0) (change_work g)"
  by (auto simp: update_def update_if_def push_trace_def change_work_def keeps_def
      intro: same_places_trans; simp add: same_places_def place_of_def fun_eq_iff)+

lemma stays_counters [stays]:
  "keeps (same_places w0) allocate_game_id"
  "keeps (same_places w0) allocate_play_order"
  "keeps (same_places w0) (i32_op n)"
  "keeps (same_places w0) (to_u32 m)"
  unfolding allocate_game_id_def allocate_play_order_def i32_op_def to_u32_def Let_def
  by (intro keeps keeps_same_change; simp add: same_places_def place_of_def fun_eq_iff)+

lemma stays_detach [stays]: "keeps (same_places w0) (detach i)"
  unfolding detach_def by (intro keeps stays) (simp_all add: keeps_place_def)

lemma stays_recalculate [stays]:
  "keeps (same_places w0) (recalculate_stats i)"
  "keeps (same_places w0) (recalculate_keywords i)"
  "keeps (same_places w0) (recalculate_cost i)"
  "keeps (same_places w0) (recalculate i)"
  unfolding recalculate_def recalculate_stats_def recalculate_keywords_def recalculate_cost_def Let_def
  by (intro keeps stays; simp add: keeps_place_def)+

lemma stays_zone_helpers [stays]:
  "keeps (same_places w0) (track_entry i)"
  "keeps (same_places w0) (record_full_zone_death i n)"
  "keeps (same_places w0) (clear_post_death_auras i)"
  unfolding track_entry_def record_full_zone_death_def clear_post_death_auras_def Let_def
  by (intro keeps stays keeps_same_change; simp add: keeps_place_def same_places_def place_of_def fun_eq_iff)+

section \<open>The index operations\<close>

lemma position_distinct:
  "distinct xs \<Longrightarrow> position (\<lambda>c. c = i) xs = Some n \<longleftrightarrow> n < length xs \<and> xs ! n = i"
proof (induction xs arbitrary: n)
  case (Cons x xs)
  show ?case
  proof (cases "x = i")
    case True
    then show ?thesis using Cons.prems by (cases n) auto
  next
    case False
    then show ?thesis using Cons by (cases n) auto
  qed
qed simp

lemma position_None: "position (\<lambda>c. c = i) xs = None \<longleftrightarrow> i \<notin> set xs"
  by (induction xs) auto

definition numbered :: "nat \<Rightarrow> game_entity_id list \<Rightarrow> entity_table \<Rightarrow> entity_table" where
  "numbered k xs t = (\<lambda>i. map_option (\<lambda>e. case position (\<lambda>c. c = i) xs of None \<Rightarrow> e
     | Some n \<Rightarrow> e\<lparr>e_position := Some (k + n)\<rparr>) (t i))"

lemma number_all:
  "distinct xs \<Longrightarrow> for_all (\<lambda>(n, i). update_if i (\<lambda>e. e\<lparr>e_position := Some n\<rparr>)) (enumerate k xs) w =
    (Inr (), w\<lparr>ents := numbered k xs (ents w)\<rparr>)"
proof (induction xs arbitrary: k w)
  case Nil
  have "numbered k [] (ents w) = ents w" by (simp add: numbered_def fun_eq_iff option.map_ident)
  then show ?case by simp
next
  case (Cons x xs)
  let ?w = "set_entity x (\<lambda>e. e\<lparr>e_position := Some k\<rparr>) w"
  have "numbered (Suc k) xs (ents ?w) = numbered k (x # xs) (ents w)"
  proof
    fix i
    show "numbered (Suc k) xs (ents ?w) i = numbered k (x # xs) (ents w) i"
    proof (cases "i = x")
      case True
      with Cons.prems have "position (\<lambda>c. c = i) xs = None" by (simp add: position_None)
      with True show ?thesis by (cases "ents w x") (simp_all add: numbered_def set_entity_def)
    next
      case False
      then show ?thesis
        by (cases "ents w i"; cases "position (\<lambda>c. c = i) xs") (auto simp: numbered_def set_entity_def)
    qed
  qed
  moreover have "?w\<lparr>ents := t\<rparr> = w\<lparr>ents := t\<rparr>" for t by (simp add: set_entity_def)
  ultimately show ?case using Cons by (simp add: seq_def bnd_def update_if_def)
qed

lemma refresh_positions_run:
  "distinct (zone_entities w p z) \<Longrightarrow>
    refresh_positions p z w = (Inr (), w\<lparr>ents := numbered 0 (zone_entities w p z) (ents w)\<rparr>)"
  by (simp add: refresh_positions_def number_all)

lemma zone_entities_put [simp]:
  "zone_entities (put_index p z xs w) p' z' = (if p' = p \<and> z' = z then xs else zone_entities w p' z')"
  "ents (put_index p z xs w) = ents w"
  by (auto simp: put_index_def zone_entities_def)

lemma numbered_kind [simp]:
  "Option.bind (numbered k ys t i) e_kind = Option.bind (t i) e_kind"
  by (cases "t i") (simp_all add: numbered_def split: option.split)

text \<open>A list put at one zone and numbered.\<close>

definition relist :: "player_id \<Rightarrow> zone \<Rightarrow> game_entity_id list \<Rightarrow> world \<Rightarrow> world" where
  "relist p z ys w = (put_index p z ys w)\<lparr>ents := numbered 0 ys (ents w)\<rparr>"

lemma relist_simps [simp]:
  "zone_entities (relist p z ys w) p' z' = (if p' = p \<and> z' = z then ys else zone_entities w p' z')"
  "(ents (relist p z ys w) i = None) = (ents w i = None)"
  by (simp_all add: relist_def zone_entities_def put_index_def numbered_def)

lemma on_board_relist [simp]: "on_board (relist p z ys w) = on_board w"
  by (simp add: fun_eq_iff on_board_def component_def relist_def)

lemma place_of_relist [simp]:
  "place_of (relist p z ys w) i =
    map_option (\<lambda>(z, p, n). (z, p, case position (\<lambda>c. c = i) ys of None \<Rightarrow> n | Some m \<Rightarrow> Some m)) (place_of w i)"
  by (cases "ents w i"; cases "position (\<lambda>c. c = i) ys")
    (simp_all add: relist_def place_of_def numbered_def put_index_def)

lemma put_put: "put_index p z ys (put_index p z xs w) = put_index p z ys w"
  by (simp add: put_index_def)

lemma relist_put [simp]: "relist p z ys (put_index p z xs w) = relist p z ys w"
  by (simp add: relist_def put_index_def)

lemma refresh_put: "distinct ys \<Longrightarrow> refresh_positions p z (put_index p z ys w) = (Inr (), relist p z ys w)"
  by (simp add: refresh_positions_run relist_def)

lemma refresh_put_set:
  assumes "distinct ys"
  shows "refresh_positions p z (set_entity i f (put_index p z ys w)) = (Inr (), relist p z ys (set_entity i f w))"
proof -
  have "zone_entities (set_entity i f (put_index p z ys w)) p z = ys"
    by (simp add: zone_entities_def set_entity_def put_index_def)
  with assms have "refresh_positions p z (set_entity i f (put_index p z ys w)) =
      (Inr (), (set_entity i f (put_index p z ys w))\<lparr>ents := numbered 0 ys (ents (set_entity i f (put_index p z ys w)))\<rparr>)"
    by (simp add: refresh_positions_run)
  then show ?thesis by (simp add: relist_def put_index_def set_entity_def)
qed

lemma update_run: "ents w i \<noteq> None \<Longrightarrow> update i f w = (Inr (), set_entity i f w)"
  by (simp add: update_def)

lemma relist_ok:
  assumes d: "distinct ys"
    and here: "\<And>j. j \<in> set ys \<longleftrightarrow> j \<notin> X \<and> (\<exists>n. place_of w j = Some (Some z, Some p, n))"
    and there: "\<And>j p' z' n. (p', z') \<noteq> (p, z) \<Longrightarrow>
      n < length (zone_entities w p' z') \<and> zone_entities w p' z' ! n = j \<longleftrightarrow>
        j \<notin> X \<and> place_of w j = Some (Some z', Some p', Some n)"
    and full: "\<And>j z' p' n. j \<notin> X \<Longrightarrow> place_of w j = Some (Some z', p', n) \<Longrightarrow>
      p' \<noteq> None \<and> ((p', z') \<noteq> (Some p, z) \<longrightarrow> n \<noteq> None)"
  shows "index_ok X (relist p z ys w)"
  unfolding index_ok_place_of
proof (intro conjI allI impI)
  fix j p' z' m
  show "m < length (zone_entities (relist p z ys w) p' z') \<and> zone_entities (relist p z ys w) p' z' ! m = j \<longleftrightarrow>
      j \<notin> X \<and> place_of (relist p z ys w) j = Some (Some z', Some p', Some m)"
  proof (cases "p' = p \<and> z' = z")
    case True
    have "m < length ys \<and> ys ! m = j \<longleftrightarrow> position (\<lambda>c. c = j) ys = Some m"
      using position_distinct [OF d] by blast
    also have "\<dots> \<longleftrightarrow> j \<notin> X \<and> place_of (relist p z ys w) j = Some (Some z, Some p, Some m)"
    proof (cases "position (\<lambda>c. c = j) ys")
      case None
      then have "j \<notin> set ys" by (simp add: position_None)
      then have "\<not> (j \<notin> X \<and> (\<exists>n. place_of w j = Some (Some z, Some p, n)))" using here by blast
      with None show ?thesis by auto
    next
      case (Some k)
      then have "j \<in> set ys" by (metis option.distinct(1) position_None)
      then have "j \<notin> X \<and> (\<exists>n. place_of w j = Some (Some z, Some p, n))" using here by blast
      with Some show ?thesis by auto
    qed
    finally show ?thesis using True by simp
  next
    case False
    then have "(p', z') \<noteq> (p, z)" by simp
    note t = there [OF this, of m j]
    show ?thesis
    proof (cases "position (\<lambda>c. c = j) ys")
      case None
      with t False show ?thesis by (cases "place_of w j") auto
    next
      case (Some k)
      then have "j \<in> set ys" by (metis option.distinct(1) position_None)
      then obtain n where "j \<notin> X" "place_of w j = Some (Some z, Some p, n)" by (auto simp: here)
      with t Some False show ?thesis by auto
    qed
  qed
next
  fix j z' p' m
  assume j: "j \<notin> X" and pl: "place_of (relist p z ys w) j = Some (z', p', m)" and "z' \<noteq> None"
  then obtain z'' n where n: "z' = Some z''" "place_of w j = Some (Some z'', p', n)"
    "m = (case position (\<lambda>c. c = j) ys of None \<Rightarrow> n | Some k \<Rightarrow> Some k)"
    by auto
  from full [OF j n(2)] show "p' \<noteq> None" by simp
  show "m \<noteq> None"
  proof (cases "position (\<lambda>c. c = j) ys")
    case None
    then have "j \<notin> set ys" by (simp add: position_None)
    with here j n(2) have "(p', z'') \<noteq> (Some p, z)" by blast
    with full [OF j n(2)] n(3) None show ?thesis by simp
  qed (simp add: n(3))
qed

lemma remove_at:
  assumes "distinct xs" "k < length xs"
  shows "distinct (take k xs @ drop (Suc k) xs)" "set (take k xs @ drop (Suc k) xs) = set xs - {xs ! k}"
proof -
  have "distinct (us @ vs) \<and> set (us @ vs) = set (us @ x # vs) - {x}" if "distinct (us @ x # vs)"
    for us vs and x :: 'a
    using that by auto
  note this [of "take k xs" "xs ! k" "drop (Suc k) xs", unfolded id_take_nth_drop [OF assms(2), symmetric], OF assms(1)]
  then show "distinct (take k xs @ drop (Suc k) xs)" "set (take k xs @ drop (Suc k) xs) = set xs - {xs ! k}"
    by blast+
qed

lemma insert_at:
  assumes "distinct xs" "x \<notin> set xs"
  shows "distinct (take k xs @ x # drop k xs)" "set (take k xs @ x # drop k xs) = insert x (set xs)"
proof -
  have "distinct (us @ x # vs) \<and> set (us @ x # vs) = insert x (set (us @ vs))"
    if "distinct (us @ vs)" "x \<notin> set (us @ vs)" for us vs
    using that by auto
  from this [of "take k xs" "drop k xs"] assms
  show "distinct (take k xs @ x # drop k xs)" "set (take k xs @ x # drop k xs) = insert x (set xs)" by simp_all
qed

lemma remove_from_index_run:
  assumes ok: "zone_ok w" and at: "place_of w i = Some (Some z, Some p, n)"
  obtains k where "n = Some k" "position (\<lambda>c. c = i) (zone_entities w p z) = Some k"
    "remove_from_index i p z w =
       (Inr k, relist p z (take k (zone_entities w p z) @ drop (Suc k) (zone_entities w p z)) w)"
    "index_ok {i} (relist p z (take k (zone_entities w p z) @ drop (Suc k) (zone_entities w p z)) w)"
proof -
  let ?xs = "zone_entities w p z"
  from ok at obtain k where k: "n = Some k" unfolding index_ok_place_of by blast
  with ok at have xs: "k < length ?xs" "?xs ! k = i" unfolding index_ok_place_of by blast+
  have d: "distinct ?xs" by (rule index_ok_distinct [OF ok])
  then have pos: "position (\<lambda>c. c = i) ?xs = Some k" using position_distinct [OF d, of i k] xs by simp
  let ?ys = "take k ?xs @ drop (Suc k) ?xs"
  have ys: "distinct ?ys" "set ?ys = set ?xs - {i}"
    using remove_at [OF d xs(1)] xs(2) by simp_all
  have run: "remove_from_index i p z w = (Inr k, relist p z ?ys w)"
    using pos by (simp add: remove_from_index_def Let_def seq_def bnd_def put_put refresh_put [OF ys(1)])
  have mem: "j \<in> set ?xs \<longleftrightarrow> (\<exists>n. place_of w j = Some (Some z, Some p, n))" for j
    using index_ok_member [OF ok, of j p z] by (auto simp: place_of_def)
  have "index_ok {i} (relist p z ?ys w)"
  proof (rule relist_ok [OF ys(1)])
    show "j \<in> set ?ys \<longleftrightarrow> j \<notin> {i} \<and> (\<exists>n. place_of w j = Some (Some z, Some p, n))" for j
      using mem ys(2) by blast
    show "m < length (zone_entities w p' z') \<and> zone_entities w p' z' ! m = j \<longleftrightarrow>
        j \<notin> {i} \<and> place_of w j = Some (Some z', Some p', Some m)" if "(p', z') \<noteq> (p, z)" for j p' z' m
      using ok at that unfolding index_ok_place_of by auto
    show "p' \<noteq> None \<and> ((p', z') \<noteq> (Some p, z) \<longrightarrow> m \<noteq> None)"
      if "j \<notin> {i}" "place_of w j = Some (Some z', p', m)" for j z' p' m
      using ok that unfolding index_ok_place_of by blast
  qed
  with that k pos run show thesis by blast
qed

lemma insert_unchecked_run:
  assumes ok: "index_ok {i} w" and ex: "ents w i \<noteq> None"
    and n: "or_default (length (zone_entities w p z)) requested \<le> length (zone_entities w p z)"
  obtains w' where
    "insert_into_zone_unchecked i p z requested w = (Inr (), w')"
    "w' = relist p z (take (or_default (length (zone_entities w p z)) requested) (zone_entities w p z) @
        i # drop (or_default (length (zone_entities w p z)) requested) (zone_entities w p z))
      (set_entity i (\<lambda>e. e\<lparr>e_controller := Some p, e_zone := Some z\<rparr>) w)"
    "zone_ok w'"
proof -
  let ?xs = "zone_entities w p z"
  let ?n = "or_default (length ?xs) requested"
  let ?ys = "take ?n ?xs @ i # drop ?n ?xs"
  let ?w = "set_entity i (\<lambda>e. e\<lparr>e_controller := Some p, e_zone := Some z\<rparr>) w"
  let ?w' = "relist p z ?ys ?w"
  have mem: "j \<in> set ?xs \<longleftrightarrow> j \<noteq> i \<and> (\<exists>n. place_of w j = Some (Some z, Some p, n))" for j
    using index_ok_member [OF ok, of j p z] by (auto simp: place_of_def)
  have "i \<notin> set ?xs" by (simp add: mem)
  note ys = insert_at [OF index_ok_distinct [OF ok, of p z] this, of ?n]
  have pl: "place_of ?w j = (if j = i then map_option (\<lambda>(_, _, n). (Some z, Some p, n)) (place_of w i) else place_of w j)" for j
    by (auto simp: place_of_def set_entity_def option.map_comp o_def)
  have ze: "zone_entities ?w p' z' = zone_entities w p' z'" for p' z'
    by (simp add: zone_entities_def set_entity_def)
  have ze': "zone_entities (set_entity j g w') p' z' = zone_entities w' p' z'" for j g w' p' z'
    by (simp add: zone_entities_def set_entity_def)
  have pi: "place_of w i \<noteq> None" using ex by (simp add: place_of_def)
  have "insert_into_zone_unchecked i p z requested w = (Inr (), ?w')"
    using ex n ys(1)
    by (simp add: insert_into_zone_unchecked_def Let_def seq_def bnd_def update_run refresh_put_set)
  moreover have "zone_ok ?w'"
  proof (rule relist_ok [OF ys(1)])
    show "j \<in> set ?ys \<longleftrightarrow> j \<notin> {} \<and> (\<exists>n. place_of ?w j = Some (Some z, Some p, n))" for j
      using mem [of j] ys(2) pi by (auto simp: pl split: prod.splits)
    show "m < length (zone_entities ?w p' z') \<and> zone_entities ?w p' z' ! m = j \<longleftrightarrow>
        j \<notin> {} \<and> place_of ?w j = Some (Some z', Some p', Some m)" if "(p', z') \<noteq> (p, z)" for j p' z' m
      using ok that unfolding index_ok_place_of pl ze by auto
    show "p' \<noteq> None \<and> ((p', z') \<noteq> (Some p, z) \<longrightarrow> m \<noteq> None)"
      if "j \<notin> {}" "place_of ?w j = Some (Some z', p', m)" for j z' p' m
      using ok that unfolding index_ok_place_of pl by (auto split: if_splits)
  qed
  ultimately show thesis using that by blast
qed

section \<open>Positions are within the zone\<close>

lemma stays_keeps_ok: "(\<And>w0. keeps (same_places w0) m) \<Longrightarrow> keeps (index_ok X) m"
  by (metis index_ok_same keeps_def same_places_refl)

lemma validate_position_Inr:
  "validate_position z n requested = Inr u \<Longrightarrow> or_default n requested \<le> n"
  by (auto simp: validate_position_def split: option.splits if_splits)

lemma board_position_le: "board_position_to_zone_position w p n \<le> length (zone_entities w p Play)"
proof -
  let ?xs = "zone_entities w p Play"
  let ?places = "map fst (filter (\<lambda>(_, i). on_board w i) (enumerate 0 ?xs))"
  have b: "k < length ?xs" if "k \<in> set ?places" for k
    using that by (auto simp: in_set_enumerate_eq)
  show ?thesis
  proof (cases "n < length ?places")
    case True
    then have "?places ! n \<in> set ?places" by (rule nth_mem)
    with b True show ?thesis by (simp add: board_position_to_zone_position_def Let_def less_imp_le)
  next
    case False
    then show ?thesis
      using b [OF last_in_set] by (auto simp: board_position_to_zone_position_def Let_def Suc_le_eq)
  qed
qed

lemma resolve_destination_le:
  assumes "resolve_destination_position w i p z requested preserved = Inr place"
  shows "or_default (length (zone_entities w p z)) place \<le> length (zone_entities w p z)"
proof (cases "z = Play \<and> on_board w i \<and> requested \<noteq> None")
  case True
  then show ?thesis using assms board_position_le
    by (auto simp: resolve_destination_position_def and_then_def validate_board_position_def
        split: sum.splits)
next
  case False
  then show ?thesis using assms validate_position_Inr
    unfolding resolve_destination_position_def validate_zone_position_def and_then_def Let_def
    by (fastforce split: sum.splits if_splits)
qed

lemma graveyard_is_never_full [simp]:
  "\<not> destination_is_full w i p Graveyard"
  "\<not> destination_is_full w i p RemovedFromGame"
  by (simp_all add: destination_is_full_def over_limit_def generated_destination_is_full_def
      split: option.splits)

section \<open>The recursion of a movement\<close>

lemma detaching_resets_nothing [simp]:
  "resets_runtime_state DetachEnchantment from RemovedFromGame = False"
  by (simp add: resets_runtime_state_def split: option.splits)

text \<open>A detachment does not call back.\<close>

lemma move_detach: "move_with mv (detach_request i p) = move_with mv' (detach_request i p)"
proof -
  have policy: "apply_movement_state_policy mv (detach_request i p) = apply_movement_state_policy mv' (detach_request i p)"
    by (simp add: fun_eq_iff apply_movement_state_policy_def detach_request_def)
  show ?thesis unfolding move_with_def policy by (simp add: detach_request_def)
qed

lemma move_with_cong:
  assumes "\<And>i p. mv (detach_request i p) = mv' (detach_request i p)"
  shows "move_with mv = move_with mv'"
  unfolding move_with_def move_to_graveyard_after_failed_move_def apply_movement_state_policy_def
    reset_runtime_state_def assms ..

lemma move_fuel_detach: "move_fuel (Suc n) (detach_request i p) = move_fuel (Suc m) (detach_request i p)"
  by (simp add: move_detach [of "move_fuel n" i p "move_fuel m"])

lemma move_fuel_enough: "move_fuel (Suc (Suc n)) = move_entity_with_request"
  unfolding move_entity_with_request_def numeral_2_eq_2
  by (simp only: move_fuel.simps(2), rule move_with_cong) (simp add: move_detach [of "move_fuel n" _ _ "\<lambda>_. die"])

text \<open>The equation of the source.\<close>

lemma move_entity_unfold: "move_entity_with_request = move_with move_entity_with_request"
  using move_fuel_enough [of 1] move_fuel_enough [of 0] by simp

section \<open>Movement keeps the index\<close>

lemma keeps_reset:
  "(\<And>rq. keeps zone_ok (mv rq)) \<Longrightarrow> keeps zone_ok (reset_runtime_state mv i)"
  unfolding reset_runtime_state_def Let_def
  by (intro keeps stays_keeps_ok [OF stays_primitive(1)] stays_keeps_ok [OF stays_primitive(2)]
      stays_keeps_ok [OF stays_detach] stays_keeps_ok [OF stays_recalculate(4)])
    (simp_all add: keeps_place_def)

lemma keeps_policy:
  "(\<And>rq. keeps zone_ok (mv rq)) \<Longrightarrow> keeps zone_ok (apply_movement_state_policy mv rq from)"
  unfolding apply_movement_state_policy_def Let_def
  by (intro keeps keeps_reset stays_keeps_ok [OF stays_primitive(2)]
      stays_keeps_ok [OF stays_counters(2)] stays_keeps_ok [OF stays_zone_helpers(1)]
      stays_keeps_ok [OF stays_zone_helpers(3)])
    (simp_all add: keeps_place_def)

lemma remove_step:
  assumes ok: "zone_ok w" and at: "component w e_zone i = Some z" "component w e_controller i = Some p"
  obtains k w1 where "remove_from_index i p z w = (Inr k, w1)" "index_ok {i} w1" "ents w1 i \<noteq> None"
    "k \<le> length (zone_entities w1 p z)"
    "\<And>p' z'. zone_entities w1 p' z' = remove1 i (zone_entities w p' z')"
    "on_board w1 = on_board w" "k < length (zone_entities w p z)" "zone_entities w p z ! k = i"
proof -
  let ?xs = "zone_entities w p z"
  from at obtain e where e: "ents w i = Some e" "e_zone e = Some z" "e_controller e = Some p"
    by (auto simp: component_def bind_eq_Some_conv)
  then have "place_of w i = Some (Some z, Some p, e_position e)" by (simp add: place_of_def)
  from remove_from_index_run [OF ok this] obtain k where k: "position (\<lambda>c. c = i) ?xs = Some k"
    "remove_from_index i p z w = (Inr k, relist p z (take k ?xs @ drop (Suc k) ?xs) w)"
    "index_ok {i} (relist p z (take k ?xs @ drop (Suc k) ?xs) w)"
    by blast
  have d: "distinct (zone_entities w p' z')" for p' z' by (rule index_ok_distinct [OF ok])
  from k(1) have at_k: "k < length ?xs" "?xs ! k = i" using position_distinct [OF d] by blast+
  have taken: "take k ?xs @ drop (Suc k) ?xs = remove1 i ?xs"
  proof -
    have split: "?xs = take k ?xs @ i # drop (Suc k) ?xs" using id_take_nth_drop [OF at_k(1)] at_k(2) by simp
    from d [of p z] have "distinct (take k ?xs @ i # drop (Suc k) ?xs)" by (subst split [symmetric])
    then have "i \<notin> set (take k ?xs)" by auto
    then have "remove1 i (take k ?xs @ i # drop (Suc k) ?xs) = take k ?xs @ drop (Suc k) ?xs"
      by (simp add: remove1_append)
    then show ?thesis by (subst (asm) split [symmetric]) simp
  qed
  have "i \<notin> set (zone_entities w p' z')" if "(p', z') \<noteq> (p, z)" for p' z'
    using index_ok_member [OF ok, of i p' z'] e that by auto
  then have "zone_entities (relist p z (remove1 i ?xs) w) p' z' = remove1 i (zone_entities w p' z')" for p' z'
    by (auto simp: remove1_idem)
  moreover have "i \<in> set ?xs" using at_k nth_mem by blast
  then have "length (remove1 i ?xs) = length ?xs - 1" by (simp add: length_remove1)
  ultimately show thesis
    using that [OF k(2,3)] at_k e(1) by (simp add: taken)
qed

lemma insert_step:
  assumes "index_ok {i} w" "ents w i \<noteq> None"
    "or_default (length (zone_entities w p z)) requested \<le> length (zone_entities w p z)"
  obtains w' where "(insert_into_zone_unchecked i p z requested :: (zone_error, unit) step) w = (Inr (), w')" "zone_ok w'"
    "\<And>p' z'. zone_entities w' p' z' = (if p' = p \<and> z' = z
       then take (or_default (length (zone_entities w p z)) requested) (zone_entities w p z) @
         i # drop (or_default (length (zone_entities w p z)) requested) (zone_entities w p z)
       else zone_entities w p' z')"
proof -
  have ze: "zone_entities (set_entity i f w) p' z' = zone_entities w p' z'" for f p' z'
    by (simp add: zone_entities_def set_entity_def)
  let ?n = "or_default (length (zone_entities w p z)) requested"
  from insert_unchecked_run [OF assms] obtain w'
    where w': "(insert_into_zone_unchecked i p z requested :: (zone_error, unit) step) w = (Inr (), w')"
    "w' = relist p z (take ?n (zone_entities w p z) @ i # drop ?n (zone_entities w p z))
       (set_entity i (\<lambda>e. e\<lparr>e_controller := Some p, e_zone := Some z\<rparr>) w)" "zone_ok w'"
    by metis
  show thesis by (rule that [OF w'(1,3)]) (simp only: w'(2) relist_simps ze)
qed

lemma insert_ok:
  assumes "index_ok {i} w" "ents w i \<noteq> None"
    "or_default (length (zone_entities w p z)) requested \<le> length (zone_entities w p z)"
  shows "\<exists>w'. (insert_into_zone_unchecked i p z requested :: (zone_error, unit) step) w = (Inr (), w') \<and> zone_ok w'"
  using insert_step [OF assms] by metis

lemma semantic_position_found:
  assumes "i \<in> set (zone_entities w p z)"
  obtains n where "semantic_zone_position w i p z = Some n"
proof -
  have "i \<in> set (board_entities w p)" if "z = Play" "on_board w i"
    using assms that by (simp add: board_entities_def)
  then have "semantic_zone_position w i p z \<noteq> None"
    using assms by (auto simp: semantic_zone_position_def position_None simp del: not_None_eq)
  with that show thesis by blast
qed

lemma keeps_zone_ok_policy:
  "(\<And>rq. keeps zone_ok (mv rq)) \<Longrightarrow> zone_ok w \<Longrightarrow> zone_ok (snd (apply_movement_state_policy mv rq from w))"
  using keeps_policy unfolding keeps_def by blast

lemma keeps_failed_move:
  assumes mv: "\<And>rq. keeps zone_ok (mv rq)"
    and ok: "zone_ok w" and at: "component w e_zone i = Some z" "component w e_controller i = Some p"
  shows "zone_ok (snd (move_to_graveyard_after_failed_move mv i z p kind w))"
proof (cases "semantic_zone_position w i p z")
  case None
  then show ?thesis using ok by (simp add: move_to_graveyard_after_failed_move_def)
next
  case (Some n)
  obtain k w1 where w1: "remove_from_index i p z w = (Inr k, w1)" "index_ok {i} w1" "ents w1 i \<noteq> None"
    using remove_step [OF ok at] by metis
  from insert_ok [OF w1(2,3), of p Graveyard None]
  obtain w2 where w2: "(insert_into_zone_unchecked i p Graveyard None :: (zone_error, unit) step) w1 = (Inr (), w2)"
    "zone_ok w2"
    by auto
  then have "insert_into_zone i p Graveyard None w1 = (Inr (), w2)"
    using w1(3) by (simp add: insert_into_zone_def validate_zone_position_def validate_position_def seq_def bnd_def)
  moreover have "keeps zone_ok (seq (apply_movement_state_policy mv rq z)
         (seq (if kind = DeathMove then record_full_zone_death i n else ret ()) (ret r)) :: (zone_error, zone_move_outcome) step)"
    for rq and r :: zone_move_outcome
    by (intro keeps keeps_policy mv stays_keeps_ok [OF stays_zone_helpers(2)])
  ultimately show ?thesis using w2(2) Some w1(1)
    by (simp add: move_to_graveyard_after_failed_move_def keeps_def split del: if_split)
qed

definition accepted_move ::
  "(zone_move_request \<Rightarrow> (zone_error, zone_move_outcome) step) \<Rightarrow>
    zone_move_request \<Rightarrow> zone \<Rightarrow> player_id \<Rightarrow> nat \<Rightarrow> nat \<Rightarrow> (zone_error, zone_move_outcome) step" where
  "accepted_move mv rq z p n k = ask (\<lambda>w1.
     case resolve_destination_position w1 (move_entity rq) (destination_controller rq) (destination rq)
       (move_position rq) (if z = destination rq \<and> p = destination_controller rq then Some k else None) of
       Inl e \<Rightarrow> seq (insert_into_zone_unchecked (move_entity rq) p z (Some k)) (lift (Inl e))
     | Inr place \<Rightarrow>
         seq (insert_into_zone_unchecked (move_entity rq) (destination_controller rq) (destination rq) place)
         (seq (apply_movement_state_policy mv rq z) (ret (Moved z p n))))"

lemma keeps_accepted_move:
  assumes mv: "\<And>rq. keeps zone_ok (mv rq)"
    and w1: "index_ok {move_entity rq} w1" "ents w1 (move_entity rq) \<noteq> None" "k \<le> length (zone_entities w1 p z)"
  shows "zone_ok (snd (accepted_move mv rq z p n k w1))"
proof (cases "resolve_destination_position w1 (move_entity rq) (destination_controller rq) (destination rq)
       (move_position rq) (if z = destination rq \<and> p = destination_controller rq then Some k else None)")
  case (Inl e)
  from insert_ok [OF w1(1,2), of p z "Some k"] w1(3) obtain w2
    where "(insert_into_zone_unchecked (move_entity rq) p z (Some k) :: (zone_error, unit) step) w1 = (Inr (), w2)"
      "zone_ok w2"
    by auto
  with Inl show ?thesis by (simp add: accepted_move_def)
next
  case (Inr place)
  from insert_ok [OF w1(1,2) resolve_destination_le [OF Inr]] obtain w2
    where "(insert_into_zone_unchecked (move_entity rq) (destination_controller rq) (destination rq) place
        :: (zone_error, unit) step) w1 = (Inr (), w2)" "zone_ok w2"
    by blast
  moreover have "keeps zone_ok (seq (apply_movement_state_policy mv rq z) (ret (Moved z p n)) :: (zone_error, zone_move_outcome) step)"
    by (intro keeps keeps_policy mv)
  ultimately show ?thesis using Inr by (simp add: accepted_move_def keeps_def)
qed

lemma places_move_with:
  assumes mv: "\<And>rq. keeps zone_ok (mv rq)"
  shows "keeps zone_ok (move_with mv rq)"
  unfolding keeps_def
proof (intro allI impI)
  fix w assume ok: "zone_ok w"
  let ?i = "move_entity rq"
  show "zone_ok (snd (move_with mv rq w))"
  proof (cases "component w e_zone ?i = None \<or> component w e_controller ?i = None")
    case True
    then show ?thesis using ok by (auto simp: move_with_def Let_def need_def split: option.splits)
  next
    case False
    then obtain z p where at: "component w e_zone ?i = Some z" "component w e_controller ?i = Some p" by force
    show ?thesis
    proof (cases "\<not> (z = destination rq \<and> p = destination_controller rq) \<and>
        destination_is_full w ?i (destination_controller rq) (destination rq)")
      case True
      have "zone_ok (snd (move_to_graveyard_after_failed_move mv ?i z p kind w))" for kind
        using mv ok at by (rule keeps_failed_move)
      with True ok at show ?thesis
        by (cases "move_kind rq") (simp_all add: move_with_def Let_def split del: if_split)
    next
      case False
      from at have "?i \<in> set (zone_entities w p z)"
        by (auto simp: index_ok_member [OF ok] component_def bind_eq_Some_conv)
      then obtain n where n: "semantic_zone_position w ?i p z = Some n" by (rule semantic_position_found)
      obtain k w1 where w1: "remove_from_index ?i p z w = (Inr k, w1)" "index_ok {?i} w1" "ents w1 ?i \<noteq> None"
        "k \<le> length (zone_entities w1 p z)"
        using remove_step [OF ok at] by metis
      from False at n w1(1) have "move_with mv rq w = accepted_move mv rq z p n k w1"
        by (auto simp: move_with_def accepted_move_def Let_def seq_def bnd_def)
      with keeps_accepted_move [OF mv w1(2,3,4)] show ?thesis by simp
    qed
  qed
qed

theorem move_keeps_zone_ok: "keeps zone_ok (move_entity_with_request rq)"
proof -
  have "keeps zone_ok (move_fuel n rq)" for n rq
    by (induction n arbitrary: rq) (simp_all add: keeps places_move_with)
  then show ?thesis by (simp add: move_entity_with_request_def)
qed

section \<open>Where a movement puts the entity\<close>

definition places :: "('a \<Rightarrow> bool) \<Rightarrow> 'a list \<Rightarrow> nat list" where
  "places P xs = map fst (filter (\<lambda>(_, x). P x) (enumerate 0 xs))"

lemma places_snoc [simp]:
  "places P [] = []" "places P (xs @ [x]) = places P xs @ (if P x then [length xs] else [])"
  by (simp_all add: places_def enumerate_append_eq)

lemma places_less: "k \<in> set (places P xs) \<Longrightarrow> k < length xs"
  by (induction xs rule: rev_induct) (auto split: if_splits intro: less_SucI)

lemma length_places: "length (places P xs) = length (filter P xs)"
  by (induction xs rule: rev_induct) simp_all

lemma places_nth: "n < length (places P xs) \<Longrightarrow> length (filter P (take (places P xs ! n) xs)) = n"
proof (induction xs rule: rev_induct)
  case (snoc x xs)
  show ?case
  proof (cases "n < length (places P xs)")
    case True
    with places_less [OF nth_mem [OF True]] snoc show ?thesis by (simp add: nth_append)
  next
    case False
    with snoc.prems have "P x" "n = length (places P xs)" by (auto split: if_splits)
    then have "places P (xs @ [x]) ! n = length xs" by (simp add: nth_append)
    with \<open>n = _\<close> show ?thesis by (simp add: length_places)
  qed
qed simp

lemma places_last: "places P xs \<noteq> [] \<Longrightarrow> filter P (take (Suc (last (places P xs))) xs) = filter P xs"
proof (induction xs rule: rev_induct)
  case (snoc x xs)
  show ?case
  proof (cases "P x")
    case False
    with snoc.prems have "places P xs \<noteq> []" by simp
    with places_less [OF last_in_set [OF this]] snoc.IH False show ?thesis by simp
  qed simp
qed simp

lemma board_position_counts:
  assumes "n \<le> length (board_entities w p)"
  shows "length (filter (on_board w) (take (board_position_to_zone_position w p n) (zone_entities w p Play))) = n"
proof -
  let ?xs = "zone_entities w p Play" and ?P = "on_board w"
  have at: "board_position_to_zone_position w p n =
      (if n < length (places ?P ?xs) then places ?P ?xs ! n
       else if places ?P ?xs = [] then length ?xs else Suc (last (places ?P ?xs)))"
    by (simp add: board_position_to_zone_position_def places_def Let_def)
  show ?thesis
  proof (cases "n < length (places ?P ?xs)")
    case True
    then show ?thesis by (simp add: at places_nth)
  next
    case False
    with assms have n: "n = length (filter ?P ?xs)" by (simp add: length_places board_entities_def)
    show ?thesis
    proof (cases "places ?P ?xs = []")
      case True
      then show ?thesis by (subst at) (simp add: n)
    next
      case nonempty: False
      with False show ?thesis using places_last [OF nonempty] by (subst at) (simp add: n)
    qed
  qed
qed

text \<open>Steps that return or panic, and so cannot report an error.\<close>

definition quiet :: "('e, 'a) step \<Rightarrow> bool" where
  "quiet m \<longleftrightarrow> (\<forall>w e w'. m w \<noteq> (Inl (Err e), w'))"

named_theorems quiet_steps \<open>steps that report no error\<close>

lemma quietD: "quiet m \<Longrightarrow> m w \<noteq> (err e, w')"
  by (simp add: quiet_def)

lemma quiet_basic [quiet_steps]:
  "quiet (ret x)" "quiet die" "quiet (change f)"
  by (simp_all add: quiet_def)

lemma quiet_bnd [quiet_steps]: "quiet m \<Longrightarrow> (\<And>x. quiet (k x)) \<Longrightarrow> quiet (bnd m k)"
  unfolding quiet_def bnd_def by (auto split: prod.splits sum.splits)

lemma quiet_seq [quiet_steps]: "quiet m \<Longrightarrow> quiet n \<Longrightarrow> quiet (seq m n)"
  by (simp add: seq_def quiet_bnd)

lemma quiet_ask [quiet_steps]: "(\<And>w. quiet (f w)) \<Longrightarrow> quiet (ask f)"
  by (simp add: quiet_def)

lemma quiet_ignore [quiet_steps]: "quiet (ignore m)"
  by (auto simp: quiet_def ignore_def split: prod.splits sum.splits failure.splits)

lemma quiet_if [quiet_steps]: "quiet m \<Longrightarrow> quiet n \<Longrightarrow> quiet (if b then m else n)"
  by simp

lemma quiet_option [quiet_steps]:
  "quiet m \<Longrightarrow> (\<And>x. quiet (f x)) \<Longrightarrow> quiet (case a of None \<Rightarrow> m | Some x \<Rightarrow> f x)"
  "(\<And>x. quiet (f x)) \<Longrightarrow> quiet (unless_none a f)"
  by (cases a; simp add: quiet_basic)+

lemma quiet_for_all [quiet_steps]: "(\<And>x. quiet (f x)) \<Longrightarrow> quiet (for_all f xs)"
  by (induction xs) (simp_all add: quiet_steps)

lemma quiet_primitive [quiet_steps]:
  "quiet (update i f)" "quiet (update_if i f)" "quiet allocate_play_order" "quiet (detach i)" "quiet (push_trace t)"
  unfolding update_def update_if_def allocate_play_order_def detach_def push_trace_def Let_def
  by (intro quiet_steps)+

lemma quiet_sum_i32 [quiet_steps]: "quiet (lift (sum_i32 n ns :: ('e, int) outcome))"
proof -
  have "sum_i32 n ns \<noteq> Inl (Err e)" for e :: 'e
    by (induction ns arbitrary: n) (simp_all add: sum_i32_def)
  then show ?thesis by (simp add: quiet_def)
qed

lemma quiet_policy [quiet_steps]: "quiet (apply_movement_state_policy mv rq from)"
  unfolding apply_movement_state_policy_def track_entry_def clear_post_death_auras_def reset_runtime_state_def
    recalculate_def recalculate_stats_def recalculate_keywords_def recalculate_cost_def Let_def
  by (intro quiet_steps)

end
