(* ===== verification/Hs_Sample.thy ===== *)
theory Hs_Sample imports Hs_Cards Hs_Places begin

text \<open>
  The creation of entities keeps the zone index right: a new entity is in no zone before it is
  placed, and is taken out again when it does not fit.
\<close>

section \<open>New entities\<close>

text \<open>Entity \<open>i\<close> exists and is in no zone.\<close>

definition unplaced :: "game_entity_id \<Rightarrow> world \<Rightarrow> bool" where
  "unplaced i w \<longleftrightarrow> zone_ok w \<and> (\<exists>e. ents w i = Some e \<and> e_zone e = None)"

lemma unplaced_ok: "unplaced i w \<Longrightarrow> zone_ok w"
  by (simp add: unplaced_def)

lemma unplaced_index: "unplaced i w \<Longrightarrow> index_ok {i} w"
  unfolding unplaced_def index_ok_def by (auto simp: at_place_def)

lemma unplaced_spawn:
  assumes "zone_ok w" "ents w i = None" "e_zone e = None"
  shows "unplaced i (w\<lparr>ents := (ents w)(i \<mapsto> e)\<rparr>)"
proof -
  have "at_place (w\<lparr>ents := (ents w)(i \<mapsto> e)\<rparr>) = at_place w"
    using assms(2,3) by (auto simp: at_place_def fun_eq_iff)
  with assms show ?thesis
    unfolding unplaced_def index_ok_def by (auto simp: zone_entities_def)
qed

lemma unplaced_despawn: "unplaced i w \<Longrightarrow> zone_ok (w\<lparr>ents := (ents w)(i := None)\<rparr>)"
proof -
  assume U: "unplaced i w"
  then have "at_place (w\<lparr>ents := (ents w)(i := None)\<rparr>) = at_place w"
    by (auto simp: unplaced_def at_place_def fun_eq_iff)
  with U show ?thesis
    unfolding unplaced_def index_ok_def by (auto simp: zone_entities_def)
qed

lemma unplaced_same: "same_places w w' \<Longrightarrow> unplaced i w \<Longrightarrow> unplaced i w'"
proof -
  assume S: "same_places w w'" and U: "unplaced i w"
  from U obtain e where "ents w i = Some e" "e_zone e = None" by (auto simp: unplaced_def)
  then have "place_of w' i = Some (None, e_controller e, e_position e)"
    using S by (simp add: same_places_def fun_eq_iff place_of_def)
  then have "\<exists>e. ents w' i = Some e \<and> e_zone e = None" by (auto simp: place_of_def)
  with S U index_ok_same show ?thesis by (auto simp: unplaced_def)
qed

lemma insert_unplaced:
  assumes "unplaced i w" and run: "insert_into_zone i p z n w = (r, w')"
  shows "zone_ok w' \<and> (r \<noteq> Inr () \<longrightarrow> w' = w)"
proof -
  from assms(1) have w: "ents w i \<noteq> None" "zone_ok w" "index_ok {i} w"
    by (auto simp: unplaced_def intro: unplaced_index [OF assms(1)])
  consider (full) "destination_is_full w i p z" | (place) e where "validate_zone_position w p z n = Inl e"
    | (fits) "\<not> destination_is_full w i p z" "validate_zone_position w p z n = Inr ()"
    by (cases "validate_zone_position w p z n") auto
  then show ?thesis
  proof cases
    case fits
    from fits(2) have "or_default (length (zone_entities w p z)) n \<le> length (zone_entities w p z)"
      by (auto simp: validate_zone_position_def validate_position_def split: option.splits if_splits)
    from insert_ok [OF w(3,1) this] fits w(1) run show ?thesis
      by (auto simp: insert_into_zone_def seq_def bnd_def)
  qed (use run w in \<open>auto simp: insert_into_zone_def seq_def bnd_def split: if_splits sum.splits\<close>)
qed

definition from_unplaced :: "game_entity_id \<Rightarrow> ('e, 'a) step \<Rightarrow> bool" where
  "from_unplaced i m \<longleftrightarrow> (\<forall>w. unplaced i w \<longrightarrow> zone_ok (snd (m w)))"

lemma keeps_new:
  assumes "e_zone e = None" "from_unplaced i m"
  shows "keeps zone_ok (seq (spawn i e) m)"
  using assms unplaced_spawn
  by (auto simp: keeps_def from_unplaced_def spawn_def seq_def bnd_def)

lemma from_unplaced_stays:
  "(\<And>w0. keeps (same_places w0) m) \<Longrightarrow> from_unplaced i n \<Longrightarrow> from_unplaced i (seq m n)"
  unfolding from_unplaced_def seq_def bnd_def keeps_def
  by (auto split: prod.splits sum.splits) (metis same_places_refl unplaced_same unplaced_ok snd_conv)+

lemma from_unplaced_insert:
  "from_unplaced i (seq (convert ZoneFailed (insert_into_zone i p z n)) (ret x))"
  "from_unplaced i (seq (expecting (insert_into_zone i p z n)) (ret y))"
  "from_unplaced i (convert g (insert_into_zone i p z n))"
  "(\<And>x. keeps zone_ok (k x)) \<Longrightarrow>
    from_unplaced i (handle (insert_into_zone i p z n) (\<lambda>e. seq (despawn i) (fail (h e))) k)"
  unfolding from_unplaced_def seq_def bnd_def convert_def expecting_def handle_def despawn_def keeps_def
  by (auto split: prod.splits sum.splits failure.splits dest: insert_unplaced intro: unplaced_despawn)

lemma stays_attach [stays]: "keeps (same_places w0) (attach i j)"
  unfolding attach_def by (intro keeps stays) (simp_all add: keeps_place_def)

lemma card_keeps_zone_ok: "keeps zone_ok (spawn_validated_card p c z n)"
  unfolding spawn_validated_card_def
  by (intro keeps stays_keeps_ok stays keeps_new from_unplaced_insert) (simp add: card_entity_def no_components_def)

lemma enchantment_keeps_zone_ok: "keeps zone_ok (spawn_attached_enchantment p t d name time rm)"
  unfolding spawn_attached_enchantment_def
  by (intro keeps stays_keeps_ok stays keeps_new from_unplaced_stays from_unplaced_insert)
    (simp add: enchantment_entity_def no_components_def)

text \<open>
  A small world: one minion in the hand of a player, and the same world with no room on the board.
\<close>

definition sample_minion :: game_entity where
  "sample_minion = (card_entity One (card_minion [97] 1 2 3))\<lparr>e_zone := Some Hand, e_position := Some 0\<rparr>"

definition sample_world :: world where
  "sample_world = (initial_world (\<lambda>_. []) 7 One)\<lparr>ents := [0 \<mapsto> sample_minion],
     zone_index := (\<lambda>_. [])((One, Hand) := [0]), next_game_id := 1\<rparr>"

definition crowded_world :: world where
  "crowded_world = sample_world\<lparr>rules := (rules sample_world)\<lparr>board_limit := 0\<rparr>\<rparr>"

definition sample_request :: "nat \<Rightarrow> zone_movement_kind \<Rightarrow> zone_move_request" where
  "sample_request n k = \<lparr>move_entity = 0, destination_controller = One, destination = Play,
     move_position = Some n, move_kind = k\<rparr>"

lemma sample_ok: "zone_ok sample_world" "zone_ok crowded_world"
  by (auto simp: index_ok_def at_place_def zone_entities_def sample_world_def crowded_world_def sample_minion_def
      initial_world_def card_entity_def no_components_def split: option.splits if_splits)

named_theorems runs \<open>definitions that run a movement on a concrete world\<close>

lemmas sample_defs [runs] = sample_world_def crowded_world_def sample_minion_def sample_request_def initial_world_def
  default_ruleset_def card_entity_def card_minion_def no_components_def

lemmas movement_defs [runs] = move_entity_with_request_def move_with_def apply_movement_state_policy_def
  reset_runtime_state_def attached_to_def iter_entities_def clear_post_death_auras_def recalculate_def recalculate_stats_def
  recalculate_keywords_def recalculate_cost_def attachment_list_def move_to_graveyard_after_failed_move_def insert_into_zone_def insert_into_zone_unchecked_def
  remove_from_index_def refresh_positions_def track_entry_def detach_def push_trace_def allocate_play_order_def
  record_full_zone_death_def resets_runtime_state_def destination_is_full_def generated_destination_is_full_def
  equipping_def over_limit_def kind_limit_def board_is_full_def board_entities_def on_board_def is_board_entity_def count_kind_def
  semantic_zone_position_def resolve_destination_position_def validate_board_position_def validate_zone_position_def
  validate_position_def board_position_to_zone_position_def put_index_def set_entity_def update_def update_if_def
  component_def has_kind_def zone_entities_def and_then_def bnd_def seq_def Let_def u64_max'_def

lemma sample_move: "fst (move_entity_with_request (sample_request 0 NormalMove) sample_world) = Inr (Moved Hand One 0)"
  by (simp add: runs numeral_2_eq_2 numeral_3_eq_3)

lemma sample_refused:
  "fst (move_entity_with_request (sample_request 5 NormalMove) sample_world) = err (InvalidPosition Play 5 0)"
  by (simp add: runs numeral_2_eq_2)

lemma sample_crowded:
  "fst (move_entity_with_request (sample_request 0 NormalMove) crowded_world) = Inr (FullZoneRemoval Hand One 0)"
  by (simp add: runs numeral_2_eq_2)

end
