(* ===== verification/Hs_Zone_Theorems.thy ===== *)
theory Hs_Zone_Theorems imports Hs_Sample begin

text \<open>
  What a movement does to the zones, on each of its ways out.
\<close>

section \<open>The ways out\<close>

lemma stays_policy:
  "\<not> resets_runtime_state (move_kind rq) from (destination rq) \<Longrightarrow>
    keeps (same_places w0) (apply_movement_state_policy mv rq from)"
  unfolding apply_movement_state_policy_def Let_def
  by (intro keeps stays) (simp_all add: keeps_place_def)

lemma same_places_zones: "same_places w w' \<Longrightarrow> zone_entities w' = zone_entities w"
  by (simp add: same_places_def zone_entities_def fun_eq_iff)

text \<open>The state of a movement that found the entity and was not turned away by a full zone.\<close>

lemma accepted:
  assumes ok: "zone_ok w" and at: "component w e_zone (move_entity rq) = Some z"
      "component w e_controller (move_entity rq) = Some p"
    and room: "(z, p) = (destination rq, destination_controller rq) \<or>
      \<not> destination_is_full w (move_entity rq) (destination_controller rq) (destination rq)"
  obtains k w1 n where "move_entity_with_request rq w = accepted_move move_entity_with_request rq z p n k w1"
    "index_ok {move_entity rq} w1" "ents w1 (move_entity rq) \<noteq> None"
    "semantic_zone_position w (move_entity rq) p z = Some n"
    "\<And>p' z'. zone_entities w1 p' z' = remove1 (move_entity rq) (zone_entities w p' z')"
    "on_board w1 = on_board w" "k < length (zone_entities w p z)" "zone_entities w p z ! k = move_entity rq"
    "k \<le> length (zone_entities w1 p z)"
proof -
  let ?i = "move_entity rq"
  from at have "?i \<in> set (zone_entities w p z)"
    by (auto simp: index_ok_member [OF ok] component_def bind_eq_Some_conv)
  then obtain n where n: "semantic_zone_position w ?i p z = Some n" by (rule semantic_position_found)
  obtain k w1 where w1: "remove_from_index ?i p z w = (Inr k, w1)" "index_ok {?i} w1" "ents w1 ?i \<noteq> None"
    "k \<le> length (zone_entities w1 p z)" "\<And>p' z'. zone_entities w1 p' z' = remove1 ?i (zone_entities w p' z')"
    "on_board w1 = on_board w" "k < length (zone_entities w p z)" "zone_entities w p z ! k = ?i"
    using remove_step [OF ok at] by metis
  from room at n w1(1)
  have "move_with move_entity_with_request rq w = accepted_move move_entity_with_request rq z p n k w1"
    by (auto simp: move_with_def accepted_move_def Let_def seq_def bnd_def)
  then have "move_entity_with_request rq w = accepted_move move_entity_with_request rq z p n k w1"
    by (simp add: move_entity_unfold [symmetric])
  from that [OF this w1(2,3) n w1(5,6,7,8,4)] show thesis .
qed

lemma refused_not_found:
  "component w e_zone (move_entity rq) = None \<or> component w e_controller (move_entity rq) = None \<Longrightarrow>
    move_entity_with_request rq w = (err (ZoneEntityNotFound (move_entity rq)), w)"
  by (subst move_entity_unfold) (auto simp: move_with_def Let_def need_def split: option.splits)

lemma resolved_place:
  assumes "resolve_destination_position w i q to requested preserved = Inr place"
  shows "case requested of
      Some k \<Rightarrow> (if to = Play \<and> on_board w i
        then length (filter (on_board w) (take (or_default (length (zone_entities w q to)) place) (zone_entities w q to)))
        else or_default (length (zone_entities w q to)) place) = k
    | None \<Rightarrow> place = preserved"
proof (cases requested)
  case None
  with assms show ?thesis
    by (simp add: resolve_destination_position_def and_then_def split: sum.splits)
next
  case (Some k)
  show ?thesis
  proof (cases "to = Play \<and> on_board w i")
    case True
    with assms Some have "place = Some (board_position_to_zone_position w q k)" "k \<le> length (board_entities w q)"
      by (auto simp: resolve_destination_position_def and_then_def validate_board_position_def
          validate_position_def split: sum.splits if_splits)
    with Some True board_position_counts show ?thesis by simp
  next
    case False
    with assms Some show ?thesis
      by (auto simp: resolve_destination_position_def and_then_def Let_def split: sum.splits)
  qed
qed

lemma refused_place:
  assumes "resolve_destination_position w i q to requested preserved = Inl e"
    and "or_default 0 preserved \<le> length (zone_entities w q to)"
  shows "\<exists>k. requested = Some k \<and> e = Err (InvalidPosition to k
      (length (if to = Play \<and> on_board w i then board_entities w q else zone_entities w q to))) \<and>
    length (if to = Play \<and> on_board w i then board_entities w q else zone_entities w q to) < k"
  using assms
  by (auto simp: resolve_destination_position_def and_then_def validate_board_position_def
      validate_zone_position_def validate_position_def Let_def split: sum.splits if_splits option.splits)

lemma accepted_move_Moved:
  fixes mv :: "zone_move_request \<Rightarrow> (zone_error, zone_move_outcome) step"
  assumes w1: "index_ok {move_entity rq} w1" "ents w1 (move_entity rq) \<noteq> None"
    and plain: "\<not> resets_runtime_state (move_kind rq) z (destination rq)"
    and result: "accepted_move mv rq z p n k w1 = (Inr r, w')"
  obtains place where
    "resolve_destination_position w1 (move_entity rq) (destination_controller rq) (destination rq)
       (move_position rq) (if z = destination rq \<and> p = destination_controller rq then Some k else None) = Inr place"
    "r = Moved z p n"
    "\<And>p' z'. zone_entities w' p' z' = (if p' = destination_controller rq \<and> z' = destination rq
       then take (or_default (length (zone_entities w1 p' z')) place) (zone_entities w1 p' z') @
         move_entity rq # drop (or_default (length (zone_entities w1 p' z')) place) (zone_entities w1 p' z')
       else zone_entities w1 p' z')"
proof -
  from result obtain place where place:
    "resolve_destination_position w1 (move_entity rq) (destination_controller rq) (destination rq)
       (move_position rq) (if z = destination rq \<and> p = destination_controller rq then Some k else None) = Inr place"
    by (auto simp: accepted_move_def seq_Inr_iff split: sum.splits)
  obtain w2 where w2: "(insert_into_zone_unchecked (move_entity rq) (destination_controller rq) (destination rq) place
        :: (zone_error, unit) step) w1 = (Inr (), w2)"
    "\<And>p' z'. zone_entities w2 p' z' = (if p' = destination_controller rq \<and> z' = destination rq
       then take (or_default (length (zone_entities w1 p' z')) place) (zone_entities w1 p' z') @
         move_entity rq # drop (or_default (length (zone_entities w1 p' z')) place) (zone_entities w1 p' z')
       else zone_entities w1 p' z')"
    using insert_step [OF w1 resolve_destination_le [OF place]] by metis
  from result place w2(1) obtain u where
    "(apply_movement_state_policy mv rq z :: (zone_error, unit) step) w2 = (Inr u, w')" "r = Moved z p n"
    by (auto simp: accepted_move_def seq_Inr_iff)
  moreover from this have "same_places w2 w'"
    using keepsD [OF stays_policy [OF plain], of w2 w2] by auto
  ultimately show thesis using that [OF place] w2(2) same_places_zones by auto
qed

lemma failed_move_result:
  "move_to_graveyard_after_failed_move mv i z p kind w = (Inr r, w') \<Longrightarrow> \<exists>n. r = FullZoneRemoval z p n"
  by (auto simp: move_to_graveyard_after_failed_move_def need_def seq_Inr_iff split: option.splits)

lemma accepted_move_result: "accepted_move mv rq z p n k w1 = (Inr r, w') \<Longrightarrow> r = Moved z p n"
  by (auto simp: accepted_move_def seq_Inr_iff split: sum.splits)

lemma turned_away:
  assumes at: "component w e_zone (move_entity rq) = Some z" "component w e_controller (move_entity rq) = Some p"
    and full: "(z, p) \<noteq> (destination rq, destination_controller rq)"
      "destination_is_full w (move_entity rq) (destination_controller rq) (destination rq)"
  shows "move_entity_with_request rq w =
    (case move_kind rq of
       ForcePlay \<Rightarrow> ret PreventedByFullZone
     | DrawMove \<Rightarrow> move_to_graveyard_after_failed_move move_entity_with_request (move_entity rq) z p BurnMove
     | _ \<Rightarrow> move_to_graveyard_after_failed_move move_entity_with_request (move_entity rq) z p
         (if z = Play then DeathMove else DiscardMove)) w"
proof -
  from at full have "move_with move_entity_with_request rq w = (case move_kind rq of
       ForcePlay \<Rightarrow> ret PreventedByFullZone
     | DrawMove \<Rightarrow> move_to_graveyard_after_failed_move move_entity_with_request (move_entity rq) z p BurnMove
     | _ \<Rightarrow> move_to_graveyard_after_failed_move move_entity_with_request (move_entity rq) z p
         (if z = Play then DeathMove else DiscardMove)) w"
    by (auto simp: move_with_def Let_def)
  then show ?thesis by (simp add: move_entity_unfold [symmetric])
qed

lemma moved_was_accepted:
  assumes ok: "zone_ok w" and result: "move_entity_with_request rq w = (Inr (Moved z p n), w')"
  shows "component w e_zone (move_entity rq) = Some z \<and> component w e_controller (move_entity rq) = Some p \<and>
    ((z, p) = (destination rq, destination_controller rq) \<or>
      \<not> destination_is_full w (move_entity rq) (destination_controller rq) (destination rq))"
proof -
  from result refused_not_found [of w rq]
  obtain z' p' where at: "component w e_zone (move_entity rq) = Some z'" "component w e_controller (move_entity rq) = Some p'"
    by fastforce
  show ?thesis
  proof (cases "(z', p') = (destination rq, destination_controller rq) \<or>
      \<not> destination_is_full w (move_entity rq) (destination_controller rq) (destination rq)")
    case True
    from accepted [OF ok at True] obtain k w1 n'
      where "move_entity_with_request rq w = accepted_move move_entity_with_request rq z' p' n' k w1" by metis
    with result have "Moved z p n = Moved z' p' n'" by (metis accepted_move_result)
    with at True show ?thesis by simp
  next
    case False
    with turned_away [OF at] result show ?thesis
      using failed_move_result by (fastforce split: zone_movement_kind.splits if_splits)
  qed
qed

lemma failed_move_run:
  fixes mv :: "zone_move_request \<Rightarrow> (zone_error, zone_move_outcome) step"
  assumes ok: "zone_ok w" and at: "component w e_zone i = Some z" "component w e_controller i = Some p"
  obtains n w2 where
    "move_to_graveyard_after_failed_move mv i z p kind w =
      seq (apply_movement_state_policy mv \<lparr>move_entity = i, destination_controller = p,
                 destination = Graveyard, move_position = None, move_kind = kind\<rparr> z)
         (seq (if kind = DeathMove then record_full_zone_death i n else ret ())
         (ret (FullZoneRemoval z p n))) w2"
    "semantic_zone_position w i p z = Some n" "zone_ok w2"
    "\<And>p' z'. zone_entities w2 p' z' = remove1 i (zone_entities w p' z') @ (if p' = p \<and> z' = Graveyard then [i] else [])"
proof -
  have "i \<in> set (zone_entities w p z)"
    using at by (auto simp: index_ok_member [OF ok] component_def bind_eq_Some_conv)
  then obtain n where n: "semantic_zone_position w i p z = Some n" by (rule semantic_position_found)
  obtain k w1 where w1: "remove_from_index i p z w = (Inr k, w1)" "index_ok {i} w1" "ents w1 i \<noteq> None"
    "\<And>p' z'. zone_entities w1 p' z' = remove1 i (zone_entities w p' z')"
    using remove_step [OF ok at] by metis
  have "or_default (length (zone_entities w1 p Graveyard)) None \<le> length (zone_entities w1 p Graveyard)" by simp
  from insert_step [OF w1(2,3) this]
  obtain w2 where w2: "(insert_into_zone_unchecked i p Graveyard None :: (zone_error, unit) step) w1 = (Inr (), w2)"
    "zone_ok w2"
    "\<And>p' z'. zone_entities w2 p' z' = (if p' = p \<and> z' = Graveyard
       then take (or_default (length (zone_entities w1 p Graveyard)) None) (zone_entities w1 p Graveyard) @
         i # drop (or_default (length (zone_entities w1 p Graveyard)) None) (zone_entities w1 p Graveyard)
       else zone_entities w1 p' z')"
    by blast
  then have ins: "insert_into_zone i p Graveyard None w1 = (Inr (), w2)"
    using w1(3) by (simp add: insert_into_zone_def validate_zone_position_def validate_position_def seq_def bnd_def)
  show thesis
  proof (rule that [OF _ n w2(2)])
    show "zone_entities w2 p' z' = remove1 i (zone_entities w p' z') @ (if p' = p \<and> z' = Graveyard then [i] else [])"
      for p' z'
      by (simp add: w2(3) w1(4))
    show "move_to_graveyard_after_failed_move mv i z p kind w =
      seq (apply_movement_state_policy mv \<lparr>move_entity = i, destination_controller = p,
                 destination = Graveyard, move_position = None, move_kind = kind\<rparr> z)
         (seq (if kind = DeathMove then record_full_zone_death i n else ret ())
         (ret (FullZoneRemoval z p n))) w2"
      using n w1(1) ins by (simp add: move_to_graveyard_after_failed_move_def split del: if_split)
  qed
qed

lemma quiet_record [quiet_steps]: "quiet (record_full_zone_death i n)"
  unfolding record_full_zone_death_def to_u32_def Let_def by (intro quiet_steps)

lemma failed_move_quiet:
  assumes "zone_ok w" "component w e_zone i = Some z" "component w e_controller i = Some p"
  shows "move_to_graveyard_after_failed_move mv i z p kind w \<noteq> (err e, w')"
proof -
  obtain n w2 rq where
    "move_to_graveyard_after_failed_move mv i z p kind w =
      seq (apply_movement_state_policy mv rq z)
         (seq (if kind = DeathMove then record_full_zone_death i n else ret ())
         (ret (FullZoneRemoval z p n))) w2"
    using failed_move_run [OF assms] by metis
  moreover have "quiet (seq (apply_movement_state_policy mv rq z)
      (seq (if kind = DeathMove then record_full_zone_death i n else ret ()) (ret (FullZoneRemoval z p n)))
      :: (zone_error, zone_move_outcome) step)"
    by (intro quiet_steps)
  ultimately show ?thesis by (metis quietD)
qed

lemma put_back: "k < length xs \<Longrightarrow> distinct xs \<Longrightarrow> xs ! k = x \<Longrightarrow> take k (remove1 x xs) @ x # drop k (remove1 x xs) = xs"
proof (induction xs arbitrary: k)
  case (Cons y ys)
  then show ?case by (cases k) auto
qed simp

lemma accepted_move_error:
  assumes w1: "index_ok {move_entity rq} w1" "ents w1 (move_entity rq) \<noteq> None" "k \<le> length (zone_entities w1 p z)"
    and result: "accepted_move mv rq z p n k w1 = (err e, w')"
  shows "\<exists>j len. move_position rq = Some j \<and> len < j \<and> e = InvalidPosition (destination rq) j len"
    and "zone_entities w' p' z' = (if p' = p \<and> z' = z
       then take k (zone_entities w1 p z) @ move_entity rq # drop k (zone_entities w1 p z)
       else zone_entities w1 p' z')"
proof -
  let ?place = "resolve_destination_position w1 (move_entity rq) (destination_controller rq) (destination rq)
       (move_position rq) (if z = destination rq \<and> p = destination_controller rq then Some k else None)"
  obtain f where f: "?place = Inl f"
  proof (cases ?place)
    case (Inl f)
    then show thesis by (rule that)
  next
    case (Inr place)
    from insert_ok [OF w1(1,2) resolve_destination_le [OF Inr]] obtain w2
      where "(insert_into_zone_unchecked (move_entity rq) (destination_controller rq) (destination rq) place
        :: (zone_error, unit) step) w1 = (Inr (), w2)"
      by blast
    with result Inr have "seq (apply_movement_state_policy mv rq z) (ret (Moved z p n)) w2 = (err e, w')"
      by (simp add: accepted_move_def)
    moreover have "quiet (seq (apply_movement_state_policy mv rq z) (ret (Moved z p n)) ::
        (zone_error, zone_move_outcome) step)"
      by (intro quiet_steps)
    ultimately show thesis by (metis quietD)
  qed
  from w1(3) have "or_default (length (zone_entities w1 p z)) (Some k) \<le> length (zone_entities w1 p z)" by simp
  from insert_step [OF w1(1,2) this] obtain w2
    where w2: "(insert_into_zone_unchecked (move_entity rq) p z (Some k) :: (zone_error, unit) step) w1 = (Inr (), w2)"
      "\<And>p' z'. zone_entities w2 p' z' = (if p' = p \<and> z' = z
       then take k (zone_entities w1 p z) @ move_entity rq # drop k (zone_entities w1 p z)
       else zone_entities w1 p' z')"
    by (metis option_simps(6))
  from result f w2(1) have restored: "w' = w2" "f = Err e" by (simp_all add: accepted_move_def)
  then show "zone_entities w' p' z' = (if p' = p \<and> z' = z
       then take k (zone_entities w1 p z) @ move_entity rq # drop k (zone_entities w1 p z)
       else zone_entities w1 p' z')"
    using w2(2) by simp
  have "or_default 0 (if z = destination rq \<and> p = destination_controller rq then Some k else None)
      \<le> length (zone_entities w1 (destination_controller rq) (destination rq))"
    using w1(3) by auto
  from refused_place [OF f this] restored(2)
  show "\<exists>j len. move_position rq = Some j \<and> len < j \<and> e = InvalidPosition (destination rq) j len"
    by blast
qed

section \<open>The theorems\<close>

text \<open>A movement between zones keeps the zone index consistent with the entities, whether it succeeds,
  is refused, or panics: an entity is in the list of a zone at a place exactly when its components
  say so.\<close>
theorem movement_keeps_the_index:
  assumes "zone_ok w" "move_entity_with_request rq w = (r, w')"
  shows "zone_ok w'"
  using assms by (metis keepsD move_keeps_zone_ok)

theorem movement_keeps_the_index_witness:
  "zone_ok (snd (move_entity_with_request (sample_request 0 NormalMove) sample_world))"
  by (rule movement_keeps_the_index [OF sample_ok(1) prod.collapse [symmetric]])

text \<open>A movement takes the entity out of its zone and puts it at the requested place of the
  destination, which counts the minions, locations and dormants alone on the board, is the old place
  within the same zone, and the end without a request; the others keep their order.\<close>
theorem movement_places_the_entity:
  assumes "zone_ok w" "move_entity_with_request rq w = (Inr (Moved z p n), w')"
    and "\<not> resets_runtime_state (move_kind rq) z (destination rq)"
    and xs: "xs = remove1 (move_entity rq) (zone_entities w (destination_controller rq) (destination rq))"
  shows "\<exists>m \<le> length xs.
    (\<forall>p' z'. zone_entities w' p' z' =
       (if p' = destination_controller rq \<and> z' = destination rq then take m xs @ move_entity rq # drop m xs
        else remove1 (move_entity rq) (zone_entities w p' z'))) \<and>
    (case move_position rq of
       Some k \<Rightarrow> k = (if destination rq = Play \<and> on_board w (move_entity rq)
         then length (filter (on_board w) (take m xs)) else m)
     | None \<Rightarrow> if (z, p) = (destination rq, destination_controller rq)
         then zone_entities w p z ! m = move_entity rq else m = length xs)"
proof -
  note was = moved_was_accepted [OF assms(1,2)]
  then obtain k w1 n' where w1: "move_entity_with_request rq w = accepted_move move_entity_with_request rq z p n' k w1"
    "index_ok {move_entity rq} w1" "ents w1 (move_entity rq) \<noteq> None"
    "\<And>p' z'. zone_entities w1 p' z' = remove1 (move_entity rq) (zone_entities w p' z')"
    "on_board w1 = on_board w" "zone_entities w p z ! k = move_entity rq"
    using accepted [OF assms(1), of rq z p] by metis
  from assms(2) w1(1) have moved: "accepted_move move_entity_with_request rq z p n' k w1 = (Inr (Moved z p n), w')" by simp
  obtain place where place:
    "resolve_destination_position w1 (move_entity rq) (destination_controller rq) (destination rq)
       (move_position rq) (if z = destination rq \<and> p = destination_controller rq then Some k else None) = Inr place"
    "\<And>p' z'. zone_entities w' p' z' = (if p' = destination_controller rq \<and> z' = destination rq
       then take (or_default (length (zone_entities w1 p' z')) place) (zone_entities w1 p' z') @
         move_entity rq # drop (or_default (length (zone_entities w1 p' z')) place) (zone_entities w1 p' z')
       else zone_entities w1 p' z')"
    using accepted_move_Moved [OF w1(2,3) assms(3) moved] by metis
  let ?m = "or_default (length xs) place"
  have "zone_entities w1 (destination_controller rq) (destination rq) = xs" by (simp add: w1(4) xs)
  with resolve_destination_le [OF place(1)] resolved_place [OF place(1)] place(2) w1(4,5,6)
  show ?thesis
    by (intro exI [of _ ?m] conjI) (auto split: option.splits if_splits)
qed

theorem movement_places_the_entity_witness:
  "zone_entities (snd (move_entity_with_request (sample_request 0 NormalMove) sample_world)) One Play = [0]"
proof -
  let ?rq = "sample_request 0 NormalMove" and ?w = sample_world
  have "move_entity_with_request ?rq ?w = (Inr (Moved Hand One 0), snd (move_entity_with_request ?rq ?w))"
    by (metis prod.collapse sample_move)
  moreover have "\<not> resets_runtime_state (move_kind ?rq) Hand (destination ?rq)"
    by (simp add: sample_request_def resets_runtime_state_def)
  ultimately have "\<exists>m \<le> length ([] :: nat list). \<forall>p' z'. zone_entities (snd (move_entity_with_request ?rq ?w)) p' z' =
       (if p' = destination_controller ?rq \<and> z' = destination ?rq then take m [] @ move_entity ?rq # drop m []
        else remove1 (move_entity ?rq) (zone_entities ?w p' z'))"
    using movement_places_the_entity [OF sample_ok(1), of ?rq Hand One 0 _ "[]"]
    by (fastforce simp: sample_request_def zone_entities_def sample_world_def initial_world_def)
  then show ?thesis by (simp add: sample_request_def)
qed

text \<open>A movement reports an error in two cases only, an entity that is in no zone and a place
  beyond the end of the destination; then no entity has changed its zone or its place.\<close>
theorem refused_movement_moves_nothing:
  assumes ok: "zone_ok w" and result: "move_entity_with_request rq w = (err e, w')"
  shows "(e = ZoneEntityNotFound (move_entity rq) \<or>
      (\<exists>k len. move_position rq = Some k \<and> len < k \<and> e = InvalidPosition (destination rq) k len)) \<and>
    (\<forall>p z. zone_entities w' p z = zone_entities w p z)"
proof (cases "component w e_zone (move_entity rq) = None \<or> component w e_controller (move_entity rq) = None")
  case True
  with refused_not_found [of w rq] result show ?thesis by simp
next
  case False
  let ?i = "move_entity rq"
  from False obtain z p where at: "component w e_zone ?i = Some z" "component w e_controller ?i = Some p" by force
  show ?thesis
  proof (cases "(z, p) = (destination rq, destination_controller rq) \<or>
      \<not> destination_is_full w ?i (destination_controller rq) (destination rq)")
    case True
    from accepted [OF ok at True] obtain k w1 n
      where w1: "move_entity_with_request rq w = accepted_move move_entity_with_request rq z p n k w1"
        "index_ok {?i} w1" "ents w1 ?i \<noteq> None"
        "\<And>p' z'. zone_entities w1 p' z' = remove1 ?i (zone_entities w p' z')"
        "k < length (zone_entities w p z)" "zone_entities w p z ! k = ?i"
        "k \<le> length (zone_entities w1 p z)"
      by metis
    from result w1(1) have "accepted_move move_entity_with_request rq z p n k w1 = (err e, w')" by simp
    note refused = accepted_move_error [OF w1(2,3,7) this]
    have "distinct (zone_entities w p z)" by (rule index_ok_distinct [OF ok])
    from put_back [OF w1(5) this w1(6)]
    have "zone_entities w' p z = zone_entities w p z" by (simp add: refused(2) w1(4))
    moreover have "zone_entities w' p' z' = zone_entities w p' z'" if "(p', z') \<noteq> (p, z)" for p' z'
    proof -
      from that at have "?i \<notin> set (zone_entities w p' z')"
        by (auto simp: index_ok_member [OF ok] component_def bind_eq_Some_conv)
      with that show ?thesis by (auto simp: refused(2) w1(4) remove1_idem)
    qed
    ultimately have "zone_entities w' p' z' = zone_entities w p' z'" for p' z' by (metis prod.inject)
    with refused(1) show ?thesis by blast
  next
    case False
    have "(err e, w') \<noteq> move_to_graveyard_after_failed_move move_entity_with_request ?i z p kind w" for kind
      using failed_move_quiet [OF ok at] by metis
    with turned_away [OF at] result False show ?thesis
      by (cases "move_kind rq") auto
  qed
qed

theorem refused_movement_moves_nothing_witness:
  "zone_entities (snd (move_entity_with_request (sample_request 5 NormalMove) sample_world)) One Hand = [0]"
proof -
  let ?rq = "sample_request 5 NormalMove" and ?w = sample_world
  have "move_entity_with_request ?rq ?w = (err (InvalidPosition Play 5 0), snd (move_entity_with_request ?rq ?w))"
    by (metis prod.collapse sample_refused)
  from refused_movement_moves_nothing [OF sample_ok(1) this] show ?thesis
    by (simp add: zone_entities_def sample_world_def)
qed

text \<open>An entity that a full zone turns away goes to the end of its owner's graveyard, out of a zone
  other than Play; a forced play leaves the world as it is instead.\<close>
theorem full_zone_sends_to_the_graveyard:
  assumes ok: "zone_ok w"
    and at: "component w e_zone (move_entity rq) = Some z" "component w e_controller (move_entity rq) = Some p"
    and full: "(z, p) \<noteq> (destination rq, destination_controller rq)"
      "destination_is_full w (move_entity rq) (destination_controller rq) (destination rq)"
    and "z \<noteq> Play" and result: "move_entity_with_request rq w = (Inr r, w')"
  shows "if move_kind rq = ForcePlay then r = PreventedByFullZone \<and> w' = w
    else (\<exists>n. r = FullZoneRemoval z p n \<and> semantic_zone_position w (move_entity rq) p z = Some n) \<and>
      (\<forall>p' z'. zone_entities w' p' z' = remove1 (move_entity rq) (zone_entities w p' z') @
        (if p' = p \<and> z' = Graveyard then [move_entity rq] else []))"
proof (cases "move_kind rq = ForcePlay")
  case True
  with turned_away [OF at full] result show ?thesis by simp
next
  case False
  define kind where "kind = (if move_kind rq = DrawMove then BurnMove else DiscardMove)"
  from False turned_away [OF at full] \<open>z \<noteq> Play\<close>
  have "move_entity_with_request rq w =
      move_to_graveyard_after_failed_move move_entity_with_request (move_entity rq) z p kind w"
    by (cases "move_kind rq") (simp_all add: kind_def)
  moreover obtain n w2 where w2:
    "move_to_graveyard_after_failed_move move_entity_with_request (move_entity rq) z p kind w =
      seq (apply_movement_state_policy move_entity_with_request \<lparr>move_entity = move_entity rq,
             destination_controller = p, destination = Graveyard, move_position = None, move_kind = kind\<rparr> z)
         (seq (if kind = DeathMove then record_full_zone_death (move_entity rq) n else ret ())
         (ret (FullZoneRemoval z p n))) w2"
    "semantic_zone_position w (move_entity rq) p z = Some n"
    "\<And>p' z'. zone_entities w2 p' z' = remove1 (move_entity rq) (zone_entities w p' z') @
      (if p' = p \<and> z' = Graveyard then [move_entity rq] else [])"
    using failed_move_run [OF ok at] by metis
  moreover have kind: "kind \<noteq> DeathMove" by (simp add: kind_def)
  ultimately have "seq (apply_movement_state_policy move_entity_with_request \<lparr>move_entity = move_entity rq,
             destination_controller = p, destination = Graveyard, move_position = None, move_kind = kind\<rparr> z)
         (seq (ret ()) (ret (FullZoneRemoval z p n))) w2 = (Inr r :: (zone_error, zone_move_outcome) outcome, w')"
    using result by simp
  then obtain u where run: "(apply_movement_state_policy move_entity_with_request
      \<lparr>move_entity = move_entity rq, destination_controller = p, destination = Graveyard,
        move_position = None, move_kind = kind\<rparr> z :: (zone_error, unit) step) w2 = (Inr u, w')"
    "r = FullZoneRemoval z p n"
    by (auto simp: seq_Inr_iff)
  have "\<not> resets_runtime_state kind z Graveyard"
    using kind by (cases z) (simp_all add: resets_runtime_state_def)
  then have "same_places w2 w'"
    using keepsD [OF stays_policy _ run(1)] by simp
  with w2 run(2) False same_places_zones show ?thesis by auto
qed

theorem full_zone_sends_to_the_graveyard_witness:
  "zone_entities (snd (move_entity_with_request (sample_request 0 NormalMove) crowded_world)) One Graveyard = [0]"
proof -
  let ?rq = "sample_request 0 NormalMove" and ?w = crowded_world
  have "move_entity_with_request ?rq ?w = (Inr (FullZoneRemoval Hand One 0), snd (move_entity_with_request ?rq ?w))"
    by (metis prod.collapse sample_crowded)
  moreover have "component ?w e_zone (move_entity ?rq) = Some Hand"
    "component ?w e_controller (move_entity ?rq) = Some One"
    "destination_is_full ?w (move_entity ?rq) (destination_controller ?rq) (destination ?rq)"
    by (simp_all add: runs)
  ultimately show ?thesis
    using full_zone_sends_to_the_graveyard [OF sample_ok(2), of ?rq Hand One]
    by (simp add: sample_request_def) (simp add: zone_entities_def crowded_world_def sample_world_def initial_world_def)
qed

end
