(* ===== verification/Hs_Trigger.thy ===== *)
theory Hs_Trigger imports Hs_Enchantment begin

text \<open>
  Triggers (\<open>simulator/trigger.rs\<close>): the seeds of an event, collected with their pre-check
  conditions, the candidates queued in the total order of their keys, and the conditions of each
  of the three timings.

  The position of a trigger among those of its source is a \<open>u32\<close> in the source, which panics
  beyond the 2^32-th; such lists are not modelled.
\<close>

section \<open>Selection in play\<close>

definition resolve_player :: "player_id \<Rightarrow> player_selector \<Rightarrow> player_id" where
  "resolve_player owner s = (case s of
     ControllerPlayer \<Rightarrow> owner | OpponentPlayer \<Rightarrow> opponent owner | ThePlayer p \<Rightarrow> p)"

text \<open>The players and kinds of the six selectors of entities in play, in the order of the zone index.\<close>

fun selector_admits :: "selector \<Rightarrow> player_id \<Rightarrow> player_id \<Rightarrow> bool" where
  "selector_admits FriendlyMinions owner p \<longleftrightarrow> p = owner"
| "selector_admits FriendlyCharacters owner p \<longleftrightarrow> p = owner"
| "selector_admits EnemyMinions owner p \<longleftrightarrow> p = opponent owner"
| "selector_admits EnemyCharacters owner p \<longleftrightarrow> p = opponent owner"
| "selector_admits _ owner p \<longleftrightarrow> True"

fun selector_kind :: "selector \<Rightarrow> entity_kind option \<Rightarrow> bool" where
  "selector_kind FriendlyMinions k \<longleftrightarrow> k = Some Minion"
| "selector_kind EnemyMinions k \<longleftrightarrow> k = Some Minion"
| "selector_kind AllMinions k \<longleftrightarrow> k = Some Minion"
| "selector_kind _ k \<longleftrightarrow> k = Some Hero \<or> k = Some Minion"

definition selected_in_play :: "world \<Rightarrow> player_id \<Rightarrow> selector \<Rightarrow> game_entity_id list" where
  "selected_in_play w owner s =
     filter (\<lambda>i. selector_kind s (component w e_kind i))
       (concat (map (\<lambda>p. zone_entities w p Play) (filter (selector_admits s owner) all_players)))"

fun selector_count :: "world \<Rightarrow> game_entity_id \<Rightarrow> player_id \<Rightarrow> event_context \<Rightarrow> selector \<Rightarrow> nat" where
  "selector_count w i owner ev SourceEntity = of_bool (ents w i \<noteq> None)"
| "selector_count w i owner ev DrawnCard = 0"
| "selector_count w i owner ev AttachedEntity = of_bool (component w e_attached_to i \<noteq> None)"
| "selector_count w i owner ev DeclaredTarget =
     (case event_targets ev of [] \<Rightarrow> 0 | t # _ \<Rightarrow> of_bool (ents w t \<noteq> None))"
| "selector_count w i owner ev (TheEntity t) = of_bool (ents w t \<noteq> None)"
| "selector_count w i owner ev (InZone p z) = length (zone_entities w (resolve_player owner p) z)"
| "selector_count w i owner ev (Random s) = of_bool (0 < selector_count w i owner ev s)"
| "selector_count w i owner ev s = length (selected_in_play w owner s)"

section \<open>Conditions\<close>

fun evaluate_condition ::
  "world \<Rightarrow> game_entity_id \<Rightarrow> player_id \<Rightarrow> event_context \<Rightarrow> trigger_condition \<Rightarrow> bool" where
  "evaluate_condition w i owner ev Always \<longleftrightarrow> True"
| "evaluate_condition w i owner ev SourceInPlay \<longleftrightarrow> component w e_zone i = Some Play"
| "evaluate_condition w i owner ev (SourceInZone z) \<longleftrightarrow> component w e_zone i = Some z"
| "evaluate_condition w i owner ev (EventValueAtLeast n) \<longleftrightarrow>
     (case (actual_value ev, proposed_value ev) of
        (Some a, _) \<Rightarrow> n \<le> a | (None, Some a) \<Rightarrow> n \<le> a | _ \<Rightarrow> False)"
| "evaluate_condition w i owner ev EventSourceIsSelf \<longleftrightarrow> event_source ev = Some i"
| "evaluate_condition w i owner ev EventTargetsSelf \<longleftrightarrow> i \<in> set (event_targets ev)"
| "evaluate_condition w i owner ev EventTargetsAttachedEntity \<longleftrightarrow>
     (case component w e_attached_to i of None \<Rightarrow> False | Some t \<Rightarrow> t \<in> set (event_targets ev))"
| "evaluate_condition w i owner ev (EventControllerIs s) \<longleftrightarrow>
     event_controller ev = resolve_player (or_default owner (component w e_controller i)) s"
| "evaluate_condition w i owner ev (ControllerIs p) \<longleftrightarrow> or_default owner (component w e_controller i) = p"
| "evaluate_condition w i owner ev (MinimumEntityCount s n) \<longleftrightarrow>
     n \<le> selector_count w i (or_default owner (component w e_controller i)) ev s"

definition source_policy_holds :: "world \<Rightarrow> game_entity_id \<Rightarrow> trigger_definition \<Rightarrow> bool" where
  "source_policy_holds w i d =
     (case source_eligibility d of
        MustExist \<Rightarrow> ents w i \<noteq> None
      | MustRemainInEligibleZone \<Rightarrow>
          (case component w e_zone i of None \<Rightarrow> False | Some z \<Rightarrow> z \<in> set (eligible_zones d))
      | RememberedSource \<Rightarrow> True)"

definition trigger_seed_is_eligible ::
  "world \<Rightarrow> game_entity_id \<Rightarrow> player_id \<Rightarrow> trigger_definition \<Rightarrow> event_context \<Rightarrow> condition_timing \<Rightarrow> bool" where
  "trigger_seed_is_eligible w i owner d ev time \<longleftrightarrow>
     source_policy_holds w i d \<and>
     list_all (\<lambda>c. evaluate_condition w i owner ev (condition c))
       (filter (\<lambda>c. timing c = time) (trigger_conditions d))"

section \<open>Seeds and candidates\<close>

definition seeds_of :: "world \<Rightarrow> event_context \<Rightarrow> game_entity_id \<times> game_entity \<Rightarrow> trigger_seed list" where
  "seeds_of w ev = (\<lambda>(i, e).
     case (e_triggers e, e_zone e, e_controller e) of
       (Some ts, Some z, Some p) \<Rightarrow>
         if e_silenced e then []
         else map (\<lambda>(n, d). \<lparr>seed_source = i, seed_index = n, seed_definition = d, seed_controller = p,
                seed_zone = z, seed_play_order = or_default 0 (e_play_order e)\<rparr>)
              (filter (\<lambda>(n, d). trigger_event d = event_kind ev \<and> z \<in> set (eligible_zones d) \<and>
                   trigger_seed_is_eligible w i p d ev PreCheck)
                (enumerate 0 ts))
     | _ \<Rightarrow> [])"

definition seed_key :: "trigger_seed \<Rightarrow> nat \<times> nat \<times> nat" where
  "seed_key s = (seed_play_order s, seed_source s, seed_index s)"

definition collect_trigger_seeds :: "world \<Rightarrow> event_context \<Rightarrow> trigger_seed list" where
  "collect_trigger_seeds w ev = sort_key seed_key (concat (map (seeds_of w ev) (iter_entities w)))"

fun zone_bucket_of :: "zone \<Rightarrow> nat" where
  "zone_bucket_of Play = 0"
| "zone_bucket_of SecretZone = 1"
| "zone_bucket_of Hand = 2"
| "zone_bucket_of Deck = 3"
| "zone_bucket_of Graveyard = 4"
| "zone_bucket_of SetAside = 5"
| "zone_bucket_of RemovedFromGame = 6"

definition candidate_of :: "world \<Rightarrow> event_id \<Rightarrow> event_context \<Rightarrow> trigger_seed \<Rightarrow> trigger_candidate" where
  "candidate_of w event ev s =
     (let owner = or_default (seed_controller s) (component w e_controller (seed_source s)) in
      \<lparr>candidate_source = seed_source s, candidate_event = event, candidate_index = seed_index s,
        candidate_definition = seed_definition s, candidate_controller = owner,
        candidate_order = \<lparr>player_bucket = of_bool (owner \<noteq> dominant_player w),
          zone_bucket = (if event_kind ev = DeathEvent then 0 else zone_bucket_of (seed_zone s)),
          order_priority = trigger_priority (seed_definition s), order_play_order = seed_play_order s,
          order_source = seed_source s, tie_breaker = seed_index s\<rparr>\<rparr>)"

definition order_key :: "trigger_order_key \<Rightarrow> nat \<times> nat \<times> int \<times> nat \<times> nat \<times> nat" where
  "order_key k = (player_bucket k, zone_bucket k, order_priority k, order_play_order k, order_source k, tie_breaker k)"

definition collect_trigger_candidates ::
  "world \<Rightarrow> event_id \<Rightarrow> event_context \<Rightarrow> trigger_seed list \<Rightarrow> trigger_candidate list" where
  "collect_trigger_candidates w event ev seeds =
     sort_key (order_key \<circ> candidate_order)
       (map (candidate_of w event ev)
         (filter (\<lambda>s. trigger_seed_is_eligible w (seed_source s) (seed_controller s) (seed_definition s) ev QueueTime)
           seeds))"

definition trigger_is_eligible :: "world \<Rightarrow> trigger_candidate \<Rightarrow> event_context \<Rightarrow> condition_timing \<Rightarrow> bool" where
  "trigger_is_eligible w c ev time =
     trigger_seed_is_eligible w (candidate_source c) (candidate_controller c) (candidate_definition c) ev time"

end
