(* ===== verification/Hs_Health.thy ===== *)
theory Hs_Health imports Hs_Trigger Hs_Resolver Hs_Aura begin

text \<open>
  The records of events (\<open>simulator/simulation_event_resolver.rs\<close>): creation with its trace entry,
  with or without the triggers checked beforehand, and consumption.
\<close>

definition record_event :: "event_context \<Rightarrow> trigger_seed list option \<Rightarrow> ('e, event_id) step" where
  "record_event ev seeds =
     bnd allocate_event_id (\<lambda>i.
     seq (push_trace (EventCreated i (event_kind ev) (event_source ev) (event_targets ev)
            (proposed_value ev) (actual_value ev)))
     (ask (\<lambda>w.
       if bt_contains (events (work w)) i then die
       else seq (change_work (\<lambda>r. r\<lparr>events := bt_insert i
              \<lparr>event_context = ev, prechecked_triggers = seeds, candidates = None\<rparr> (events r)\<rparr>))
         (ret i))))"

definition prepare_event :: "event_context \<Rightarrow> ('e, event_id) step" where
  "prepare_event ev = record_event ev None"

definition prepare_event_with_seeds :: "event_context \<Rightarrow> trigger_seed list \<Rightarrow> ('e, event_id) step" where
  "prepare_event_with_seeds ev seeds = record_event ev (Some seeds)"

definition prepare_prechecked_event :: "event_context \<Rightarrow> ('e, event_id) step" where
  "prepare_prechecked_event ev = ask (\<lambda>w. record_event ev (Some (collect_trigger_seeds w ev)))"

definition take_prepared_event :: "event_id \<Rightarrow> prepared_event sim" where
  "take_prepared_event i = ask (\<lambda>w.
     need (ResolutionFailed (MissingEvent i)) (bt_get (events (work w)) i) (\<lambda>prepared.
       seq (change_work (\<lambda>r. r\<lparr>events := bt_remove i (events r)\<rparr>)) (ret prepared)))"

text \<open>An event of one source and its targets without values.\<close>

definition plain_event ::
  "event_kind \<Rightarrow> game_entity_id option \<Rightarrow> game_entity_id list \<Rightarrow> player_id \<Rightarrow> event_context" where
  "plain_event k i ts p = \<lparr>event_kind = k, event_source = i, event_targets = ts, event_controller = p,
     proposed_value = None, actual_value = None, simultaneous_ordinal = 0\<rparr>"

text \<open>
  Damage and healing (\<open>simulator/simulation_health.rs\<close>): a batch is expanded into one operation per
  request with an event slot each, a request passes the protections, gives a proposed event that
  triggers may modify, and then takes armor and health; the event of the actual value goes into
  the slot, so that all events of a batch are resolved after all its changes.
\<close>

datatype simultaneous_event_order = OrderOfPlay | GivenOrder

definition event_controller_of :: "world \<Rightarrow> game_entity_id option \<Rightarrow> game_entity_id \<Rightarrow> player_id" where
  "event_controller_of w i target =
     or_default One (Option.bind
       (case Option.bind i (ents w) of None \<Rightarrow> ents w target | Some e \<Rightarrow> Some e) e_controller)"

definition health_event :: "world \<Rightarrow> event_kind \<Rightarrow> health_request \<Rightarrow> int option \<Rightarrow> nat \<Rightarrow> event_context" where
  "health_event w k rq actual ordinal = \<lparr>event_kind = k, event_source = request_source rq,
     event_targets = [request_target rq],
     event_controller = event_controller_of w (request_source rq) (request_target rq),
     proposed_value = Some (proposed rq), actual_value = actual, simultaneous_ordinal = ordinal\<rparr>"

definition validate_health_change_targets :: "world \<Rightarrow> health_request list \<Rightarrow> (simulation_error, unit) outcome" where
  "validate_health_change_targets w requests =
     try_fold (\<lambda>_ rq. if ents w (request_target rq) = None then err (EntityNotFound (request_target rq)) else Inr ())
       () requests"

definition order_health_change_requests ::
  "world \<Rightarrow> simultaneous_event_order \<Rightarrow> health_request list \<Rightarrow> health_request list" where
  "order_health_change_requests w order requests =
     (if order = OrderOfPlay
      then sort_key (\<lambda>rq. (play_order_of w (request_target rq), request_target rq)) requests
      else requests)"

definition at_least_zero :: "health_request \<Rightarrow> health_request" where
  "at_least_zero rq = rq\<lparr>proposed := max 0 (proposed rq)\<rparr>"

section \<open>Damage\<close>

definition trace_damage :: "health_request \<Rightarrow> int \<Rightarrow> ('e, unit) step" where
  "trace_damage rq actual = push_trace (DamageTraced (request_source rq) (request_target rq) (proposed rq) actual)"

definition damage_passes_protection :: "health_request \<Rightarrow> ('e, bool) step" where
  "damage_passes_protection rq = ask (\<lambda>w.
     let i = request_target rq in
     if proposed rq \<le> 0 then ret False
     else case ents w i of
       None \<Rightarrow> die
     | Some e \<Rightarrow>
         if has_keyword w i Immune then ret False
         else if DivineShield \<in> or_default {} (e_keywords e)
         then seq (update i (\<lambda>e. e\<lparr>e_keywords := map_option (\<lambda>ks. ks - {DivineShield}) (e_keywords e)\<rparr>)) (ret False)
         else ret True)"

definition reduce_damage :: "health_request \<Rightarrow> nat \<Rightarrow> ('e, event_context) step" where
  "reduce_damage rq ordinal = ask (\<lambda>w.
     let i = request_target rq in
     case ents w i of
       None \<Rightarrow> die
     | Some e \<Rightarrow>
         let amount = max 0 (proposed rq);
             absorbed = min (or_default 0 (e_armor e)) amount
         in seq (if 0 < absorbed then update i (\<lambda>e. e\<lparr>e_armor := map_option (\<lambda>a. a - absorbed) (e_armor e)\<rparr>) else ret ())
           (bnd (i32_op (amount - absorbed)) (\<lambda>health_damage.
           seq (if 0 < health_damage
                then update i (\<lambda>e. e\<lparr>e_damage := Some (saturate_i32 (or_default 0 (e_damage e) + health_damage))\<rparr>)
                else ret ())
           (let actual = saturate_i32 (absorbed + health_damage) in
            seq (trace_damage rq actual)
              (ask (\<lambda>w. ret (health_event w DamageEvent (rq\<lparr>proposed := amount\<rparr>) (Some actual) ordinal)))))))"

definition apply_damage_batch :: "health_request list \<Rightarrow> simultaneous_event_order \<Rightarrow> unit sim" where
  "apply_damage_batch requests order = ask (\<lambda>w.
     seq (lift (validate_health_change_targets w requests))
     (let requests = order_health_change_requests w order requests in
      if resolution_is_active w then push_op (ProcessDamageBatch requests)
      else for_all (\<lambda>(n, rq).
        let rq = at_least_zero rq in
        bnd (damage_passes_protection rq) (\<lambda>passes.
          if passes then bnd (to_u32 n) (\<lambda>ordinal. seq (reduce_damage rq ordinal) (ret ()))
          else trace_damage rq 0))
        (enumerate 0 requests)))"

definition apply_damage :: "game_entity_id option \<Rightarrow> game_entity_id \<Rightarrow> int \<Rightarrow> unit sim" where
  "apply_damage i target n =
     apply_damage_batch [\<lparr>request_source = i, request_target = target, proposed = n\<rparr>] GivenOrder"

text \<open>One slot per request; the slots are resolved after the whole batch.\<close>

definition expand_batch ::
  "(health_request \<Rightarrow> event_slot_id \<Rightarrow> nat \<Rightarrow> resolution_op) \<Rightarrow> health_request list \<Rightarrow> ('e, unit) step" where
  "expand_batch process requests =
     (if requests = [] then ret ()
      else bnd (map_steps (\<lambda>_. allocate_event_slot) requests) (\<lambda>slots.
        bnd (map_steps (\<lambda>(n, rq, slot). bnd (to_u32 n) (\<lambda>ordinal. ret (process rq slot ordinal)))
              (enumerate 0 (zip requests slots))) (\<lambda>ops.
        push_resolution_ops (ops @ map ResolveEventSlot slots))))"

definition expand_damage_batch :: "health_request list \<Rightarrow> ('e, unit) step" where
  "expand_damage_batch = expand_batch ProcessDamage"

definition process_damage :: "health_request \<Rightarrow> event_slot_id \<Rightarrow> nat \<Rightarrow> ('e, unit) step" where
  "process_damage rq slot ordinal =
     (let rq = at_least_zero rq in
      bnd (damage_passes_protection rq) (\<lambda>passes.
      if \<not> passes then trace_damage rq 0
      else ask (\<lambda>w.
        bnd (prepare_event (health_event w ProposedDamage rq None ordinal)) (\<lambda>event.
        push_resolution_ops [ResolveEvent event, ApplyDamage rq event slot ordinal]))))"

definition fill_event_slot :: "event_slot_id \<Rightarrow> event_context \<Rightarrow> unit sim" where
  "fill_event_slot slot ev =
     bnd (prepare_event ev) (\<lambda>event.
     ask (\<lambda>w.
       if bt_get (event_slots (work w)) slot = None then fail (ResolutionFailed (MissingEventSlot slot))
       else change_work (\<lambda>r. r\<lparr>event_slots := bt_adjust slot (\<lambda>_. Some event) (event_slots r)\<rparr>)))"

definition proposed_of :: "prepared_event \<Rightarrow> int" where
  "proposed_of p = max 0 (or_default 0 (proposed_value (event_context p)))"

definition fill_if_positive :: "event_slot_id \<Rightarrow> event_context \<Rightarrow> unit sim" where
  "fill_if_positive slot ev =
     (if (case actual_value ev of None \<Rightarrow> False | Some n \<Rightarrow> 0 < n) then fill_event_slot slot ev else ret ())"

definition apply_prepared_damage :: "health_request \<Rightarrow> event_id \<Rightarrow> event_slot_id \<Rightarrow> nat \<Rightarrow> unit sim" where
  "apply_prepared_damage rq event slot ordinal =
     bnd (take_prepared_event event) (\<lambda>prepared.
     bnd (reduce_damage (rq\<lparr>proposed := proposed_of prepared\<rparr>) ordinal) (fill_if_positive slot))"

section \<open>Healing\<close>

definition reduce_healing :: "health_request \<Rightarrow> nat \<Rightarrow> ('e, event_context) step" where
  "reduce_healing rq ordinal = ask (\<lambda>w.
     let i = request_target rq; amount = max 0 (proposed rq) in
     case ents w i of
       None \<Rightarrow> die
     | Some e \<Rightarrow>
         let actual = (case e_damage e of None \<Rightarrow> 0 | Some d \<Rightarrow> min d amount) in
         seq (update i (\<lambda>e. e\<lparr>e_damage := map_option (\<lambda>d. d - actual) (e_damage e)\<rparr>))
         (seq (push_trace (HealingTraced (request_source rq) i amount actual))
         (ask (\<lambda>w. ret (health_event w HealingEvent (rq\<lparr>proposed := amount\<rparr>) (Some actual) ordinal)))))"

definition apply_healing_batch :: "health_request list \<Rightarrow> simultaneous_event_order \<Rightarrow> unit sim" where
  "apply_healing_batch requests order = ask (\<lambda>w.
     seq (lift (validate_health_change_targets w requests))
     (let requests = order_health_change_requests w order requests in
      if resolution_is_active w then push_op (ProcessHealingBatch requests)
      else for_all (\<lambda>(n, rq). bnd (to_u32 n) (\<lambda>ordinal. seq (reduce_healing rq ordinal) (ret ())))
        (enumerate 0 requests)))"

definition expand_healing_batch :: "health_request list \<Rightarrow> ('e, unit) step" where
  "expand_healing_batch = expand_batch ProcessHealing"

definition process_healing :: "health_request \<Rightarrow> event_slot_id \<Rightarrow> nat \<Rightarrow> ('e, unit) step" where
  "process_healing rq slot ordinal =
     (let rq = at_least_zero rq in
      if proposed rq = 0 then seq (reduce_healing rq ordinal) (ret ())
      else ask (\<lambda>w.
        bnd (prepare_event (health_event w ProposedHealing rq None ordinal)) (\<lambda>event.
        push_resolution_ops [ResolveEvent event, ApplyHealing rq event slot ordinal])))"

definition apply_prepared_healing :: "health_request \<Rightarrow> event_id \<Rightarrow> event_slot_id \<Rightarrow> nat \<Rightarrow> unit sim" where
  "apply_prepared_healing rq event slot ordinal =
     bnd (take_prepared_event event) (\<lambda>prepared.
     bnd (reduce_healing (rq\<lparr>proposed := proposed_of prepared\<rparr>) ordinal) (fill_if_positive slot))"

end
