(* ===== verification/Hs_Player.thy ===== *)
theory Hs_Player imports Hs_Health Hs_Zone begin

text \<open>
  Players (\<open>simulator/simulation_player.rs\<close>, \<open>core/entity.rs\<close>): their hero and resources, drawing
  with burning and fatigue, the outcome of the game, and the roles every player must have.
\<close>

definition available_resources :: "player \<Rightarrow> ('e, int) outcome" where
  "available_resources p =
     try_fold (\<lambda>a d. if in_i32 (a + d) then Inr (a + d) else panic) (maximum_resources p)
       [temporary_resources p, - used_resources p, - locked_overload p]"

definition hero_id :: "world \<Rightarrow> player_id \<Rightarrow> game_entity_id option" where
  "hero_id w p = List.find (\<lambda>i. has_kind w i Hero) (zone_entities w p Play)"

text \<open>\<open>player\<close> of the source, with the entity of the player and the vital components of the hero.\<close>

definition player_entity :: "world \<Rightarrow> player_id \<Rightarrow> (game_entity_id \<times> player \<times> current_stats \<times> int) option" where
  "player_entity w p =
     (case List.find (\<lambda>(_, e). map_option player_identity (e_player e) = Some p) (iter_entities w) of
        None \<Rightarrow> None
      | Some (i, e) \<Rightarrow>
          Option.bind (e_player e) (\<lambda>pl.
          Option.bind (hero_id w p) (\<lambda>h.
          Option.bind (component w e_stats h) (\<lambda>st.
          Option.bind (component w e_damage h) (\<lambda>d. Some (i, pl, st, d))))))"

text \<open>\<open>player_mut\<close> with the change made through it.\<close>

definition with_player :: "player_id \<Rightarrow> (player \<Rightarrow> player sim) \<Rightarrow> unit sim" where
  "with_player p f = ask (\<lambda>w.
     need (PlayerNotFound p) (player_entity w p) (\<lambda>(i, pl, _).
       bnd (f pl) (\<lambda>pl'. update i (\<lambda>e. e\<lparr>e_player := Some pl'\<rparr>))))"

definition controlled_entity_in_zone ::
  "world \<Rightarrow> player_id \<Rightarrow> game_entity_id \<Rightarrow> zone \<Rightarrow> (simulation_error, game_entity) outcome" where
  "controlled_entity_in_zone w p i z =
     (case ents w i of
        None \<Rightarrow> err (EntityNotFound i)
      | Some e \<Rightarrow>
          if e_controller e \<noteq> Some p then err (NotControlled i)
          else if e_zone e \<noteq> Some z then err (WrongZone i z)
          else Inr e)"

section \<open>Drawing\<close>

definition fatigue_damage :: "player_id \<Rightarrow> int sim" where
  "fatigue_damage p = ask (\<lambda>w.
     need (PlayerNotFound p) (player_entity w p) (\<lambda>(i, pl, _).
       let n = fatigue pl + 1 in
       if u32_max < n then fail (Invariant ''fatigue counter overflow'')
       else if \<not> in_i32 (int n) then fail (Invariant ''fatigue damage exceeds i32'')
       else seq (update i (\<lambda>e. e\<lparr>e_player := Some (pl\<lparr>fatigue := n\<rparr>)\<rparr>)) (ret (int n))))"

definition draw_from_deck :: "player_id \<Rightarrow> game_entity_id \<Rightarrow> draw_outcome sim" where
  "draw_from_deck p c =
     bnd (convert ZoneFailed (move_entity_with_request \<lparr>move_entity = c, destination_controller = p,
            destination = Hand, move_position = None, move_kind = DrawMove\<rparr>)) (\<lambda>movement.
     case movement of
       Moved from _ _ \<Rightarrow> seq (push_trace (ZoneMoved c from Hand)) (ret (Drawn c))
     | FullZoneRemoval from _ _ \<Rightarrow> seq (push_trace (ZoneMoved c from Graveyard)) (ret (Burned c))
     | PreventedByFullZone \<Rightarrow> fail (Invariant ''draw was unexpectedly prevented by a full hand''))"

definition process_draw :: "draw_request \<Rightarrow> unit sim" where
  "process_draw rq = ask (\<lambda>w.
     let p = draw_player rq in
     bnd (case zone_entities w p Deck of
            c # _ \<Rightarrow> draw_from_deck p c
          | [] \<Rightarrow> bnd (fatigue_damage p) (\<lambda>n. ret (Fatigue n))) (\<lambda>outcome.
     seq (convert ResolutionFailed (fill_draw_result_slot (draw_slot rq) outcome))
     (seq (push_trace (DrawResolved p (draw_source rq) outcome))
     (case outcome of
        Drawn c \<Rightarrow> bnd (prepare_event (plain_event CardDrawn (draw_source rq) [c] p)) (\<lambda>event.
                     push_op (ResolveEvent event))
      | Burned _ \<Rightarrow> ret ()
      | Fatigue n \<Rightarrow> ask (\<lambda>w. need (PlayerNotFound p) (hero_id w p) (\<lambda>h. apply_damage None h n))))))"

section \<open>The outcome\<close>

definition check_outcome :: "('e, unit) step" where
  "check_outcome = ask (\<lambda>w.
     if game_outcome (game w) \<noteq> None then ret ()
     else
       let outcome = (case filter (\<lambda>p. p \<in> defeated_heroes w) all_players of
             [] \<Rightarrow> None | [p] \<Rightarrow> Some (Winner (opponent p)) | _ \<Rightarrow> Some DrawnGame)
       in unless_none outcome (\<lambda>o'.
            seq (change (\<lambda>w. w\<lparr>game := (game w)\<lparr>game_outcome := Some o'\<rparr>\<rparr>))
              (push_trace (OutcomeTraced (case o' of Winner p \<Rightarrow> Some p | DrawnGame \<Rightarrow> None)))))"

section \<open>The invariant the source checks\<close>

definition active_kind :: "world \<Rightarrow> player_id \<Rightarrow> entity_kind \<Rightarrow> game_entity_id list" where
  "active_kind w p k = filter (\<lambda>i. has_kind w i k) (zone_entities w p Play)"

definition check_role :: "world \<Rightarrow> player_id \<Rightarrow> (string, unit) outcome" where
  "check_role w p =
     (case filter (\<lambda>(_, e). map_option player_identity (e_player e) = Some p) (iter_entities w) of
        [(_, e)] \<Rightarrow>
          if e_controller e \<noteq> Some p \<or> e_kind e \<noteq> Some PlayerKind then err ''invalid Player components''
          else (case active_kind w p Hero of
            [h] \<Rightarrow>
              if component w e_stats h = None \<or> component w e_damage h = None \<or> component w e_armor h = None \<or>
                 component w e_attack_state h = None \<or> component w e_hero_class h = None
              then err ''Hero lacks required components''
              else (case active_kind w p HeroPower of
                [pw] \<Rightarrow>
                  if component w e_hero_power pw = None \<or> component w e_runtime pw = None
                  then err ''Hero Power lacks required components'' else Inr ()
              | _ \<Rightarrow> err ''active Hero Powers instead of one'')
          | _ \<Rightarrow> err ''active Heroes instead of one'')
      | _ \<Rightarrow> err ''Player entities instead of one'')"

definition assert_player_role_invariants :: "world \<Rightarrow> (string, unit) outcome" where
  "assert_player_role_invariants w = try_fold (\<lambda>_. check_role w) () all_players"

end
