(* ===== verification/Hs_Select.thy ===== *)
theory Hs_Select imports Hs_Cards Hs_Trigger Hs_Player begin

text \<open>
  The validation of effect programs (\<open>simulator/simulation_effect_executor.rs\<close>), before a card is
  played and for every plan of a native effect: native effects are registered, event values are
  modified in proposed events only, a minion transforms itself in its own play program only, choices
  have distinct options, and the cards, heroes and triggers within a program are valid in turn.

  A native effect is code outside the simulator: the registry is the parameter \<open>natives\<close>, a
  function of the effect context and the world that plans effects.
\<close>

type_synonym native_effects = "rstring \<rightharpoonup> (effect_context \<Rightarrow> world \<Rightarrow> effect list)"

definition played_self_error :: simulation_error where
  "played_self_error = InvalidTransformation ''played-self transforms require a minion play program and Source target''"

definition event_value_modifiable :: "event_kind option \<Rightarrow> bool" where
  "event_value_modifiable k \<longleftrightarrow> k = Some ProposedDamage \<or> k = Some ProposedHealing"

definition distinct_choices :: "choice_id list \<Rightarrow> (simulation_error, unit) outcome" where
  "distinct_choices ids =
     (if ids = [] \<or> \<not> distinct ids then err (Invariant ''choice requires nonempty, unique options'') else Inr ())"

definition check_trigger_shape ::
  "event_kind \<Rightarrow> zone list \<Rightarrow> source_eligibility_policy \<Rightarrow> (simulation_error, unit) outcome" where
  "check_trigger_shape k zones policy =
     (if k = DeathEvent then err (InvalidTriggerEnchantment ''added Deathrattles are not supported'')
      else if zones \<noteq> [Play] then err (InvalidTriggerEnchantment ''eligible zones must be exactly [Play]'')
      else if policy \<noteq> MustRemainInEligibleZone then err (InvalidTriggerEnchantment ''source must remain in Play'')
      else Inr ())"

definition check_replacement_kinds ::
  "card \<Rightarrow> card \<Rightarrow> hero_health_policy \<Rightarrow> card option \<Rightarrow> (simulation_error, unit) outcome" where
  "check_replacement_kinds hero hero_pw health weapon =
     (if card_kind hero \<noteq> Hero then err (InvalidHeroReplacement ''replacement hero must have Hero kind'')
      else if card_kind hero_pw \<noteq> HeroPower
      then err (InvalidHeroReplacement ''replacement Hero Power must have HeroPower kind'')
      else if (case weapon of None \<Rightarrow> False | Some c \<Rightarrow> card_kind c \<noteq> Weapon)
      then err (InvalidHeroReplacement ''replacement weapon must have Weapon kind'')
      else case health of
        SetHealth maximum current \<Rightarrow>
          if maximum \<le> 0 \<or> current < 0 \<or> maximum < current
          then err (InvalidHeroReplacement ''replacement Health must satisfy 0 <= current <= maximum and maximum > 0'')
          else Inr ()
      | PreserveHealth \<Rightarrow> Inr ())"

fun valid_effects :: "native_effects \<Rightarrow> event_kind option \<Rightarrow> bool \<Rightarrow> effect list \<Rightarrow> (simulation_error, unit) outcome"
  and valid_effect :: "native_effects \<Rightarrow> event_kind option \<Rightarrow> bool \<Rightarrow> effect \<Rightarrow> (simulation_error, unit) outcome"
  and valid_options :: "native_effects \<Rightarrow> effect_choice_option list \<Rightarrow> (simulation_error, unit) outcome"
  and validate_card_program :: "native_effects \<Rightarrow> card \<Rightarrow> (simulation_error, unit) outcome"
  and valid_card_triggers :: "native_effects \<Rightarrow> trigger_definition list \<Rightarrow> (simulation_error, unit) outcome"
  and valid_added_triggers :: "native_effects \<Rightarrow> trigger_definition list \<Rightarrow> (simulation_error, unit) outcome"
  and validate_hero_replacement :: "native_effects \<Rightarrow> hero_replacement \<Rightarrow> (simulation_error, unit) outcome"
where
  "valid_effects N k self [] = Inr ()"
| "valid_effects N k self (e # es) = and_then (valid_effect N k self e) (\<lambda>_. valid_effects N k self es)"
| "valid_effect N k self (Native i) = (if N i = None then err (NativeEffectNotRegistered i) else Inr ())"
| "valid_effect N k self (ModifyEventValue _ _) =
     (if event_value_modifiable k then Inr () else err NoModifiableEventValue)"
| "valid_effect N k self (Transform s c t) =
     (if t = PlayedSelf \<and> (\<not> self \<or> s \<noteq> SourceEntity) then err played_self_error else validate_card_program N c)"
| "valid_effect N k self (Choose _ _ options) =
     and_then (distinct_choices (map effect_option_id options)) (\<lambda>_. valid_options N options)"
| "valid_effect N k self (DrawThen _ es _) = valid_effects N None False es"
| "valid_effect N k self (Sequence es) = valid_effects N k self es"
| "valid_effect N k self (Summon _ c _) = validate_card_program N c"
| "valid_effect N k self (ReplaceHero _ r) = validate_hero_replacement N r"
| "valid_effect N k self (AttachTriggerEnchantment _ ts _ _) =
     (if ts = [] then err (InvalidTriggerEnchantment ''at least one trigger is required'')
      else valid_added_triggers N ts)"
| "valid_effect N k self (DealDamage _ _) = Inr ()"
| "valid_effect N k self (Heal _ _) = Inr ()"
| "valid_effect N k self (Destroy _) = Inr ()"
| "valid_effect N k self (Draw _ _) = Inr ()"
| "valid_effect N k self (Move _ _ _ _) = Inr ()"
| "valid_effect N k self (GainResource _ _ _) = Inr ()"
| "valid_effect N k self (ScheduleExtraTurns _ _ _) = Inr ()"
| "valid_effect N k self (AttachStatModifier _ _ _) = Inr ()"
| "valid_effect N k self (AttachKeywordModifier _ _ _) = Inr ()"
| "valid_effect N k self (AttachCostModifier _ _ _) = Inr ()"
| "valid_effect N k self (AttachContinuousEffect _ _ _ _) = Inr ()"
| "valid_effect N k self (Silence _) = Inr ()"
| "valid_effect N k self (Copy _ _ _ _) = Inr ()"
| "valid_options N [] = Inr ()"
| "valid_options N (EffectChoiceOption _ es # options) =
     and_then (valid_effects N None False es) (\<lambda>_. valid_options N options)"
| "validate_card_program N (Card d n k m a h u ks es ts as cs tg) =
     and_then (validate_card (Card d n k m a h u ks es ts as cs tg)) (\<lambda>_.
     and_then (valid_effects N None (k = Minion) es) (\<lambda>_. valid_card_triggers N ts))"
| "valid_card_triggers N [] = Inr ()"
| "valid_card_triggers N (TriggerDefinition k _ _ _ _ _ es # ts) =
     and_then (valid_effects N (Some k) False es) (\<lambda>_. valid_card_triggers N ts)"
| "valid_added_triggers N [] = Inr ()"
| "valid_added_triggers N (TriggerDefinition k zones _ policy _ _ es # ts) =
     and_then (check_trigger_shape k zones policy) (\<lambda>_.
     and_then (valid_effects N (Some k) False es) (\<lambda>_. valid_added_triggers N ts))"
| "validate_hero_replacement N (HeroReplacement hero hero_pw armor health class weapon) =
     and_then (check_replacement_kinds hero hero_pw health weapon) (\<lambda>_.
     and_then (validate_card_program N hero) (\<lambda>_.
     and_then (validate_card_program N hero_pw) (\<lambda>_.
     case weapon of None \<Rightarrow> Inr () | Some c \<Rightarrow> validate_card_program N c)))"

definition validate_effect_program ::
  "native_effects \<Rightarrow> effect list \<Rightarrow> event_kind option \<Rightarrow> (simulation_error, unit) outcome" where
  "validate_effect_program N es k = valid_effects N k False es"

definition validate_play_effect_program :: "native_effects \<Rightarrow> effect list \<Rightarrow> (simulation_error, unit) outcome" where
  "validate_play_effect_program N es = valid_effects N None True es"

definition validate_trigger_enchantment ::
  "native_effects \<Rightarrow> trigger_definition list \<Rightarrow> (simulation_error, unit) outcome" where
  "validate_trigger_enchantment N ts =
     (if ts = [] then err (InvalidTriggerEnchantment ''at least one trigger is required'')
      else valid_added_triggers N ts)"

fun transforms_itself :: "effect \<Rightarrow> bool" and contains_played_self_transform :: "effect list \<Rightarrow> bool" where
  "transforms_itself (Transform s _ t) \<longleftrightarrow> s = SourceEntity \<and> t = PlayedSelf"
| "transforms_itself (Sequence es) \<longleftrightarrow> contains_played_self_transform es"
| "transforms_itself _ \<longleftrightarrow> False"
| "contains_played_self_transform [] \<longleftrightarrow> False"
| "contains_played_self_transform (e # es) \<longleftrightarrow> transforms_itself e \<or> contains_played_self_transform es"

text \<open>
  The selection of entities, the values of expressions, the change of a proposed event value, and
  the attachment and removal of enchantments (\<open>simulator/simulation_effect_executor.rs\<close>); the random
  choice is that of \<open>Hs_Rng\<close> (\<open>simulator/rng.rs\<close>) on the generator and the trace of the world.
\<close>

section \<open>Selection and values\<close>

definition choose_entity :: "game_entity_id list \<Rightarrow> ('e, game_entity_id option) step" where
  "choose_entity cs = ask (\<lambda>w.
     case choose_game_entity \<lparr>rng = generator w, trace = [] :: unit Hs_Rng.trace_entry list\<rparr> cs of
       Inl _ \<Rightarrow> die
     | Inr (chosen, s) \<Rightarrow>
         seq (change (\<lambda>w. w\<lparr>generator := rng s,
                game_trace := game_trace w @ List.map_filter
                  (\<lambda>t. case t of RngChoice n cs c \<Rightarrow> Some (RngChoiceTraced n cs c) | OtherEntry _ \<Rightarrow> None) (trace s)\<rparr>))
           (ret chosen))"

definition list_of :: "'a option \<Rightarrow> 'a list" where
  "list_of x = (case x of None \<Rightarrow> [] | Some a \<Rightarrow> [a])"

fun select_entities :: "effect_context \<Rightarrow> selector \<Rightarrow> ('e, game_entity_id list) step" where
  "select_entities ctx SourceEntity = ret (list_of (source ctx))"
| "select_entities ctx DrawnCard = ret (list_of (drawn_card ctx))"
| "select_entities ctx AttachedEntity = ask (\<lambda>w.
     ret (list_of (Option.bind (source ctx) (component w e_attached_to))))"
| "select_entities ctx DeclaredTarget = ret (list_of (declared_target ctx))"
| "select_entities ctx (TheEntity i) = ret [i]"
| "select_entities ctx (InZone p z) = ask (\<lambda>w.
     ret (sorted_ids (zone_entities w (resolve_player (controller ctx) p) z)))"
| "select_entities ctx (Random s) =
     bnd (select_entities ctx s) (\<lambda>cs. bnd (choose_entity cs) (\<lambda>c. ret (list_of c)))"
| "select_entities ctx s = ask (\<lambda>w. ret (sorted_ids (selected_in_play w (controller ctx) s)))"

text \<open>\<open>target_count as i32\<close> keeps the low 32 bits.\<close>

definition as_i32 :: "nat \<Rightarrow> int" where
  "as_i32 n = (int n + 2147483648) mod 4294967296 - 2147483648"

definition evaluate_value :: "world \<Rightarrow> effect_context \<Rightarrow> value_expression \<Rightarrow> nat \<Rightarrow> int" where
  "evaluate_value w ctx e targets =
     (case e of
        Constant n \<Rightarrow> n
      | SourceAttack \<Rightarrow> (case source ctx of None \<Rightarrow> 0 | Some i \<Rightarrow> attack_of w i)
      | TargetCount \<Rightarrow> as_i32 targets
      | DrawnCardCost \<Rightarrow>
          (case Option.bind (drawn_card ctx) (component w e_runtime) of None \<Rightarrow> 0 | Some rt \<Rightarrow> cost rt))"

definition operate :: "event_value_operation \<Rightarrow> int \<Rightarrow> int \<Rightarrow> int" where
  "operate op previous operand = max 0 (case op of
     ReplaceValue \<Rightarrow> operand
   | AddValue \<Rightarrow> saturate_i32 (previous + operand)
   | MultiplyValue \<Rightarrow> saturate_i32 (previous * operand))"

definition modify_event_value ::
  "event_id option \<Rightarrow> effect_context \<Rightarrow> event_value_operation \<Rightarrow> value_expression \<Rightarrow> unit sim" where
  "modify_event_value event ctx op expression =
     need NoModifiableEventValue event (\<lambda>i. ask (\<lambda>w.
     need NoModifiableEventValue (bt_get (events (work w)) i) (\<lambda>prepared.
     let ev = event_context prepared in
     if \<not> event_value_modifiable (Some (event_kind ev)) then fail NoModifiableEventValue
     else need NoModifiableEventValue (proposed_value ev) (\<lambda>previous.
       let current = operate op previous (evaluate_value w ctx expression (length (event_targets ev))) in
       seq (change_work (\<lambda>r. r\<lparr>events := bt_adjust i
              (\<lambda>p. p\<lparr>event_context := (event_context p)\<lparr>proposed_value := Some current\<rparr>\<rparr>) (events r)\<rparr>))
         (push_trace (EventValueChanged i op previous current))))))"

section \<open>Enchantments\<close>

definition attach_modifier ::
  "player_id \<Rightarrow> game_entity_id \<Rightarrow> string \<Rightarrow> string \<Rightarrow> enchantment_duration \<Rightarrow> bool \<Rightarrow>
    (game_entity \<Rightarrow> game_entity) \<Rightarrow> game_entity_id sim" where
  "attach_modifier p target def name time removable f =
     bnd (spawn_attached_enchantment p target (lit def) (lit name) time removable) (\<lambda>i.
     seq (update i f) (ret i))"

definition attach_stat_modifier ::
  "player_id \<Rightarrow> game_entity_id \<Rightarrow> stat_modifier \<Rightarrow> enchantment_duration \<Rightarrow> unit sim" where
  "attach_stat_modifier p target m time =
     seq (attach_modifier p target ''synthetic:stat_modifier'' ''Stat modifier'' time
            (stat_silence_removable m) (\<lambda>e. e\<lparr>e_stat_modifier := Some m\<rparr>))
       (recalculate_stats target)"

definition attach_keyword_modifier ::
  "player_id \<Rightarrow> game_entity_id \<Rightarrow> keyword_modifier \<Rightarrow> enchantment_duration \<Rightarrow> unit sim" where
  "attach_keyword_modifier p target m time =
     seq (attach_modifier p target ''synthetic:keyword_modifier'' ''Keyword modifier'' time
            (keyword_silence_removable m) (\<lambda>e. e\<lparr>e_keyword_modifier := Some m\<rparr>))
       (recalculate_keywords target)"

definition attach_cost_modifier ::
  "player_id \<Rightarrow> game_entity_id \<Rightarrow> cost_modifier \<Rightarrow> enchantment_duration \<Rightarrow> unit sim" where
  "attach_cost_modifier p target m time =
     seq (attach_modifier p target ''synthetic:cost_modifier'' ''Cost modifier'' time
            (cost_silence_removable m) (\<lambda>e. e\<lparr>e_cost_modifier := Some m\<rparr>))
       (recalculate_cost target)"

definition attach_continuous_effect ::
  "player_id \<Rightarrow> game_entity_id \<Rightarrow> continuous_effect_definition \<Rightarrow> enchantment_duration \<Rightarrow> bool \<Rightarrow> unit sim" where
  "attach_continuous_effect p target d time removable =
     seq (attach_modifier p target ''synthetic:continuous_modifier'' ''Continuous modifier'' time
            removable (\<lambda>e. e\<lparr>e_continuous := Some [d]\<rparr>))
       (ret ())"

definition attach_triggers ::
  "player_id \<Rightarrow> game_entity_id \<Rightarrow> trigger_definition list \<Rightarrow> enchantment_duration \<Rightarrow> bool \<Rightarrow> unit sim" where
  "attach_triggers p target ts time removable =
     seq (attach_modifier p target ''synthetic:trigger_enchantment'' ''Trigger enchantment'' time
            removable (\<lambda>e. e\<lparr>e_triggers := Some ts\<rparr>))
       (ret ())"

text \<open>
  The enchantments of a target that satisfy a condition, in the order of \<open>iter_entities\<close>, and their
  removal to \<open>RemovedFromGame\<close>; a failed move is ignored.
\<close>

definition attachments_where :: "world \<Rightarrow> game_entity_id \<Rightarrow> (game_entity \<Rightarrow> bool) \<Rightarrow> (game_entity_id \<times> player_id) list" where
  "attachments_where w target ok = List.map_filter
     (\<lambda>(i, e). if e_attached_to e = Some target \<and> ok e then map_option (Pair i) (e_controller e) else None)
     (iter_entities w)"

definition detach_enchantment :: "game_entity_id \<times> player_id \<Rightarrow> ('e, unit) step" where
  "detach_enchantment = (\<lambda>(i, p). seq (detach i) (ignore (move_entity_with_request (detach_request i p))))"

definition detach_all_enchantments :: "game_entity_id \<Rightarrow> ('e, unit) step" where
  "detach_all_enchantments target = ask (\<lambda>w.
     if ents w target = None then ret ()
     else seq (for_all detach_enchantment (attachments_where w target (\<lambda>_. True))) (recalculate target))"

definition silence_entity :: "game_entity_id \<Rightarrow> unit sim" where
  "silence_entity target = ask (\<lambda>w.
     if ents w target = None then fail (EntityNotFound target)
     else seq (update target (\<lambda>e. e\<lparr>e_keywords := map_option (\<lambda>_. {}) (e_keywords e),
              e_pending_destroy := False, e_silenced := True\<rparr>))
       (seq (for_all detach_enchantment (attachments_where w target (\<lambda>e.
              (case e_stat_modifier e of None \<Rightarrow> False | Some m \<Rightarrow> stat_silence_removable m) \<or> e_silence_removable e)))
         (recalculate target)))"

end
