(* ===== verification/Hs_Death.thy ===== *)
theory Hs_Death imports Hs_Zone begin

text \<open>
  Deaths (\<open>simulator/death.rs\<close>): mortality, the creation of deaths at a phase boundary, and the
  queue of the death events. \<open>record_full_zone_death\<close> is with the movements that call it.
\<close>

definition is_mortally_wounded :: "world \<Rightarrow> game_entity_id \<Rightarrow> bool" where
  "is_mortally_wounded w i =
     (case ents w i of
        None \<Rightarrow> False
      | Some e \<Rightarrow>
          if e_kind e = Some Weapon
          then (case e_weapon e of None \<Rightarrow> False | Some s \<Rightarrow> durability s \<le> 0) \<or> e_pending_destroy e
          else (case (e_stats e, e_damage e) of
                  (Some st, Some d) \<Rightarrow> maximum_health st \<le> d
                | _ \<Rightarrow> False) \<or> e_pending_destroy e)"

text \<open>Order of play, identity, controller, kind and position, in the order of \<open>iter_entities\<close>.\<close>

type_synonym wounded = "nat \<times> game_entity_id \<times> player_id \<times> entity_kind \<times> nat"

definition wounded_entry :: "world \<Rightarrow> game_entity_id \<times> game_entity \<Rightarrow> wounded option" where
  "wounded_entry w = (\<lambda>(i, e).
     case (e_kind e, e_controller e) of
       (Some k, Some p) \<Rightarrow>
         if e_zone e = Some Play \<and> is_mortally_wounded w i
         then Some (or_default 0 (e_play_order e), i, p, k,
                or_default (or_default 0 (e_position e)) (semantic_zone_position w i p Play))
         else None
     | _ \<Rightarrow> None)"

definition mortally_wounded :: "world \<Rightarrow> wounded list" where
  "mortally_wounded w = List.map_filter (wounded_entry w) (iter_entities w)"

definition defeat_hero :: "game_entity_id \<Rightarrow> player_id \<Rightarrow> ('e, unit) step" where
  "defeat_hero i p = ask (\<lambda>w.
     if p \<in> defeated_heroes w then ret ()
     else seq (change (\<lambda>w. w\<lparr>defeated_heroes := insert p (defeated_heroes w)\<rparr>))
       (push_trace (HeroDefeated i p)))"

text \<open>An entity whose move fails leaves no record.\<close>

definition bury :: "nat \<Rightarrow> nat \<times> wounded \<Rightarrow> ('e, death_record option) step" where
  "bury turn = (\<lambda>(n, order, i, p, k, place).
     handle (move_entity_with_request \<lparr>move_entity = i, destination_controller = p,
         destination = Graveyard, move_position = None, move_kind = DeathMove\<rparr>)
       (\<lambda>_. ret None)
       (\<lambda>_. seq (update i (\<lambda>e. e\<lparr>e_pending_destroy := False\<rparr>))
         (bnd (to_u32 n) (\<lambda>ordinal.
         seq (push_trace (EntityDied i))
         (ret (Some \<lparr>dead_entity = i, death_controller = p, death_kind = k, death_play_order = order,
            remembered_zone_position = place, death_ordinal = ordinal, turn_of_death = turn\<rparr>))))))"

definition create_deaths :: "('e, unit) step" where
  "create_deaths = ask (\<lambda>w.
     let wounded = mortally_wounded w;
         deaths = sort_key (\<lambda>(order, i, _). (order, i)) (filter (\<lambda>(_, _, _, k, _). can_die k) wounded)
     in seq (for_all (\<lambda>(_, i, p, k, _). if k = Hero then defeat_hero i p else ret ()) wounded)
       (bnd (map_steps (bury (turn_number (game w))) (enumerate 0 deaths)) (\<lambda>buried.
        let records = List.map_filter id buried in
        change (\<lambda>w. w\<lparr>death_cache := death_cache w @ records, pending_deaths := pending_deaths w @ records\<rparr>))))"

definition take_pending_deaths :: "('e, death_record list) step" where
  "take_pending_deaths = ask (\<lambda>w.
     seq (change (\<lambda>w. w\<lparr>pending_deaths := []\<rparr>))
       (map_steps (\<lambda>(n, r). bnd (to_u32 n) (\<lambda>ordinal. ret (r\<lparr>death_ordinal := ordinal\<rparr>)))
         (enumerate 0 (sort_key (\<lambda>r. (death_play_order r, dead_entity r)) (pending_deaths w)))))"

end
