(* ===== verification/Hs_Effects.thy ===== *)
theory Hs_Effects imports Hs_Select Hs_Death begin

text \<open>
  The execution of effects (\<open>simulator/simulation_effect_executor.rs\<close>): the replacement of a hero,
  the transformation of a minion, copies, and the dispatcher of one effect, which changes the world
  at once or pushes the operations that will.
\<close>

section \<open>Replacing a hero\<close>

definition move_out_of_play :: "game_entity_id \<Rightarrow> player_id \<Rightarrow> zone \<Rightarrow> unit sim" where
  "move_out_of_play i p to =
     bnd (convert ZoneFailed (move_entity_with_request \<lparr>move_entity = i, destination_controller = p,
            destination = to, move_position = None, move_kind = NormalMove\<rparr>)) (\<lambda>outcome.
     case outcome of
       Moved from _ _ \<Rightarrow> push_trace (ZoneMoved i from to)
     | _ \<Rightarrow> fail (Invariant ''hero replacement move produced an unexpected outcome''))"

definition controlled_kind :: "world \<Rightarrow> player_id \<Rightarrow> zone \<Rightarrow> entity_kind \<Rightarrow> game_entity_id list" where
  "controlled_kind w p z k =
     filter (\<lambda>i. has_kind w i k \<and> component w e_controller i = Some p) (zone_entities w p z)"

definition new_health :: "hero_health_policy \<Rightarrow> current_stats \<Rightarrow> int \<Rightarrow> int \<times> int" where
  "new_health policy st d = (case policy of
     PreserveHealth \<Rightarrow> (maximum_health st, saturate_i32 (maximum_health st - d))
   | SetHealth maximum current \<Rightarrow> (maximum, current))"

definition install_hero :: "player_id \<Rightarrow> hero_replacement \<Rightarrow> current_stats \<Rightarrow> game_entity \<Rightarrow> game_entity_id sim" where
  "install_hero p r st old =
     (let (maximum, current) = new_health (health_policy r) st (or_default 0 (e_damage old));
          class = (case class_policy r of KeepClass \<Rightarrow> or_default Neutral (e_hero_class old) | ReplaceClass c \<Rightarrow> c)
      in bnd (spawn_card p (with_card_health (new_hero r) maximum) Play) (\<lambda>hero.
         bnd allocate_play_order (\<lambda>order.
         seq (update hero (\<lambda>e. e\<lparr>
             e_stats := Some \<lparr>attack = card_attack (new_hero r), maximum_health = maximum\<rparr>,
             e_damage := Some (saturate_i32 (maximum - current)),
             e_armor := Some (max 0 (saturate_i32 (or_default 0 (e_armor old) + armor_gain r))),
             e_attack_state := Some (or_default \<lparr>attacks_this_turn = 0, readiness_blocked = False\<rparr> (e_attack_state old)),
             e_hero_class := Some class, e_play_order := Some order\<rparr>))
           (ret hero))))"

definition install_hero_power :: "player_id \<Rightarrow> hero_replacement \<Rightarrow> (game_entity_id option \<times> game_entity_id) sim" where
  "install_hero_power p r = ask (\<lambda>w.
     let powers = controlled_kind w p Play HeroPower in
     seq (for_all (\<lambda>i. seq (detach_all_enchantments i) (move_out_of_play i p RemovedFromGame)) powers)
     (bnd (spawn_card p (new_hero_power r) Play) (\<lambda>i.
      bnd allocate_play_order (\<lambda>order.
      seq (update i (\<lambda>e. e\<lparr>e_hero_power := Some \<lparr>uses_this_turn = 0, exhausted = False\<rparr>, e_play_order := Some order\<rparr>))
        (ret (case powers of [] \<Rightarrow> None | old # _ \<Rightarrow> Some old, i))))))"

definition install_weapon :: "player_id \<Rightarrow> card \<Rightarrow> unit sim" where
  "install_weapon p c =
     bnd (spawn_card p c SetAside) (\<lambda>i.
     seq (begin_equip p i)
       (push_resolution_ops [PrepareEvent (plain_event WeaponEquipped (Some i) [i] p),
          RunSequenceStep (FinishEquip i)]))"

definition replace_hero :: "native_effects \<Rightarrow> player_id \<Rightarrow> hero_replacement \<Rightarrow> unit sim" where
  "replace_hero N p r = ask (\<lambda>w.
     seq (lift (validate_hero_replacement N r))
     (need (PlayerNotFound p) (hero_id w p) (\<lambda>old.
      need (EntityNotFound old) (ents w old) (\<lambda>e.
      need (EntityNotFound old) (e_stats e) (\<lambda>st.
      seq (detach_all_enchantments old)
      (seq (move_out_of_play old p SetAside)
      (bnd (install_hero p r st e) (\<lambda>hero.
      bnd (install_hero_power p r) (\<lambda>(old_pw, hero_pw).
      seq (unless_none (new_weapon r) (install_weapon p))
      (seq (push_trace (HeroReplaced p old hero)) (push_trace (HeroPowerReplaced p old_pw hero_pw))))))))))))"

section \<open>Transformation\<close>

definition required :: "string \<Rightarrow> 'a option \<Rightarrow> (simulation_error, 'a) outcome" where
  "required name x = ok_or (Err (InvalidTransformation (''target lacks required component '' @ name))) x"

definition transform_attachment ::
  "world \<Rightarrow> game_entity_id \<times> game_entity \<Rightarrow> (simulation_error, nat \<times> game_entity_id \<times> player_id) outcome" where
  "transform_attachment w = (\<lambda>(i, e).
     and_then (required ''attachment Controller'' (e_controller e)) (\<lambda>p.
     and_then (required ''attachment PlayOrder'' (e_play_order e)) (\<lambda>order.
     and_then (required ''attachment Zone'' (e_zone e)) (\<lambda>z.
     and_then (required ''attachment ZonePosition'' (e_position e)) (\<lambda>n.
     if n < length (zone_entities w p z) \<and> zone_entities w p z ! n = i then Inr (order, i, p)
     else err (InvalidTransformation ''target has an attachment with an invalid zone index entry''))))))"

fun map_outcome :: "('a \<Rightarrow> ('e, 'b) outcome) \<Rightarrow> 'a list \<Rightarrow> ('e, 'b list) outcome" where
  "map_outcome f [] = Inr []"
| "map_outcome f (x # xs) = and_then (f x) (\<lambda>y. and_then (map_outcome f xs) (\<lambda>ys. Inr (y # ys)))"

definition validate_transform_replacement :: "native_effects \<Rightarrow> card \<Rightarrow> (simulation_error, unit) outcome" where
  "validate_transform_replacement N c =
     (if card_kind c \<noteq> Minion then err (InvalidTransformation ''replacement must be a Minion'')
      else validate_card_program N c)"

definition attached_entries :: "world \<Rightarrow> game_entity_id \<Rightarrow> (game_entity_id \<times> game_entity) list" where
  "attached_entries w target = filter (\<lambda>(_, e). e_attached_to e = Some target) (iter_entities w)"

text \<open>The previous definition of the target and its attachments in order of play.\<close>

definition prepare_transform ::
  "native_effects \<Rightarrow> world \<Rightarrow> game_entity_id \<Rightarrow> card \<Rightarrow>
    (simulation_error, rstring \<times> (nat \<times> game_entity_id \<times> player_id) list) outcome" where
  "prepare_transform N w target c =
     and_then (ok_or (Err (EntityNotFound target)) (ents w target)) (\<lambda>e.
     and_then (required ''EntityKind'' (e_kind e)) (\<lambda>k.
     if k \<noteq> Minion then err (InvalidTransformation ''target must be a Minion'')
     else
     and_then (validate_transform_replacement N c) (\<lambda>_.
     and_then (required ''DefinitionId'' (e_definition e)) (\<lambda>def.
     and_then (required ''Controller'' (e_controller e)) (\<lambda>_.
     and_then (required ''Zone'' (e_zone e)) (\<lambda>_.
     and_then (required ''ZonePosition'' (e_position e)) (\<lambda>_.
     and_then (required ''PlayOrder'' (e_play_order e)) (\<lambda>_.
     and_then (map_outcome (transform_attachment w) (attached_entries w target)) (\<lambda>attachments.
     Inr (def, sort_key (\<lambda>(order, i, _). (order, i)) attachments))))))))))"

definition validate_transform_request ::
  "native_effects \<Rightarrow> world \<Rightarrow> game_entity_id \<Rightarrow> card \<Rightarrow> (simulation_error, unit) outcome" where
  "validate_transform_request N w target c = and_then (prepare_transform N w target c) (\<lambda>_. Inr ())"

definition transformed :: "card \<Rightarrow> game_entity \<Rightarrow> game_entity" where
  "transformed c e = e\<lparr>
     e_armor := None, e_attack_auras := None, e_health_auras := None, e_other_auras := None,
     e_hero_class := None, e_hero_power := None, e_keep_enchantments := False,
     e_pending_destroy := False, e_player := None, e_silenced := False,
     e_cost_modifier := None, e_duration := None, e_keyword_modifier := None,
     e_silence_removable := False, e_stat_modifier := None,
     e_abilities := None, e_enchantments := None, e_death_record := None,
     e_definition := Some (definition_id c), e_name := Some (card_name c), e_kind := Some (card_kind c),
     e_base := Some \<lparr>base_attack = card_attack c, base_health = card_health c\<rparr>,
     e_stats := Some \<lparr>attack = card_attack c, maximum_health = card_health c\<rparr>,
     e_damage := Some 0, e_attack_state := Some \<lparr>attacks_this_turn = 0, readiness_blocked = False\<rparr>,
     e_base_keywords := Some (card_keywords c), e_keywords := Some (card_keywords c),
     e_runtime := Some \<lparr>base_cost = mana_cost c, cost = mana_cost c, program = card_effects c,
       targeting = card_targeting c\<rparr>,
     e_triggers := Some (card_triggers c), e_auras := Some (card_auras c),
     e_continuous := Some (card_continuous_effects c)\<rparr>"

definition transform_entity :: "native_effects \<Rightarrow> game_entity_id \<Rightarrow> card \<Rightarrow> transform_kind \<Rightarrow> unit sim" where
  "transform_entity N target c kind = ask (\<lambda>w.
     bnd (lift (prepare_transform N w target c)) (\<lambda>(previous, attachments).
     seq (for_all (\<lambda>(_, i, p). seq (detach i)
            (seq (expecting (move_entity_with_request (detach_request i p))) (ret ()))) attachments)
     (seq (detach target)
     (seq (update target (transformed c))
     (push_trace (EntityTransformed target previous (definition_id c) kind))))))"

end
