(* ===== verification/Hs_Dispatch.thy ===== *)
theory Hs_Dispatch imports Hs_Effects begin

text \<open>
  Copies of entities, and the dispatcher of one effect
  (\<open>simulator/simulation_effect_executor.rs\<close>).
\<close>

section \<open>Copies\<close>

record attachment_copy =
  copied_definition :: rstring
  copied_name :: rstring
  copied_duration :: enchantment_duration
  copied_removable :: bool
  copied_stat :: "stat_modifier option"
  copied_keyword :: "keyword_modifier option"
  copied_cost :: "cost_modifier option"
  copied_triggers :: "trigger_definition list option"
  copied_continuous :: "continuous_effect_definition list option"

record play_copy =
  copied_weapon :: "weapon_state option"
  copied_damage :: int
  copied_silenced :: bool
  copied_pending_destroy :: bool
  copied_attachments :: "attachment_copy list"

definition copy_state_policy :: "zone \<Rightarrow> zone \<Rightarrow> copy_state_policy" where
  "copy_state_policy from to = (if from = Play \<and> to = Play then InPlayState else CurrentForm)"

definition copy_card_data :: "world \<Rightarrow> game_entity_id \<Rightarrow> card option" where
  "copy_card_data w i =
     Option.bind (ents w i) (\<lambda>e.
     Option.bind (e_base e) (\<lambda>b.
     Option.bind (e_runtime e) (\<lambda>rt.
     Option.bind (e_definition e) (\<lambda>def.
     Option.bind (e_name e) (\<lambda>name.
     Option.bind (e_kind e) (\<lambda>k.
     Some (Card def name k (base_cost rt) (base_attack b) (base_health b)
       (case e_weapon e of None \<Rightarrow> 0 | Some s \<Rightarrow> base_durability s)
       (or_default {} (e_base_keywords e)) (program rt) (or_default [] (e_triggers e))
       (or_default [] (e_auras e)) (or_default [] (e_continuous e)) (targeting rt))))))))"

definition required_copy :: "string \<Rightarrow> 'a option \<Rightarrow> (simulation_error, 'a) outcome" where
  "required_copy name x = ok_or (Err (Invariant (''copy source has an attachment without required '' @ name))) x"

definition capture_attachment ::
  "world \<Rightarrow> game_entity_id \<times> game_entity \<Rightarrow> (simulation_error, nat \<times> game_entity_id \<times> attachment_copy) outcome" where
  "capture_attachment w = (\<lambda>(i, e).
     and_then (required_copy ''PlayOrder'' (e_play_order e)) (\<lambda>order.
     and_then (required_copy ''EntityKind'' (e_kind e)) (\<lambda>k.
     and_then (required_copy ''Controller'' (e_controller e)) (\<lambda>p.
     and_then (required_copy ''Zone'' (e_zone e)) (\<lambda>z.
     and_then (required_copy ''ZonePosition'' (e_position e)) (\<lambda>n.
     if k \<noteq> Enchantment \<or> z \<noteq> Play \<or> \<not> (n < length (zone_entities w p z) \<and> zone_entities w p z ! n = i)
     then err (Invariant ''copy source has an invalid attached enchantment'')
     else
     and_then (required_copy ''DefinitionId'' (e_definition e)) (\<lambda>def.
     and_then (required_copy ''DisplayName'' (e_name e)) (\<lambda>name.
     and_then (required_copy ''EnchantmentDuration'' (e_duration e)) (\<lambda>time.
     Inr (order, i, \<lparr>copied_definition = def, copied_name = name, copied_duration = time,
       copied_removable = e_silence_removable e, copied_stat = e_stat_modifier e,
       copied_keyword = e_keyword_modifier e, copied_cost = e_cost_modifier e,
       copied_triggers = e_triggers e, copied_continuous = e_continuous e\<rparr>))))))))))"

definition capture_play_copy :: "world \<Rightarrow> game_entity_id \<Rightarrow> game_entity \<Rightarrow> (simulation_error, play_copy) outcome" where
  "capture_play_copy w i e =
     and_then (map_outcome (capture_attachment w) (attached_entries w i)) (\<lambda>attachments.
     and_then (ok_or (Err (Invariant ''in-play copy source lacks required Damage component'')) (e_damage e)) (\<lambda>d.
     Inr \<lparr>copied_weapon = e_weapon e, copied_damage = d, copied_silenced = e_silenced e,
       copied_pending_destroy = e_pending_destroy e,
       copied_attachments = map (\<lambda>(_, _, a). a) (sort_key (\<lambda>(order, j, _). (order, j)) attachments)\<rparr>))"

text \<open>A missing source and a full destination give no copy.\<close>

definition prepare_copy ::
  "native_effects \<Rightarrow> world \<Rightarrow> copy_request \<Rightarrow> (simulation_error, (card \<times> play_copy option) option) outcome" where
  "prepare_copy N w rq =
     (case ents w (copy_source rq) of
        None \<Rightarrow> Inr None
      | Some e \<Rightarrow>
          and_then (ok_or (Err (Invariant ''copy source lacks required current-form components''))
            (copy_card_data w (copy_source rq))) (\<lambda>c.
          and_then (ok_or (Err (Invariant ''copy source lacks required Zone component'')) (e_zone e)) (\<lambda>z.
          if copy_policy rq \<noteq> copy_state_policy z (copy_destination rq)
          then err (Invariant ''copy requires another policy'')
          else case validate_card_spawn w (copy_controller rq) c (copy_destination rq) (copy_board_index rq) of
            Inl (Err (ZoneFailed (Full _ _))) \<Rightarrow> Inr None
          | Inl x \<Rightarrow> Inl x
          | Inr _ \<Rightarrow>
              and_then (validate_card_program N c) (\<lambda>_.
              if copy_policy rq = InPlayState
              then and_then (capture_play_copy w (copy_source rq) e) (\<lambda>pc.
                and_then (try_fold (\<lambda>_ a. case copied_triggers a of
                    None \<Rightarrow> Inr () | Some ts \<Rightarrow> validate_trigger_enchantment N ts) () (copied_attachments pc)) (\<lambda>_.
                Inr (Some (c, Some pc))))
              else Inr (Some (c, None))))))"

definition validate_copy_request :: "native_effects \<Rightarrow> world \<Rightarrow> copy_request \<Rightarrow> (simulation_error, unit) outcome" where
  "validate_copy_request N w rq = and_then (prepare_copy N w rq) (\<lambda>_. Inr ())"

definition keep_or :: "'a option \<Rightarrow> 'a option \<Rightarrow> 'a option" where
  "keep_or new old = (case new of None \<Rightarrow> old | Some a \<Rightarrow> Some a)"

definition restore_attachment :: "player_id \<Rightarrow> game_entity_id \<Rightarrow> attachment_copy \<Rightarrow> unit sim" where
  "restore_attachment p i a =
     bnd (spawn_attached_enchantment p i (copied_definition a) (copied_name a) (copied_duration a) (copied_removable a)) (\<lambda>j.
     update j (\<lambda>e. e\<lparr>e_stat_modifier := keep_or (copied_stat a) (e_stat_modifier e),
       e_keyword_modifier := keep_or (copied_keyword a) (e_keyword_modifier e),
       e_cost_modifier := keep_or (copied_cost a) (e_cost_modifier e),
       e_triggers := keep_or (copied_triggers a) (e_triggers e),
       e_continuous := keep_or (copied_continuous a) (e_continuous e)\<rparr>))"

definition restore_play_copy :: "game_entity_id \<Rightarrow> player_id \<Rightarrow> play_copy \<Rightarrow> unit sim" where
  "restore_play_copy i p pc =
     bnd allocate_play_order (\<lambda>order.
     seq (update i (\<lambda>e. e\<lparr>e_damage := Some (copied_damage pc),
            e_attack_state := Some \<lparr>attacks_this_turn = 0, readiness_blocked = True\<rparr>,
            e_play_order := Some order,
            e_weapon := keep_or (copied_weapon pc) (e_weapon e),
            e_silenced := copied_silenced pc \<or> e_silenced e,
            e_pending_destroy := copied_pending_destroy pc \<or> e_pending_destroy e\<rparr>))
     (seq (for_all (restore_attachment p i) (copied_attachments pc))
     (seq (recalculate i)
     (update i (\<lambda>e. e\<lparr>e_damage := Some (copied_damage pc)\<rparr>)))))"

definition announce_summon :: "game_entity_id option \<Rightarrow> game_entity_id \<Rightarrow> player_id \<Rightarrow> unit sim" where
  "announce_summon by i p = ask (\<lambda>w.
     if resolution_is_active w
     then bnd (prepare_event (plain_event Summoned by [i] p)) (\<lambda>event.
       push_resolution_ops [RefreshAuras SummonRefresh, ResolveEvent event])
     else ret ())"

definition finish_copy :: "copy_request \<Rightarrow> play_copy option \<Rightarrow> game_entity_id \<Rightarrow> unit sim" where
  "finish_copy rq state i =
     seq (unless_none state (restore_play_copy i (copy_controller rq)))
     (seq (push_trace (EntityCopied (copy_source rq) i (copy_policy rq)))
     (if copy_policy rq = InPlayState then announce_summon (originating_source rq) i (copy_controller rq)
      else ret ()))"

definition copy_entity :: "native_effects \<Rightarrow> copy_request \<Rightarrow> unit sim" where
  "copy_entity N rq = ask (\<lambda>w.
     bnd (lift (prepare_copy N w rq)) (\<lambda>snapshot.
     unless_none snapshot (\<lambda>(c, state).
       handle (spawn_card_at (copy_controller rq) c (copy_destination rq) (copy_board_index rq))
         (\<lambda>e. case e of ZoneFailed (Full _ _) \<Rightarrow> ret () | _ \<Rightarrow> fail e)
         (finish_copy rq state))))"

section \<open>The dispatcher\<close>

text \<open>The operations of a list of effects; within a play they carry its scope.\<close>

definition effect_ops ::
  "effect_context \<Rightarrow> event_id option \<Rightarrow> resolution_id option \<Rightarrow> effect list \<Rightarrow> resolution_op list" where
  "effect_ops ctx event scope es = map (\<lambda>e. case scope of
     Some s \<Rightarrow> RunPlayEffect s ctx e | None \<Rightarrow> RunEffect ctx e event) es"

definition push_effects :: "effect_context \<Rightarrow> effect list \<Rightarrow> event_id option \<Rightarrow> ('e, unit) step" where
  "push_effects ctx es event = push_resolution_ops (effect_ops ctx event None es)"

definition damage_bonus :: "world \<Rightarrow> effect_context \<Rightarrow> int \<Rightarrow> int" where
  "damage_bonus w ctx n =
     (case origin ctx of
        SpellOrigin \<Rightarrow> saturate_i32 (n + current_spell_damage w (controller ctx))
      | HeroPowerOrigin \<Rightarrow> saturate_i32 (n + hero_power_damage_bonus w (controller ctx))
      | OtherOrigin \<Rightarrow> n)"

definition requests_for :: "effect_context \<Rightarrow> int \<Rightarrow> game_entity_id list \<Rightarrow> health_request list" where
  "requests_for ctx n = map (\<lambda>t. \<lparr>request_source = source ctx, request_target = t, proposed = n\<rparr>)"

definition draw_cards :: "player_id \<Rightarrow> game_entity_id option \<Rightarrow> nat \<Rightarrow> unit sim" where
  "draw_cards p by n = ask (\<lambda>w.
     if remaining_budget (work w) < 2 * n then fail (ResolutionFailed (BudgetExhausted None))
     else bnd (map_steps (\<lambda>_. allocate_draw_result_slot) [0..<n]) (\<lambda>slots.
       push_resolution_ops (concat (map (\<lambda>s.
         [ProcessDraw \<lparr>draw_player = p, draw_source = by, draw_slot = s\<rparr>, FinishDraw s]) slots))))"

definition move_by_effect :: "player_id \<Rightarrow> zone \<Rightarrow> zone_movement_kind \<Rightarrow> game_entity_id \<Rightarrow> unit sim" where
  "move_by_effect p z kind i =
     bnd (convert ZoneFailed (move_entity_with_request \<lparr>move_entity = i, destination_controller = p,
            destination = z, move_position = None, move_kind = kind\<rparr>)) (\<lambda>outcome.
     case outcome of
       Moved from _ _ \<Rightarrow> push_trace (ZoneMoved i from z)
     | FullZoneRemoval from _ _ \<Rightarrow> push_trace (ZoneMoved i from Graveyard)
     | PreventedByFullZone \<Rightarrow> ret ())"

definition gain_resource :: "player_id \<Rightarrow> int \<Rightarrow> bool \<Rightarrow> unit sim" where
  "gain_resource p n temporary = ask (\<lambda>w.
     with_player p (\<lambda>pl.
       if temporary
       then bnd (i32_op (temporary_resources pl + n)) (\<lambda>a. ret (pl\<lparr>temporary_resources := a\<rparr>))
       else bnd (i32_op (maximum_resources pl + n)) (\<lambda>a.
         ret (pl\<lparr>maximum_resources := min a (maximum_mana (rules w))\<rparr>))))"

definition schedule_extra_turns :: "player_id \<Rightarrow> nat \<Rightarrow> extra_turn_timing \<Rightarrow> unit sim" where
  "schedule_extra_turns p n time = ask (\<lambda>w.
     case schedule (turns w) (active_player (game w)) p n time of
       Inl _ \<Rightarrow> die
     | Inr s \<Rightarrow> seq (change (\<lambda>w. w\<lparr>turns := s\<rparr>)) (push_trace (ExtraTurnsScheduled p n time)))"

definition summon :: "game_entity_id option \<Rightarrow> player_id \<Rightarrow> card \<Rightarrow> nat option \<Rightarrow> unit sim" where
  "summon by p c place = ask (\<lambda>w.
     if card_kind c = Minion \<and> board_is_full w p then ret ()
     else
     seq (lift (map_err (map_failure ZoneFailed) (validate_board_position w p place)))
     (bnd (spawn_card p c Play) (\<lambda>i.
      seq (unless_none place (\<lambda>n. seq (convert ZoneFailed (move_to i Play (Some n))) (ret ())))
      (bnd allocate_play_order (\<lambda>order.
       seq (update i (\<lambda>e. e\<lparr>e_play_order := Some order\<rparr>))
       (announce_summon by i p))))))"

definition copy_request_for ::
  "effect_context \<Rightarrow> player_id \<Rightarrow> zone \<Rightarrow> nat option \<Rightarrow> game_entity_id \<Rightarrow> resolution_op sim" where
  "copy_request_for ctx p z place i = ask (\<lambda>w.
     bnd (case ents w i of
            None \<Rightarrow> ret None
          | Some e \<Rightarrow> need (Invariant ''copy source lacks required Zone component'') (e_zone e) (\<lambda>from. ret (Some from)))
     (\<lambda>from. ret (CopyEntity \<lparr>copy_source = i, originating_source = source ctx, copy_controller = p,
        copy_destination = z, copy_board_index = place,
        copy_policy = (if from = Some Play \<and> z = Play then InPlayState else CurrentForm)\<rparr>)))"

definition run_native :: "native_effects \<Rightarrow> effect_context \<Rightarrow> event_id option \<Rightarrow> rstring \<Rightarrow> unit sim" where
  "run_native N ctx event i = ask (\<lambda>w.
     need (NativeEffectNotRegistered i) (N i) (\<lambda>plan.
       let es = plan ctx w;
           k = Option.bind event (\<lambda>j. map_option (event_kind \<circ> event_context) (bt_get (events (work w)) j))
       in seq (lift (validate_effect_program N es k)) (push_effects ctx es event)))"

definition choice_of :: "effect_context \<Rightarrow> choice_id \<Rightarrow> player_selector \<Rightarrow> effect_choice_option list \<Rightarrow> choice_request" where
  "choice_of ctx i s options = ChoiceRequest i (resolve_player (controller ctx) s)
     (map (\<lambda>opt. ChoiceOption (effect_option_id opt) (effect_ops ctx None None (option_effects opt))) options)"

definition on_selected :: "effect_context \<Rightarrow> selector \<Rightarrow> (game_entity_id \<Rightarrow> unit sim) \<Rightarrow> unit sim" where
  "on_selected ctx s f = bnd (select_entities ctx s) (for_all f)"

fun execute_scoped_effect ::
  "native_effects \<Rightarrow> effect_context \<Rightarrow> event_id option \<Rightarrow> resolution_id option \<Rightarrow> effect \<Rightarrow> unit sim" where
  "execute_scoped_effect N ctx event scope (Choose i s options) =
     seq (lift (validate_effect_program N [Choose i s options] None))
       (push_op (RequestChoice (choice_of ctx i s options)))"
| "execute_scoped_effect N ctx event scope (DealDamage s v) =
     bnd (select_entities ctx s) (\<lambda>ts. ask (\<lambda>w.
       apply_damage_batch (requests_for ctx (damage_bonus w ctx (evaluate_value w ctx v (length ts))) ts) OrderOfPlay))"
| "execute_scoped_effect N ctx event scope (Heal s v) =
     bnd (select_entities ctx s) (\<lambda>ts. ask (\<lambda>w.
       apply_healing_batch (requests_for ctx (evaluate_value w ctx v (length ts)) ts) OrderOfPlay))"
| "execute_scoped_effect N ctx event scope (ModifyEventValue op v) = modify_event_value event ctx op v"
| "execute_scoped_effect N ctx event scope (Destroy s) =
     on_selected ctx s (\<lambda>i. update_if i (\<lambda>e. e\<lparr>e_pending_destroy := True\<rparr>))"
| "execute_scoped_effect N ctx event scope (Draw s n) = draw_cards (resolve_player (controller ctx) s) (source ctx) n"
| "execute_scoped_effect N ctx event scope (DrawThen s es policy) =
     bnd allocate_draw_result_slot (\<lambda>slot. push_resolution_ops
       [ProcessDraw \<lparr>draw_player = resolve_player (controller ctx) s, draw_source = source ctx, draw_slot = slot\<rparr>,
        ContinueDraw slot ctx es policy])"
| "execute_scoped_effect N ctx event scope (Move s p z kind) =
     bnd (select_entities ctx s) (\<lambda>ts. ask (\<lambda>w.
       for_all (move_by_effect (resolve_player (controller ctx) p) z kind)
         (sort_key (\<lambda>i. (play_order_of w i, i)) ts)))"
| "execute_scoped_effect N ctx event scope (GainResource s n temporary) =
     gain_resource (resolve_player (controller ctx) s) n temporary"
| "execute_scoped_effect N ctx event scope (ScheduleExtraTurns s n time) =
     schedule_extra_turns (resolve_player (controller ctx) s) n time"
| "execute_scoped_effect N ctx event scope (ReplaceHero s r) = replace_hero N (resolve_player (controller ctx) s) r"
| "execute_scoped_effect N ctx event scope (Summon s c place) =
     summon (source ctx) (resolve_player (controller ctx) s) c place"
| "execute_scoped_effect N ctx event scope (AttachStatModifier s m time) =
     on_selected ctx s (\<lambda>i. attach_stat_modifier (controller ctx) i m time)"
| "execute_scoped_effect N ctx event scope (AttachKeywordModifier s m time) =
     on_selected ctx s (\<lambda>i. attach_keyword_modifier (controller ctx) i m time)"
| "execute_scoped_effect N ctx event scope (AttachCostModifier s m time) =
     on_selected ctx s (\<lambda>i. attach_cost_modifier (controller ctx) i m time)"
| "execute_scoped_effect N ctx event scope (AttachContinuousEffect s d removable time) =
     on_selected ctx s (\<lambda>i. attach_continuous_effect (controller ctx) i d time removable)"
| "execute_scoped_effect N ctx event scope (AttachTriggerEnchantment s ts time removable) =
     seq (lift (validate_trigger_enchantment N ts))
       (on_selected ctx s (\<lambda>i. attach_triggers (controller ctx) i ts time removable))"
| "execute_scoped_effect N ctx event scope (Silence s) = on_selected ctx s silence_entity"
| "execute_scoped_effect N ctx event scope (Transform s c kind) =
     bnd (select_entities ctx s) (\<lambda>ts. push_resolution_ops
       (map (\<lambda>t. TransformEntity (if kind = PlayedSelf then scope else None) t (source ctx) c kind) ts))"
| "execute_scoped_effect N ctx event scope (Copy s p z place) =
     bnd (select_entities ctx s) (\<lambda>ts.
     bnd (map_steps (copy_request_for ctx (resolve_player (controller ctx) p) z place) ts) push_resolution_ops)"
| "execute_scoped_effect N ctx event scope (Native i) = run_native N ctx event i"
| "execute_scoped_effect N ctx event scope (Sequence es) = push_resolution_ops (effect_ops ctx event scope es)"

definition execute_effect_operation ::
  "native_effects \<Rightarrow> effect_context \<Rightarrow> effect \<Rightarrow> event_id option \<Rightarrow> unit sim" where
  "execute_effect_operation N ctx e event = execute_scoped_effect N ctx event None e"

definition execute_play_effect_operation ::
  "native_effects \<Rightarrow> resolution_id \<Rightarrow> effect_context \<Rightarrow> effect \<Rightarrow> unit sim" where
  "execute_play_effect_operation N scope ctx e =
     need (InvalidTransformation ''play effect requires its source'') (source ctx) (\<lambda>i. ask (\<lambda>w.
       seq (lift (validate_play_scope w scope i)) (execute_scoped_effect N ctx None (Some scope) e)))"

end
