(* ===== verification/Hs_Validation.thy ===== *)
theory Hs_Validation imports Hs_Dispatch begin

text \<open>
  The validation of actions (\<open>simulator/simulation_action_validation.rs\<close>) and of resolution
  operations (\<open>simulator/simulation_resolution_validation.rs\<close>): targets, costs, readiness, taunt and
  stealth, and the operations that a choice may hold.
\<close>

section \<open>Targets\<close>

definition permits_direct_target :: "world \<Rightarrow> player_id \<Rightarrow> game_entity_id \<Rightarrow> bool" where
  "permits_direct_target w p i \<longleftrightarrow>
     component w e_controller i = Some p \<or> \<not> has_keyword w i Stealth \<and> \<not> has_keyword w i Immune"

fun kind_matches :: "target_kind \<Rightarrow> entity_kind \<Rightarrow> bool" where
  "kind_matches MinionTarget k \<longleftrightarrow> k = Minion"
| "kind_matches HeroTarget k \<longleftrightarrow> k = Hero"
| "kind_matches CharacterTarget k \<longleftrightarrow> k = Minion \<or> k = Hero"

definition target_matches :: "world \<Rightarrow> player_id list \<Rightarrow> target_kind \<Rightarrow> game_entity_id \<Rightarrow> bool" where
  "target_matches w ps k i \<longleftrightarrow>
     component w e_zone i = Some Play \<and>
     (case component w e_controller i of None \<Rightarrow> False | Some p \<Rightarrow> p \<in> set ps) \<and>
     (case component w e_kind i of None \<Rightarrow> False | Some k' \<Rightarrow> kind_matches k k')"

definition audience_players :: "player_id \<Rightarrow> target_audience \<Rightarrow> player_id list" where
  "audience_players p a = (case a of Friendly \<Rightarrow> [p] | Enemy \<Rightarrow> [opponent p] | Either \<Rightarrow> all_players)"

definition eligible_targets :: "world \<Rightarrow> player_id \<Rightarrow> target_filter \<Rightarrow> game_entity_id list" where
  "eligible_targets w p f =
     (let ps = audience_players p (audience f) in
      sorted_ids (filter (\<lambda>i. target_matches w ps (filter_kind f) i \<and> permits_direct_target w p i)
        (concat (map (\<lambda>q. zone_entities w q Play) ps))))"

definition target_options :: "world \<Rightarrow> player_id \<Rightarrow> target_requirement \<Rightarrow> game_entity_id option list" where
  "target_options w p r =
     (case r of
        NoTarget \<Rightarrow> [None]
      | RequiredTarget f \<Rightarrow> map Some (eligible_targets w p f)
      | OptionalTarget f \<Rightarrow> None # map Some (eligible_targets w p f)
      | RequiredIfAvailable f \<Rightarrow>
          (let ts = eligible_targets w p f in if ts = [] then [None] else map Some ts))"

definition validate_supplied_target ::
  "world \<Rightarrow> player_id \<Rightarrow> game_entity_id \<Rightarrow> game_entity_id \<Rightarrow> target_filter \<Rightarrow> (simulation_error, unit) outcome" where
  "validate_supplied_target w p c t f =
     (if t \<in> set (eligible_targets w p f) then Inr () else err (InvalidTarget c t))"

definition validate_target ::
  "world \<Rightarrow> player_id \<Rightarrow> game_entity_id \<Rightarrow> game_entity_id option \<Rightarrow> target_requirement \<Rightarrow>
    (simulation_error, unit) outcome" where
  "validate_target w p c target r =
     (case r of
        NoTarget \<Rightarrow> (case target of None \<Rightarrow> Inr () | Some _ \<Rightarrow> err (UnexpectedTarget c))
      | RequiredTarget f \<Rightarrow>
          (case target of None \<Rightarrow> err (MissingTarget c) | Some t \<Rightarrow> validate_supplied_target w p c t f)
      | OptionalTarget f \<Rightarrow>
          (case target of None \<Rightarrow> Inr () | Some t \<Rightarrow> validate_supplied_target w p c t f)
      | RequiredIfAvailable f \<Rightarrow>
          (case target of
             None \<Rightarrow> if eligible_targets w p f = [] then Inr () else err (MissingTarget c)
           | Some t \<Rightarrow> validate_supplied_target w p c t f))"

section \<open>Attacks\<close>

definition active_taunt :: "world \<Rightarrow> player_id \<Rightarrow> game_entity_id \<Rightarrow> bool" where
  "active_taunt w p i \<longleftrightarrow> has_kind w i Minion \<and> has_keyword w i Taunt \<and> permits_direct_target w p i"

definition attack_exhausted :: "world \<Rightarrow> game_entity_id \<Rightarrow> attack_state \<Rightarrow> bool" where
  "attack_exhausted w i a \<longleftrightarrow>
     (let allowance = (if has_keyword w i Windfury \<or> grants_windfury w i then 2 else 1);
          bypasses = (has_kind w i Minion \<and> (has_keyword w i Charge \<or> has_keyword w i Rush))
      in readiness_blocked a \<and> \<not> bypasses \<or> allowance \<le> attacks_this_turn a)"

definition is_character :: "world \<Rightarrow> game_entity_id \<Rightarrow> bool" where
  "is_character w i \<longleftrightarrow> has_kind w i Hero \<or> has_kind w i Minion"

definition can_thaw :: "world \<Rightarrow> game_entity_id \<Rightarrow> bool" where
  "can_thaw w i =
     (case component w e_attack_state i of
        None \<Rightarrow> False
      | Some a \<Rightarrow>
          if \<not> is_character w i \<or> attack_exhausted w i a then False
          else if readiness_blocked a \<and> has_kind w i Minion \<and> \<not> has_keyword w i Charge
          then (case component w e_controller i of
              None \<Rightarrow> False
            | Some p \<Rightarrow> list_ex (\<lambda>j. has_kind w j Minion) (zone_entities w (opponent p) Play))
          else True)"

definition validate_attack ::
  "world \<Rightarrow> player_id \<Rightarrow> game_entity_id \<Rightarrow> game_entity_id \<Rightarrow> (simulation_error, unit) outcome" where
  "validate_attack w p attacker defender =
     and_then (controlled_entity_in_zone w p attacker Play) (\<lambda>e.
     if \<not> is_character w attacker then err (CannotAttack attacker)
     else
     and_then (ok_or (Err (CannotAttack attacker)) (e_attack_state e)) (\<lambda>a.
     if has_keyword w attacker Frozen \<or> attack_exhausted w attacker a \<or> effective_attack w attacker \<le> 0
     then err (CannotAttack attacker)
     else if ents w defender = None then err (EntityNotFound defender)
     else if component w e_zone defender \<noteq> Some Play \<or>
       component w e_controller defender \<noteq> Some (opponent p) \<or> \<not> is_character w defender
     then err (InvalidDefender defender)
     else if readiness_blocked a \<and> has_kind w attacker Minion \<and> \<not> has_keyword w attacker Charge \<and>
       has_kind w defender Hero
     then err (InvalidDefender defender)
     else if \<not> permits_direct_target w p defender then err (InvalidDefender defender)
     else if list_ex (active_taunt w p) (zone_entities w (opponent p) Play) \<and> \<not> active_taunt w p defender
     then err (InvalidDefender defender)
     else Inr ()))"

section \<open>Cards and hero powers\<close>

definition check_cost :: "world \<Rightarrow> player_id \<Rightarrow> card_runtime \<Rightarrow> (simulation_error, unit) outcome" where
  "check_cost w p rt =
     and_then (ok_or (Err (PlayerNotFound p)) (player_entity w p)) (\<lambda>(_, pl, _).
     and_then (available_resources pl) (\<lambda>available.
     let price = max 0 (cost rt) in
     if available < price then err (NotEnoughMana p price available) else Inr ()))"

definition validate_play_card ::
  "native_effects \<Rightarrow> world \<Rightarrow> player_id \<Rightarrow> game_entity_id \<Rightarrow> game_entity_id option \<Rightarrow> nat option \<Rightarrow>
    choice_id option \<Rightarrow> (simulation_error, nat option) outcome" where
  "validate_play_card N w p c target place choice =
     and_then (controlled_entity_in_zone w p c Hand) (\<lambda>e.
     and_then (ok_or (Err (NotPlayable c)) (e_kind e)) (\<lambda>k.
     if k \<notin> {Minion, Spell, Weapon} then err (NotPlayable c)
     else if k = Weapon \<and> (case e_weapon e of None \<Rightarrow> True | Some s \<Rightarrow> base_durability s \<le> 0 \<or> durability s \<le> 0)
     then err (NotPlayable c)
     else if k = Minion \<and> board_is_full w p then err (BoardFull p)
     else
     and_then (ok_or (Err (NotPlayable c)) (e_runtime e)) (\<lambda>rt.
     and_then (if k = Minion then validate_play_effect_program N (program rt)
               else validate_effect_program N (program rt) None) (\<lambda>_.
     and_then (ok_or (Err (NotPlayable c)) (e_triggers e)) (\<lambda>ts.
     and_then (valid_card_triggers N ts) (\<lambda>_.
     and_then (check_cost w p rt) (\<lambda>_.
     case choice of Some ch \<Rightarrow> err (UnsupportedActionChoice ch) | None \<Rightarrow>
     and_then (validate_target w p c target (targeting rt)) (\<lambda>_.
     if k = Minion
     then and_then (map_err (map_failure ZoneFailed) (validate_board_position w p place)) (\<lambda>_.
       Inr (Some (or_default (length (board_entities w p)) place)))
     else if place \<noteq> None then err (UnexpectedBoardPosition c)
     else Inr None))))))))"

definition validate_hero_power ::
  "native_effects \<Rightarrow> world \<Rightarrow> player_id \<Rightarrow> game_entity_id \<Rightarrow> game_entity_id option \<Rightarrow> (simulation_error, unit) outcome" where
  "validate_hero_power N w p i target =
     and_then (controlled_entity_in_zone w p i Play) (\<lambda>e.
     if e_kind e \<noteq> Some HeroPower then err (NotActiveHeroPower i)
     else
     and_then (ok_or (Err (NotActiveHeroPower i)) (e_hero_power e)) (\<lambda>st.
     if exhausted st then err (HeroPowerExhausted i)
     else
     and_then (ok_or (Err (NotActiveHeroPower i)) (e_runtime e)) (\<lambda>rt.
     and_then (validate_effect_program N (program rt) None) (\<lambda>_.
     and_then (check_cost w p rt) (\<lambda>_.
     validate_target w p i target (targeting rt))))))"

text \<open>The result is the normalised action.\<close>

definition validate_action :: "native_effects \<Rightarrow> world \<Rightarrow> game_action \<Rightarrow> (simulation_error, game_action) outcome" where
  "validate_action N w a =
     (if game_outcome (game w) \<noteq> None then err GameOver
      else if status (game w) \<noteq> AwaitingAction then err NotAwaitingAction
      else if active_player (game w) \<noteq> action_player a then err (NotPlayersTurn (action_player a))
      else case a of
        PlayCardAction p c target place choice \<Rightarrow>
          and_then (validate_play_card N w p c target place choice) (\<lambda>place'.
            Inr (PlayCardAction p c target place' choice))
      | AttackAction p attacker defender \<Rightarrow> and_then (validate_attack w p attacker defender) (\<lambda>_. Inr a)
      | UseHeroPowerAction p i target \<Rightarrow> and_then (validate_hero_power N w p i target) (\<lambda>_. Inr a)
      | EndTurnAction _ \<Rightarrow> Inr a
      | ConcedeAction _ \<Rightarrow> Inr a)"

section \<open>Operations\<close>

definition played_self_scope ::
  "world \<Rightarrow> resolution_id option \<Rightarrow> game_entity_id \<Rightarrow> game_entity_id option \<Rightarrow> transform_kind \<Rightarrow>
    (simulation_error, unit) outcome" where
  "played_self_scope w scope target by kind =
     (if kind = PlayedSelf
      then (case scope of
          Some s \<Rightarrow> if by = Some target then validate_play_scope w s target
                   else err (InvalidTransformation ''played-self transformation requires its own explicit play scope'')
        | None \<Rightarrow> err (InvalidTransformation ''played-self transformation requires its own explicit play scope''))
      else if scope \<noteq> None
      then err (InvalidTransformation ''ordinary transformation cannot carry a play scope'')
      else Inr ())"

definition valid_payer :: "world \<Rightarrow> game_entity_id \<Rightarrow> (simulation_error, unit) outcome" where
  "valid_payer w i =
     (if has_kind w i Weapon \<and> component w e_weapon i \<noteq> None then Inr ()
      else err (CheckpointFailed ''durability payer must be a Weapon with WeaponState''))"

text \<open>The operations a branch of a choice may not hold.\<close>

definition branch_guard :: "resolution_op \<Rightarrow> (simulation_error, unit) outcome" where
  "branch_guard op =
     (case op of
        RunSequenceStep (FinishEquip _) \<Rightarrow>
          err (CheckpointFailed ''choice branches cannot borrow a weapon replacement scope'')
      | RunGuardedSequenceStep _ (FinishEquip _) \<Rightarrow>
          err (CheckpointFailed ''choice branches cannot borrow a weapon replacement scope'')
      | RunSequenceStep (ConsumeDurability _ _) \<Rightarrow>
          err (CheckpointFailed ''choice branches cannot borrow a durability payer'')
      | RunGuardedSequenceStep _ (ConsumeDurability _ _) \<Rightarrow>
          err (CheckpointFailed ''choice branches cannot borrow a durability payer'')
      | RunEffect _ _ (Some _) \<Rightarrow> err (Invariant ''choice branches cannot borrow an event context'')
      | RunPlayEffect _ _ _ \<Rightarrow> err (InvalidTransformation ''choice branches cannot borrow a play scope'')
      | FinishPlayedSelfTransform _ _ \<Rightarrow> err (InvalidTransformation ''choice branches cannot borrow a play scope'')
      | TransformEntity (Some _) _ _ _ _ \<Rightarrow> err (InvalidTransformation ''choice branches cannot borrow a play scope'')
      | _ \<Rightarrow> Inr ())"

fun validate_resolution_operation ::
    "native_effects \<Rightarrow> world \<Rightarrow> resolution_op \<Rightarrow> (simulation_error, unit) outcome"
  and validate_choice_request :: "native_effects \<Rightarrow> world \<Rightarrow> choice_request \<Rightarrow> (simulation_error, unit) outcome"
  and valid_branches :: "native_effects \<Rightarrow> world \<Rightarrow> choice_option list \<Rightarrow> (simulation_error, unit) outcome"
  and valid_branch :: "native_effects \<Rightarrow> world \<Rightarrow> resolution_op list \<Rightarrow> (simulation_error, unit) outcome"
where
  "validate_resolution_operation N w (RunSequenceStep st) =
     (case st of ConsumeDurability _ i \<Rightarrow> valid_payer w i | _ \<Rightarrow> Inr ())"
| "validate_resolution_operation N w (RunGuardedSequenceStep _ st) =
     (case st of ConsumeDurability _ i \<Rightarrow> valid_payer w i | _ \<Rightarrow> Inr ())"
| "validate_resolution_operation N w (RunEffect ctx e event) =
     validate_effect_program N [e]
       (Option.bind event (\<lambda>j. map_option (event_kind \<circ> event_context) (bt_get (events (work w)) j)))"
| "validate_resolution_operation N w (RunPlayEffect scope ctx e) =
     and_then (ok_or (Err (InvalidTransformation ''play effect requires its source'')) (source ctx)) (\<lambda>i.
     and_then (validate_play_scope w scope i) (\<lambda>_. validate_play_effect_program N [e]))"
| "validate_resolution_operation N w (ContinueDraw _ _ es _) = validate_effect_program N es None"
| "validate_resolution_operation N w (AttemptTrigger c) =
     validate_effect_program N (effect_program (candidate_definition c)) (Some (trigger_event (candidate_definition c)))"
| "validate_resolution_operation N w (FinishPlayedSelfTransform _ seeds) =
     try_fold (\<lambda>_ s. validate_effect_program N (effect_program (seed_definition s)) (Some AfterPlay)) () seeds"
| "validate_resolution_operation N w (TransformEntity scope target by c kind) =
     and_then (played_self_scope w scope target by kind) (\<lambda>_. validate_transform_request N w target c)"
| "validate_resolution_operation N w (CopyEntity rq) = validate_copy_request N w rq"
| "validate_resolution_operation N w (RequestChoice rq) = validate_choice_request N w rq"
| "validate_resolution_operation N w (RunPhaseBoundary _) = Inr ()"
| "validate_resolution_operation N w (RefreshAuras _) = Inr ()"
| "validate_resolution_operation N w CheckOutcome = Inr ()"
| "validate_resolution_operation N w (PrepareEvent _) = Inr ()"
| "validate_resolution_operation N w (ResolveEvent _) = Inr ()"
| "validate_resolution_operation N w (FinishEvent _) = Inr ()"
| "validate_resolution_operation N w (ResolveEventSlot _) = Inr ()"
| "validate_resolution_operation N w (FinishTrigger _ _) = Inr ()"
| "validate_resolution_operation N w (ProcessDamageBatch _) = Inr ()"
| "validate_resolution_operation N w (ProcessDamage _ _ _) = Inr ()"
| "validate_resolution_operation N w (ApplyDamage _ _ _ _) = Inr ()"
| "validate_resolution_operation N w (ProcessHealingBatch _) = Inr ()"
| "validate_resolution_operation N w (ProcessHealing _ _ _) = Inr ()"
| "validate_resolution_operation N w (ApplyHealing _ _ _ _) = Inr ()"
| "validate_resolution_operation N w (ProcessDraw _) = Inr ()"
| "validate_resolution_operation N w (FinishDraw _) = Inr ()"
| "validate_choice_request N w (ChoiceRequest i p options) =
     and_then (distinct_choices (map option_id options)) (\<lambda>_. valid_branches N w options)"
| "valid_branches N w [] = Inr ()"
| "valid_branches N w (ChoiceOption i ops # options) =
     and_then (valid_branch N w ops) (\<lambda>_. valid_branches N w options)"
| "valid_branch N w [] = Inr ()"
| "valid_branch N w (op # ops) =
     and_then (branch_guard op) (\<lambda>_.
     and_then (validate_resolution_operation N w op) (\<lambda>_. valid_branch N w ops))"

end
