(* ===== verification/Hs_Sequence.thy ===== *)
theory Hs_Sequence imports Hs_Validation begin

text \<open>
  The steps of the player actions (\<open>simulator/simulation_action.rs\<close>): playing a card, the combat,
  hero powers, the end and the start of a turn, conceding.
\<close>

definition spend_resources :: "player_id \<Rightarrow> int \<Rightarrow> unit sim" where
  "spend_resources p n =
     (let amount = max 0 n in
      seq (with_player p (\<lambda>pl.
          bnd (i32_op (used_resources pl + amount)) (\<lambda>used.
          bnd (i32_op (resources_spent pl + amount)) (\<lambda>spent.
          ret (pl\<lparr>used_resources := used, resources_spent := spent\<rparr>)))))
        (push_trace (ResourceSpent p amount)))"

definition play_context :: "game_entity_id \<Rightarrow> player_id \<Rightarrow> game_entity_id option \<Rightarrow> effect_origin \<Rightarrow> effect_context" where
  "play_context c p target from = \<lparr>source = Some c, controller = p, declared_target = target,
     drawn_card = None, origin = from\<rparr>"

definition play_weapon :: "player_id \<Rightarrow> game_entity_id \<Rightarrow> game_entity_id option \<Rightarrow> card_runtime \<Rightarrow> unit sim" where
  "play_weapon p i target rt = ask (\<lambda>w.
     let ev = plain_event AfterPlay (Some i) [i] p in
     bnd (prepare_event_with_seeds ev (collect_trigger_seeds w ev)) (\<lambda>after.
     seq (spend_resources p (cost rt))
     (seq (begin_equip p i)
     (push_resolution_ops
       ([PrepareEvent (plain_event CardPlayed (Some i) (list_of target) p)] @
        effect_ops (play_context i p target OtherOrigin) None None (program rt) @
        [PrepareEvent (plain_event WeaponEquipped (Some i) [i] p),
         RunSequenceStep (FinishEquip i), RunPhaseBoundary OrdinaryBoundary, ResolveEvent after])))))"

definition play_ops :: "player_id \<Rightarrow> game_entity_id \<Rightarrow> game_entity_id option \<Rightarrow> entity_kind \<Rightarrow> resolution_op list" where
  "play_ops p c target k =
     PrepareEvent (plain_event CardPlayed (Some c) (list_of target) p) #
     (if k = Minion
      then [PrepareEvent (plain_event Summoned (Some c) [c] p), RefreshAuras (PlayedProvider c)] else [])"

definition play_moved_card ::
  "player_id \<Rightarrow> game_entity_id \<Rightarrow> game_entity_id option \<Rightarrow> entity_kind \<Rightarrow> card_runtime \<Rightarrow> unit sim" where
  "play_moved_card p c target k rt = ask (\<lambda>w.
     let ctx = play_context c p target (if k = Spell then SpellOrigin else OtherOrigin);
         seeds = (if k = Minion \<and> contains_played_self_transform (program rt)
           then Some (collect_trigger_seeds w (plain_event AfterPlay (Some c) [c] p)) else None)
     in bnd (case seeds of None \<Rightarrow> ret None | Some ss \<Rightarrow> bnd (open_play_scope c ss) (\<lambda>s. ret (Some s))) (\<lambda>scope.
        push_resolution_ops (play_ops p c target k @ effect_ops ctx None scope (program rt))))"

definition play_card ::
  "player_id \<Rightarrow> game_entity_id \<Rightarrow> game_entity_id option \<Rightarrow> nat option \<Rightarrow> unit sim" where
  "play_card p c target place = ask (\<lambda>w.
     bnd (lift (controlled_entity_in_zone w p c Hand)) (\<lambda>e.
     need (NotPlayable c) (e_kind e) (\<lambda>k.
     need (NotPlayable c) (e_runtime e) (\<lambda>rt.
     if k = Weapon then play_weapon p c target rt
     else
       let to = (if k = Minion then Play else Graveyard) in
       seq (spend_resources p (cost rt))
       (bnd (convert ZoneFailed (move_to c to place)) (\<lambda>outcome.
        case outcome of
          Moved from _ _ \<Rightarrow> seq (push_trace (ZoneMoved c from to)) (play_moved_card p c target k rt)
        | _ \<Rightarrow> fail (Invariant ''validated card move produced an unexpected outcome'')))))))"

section \<open>Hero powers\<close>

definition use_hero_power :: "player_id \<Rightarrow> game_entity_id \<Rightarrow> game_entity_id option \<Rightarrow> unit sim" where
  "use_hero_power p i target = ask (\<lambda>w.
     bnd (lift (controlled_entity_in_zone w p i Play)) (\<lambda>e.
     need (NotActiveHeroPower i) (e_runtime e) (\<lambda>rt.
     let ev = plain_event AfterHeroPower (Some i) (list_of target) p in
     bnd (prepare_event_with_seeds ev (collect_trigger_seeds w ev)) (\<lambda>after.
     seq (spend_resources p (cost rt))
     (push_resolution_ops
       (effect_ops (play_context i p target HeroPowerOrigin) None None (program rt) @
        [RunSequenceStep (FinishHeroPower i), RunPhaseBoundary OrdinaryBoundary, ResolveEvent after]))))))"

definition finish_hero_power :: "game_entity_id \<Rightarrow> ('e, unit) step" where
  "finish_hero_power i = ask (\<lambda>w.
     if has_kind w i HeroPower
     then update_if i (\<lambda>e. e\<lparr>e_hero_power := map_option (\<lambda>st. st\<lparr>
            uses_this_turn := saturating_add (uses_this_turn st) 1, exhausted := True\<rparr>) (e_hero_power e)\<rparr>)
     else ret ())"

section \<open>Combat\<close>

definition in_play_guard :: "game_entity_id \<Rightarrow> subject_guard" where
  "in_play_guard i = \<lparr>guard_subject = i, guard_zone = Play\<rparr>"

definition attack_step :: "player_id \<Rightarrow> game_entity_id \<Rightarrow> game_entity_id \<Rightarrow> ('e, unit) step" where
  "attack_step p attacker defender = push_resolution_ops
     [PrepareEvent (plain_event AttackEvent (Some attacker) [defender] p),
      RunGuardedSequenceStep [in_play_guard attacker] (BreakAttackStealth attacker),
      RunPhaseBoundary OrdinaryBoundary,
      CheckOutcome,
      RunGuardedSequenceStep [in_play_guard attacker, in_play_guard defender]
        (PrepareCombatDamage p attacker defender)]"

definition combat_damage :: "world \<Rightarrow> game_entity_id \<Rightarrow> game_entity_id \<Rightarrow> health_request list" where
  "combat_damage w attacker defender =
     \<lparr>request_source = Some attacker, request_target = defender, proposed = effective_attack w attacker\<rparr> #
     (if 0 < effective_attack w defender
      then [\<lparr>request_source = Some defender, request_target = attacker, proposed = effective_attack w defender\<rparr>]
      else [])"

definition prepare_combat_damage :: "player_id \<Rightarrow> game_entity_id \<Rightarrow> game_entity_id \<Rightarrow> ('e, unit) step" where
  "prepare_combat_damage p attacker defender = ask (\<lambda>w.
     if game_outcome (game w) \<noteq> None then ret ()
     else if ents w attacker = None \<or> ents w defender = None then die
     else
     seq (push_op (RunSequenceStep (FinishAttack p attacker defender)))
     (seq (unless_none (attack_weapon w attacker) (\<lambda>(payer, weapon).
        bnd (push_resolution_op (RunSequenceStep (ConsumeDurability payer weapon))) (\<lambda>i.
        change_work (\<lambda>r. r\<lparr>durability_payers := bt_insert i (payer, weapon) (durability_payers r)\<rparr>))))
     (push_op (ProcessDamageBatch (combat_damage w attacker defender)))))"

definition lose_keyword :: "player_id \<Rightarrow> keyword \<Rightarrow> game_entity_id \<Rightarrow> unit sim" where
  "lose_keyword p k i = attach_keyword_modifier p i
     \<lparr>modified_keyword = k, granted = False, keyword_silence_removable = True\<rparr> PermanentDuration"

definition break_attack_stealth :: "game_entity_id \<Rightarrow> unit sim" where
  "break_attack_stealth i = ask (\<lambda>w.
     unless_none (ents w i) (\<lambda>e.
       if \<not> has_keyword w i Stealth then ret ()
       else need (EntityNotFound i) (e_controller e) (\<lambda>p. lose_keyword p Stealth i)))"

text \<open>\<open>attacks_this_turn\<close> is a \<open>u8\<close>.\<close>

definition count_attack :: "game_entity_id \<Rightarrow> ('e, unit) step" where
  "count_attack i = ask (\<lambda>w.
     unless_none (component w e_attack_state i) (\<lambda>a.
       if 255 \<le> attacks_this_turn a then die
       else update i (\<lambda>e. e\<lparr>e_attack_state := Some (a\<lparr>attacks_this_turn := attacks_this_turn a + 1\<rparr>)\<rparr>)))"

definition finish_attack :: "player_id \<Rightarrow> game_entity_id \<Rightarrow> game_entity_id \<Rightarrow> ('e, unit) step" where
  "finish_attack p attacker defender =
     seq (count_attack attacker)
       (push_resolution_ops [PrepareEvent (plain_event AfterAttack (Some attacker) [defender] p)])"

section \<open>Turns\<close>

definition end_turn :: "player_id \<Rightarrow> ('e, unit) step" where
  "end_turn p = push_resolution_ops
     [PrepareEvent (plain_event TurnEnded None [] p), RunPhaseBoundary OrdinaryBoundary, CheckOutcome,
      RunSequenceStep (ThawCharacters p), RunSequenceStep (AdvanceTurn p)]"

definition thaw_characters :: "player_id \<Rightarrow> unit sim" where
  "thaw_characters p = ask (\<lambda>w.
     for_all (lose_keyword p Frozen)
       (filter (\<lambda>i. has_keyword w i Frozen \<and> can_thaw w i) (zone_entities w p Play)))"

fun expires :: "player_id \<Rightarrow> player_id \<Rightarrow> enchantment_duration \<Rightarrow> bool" where
  "expires ending next PermanentDuration \<longleftrightarrow> False"
| "expires ending next (EndOfTurn p) \<longleftrightarrow> p = ending"
| "expires ending next (EndOfTurnSeries p) \<longleftrightarrow> p = ending \<and> next \<noteq> ending"

definition expiring :: "world \<Rightarrow> player_id \<Rightarrow> player_id \<Rightarrow> (game_entity_id \<times> player_id \<times> game_entity_id) list" where
  "expiring w ending next = List.map_filter
     (\<lambda>(i, e). case (e_attached_to e, e_duration e, e_controller e) of
        (Some target, Some time, Some p) \<Rightarrow>
          if e_zone e = Some Play \<and> expires ending next time then Some (i, p, target) else None
      | _ \<Rightarrow> None)
     (iter_entities w)"

definition expire_temporary_effects :: "player_id \<Rightarrow> player_id \<Rightarrow> ('e, unit) step" where
  "expire_temporary_effects ending next = ask (\<lambda>w.
     for_all (\<lambda>(i, p, target).
       seq (detach_enchantment (i, p))
       (seq (push_trace (TemporaryEffectExpired i))
       (recalculate target)))
       (expiring w ending next))"

definition advance_turn :: "player_id \<Rightarrow> ('e, unit) step" where
  "advance_turn ending = ask (\<lambda>w.
     if game_outcome (game w) \<noteq> None then ret ()
     else case next_turn (turns w) ending of
       Inl _ \<Rightarrow> die
     | Inr (next, s) \<Rightarrow>
         seq (change (\<lambda>w. w\<lparr>turns := s\<rparr>))
         (seq (expire_temporary_effects ending (turn_player next))
         (push_resolution_ops [RunSequenceStep (StartTurn (turn_player next) (turn_kind next))])))"

definition refreshed :: "game_entity \<Rightarrow> game_entity" where
  "refreshed e = e\<lparr>
     e_attack_state := map_option (\<lambda>a. a\<lparr>attacks_this_turn := 0, readiness_blocked := False\<rparr>) (e_attack_state e),
     e_hero_power := map_option (\<lambda>st. st\<lparr>uses_this_turn := 0, exhausted := False\<rparr>) (e_hero_power e)\<rparr>"

definition start_turn :: "player_id \<Rightarrow> scheduled_turn_kind \<Rightarrow> unit sim" where
  "start_turn p kind = ask (\<lambda>w.
     bnd (to_u32 (turn_number (game w) + 1)) (\<lambda>turn.
     seq (change (\<lambda>w. w\<lparr>game := (game w)\<lparr>active_player := p, turn_number := turn\<rparr>\<rparr>))
     (seq (with_player p (\<lambda>pl.
        bnd (i32_op (maximum_resources pl + 1)) (\<lambda>m.
        ret (pl\<lparr>maximum_resources := min m (maximum_mana (rules w)), used_resources := 0,
               temporary_resources := 0, locked_overload := pending_overload pl, pending_overload := 0\<rparr>))))
     (seq (ask (\<lambda>w. for_all (\<lambda>i. update_if i refreshed) (zone_entities w p Play)))
     (seq (push_trace (TurnChanged p turn kind))
     (push_resolution_ops [PrepareEvent (plain_event TurnStarted None [] p)]))))))"

definition concede :: "player_id \<Rightarrow> ('e, unit) step" where
  "concede p =
     seq (change (\<lambda>w. w\<lparr>game := (game w)\<lparr>game_outcome := Some (Winner (opponent p))\<rparr>\<rparr>))
       (push_trace (OutcomeTraced (Some (opponent p))))"

section \<open>Steps\<close>

fun run_sequence_step :: "sequence_step \<Rightarrow> unit sim" where
  "run_sequence_step (FinishEquip i) = finish_equip i"
| "run_sequence_step (ConsumeDurability p i) = consume_durability p i"
| "run_sequence_step (PrepareCombatDamage p a d) = prepare_combat_damage p a d"
| "run_sequence_step (PlayCard p c target place) = play_card p c target place"
| "run_sequence_step (Attack p a d) = attack_step p a d"
| "run_sequence_step (BreakAttackStealth a) = break_attack_stealth a"
| "run_sequence_step (FinishAttack p a d) = finish_attack p a d"
| "run_sequence_step (UseHeroPower p i target) = use_hero_power p i target"
| "run_sequence_step (FinishHeroPower i) = finish_hero_power i"
| "run_sequence_step (EndTurnStep p) = end_turn p"
| "run_sequence_step (ThawCharacters p) = thaw_characters p"
| "run_sequence_step (AdvanceTurn p) = advance_turn p"
| "run_sequence_step (StartTurn p kind) = start_turn p kind"
| "run_sequence_step (Concede p) = concede p"

text \<open>The first guard that fails skips the step.\<close>

fun run_guarded_sequence_step :: "subject_guard list \<Rightarrow> sequence_step \<Rightarrow> unit sim" where
  "run_guarded_sequence_step [] st = run_sequence_step st"
| "run_guarded_sequence_step (g # gs) st = ask (\<lambda>w.
     if component w e_zone (guard_subject g) \<noteq> Some (guard_zone g)
     then push_trace (SequenceStepSkipped st (guard_subject g) (guard_zone g) (component w e_zone (guard_subject g)))
     else run_guarded_sequence_step gs st)"

end
