(* ===== verification/Hs_Engine.thy ===== *)
theory Hs_Engine imports Hs_Sequence begin

text \<open>
  The engine (\<open>simulator/simulation_event_resolver.rs\<close>, \<open>simulator/simulation_action.rs\<close>,
  \<open>simulator/simulation.rs\<close>): the expansion of events into trigger attempts, the phase boundary with
  its deaths, the dispatcher of resolution operations, the loop that drives the stack until it is
  empty or waits for a choice, and the interface of a simulation.

  The loop has the remaining budget as its fuel; \<open>Hs_Progress\<close> proves that it is enough.
\<close>

section \<open>Events\<close>

definition finish_played_self_transform ::
  "resolution_id \<Rightarrow> game_entity_id \<Rightarrow> trigger_seed list \<Rightarrow> unit sim" where
  "finish_played_self_transform scope i seeds = ask (\<lambda>w.
     seq (lift (validate_play_scope w scope i))
     (seq (change_work (\<lambda>r. r\<lparr>play_scopes := bt_remove scope (play_scopes r)\<rparr>))
     (if i \<notin> pending_played_self_transforms (work w) then ret ()
      else seq (change_work (\<lambda>r. r\<lparr>pending_played_self_transforms := pending_played_self_transforms r - {i}\<rparr>))
        (need (EntityNotFound i) (component w e_controller i) (\<lambda>p.
        bnd (prepare_event (plain_event AfterPlayAndSummon (Some i) [i] p)) (\<lambda>inserted.
        bnd (prepare_event_with_seeds (plain_event AfterPlay (Some i) [i] p) seeds) (\<lambda>original.
        push_resolution_ops [ResolveEvent inserted, RunPhaseBoundary OrdinaryBoundary, ResolveEvent original])))))))"

definition snapshot_candidates :: "event_id \<Rightarrow> prepared_event \<Rightarrow> ('e, trigger_candidate list) step" where
  "snapshot_candidates i p = ask (\<lambda>w.
     let ev = event_context p;
         seeds = (case prechecked_triggers p of None \<Rightarrow> collect_trigger_seeds w ev | Some ss \<Rightarrow> ss);
         cs = collect_trigger_candidates w i ev seeds
     in seq (change_work (\<lambda>r. r\<lparr>events := bt_adjust i (\<lambda>p. p\<lparr>candidates := Some cs\<rparr>) (events r)\<rparr>))
       (seq (push_trace (TriggerSnapshot i cs)) (ret cs)))"

definition expand_event :: "event_id \<Rightarrow> unit sim" where
  "expand_event i = ask (\<lambda>w.
     need (ResolutionFailed (MissingEvent i)) (bt_get (events (work w)) i) (\<lambda>p.
     bnd (case candidates p of Some cs \<Rightarrow> ret cs | None \<Rightarrow> snapshot_candidates i p) (\<lambda>cs.
     push_resolution_ops (map AttemptTrigger cs @
       (if event_kind (event_context p) \<in> {ProposedDamage, ProposedHealing} then [] else [FinishEvent i])))))"

definition attempt_trigger :: "resolution_id \<Rightarrow> trigger_candidate \<Rightarrow> unit sim" where
  "attempt_trigger attempt c = ask (\<lambda>w.
     need (ResolutionFailed (MissingEvent (candidate_event c))) (bt_get (events (work w)) (candidate_event c)) (\<lambda>p.
     let ev = event_context p; i = candidate_source c in
     if \<not> trigger_is_eligible w c ev ResolutionTime then push_trace (TriggerAborted attempt i)
     else
       let ctx = \<lparr>source = (if ents w i = None then None else Some i), controller = candidate_controller c,
             declared_target = (case event_targets ev of [] \<Rightarrow> None | t # _ \<Rightarrow> Some t),
             drawn_card = None, origin = OtherOrigin\<rparr>
       in seq (push_op (FinishTrigger attempt i))
         (push_effects ctx (effect_program (candidate_definition c)) (Some (candidate_event c)))))"

section \<open>Phase boundaries\<close>

text \<open>The systems of the schedule \<open>ResolvePhaseBoundary\<close>, in the order of their sets.\<close>

definition resolve_phase_boundary :: "('e, unit) step" where
  "resolve_phase_boundary =
     seq refresh_health_attack_auras (seq refresh_health_attack_auras
       (seq create_deaths refresh_post_death_auras))"

definition prepare_death_event :: "death_record \<Rightarrow> ('e, event_id) step" where
  "prepare_death_event d = prepare_prechecked_event
     \<lparr>event_kind = DeathEvent, event_source = Some (dead_entity d), event_targets = [dead_entity d],
      event_controller = death_controller d, proposed_value = None, actual_value = None,
      simultaneous_ordinal = death_ordinal d\<rparr>"

definition run_phase_boundary :: "('e, unit) step" where
  "run_phase_boundary =
     seq resolve_phase_boundary
     (bnd take_pending_deaths (\<lambda>deaths.
      if deaths = [] then ret ()
      else seq (push_trace (DeathPhaseQueued (map dead_entity deaths)))
        (bnd (map_steps prepare_death_event deaths) (\<lambda>events.
         push_resolution_ops (map ResolveEvent events @ [RunPhaseBoundary ForcedDeath])))))"

section \<open>Operations\<close>

definition request_choice :: "choice_request \<Rightarrow> ('e, unit) step" where
  "request_choice rq =
     seq (change_work (\<lambda>r. r\<lparr>pending_choice := Some rq\<rparr>))
     (seq (change (\<lambda>w. w\<lparr>game := (game w)\<lparr>status := AwaitingChoice\<rparr>\<rparr>))
     (push_trace (ChoiceRequested (choice_request_id rq) (choice_player rq))))"

definition run_choice :: "native_effects \<Rightarrow> choice_request \<Rightarrow> unit sim" where
  "run_choice N rq = ask (\<lambda>w.
     seq (lift (validate_choice_request N w rq))
     (if pending_choice (work w) \<noteq> None then fail (Invariant ''cannot replace a pending choice'')
      else request_choice rq))"

definition resolve_event_slot :: "event_slot_id \<Rightarrow> unit sim" where
  "resolve_event_slot slot = ask (\<lambda>w.
     need (ResolutionFailed (MissingEventSlot slot)) (bt_get (event_slots (work w)) slot) (\<lambda>event.
     seq (change_work (\<lambda>r. r\<lparr>event_slots := bt_remove slot (event_slots r)\<rparr>))
       (unless_none event (\<lambda>i. push_op (ResolveEvent i)))))"

definition continue_draw ::
  "draw_result_slot_id \<Rightarrow> effect_context \<Rightarrow> effect list \<Rightarrow> draw_continuation_policy \<Rightarrow> unit sim" where
  "continue_draw slot ctx es policy =
     bnd (convert ResolutionFailed (take_draw_result slot)) (\<lambda>outcome.
     case outcome of
       Drawn c \<Rightarrow> push_effects (ctx\<lparr>drawn_card := Some c\<rparr>) es None
     | _ \<Rightarrow> if policy = RunWithoutCard then push_effects (ctx\<lparr>drawn_card := None\<rparr>) es None else ret ())"

definition run_transform ::
  "native_effects \<Rightarrow> resolution_id option \<Rightarrow> game_entity_id \<Rightarrow> game_entity_id option \<Rightarrow> card \<Rightarrow>
    transform_kind \<Rightarrow> unit sim" where
  "run_transform N scope target by c kind = ask (\<lambda>w.
     seq (lift (played_self_scope w scope target by kind))
     (seq (transform_entity N target c kind)
     (case kind of
        SpellTransform \<Rightarrow> ret ()
      | NonSpellTransform \<Rightarrow> push_op (RefreshAuras SummonRefresh)
      | PlayedSelf \<Rightarrow> change_work (\<lambda>r. r\<lparr>pending_played_self_transforms :=
          insert target (pending_played_self_transforms r)\<rparr>))))"

definition run_copy :: "native_effects \<Rightarrow> copy_request \<Rightarrow> unit sim" where
  "run_copy N rq = ask (\<lambda>w.
     case ents w (copy_source rq) of
       None \<Rightarrow> copy_entity N rq
     | Some e \<Rightarrow> need (Invariant ''copy source lacks required Zone component'') (e_zone e) (\<lambda>z.
         copy_entity N (rq\<lparr>copy_policy := copy_state_policy z (copy_destination rq)\<rparr>)))"

fun execute_resolution_op :: "native_effects \<Rightarrow> resolution_id \<Rightarrow> resolution_op \<Rightarrow> unit sim" where
  "execute_resolution_op N i (RunSequenceStep st) = run_sequence_step st"
| "execute_resolution_op N i (RunGuardedSequenceStep gs st) = run_guarded_sequence_step gs st"
| "execute_resolution_op N i (RunPhaseBoundary _) = run_phase_boundary"
| "execute_resolution_op N i (RefreshAuras plan) =
     (case plan of PlayedProvider j \<Rightarrow> refresh_played_provider j | SummonRefresh \<Rightarrow> refresh_all_auras)"
| "execute_resolution_op N i CheckOutcome = check_outcome"
| "execute_resolution_op N i (PrepareEvent ev) = bnd (prepare_event ev) (\<lambda>e. push_op (ResolveEvent e))"
| "execute_resolution_op N i (ResolveEvent e) = expand_event e"
| "execute_resolution_op N i (FinishEvent e) = seq (take_prepared_event e) (ret ())"
| "execute_resolution_op N i (ResolveEventSlot s) = resolve_event_slot s"
| "execute_resolution_op N i (AttemptTrigger c) = attempt_trigger i c"
| "execute_resolution_op N i (FinishTrigger attempt j) = push_trace (TriggerResolved attempt j)"
| "execute_resolution_op N i (RunPlayEffect scope ctx e) = execute_play_effect_operation N scope ctx e"
| "execute_resolution_op N i (RunEffect ctx e event) = execute_effect_operation N ctx e event"
| "execute_resolution_op N i (ProcessDamageBatch rqs) = expand_damage_batch rqs"
| "execute_resolution_op N i (ProcessDamage rq slot n) = process_damage rq slot n"
| "execute_resolution_op N i (ApplyDamage rq e slot n) = apply_prepared_damage rq e slot n"
| "execute_resolution_op N i (ProcessHealingBatch rqs) = expand_healing_batch rqs"
| "execute_resolution_op N i (ProcessHealing rq slot n) = process_healing rq slot n"
| "execute_resolution_op N i (ApplyHealing rq e slot n) = apply_prepared_healing rq e slot n"
| "execute_resolution_op N i (ProcessDraw rq) = process_draw rq"
| "execute_resolution_op N i (FinishDraw s) = seq (convert ResolutionFailed (take_draw_result s)) (ret ())"
| "execute_resolution_op N i (ContinueDraw s ctx es policy) = continue_draw s ctx es policy"
| "execute_resolution_op N i (TransformEntity scope target by c kind) = run_transform N scope target by c kind"
| "execute_resolution_op N i (FinishPlayedSelfTransform j seeds) = finish_played_self_transform i j seeds"
| "execute_resolution_op N i (CopyEntity rq) = run_copy N rq"
| "execute_resolution_op N i (RequestChoice rq) = run_choice N rq"

section \<open>The loop\<close>

text \<open>The payer captured at combat preparation is released before its payment runs.\<close>

definition release_payer :: "stacked_resolution_op \<Rightarrow> unit sim" where
  "release_payer s = (case operation s of
     RunSequenceStep (ConsumeDurability p weapon) \<Rightarrow> ask (\<lambda>w.
       seq (change_work (\<lambda>r. r\<lparr>durability_payers := bt_remove (op_id s) (durability_payers r)\<rparr>))
         (if bt_get (durability_payers (work w)) (op_id s) \<noteq> Some (p, weapon)
          then fail (Invariant ''durability payer differs from combat preparation capture'') else ret ()))
   | _ \<Rightarrow> ret ())"

definition run_popped :: "native_effects \<Rightarrow> stacked_resolution_op \<Rightarrow> unit sim" where
  "run_popped N s =
     seq (convert ResolutionFailed (consume_budget (op_id s)))
     (seq (release_payer s)
     (seq (push_trace (OperationPopped (op_id s) (op_kind (operation s))))
     (execute_resolution_op N (op_id s) (operation s))))"

primrec drive :: "native_effects \<Rightarrow> nat \<Rightarrow> unit sim" where
  "drive N 0 = die"
| "drive N (Suc n) =
     bnd pop_resolution_op (\<lambda>popped. unless_none popped (\<lambda>s.
       seq (run_popped N s)
       (ask (\<lambda>w. if status (game w) = AwaitingChoice then ret () else drive N n))))"

definition drive_resolution :: "native_effects \<Rightarrow> unit sim" where
  "drive_resolution N = ask (\<lambda>w. drive N (Suc (remaining_budget (work w))))"

section \<open>The interface\<close>

text \<open>The table of entities is \<open>GameEntityIndex\<close>, so \<open>assert_game_entity_index\<close> holds of every model world.\<close>

definition idle_status :: "world \<Rightarrow> simulation_status" where
  "idle_status w = (if game_outcome (game w) = None then AwaitingAction else Complete)"

definition set_status :: "simulation_status \<Rightarrow> world \<Rightarrow> world" where
  "set_status s w = w\<lparr>game := (game w)\<lparr>status := s\<rparr>\<rparr>"

definition checked :: "(string, unit) outcome \<Rightarrow> (simulation_error, unit) outcome" where
  "checked r = map_err (map_failure Invariant) r"

definition finish_resolution_if_idle :: "unit sim" where
  "finish_resolution_if_idle = ask (\<lambda>w.
     if status (game w) = AwaitingChoice then ret ()
     else if stack (work w) \<noteq> [] then ret ()
     else
     seq finish_sequence
     (seq (ask (\<lambda>w. lift (checked (assert_resolution_invariants w))))
     (seq (change (\<lambda>w. set_status (idle_status w) w))
     (ask (\<lambda>w.
       seq (lift (checked (assert_weapon_invariants w)))
       (seq (lift (checked (assert_zone_invariants w)))
       (lift (checked (assert_player_role_invariants w)))))))))"

definition resolve_to_pause :: "native_effects \<Rightarrow> unit sim" where
  "resolve_to_pause N =
     handle (seq (drive_resolution N) finish_resolution_if_idle)
       (\<lambda>e. seq abandon_equips (seq abandon_sequence
         (seq (change (\<lambda>w. set_status (idle_status w) w)) (fail e))))
       ret"

definition action_op :: "game_action \<Rightarrow> resolution_op" where
  "action_op a =
     (case a of
        PlayCardAction p c target place _ \<Rightarrow>
          RunGuardedSequenceStep [\<lparr>guard_subject = c, guard_zone = Hand\<rparr>] (PlayCard p c target place)
      | AttackAction p attacker defender \<Rightarrow>
          RunGuardedSequenceStep [in_play_guard attacker, in_play_guard defender] (Attack p attacker defender)
      | UseHeroPowerAction p i target \<Rightarrow> RunGuardedSequenceStep [in_play_guard i] (UseHeroPower p i target)
      | EndTurnAction p \<Rightarrow> RunSequenceStep (EndTurnStep p)
      | ConcedeAction p \<Rightarrow> RunSequenceStep (Concede p))"

definition apply_action :: "native_effects \<Rightarrow> game_action \<Rightarrow> unit sim" where
  "apply_action N a = ask (\<lambda>w.
     bnd (lift (validate_action N w a)) (\<lambda>a.
     seq (change (set_status Resolving))
     (seq (convert ResolutionFailed begin_sequence)
     (seq (push_resolution_ops [action_op a, RunPhaseBoundary OrdinaryBoundary, CheckOutcome])
     (resolve_to_pause N)))))"

text \<open>\<open>Simulation::apply\<close>: the pending action is processed and its result traced.\<close>

definition submit_action :: "native_effects \<Rightarrow> game_action \<Rightarrow> unit sim" where
  "submit_action N a =
     handle (apply_action N a)
       (\<lambda>e. seq (push_trace (ActionRejected (action_player a) e)) (fail e))
       (\<lambda>_. push_trace (ActionAccepted (action_player a) (action_label a)))"

definition answer_choice :: "choice_id \<Rightarrow> unit sim" where
  "answer_choice option = ask (\<lambda>w.
     need (ResolutionFailed NoPendingChoice) (pending_choice (work w)) (\<lambda>rq.
     need (ResolutionFailed (InvalidChoice option)) (List.find (\<lambda>opt. option_id opt = option) (choice_options rq)) (\<lambda>opt.
     seq (change_work (\<lambda>r. r\<lparr>pending_choice := None\<rparr>))
     (seq (change (set_status Resolving))
     (seq (push_trace (ChoiceAnswered (choice_request_id rq) option))
     (push_resolution_ops (option_operations opt)))))))"

definition submit_choice :: "native_effects \<Rightarrow> choice_id \<Rightarrow> unit sim" where
  "submit_choice N option = seq (answer_choice option) (resolve_to_pause N)"

section \<open>The legal actions\<close>

definition card_offers :: "world \<Rightarrow> player_id \<Rightarrow> game_entity_id \<Rightarrow> game_action list" where
  "card_offers w p c =
     (case (component w e_kind c, component w e_runtime c) of
        (Some k, Some rt) \<Rightarrow>
          if k = Minion
          then concat (map (\<lambda>t. map (\<lambda>n. PlayCardAction p c t (Some n) None) [0..<Suc (length (board_entities w p))])
                 (target_options w p (targeting rt)))
          else if k = Spell \<or> k = Weapon
          then map (\<lambda>t. PlayCardAction p c t None None) (target_options w p (targeting rt))
          else []
      | _ \<Rightarrow> [])"

definition attack_offers :: "world \<Rightarrow> player_id \<Rightarrow> game_action list" where
  "attack_offers w p = concat (map (\<lambda>a. map (AttackAction p a) (sorted_ids (zone_entities w (opponent p) Play)))
     (sorted_ids (zone_entities w p Play)))"

definition hero_power_offers :: "world \<Rightarrow> player_id \<Rightarrow> game_entity_id \<Rightarrow> game_action list" where
  "hero_power_offers w p i =
     (if has_kind w i HeroPower
      then (case component w e_runtime i of
          None \<Rightarrow> [] | Some rt \<Rightarrow> map (UseHeroPowerAction p i) (target_options w p (targeting rt)))
      else [])"

definition offers :: "world \<Rightarrow> game_action list" where
  "offers w =
     (let p = active_player (game w) in
      [EndTurnAction p] @
      concat (map (card_offers w p) (sorted_ids (zone_entities w p Hand))) @
      attack_offers w p @
      concat (map (hero_power_offers w p) (sorted_ids (zone_entities w p Play))) @
      [ConcedeAction p])"

text \<open>An offer that validation refuses is left out; a panic of the validation is a panic of the list.\<close>

primrec accept_offers :: "native_effects \<Rightarrow> world \<Rightarrow> game_action list \<Rightarrow> (simulation_error, game_action list) outcome" where
  "accept_offers N w [] = Inr []"
| "accept_offers N w (a # as) = (case validate_action N w a of
       Inl Panic \<Rightarrow> panic
     | Inl (Err _) \<Rightarrow> accept_offers N w as
     | Inr b \<Rightarrow> and_then (accept_offers N w as) (\<lambda>bs. Inr (b # bs)))"

definition legal_actions :: "native_effects \<Rightarrow> world \<Rightarrow> (simulation_error, game_action list) outcome" where
  "legal_actions N w =
     (if status (game w) \<noteq> AwaitingAction \<or> game_outcome (game w) \<noteq> None then Inr []
      else accept_offers N w (offers w))"

definition assert_invariants :: "world \<Rightarrow> (simulation_error, unit) outcome" where
  "assert_invariants w =
     and_then (checked (assert_weapon_invariants w)) (\<lambda>_.
     and_then (checked (assert_zone_invariants w)) (\<lambda>_.
     and_then (checked (assert_enchantment_invariants w)) (\<lambda>_.
     and_then (checked (assert_player_role_invariants w)) (\<lambda>_.
     checked (assert_resolution_invariants w)))))"

end
