(* ===== verification/Hs_Invariant.thy ===== *)
theory Hs_Invariant imports Hs_Engine Hs_Places "HOL-Library.Sublist" begin

text \<open>
  Invariants of the engine. A step of the engine changes the world through a few primitives: local changes
  of an entity, movements, the creation of entities, changes of the
  resolution work, and changes that the tables do not see. The locale \<open>engine_invariant\<close> has an
  invariant that each of them keeps, and shows that every operation of the engine keeps it.
\<close>

section \<open>What a step may change\<close>

definition beyond_table :: "world \<Rightarrow> world \<Rightarrow> bool" where
  "beyond_table w w' \<longleftrightarrow> ecs_order w' = ecs_order w \<and> rules w' = rules w \<and>
     next_game_id w \<le> next_game_id w' \<and> next_play_order w \<le> next_play_order w' \<and>
     dominant_player w' = dominant_player w \<and> work w' = work w \<and> status (game w') = status (game w) \<and>
     prefix (game_trace w) (game_trace w') \<and> prefix (death_cache w) (death_cache w')"

definition unseen :: "world \<Rightarrow> world \<Rightarrow> bool" where
  "unseen w w' \<longleftrightarrow> beyond_table w w' \<and> ents w' = ents w \<and> zone_index w' = zone_index w"

text \<open>
  The work stays well formed: identities on the stack rise to its top and are used up, so are those
  of events and slots.
\<close>

definition keys_below :: "nat \<Rightarrow> (nat, 'v) btree_map \<Rightarrow> bool" where
  "keys_below n m \<longleftrightarrow> bt_invar m \<and> (\<forall>k \<in> fst ` set m. k < n)"

definition work_ok :: "resolution_work \<Rightarrow> bool" where
  "work_ok r \<longleftrightarrow> sorted_wrt (<) (map op_id (stack r)) \<and> (\<forall>s \<in> set (stack r). op_id s < next_resolution_id r) \<and>
     keys_below (next_event_id r) (events r) \<and> keys_below (next_event_slot_id r) (event_slots r) \<and>
     keys_below (next_draw_result_slot_id r) (draw_result_slots r)"

definition work_step :: "resolution_work \<Rightarrow> resolution_work \<Rightarrow> bool" where
  "work_step r r' \<longleftrightarrow> remaining_budget r' \<le> remaining_budget r \<and> sequence_active r' = sequence_active r \<and>
     pending_choice r' = pending_choice r \<and> next_resolution_id r \<le> next_resolution_id r' \<and> next_event_id r \<le> next_event_id r' \<and>
     next_event_slot_id r \<le> next_event_slot_id r' \<and>
     next_draw_result_slot_id r \<le> next_draw_result_slot_id r' \<and> (work_ok r \<longrightarrow> work_ok r')"

lemma keys_below_simps [simp]:
  "keys_below n []"
  "keys_below n m \<Longrightarrow> keys_below n (bt_remove k m)"
  "keys_below n (bt_adjust k f m) = keys_below n m"
  "keys_below n m \<Longrightarrow> k < n \<Longrightarrow> keys_below n (bt_insert k v m)"
  "keys_below n m \<Longrightarrow> keys_below (Suc n) m"
proof -
  show "keys_below n []" by (simp add: keys_below_def bt_invar_def)
  show "keys_below n m \<Longrightarrow> keys_below n (bt_remove k m)" by (auto simp: keys_below_def) (auto simp: bt_remove_def)
  show "keys_below n (bt_adjust k f m) = keys_below n m"
    unfolding keys_below_def bt_invar_adjust set_map [symmetric] bt_keys_adjust ..
  show "keys_below n m \<Longrightarrow> k < n \<Longrightarrow> keys_below n (bt_insert k v m)"
    by (auto simp: keys_below_def set_bt_insert_keys)
  show "keys_below n m \<Longrightarrow> keys_below (Suc n) m" by (auto simp: keys_below_def less_Suc_eq)
qed

lemma keys_below_fresh: "keys_below n m \<Longrightarrow> n \<le> k \<Longrightarrow> bt_get m k = None"
  by (auto simp: keys_below_def map_of_eq_None_iff)

section \<open>Case distinctions\<close>

lemma keeps_cases [keeps]:
  "(\<And>a b c. keeps I (f1 a b c)) \<Longrightarrow> keeps I f2 \<Longrightarrow> (\<And>a b c. keeps I (f3 a b c)) \<Longrightarrow>
    keeps I (case x1 of Moved a b c \<Rightarrow> f1 a b c | PreventedByFullZone \<Rightarrow> f2 | FullZoneRemoval a b c \<Rightarrow> f3 a b c)"
  "(\<And>a. keeps I (g1 a)) \<Longrightarrow> (\<And>a. keeps I (g2 a)) \<Longrightarrow> (\<And>a. keeps I (g3 a)) \<Longrightarrow>
    keeps I (case x2 of Drawn a \<Rightarrow> g1 a | Burned a \<Rightarrow> g2 a | Fatigue b \<Rightarrow> g3 b)"
  "(\<And>a. keeps I (h1 a)) \<Longrightarrow> (\<And>a. keeps I (h2 a)) \<Longrightarrow> keeps I (case x3 of Inl a \<Rightarrow> h1 a | Inr a \<Rightarrow> h2 a)"
  "keeps I k1 \<Longrightarrow> (\<And>a b. keeps I (k2 a b)) \<Longrightarrow> keeps I (case x4 of [] \<Rightarrow> k1 | a # b \<Rightarrow> k2 a b)"
  "keeps I m1 \<Longrightarrow> keeps I m2 \<Longrightarrow> keeps I m3 \<Longrightarrow>
    keeps I (case x5 of SpellTransform \<Rightarrow> m1 | NonSpellTransform \<Rightarrow> m2 | PlayedSelf \<Rightarrow> m3)"
  "(\<And>a. keeps I (n1 a)) \<Longrightarrow> keeps I n2 \<Longrightarrow>
    keeps I (case x6 of PlayedProvider a \<Rightarrow> n1 a | SummonRefresh \<Rightarrow> n2)"
  by ((cases x1; simp), (cases x2; simp), (cases x3; simp), (cases x4; simp), (cases x5; simp), (cases x6; simp))

section \<open>Primitive steps\<close>

text \<open>A local change of an entity keeps its place and its attachments.\<close>

definition local_change :: "(game_entity \<Rightarrow> game_entity) \<Rightarrow> bool" where
  "local_change f \<longleftrightarrow> keeps_place f \<and>
     (\<forall>e. e_attached_to (f e) = e_attached_to e \<and> e_attachments (f e) = e_attachments e)"

lemmas local_defs = local_change_def keeps_place_def

named_theorems engine \<open>steps of the engine that keep its invariant\<close>

lemma detach_result: "snd (detach i w) = snd ((detach i :: unit sim) w)"
  by (simp add: detach_def update_if_def seq_def bnd_def split: option.splits)

locale step_invariant =
  fixes I :: "world \<Rightarrow> bool"
  assumes unseen_I: "I w \<Longrightarrow> unseen w w' \<Longrightarrow> I w'"
    and work_I: "I w \<Longrightarrow> work_step (work w) r \<Longrightarrow> I (w\<lparr>work := r\<rparr>)"
    and entity_I: "I w \<Longrightarrow> local_change f \<Longrightarrow> I (set_entity i f w)"
    and detach_I: "keeps I (detach i :: unit sim)"
begin

lemma keeps_change [engine]: "(\<And>w. unseen w (f w)) \<Longrightarrow> keeps I (change f)"
  using unseen_I by (auto simp: keeps_def)

lemma keeps_change_work: "(\<And>r. work_step r (g r)) \<Longrightarrow> keeps I (change_work g)"
  using work_I by (auto simp: keeps_def change_work_def)

lemma keeps_entity [engine]:
  "local_change f \<Longrightarrow> keeps I (update i f)" "local_change f \<Longrightarrow> keeps I (update_if i f)"
  unfolding update_def update_if_def using entity_I by (auto simp: keeps_def)

lemma keeps_trace [engine]: "keeps I (push_trace t)"
  unfolding push_trace_def by (rule keeps_change) (simp add: unseen_def beyond_table_def)

lemma keeps_counters [engine]:
  "keeps I allocate_game_id" "keeps I allocate_play_order" "keeps I (i32_op n)" "keeps I (to_u32 m)"
  unfolding allocate_game_id_def allocate_play_order_def i32_op_def to_u32_def Let_def keeps_def
  by (auto simp: seq_def bnd_def unseen_def beyond_table_def elim!: unseen_I)

lemma keeps_detach [engine]: "keeps I (detach i)"
  unfolding keeps_def by (intro allI impI, subst detach_result) (use detach_I in \<open>simp add: keeps_def\<close>)

lemma keeps_recalculate [engine]:
  "keeps I (recalculate_stats i)" "keeps I (recalculate_keywords i)" "keeps I (recalculate_cost i)"
  "keeps I (recalculate i)"
  unfolding recalculate_def recalculate_stats_def recalculate_keywords_def recalculate_cost_def Let_def
  by (intro keeps engine; simp add: local_defs)+

section \<open>The resolution work\<close>

lemma keeps_push [engine]: "keeps I (push_resolution_op op)"
  unfolding keeps_def
proof (intro allI impI)
  fix w assume "I w"
  let ?r = "(work w)\<lparr>next_resolution_id := next_resolution_id (work w) + 1,
    stack := stack (work w) @ [\<lparr>op_id = next_resolution_id (work w), operation = op\<rparr>]\<rparr>"
  have "work_step (work w) ?r"
    by (auto simp: work_step_def work_ok_def sorted_wrt_append less_Suc_eq)
  from work_I [OF \<open>I w\<close> this] \<open>I w\<close> show "I (snd (push_resolution_op op w))"
    by (simp add: push_resolution_op_def Let_def change_work_def)
qed

lemma keeps_push_ops [engine]:
  "keeps I (push_op op)" "keeps I (push_resolution_ops ops)"
  unfolding push_op_def push_resolution_ops_def push_op_def by (intro keeps engine)+

lemma keeps_pop [engine]: "keeps I pop_resolution_op"
proof -
  have "work_step r (r\<lparr>stack := butlast (stack r)\<rparr>)" for r
    by (cases "stack r" rule: rev_cases) (auto simp: work_step_def work_ok_def sorted_wrt_append)
  then show ?thesis unfolding pop_resolution_op_def by (intro keeps engine keeps_change_work)
qed

lemma keeps_work_changes [engine]:
  "keeps I (change_work (\<lambda>r. r\<lparr>play_scopes := a r\<rparr>))"
  "keeps I (change_work (\<lambda>r. r\<lparr>durability_payers := b r\<rparr>))"
  "keeps I (change_work (\<lambda>r. r\<lparr>pending_played_self_transforms := c r\<rparr>))"
  "keeps I (change_work (\<lambda>r. r\<lparr>events := bt_remove i (events r)\<rparr>))"
  "keeps I (change_work (\<lambda>r. r\<lparr>events := bt_adjust i f (events r)\<rparr>))"
  "keeps I (change_work (\<lambda>r. r\<lparr>event_slots := bt_remove i (event_slots r)\<rparr>))"
  "keeps I (change_work (\<lambda>r. r\<lparr>event_slots := bt_adjust i g (event_slots r)\<rparr>))"
  "keeps I (change_work (\<lambda>r. r\<lparr>draw_result_slots := bt_remove i (draw_result_slots r)\<rparr>))"
  "keeps I (change_work (\<lambda>r. r\<lparr>draw_result_slots := bt_adjust i h (draw_result_slots r)\<rparr>))"
  "keeps I (change_work (\<lambda>r. r\<lparr>remaining_budget := remaining_budget r - 1\<rparr>))"
  by (rule keeps_change_work; simp add: work_step_def work_ok_def)+

lemma keeps_event_id [engine]: "keeps I allocate_event_id"
  unfolding keeps_def allocate_event_id_def Let_def
  by (auto simp: seq_def bnd_def change_work_def work_step_def work_ok_def elim!: work_I)

lemma keeps_slots [engine]: "keeps I allocate_event_slot" "keeps I allocate_draw_result_slot"
  unfolding keeps_def allocate_event_slot_def allocate_draw_result_slot_def Let_def
  by (auto simp: seq_def bnd_def change_work_def work_step_def work_ok_def elim!: work_I)

lemma keeps_slot_results [engine]:
  "keeps I (fill_draw_result_slot s x)" "keeps I (take_draw_result s)" "keeps I (consume_budget j)"
  "keeps I (open_play_scope i ss)"
  unfolding fill_draw_result_slot_def take_draw_result_def consume_budget_def open_play_scope_def
  by (intro keeps engine)+

text \<open>A new event has a new identity, below the next one.\<close>

lemma keeps_record_event [engine]: "keeps I (record_event ev seeds)"
  unfolding keeps_def
proof (intro allI impI)
  fix w assume "I w"
  let ?i = "next_event_id (work w)"
  let ?t = "EventCreated ?i (event_kind ev) (event_source ev) (event_targets ev) (proposed_value ev) (actual_value ev)"
  let ?p = "\<lparr>event_context = ev, prechecked_triggers = seeds, candidates = None\<rparr>"
  have traced: "I (w\<lparr>work := r, game_trace := game_trace w @ [?t]\<rparr>)" if "work_step (work w) r" for r
    using work_I [OF \<open>I w\<close> that] by (rule unseen_I) (simp add: unseen_def beyond_table_def)
  have other: "I (w\<lparr>game_trace := game_trace w @ [?t], work := r\<rparr>)" if "work_step (work w) r" for r
  proof -
    have "w\<lparr>game_trace := game_trace w @ [?t], work := r\<rparr> = w\<lparr>work := r, game_trace := game_trace w @ [?t]\<rparr>"
      by simp
    then show ?thesis using traced [OF that] by (simp only:)
  qed
  have "work_step (work w) ((work w)\<lparr>next_event_id := Suc ?i\<rparr>)"
    "work_step (work w) ((work w)\<lparr>next_event_id := Suc ?i, events := bt_insert ?i ?p (events (work w))\<rparr>)"
    by (simp_all add: work_step_def work_ok_def)
  note this(1) [THEN traced] this(2) [THEN other]
  with \<open>I w\<close> show "I (snd (record_event ev seeds w))"
    by (simp add: record_event_def allocate_event_id_def Let_def seq_def bnd_def change_work_def push_trace_def)
qed

lemma keeps_prepare_event [engine]:
  "keeps I (prepare_event ev)" "keeps I (prepare_event_with_seeds ev ss)" "keeps I (prepare_prechecked_event ev)"
  "keeps I (take_prepared_event j)"
  unfolding prepare_event_def prepare_event_with_seeds_def prepare_prechecked_event_def take_prepared_event_def
  by (intro keeps engine)+

section \<open>Components\<close>

lemma unseen_fields [simp]:
  "unseen w (w\<lparr>equipment := a\<rparr>)" "status b = status (game w) \<Longrightarrow> unseen w (w\<lparr>game := b\<rparr>)" "unseen w (w\<lparr>turns := c\<rparr>)"
  "unseen w (w\<lparr>pending_deaths := d\<rparr>)" "unseen w (w\<lparr>defeated_heroes := h\<rparr>)"
  "unseen w (w\<lparr>death_cache := death_cache w @ rs, pending_deaths := d\<rparr>)"
  "unseen w (w\<lparr>generator := g, game_trace := game_trace w @ ts\<rparr>)"
  by (simp_all add: unseen_def beyond_table_def)

lemma keeps_zone_helpers [engine]:
  "keeps I (track_entry i)" "keeps I (record_full_zone_death i n)" "keeps I (clear_post_death_auras i)"
  unfolding track_entry_def record_full_zone_death_def clear_post_death_auras_def Let_def
  by (intro keeps engine; simp add: local_defs)+

end

section \<open>The engine\<close>

locale engine_invariant = step_invariant I for I :: "world \<Rightarrow> bool" +
  assumes move_I: "keeps I (move_entity_with_request rq)"
    and card_I: "keeps I (spawn_validated_card p c z n)"
    and enchantment_I: "keeps I (spawn_attached_enchantment p t d name time removable)"
    and choice_I: "keeps I (request_choice cr :: unit sim)"
begin

lemma keeps_move_to [engine]: "keeps I (move_to i z req)"
  unfolding move_to_def by (intro keeps move_I)

lemma keeps_deaths [engine]:
  "keeps I create_deaths" "keeps I take_pending_deaths"
  unfolding create_deaths_def take_pending_deaths_def defeat_hero_def bury_def Let_def
  by (intro keeps engine move_I; simp add: local_defs)+

lemma put_cache_local [simp]: "local_change (put_cache c as)"
  by (cases c) (simp_all add: local_defs put_cache_def)

lemma keeps_set_cache [engine]: "keeps I (set_cache c t as)"
  unfolding set_cache_def Let_def by (intro keeps engine) simp

lemma keeps_auras [engine]:
  "keeps I refresh_health_attack_auras" "keeps I refresh_post_death_auras" "keeps I refresh_all_auras"
  "keeps I (refresh_played_provider i)"
  unfolding refresh_health_attack_auras_def refresh_post_death_auras_def refresh_all_auras_def
    refresh_played_provider_def replace_category_def merge_provider_category_def Let_def
  by (intro keeps engine)+

lemma unseen_equipment [simp]: "unseen w (change_pending f w)" "unseen w (put_active p i w)"
  by (simp_all add: change_pending_def put_active_def unseen_def beyond_table_def)

lemma keeps_begin_equip [engine]: "keeps I (begin_equip p i)"
  unfolding begin_equip_def Let_def by (intro keeps engine) (simp_all add: local_defs)

lemma keeps_weapons [engine]:
  "keeps I (retire_weapon i)" "keeps I (finish_equip i)" "keeps I (consume_durability p i)"
  "keeps I abandon_equips"
proof -
  show retire: "keeps I (retire_weapon i)" for i
    unfolding retire_weapon_def Let_def by (intro keeps engine move_I)
  show "keeps I (finish_equip i)" "keeps I (consume_durability p i)" "keeps I abandon_equips"
    unfolding finish_equip_def consume_durability_def abandon_equips_def Let_def
    by (intro keeps engine retire; simp add: local_defs)+
qed

lemma keeps_damage [engine]:
  "keeps I (trace_damage rq n)" "keeps I (damage_passes_protection rq)" "keeps I (reduce_damage rq m)"
  "keeps I (reduce_healing rq m)"
  unfolding trace_damage_def damage_passes_protection_def reduce_damage_def reduce_healing_def Let_def
    trace_damage_def
  by (intro keeps engine; simp add: local_defs)+

lemma keeps_health [engine]:
  "keeps I (apply_damage_batch rqs order)" "keeps I (apply_healing_batch rqs order)"
  "keeps I (apply_damage src t n)" "keeps I (expand_batch prc rqs)"
  "keeps I (process_damage rq slot m)" "keeps I (process_healing rq slot m)"
  "keeps I (fill_event_slot slot ev)"
  unfolding apply_damage_def apply_damage_batch_def apply_healing_batch_def expand_batch_def process_damage_def
    process_healing_def fill_event_slot_def Let_def
  by (intro keeps engine)+

lemma keeps_prepared_health [engine]:
  "keeps I (apply_prepared_damage rq ev slot m)" "keeps I (apply_prepared_healing rq ev slot m)"
  "keeps I (expand_damage_batch rqs)" "keeps I (expand_healing_batch rqs)"
  unfolding apply_prepared_damage_def apply_prepared_healing_def fill_if_positive_def expand_damage_batch_def
    expand_healing_batch_def
  by (intro keeps engine)+

lemma keeps_players [engine]:
  "(\<And>pl. keeps I (f pl)) \<Longrightarrow> keeps I (with_player p f)" "keeps I (fatigue_damage p)"
  "keeps I (draw_from_deck p c)" "keeps I check_outcome"
  unfolding with_player_def fatigue_damage_def draw_from_deck_def check_outcome_def Let_def
  by (intro keeps engine move_I; simp add: local_defs)+

lemma keeps_draw [engine]: "keeps I (process_draw rq)"
  unfolding process_draw_def Let_def by (intro keeps engine)

lemma keeps_spawn_card [engine]: "keeps I (spawn_card_at p c z n)" "keeps I (spawn_card p c z)"
  unfolding spawn_card_def spawn_card_at_def by (intro keeps card_I)+

lemma keeps_choose [engine]: "keeps I (choose_entity cs)"
  unfolding choose_entity_def by (intro keeps engine; simp)

lemma keeps_select [engine]: "keeps I (select_entities ctx s)"
  by (induction ctx s rule: select_entities.induct)
    (simp_all only: select_entities.simps, (intro keeps engine; assumption?)+)

lemma keeps_event_value [engine]: "keeps I (modify_event_value ev ctx op x)"
  unfolding modify_event_value_def Let_def by (intro keeps engine)

lemma keeps_attach [engine]:
  assumes "local_change f"
  shows "keeps I (attach_modifier p t d n time rm f)"
  unfolding attach_modifier_def by (intro keeps engine enchantment_I assms)

lemma keeps_attach_all [engine]:
  "keeps I (attach_stat_modifier p t sm time)" "keeps I (attach_keyword_modifier p t km time)"
  "keeps I (attach_cost_modifier p t cm time)" "keeps I (attach_continuous_effect p t d time rm)"
  "keeps I (attach_triggers p t ts time rm)"
  unfolding attach_stat_modifier_def attach_keyword_modifier_def attach_cost_modifier_def
    attach_continuous_effect_def attach_triggers_def
  by (intro keeps engine; simp add: local_defs)+

lemma keeps_detaching [engine]:
  "keeps I (detach_enchantment x)" "keeps I (detach_all_enchantments t)" "keeps I (silence_entity t)"
  unfolding detach_enchantment_def detach_all_enchantments_def silence_entity_def detach_enchantment_def
  by (intro keeps engine move_I; simp add: local_defs)+

section \<open>Effects\<close>

lemma keeps_hero [engine]:
  "keeps I (move_out_of_play i p z)" "keeps I (install_hero p r st e)" "keeps I (install_hero_power p r)"
  "keeps I (install_weapon p c)"
  unfolding move_out_of_play_def install_hero_def install_hero_power_def install_weapon_def Let_def
    move_out_of_play_def
  by (intro keeps engine move_I; simp add: local_defs)+

lemma keeps_replace_hero [engine]: "keeps I (replace_hero N p r)"
  unfolding replace_hero_def by (intro keeps engine)

lemma keeps_transform [engine]: "keeps I (transform_entity N t c k)"
  unfolding transform_entity_def by (intro keeps engine move_I) (simp add: local_defs transformed_def)

lemma keeps_copy_state [engine]:
  "keeps I (restore_attachment p i a)" "keeps I (restore_play_copy i p pc)" "keeps I (announce_summon b i p)"
  unfolding restore_attachment_def restore_play_copy_def announce_summon_def restore_attachment_def
  by (intro keeps engine enchantment_I; simp add: local_defs)+

lemma keeps_finish_copy [engine]: "keeps I (finish_copy rq pc i)"
  unfolding finish_copy_def by (intro keeps engine)

lemma keeps_copy [engine]: "keeps I (copy_entity N rq)"
proof -
  have "keeps I (case e of ZoneFailed (Full _ _) \<Rightarrow> ret () | _ \<Rightarrow> fail e)" for e
    by (simp add: keeps split: simulation_error.split zone_error.split)
  then show ?thesis unfolding copy_entity_def by (intro keeps engine)
qed

lemma keeps_effect_helpers [engine]:
  "keeps I (push_effects ctx es ev)" "keeps I (draw_cards p b n)" "keeps I (move_by_effect p z k i)"
  "keeps I (gain_resource p m tmp)" "keeps I (schedule_extra_turns p n time)" "keeps I (summon b p c pl)"
  "keeps I (copy_request_for ctx p z pl i)" "keeps I (run_native N ctx ev nm)"
  "(\<And>i. keeps I (f i)) \<Longrightarrow> keeps I (on_selected ctx s f)"
  unfolding push_effects_def draw_cards_def move_by_effect_def gain_resource_def schedule_extra_turns_def summon_def
    copy_request_for_def run_native_def on_selected_def push_effects_def Let_def
  by (intro keeps engine move_I; simp add: local_defs)+

lemma keeps_effect [engine]: "keeps I (execute_scoped_effect N ctx ev scope e)"
  by (cases e; simp only: execute_scoped_effect.simps; intro keeps engine; simp add: local_defs)

lemma keeps_effect_operation [engine]:
  "keeps I (execute_effect_operation N ctx e ev)" "keeps I (execute_play_effect_operation N s ctx e)"
  unfolding execute_effect_operation_def execute_play_effect_operation_def by (intro keeps engine)+

section \<open>Sequence steps\<close>

lemma keeps_play [engine]:
  "keeps I (spend_resources p n)" "keeps I (play_weapon p i t rt)" "keeps I (play_moved_card p i t k rt)"
  "keeps I (play_card p i t pl)"
  unfolding spend_resources_def play_weapon_def play_moved_card_def play_card_def spend_resources_def
    play_weapon_def play_moved_card_def Let_def
  by (intro keeps engine)+

lemma keeps_combat [engine]:
  "keeps I (use_hero_power p i t)" "keeps I (finish_hero_power i)" "keeps I (attack_step p i j)"
  "keeps I (prepare_combat_damage p i j)" "keeps I (lose_keyword p k i)" "keeps I (break_attack_stealth i)"
  "keeps I (count_attack i)" "keeps I (finish_attack p i j)"
  unfolding use_hero_power_def finish_hero_power_def attack_step_def prepare_combat_damage_def lose_keyword_def
    break_attack_stealth_def count_attack_def finish_attack_def lose_keyword_def count_attack_def
    spend_resources_def Let_def
  by (intro keeps engine; simp add: local_defs)+

lemma keeps_turns [engine]:
  "keeps I (end_turn p)" "keeps I (thaw_characters p)" "keeps I (expire_temporary_effects p q)"
  "keeps I (advance_turn p)" "keeps I (start_turn p k)" "keeps I (concede p)"
  unfolding end_turn_def thaw_characters_def expire_temporary_effects_def advance_turn_def start_turn_def
    concede_def expire_temporary_effects_def Let_def
  by (intro keeps engine; simp add: local_defs refreshed_def)+

lemma keeps_sequence_step [engine]: "keeps I (run_sequence_step st)"
  by (cases st; simp only: run_sequence_step.simps; intro keeps engine)

lemma keeps_guarded_step [engine]: "keeps I (run_guarded_sequence_step gs st)"
  by (induction gs) (simp_all only: run_guarded_sequence_step.simps, (intro keeps engine; assumption?)+)

section \<open>Operations\<close>

lemma keeps_events [engine]:
  "keeps I (finish_played_self_transform s i ss)" "keeps I (snapshot_candidates ev pe)" "keeps I (expand_event ev)"
  "keeps I (attempt_trigger att c)"
  unfolding finish_played_self_transform_def snapshot_candidates_def expand_event_def attempt_trigger_def
    snapshot_candidates_def Let_def
  by (intro keeps engine)+

lemma keeps_boundary [engine]:
  "keeps I resolve_phase_boundary" "keeps I (prepare_death_event d)" "keeps I run_phase_boundary"
  unfolding resolve_phase_boundary_def prepare_death_event_def run_phase_boundary_def resolve_phase_boundary_def
    prepare_death_event_def
  by (intro keeps engine)+

lemma keeps_choice [engine]:
  "keeps I (run_choice N rq)" "keeps I (resolve_event_slot slot)"
  "keeps I (continue_draw ds ctx es pol)" "keeps I (run_transform N sc t b c k)" "keeps I (run_copy N cr)"
  unfolding run_choice_def resolve_event_slot_def continue_draw_def run_transform_def run_copy_def
  by (intro keeps engine choice_I)+

theorem keeps_operation [engine]: "keeps I (execute_resolution_op N i op)"
  by (cases op; simp only: execute_resolution_op.simps; intro keeps engine)

lemma keeps_release [engine]: "keeps I (release_payer s)"
  unfolding release_payer_def
  by (cases "operation s"; simp add: keeps; cases "case operation s of RunSequenceStep st \<Rightarrow> st"; simp; intro keeps engine)

lemma keeps_popped [engine]: "keeps I (run_popped N s)"
  unfolding run_popped_def by (intro keeps engine)

lemma keeps_drive [engine]: "keeps I (drive N n)" "keeps I (drive_resolution N)"
proof -
  show "keeps I (drive N n)" for n
    by (induction n) (simp_all only: drive.simps, (intro keeps engine; assumption?)+)
  then show "keeps I (drive_resolution N)" unfolding drive_resolution_def by (intro keeps)
qed

end

end
