(* ===== verification/Hs_Progress.thy ===== *)
theory Hs_Progress imports Hs_Invariant begin

text \<open>
  What only grows: the traces, the identities and the counters of the work never go back, the budget
  never goes up, the rules stay. Every operation of the engine makes progress in this sense.
\<close>

section \<open>Progress\<close>

definition history :: "world \<Rightarrow> world \<Rightarrow> bool" where
  "history w w' \<longleftrightarrow> ecs_order w' = ecs_order w \<and> rules w' = rules w \<and>
     dominant_player w' = dominant_player w \<and>
     next_game_id w \<le> next_game_id w' \<and> next_play_order w \<le> next_play_order w' \<and>
     prefix (game_trace w) (game_trace w') \<and> prefix (death_cache w) (death_cache w') \<and>
     next_resolution_id (work w) \<le> next_resolution_id (work w') \<and>
     next_event_id (work w) \<le> next_event_id (work w') \<and>
     next_event_slot_id (work w) \<le> next_event_slot_id (work w') \<and>
     next_draw_result_slot_id (work w) \<le> next_draw_result_slot_id (work w') \<and>
     (work_ok (work w) \<longrightarrow> work_ok (work w'))"

definition waits :: "world \<Rightarrow> bool" where
  "waits w \<longleftrightarrow> status (game w) = AwaitingChoice \<and> pending_choice (work w) \<noteq> None"

definition progress :: "world \<Rightarrow> world \<Rightarrow> bool" where
  "progress w w' \<longleftrightarrow> history w w' \<and>
     remaining_budget (work w') \<le> remaining_budget (work w) \<and>
     sequence_active (work w') = sequence_active (work w) \<and>
     (status (game w') = status (game w) \<and> pending_choice (work w') = pending_choice (work w) \<or> waits w')"

lemma history_refl [simp]: "history w w"
  by (simp add: history_def)

lemma history_trans: "history w w' \<Longrightarrow> history w' w'' \<Longrightarrow> history w w''"
  unfolding history_def by (auto intro: prefix_order.trans)

lemma progress_refl [simp]: "progress w w"
  by (simp add: progress_def)

lemma progress_trans: "progress w w' \<Longrightarrow> progress w' w'' \<Longrightarrow> progress w w''"
  unfolding progress_def waits_def by (auto intro: history_trans)

lemma unseen_progress: "unseen w w' \<Longrightarrow> progress w w'"
  by (simp add: unseen_def beyond_table_def progress_def history_def)

lemma work_progress: "work_step (work w) r \<Longrightarrow> progress w (w\<lparr>work := r\<rparr>)"
  by (simp add: work_step_def progress_def history_def)

lemma table_progress [simp]:
  "progress w (set_entity i f w)" "progress w (put_index p z xs w)" "progress w (w\<lparr>ents := t\<rparr>)"
  by (simp_all add: set_entity_def put_index_def progress_def history_def)

section \<open>Invariants that do not see the tables\<close>

locale table_blind =
  fixes I :: "world \<Rightarrow> bool"
  assumes progress_I: "I w \<Longrightarrow> progress w w' \<Longrightarrow> I w'"

context table_blind begin

lemma keeps_blind_entity: "keeps I (update_if i f)"
  unfolding update_if_def keeps_def using progress_I table_progress(1) by auto

lemma keeps_blind_detach: "keeps I (detach i)"
  unfolding detach_def by (intro keeps keeps_blind_entity)

end

sublocale table_blind \<subseteq> step_invariant I
proof
  show "I w \<Longrightarrow> unseen w w' \<Longrightarrow> I w'" for w w' using progress_I unseen_progress by blast
  show "I w \<Longrightarrow> work_step (work w) r \<Longrightarrow> I (w\<lparr>work := r\<rparr>)" for w r using progress_I work_progress by blast
  show "I w \<Longrightarrow> I (set_entity i f w)" for w i f using progress_I table_progress(1) by blast
qed (rule keeps_blind_detach)

context table_blind begin

lemma keeps_blind [engine]:
  "keeps I (change (put_index p z xs))" "keeps I (update_if j g)" "keeps I (update j g)"
  "keeps I (spawn j e)" "keeps I (despawn j)"
proof -
  have change: "keeps I (change f)" if "\<And>w. progress w (f w)" for f
    using progress_I that by (auto simp: keeps_def)
  show "keeps I (change (put_index p z xs))" "keeps I (update_if j g)" "keeps I (update j g)"
    "keeps I (spawn j e)" "keeps I (despawn j)"
    unfolding update_if_def update_def spawn_def despawn_def by (intro keeps change table_progress)+
qed

lemma keeps_index [engine]:
  "keeps I (refresh_positions p z)" "keeps I (insert_into_zone_unchecked i p z req)"
  "keeps I (insert_into_zone i p z req)" "keeps I (remove_from_index i p z)" "keeps I (attach i j)"
  unfolding refresh_positions_def insert_into_zone_def insert_into_zone_unchecked_def remove_from_index_def
    attach_def refresh_positions_def Let_def
  by (intro keeps engine)+

lemma keeps_move_with:
  assumes mv: "\<And>rq. keeps I (mv rq)"
  shows "keeps I (move_with mv rq)"
proof -
  have policy: "keeps I (apply_movement_state_policy mv q z)" for q z
    unfolding apply_movement_state_policy_def reset_runtime_state_def Let_def by (intro keeps engine mv)
  have kinds: "keeps I m1 \<Longrightarrow> (\<And>k. keeps I (m2 k)) \<Longrightarrow> keeps I (case k of ForcePlay \<Rightarrow> m1 | DrawMove \<Rightarrow> m2 BurnMove
      | _ \<Rightarrow> m2 (if b then DeathMove else DiscardMove))" for m1 m2 k b
    by (cases k) simp_all
  show ?thesis
    unfolding move_with_def move_to_graveyard_after_failed_move_def Let_def
    by (intro keeps engine policy kinds)
qed

lemma keeps_move: "keeps I (move_entity_with_request rq)"
proof -
  have "keeps I (move_fuel n rq)" for n
    by (induction n arbitrary: rq) (simp_all add: keeps_move_with keeps)
  then show ?thesis by (simp add: move_entity_with_request_def)
qed

lemma keeps_spawns:
  "keeps I (spawn_validated_card p c z n)" "keeps I (spawn_attached_enchantment p t d name time rm)"
  unfolding spawn_validated_card_def spawn_attached_enchantment_def by (intro keeps engine)+

lemma keeps_request: "keeps I (request_choice cr)"
proof -
  have "I (w\<lparr>work := (work w)\<lparr>pending_choice := Some cr\<rparr>, game := (game w)\<lparr>status := AwaitingChoice\<rparr>,
      game_trace := game_trace w @ [t]\<rparr>)" if "I w" for w t
    using that by (rule progress_I) (simp add: progress_def history_def waits_def work_ok_def)
  then show ?thesis
    by (simp add: keeps_def request_choice_def change_work_def push_trace_def seq_def bnd_def)
qed

end

sublocale table_blind \<subseteq> engine_invariant I
  using keeps_move keeps_spawns keeps_request by unfold_locales

text \<open>The interface in terms of the model: from any world, the engine only makes progress.\<close>

interpretation progressing: table_blind "progress w0" for w0
  by unfold_locales (rule progress_trans)

lemma keeps_progress: "(\<And>w0. keeps (progress w0) m) \<Longrightarrow> progress w (snd (m w))"
  unfolding keeps_def by (metis progress_refl)

lemma run_popped_progress: "progress w (snd (run_popped N s w))"
  by (rule keeps_progress) (rule progressing.keeps_popped)

text \<open>
  The loop of the engine ends: each operation takes one unit of the budget of its sequence, and none
  gives any back. The fuel of the model is therefore never the reason why the loop stops.
\<close>

lemma consume_budget_run:
  "consume_budget i w = (if remaining_budget (work w) = 0 then (err (BudgetExhausted (Some i)), w)
     else (Inr (), w\<lparr>work := (work w)\<lparr>remaining_budget := remaining_budget (work w) - 1\<rparr>\<rparr>))"
  by (simp add: consume_budget_def change_work_def)

lemma pop_resolution_run:
  "pop_resolution_op w = (if stack (work w) = [] then (Inr None, w)
     else (Inr (Some (last (stack (work w)))), w\<lparr>work := (work w)\<lparr>stack := butlast (stack (work w))\<rparr>\<rparr>))"
  by (simp add: pop_resolution_op_def change_work_def seq_def bnd_def)

lemma run_popped_consumes:
  assumes "run_popped N s w = (Inr u, w')"
  shows "remaining_budget (work w') < remaining_budget (work w)"
proof -
  let ?rest = "seq (release_payer s) (seq (push_trace (OperationPopped (op_id s) (op_kind (operation s))))
     (execute_resolution_op N (op_id s) (operation s)))"
  from assms obtain x w1 where w1: "convert ResolutionFailed (consume_budget (op_id s)) w = (Inr x, w1)"
    "?rest w1 = (Inr u, w')"
    by (auto simp: run_popped_def seq_Inr_iff)
  from w1(1) have "0 < remaining_budget (work w)" "remaining_budget (work w1) = remaining_budget (work w) - 1"
    by (auto simp: convert_def consume_budget_run split: if_splits)
  moreover have "keeps (progress w0) ?rest" for w0
    by (intro keeps engine)
  from keeps_progress [OF this, of w1] w1(2) have "remaining_budget (work w') \<le> remaining_budget (work w1)"
    by (simp add: progress_def)
  ultimately show ?thesis by simp
qed

text \<open>One turn of the loop.\<close>

definition loop_with :: "native_effects \<Rightarrow> unit sim \<Rightarrow> unit sim" where
  "loop_with N again = bnd pop_resolution_op (\<lambda>popped. unless_none popped (\<lambda>s.
     seq (run_popped N s) (ask (\<lambda>w. if status (game w) = AwaitingChoice then ret () else again))))"

lemma drive_Suc: "drive N (Suc n) = loop_with N (drive N n)"
  by (simp add: loop_with_def)

lemma loop_with_cong:
  assumes "\<And>w'. remaining_budget (work w') < remaining_budget (work w) \<Longrightarrow> m w' = m' w'"
  shows "loop_with N m w = loop_with N m' w"
proof (cases "stack (work w) = []")
  case True
  then show ?thesis by (simp add: loop_with_def pop_resolution_run bnd_def)
next
  case False
  let ?s = "last (stack (work w))" and ?w = "w\<lparr>work := (work w)\<lparr>stack := butlast (stack (work w))\<rparr>\<rparr>"
  show ?thesis
  proof (cases "run_popped N ?s ?w")
    case (Pair r w2)
    have "m w2 = m' w2" if "r = Inr u" for u
      using assms [of w2] run_popped_consumes [of N ?s ?w u w2] Pair that by simp
    then show ?thesis
      using False Pair by (cases r) (simp_all add: loop_with_def pop_resolution_run bnd_def seq_def)
  qed
qed

lemma drive_enough:
  "remaining_budget (work w) < n \<Longrightarrow> remaining_budget (work w) < m \<Longrightarrow> drive N n w = drive N m w"
proof (induction n arbitrary: m w)
  case (Suc n)
  then obtain k where m: "m = Suc k" by (cases m) auto
  show ?case
    unfolding m drive_Suc
  proof (rule loop_with_cong)
    fix w' :: world assume "remaining_budget (work w') < remaining_budget (work w)"
    with Suc.prems m have "remaining_budget (work w') < n" "remaining_budget (work w') < k" by simp_all
    then show "drive N n w' = drive N k w'" by (rule Suc.IH)
  qed
qed simp

text \<open>C11: the loop that drives the resolution stack ends within the budget of its sequence: with the
  remaining budget as its fuel it satisfies the equation of the loop of the source, which has none.\<close>
theorem drive_resolution_loop: "drive_resolution N = loop_with N (drive_resolution N)"
proof
  fix w
  have "drive_resolution N w = loop_with N (drive N (remaining_budget (work w))) w"
    by (simp add: drive_resolution_def drive_Suc del: drive.simps)
  also have "\<dots> = loop_with N (drive_resolution N) w"
  proof (rule loop_with_cong)
    fix w' :: world assume "remaining_budget (work w') < remaining_budget (work w)"
    then have "drive N (remaining_budget (work w)) w' = drive N (Suc (remaining_budget (work w'))) w'"
      by (intro drive_enough) simp_all
    then show "drive N (remaining_budget (work w)) w' = drive_resolution N w'"
      by (simp only: drive_resolution_def ask_def)
  qed
  finally show "drive_resolution N w = loop_with N (drive_resolution N) w" .
qed

lemma loop_with_stops:
  assumes "loop_with N m w = (Inr u, w')"
  shows "stack (work w') = [] \<or> status (game w') = AwaitingChoice \<or> (\<exists>w1. m w1 = (Inr u, w'))"
proof (cases "stack (work w) = []")
  case True
  then have "loop_with N m w = (Inr (), w)" by (simp add: loop_with_def pop_resolution_run bnd_def)
  with assms True show ?thesis by (metis prod.inject)
next
  case False
  let ?s = "last (stack (work w))" and ?w = "w\<lparr>work := (work w)\<lparr>stack := butlast (stack (work w))\<rparr>\<rparr>"
  obtain r w2 where run: "run_popped N ?s ?w = (r, w2)" by (cases "run_popped N ?s ?w")
  with False assms show ?thesis
    by (cases r; cases "status (game w2) = AwaitingChoice") (simp_all add: loop_with_def pop_resolution_run bnd_def seq_def, blast)
qed

lemma drive_stops:
  "drive N n w = (Inr u, w') \<Longrightarrow> stack (work w') = [] \<or> status (game w') = AwaitingChoice"
proof (induction n arbitrary: w)
  case (Suc n)
  from Suc.prems have "loop_with N (drive N n) w = (Inr u, w')" by (simp only: drive_Suc)
  from loop_with_stops [OF this] Suc.IH show ?case by blast
qed simp

end
