(* ===== verification/Hs_Interface.thy ===== *)
theory Hs_Interface imports Hs_Progress Hs_Sample begin

text \<open>
  The zone index stays right under every operation of the engine: \<open>zone_ok\<close> is an invariant of the
  engine.
\<close>

interpretation zones: engine_invariant zone_ok
proof
  show "zone_ok w \<Longrightarrow> unseen w w' \<Longrightarrow> zone_ok w'" for w w'
    using index_ok_same [of w w'] by (simp add: unseen_def same_places_def place_of_def fun_eq_iff)
  show "zone_ok w \<Longrightarrow> zone_ok (w\<lparr>work := r\<rparr>)" for w r
    using index_ok_same [of w "w\<lparr>work := r\<rparr>"] by (simp add: same_places_def place_of_def fun_eq_iff)
  show "zone_ok w \<Longrightarrow> local_change f \<Longrightarrow> zone_ok (set_entity i f w)" for w i f
    using index_ok_same [OF same_places_set_entity] by (auto simp: local_change_def)
  show "keeps zone_ok (detach i :: unit sim)" for i by (intro stays_keeps_ok stays)
  show "keeps zone_ok (request_choice cr :: unit sim)" for cr
  proof -
    have "zone_ok (w\<lparr>work := r, game := g, game_trace := t\<rparr>) = zone_ok w" for w g r t
      by (rule index_ok_same) (simp add: same_places_def place_of_def fun_eq_iff)
    then show ?thesis
      by (simp add: keeps_def request_choice_def change_work_def push_trace_def seq_def bnd_def)
  qed
qed (rule move_keeps_zone_ok card_keeps_zone_ok enchantment_keeps_zone_ok)+

text \<open>
  The interface of a simulation: an action or the answer to a choice starts a sequence, drives it to
  a pause and ends it, with success or with an error. Between calls the simulation is at rest: idle
  with no work left, or waiting for a choice.
\<close>

section \<open>Invariants of the interface\<close>

locale simulation_invariant = engine_invariant I for I :: "world \<Rightarrow> bool" +
  assumes status_I: "I w \<Longrightarrow> I (set_status s w)"
    and begin_I: "keeps I (begin_sequence :: (resolution_error, unit) step)"
    and finish_I: "keeps I (finish_sequence :: unit sim)"
    and abandon_I: "keeps I (abandon_sequence :: unit sim)"
    and answer_I: "keeps I (change_work (\<lambda>r. r\<lparr>pending_choice := None\<rparr>) :: unit sim)"
begin

lemma keeps_status: "keeps I (change (set_status s))" "keeps I (change (\<lambda>w. set_status (idle_status w) w))"
  using status_I by (simp_all add: keeps_def)

lemma keeps_pause: "keeps I (resolve_to_pause N)"
  unfolding resolve_to_pause_def finish_resolution_if_idle_def
  by (intro keeps keeps_status finish_I abandon_I engine)

theorem keeps_interface:
  "keeps I (submit_action N a)" "keeps I (submit_choice N opt)"
  unfolding submit_action_def apply_action_def submit_choice_def answer_choice_def
  by (intro keeps keeps_status begin_I answer_I keeps_pause engine)+

end

text \<open>The zone index is an invariant of the interface.\<close>

interpretation zones: simulation_invariant zone_ok
proof
  have same: "zone_ok w \<Longrightarrow> zone_ok (w\<lparr>work := r\<rparr>)" for w r
    by (rule iffD2 [OF index_ok_same]) (auto simp: same_places_def place_of_def fun_eq_iff)
  show "zone_ok w \<Longrightarrow> zone_ok (set_status s w)" for w s
    by (rule iffD2 [OF index_ok_same]) (auto simp: same_places_def place_of_def fun_eq_iff set_status_def)
  show "keeps zone_ok (begin_sequence :: (resolution_error, unit) step)"
    "keeps zone_ok (finish_sequence :: unit sim)" "keeps zone_ok (abandon_sequence :: unit sim)"
    "keeps zone_ok (change_work (\<lambda>r. r\<lparr>pending_choice := None\<rparr>) :: unit sim)"
    using same by (simp_all add: keeps_def begin_sequence_def finish_sequence_def abandon_sequence_def change_work_def)
qed

section \<open>History\<close>

text \<open>The history of a world is kept by every call.\<close>

lemma progress_history: "progress w w' \<Longrightarrow> history w w'"
  by (simp add: progress_def)

interpretation past: table_blind "history w0" for w0
  by unfold_locales (blast intro: history_trans progress_history)

interpretation past: simulation_invariant "history w0" for w0
proof
  have step: "history w0 w \<Longrightarrow> history w w' \<Longrightarrow> history w0 w'" for w w' by (rule history_trans)
  show "history w0 w \<Longrightarrow> history w0 (set_status s w)" for w s
    by (erule step) (simp add: history_def set_status_def)
  show "keeps (history w0) (begin_sequence :: (resolution_error, unit) step)"
    "keeps (history w0) (finish_sequence :: unit sim)"
    "keeps (history w0) (abandon_sequence :: unit sim)"
    "keeps (history w0) (change_work (\<lambda>r. r\<lparr>pending_choice := None\<rparr>) :: unit sim)"
    unfolding keeps_def begin_sequence_def finish_sequence_def abandon_sequence_def change_work_def Let_def
    by (auto elim!: step simp: history_def work_ok_def)
qed

section \<open>At rest\<close>

definition settled :: "world \<Rightarrow> bool" where
  "settled w \<longleftrightarrow> status (game w) \<in> {AwaitingAction, Complete} \<and> \<not> sequence_active (work w) \<and>
     sequence_clear (work w)"

definition paused :: "world \<Rightarrow> bool" where
  "paused w \<longleftrightarrow> status (game w) = AwaitingChoice \<and> sequence_active (work w) \<and> pending_choice (work w) \<noteq> None"

definition at_rest :: "world \<Rightarrow> bool" where
  "at_rest w \<longleftrightarrow> settled w \<or> paused w"

definition under_way :: "world \<Rightarrow> bool" where
  "under_way w \<longleftrightarrow> status (game w) = Resolving \<and> sequence_active (work w) \<and> pending_choice (work w) = None"

lemma idle_status_cases: "idle_status w \<in> {AwaitingAction, Complete}"
  by (simp add: idle_status_def)

lemma checked_Inr: "checked r = Inr u \<Longrightarrow> r = Inr ()"
  by (cases r) (simp_all add: checked_def map_err_def)

lemma drive_rests:
  assumes "under_way w" "drive_resolution N w = (Inr u, w')"
  shows "paused w' \<or> under_way w' \<and> stack (work w') = []"
proof -
  have "progress w w'" using keeps_progress [OF progressing.keeps_drive(2)] assms(2) by (metis snd_conv)
  moreover have "stack (work w') = [] \<or> status (game w') = AwaitingChoice"
    using assms(2) by (auto simp: drive_resolution_def simp del: drive.simps dest: drive_stops)
  ultimately show ?thesis using assms(1) by (auto simp: under_way_def paused_def progress_def waits_def)
qed

lemma finish_rests:
  assumes "paused w \<or> under_way w \<and> stack (work w) = []" "finish_resolution_if_idle w = (Inr u, w')"
  shows "at_rest w'"
  using assms(1)
proof
  assume "paused w"
  with assms(2) show ?thesis by (auto simp: finish_resolution_if_idle_def paused_def at_rest_def)
next
  assume U: "under_way w \<and> stack (work w) = []"
  let ?w = "w\<lparr>work := (work w)\<lparr>sequence_active := False\<rparr>\<rparr>"
  from U assms(2) have "checked (assert_resolution_invariants ?w) = Inr ()" "w' = set_status (idle_status ?w) ?w"
    by (auto simp: finish_resolution_if_idle_def under_way_def finish_sequence_def change_work_def seq_def bnd_def
        split: sum.splits)
  then have "sequence_clear (work ?w)"
    by (auto dest!: checked_Inr simp: assert_resolution_invariants_def and_then_def split: sum.splits if_splits)
  with \<open>w' = _\<close> have "settled w'"
    using idle_status_cases [of ?w] by (simp add: settled_def set_status_def sequence_clear_def)
  then show ?thesis by (simp add: at_rest_def)
qed

lemma abandoned_settled:
  "seq abandon_sequence (seq (change (\<lambda>w. set_status (idle_status w) w)) (fail e)) w = (r, w') \<Longrightarrow> settled w'"
  by (auto simp: abandon_sequence_def change_work_def seq_def bnd_def settled_def set_status_def sequence_clear_def
      idle_status_def split: if_splits)

lemma quiet_run: "quiet m \<Longrightarrow> m w = (y, w') \<Longrightarrow> y = panic \<or> (\<exists>v. y = Inr v)"
  by (cases y; cases "projl y") (auto simp: quiet_def)

lemma quiet_abandon_equips: "quiet (abandon_equips :: unit sim)"
  unfolding abandon_equips_def by (intro quiet_steps)

lemma pause_rests:
  assumes "under_way w" "resolve_to_pause N w = (r, w')" "r \<noteq> panic"
  shows "at_rest w'"
proof -
  let ?m = "seq (drive_resolution N) finish_resolution_if_idle"
  obtain x w1 where run: "?m w = (x, w1)" by (cases "?m w")
  show ?thesis
  proof (cases x)
    case (Inr u)
    with run obtain v w2 where "drive_resolution N w = (Inr v, w2)" "finish_resolution_if_idle w2 = (Inr u, w1)"
      by (auto simp: seq_Inr_iff)
    moreover have "w' = w1" using assms(2) run Inr by (simp add: resolve_to_pause_def handle_def)
    ultimately show ?thesis using finish_rests drive_rests [OF assms(1)] by blast
  next
    case (Inl f)
    with assms(2,3) run obtain e where e: "seq abandon_equips (seq abandon_sequence
         (seq (change (\<lambda>w. set_status (idle_status w) w)) (fail e))) w1 = (r, w')"
      by (cases f) (auto simp: resolve_to_pause_def handle_def)
    obtain y w2 where y: "(abandon_equips :: unit sim) w1 = (y, w2)" by (cases "(abandon_equips :: unit sim) w1")
    with e assms(3) quiet_run [OF quiet_abandon_equips y] obtain v where "y = Inr v" by auto
    with y e show ?thesis using abandoned_settled by (auto simp: at_rest_def)
  qed
qed

lemma settled_begin:
  assumes "settled w"
  shows "under_way (snd (seq (change (set_status Resolving)) (convert ResolutionFailed begin_sequence) w))"
    "fst (seq (change (set_status Resolving)) (convert ResolutionFailed begin_sequence) w) = Inr ()"
  using assms
  by (simp_all add: settled_def seq_def bnd_def convert_def begin_sequence_def change_work_def set_status_def
      under_way_def sequence_clear_def)

lemma under_way_push: "keeps under_way (push_resolution_ops ops)"
proof -
  have "keeps under_way (push_resolution_op op)" for op
    by (simp add: keeps_def push_resolution_op_def Let_def change_work_def seq_def bnd_def under_way_def)
  then show ?thesis unfolding push_resolution_ops_def push_op_def by (intro keeps)
qed

lemma at_rest_trace: "at_rest (w\<lparr>game_trace := t\<rparr>) = at_rest w"
  by (simp add: at_rest_def settled_def paused_def)

lemma validated_awaits: "validate_action N w a = Inr b \<Longrightarrow> status (game w) = AwaitingAction"
  by (simp add: validate_action_def split: if_splits)

lemma push_ops_quiet [quiet_steps]: "quiet (push_resolution_ops ops)"
  unfolding push_resolution_ops_def push_op_def push_resolution_op_def change_work_def Let_def
  by (intro quiet_steps)

lemma apply_action_rests:
  assumes "at_rest w" "apply_action N a w = (r, w')" "r \<noteq> panic"
  shows "at_rest w'"
proof (cases "validate_action N w a")
  case (Inl e)
  with assms show ?thesis by (simp add: apply_action_def bnd_def)
next
  case (Inr b)
  with assms(1) have "settled w" using validated_awaits by (auto simp: at_rest_def paused_def)
  obtain w1 where w1: "seq (change (set_status Resolving)) (convert ResolutionFailed begin_sequence) w = (Inr (), w1)"
    "under_way w1"
    using settled_begin [OF \<open>settled w\<close>] by (metis prod.collapse)
  let ?push = "push_resolution_ops [action_op b, RunPhaseBoundary OrdinaryBoundary, CheckOutcome] :: unit sim"
  obtain y w2 where w2: "?push w1 = (y, w2)" by (cases "?push w1")
  with w1(2) have "under_way w2" by (rule keepsD [OF under_way_push])
  have "apply_action N a w = seq ?push (resolve_to_pause N) w1"
    using Inr w1(1) by (simp add: apply_action_def seq_def bnd_def split: prod.splits sum.splits)
  with assms(2) have run: "seq ?push (resolve_to_pause N) w1 = (r, w')" by simp
  with w2 assms(3) quiet_run [OF push_ops_quiet w2] obtain v where "y = Inr v" by auto
  with run w2 have "resolve_to_pause N w2 = (r, w')" by simp
  with \<open>under_way w2\<close> assms(3) show ?thesis using pause_rests by blast
qed

theorem submit_action_rests:
  assumes "at_rest w" "submit_action N a w = (r, w')" "r \<noteq> panic"
  shows "at_rest w'"
proof -
  obtain x w1 where run: "apply_action N a w = (x, w1)" by (cases "apply_action N a w")
  with assms(2,3) have "x \<noteq> panic" "\<exists>t. w' = w1\<lparr>game_trace := t\<rparr>"
    by (auto simp: submit_action_def handle_def push_trace_def seq_def bnd_def split: sum.splits failure.splits)
  with apply_action_rests [OF assms(1) run] show ?thesis by (auto simp: at_rest_trace)
qed

lemma answer_runs:
  assumes "at_rest w" "answer_choice opt w = (x, w1)" "x \<noteq> panic"
  shows "(\<exists>e. x = err e) \<and> w1 = w \<or> x = Inr () \<and> under_way w1"
proof (cases "pending_choice (work w)")
  case None
  with assms(2) show ?thesis by (auto simp: answer_choice_def)
next
  case (Some rq)
  show ?thesis
  proof (cases "List.find (\<lambda>o'. option_id o' = opt) (choice_options rq)")
    case None
    with Some assms(2) show ?thesis by (auto simp: answer_choice_def)
  next
    case (Some c)
    from assms(1) \<open>pending_choice _ = _\<close> have "paused w"
      by (auto simp: at_rest_def settled_def sequence_clear_def)
    let ?w = "w\<lparr>work := (work w)\<lparr>pending_choice := None\<rparr>, game := (game w)\<lparr>status := Resolving\<rparr>,
       game_trace := game_trace w @ [ChoiceAnswered (choice_request_id rq) opt]\<rparr>"
    have run: "(push_resolution_ops (option_operations c) :: unit sim) ?w = (x, w1)"
      using assms(2) \<open>pending_choice _ = _\<close> Some
      by (simp add: answer_choice_def change_work_def set_status_def push_trace_def seq_def bnd_def)
    from \<open>paused w\<close> have "under_way ?w" by (simp add: under_way_def paused_def)
    then have "under_way w1" by (rule keepsD [OF under_way_push _ run])
    with quiet_run [OF push_ops_quiet run] assms(3) show ?thesis by auto
  qed
qed

theorem submit_choice_rests:
  assumes "at_rest w" "submit_choice N opt w = (r, w')" "r \<noteq> panic"
  shows "at_rest w'"
proof -
  obtain x w1 where x: "answer_choice opt w = (x, w1)" by (cases "answer_choice opt w")
  with assms(2,3) have "x \<noteq> panic" by (auto simp: submit_choice_def)
  from answer_runs [OF assms(1) x this] show ?thesis
    using assms x pause_rests by (auto simp: submit_choice_def)
qed

end
