(* ===== verification/Hs_Reachable.thy ===== *)
theory Hs_Reachable imports Hs_Interface Hs_Sample begin

text \<open>
  The reachable worlds of a simulation: a new game, followed by actions and answers to choices.
\<close>

section \<open>Reachable worlds\<close>

text \<open>
  The worlds a host can reach: a new game, followed by actions and answers, accepted or not.
\<close>

inductive reachable :: "native_effects \<Rightarrow> world \<Rightarrow> bool" for N where
  new_game: "with_seed_and_dominant_player order first second seed dominant = Some w \<Longrightarrow> reachable N w"
| action: "reachable N w \<Longrightarrow> submit_action N a w = (r, w') \<Longrightarrow> r \<noteq> panic \<Longrightarrow> reachable N w'"
| choice: "reachable N w \<Longrightarrow> submit_choice N opt w = (r, w') \<Longrightarrow> r \<noteq> panic \<Longrightarrow> reachable N w'"

lemma initial_ok: "zone_ok (initial_world order seed p)"
  by (simp add: index_ok_def at_place_def initial_world_def zone_entities_def)

lemma spawn_object_ok: "e_zone e = None \<Longrightarrow> keeps zone_ok (spawn_object p e z)"
  unfolding spawn_object_def by (intro keeps stays_keeps_ok stays keeps_new from_unplaced_insert)

lemma setup_ok: "keeps zone_ok (setup_game first second)"
  unfolding setup_game_def setup_player_def spawn_player_def
  by (intro keeps spawn_object_ok engine) (simp_all add: player_object_def hero_object_def no_components_def)

definition work_is :: "resolution_work \<Rightarrow> world \<Rightarrow> bool" where
  "work_is r w \<longleftrightarrow> work w = r"

lemma keeps_work_change: "(\<And>w. work (f w) = work w) \<Longrightarrow> keeps (work_is r) (change f)"
  by (simp add: keeps_def work_is_def)

lemma setup_keeps_work: "keeps (work_is r) (setup_game first second)"
  unfolding setup_game_def setup_player_def spawn_player_def spawn_object_def spawn_card_def spawn_card_at_def
    spawn_validated_card_def insert_into_zone_def insert_into_zone_unchecked_def refresh_positions_def
    track_entry_def allocate_game_id_def spawn_def despawn_def update_def update_if_def Let_def
  by (intro keeps keeps_work_change; simp add: set_entity_def put_index_def)+

lemma new_game_at_rest:
  assumes "with_seed_and_dominant_player order first second seed dominant = Some w"
  shows "zone_ok w \<and> settled w"
proof -
  let ?w0 = "initial_world order seed dominant"
  from assms obtain u w1 where w1: "setup_game first second ?w0 = (Inr u, w1)"
    "w = w1\<lparr>game := (game w1)\<lparr>status := AwaitingAction\<rparr>\<rparr>"
    by (auto simp: with_seed_and_dominant_player_def split: prod.splits sum.splits)
  have "zone_ok w1" by (rule keepsD [OF setup_ok initial_ok w1(1)])
  moreover have "work_is empty_work w1"
    by (rule keepsD [OF setup_keeps_work _ w1(1)]) (simp add: work_is_def initial_world_def)
  ultimately show ?thesis
    using w1(2) index_ok_same [of w1 w]
    by (simp add: settled_def work_is_def empty_work_def sequence_clear_def same_places_def place_of_def fun_eq_iff)
qed

lemma try_fold_unit: "(\<And>x. x \<in> set xs \<Longrightarrow> f () x = Inr ()) \<Longrightarrow> try_fold f () xs = Inr ()"
  by (induction xs) (simp_all add: and_then_def)

lemma zone_ok_asserted:
  assumes "zone_ok w"
  shows "assert_zone_invariants w = Inr ()"
  unfolding assert_zone_invariants_def
proof (intro try_fold_unit, clarify, intro try_fold_unit)
  fix p z x assume "x \<in> set (enumerate 0 (zone_entities w p z))"
  then have "fst x < length (zone_entities w p z)" "snd x = zone_entities w p z ! fst x"
    by (auto simp: in_set_enumerate_eq)
  with index_ok_nth [OF assms] have "at_place w (snd x) p z (fst x)" by auto
  then show "(\<lambda>(n, i). (case ents w i of None \<Rightarrow> err ''zone index references missing''
      | Some e \<Rightarrow> if e_zone e = None then err ''indexed entity has no Zone''
          else if e_controller e = None then err ''indexed entity has no Controller''
          else if e_position e = None then err ''indexed entity has no ZonePosition''
          else if e_zone e \<noteq> Some z \<or> e_controller e \<noteq> Some p \<or> e_position e \<noteq> Some n
          then err ''zone index disagrees'' else Inr ())) x = Inr ()"
    by (auto simp: at_place_def split_beta)
qed

lemma reachable_ok: "reachable N w \<Longrightarrow> zone_ok w \<and> at_rest w"
proof (induction rule: reachable.induct)
  case new_game
  then show ?case using new_game_at_rest by (auto simp: at_rest_def)
next
  case (action w a r w')
  then show ?case using submit_action_rests keepsD [OF zones.keeps_interface(1)] by blast
next
  case (choice w opt r w')
  then show ?case using submit_choice_rests keepsD [OF zones.keeps_interface(2)] by blast
qed

section \<open>A sample game\<close>

definition sample_player :: player_config where
  "sample_player = \<lparr>config_name = [80], config_deck = [], config_hand = []\<rparr>"

lemmas setup_defs = setup_game_def setup_player_def spawn_player_def spawn_object_def spawn_card_def spawn_card_at_def
  spawn_validated_card_def allocate_game_id_def spawn_def despawn_def convert_def handle_def all_players_def
  validate_card_spawn_def validate_generation_capacity_def validate_card_def resolve_generation_position_def
  player_object_def hero_object_def card_hero_power_def non_minion_def map_err_def map_failure_def sample_player_def

lemma sample_game: "\<exists>w. with_seed_and_dominant_player (\<lambda>_. []) sample_player sample_player 7 One = Some w"
proof -
  have "case setup_game sample_player sample_player (initial_world (\<lambda>_. []) 7 One) of (r, w) \<Rightarrow> r = Inr ()"
    by (simp add: runs setup_defs)
  then show ?thesis by (auto simp: with_seed_and_dominant_player_def split: prod.splits)
qed

section \<open>Properties\<close>

text \<open>C1: in every world that a host can reach by actions and answers, accepted or refused, the simulation is
  at rest (no sequence is active and no work is left, or the sequence waits for the answer to a
  choice), and the zone index agrees with the entities, as the check of the source confirms.\<close>
theorem reachable_worlds_are_at_rest:
  assumes "reachable N w"
  shows "(settled w \<or> paused w) \<and> zone_ok w \<and> assert_zone_invariants w = Inr ()"
  using reachable_ok [OF assms] zone_ok_asserted by (simp add: at_rest_def)

theorem reachable_worlds_are_at_rest_witness:
  "\<exists>w r w'. with_seed_and_dominant_player (\<lambda>_. []) sample_player sample_player 7 One = Some w \<and>
     submit_choice Map.empty 3 w = (r, w') \<and> r \<noteq> panic \<and> (settled w' \<or> paused w') \<and> assert_zone_invariants w' = Inr ()"
proof -
  obtain w where w: "with_seed_and_dominant_player (\<lambda>_. []) sample_player sample_player 7 One = Some w"
    using sample_game by blast
  then have start: "reachable Map.empty w" by (rule reachable.new_game)
  have "pending_choice (work w) = None"
    using new_game_at_rest [OF w] by (simp add: settled_def sequence_clear_def)
  then have run: "submit_choice Map.empty 3 w = (err (ResolutionFailed NoPendingChoice), w)"
    by (simp add: submit_choice_def answer_choice_def)
  have "reachable Map.empty w" by (rule reachable.choice [OF start run]) simp
  from reachable_worlds_are_at_rest [OF this] w run show ?thesis by blast
qed

text \<open>C29: no call of the interface rewinds the past: whatever an action or an answer leads to, success, an
  error or a panic, the trace and the death cache only grow at their end, identities and orders of
  play are never given out again, and the rules and the dominant player stay.\<close>
theorem calls_keep_the_past:
  "history w (snd (submit_action N a w)) \<and> history w (snd (submit_choice N opt w))"
  using past.keeps_interface by (metis history_refl keeps_def)

text \<open>An action that its validation refuses changes nothing but the trace, which records the error.\<close>
theorem refused_actions_change_nothing:
  assumes "validate_action N w a = Inl (Err e)"
  shows "submit_action N a w = (err e, w\<lparr>game_trace := game_trace w @ [ActionRejected (action_player a) e]\<rparr>)"
  using assms by (simp add: submit_action_def apply_action_def handle_def push_trace_def bnd_def seq_def)

theorem refused_actions_change_nothing_witness:
  "submit_action Map.empty (ConcedeAction Two) (set_status AwaitingAction sample_world) =
     (err (NotPlayersTurn Two), (set_status AwaitingAction sample_world)\<lparr>game_trace := [ActionRejected Two (NotPlayersTurn Two)]\<rparr>)"
proof -
  have "validate_action Map.empty (set_status AwaitingAction sample_world) (ConcedeAction Two) = Inl (Err (NotPlayersTurn Two))"
    by (simp add: validate_action_def set_status_def runs default_game_state_def)
  from refused_actions_change_nothing [OF this] show ?thesis
    by (simp add: set_status_def sample_world_def initial_world_def)
qed

end
