(* ===== verification/Hs_Legal.thy ===== *)
theory Hs_Legal imports Hs_Engine Hs_Sample begin

text \<open>
  The list of legal actions (\<open>Simulation::legal_actions\<close>) against the validation of actions: it holds
  the normal form of every action that validation accepts, and nothing else; listing them panics when
  the validation of an offer does.
\<close>

lemma set_sorted_ids [simp]: "set (sorted_ids xs) = set xs"
  by (simp add: sorted_ids_def)

lemma in_map_filter [simp]: "y \<in> set (List.map_filter f xs) \<longleftrightarrow> (\<exists>x \<in> set xs. f x = Some y)"
  by (induction xs) (auto split: option.splits)

lemma validate_target_iff: "validate_target w p c t r = Inr () \<longleftrightarrow> t \<in> set (target_options w p r)"
  by (cases t)
    (auto simp: validate_target_def target_options_def validate_supplied_target_def Let_def split: target_requirement.splits)

lemma controlled_iff:
  "controlled_entity_in_zone w p i z = Inr e \<longleftrightarrow> ents w i = Some e \<and> e_controller e = Some p \<and> e_zone e = Some z"
  by (auto simp: controlled_entity_in_zone_def and_then_def split: sum.splits option.splits if_splits)

lemma play_card_facts:
  assumes "validate_play_card N w p c target place choice = Inr place'"
  obtains e k rt where "ents w c = Some e" "e_controller e = Some p" "e_zone e = Some Hand" "e_kind e = Some k"
    "e_runtime e = Some rt" "choice = None" "target \<in> set (target_options w p (targeting rt))"
    "k = Minion \<and> (\<exists>n. place' = Some n \<and> n \<le> length (board_entities w p)) \<or>
     (k = Spell \<or> k = Weapon) \<and> place' = None"
    "validate_play_card N w p c target place' choice = Inr place'"
proof -
  have board: "map_err (map_failure ZoneFailed) (validate_board_position w p q) = Inr () \<longleftrightarrow>
      or_default (length (board_entities w p)) q \<le> length (board_entities w p)" for q
    by (auto simp: map_err_def validate_board_position_def validate_position_def split: option.splits)
  have board': "map_err (map_failure ZoneFailed) (validate_board_position w p q) = Inr u \<longleftrightarrow>
      or_default (length (board_entities w p)) q \<le> length (board_entities w p)" for q u
    using board by simp
  note assms' = assms [unfolded validate_play_card_def and_then_Inr_iff controlled_iff ok_or_Inr_iff]
  from assms' obtain e k rt where e: "ents w c = Some e" "e_controller e = Some p" "e_zone e = Some Hand"
    "e_kind e = Some k" "e_runtime e = Some rt"
    by (auto simp: and_then_Inr_iff ok_or_Inr_iff split: if_splits)
  have choice: "choice = None" and target: "validate_target w p c target (targeting rt) = Inr ()"
    and kinds: "k = Minion \<and> (\<exists>n. place' = Some n \<and> n \<le> length (board_entities w p)) \<or>
     (k = Spell \<or> k = Weapon) \<and> place' = None"
    using assms' e by (auto simp: and_then_Inr_iff ok_or_Inr_iff board' split: if_splits option.splits)
  have "validate_play_card N w p c target place' choice = Inr place'"
    using assms e choice kinds
    by (auto simp: validate_play_card_def and_then_Inr_iff ok_or_Inr_iff controlled_iff board' split: if_splits)
  with that e choice target kinds show thesis by (simp add: validate_target_iff)
qed

lemma offered_play:
  assumes "zone_ok w" "validate_play_card N w p c target place choice = Inr place'"
  shows "PlayCardAction p c target place' choice \<in> set (concat (map (card_offers w p) (sorted_ids (zone_entities w p Hand))))"
proof -
  from play_card_facts [OF assms(2)] obtain e k rt where e: "ents w c = Some e" "e_controller e = Some p"
    "e_zone e = Some Hand" "e_kind e = Some k" "e_runtime e = Some rt" "choice = None"
    "target \<in> set (target_options w p (targeting rt))"
    "k = Minion \<and> (\<exists>n. place' = Some n \<and> n \<le> length (board_entities w p)) \<or>
     (k = Spell \<or> k = Weapon) \<and> place' = None"
    by metis
  then have "c \<in> set (zone_entities w p Hand)" using index_ok_member [OF assms(1)] by blast
  moreover have "PlayCardAction p c target place' choice \<in> set (card_offers w p c)"
    using e by (force simp: card_offers_def component_def less_Suc_eq_le simp del: upt_Suc)
  ultimately show ?thesis by auto
qed

lemma attack_facts:
  assumes "validate_attack w p i j = Inr u"
  shows "(\<exists>e. ents w i = Some e \<and> e_zone e = Some Play \<and> e_controller e = Some p) \<and>
    (\<exists>e. ents w j = Some e \<and> e_zone e = Some Play \<and> e_controller e = Some (opponent p))"
  using assms
  by (auto simp: validate_attack_def and_then_Inr_iff ok_or_Inr_iff controlled_iff component_def bind_eq_Some_conv
      split: if_splits)

lemma offered_attack:
  assumes "zone_ok w" "validate_attack w p i j = Inr u"
  shows "AttackAction p i j \<in> set (attack_offers w p)"
proof -
  have "i \<in> set (zone_entities w p Play)" "j \<in> set (zone_entities w (opponent p) Play)"
    using attack_facts [OF assms(2)] index_ok_member [OF assms(1)] by blast+
  then show ?thesis by (force simp: attack_offers_def)
qed

lemma offered_hero_power:
  assumes "zone_ok w" "validate_hero_power N w p i target = Inr u"
  shows "UseHeroPowerAction p i target \<in> set (concat (map (hero_power_offers w p) (sorted_ids (zone_entities w p Play))))"
proof -
  from assms(2) obtain e rt where e: "ents w i = Some e" "e_controller e = Some p" "e_zone e = Some Play"
    "e_kind e = Some HeroPower" "e_runtime e = Some rt" "validate_target w p i target (targeting rt) = Inr ()"
    by (auto simp: validate_hero_power_def and_then_Inr_iff ok_or_Inr_iff controlled_iff split: if_splits)
  then have "i \<in> set (zone_entities w p Play)" using index_ok_member [OF assms(1)] by blast
  moreover have "UseHeroPowerAction p i target \<in> set (hero_power_offers w p i)"
    using e by (simp add: hero_power_offers_def has_kind_def component_def validate_target_iff)
  ultimately show ?thesis by auto
qed

lemma validated_normal_form:
  assumes "validate_action N w a = Inr b"
  shows "validate_action N w b = Inr b"
proof (cases a)
  case (PlayCardAction p c target place choice)
  with assms obtain place' where "validate_play_card N w p c target place choice = Inr place'"
    "b = PlayCardAction p c target place' choice"
    by (auto simp: validate_action_def and_then_Inr_iff split: if_splits)
  moreover from play_card_facts [OF this(1)] have "validate_play_card N w p c target place' choice = Inr place'" by metis
  ultimately show ?thesis using assms PlayCardAction
    by (auto simp: validate_action_def and_then_Inr_iff split: if_splits)
qed (use assms in \<open>auto simp: validate_action_def and_then_Inr_iff split: if_splits\<close>)

lemma validated_offered:
  assumes "zone_ok w" "validate_action N w a = Inr b"
  shows "b \<in> set (offers w)"
proof -
  have p: "active_player (game w) = action_player a"
    using assms(2) by (simp add: validate_action_def split: if_splits)
  show ?thesis
  proof (cases a)
    case (PlayCardAction p c target place choice)
    with assms(2) obtain place' where "validate_play_card N w p c target place choice = Inr place'"
      "b = PlayCardAction p c target place' choice"
      by (auto simp: validate_action_def and_then_Inr_iff split: if_splits)
    with offered_play [OF assms(1)] p PlayCardAction show ?thesis by (simp add: offers_def Let_def)
  next
    case (UseHeroPowerAction p i target)
    with assms(2) obtain u where "validate_hero_power N w p i target = Inr u" "b = a"
      by (auto simp: validate_action_def and_then_Inr_iff split: if_splits)
    with offered_hero_power [OF assms(1)] p UseHeroPowerAction show ?thesis by (simp add: offers_def Let_def)
  next
    case (AttackAction p i j)
    with assms(2) obtain u where "validate_attack w p i j = Inr u" "b = a"
      by (auto simp: validate_action_def and_then_Inr_iff split: if_splits)
    with offered_attack [OF assms(1)] p AttackAction show ?thesis by (simp add: offers_def Let_def)
  qed (use assms p in \<open>auto simp: validate_action_def offers_def Let_def split: if_splits\<close>)
qed

lemma accept_offers_Inr:
  assumes "accept_offers N w as = Inr bs"
  shows "set bs = {b. \<exists>a \<in> set as. validate_action N w a = Inr b} \<and> (\<forall>a \<in> set as. validate_action N w a \<noteq> panic)"
  using assms
proof (induction as arbitrary: bs)
  case (Cons a as)
  then show ?case
    by (cases "validate_action N w a") (fastforce simp: and_then_Inr_iff split: failure.splits)+
qed simp

lemma accept_offers_Inl:
  "accept_offers N w as = Inl f \<Longrightarrow> f = Panic \<and> (\<exists>a \<in> set as. validate_action N w a = panic)"
  by (induction as) (auto simp: and_then_def split: sum.splits failure.splits)

text \<open>In the sample world, where no player has an entity, only the two actions without a card are accepted.\<close>

lemma sample_offers:
  "offers (set_status AwaitingAction sample_world) =
     [EndTurnAction One, PlayCardAction One 0 None (Some 0) None, ConcedeAction One]"
  by (simp add: offers_def set_status_def default_game_state_def card_offers_def attack_offers_def sorted_ids_def
      target_options_def runs)

lemma sample_legal:
  "legal_actions Map.empty (set_status AwaitingAction sample_world) = Inr [EndTurnAction One, ConcedeAction One]"
proof -
  have "validate_play_card Map.empty (set_status AwaitingAction sample_world) One 0 None (Some 0) None = err (PlayerNotFound One)"
    by (simp add: validate_play_card_def controlled_entity_in_zone_def set_status_def check_cost_def player_entity_def
        validate_play_effect_program_def runs)
  then show ?thesis
    unfolding legal_actions_def sample_offers
    by (simp add: validate_action_def set_status_def default_game_state_def runs)
qed

text \<open>C21: Exactly when validation panics on an offer of a game that awaits an action, the list of legal
  actions panics. Otherwise it is the set of the normal forms of the actions that validation accepts:
  every legal action is accepted as it is, and every accepted action, with the board position it
  leaves open filled in, is in the list.\<close>
theorem legal_actions_are_the_accepted:
  assumes "zone_ok w"
  shows "(case legal_actions N w of
      Inr as \<Rightarrow> set as = {b. \<exists>a. validate_action N w a = Inr b} \<and> (\<forall>b \<in> set as. validate_action N w b = Inr b)
    | Inl f \<Rightarrow> f = Panic) \<and>
    (legal_actions N w = panic \<longleftrightarrow> status (game w) = AwaitingAction \<and> game_outcome (game w) = None \<and>
      (\<exists>a \<in> set (offers w). validate_action N w a = panic))"
proof -
  have awaiting: "status (game w) = AwaitingAction \<and> game_outcome (game w) = None" if "validate_action N w a = Inr b" for a b
    using that by (simp add: validate_action_def split: if_splits)
  have eq: "set as = {b. \<exists>a. validate_action N w a = Inr b}" if as: "legal_actions N w = Inr as" for as
  proof (cases "status (game w) = AwaitingAction \<and> game_outcome (game w) = None")
    case True
    then have "accept_offers N w (offers w) = Inr as" using as by (simp add: legal_actions_def)
    then have "set as = {b. \<exists>a \<in> set (offers w). validate_action N w a = Inr b}" using accept_offers_Inr by blast
    then show ?thesis using validated_offered [OF assms] validated_normal_form by blast
  next
    case False
    then have "as = []" using as by (auto simp: legal_actions_def split: if_splits)
    then show ?thesis using False awaiting by auto
  qed
  show ?thesis
  proof (cases "legal_actions N w")
    case (Inl f)
    then have wait: "status (game w) = AwaitingAction \<and> game_outcome (game w) = None"
      and "accept_offers N w (offers w) = Inl f" by (auto simp: legal_actions_def split: if_splits)
    from accept_offers_Inl [OF this(2)] wait show ?thesis unfolding Inl by simp
  next
    case (Inr as)
    have calm: "\<forall>a \<in> set (offers w). validate_action N w a \<noteq> panic"
      if "status (game w) = AwaitingAction" "game_outcome (game w) = None"
    proof -
      have "accept_offers N w (offers w) = Inr as" using that Inr by (simp add: legal_actions_def)
      from accept_offers_Inr [OF this] show ?thesis by (rule conjunct2)
    qed
    have "\<forall>b \<in> set as. validate_action N w b = Inr b"
      unfolding eq [OF Inr] using validated_normal_form by blast
    with calm eq [OF Inr] show ?thesis unfolding Inr sum.case by blast
  qed
qed

theorem legal_actions_are_the_accepted_witness:
  "set [EndTurnAction One, ConcedeAction One] = {b. \<exists>a. validate_action Map.empty (set_status AwaitingAction sample_world) a = Inr b}"
proof -
  let ?w = "set_status AwaitingAction sample_world"
  have "same_places sample_world ?w"
    by (simp add: same_places_def place_of_def set_status_def fun_eq_iff)
  with index_ok_same sample_ok(1) have "zone_ok ?w" by blast
  from legal_actions_are_the_accepted [OF this, of Map.empty] show ?thesis by (simp add: sample_legal)
qed

end
