(* ===== verification/Hs_Determinism.thy ===== *)
theory Hs_Determinism imports Hs_Effects Hs_Death Hs_Sample "HOL-Library.Multiset" begin

text \<open>
  The order of simultaneous triggers does not depend on the order in which the ECS library
  enumerates the entities, and is strict.
\<close>

section \<open>Enumerations\<close>

lemma iter_entities_map:
  assumes "enumerates (ecs_order w)" "finite (dom (ents w))"
  shows "iter_entities w = map (\<lambda>i. (i, the (ents w i))) (ecs_order w (ents w))"
proof -
  have "\<forall>i \<in> set xs. ents w i \<noteq> None \<Longrightarrow>
      List.map_filter (\<lambda>i. map_option (Pair i) (ents w i)) xs = map (\<lambda>i. (i, the (ents w i))) xs" for xs
    by (induction xs) auto
  moreover have "\<forall>i \<in> set (ecs_order w (ents w)). ents w i \<noteq> None"
    using assms unfolding enumerates_def by blast
  ultimately show ?thesis by (simp add: iter_entities_def)
qed

lemma iter_entities_other:
  assumes "enumerates (ecs_order w)" "enumerates order" "finite (dom (ents w))"
  shows "mset (iter_entities (w\<lparr>ecs_order := order\<rparr>)) = mset (iter_entities w)"
proof -
  have "mset (order (ents w)) = mset (ecs_order w (ents w))"
    using assms unfolding enumerates_def by (metis set_eq_iff_mset_eq_distinct)
  then have "mset (map (\<lambda>i. (i, the (ents w i))) (order (ents w))) = mset (map (\<lambda>i. (i, the (ents w i))) (ecs_order w (ents w)))"
    by (simp only: mset_map)
  then show ?thesis using assms iter_entities_map [of "w\<lparr>ecs_order := order\<rparr>"] iter_entities_map [of w] by simp
qed

lemma iter_entities_member: "(i, e) \<in> set (iter_entities w) \<Longrightarrow> ents w i = Some e"
  unfolding iter_entities_def by (induction "ecs_order w (ents w)") (auto split: option.splits simp: List.map_filter_def)

section \<open>Conditions do not see the enumeration\<close>

lemma other_order_simps [simp]:
  "component (w\<lparr>ecs_order := order\<rparr>) f i = component w f i"
  "zone_entities (w\<lparr>ecs_order := order\<rparr>) p z = zone_entities w p z"
  "selected_in_play (w\<lparr>ecs_order := order\<rparr>) p s = selected_in_play w p s"
  by (simp_all add: component_def zone_entities_def selected_in_play_def)

lemma selector_count_other: "selector_count (w\<lparr>ecs_order := order\<rparr>) i p ev s = selector_count w i p ev s"
  by (induction s) (simp_all split: list.split)

lemma condition_other: "evaluate_condition (w\<lparr>ecs_order := order\<rparr>) i p ev c = evaluate_condition w i p ev c"
  by (cases c) (simp_all add: selector_count_other)

lemma eligible_other:
  "trigger_seed_is_eligible (w\<lparr>ecs_order := order\<rparr>) i p d ev time = trigger_seed_is_eligible w i p d ev time"
  by (cases "source_eligibility d") (simp_all add: trigger_seed_is_eligible_def condition_other source_policy_holds_def)

lemma seeds_of_other: "seeds_of (w\<lparr>ecs_order := order\<rparr>) ev = seeds_of w ev"
  unfolding seeds_of_def eligible_other ..

section \<open>Seeds\<close>

definition seed_place :: "trigger_seed \<Rightarrow> game_entity_id \<times> nat" where
  "seed_place s = (seed_source s, seed_index s)"

lemma seeds_of_facts:
  assumes "s \<in> set (seeds_of w ev (i, e))"
  shows "\<exists>ts z p. e_triggers e = Some ts \<and> e_zone e = Some z \<and> e_controller e = Some p \<and> seed_index s < length ts \<and>
    s = \<lparr>seed_source = i, seed_index = seed_index s, seed_definition = ts ! seed_index s, seed_controller = p,
         seed_zone = z, seed_play_order = or_default 0 (e_play_order e)\<rparr>"
  using assms
  by (cases "e_triggers e"; cases "e_zone e"; cases "e_controller e")
    (auto simp: seeds_of_def in_set_enumerate_eq split: if_splits)

definition all_seeds :: "world \<Rightarrow> event_context \<Rightarrow> trigger_seed list" where
  "all_seeds w ev = concat (map (seeds_of w ev) (iter_entities w))"

lemma seed_place_inj: "inj_on seed_place (set (all_seeds w ev))"
proof (rule inj_onI)
  fix s t assume "s \<in> set (all_seeds w ev)" "t \<in> set (all_seeds w ev)" and same: "seed_place s = seed_place t"
  then obtain i e j f where s: "(i, e) \<in> set (iter_entities w)" "s \<in> set (seeds_of w ev (i, e))"
    and t: "(j, f) \<in> set (iter_entities w)" "t \<in> set (seeds_of w ev (j, f))"
    by (auto simp: all_seeds_def)
  from seeds_of_facts [OF s(2)] seeds_of_facts [OF t(2)] same have "i = j"
    unfolding seed_place_def by (metis prod.inject trigger_seed.select_convs(1))
  with iter_entities_member [OF s(1)] iter_entities_member [OF t(1)] have "e = f" by simp
  with \<open>i = j\<close> seeds_of_facts [OF s(2)] seeds_of_facts [OF t(2)] same show "s = t"
    unfolding seed_place_def by (metis option.inject prod.inject)
qed

lemma seed_key_inj: "inj_on seed_key (set (all_seeds w ev))"
  using seed_place_inj by (auto simp: inj_on_def seed_key_def seed_place_def)

lemma all_seeds_other:
  assumes "enumerates (ecs_order w)" "enumerates order" "finite (dom (ents w))"
  shows "mset (all_seeds (w\<lparr>ecs_order := order\<rparr>) ev) = mset (all_seeds w ev)"
proof -
  have "mset (concat (map f xs)) = sum_mset (image_mset (mset \<circ> f) (mset xs))"
    for f :: "game_entity_id \<times> game_entity \<Rightarrow> trigger_seed list" and xs
    by (induction xs) simp_all
  then show ?thesis by (simp add: all_seeds_def seeds_of_other iter_entities_other [OF assms])
qed

lemma collected_seeds: "collect_trigger_seeds w ev = sort_key seed_key (all_seeds w ev)"
  by (simp add: collect_trigger_seeds_def all_seeds_def)

lemma seeds_determined:
  assumes "enumerates (ecs_order w)" "enumerates order" "finite (dom (ents w))"
  shows "collect_trigger_seeds (w\<lparr>ecs_order := order\<rparr>) ev = collect_trigger_seeds w ev"
  unfolding collected_seeds
  by (rule sort_key_inj_key_eq) (simp_all add: all_seeds_other [OF assms] seed_key_inj)

lemma distinct_places_concat:
  assumes "distinct (map fst xs)"
    and "\<And>x. x \<in> set xs \<Longrightarrow> distinct (map seed_place (f x)) \<and> (\<forall>s \<in> set (f x). seed_source s = fst x)"
  shows "distinct (map seed_place (concat (map f xs)))"
  using assms
proof (induction xs)
  case (Cons x xs)
  have "seed_place ` set (f x) \<inter> seed_place ` set (concat (map f xs)) = {}"
  proof -
    have "fst p = fst x" if "p \<in> seed_place ` set (f x)" for p
      using that Cons.prems(2) [of x] by (auto simp: seed_place_def)
    moreover have "fst p \<in> set (map fst xs)" if "p \<in> seed_place ` set (concat (map f xs))" for p
    proof -
      from that obtain y s where "y \<in> set xs" "s \<in> set (f y)" "p = seed_place s" by auto
      with Cons.prems(2) [of y] show ?thesis by (simp add: seed_place_def)
    qed
    moreover have "fst x \<notin> set (map fst xs)" using Cons.prems(1) by simp
    ultimately show ?thesis by (metis disjoint_iff)
  qed
  moreover have "distinct (map seed_place (concat (map f xs)))"
    by (rule Cons.IH) (use Cons.prems in simp_all)
  moreover have "distinct (map seed_place (f x))" using Cons.prems(2) [of x] by simp
  ultimately show ?case by (simp only: list.map concat.simps map_append distinct_append set_map)
qed simp

lemma seeds_of_places: "distinct (map seed_place (seeds_of w ev x)) \<and> (\<forall>s \<in> set (seeds_of w ev x). seed_source s = fst x)"
proof -
  have numbered: "distinct (map (\<lambda>(n, d). (i, n)) (filter P (enumerate k ts)))" for i :: nat and P k and ts :: "trigger_definition list"
    by (induction ts arbitrary: k) (auto simp: in_set_enumerate_eq)
  show ?thesis
    by (cases x) (auto simp: seeds_of_def seed_place_def comp_def case_prod_unfold split: option.split
        intro: numbered [unfolded case_prod_unfold])
qed

lemma distinct_all_seeds:
  assumes "enumerates (ecs_order w)" "finite (dom (ents w))"
  shows "distinct (map seed_place (all_seeds w ev))"
  unfolding all_seeds_def
  by (rule distinct_places_concat)
    (use assms in \<open>simp_all add: iter_entities_map seeds_of_places comp_def enumerates_def\<close>)

section \<open>Candidates\<close>

lemma candidates_determined:
  "collect_trigger_candidates (w\<lparr>ecs_order := order\<rparr>) i ev seeds = collect_trigger_candidates w i ev seeds"
  by (simp add: collect_trigger_candidates_def eligible_other candidate_of_def [abs_def])

lemma candidate_place:
  "snd (snd (snd (snd (order_key (candidate_order (candidate_of w i ev s)))))) = seed_place s"
  by (simp add: order_key_def candidate_of_def Let_def seed_place_def)

lemma candidates_strict:
  assumes "distinct (map seed_place seeds)"
  shows "sorted_wrt (<) (map (order_key \<circ> candidate_order) (collect_trigger_candidates w i ev seeds))"
proof -
  let ?key = "order_key \<circ> candidate_order"
  let ?cs = "map (candidate_of w i ev)
         (filter (\<lambda>s. trigger_seed_is_eligible w (seed_source s) (seed_controller s) (seed_definition s) ev QueueTime) seeds)"
  have "distinct (map (\<lambda>k. snd (snd (snd (snd k)))) (map ?key ?cs))"
    using distinct_map_filter [OF assms] by (simp add: comp_def candidate_place)
  then have "distinct (map ?key ?cs)" by (simp only: distinct_map)
  moreover have "mset (map ?key (sort_key ?key ?cs)) = mset (map ?key ?cs)" by (simp only: mset_map mset_sort)
  ultimately have "distinct (map ?key (sort_key ?key ?cs))" using mset_eq_imp_distinct_iff by blast
  then show ?thesis by (simp add: strict_sorted_iff collect_trigger_candidates_def)
qed

text \<open>C22: the queue of the triggers of an event is determined by the state of the game alone: whatever order
  the ECS library enumerates the entities in, the snapshot holds the same candidates in the same
  order, and that order is strict, so that no two simultaneous triggers are tied.\<close>
theorem trigger_order_is_determined:
  assumes "enumerates (ecs_order w)" "enumerates order" "finite (dom (ents w))"
  shows "collect_trigger_candidates (w\<lparr>ecs_order := order\<rparr>) i ev (collect_trigger_seeds (w\<lparr>ecs_order := order\<rparr>) ev) =
      collect_trigger_candidates w i ev (collect_trigger_seeds w ev) \<and>
    sorted_wrt (<) (map (order_key \<circ> candidate_order) (collect_trigger_candidates w i ev (collect_trigger_seeds w ev)))"
proof -
  have "mset (map seed_place (collect_trigger_seeds w ev)) = mset (map seed_place (all_seeds w ev))"
    by (simp add: collected_seeds)
  then have "distinct (map seed_place (collect_trigger_seeds w ev))"
    using distinct_all_seeds [OF assms(1,3)] mset_eq_imp_distinct_iff by blast
  with candidates_strict show ?thesis by (simp add: candidates_determined seeds_determined [OF assms])
qed

definition ascending :: "entity_table \<Rightarrow> game_entity_id list" where
  "ascending t = sorted_list_of_set (dom t)"

lemma ascending_enumerates: "enumerates ascending" "enumerates (rev \<circ> ascending)"
  by (simp_all add: enumerates_def ascending_def)

theorem trigger_order_is_determined_witness:
  "collect_trigger_candidates (sample_world\<lparr>ecs_order := rev \<circ> ascending\<rparr>) 0 (plain_event TurnEnded None [] One)
       (collect_trigger_seeds (sample_world\<lparr>ecs_order := rev \<circ> ascending\<rparr>) (plain_event TurnEnded None [] One)) =
     collect_trigger_candidates (sample_world\<lparr>ecs_order := ascending\<rparr>) 0 (plain_event TurnEnded None [] One)
       (collect_trigger_seeds (sample_world\<lparr>ecs_order := ascending\<rparr>) (plain_event TurnEnded None [] One))"
proof -
  have "enumerates (ecs_order (sample_world\<lparr>ecs_order := ascending\<rparr>))"
    "finite (dom (ents (sample_world\<lparr>ecs_order := ascending\<rparr>)))"
    by (simp_all add: ascending_enumerates sample_world_def)
  from trigger_order_is_determined [OF this(1) ascending_enumerates(2) this(2)] show ?thesis by simp
qed

section \<open>The trace of defeats\<close>

text \<open>Two heroes that a phase boundary finds mortally wounded together.\<close>

definition doomed_hero :: "player_id \<Rightarrow> game_entity" where
  "doomed_hero p = no_components\<lparr>e_kind := Some Hero, e_controller := Some p, e_zone := Some Play,
     e_pending_destroy := True\<rparr>"

definition doomed_world :: world where
  "doomed_world = (initial_world ascending 7 One)\<lparr>ents := [0 \<mapsto> doomed_hero One, 1 \<mapsto> doomed_hero Two]\<rparr>"

text \<open>
  The entries \<open>HeroDefeated\<close> are in the order in which the library enumerates the heroes: unlike the
  deaths of minions, they are not sorted.
\<close>

theorem defeats_follow_the_enumeration:
  "game_trace (snd ((create_deaths :: unit sim) doomed_world)) = [HeroDefeated 0 One, HeroDefeated 1 Two] \<and>
   game_trace (snd ((create_deaths :: unit sim) (doomed_world\<lparr>ecs_order := rev \<circ> ascending\<rparr>))) =
     [HeroDefeated 1 Two, HeroDefeated 0 One]"
proof -
  have "dom (ents doomed_world) = {0, 1}" by (auto simp: doomed_world_def)
  then have order: "ascending (ents doomed_world) = [0, 1]" by (simp add: ascending_def)
  have at_id: "ents doomed_world 0 = Some (doomed_hero One)" "ents doomed_world (Suc 0) = Some (doomed_hero Two)"
    by (simp_all add: doomed_world_def)
  have "ecs_order doomed_world = ascending" by (simp add: doomed_world_def initial_world_def)
  with order at_id have iter: "iter_entities doomed_world = [(0, doomed_hero One), (1, doomed_hero Two)]"
    "iter_entities (doomed_world\<lparr>ecs_order := rev \<circ> ascending\<rparr>) = [(1, doomed_hero Two), (0, doomed_hero One)]"
    by (simp_all add: iter_entities_def)
  have hero: "e_kind (doomed_hero p) = Some Hero" "e_controller (doomed_hero p) = Some p" "e_zone (doomed_hero p) = Some Play"
    "e_pending_destroy (doomed_hero p)" "e_play_order (doomed_hero p) = None" "e_position (doomed_hero p) = None"
    "e_damage (doomed_hero p) = None" for p
    by (simp_all add: doomed_hero_def no_components_def)
  have "mortally_wounded doomed_world = [(0, 0, One, Hero, or_default 0 (semantic_zone_position doomed_world 0 One Play)),
      (0, 1, Two, Hero, or_default 0 (semantic_zone_position doomed_world 1 Two Play))]"
    "mortally_wounded (doomed_world\<lparr>ecs_order := rev \<circ> ascending\<rparr>) =
      [(0, 1, Two, Hero, or_default 0 (semantic_zone_position (doomed_world\<lparr>ecs_order := rev \<circ> ascending\<rparr>) 1 Two Play)),
       (0, 0, One, Hero, or_default 0 (semantic_zone_position (doomed_world\<lparr>ecs_order := rev \<circ> ascending\<rparr>) 0 One Play))]"
    by (simp_all add: mortally_wounded_def iter wounded_entry_def is_mortally_wounded_def at_id hero)
  moreover have "game_trace doomed_world = []" "defeated_heroes doomed_world = {}"
    by (simp_all add: doomed_world_def initial_world_def)
  ultimately show ?thesis
    by (simp add: create_deaths_def can_die_def defeat_hero_def push_trace_def seq_def bnd_def Let_def)
qed

end
