(* ===== verification/Hs_Step_Theorems.thy ===== *)
theory Hs_Step_Theorems imports Hs_Health Hs_Resolver Hs_Sample begin

text \<open>
  The stack of the resolver is last in, first out, and damage is conserved.
\<close>

section \<open>The stack\<close>

abbreviation pop_each :: "'a list \<Rightarrow> stacked_resolution_op option list sim" where
  "pop_each \<equiv> map_steps (\<lambda>_. pop_resolution_op)"

abbreviation push_each :: "resolution_op list \<Rightarrow> unit sim" where
  "push_each \<equiv> for_all push_op"

lemma push_op_run:
  "(push_op op :: unit sim) w = (if next_resolution_id (work w) < u64_max'
     then (Inr (), w\<lparr>work := (work w)\<lparr>next_resolution_id := next_resolution_id (work w) + 1,
       stack := stack (work w) @ [\<lparr>op_id = next_resolution_id (work w), operation = op\<rparr>]\<rparr>\<rparr>)
     else (panic, w))"
  by (simp add: push_op_def push_resolution_op_def change_work_def Let_def seq_def bnd_def)

lemma push_all:
  "push_each ops w = (Inr u, w') \<Longrightarrow>
    \<exists>new. stack (work w') = stack (work w) @ new \<and> map operation new = ops \<and>
      map op_id new = [next_resolution_id (work w)..<next_resolution_id (work w) + length ops] \<and>
      next_resolution_id (work w') = next_resolution_id (work w) + length ops"
proof (induction ops arbitrary: w)
  case Nil
  then show ?case by auto
next
  case (Cons op ops)
  let ?w = "w\<lparr>work := (work w)\<lparr>next_resolution_id := next_resolution_id (work w) + 1,
       stack := stack (work w) @ [\<lparr>op_id = next_resolution_id (work w), operation = op\<rparr>]\<rparr>\<rparr>"
  have "push_each ops ?w = (Inr u, w')"
  proof (cases "next_resolution_id (work w) < u64_max'")
    case True
    then have "(push_op op :: unit sim) w = (Inr (), ?w)" by (simp add: push_op_run)
    with Cons.prems show ?thesis by simp
  next
    case False
    then have "(push_op op :: unit sim) w = (panic, w)" by (simp add: push_op_run)
    with Cons.prems show ?thesis by simp
  qed
  from Cons.IH [OF this] obtain new where new: "stack (work w') = stack (work ?w) @ new" "map operation new = ops"
    "map op_id new = [next_resolution_id (work ?w)..<next_resolution_id (work ?w) + length ops]"
    "next_resolution_id (work w') = next_resolution_id (work ?w) + length ops"
    by blast
  show ?case
    by (rule exI [of _ "\<lparr>op_id = next_resolution_id (work w), operation = op\<rparr> # new"])
      (use new in \<open>simp add: upt_conv_Cons del: upt_Suc\<close>)
qed

lemma pop_all:
  "stack (work w) = s @ rev ys \<Longrightarrow> length xs = length ys \<Longrightarrow>
    \<exists>w'. pop_each xs w = (Inr (map Some ys), w') \<and> stack (work w') = s"
proof (induction ys arbitrary: xs w)
  case Nil
  then show ?case by simp
next
  case (Cons y ys)
  then obtain x xs' where xs: "xs = x # xs'" by (cases xs) auto
  let ?w = "w\<lparr>work := (work w)\<lparr>stack := s @ rev ys\<rparr>\<rparr>"
  have pop: "(pop_resolution_op :: stacked_resolution_op option sim) w = (Inr (Some y), ?w)"
    using Cons.prems(1) by (simp add: pop_resolution_op_def change_work_def seq_def bnd_def butlast_append)
  have "stack (work ?w) = s @ rev ys" "length xs' = length ys" using Cons.prems(2) xs by simp_all
  from Cons.IH [OF this] obtain w' where
    "pop_each xs' ?w = (Inr (map Some ys), w')" "stack (work w') = s"
    by blast
  with pop xs show ?case by (simp add: bnd_def)
qed

text \<open>The resolution stack is last in, first out: pushing a list of operations and popping as many gives
  the operations in the order of the list and leaves the stack as it was before, and the pushed
  operations get the next identities, in the order of their pushes.\<close>
theorem pushed_operations_pop_in_order:
  assumes "(push_resolution_ops ops :: unit sim) w = (Inr u, w')"
  shows "\<exists>popped w''. pop_each ops w' = (Inr (map Some popped), w'') \<and>
    map operation popped = ops \<and> stack (work w'') = stack (work w) \<and>
    rev (map op_id popped) = [next_resolution_id (work w)..<next_resolution_id (work w) + length ops]"
proof -
  obtain new where new: "stack (work w') = stack (work w) @ new" "map operation new = rev ops"
    "map op_id new = [next_resolution_id (work w)..<next_resolution_id (work w) + length ops]"
    using push_all [of "rev ops" w u w'] assms by (auto simp: push_resolution_ops_def)
  from new(2) have ops: "map operation (rev new) = ops" by (metis rev_map rev_rev_ident)
  then have "length ops = length (rev new)" by (metis length_map)
  moreover have "stack (work w') = stack (work w) @ rev (rev new)" using new(1) by simp
  ultimately obtain w'' where
    "pop_each ops w' = (Inr (map Some (rev new)), w'')" "stack (work w'') = stack (work w)"
    using pop_all by blast
  moreover have "rev (map op_id (rev new)) = map op_id new" by (simp add: rev_map)
  ultimately show ?thesis using ops new(3) by metis
qed

theorem pushed_operations_pop_in_order_witness:
  "\<exists>popped w''. pop_each [CheckOutcome, FinishEvent 3]
      (snd ((push_resolution_ops [CheckOutcome, FinishEvent 3] :: unit sim) sample_world)) = (Inr (map Some popped), w'') \<and>
    map operation popped = [CheckOutcome, FinishEvent 3]"
proof -
  have "(push_resolution_ops [CheckOutcome, FinishEvent 3] :: unit sim) sample_world =
      (Inr (), snd ((push_resolution_ops [CheckOutcome, FinishEvent 3] :: unit sim) sample_world))"
    by (simp add: push_resolution_ops_def push_op_run seq_def bnd_def sample_world_def initial_world_def empty_work_def u64_max'_def)
  then show ?thesis by (rule exE [OF pushed_operations_pop_in_order]) (elim exE conjE, intro exI conjI)
qed

section \<open>Damage\<close>

text \<open>C30: the damage that reaches an entity is split between its armor and its health without loss: armor is
  used up before health, what armor and health take together is the requested amount, at least
  zero, no other component and no other entity changes, and the event reports the whole amount.\<close>
theorem damage_is_conserved:
  assumes e: "ents w (request_target rq) = Some e"
    and armor: "0 \<le> or_default 0 (e_armor e)"
    and room: "proposed rq \<le> 2147483647" "0 \<le> or_default 0 (e_damage e)"
      "or_default 0 (e_damage e) + max 0 (proposed rq) \<le> 2147483647"
    and run: "(reduce_damage rq n :: event_context sim) w = (Inr ev, w')"
  shows "\<exists>a d e'. 0 \<le> a \<and> 0 \<le> d \<and> a + d = max 0 (proposed rq) \<and>
    (0 < d \<longrightarrow> a = or_default 0 (e_armor e)) \<and>
    ents w' = (ents w)(request_target rq \<mapsto> e') \<and>
    or_default 0 (e_armor e') = or_default 0 (e_armor e) - a \<and>
    or_default 0 (e_damage e') = or_default 0 (e_damage e) + d \<and>
    e'\<lparr>e_armor := e_armor e, e_damage := e_damage e\<rparr> = e \<and>
    actual_value ev = Some (max 0 (proposed rq))"
proof -
  let ?i = "request_target rq" and ?amount = "max 0 (proposed rq)"
  let ?a = "min (or_default 0 (e_armor e)) ?amount"
  let ?d = "?amount - ?a"
  let ?e1 = "if 0 < ?a then e\<lparr>e_armor := map_option (\<lambda>x. x - ?a) (e_armor e)\<rparr> else e"
  let ?e2 = "if 0 < ?d then ?e1\<lparr>e_damage := Some (saturate_i32 (or_default 0 (e_damage ?e1) + ?d))\<rparr> else ?e1"
  have d: "in_i32 ?d" "0 \<le> ?d" "0 \<le> ?a" using armor room by (auto simp: in_i32_def min_def)
  have "(ents w)(?i := Some e) = ents w" using e by (simp add: fun_upd_idem)
  with run e d(1) have after: "ents w' = (ents w)(?i \<mapsto> ?e2)" "actual_value ev = Some (saturate_i32 (?a + ?d))"
    by (auto simp: reduce_damage_def Let_def update_def set_entity_def trace_damage_def push_trace_def i32_op_def
        seq_def bnd_def health_event_def split: if_splits)
  have total: "saturate_i32 (?a + ?d) = ?amount" using room(1) by (simp add: saturate_i32_def)
  have kept: "or_default 0 (e_damage e) + ?d \<le> 2147483647" using d(3) room(3) by linarith
  have armor': "or_default 0 (e_armor ?e2) = or_default 0 (e_armor e) - ?a"
    using armor by (cases "e_armor e") auto
  have damage': "or_default 0 (e_damage ?e2) = or_default 0 (e_damage e) + ?d"
    using kept room(2) d by (auto simp: saturate_i32_def)
  have rest: "?e2\<lparr>e_armor := e_armor e, e_damage := e_damage e\<rparr> = e" by simp
  have first: "0 < ?d \<longrightarrow> ?a = or_default 0 (e_armor e)" by (simp add: min_def)
  have whole: "?a + ?d = ?amount" by simp
  show ?thesis
    by (rule exI [of _ ?a], rule exI [of _ ?d], rule exI [of _ ?e2])
      (intro conjI d(2,3) whole first after(1) armor' damage' rest after(2) [unfolded total])
qed

theorem damage_is_conserved_witness:
  "\<exists>ev w'. (reduce_damage \<lparr>request_source = None, request_target = 0, proposed = 2\<rparr> 0 :: event_context sim) sample_world = (Inr ev, w') \<and>
     actual_value ev = Some 2"
proof -
  let ?rq = "\<lparr>request_source = None, request_target = 0, proposed = 2\<rparr> :: health_request"
  have e: "ents sample_world (request_target ?rq) = Some sample_minion"
    "e_armor sample_minion = None" "e_damage sample_minion = Some 0"
    by (simp_all add: sample_world_def sample_minion_def card_entity_def no_components_def card_minion_def)
  have "isl (fst ((reduce_damage ?rq 0 :: event_context sim) sample_world)) = False"
    using e by (simp add: reduce_damage_def Let_def update_def trace_damage_def push_trace_def i32_op_def in_i32_def seq_def bnd_def
        set_entity_def)
  then obtain ev w' where "(reduce_damage ?rq 0 :: event_context sim) sample_world = (Inr ev, w')"
    by (metis isl_def prod.collapse sum.exhaust_sel)
  with damage_is_conserved [OF e(1) _ _ _ _ this] e(2,3) show ?thesis by auto
qed

end
