(* ===== verification/Hs_Checkpoint.thy ===== *)
theory Hs_Checkpoint imports Hs_Engine begin

text \<open>
  Checkpoints (\<open>core/checkpoint.rs\<close>, \<open>simulator/simulation_checkpoint.rs\<close>, \<open>simulator/simulation.rs\<close>):
  the durable state of a simulation as a value that names entities by their logical identities, its
  validation and its restoration into a new world.

  The JSON form is that of the library \<open>serde\<close>; a value of the types here is what it decodes to. A
  checkpoint holds no order of attachment and no zone index: both are built again.
\<close>

section \<open>The data\<close>

record entity_checkpoint =
  cp_id :: game_entity_id
  cp_definition :: "rstring option"
  cp_kind :: "entity_kind option"
  cp_controller :: "player_id option"
  cp_name :: "rstring option"
  cp_play_order :: "nat option"
  cp_base_stats :: "base_stats option"
  cp_base_keywords :: "keyword set option"
  cp_current_stats :: "current_stats option"
  cp_damage :: "int option"
  cp_weapon_state :: "weapon_state option"
  cp_armor :: "int option"
  cp_pending_destroy :: bool
  cp_keywords :: "keyword set option"
  cp_abilities :: "rstring list option"
  cp_enchantments :: "game_entity_id list option"
  cp_attack_state :: "attack_state option"
  cp_hero_class :: "hero_class option"
  cp_hero_power :: "hero_power_state option"
  cp_player :: "player option"
  cp_runtime :: "card_runtime option"
  cp_triggers :: "trigger_definition list option"
  cp_auras :: "aura_definition list option"
  cp_continuous :: "continuous_effect_definition list option"
  cp_silenced :: bool
  cp_keep_enchantments :: bool
  cp_silence_removable :: bool
  cp_stat_modifier :: "stat_modifier option"
  cp_keyword_modifier :: "keyword_modifier option"
  cp_cost_modifier :: "cost_modifier option"
  cp_duration :: "enchantment_duration option"
  cp_health_auras :: "aura_application list option"
  cp_attack_auras :: "aura_application list option"
  cp_other_auras :: "aura_application list option"
  cp_attached_to :: "game_entity_id option"
  cp_death_record :: "death_record option"
  cp_zone :: "zone option"
  cp_position :: "nat option"

definition checkpoint_schema_version :: nat where "checkpoint_schema_version = 17"

text \<open>\<open>CanonicalTrace\<close>: the world of the model keeps the entries, the rule set of a trace is a constant.\<close>

record canonical_trace =
  trace_ruleset :: ruleset_id
  trace_entries :: "trace_entry list"

record simulation_checkpoint =
  schema_version :: nat
  cp_ruleset :: ruleset
  cp_game :: game_state
  cp_turns :: turn_schedule
  cp_weapons :: weapon_equipment
  cp_dominant :: player_id
  cp_next_game_id :: nat
  cp_next_play_order :: nat
  cp_rng :: rng_snapshot
  cp_trace :: canonical_trace
  cp_deaths :: "death_record list"
  cp_pending_deaths :: "death_record list"
  cp_defeated :: "player_id set"
  cp_resolution :: resolution_work
  cp_entities :: "entity_checkpoint list"

section \<open>Capture\<close>

definition capture_entity :: "game_entity_id \<Rightarrow> game_entity \<Rightarrow> entity_checkpoint" where
  "capture_entity i e = \<lparr>
     cp_id = i, cp_definition = e_definition e, cp_kind = e_kind e,
     cp_controller = e_controller e, cp_name = e_name e, cp_play_order = e_play_order e,
     cp_base_stats = e_base e, cp_base_keywords = e_base_keywords e,
     cp_current_stats = e_stats e, cp_damage = e_damage e, cp_weapon_state = e_weapon e,
     cp_armor = e_armor e, cp_pending_destroy = e_pending_destroy e, cp_keywords = e_keywords e,
     cp_abilities = e_abilities e, cp_enchantments = e_enchantments e,
     cp_attack_state = e_attack_state e, cp_hero_class = e_hero_class e,
     cp_hero_power = e_hero_power e, cp_player = e_player e, cp_runtime = e_runtime e,
     cp_triggers = e_triggers e, cp_auras = e_auras e, cp_continuous = e_continuous e,
     cp_silenced = e_silenced e, cp_keep_enchantments = e_keep_enchantments e,
     cp_silence_removable = e_silence_removable e, cp_stat_modifier = e_stat_modifier e,
     cp_keyword_modifier = e_keyword_modifier e, cp_cost_modifier = e_cost_modifier e,
     cp_duration = e_duration e, cp_health_auras = e_health_auras e,
     cp_attack_auras = e_attack_auras e, cp_other_auras = e_other_auras e,
     cp_attached_to = e_attached_to e, cp_death_record = e_death_record e, cp_zone = e_zone e,
     cp_position = e_position e\<rparr>"

text \<open>
  An attachment has to lead to a game entity. \<open>executing\<close> says whether \<open>CurrentResolutionOp\<close> holds an
  operation; the operation is taken out of it before it runs, so it holds none between calls.
\<close>

definition capture_checked :: "world \<Rightarrow> game_entity_id \<times> game_entity \<Rightarrow> (simulation_error, entity_checkpoint) outcome" where
  "capture_checked w = (\<lambda>(i, e).
     if (case e_attached_to e of None \<Rightarrow> False | Some t \<Rightarrow> ents w t = None)
     then err (CheckpointFailed ''attachment targets a non-game entity'')
     else Inr (capture_entity i e))"

definition build_checkpoint :: "bool \<Rightarrow> world \<Rightarrow> (simulation_error, simulation_checkpoint) outcome" where
  "build_checkpoint executing w =
     (if executing then err (CheckpointFailed ''cannot checkpoint while an operation is executing'')
      else and_then (try_map (capture_checked w) (iter_entities w)) (\<lambda>es.
        Inr \<lparr>schema_version = checkpoint_schema_version, cp_ruleset = rules w, cp_game = game w,
          cp_turns = turns w, cp_weapons = equipment w, cp_dominant = dominant_player w,
          cp_next_game_id = next_game_id w, cp_next_play_order = next_play_order w,
          cp_rng = rng_snapshot_of (generator w),
          cp_trace = \<lparr>trace_ruleset = AdvancedRulebook2026_06_26, trace_entries = game_trace w\<rparr>,
          cp_deaths = death_cache w, cp_pending_deaths = pending_deaths w,
          cp_defeated = defeated_heroes w, cp_resolution = work w,
          cp_entities = sort_key cp_id es\<rparr>))"

section \<open>References\<close>

text \<open>The texts of the errors keep their constant part.\<close>

abbreviation check_all :: "('a \<Rightarrow> ('e, unit) outcome) \<Rightarrow> 'a list \<Rightarrow> ('e, unit) outcome" where
  "check_all f xs \<equiv> try_fold (\<lambda>_. f) () xs"

type_synonym check = "(simulation_error, unit) outcome"

definition validate_entity_reference :: "game_entity_id set \<Rightarrow> game_entity_id \<Rightarrow> check" where
  "validate_entity_reference ids i =
     (if i \<notin> ids then err (CheckpointFailed ''references missing logical entity'') else Inr ())"

definition optional_reference :: "game_entity_id set \<Rightarrow> game_entity_id option \<Rightarrow> check" where
  "optional_reference ids x = (case x of None \<Rightarrow> Inr () | Some i \<Rightarrow> validate_entity_reference ids i)"

definition validate_counter_reference :: "nat \<Rightarrow> nat \<Rightarrow> check" where
  "validate_counter_reference i next =
     (if next \<le> i then err (CheckpointFailed ''ID is not below next ID'') else Inr ())"

definition validate_next_counter :: "nat \<Rightarrow> nat list \<Rightarrow> check" where
  "validate_next_counter next retained =
     (if retained \<noteq> [] \<and> next \<le> Max (set retained)
      then err (CheckpointFailed ''next ID does not exceed highest retained ID'') else Inr ())"

definition validate_event_reference :: "resolution_work \<Rightarrow> event_id \<Rightarrow> check" where
  "validate_event_reference r i =
     and_then (validate_counter_reference i (next_event_id r)) (\<lambda>_.
     if \<not> bt_contains (events r) i then err (CheckpointFailed ''missing prepared event'') else Inr ())"

definition validate_event_slot_reference :: "resolution_work \<Rightarrow> event_slot_id \<Rightarrow> check" where
  "validate_event_slot_reference r i =
     and_then (validate_counter_reference i (next_event_slot_id r)) (\<lambda>_.
     if \<not> bt_contains (event_slots r) i then err (CheckpointFailed ''missing prepared event slot'') else Inr ())"

definition validate_draw_slot_reference :: "resolution_work \<Rightarrow> draw_result_slot_id \<Rightarrow> check" where
  "validate_draw_slot_reference r i =
     and_then (validate_counter_reference i (next_draw_result_slot_id r)) (\<lambda>_.
     if \<not> bt_contains (draw_result_slots r) i then err (CheckpointFailed ''missing draw result slot'') else Inr ())"

primrec validate_selector_references :: "game_entity_id set \<Rightarrow> selector \<Rightarrow> check" where
  "validate_selector_references ids (TheEntity i) = validate_entity_reference ids i"
| "validate_selector_references ids (Random s) = validate_selector_references ids s"
| "validate_selector_references ids SourceEntity = Inr ()"
| "validate_selector_references ids DrawnCard = Inr ()"
| "validate_selector_references ids AttachedEntity = Inr ()"
| "validate_selector_references ids DeclaredTarget = Inr ()"
| "validate_selector_references ids FriendlyMinions = Inr ()"
| "validate_selector_references ids EnemyMinions = Inr ()"
| "validate_selector_references ids AllMinions = Inr ()"
| "validate_selector_references ids FriendlyCharacters = Inr ()"
| "validate_selector_references ids EnemyCharacters = Inr ()"
| "validate_selector_references ids AllCharacters = Inr ()"
| "validate_selector_references ids (InZone _ _) = Inr ()"

definition condition_references :: "game_entity_id set \<Rightarrow> timed_condition \<Rightarrow> check" where
  "condition_references ids c =
     (case condition c of MinimumEntityCount s _ \<Rightarrow> validate_selector_references ids s | _ \<Rightarrow> Inr ())"

fun effect_references :: "game_entity_id set \<Rightarrow> effect \<Rightarrow> check"
  and validate_effect_references :: "game_entity_id set \<Rightarrow> effect list \<Rightarrow> check"
  and choice_references :: "game_entity_id set \<Rightarrow> effect_choice_option list \<Rightarrow> check"
  and validate_trigger_definition_references :: "game_entity_id set \<Rightarrow> trigger_definition \<Rightarrow> check"
  and validate_trigger_references :: "game_entity_id set \<Rightarrow> trigger_definition list \<Rightarrow> check"
  and validate_card_references :: "game_entity_id set \<Rightarrow> card \<Rightarrow> check"
  and replacement_references :: "game_entity_id set \<Rightarrow> hero_replacement \<Rightarrow> check"
where
  "effect_references ids (DealDamage s _) = validate_selector_references ids s"
| "effect_references ids (Heal s _) = validate_selector_references ids s"
| "effect_references ids (Destroy s) = validate_selector_references ids s"
| "effect_references ids (Move s _ _ _) = validate_selector_references ids s"
| "effect_references ids (AttachStatModifier s _ _) = validate_selector_references ids s"
| "effect_references ids (AttachKeywordModifier s _ _) = validate_selector_references ids s"
| "effect_references ids (AttachCostModifier s _ _) = validate_selector_references ids s"
| "effect_references ids (AttachContinuousEffect s _ _ _) = validate_selector_references ids s"
| "effect_references ids (Silence s) = validate_selector_references ids s"
| "effect_references ids (Copy s _ _ _) = validate_selector_references ids s"
| "effect_references ids (AttachTriggerEnchantment s ts _ _) =
     and_then (validate_selector_references ids s) (\<lambda>_. validate_trigger_references ids ts)"
| "effect_references ids (Transform s c _) =
     and_then (validate_selector_references ids s) (\<lambda>_. validate_card_references ids c)"
| "effect_references ids (Choose _ _ opts) = choice_references ids opts"
| "effect_references ids (DrawThen _ es _) = validate_effect_references ids es"
| "effect_references ids (Sequence es) = validate_effect_references ids es"
| "effect_references ids (ReplaceHero _ r) = replacement_references ids r"
| "effect_references ids (Summon _ c _) = validate_card_references ids c"
| "effect_references ids (ModifyEventValue _ _) = Inr ()"
| "effect_references ids (Draw _ _) = Inr ()"
| "effect_references ids (GainResource _ _ _) = Inr ()"
| "effect_references ids (ScheduleExtraTurns _ _ _) = Inr ()"
| "effect_references ids (Native _) = Inr ()"
| "validate_effect_references ids [] = Inr ()"
| "validate_effect_references ids (e # es) =
     and_then (effect_references ids e) (\<lambda>_. validate_effect_references ids es)"
| "choice_references ids [] = Inr ()"
| "choice_references ids (EffectChoiceOption _ es # opts) =
     and_then (validate_effect_references ids es) (\<lambda>_. choice_references ids opts)"
| "validate_trigger_definition_references ids (TriggerDefinition _ _ cs _ _ _ es) =
     and_then (check_all (condition_references ids) cs) (\<lambda>_. validate_effect_references ids es)"
| "validate_trigger_references ids [] = Inr ()"
| "validate_trigger_references ids (t # ts) =
     and_then (validate_trigger_definition_references ids t) (\<lambda>_. validate_trigger_references ids ts)"
| "validate_card_references ids (Card _ _ _ _ _ _ _ _ es ts _ _ _) =
     and_then (validate_effect_references ids es) (\<lambda>_. validate_trigger_references ids ts)"
| "replacement_references ids (HeroReplacement h p _ _ _ wp) =
     and_then (validate_card_references ids h) (\<lambda>_.
     and_then (validate_card_references ids p) (\<lambda>_.
     case wp of None \<Rightarrow> Inr () | Some c \<Rightarrow> validate_card_references ids c))"

definition validate_event_context_references :: "game_entity_id set \<Rightarrow> event_context \<Rightarrow> check" where
  "validate_event_context_references ids c =
     and_then (optional_reference ids (event_source c)) (\<lambda>_.
     check_all (validate_entity_reference ids) (event_targets c))"

definition validate_effect_context_references :: "game_entity_id set \<Rightarrow> effect_context \<Rightarrow> check" where
  "validate_effect_context_references ids c =
     check_all (optional_reference ids) [source c, declared_target c, drawn_card c]"

definition validate_damage_references :: "game_entity_id set \<Rightarrow> health_request \<Rightarrow> check" where
  "validate_damage_references ids rq =
     and_then (optional_reference ids (request_source rq)) (\<lambda>_. validate_entity_reference ids (request_target rq))"

definition seed_references :: "game_entity_id set \<Rightarrow> trigger_seed \<Rightarrow> check" where
  "seed_references ids s =
     and_then (validate_entity_reference ids (seed_source s)) (\<lambda>_.
     validate_trigger_definition_references ids (seed_definition s))"

definition validate_trigger_candidate_references ::
  "game_entity_id set \<Rightarrow> resolution_work \<Rightarrow> trigger_candidate \<Rightarrow> check" where
  "validate_trigger_candidate_references ids r c =
     and_then (validate_entity_reference ids (candidate_source c)) (\<lambda>_.
     and_then (validate_entity_reference ids (order_source (candidate_order c))) (\<lambda>_.
     and_then (validate_event_reference r (candidate_event c)) (\<lambda>_.
     validate_trigger_definition_references ids (candidate_definition c))))"

fun validate_sequence_step_references :: "game_entity_id set \<Rightarrow> sequence_step \<Rightarrow> check" where
  "validate_sequence_step_references ids (PlayCard _ c target _) =
     and_then (validate_entity_reference ids c) (\<lambda>_. optional_reference ids target)"
| "validate_sequence_step_references ids (UseHeroPower _ p target) =
     and_then (validate_entity_reference ids p) (\<lambda>_. optional_reference ids target)"
| "validate_sequence_step_references ids (FinishHeroPower p) = validate_entity_reference ids p"
| "validate_sequence_step_references ids (BreakAttackStealth a) = validate_entity_reference ids a"
| "validate_sequence_step_references ids (FinishEquip x) = validate_entity_reference ids x"
| "validate_sequence_step_references ids (ConsumeDurability _ x) = validate_entity_reference ids x"
| "validate_sequence_step_references ids (PrepareCombatDamage _ a d) =
     and_then (validate_entity_reference ids a) (\<lambda>_. validate_entity_reference ids d)"
| "validate_sequence_step_references ids (Attack _ a d) =
     and_then (validate_entity_reference ids a) (\<lambda>_. validate_entity_reference ids d)"
| "validate_sequence_step_references ids (FinishAttack _ a d) =
     and_then (validate_entity_reference ids a) (\<lambda>_. validate_entity_reference ids d)"
| "validate_sequence_step_references ids _ = Inr ()"

fun validate_resolution_operation_references ::
    "game_entity_id set \<Rightarrow> resolution_work \<Rightarrow> resolution_op \<Rightarrow> check"
  and validate_choice_references :: "game_entity_id set \<Rightarrow> resolution_work \<Rightarrow> choice_request \<Rightarrow> check"
  and option_references :: "game_entity_id set \<Rightarrow> resolution_work \<Rightarrow> choice_option list \<Rightarrow> check"
  and branch_references :: "game_entity_id set \<Rightarrow> resolution_work \<Rightarrow> resolution_op list \<Rightarrow> check"
where
  "validate_resolution_operation_references ids r (RunSequenceStep st) = validate_sequence_step_references ids st"
| "validate_resolution_operation_references ids r (RunGuardedSequenceStep gs st) =
     and_then (check_all (validate_entity_reference ids \<circ> guard_subject) gs) (\<lambda>_.
     validate_sequence_step_references ids st)"
| "validate_resolution_operation_references ids r (RunPhaseBoundary _) = Inr ()"
| "validate_resolution_operation_references ids r CheckOutcome = Inr ()"
| "validate_resolution_operation_references ids r (RefreshAuras p) =
     (case p of SummonRefresh \<Rightarrow> Inr () | PlayedProvider i \<Rightarrow> validate_entity_reference ids i)"
| "validate_resolution_operation_references ids r (PrepareEvent c) = validate_event_context_references ids c"
| "validate_resolution_operation_references ids r (ResolveEvent i) = validate_event_reference r i"
| "validate_resolution_operation_references ids r (FinishEvent i) = validate_event_reference r i"
| "validate_resolution_operation_references ids r (ResolveEventSlot i) = validate_event_slot_reference r i"
| "validate_resolution_operation_references ids r (AttemptTrigger c) = validate_trigger_candidate_references ids r c"
| "validate_resolution_operation_references ids r (FinishTrigger attempt i) =
     and_then (validate_counter_reference attempt (next_resolution_id r)) (\<lambda>_. validate_entity_reference ids i)"
| "validate_resolution_operation_references ids r (RunPlayEffect _ c e) =
     and_then (validate_effect_context_references ids c) (\<lambda>_. validate_effect_references ids [e])"
| "validate_resolution_operation_references ids r (RunEffect c e event) =
     and_then (validate_effect_context_references ids c) (\<lambda>_.
     and_then (validate_effect_references ids [e]) (\<lambda>_.
     case event of None \<Rightarrow> Inr () | Some i \<Rightarrow> validate_event_reference r i))"
| "validate_resolution_operation_references ids r (ProcessDamageBatch rqs) = check_all (validate_damage_references ids) rqs"
| "validate_resolution_operation_references ids r (ProcessHealingBatch rqs) = check_all (validate_damage_references ids) rqs"
| "validate_resolution_operation_references ids r (ProcessDamage rq slot _) =
     and_then (validate_damage_references ids rq) (\<lambda>_. validate_event_slot_reference r slot)"
| "validate_resolution_operation_references ids r (ProcessHealing rq slot _) =
     and_then (validate_damage_references ids rq) (\<lambda>_. validate_event_slot_reference r slot)"
| "validate_resolution_operation_references ids r (ApplyDamage rq event slot _) =
     and_then (validate_damage_references ids rq) (\<lambda>_.
     and_then (validate_event_reference r event) (\<lambda>_. validate_event_slot_reference r slot))"
| "validate_resolution_operation_references ids r (ApplyHealing rq event slot _) =
     and_then (validate_damage_references ids rq) (\<lambda>_.
     and_then (validate_event_reference r event) (\<lambda>_. validate_event_slot_reference r slot))"
| "validate_resolution_operation_references ids r (ProcessDraw rq) =
     and_then (optional_reference ids (draw_source rq)) (\<lambda>_. validate_draw_slot_reference r (draw_slot rq))"
| "validate_resolution_operation_references ids r (FinishDraw slot) = validate_draw_slot_reference r slot"
| "validate_resolution_operation_references ids r (ContinueDraw slot c es _) =
     and_then (validate_draw_slot_reference r slot) (\<lambda>_.
     and_then (validate_effect_context_references ids c) (\<lambda>_. validate_effect_references ids es))"
| "validate_resolution_operation_references ids r (TransformEntity _ target by c _) =
     and_then (validate_entity_reference ids target) (\<lambda>_.
     and_then (optional_reference ids by) (\<lambda>_. validate_card_references ids c))"
| "validate_resolution_operation_references ids r (FinishPlayedSelfTransform subject seeds) =
     and_then (validate_entity_reference ids subject) (\<lambda>_. check_all (seed_references ids) seeds)"
| "validate_resolution_operation_references ids r (CopyEntity rq) = optional_reference ids (originating_source rq)"
| "validate_resolution_operation_references ids r (RequestChoice rq) = validate_choice_references ids r rq"
| "validate_choice_references ids r (ChoiceRequest _ _ opts) = option_references ids r opts"
| "option_references ids r [] = Inr ()"
| "option_references ids r (ChoiceOption _ ops # opts) =
     and_then (branch_references ids r ops) (\<lambda>_. option_references ids r opts)"
| "branch_references ids r [] = Inr ()"
| "branch_references ids r (op # ops) =
     and_then (validate_resolution_operation_references ids r op) (\<lambda>_. branch_references ids r ops)"

section \<open>Validation of the work\<close>

definition draw_slot_check :: "game_entity_id set \<Rightarrow> resolution_work \<Rightarrow> draw_result_slot_id \<times> draw_outcome option \<Rightarrow> check" where
  "draw_slot_check ids r = (\<lambda>(slot, result).
     and_then (validate_counter_reference slot (next_draw_result_slot_id r)) (\<lambda>_.
     case result of
       Some (Drawn i) \<Rightarrow> validate_entity_reference ids i
     | Some (Burned i) \<Rightarrow> validate_entity_reference ids i
     | _ \<Rightarrow> Inr ()))"

definition pending_transform_check :: "game_entity_id set \<Rightarrow> resolution_work \<Rightarrow> game_entity_id \<Rightarrow> check" where
  "pending_transform_check ids r i =
     and_then (validate_entity_reference ids i) (\<lambda>_.
     if \<not> list_ex (\<lambda>(_, subject). subject = i) (play_scopes r)
     then err (CheckpointFailed ''pending played-self transform has no retained finish barrier'') else Inr ())"

definition event_check :: "game_entity_id set \<Rightarrow> resolution_work \<Rightarrow> prepared_event \<Rightarrow> check" where
  "event_check ids r e =
     and_then (validate_event_context_references ids (event_context e)) (\<lambda>_.
     and_then (check_all (seed_references ids) (or_default [] (prechecked_triggers e))) (\<lambda>_.
     check_all (validate_trigger_candidate_references ids r) (or_default [] (candidates e))))"

text \<open>The walk over the play scopes: the state is the set of subjects seen.\<close>

definition play_scope_check :: "game_entity_id set \<Rightarrow> resolution_work \<Rightarrow> game_entity_id list \<Rightarrow>
    resolution_id \<times> game_entity_id \<Rightarrow> (simulation_error, game_entity_id list) outcome" where
  "play_scope_check ids r subjects = (\<lambda>(scope, subject).
     and_then (validate_counter_reference scope (next_resolution_id r)) (\<lambda>_.
     and_then (validate_entity_reference ids subject) (\<lambda>_.
     if subject \<in> set subjects then err (CheckpointFailed ''duplicate play scope subject'')
     else Inr (subject # subjects))))"

text \<open>
  One operation of the walk in execution order, with the scopes that are still live.
\<close>

definition scope_walk :: "game_entity_id set \<Rightarrow> resolution_work \<Rightarrow> (resolution_id, game_entity_id) btree_map \<Rightarrow>
    stacked_resolution_op \<Rightarrow> (simulation_error, (resolution_id, game_entity_id) btree_map) outcome" where
  "scope_walk ids r scopes s =
     and_then (validate_resolution_operation_references ids r (operation s)) (\<lambda>_.
     case operation s of
       RunPlayEffect scope c _ \<Rightarrow>
         if bt_get scopes scope \<noteq> source c \<or> source c = None
         then err (InvalidTransformation ''play effect references an absent or completed scope'') else Inr scopes
     | TransformEntity (Some scope) target _ _ _ \<Rightarrow>
         if bt_get scopes scope \<noteq> Some target
         then err (InvalidTransformation ''transformation references an absent or completed scope'') else Inr scopes
     | FinishPlayedSelfTransform subject _ \<Rightarrow>
         if bt_get scopes (op_id s) \<noteq> Some subject
         then err (CheckpointFailed ''play completion does not own its scope'') else Inr (bt_remove (op_id s) scopes)
     | _ \<Rightarrow> Inr scopes)"

definition validate_resolution_work :: "game_entity_id set \<Rightarrow> resolution_work \<Rightarrow> check" where
  "validate_resolution_work ids r =
     and_then (check_all (draw_slot_check ids r) (draw_result_slots r)) (\<lambda>_.
     and_then (check_all (pending_transform_check ids r) (sorted_list_of_set (pending_played_self_transforms r))) (\<lambda>_.
     and_then (check_all (event_check ids r \<circ> snd) (events r)) (\<lambda>_.
     and_then (check_all (\<lambda>(_, event). case event of None \<Rightarrow> Inr () | Some i \<Rightarrow> validate_event_reference r i) (event_slots r)) (\<lambda>_.
     and_then (try_fold (play_scope_check ids r) [] (play_scopes r)) (\<lambda>_.
     and_then (try_fold (scope_walk ids r) (play_scopes r) (rev (stack r))) (\<lambda>scopes.
     if scopes \<noteq> [] then err (CheckpointFailed ''play scope has no retained finish barrier'')
     else case pending_choice r of None \<Rightarrow> Inr () | Some rq \<Rightarrow> validate_choice_references ids r rq))))))"

section \<open>Validation of the entities\<close>

definition no_payload :: "entity_checkpoint \<Rightarrow> bool" where
  "no_payload e \<longleftrightarrow> cp_stat_modifier e = None \<and> cp_keyword_modifier e = None \<and> cp_cost_modifier e = None \<and>
     cp_triggers e = None \<and> cp_continuous e = None"

definition bad_weapon :: "entity_checkpoint \<Rightarrow> bool" where
  "bad_weapon e \<longleftrightarrow> (cp_kind e = Some Weapon) \<noteq> (cp_weapon_state e \<noteq> None) \<or>
     (case cp_weapon_state e of None \<Rightarrow> False
      | Some s \<Rightarrow> base_durability s \<le> 0 \<or> durability s < 0 \<or> base_durability s < durability s)"

definition validate_enchantment :: "entity_checkpoint \<Rightarrow> check" where
  "validate_enchantment e =
     (if cp_kind e \<noteq> Some Enchantment then Inr ()
      else if cp_duration e = None then err (CheckpointFailed ''enchantment lacks enchantment duration'')
      else if cp_attached_to e \<noteq> None \<and> cp_zone e \<noteq> Some Play
      then err (CheckpointFailed ''attached enchantment is not in Play'')
      else if cp_zone e = Some Play \<and> cp_attached_to e = None
      then err (CheckpointFailed ''in-Play enchantment lacks an attachment target'')
      else if cp_attached_to e \<noteq> None \<and> cp_play_order e = None
      then err (CheckpointFailed ''attached enchantment lacks play order'')
      else if cp_attached_to e \<noteq> None \<and> (cp_definition e = None \<or> cp_name e = None)
      then err (CheckpointFailed ''attached enchantment lacks required identity data'')
      else if cp_attached_to e \<noteq> None \<and> no_payload e
      then err (CheckpointFailed ''attached enchantment lacks a supported payload'')
      else Inr ())"

definition retained_providers :: "entity_checkpoint \<Rightarrow> game_entity_id list" where
  "retained_providers e = map provider (or_default [] (cp_health_auras e) @ or_default [] (cp_attack_auras e) @
     or_default [] (cp_other_auras e))"

definition validate_checkpoint_entity :: "game_entity_id set \<Rightarrow> entity_checkpoint \<Rightarrow> check" where
  "validate_checkpoint_entity ids e =
     (if bad_weapon e then err (CheckpointFailed ''invalid weapon state'')
      else and_then (validate_enchantment e) (\<lambda>_.
      if cp_zone e \<noteq> None \<and> (cp_controller e = None \<or> cp_position e = None)
      then err (CheckpointFailed ''zoned entity lacks a controller or position'')
      else if (case cp_attached_to e of None \<Rightarrow> False | Some t \<Rightarrow> t \<notin> ids)
      then err (CheckpointFailed ''entity has a missing attachment target'')
      else if list_ex (\<lambda>i. i \<notin> ids) (or_default [] (cp_enchantments e))
      then err (CheckpointFailed ''entity references a missing enchantment'')
      else if list_ex (\<lambda>i. i \<notin> ids) (retained_providers e)
      then err (CheckpointFailed ''entity references missing aura provider'')
      else
      and_then (case cp_runtime e of None \<Rightarrow> Inr () | Some rt \<Rightarrow> validate_effect_references ids (program rt)) (\<lambda>_.
      case cp_triggers e of None \<Rightarrow> Inr () | Some ts \<Rightarrow> validate_trigger_references ids ts)))"

definition attached_costs :: "entity_checkpoint list \<Rightarrow> game_entity_id \<Rightarrow> (nat option \<times> game_entity_id \<times> cost_modifier) list" where
  "attached_costs es target = List.map_filter (\<lambda>e.
     if cp_attached_to e = Some target then map_option (\<lambda>m. (cp_play_order e, cp_id e, m)) (cp_cost_modifier e)
     else None) es"

definition cost_check :: "entity_checkpoint list \<Rightarrow> entity_checkpoint \<Rightarrow> check" where
  "cost_check es target =
     (case cp_runtime target of None \<Rightarrow> Inr ()
      | Some rt \<Rightarrow>
          let modifiers = attached_costs es (cp_id target) in
          if list_ex (\<lambda>(order, _, _). order = None) modifiers
          then err (CheckpointFailed ''cost modifier lacks play order'')
          else
          let sorted_modifiers = sort_key (\<lambda>(order, i, _). (or_default 0 order, i)) modifiers;
              applied = filter (\<lambda>(_, _, m). \<not> (cp_silenced target \<and> cost_silence_removable m)) sorted_modifiers
          in if fold (\<lambda>(_, _, m). apply_cost m) applied (base_cost rt) \<noteq> cost rt
             then err (CheckpointFailed ''entity has inconsistent effective cost'') else Inr ())"

definition validate_checkpoint_costs :: "entity_checkpoint list \<Rightarrow> check" where
  "validate_checkpoint_costs es = check_all (cost_check es) es"

definition active_of :: "entity_checkpoint list \<Rightarrow> player_id \<Rightarrow> entity_kind \<Rightarrow> entity_checkpoint list" where
  "active_of es p k = filter (\<lambda>e. cp_kind e = Some k \<and> cp_controller e = Some p \<and> cp_zone e = Some Play) es"

definition role_check :: "entity_checkpoint list \<Rightarrow> player_id \<Rightarrow> check" where
  "role_check es p =
     (let bad_player = (case filter (\<lambda>e. map_option player_identity (cp_player e) = Some p) es of
            [e] \<Rightarrow> cp_kind e \<noteq> Some PlayerKind \<or> cp_controller e \<noteq> Some p | _ \<Rightarrow> True);
          bad_hero = (case active_of es p Hero of
            [e] \<Rightarrow> cp_current_stats e = None \<or> cp_damage e = None \<or> cp_armor e = None \<or>
                   cp_attack_state e = None \<or> cp_hero_class e = None | _ \<Rightarrow> True);
          bad_power = (case active_of es p HeroPower of
            [e] \<Rightarrow> cp_hero_power e = None \<or> cp_runtime e = None | _ \<Rightarrow> True)
      in if bad_player then err (CheckpointFailed ''player must have exactly one valid Player entity'')
         else if bad_hero then err (CheckpointFailed ''player must have exactly one valid active Hero'')
         else if bad_power then err (CheckpointFailed ''player must have exactly one valid active Hero Power'')
         else Inr ())"

definition validate_checkpoint_player_roles :: "entity_checkpoint list \<Rightarrow> check" where
  "validate_checkpoint_player_roles es = check_all (role_check es) all_players"

definition checkpoint_ids :: "simulation_checkpoint \<Rightarrow> game_entity_id set" where
  "checkpoint_ids c = set (map cp_id (cp_entities c))"

definition validate_checkpoint :: "simulation_checkpoint \<Rightarrow> check" where
  "validate_checkpoint c =
     (let r = cp_resolution c; es = cp_entities c; ids = checkpoint_ids c in
      if schema_version c \<noteq> checkpoint_schema_version then err (CheckpointFailed ''unsupported checkpoint schema version'')
      else if rulebook_revision (cp_ruleset c) \<noteq> supported_revision
      then err (CheckpointFailed ''unsupported rulebook revision'')
      else if trace_ruleset (cp_trace c) \<noteq> ruleset_identity (cp_ruleset c)
      then err (CheckpointFailed ''trace and checkpoint rulesets disagree'')
      else
      and_then (validate_next_counter (next_resolution_id r) (map op_id (stack r))) (\<lambda>_.
      and_then (validate_next_counter (next_event_id r) (map fst (events r))) (\<lambda>_.
      and_then (validate_next_counter (next_event_slot_id r) (map fst (event_slots r))) (\<lambda>_.
      and_then (validate_next_counter (next_draw_result_slot_id r) (map fst (draw_result_slots r))) (\<lambda>_.
      if card ids \<noteq> length es then err (CheckpointFailed ''checkpoint contains duplicate logical entity IDs'')
      else if ids \<noteq> {} \<and> cp_next_game_id c \<le> Max ids
      then err (CheckpointFailed ''next logical entity ID does not exceed existing IDs'')
      else
      and_then (validate_next_counter (cp_next_play_order c) (List.map_filter cp_play_order es)) (\<lambda>_.
      and_then (check_all (validate_checkpoint_entity ids) es) (\<lambda>_.
      and_then (validate_resolution_work ids r) (\<lambda>_.
      and_then (validate_checkpoint_costs es) (\<lambda>_.
      validate_checkpoint_player_roles es)))))))))"

section \<open>Restoration\<close>

text \<open>
  A field that is present is inserted into the new entity; zone, position and attachment follow later.
\<close>

definition restored_entity :: "entity_checkpoint \<Rightarrow> game_entity" where
  "restored_entity c = no_components\<lparr>
     e_definition := cp_definition c, e_kind := cp_kind c, e_controller := cp_controller c,
     e_name := cp_name c, e_play_order := cp_play_order c, e_base := cp_base_stats c,
     e_base_keywords := cp_base_keywords c, e_stats := cp_current_stats c,
     e_damage := cp_damage c, e_weapon := cp_weapon_state c, e_armor := cp_armor c,
     e_pending_destroy := cp_pending_destroy c, e_keywords := cp_keywords c,
     e_abilities := cp_abilities c, e_enchantments := cp_enchantments c,
     e_attack_state := cp_attack_state c, e_hero_class := cp_hero_class c,
     e_hero_power := cp_hero_power c, e_player := cp_player c, e_runtime := cp_runtime c,
     e_triggers := cp_triggers c, e_auras := cp_auras c, e_continuous := cp_continuous c,
     e_silenced := cp_silenced c, e_keep_enchantments := cp_keep_enchantments c,
     e_silence_removable := cp_silence_removable c, e_stat_modifier := cp_stat_modifier c,
     e_keyword_modifier := cp_keyword_modifier c, e_cost_modifier := cp_cost_modifier c,
     e_duration := cp_duration c, e_health_auras := cp_health_auras c,
     e_attack_auras := cp_attack_auras c, e_other_auras := cp_other_auras c,
     e_death_record := cp_death_record c\<rparr>"

definition install_resources :: "simulation_checkpoint \<Rightarrow> deterministic_rng \<Rightarrow> world \<Rightarrow> world" where
  "install_resources c g w = w\<lparr>rules := cp_ruleset c, game := cp_game c, turns := cp_turns c,
     equipment := cp_weapons c, dominant_player := cp_dominant c, next_game_id := cp_next_game_id c,
     next_play_order := cp_next_play_order c, generator := g, game_trace := trace_entries (cp_trace c),
     death_cache := cp_deaths c, pending_deaths := cp_pending_deaths c, defeated_heroes := cp_defeated c,
     work := cp_resolution c\<rparr>"

definition restore_entity_components :: "entity_checkpoint \<Rightarrow> ('e, unit) step" where
  "restore_entity_components c = spawn (cp_id c) (restored_entity c)"

fun zone_number :: "zone \<Rightarrow> nat" where
  "zone_number Deck = 0"
| "zone_number Hand = 1"
| "zone_number Play = 2"
| "zone_number SecretZone = 3"
| "zone_number Graveyard = 4"
| "zone_number SetAside = 5"
| "zone_number RemovedFromGame = 6"

type_synonym zoned_place = "player_id \<times> zone \<times> nat \<times> game_entity_id"

definition zoned_entity :: "entity_checkpoint \<Rightarrow> zone \<Rightarrow> (simulation_error, zoned_place) outcome" where
  "zoned_entity e z =
     and_then (expect (cp_controller e)) (\<lambda>p.
     and_then (expect (cp_position e)) (\<lambda>n. Inr (p, z, n, cp_id e)))"

definition zoned_entities :: "entity_checkpoint list \<Rightarrow> (simulation_error, zoned_place list) outcome" where
  "zoned_entities es = map_sum id (sort_key (\<lambda>(p, z, n, i). (player_index p, zone_number z, n, i)))
     (try_map (\<lambda>(e, z). zoned_entity e z) (List.map_filter (\<lambda>e. map_option (Pair e) (cp_zone e)) es))"

text \<open>The library refuses a relation of an entity to itself, and removes it.\<close>

definition restore_relationship :: "entity_checkpoint \<Rightarrow> unit sim" where
  "restore_relationship c = unless_none (cp_attached_to c) (\<lambda>target. ask (\<lambda>w.
     if ents w (cp_id c) = None then fail (CheckpointFailed ''missing entity'')
     else if ents w target = None then fail (CheckpointFailed ''missing attachment target'')
     else if target = cp_id c then ret ()
     else attach (cp_id c) target))"

definition event_programs :: "native_effects \<Rightarrow> prepared_event \<Rightarrow> check" where
  "event_programs N e =
     and_then (check_all (\<lambda>s. validate_effect_program N (effect_program (seed_definition s))
         (Some (trigger_event (seed_definition s)))) (or_default [] (prechecked_triggers e))) (\<lambda>_.
     check_all (\<lambda>c. validate_effect_program N (effect_program (candidate_definition c))
         (Some (trigger_event (candidate_definition c)))) (or_default [] (candidates e)))"

definition validate_restored_programs :: "native_effects \<Rightarrow> world \<Rightarrow> check" where
  "validate_restored_programs N w =
     and_then (check_all (\<lambda>(_, e). case e_triggers e of
         Some ts \<Rightarrow> if e_kind e = Some Enchantment then validate_trigger_enchantment N ts else Inr ()
       | None \<Rightarrow> Inr ()) (iter_entities w)) (\<lambda>_.
     and_then (map_err (map_failure CheckpointFailed) (validate_durability_payers (work w))) (\<lambda>_.
     and_then (check_all (\<lambda>(scope, subject). validate_play_scope w scope subject) (play_scopes (work w))) (\<lambda>_.
     and_then (check_all (\<lambda>s. validate_resolution_operation N w (operation s)) (stack (work w))) (\<lambda>_.
     and_then (case pending_choice (work w) of None \<Rightarrow> Inr () | Some rq \<Rightarrow> validate_choice_request N w rq) (\<lambda>_.
     check_all (event_programs N \<circ> snd) (events (work w)))))))"

text \<open>The table of entities is their index, so \<open>assert_game_entity_index\<close> holds of every model world.\<close>

definition assert_restored :: "world \<Rightarrow> check" where
  "assert_restored w =
     and_then (map_err (map_failure CheckpointFailed) (assert_weapon_invariants w)) (\<lambda>_.
     and_then (checked (assert_zone_invariants w)) (\<lambda>_.
     and_then (checked (assert_enchantment_invariants w)) (\<lambda>_.
     and_then (checked (assert_player_role_invariants w)) (\<lambda>_.
     checked (assert_resolution_invariants w)))))"

definition restore_checkpoint :: "native_effects \<Rightarrow> simulation_checkpoint \<Rightarrow> unit sim" where
  "restore_checkpoint N c =
     seq (lift (validate_checkpoint c))
     (need (CheckpointFailed ''unsupported RNG algorithm version'') (rng_from_snapshot (cp_rng c)) (\<lambda>g.
     seq (change (install_resources c g))
     (seq (for_all restore_entity_components (cp_entities c))
     (bnd (lift (zoned_entities (cp_entities c))) (\<lambda>zoned.
     seq (for_all (\<lambda>(p, z, _, i). convert ZoneFailed (insert_into_zone i p z None)) zoned)
     (seq (for_all restore_relationship (cp_entities c))
     (ask (\<lambda>w. seq (lift (validate_restored_programs N w)) (lift (assert_restored w))))))))))"

section \<open>The interface\<close>

text \<open>
  A restoration takes place in a new world, whose enumeration order is that of the new instance of
  the library; the simulation is replaced on success only.
\<close>

type_synonym enumeration = "entity_table \<Rightarrow> game_entity_id list"

definition from_checkpoint :: "native_effects \<Rightarrow> enumeration \<Rightarrow> simulation_checkpoint \<Rightarrow> (simulation_error, world) outcome" where
  "from_checkpoint N order c =
     (case restore_checkpoint N c (initial_world order 0 One) of
        (Inl e, _) \<Rightarrow> Inl e | (Inr _, w) \<Rightarrow> Inr w)"

definition restore_simulation :: "native_effects \<Rightarrow> enumeration \<Rightarrow> simulation_checkpoint \<Rightarrow> unit sim" where
  "restore_simulation N order c = bnd (lift (from_checkpoint N order c)) (\<lambda>w. change (\<lambda>_. w))"

definition fork :: "native_effects \<Rightarrow> enumeration \<Rightarrow> world \<Rightarrow> (simulation_error, world) outcome" where
  "fork N order w = and_then (build_checkpoint False w) (from_checkpoint N order)"

end
