(* ===== verification/Hs_Links.thy ===== *)
theory Hs_Links imports Hs_Interface begin

text \<open>
  Identities and attachments: every identity in use is below the next one, and the two directions of
  the relation \<open>AttachedTo\<close> agree. The inverse lists the attached entities in ascending order, as they
  are attached when they are created and never again.
\<close>

section \<open>The invariant\<close>

definition links_of :: "world \<Rightarrow> game_entity_id \<Rightarrow> (game_entity_id option \<times> game_entity_id list option) option" where
  "links_of w i = map_option (\<lambda>e. (e_attached_to e, e_attachments e)) (ents w i)"

definition attached_by :: "world \<Rightarrow> game_entity_id \<Rightarrow> game_entity_id set" where
  "attached_by w t = {i. \<exists>xs. links_of w i = Some (Some t, xs)}"

definition as_relation :: "game_entity_id set \<Rightarrow> game_entity_id list option" where
  "as_relation S = (if S = {} then None else Some (sorted_list_of_set S))"

definition links_ok :: "world \<Rightarrow> bool" where
  "links_ok w \<longleftrightarrow> (\<forall>i. links_of w i \<noteq> None \<longrightarrow> i < next_game_id w) \<and>
     (\<forall>t a xs. links_of w t = Some (a, xs) \<longrightarrow> xs = as_relation (attached_by w t)) \<and>
     (\<forall>t. attached_by w t \<noteq> {} \<longrightarrow> links_of w t \<noteq> None) \<and> (\<forall>t. t \<notin> attached_by w t)"

lemma as_relation_empty [simp]: "as_relation {} = None"
  by (simp add: as_relation_def)

lemma links_of_None: "links_of w i = None \<longleftrightarrow> ents w i = None"
  by (simp add: links_of_def)

lemma links_ok_finite: "links_ok w \<Longrightarrow> finite (dom (ents w))"
proof -
  assume "links_ok w"
  then have "dom (ents w) \<subseteq> {..< next_game_id w}"
    by (auto simp: links_ok_def links_of_def)
  then show ?thesis by (rule finite_subset) simp
qed

lemma attached_by_finite: "links_ok w \<Longrightarrow> finite (attached_by w t)"
  by (rule finite_subset [OF _ links_ok_finite]) (auto simp: attached_by_def links_of_def)

definition same_links :: "world \<Rightarrow> world \<Rightarrow> bool" where
  "same_links w w' \<longleftrightarrow> links_of w' = links_of w \<and> next_game_id w \<le> next_game_id w'"

lemma same_links_refl [simp]: "same_links w w"
  by (simp add: same_links_def)

lemma same_links_trans: "same_links w w' \<Longrightarrow> same_links w' w'' \<Longrightarrow> same_links w w''"
  by (simp add: same_links_def)

lemma links_ok_same: "same_links w w' \<Longrightarrow> links_ok w \<Longrightarrow> links_ok w'"
proof -
  assume S: "same_links w w'"
  then have "attached_by w' = attached_by w"
    by (simp add: same_links_def attached_by_def fun_eq_iff)
  then show "links_ok w \<Longrightarrow> links_ok w'"
    using S unfolding links_ok_def same_links_def by (auto intro: less_le_trans)
qed

section \<open>Steps that attach nothing\<close>

definition keeps_links :: "(game_entity \<Rightarrow> game_entity) \<Rightarrow> bool" where
  "keeps_links f \<longleftrightarrow> (\<forall>e. e_attached_to (f e) = e_attached_to e \<and> e_attachments (f e) = e_attachments e)"

lemma same_links_fields [simp]:
  "keeps_links f \<Longrightarrow> same_links w (set_entity i f w)"
  "same_links w (put_index p z xs w)"
  "same_links w (w\<lparr>equipment := a\<rparr>)" "same_links w (w\<lparr>game_trace := b\<rparr>)"
  "same_links w (w\<lparr>work := c\<rparr>)" "same_links w (w\<lparr>next_play_order := d\<rparr>)"
  "same_links w (w\<lparr>death_cache := g, pending_deaths := h\<rparr>)"
  by (auto simp: same_links_def links_of_def set_entity_def put_index_def keeps_links_def fun_eq_iff option.map_comp o_def
      intro!: option.map_cong)

named_theorems linked \<open>steps that attach nothing\<close>

lemma linked_change: "(\<And>w. same_links w (f w)) \<Longrightarrow> keeps (same_links w0) (change f)"
  by (auto simp: keeps_def intro: same_links_trans)

lemma linked_primitive [linked]:
  "keeps_links f \<Longrightarrow> keeps (same_links w0) (update i f)"
  "keeps_links f \<Longrightarrow> keeps (same_links w0) (update_if i f)"
  "keeps (same_links w0) (push_trace t)"
  "keeps (same_links w0) (change (put_index p z xs))"
  "keeps (same_links w0) allocate_play_order" "keeps (same_links w0) (to_u32 m)"
  unfolding update_def update_if_def push_trace_def allocate_play_order_def to_u32_def Let_def
  by (intro keeps linked_change; simp)+

lemma linked_zone [linked]:
  "keeps (same_links w0) (refresh_positions p z)" "keeps (same_links w0) (insert_into_zone_unchecked i p z n)"
  "keeps (same_links w0) (insert_into_zone i p z n)" "keeps (same_links w0) (remove_from_index i p z)"
  "keeps (same_links w0) (track_entry i)"
  unfolding insert_into_zone_def insert_into_zone_unchecked_def remove_from_index_def refresh_positions_def
    track_entry_def Let_def
  by (intro keeps linked linked_change; simp add: keeps_links_def)+

lemma linked_recalculate [linked]:
  "keeps (same_links w0) (recalculate_stats i)" "keeps (same_links w0) (recalculate i)"
  unfolding recalculate_def recalculate_stats_def recalculate_keywords_def recalculate_cost_def Let_def
  by (intro keeps linked; simp add: keeps_links_def)+

lemma linked_movement [linked]:
  "keeps (same_links w0) (record_full_zone_death i n)" "keeps (same_links w0) (clear_post_death_auras i)"
  unfolding record_full_zone_death_def clear_post_death_auras_def Let_def
  by (intro keeps linked linked_change; simp add: keeps_links_def)+

lemma linked_ok: "(\<And>w0. keeps (same_links w0) m) \<Longrightarrow> keeps links_ok m"
  by (metis links_ok_same keeps_def same_links_refl)

section \<open>Detaching\<close>

lemma as_relation_remove:
  assumes "finite S" "i \<in> S"
  shows "(case as_relation S of None \<Rightarrow> None | Some xs \<Rightarrow> if remove1 i xs = [] then None else Some (remove1 i xs))
     = as_relation (S - {i})"
proof -
  have "remove1 i (sorted_list_of_set S) = sorted_list_of_set (S - {i})"
    by (simp add: sorted_list_of_set.sorted_key_list_of_set_remove [OF assms(1)])
  with assms show ?thesis by (auto simp: as_relation_def)
qed

lemma detach_links_ok: "keeps links_ok (detach i :: unit sim)"
  unfolding keeps_def
proof (intro allI impI)
  fix w assume ok: "links_ok w"
  show "links_ok (snd ((detach i :: unit sim) w))"
  proof (cases "component w e_attached_to i")
    case None
    with ok show ?thesis by (simp add: detach_def)
  next
    case (Some t)
    then obtain e where e: "ents w i = Some e" "e_attached_to e = Some t" by (auto simp: component_def bind_eq_Some_conv)
    have i: "i \<in> attached_by w t" using e by (auto simp: attached_by_def links_of_def)
    with ok have it: "i \<noteq> t" "links_of w t \<noteq> None" unfolding links_ok_def by blast+
    let ?w = "snd ((detach i :: unit sim) w)"
    have links: "links_of ?w = (links_of w)(i := Some (None, e_attachments e),
        t := map_option (\<lambda>(a, _). (a, as_relation (attached_by w t - {i}))) (links_of w t))"
    proof
      fix j
      have "links_of ?w t = map_option (\<lambda>(a, xs). (a, case xs of None \<Rightarrow> None
          | Some ys \<Rightarrow> if remove1 i ys = [] then None else Some (remove1 i ys))) (links_of w t)"
        using Some it(1) by (auto simp: detach_def update_if_def seq_def bnd_def set_entity_def links_of_def option.map_comp
            o_def intro!: option.map_cong split: option.splits)
      moreover have "snd (the (links_of w t)) = as_relation (attached_by w t)"
        using ok it(2) unfolding links_ok_def by fastforce
      ultimately have "links_of ?w t = map_option (\<lambda>(a, _). (a, as_relation (attached_by w t - {i}))) (links_of w t)"
        using it(2) as_relation_remove [OF attached_by_finite [OF ok] i] by (auto simp: split_beta)
      then show "links_of ?w j = ((links_of w)(i := Some (None, e_attachments e),
        t := map_option (\<lambda>(a, _). (a, as_relation (attached_by w t - {i}))) (links_of w t))) j"
        using Some it(1) e by (auto simp: detach_def update_if_def seq_def bnd_def set_entity_def links_of_def)
    qed
    have att: "attached_by ?w = (attached_by w)(t := attached_by w t - {i})"
      using i it unfolding attached_by_def links by (auto simp: fun_eq_iff split: if_splits)
    have same_next: "next_game_id ?w = next_game_id w"
      using Some by (simp add: detach_def update_if_def seq_def bnd_def set_entity_def)
    have some: "links_of w j \<noteq> None" if "links_of ?w j \<noteq> None" for j
      using that e by (auto simp: links links_of_def split: if_splits)
    have ei: "e_attachments e = as_relation (attached_by w i)"
      using ok e unfolding links_ok_def by (simp add: links_of_def)
    show ?thesis
      unfolding links_ok_def
    proof (intro conjI allI impI)
      show "j < next_game_id ?w" if "links_of ?w j \<noteq> None" for j
        using some [OF that] ok unfolding links_ok_def same_next by blast
      show "xs = as_relation (attached_by ?w j)" if "links_of ?w j = Some (a, xs)" for j a xs
      proof (cases "j = t \<or> j = i")
        case True
        then show ?thesis using that it ei by (auto simp: links att)
      next
        case False
        then have "links_of w j = Some (a, xs)" using that by (simp add: links)
        then show ?thesis using False ok unfolding links_ok_def att by simp
      qed
      show "links_of ?w j \<noteq> None" if "attached_by ?w j \<noteq> {}" for j
      proof -
        have "attached_by w j \<noteq> {}" using that i by (auto simp: att split: if_splits)
        then have "links_of w j \<noteq> None" using ok unfolding links_ok_def by blast
        then show ?thesis using it(2) by (auto simp: links)
      qed
      show "j \<notin> attached_by ?w j" for j
        using ok unfolding links_ok_def att by (auto split: if_splits)
    qed
  qed
qed

section \<open>Creation\<close>

text \<open>An entity without attachments that is attached to nothing may come and go.\<close>

definition loose :: "game_entity_id \<Rightarrow> world \<Rightarrow> bool" where
  "loose i w \<longleftrightarrow> links_ok w \<and> links_of w i = Some (None, None)"

lemma loose_same: "same_links w w' \<Longrightarrow> loose i w \<Longrightarrow> loose i w'"
  using links_ok_same [of w w'] by (simp add: loose_def same_links_def)

lemma loose_none: "loose i w \<Longrightarrow> attached_by w i = {}"
  unfolding loose_def links_ok_def as_relation_def by (metis option.distinct(1))

lemma links_of_table:
  "links_of (w\<lparr>ents := T\<rparr>) j = map_option (\<lambda>e. (e_attached_to e, e_attachments e)) (T j)"
  by (simp add: links_of_def)

lemma loose_spawn:
  assumes ok: "links_ok w" and new: "ents w i = None" "i < next_game_id w" "e_attached_to e = None" "e_attachments e = None"
  shows "loose i (w\<lparr>ents := (ents w)(i \<mapsto> e)\<rparr>)"
proof -
  let ?w = "w\<lparr>ents := (ents w)(i \<mapsto> e)\<rparr>"
  have links: "links_of ?w = (links_of w)(i \<mapsto> (None, None))"
    using new by (auto simp: links_of_def fun_eq_iff)
  have "links_of w i = None" using new by (simp add: links_of_def)
  then have att: "attached_by ?w = attached_by w"
    unfolding attached_by_def links by (auto simp: fun_eq_iff)
  have "attached_by w i = {}"
    using ok \<open>links_of w i = None\<close> unfolding links_ok_def by blast
  then have "links_ok ?w"
    using ok new(2) unfolding links_ok_def links att by auto
  then show ?thesis by (simp add: loose_def links)
qed

lemma loose_despawn:
  assumes "loose i w"
  shows "links_ok (w\<lparr>ents := (ents w)(i := None)\<rparr>)"
proof -
  let ?w = "w\<lparr>ents := (ents w)(i := None)\<rparr>"
  have links: "links_of ?w = (links_of w)(i := None)" by (auto simp: links_of_def fun_eq_iff)
  have att: "attached_by ?w = attached_by w"
    using assms unfolding attached_by_def links loose_def by (auto simp: fun_eq_iff)
  show ?thesis
    using assms loose_none [OF assms] unfolding links_ok_def links att loose_def by auto
qed

definition from_loose :: "game_entity_id \<Rightarrow> ('e, 'a) step \<Rightarrow> bool" where
  "from_loose i m \<longleftrightarrow> (\<forall>w. loose i w \<longrightarrow> links_ok (snd (m w)))"

lemma keeps_allocated:
  assumes "\<And>i. from_loose i (m i)" "e_attached_to e = None" "e_attachments e = None"
  shows "keeps links_ok (bnd allocate_game_id (\<lambda>i. seq (spawn i e) (m i)))"
  unfolding keeps_def
proof (intro allI impI)
  fix w assume ok: "links_ok w"
  let ?n = "next_game_id w" and ?w = "w\<lparr>next_game_id := Suc (next_game_id w)\<rparr>"
  have "ents w ?n = None" using ok unfolding links_ok_def links_of_None by blast
  moreover have "links_ok ?w" by (rule links_ok_same [OF _ ok]) (simp add: same_links_def links_of_def fun_eq_iff)
  ultimately have "loose ?n (?w\<lparr>ents := (ents ?w)(?n \<mapsto> e)\<rparr>)"
    by (intro loose_spawn assms) simp_all
  with assms(1) have "links_ok (snd (m ?n (?w\<lparr>ents := (ents ?w)(?n \<mapsto> e)\<rparr>)))"
    unfolding from_loose_def by blast
  with ok \<open>ents w ?n = None\<close>
  show "links_ok (snd (bnd allocate_game_id (\<lambda>i. seq (spawn i e) (m i)) w))"
    by (simp add: allocate_game_id_def spawn_def seq_def bnd_def Let_def)
qed

lemma from_loose_same: "(\<And>w0. keeps (same_links w0) m) \<Longrightarrow> from_loose i m"
  using linked_ok [of m] by (auto simp: from_loose_def loose_def keeps_def)

lemma insert_loose: "loose i w \<Longrightarrow> insert_into_zone j p z n w = (r, w') \<Longrightarrow> loose i w'"
  using linked_zone(3) [of w j p z n] unfolding keeps_def by (metis loose_same same_links_refl snd_conv)

lemma card_links_ok: "keeps links_ok (spawn_validated_card p c z n)"
  unfolding spawn_validated_card_def
proof (rule keeps_allocated)
  fix i
  have "keeps links_ok (seq (track_entry i) (ret i) :: game_entity_id sim)"
    by (rule linked_ok) (intro keeps linked)
  then have track: "links_ok w \<Longrightarrow> links_ok (snd ((seq (track_entry i) (ret i) :: game_entity_id sim) w))" for w
    by (simp add: keeps_def)
  have gone: "snd ((seq (despawn i) (fail e) :: game_entity_id sim) w) = w\<lparr>ents := (ents w)(i := None)\<rparr>" for e w
    by (simp add: despawn_def seq_def bnd_def)
  show "from_loose i (handle (insert_into_zone i p z n) (\<lambda>e. seq (despawn i) (fail (ZoneFailed e))) (\<lambda>_. seq (track_entry i) (ret i)))"
    unfolding from_loose_def
  proof (intro allI impI)
    fix w assume L: "loose i w"
    obtain r w' where run: "insert_into_zone i p z n w = (r, w')" by fastforce
    from insert_loose [OF L this] have L': "loose i w'" .
    then have "links_ok w'" by (simp add: loose_def)
    with L' run track [of w'] show "links_ok (snd (handle (insert_into_zone i p z n)
        (\<lambda>e. seq (despawn i) (fail (ZoneFailed e))) (\<lambda>_. seq (track_entry i) (ret i)) w))"
      by (simp add: handle_def gone loose_despawn split: sum.split failure.split)
  qed
qed (simp_all add: card_entity_def no_components_def)

lemma sorted_list_of_set_greatest:
  "finite S \<Longrightarrow> (\<And>x. x \<in> S \<Longrightarrow> x < (i :: nat)) \<Longrightarrow> sorted_list_of_set (insert i S) = sorted_list_of_set S @ [i]"
  by (rule sorted_distinct_set_unique)
    (auto simp: sorted_append less_imp_le simp del: sorted_list_of_set.sorted_key_list_of_set_insert_remove)

lemma attach_links_ok:
  assumes ok: "loose i w" and t: "ents w t \<noteq> None" "t \<noteq> i" and top: "\<And>j. ents w j \<noteq> None \<Longrightarrow> j \<le> i"
  shows "links_ok (snd ((attach i t :: unit sim) w))"
proof -
  let ?w = "snd ((attach i t :: unit sim) w)"
  from ok have loose: "links_ok w" "links_of w i = Some (None, None)" by (simp_all add: loose_def)
  then have ex: "ents w i \<noteq> None" by (auto simp: links_of_def)
  obtain a where a: "links_of w t = Some (a, as_relation (attached_by w t))"
    using loose(1) t(1) unfolding links_ok_def by (cases "links_of w t") (auto simp: links_of_None)
  have fin: "finite (attached_by w t)" by (rule attached_by_finite [OF loose(1)])
  have "j < i" if "j \<in> attached_by w t" for j
  proof -
    from that have "ents w j \<noteq> None" "j \<noteq> i" using loose(2) by (auto simp: attached_by_def links_of_def)
    then show ?thesis using top [of j] by (simp add: order_le_less)
  qed
  note grow = sorted_list_of_set_greatest [OF fin this]
  have links: "links_of ?w = (links_of w)(i \<mapsto> (Some t, None), t \<mapsto> (a, as_relation (insert i (attached_by w t))))"
  proof
    fix j
    have "(case as_relation (attached_by w t) of None \<Rightarrow> [] | Some xs \<Rightarrow> xs) = sorted_list_of_set (attached_by w t)"
      by (simp add: as_relation_def)
    then show "links_of ?w j = ((links_of w)(i \<mapsto> (Some t, None), t \<mapsto> (a, as_relation (insert i (attached_by w t))))) j"
      using ex t a loose(2)
      by (auto simp: attach_def update_def seq_def bnd_def set_entity_def links_of_def as_relation_def grow)
  qed
  have "i \<notin> attached_by w j" for j using loose(2) by (auto simp: attached_by_def)
  then have att: "attached_by ?w = (attached_by w)(t := insert i (attached_by w t))"
    using t(2) a unfolding attached_by_def links by (auto simp: fun_eq_iff split: if_splits)
  have none: "attached_by w i = {}" by (rule loose_none [OF ok])
  have less: "next_game_id ?w = next_game_id w"
    using ex t by (simp add: attach_def update_def seq_def bnd_def set_entity_def)
  show ?thesis
    unfolding links_ok_def
  proof (intro conjI allI impI)
    show "j < next_game_id ?w" if "links_of ?w j \<noteq> None" for j
      using that loose a unfolding links_ok_def less links by (metis fun_upd_apply option.distinct(1))
    show "xs = as_relation (attached_by ?w j)" if "links_of ?w j = Some (b, xs)" for j b xs
    proof (cases "j = t \<or> j = i")
      case True
      then show ?thesis using that t(2) none by (auto simp: links att as_relation_def)
    next
      case False
      then have "links_of w j = Some (b, xs)" using that by (simp add: links)
      then show ?thesis using False loose(1) unfolding links_ok_def att by simp
    qed
    show "links_of ?w j \<noteq> None" if "attached_by ?w j \<noteq> {}" for j
      using that loose(1) unfolding links_ok_def att links by (auto split: if_splits)
    show "j \<notin> attached_by ?w j" for j
      using loose(1) t(2) unfolding links_ok_def att by auto
  qed
qed

lemma enchantment_links_ok: "keeps links_ok (spawn_attached_enchantment p t d name time rm)"
  unfolding keeps_def
proof (intro allI impI)
  fix w assume ok: "links_ok w"
  let ?n = "next_game_id w"
  let ?w = "w\<lparr>next_game_id := Suc ?n, next_play_order := Suc (next_play_order w)\<rparr>"
  let ?e = "enchantment_entity p d name (next_play_order w) time rm"
  let ?w1 = "?w\<lparr>ents := (ents w)(?n \<mapsto> ?e)\<rparr>"
  have new: "ents w ?n = None" using ok unfolding links_ok_def links_of_None by blast
  have ok1: "links_ok ?w" "links_ok (w\<lparr>next_game_id := Suc ?n\<rparr>)"
    by (rule links_ok_same [OF _ ok], simp add: same_links_def links_of_def fun_eq_iff)+
  then have "loose ?n (?w\<lparr>ents := (ents ?w)(?n \<mapsto> ?e)\<rparr>)"
    using new by (intro loose_spawn) (simp_all add: enchantment_entity_def no_components_def)
  then have loose: "loose ?n ?w1" by simp
  have attached: "links_ok (snd ((attach ?n t :: unit sim) ?w1))" if "ents w t \<noteq> None"
    using that ok new by (intro attach_links_ok [OF loose]) (auto simp: links_ok_def links_of_def less_imp_le split: if_splits)
  have rest: "keeps links_ok (seq (expecting (insert_into_zone i p Play None)) (ret i) :: game_entity_id sim)" for i
    by (rule linked_ok) (intro keeps linked)
  show "links_ok (snd (spawn_attached_enchantment p t d name time rm w))"
  proof (cases "ents w t = None \<or> \<not> ?n < u64_max' \<or> \<not> next_play_order w < u64_max'")
    case True
    then show ?thesis using ok ok1
      by (auto simp: spawn_attached_enchantment_def allocate_game_id_def allocate_play_order_def Let_def seq_def bnd_def)
  next
    case False
    then obtain et where "ents w t = Some et" by auto
    with False have "spawn_attached_enchantment p t d name time rm w =
        seq (attach ?n t) (seq (expecting (insert_into_zone ?n p Play None)) (ret ?n)) ?w1"
      using new by (simp add: spawn_attached_enchantment_def allocate_game_id_def allocate_play_order_def Let_def seq_def
          bnd_def spawn_def)
    then show ?thesis using attached False rest [of ?n]
      by (auto simp: seq_def [of "attach ?n t"] bnd_def keeps_def split: prod.splits sum.splits)
  qed
qed

section \<open>Movement\<close>

lemma links_steps [linked]:
  "keeps_links f \<Longrightarrow> keeps links_ok (update i f :: ('e, unit) step)"
  "keeps_links f \<Longrightarrow> keeps links_ok (update_if i f :: ('e, unit) step)"
  "keeps links_ok (allocate_play_order :: ('e, nat) step)"
  "keeps links_ok (insert_into_zone_unchecked i p z n :: ('e, unit) step)"
  "keeps links_ok (insert_into_zone i p z n)" "keeps links_ok (remove_from_index i p z)"
  "keeps links_ok (track_entry i :: ('e, unit) step)" "keeps links_ok (recalculate i :: ('e, unit) step)"
  "keeps links_ok (record_full_zone_death i m :: ('e, unit) step)"
  "keeps links_ok (clear_post_death_auras i :: ('e, unit) step)"
  by (rule linked_ok, intro keeps linked; assumption?)+

lemma links_detach [linked]: "keeps links_ok (detach i :: ('e, unit) step)"
  unfolding keeps_def by (intro allI impI, subst detach_result) (use detach_links_ok in \<open>simp add: keeps_def\<close>)

lemma links_move_with:
  assumes mv: "\<And>rq. keeps links_ok (mv rq)"
  shows "keeps links_ok (move_with mv rq)"
proof -
  have policy: "keeps links_ok (apply_movement_state_policy mv q z :: (zone_error, unit) step)" for q z
    unfolding apply_movement_state_policy_def reset_runtime_state_def Let_def
    by (intro keeps linked mv; simp add: keeps_links_def)
  have kinds: "keeps links_ok m1 \<Longrightarrow> (\<And>k. keeps links_ok (m2 k)) \<Longrightarrow> keeps links_ok (case k of ForcePlay \<Rightarrow> m1 | DrawMove \<Rightarrow> m2 BurnMove
      | _ \<Rightarrow> m2 (if b then DeathMove else DiscardMove))" for m1 and m2 :: "zone_movement_kind \<Rightarrow> (zone_error, zone_move_outcome) step" and k b
    by (cases k) simp_all
  show ?thesis
    unfolding move_with_def move_to_graveyard_after_failed_move_def Let_def
    by (intro keeps linked policy kinds; simp add: keeps_links_def)
qed

lemma links_move: "keeps links_ok (move_entity_with_request rq)"
proof -
  have "keeps links_ok (move_fuel n rq)" for n
    by (induction n arbitrary: rq) (simp_all add: links_move_with keeps)
  then show ?thesis by (simp add: move_entity_with_request_def)
qed

section \<open>The engine and its interface\<close>

lemma links_ok_beyond: "links_ok w \<Longrightarrow> ents w' = ents w \<Longrightarrow> next_game_id w \<le> next_game_id w' \<Longrightarrow> links_ok w'"
  by (rule links_ok_same) (simp_all add: same_links_def links_of_def fun_eq_iff)

interpretation links: engine_invariant links_ok
proof
  show "links_ok w \<Longrightarrow> unseen w w' \<Longrightarrow> links_ok w'" for w w'
    by (erule links_ok_beyond) (simp_all add: unseen_def beyond_table_def)
  show "links_ok w \<Longrightarrow> links_ok (w\<lparr>work := r\<rparr>)" for w r
    by (erule links_ok_beyond) simp_all
  show "links_ok w \<Longrightarrow> local_change f \<Longrightarrow> links_ok (set_entity i f w)" for w i f
    by (rule links_ok_same [of w]) (simp_all add: local_change_def keeps_links_def)
  show "keeps links_ok (request_choice cr :: unit sim)" for cr
    unfolding keeps_def
    by (intro allI impI, erule links_ok_beyond)
      (simp_all add: request_choice_def change_work_def push_trace_def seq_def bnd_def)
qed (rule detach_links_ok links_move card_links_ok enchantment_links_ok)+

interpretation links: simulation_invariant links_ok
proof
  show "links_ok w \<Longrightarrow> links_ok (set_status s w)" for w s
    by (erule links_ok_beyond) (simp_all add: set_status_def)
  show "keeps links_ok (begin_sequence :: (resolution_error, unit) step)"
    "keeps links_ok (finish_sequence :: unit sim)" "keeps links_ok (abandon_sequence :: unit sim)"
    "keeps links_ok (change_work (\<lambda>r. r\<lparr>pending_choice := None\<rparr>) :: unit sim)"
    unfolding keeps_def
    by (intro allI impI, erule links_ok_beyond;
        simp add: begin_sequence_def finish_sequence_def abandon_sequence_def change_work_def)+
qed

lemma initial_links: "links_ok (initial_world order seed p)"
  by (simp add: links_ok_def links_of_def attached_by_def initial_world_def)

lemma spawn_object_links: "e_attached_to e = None \<Longrightarrow> e_attachments e = None \<Longrightarrow> keeps links_ok (spawn_object p e z)"
  unfolding spawn_object_def by (intro keeps_allocated from_loose_same keeps linked)

lemma setup_links: "keeps links_ok (setup_game first second)"
  unfolding setup_game_def setup_player_def spawn_player_def
  by (intro keeps spawn_object_links engine) (simp_all add: player_object_def hero_object_def no_components_def)

end
