(* ===== verification/Hs_Zoned.thy ===== *)
theory Hs_Zoned imports Hs_Links begin

text \<open>
  Every entity is in a zone: a new entity is placed at once or taken out again, and nothing ever
  removes a zone.
\<close>

section \<open>The invariant\<close>

definition zoned_but :: "game_entity_id set \<Rightarrow> world \<Rightarrow> bool" where
  "zoned_but X w \<longleftrightarrow> (\<forall>i e. i \<notin> X \<longrightarrow> ents w i = Some e \<longrightarrow> e_zone e \<noteq> None)"

abbreviation zoned :: "world \<Rightarrow> bool" where
  "zoned \<equiv> zoned_but {}"

definition keeps_zoned :: "(game_entity \<Rightarrow> game_entity) \<Rightarrow> bool" where
  "keeps_zoned f \<longleftrightarrow> (\<forall>e. e_zone e \<noteq> None \<longrightarrow> e_zone (f e) \<noteq> None)"

lemma zoned_beyond: "zoned_but X w \<Longrightarrow> ents w' = ents w \<Longrightarrow> zoned_but X w'"
  by (simp add: zoned_but_def)

lemma zoned_set_entity: "zoned_but X w \<Longrightarrow> keeps_zoned f \<Longrightarrow> zoned_but X (set_entity i f w)"
  by (auto simp: zoned_but_def keeps_zoned_def set_entity_def)

named_theorems zoning \<open>steps that leave every entity in a zone\<close>

lemma zoned_change: "(\<And>w. ents (f w) = ents w) \<Longrightarrow> keeps (zoned_but X) (change f)"
  by (simp add: keeps_def zoned_but_def)

lemma zoned_steps [zoning]:
  "keeps_zoned f \<Longrightarrow> keeps (zoned_but X) (update i f)" "keeps_zoned f \<Longrightarrow> keeps (zoned_but X) (update_if i f)"
  "keeps (zoned_but X) (push_trace t)" "keeps (zoned_but X) (change (put_index p z xs))"
  "keeps (zoned_but X) allocate_play_order" "keeps (zoned_but X) (to_u32 m)"
proof -
  show u: "keeps_zoned f \<Longrightarrow> keeps (zoned_but X) (update_if i f)"
    unfolding update_if_def by (simp add: keeps_def zoned_set_entity)
  show "keeps_zoned f \<Longrightarrow> keeps (zoned_but X) (update i f)"
    unfolding update_def by (simp add: keeps_def zoned_set_entity)
  show "keeps (zoned_but X) (push_trace t)" "keeps (zoned_but X) (change (put_index p z xs))"
    "keeps (zoned_but X) allocate_play_order" "keeps (zoned_but X) (to_u32 m)"
    unfolding push_trace_def allocate_play_order_def to_u32_def Let_def
    by (intro keeps zoned_change; simp)+
qed

lemma zoned_zone [zoning]:
  "keeps (zoned_but X) (refresh_positions p z)" "keeps (zoned_but X) (insert_into_zone_unchecked i p z n)"
  "keeps (zoned_but X) (insert_into_zone i p z n)" "keeps (zoned_but X) (remove_from_index i p z)"
  "keeps (zoned_but X) (track_entry i)" "keeps (zoned_but X) (detach i)" "keeps (zoned_but X) (attach i t)"
  unfolding insert_into_zone_def insert_into_zone_unchecked_def remove_from_index_def refresh_positions_def
    track_entry_def detach_def attach_def Let_def
  by (intro keeps zoning zoned_change; simp add: keeps_zoned_def)+

lemma zoned_recalculate [zoning]: "keeps (zoned_but X) (recalculate_stats i)" "keeps (zoned_but X) (recalculate i)"
  unfolding recalculate_def recalculate_stats_def recalculate_keywords_def recalculate_cost_def Let_def
  by (intro keeps zoning; simp add: keeps_zoned_def)+

lemma zoned_movement [zoning]:
  "keeps (zoned_but X) (record_full_zone_death i n)" "keeps (zoned_but X) (clear_post_death_auras i)"
  unfolding record_full_zone_death_def clear_post_death_auras_def Let_def
  by (intro keeps zoning zoned_change; simp add: keeps_zoned_def)+

lemma zoned_move_with:
  assumes mv: "\<And>rq. keeps zoned (mv rq)"
  shows "keeps zoned (move_with mv rq)"
proof -
  have policy: "keeps zoned (apply_movement_state_policy mv q z :: (zone_error, unit) step)" for q z
    unfolding apply_movement_state_policy_def reset_runtime_state_def Let_def
    by (intro keeps zoning mv; simp add: keeps_zoned_def)
  have kinds: "keeps zoned m1 \<Longrightarrow> (\<And>k. keeps zoned (m2 k)) \<Longrightarrow> keeps zoned (case k of ForcePlay \<Rightarrow> m1 | DrawMove \<Rightarrow> m2 BurnMove
      | _ \<Rightarrow> m2 (if b then DeathMove else DiscardMove))" for m1 and m2 :: "zone_movement_kind \<Rightarrow> (zone_error, zone_move_outcome) step" and k b
    by (cases k) simp_all
  show ?thesis
    unfolding move_with_def move_to_graveyard_after_failed_move_def Let_def
    by (intro keeps zoning policy kinds)
qed

lemma zoned_move: "keeps zoned (move_entity_with_request rq)"
proof -
  have "keeps zoned (move_fuel n rq)" for n
    by (induction n arbitrary: rq) (simp_all add: zoned_move_with keeps)
  then show ?thesis by (simp add: move_entity_with_request_def)
qed

section \<open>Creation\<close>

lemma for_all_changes: "\<exists>w'. for_all (\<lambda>x. change (g x)) xs w = (Inr (), w')"
  by (induction xs arbitrary: w) (simp_all add: seq_def bnd_def)

lemma refresh_returns: "\<exists>w'. refresh_positions p z w = (Inr () :: (zone_error, unit) outcome, w')"
proof -
  have "(\<lambda>(n, i). update_if i (\<lambda>e. e\<lparr>e_position := Some n\<rparr>)) =
      (\<lambda>x. change (set_entity (snd x) (\<lambda>e. e\<lparr>e_position := Some (fst x)\<rparr>)) :: ('e, unit) step)"
    by (simp add: fun_eq_iff update_if_def split_beta)
  show ?thesis unfolding refresh_positions_def ask_def \<open>_ = _\<close> by (rule for_all_changes)
qed

lemma insert_new:
  assumes Z: "zoned_but {i} w" and ex: "ents w i \<noteq> None"
  shows "(\<exists>w'. insert_into_zone i p z n w = (Inr (), w') \<and> zoned w') \<or> (\<exists>e. insert_into_zone i p z n w = (err e, w))"
proof -
  consider (full) "destination_is_full w i p z" | (place) e where "validate_zone_position w p z n = err e"
    | (fits) "\<not> destination_is_full w i p z" "validate_zone_position w p z n = Inr ()"
  proof (cases "validate_zone_position w p z n")
    case (Inl f)
    then show ?thesis using that(2)
      by (auto simp: validate_zone_position_def validate_position_def split: option.splits if_splits)
  qed (use that(1,3) in auto)
  then show ?thesis
  proof cases
    case fits
    let ?n = "or_default (length (zone_entities w p z)) n" and ?xs = "zone_entities w p z"
    let ?w = "set_entity i (\<lambda>e. e\<lparr>e_controller := Some p, e_zone := Some z\<rparr>) (put_index p z (take ?n ?xs @ i # drop ?n ?xs) w)"
    from fits(2) have "?n \<le> length ?xs"
      by (auto simp: validate_zone_position_def validate_position_def split: option.splits if_splits)
    obtain w' where w': "refresh_positions p z ?w = (Inr () :: (zone_error, unit) outcome, w')" using refresh_returns by blast
    have "zoned ?w"
      using Z ex by (auto simp: zoned_but_def set_entity_def)
    then have "zoned w'" by (rule keepsD [OF zoned_zone(1) _ w'])
    with fits ex w' \<open>?n \<le> length ?xs\<close> show ?thesis
      by (simp add: insert_into_zone_def insert_into_zone_unchecked_def seq_def bnd_def update_def Let_def)
  qed (use ex in \<open>auto simp: insert_into_zone_def seq_def bnd_def\<close>)
qed

definition from_unzoned :: "game_entity_id \<Rightarrow> ('e, 'a) step \<Rightarrow> bool" where
  "from_unzoned i m \<longleftrightarrow> (\<forall>w. zoned_but {i} w \<longrightarrow> ents w i \<noteq> None \<longrightarrow> zoned (snd (m w)))"

lemma keeps_zoned_spawn:
  assumes "\<And>i. from_unzoned i (m i)"
  shows "keeps zoned (bnd allocate_game_id (\<lambda>i. seq (spawn i e) (m i)))"
  unfolding keeps_def
proof (intro allI impI)
  fix w assume Z: "zoned w"
  let ?n = "next_game_id w"
  let ?w = "w\<lparr>next_game_id := Suc ?n, ents := (ents w)(?n \<mapsto> e)\<rparr>"
  have "zoned_but {?n} ?w" "ents ?w ?n \<noteq> None" using Z by (simp_all add: zoned_but_def)
  with assms have "zoned (snd (m ?n ?w))" unfolding from_unzoned_def by blast
  moreover have "zoned (w\<lparr>next_game_id := Suc ?n\<rparr>)" using Z by (simp add: zoned_but_def)
  ultimately show "zoned (snd (bnd allocate_game_id (\<lambda>i. seq (spawn i e) (m i)) w))"
    using Z by (simp add: allocate_game_id_def spawn_def seq_def bnd_def Let_def)
qed

lemma card_zoned: "keeps zoned (spawn_validated_card p c z n)"
  unfolding spawn_validated_card_def
proof (rule keeps_zoned_spawn)
  fix i
  have "keeps zoned (seq (track_entry i) (ret i) :: game_entity_id sim)" by (intro keeps zoning)
  then have track: "zoned w \<Longrightarrow> zoned (snd ((seq (track_entry i) (ret i) :: game_entity_id sim) w))" for w
    by (simp add: keeps_def)
  have gone: "zoned_but {i} w \<Longrightarrow> zoned (snd ((seq (despawn i) (fail e) :: game_entity_id sim) w))" for e w
    by (auto simp: despawn_def seq_def bnd_def zoned_but_def)
  show "from_unzoned i (handle (insert_into_zone i p z n) (\<lambda>e. seq (despawn i) (fail (ZoneFailed e))) (\<lambda>_. seq (track_entry i) (ret i)))"
    unfolding from_unzoned_def
  proof (intro allI impI)
    fix w assume W: "zoned_but {i} w" "ents w i \<noteq> None"
    from insert_new [OF this, of p z n] track gone [OF W(1)]
    show "zoned (snd (handle (insert_into_zone i p z n)
        (\<lambda>e. seq (despawn i) (fail (ZoneFailed e))) (\<lambda>_. seq (track_entry i) (ret i)) w))"
      by (auto simp: handle_def)
  qed
qed

lemma enchantment_fits:
  assumes "has_kind w i Enchantment"
  shows "\<not> destination_is_full w i p Play"
  using assms
  by (auto simp: destination_is_full_def has_kind_def generated_destination_is_full_def over_limit_def kind_limit_def
      is_board_entity_def)

lemma enchantment_zoned: "keeps zoned (spawn_attached_enchantment p t d name time rm)"
  unfolding keeps_def
proof (intro allI impI)
  fix w assume Z: "zoned w"
  show "zoned (snd (spawn_attached_enchantment p t d name time rm w))"
  proof (cases "ents w t = None \<or> \<not> next_game_id w < u64_max' \<or> \<not> next_play_order w < u64_max' \<or> ents w (next_game_id w) \<noteq> None")
    case True
    then show ?thesis using Z
      by (auto simp: spawn_attached_enchantment_def allocate_game_id_def allocate_play_order_def Let_def seq_def bnd_def
          spawn_def zoned_but_def)
  next
    case False
    let ?n = "next_game_id w"
    let ?e = "enchantment_entity p d name (next_play_order w) time rm"
    let ?w = "w\<lparr>next_game_id := Suc ?n, next_play_order := Suc (next_play_order w), ents := (ents w)(?n \<mapsto> ?e)\<rparr>"
    from False have t: "t \<noteq> ?n" by auto
    obtain et where et: "ents w t = Some et" using False by auto
    obtain w1 where w1: "attach ?n t ?w = (Inr () :: (simulation_error, unit) outcome, w1)"
      using t et by (simp add: attach_def update_def seq_def bnd_def set_entity_def)
    have "zoned_but {?n} ?w" using Z by (simp add: zoned_but_def)
    then have Z1: "zoned_but {?n} w1" by (rule keepsD [OF zoned_zone(7) _ w1])
    have kind: "has_kind w1 ?n Enchantment"
      using w1 t et by (auto simp: attach_def update_def seq_def bnd_def set_entity_def has_kind_def component_def enchantment_entity_def)
    then have ex: "ents w1 ?n \<noteq> None" by (cases "ents w1 ?n") (auto simp: has_kind_def component_def)
    have "insert_into_zone ?n p Play None w1 \<noteq> (err e, w1)" for e
    proof -
      obtain y where "ents w1 ?n = Some y" using ex by auto
      moreover have "refresh_positions p Play x \<noteq> (err e :: (zone_error, unit) outcome, w')" for x w'
        using refresh_returns [of p Play x] by auto
      ultimately show ?thesis using enchantment_fits [OF kind]
        by (simp add: insert_into_zone_def insert_into_zone_unchecked_def seq_def bnd_def update_def Let_def
            validate_zone_position_def validate_position_def)
    qed
    with insert_new [OF Z1 ex] obtain w2 where "insert_into_zone ?n p Play None w1 = (Inr (), w2)" "zoned w2" by metis
    then show ?thesis
      using False et w1 by (simp add: spawn_attached_enchantment_def allocate_game_id_def allocate_play_order_def Let_def
          seq_def bnd_def spawn_def expecting_def handle_def)
  qed
qed

section \<open>The engine and its interface\<close>

interpretation zoned: engine_invariant zoned
proof
  show "zoned w \<Longrightarrow> unseen w w' \<Longrightarrow> zoned w'" for w w'
    by (erule zoned_beyond) (simp add: unseen_def)
  show "zoned w \<Longrightarrow> zoned (w\<lparr>work := r\<rparr>)" for w r
    by (erule zoned_beyond) simp
  show "zoned w \<Longrightarrow> local_change f \<Longrightarrow> zoned (set_entity i f w)" for w i f
    by (erule zoned_set_entity) (simp add: local_defs keeps_zoned_def)
  show "keeps zoned (request_choice cr :: unit sim)" for cr
    unfolding keeps_def
    by (intro allI impI, erule zoned_beyond) (simp add: request_choice_def change_work_def push_trace_def seq_def bnd_def)
qed (rule zoned_zone(6) zoned_move card_zoned enchantment_zoned)+

interpretation zoned: simulation_invariant zoned
proof
  show "zoned w \<Longrightarrow> zoned (set_status s w)" for w s
    by (erule zoned_beyond) (simp add: set_status_def)
  show "keeps zoned (begin_sequence :: (resolution_error, unit) step)"
    "keeps zoned (finish_sequence :: unit sim)" "keeps zoned (abandon_sequence :: unit sim)"
    "keeps zoned (change_work (\<lambda>r. r\<lparr>pending_choice := None\<rparr>) :: unit sim)"
    unfolding keeps_def
    by (intro allI impI, erule zoned_beyond;
        simp add: begin_sequence_def finish_sequence_def abandon_sequence_def change_work_def)+
qed

end
