(* ===== verification/Hs_Restore.thy ===== *)
theory Hs_Restore imports Hs_Checkpoint Hs_Zoned Hs_Reachable Hs_Determinism begin

text \<open>
  What a restoration rebuilds, pass by pass: the entities, their zones, their attachments. Each pass
  completes one part of the entities and leaves the others alone, so that a captured world comes back
  as it was.
\<close>

section \<open>Reachable worlds\<close>

lemma for_all_success:
  assumes "\<And>x w u w'. P w \<Longrightarrow> f x w = (Inr u, w') \<Longrightarrow> P w'" "P w" "for_all f xs w = (Inr u, w')"
  shows "P w'"
  using assms(2,3) by (induction xs arbitrary: w) (auto simp: result_simps intro: assms(1))

lemma spawn_object_zoned:
  assumes "zoned w" "spawn_object p e z w = (Inr u, w')"
  shows "zoned w'"
proof -
  let ?n = "next_game_id w"
  let ?w = "w\<lparr>next_game_id := Suc ?n, ents := (ents w)(?n \<mapsto> e)\<rparr>"
  from assms(2) have ins: "insert_into_zone ?n p z None ?w = (Inr u, w')"
    by (auto simp: spawn_object_def allocate_game_id_def spawn_def convert_def bnd_def seq_def Let_def
        split: if_splits prod.splits sum.splits failure.splits)
  have "zoned_but {?n} ?w" "ents ?w ?n \<noteq> None" using assms(1) by (simp_all add: zoned_but_def)
  from insert_new [OF this, of p z None] ins show ?thesis by auto
qed

lemma new_game_zoned:
  assumes "with_seed_and_dominant_player order first second seed dominant = Some w"
  shows "zoned w"
proof -
  let ?w0 = "initial_world order seed dominant"
  from assms obtain u w1 where w1: "setup_game first second ?w0 = (Inr u, w1)"
    "w = w1\<lparr>game := (game w1)\<lparr>status := AwaitingAction\<rparr>\<rparr>"
    by (auto simp: with_seed_and_dominant_player_def split: prod.splits sum.splits)
  have card: "zoned w \<Longrightarrow> spawn_card p c z w = (Inr i, w') \<Longrightarrow> zoned w'" for p c z w i w'
    using zoned.keeps_spawn_card(2) by (rule keepsD)
  have player: "zoned w'" if "zoned w" "spawn_player p name b w = (Inr u, w')" for p name b w u w'
  proof -
    from that(2) obtain a c d v1 v2 v3 where v: "spawn_object p (player_object p name b) SetAside w = (Inr a, v1)"
      "spawn_object p (hero_object p name) Play v1 = (Inr c, v2)" "spawn_card p v3 Play v2 = (Inr d, w')"
      by (auto simp: spawn_player_def seq_Inr_iff)
    from spawn_object_zoned [OF spawn_object_zoned [OF that(1) v(1)] v(2)] card v(3) show ?thesis by blast
  qed
  have cards: "zoned w'" if "zoned w" "for_all (\<lambda>c. seq (spawn_card p c z) (ret ())) cs w = (Inr u, w')" for p z cs w u w'
    using for_all_success [where P = zoned, OF _ that] card by (fastforce simp: seq_Inr_iff)
  have one: "zoned w'" if "zoned w" "setup_player x w = (Inr u, w')" for x w u w'
  proof -
    from that(2) obtain a c v1 v2 where v: "spawn_player (fst x) (config_name (snd x)) (fst x = One) w = (Inr a, v1)"
      "for_all (\<lambda>c. seq (spawn_card (fst x) c Deck) (ret ())) (config_deck (snd x)) v1 = (Inr c, v2)"
      "for_all (\<lambda>c. seq (spawn_card (fst x) c Hand) (ret ())) (config_hand (snd x)) v2 = (Inr u, w')"
      by (auto simp: setup_player_def seq_Inr_iff split_beta)
    show ?thesis by (rule cards [OF cards [OF player [OF that(1) v(1)] v(2)] v(3)])
  qed
  have "zoned ?w0" by (simp add: zoned_but_def initial_world_def)
  from for_all_success [where P = zoned, OF one this w1(1) [unfolded setup_game_def]] have "zoned w1" .
  then show ?thesis by (rule zoned_beyond) (simp add: w1(2))
qed

lemma reachable_wf: "reachable N w \<Longrightarrow> zone_ok w \<and> links_ok w \<and> zoned w"
proof (induction rule: reachable.induct)
  case (new_game order first second seed dominant w)
  then obtain u w1 where w1: "setup_game first second (initial_world order seed dominant) = (Inr u, w1)"
    "w = w1\<lparr>game := (game w1)\<lparr>status := AwaitingAction\<rparr>\<rparr>"
    by (auto simp: with_seed_and_dominant_player_def split: prod.splits sum.splits)
  have "links_ok w1" by (rule keepsD [OF setup_links initial_links w1(1)])
  then have "links_ok w" by (rule links_ok_beyond) (simp_all add: w1(2))
  with new_game show ?case using new_game_at_rest new_game_zoned by blast
next
  case (action w a r w')
  then show ?case
    using keepsD [OF zones.keeps_interface(1)] keepsD [OF links.keeps_interface(1)] keepsD [OF zoned.keeps_interface(1)] by blast
next
  case (choice w opt r w')
  then show ?case
    using keepsD [OF zones.keeps_interface(2)] keepsD [OF links.keeps_interface(2)] keepsD [OF zoned.keeps_interface(2)] by blast
qed

section \<open>Capture\<close>

text \<open>The checkpoint of a world, without the enumeration.\<close>

definition captured :: "world \<Rightarrow> entity_checkpoint list" where
  "captured w = map (\<lambda>i. capture_entity i (the (ents w i))) (sorted_list_of_set (dom (ents w)))"

definition checkpoint_of :: "world \<Rightarrow> simulation_checkpoint" where
  "checkpoint_of w = \<lparr>schema_version = checkpoint_schema_version, cp_ruleset = rules w, cp_game = game w,
     cp_turns = turns w, cp_weapons = equipment w, cp_dominant = dominant_player w,
     cp_next_game_id = next_game_id w, cp_next_play_order = next_play_order w,
     cp_rng = rng_snapshot_of (generator w),
     cp_trace = \<lparr>trace_ruleset = AdvancedRulebook2026_06_26, trace_entries = game_trace w\<rparr>,
     cp_deaths = death_cache w, cp_pending_deaths = pending_deaths w,
     cp_defeated = defeated_heroes w, cp_resolution = work w, cp_entities = captured w\<rparr>"

lemma cp_id_capture [simp]: "cp_id (capture_entity i e) = i"
  by (simp add: capture_entity_def)

lemma captured_ids: "finite (dom (ents w)) \<Longrightarrow> map cp_id (captured w) = sorted_list_of_set (dom (ents w))"
  by (simp add: captured_def o_def)

lemma attached_target:
  assumes "links_ok w" "ents w i = Some e" "e_attached_to e = Some t"
  shows "ents w t \<noteq> None \<and> t \<noteq> i"
proof -
  have "i \<in> attached_by w t" using assms by (simp add: attached_by_def links_of_def)
  with assms(1) show ?thesis unfolding links_ok_def links_of_None by blast
qed

lemma build_checkpoint_of:
  assumes "links_ok w" "enumerates (ecs_order w)"
  shows "build_checkpoint False w = Inr (checkpoint_of w)"
proof -
  let ?xs = "ecs_order w (ents w)"
  have fin: "finite (dom (ents w))" by (rule links_ok_finite [OF assms(1)])
  with assms(2) have xs: "distinct ?xs" "set ?xs = dom (ents w)" by (simp_all add: enumerates_def)
  have "try_map (capture_checked w) (iter_entities w) = Inr (map (\<lambda>(i, e). capture_entity i e) (iter_entities w))"
  proof (rule try_map_total)
    fix x assume "x \<in> set (iter_entities w)"
    then have "ents w (fst x) = Some (snd x)" using iter_entities_member [of "fst x" "snd x" w] by simp
    with attached_target [OF assms(1) this] show "capture_checked w x = Inr (case x of (i, e) \<Rightarrow> capture_entity i e)"
      by (cases "e_attached_to (snd x)") (simp_all add: capture_checked_def split_beta)
  qed
  moreover have "sort_key cp_id (map (\<lambda>(i, e). capture_entity i e) (iter_entities w)) = captured w"
  proof (rule map_sorted_distinct_set_unique [where f = cp_id])
    have ids: "map cp_id (map (\<lambda>(i, e). capture_entity i e) (iter_entities w)) = ?xs"
      by (simp add: iter_entities_map [OF assms(2) fin] o_def)
    then show "distinct (map cp_id (sort_key cp_id (map (\<lambda>(i, e). capture_entity i e) (iter_entities w))))"
      using xs(1) by (metis distinct_map distinct_sort set_sort)
    show "inj_on cp_id (set (sort_key cp_id (map (\<lambda>(i, e). capture_entity i e) (iter_entities w))) \<union> set (captured w))"
      using fin by (auto simp: inj_on_def captured_def iter_entities_map [OF assms(2) fin])
    show "set (sort_key cp_id (map (\<lambda>(i, e). capture_entity i e) (iter_entities w))) = set (captured w)"
      using xs(2) fin by (simp add: captured_def iter_entities_map [OF assms(2) fin] image_image)
  qed (simp_all add: captured_ids [OF fin])
  ultimately show ?thesis by (simp add: build_checkpoint_def checkpoint_of_def)
qed

section \<open>Views of an entity\<close>

text \<open>The components that belong neither to the zone nor to the attachments.\<close>

definition core :: "game_entity \<Rightarrow> game_entity" where
  "core e = e\<lparr>e_zone := None, e_controller := None, e_position := None, e_attached_to := None, e_attachments := None\<rparr>"

definition core_of :: "world \<Rightarrow> game_entity_id \<Rightarrow> game_entity option" where
  "core_of w i = map_option core (ents w i)"

lemma core_eq:
  "core e = core e' \<Longrightarrow> e_zone e = e_zone e' \<Longrightarrow> e_controller e = e_controller e' \<Longrightarrow> e_position e = e_position e' \<Longrightarrow>
    e_attached_to e = e_attached_to e' \<Longrightarrow> e_attachments e = e_attachments e' \<Longrightarrow> e = e'"
  unfolding core_def by (cases e; cases e') simp

lemma ents_eqI:
  assumes "place_of w' = place_of w" "links_of w' = links_of w" "core_of w' = core_of w"
  shows "ents w' = ents w"
proof
  fix i
  from assms have P: "place_of w' i = place_of w i" "links_of w' i = links_of w i" "core_of w' i = core_of w i" by simp_all
  show "ents w' i = ents w i"
  proof (cases "ents w i")
    case None
    with P(1) show ?thesis by (simp add: place_of_def)
  next
    case (Some e)
    with P(1) obtain e' where "ents w' i = Some e'" by (auto simp: place_of_def)
    with Some P show ?thesis by (auto simp: place_of_def links_of_def core_of_def intro: core_eq)
  qed
qed

lemma restored_captured:
  "restored_entity (capture_entity i e) = e\<lparr>e_zone := None, e_position := None, e_attached_to := None, e_attachments := None\<rparr>"
  by (cases e) (simp add: restored_entity_def capture_entity_def no_components_def)

section \<open>First pass: the entities\<close>

definition put_entity :: "entity_checkpoint \<Rightarrow> entity_table \<Rightarrow> entity_table" where
  "put_entity e T = T(cp_id e \<mapsto> restored_entity e)"

lemma put_entity_other: "j \<notin> cp_id ` set es \<Longrightarrow> fold put_entity es T j = T j"
  by (induction es arbitrary: T) (auto simp: put_entity_def)

lemma put_entity_in: "distinct (map cp_id es) \<Longrightarrow> e \<in> set es \<Longrightarrow> fold put_entity es T (cp_id e) = Some (restored_entity e)"
proof (induction es arbitrary: T)
  case (Cons x es)
  show ?case
  proof (cases "e \<in> set es")
    case False
    with Cons.prems have "cp_id x \<notin> cp_id ` set es" "e = x" by simp_all
    then show ?thesis by (simp add: put_entity_other) (simp add: put_entity_def)
  qed (use Cons in simp)
qed simp

lemma spawn_all:
  assumes "distinct (map cp_id es)" "\<forall>e \<in> set es. ents w (cp_id e) = None"
  shows "for_all restore_entity_components es w = (Inr () :: (simulation_error, unit) outcome, w\<lparr>ents := fold put_entity es (ents w)\<rparr>)"
  using assms
proof (induction es arbitrary: w)
  case (Cons e es)
  let ?w = "w\<lparr>ents := put_entity e (ents w)\<rparr>"
  have "restore_entity_components e w = (Inr () :: (simulation_error, unit) outcome, ?w)"
    using Cons.prems(2) by (simp add: restore_entity_components_def spawn_def put_entity_def)
  moreover have "for_all restore_entity_components es ?w =
      (Inr () :: (simulation_error, unit) outcome, ?w\<lparr>ents := fold put_entity es (ents ?w)\<rparr>)"
    by (rule Cons.IH) (use Cons.prems in \<open>auto simp: put_entity_def image_iff\<close>)
  ultimately show ?case by (simp add: seq_def bnd_def)
qed simp

section \<open>Second pass: the zones\<close>

abbreviation place_in :: "zoned_place \<Rightarrow> unit sim" where
  "place_in \<equiv> \<lambda>(p, z, _, i). convert ZoneFailed (insert_into_zone i p z None)"

definition zone_entry :: "zoned_place \<Rightarrow> player_id \<times> zone" where
  "zone_entry x = (fst x, fst (snd x))"

definition zoned_id :: "zoned_place \<Rightarrow> game_entity_id" where
  "zoned_id x = snd (snd (snd x))"

lemma convert_Inr_iff [result_simps]: "convert g m w = (Inr x, w') \<longleftrightarrow> m w = (Inr x, w')"
  by (auto simp: convert_def split: prod.splits sum.splits failure.splits)

lemma insert_last:
  assumes "unplaced i w" and run: "insert_into_zone i p z None w = (Inr u, w')"
  shows "w' = relist p z (zone_entities w p z @ [i]) (set_entity i (\<lambda>e. e\<lparr>e_controller := Some p, e_zone := Some z\<rparr>) w) \<and> zone_ok w'"
proof -
  from assms(1) have w: "ents w i \<noteq> None" "index_ok {i} w"
    by (auto simp: unplaced_def intro: unplaced_index [OF assms(1)])
  obtain w1 where "insert_into_zone_unchecked i p z None w = (Inr () :: (zone_error, unit) outcome, w1)"
    "w1 = relist p z (zone_entities w p z @ [i]) (set_entity i (\<lambda>e. e\<lparr>e_controller := Some p, e_zone := Some z\<rparr>) w)" "zone_ok w1"
    using insert_unchecked_run [OF w(2,1), of p z None] by auto
  moreover from run have "insert_into_zone_unchecked i p z None w = (Inr u :: (zone_error, unit) outcome, w')"
    by (auto simp: insert_into_zone_def seq_def bnd_def validate_zone_position_def validate_position_def split: if_splits)
  ultimately show ?thesis by simp
qed

definition only_moves :: "world \<Rightarrow> world \<Rightarrow> bool" where
  "only_moves w w' \<longleftrightarrow> w' = w\<lparr>ents := ents w', zone_index := zone_index w'\<rparr> \<and> core_of w' = core_of w \<and> links_of w' = links_of w"

lemma only_moves_refl [simp]: "only_moves w w"
  by (simp add: only_moves_def)

lemma only_moves_trans: "only_moves w w' \<Longrightarrow> only_moves w' w'' \<Longrightarrow> only_moves w w''"
  unfolding only_moves_def by (metis (no_types, lifting) world.surjective world.update_convs(1,3))

lemma only_moves_entity:
  "(\<And>e. core (f e) = core e \<and> e_attached_to (f e) = e_attached_to e \<and> e_attachments (f e) = e_attachments e) \<Longrightarrow>
    only_moves w (set_entity i f w)"
  by (auto simp: only_moves_def set_entity_def core_of_def links_of_def fun_eq_iff option.map_comp o_def intro!: option.map_cong)

lemma only_moves_relist: "only_moves w (relist p z ys w)"
  by (auto simp: only_moves_def relist_def put_index_def core_of_def links_of_def numbered_def core_def fun_eq_iff
      option.map_comp o_def intro!: option.map_cong split: option.split)

lemma relist_zone: "map_option e_zone (ents (relist p z ys w) j) = map_option e_zone (ents w j)"
  by (auto simp: relist_def numbered_def option.map_comp o_def intro!: option.map_cong split: option.split)

lemma place_step:
  assumes "unplaced i w" and run: "insert_into_zone i p z None w = (Inr u, w')"
  shows "zone_ok w'" "only_moves w w'" "\<And>j. j \<noteq> i \<Longrightarrow> unplaced j w \<Longrightarrow> unplaced j w'"
    "zone_entities w' p' z' = (if p' = p \<and> z' = z then zone_entities w p z @ [i] else zone_entities w p' z')"
proof -
  let ?f = "\<lambda>e. e\<lparr>e_controller := Some p, e_zone := Some z\<rparr>"
  have w': "w' = relist p z (zone_entities w p z @ [i]) (set_entity i ?f w)" and ok: "zone_ok w'"
    using insert_last [OF assms] by blast+
  show "zone_ok w'" by (rule ok)
  have "only_moves w (set_entity i ?f w)" by (rule only_moves_entity) (simp add: core_def)
  then show "only_moves w w'" unfolding w' by (rule only_moves_trans [OF _ only_moves_relist])
  show "unplaced j w'" if "j \<noteq> i" "unplaced j w" for j
  proof -
    have "map_option e_zone (ents w' j) = map_option e_zone (ents w j)"
      unfolding w' relist_zone using that(1) by (simp add: set_entity_def)
    with that(2) ok show ?thesis by (auto simp: unplaced_def)
  qed
  show "zone_entities w' p' z' = (if p' = p \<and> z' = z then zone_entities w p z @ [i] else zone_entities w p' z')"
  proof -
    have "zone_entities (set_entity i ?f w) p' z' = zone_entities w p' z'" by (simp add: zone_entities_def set_entity_def)
    then show ?thesis unfolding w' by simp
  qed
qed

lemma place_all:
  assumes "zone_ok w" "distinct (map zoned_id xs)" "\<forall>x \<in> set xs. unplaced (zoned_id x) w"
    "for_all place_in xs w = (Inr u, w')"
  shows "zone_ok w' \<and> only_moves w w' \<and>
    (\<forall>p z. zone_entities w' p z = zone_entities w p z @ map zoned_id (filter (\<lambda>x. zone_entry x = (p, z)) xs))"
  using assms
proof (induction xs arbitrary: w)
  case (Cons x xs)
  obtain p z n i where x: "x = (p, z, n, i)" by (metis surj_pair)
  from Cons.prems(4) obtain v w1 where w1: "insert_into_zone i p z None w = (Inr v, w1)" "for_all place_in xs w1 = (Inr u, w')"
    by (auto simp: x seq_Inr_iff convert_Inr_iff)
  have "unplaced i w" using Cons.prems(3) by (simp add: x zoned_id_def)
  note step = place_step [OF this w1(1)]
  have "\<forall>y \<in> set xs. unplaced (zoned_id y) w1"
  proof
    fix y assume "y \<in> set xs"
    with Cons.prems(2,3) have "zoned_id y \<noteq> i" "unplaced (zoned_id y) w" by (auto simp: x zoned_id_def image_iff)
    then show "unplaced (zoned_id y) w1" by (rule step(3))
  qed
  with Cons.IH [OF step(1) _ _ w1(2)] Cons.prems(2) step(2,4) show ?case
    by (auto simp: x zone_entry_def zoned_id_def intro: only_moves_trans)
qed simp

section \<open>Third pass: the attachments\<close>

lemma attach_effect:
  assumes "ents w i \<noteq> None" "ents w t \<noteq> None" "t \<noteq> i"
  shows "\<exists>w'. attach i t w = (Inr () :: (simulation_error, unit) outcome, w') \<and>
    w' = w\<lparr>ents := ents w'\<rparr> \<and> core_of w' = core_of w \<and> place_of w' = place_of w \<and>
    links_of w' = (links_of w)(i := map_option (\<lambda>(_, xs). (Some t, xs)) (links_of w i),
      t := map_option (\<lambda>(a, xs). (a, Some (or_default [] xs @ [i]))) (links_of w t))"
proof -
  obtain e u where ex: "ents w i = Some e" "ents w t = Some u" using assms by auto
  let ?e = "e\<lparr>e_attached_to := Some t\<rparr>" and ?u = "u\<lparr>e_attachments := Some (or_default [] (e_attachments u) @ [i])\<rparr>"
  let ?w = "w\<lparr>ents := (ents w)(i \<mapsto> ?e, t \<mapsto> ?u)\<rparr>"
  have "attach i t w = (Inr () :: (simulation_error, unit) outcome, ?w)"
    using ex assms(3) by (cases "e_attachments u") (simp_all add: attach_def update_def seq_def bnd_def set_entity_def)
  moreover have "core_of ?w = core_of w" "place_of ?w = place_of w"
    using ex by (auto simp: core_of_def place_of_def core_def fun_eq_iff)
  moreover have "links_of ?w = (links_of w)(i := map_option (\<lambda>(_, xs). (Some t, xs)) (links_of w i),
      t := map_option (\<lambda>(a, xs). (a, Some (or_default [] xs @ [i]))) (links_of w t))"
    using ex assms(3) by (auto simp: links_of_def fun_eq_iff)
  ultimately show ?thesis by (intro exI [of _ ?w]) simp
qed

lemma sorted_list_of_set_snoc:
  "finite S \<Longrightarrow> (\<And>x. x \<in> S \<Longrightarrow> x < (i :: nat)) \<Longrightarrow>
    or_default [] (as_relation S) @ [i] = sorted_list_of_set (insert i S)"
  using sorted_list_of_set_greatest [of S i] by (simp add: as_relation_def)

lemma attach_all:
  assumes ok: "links_ok w0" and dom: "dom (ents w) = dom (ents w0)"
    and es: "sorted_wrt (<) is" "set is \<subseteq> dom (ents w0)" "\<forall>i \<in> set is. \<forall>j \<in> S. j < i"
    and S: "\<forall>i. links_of w i = map_option (\<lambda>(a, _). (if i \<in> S then a else None, as_relation (attached_by w0 i \<inter> S))) (links_of w0 i)"
  shows "\<exists>w'. for_all restore_relationship (map (\<lambda>i. capture_entity i (the (ents w0 i))) is) w = (Inr (), w') \<and>
    w' = w\<lparr>ents := ents w'\<rparr> \<and> core_of w' = core_of w \<and> place_of w' = place_of w \<and>
    (\<forall>i. links_of w' i = map_option (\<lambda>(a, _). (if i \<in> S \<union> set is then a else None,
      as_relation (attached_by w0 i \<inter> (S \<union> set is)))) (links_of w0 i))"
  using dom es S
proof (induction "is" arbitrary: w S)
  case (Cons i js)
  from Cons.prems(3) obtain e where e: "ents w0 i = Some e" by auto
  have rest: "sorted_wrt (<) js" "set js \<subseteq> dom (ents w0)" "\<forall>j \<in> set js. \<forall>k \<in> insert i S. k < j"
    using Cons.prems(2-4) by auto
  have un: "insert i S \<union> set js = S \<union> set (i # js)" by auto
  show ?case
  proof (cases "e_attached_to e")
    case None
    have "i \<notin> attached_by w0 j" for j using e None by (auto simp: attached_by_def links_of_def)
    moreover have "links_of w0 i = Some (None, e_attachments e)" using e None by (simp add: links_of_def)
    ultimately have "links_of w j = map_option (\<lambda>(a, _). (if j \<in> insert i S then a else None,
        as_relation (attached_by w0 j \<inter> insert i S))) (links_of w0 j)" for j
      using Cons.prems(5) by (cases "j = i") (simp_all add: Int_insert_right)
    then have "\<forall>j. links_of w j = map_option (\<lambda>(a, _). (if j \<in> insert i S then a else None,
        as_relation (attached_by w0 j \<inter> insert i S))) (links_of w0 j)" by blast
    from Cons.IH [OF Cons.prems(1) rest this] show ?thesis
      using e None by (simp add: restore_relationship_def capture_entity_def seq_def bnd_def un)
  next
    case (Some t)
    from attached_target [OF ok e Some] have t: "ents w0 t \<noteq> None" "t \<noteq> i" by simp_all
    with e Cons.prems(1) have ex: "ents w i \<noteq> None" "ents w t \<noteq> None" by (auto simp: domIff set_eq_iff)
    from attach_effect [OF this t(2)] obtain w1 where w1: "attach i t w = (Inr () :: (simulation_error, unit) outcome, w1)"
      "w1 = w\<lparr>ents := ents w1\<rparr>" "core_of w1 = core_of w" "place_of w1 = place_of w"
      "links_of w1 = (links_of w)(i := map_option (\<lambda>(_, xs). (Some t, xs)) (links_of w i),
        t := map_option (\<lambda>(a, xs). (a, Some (or_default [] xs @ [i]))) (links_of w t))" by blast
    have it: "i \<in> attached_by w0 t" "\<And>j. j \<noteq> t \<Longrightarrow> i \<notin> attached_by w0 j"
      using e Some by (auto simp: attached_by_def links_of_def)
    have fin: "finite (attached_by w0 t \<inter> S)" using attached_by_finite [OF ok] by simp
    have "or_default [] (as_relation (attached_by w0 t \<inter> S)) @ [i] = sorted_list_of_set (insert i (attached_by w0 t \<inter> S))"
      by (rule sorted_list_of_set_snoc [OF fin]) (use Cons.prems(4) in auto)
    then have grow: "Some (or_default [] (as_relation (attached_by w0 t \<inter> S)) @ [i]) = as_relation (insert i (attached_by w0 t \<inter> S))"
      by (simp add: as_relation_def [of "insert i S'" for S'])
    have "i \<notin> S" using Cons.prems(4) by auto
    have li: "links_of w0 i = Some (Some t, e_attachments e)" using e Some by (simp add: links_of_def)
    have links: "links_of w1 j = map_option (\<lambda>(a, _). (if j \<in> insert i S then a else None,
        as_relation (attached_by w0 j \<inter> insert i S))) (links_of w0 j)" for j
    proof -
      consider "j = t" | "j = i" | "j \<noteq> t" "j \<noteq> i" by blast
      then show ?thesis
      proof cases
        case 1
        then show ?thesis using t(2) it(1) grow Cons.prems(5) unfolding w1(5)
          by (cases "links_of w0 t") (simp_all add: Int_insert_right split_beta)
      next
        case 2
        then show ?thesis using t(2) it(2) [of i] li Cons.prems(5) unfolding w1(5) by (simp add: Int_insert_right)
      next
        case 3
        then show ?thesis using it(2) [of j] Cons.prems(5) unfolding w1(5) by (simp add: Int_insert_right)
      qed
    qed
    have "dom (ents w1) = dom (ents w0)"
    proof -
      have "place_of w1 j = None \<longleftrightarrow> place_of w j = None" for j by (simp add: w1(4))
      then show ?thesis using Cons.prems(1) by (auto simp: place_of_def dom_def)
    qed
    from Cons.IH [OF this rest] links obtain w' where w': "for_all restore_relationship (map (\<lambda>i. capture_entity i (the (ents w0 i))) js) w1 = (Inr (), w')"
      "w' = w1\<lparr>ents := ents w'\<rparr>" "core_of w' = core_of w1" "place_of w' = place_of w1"
      "\<forall>j. links_of w' j = map_option (\<lambda>(a, _). (if j \<in> insert i S \<union> set js then a else None,
        as_relation (attached_by w0 j \<inter> (insert i S \<union> set js)))) (links_of w0 j)" by blast
    have "restore_relationship (capture_entity i (the (ents w0 i))) w = (Inr (), w1)"
      using e Some ex t(2) w1(1) by (simp add: restore_relationship_def capture_entity_def)
    moreover have "w' = w\<lparr>ents := ents w'\<rparr>" using w1(2) w'(2) by (metis world.surjective world.update_convs(1))
    ultimately show ?thesis using w' w1(3,4) by (intro exI [of _ w']) (simp add: seq_def bnd_def un)
  qed
qed simp

section \<open>The order of placement\<close>

definition place_key :: "zoned_place \<Rightarrow> nat \<times> nat \<times> nat \<times> nat" where
  "place_key = (\<lambda>(p, z, n, i). (player_index p, zone_number z, n, i))"

definition placement :: "world \<Rightarrow> game_entity_id \<Rightarrow> zoned_place" where
  "placement w i = (let e = the (ents w i) in (the (e_controller e), the (e_zone e), the (e_position e), i))"

definition placements :: "world \<Rightarrow> zoned_place list" where
  "placements w = sort_key place_key (map (placement w) (sorted_list_of_set (dom (ents w))))"

lemma place_key_inj: "inj place_key"
proof (rule injI)
  fix x y :: zoned_place
  have "player_index p = player_index q \<Longrightarrow> p = q" for p q by (cases p; cases q) simp_all
  moreover have "zone_number a = zone_number b \<Longrightarrow> a = b" for a b by (cases a; cases b) simp_all
  ultimately show "place_key x = place_key y \<Longrightarrow> x = y"
    by (simp add: place_key_def split_beta prod_eq_iff)
qed

lemma place_facts:
  assumes "zone_ok w" "zoned w" "ents w i = Some e"
  obtains p z n where "e_controller e = Some p" "e_zone e = Some z" "e_position e = Some n"
proof -
  from assms(2,3) obtain z where z: "e_zone e = Some z" unfolding zoned_but_def by blast
  with assms(1,3) have "e_controller e \<noteq> None \<and> e_position e \<noteq> None" unfolding index_ok_def by blast
  with z that show thesis by blast
qed

lemma zoned_entities_captured:
  assumes "zone_ok w" "zoned w" "finite (dom (ents w))"
  shows "zoned_entities (captured w) = Inr (placements w)"
proof -
  let ?is = "sorted_list_of_set (dom (ents w))"
  let ?c = "\<lambda>i. capture_entity i (the (ents w i))"
  have facts: "cp_zone (?c i) = Some (the (e_zone (the (ents w i)))) \<and> cp_controller (?c i) \<noteq> None \<and> cp_position (?c i) \<noteq> None"
    if "i \<in> dom (ents w)" for i
  proof -
    from that obtain e where e: "ents w i = Some e" by auto
    obtain p z n where "e_controller e = Some p" "e_zone e = Some z" "e_position e = Some n"
      by (rule place_facts [OF assms(1,2) e])
    with e show ?thesis by (simp add: capture_entity_def)
  qed
  have "List.map_filter (\<lambda>e. map_option (Pair e) (cp_zone e)) (map ?c is) = map (\<lambda>i. (?c i, the (e_zone (the (ents w i))))) is"
    if "set is \<subseteq> dom (ents w)" for "is"
    using that by (induction "is") (simp_all add: facts)
  moreover have "try_map (\<lambda>(e, z). zoned_entity e z) (map (\<lambda>i. (?c i, the (e_zone (the (ents w i))))) is)
      = (Inr (map (placement w) is) :: (simulation_error, zoned_place list) outcome)" if "set is \<subseteq> dom (ents w)" for "is"
    using that
  proof (induction "is")
    case (Cons i js)
    then obtain e where e: "ents w i = Some e" by auto
    obtain p z n where "e_controller e = Some p" "e_zone e = Some z" "e_position e = Some n"
      by (rule place_facts [OF assms(1,2) e])
    with Cons e show ?case by (simp add: zoned_entity_def placement_def capture_entity_def)
  qed simp
  ultimately show ?thesis
    using assms(3) by (simp add: zoned_entities_def captured_def placements_def place_key_def)
qed

lemma placements_in_zone:
  assumes ok: "zone_ok w" and z: "zoned w" and fin: "finite (dom (ents w))"
  shows "map zoned_id (filter (\<lambda>x. zone_entry x = (p, z)) (placements w)) = zone_entities w p z"
proof -
  let ?xs = "zone_entities w p z"
  let ?A = "filter (\<lambda>x. zone_entry x = (p, z)) (placements w)" and ?B = "map (\<lambda>n. (p, z, n, ?xs ! n)) [0..<length ?xs]"
  have inj: "inj_on place_key S" for S using place_key_inj by (rule inj_on_subset) simp
  have dist: "distinct (placements w)"
    using fin by (simp add: placements_def distinct_map inj_on_def placement_def Let_def)
  have "?A = ?B"
  proof (rule map_sorted_distinct_set_unique [OF inj])
    show "sorted (map place_key ?A)" by (rule sorted_filter) (simp add: placements_def)
    show "sorted (map place_key ?B)"
      by (simp add: sorted_iff_nth_mono_less place_key_def)
    show "distinct (map place_key ?A)" using dist inj by (simp add: distinct_map)
    have "distinct ?B" by (simp add: distinct_map inj_on_def)
    then show "distinct (map place_key ?B)" unfolding distinct_map using inj by blast
    show "set ?A = set ?B"
    proof (rule set_eqI)
      fix x :: zoned_place
      obtain q y n i where x: "x = (q, y, n, i)" by (metis surj_pair)
      have "x \<in> set ?A \<longleftrightarrow> q = p \<and> y = z \<and> at_place w i p z n"
      proof
        assume "x \<in> set ?A"
        then obtain j where j: "j \<in> dom (ents w)" "x = placement w j" "zone_entry x = (p, z)"
          using fin by (auto simp: placements_def)
        then obtain e where "ents w j = Some e" by auto
        moreover obtain p' z' n' where "e_controller e = Some p'" "e_zone e = Some z'" "e_position e = Some n'"
          by (rule place_facts [OF ok z calculation])
        ultimately show "q = p \<and> y = z \<and> at_place w i p z n"
          using j(2,3) by (simp add: x placement_def zone_entry_def at_place_def)
      next
        assume "q = p \<and> y = z \<and> at_place w i p z n"
        then have "x = placement w i" "i \<in> dom (ents w)" "zone_entry x = (p, z)"
          by (auto simp: x placement_def at_place_def zone_entry_def)
        then show "x \<in> set ?A" using fin by (simp add: placements_def)
      qed
      also have "\<dots> \<longleftrightarrow> q = p \<and> y = z \<and> n < length ?xs \<and> ?xs ! n = i"
        using ok unfolding index_ok_def by blast
      also have "\<dots> \<longleftrightarrow> x \<in> set ?B" by (auto simp: x)
      finally show "x \<in> set ?A \<longleftrightarrow> x \<in> set ?B" .
    qed
  qed
  then show ?thesis by (simp add: zoned_id_def o_def map_nth)
qed

section \<open>The restored world\<close>

lemma same_index_same_places:
  assumes "zone_ok w" "zoned w" "zone_ok w'" "zone_index w' = zone_index w" "dom (ents w') = dom (ents w)"
  shows "place_of w' = place_of w"
proof
  fix i
  show "place_of w' i = place_of w i"
  proof (cases "ents w i")
    case None
    moreover from this have "ents w' i = None" using assms(5) by (metis domIff)
    ultimately show ?thesis by (simp add: place_of_def)
  next
    case (Some e)
    then obtain p z n where e: "e_controller e = Some p" "e_zone e = Some z" "e_position e = Some n"
      by (rule place_facts [OF assms(1,2)])
    with Some have "at_place w i p z n" by (simp add: at_place_def)
    with assms(1) have "n < length (zone_entities w p z) \<and> zone_entities w p z ! n = i" unfolding index_ok_def by blast
    with assms(3,4) have "at_place w' i p z n" unfolding index_ok_def zone_entities_def by metis
    with e Some show ?thesis by (simp add: at_place_place_of place_of_def)
  qed
qed

text \<open>The world between the first and the second pass.\<close>

definition unplaced_world :: "enumeration \<Rightarrow> 64 word \<Rightarrow> player_id \<Rightarrow> world \<Rightarrow> world" where
  "unplaced_world order seed p0 w = (install_resources (checkpoint_of w) (generator w) (initial_world order seed p0))
     \<lparr>ents := fold put_entity (captured w) Map.empty\<rparr>"

lemma spawned_captured:
  assumes "finite (dom (ents w))"
  shows "for_all restore_entity_components (captured w) (install_resources (checkpoint_of w) (generator w) (initial_world order seed p0))
    = (Inr () :: (simulation_error, unit) outcome, unplaced_world order seed p0 w)"
  using spawn_all [of "captured w" "install_resources (checkpoint_of w) (generator w) (initial_world order seed p0)"]
  by (simp add: captured_ids [OF assms] unplaced_world_def install_resources_def initial_world_def)

text \<open>The last two passes give the world back.\<close>

lemma rebuild_captured:
  assumes ok: "zone_ok w" "links_ok w" "zoned w"
    and w3: "for_all place_in (placements w) (unplaced_world order seed p0 w) = (Inr v, w3)"
  shows "for_all restore_relationship (captured w) w3 = (Inr (), w\<lparr>ecs_order := order\<rparr>)"
proof -
  have fin: "finite (dom (ents w))" by (rule links_ok_finite [OF ok(2)])
  let ?T = "fold put_entity (captured w) Map.empty"
  let ?w2 = "unplaced_world order seed p0 w"
  have ids: "distinct (map cp_id (captured w))" by (simp add: captured_ids [OF fin])
  have ents2: "ents ?w2 = ?T" by (simp add: unplaced_world_def)
  have table: "?T i = map_option (\<lambda>e. e\<lparr>e_zone := None, e_position := None, e_attached_to := None, e_attachments := None\<rparr>) (ents w i)" for i
  proof (cases "ents w i")
    case None
    then have "i \<notin> cp_id ` set (captured w)" using fin by (auto simp: captured_def)
    then show ?thesis using None put_entity_other [of i "captured w" Map.empty] by simp
  next
    case (Some e)
    then have "capture_entity i e \<in> set (captured w)" using fin by (force simp: captured_def)
    from put_entity_in [OF ids this] Some show ?thesis by (simp add: restored_captured)
  qed
  have dom2: "dom (ents ?w2) = dom (ents w)" by (auto simp: ents2 table dom_def)
  have zones: "zone_entities ?w2 p z = []" for p z
    by (simp add: zone_entities_def unplaced_world_def install_resources_def initial_world_def)
  have ok2: "zone_ok ?w2"
    by (auto simp: index_ok_def zones at_place_def ents2 table)
  have "unplaced (zoned_id x) ?w2" if "x \<in> set (placements w)" for x
    using that fin ok2 by (auto simp: placements_def placement_def zoned_id_def unplaced_def ents2 table Let_def)
  moreover have "map zoned_id (map (placement w) is) = is" for "is"
    by (simp add: o_def placement_def zoned_id_def Let_def)
  then have "distinct (map zoned_id (placements w))"
    using fin unfolding placements_def by (metis distinct_map distinct_sort distinct_sorted_list_of_set set_sort)
  ultimately have P: "zone_ok w3" "only_moves ?w2 w3" "zone_index w3 = zone_index w"
    using place_all [OF ok2 _ _ w3] placements_in_zone [OF ok(1,3) fin]
    by (auto simp: zones fun_eq_iff) (auto simp: zone_entities_def)
  have dom3: "dom (ents w3) = dom (ents w)"
  proof -
    have "core_of w3 j = None \<longleftrightarrow> core_of ?w2 j = None" for j using P(2) by (simp add: only_moves_def)
    then show ?thesis using dom2 by (auto simp: core_of_def dom_def)
  qed
  have places: "place_of w3 = place_of w" by (rule same_index_same_places [OF ok(1,3) P(1,3) dom3])
  have cores: "core_of w3 = core_of w"
    using P(2) by (auto simp: only_moves_def core_of_def ents2 table option.map_comp o_def core_def fun_eq_iff intro!: option.map_cong)
  have "\<forall>i. links_of w3 i = map_option (\<lambda>(a, _). (if i \<in> {} then a else None, as_relation (attached_by w i \<inter> {}))) (links_of w i)"
    using P(2) by (auto simp: only_moves_def links_of_def ents2 table option.map_comp o_def intro!: option.map_cong)
  from attach_all [OF ok(2) dom3 _ _ _ this, of "sorted_list_of_set (dom (ents w))"] fin
  obtain w' where run: "for_all restore_relationship (captured w) w3 = (Inr (), w')" and A: "w' = w3\<lparr>ents := ents w'\<rparr>" "core_of w' = core_of w3" "place_of w' = place_of w3"
    "links_of w' i = map_option (\<lambda>(a, _). (if i \<in> dom (ents w) then a else None, as_relation (attached_by w i \<inter> dom (ents w)))) (links_of w i)" for i
    by (auto simp: captured_def)
  have "links_of w' = links_of w"
  proof
    fix i
    have "attached_by w i \<inter> dom (ents w) = attached_by w i" by (auto simp: attached_by_def links_of_def)
    moreover have "xs = as_relation (attached_by w i)" if "links_of w i = Some (a, xs)" for a xs
      using ok(2) that unfolding links_ok_def by blast
    ultimately show "links_of w' i = links_of w i"
      unfolding A(4) by (cases "links_of w i") (auto simp: links_of_def)
  qed
  then have "ents w' = ents w" using ents_eqI A(2,3) places cores by metis
  moreover have "w3 = ?w2\<lparr>ents := ents w3, zone_index := zone_index w\<rparr>" using P(2,3) by (simp add: only_moves_def)
  ultimately have "w' = ?w2\<lparr>ents := ents w, zone_index := zone_index w\<rparr>"
    using A(1) by (metis (no_types, lifting) world.surjective world.update_convs(1,3))
  then have "w' = w\<lparr>ecs_order := order\<rparr>"
    by (simp add: unplaced_world_def install_resources_def initial_world_def checkpoint_of_def)
  with run show ?thesis by simp
qed

text \<open>The two outcomes of a restoration of a captured world.\<close>

theorem restore_captured:
  assumes ok: "zone_ok w" "links_ok w" "zoned w"
    and run: "restore_checkpoint N (checkpoint_of w) (initial_world order seed p0) = (Inr u, w')"
  shows "w' = w\<lparr>ecs_order := order\<rparr>"
proof -
  have fin: "finite (dom (ents w))" by (rule links_ok_finite [OF ok(2)])
  obtain w3 v where w3: "for_all place_in (placements w) (unplaced_world order seed p0 w) = (Inr v, w3)"
    and w4: "for_all restore_relationship (captured w) w3 = (Inr u, w')"
    using run spawned_captured [OF fin, of order seed p0]
    by (auto simp: restore_checkpoint_def checkpoint_of_def rng_snapshot_roundtrip seq_Inr_iff bnd_Inr_iff
        zoned_entities_captured [OF ok(1,3) fin])
  from rebuild_captured [OF ok w3] w4 show ?thesis by simp
qed

lemma restore_succeeds:
  assumes ok: "zone_ok w" "links_ok w" "zoned w"
    and "validate_checkpoint (checkpoint_of w) = Inr ()"
    and place: "for_all place_in (placements w) (unplaced_world order seed p0 w) = (Inr v, w3)"
    and "validate_restored_programs N (w\<lparr>ecs_order := order\<rparr>) = Inr ()" "assert_restored (w\<lparr>ecs_order := order\<rparr>) = Inr ()"
  shows "restore_checkpoint N (checkpoint_of w) (initial_world order seed p0) = (Inr (), w\<lparr>ecs_order := order\<rparr>)"
proof -
  have fin: "finite (dom (ents w))" by (rule links_ok_finite [OF ok(2)])
  have fields: "cp_rng (checkpoint_of w) = rng_snapshot_of (generator w)" "cp_entities (checkpoint_of w) = captured w"
    by (simp_all add: checkpoint_of_def)
  show ?thesis
    using assms(4,6,7) place rebuild_captured [OF ok place] spawned_captured [OF fin, of order seed p0]
    by (simp add: restore_checkpoint_def fields rng_snapshot_roundtrip seq_def bnd_def zoned_entities_captured [OF ok(1,3) fin])
qed

end
