(* ===== verification/Hs_Snapshot.thy ===== *)
theory Hs_Snapshot imports Hs_Engine begin

text \<open>
  Snapshots (\<open>core/snapshot.rs\<close>, \<open>simulator/simulation_snapshot.rs\<close>): the canonical copy of the state a
  host compares and shows. The two queries enumerate the entities in the order of the library, and
  both results are sorted.
\<close>

record player_snapshot =
  ps_entity :: game_entity_id
  ps_id :: player_id
  ps_name :: rstring
  ps_hero :: game_entity_id
  ps_hero_power :: "game_entity_id option"
  ps_weapon :: "game_entity_id option"
  ps_hero_class :: hero_class
  ps_health :: int
  ps_armor :: int
  ps_available_resources :: int
  ps_maximum_resources :: int
  ps_used_resources :: int
  ps_temporary_resources :: int
  ps_pending_overload :: int
  ps_locked_overload :: int
  ps_resources_spent :: int
  ps_fatigue :: nat
  ps_hand :: "game_entity_id list"
  ps_deck :: "game_entity_id list"
  ps_board :: "game_entity_id list"

record game_object_snapshot =
  os_id :: game_entity_id
  os_definition_id :: rstring
  os_name :: rstring
  os_kind :: entity_kind
  os_controller :: player_id
  os_zone :: zone
  os_zone_position :: nat
  os_play_order :: nat
  os_attack :: "int option"
  os_maximum_health :: "int option"
  os_damage :: int
  os_durability :: "int option"
  os_exhausted :: "bool option"
  os_hero_class :: "hero_class option"
  os_hero_power_exhausted :: "bool option"

record game_snapshot =
  gs_ruleset :: ruleset_id
  gs_game :: game_state
  gs_turn_schedule :: turn_schedule
  gs_dominant_player :: player_id
  gs_players :: "player_snapshot list"
  gs_objects :: "game_object_snapshot list"
  gs_deaths :: "death_record list"
  gs_rng :: rng_snapshot
  gs_resolution :: resolution_work

text \<open>
  Every player has a hero with its vital components, or the snapshot panics; so does a difference or
  a sum beyond the range of an \<open>i32\<close>.
\<close>

definition player_view :: "world \<Rightarrow> game_entity_id \<times> player \<Rightarrow> ('e, player_snapshot) outcome" where
  "player_view w = (\<lambda>(i, pl).
     let p = player_identity pl in
     and_then (expect (player_entity w p)) (\<lambda>(_, _, st, d).
     and_then (expect (hero_id w p)) (\<lambda>hero.
     and_then (if in_i32 (maximum_health st - d) then Inr (maximum_health st - d) else panic) (\<lambda>health.
     and_then (available_resources pl) (\<lambda>available.
     Inr \<lparr>ps_entity = i, ps_id = p, ps_name = player_name pl, ps_hero = hero,
       ps_hero_power = List.find (\<lambda>j. has_kind w j HeroPower) (zone_entities w p Play),
       ps_weapon = weapon_active w p, ps_hero_class = or_default Neutral (component w e_hero_class hero),
       ps_health = health, ps_armor = or_default 0 (component w e_armor hero),
       ps_available_resources = available, ps_maximum_resources = maximum_resources pl,
       ps_used_resources = used_resources pl, ps_temporary_resources = temporary_resources pl,
       ps_pending_overload = pending_overload pl, ps_locked_overload = locked_overload pl,
       ps_resources_spent = resources_spent pl, ps_fatigue = fatigue pl,
       ps_hand = zone_entities w p Hand, ps_deck = zone_entities w p Deck,
       ps_board = board_entities w p\<rparr>)))))"

definition player_rows :: "world \<Rightarrow> (game_entity_id \<times> player) list" where
  "player_rows w = List.map_filter (\<lambda>(i, e). map_option (Pair i) (e_player e)) (iter_entities w)"

text \<open>The query for objects yields the entities that have every required component.\<close>

definition object_view :: "world \<Rightarrow> game_entity_id \<times> game_entity \<Rightarrow> game_object_snapshot option" where
  "object_view w = (\<lambda>(i, e).
     Option.bind (e_definition e) (\<lambda>def.
     Option.bind (e_name e) (\<lambda>name.
     Option.bind (e_kind e) (\<lambda>k.
     Option.bind (e_controller e) (\<lambda>p.
     Option.bind (e_zone e) (\<lambda>z.
     Option.bind (e_position e) (\<lambda>n.
     Option.bind (e_play_order e) (\<lambda>order.
     Some \<lparr>os_id = i, os_definition_id = def, os_name = name, os_kind = k, os_controller = p, os_zone = z,
       os_zone_position = or_default n (semantic_zone_position w i p z), os_play_order = order,
       os_attack = map_option (\<lambda>_. effective_attack w i) (e_stats e),
       os_maximum_health = map_option maximum_health (e_stats e), os_damage = or_default 0 (e_damage e),
       os_durability = map_option durability (e_weapon e),
       os_exhausted = map_option (attack_exhausted w i) (e_attack_state e),
       os_hero_class = e_hero_class e, os_hero_power_exhausted = map_option exhausted (e_hero_power e)\<rparr>))))))))"

definition build_object_snapshots :: "world \<Rightarrow> game_object_snapshot list" where
  "build_object_snapshots w = sort_key os_id (List.map_filter (object_view w) (iter_entities w))"

definition build_snapshot :: "world \<Rightarrow> ('e, game_snapshot) outcome" where
  "build_snapshot w =
     and_then (try_map (player_view w) (player_rows w)) (\<lambda>players.
     Inr \<lparr>gs_ruleset = ruleset_identity (rules w), gs_game = game w, gs_turn_schedule = turns w,
       gs_dominant_player = dominant_player w, gs_players = sort_key (player_index \<circ> ps_id) players,
       gs_objects = build_object_snapshots w, gs_deaths = death_cache w,
       gs_rng = rng_snapshot_of (generator w), gs_resolution = work w\<rparr>)"

end
