(* ===== verification/Hs_Checkpoint_Theorems.thy ===== *)
theory Hs_Checkpoint_Theorems imports Hs_Checkpoint Hs_Restore Hs_Snapshot begin

text \<open>
  The checks of a checkpoint refuse what they do not accept: none of them panics, whatever the
  checkpoint holds.
\<close>

named_theorems calm \<open>computations that do not panic\<close>

lemma calm_map_err [calm]: "no_panic r \<Longrightarrow> no_panic (map_err (map_failure g) r)"
  by (rule no_panic_cases [of r]) simp_all

lemma calm_checked [calm]: "no_panic r \<Longrightarrow> no_panic (checked r)"
  by (simp add: checked_def calm)

lemma calm_try_fold [calm]: "(\<And>s x. x \<in> set xs \<Longrightarrow> no_panic (f s x)) \<Longrightarrow> no_panic (try_fold f s xs)"
  by (rule no_panic_try_fold [where I = "\<lambda>_. True"]) simp_all

lemma calm_map_outcome [calm]: "(\<And>x. no_panic (f x)) \<Longrightarrow> no_panic (map_outcome f xs)"
  by (induction xs) simp_all

section \<open>References\<close>

lemma calm_references [calm]:
  "no_panic (validate_entity_reference ids i)" "no_panic (validate_counter_reference a b)"
  "no_panic (validate_next_counter a xs)"
  by (simp_all add: validate_entity_reference_def validate_counter_reference_def validate_next_counter_def)

lemma calm_optional [calm]: "no_panic (optional_reference ids x)"
  by (simp add: optional_reference_def calm split: option.split)

lemma calm_slots [calm]:
  "no_panic (validate_event_reference r i)" "no_panic (validate_event_slot_reference r j)"
  "no_panic (validate_draw_slot_reference r k)"
  by (simp_all add: validate_event_reference_def validate_event_slot_reference_def validate_draw_slot_reference_def calm)

lemma calm_selector [calm]: "no_panic (validate_selector_references ids s)"
  by (induction s) (simp_all add: calm)

lemma calm_condition [calm]: "no_panic (condition_references ids c)"
  by (simp add: condition_references_def calm split: trigger_condition.split)

lemma calm_programs [calm]:
  "no_panic (effect_references ids e)" "no_panic (validate_effect_references ids es)"
  "no_panic (choice_references ids opts)" "no_panic (validate_trigger_definition_references ids t)"
  "no_panic (validate_trigger_references ids ts)" "no_panic (validate_card_references ids c)"
  "no_panic (replacement_references ids h)"
  by (induction ids e and ids es and ids opts and ids t and ids ts and ids c and ids h
      rule: effect_references_validate_effect_references_choice_references_validate_trigger_definition_references_validate_trigger_references_validate_card_references_replacement_references.induct)
    (simp_all add: calm split: option.split)

lemma calm_contexts [calm]:
  "no_panic (validate_event_context_references ids c)" "no_panic (validate_effect_context_references ids d)"
  "no_panic (validate_damage_references ids rq)" "no_panic (seed_references ids s)"
  "no_panic (validate_trigger_candidate_references ids r x)"
  by (simp_all add: validate_event_context_references_def validate_effect_context_references_def
      validate_damage_references_def seed_references_def validate_trigger_candidate_references_def calm)

lemma calm_step [calm]: "no_panic (validate_sequence_step_references ids st)"
  by (cases st) (simp_all add: calm)

lemma calm_operation_references [calm]:
  "no_panic (validate_resolution_operation_references ids r op)" "no_panic (validate_choice_references ids r rq)"
  "no_panic (option_references ids r opts)" "no_panic (branch_references ids r ops)"
  by (induction ids r op and ids r rq and ids r opts and ids r ops
      rule: validate_resolution_operation_references_validate_choice_references_option_references_branch_references.induct)
    (simp_all add: calm split: option.split aura_refresh_plan.split)

section \<open>The checkpoint\<close>

lemma calm_work [calm]: "no_panic (validate_resolution_work ids r)"
proof -
  have "no_panic (draw_slot_check ids r x)" "no_panic (pending_transform_check ids r i)" "no_panic (event_check ids r e)"
    "no_panic (play_scope_check ids r s y)" "no_panic (scope_walk ids r m op)" for x i e s y m op
    by (auto simp: draw_slot_check_def pending_transform_check_def event_check_def play_scope_check_def scope_walk_def
        intro!: calm split: prod.split option.split draw_outcome.split resolution_op.split aura_refresh_plan.split)
  then show ?thesis
    unfolding validate_resolution_work_def
    by (auto intro!: calm split: option.split)
qed

lemma calm_checkpoint [calm]: "no_panic (validate_checkpoint c)"
proof -
  have ent: "no_panic (validate_checkpoint_entity ids e)" for ids e
    by (auto simp: validate_checkpoint_entity_def validate_enchantment_def intro!: calm split: option.split)
  have cost: "no_panic (cost_check es e)" for es e
    by (simp add: cost_check_def Let_def split: option.split)
  have role: "no_panic (role_check es p)" for es p
    by (simp add: role_check_def Let_def)
  show ?thesis
    unfolding validate_checkpoint_def Let_def validate_checkpoint_costs_def validate_checkpoint_player_roles_def
    by (auto intro!: calm ent cost role)
qed

section \<open>The restored world\<close>

lemma calm_valid_effects [calm]:
  "no_panic (valid_effects N k self es)" "no_panic (valid_effect N k self e)" "no_panic (valid_options N opts)"
  "no_panic (validate_card_program N c)" "no_panic (valid_card_triggers N ts)" "no_panic (valid_added_triggers N us)"
  "no_panic (validate_hero_replacement N h)"
  by (induction N k self es and N k self e and N opts and N c and N ts and N us and N h
      rule: valid_effects_valid_effect_valid_options_validate_card_program_valid_card_triggers_valid_added_triggers_validate_hero_replacement.induct)
    (auto simp: distinct_choices_def validate_card_def check_trigger_shape_def check_replacement_kinds_def
      split: option.split hero_health_policy.split)

lemma calm_effect_programs [calm]:
  "no_panic (validate_effect_program N es k)" "no_panic (validate_play_effect_program N es)"
  "no_panic (validate_trigger_enchantment N ts)"
  by (simp_all add: validate_effect_program_def validate_play_effect_program_def validate_trigger_enchantment_def calm)

lemma calm_validate_card [calm]: "no_panic (validate_card c)"
  by (simp add: validate_card_def)

lemma calm_transform [calm]: "no_panic (validate_transform_request N w i c)"
  unfolding validate_transform_request_def prepare_transform_def validate_transform_replacement_def
  by (auto simp: required_def transform_attachment_def split_beta Let_def intro!: calm)

lemma calm_card_spawn [calm]: "no_panic (validate_card_spawn w p c z n)"
  unfolding validate_card_spawn_def
  by (auto simp: validate_generation_capacity_def resolve_generation_position_def validate_board_position_def validate_position_def
      intro!: calm split: option.split)

text \<open>A full zone is no error of a copy.\<close>

lemma calm_full:
  assumes "no_panic r" "no_panic g"
  shows "no_panic (case r of Inl (Err (ZoneFailed (Full _ _))) \<Rightarrow> Inr None | Inl x \<Rightarrow> Inl x | Inr _ \<Rightarrow> g)"
  using assms(1)
proof (rule no_panic_cases)
  fix e assume "r = err e"
  moreover have "no_panic (case e of ZoneFailed (Full _ _) \<Rightarrow> Inr None | _ \<Rightarrow> err e)"
    by (simp split: simulation_error.split zone_error.split)
  ultimately show ?thesis by (cases e) (auto split: zone_error.split)
qed (simp add: assms(2))

lemma calm_copy [calm]: "no_panic (validate_copy_request N w rq)"
proof -
  have play: "no_panic (capture_play_copy w i e)" for i e
    unfolding capture_play_copy_def capture_attachment_def
    by (auto simp: required_copy_def split_beta Let_def intro!: calm)
  have "no_panic (prepare_copy N w rq)"
    unfolding prepare_copy_def
    by (auto intro!: calm calm_full play split: option.split)
  then show ?thesis by (simp add: validate_copy_request_def)
qed

lemma calm_branch_guard [calm]: "no_panic (branch_guard op)"
  by (simp add: branch_guard_def split: resolution_op.split sequence_step.split option.split)

lemma calm_operation [calm]:
  "no_panic (validate_resolution_operation N w op)" "no_panic (validate_choice_request N w rq)"
  "no_panic (valid_branches N w opts)" "no_panic (valid_branch N w ops)"
proof (induction N w op and N w rq and N w opts and N w ops
    rule: validate_resolution_operation_validate_choice_request_valid_branches_valid_branch.induct)
qed (simp_all add: calm valid_payer_def played_self_scope_def validate_play_scope_def distinct_choices_def
    split: option.split sequence_step.split)

lemma calm_restored_programs [calm]: "no_panic (validate_restored_programs N w)"
proof -
  have payers: "no_panic (validate_durability_payers r)" for r
  proof -
    have "no_panic (check_payer ps s)" for ps s
      by (simp split: resolution_op.split sequence_step.split)
    then show ?thesis by (auto simp: validate_durability_payers_def intro!: calm)
  qed
  show ?thesis
    unfolding validate_restored_programs_def
    by (auto simp: event_programs_def validate_play_scope_def intro!: calm payers split: option.split)
qed

lemma calm_weapons [calm]: "no_panic (assert_weapon_invariants w)"
proof -
  have scope: "no_panic (check_equip_scope w s)" for s
    by (simp add: check_equip_scope_def split: resolution_op.split sequence_step.split)
  have replacement: "no_panic (check_replacement w x)" for x
    by (simp add: check_replacement_def split: option.split prod.split)
  have weapon: "no_panic (check_weapon_in_zone w p i)" for p i
    by (simp add: check_weapon_in_zone_def)
  show ?thesis
    unfolding assert_weapon_invariants_def
    by (simp add: calm_try_fold scope replacement weapon split: option.split)
qed

lemma calm_zones [calm]: "no_panic (assert_zone_invariants w)"
  unfolding assert_zone_invariants_def split_beta
  by (intro calm_try_fold) (simp split: option.split)

lemma calm_enchantments [calm]: "no_panic (assert_enchantment_invariants w)"
  unfolding assert_enchantment_invariants_def split_beta
  by (intro calm_try_fold) simp

lemma calm_single:
  "(\<And>x. no_panic (f x)) \<Longrightarrow> no_panic (case xs of [x] \<Rightarrow> f x | _ \<Rightarrow> err e)"
  "(\<And>x y. no_panic (g x y)) \<Longrightarrow> no_panic (case ys of [(x, y)] \<Rightarrow> g x y | _ \<Rightarrow> err e)"
  by (simp_all split: list.split prod.split)

lemma calm_roles [calm]: "no_panic (assert_player_role_invariants w)"
  unfolding assert_player_role_invariants_def check_role_def
  by (intro calm_try_fold calm_single(2)) (simp add: calm_single(1))

lemma calm_resolution [calm]: "no_panic (assert_resolution_invariants w)"
proof -
  have "no_panic (check_payer ps s)" for ps s
    by (simp split: resolution_op.split sequence_step.split)
  then show ?thesis
    by (auto simp: assert_resolution_invariants_def validate_durability_payers_def intro!: calm)
qed

lemma calm_restored [calm]: "no_panic (assert_restored w)"
  unfolding assert_restored_def by (auto intro!: calm)

text \<open>
  The properties of checkpoints: a checkpoint is refused or restored to a sound simulation, and a
  fork of a reachable simulation is that simulation again.
\<close>

section \<open>Steps that do not panic\<close>

definition returns_from :: "world \<Rightarrow> ('e, 'a) step \<Rightarrow> bool" where
  "returns_from w m \<longleftrightarrow> no_panic (fst (m w))"

lemma returns_bnd: "returns_from w m \<Longrightarrow> (\<And>x w'. m w = (Inr x, w') \<Longrightarrow> returns_from w' (k x)) \<Longrightarrow> returns_from w (bnd m k)"
  by (auto simp: returns_from_def bnd_def no_panic_def split: prod.splits sum.splits)

lemma returns_seq: "returns_from w m \<Longrightarrow> (\<And>x w'. m w = (Inr x, w') \<Longrightarrow> returns_from w' n) \<Longrightarrow> returns_from w (seq m n)"
  by (simp add: seq_def returns_bnd)

lemma returns_convert: "returns_from w m \<Longrightarrow> returns_from w (convert g m)"
  by (auto simp: returns_from_def convert_def no_panic_def split: prod.splits sum.splits failure.splits)

lemma returns_for_all:
  "P w xs \<Longrightarrow> (\<And>x xs w. P w (x # xs) \<Longrightarrow> returns_from w (f x)) \<Longrightarrow>
    (\<And>x xs w u w'. P w (x # xs) \<Longrightarrow> f x w = (Inr u, w') \<Longrightarrow> P w' xs) \<Longrightarrow> returns_from w (for_all f xs)"
proof (induction xs arbitrary: w)
  case (Cons x xs)
  show ?case unfolding for_all.simps
    by (rule returns_seq) (use Cons in blast)+
qed (simp add: returns_from_def)

lemma returns_place: "unplaced i w \<Longrightarrow> returns_from w (insert_into_zone i p z None)"
proof -
  assume U: "unplaced i w"
  then have "ents w i \<noteq> None" "index_ok {i} w" by (auto simp: unplaced_def intro: unplaced_index)
  from insert_unchecked_run [OF this(2,1), of p z None]
  obtain w' where "insert_into_zone_unchecked i p z None w = (Inr () :: (zone_error, unit) outcome, w')" by auto
  then show ?thesis
    by (simp add: returns_from_def insert_into_zone_def seq_def validate_zone_position_def validate_position_def)
qed

lemma returns_relationship: "returns_from w (restore_relationship c)"
  by (cases "cp_attached_to c")
    (auto simp: returns_from_def restore_relationship_def attach_def update_def seq_def bnd_def set_entity_def)

lemma relationship_stays: "keeps (same_places w0) (restore_relationship c)"
  unfolding restore_relationship_def by (intro keeps stays_attach)

section \<open>What validation gives\<close>

lemma check_all_Inr: "check_all f xs = Inr u \<Longrightarrow> x \<in> set xs \<Longrightarrow> f x = Inr ()"
  by (induction xs) (auto simp: and_then_Inr_iff)

lemma validated_entity:
  assumes "validate_checkpoint_entity ids e = Inr u" "cp_zone e = Some z"
  shows "cp_controller e \<noteq> None \<and> cp_position e \<noteq> None"
  using assms by (auto simp: validate_checkpoint_entity_def and_then_Inr_iff split: if_splits)

lemma validated:
  assumes "validate_checkpoint c = Inr u"
  shows "distinct (map cp_id (cp_entities c))"
    "\<And>e z. e \<in> set (cp_entities c) \<Longrightarrow> cp_zone e = Some z \<Longrightarrow> cp_controller e \<noteq> None \<and> cp_position e \<noteq> None"
proof -
  from assms have "card (checkpoint_ids c) = length (cp_entities c)"
    "check_all (validate_checkpoint_entity (checkpoint_ids c)) (cp_entities c) = Inr ()"
    by (auto simp: validate_checkpoint_def Let_def and_then_Inr_iff split: if_splits)
  then show "distinct (map cp_id (cp_entities c))"
    "\<And>e z. e \<in> set (cp_entities c) \<Longrightarrow> cp_zone e = Some z \<Longrightarrow> cp_controller e \<noteq> None \<and> cp_position e \<noteq> None"
    by (auto simp: checkpoint_ids_def intro: card_distinct dest: check_all_Inr validated_entity)
qed

lemma zoned_entities_calm:
  assumes "\<And>e z. e \<in> set es \<Longrightarrow> cp_zone e = Some z \<Longrightarrow> cp_controller e \<noteq> None \<and> cp_position e \<noteq> None"
  shows "no_panic (zoned_entities es)"
proof -
  have "no_panic (try_map (\<lambda>(e, z). zoned_entity e z) (List.map_filter (\<lambda>e. map_option (Pair e) (cp_zone e)) es))"
    by (rule no_panic_try_map) (use assms in \<open>auto simp: zoned_entity_def List.map_filter_def\<close>)
  then show ?thesis by (rule no_panic_cases) (simp_all add: zoned_entities_def)
qed

lemma zoned_entities_ids:
  assumes "distinct (map cp_id es)" "zoned_entities es = Inr xs"
  shows "distinct (map zoned_id xs) \<and> zoned_id ` set xs \<subseteq> cp_id ` set es"
proof -
  let ?zs = "List.map_filter (\<lambda>e. map_option (Pair e) (cp_zone e)) es"
  from assms(2) obtain ys where ys: "try_map (\<lambda>(e, z). zoned_entity e z) ?zs = Inr ys"
    "xs = sort_key (\<lambda>(p, z, n, i). (player_index p, zone_number z, n, i)) ys"
    by (auto simp: zoned_entities_def map_sum_def split: sum.splits)
  have "map zoned_id ys = map (cp_id \<circ> fst) ?zs"
  proof -
    have "list_all2 (\<lambda>x y. cp_id (fst x) = zoned_id y) ?zs ys"
      using ys(1) unfolding try_map_Inr_iff
      by (rule list.rel_mono_strong)
        (auto simp: zoned_entity_def zoned_id_def expect_def and_then_Inr_iff ok_or_Inr_iff)
    then show ?thesis by (induction rule: list_all2_induct) simp_all
  qed
  moreover have "distinct (map (cp_id \<circ> fst) ?zs)" "(cp_id \<circ> fst) ` set ?zs \<subseteq> cp_id ` set es"
    using assms(1) by (induction es) (auto simp: List.map_filter_def)
  ultimately have "distinct (map zoned_id ys)" "zoned_id ` set ys \<subseteq> cp_id ` set es"
    by (metis, metis list.set_map)
  moreover have "mset xs = mset ys" by (simp add: ys(2))
  ultimately show ?thesis
    by (metis mset_eq_imp_distinct_iff mset_map set_mset_mset)
qed

section \<open>A restoration from any checkpoint\<close>

text \<open>The part after validation, from the world with the restored entities.\<close>

definition place_and_attach :: "native_effects \<Rightarrow> simulation_checkpoint \<Rightarrow> unit sim" where
  "place_and_attach N c = bnd (lift (zoned_entities (cp_entities c))) (\<lambda>zoned.
     seq (for_all place_in zoned)
     (seq (for_all restore_relationship (cp_entities c))
     (ask (\<lambda>w. seq (lift (validate_restored_programs N w)) (lift (assert_restored w))))))"

lemma placed_entries:
  assumes "zone_ok w" "distinct (map zoned_id xs)" "\<forall>x \<in> set xs. unplaced (zoned_id x) w"
  shows "returns_from w (for_all place_in xs)"
proof (rule returns_for_all [where P = "\<lambda>w xs. distinct (map zoned_id xs) \<and> (\<forall>x \<in> set xs. unplaced (zoned_id x) w)"])
  fix x :: zoned_place and xs w
  obtain p z n i where x: "x = (p, z, n, i)" by (metis surj_pair)
  assume P: "distinct (map zoned_id (x # xs)) \<and> (\<forall>y \<in> set (x # xs). unplaced (zoned_id y) w)"
  then have U: "unplaced i w" by (simp add: x zoned_id_def)
  from returns_place [OF this] show "returns_from w (place_in x)" by (simp add: x returns_convert)
  fix u :: unit and w' assume "place_in x w = (Inr u, w')"
  then have "insert_into_zone i p z None w = (Inr u, w')" by (simp add: x convert_Inr_iff)
  note others = place_step(3) [OF U this]
  show "distinct (map zoned_id xs) \<and> (\<forall>y \<in> set xs. unplaced (zoned_id y) w')"
  proof (intro conjI ballI)
    show "distinct (map zoned_id xs)" using P by simp
    fix y assume "y \<in> set xs"
    with P have "zoned_id y \<noteq> zoned_id x" "unplaced (zoned_id y) w" by (auto simp: image_iff)
    then show "unplaced (zoned_id y) w'" by (intro others) (simp_all add: x zoned_id_def)
  qed
qed (use assms in blast)

lemma place_and_attach_sound:
  assumes "validate_checkpoint c = Inr ()" "zone_ok w" "\<forall>e \<in> set (cp_entities c). unplaced (cp_id e) w"
  shows "returns_from w (place_and_attach N c)"
    "place_and_attach N c w = (Inr u, w') \<Longrightarrow> zone_ok w' \<and> assert_restored w' = Inr ()"
proof -
  note v = validated [OF assms(1)]
  from zoned_entities_calm [OF v(2)] have calm_zoned: "no_panic (zoned_entities (cp_entities c))" .
  have entries: "distinct (map zoned_id xs) \<and> (\<forall>x \<in> set xs. unplaced (zoned_id x) w)"
    if "zoned_entities (cp_entities c) = Inr xs" for xs
    using zoned_entities_ids [OF v(1) that] assms(3) by auto
  show "returns_from w (place_and_attach N c)"
    unfolding place_and_attach_def
  proof (intro returns_bnd returns_seq)
    show "returns_from w (lift (zoned_entities (cp_entities c)))" using calm_zoned by (simp add: returns_from_def)
    fix xs w1 assume "lift (zoned_entities (cp_entities c)) w = (Inr xs, w1)"
    then have "zoned_entities (cp_entities c) = Inr xs" "w1 = w" by simp_all
    then show "returns_from w1 (for_all place_in xs)" using placed_entries [OF assms(2)] entries by blast
  next
    show "returns_from w2 (for_all restore_relationship (cp_entities c))" for w2
      by (rule returns_for_all [where P = "\<lambda>_ _. True"]) (simp_all add: returns_relationship)
  next
    show "returns_from w3 (ask (\<lambda>w. seq (lift (validate_restored_programs N w)) (lift (assert_restored w))))" for w3
      using calm_restored_programs [of N w3] calm_restored [of w3]
      by (auto simp: returns_from_def seq_def bnd_def no_panic_def split: sum.splits)
  qed
  assume run: "place_and_attach N c w = (Inr u, w')"
  then obtain xs v w1 where xs: "zoned_entities (cp_entities c) = Inr xs" "for_all place_in xs w = (Inr v, w1)"
    and rest: "for_all restore_relationship (cp_entities c) w1 = (Inr (), w')" "assert_restored w' = Inr ()"
    by (auto simp: place_and_attach_def bnd_Inr_iff seq_Inr_iff)
  from place_all [OF assms(2) _ _ xs(2)] entries [OF xs(1)] have "zone_ok w1" by blast
  moreover have "same_places w1 w'"
    by (rule keepsD [OF keeps_for_all [OF relationship_stays] same_places_refl rest(1)])
  ultimately show "zone_ok w' \<and> assert_restored w' = Inr ()"
    using index_ok_same rest(2) by blast
qed

lemma empty_tables:
  "ents (install_resources c g (initial_world order seed p0)) = Map.empty"
  "zone_entities (w\<lparr>ents := T, zone_index := I\<rparr>) p z = I (p, z)"
  by (simp_all add: install_resources_def initial_world_def zone_entities_def)

lemma spawned_world:
  fixes g order seed p0
  assumes "distinct (map cp_id (cp_entities c))"
  defines "w1 \<equiv> install_resources c g (initial_world order seed p0)"
  shows "\<exists>w2. for_all restore_entity_components (cp_entities c) w1 = (Inr () :: (simulation_error, unit) outcome, w2) \<and>
    zone_ok w2 \<and> (\<forall>e \<in> set (cp_entities c). unplaced (cp_id e) w2)"
proof -
  let ?T = "fold put_entity (cp_entities c) Map.empty"
  let ?w2 = "w1\<lparr>ents := ?T\<rparr>"
  have none: "ents w1 = Map.empty" by (simp add: w1_def empty_tables)
  have run: "for_all restore_entity_components (cp_entities c) w1 = (Inr () :: (simulation_error, unit) outcome, ?w2)"
    using spawn_all [OF assms(1), of w1] by (simp add: none)
  have unzoned: "fold put_entity es T i = Some e \<Longrightarrow> (\<And>j f. T j = Some f \<Longrightarrow> e_zone f = None) \<Longrightarrow> e_zone e = None" for es T i e
  proof (induction es arbitrary: T)
    case (Cons x es)
    show ?case
      by (rule Cons.IH) (use Cons.prems in \<open>auto simp: put_entity_def restored_entity_def no_components_def split: if_splits\<close>)
  qed simp
  have "zone_entities ?w2 p z = []" for p z by (simp add: zone_entities_def w1_def install_resources_def initial_world_def)
  moreover have free: "e_zone e = None" if "ents ?w2 i = Some e" for i e using that unzoned by fastforce
  ultimately have ok: "zone_ok ?w2" by (auto simp: index_ok_def at_place_def)
  moreover have "unplaced (cp_id e) ?w2" if "e \<in> set (cp_entities c)" for e
    using put_entity_in [OF assms(1) that, of Map.empty] free ok by (auto simp: unplaced_def)
  ultimately show ?thesis using run by blast
qed

lemma restore_checkpoint_sound:
  fixes order seed p0
  defines "w0 \<equiv> initial_world order seed p0"
  shows "returns_from w0 (restore_checkpoint N c)"
    "restore_checkpoint N c w0 = (Inr u, w') \<Longrightarrow> zone_ok w' \<and> assert_restored w' = Inr ()"
proof -
  have "returns_from w0 (restore_checkpoint N c) \<and>
    (\<forall>u w'. restore_checkpoint N c w0 = (Inr u, w') \<longrightarrow> zone_ok w' \<and> assert_restored w' = Inr ())"
  proof (cases "validate_checkpoint c")
    case (Inl e)
    moreover from this have "no_panic (Inl e :: (simulation_error, unit) outcome)" using calm_checkpoint [of c] by simp
    ultimately show ?thesis by (simp add: restore_checkpoint_def returns_from_def seq_def bnd_def)
  next
    case (Inr u0)
    then have v: "validate_checkpoint c = Inr ()" by simp
    show ?thesis
    proof (cases "rng_from_snapshot (cp_rng c)")
      case None
      then show ?thesis by (simp add: restore_checkpoint_def returns_from_def seq_def bnd_def v)
    next
      case (Some g)
      obtain w2 where w2: "for_all restore_entity_components (cp_entities c) (install_resources c g w0)
          = (Inr () :: (simulation_error, unit) outcome, w2)"
        "zone_ok w2" "\<forall>e \<in> set (cp_entities c). unplaced (cp_id e) w2"
        using spawned_world [OF validated(1) [OF v], of g order seed p0] by (auto simp: w0_def)
      have "restore_checkpoint N c w0 = place_and_attach N c w2"
        using w2(1) by (simp add: restore_checkpoint_def place_and_attach_def v Some seq_def bnd_def)
      with place_and_attach_sound [OF v w2(2,3), of N] show ?thesis
        by (simp add: returns_from_def)
    qed
  qed
  then show "returns_from w0 (restore_checkpoint N c)"
    "restore_checkpoint N c w0 = (Inr u, w') \<Longrightarrow> zone_ok w' \<and> assert_restored w' = Inr ()" by blast+
qed

end
