(* ===== verification/Hs_Views.thy ===== *)
theory Hs_Views imports Hs_Snapshot Hs_Determinism begin

text \<open>
  What a host sees of a simulation does not depend on the order in which the ECS library enumerates
  the entities, as long as every player has one player entity: the snapshot and the legal actions.
\<close>

section \<open>One player entity each\<close>

definition player_entries :: "world \<Rightarrow> player_id \<Rightarrow> (game_entity_id \<times> game_entity) list" where
  "player_entries w p = filter (\<lambda>(_, e). map_option player_identity (e_player e) = Some p) (iter_entities w)"

definition one_player_each :: "world \<Rightarrow> bool" where
  "one_player_each w \<longleftrightarrow> (\<forall>p. \<exists>x. player_entries w p = [x])"

lemma single_result: "(case xs of [x] \<Rightarrow> f x | _ \<Rightarrow> err e) = Inr u \<Longrightarrow> \<exists>x. xs = [x]"
  by (auto split: list.splits)

lemma roles_one_player_each:
  assumes "assert_player_role_invariants w = Inr ()"
  shows "one_player_each w"
  unfolding one_player_each_def
proof
  fix p
  have "check_role w p = Inr ()"
    using assms by (cases p) (auto simp: assert_player_role_invariants_def all_players_def and_then_Inr_iff)
  then show "\<exists>x. player_entries w p = [x]"
    unfolding check_role_def player_entries_def by (auto split: list.splits)
qed

lemma player_entity_entries:
  "player_entity w p = (case player_entries w p of
     [] \<Rightarrow> None
   | (i, e) # _ \<Rightarrow>
       Option.bind (e_player e) (\<lambda>pl.
       Option.bind (hero_id w p) (\<lambda>h.
       Option.bind (component w e_stats h) (\<lambda>st.
       Option.bind (component w e_damage h) (\<lambda>d. Some (i, pl, st, d))))))"
proof -
  have "List.find P xs = (case filter P xs of [] \<Rightarrow> None | x # _ \<Rightarrow> Some x)" for P and xs :: "(game_entity_id \<times> game_entity) list"
    by (induction xs) auto
  then show ?thesis unfolding player_entity_def player_entries_def
    by (simp split: list.split)
qed

text \<open>The two enumerations of one table.\<close>

definition enumerated_twice :: "world \<Rightarrow> (entity_table \<Rightarrow> game_entity_id list) \<Rightarrow> bool" where
  "enumerated_twice w order \<longleftrightarrow> enumerates (ecs_order w) \<and> enumerates order \<and> finite (dom (ents w))"

lemma entities_mset: "enumerated_twice w order \<Longrightarrow> mset (iter_entities (w\<lparr>ecs_order := order\<rparr>)) = mset (iter_entities w)"
  by (simp add: enumerated_twice_def iter_entities_other)

lemma entries_mset: "enumerated_twice w order \<Longrightarrow> mset (player_entries (w\<lparr>ecs_order := order\<rparr>) p) = mset (player_entries w p)"
  by (simp add: player_entries_def entities_mset)

lemma one_player_each_other:
  assumes "enumerated_twice w order"
  shows "one_player_each (w\<lparr>ecs_order := order\<rparr>) \<longleftrightarrow> one_player_each w"
proof -
  have "length (player_entries (w\<lparr>ecs_order := order\<rparr>) p) = length (player_entries w p)" for p
    using entries_mset [OF assms] by (metis size_mset)
  moreover have "(\<exists>x. xs = [x]) \<longleftrightarrow> length xs = 1" for xs :: "(game_entity_id \<times> game_entity) list"
    by (cases xs) auto
  ultimately show ?thesis by (simp add: one_player_each_def)
qed

lemma entries_other:
  assumes "enumerated_twice w order" "one_player_each w"
  shows "player_entries (w\<lparr>ecs_order := order\<rparr>) p = player_entries w p"
proof -
  obtain x where "player_entries w p = [x]" using assms(2) unfolding one_player_each_def by blast
  with entries_mset [OF assms(1), of p] show ?thesis by simp
qed

named_theorems views \<open>what does not read the enumeration\<close>

lemma field_views [views]:
  "ents (w\<lparr>ecs_order := order\<rparr>) = ents w" "game (w\<lparr>ecs_order := order\<rparr>) = game w"
  "rules (w\<lparr>ecs_order := order\<rparr>) = rules w" "equipment (w\<lparr>ecs_order := order\<rparr>) = equipment w"
  "component (w\<lparr>ecs_order := order\<rparr>) = component w"
  "zone_entities (w\<lparr>ecs_order := order\<rparr>) = zone_entities w"
  by (simp_all add: fun_eq_iff component_def zone_entities_def)

lemma kind_views [views]:
  "has_kind (w\<lparr>ecs_order := order\<rparr>) = has_kind w" "has_keyword (w\<lparr>ecs_order := order\<rparr>) = has_keyword w"
  "on_board (w\<lparr>ecs_order := order\<rparr>) = on_board w" "weapon_in_play (w\<lparr>ecs_order := order\<rparr>) = weapon_in_play w"
  "attack_of (w\<lparr>ecs_order := order\<rparr>) = attack_of w" "hero_id (w\<lparr>ecs_order := order\<rparr>) = hero_id w"
  unfolding fun_eq_iff has_kind_def has_keyword_def on_board_def weapon_in_play_def attack_of_def hero_id_def views
  by (simp_all add: has_kind_def views)

lemma board_views [views]:
  "board_entities (w\<lparr>ecs_order := order\<rparr>) = board_entities w" "weapon_active (w\<lparr>ecs_order := order\<rparr>) = weapon_active w"
  unfolding fun_eq_iff board_entities_def weapon_active_def views by simp_all

lemma attack_views [views]: "attack_weapon (w\<lparr>ecs_order := order\<rparr>) = attack_weapon w"
  unfolding fun_eq_iff attack_weapon_def views by simp

lemma combat_views [views]:
  "grants_windfury (w\<lparr>ecs_order := order\<rparr>) = grants_windfury w"
  "effective_attack (w\<lparr>ecs_order := order\<rparr>) = effective_attack w"
  "is_character (w\<lparr>ecs_order := order\<rparr>) = is_character w"
  "permits_direct_target (w\<lparr>ecs_order := order\<rparr>) = permits_direct_target w"
  "target_matches (w\<lparr>ecs_order := order\<rparr>) = target_matches w"
  unfolding fun_eq_iff grants_windfury_def effective_attack_def is_character_def permits_direct_target_def target_matches_def views
  by simp_all

lemma place_views [views]:
  "attack_exhausted (w\<lparr>ecs_order := order\<rparr>) = attack_exhausted w"
  "semantic_zone_position (w\<lparr>ecs_order := order\<rparr>) = semantic_zone_position w"
  "active_taunt (w\<lparr>ecs_order := order\<rparr>) = active_taunt w"
  "eligible_targets (w\<lparr>ecs_order := order\<rparr>) = eligible_targets w"
  "board_is_full (w\<lparr>ecs_order := order\<rparr>) = board_is_full w"
  "controlled_entity_in_zone (w\<lparr>ecs_order := order\<rparr>) = controlled_entity_in_zone w"
  unfolding fun_eq_iff attack_exhausted_def semantic_zone_position_def active_taunt_def eligible_targets_def
    board_is_full_def controlled_entity_in_zone_def views
  by simp_all

lemma target_views [views]:
  "target_options (w\<lparr>ecs_order := order\<rparr>) = target_options w"
  "validate_supplied_target (w\<lparr>ecs_order := order\<rparr>) = validate_supplied_target w"
  "validate_board_position (w\<lparr>ecs_order := order\<rparr>) = validate_board_position w"
  unfolding fun_eq_iff target_options_def validate_supplied_target_def validate_board_position_def views
  by simp_all

lemma action_views [views]:
  "validate_target (w\<lparr>ecs_order := order\<rparr>) = validate_target w"
  "validate_attack (w\<lparr>ecs_order := order\<rparr>) = validate_attack w"
  "card_offers (w\<lparr>ecs_order := order\<rparr>) = card_offers w"
  "attack_offers (w\<lparr>ecs_order := order\<rparr>) = attack_offers w"
  "hero_power_offers (w\<lparr>ecs_order := order\<rparr>) = hero_power_offers w"
  unfolding fun_eq_iff validate_target_def validate_attack_def card_offers_def attack_offers_def hero_power_offers_def views
  by simp_all

lemma player_entity_other:
  assumes "enumerated_twice w order" "one_player_each w"
  shows "player_entity (w\<lparr>ecs_order := order\<rparr>) = player_entity w"
  unfolding fun_eq_iff player_entity_entries entries_other [OF assms] views by simp

section \<open>The snapshot\<close>

lemma map_filter_member: "y \<in> set (List.map_filter f xs) \<longleftrightarrow> (\<exists>x \<in> set xs. f x = Some y)"
  by (induction xs) (auto split: option.splits)

lemma map_filter_mset: "mset (List.map_filter f xs) = image_mset (the \<circ> f) (filter_mset (\<lambda>x. f x \<noteq> None) (mset xs))"
  by (induction xs) (auto split: option.splits)

text \<open>A walk that can only panic, over a permuted list.\<close>

lemma try_map_permuted:
  assumes "mset xs = mset ys" "inj_on key (set xs)"
    and f: "\<And>x. x \<in> set xs \<Longrightarrow> f x = (panic :: ('e, 'b) outcome) \<or> (\<exists>y. f x = Inr y \<and> k y = key x)"
  shows "map_sum id (sort_key k) (try_map f xs) = map_sum id (sort_key k) (try_map f ys)"
proof (cases "\<exists>x \<in> set xs. f x = panic")
  case True
  have "try_map f zs = panic" if "set zs = set xs" for zs
  proof -
    have "\<lbrakk>set zs \<subseteq> set xs; \<exists>x \<in> set zs. f x = panic\<rbrakk> \<Longrightarrow> try_map f zs = panic" for zs
      using f by (induction zs) (auto simp: and_then_def split: sum.splits, fastforce+)
    then show ?thesis using that True by blast
  qed
  with mset_eq_setD [OF assms(1)] show ?thesis by simp
next
  case False
  define g where "g x = (case f x of Inr y \<Rightarrow> y | Inl _ \<Rightarrow> undefined)" for x
  have g: "f x = Inr (g x) \<and> k (g x) = key x" if "x \<in> set xs" for x
    using f [OF that] False that by (auto simp: g_def)
  have maps: "try_map f xs = Inr (map g xs)" "try_map f ys = Inr (map g ys)"
    using g mset_eq_setD [OF assms(1)] by (auto intro: try_map_total)
  have "sort_key k (map g xs) = sort_key k (map g ys)"
    by (rule sort_key_inj_key_eq) (use assms g in \<open>auto simp: inj_on_def\<close>)
  with maps show ?thesis by simp
qed

lemma player_rows_keyed:
  assumes "one_player_each w"
  shows "inj_on (player_index \<circ> player_identity \<circ> snd) (set (player_rows w))"
proof (rule inj_onI)
  fix x y assume xy: "x \<in> set (player_rows w)" "y \<in> set (player_rows w)"
    and same: "(player_index \<circ> player_identity \<circ> snd) x = (player_index \<circ> player_identity \<circ> snd) y"
  obtain i pl j pm where ij: "x = (i, pl)" "y = (j, pm)" by (metis surj_pair)
  have "player_identity pl = player_identity pm"
    using same by (cases "player_identity pl"; cases "player_identity pm") (simp_all add: ij)
  moreover obtain e f where "(i, e) \<in> set (iter_entities w)" "e_player e = Some pl"
    "(j, f) \<in> set (iter_entities w)" "e_player f = Some pm"
    using xy by (auto simp: ij player_rows_def map_filter_member)
  ultimately have "(i, e) \<in> set (player_entries w (player_identity pl)) \<and> (j, f) \<in> set (player_entries w (player_identity pl)) \<and>
      e_player e = Some pl \<and> e_player f = Some pm"
    by (simp add: player_entries_def)
  moreover obtain z where "player_entries w (player_identity pl) = [z]" using assms unfolding one_player_each_def by blast
  ultimately show "x = y" by (auto simp: ij)
qed

lemma player_view_key:
  "player_view w x = (panic :: ('e, player_snapshot) outcome) \<or>
     (\<exists>y. player_view w x = (Inr y :: ('e, player_snapshot) outcome) \<and> (player_index \<circ> ps_id) y = (player_index \<circ> player_identity \<circ> snd) x)"
proof -
  have "try_fold (\<lambda>a d. if in_i32 (a + d) then Inr (a + d) else panic) m ds = (panic :: ('e, int) outcome) \<or>
      (\<exists>n. try_fold (\<lambda>a d. if in_i32 (a + d) then Inr (a + d) else panic) m ds = (Inr n :: ('e, int) outcome))" for m ds
    by (induction ds arbitrary: m) simp_all
  then have "available_resources pl = (panic :: ('e, int) outcome) \<or> (\<exists>n. available_resources pl = (Inr n :: ('e, int) outcome))" for pl
    unfolding available_resources_def by blast
  then consider "available_resources (snd x) = (panic :: ('e, int) outcome)"
    | n where "available_resources (snd x) = (Inr n :: ('e, int) outcome)" by blast
  then show ?thesis
    by cases (cases x; cases "player_entity w (player_identity (snd x))"; cases "hero_id w (player_identity (snd x))";
      auto simp: player_view_def Let_def)+
qed

lemma object_views_permuted:
  assumes "enumerated_twice w order"
  shows "build_object_snapshots (w\<lparr>ecs_order := order\<rparr>) = build_object_snapshots w"
proof -
  have view: "object_view (w\<lparr>ecs_order := order\<rparr>) = object_view w" unfolding object_view_def views ..
  have id: "os_id y = fst x" if "object_view w x = Some y" for x y
    using that by (auto simp: object_view_def bind_eq_Some_conv split: prod.splits)
  have inj: "inj_on os_id (set (List.map_filter (object_view w) (iter_entities w)))"
  proof (rule inj_onI)
    fix y z assume "y \<in> set (List.map_filter (object_view w) (iter_entities w))"
      "z \<in> set (List.map_filter (object_view w) (iter_entities w))" "os_id y = os_id z"
    then obtain a b where ab: "a \<in> set (iter_entities w)" "object_view w a = Some y"
      "b \<in> set (iter_entities w)" "object_view w b = Some z" "fst a = fst b"
      by (metis id map_filter_member)
    have "ents w (fst x) = Some (snd x)" if "x \<in> set (iter_entities w)" for x
      using iter_entities_member [of "fst x" "snd x" w] that by simp
    from this [OF ab(1)] this [OF ab(3)] ab(5) have "a = b" by (simp add: prod_eq_iff)
    with ab show "y = z" by simp
  qed
  have perm: "mset (List.map_filter (object_view w) (iter_entities (w\<lparr>ecs_order := order\<rparr>))) =
      mset (List.map_filter (object_view w) (iter_entities w))"
    by (simp only: map_filter_mset entities_mset [OF assms])
  show ?thesis
    unfolding build_object_snapshots_def view
    by (rule sort_key_inj_key_eq) (simp_all add: perm mset_eq_setD [OF perm] inj)
qed

theorem snapshots_determined:
  assumes "enumerated_twice w order" "one_player_each w"
  shows "build_snapshot (w\<lparr>ecs_order := order\<rparr>) = (build_snapshot w :: ('e, game_snapshot) outcome)"
proof -
  let ?w = "w\<lparr>ecs_order := order\<rparr>"
  have view: "player_view ?w = (player_view w :: _ \<Rightarrow> ('e, player_snapshot) outcome)"
    unfolding player_view_def views player_entity_other [OF assms] ..
  have "mset (player_rows ?w) = mset (player_rows w)"
    using entities_mset [OF assms(1)] by (simp add: player_rows_def map_filter_mset)
  note same = this
  have "map_sum id (sort_key (player_index \<circ> ps_id)) (try_map (player_view w :: _ \<Rightarrow> ('e, player_snapshot) outcome) (player_rows ?w)) =
      map_sum id (sort_key (player_index \<circ> ps_id)) (try_map (player_view w) (player_rows w))"
  proof (rule try_map_permuted [OF same, where key = "player_index \<circ> player_identity \<circ> snd"])
    show "inj_on (player_index \<circ> player_identity \<circ> snd) (set (player_rows ?w))"
      using player_rows_keyed [OF assms(2)] mset_eq_setD [OF same] by simp
  qed (rule player_view_key)
  then show ?thesis
    by (auto simp: build_snapshot_def view object_views_permuted [OF assms(1)] map_sum_def and_then_def split: sum.splits)
qed

section \<open>The legal actions\<close>

lemma validation_views:
  assumes "enumerated_twice w order" "one_player_each w"
  shows "validate_action N (w\<lparr>ecs_order := order\<rparr>) = validate_action N w"
proof -
  let ?w = "w\<lparr>ecs_order := order\<rparr>"
  have price: "check_cost ?w = check_cost w"
    unfolding fun_eq_iff check_cost_def player_entity_other [OF assms] by simp
  have card: "validate_play_card N ?w = validate_play_card N w"
    unfolding fun_eq_iff validate_play_card_def views price by simp
  have hero_pw: "validate_hero_power N ?w = validate_hero_power N w"
    unfolding fun_eq_iff validate_hero_power_def views price by simp
  show ?thesis unfolding fun_eq_iff validate_action_def card hero_pw views by simp
qed

theorem legal_actions_determined:
  assumes "enumerated_twice w order" "one_player_each w"
  shows "legal_actions N (w\<lparr>ecs_order := order\<rparr>) = legal_actions N w"
proof -
  have "accept_offers N (w\<lparr>ecs_order := order\<rparr>) as = accept_offers N w as" for as
    by (induction as) (simp_all add: validation_views [OF assms] split: sum.split failure.split)
  then show ?thesis unfolding legal_actions_def offers_def views by simp
qed

end
