(* ===== verification/Hs_Fork.thy ===== *)
theory Hs_Fork imports Hs_Checkpoint_Theorems Hs_Views begin

text \<open>
  The properties of checkpoints, on every reachable simulation and at the start of a game.
\<close>

section \<open>The start of a game\<close>

definition in_zone :: "zone \<Rightarrow> nat \<Rightarrow> game_entity \<Rightarrow> game_entity" where
  "in_zone z n e = e\<lparr>e_zone := Some z, e_position := Some n\<rparr>"

definition sample_power :: "player_id \<Rightarrow> game_entity" where
  "sample_power p = card_entity p (card_hero_power ([80] @ lit [CHR 0x27] @ lit ''s Hero Power'') 2)"

definition start_entities :: entity_table where
  "start_entities = [0 \<mapsto> in_zone SetAside 0 (player_object One [80] True),
     1 \<mapsto> in_zone Play 0 (hero_object One [80]), 2 \<mapsto> in_zone Play 1 (sample_power One),
     3 \<mapsto> in_zone SetAside 0 (player_object Two [80] False),
     4 \<mapsto> in_zone Play 0 (hero_object Two [80]), 5 \<mapsto> in_zone Play 1 (sample_power Two)]"

definition start_index :: "player_id \<times> zone \<Rightarrow> game_entity_id list" where
  "start_index = (\<lambda>_. [])((One, SetAside) := [0], (One, Play) := [1, 2], (Two, SetAside) := [3], (Two, Play) := [4, 5])"

definition start_world :: "(entity_table \<Rightarrow> game_entity_id list) \<Rightarrow> world" where
  "start_world order = (initial_world order 7 One)\<lparr>ents := start_entities, zone_index := start_index, next_game_id := 6,
     game := default_game_state\<lparr>status := AwaitingAction\<rparr>\<rparr>"

lemma small_numbers: "(2 :: nat) = Suc (Suc 0)" "(3 :: nat) = Suc (Suc (Suc 0))" "(4 :: nat) = Suc (Suc (Suc (Suc 0)))"
  "(5 :: nat) = Suc (Suc (Suc (Suc (Suc 0))))" "(6 :: nat) = Suc (Suc (Suc (Suc (Suc (Suc 0)))))"
  by simp_all

lemmas object_defs = in_zone_def sample_power_def player_object_def hero_object_def card_hero_power_def non_minion_def
  card_entity_def no_components_def

lemma started: "with_seed_and_dominant_player order sample_player sample_player 7 One = Some (start_world order)"
  by (simp add: with_seed_and_dominant_player_def start_world_def start_entities_def start_index_def runs setup_defs
      in_zone_def sample_power_def small_numbers)

lemma start_ids: "sorted_list_of_set (dom start_entities) = [0, 1, 2, 3, 4, 5]"
  by (simp add: start_entities_def small_numbers)

lemma start_captured: "captured (start_world order) = map (\<lambda>i. capture_entity i (the (start_entities i))) [0, 1, 2, 3, 4, 5]"
proof -
  have "ents (start_world order) = start_entities" by (simp add: start_world_def)
  then show ?thesis by (simp only: captured_def start_ids)
qed

lemma start_looked_up:
  "start_entities 0 = Some (in_zone SetAside 0 (player_object One [80] True))"
  "start_entities (Suc 0) = Some (in_zone Play 0 (hero_object One [80]))" "start_entities 2 = Some (in_zone Play 1 (sample_power One))"
  "start_entities 3 = Some (in_zone SetAside 0 (player_object Two [80] False))"
  "start_entities 4 = Some (in_zone Play 0 (hero_object Two [80]))" "start_entities 5 = Some (in_zone Play 1 (sample_power Two))"
  by (simp_all add: start_entities_def)

abbreviation start_captures :: "entity_checkpoint list" where
  "start_captures \<equiv> map (\<lambda>i. capture_entity i (the (start_entities i))) [0, 1, 2, 3, 4, 5]"

lemma start_entity_checks: "check_all (validate_checkpoint_entity {0, 1, 2, 3, 4, 5}) start_captures = Inr ()"
  by (simp add: start_looked_up validate_checkpoint_entity_def validate_enchantment_def bad_weapon_def retained_providers_def
      capture_entity_def object_defs)

lemma start_cost_checks: "validate_checkpoint_costs start_captures = Inr ()"
  by (simp add: validate_checkpoint_costs_def start_looked_up cost_check_def attached_costs_def capture_entity_def object_defs Let_def)

lemma start_role_checks: "validate_checkpoint_player_roles start_captures = Inr ()"
  by (simp add: validate_checkpoint_player_roles_def all_players_def role_check_def active_of_def start_looked_up capture_entity_def object_defs Let_def)

lemma start_orders: "List.map_filter cp_play_order start_captures = [0, 0, 0, 0, 0, 0]"
  by (simp add: start_looked_up capture_entity_def object_defs)

lemma start_valid: "validate_checkpoint (checkpoint_of (start_world order)) = Inr ()"
proof -
  have "work (start_world order) = empty_work" "next_play_order (start_world order) = 1" "next_game_id (start_world order) = 6" "rules (start_world order) = default_ruleset"
    by (simp_all add: start_world_def initial_world_def)
  moreover have "checkpoint_ids (checkpoint_of (start_world order)) = {0, 1, 2, 3, 4, 5}"
    by (simp add: checkpoint_ids_def checkpoint_of_def start_captured)
  ultimately show ?thesis
    using start_entity_checks start_cost_checks start_role_checks start_orders
    by (simp add: validate_checkpoint_def checkpoint_of_def start_captured default_ruleset_def empty_work_def
       validate_next_counter_def validate_resolution_work_def Let_def)
qed


lemma start_zoned: "zoned_entities start_captures = Inr [(One, Play, 0, 1), (One, Play, 1, 2), (One, SetAside, 0, 0),
  (Two, Play, 0, 4), (Two, Play, 1, 5), (Two, SetAside, 0, 3)]"
  by (simp add: zoned_entities_def zoned_entity_def start_looked_up capture_entity_def object_defs)

definition bare :: "game_entity \<Rightarrow> game_entity" where
  "bare e = e\<lparr>e_zone := None, e_position := None, e_attached_to := None, e_attachments := None\<rparr>"

lemma start_table: "fold put_entity start_captures Map.empty = [0 \<mapsto> bare (player_object One [80] True),
     1 \<mapsto> bare (hero_object One [80]), 2 \<mapsto> bare (sample_power One),
     3 \<mapsto> bare (player_object Two [80] False),
     4 \<mapsto> bare (hero_object Two [80]), 5 \<mapsto> bare (sample_power Two)]"
  by (simp add: put_entity_def start_looked_up restored_captured in_zone_def bare_def)

lemma start_placed:
  assumes "ents w = fold put_entity start_captures Map.empty" "zone_index w = (\<lambda>_. [])" "rules w = default_ruleset"
    "equipment w = \<lparr>active_weapon = \<lambda>p. None, pending_weapons = []\<rparr>"
  shows "\<exists>w'. for_all place_in [(One, Play, 0, 1), (One, Play, 1, 2), (One, SetAside, 0, 0),
    (Two, Play, 0, 4), (Two, Play, 1, 5), (Two, SetAside, 0, 3)] w = (Inr (), w')"
  using assms unfolding start_table
  by (simp add: runs in_zone_def sample_power_def player_object_def hero_object_def card_hero_power_def non_minion_def convert_def bare_def)


lemma start_reached: "reachable N (start_world order)"
  by (rule reachable.new_game [OF started])

lemma start_placements: "placements (start_world order) = [(One, Play, 0, 1), (One, Play, 1, 2), (One, SetAside, 0, 0),
    (Two, Play, 0, 4), (Two, Play, 1, 5), (Two, SetAside, 0, 3)]"
proof -
  have "zone_ok (start_world order) \<and> links_ok (start_world order) \<and> zoned (start_world order)"
    by (rule reachable_wf [OF start_reached])
  then show ?thesis
    using zoned_entities_captured [of "start_world order"] links_ok_finite start_zoned by (simp add: start_captured)
qed

lemma start_iterated: "iter_entities (start_world ascending) = map (\<lambda>i. (i, the (start_entities i))) [0, 1, 2, 3, 4, 5]"
proof -
  have "finite (dom start_entities)" by (simp add: start_entities_def)
  then show ?thesis
    using iter_entities_map [of "start_world ascending"] ascending_enumerates(1) start_ids
    by (simp add: start_world_def initial_world_def ascending_def)
qed

lemma start_fields: "work (start_world order) = empty_work" "game (start_world order) = default_game_state\<lparr>status := AwaitingAction\<rparr>"
  "ents (start_world order) = start_entities" "zone_index (start_world order) = start_index" 
  "equipment (start_world order) = \<lparr>active_weapon = \<lambda>p. None, pending_weapons = []\<rparr>"
  by (simp_all add: start_world_def initial_world_def)

lemma start_programs: "validate_restored_programs N (start_world ascending) = Inr ()"
  by (simp add: validate_restored_programs_def start_iterated start_fields start_looked_up object_defs empty_work_def validate_durability_payers_def)

lemma start_asserts: "assert_restored (start_world ascending) = Inr ()"
proof -
  have "assert_weapon_invariants (start_world ascending) = Inr ()"
    by (simp add: assert_weapon_invariants_def start_fields empty_work_def all_players_def zone_entities_def start_index_def
      check_weapon_in_zone_def has_kind_def component_def start_looked_up object_defs)
  moreover have "assert_zone_invariants (start_world ascending) = Inr ()"
    using zone_ok_asserted reachable_wf [OF start_reached] by blast
  moreover have "assert_enchantment_invariants (start_world ascending) = Inr ()"
    by (simp add: assert_enchantment_invariants_def start_iterated start_looked_up object_defs)
  moreover have "assert_player_role_invariants (start_world ascending) = Inr ()"
    by (simp add: assert_player_role_invariants_def all_players_def check_role_def start_iterated active_kind_def zone_entities_def start_index_def
      has_kind_def component_def start_fields start_looked_up object_defs)
  moreover have "assert_resolution_invariants (start_world ascending) = Inr ()"
    by (simp add: assert_resolution_invariants_def start_fields empty_work_def validate_durability_payers_def sequence_clear_def)
  ultimately show ?thesis by (simp add: assert_restored_def checked_def)
qed

lemma start_restored:
  "restore_checkpoint N (checkpoint_of (start_world ascending)) (initial_world ascending seed p0) = (Inr (), start_world ascending)"
proof -
  let ?w = "start_world ascending"
  have ok: "zone_ok ?w" "links_ok ?w" "zoned ?w" using reachable_wf [OF start_reached] by blast+
  have w2: "ents (unplaced_world ascending seed p0 ?w) = fold put_entity start_captures Map.empty"
    "zone_index (unplaced_world ascending seed p0 ?w) = (\<lambda>_. [])" "rules (unplaced_world ascending seed p0 ?w) = default_ruleset"
    "equipment (unplaced_world ascending seed p0 ?w) = \<lparr>active_weapon = \<lambda>p. None, pending_weapons = []\<rparr>"
    by (simp_all only: unplaced_world_def start_captured)
      (simp_all add: install_resources_def checkpoint_of_def initial_world_def start_world_def)
  obtain w3 where "for_all place_in (placements ?w) (unplaced_world ascending seed p0 ?w) = (Inr (), w3)"
    using start_placed [OF w2] by (auto simp: start_placements)
  moreover have "?w\<lparr>ecs_order := ascending\<rparr> = ?w" by (simp add: start_world_def initial_world_def)
  ultimately show ?thesis
    using restore_succeeds [OF ok start_valid, of ascending seed p0 "()" w3 N] start_programs start_asserts by simp
qed


section \<open>Properties\<close>

lemma from_checkpoint_cases:
  "from_checkpoint N order c = (case fst (restore_checkpoint N c (initial_world order 0 One)) of
     Inl e \<Rightarrow> Inl e | Inr _ \<Rightarrow> Inr (snd (restore_checkpoint N c (initial_world order 0 One))))"
  by (simp add: from_checkpoint_def split: prod.split sum.split)

lemma restored_asserts: "assert_restored w = Inr () \<Longrightarrow> assert_invariants w = Inr ()"
  by (auto simp: assert_restored_def assert_invariants_def checked_def and_then_Inr_iff map_err_Inr_iff)

lemma restored_roles: "assert_restored w = Inr () \<Longrightarrow> one_player_each w"
  by (rule roles_one_player_each) (auto simp: assert_restored_def checked_def and_then_Inr_iff map_err_Inr_iff)

lemma start_from_checkpoint:
  "from_checkpoint Map.empty ascending (checkpoint_of (start_world ascending)) = Inr (start_world ascending)"
  by (simp add: from_checkpoint_def start_restored)

text \<open>C9: whatever a checkpoint holds, it is refused with an error or restored, and nothing panics on the
  way; a restored simulation has a right zone index and satisfies every invariant the source can
  assert.\<close>
theorem checkpoints_are_refused_or_sound:
  "from_checkpoint N order c \<noteq> panic \<and>
   (\<forall>w. from_checkpoint N order c = Inr w \<longrightarrow> zone_ok w \<and> assert_invariants w = Inr ())"
proof -
  note sound = restore_checkpoint_sound [where order = order and seed = 0 and ?p0.0 = One and N = N and c = c]
  from sound(1) have "fst (restore_checkpoint N c (initial_world order 0 One)) \<noteq> panic"
    by (simp add: returns_from_def no_panic_def)
  then show ?thesis
    using sound(2) by (auto simp: from_checkpoint_def restored_asserts split: prod.splits sum.splits)
qed

theorem checkpoints_are_refused_or_sound_witness:
  "from_checkpoint Map.empty ascending (checkpoint_of (start_world ascending)) = Inr (start_world ascending) \<and>
   assert_invariants (start_world ascending) = Inr ()"
  using checkpoints_are_refused_or_sound [of Map.empty ascending "checkpoint_of (start_world ascending)"]
    start_from_checkpoint by blast

text \<open>C3: every reachable simulation can be captured, the capture does not depend on the enumeration of the
  library, and a fork that succeeds is the same simulation: every component of every entity, the
  zones, the attachments in their order, the retained work and every resource.\<close>
theorem forks_are_exact:
  assumes "reachable N w" "enumerates (ecs_order w)"
  shows "build_checkpoint False w = Inr (checkpoint_of w) \<and>
    (\<forall>order w'. fork N order w = Inr w' \<longrightarrow> w' = w\<lparr>ecs_order := order\<rparr>)"
proof -
  have ok: "zone_ok w" "links_ok w" "zoned w" using reachable_wf [OF assms(1)] by blast+
  have built: "build_checkpoint False w = Inr (checkpoint_of w)" by (rule build_checkpoint_of [OF ok(2) assms(2)])
  moreover have "w' = w\<lparr>ecs_order := order\<rparr>" if "fork N order w = Inr w'" for order w'
  proof -
    from that obtain u where "restore_checkpoint N (checkpoint_of w) (initial_world order 0 One) = (Inr u, w')"
      by (auto simp: fork_def built from_checkpoint_def split: prod.splits sum.splits)
    then show ?thesis by (rule restore_captured [OF ok])
  qed
  ultimately show ?thesis by blast
qed

lemma start_fork: "fork Map.empty ascending (start_world ascending) = Inr (start_world ascending)"
proof -
  have "links_ok (start_world ascending)" using reachable_wf [OF start_reached] by blast
  moreover have "enumerates (ecs_order (start_world ascending))"
    using ascending_enumerates(1) by (simp add: start_world_def initial_world_def)
  ultimately show ?thesis by (simp add: fork_def build_checkpoint_of start_from_checkpoint)
qed

theorem forks_are_exact_witness:
  "\<exists>w. fork Map.empty ascending (start_world ascending) = Inr w \<and> w = (start_world ascending)\<lparr>ecs_order := ascending\<rparr>"
proof -
  have "enumerates (ecs_order (start_world ascending))"
    using ascending_enumerates(1) by (simp add: start_world_def initial_world_def)
  from forks_are_exact [OF start_reached this] start_fork show ?thesis by blast
qed

text \<open>C10: a host cannot tell a fork from the simulation it was taken of: it shows the same snapshot and offers
  the same legal actions, however the library enumerates the entities of the two.\<close>
theorem forks_look_the_same:
  assumes "reachable N w" "enumerates (ecs_order w)" "enumerates order" "fork N order w = Inr w'"
  shows "build_snapshot w' = (build_snapshot w :: (simulation_error, game_snapshot) outcome) \<and> legal_actions N w' = legal_actions N w"
proof -
  have ok: "zone_ok w" "links_ok w" "zoned w" using reachable_wf [OF assms(1)] by blast+
  have built: "build_checkpoint False w = Inr (checkpoint_of w)" by (rule build_checkpoint_of [OF ok(2) assms(2)])
  from assms(4) obtain u where run: "restore_checkpoint N (checkpoint_of w) (initial_world order 0 One) = (Inr u, w')"
    by (auto simp: fork_def built from_checkpoint_def split: prod.splits sum.splits)
  then have w': "w' = w\<lparr>ecs_order := order\<rparr>" by (rule restore_captured [OF ok])
  have "enumerated_twice w order"
    using assms(2,3) links_ok_finite [OF ok(2)] by (simp add: enumerated_twice_def)
  moreover have "one_player_each w"
    using restored_roles restore_checkpoint_sound(2) [OF run] one_player_each_other [OF calculation] w' by blast
  ultimately show ?thesis unfolding w' using snapshots_determined legal_actions_determined by blast
qed

lemma start_fork_reversed: "fork Map.empty ascending (start_world (rev \<circ> ascending)) = Inr (start_world ascending)"
proof -
  have "links_ok (start_world (rev \<circ> ascending))" using reachable_wf [OF start_reached] by blast
  moreover have "enumerates (ecs_order (start_world (rev \<circ> ascending)))"
    using ascending_enumerates(2) by (simp add: start_world_def initial_world_def)
  moreover have "checkpoint_of (start_world (rev \<circ> ascending)) = checkpoint_of (start_world ascending)"
    by (simp add: checkpoint_of_def start_captured) (simp add: start_world_def initial_world_def)
  ultimately show ?thesis by (simp add: fork_def build_checkpoint_of start_from_checkpoint)
qed

theorem forks_look_the_same_witness:
  "fork Map.empty ascending (start_world (rev \<circ> ascending)) = Inr (start_world ascending) \<and>
     build_snapshot (start_world ascending) = (build_snapshot (start_world (rev \<circ> ascending)) :: (simulation_error, game_snapshot) outcome) \<and>
     legal_actions Map.empty (start_world ascending) = legal_actions Map.empty (start_world (rev \<circ> ascending))"
proof -
  have "enumerates (ecs_order (start_world (rev \<circ> ascending)))"
    using ascending_enumerates(2) by (simp add: start_world_def initial_world_def)
  from forks_look_the_same [OF start_reached this ascending_enumerates(1) start_fork_reversed] start_fork_reversed show ?thesis by blast
qed

end
