(* ===== verification/Spec2Isabelle.thy ===== *)
theory Spec2Isabelle imports Bet_Theorems Book_Wire Calc_Theorems Ticket_Publication_Theorems Review_Theorems Hs_Turns Hs_Rng Hs_Zone_Theorems Hs_Reachable Hs_Legal Hs_Determinism Hs_Step_Theorems Hs_Fork begin

text \<open>
  The core logic of the Rust programs of this repository, and the theorems that make it correct.
  The programs do not call each other; what they share here is the vocabulary of the base
  theories: \<open>Prelude\<close> (results as sums, checked machine arithmetic, early return), \<open>Rust_Text\<close>
  (strings, parsing of numbers), \<open>Ordered_Map\<close> (\<open>BTreeMap\<close>, as a locale with its interpretation),
  \<open>Json\<close> (values of \<open>serde_json\<close>) and \<open>Effects\<close> (functions with a state that can fail, for the tools).

  \<^bold>\<open>The prediction bot\<close> (\<open>prediction_bot/lib/src\<close>) keeps a log of events; a projection of it holds
  the accounts and the markets, and a command is decided on the projection, giving the events to
  append.
    \<^item> \<open>Bet_Types\<close>: the data of \<open>domain.rs\<close> and \<open>types.rs\<close>. \<open>Bet_Domain\<close>: \<open>apply_inner\<close>, \<open>replay\<close>,
      \<open>payouts\<close> and what they call. \<open>Bet_Decide\<close>: \<open>decide_with_membership\<close> and the decisions.
      \<open>Bet_Safety\<close>: \<open>odds.rs\<close>, and the safety of decisions.
    \<^item> \<open>Bet_Payouts\<close>, \<open>Bet_Invariant\<close>, \<open>Bet_Safety\<close>, \<open>Bet_Liveness\<close>: payouts are largest
      remainder shares, every event keeps the projection well-formed and conserves points, nothing
      panics, a settlement asked for by someone entitled to it goes through, grants follow their
      schedule. \<open>Bet_Safety\<close> also holds a history the witnesses use, \<open>Bet_Theorems\<close> the properties.

  \<^bold>\<open>The book rankings\<close> (\<open>book_smartz/domain\<close>) order the books of a reader by comparisons: a new book
  is placed by binary search, one answer at a time.
    \<^item> \<open>Book_Ranking\<close> (\<open>identity.rs\<close>, \<open>projection.rs\<close>), \<open>Book_Command\<close> (\<open>command.rs\<close>, \<open>notice.rs\<close>);
      \<open>Book_Theorems\<close>: the ranking is sorted by any order the answers agree with, the number of
      questions is logarithmic, a command executed is the replay of its events.
    \<^item> \<open>Book_Codec\<close> (\<open>cloudevents.rs\<close>, over \<open>Json\<close>): the CloudEvents form of events and notices and its
      strict decoder. The crates it calls are the record \<open>library\<close>; \<open>faithful\<close> in \<open>Book_Wire\<close> is what they
      document of the values that the codec hands to them: events are built from the attributes that
      \<open>base_envelope\<close> sets; an event in the profile (valid extensions, among them no attribute and no
      \<open>data_base64\<close>; a subject, a time, JSON data of at most 100 levels without fractional numbers) is
      written and read again; identifiers and times have a text; a URL that was parsed has a normal form.
      \<open>Book_Wire\<close>: a history survives its encoding, a document keeps its context (if its schema in normal
      form is still accepted and its data is in the profile), an accepted text agrees with its
      event, a notice is never read as an event, the sequence extension sorts as the numbers do.

  \<^bold>\<open>The calculator\<close> (\<open>kafka_calculator/core\<close>) validates a graph of calculations before it runs.
    \<^item> \<open>Calc_Node\<close> (\<open>expression.rs\<close>, \<open>node.rs\<close>), \<open>Calc_Graph\<close> (\<open>graph.rs\<close>).
    \<^item> \<open>Calc_Cycles\<close>, \<open>Calc_Order\<close>, \<open>Calc_Valid\<close>, \<open>Calc_Typing\<close>, \<open>Calc_Validation\<close>: one phase each; \<open>Calc_Theorems\<close>: \<open>validate\<close> accepts exactly the valid graphs,
      reports real cycles, orders topologically and finds the only typing.
    \<^item> The depth-first search recurses; the model gives it as much fuel as there are nodes, and
      \<open>Calc_Cycles\<close> shows that it is never used up.

  \<^bold>\<open>The publication of tickets\<close> (\<open>tools/ticket_publication\<close>) turns a plan into GitHub issues. What it has
  done is in one file; it is killed and restarted at will, and never requests an issue twice.
    \<^item> \<open>Ticket_Plan\<close> (\<open>plan.rs\<close>): plans, saved batches and their checks; \<open>Ticket_Theorems\<close>: the checks
      decide what a plan and a batch have to be.
    \<^item> \<open>Ticket_Session\<close> (\<open>progress.rs\<close>, \<open>store.rs\<close>): the record \<open>service\<close> stands for \<open>gh\<close>, the file system
      and the fingerprint, all of them arbitrary functions: any request can fail after it took effect,
      and a save can replace the file and fail. A session holds the service's state, the file, the
      batch in memory and its deeds, the events and the commits in their order.
    \<^item> \<open>Ticket_Remote\<close> (\<open>github.rs\<close>, \<open>graph.rs\<close>): requests, observation, links. \<open>Ticket_Publish\<close>
      (\<open>labels.rs\<close>, \<open>publish.rs\<close>): labels, creation, the attempt to publish; the loop of creation ends
      because every pass leaves fewer issues to create. \<open>Ticket_Command\<close> (\<open>recovery.rs\<close>, \<open>main.rs\<close>): the
      recovery and the commands.
    \<^item> \<open>Ticket_Watch\<close> states the promise of the publisher as an observer of deeds, and a calculus that
      bounds the deeds of a computation; \<open>Ticket_Promise\<close> carries the promise through publication;
      \<open>Ticket_Campaign\<close> closes it over any sequence of commands, and its judgement \<open>prompt\<close> shows that the
      deed before every request that changes GitHub is a replacement of the file. A crash is any beginning of the
      deeds of a command. \<open>Ticket_Publication_Theorems\<close> states the properties, and runs a publication
      against a small service for the witnesses.

  \<^bold>\<open>The requests for a hosted review\<close> (\<open>tools/hosted_review\<close>) are comments that ask a service to review
  a commit. A command may die at any moment; a request that may have been sent is never sent again.
    \<^item> \<open>Review_Request\<close> (\<open>policy.rs\<close>, \<open>store.rs\<close>, \<open>github.rs\<close>, \<open>main.rs\<close>): the saved requests, the evidence in the
      comments, the decision, and the actions. The record \<open>host\<close> stands for \<open>gh\<close>, the file system and
      the crates for times, UUIDs and JSON, all of them arbitrary. \<open>Review_Wake\<close> (\<open>wake.rs\<close>): the results of
      checks, the observation, the scheduled wake, and the commands. A desk holds the host's state, the
      two files, the requests in memory and the deeds.
    \<^item> \<open>Review_Safety\<close>: the promise of a command as an observer of its deeds, and the calculus that shows
      that commands keep it. \<open>Review_Theorems\<close>: any history of commands and crashes keeps the requests
      for a commit apart; a wake notifies exactly on transitions; completed work has its evidence.

  \<^bold>\<open>The Hearthstone simulator\<close> (\<open>hearthstone_simulator\<close>) is a rules engine. An action pushes
  resolution operations on a stack; the engine pops and runs them one at a time, and an operation
  changes entities and pushes further operations, until the stack is empty or a player has to choose.
    \<^item> State: \<open>Hs_Turns\<close> (\<open>core/game.rs\<close>, the turn schedule), \<open>Hs_Rng\<close> (\<open>rng.rs\<close>), \<open>Hs_Types\<close> (components,
      cards, effects, triggers), \<open>Hs_Work\<close> (operations, the work, the rule set, trace, errors).
      \<open>Hs_World\<close>: the ECS world of the source is a table of entities with an optional field per
      component, the resources, and a function for the order in which the library enumerates
      entities, which is arbitrary. A system is a \<open>step\<close>: it takes the world and returns it with a
      result or an error. A failed step returns the world as far as it came, as the code does.
    \<^item> Operations, in the order of the files under \<open>simulator/\<close>: \<open>Hs_Resolver\<close>, \<open>Hs_Enchantment\<close>,
      \<open>Hs_Zone\<close>, \<open>Hs_Death\<close>, \<open>Hs_Aura\<close>, \<open>Hs_Weapon\<close>, \<open>Hs_Trigger\<close>, \<open>Hs_Health\<close>,
      \<open>Hs_Player\<close>, \<open>Hs_Cards\<close>, \<open>Hs_Select\<close>, \<open>Hs_Effects\<close> and \<open>Hs_Dispatch\<close> (the executor of
      effects), \<open>Hs_Validation\<close>, \<open>Hs_Sequence\<close> (the steps of player actions) and \<open>Hs_Engine\<close> (the
      dispatcher, the loop, \<open>submit_action\<close>, \<open>submit_choice\<close>, \<open>legal_actions\<close>).
    \<^item> \<open>Hs_Invariant\<close>: the locale \<open>engine_invariant\<close> of the predicates that the steps of the engine keep;
      its laws are about the primitive changes, its lemmas carry them through every operation.
      \<open>Hs_Interface\<close> interprets it for the agreement of the zone index with the entities (with
      \<open>Hs_Places\<close> and \<open>Hs_Sample\<close>), \<open>Hs_Progress\<close> for what is never rewound: the trace, the deaths, the
      identities. \<open>Hs_Interface\<close> lifts both to the interface by the locale \<open>simulation_invariant\<close>.
    \<^item> \<open>Hs_Progress\<close>: the loop ends. \<open>Hs_Reachable\<close>: reachable simulations are at rest between calls.
      \<open>Hs_Zone_Theorems\<close>: movements. \<open>Hs_Legal\<close>: legal actions are the accepted ones,
      and listing them panics when the validation of an offer does.
      \<open>Hs_Determinism\<close>: the order of triggers does not depend on the enumeration order; the order of
      the traces of two defeated heroes does. \<open>Hs_Step_Theorems\<close>: stack and damage.
      \<open>Hs_Turns\<close>: turns alternate and account for the granted ones; a late grant comes after its anchor. \<open>Hs_Sample\<close>: how a world is set up, and one with two players, for the witnesses.
    \<^item> Suspension: \<open>Hs_Checkpoint\<close> (\<open>core/checkpoint.rs\<close>, \<open>simulation_checkpoint.rs\<close>, \<open>fork\<close> and \<open>restore\<close> of
      \<open>simulation.rs\<close>) captures, validates and restores the durable state; \<open>Hs_Snapshot\<close>
      (\<open>simulation_snapshot.rs\<close>) is what a host sees. \<open>Hs_Links\<close> and \<open>Hs_Zoned\<close> interpret the locales
      again, for the relation of attachments with its inverse and for entities being in zones;
      with them \<open>Hs_Restore\<close> follows the passes of a restoration, \<open>Hs_Checkpoint_Theorems\<close> shows that no check
      panics, \<open>Hs_Views\<close> that snapshot and legal actions do not see the enumeration, and \<open>Hs_Fork\<close>
      states the properties. A fork may fail: a card program may name an entity that does not exist,
      which the validation of a checkpoint refuses.
    \<^item> Bounds. The loop has as fuel the remaining budget of its sequence plus one; each operation takes
      one unit, so the fuel is never the reason to stop (\<open>drive_resolution_loop\<close>). A movement that
      moves the attachments of its entity has fuel 2: detached attachments go to the removed zone,
      which is never full and has none. Positions and counters of the source are \<open>u32\<close>; the model
      states their limits where the code checks them.

  \<^bold>\<open>Conventions.\<close> Rust arithmetic that overflows panics, as in the builds the tests use; where the
  source saturates, wraps or checks, the model does. A panic is a result of its own. Texts of errors
  keep their constant part. Native effects of cards, the parsers of \<open>uuid\<close> and \<open>rust_decimal\<close>, and
  the SHA-256 fingerprint of a plan are parameters of the definitions that use them.

  \<^bold>\<open>Not modelled\<close>: the storage and network code of the bot and of the book service (SQLx, Discord,
  HTTP), the JSON forms that serde derives for the bot and the simulator, the command lines of the
  ticket publisher and of the review requests with the choice, the permissions and the lock of their state
  directories and the text of their diagnostics, the services \<open>nicknamer\<close> and \<open>nicknamer2\<close>, the other
  build tools, and vendored code. Their behaviour is that of the
  libraries and services they call. Two commands on one batch or one review do not run at the same time: the lock
  is what the model takes for granted.
\<close>

end
